(* ===== verification/FsfwPrelude.thy ===== *)
theory FsfwPrelude
  imports Main "HOL-Library.Word"
begin

text \<open>
  Shared ground of the development: the machine types of the framework
  (\<open>fsfw/returnvalues/HasReturnvaluesIF.h\<close>, \<open>fsfw/returnvalues/FwClassIds.h\<close>), the return
  codes, byte buffers with bounds-checked block copies, and the generic lemmas on lists and
  words that the component theories use.

  Conventions. A \<open>uint8_t\<close>, \<open>uint16_t\<close>, \<open>uint32_t\<close> or \<open>uint64_t\<close> is a word of its width. A
  \<open>size_t\<close> index into a buffer is a \<open>nat\<close> where the code compares it with the buffer's size
  first, and a 64-bit word where its wrap-around can be observed. A function whose C++ body
  can read or write outside a buffer returns an \<open>option\<close>, with \<open>None\<close> for the undefined
  behaviour, so that the absence of undefined behaviour is a statement one can prove.
\<close>

unbundle bit_operations_syntax

named_theorems retcode \<open>definitions of return codes and class identifiers, for evaluation\<close>
named_theorems layout \<open>definitions of byte layouts: getters, setters and offsets of packet fields\<close>

type_synonym u8 = "8 word"
type_synonym u16 = "16 word"
type_synonym u32 = "32 word"
type_synonym u64 = "64 word"
type_synonym bytes = "u8 list"

subsection \<open>Class identifiers and return codes\<close>

text \<open>
  The enumerators of \<open>CLASS_ID\<close> count up from \<open>OPERATING_SYSTEM_ABSTRACTION = 1\<close>.
\<close>

definition OPERATING_SYSTEM_ABSTRACTION :: u8 where [retcode]: "OPERATING_SYSTEM_ABSTRACTION = 1"
definition OBJECT_MANAGER_IF :: u8 where [retcode]: "OBJECT_MANAGER_IF = 2"
definition DEVICE_HANDLER_BASE :: u8 where [retcode]: "DEVICE_HANDLER_BASE = 3"
definition RMAP_CHANNEL :: u8 where [retcode]: "RMAP_CHANNEL = 4"
definition POWER_SWITCH_IF :: u8 where [retcode]: "POWER_SWITCH_IF = 5"
definition HAS_MEMORY_IF :: u8 where [retcode]: "HAS_MEMORY_IF = 6"
definition DEVICE_STATE_MACHINE_BASE :: u8 where [retcode]: "DEVICE_STATE_MACHINE_BASE = 7"
definition DATA_SET_CLASS :: u8 where [retcode]: "DATA_SET_CLASS = 8"
definition POOL_RAW_ACCESS_CLASS :: u8 where [retcode]: "POOL_RAW_ACCESS_CLASS = 9"
definition CONTROLLER_BASE :: u8 where [retcode]: "CONTROLLER_BASE = 10"
definition SUBSYSTEM_BASE :: u8 where [retcode]: "SUBSYSTEM_BASE = 11"
definition MODE_STORE_IF :: u8 where [retcode]: "MODE_STORE_IF = 12"
definition SUBSYSTEM :: u8 where [retcode]: "SUBSYSTEM = 13"
definition HAS_MODES_IF :: u8 where [retcode]: "HAS_MODES_IF = 14"
definition COMMAND_MESSAGE :: u8 where [retcode]: "COMMAND_MESSAGE = 15"
definition CCSDS_TIME_HELPER_CLASS :: u8 where [retcode]: "CCSDS_TIME_HELPER_CLASS = 16"
definition ARRAY_LIST :: u8 where [retcode]: "ARRAY_LIST = 17"
definition ASSEMBLY_BASE :: u8 where [retcode]: "ASSEMBLY_BASE = 18"
definition MEMORY_HELPER :: u8 where [retcode]: "MEMORY_HELPER = 19"
definition SERIALIZE_IF :: u8 where [retcode]: "SERIALIZE_IF = 20"
definition FIXED_MAP :: u8 where [retcode]: "FIXED_MAP = 21"
definition FIXED_MULTIMAP :: u8 where [retcode]: "FIXED_MULTIMAP = 22"
definition HAS_HEALTH_IF :: u8 where [retcode]: "HAS_HEALTH_IF = 23"
definition FIFO_CLASS :: u8 where [retcode]: "FIFO_CLASS = 24"
definition MESSAGE_PROXY :: u8 where [retcode]: "MESSAGE_PROXY = 25"
definition TRIPLE_REDUNDACY_CHECK :: u8 where [retcode]: "TRIPLE_REDUNDACY_CHECK = 26"
definition TC_PACKET_CHECK :: u8 where [retcode]: "TC_PACKET_CHECK = 27"
definition PACKET_DISTRIBUTION :: u8 where [retcode]: "PACKET_DISTRIBUTION = 28"
definition ACCEPTS_TELECOMMANDS_IF :: u8 where [retcode]: "ACCEPTS_TELECOMMANDS_IF = 29"
definition DEVICE_SERVICE_BASE :: u8 where [retcode]: "DEVICE_SERVICE_BASE = 30"
definition COMMAND_SERVICE_BASE :: u8 where [retcode]: "COMMAND_SERVICE_BASE = 31"
definition TM_STORE_BACKEND_IF :: u8 where [retcode]: "TM_STORE_BACKEND_IF = 32"
definition TM_STORE_FRONTEND_IF :: u8 where [retcode]: "TM_STORE_FRONTEND_IF = 33"
definition STORAGE_AND_RETRIEVAL_SERVICE :: u8 where [retcode]: "STORAGE_AND_RETRIEVAL_SERVICE = 34"
definition MATCH_TREE_CLASS :: u8 where [retcode]: "MATCH_TREE_CLASS = 35"
definition EVENT_MANAGER_IF :: u8 where [retcode]: "EVENT_MANAGER_IF = 36"
definition HANDLES_FAILURES_IF :: u8 where [retcode]: "HANDLES_FAILURES_IF = 37"
definition DEVICE_HANDLER_IF :: u8 where [retcode]: "DEVICE_HANDLER_IF = 38"
definition STORAGE_MANAGER_IF :: u8 where [retcode]: "STORAGE_MANAGER_IF = 39"
definition THERMAL_COMPONENT_IF :: u8 where [retcode]: "THERMAL_COMPONENT_IF = 40"
definition INTERNAL_ERROR_CODES :: u8 where [retcode]: "INTERNAL_ERROR_CODES = 41"
definition TRAP :: u8 where [retcode]: "TRAP = 42"
definition CCSDS_HANDLER_IF :: u8 where [retcode]: "CCSDS_HANDLER_IF = 43"
definition PARAMETER_WRAPPER :: u8 where [retcode]: "PARAMETER_WRAPPER = 44"
definition HAS_PARAMETERS_IF :: u8 where [retcode]: "HAS_PARAMETERS_IF = 45"
definition ASCII_CONVERTER :: u8 where [retcode]: "ASCII_CONVERTER = 46"
definition POWER_SWITCHER :: u8 where [retcode]: "POWER_SWITCHER = 47"
definition LIMITS_IF :: u8 where [retcode]: "LIMITS_IF = 48"
definition COMMANDS_ACTIONS_IF :: u8 where [retcode]: "COMMANDS_ACTIONS_IF = 49"
definition HAS_ACTIONS_IF :: u8 where [retcode]: "HAS_ACTIONS_IF = 50"
definition DEVICE_COMMUNICATION_IF :: u8 where [retcode]: "DEVICE_COMMUNICATION_IF = 51"
definition BSP :: u8 where [retcode]: "BSP = 52"
definition TIME_STAMPER_IF :: u8 where [retcode]: "TIME_STAMPER_IF = 53"
definition SGP4PROPAGATOR_CLASS :: u8 where [retcode]: "SGP4PROPAGATOR_CLASS = 54"
definition MUTEX_IF :: u8 where [retcode]: "MUTEX_IF = 55"
definition MESSAGE_QUEUE_IF :: u8 where [retcode]: "MESSAGE_QUEUE_IF = 56"
definition SEMAPHORE_IF :: u8 where [retcode]: "SEMAPHORE_IF = 57"
definition LOCAL_POOL_OWNER_IF :: u8 where [retcode]: "LOCAL_POOL_OWNER_IF = 58"
definition POOL_VARIABLE_IF :: u8 where [retcode]: "POOL_VARIABLE_IF = 59"
definition HOUSEKEEPING_MANAGER :: u8 where [retcode]: "HOUSEKEEPING_MANAGER = 60"
definition DLE_ENCODER :: u8 where [retcode]: "DLE_ENCODER = 61"
definition PUS_SERVICE_9 :: u8 where [retcode]: "PUS_SERVICE_9 = 62"

definition MAKE_RETURN_CODE :: "u8 \<Rightarrow> u8 \<Rightarrow> u16" where
  [retcode]: "MAKE_RETURN_CODE cls number = push_bit 8 (ucast cls) + ucast number"

definition makeReturnCode :: "u8 \<Rightarrow> u8 \<Rightarrow> u16" where
  [retcode]: "makeReturnCode interfaceId number = push_bit 8 (ucast interfaceId) + ucast number"

definition RETURN_OK :: u16 where [retcode]: "RETURN_OK = 0"
definition RETURN_FAILED :: u16 where [retcode]: "RETURN_FAILED = 1"

definition CHILD_INIT_FAILED :: u16 where [retcode]: "CHILD_INIT_FAILED = MAKE_RETURN_CODE OBJECT_MANAGER_IF 3"

lemma makeReturnCode_inject:
  "makeReturnCode i n = makeReturnCode j m \<longleftrightarrow> i = j \<and> n = m"
proof
  assume eq: "makeReturnCode i n = makeReturnCode j m"
  have bits: "bit (makeReturnCode a b) k = (if k < 8 then bit b k else k < 16 \<and> bit a (k - 8))" for a b k
    by (subst makeReturnCode_def, subst disjunctive_add)
       (auto simp: bit_simps dest: bit_imp_le_length)
  have "bit n k = bit m k" if "k < 8" for k
    using bits[of i n k] bits[of j m k] eq that by simp
  moreover have "bit i k = bit j k" if "k < 8" for k
    using bits[of i n "k + 8"] bits[of j m "k + 8"] eq that by simp
  ultimately show "i = j \<and> n = m"
    by (auto intro!: bit_word_eqI)
qed simp

lemma MAKE_RETURN_CODE_eq: "MAKE_RETURN_CODE c n = makeReturnCode c n"
  by (simp add: MAKE_RETURN_CODE_def makeReturnCode_def)

lemma MAKE_RETURN_CODE_inject:
  "MAKE_RETURN_CODE c n = MAKE_RETURN_CODE d m \<longleftrightarrow> c = d \<and> n = m"
  by (simp add: MAKE_RETURN_CODE_eq makeReturnCode_inject)

lemma RETURN_OK_eq: "RETURN_OK = makeReturnCode 0 0"
  by (simp add: retcode)

lemma RETURN_FAILED_eq: "RETURN_FAILED = makeReturnCode 0 1"
  by (simp add: retcode)

text \<open>The codes of a class never collide with the two generic codes.\<close>

lemma MAKE_RETURN_CODE_generic:
  assumes "c \<noteq> 0"
  shows "MAKE_RETURN_CODE c n \<noteq> RETURN_OK" "RETURN_OK \<noteq> MAKE_RETURN_CODE c n"
    "MAKE_RETURN_CODE c n \<noteq> RETURN_FAILED" "RETURN_FAILED \<noteq> MAKE_RETURN_CODE c n"
  using assms
  by (auto simp: MAKE_RETURN_CODE_eq RETURN_OK_eq RETURN_FAILED_eq makeReturnCode_inject)

lemma RETURN_OK_FAILED [simp]: "RETURN_OK \<noteq> RETURN_FAILED" "RETURN_FAILED \<noteq> RETURN_OK"
  by (simp_all add: retcode)

subsection \<open>Events\<close>

text \<open>\<open>MAKE_EVENT(id, severity)\<close> of a subsystem.\<close>

definition MAKE_EVENT :: "u32 \<Rightarrow> u32 \<Rightarrow> u8 \<Rightarrow> u32" where
  "MAKE_EVENT subsystem n severity = push_bit 16 (ucast severity) + subsystem * 100 + n"

definition SEVERITY_INFO :: u8 where "SEVERITY_INFO = 1"
definition SEVERITY_LOW :: u8 where "SEVERITY_LOW = 2"
definition SEVERITY_MEDIUM :: u8 where "SEVERITY_MEDIUM = 3"
definition SEVERITY_HIGH :: u8 where "SEVERITY_HIGH = 4"

definition getEventId :: "u32 \<Rightarrow> u16" where
  "getEventId event = ucast event"

definition getSeverity :: "u32 \<Rightarrow> u8" where
  "getSeverity event = ucast (drop_bit 16 event)"

definition makeEvent :: "u16 \<Rightarrow> u8 \<Rightarrow> u32" where
  "makeEvent eventId eventSeverity = push_bit 16 (ucast eventSeverity) + ucast eventId"

subsection \<open>Byte buffers\<close>

text \<open>
  \<open>memcpy(&dst[off], src, n)\<close> and \<open>memmove(&xs[dst], &xs[src], n)\<close>: undefined outside the
  buffers.
\<close>

definition mem_copy :: "'a list \<Rightarrow> nat \<Rightarrow> 'a list \<Rightarrow> nat \<Rightarrow> 'a list option" where
  "mem_copy dst off src n =
     (if off + n \<le> length dst \<and> n \<le> length src
      then Some (take off dst @ take n src @ drop (off + n) dst) else None)"

definition mem_read :: "'a list \<Rightarrow> nat \<Rightarrow> nat \<Rightarrow> 'a list option" where
  "mem_read buf off n = (if off + n \<le> length buf then Some (take n (drop off buf)) else None)"

definition mem_move :: "'a list \<Rightarrow> nat \<Rightarrow> nat \<Rightarrow> nat \<Rightarrow> 'a list option" where
  "mem_move xs dst src n = Option.bind (mem_read xs src n) (\<lambda>blk. mem_copy xs dst blk n)"

lemma length_mem_copy: "mem_copy dst off src n = Some d \<Longrightarrow> length d = length dst"
  by (auto simp: mem_copy_def split: if_splits)

lemma length_mem_read: "mem_read buf off n = Some d \<Longrightarrow> length d = n"
  by (auto simp: mem_read_def split: if_splits)

lemma mem_copy_total: "off + n \<le> length dst \<Longrightarrow> n \<le> length src \<Longrightarrow>
    mem_copy dst off src n = Some (take off dst @ take n src @ drop (off + n) dst)"
  by (simp add: mem_copy_def)

lemma mem_read_copy:
  assumes "mem_copy dst off src n = Some d"
  shows "mem_read d off n = Some (take n src)"
  using assms by (auto simp: mem_copy_def mem_read_def min_def split: if_splits)

lemma mem_read_copy_disjoint:
  assumes "mem_copy dst off src n = Some d" and "off' + n' \<le> off \<or> off + n \<le> off'"
  shows "mem_read d off' n' = mem_read dst off' n'"
proof -
  have len: "length d = length dst" using assms(1) by (rule length_mem_copy)
  have d: "d = take off dst @ take n src @ drop (off + n) dst"
    and b: "off + n \<le> length dst" "n \<le> length src"
    using assms(1) by (auto simp: mem_copy_def split: if_splits)
  have "d ! k = dst ! k" if "k < off \<or> off + n \<le> k" "k < length dst" for k
    using that b by (auto simp: d nth_append min_def)
  then have "take n' (drop off' d) = take n' (drop off' dst)" if "off' + n' \<le> length dst"
    using assms(2) that len by (intro nth_equalityI) auto
  then show ?thesis by (simp add: mem_read_def len)
qed

text \<open>\<open>memcpy(&p[off], data, n)\<close> inside a buffer known to be long enough.\<close>

definition put_bytes :: "'a list \<Rightarrow> nat \<Rightarrow> 'a list \<Rightarrow> 'a list" where
  "put_bytes p off data = take off p @ data @ drop (off + length data) p"

lemma length_put_bytes [simp]: "off + length data \<le> length p \<Longrightarrow> length (put_bytes p off data) = length p"
  by (simp add: put_bytes_def)

lemma take_put_bytes: "off + length data \<le> length p \<Longrightarrow> k \<le> off \<Longrightarrow> take k (put_bytes p off data) = take k p"
  by (simp add: put_bytes_def)

text \<open>Reading the bytes \<open>n\<close> from offset \<open>off\<close>.\<close>

definition get_bytes :: "'a list \<Rightarrow> nat \<Rightarrow> nat \<Rightarrow> 'a list" where
  "get_bytes p off n = take n (drop off p)"

lemma nth_put_bytes:
  "off + length d \<le> length p \<Longrightarrow> i < length p \<Longrightarrow>
     put_bytes p off d ! i = (if off \<le> i \<and> i < off + length d then d ! (i - off) else p ! i)"
  by (auto simp: put_bytes_def nth_append)

lemma get_put_bytes [simp]:
  "off + length data \<le> length p \<Longrightarrow> n = length data \<Longrightarrow> get_bytes (put_bytes p off data) off n = data"
  by (simp add: get_bytes_def put_bytes_def)

lemma get_put_bytes_other:
  assumes "off + length data \<le> length p" "k + n \<le> off \<or> off + length data \<le> k" "k + n \<le> length p"
  shows "get_bytes (put_bytes p off data) k n = get_bytes p k n"
proof (rule nth_equalityI)
  show "length (get_bytes (put_bytes p off data) k n) = length (get_bytes p k n)"
    using assms by (simp add: get_bytes_def)
  fix i assume "i < length (get_bytes (put_bytes p off data) k n)"
  then have "i < n" using assms by (simp add: get_bytes_def)
  then show "get_bytes (put_bytes p off data) k n ! i = get_bytes p k n ! i"
    using assms by (auto simp: get_bytes_def put_bytes_def nth_append)
qed

subsection \<open>Words as bytes\<close>

lemma unat_ucast_up:
  "LENGTH('a) \<le> LENGTH('b) \<Longrightarrow> unat (ucast (w :: 'a::len word) :: 'b::len word) = unat w"
  by (simp add: unsigned_ucast_eq take_bit_nat_eq_self_iff)
     (meson order.strict_trans2 power_increasing one_le_numeral unsigned_less)

lemma unat_ucast_up_u8 [simp]: "unat (ucast (b :: u8) :: u16) = unat b"
    "unat (ucast (b :: u8) :: u32) = unat b"
  by (simp_all add: unat_ucast_up)

lemma unat_u8_less [simp]: "unat (b :: u8) < 256"
  using unsigned_less[of b, where ?'a = nat] by simp

lemma unat_u16_less [simp]: "unat (w :: u16) < 65536"
  using unsigned_less[of w, where ?'a = nat] by simp

lemma unat_u32_less [simp]: "unat (w :: u32) < 4294967296"
  using unsigned_less[of w, where ?'a = nat] by simp

subsection \<open>Object representations\<close>

text \<open>
  \<open>le_bytes n w\<close> are the low \<open>n\<close> bytes of \<open>w\<close>, least significant first; \<open>of_le_bytes\<close> reads
  them back. Big-endian layouts are the reversed lists.
\<close>

definition le_bytes :: "nat \<Rightarrow> 'a::len word \<Rightarrow> bytes" where
  "le_bytes n w = map (\<lambda>i. ucast (drop_bit (8 * i) w)) [0..<n]"

primrec of_le_bytes :: "bytes \<Rightarrow> 'a::len word" where
  "of_le_bytes [] = 0"
| "of_le_bytes (b # bs) = ucast b OR push_bit 8 (of_le_bytes bs)"

definition be_bytes :: "nat \<Rightarrow> 'a::len word \<Rightarrow> bytes" where
  "be_bytes n w = rev (le_bytes n w)"

definition of_be_bytes :: "bytes \<Rightarrow> 'a::len word" where
  "of_be_bytes bs = of_le_bytes (rev bs)"

lemma length_le_bytes [simp]: "length (le_bytes n w) = n"
  by (simp add: le_bytes_def)

lemma length_be_bytes [simp]: "length (be_bytes n w) = n"
  by (simp add: be_bytes_def)

lemma bit_of_le_bytes:
  "bit (of_le_bytes bs :: 'a::len word) k \<longleftrightarrow>
     k < LENGTH('a) \<and> k div 8 < length bs \<and> bit (bs ! (k div 8)) (k mod 8)"
proof (induction bs arbitrary: k)
  case (Cons b bs)
  show ?case
  proof (cases "k < 8")
    case True
    then show ?thesis by (auto simp: bit_simps)
  next
    case False
    then obtain j where k: "k = j + 8" by (metis add.commute le_iff_add not_less)
    have "\<not> bit b (j + 8)" using bit_imp_le_length[of b "j + 8"] by auto
    moreover have "(j + 8) div 8 = Suc (j div 8)" by simp
    ultimately show ?thesis using Cons.IH[of j] by (auto simp: k bit_simps)
  qed
qed simp

lemma of_le_bytes_le_bytes:
  "LENGTH('a) \<le> 8 * n \<Longrightarrow> of_le_bytes (le_bytes n (w :: 'a::len word)) = w"
proof (rule bit_word_eqI)
  fix k assume n: "LENGTH('a) \<le> 8 * n" and k: "k < LENGTH('a)"
  then have "k div 8 < n" by (simp add: less_mult_imp_div_less mult.commute)
  with k show "bit (of_le_bytes (le_bytes n w) :: 'a word) k = bit w k"
    by (simp add: bit_of_le_bytes le_bytes_def bit_simps)
qed

lemma le_bytes_of_le_bytes:
  assumes "8 * length bs \<le> LENGTH('a)"
  shows "le_bytes (length bs) (of_le_bytes bs :: 'a::len word) = bs"
proof (rule nth_equalityI)
  fix i assume i: "i < length (le_bytes (length bs) (of_le_bytes bs :: 'a word))"
  show "le_bytes (length bs) (of_le_bytes bs :: 'a word) ! i = bs ! i"
  proof (rule bit_word_eqI)
    fix k assume k: "k < LENGTH(8)"
    with i have "8 * i + k < LENGTH('a)" using assms by simp
    with i k show "bit (le_bytes (length bs) (of_le_bytes bs :: 'a word) ! i) k = bit (bs ! i) k"
      by (simp add: le_bytes_def bit_simps bit_of_le_bytes add.commute)
  qed
qed simp

lemma of_be_bytes_be_bytes [simp]:
  "LENGTH('a) \<le> 8 * n \<Longrightarrow> of_be_bytes (be_bytes n (w :: 'a::len word)) = w"
  by (simp add: of_be_bytes_def be_bytes_def of_le_bytes_le_bytes)

subsection \<open>Scanning loops\<close>

text \<open>
  \<open>for (i = start; i < n; ++i) if (p(xs[i])) return i; return i;\<close> the search loop that the
  containers share.
\<close>

function scan_index :: "('a \<Rightarrow> bool) \<Rightarrow> 'a list \<Rightarrow> nat \<Rightarrow> nat \<Rightarrow> nat" where
  "scan_index p xs i n = (if i < n then (if p (xs ! i) then i else scan_index p xs (Suc i) n) else i)"
  by pat_completeness auto
termination
  by (relation "measure (\<lambda>(p, xs, i, n). n - i)") auto

declare scan_index.simps [simp del]

lemma scan_index_end: "n \<le> i \<Longrightarrow> scan_index p xs i n = i"
  by (simp add: scan_index.simps)

lemma scan_index_hit: "i < n \<Longrightarrow> p (xs ! i) \<Longrightarrow> scan_index p xs i n = i"
  by (simp add: scan_index.simps)

lemma scan_index_step: "i < n \<Longrightarrow> \<not> p (xs ! i) \<Longrightarrow> scan_index p xs i n = scan_index p xs (Suc i) n"
  by (simp add: scan_index.simps[of p xs i n])

lemmas scan_index_rules = scan_index_end scan_index_hit scan_index_step

lemma scan_index_found:
  "i \<le> n \<Longrightarrow> scan_index p xs i n < n \<Longrightarrow> p (xs ! scan_index p xs i n)"
proof (induction p xs i n rule: scan_index.induct)
  case (1 p xs i n)
  then show ?case by (cases "i < n"; cases "p (xs ! i)") (simp_all add: scan_index_rules)
qed

lemma scan_index_ge: "i \<le> scan_index p xs i n"
proof (induction p xs i n rule: scan_index.induct)
  case (1 p xs i n)
  then show ?case by (cases "i < n"; cases "p (xs ! i)") (simp_all add: scan_index_rules)
qed

lemma scan_index_le: "i \<le> n \<Longrightarrow> scan_index p xs i n \<le> n"
proof (induction p xs i n rule: scan_index.induct)
  case (1 p xs i n)
  then show ?case by (cases "i < n"; cases "p (xs ! i)") (simp_all add: scan_index_rules)
qed

lemma scan_index_before: "i \<le> k \<Longrightarrow> k < scan_index p xs i n \<Longrightarrow> i \<le> n \<Longrightarrow> \<not> p (xs ! k)"
proof (induction p xs i n rule: scan_index.induct)
  case (1 p xs i n)
  show ?case
  proof (cases "i < n \<and> \<not> p (xs ! i)")
    case True
    then show ?thesis using "1.IH" "1.prems" by (cases "i = k") (simp_all add: scan_index_rules)
  next
    case False
    then have "scan_index p xs i n = i" by (cases "i < n") (simp_all add: scan_index_rules)
    with "1.prems" show ?thesis by simp
  qed
qed

lemma scan_index_none: "i \<le> n \<Longrightarrow> scan_index p xs i n = n \<longleftrightarrow> (\<forall>k. i \<le> k \<and> k < n \<longrightarrow> \<not> p (xs ! k))"
proof
  assume "i \<le> n" "scan_index p xs i n = n"
  then show "\<forall>k. i \<le> k \<and> k < n \<longrightarrow> \<not> p (xs ! k)" using scan_index_before[of i _ p xs n] by auto
next
  assume i: "i \<le> n" and no: "\<forall>k. i \<le> k \<and> k < n \<longrightarrow> \<not> p (xs ! k)"
  show "scan_index p xs i n = n"
    using scan_index_found[OF i, of p xs] scan_index_ge[of i p xs n] scan_index_le[OF i, of p xs] no
    by (metis le_neq_implies_less)
qed

lemma scan_index_less_iff: "scan_index p xs 0 n < n \<longleftrightarrow> (\<exists>k < n. p (xs ! k))"
proof -
  have "scan_index p xs 0 n < n \<longleftrightarrow> scan_index p xs 0 n \<noteq> n"
    using scan_index_le[of 0 n p xs] by (simp only: nat_less_le le0 simp_thms)
  also have "\<dots> \<longleftrightarrow> (\<exists>k < n. p (xs ! k))"
    using scan_index_none[of 0 n p xs] by simp
  finally show ?thesis .
qed

subsection \<open>Bit fields of bytes and half words\<close>

text \<open>Two bytes combined by shift and addition, as the getters of the packet headers do.\<close>

lemma hi_lo_plus:
  "push_bit 8 (ucast (h :: u8)) + ucast (l :: u8) = (push_bit 8 (ucast h) OR ucast l :: 'b::len word)"
  by (rule disjunctive_add_eq_or) (auto simp: bit_eq_iff bit_simps dest: bit_imp_le_length)

lemma word8_eqI:
  fixes a b :: u8
  assumes "bit a 0 = bit b 0" "bit a 1 = bit b 1" "bit a 2 = bit b 2" "bit a 3 = bit b 3"
    "bit a 4 = bit b 4" "bit a 5 = bit b 5" "bit a 6 = bit b 6" "bit a 7 = bit b 7"
  shows "a = b"
proof (rule bit_word_eqI)
  fix n assume "n < LENGTH(8)"
  then have "n \<in> {0, 1, 2, 3, 4, 5, 6, 7}" by auto
  then show "bit a n = bit b n" using assms by auto
qed

lemma word16_eqI:
  fixes a b :: u16
  assumes "bit a 0 = bit b 0" "bit a 1 = bit b 1" "bit a 2 = bit b 2" "bit a 3 = bit b 3"
    "bit a 4 = bit b 4" "bit a 5 = bit b 5" "bit a 6 = bit b 6" "bit a 7 = bit b 7"
    "bit a 8 = bit b 8" "bit a 9 = bit b 9" "bit a 10 = bit b 10" "bit a 11 = bit b 11"
    "bit a 12 = bit b 12" "bit a 13 = bit b 13" "bit a 14 = bit b 14" "bit a 15 = bit b 15"
  shows "a = b"
proof (rule bit_word_eqI)
  fix n assume "n < LENGTH(16)"
  then have "n \<in> {0, 1, 2, 3, 4, 5, 6, 7, 8, 9, 10, 11, 12, 13, 14, 15}" by (simp, presburger)
  then show "bit a n = bit b n" using assms by auto
qed

lemma ucast_bit_ge: "LENGTH('a) \<le> n \<Longrightarrow> \<not> bit (ucast (w :: 'a::len word) :: 'b::len word) n"
  by (auto simp: bit_simps dest: bit_imp_le_length)

lemma unat_hi_lo: "unat (push_bit 8 (ucast (h :: u8)) + ucast (l :: u8) :: u16) = 256 * unat h + unat l"
proof -
  have "unat h * 256 + unat l < 65536"
    using unat_u8_less[of h] unat_u8_less[of l] by linarith
  then show ?thesis
    by (simp add: unat_word_ariths push_bit_eq_mult unat_ucast_up mod_less)
qed

text \<open>A value passed through a wider parameter of a message.\<close>

lemma ucast_through [simp]:
  "ucast (ucast (w :: u16) :: u32) = w" "ucast (ucast (b :: u8) :: u32) = b" "ucast (ucast (b :: u8) :: u16) = b"
  by (rule bit_word_eqI, simp add: bit_simps)+

end
