(* ===== verification/Fifo.thy ===== *)
theory Fifo
  imports FsfwPrelude
begin

text \<open>
  The first-in-first-out containers of \<open>fsfw/container/FIFOBase.tpp\<close> (\<open>FIFO\<close> and
  \<open>DynamicFIFO\<close> only choose where the array lives) and the interface \<open>bounded_queue\<close> that the
  services using them rely on. \<open>fifo_abs\<close> reads the queued values, oldest first; the
  refinement lemmas say that \<open>insert\<close> appends, \<open>retrieve\<close> and \<open>pop\<close> remove the head,
  \<open>peek\<close> reads it, each with the code's return values.
\<close>

definition FIFO_FULL :: u16 where [retcode]: "FIFO_FULL = MAKE_RETURN_CODE FIFO_CLASS 1"
definition FIFO_EMPTY :: u16 where [retcode]: "FIFO_EMPTY = MAKE_RETURN_CODE FIFO_CLASS 2"

lemma fifo_codes [simp]:
  "FIFO_FULL \<noteq> RETURN_OK" "FIFO_EMPTY \<noteq> RETURN_OK" "RETURN_OK \<noteq> FIFO_FULL" "RETURN_OK \<noteq> FIFO_EMPTY"
  "FIFO_EMPTY \<noteq> FIFO_FULL" "FIFO_EMPTY \<noteq> RETURN_FAILED"
  by (simp_all add: retcode)

subsection \<open>State and operations\<close>

record 'a fifo =
  maxCapacity :: nat
  fifo_values :: "'a list"
  readIndex :: nat
  writeIndex :: nat
  currentSize :: nat

definition FIFOBase_new :: "'a list \<Rightarrow> nat \<Rightarrow> 'a fifo" where
  "FIFOBase_new vals cap =
     \<lparr>maxCapacity = cap, fifo_values = vals, readIndex = 0, writeIndex = 0, currentSize = 0\<rparr>"

definition FIFO_empty :: "'a fifo \<Rightarrow> bool" where
  "FIFO_empty f \<longleftrightarrow> currentSize f = 0"

definition FIFO_full :: "'a fifo \<Rightarrow> bool" where
  "FIFO_full f \<longleftrightarrow> currentSize f = maxCapacity f"

definition FIFO_size :: "'a fifo \<Rightarrow> nat" where
  "FIFO_size f = currentSize f"

definition FIFO_next :: "'a fifo \<Rightarrow> nat \<Rightarrow> nat" where
  "FIFO_next f current = (if Suc current = maxCapacity f then 0 else Suc current)"

definition FIFO_insert :: "'a fifo \<Rightarrow> 'a \<Rightarrow> u16 \<times> 'a fifo" where
  "FIFO_insert f v =
     (if FIFO_full f then (FIFO_FULL, f)
      else (RETURN_OK,
            f\<lparr>fifo_values := (fifo_values f)[writeIndex f := v],
              writeIndex := FIFO_next f (writeIndex f),
              currentSize := currentSize f + 1\<rparr>))"

text \<open>
  The argument of \<open>retrieve\<close> and \<open>peek\<close> is a pointer: \<open>dest\<close> says whether it is not null. The
  second component of the result is the value written through it.
\<close>

definition FIFO_retrieve :: "'a fifo \<Rightarrow> bool \<Rightarrow> u16 \<times> 'a option \<times> 'a fifo" where
  "FIFO_retrieve f dest =
     (if FIFO_empty f then (FIFO_EMPTY, None, f)
      else if \<not> dest then (RETURN_FAILED, None, f)
      else (RETURN_OK, Some (fifo_values f ! readIndex f),
            f\<lparr>readIndex := FIFO_next f (readIndex f), currentSize := currentSize f - 1\<rparr>))"

definition FIFO_peek :: "'a fifo \<Rightarrow> bool \<Rightarrow> u16 \<times> 'a option" where
  "FIFO_peek f dest =
     (if FIFO_empty f then (FIFO_EMPTY, None)
      else if \<not> dest then (RETURN_FAILED, None)
      else (RETURN_OK, Some (fifo_values f ! readIndex f)))"

definition FIFO_pop :: "'a fifo \<Rightarrow> u16 \<times> 'a fifo" where
  "FIFO_pop f = (case FIFO_retrieve f True of (r, _, f') \<Rightarrow> (r, f'))"

subsection \<open>Invariant and abstraction\<close>

definition fifo_inv :: "'a fifo \<Rightarrow> bool" where
  "fifo_inv f \<longleftrightarrow> length (fifo_values f) = maxCapacity f \<and> currentSize f \<le> maxCapacity f \<and>
     (0 < maxCapacity f \<longrightarrow> readIndex f < maxCapacity f \<and>
        writeIndex f = (readIndex f + currentSize f) mod maxCapacity f)"

definition fifo_abs :: "'a fifo \<Rightarrow> 'a list" where
  "fifo_abs f = map (\<lambda>i. fifo_values f ! ((readIndex f + i) mod maxCapacity f)) [0..<currentSize f]"

lemma length_fifo_abs [simp]: "length (fifo_abs f) = currentSize f"
  by (simp add: fifo_abs_def)

lemma fifo_next_mod: "i < maxCapacity f \<Longrightarrow> FIFO_next f i = Suc i mod maxCapacity f"
  by (auto simp: FIFO_next_def mod_Suc)

lemma fifo_inv_new: "length vals = cap \<Longrightarrow> fifo_inv (FIFOBase_new vals cap)"
  by (simp add: fifo_inv_def FIFOBase_new_def)

lemma fifo_abs_new [simp]: "fifo_abs (FIFOBase_new vals cap) = []"
  by (simp add: fifo_abs_def FIFOBase_new_def)

lemma maxCapacity_new [simp]: "maxCapacity (FIFOBase_new vals cap) = cap"
  by (simp add: FIFOBase_new_def)

lemma mod_offset_inject:
  fixes c :: nat
  assumes "i < c" "j < c" "(r + i) mod c = (r + j) mod c"
  shows "i = j"
proof -
  have le: "a = b" if "a \<le> b" "b < c" "(r + a) mod c = (r + b) mod c" for a b
  proof -
    from that have "c dvd (r + b) - (r + a)"
      by (metis add_le_cancel_left mod_eq_dvd_iff_nat)
    then have "c dvd b - a" by simp
    with that show ?thesis by (auto dest: dvd_imp_le)
  qed
  show ?thesis using le[of i j] le[of j i] assms by (cases "i \<le> j") auto
qed

subsection \<open>The operations refine a bounded list\<close>

lemma FIFO_insert_full:
  "fifo_inv f \<Longrightarrow> length (fifo_abs f) = maxCapacity f \<Longrightarrow> FIFO_insert f v = (FIFO_FULL, f)"
  by (simp add: FIFO_insert_def FIFO_full_def)

lemma FIFO_insert_ok:
  assumes inv: "fifo_inv f" and room: "length (fifo_abs f) < maxCapacity f"
  shows "\<exists>f'. FIFO_insert f v = (RETURN_OK, f') \<and> fifo_inv f' \<and> fifo_abs f' = fifo_abs f @ [v] \<and>
     maxCapacity f' = maxCapacity f"
proof -
  let ?c = "maxCapacity f" and ?n = "currentSize f" and ?r = "readIndex f"
  let ?f = "f\<lparr>fifo_values := (fifo_values f)[writeIndex f := v],
              writeIndex := FIFO_next f (writeIndex f), currentSize := ?n + 1\<rparr>"
  have n: "?n < ?c" and c: "0 < ?c" using room by simp_all
  with inv have r: "?r < ?c" and w: "writeIndex f = (?r + ?n) mod ?c"
    and len: "length (fifo_values f) = ?c" by (auto simp: fifo_inv_def)
  have ins: "FIFO_insert f v = (RETURN_OK, ?f)" using n by (simp add: FIFO_insert_def FIFO_full_def)
  have "writeIndex f < ?c" using c w by simp
  then have inv': "fifo_inv ?f"
    using n r w len by (simp add: fifo_inv_def fifo_next_mod mod_Suc_eq)
  have same: "(fifo_values f)[writeIndex f := v] ! ((?r + i) mod ?c) = fifo_values f ! ((?r + i) mod ?c)"
    if "i < ?n" for i
    using mod_offset_inject[of ?n ?c i ?r] that n w by (intro nth_list_update_neq) auto
  have "fifo_abs ?f = fifo_abs f @ [v]"
    using c len same by (simp add: fifo_abs_def w)
  with ins inv' show ?thesis by auto
qed

lemma FIFO_retrieve_empty: "fifo_abs f = [] \<Longrightarrow> FIFO_retrieve f dest = (FIFO_EMPTY, None, f)"
  by (simp add: FIFO_retrieve_def FIFO_empty_def fifo_abs_def)

lemma FIFO_retrieve_ok:
  assumes inv: "fifo_inv f" and q: "fifo_abs f = x # xs"
  shows "\<exists>f'. FIFO_retrieve f True = (RETURN_OK, Some x, f') \<and> fifo_inv f' \<and> fifo_abs f' = xs \<and>
     maxCapacity f' = maxCapacity f"
proof -
  let ?c = "maxCapacity f" and ?r = "readIndex f"
  obtain n where n: "currentSize f = Suc n" using q by (metis length_fifo_abs length_Cons)
  then have c: "0 < ?c" using inv by (auto simp: fifo_inv_def)
  with inv n have r: "?r < ?c" and w: "writeIndex f = (?r + Suc n) mod ?c"
    and len: "length (fifo_values f) = ?c" "Suc n \<le> ?c" by (auto simp: fifo_inv_def)
  let ?f = "f\<lparr>readIndex := FIFO_next f ?r, currentSize := n\<rparr>"
  have split: "fifo_abs f = fifo_values f ! ?r # map (\<lambda>i. fifo_values f ! ((?r + Suc i) mod ?c)) [0..<n]"
    using r by (simp add: fifo_abs_def n upt_conv_Cons map_Suc_upt[symmetric] del: upt_Suc)
  have "FIFO_retrieve f True = (RETURN_OK, Some x, ?f)"
    using n split q by (simp add: FIFO_retrieve_def FIFO_empty_def)
  moreover have "fifo_inv ?f"
    using len r w by (simp add: fifo_inv_def fifo_next_mod mod_Suc_eq mod_add_left_eq) 
  moreover have "fifo_abs ?f = xs"
    using split q r by (simp add: fifo_abs_def fifo_next_mod mod_add_left_eq)
  ultimately show ?thesis by auto
qed

lemma FIFO_retrieve_null: "fifo_abs f \<noteq> [] \<Longrightarrow> FIFO_retrieve f False = (RETURN_FAILED, None, f)"
  by (auto simp: FIFO_retrieve_def FIFO_empty_def fifo_abs_def)

lemma FIFO_peek_ok:
  assumes "fifo_inv f" "fifo_abs f = x # xs"
  shows "FIFO_peek f True = (RETURN_OK, Some x)"
  using FIFO_retrieve_ok[OF assms] by (auto simp: FIFO_peek_def FIFO_retrieve_def split: if_splits)

lemma FIFO_pop_ok:
  assumes "fifo_inv f" "fifo_abs f = x # xs"
  shows "\<exists>f'. FIFO_pop f = (RETURN_OK, f') \<and> fifo_inv f' \<and> fifo_abs f' = xs"
  using FIFO_retrieve_ok[OF assms] by (auto simp: FIFO_pop_def)

subsection \<open>The interface the services use\<close>

fun put_all :: "('q \<Rightarrow> 'a \<Rightarrow> u16 \<times> 'q) \<Rightarrow> 'q \<Rightarrow> 'a list \<Rightarrow> 'q" where
  "put_all put q [] = q"
| "put_all put q (x # xs) = put_all put (snd (put q x)) xs"

fun get_n :: "('q \<Rightarrow> u16 \<times> 'a option \<times> 'q) \<Rightarrow> 'q \<Rightarrow> nat \<Rightarrow> 'a option list \<times> 'q" where
  "get_n get q 0 = ([], q)"
| "get_n get q (Suc n) =
     (case get q of (_, v, q') \<Rightarrow> case get_n get q' n of (vs, q'') \<Rightarrow> (v # vs, q''))"

locale bounded_queue =
  fixes put :: "'q \<Rightarrow> 'a \<Rightarrow> u16 \<times> 'q"
    and get :: "'q \<Rightarrow> u16 \<times> 'a option \<times> 'q"
    and content :: "'q \<Rightarrow> 'a list"
    and capacity :: "'q \<Rightarrow> nat"
    and item :: "'a \<Rightarrow> bool"
    and ok :: "'q \<Rightarrow> bool"
  assumes put_room: "ok q \<Longrightarrow> item x \<Longrightarrow> length (content q) < capacity q \<Longrightarrow>
        \<exists>q'. put q x = (RETURN_OK, q') \<and> ok q' \<and> content q' = content q @ [x] \<and> capacity q' = capacity q"
    and put_full: "ok q \<Longrightarrow> item x \<Longrightarrow> length (content q) = capacity q \<Longrightarrow> \<exists>r. r \<noteq> RETURN_OK \<and> put q x = (r, q)"
    and get_some: "ok q \<Longrightarrow> content q = x # xs \<Longrightarrow>
        \<exists>q'. get q = (RETURN_OK, Some x, q') \<and> ok q' \<and> content q' = xs \<and> capacity q' = capacity q"
    and get_none: "ok q \<Longrightarrow> content q = [] \<Longrightarrow> \<exists>r. r \<noteq> RETURN_OK \<and> get q = (r, None, q)"
    and bounded: "ok q \<Longrightarrow> length (content q) \<le> capacity q"
begin

lemma put_cases:
  assumes "ok q" "item x"
  obtains (room) q' where "put q x = (RETURN_OK, q')" "ok q'" "content q' = content q @ [x]"
      "capacity q' = capacity q" "length (content q) < capacity q"
    | (full) r where "r \<noteq> RETURN_OK" "put q x = (r, q)" "length (content q) = capacity q"
proof (cases "length (content q) < capacity q")
  case True
  then show ?thesis using put_room[OF assms] room by blast
next
  case False
  then have "length (content q) = capacity q" using bounded[OF assms(1)] by simp
  then show ?thesis using put_full[OF assms] full by blast
qed

lemma put_all_content:
  "ok q \<Longrightarrow> \<forall>x \<in> set xs. item x \<Longrightarrow> length (content q) + length xs \<le> capacity q \<Longrightarrow>
     ok (put_all put q xs) \<and> content (put_all put q xs) = content q @ xs \<and>
     capacity (put_all put q xs) = capacity q"
proof (induction xs arbitrary: q)
  case (Cons x xs)
  from Cons.prems obtain q' where "put q x = (RETURN_OK, q')" "ok q'" "content q' = content q @ [x]"
      "capacity q' = capacity q"
    using put_room[of q x] by auto
  with Cons.IH[of q'] Cons.prems show ?case by simp
qed simp

lemma put_all_overflow:
  "ok q \<Longrightarrow> \<forall>x \<in> set xs. item x \<Longrightarrow> content (put_all put q xs) = take (capacity q) (content q @ xs) \<and> ok (put_all put q xs)"
proof (induction xs arbitrary: q)
  case Nil
  then show ?case using bounded[of q] by simp
next
  case (Cons x xs)
  then have "ok q" "item x" by simp_all
  then show ?case
  proof (cases rule: put_cases[of q x])
    case (room q')
    with Cons.IH[of q'] Cons.prems show ?thesis by simp
  next
    case (full r)
    with Cons.IH[of q] Cons.prems show ?thesis by simp
  qed
qed

lemma get_n_content:
  "ok q \<Longrightarrow> n \<le> length (content q) \<Longrightarrow>
     fst (get_n get q n) = map Some (take n (content q)) \<and> ok (snd (get_n get q n)) \<and>
     content (snd (get_n get q n)) = drop n (content q)"
proof (induction n arbitrary: q)
  case (Suc n)
  then obtain x xs where q: "content q = x # xs" by (cases "content q") auto
  with Suc.prems obtain q' where "get q = (RETURN_OK, Some x, q')" "ok q'" "content q' = xs"
    using get_some[of q x xs] by auto
  with Suc.IH[of q'] Suc.prems q show ?case by (auto split: prod.splits)
qed simp

lemma first_in_first_out:
  assumes "ok q" "content q = []" "\<forall>x \<in> set xs. item x" "length xs \<le> capacity q"
  shows "fst (get_n get (put_all put q xs) (length xs)) = map Some xs"
  using put_all_content[of q xs] get_n_content[of "put_all put q xs" "length xs"] assms by simp

end

interpretation fifo: bounded_queue FIFO_insert "\<lambda>f. FIFO_retrieve f True" fifo_abs maxCapacity "\<lambda>_. True" fifo_inv
proof unfold_locales
  fix q :: "'a fifo" and x
  show "fifo_inv q \<Longrightarrow> True \<Longrightarrow> length (fifo_abs q) < maxCapacity q \<Longrightarrow> \<exists>q'. FIFO_insert q x = (RETURN_OK, q') \<and>
      fifo_inv q' \<and> fifo_abs q' = fifo_abs q @ [x] \<and> maxCapacity q' = maxCapacity q"
    by (rule FIFO_insert_ok)
  show "fifo_inv q \<Longrightarrow> True \<Longrightarrow> length (fifo_abs q) = maxCapacity q \<Longrightarrow>
      \<exists>r. r \<noteq> RETURN_OK \<and> FIFO_insert q x = (r, q)"
    by (auto simp: FIFO_insert_full)
next
  fix q :: "'a fifo" and x xs
  show "fifo_inv q \<Longrightarrow> fifo_abs q = x # xs \<Longrightarrow> \<exists>q'. FIFO_retrieve q True = (RETURN_OK, Some x, q') \<and>
      fifo_inv q' \<and> fifo_abs q' = xs \<and> maxCapacity q' = maxCapacity q"
    by (rule FIFO_retrieve_ok)
next
  fix q :: "'a fifo"
  show "fifo_inv q \<Longrightarrow> fifo_abs q = [] \<Longrightarrow> \<exists>r. r \<noteq> RETURN_OK \<and> FIFO_retrieve q True = (r, None, q)"
    by (auto simp: FIFO_retrieve_empty)
  show "fifo_inv q \<Longrightarrow> length (fifo_abs q) \<le> maxCapacity q"
    by (simp add: fifo_inv_def)
qed

subsection \<open>Properties\<close>

text \<open>
  A FIFO of capacity \<open>cap\<close> that is filled with any sequence of values keeps the first
  \<open>cap\<close> of them (every further \<open>insert\<close> returns \<open>FULL\<close> and changes nothing) and hands them
  out in the order in which they were inserted.
\<close>

theorem fifo_order:
  assumes "length vals = cap"
  shows "fst (get_n (\<lambda>f. FIFO_retrieve f True) (put_all FIFO_insert (FIFOBase_new vals cap) xs) (min cap (length xs)))
       = map Some (take cap xs)"
proof -
  let ?q = "put_all FIFO_insert (FIFOBase_new vals cap) xs"
  have "fifo_abs ?q = take cap xs \<and> fifo_inv ?q"
    using fifo.put_all_overflow[OF fifo_inv_new[OF assms], of xs]
    by simp
  then show ?thesis using fifo.get_n_content[of ?q "min cap (length xs)"]
    by (simp add: min_def split: if_splits)
qed

theorem fifo_order_witness:
  "fst (get_n (\<lambda>f. FIFO_retrieve f True) (put_all FIFO_insert (FIFOBase_new [0, 0::nat] 2) [5, 6, 7]) 2)
     = [Some 5, Some 6]"
  using fifo_order[of "[0, 0::nat]" 2 "[5, 6, 7]"] by (simp add: numeral_2_eq_2 del: get_n.simps put_all.simps)

end
