(* ===== verification/Containers.thy ===== *)
theory Containers
  imports FsfwPrelude "HOL-Library.Multiset"
begin

text \<open>
  The fixed-capacity containers of \<open>fsfw/container\<close>: \<open>ArrayList.h\<close>, \<open>FixedMap.h\<close> and
  \<open>FixedOrderedMultimap.h\<close>/\<open>.tpp\<close>. Each state keeps the whole backing array and the count of
  used slots, as the classes do; \<open>fm_abs\<close> reads a \<open>FixedMap\<close> as a partial map and \<open>fom_abs\<close> a
  multimap as the list of its pairs. The lemmas show that the operations keep the well-formedness
  invariants and refine the operations on these abstractions; \<open>map_store\<close> is the interface
  through which the services use a \<open>FixedMap\<close>.
\<close>

subsection \<open>ArrayList\<close>

definition ARRAYLIST_FULL :: u16 where [retcode]: "ARRAYLIST_FULL = MAKE_RETURN_CODE ARRAY_LIST 1"

text \<open>\<open>count_t\<close> is the type parameter \<open>'c\<close>; the constructors take the capacity as a \<open>count_t\<close>.\<close>

record (overloaded) ('a, 'c) array_list =
  al_size :: "'c word"
  al_entries :: "'a list"
  al_maxSize :: nat

definition ArrayList_new :: "'a list \<Rightarrow> 'c::len word \<Rightarrow> 'c word \<Rightarrow> ('a, 'c) array_list" where
  "ArrayList_new storage maxSize siz = \<lparr>al_size = siz, al_entries = storage, al_maxSize = unat maxSize\<rparr>"

definition ArrayList_insert :: "('a, 'c::len) array_list \<Rightarrow> 'a \<Rightarrow> u16 \<times> ('a, 'c) array_list" where
  "ArrayList_insert l x =
     (if al_maxSize l \<le> unat (al_size l) then (ARRAYLIST_FULL, l)
      else (RETURN_OK, l\<lparr>al_entries := (al_entries l)[unat (al_size l) := x], al_size := al_size l + 1\<rparr>))"

definition ArrayList_clear :: "('a, 'c::len) array_list \<Rightarrow> ('a, 'c) array_list" where
  "ArrayList_clear l = l\<lparr>al_size := 0\<rparr>"

definition ArrayList_remaining :: "('a, 'c::len) array_list \<Rightarrow> 'c word" where
  "ArrayList_remaining l = of_nat (al_maxSize l) - al_size l"

text \<open>\<open>back()\<close> points at the last stored element; on an empty list it points before the array.\<close>

definition ArrayList_back :: "('a, 'c::len) array_list \<Rightarrow> 'a option" where
  "ArrayList_back l = (if al_size l = 0 then None else Some (al_entries l ! unat (al_size l - 1)))"

definition al_inv :: "('a, 'c::len) array_list \<Rightarrow> bool" where
  "al_inv l \<longleftrightarrow> length (al_entries l) = al_maxSize l \<and> unat (al_size l) \<le> al_maxSize l \<and>
     al_maxSize l < 2 ^ LENGTH('c)"

definition al_abs :: "('a, 'c::len) array_list \<Rightarrow> 'a list" where
  "al_abs l = take (unat (al_size l)) (al_entries l)"

lemma unat_Suc_no_wrap:
  fixes w :: "'c::len word"
  assumes "unat w < n" "n < 2 ^ LENGTH('c)"
  shows "unat (w + 1) = Suc (unat w)"
  using assms by (simp add: unat_word_ariths unat_of_nat)

lemma ArrayList_insert_full:
  "al_inv l \<Longrightarrow> length (al_abs l) = al_maxSize l \<Longrightarrow> ArrayList_insert l x = (ARRAYLIST_FULL, l)"
  by (simp add: ArrayList_insert_def al_abs_def al_inv_def)

lemma ArrayList_insert_ok:
  assumes inv: "al_inv l" and room: "length (al_abs l) < al_maxSize l"
  shows "\<exists>l'. ArrayList_insert l x = (RETURN_OK, l') \<and> al_inv l' \<and> al_abs l' = al_abs l @ [x] \<and>
     al_maxSize l' = al_maxSize l"
proof -
  have lt: "unat (al_size l) < al_maxSize l" using inv room by (simp add: al_abs_def al_inv_def)
  then have suc: "unat (al_size l + 1) = Suc (unat (al_size l))"
    using inv by (auto simp: al_inv_def intro: unat_Suc_no_wrap)
  show ?thesis
    using lt inv by (simp add: ArrayList_insert_def al_inv_def al_abs_def suc take_Suc_conv_app_nth)
qed

lemma ArrayList_clear_ok: "al_inv l \<Longrightarrow> al_inv (ArrayList_clear l) \<and> al_abs (ArrayList_clear l) = []"
  by (simp add: ArrayList_clear_def al_inv_def al_abs_def)

lemma ArrayList_back_ok:
  assumes inv: "al_inv l" and l: "al_abs l = xs @ [x]"
  shows "ArrayList_back l = Some x"
proof -
  have n: "unat (al_size l) = Suc (length xs)"
    using arg_cong[OF l, of length] inv by (simp add: al_abs_def al_inv_def)
  then have "al_size l \<noteq> 0" by auto
  moreover have "al_entries l ! length xs = x"
    using arg_cong[OF l, of "\<lambda>ys. ys ! length xs"] n by (simp add: al_abs_def)
  ultimately show ?thesis using n by (simp add: ArrayList_back_def unat_minus_one)
qed

lemma ArrayList_remaining_ok: "al_inv l \<Longrightarrow> unat (ArrayList_remaining l) = al_maxSize l - length (al_abs l)"
  unfolding ArrayList_remaining_def al_abs_def al_inv_def
  by (subst unat_sub) (auto simp: word_le_nat_alt unat_of_nat min_def)

subsection \<open>FixedMap\<close>

definition KEY_ALREADY_EXISTS :: u16 where [retcode]: "KEY_ALREADY_EXISTS = MAKE_RETURN_CODE FIXED_MAP 1"
definition MAP_FULL :: u16 where [retcode]: "MAP_FULL = MAKE_RETURN_CODE FIXED_MAP 2"
definition KEY_DOES_NOT_EXIST :: u16 where [retcode]: "KEY_DOES_NOT_EXIST = MAKE_RETURN_CODE FIXED_MAP 3"

lemma fixed_map_codes [simp]:
  "KEY_ALREADY_EXISTS \<noteq> RETURN_OK" "MAP_FULL \<noteq> RETURN_OK" "KEY_DOES_NOT_EXIST \<noteq> RETURN_OK"
  "RETURN_OK \<noteq> KEY_ALREADY_EXISTS" "RETURN_OK \<noteq> MAP_FULL" "RETURN_OK \<noteq> KEY_DOES_NOT_EXIST"
  by (simp_all add: retcode)

text \<open>
  \<open>_size\<close> is a \<open>uint32_t\<close> that only \<open>insert\<close> raises, after comparing it with the capacity, which
  the constructor takes as a \<open>uint32_t\<close>: it never wraps and is a \<open>nat\<close> here. A slot is an index
  into the array; iterators and value pointers are slots.
\<close>

record ('k, 'v) fixed_map =
  fm_map :: "('k \<times> 'v) list"
  fm_size :: nat

definition FixedMap_new :: "('k \<times> 'v) list \<Rightarrow> ('k, 'v) fixed_map" where
  "FixedMap_new storage = \<lparr>fm_map = storage, fm_size = 0\<rparr>"

definition FixedMap_maxSize :: "('k, 'v) fixed_map \<Rightarrow> nat" where
  "FixedMap_maxSize m = length (fm_map m)"

definition FixedMap_findIndex :: "('k, 'v) fixed_map \<Rightarrow> 'k \<Rightarrow> nat" where
  "FixedMap_findIndex m key =
     (if fm_size m = 0 then 1 else scan_index (\<lambda>p. fst p = key) (fm_map m) 0 (fm_size m))"

definition FixedMap_exists :: "('k, 'v) fixed_map \<Rightarrow> 'k \<Rightarrow> u16" where
  "FixedMap_exists m key =
     (if FixedMap_findIndex m key < fm_size m then RETURN_OK else KEY_DOES_NOT_EXIST)"

definition FixedMap_insert :: "('k, 'v) fixed_map \<Rightarrow> 'k \<Rightarrow> 'v \<Rightarrow> u16 \<times> nat option \<times> ('k, 'v) fixed_map" where
  "FixedMap_insert m key val =
     (if FixedMap_exists m key = RETURN_OK then (KEY_ALREADY_EXISTS, None, m)
      else if fm_size m = FixedMap_maxSize m then (MAP_FULL, None, m)
      else (RETURN_OK, Some (fm_size m),
            \<lparr>fm_map = (fm_map m)[fm_size m := (key, val)], fm_size = fm_size m + 1\<rparr>))"

definition FixedMap_erase_key :: "('k, 'v) fixed_map \<Rightarrow> 'k \<Rightarrow> u16 \<times> ('k, 'v) fixed_map" where
  "FixedMap_erase_key m key =
     (let i = FixedMap_findIndex m key in
      if fm_size m \<le> i then (KEY_DOES_NOT_EXIST, m)
      else (RETURN_OK, \<lparr>fm_map = (fm_map m)[i := fm_map m ! (fm_size m - 1)], fm_size = fm_size m - 1\<rparr>))"

text \<open>
  \<open>erase(Iterator*)\<close> looks the iterator's key up again and afterwards moves the iterator one slot
  back (to the slot before the array when it was the first).
\<close>

definition FixedMap_erase_iter :: "('k, 'v) fixed_map \<Rightarrow> nat \<Rightarrow> u16 \<times> int \<times> ('k, 'v) fixed_map" where
  "FixedMap_erase_iter m iter =
     (let i = FixedMap_findIndex m (fst (fm_map m ! iter)) in
      if fm_size m \<le> i then (KEY_DOES_NOT_EXIST, int iter, m)
      else (RETURN_OK, int iter - 1,
            \<lparr>fm_map = (fm_map m)[i := fm_map m ! (fm_size m - 1)], fm_size = fm_size m - 1\<rparr>))"

definition FixedMap_find_iter :: "('k, 'v) fixed_map \<Rightarrow> 'k \<Rightarrow> nat" where
  "FixedMap_find_iter m key =
     (if FixedMap_exists m key \<noteq> RETURN_OK then fm_size m else FixedMap_findIndex m key)"

definition FixedMap_find :: "('k, 'v) fixed_map \<Rightarrow> 'k \<Rightarrow> u16 \<times> nat option" where
  "FixedMap_find m key =
     (let result = FixedMap_exists m key in
      if result \<noteq> RETURN_OK then (result, None) else (RETURN_OK, Some (FixedMap_findIndex m key)))"

definition FixedMap_empty :: "('k, 'v) fixed_map \<Rightarrow> bool" where
  "FixedMap_empty m \<longleftrightarrow> fm_size m = 0"

definition FixedMap_full :: "('k, 'v) fixed_map \<Rightarrow> bool" where
  "FixedMap_full m \<longleftrightarrow> FixedMap_maxSize m \<le> fm_size m"

definition FixedMap_clear :: "('k, 'v) fixed_map \<Rightarrow> ('k, 'v) fixed_map" where
  "FixedMap_clear m = m\<lparr>fm_size := 0\<rparr>"

definition fm_used :: "('k, 'v) fixed_map \<Rightarrow> ('k \<times> 'v) list" where
  "fm_used m = take (fm_size m) (fm_map m)"

definition fm_abs :: "('k, 'v) fixed_map \<Rightarrow> 'k \<rightharpoonup> 'v" where
  "fm_abs m = map_of (fm_used m)"

definition fm_inv :: "('k, 'v) fixed_map \<Rightarrow> bool" where
  "fm_inv m \<longleftrightarrow> fm_size m \<le> length (fm_map m) \<and> distinct (map fst (fm_used m))"

text \<open>The value a lookup finds, through the slot that \<open>find\<close> stores.\<close>

definition FixedMap_value :: "('k, 'v) fixed_map \<Rightarrow> 'k \<Rightarrow> 'v option" where
  "FixedMap_value m key = map_option (\<lambda>i. snd (fm_map m ! i)) (snd (FixedMap_find m key))"

lemma length_fm_used: "fm_inv m \<Longrightarrow> length (fm_used m) = fm_size m"
  by (simp add: fm_inv_def fm_used_def)

lemma fm_used_nth: "i < fm_size m \<Longrightarrow> fm_used m ! i = fm_map m ! i"
  by (simp add: fm_used_def)

lemma FixedMap_exists_iff:
  assumes inv: "fm_inv m"
  shows "FixedMap_exists m key = RETURN_OK \<longleftrightarrow> key \<in> dom (fm_abs m)"
proof (cases "fm_size m = 0")
  case True
  then show ?thesis by (simp add: FixedMap_exists_def fm_abs_def fm_used_def)
next
  case False
  have "FixedMap_findIndex m key < fm_size m \<longleftrightarrow> (\<exists>k < fm_size m. fst (fm_map m ! k) = key)"
    using False by (simp add: FixedMap_findIndex_def scan_index_less_iff)
  also have "\<dots> \<longleftrightarrow> key \<in> fst ` set (fm_used m)"
  proof
    assume "\<exists>k < fm_size m. fst (fm_map m ! k) = key"
    then obtain k where "k < fm_size m" "fst (fm_used m ! k) = key" by (auto simp: fm_used_nth)
    then show "key \<in> fst ` set (fm_used m)" using length_fm_used[OF inv] nth_mem by fastforce
  next
    assume "key \<in> fst ` set (fm_used m)"
    then obtain k where "k < length (fm_used m)" "fst (fm_used m ! k) = key"
      by (auto simp: in_set_conv_nth)
    then show "\<exists>k < fm_size m. fst (fm_map m ! k) = key"
      using length_fm_used[OF inv] by (auto simp: fm_used_nth)
  qed
  finally show ?thesis by (simp add: FixedMap_exists_def fm_abs_def dom_map_of_conv_image_fst)
qed

lemma FixedMap_findIndex_found:
  assumes "FixedMap_findIndex m key < fm_size m"
  shows "fst (fm_map m ! FixedMap_findIndex m key) = key"
  using assms scan_index_found[of 0 "fm_size m" "\<lambda>p. fst p = key" "fm_map m"]
  by (auto simp: FixedMap_findIndex_def split: if_splits)

lemma FixedMap_value_abs:
  assumes inv: "fm_inv m"
  shows "FixedMap_value m key = fm_abs m key"
proof (cases "FixedMap_findIndex m key < fm_size m")
  case True
  let ?i = "FixedMap_findIndex m key"
  have "(key, snd (fm_map m ! ?i)) = fm_used m ! ?i"
    using FixedMap_findIndex_found[OF True] True by (simp add: fm_used_nth prod_eq_iff)
  then have "(key, snd (fm_map m ! ?i)) \<in> set (fm_used m)"
    using True length_fm_used[OF inv] by simp
  then have "fm_abs m key = Some (snd (fm_map m ! ?i))"
    using inv by (simp add: fm_abs_def fm_inv_def)
  with True show ?thesis by (simp add: FixedMap_value_def FixedMap_find_def FixedMap_exists_def)
next
  case False
  then have "key \<notin> dom (fm_abs m)"
    using FixedMap_exists_iff[OF inv, of key] by (simp add: FixedMap_exists_def)
  then have "fm_abs m key = None" by blast
  with False show ?thesis
    by (simp add: FixedMap_value_def FixedMap_find_def FixedMap_exists_def)
qed

lemma FixedMap_insert_ok:
  assumes inv: "fm_inv m" and new: "key \<notin> dom (fm_abs m)" and room: "fm_size m < FixedMap_maxSize m"
  shows "\<exists>m'. FixedMap_insert m key val = (RETURN_OK, Some (fm_size m), m') \<and> fm_inv m' \<and>
     fm_abs m' = (fm_abs m)(key \<mapsto> val) \<and> FixedMap_maxSize m' = FixedMap_maxSize m \<and> fm_size m' = Suc (fm_size m)"
proof -
  let ?m = "\<lparr>fm_map = (fm_map m)[fm_size m := (key, val)], fm_size = fm_size m + 1\<rparr>"
  have used: "fm_used ?m = fm_used m @ [(key, val)]"
    using room by (simp add: fm_used_def FixedMap_maxSize_def take_Suc_conv_app_nth)
  have key: "key \<notin> fst ` set (fm_used m)"
    using new by (simp add: fm_abs_def dom_map_of_conv_image_fst)
  have "fm_inv ?m" using inv room key unfolding fm_inv_def used by (simp add: FixedMap_maxSize_def)
  moreover have "fm_abs ?m = (fm_abs m)(key \<mapsto> val)"
    using key map_of_eq_None_iff[of "fm_used m" key] unfolding fm_abs_def used
    by (auto simp: map_add_def fun_eq_iff split: option.splits)
  moreover have "FixedMap_exists m key \<noteq> RETURN_OK" using FixedMap_exists_iff[OF inv] new by simp
  ultimately show ?thesis using room by (auto simp: FixedMap_insert_def FixedMap_maxSize_def)
qed

lemma FixedMap_insert_exists:
  "fm_inv m \<Longrightarrow> key \<in> dom (fm_abs m) \<Longrightarrow> FixedMap_insert m key val = (KEY_ALREADY_EXISTS, None, m)"
  using FixedMap_exists_iff[of m key] by (simp add: FixedMap_insert_def)

lemma FixedMap_insert_full:
  "fm_inv m \<Longrightarrow> key \<notin> dom (fm_abs m) \<Longrightarrow> fm_size m = FixedMap_maxSize m \<Longrightarrow>
     FixedMap_insert m key val = (MAP_FULL, None, m)"
  using FixedMap_exists_iff[of m key] by (simp add: FixedMap_insert_def)

lemma fm_size_card: "fm_inv m \<Longrightarrow> fm_size m = card (dom (fm_abs m))"
  using length_fm_used[of m] distinct_card[of "map fst (fm_used m)"]
  by (simp add: fm_abs_def fm_inv_def dom_map_of_conv_image_fst)

text \<open>Removing a slot by moving the last used one into it removes exactly that pair.\<close>

lemma mset_swap_out:
  assumes "i < length xs"
  shows "mset (butlast (xs[i := last xs])) = mset xs - {#xs ! i#}"
proof -
  have ne: "xs \<noteq> []" using assms by auto
  show ?thesis
  proof (cases "i = length xs - 1")
    case True
    then have "xs ! i = last xs" using ne by (simp add: last_conv_nth)
    moreover have "butlast (xs[i := last xs]) = butlast xs" using True by (simp add: butlast_list_update)
    moreover have "mset xs = add_mset (last xs) (mset (butlast xs))"
      using ne by (metis append_butlast_last_id mset.simps mset_append union_mset_add_mset_right add_0_right)
    ultimately show ?thesis by simp
  next
    case False
    then have i: "i < length (butlast xs)" using assms by simp
    have "butlast (xs[i := last xs]) = (butlast xs)[i := last xs]" using False by (simp add: butlast_list_update)
    moreover have "mset ((butlast xs)[i := last xs]) = add_mset (last xs) (mset (butlast xs) - {#butlast xs ! i#})"
      using i by (rule mset_update)
    moreover have "butlast xs ! i = xs ! i" using i by (simp add: nth_butlast)
    moreover have "mset xs = add_mset (last xs) (mset (butlast xs))"
      using ne by (metis append_butlast_last_id mset.simps mset_append union_mset_add_mset_right add_0_right)
    moreover have "xs ! i \<in># mset (butlast xs)"
      using i by (metis nth_butlast nth_mem set_mset_mset)
    ultimately show ?thesis by simp
  qed
qed

lemma map_of_remove_one:
  assumes "distinct (map fst xs)" "mset ys = mset xs - {#(k, v)#}" "(k, v) \<in> set xs"
  shows "map_of ys = (map_of xs)(k := None) \<and> distinct (map fst ys)"
proof -
  have mset: "mset xs = add_mset (k, v) (mset ys)" using assms(2,3) by simp
  then have "mset (map fst xs) = mset (map fst ((k, v) # ys))" by (simp add: mset_map)
  then have d: "distinct (map fst ((k, v) # ys))" using assms(1) mset_eq_imp_distinct_iff by blast
  have set: "set xs = insert (k, v) (set ys)" using mset by (metis set_mset_add_mset_insert set_mset_mset)
  have "map_of ys x = ((map_of xs)(k := None)) x" for x
  proof (cases "x = k")
    case True
    then show ?thesis using d by (auto simp: map_of_eq_None_iff)
  next
    case False
    then have "(x, w) \<in> set xs \<longleftrightarrow> (x, w) \<in> set ys" for w using set by simp
    then have "map_of ys x = Some w \<longleftrightarrow> map_of xs x = Some w" for w
      using map_of_eq_Some_iff[OF assms(1)] map_of_eq_Some_iff[of ys x w] d by simp
    then have "map_of ys x = map_of xs x" by (metis not_None_eq)
    then show ?thesis using False by simp
  qed
  with d show ?thesis by auto
qed

lemma FixedMap_erase_ok:
  assumes inv: "fm_inv m" and dom: "key \<in> dom (fm_abs m)"
  shows "\<exists>m'. FixedMap_erase_key m key = (RETURN_OK, m') \<and> fm_inv m' \<and> fm_abs m' = (fm_abs m)(key := None) \<and>
     FixedMap_maxSize m' = FixedMap_maxSize m \<and> fm_size m' = fm_size m - 1"
proof -
  let ?i = "FixedMap_findIndex m key" and ?n = "fm_size m"
  have i: "?i < ?n" using FixedMap_exists_iff[OF inv, of key] dom by (simp add: FixedMap_exists_def split: if_splits)
  let ?m = "\<lparr>fm_map = (fm_map m)[?i := fm_map m ! (?n - 1)], fm_size = ?n - 1\<rparr>"
  have len: "length (fm_used m) = ?n" by (rule length_fm_used[OF inv])
  have nz: "0 < ?n" using i by simp
  then have last: "last (fm_used m) = fm_map m ! (?n - 1)"
    using len by (subst last_conv_nth) (auto simp: fm_used_nth)
  have used: "fm_used ?m = butlast ((fm_used m)[?i := last (fm_used m)])"
    using i inv unfolding last
    by (simp add: fm_used_def butlast_conv_take fm_inv_def take_update_swap min_absorb2)
  obtain v where v: "fm_used m ! ?i = (key, v)"
    using FixedMap_findIndex_found[OF i] i by (metis fm_used_nth prod.collapse)
  have "mset (fm_used ?m) = mset (fm_used m) - {#(key, v)#}"
    using i mset_swap_out[of ?i "fm_used m"] unfolding len used v by simp
  moreover have "(key, v) \<in> set (fm_used m)" using v i len by (metis nth_mem)
  ultimately have "map_of (fm_used ?m) = (map_of (fm_used m))(key := None) \<and> distinct (map fst (fm_used ?m))"
    using inv by (intro map_of_remove_one) (auto simp: fm_inv_def)
  moreover have "fm_size ?m \<le> length (fm_map ?m)" using inv by (auto simp: fm_inv_def)
  ultimately show ?thesis using i
    by (simp add: FixedMap_erase_key_def Let_def fm_inv_def fm_abs_def FixedMap_maxSize_def)
qed

lemma FixedMap_erase_missing:
  "fm_inv m \<Longrightarrow> key \<notin> dom (fm_abs m) \<Longrightarrow> FixedMap_erase_key m key = (KEY_DOES_NOT_EXIST, m)"
  using FixedMap_exists_iff[of m key]
  by (auto simp: FixedMap_erase_key_def FixedMap_exists_def Let_def split: if_splits)

lemma FixedMap_clear_ok: "fm_inv m \<Longrightarrow> fm_inv (FixedMap_clear m) \<and> fm_abs (FixedMap_clear m) = Map.empty"
  by (simp add: FixedMap_clear_def fm_inv_def fm_abs_def fm_used_def)

lemma FixedMap_new_ok [simp]: "fm_inv (FixedMap_new storage)" "fm_abs (FixedMap_new storage) = Map.empty"
    "FixedMap_maxSize (FixedMap_new storage) = length storage" "fm_size (FixedMap_new storage) = 0"
  by (simp_all add: FixedMap_new_def fm_inv_def fm_abs_def fm_used_def FixedMap_maxSize_def)

subsection \<open>The interface of a bounded map\<close>

locale map_store =
  fixes ins :: "'m \<Rightarrow> 'k \<Rightarrow> 'v \<Rightarrow> u16 \<times> 'm"
    and del :: "'m \<Rightarrow> 'k \<Rightarrow> u16 \<times> 'm"
    and look :: "'m \<Rightarrow> 'k \<Rightarrow> 'v option"
    and cap :: "'m \<Rightarrow> nat"
    and ok :: "'m \<Rightarrow> bool"
  assumes ins_new: "ok m \<Longrightarrow> look m k = None \<Longrightarrow> card (dom (look m)) < cap m \<Longrightarrow>
        \<exists>m'. ins m k v = (RETURN_OK, m') \<and> ok m' \<and> look m' = (look m)(k \<mapsto> v) \<and> cap m' = cap m"
    and ins_reject: "ok m \<Longrightarrow> look m k \<noteq> None \<or> card (dom (look m)) = cap m \<Longrightarrow>
        \<exists>r. r \<noteq> RETURN_OK \<and> ins m k v = (r, m)"
    and del_present: "ok m \<Longrightarrow> look m k \<noteq> None \<Longrightarrow>
        \<exists>m'. del m k = (RETURN_OK, m') \<and> ok m' \<and> look m' = (look m)(k := None) \<and> cap m' = cap m"
    and del_absent: "ok m \<Longrightarrow> look m k = None \<Longrightarrow> \<exists>r. r \<noteq> RETURN_OK \<and> del m k = (r, m)"
    and within: "ok m \<Longrightarrow> finite (dom (look m)) \<and> card (dom (look m)) \<le> cap m"
begin

lemma ins_cases:
  assumes "ok m"
  obtains (stored) m' where "ins m k v = (RETURN_OK, m')" "ok m'" "look m' = (look m)(k \<mapsto> v)"
      "cap m' = cap m" "look m k = None"
    | (rejected) r where "r \<noteq> RETURN_OK" "ins m k v = (r, m)" "look m k \<noteq> None \<or> card (dom (look m)) = cap m"
proof (cases "look m k = None \<and> card (dom (look m)) < cap m")
  case True
  then show ?thesis using ins_new[OF assms, of k v] stored by blast
next
  case False
  then have "look m k \<noteq> None \<or> card (dom (look m)) = cap m" using within[OF assms] by auto
  then show ?thesis using ins_reject[OF assms, of k v] rejected by blast
qed

text \<open>An accepted insertion followed by the removal of its key restores the map.\<close>

lemma ins_del:
  assumes "ok m" "ins m k v = (RETURN_OK, m')"
  shows "\<exists>m''. del m' k = (RETURN_OK, m'') \<and> ok m'' \<and> look m'' = look m"
  using assms(1)
proof (cases rule: ins_cases[of m k v])
  case (stored n)
  then have n: "n = m'" using assms(2) by simp
  obtain m'' where "del m' k = (RETURN_OK, m'')" "ok m''" "look m'' = (look m')(k := None)"
    using del_present[of m' k] stored n by auto
  then show ?thesis using stored n by (auto simp: fun_eq_iff)
qed (use assms(2) in auto)

lemma ins_keeps_others:
  assumes "ok m" "ins m k v = (r, m')" "k' \<noteq> k"
  shows "look m' k' = look m k'"
  using assms(1) by (cases rule: ins_cases[of m k v]) (use assms in auto)

end

definition fm_ins :: "('k, 'v) fixed_map \<Rightarrow> 'k \<Rightarrow> 'v \<Rightarrow> u16 \<times> ('k, 'v) fixed_map" where
  "fm_ins m k v = (case FixedMap_insert m k v of (r, _, m') \<Rightarrow> (r, m'))"

interpretation fixedmap: map_store fm_ins FixedMap_erase_key fm_abs FixedMap_maxSize fm_inv
proof unfold_locales
  fix m :: "('k, 'v) fixed_map" and k :: 'k and v :: 'v
  assume m: "fm_inv m"
  show "fm_abs m k = None \<Longrightarrow> card (dom (fm_abs m)) < FixedMap_maxSize m \<Longrightarrow>
      \<exists>m'. fm_ins m k v = (RETURN_OK, m') \<and> fm_inv m' \<and> fm_abs m' = (fm_abs m)(k \<mapsto> v) \<and>
        FixedMap_maxSize m' = FixedMap_maxSize m"
    using FixedMap_insert_ok[OF m, of k v] fm_size_card[OF m] by (auto simp: fm_ins_def domIff)
  show "fm_abs m k \<noteq> None \<or> card (dom (fm_abs m)) = FixedMap_maxSize m \<Longrightarrow>
      \<exists>r. r \<noteq> RETURN_OK \<and> fm_ins m k v = (r, m)"
    using FixedMap_insert_exists[OF m, of k v] FixedMap_insert_full[OF m, of k v] fm_size_card[OF m]
    by (cases "k \<in> dom (fm_abs m)") (auto simp: fm_ins_def domIff)
  show "fm_abs m k \<noteq> None \<Longrightarrow> \<exists>m'. FixedMap_erase_key m k = (RETURN_OK, m') \<and> fm_inv m' \<and>
      fm_abs m' = (fm_abs m)(k := None) \<and> FixedMap_maxSize m' = FixedMap_maxSize m"
    using FixedMap_erase_ok[OF m, of k] by (auto simp: domIff)
  show "fm_abs m k = None \<Longrightarrow> \<exists>r. r \<noteq> RETURN_OK \<and> FixedMap_erase_key m k = (r, m)"
    using FixedMap_erase_missing[OF m, of k] by (auto simp: domIff)
  show "finite (dom (fm_abs m)) \<and> card (dom (fm_abs m)) \<le> FixedMap_maxSize m"
    using fm_size_card[OF m] m by (simp add: fm_inv_def FixedMap_maxSize_def fm_abs_def finite_dom_map_of)
qed

subsection \<open>FixedOrderedMultimap\<close>

definition FOM_MAP_FULL :: u16 where [retcode]: "FOM_MAP_FULL = MAKE_RETURN_CODE FIXED_MULTIMAP 1"
definition FOM_KEY_DOES_NOT_EXIST :: u16 where
  [retcode]: "FOM_KEY_DOES_NOT_EXIST = MAKE_RETURN_CODE FIXED_MULTIMAP 2"

lemma fom_codes [simp]: "FOM_MAP_FULL \<noteq> RETURN_OK" "FOM_KEY_DOES_NOT_EXIST \<noteq> RETURN_OK"
  by (simp_all add: retcode)

text \<open>
  The class has the same members as \<open>FixedMap\<close> (\<open>theMap\<close>, \<open>_size\<close>) and shares its record.
  The comparison \<open>KEY_COMPARE\<close> is an argument of the operations that use it. Operations whose
  \<open>memmove\<close> could leave the array return an option.
\<close>

definition FOM_findFirstIndex :: "('k, 'v) fixed_map \<Rightarrow> 'k \<Rightarrow> nat \<Rightarrow> nat" where
  "FOM_findFirstIndex m key startAt =
     (if fm_size m \<le> startAt then startAt + 1
      else scan_index (\<lambda>p. fst p = key) (fm_map m) startAt (fm_size m))"

definition FOM_findNicePlace :: "('k \<Rightarrow> 'k \<Rightarrow> bool) \<Rightarrow> ('k, 'v) fixed_map \<Rightarrow> 'k \<Rightarrow> nat" where
  "FOM_findNicePlace cmp m key = scan_index (\<lambda>p. cmp key (fst p)) (fm_map m) 0 (fm_size m)"

definition FOM_removeFromPosition :: "('k, 'v) fixed_map \<Rightarrow> nat \<Rightarrow> ('k, 'v) fixed_map option" where
  "FOM_removeFromPosition m position =
     (if fm_size m \<le> position then Some m
      else map_option (\<lambda>xs. \<lparr>fm_map = xs, fm_size = fm_size m - 1\<rparr>)
             (mem_move (fm_map m) position (position + 1) (fm_size m - position - 1)))"

definition FOM_insert ::
  "('k \<Rightarrow> 'k \<Rightarrow> bool) \<Rightarrow> ('k, 'v) fixed_map \<Rightarrow> 'k \<Rightarrow> 'v \<Rightarrow> (u16 \<times> nat option \<times> ('k, 'v) fixed_map) option" where
  "FOM_insert cmp m key val =
     (if fm_size m = FixedMap_maxSize m then Some (FOM_MAP_FULL, None, m)
      else let position = FOM_findNicePlace cmp m key in
        map_option (\<lambda>xs. (RETURN_OK, Some position,
             \<lparr>fm_map = xs[position := (key, val)], fm_size = fm_size m + 1\<rparr>))
          (mem_move (fm_map m) (position + 1) position (fm_size m - position)))"

definition FOM_exists :: "('k, 'v) fixed_map \<Rightarrow> 'k \<Rightarrow> u16" where
  "FOM_exists m key =
     (if FOM_findFirstIndex m key 0 < fm_size m then RETURN_OK else FOM_KEY_DOES_NOT_EXIST)"

definition FOM_find :: "('k, 'v) fixed_map \<Rightarrow> 'k \<Rightarrow> u16 \<times> nat option" where
  "FOM_find m key =
     (let result = FOM_exists m key in
      if result \<noteq> RETURN_OK then (result, None) else (RETURN_OK, Some (FOM_findFirstIndex m key 0)))"

definition FOM_erase_iter ::
  "('k, 'v) fixed_map \<Rightarrow> nat \<Rightarrow> (u16 \<times> nat \<times> ('k, 'v) fixed_map) option" where
  "FOM_erase_iter m iter =
     (let i = FOM_findFirstIndex m (fst (fm_map m ! iter)) 0 in
      if fm_size m \<le> i then Some (FOM_KEY_DOES_NOT_EXIST, iter, m)
      else map_option (\<lambda>m'. (RETURN_OK, if iter \<noteq> 0 then iter - 1 else 0, m')) (FOM_removeFromPosition m i))"

text \<open>
  The \<open>do\<close>/\<open>while\<close> loop of \<open>erase(key)\<close>, entered with \<open>i < _size\<close>: every round removes one
  element.
\<close>

function FOM_erase_loop :: "('k, 'v) fixed_map \<Rightarrow> 'k \<Rightarrow> nat \<Rightarrow> ('k, 'v) fixed_map option" where
  "FOM_erase_loop m key i =
     (case FOM_removeFromPosition m i of
        None \<Rightarrow> None
      | Some m' \<Rightarrow>
          (let i' = FOM_findFirstIndex m' key i in
           if i' < fm_size m' then FOM_erase_loop m' key i' else Some m'))"
  by pat_completeness auto
termination
proof (relation "measure (\<lambda>(m, key, i). if fm_size m \<le> i then 0 else Suc (fm_size m))", simp, goal_cases)
  case (1 m key i m' i')
  then have "fm_size m' = fm_size m - 1" if "i < fm_size m"
    using that by (auto simp: FOM_removeFromPosition_def)
  moreover have "i < fm_size m"
  proof (rule ccontr)
    assume "\<not> i < fm_size m"
    then have "m' = m" "fm_size m \<le> i" using 1 by (auto simp: FOM_removeFromPosition_def)
    then show False using 1 by (simp add: FOM_findFirstIndex_def)
  qed
  ultimately show ?case using 1 by simp
qed

declare FOM_erase_loop.simps [simp del]

definition FOM_erase_key :: "('k, 'v) fixed_map \<Rightarrow> 'k \<Rightarrow> (u16 \<times> ('k, 'v) fixed_map) option" where
  "FOM_erase_key m key =
     (let i = FOM_findFirstIndex m key 0 in
      if fm_size m \<le> i then Some (FOM_KEY_DOES_NOT_EXIST, m)
      else map_option (Pair RETURN_OK) (FOM_erase_loop m key i))"

text \<open>The order the multimap keeps: no later key compares smaller than an earlier one.\<close>

definition fom_inv :: "('k \<Rightarrow> 'k \<Rightarrow> bool) \<Rightarrow> ('k, 'v) fixed_map \<Rightarrow> bool" where
  "fom_inv cmp m \<longleftrightarrow> fm_size m \<le> length (fm_map m) \<and>
     sorted_wrt (\<lambda>p q. \<not> cmp (fst q) (fst p)) (fm_used m)"

lemma remove_mem_move:
  assumes "i < n" "n \<le> length xs"
  shows "\<exists>ys. mem_move xs i (i + 1) (n - i - 1) = Some ys \<and> length ys = length xs \<and>
     take (n - 1) ys = take i xs @ drop (i + 1) (take n xs)"
proof -
  let ?ys = "take i xs @ take (n - i - 1) (drop (i + 1) xs) @ drop (i + (n - i - 1)) xs"
  have ys: "mem_move xs i (i + 1) (n - i - 1) = Some ?ys"
    using assms by (simp add: mem_move_def mem_read_def mem_copy_def)
  have "take (n - 1) ?ys = take i xs @ drop (i + 1) (take n xs)"
    using assms by (simp add: min_absorb1 min_absorb2 drop_take)
  moreover have "length ?ys = length xs" using assms by simp
  ultimately show ?thesis using ys by blast
qed

lemma FOM_removeFromPosition_ok:
  assumes size: "fm_size m \<le> length (fm_map m)" and i: "i < fm_size m"
  shows "\<exists>m'. FOM_removeFromPosition m i = Some m' \<and> fm_size m' = fm_size m - 1 \<and>
     length (fm_map m') = length (fm_map m) \<and> fm_used m' = take i (fm_used m) @ drop (Suc i) (fm_used m)"
  using remove_mem_move[OF i size] i
  by (auto simp: FOM_removeFromPosition_def fm_used_def min_absorb1)

lemma FOM_findFirstIndex_scan:
  assumes "i \<le> fm_size m" "FOM_findFirstIndex m key i < fm_size m"
  shows "FOM_findFirstIndex m key i = scan_index (\<lambda>p. fst p = key) (fm_map m) i (fm_size m)" "i < fm_size m"
  using assms by (auto simp: FOM_findFirstIndex_def split: if_splits)

lemma FOM_findFirstIndex_none:
  assumes "fm_size m \<le> FOM_findFirstIndex m key i" "i \<le> fm_size m" "i \<le> k" "k < fm_size m"
  shows "fst (fm_map m ! k) \<noteq> key"
  using assms scan_index_none[of i "fm_size m" "\<lambda>p. fst p = key" "fm_map m"]
    scan_index_le[of i "fm_size m" "\<lambda>p. fst p = key" "fm_map m"]
  by (auto simp: FOM_findFirstIndex_def split: if_splits)

lemma filter_drop_prefix:
  assumes "\<forall>k < i. \<not> p (xs ! k)" "i \<le> length xs"
  shows "filter p xs = filter p (drop i xs)"
proof -
  have "filter p (take i xs) = []" using assms by (auto simp: filter_empty_conv in_set_conv_nth)
  then show ?thesis by (metis append_Nil append_take_drop_id filter_append)
qed

text \<open>
  The loop of \<open>erase(key)\<close> starts at the first occurrence and leaves exactly the pairs with another
  key.
\<close>

lemma FOM_erase_loop_filter:
  assumes "fm_size m \<le> length (fm_map m)" "i < fm_size m" "fst (fm_map m ! i) = key"
    "\<forall>k < i. fst (fm_map m ! k) \<noteq> key"
  shows "\<exists>m'. FOM_erase_loop m key i = Some m' \<and> fm_used m' = filter (\<lambda>p. fst p \<noteq> key) (fm_used m) \<and>
     length (fm_map m') = length (fm_map m) \<and> fm_size m' \<le> length (fm_map m')"
  using assms
proof (induction m key i rule: FOM_erase_loop.induct)
  case (1 m key i)
  obtain m1 where m1: "FOM_removeFromPosition m i = Some m1" "fm_size m1 = fm_size m - 1"
      "length (fm_map m1) = length (fm_map m)" "fm_used m1 = take i (fm_used m) @ drop (Suc i) (fm_used m)"
    using FOM_removeFromPosition_ok[OF "1.prems"(1,2)] by blast
  let ?i = "FOM_findFirstIndex m1 key i"
  have len: "length (fm_used m) = fm_size m" "length (fm_used m1) = fm_size m1"
    using "1.prems"(1) m1(2,3) by (simp_all add: fm_used_def)
  have keys: "fst (fm_used m ! k) \<noteq> key" if "k < i" for k
    using "1.prems"(2,4) that by (simp add: fm_used_nth)
  have id: "fm_used m = take i (fm_used m) @ fm_used m ! i # drop (Suc i) (fm_used m)"
    using "1.prems"(2) len by (simp add: id_take_nth_drop)
  have filt: "filter (\<lambda>p. fst p \<noteq> key) (fm_used m1) = filter (\<lambda>p. fst p \<noteq> key) (fm_used m)"
    using arg_cong[OF id, of "filter (\<lambda>p. fst p \<noteq> key)"] "1.prems"(2,3)
    unfolding filter_append by (simp add: m1(4) fm_used_nth)
  have before: "fst (fm_map m1 ! k) \<noteq> key" if "k < i" "k < fm_size m1" for k
  proof -
    have "fm_map m1 ! k = fm_used m1 ! k" using that by (simp add: fm_used_nth)
    also have "\<dots> = fm_used m ! k" using that len "1.prems"(2) by (simp add: m1(4) nth_append min_def)
    finally show ?thesis using keys that by simp
  qed
  have i_le: "i \<le> fm_size m1" using "1.prems"(2) m1(2) by simp
  show ?case
  proof (cases "?i < fm_size m1")
    case True
    note scan = FOM_findFirstIndex_scan[OF i_le True]
    have "fst (fm_map m1 ! ?i) = key"
      using scan_index_found[of i "fm_size m1" "\<lambda>p. fst p = key" "fm_map m1"] scan True i_le by simp
    moreover have "\<forall>k < ?i. fst (fm_map m1 ! k) \<noteq> key"
      using scan_index_before[of i _ "\<lambda>p. fst p = key" "fm_map m1" "fm_size m1"] before scan True i_le
      by (metis leI order.strict_trans)
    ultimately have "\<exists>m'. FOM_erase_loop m1 key ?i = Some m' \<and>
        fm_used m' = filter (\<lambda>p. fst p \<noteq> key) (fm_used m1) \<and>
        length (fm_map m') = length (fm_map m1) \<and> fm_size m' \<le> length (fm_map m')"
      using "1.IH"[OF m1(1) refl True] "1.prems"(1) m1 True by simp
    then show ?thesis using m1 True filt by (subst FOM_erase_loop.simps) (simp add: Let_def)
  next
    case False
    then have "fst (fm_map m1 ! k) \<noteq> key" if "k < fm_size m1" for k
      using before that FOM_findFirstIndex_none[of m1 key i k] i_le by (cases "k < i") auto
    then have "filter (\<lambda>p. fst p \<noteq> key) (fm_used m1) = fm_used m1"
      using len by (simp add: filter_id_conv all_set_conv_all_nth fm_used_nth)
    then show ?thesis using m1 False filt "1.prems"(1)
      by (subst FOM_erase_loop.simps) (auto simp: Let_def)
  qed
qed

lemma FOM_find_first:
  assumes "FOM_findFirstIndex m key 0 < fm_size m"
  shows "fst (fm_map m ! FOM_findFirstIndex m key 0) = key"
    and "\<forall>k < FOM_findFirstIndex m key 0. fst (fm_map m ! k) \<noteq> key"
proof -
  note scan = FOM_findFirstIndex_scan[OF _ assms, simplified]
  show "fst (fm_map m ! FOM_findFirstIndex m key 0) = key"
    using scan_index_found[of 0 "fm_size m" "\<lambda>p. fst p = key" "fm_map m"] scan assms by simp
  show "\<forall>k < FOM_findFirstIndex m key 0. fst (fm_map m ! k) \<noteq> key"
    using scan_index_before[of 0 _ "\<lambda>p. fst p = key" "fm_map m" "fm_size m"] scan assms by auto
qed

lemma FOM_erase_key_filter:
  assumes size: "fm_size m \<le> length (fm_map m)"
  shows "\<exists>r m'. FOM_erase_key m key = Some (r, m') \<and> fm_used m' = filter (\<lambda>p. fst p \<noteq> key) (fm_used m) \<and>
     (r = RETURN_OK \<longleftrightarrow> key \<in> fst ` set (fm_used m)) \<and> fm_size m' \<le> length (fm_map m') \<and>
     length (fm_map m') = length (fm_map m)"
proof (cases "FOM_findFirstIndex m key 0 < fm_size m")
  case True
  let ?i = "FOM_findFirstIndex m key 0"
  obtain m' where m': "FOM_erase_loop m key ?i = Some m'"
      "fm_used m' = filter (\<lambda>p. fst p \<noteq> key) (fm_used m)"
      "length (fm_map m') = length (fm_map m)" "fm_size m' \<le> length (fm_map m')"
    using FOM_erase_loop_filter[OF size True FOM_find_first[OF True]] by blast
  have "fm_used m ! ?i \<in> set (fm_used m)" using True size by (intro nth_mem) (simp add: fm_used_def)
  then have "key \<in> fst ` set (fm_used m)"
    using FOM_find_first(1)[OF True] True by (force simp: fm_used_nth)
  with m' True show ?thesis by (auto simp: FOM_erase_key_def Let_def)
next
  case False
  then have no: "\<forall>p \<in> set (fm_used m). fst p \<noteq> key"
    using FOM_findFirstIndex_none[of m key 0] size
    by (simp add: all_set_conv_all_nth fm_used_def)
  then have "filter (\<lambda>p. fst p \<noteq> key) (fm_used m) = fm_used m" by (simp add: filter_id_conv)
  with False no size show ?thesis by (auto simp: FOM_erase_key_def Let_def)
qed

lemma FOM_insert_used:
  fixes m :: "('k, 'v) fixed_map" and cmp key val
  assumes size: "fm_size m < length (fm_map m)"
  defines "i \<equiv> FOM_findNicePlace cmp m key"
  shows "\<exists>m'. FOM_insert cmp m key val = Some (RETURN_OK, Some i, m') \<and>
     fm_used m' = take i (fm_used m) @ (key, val) # drop i (fm_used m) \<and> i \<le> fm_size m \<and>
     fm_size m' = Suc (fm_size m) \<and> length (fm_map m') = length (fm_map m)"
proof -
  let ?n = "fm_size m" and ?xs = "fm_map m"
  have i: "i \<le> ?n" unfolding i_def FOM_findNicePlace_def by (rule scan_index_le) simp
  let ?ys = "take (Suc i) ?xs @ take (?n - i) (drop i ?xs) @ drop (Suc ?n) ?xs"
  have mv: "mem_move ?xs (i + 1) i (?n - i) = Some ?ys"
    using i size by (simp add: mem_move_def mem_read_def mem_copy_def Suc_diff_le)
  have "take (Suc ?n) (?ys[i := (key, val)]) = take i ?xs @ (key, val) # take (?n - i) (drop i ?xs)"
    using i size by (simp add: take_Suc_conv_app_nth list_update_append min_absorb1 min_absorb2 Suc_diff_le)
  moreover have "length ?ys = length ?xs" using i size by simp
  ultimately show ?thesis
    using i size mv by (simp add: FOM_insert_def Let_def i_def[symmetric] FixedMap_maxSize_def fm_used_def
        min_absorb1 drop_take)
qed

lemma FOM_insert_sorted:
  assumes inv: "fom_inv cmp m" and size: "fm_size m < length (fm_map m)"
    and trans: "transp cmp" and asym: "asymp cmp"
    and ins: "FOM_insert cmp m key val = Some (r, p, m')"
  shows "fom_inv cmp m' \<and> mset (fm_used m') = add_mset (key, val) (mset (fm_used m))"
proof -
  let ?i = "FOM_findNicePlace cmp m key" and ?u = "fm_used m"
  have u': "fm_used m' = take ?i ?u @ (key, val) # drop ?i ?u" and i: "?i \<le> fm_size m"
    and sz: "fm_size m' = Suc (fm_size m)" "length (fm_map m') = length (fm_map m)"
    using FOM_insert_used[OF size, of cmp key val] ins by auto
  have len: "length ?u = fm_size m" using size by (simp add: fm_used_def)
  have srt: "sorted_wrt (\<lambda>p q. \<not> cmp (fst q) (fst p)) (take ?i ?u @ drop ?i ?u)"
    using inv by (simp add: fom_inv_def)
  have lo: "\<not> cmp key (fst p)" if "p \<in> set (take ?i ?u)" for p
    using that i len scan_index_before[of 0 _ "\<lambda>p. cmp key (fst p)" "fm_map m" "fm_size m"]
    by (auto simp: in_set_conv_nth FOM_findNicePlace_def fm_used_nth)
  have hi: "\<not> cmp (fst p) key" if p: "p \<in> set (drop ?i ?u)" for p
  proof -
    have lt: "?i < fm_size m" using p len by (cases "?i < fm_size m") auto
    have "cmp key (fst (fm_map m ! ?i))"
      using lt scan_index_found[of 0 "fm_size m" "\<lambda>p. cmp key (fst p)" "fm_map m"]
      by (simp add: FOM_findNicePlace_def)
    moreover have "drop ?i ?u = fm_map m ! ?i # drop (Suc ?i) ?u"
      using lt len by (metis Cons_nth_drop_Suc fm_used_nth)
    ultimately have first: "drop ?i ?u = fm_map m ! ?i # drop (Suc ?i) ?u" "cmp key (fst (fm_map m ! ?i))"
      by simp_all
    show ?thesis
    proof (cases "p = fm_map m ! ?i")
      case True
      then show ?thesis using first(2) asym by (auto dest: asympD)
    next
      case False
      then have "p \<in> set (drop (Suc ?i) ?u)" using p first(1) by simp
      then have "\<not> cmp (fst p) (fst (fm_map m ! ?i))"
        using srt unfolding sorted_wrt_append first(1) by simp
      then show ?thesis using first(2) trans by (blast dest: transpD)
    qed
  qed
  have "sorted_wrt (\<lambda>p q. \<not> cmp (fst q) (fst p)) (fm_used m')"
    using srt[unfolded sorted_wrt_append] lo hi unfolding u' sorted_wrt_append by auto
  moreover have "mset (fm_used m') = add_mset (key, val) (mset ?u)"
    unfolding u' by (metis append_take_drop_id mset.simps(2) mset_append union_mset_add_mset_right)
  ultimately show ?thesis using size sz by (simp add: fom_inv_def)
qed

subsection \<open>Properties\<close>

datatype ('k, 'v) map_op = MapInsert 'k 'v | MapErase 'k | MapClear

fun fm_step :: "('k, 'v) fixed_map \<Rightarrow> ('k, 'v) map_op \<Rightarrow> ('k, 'v) fixed_map" where
  "fm_step m (MapInsert k v) = snd (fm_ins m k v)"
| "fm_step m (MapErase k) = snd (FixedMap_erase_key m k)"
| "fm_step m MapClear = FixedMap_clear m"

fun map_spec_step :: "nat \<Rightarrow> ('k \<rightharpoonup> 'v) \<Rightarrow> ('k, 'v) map_op \<Rightarrow> ('k \<rightharpoonup> 'v)" where
  "map_spec_step cap f (MapInsert k v) =
     (if f k \<noteq> None \<or> card (dom f) = cap then f else f(k \<mapsto> v))"
| "map_spec_step cap f (MapErase k) = f(k := None)"
| "map_spec_step cap f MapClear = Map.empty"

lemma fm_step_refines:
  assumes inv: "fm_inv m"
  shows "fm_inv (fm_step m op) \<and> FixedMap_maxSize (fm_step m op) = FixedMap_maxSize m \<and>
     fm_abs (fm_step m op) = map_spec_step (FixedMap_maxSize m) (fm_abs m) op"
proof (cases op)
  case (MapInsert k v)
  from inv show ?thesis
  proof (cases rule: fixedmap.ins_cases[of m k v])
    case (stored m')
    moreover have "card (dom (fm_abs m)) \<noteq> FixedMap_maxSize m"
    proof
      assume full: "card (dom (fm_abs m)) = FixedMap_maxSize m"
      then show False using fixedmap.ins_reject[OF inv, of k v] stored by auto
    qed
    ultimately show ?thesis using MapInsert by simp
  next
    case (rejected r)
    then show ?thesis using MapInsert inv by auto
  qed
next
  case (MapErase k)
  then show ?thesis
    using FixedMap_erase_ok[OF inv, of k] FixedMap_erase_missing[OF inv, of k] inv
    by (cases "k \<in> dom (fm_abs m)") (auto simp: domIff fun_eq_iff)
next
  case MapClear
  then show ?thesis using FixedMap_clear_ok[OF inv] by (simp add: FixedMap_maxSize_def FixedMap_clear_def)
qed

text \<open>
  C39. a \<open>FixedMap\<close> refines a partial map of bounded size. After any sequence of insertions,
  removals and clears, starting from the constructor, \<open>find\<close> returns for every key exactly what
  the abstract map holds: insertions of a present key or into a full map are refused without effect,
  a removal (which moves the last slot into the hole) deletes that key only.
\<close>

theorem fixed_map_refines_map:
  fixes storage :: "('k \<times> 'v) list"
  shows "FixedMap_value (foldl fm_step (FixedMap_new storage) ops) key =
     foldl (map_spec_step (length storage)) Map.empty ops key"
proof -
  have "fm_inv (foldl fm_step m ops) \<and>
      fm_abs (foldl fm_step m ops) = foldl (map_spec_step (FixedMap_maxSize m)) (fm_abs m) ops"
    if "fm_inv m" for m :: "('k, 'v) fixed_map"
    using that
  proof (induction ops arbitrary: m)
    case (Cons op ops)
    then show ?case using fm_step_refines[of m op] by simp
  qed simp
  from this[of "FixedMap_new storage"] show ?thesis by (simp add: FixedMap_value_abs)
qed

text \<open>
  an insertion into a \<open>FixedOrderedMultimap\<close> with room left succeeds, stays inside the array,
  adds exactly the new pair and keeps the pairs in key order (equal keys in insertion order), for
  every comparison that is a strict order.
\<close>

theorem multimap_insert_sorted:
  assumes "fom_inv cmp m" and "fm_size m < FixedMap_maxSize m" and "transp cmp" and "asymp cmp"
  shows "\<exists>pos m'. FOM_insert cmp m key val = Some (RETURN_OK, Some pos, m') \<and> fom_inv cmp m' \<and>
     fm_used m' = take pos (fm_used m) @ (key, val) # drop pos (fm_used m) \<and>
     FixedMap_maxSize m' = FixedMap_maxSize m"
  using FOM_insert_used[of m cmp key val] FOM_insert_sorted[of cmp m key val] assms
  by (auto simp: FixedMap_maxSize_def)

theorem multimap_insert_sorted_witness:
  "\<exists>pos m'. FOM_insert (<) \<lparr>fm_map = [(1::nat, 10::nat), (4, 40), (0, 0)], fm_size = 2\<rparr> 3 30
       = Some (RETURN_OK, Some pos, m') \<and> fom_inv (<) m' \<and>
     fm_used m' = take pos [(1, 10), (4, 40)] @ (3, 30) # drop pos [(1, 10), (4, 40)] \<and>
     FixedMap_maxSize m' = 3"
  using multimap_insert_sorted[of "(<)" "\<lparr>fm_map = [(1::nat, 10::nat), (4, 40), (0, 0)], fm_size = 2\<rparr>" 3 30]
  by (simp add: fom_inv_def fm_used_def FixedMap_maxSize_def numeral_3_eq_3)

text \<open>
  \<open>erase(key)\<close> of a \<open>FixedOrderedMultimap\<close> never leaves the array, removes every pair with
  that key and no other, keeps the order, and returns \<open>RETURN_OK\<close> exactly when there was one.
\<close>

theorem multimap_erase_key:
  assumes "fom_inv cmp m"
  shows "\<exists>r m'. FOM_erase_key m key = Some (r, m') \<and> fom_inv cmp m' \<and>
     fm_used m' = filter (\<lambda>p. fst p \<noteq> key) (fm_used m) \<and> (r = RETURN_OK \<longleftrightarrow> key \<in> fst ` set (fm_used m))"
proof -
  obtain r m' where *: "FOM_erase_key m key = Some (r, m')" "fm_size m' \<le> length (fm_map m')"
      "fm_used m' = filter (\<lambda>p. fst p \<noteq> key) (fm_used m)" "r = RETURN_OK \<longleftrightarrow> key \<in> fst ` set (fm_used m)"
    using FOM_erase_key_filter[of m key] assms unfolding fom_inv_def by blast
  then have "fom_inv cmp m'" using assms by (simp add: fom_inv_def sorted_wrt_filter)
  with * show ?thesis by blast
qed

theorem multimap_erase_key_witness:
  "\<exists>r m'. FOM_erase_key \<lparr>fm_map = [(1::nat, 10::nat), (1, 40), (2, 0)], fm_size = 3\<rparr> 1 = Some (r, m') \<and>
     fom_inv (<) m' \<and> fm_used m' = [(2, 0)] \<and> r = RETURN_OK"
  using multimap_erase_key[of "(<)" "\<lparr>fm_map = [(1::nat, 10::nat), (1, 40), (2, 0)], fm_size = 3\<rparr>" 1]
  by (simp add: fom_inv_def fm_used_def)

text \<open>
  \<open>erase(Iterator*)\<close> of a \<open>FixedOrderedMultimap\<close> looks the iterator's key up again, so with
  equal keys it removes the first pair of that key, not the pair the iterator points at.
\<close>

theorem multimap_erase_iter_first:
  assumes "fm_size m \<le> FixedMap_maxSize m" and "iter < fm_size m"
  shows "\<exists>i m'. FOM_erase_iter m iter = Some (RETURN_OK, iter - 1, m') \<and> i \<le> iter \<and>
     fst (fm_used m ! i) = fst (fm_used m ! iter) \<and> (\<forall>j < i. fst (fm_used m ! j) \<noteq> fst (fm_used m ! iter)) \<and>
     fm_used m' = take i (fm_used m) @ drop (Suc i) (fm_used m)"
proof -
  let ?key = "fst (fm_map m ! iter)"
  let ?i = "FOM_findFirstIndex m ?key 0"
  have i: "?i < fm_size m"
    using FOM_findFirstIndex_none[of m ?key 0 iter] assms(2) by (meson le0 not_le)
  have le: "?i \<le> iter" using FOM_find_first(2)[OF i] by (metis not_le)
  obtain m' where m': "FOM_removeFromPosition m ?i = Some m'"
      "fm_used m' = take ?i (fm_used m) @ drop (Suc ?i) (fm_used m)"
    using FOM_removeFromPosition_ok[OF _ i] assms(1) by (auto simp: FixedMap_maxSize_def)
  have "FOM_erase_iter m iter = Some (RETURN_OK, iter - 1, m')"
    using m'(1) i by (simp add: FOM_erase_iter_def Let_def)
  then show ?thesis using m'(2) le i FOM_find_first[OF i] assms(2)
    by (intro exI[of _ ?i] exI[of _ m']) (auto simp: fm_used_nth)
qed

theorem multimap_erase_iter_first_witness:
  "\<exists>i m'. FOM_erase_iter \<lparr>fm_map = [(1::nat, 10::nat), (1, 40)], fm_size = 2\<rparr> 1 = Some (RETURN_OK, 0, m') \<and>
     i \<le> 1 \<and> fm_used m' = take i [(1, 10), (1, 40)] @ drop (Suc i) [(1, 10), (1, 40)]"
  using multimap_erase_iter_first[of "\<lparr>fm_map = [(1::nat, 10::nat), (1, 40)], fm_size = 2\<rparr>" 1]
  by (auto simp: fm_used_def FixedMap_maxSize_def)

end
