(* ===== verification/Serialize.thy ===== *)
theory Serialize
  imports Containers
begin

text \<open>
  Serialization (\<open>fsfw/serialize\<close>): the endianness conversion of \<open>EndianConverter.h\<close>, the
  \<open>SerializeAdapter\<close> for plain types, and the adapters for buffers, array lists, linked lists and
  the \<open>FixedMap\<close>, all as state passing over an output stream and an input stream. The interface
  \<open>codec\<close> states what \<open>SerializeIF\<close> promises (an object is written as \<open>getSerializedSize\<close> bytes
  when they fit, and reading them back yields it); the adapters over elements are proved against it.

  The output stream keeps the bytes written through the moving buffer pointer and the \<open>size_t\<close>
  counter, a 64-bit word since the code checks it for overflow. The input stream is the list of
  the remaining bytes; its length is the counter \<open>*size\<close>.
\<close>

datatype endianness = BIG | LITTLE | MACHINE

text \<open>The host's byte order, \<open>BYTE_ORDER_SYSTEM\<close>.\<close>

datatype byte_order = LITTLE_ENDIAN | BIG_ENDIAN

definition BUFFER_TOO_SHORT :: u16 where [retcode]: "BUFFER_TOO_SHORT = MAKE_RETURN_CODE SERIALIZE_IF 1"
definition STREAM_TOO_SHORT :: u16 where [retcode]: "STREAM_TOO_SHORT = MAKE_RETURN_CODE SERIALIZE_IF 2"
definition TOO_MANY_ELEMENTS :: u16 where [retcode]: "TOO_MANY_ELEMENTS = MAKE_RETURN_CODE SERIALIZE_IF 3"

lemma serialize_codes [simp]:
  "BUFFER_TOO_SHORT \<noteq> RETURN_OK" "STREAM_TOO_SHORT \<noteq> RETURN_OK" "TOO_MANY_ELEMENTS \<noteq> RETURN_OK"
  "RETURN_OK \<noteq> BUFFER_TOO_SHORT" "RETURN_OK \<noteq> STREAM_TOO_SHORT" "RETURN_OK \<noteq> TOO_MANY_ELEMENTS"
  by (simp_all add: retcode)

subsection \<open>Endianness conversion\<close>

text \<open>The loop \<open>out[size - cnt - 1] = in[cnt]\<close> over \<open>cnt\<close>.\<close>

fun reverse_loop :: "bytes \<Rightarrow> bytes \<Rightarrow> nat \<Rightarrow> nat \<Rightarrow> bytes" where
  "reverse_loop out inp cnt 0 = out"
| "reverse_loop out inp cnt (Suc n) =
     reverse_loop (out[length inp - cnt - 1 := inp ! cnt]) inp (Suc cnt) n"

definition convertBigEndian :: "byte_order \<Rightarrow> bytes \<Rightarrow> bytes" where
  "convertBigEndian sys inp =
     (case sys of LITTLE_ENDIAN \<Rightarrow> reverse_loop inp inp 0 (length inp) | BIG_ENDIAN \<Rightarrow> inp)"

definition convertLittleEndian :: "byte_order \<Rightarrow> bytes \<Rightarrow> bytes" where
  "convertLittleEndian sys inp =
     (case sys of BIG_ENDIAN \<Rightarrow> reverse_loop inp inp 0 (length inp) | LITTLE_ENDIAN \<Rightarrow> inp)"

lemma length_reverse_loop [simp]: "length (reverse_loop out inp cnt n) = length out"
  by (induction out inp cnt n rule: reverse_loop.induct) simp_all

lemma reverse_loop_nth:
  "length out = length inp \<Longrightarrow> cnt + n = length inp \<Longrightarrow> k < length inp \<Longrightarrow>
     reverse_loop out inp cnt n ! k = (if k < n then inp ! (length inp - k - 1) else out ! k)"
proof (induction out inp cnt n rule: reverse_loop.induct)
  case (2 out inp cnt n)
  have pos: "length inp - cnt - 1 = n" using "2.prems" by simp
  show ?case
  proof (cases "k = n")
    case True
    moreover have "length inp - n - 1 = cnt" using "2.prems" by simp
    ultimately show ?thesis using "2.IH" "2.prems" pos by simp
  next
    case False
    then show ?thesis using "2.IH" "2.prems" pos by auto
  qed
qed simp

text \<open>The loop reverses the object's bytes whatever the output variable held before.\<close>

lemma reverse_loop_rev: "length out = length inp \<Longrightarrow> reverse_loop out inp 0 (length inp) = rev inp"
  by (rule nth_equalityI) (simp_all add: reverse_loop_nth rev_nth)

lemma convertBigEndian_eq: "convertBigEndian sys inp = (case sys of LITTLE_ENDIAN \<Rightarrow> rev inp | BIG_ENDIAN \<Rightarrow> inp)"
  by (simp add: convertBigEndian_def reverse_loop_rev split: byte_order.splits)

lemma convertLittleEndian_eq: "convertLittleEndian sys inp = (case sys of BIG_ENDIAN \<Rightarrow> rev inp | LITTLE_ENDIAN \<Rightarrow> inp)"
  by (simp add: convertLittleEndian_def reverse_loop_rev split: byte_order.splits)

definition convert :: "byte_order \<Rightarrow> endianness \<Rightarrow> bytes \<Rightarrow> bytes" where
  "convert sys e obj =
     (case e of BIG \<Rightarrow> convertBigEndian sys obj | LITTLE \<Rightarrow> convertLittleEndian sys obj | MACHINE \<Rightarrow> obj)"

lemma convert_involution [simp]: "convert sys e (convert sys e obj) = obj"
  by (simp add: convert_def convertBigEndian_eq convertLittleEndian_eq split: endianness.splits byte_order.splits)

lemma length_convert [simp]: "length (convert sys e obj) = length obj"
  by (simp add: convert_def convertBigEndian_eq convertLittleEndian_eq split: endianness.splits byte_order.splits)

subsection \<open>SerializeAdapter for trivially copyable types\<close>

record ostream =
  obytes :: bytes
  osize :: u64

text \<open>
  \<open>obj\<close> is the object representation, \<open>sizeof(T)\<close> bytes. The overflow test is the code's
  \<open>newSize > *size\<close>.
\<close>

definition SA_serialize :: "byte_order \<Rightarrow> bytes \<Rightarrow> ostream \<Rightarrow> u64 \<Rightarrow> endianness \<Rightarrow> u16 \<times> ostream" where
  "SA_serialize sys obj s max_size e =
     (let newSize = of_nat (length obj) + osize s in
      if newSize \<le> max_size \<and> osize s < newSize
      then (RETURN_OK, \<lparr>obytes = obytes s @ convert sys e obj, osize = osize s + of_nat (length obj)\<rparr>)
      else (BUFFER_TOO_SHORT, s))"

definition SA_deSerialize :: "byte_order \<Rightarrow> nat \<Rightarrow> bytes \<Rightarrow> endianness \<Rightarrow> u16 \<times> bytes option \<times> bytes" where
  "SA_deSerialize sys n inp e =
     (if n \<le> length inp then (RETURN_OK, Some (convert sys e (take n inp)), drop n inp)
      else (STREAM_TOO_SHORT, None, inp))"

text \<open>Unsigned integers: the object representation of a word in the host's byte order.\<close>

definition object_bytes :: "byte_order \<Rightarrow> 'a::len word \<Rightarrow> bytes" where
  "object_bytes sys w =
     (case sys of LITTLE_ENDIAN \<Rightarrow> le_bytes (LENGTH('a) div 8) w | BIG_ENDIAN \<Rightarrow> be_bytes (LENGTH('a) div 8) w)"

definition of_object_bytes :: "byte_order \<Rightarrow> bytes \<Rightarrow> 'a::len word" where
  "of_object_bytes sys bs = (case sys of LITTLE_ENDIAN \<Rightarrow> of_le_bytes bs | BIG_ENDIAN \<Rightarrow> of_be_bytes bs)"

definition SA_serialize_word :: "byte_order \<Rightarrow> 'a::len word \<Rightarrow> ostream \<Rightarrow> u64 \<Rightarrow> endianness \<Rightarrow> u16 \<times> ostream" where
  "SA_serialize_word sys w = SA_serialize sys (object_bytes sys w)"

definition SA_deSerialize_word :: "byte_order \<Rightarrow> bytes \<Rightarrow> endianness \<Rightarrow> u16 \<times> 'a::len word option \<times> bytes" where
  "SA_deSerialize_word sys inp e =
     (case SA_deSerialize sys (LENGTH('a) div 8) inp e of
        (r, v, rest) \<Rightarrow> (r, map_option (of_object_bytes sys) v, rest))"

lemma length_object_bytes [simp]: "length (object_bytes sys (w :: 'a::len word)) = LENGTH('a) div 8"
  by (simp add: object_bytes_def split: byte_order.splits)

lemma of_object_bytes_object_bytes:
  "8 dvd LENGTH('a) \<Longrightarrow> of_object_bytes sys (object_bytes sys (w :: 'a::len word)) = w"
  by (auto simp: of_object_bytes_def object_bytes_def of_le_bytes_le_bytes split: byte_order.splits)

lemma object_bytes_of_object_bytes:
  "length bs = 4 \<Longrightarrow> object_bytes sys (of_object_bytes sys bs :: u32) = bs"
  using le_bytes_of_le_bytes[of bs, where ?'a = 32] le_bytes_of_le_bytes[of "rev bs", where ?'a = 32]
  by (cases sys) (simp_all add: object_bytes_def of_object_bytes_def be_bytes_def of_be_bytes_def)

text \<open>In big-endian streams the most significant byte comes first on every host.\<close>

lemma convert_word_big: "convert sys BIG (object_bytes sys w) = be_bytes (LENGTH('a) div 8) (w :: 'a::len word)"
  by (simp add: convert_def convertBigEndian_eq object_bytes_def be_bytes_def split: byte_order.splits)

lemma convert_word_little: "convert sys LITTLE (object_bytes sys w) = le_bytes (LENGTH('a) div 8) (w :: 'a::len word)"
  by (simp add: convert_def convertLittleEndian_eq object_bytes_def be_bytes_def split: byte_order.splits)

lemma word64_no_overflow:
  fixes a b m :: u64
  assumes "unat a + unat b \<le> unat m" "a \<noteq> 0"
  shows "a + b \<le> m \<and> b < a + b \<and> unat (a + b) = unat a + unat b"
proof -
  have "unat a + unat b < 2 ^ 64" using assms(1) unsigned_less[of m, where ?'a = nat] by simp
  then have "unat (a + b) = unat a + unat b" by (simp add: unat_word_ariths)
  moreover have "0 < unat a" using assms(2) by (simp add: unat_gt_0)
  ultimately show ?thesis using assms(1) by (simp add: word_le_nat_alt word_less_nat_alt)
qed

lemma word64_overflow:
  fixes a b m :: u64
  assumes "a + b \<le> m" "b < a + b"
  shows "unat a + unat b \<le> unat m"
proof -
  have "unat (a + b) = unat a + unat b \<or> unat a + unat b = unat (a + b) + 2 ^ 64"
    using unsigned_less[of a, where ?'a = nat] unsigned_less[of b, where ?'a = nat]
    by (simp add: unat_word_ariths mod_if) linarith
  moreover have "unat b < unat (a + b)" using assms(2) by (simp add: word_less_nat_alt)
  ultimately show ?thesis
    using assms(1) unsigned_less[of a, where ?'a = nat] by (auto simp: word_le_nat_alt)
qed

text \<open>The overflow test makes the outcome exactly the test on unbounded numbers.\<close>

lemma SA_serialize_cases:
  assumes "obj \<noteq> []" "length obj < 2 ^ 64"
  shows "SA_serialize sys obj s m e =
    (if length obj + unat (osize s) \<le> unat m
     then (RETURN_OK, \<lparr>obytes = obytes s @ convert sys e obj, osize = osize s + of_nat (length obj)\<rparr>)
     else (BUFFER_TOO_SHORT, s))"
proof -
  let ?a = "of_nat (length obj) :: u64"
  have a: "unat ?a = length obj" using assms(2) by (simp add: unat_of_nat)
  then have nz: "?a \<noteq> 0" using assms(1) by auto
  have "?a + osize s \<le> m \<and> osize s < ?a + osize s \<longleftrightarrow> length obj + unat (osize s) \<le> unat m"
    using word64_no_overflow[of ?a "osize s" m] word64_overflow[of ?a "osize s" m] a nz by auto
  then show ?thesis by (simp add: SA_serialize_def Let_def)
qed

subsection \<open>The contract of SerializeIF\<close>

text \<open>
  \<open>enc\<close> is the byte sequence an object stands for in a stream. \<open>ser\<close> appends it when it fits and
  fails otherwise; \<open>deser\<close> reads it back and leaves the rest of the stream.
\<close>

type_synonym 'a serializer = "'a \<Rightarrow> ostream \<Rightarrow> u64 \<Rightarrow> endianness \<Rightarrow> u16 \<times> ostream"
type_synonym 'a deserializer = "bytes \<Rightarrow> endianness \<Rightarrow> u16 \<times> 'a option \<times> bytes"

definition fits :: "bytes \<Rightarrow> ostream \<Rightarrow> u64 \<Rightarrow> bool" where
  "fits bs s m \<longleftrightarrow> length bs + unat (osize s) \<le> unat m"

definition append_out :: "ostream \<Rightarrow> bytes \<Rightarrow> ostream" where
  "append_out s bs = \<lparr>obytes = obytes s @ bs, osize = osize s + of_nat (length bs)\<rparr>"

lemma append_out_append: "append_out (append_out s xs) ys = append_out s (xs @ ys)"
  by (simp add: append_out_def)

lemma append_out_Nil [simp]: "append_out s [] = s"
  by (simp add: append_out_def)

lemma unat_osize_append: "fits bs s m \<Longrightarrow> unat (osize (append_out s bs)) = unat (osize s) + length bs"
proof -
  assume "fits bs s m"
  then have "length bs + unat (osize s) < 2 ^ 64"
    using unsigned_less[of m, where ?'a = nat] by (simp add: fits_def)
  then show ?thesis by (simp add: append_out_def unat_word_ariths unat_of_nat)
qed

lemma fits_append: "fits (xs @ ys) s m \<longleftrightarrow> fits xs s m \<and> fits ys (append_out s xs) m"
proof (cases "fits xs s m")
  case True
  then show ?thesis using unat_osize_append[OF True] by (auto simp: fits_def)
next
  case False
  then show ?thesis by (simp add: fits_def)
qed

fun ser_loop :: "'a serializer \<Rightarrow> u16 \<Rightarrow> 'a list \<Rightarrow> ostream \<Rightarrow> u64 \<Rightarrow> endianness \<Rightarrow> u16 \<times> ostream" where
  "ser_loop ser r [] s m e = (r, s)"
| "ser_loop ser r (x # xs) s m e =
     (if r = RETURN_OK then (case ser x s m e of (r', s') \<Rightarrow> ser_loop ser r' xs s' m e) else (r, s))"

fun deser_loop ::
  "'a deserializer \<Rightarrow> u16 \<Rightarrow> 'a list \<Rightarrow> nat \<Rightarrow> nat \<Rightarrow> bytes \<Rightarrow> endianness \<Rightarrow> u16 \<times> 'a list \<times> bytes" where
  "deser_loop deser r entries i 0 inp e = (r, entries, inp)"
| "deser_loop deser r entries i (Suc n) inp e =
     (if r = RETURN_OK
      then (case deser inp e of (r', v, rest) \<Rightarrow>
              deser_loop deser r' (case v of None \<Rightarrow> entries | Some x \<Rightarrow> entries[i := x]) (Suc i) n rest e)
      else (r, entries, inp))"

locale codec =
  fixes ser :: "'a serializer"
    and deser :: "'a deserializer"
    and enc :: "'a \<Rightarrow> endianness \<Rightarrow> bytes"
    and valid :: "'a \<Rightarrow> bool"
  assumes ser_fits: "valid x \<Longrightarrow> fits (enc x e) s m \<Longrightarrow> ser x s m e = (RETURN_OK, append_out s (enc x e))"
    and ser_short: "valid x \<Longrightarrow> \<not> fits (enc x e) s m \<Longrightarrow> \<exists>r s'. ser x s m e = (r, s') \<and> r \<noteq> RETURN_OK"
    and deser_enc: "valid x \<Longrightarrow> deser (enc x e @ rest) e = (RETURN_OK, Some x, rest)"
begin

lemma ser_ok_iff: "valid x \<Longrightarrow> fst (ser x s m e) = RETURN_OK \<longleftrightarrow> fits (enc x e) s m"
  using ser_fits[of x e s m] ser_short[of x e s m] by (cases "fits (enc x e) s m") auto

lemma round_trip:
  "valid x \<Longrightarrow> fst (ser x s m e) = RETURN_OK \<Longrightarrow>
     obytes (snd (ser x s m e)) = obytes s @ enc x e \<and> deser (enc x e) e = (RETURN_OK, Some x, [])"
  using ser_fits[of x e s m] ser_ok_iff[of x s m e] deser_enc[of x e "[]"] by (simp add: append_out_def)

lemma ser_loop_fits:
  "\<forall>x \<in> set xs. valid x \<Longrightarrow> fits (concat (map (\<lambda>x. enc x e) xs)) s m \<Longrightarrow>
     ser_loop ser RETURN_OK xs s m e = (RETURN_OK, append_out s (concat (map (\<lambda>x. enc x e) xs)))"
proof (induction xs arbitrary: s)
  case (Cons x xs)
  have f: "fits (enc x e) s m" "fits (concat (map (\<lambda>x. enc x e) xs)) (append_out s (enc x e)) m"
    using Cons.prems(2) by (simp_all add: fits_append)
  have "ser x s m e = (RETURN_OK, append_out s (enc x e))" using Cons.prems(1) f(1) by (simp add: ser_fits)
  then show ?case using Cons.IH[OF _ f(2)] Cons.prems(1) by (simp add: append_out_append)
qed simp

lemma ser_loop_fail: "r \<noteq> RETURN_OK \<Longrightarrow> ser_loop ser r xs s m e = (r, s)"
  by (cases xs) simp_all

lemma ser_loop_short:
  "\<forall>x \<in> set xs. valid x \<Longrightarrow> \<not> fits (concat (map (\<lambda>x. enc x e) xs)) s m \<Longrightarrow> unat (osize s) \<le> unat m \<Longrightarrow>
     fst (ser_loop ser RETURN_OK xs s m e) \<noteq> RETURN_OK"
proof (induction xs arbitrary: s)
  case Nil
  then show ?case by (simp add: fits_def)
next
  case (Cons x xs)
  show ?case
  proof (cases "fits (enc x e) s m")
    case True
    have "ser x s m e = (RETURN_OK, append_out s (enc x e))"
      using Cons.prems(1) True by (simp add: ser_fits)
    moreover have "unat (osize (append_out s (enc x e))) \<le> unat m"
      using True unat_osize_append[OF True] by (simp add: fits_def)
    ultimately show ?thesis using Cons.IH[of "append_out s (enc x e)"] Cons.prems True
      by (simp add: fits_append)
  next
    case False
    then show ?thesis using ser_short[of x e s m] Cons.prems(1) by (auto simp: ser_loop_fail)
  qed
qed

lemma deser_loop_enc:
  "\<forall>x \<in> set xs. valid x \<Longrightarrow> i + length xs \<le> length entries \<Longrightarrow>
     deser_loop deser RETURN_OK entries i (length xs) (concat (map (\<lambda>x. enc x e) xs) @ rest) e =
       (RETURN_OK, take i entries @ xs @ drop (i + length xs) entries, rest)"
proof (induction xs arbitrary: i entries)
  case (Cons x xs)
  have "deser (enc x e @ (concat (map (\<lambda>x. enc x e) xs) @ rest)) e =
      (RETURN_OK, Some x, concat (map (\<lambda>x. enc x e) xs) @ rest)"
    using Cons.prems(1) by (intro deser_enc) simp
  then show ?case
    using Cons.IH[of "Suc i" "entries[i := x]"] Cons.prems
    by (simp add: take_Suc_conv_app_nth)
qed simp

end

subsection \<open>Plain unsigned integers are serializable\<close>

lemma SA_serialize_fits:
  assumes "obj \<noteq> []" "length obj < 2 ^ 64"
  shows "SA_serialize sys obj s m e =
    (if fits obj s m then (RETURN_OK, append_out s (convert sys e obj)) else (BUFFER_TOO_SHORT, s))"
  by (simp add: SA_serialize_cases[OF assms] fits_def append_out_def)

lemma codec_word:
  assumes "8 dvd LENGTH('a)" "LENGTH('a) < 2 ^ 64"
  shows "codec (SA_serialize_word sys :: 'a::len word serializer) (SA_deSerialize_word sys)
    (\<lambda>w e. convert sys e (object_bytes sys w)) (\<lambda>_. True)"
proof
  fix x :: "'a word" and e s m rest
  have ne: "object_bytes sys x \<noteq> []"
  proof -
    have "8 \<le> LENGTH('a)" using assms(1) by (simp add: dvd_imp_le)
    then have "0 < length (object_bytes sys x)" by (simp add: div_greater_zero_iff)
    then show ?thesis by blast
  qed
  note ser = SA_serialize_fits[OF ne, of sys s m e]
  have len: "length (object_bytes sys x) < 2 ^ 64" using assms(2) by simp
  have f: "fits (convert sys e (object_bytes sys x)) s m = fits (object_bytes sys x) s m"
    by (simp add: fits_def)
  show "fits (convert sys e (object_bytes sys x)) s m \<Longrightarrow>
      SA_serialize_word sys x s m e = (RETURN_OK, append_out s (convert sys e (object_bytes sys x)))"
    using ser len f by (simp add: SA_serialize_word_def)
  show "\<not> fits (convert sys e (object_bytes sys x)) s m \<Longrightarrow>
      \<exists>r s'. SA_serialize_word sys x s m e = (r, s') \<and> r \<noteq> RETURN_OK"
    using ser len f by (simp add: SA_serialize_word_def)
  show "SA_deSerialize_word sys (convert sys e (object_bytes sys x) @ rest) e = (RETURN_OK, Some x, rest)"
    using assms(1)
    by (simp add: SA_deSerialize_word_def SA_deSerialize_def of_object_bytes_object_bytes)
qed

interpretation u8_codec: codec "SA_serialize_word sys :: u8 serializer" "SA_deSerialize_word sys"
  "\<lambda>w e. convert sys e (object_bytes sys w)" "\<lambda>_. True" for sys
  by (rule codec_word) simp_all

interpretation u16_codec: codec "SA_serialize_word sys :: u16 serializer" "SA_deSerialize_word sys"
  "\<lambda>w e. convert sys e (object_bytes sys w)" "\<lambda>_. True" for sys
  by (rule codec_word) simp_all

interpretation u32_codec: codec "SA_serialize_word sys :: u32 serializer" "SA_deSerialize_word sys"
  "\<lambda>w e. convert sys e (object_bytes sys w)" "\<lambda>_. True" for sys
  by (rule codec_word) simp_all

interpretation u64_codec: codec "SA_serialize_word sys :: u64 serializer" "SA_deSerialize_word sys"
  "\<lambda>w e. convert sys e (object_bytes sys w)" "\<lambda>_. True" for sys
  by (rule codec_word) simp_all

subsection \<open>SerialArrayListAdapter\<close>

definition SAL_serialize ::
  "byte_order \<Rightarrow> 'a serializer \<Rightarrow> ('a, 'c::len) array_list \<Rightarrow> ostream \<Rightarrow> u64 \<Rightarrow> endianness \<Rightarrow> u16 \<times> ostream" where
  "SAL_serialize sys ser l s m e =
     (case SA_serialize_word sys (al_size l) s m e of
        (result, s') \<Rightarrow> ser_loop ser result (take (unat (al_size l)) (al_entries l)) s' m e)"

definition SAL_getSerializedSize :: "('a \<Rightarrow> nat) \<Rightarrow> ('a, 'c::len) array_list \<Rightarrow> nat" where
  "SAL_getSerializedSize elemSize l =
     foldl (\<lambda>printSize x. printSize + elemSize x) (LENGTH('c) div 8) (take (unat (al_size l)) (al_entries l))"

definition SAL_deSerialize ::
  "byte_order \<Rightarrow> 'a deserializer \<Rightarrow> ('a, 'c::len) array_list \<Rightarrow> bytes \<Rightarrow> endianness \<Rightarrow>
     u16 \<times> ('a, 'c) array_list \<times> bytes" where
  "SAL_deSerialize sys deser l inp e =
     (case SA_deSerialize_word sys inp e :: u16 \<times> 'c word option \<times> bytes of
        (result, None, rest) \<Rightarrow> (result, l, rest)
      | (result, Some tempSize, rest) \<Rightarrow>
          if al_maxSize l < unat tempSize then (TOO_MANY_ELEMENTS, l, rest)
          else (case deser_loop deser result (al_entries l) 0 (unat tempSize) rest e of
                  (r, entries, rest') \<Rightarrow> (r, l\<lparr>al_size := tempSize, al_entries := entries\<rparr>, rest')))"

text \<open>The bytes of an array list: its count, then its elements.\<close>

definition sal_enc ::
  "('a \<Rightarrow> endianness \<Rightarrow> bytes) \<Rightarrow> byte_order \<Rightarrow> ('a, 'c::len) array_list \<Rightarrow> endianness \<Rightarrow> bytes" where
  "sal_enc enc sys l e = convert sys e (object_bytes sys (al_size l)) @ concat (map (\<lambda>x. enc x e) (al_abs l))"

context codec
begin

lemma SAL_round_trip:
  fixes l l2 :: "('a, 'c::len) array_list"
  assumes len: "8 dvd LENGTH('c)" "LENGTH('c) < 2 ^ 64"
    and inv: "al_inv l" "al_inv l2" "length (al_abs l) \<le> al_maxSize l2"
    and valid: "\<forall>x \<in> set (al_abs l). valid x"
    and fit: "fits (sal_enc enc sys l e) s m"
  shows "SAL_serialize sys ser l s m e = (RETURN_OK, append_out s (sal_enc enc sys l e)) \<and>
    (\<exists>l'. SAL_deSerialize sys deser l2 (sal_enc enc sys l e @ rest) e = (RETURN_OK, l', rest) \<and>
       al_abs l' = al_abs l \<and> al_inv l')"
proof
  note w = codec.ser_fits[OF codec_word[OF len, of sys]] codec.deser_enc[OF codec_word[OF len, of sys]]
  let ?head = "convert sys e (object_bytes sys (al_size l))"
    and ?body = "concat (map (\<lambda>x. enc x e) (al_abs l))"
  have f: "fits ?head s m" "fits ?body (append_out s ?head) m"
    using fit by (simp_all add: sal_enc_def fits_append)
  have "SA_serialize_word sys (al_size l) s m e = (RETURN_OK, append_out s ?head)"
    using w(1)[where x = "al_size l"] f(1) by simp
  then show "SAL_serialize sys ser l s m e = (RETURN_OK, append_out s (sal_enc enc sys l e))"
    using ser_loop_fits[OF valid f(2)]
    by (simp add: SAL_serialize_def append_out_append sal_enc_def al_abs_def)
  let ?xs = "al_abs l"
  have n: "unat (al_size l) = length ?xs" using inv(1) by (simp add: al_abs_def al_inv_def)
  have size: "length ?xs \<le> length (al_entries l2)" using inv(2,3) by (simp add: al_inv_def)
  have head: "(SA_deSerialize_word sys (sal_enc enc sys l e @ rest) e :: u16 \<times> 'c word option \<times> bytes) =
      (RETURN_OK, Some (al_size l), ?body @ rest)"
    using w(2)[where x = "al_size l" and e = e and rest = "?body @ rest"] by (simp add: sal_enc_def)
  have loop: "deser_loop deser RETURN_OK (al_entries l2) 0 (length ?xs) (?body @ rest) e =
      (RETURN_OK, ?xs @ drop (length ?xs) (al_entries l2), rest)"
    using deser_loop_enc[OF valid, of 0 "al_entries l2" e rest] size by simp
  show "\<exists>l'. SAL_deSerialize sys deser l2 (sal_enc enc sys l e @ rest) e = (RETURN_OK, l', rest) \<and>
       al_abs l' = al_abs l \<and> al_inv l'"
  proof (intro exI conjI)
    let ?l = "l2\<lparr>al_size := al_size l, al_entries := ?xs @ drop (length ?xs) (al_entries l2)\<rparr>"
    show "SAL_deSerialize sys deser l2 (sal_enc enc sys l e @ rest) e = (RETURN_OK, ?l, rest)"
      using inv(3) by (simp add: SAL_deSerialize_def head n loop)
    show "al_abs ?l = ?xs" by (simp add: al_abs_def[of ?l] n)
    show "al_inv ?l" using inv(2,3) size by (simp add: al_inv_def n)
  qed
qed

end

lemma SAL_too_many:
  assumes "SA_deSerialize_word sys inp e = (RETURN_OK, Some (n :: 'c::len word), rest)" "al_maxSize l < unat n"
  shows "SAL_deSerialize sys deser (l :: ('a, 'c) array_list) inp e = (TOO_MANY_ELEMENTS, l, rest)"
  using assms by (simp add: SAL_deSerialize_def)

subsection \<open>SerialBufferAdapter\<close>

text \<open>
  The buffer the adapter points at (\<open>None\<close> when both pointers are null) and whether it may be
  written (\<open>buffer != nullptr\<close>): the non-const constructor and \<open>setBuffer\<close> set both pointers to
  the same memory. Copies outside the buffer are undefined behaviour (\<open>None\<close>).
\<close>

record (overloaded) 'c serial_buffer =
  serializeLength :: bool
  sb_data :: "bytes option"
  sb_writable :: bool
  bufferLength :: "'c word"

definition SerialBuffer_const :: "bytes \<Rightarrow> 'c::len word \<Rightarrow> bool \<Rightarrow> 'c serial_buffer" where
  "SerialBuffer_const buf n serLen =
     \<lparr>serializeLength = serLen, sb_data = Some buf, sb_writable = False, bufferLength = n\<rparr>"

definition SerialBuffer_new :: "bytes \<Rightarrow> 'c::len word \<Rightarrow> bool \<Rightarrow> 'c serial_buffer" where
  "SerialBuffer_new buf n serLen =
     \<lparr>serializeLength = serLen, sb_data = Some buf, sb_writable = True, bufferLength = n\<rparr>"

definition SerialBuffer_setBuffer :: "'c::len serial_buffer \<Rightarrow> bytes \<Rightarrow> 'c word \<Rightarrow> 'c serial_buffer" where
  "SerialBuffer_setBuffer b buf n = b\<lparr>sb_data := Some buf, sb_writable := True, bufferLength := n\<rparr>"

definition SerialBuffer_serialize ::
  "byte_order \<Rightarrow> 'c::len serial_buffer \<Rightarrow> ostream \<Rightarrow> u64 \<Rightarrow> endianness \<Rightarrow> (u16 \<times> ostream) option" where
  "SerialBuffer_serialize sys b s m e =
     (let (result, s1) = (if serializeLength b then SA_serialize_word sys (bufferLength b) s m e
                          else (RETURN_OK, s)) in
      if result \<noteq> RETURN_OK then Some (result, s1)
      else if m < osize s1 + ucast (bufferLength b) then Some (BUFFER_TOO_SHORT, s1)
      else case sb_data b of
          None \<Rightarrow> Some (RETURN_FAILED, s1)
        | Some buf \<Rightarrow>
            map_option (\<lambda>bs. (RETURN_OK, append_out s1 bs)) (mem_read buf 0 (unat (bufferLength b))))"

definition SerialBuffer_getSerializedSize :: "'c::len serial_buffer \<Rightarrow> nat" where
  "SerialBuffer_getSerializedSize b =
     (if serializeLength b then unat (bufferLength b) + LENGTH('c) div 8 else unat (bufferLength b))"

definition SerialBuffer_copyIn ::
  "'c::len serial_buffer \<Rightarrow> bytes \<Rightarrow> bytes \<Rightarrow> (u16 \<times> 'c serial_buffer \<times> bytes) option" where
  "SerialBuffer_copyIn b buf inp =
     (if unat (bufferLength b) \<le> length inp
      then map_option (\<lambda>d. (RETURN_OK, b\<lparr>sb_data := Some d\<rparr>, drop (unat (bufferLength b)) inp))
             (mem_copy buf 0 inp (unat (bufferLength b)))
      else Some (STREAM_TOO_SHORT, b, inp))"

definition SerialBuffer_deSerialize ::
  "byte_order \<Rightarrow> 'c::len serial_buffer \<Rightarrow> bytes \<Rightarrow> endianness \<Rightarrow> (u16 \<times> 'c serial_buffer \<times> bytes) option" where
  "SerialBuffer_deSerialize sys b inp e =
     (if \<not> sb_writable b then Some (RETURN_FAILED, b, inp)
      else case sb_data b of
          None \<Rightarrow> Some (RETURN_FAILED, b, inp)
        | Some buf \<Rightarrow>
            if serializeLength b
            then (case SA_deSerialize_word sys inp e :: u16 \<times> 'c word option \<times> bytes of
                    (result, None, rest) \<Rightarrow> Some (result, b, rest)
                  | (result, Some lengthField, rest) \<Rightarrow>
                      if bufferLength b < lengthField then Some (TOO_MANY_ELEMENTS, b, rest)
                      else SerialBuffer_copyIn (b\<lparr>bufferLength := lengthField\<rparr>) buf rest)
            else SerialBuffer_copyIn b buf inp)"

text \<open>
  With a buffer of at least \<open>bufferLength\<close> bytes the adapter writes the length field and the bytes,
  and a second adapter with enough room reads them back.
\<close>

definition sb_enc :: "byte_order \<Rightarrow> 'c::len word \<Rightarrow> bytes \<Rightarrow> endianness \<Rightarrow> bytes" where
  "sb_enc sys n buf e = convert sys e (object_bytes sys n) @ take (unat n) buf"

lemma SerialBuffer_serialize_ok:
  fixes n :: "'c::len word"
  assumes len: "8 dvd LENGTH('c)" "LENGTH('c) \<le> 64" and n: "unat n \<le> length buf"
    and fit: "fits (sb_enc sys n buf e) s m"
  shows "SerialBuffer_serialize sys (SerialBuffer_const buf n True) s m e =
     Some (RETURN_OK, append_out s (sb_enc sys n buf e))"
proof -
  let ?h = "convert sys e (object_bytes sys n)"
  have f: "fits ?h s m" "fits (take (unat n) buf) (append_out s ?h) m"
    using fit by (simp_all add: sb_enc_def fits_append)
  have ser: "SA_serialize_word sys n s m e = (RETURN_OK, append_out s ?h)"
    using codec.ser_fits[OF codec_word[where sys = sys], where x = n] len f(1) by simp
  have u: "unat (ucast n :: u64) = unat n" using len(2) by (simp add: unat_ucast_up)
  have sum: "unat (osize (append_out s ?h)) + unat n \<le> unat m" using f(2) n by (simp add: fits_def)
  then have "unat (osize (append_out s ?h) + ucast n) = unat (osize (append_out s ?h)) + unat n"
    using unsigned_less[of m, where ?'a = nat] by (simp add: unat_word_ariths u)
  then have "\<not> m < osize (append_out s ?h) + ucast n"
    using sum by (simp add: word_less_nat_alt)
  then show ?thesis
    using ser n by (simp add: SerialBuffer_serialize_def SerialBuffer_const_def mem_read_def sb_enc_def
        append_out_append)
qed

lemma SerialBuffer_deSerialize_ok:
  fixes n n2 :: "'c::len word"
  assumes len: "8 dvd LENGTH('c)" "LENGTH('c) \<le> 64" and n: "unat n \<le> length buf"
    and n2: "unat n2 = length buf2" "n \<le> n2"
  shows "SerialBuffer_deSerialize sys (SerialBuffer_new buf2 n2 True) (sb_enc sys n buf e @ rest) e =
     Some (RETURN_OK, SerialBuffer_new (take (unat n) buf @ drop (unat n) buf2) n True, rest)"
proof -
  have d: "(SA_deSerialize_word sys (sb_enc sys n buf e @ rest) e :: u16 \<times> 'c word option \<times> bytes) =
      (RETURN_OK, Some n, take (unat n) buf @ rest)"
    using codec.deser_enc[OF codec_word[where sys = sys], where x = n and e = e and rest = "take (unat n) buf @ rest"]
      len by (simp add: sb_enc_def)
  have "unat n \<le> length buf2" using n2 by (simp add: word_le_nat_alt)
  then show ?thesis using n n2(2)
    by (simp add: SerialBuffer_deSerialize_def SerialBuffer_new_def d SerialBuffer_copyIn_def mem_copy_def
        not_less[symmetric])
qed

subsection \<open>Serialization of a FixedMap\<close>

text \<open>
  The loops of \<open>FixedMap::serialize\<close> and \<open>deSerialize\<close> overwrite the key's result with the
  value's; \<open>deSerialize\<close> stores the count before it checks it.
\<close>

fun fm_ser_loop ::
  "'k serializer \<Rightarrow> 'v serializer \<Rightarrow> u16 \<Rightarrow> ('k \<times> 'v) list \<Rightarrow> ostream \<Rightarrow> u64 \<Rightarrow> endianness \<Rightarrow> u16 \<times> ostream" where
  "fm_ser_loop serk serv r [] s m e = (r, s)"
| "fm_ser_loop serk serv r ((k, v) # ps) s m e =
     (if r = RETURN_OK
      then (case serk k s m e of (_, s1) \<Rightarrow> case serv v s1 m e of (r2, s2) \<Rightarrow> fm_ser_loop serk serv r2 ps s2 m e)
      else (r, s))"

definition FixedMap_serialize ::
  "byte_order \<Rightarrow> 'k serializer \<Rightarrow> 'v serializer \<Rightarrow> ('k, 'v) fixed_map \<Rightarrow> ostream \<Rightarrow> u64 \<Rightarrow> endianness \<Rightarrow>
     u16 \<times> ostream" where
  "FixedMap_serialize sys serk serv mp s m e =
     (case SA_serialize_word sys (of_nat (fm_size mp) :: u32) s m e of
        (result, s') \<Rightarrow> fm_ser_loop serk serv result (fm_used mp) s' m e)"

definition FixedMap_getSerializedSize :: "('k \<Rightarrow> nat) \<Rightarrow> ('v \<Rightarrow> nat) \<Rightarrow> ('k, 'v) fixed_map \<Rightarrow> nat" where
  "FixedMap_getSerializedSize ksize vsize mp =
     foldl (\<lambda>printSize p. printSize + ksize (fst p) + vsize (snd p)) 4 (fm_used mp)"

fun fm_deser_loop ::
  "'k deserializer \<Rightarrow> 'v deserializer \<Rightarrow> u16 \<Rightarrow> ('k \<times> 'v) list \<Rightarrow> nat \<Rightarrow> nat \<Rightarrow> bytes \<Rightarrow> endianness \<Rightarrow>
     u16 \<times> ('k \<times> 'v) list \<times> bytes" where
  "fm_deser_loop dk dv r entries i 0 inp e = (r, entries, inp)"
| "fm_deser_loop dk dv r entries i (Suc n) inp e =
     (if r = RETURN_OK
      then (case dk inp e of (_, k, rest) \<Rightarrow> case dv rest e of (r2, v, rest2) \<Rightarrow>
              fm_deser_loop dk dv r2
                (entries[i := (case k of None \<Rightarrow> fst (entries ! i) | Some k' \<Rightarrow> k',
                               case v of None \<Rightarrow> snd (entries ! i) | Some v' \<Rightarrow> v')])
                (Suc i) n rest2 e)
      else (r, entries, inp))"

definition FixedMap_deSerialize ::
  "byte_order \<Rightarrow> 'k deserializer \<Rightarrow> 'v deserializer \<Rightarrow> ('k, 'v) fixed_map \<Rightarrow> bytes \<Rightarrow> endianness \<Rightarrow>
     u16 \<times> ('k, 'v) fixed_map \<times> bytes" where
  "FixedMap_deSerialize sys dk dv mp inp e =
     (case SA_deSerialize_word sys inp e :: u16 \<times> u32 option \<times> bytes of
        (result, n, rest) \<Rightarrow>
          let mp1 = (case n of None \<Rightarrow> mp | Some w \<Rightarrow> mp\<lparr>fm_size := unat w\<rparr>) in
          if FixedMap_maxSize mp1 < fm_size mp1 then (TOO_MANY_ELEMENTS, mp1, rest)
          else (case fm_deser_loop dk dv result (fm_map mp1) 0 (fm_size mp1) rest e of
                  (r, entries, rest') \<Rightarrow> (r, mp1\<lparr>fm_map := entries\<rparr>, rest')))"

lemma fm_deser_loop_enc:
  assumes "codec serk dk enck (\<lambda>_. True)" "codec serv dv encv (\<lambda>_. True)"
  shows "i + length ps \<le> length entries \<Longrightarrow>
     fm_deser_loop dk dv RETURN_OK entries i (length ps) (concat (map (\<lambda>(k, v). enck k e @ encv v e) ps) @ rest) e =
       (RETURN_OK, take i entries @ ps @ drop (i + length ps) entries, rest)"
proof (induction ps arbitrary: i entries)
  case (Cons p ps)
  obtain k v where p: "p = (k, v)" by (cases p)
  let ?tl = "concat (map (\<lambda>(k, v). enck k e @ encv v e) ps) @ rest"
  have "dk (enck k e @ encv v e @ ?tl) e = (RETURN_OK, Some k, encv v e @ ?tl)"
    by (rule codec.deser_enc[OF assms(1)]) simp
  moreover have "dv (encv v e @ ?tl) e = (RETURN_OK, Some v, ?tl)"
    by (rule codec.deser_enc[OF assms(2)]) simp
  ultimately show ?case
    using Cons.IH[of "Suc i" "entries[i := (k, v)]"] Cons.prems
    by (simp add: p take_Suc_conv_app_nth)
qed simp

lemma fm_ser_loop_enc:
  assumes "codec serk dk enck (\<lambda>_. True)" "codec serv dv encv (\<lambda>_. True)"
  shows "fits (concat (map (\<lambda>(k, v). enck k e @ encv v e) ps)) s m \<Longrightarrow>
     fm_ser_loop serk serv RETURN_OK ps s m e =
       (RETURN_OK, append_out s (concat (map (\<lambda>(k, v). enck k e @ encv v e) ps)))"
proof (induction ps arbitrary: s)
  case (Cons p ps)
  obtain k v where p: "p = (k, v)" by (cases p)
  let ?tl = "concat (map (\<lambda>(k, v). enck k e @ encv v e) ps)"
  have f: "fits (enck k e) s m" "fits (encv v e) (append_out s (enck k e)) m"
      "fits ?tl (append_out s (enck k e @ encv v e)) m"
    using Cons.prems by (simp_all add: p fits_append append_out_append)
  have "serk k s m e = (RETURN_OK, append_out s (enck k e))"
    using codec.ser_fits[OF assms(1) _ f(1)] by simp
  moreover have "serv v (append_out s (enck k e)) m e = (RETURN_OK, append_out s (enck k e @ encv v e))"
    using codec.ser_fits[OF assms(2) _ f(2)] by (simp add: append_out_append)
  ultimately show ?case using Cons.IH[OF f(3)] by (simp add: p append_out_append)
qed simp

subsection \<open>SerialLinkedListAdapter\<close>

text \<open>The linked elements, from \<open>start\<close> on, each with its own \<open>serialize\<close> and \<open>deSerialize\<close>.\<close>

record 'a serial_list =
  sll_elements :: "'a list"
  printCount :: bool

definition SLL_serialize ::
  "byte_order \<Rightarrow> 'a serializer \<Rightarrow> 'a serial_list \<Rightarrow> ostream \<Rightarrow> u64 \<Rightarrow> endianness \<Rightarrow> u16 \<times> ostream" where
  "SLL_serialize sys ser l s m e =
     (if printCount l
      then (case SA_serialize_word sys (of_nat (length (sll_elements l)) :: u8) s m e of (result, s') \<Rightarrow>
              if result \<noteq> RETURN_OK then (result, s')
              else ser_loop ser RETURN_OK (sll_elements l) s' m e)
      else ser_loop ser RETURN_OK (sll_elements l) s m e)"

text \<open>With \<open>printCount\<close> the member \<open>getSerializedSize()\<close> calls itself.\<close>

partial_function (option) SLL_getSerializedSize :: "('a \<Rightarrow> nat) \<Rightarrow> 'a serial_list \<Rightarrow> nat option" where
  "SLL_getSerializedSize esize l =
     (if printCount l then Option.bind (SLL_getSerializedSize esize l) (\<lambda>n. Some (n + 1))
      else Some (sum_list (map esize (sll_elements l))))"

text \<open>\<open>deSerialize\<close> reads the elements only, whatever \<open>printCount\<close> says.\<close>

definition SLL_deSerialize ::
  "'a deserializer \<Rightarrow> 'a serial_list \<Rightarrow> bytes \<Rightarrow> endianness \<Rightarrow> u16 \<times> 'a serial_list \<times> bytes" where
  "SLL_deSerialize deser l inp e =
     (case deser_loop deser RETURN_OK (sll_elements l) 0 (length (sll_elements l)) inp e of
        (r, elems, rest) \<Rightarrow> (r, l\<lparr>sll_elements := elems\<rparr>, rest))"

subsection \<open>Properties\<close>

text \<open>
  an unsigned 32-bit value written in big-endian order by a host of either byte order yields
  its bytes most significant first, exactly when they fit into the remaining space (the size
  counter's overflow included), and a host of either byte order reads the same value back.
\<close>

theorem serialize_word_portable:
  fixes w :: u32
  shows "SA_serialize_word sys w s m BIG =
      (if 4 + unat (osize s) \<le> unat m then (RETURN_OK, append_out s (be_bytes 4 w)) else (BUFFER_TOO_SHORT, s))
    \<and> SA_deSerialize_word sys' (be_bytes 4 w @ rest) BIG = (RETURN_OK, Some w, rest)"
proof
  have ne: "object_bytes sys w \<noteq> []" by (auto dest: arg_cong[where f = length])
  show "SA_serialize_word sys w s m BIG =
      (if 4 + unat (osize s) \<le> unat m then (RETURN_OK, append_out s (be_bytes 4 w)) else (BUFFER_TOO_SHORT, s))"
    using SA_serialize_fits[OF ne, of sys s m BIG] convert_word_big[of sys w]
    by (simp add: SA_serialize_word_def fits_def)
  show "SA_deSerialize_word sys' (be_bytes 4 w @ rest) BIG = (RETURN_OK, Some w, rest)"
    using u32_codec.deser_enc[where x = w and sys = sys' and e = BIG and rest = rest] convert_word_big[of sys' w] by simp
qed

text \<open>
  for every element type whose serializer keeps the contract of \<open>SerializeIF\<close>, an \<open>ArrayList\<close>
  with an 8-bit count that fits the buffer is written by \<open>SerialArrayListAdapter\<close>, and any list
  with enough capacity that reads these bytes then holds the same elements.
\<close>

theorem array_list_round_trip:
  fixes l l2 :: "('a, 8) array_list"
  assumes "codec ser deser enc (\<lambda>_. True)" and "al_inv l" and "al_inv l2"
    and "length (al_abs l) \<le> al_maxSize l2" and "fits (sal_enc enc sys l e) s m"
  shows "SAL_serialize sys ser l s m e = (RETURN_OK, append_out s (sal_enc enc sys l e)) \<and>
    (\<exists>l'. SAL_deSerialize sys deser l2 (sal_enc enc sys l e @ rest) e = (RETURN_OK, l', rest) \<and>
       al_abs l' = al_abs l)"
  using codec.SAL_round_trip[OF assms(1) _ _ assms(2,3,4) _ assms(5)] by auto

theorem array_list_round_trip_witness:
  "\<exists>l'. SAL_deSerialize LITTLE_ENDIAN (SA_deSerialize_word LITTLE_ENDIAN)
      (ArrayList_new [0, 0, 0 :: u16] (3::u8) 0) [2, 1, 2, 3, 4, 99] BIG = (RETURN_OK, l', [99]) \<and>
    al_abs l' = [0x0102, 0x0304]"
proof -
  let ?l = "ArrayList_new [0x0102, 0x0304 :: u16] (2::u8) 2"
    and ?l2 = "ArrayList_new [0, 0, 0 :: u16] (3::u8) 0"
    and ?s = "\<lparr>obytes = [], osize = 0\<rparr>"
  let ?enc = "sal_enc (\<lambda>w e. convert LITTLE_ENDIAN e (object_bytes LITTLE_ENDIAN w)) LITTLE_ENDIAN ?l BIG"
  have enc: "?enc = [2, 1, 2, 3, 4]" by code_simp
  have abs: "al_abs ?l = [0x0102, 0x0304]" by (simp add: al_abs_def ArrayList_new_def)
  have "\<exists>l'. SAL_deSerialize LITTLE_ENDIAN (SA_deSerialize_word LITTLE_ENDIAN) ?l2 (?enc @ [99]) BIG =
      (RETURN_OK, l', [99]) \<and> al_abs l' = al_abs ?l"
  proof (rule array_list_round_trip[THEN conjunct2])
    show "codec (SA_serialize_word LITTLE_ENDIAN :: u16 serializer) (SA_deSerialize_word LITTLE_ENDIAN)
       (\<lambda>w e. convert LITTLE_ENDIAN e (object_bytes LITTLE_ENDIAN w)) (\<lambda>_. True)"
      by (rule u16_codec.codec_axioms)
    show "fits ?enc ?s 5" by (simp add: fits_def enc)
  qed (simp_all add: al_inv_def ArrayList_new_def al_abs_def)
  then show ?thesis by (simp add: enc abs)
qed

text \<open>
  a \<open>FixedMap\<close> whose count, keys and values fit the buffer is serialized completely, and
  deserializing the bytes into another map with enough capacity restores the same partial map.
\<close>

theorem fixed_map_round_trip:
  fixes mp mp2 :: "('k, 'v) fixed_map"
  assumes "codec serk dk enck (\<lambda>_. True)" and "codec serv dv encv (\<lambda>_. True)"
    and "fm_inv mp" and "fm_size mp \<le> FixedMap_maxSize mp2" and "FixedMap_maxSize mp2 < 2 ^ 32"
    and "fits (convert sys e (object_bytes sys (of_nat (fm_size mp) :: u32)) @
           concat (map (\<lambda>(k, v). enck k e @ encv v e) (fm_used mp))) s m"
  shows "\<exists>bs mp'. FixedMap_serialize sys serk serv mp s m e = (RETURN_OK, append_out s bs) \<and>
     FixedMap_deSerialize sys dk dv mp2 (bs @ rest) e = (RETURN_OK, mp', rest) \<and>
     fm_inv mp' \<and> fm_abs mp' = fm_abs mp"
proof -
  let ?n = "of_nat (fm_size mp) :: u32"
  let ?h = "convert sys e (object_bytes sys ?n)" and ?b = "concat (map (\<lambda>(k, v). enck k e @ encv v e) (fm_used mp))"
  have n: "unat ?n = fm_size mp" using assms(4,5) by (simp add: unat_of_nat)
  have len: "length (fm_used mp) = fm_size mp" by (rule length_fm_used[OF assms(3)])
  have f: "fits ?h s m" "fits ?b (append_out s ?h) m" using assms(6) by (simp_all add: fits_append)
  have ser: "FixedMap_serialize sys serk serv mp s m e = (RETURN_OK, append_out s (?h @ ?b))"
    using u32_codec.ser_fits[where x = ?n, OF _ f(1)] fm_ser_loop_enc[OF assms(1,2) f(2)]
    by (simp add: FixedMap_serialize_def append_out_append)
  have head: "(SA_deSerialize_word sys ((?h @ ?b) @ rest) e :: u16 \<times> u32 option \<times> bytes) =
      (RETURN_OK, Some ?n, ?b @ rest)"
    using u32_codec.deser_enc[where x = ?n and sys = sys and e = e and rest = "?b @ rest"] by simp
  let ?mp = "\<lparr>fm_map = fm_used mp @ drop (fm_size mp) (fm_map mp2), fm_size = fm_size mp\<rparr>"
  have loop: "fm_deser_loop dk dv RETURN_OK (fm_map mp2) 0 (fm_size mp) (?b @ rest) e =
      (RETURN_OK, fm_map ?mp, rest)"
    using fm_deser_loop_enc[OF assms(1,2), of 0 "fm_used mp" "fm_map mp2"] assms(4) len
    by (simp add: FixedMap_maxSize_def)
  have "FixedMap_deSerialize sys dk dv mp2 ((?h @ ?b) @ rest) e = (RETURN_OK, ?mp, rest)"
    unfolding FixedMap_deSerialize_def head using assms(4) loop
    by (simp add: n FixedMap_maxSize_def)
  moreover have "fm_used ?mp = fm_used mp" by (simp add: fm_used_def[of ?mp] len)
  ultimately show ?thesis using ser assms(3,4)
    by (intro exI[of _ "?h @ ?b"] exI[of _ ?mp]) (simp add: fm_inv_def fm_abs_def FixedMap_maxSize_def len)
qed

theorem fixed_map_round_trip_witness:
  "\<exists>bs mp'. FixedMap_serialize LITTLE_ENDIAN (SA_serialize_word LITTLE_ENDIAN) (SA_serialize_word LITTLE_ENDIAN)
        \<lparr>fm_map = [(7::u8, 258::u16)], fm_size = 1\<rparr> \<lparr>obytes = [], osize = 0\<rparr> 7 BIG
       = (RETURN_OK, append_out \<lparr>obytes = [], osize = 0\<rparr> bs) \<and>
     FixedMap_deSerialize LITTLE_ENDIAN (SA_deSerialize_word LITTLE_ENDIAN) (SA_deSerialize_word LITTLE_ENDIAN)
        \<lparr>fm_map = [(0::u8, 0::u16)], fm_size = 0\<rparr> (bs @ []) BIG = (RETURN_OK, mp', []) \<and>
     fm_inv mp' \<and> fm_abs mp' = fm_abs \<lparr>fm_map = [(7::u8, 258::u16)], fm_size = 1\<rparr>"
  by (rule fixed_map_round_trip[OF u8_codec.codec_axioms u16_codec.codec_axioms])
    (simp_all add: fm_inv_def fm_used_def FixedMap_maxSize_def fits_def)

text \<open>
  the serializer of \<open>FixedMap\<close> ignores the result of writing a key: whenever a key does not
  fit but its value still does, the call returns \<open>RETURN_OK\<close> with fewer bytes than
  \<open>getSerializedSize\<close> announces.
\<close>

theorem fixed_map_serialize_drops_key:
  assumes "unat (osize s) + 5 \<le> unat m" and "unat m < unat (osize s) + 8"
  shows "FixedMap_serialize sys (SA_serialize_word sys) (SA_serialize_word sys)
      \<lparr>fm_map = [(k :: u32, v :: u8)], fm_size = 1\<rparr> s m e =
    (RETURN_OK, append_out s (convert sys e (object_bytes sys (1 :: u32)) @ convert sys e (object_bytes sys v)))"
proof -
  let ?h = "convert sys e (object_bytes sys (1 :: u32))"
  have f: "fits ?h s m" using assms(1) by (simp add: fits_def)
  then have sz: "unat (osize (append_out s ?h)) = unat (osize s) + 4" by (simp add: unat_osize_append)
  have key: "snd (SA_serialize_word sys k (append_out s ?h) m e) = append_out s ?h"
  proof -
    have "object_bytes sys k \<noteq> []" by (auto dest: arg_cong[where f = length])
    then show ?thesis using SA_serialize_fits[of "object_bytes sys k"] sz assms(2)
      by (simp add: SA_serialize_word_def fits_def)
  qed
  then obtain r where key: "SA_serialize_word sys k (append_out s ?h) m e = (r, append_out s ?h)"
    by (metis prod.collapse)
  have "fits (convert sys e (object_bytes sys v)) (append_out s ?h) m"
    using sz assms(1) by (simp add: fits_def)
  then have "SA_serialize_word sys v (append_out s ?h) m e =
      (RETURN_OK, append_out s (?h @ convert sys e (object_bytes sys v)))"
    using u8_codec.ser_fits[where x = v] by (simp add: append_out_append)
  then show ?thesis
    using u32_codec.ser_fits[where x = 1, OF _ f] key
    by (simp add: FixedMap_serialize_def fm_used_def)
qed

theorem fixed_map_serialize_drops_key_witness:
  "FixedMap_serialize LITTLE_ENDIAN (SA_serialize_word LITTLE_ENDIAN) (SA_serialize_word LITTLE_ENDIAN)
      \<lparr>fm_map = [(5 :: u32, 9 :: u8)], fm_size = 1\<rparr> \<lparr>obytes = [], osize = 0\<rparr> 6 BIG =
    (RETURN_OK, append_out \<lparr>obytes = [], osize = 0\<rparr> (convert LITTLE_ENDIAN BIG (object_bytes LITTLE_ENDIAN (1 :: u32)) @
       convert LITTLE_ENDIAN BIG (object_bytes LITTLE_ENDIAN (9 :: u8))))"
  by (rule fixed_map_serialize_drops_key) simp_all

text \<open>The size computation of a linked list that prints its count never returns.\<close>

lemma SLL_getSerializedSize_loops: "printCount l \<Longrightarrow> SLL_getSerializedSize esize l = None"
proof (rule ccontr)
  assume pc: "printCount l" and "SLL_getSerializedSize esize l \<noteq> None"
  then obtain n where "SLL_getSerializedSize esize l = Some n" by auto
  then have "\<not> printCount l"
    by (rule SLL_getSerializedSize.raw_induct[where P = "\<lambda>_ l _. \<not> printCount l", rotated])
       (auto split: if_splits bind_splits)
  with pc show False by simp
qed

lemma SLL_getSerializedSize_plain:
  "\<not> printCount l \<Longrightarrow> SLL_getSerializedSize esize l = Some (sum_list (map esize (sll_elements l)))"
  by (simp add: SLL_getSerializedSize.simps)

lemma SLL_round_trip:
  assumes "codec ser deser enc (\<lambda>_. True)" "length (sll_elements l2) = length (sll_elements l)"
    "fits (concat (map (\<lambda>x. enc x e) (sll_elements l))) s m" "\<not> printCount l"
  shows "SLL_serialize sys ser l s m e = (RETURN_OK, append_out s (concat (map (\<lambda>x. enc x e) (sll_elements l)))) \<and>
    SLL_deSerialize deser l2 (concat (map (\<lambda>x. enc x e) (sll_elements l)) @ rest) e =
      (RETURN_OK, l2\<lparr>sll_elements := sll_elements l\<rparr>, rest)"
  using codec.ser_loop_fits[OF assms(1) _ assms(3)] assms(2,4)
    codec.deser_loop_enc[OF assms(1), of "sll_elements l" 0 "sll_elements l2" e rest]
  by (simp add: SLL_serialize_def SLL_deSerialize_def)

end
