(* ===== verification/Crc.thy ===== *)
theory Crc
  imports FsfwPrelude
begin

text \<open>
  The CRC of transfer frames and telecommand packets, \<open>fsfw/globalfunctions/CRC.cpp\<close>: the lookup
  table and the loop over the bytes. The lemmas relate the table-driven step to the bit-serial
  division by \<open>x^16 + x^12 + x^5 + 1\<close>, show that the state transformations are injective, and
  from that the residue and error-detection properties the users of the checksum rely on.
\<close>

subsection \<open>The table and the loop\<close>

definition crc16ccitt_table :: "u16 list" where
  "crc16ccitt_table =
    [0x0000, 0x1021, 0x2042, 0x3063, 0x4084, 0x50a5, 0x60c6, 0x70e7,
     0x8108, 0x9129, 0xa14a, 0xb16b, 0xc18c, 0xd1ad, 0xe1ce, 0xf1ef,
     0x1231, 0x0210, 0x3273, 0x2252, 0x52b5, 0x4294, 0x72f7, 0x62d6,
     0x9339, 0x8318, 0xb37b, 0xa35a, 0xd3bd, 0xc39c, 0xf3ff, 0xe3de,
     0x2462, 0x3443, 0x0420, 0x1401, 0x64e6, 0x74c7, 0x44a4, 0x5485,
     0xa56a, 0xb54b, 0x8528, 0x9509, 0xe5ee, 0xf5cf, 0xc5ac, 0xd58d,
     0x3653, 0x2672, 0x1611, 0x0630, 0x76d7, 0x66f6, 0x5695, 0x46b4,
     0xb75b, 0xa77a, 0x9719, 0x8738, 0xf7df, 0xe7fe, 0xd79d, 0xc7bc,
     0x48c4, 0x58e5, 0x6886, 0x78a7, 0x0840, 0x1861, 0x2802, 0x3823,
     0xc9cc, 0xd9ed, 0xe98e, 0xf9af, 0x8948, 0x9969, 0xa90a, 0xb92b,
     0x5af5, 0x4ad4, 0x7ab7, 0x6a96, 0x1a71, 0x0a50, 0x3a33, 0x2a12,
     0xdbfd, 0xcbdc, 0xfbbf, 0xeb9e, 0x9b79, 0x8b58, 0xbb3b, 0xab1a,
     0x6ca6, 0x7c87, 0x4ce4, 0x5cc5, 0x2c22, 0x3c03, 0x0c60, 0x1c41,
     0xedae, 0xfd8f, 0xcdec, 0xddcd, 0xad2a, 0xbd0b, 0x8d68, 0x9d49,
     0x7e97, 0x6eb6, 0x5ed5, 0x4ef4, 0x3e13, 0x2e32, 0x1e51, 0x0e70,
     0xff9f, 0xefbe, 0xdfdd, 0xcffc, 0xbf1b, 0xaf3a, 0x9f59, 0x8f78,
     0x9188, 0x81a9, 0xb1ca, 0xa1eb, 0xd10c, 0xc12d, 0xf14e, 0xe16f,
     0x1080, 0x00a1, 0x30c2, 0x20e3, 0x5004, 0x4025, 0x7046, 0x6067,
     0x83b9, 0x9398, 0xa3fb, 0xb3da, 0xc33d, 0xd31c, 0xe37f, 0xf35e,
     0x02b1, 0x1290, 0x22f3, 0x32d2, 0x4235, 0x5214, 0x6277, 0x7256,
     0xb5ea, 0xa5cb, 0x95a8, 0x8589, 0xf56e, 0xe54f, 0xd52c, 0xc50d,
     0x34e2, 0x24c3, 0x14a0, 0x0481, 0x7466, 0x6447, 0x5424, 0x4405,
     0xa7db, 0xb7fa, 0x8799, 0x97b8, 0xe75f, 0xf77e, 0xc71d, 0xd73c,
     0x26d3, 0x36f2, 0x0691, 0x16b0, 0x6657, 0x7676, 0x4615, 0x5634,
     0xd94c, 0xc96d, 0xf90e, 0xe92f, 0x99c8, 0x89e9, 0xb98a, 0xa9ab,
     0x5844, 0x4865, 0x7806, 0x6827, 0x18c0, 0x08e1, 0x3882, 0x28a3,
     0xcb7d, 0xdb5c, 0xeb3f, 0xfb1e, 0x8bf9, 0x9bd8, 0xabbb, 0xbb9a,
     0x4a75, 0x5a54, 0x6a37, 0x7a16, 0x0af1, 0x1ad0, 0x2ab3, 0x3a92,
     0xfd2e, 0xed0f, 0xdd6c, 0xcd4d, 0xbdaa, 0xad8b, 0x9de8, 0x8dc9,
     0x7c26, 0x6c07, 0x5c64, 0x4c45, 0x3ca2, 0x2c83, 0x1ce0, 0x0cc1,
     0xef1f, 0xff3e, 0xcf5d, 0xdf7c, 0xaf9b, 0xbfba, 0x8fd9, 0x9ff8,
     0x6e17, 0x7e36, 0x4e55, 0x5e74, 0x2e93, 0x3eb2, 0x0ed1, 0x1ef0]"

definition crc_byte :: "u16 \<Rightarrow> u8 \<Rightarrow> u16" where
  "crc_byte startingCrc d =
     (let tbl_idx = (drop_bit 8 startingCrc XOR ucast d) AND 0xff in
      (crc16ccitt_table ! unat tbl_idx) XOR push_bit 8 startingCrc)"

definition crc16ccitt :: "bytes \<Rightarrow> u16 \<Rightarrow> u16" where
  "crc16ccitt input startingCrc = foldl crc_byte startingCrc input"

text \<open>The default argument of \<open>CRC::crc16ccitt\<close>.\<close>

definition crc16 :: "bytes \<Rightarrow> u16" where
  "crc16 input = crc16ccitt input 0xffff"

subsection \<open>The bit-serial reference\<close>

definition crc_bit :: "u16 \<Rightarrow> u16" where
  "crc_bit c = (if bit c 15 then push_bit 1 c XOR 0x1021 else push_bit 1 c)"

definition crc_byte_serial :: "u16 \<Rightarrow> u8 \<Rightarrow> u16" where
  "crc_byte_serial c d = (crc_bit ^^ 8) (c XOR push_bit 8 (ucast d))"

lemma table_doubling:
  "crc16ccitt_table = concat (map (\<lambda>t. [crc_bit t, crc_bit t XOR 0x1021]) (take 128 crc16ccitt_table))"
  by (simp add: crc16ccitt_table_def crc_bit_def)

lemma crc_bit_xor: "crc_bit (a XOR b) = crc_bit a XOR crc_bit b"
  by (auto simp: crc_bit_def bit_xor_iff push_bit_xor xor.assoc xor.left_commute xor.commute)

lemma crc_bits_xor: "(crc_bit ^^ n) (a XOR b) = (crc_bit ^^ n) a XOR (crc_bit ^^ n) b"
  by (induction n) (simp_all add: crc_bit_xor)

lemma crc_bit_inject: "crc_bit a = crc_bit b \<Longrightarrow> a = b"
proof -
  assume "crc_bit a = crc_bit b"
  then have z: "crc_bit (a XOR b) = 0" by (simp add: crc_bit_xor)
  have "bit (crc_bit x) 0 = bit x 15" for x by (simp add: crc_bit_def bit_xor_iff bit_0 even_xor_iff)
  then have top: "\<not> bit (a XOR b) 15" using z by (metis bit_0_eq bot_apply bot_bool_def)
  then have "push_bit 1 (a XOR b) = 0" using z by (simp add: crc_bit_def)
  moreover have "bit w k \<longleftrightarrow> bit (push_bit 1 w) (Suc k)" if "k < 15" for k and w :: u16
    using that unfolding bit_push_bit_iff by simp
  ultimately have low: "\<not> bit (a XOR b) k" if "k < 15" for k
    using that by (metis bit_0_eq bot_apply bot_bool_def)
  have "a XOR b = 0"
  proof (rule bit_word_eqI)
    fix k assume "k < LENGTH(16)"
    then show "bit (a XOR b) k = bit 0 k" using top low[of k] by (cases "k = 15") auto
  qed
  moreover have "a = (a XOR b) XOR b" by (simp add: xor.assoc)
  ultimately show "a = b" by simp
qed

lemma crc_bits_inject: "(crc_bit ^^ n) a = (crc_bit ^^ n) b \<Longrightarrow> a = b"
  by (induction n) (auto dest: crc_bit_inject)

lemma crc_bits_low:
  assumes "\<And>i. 8 \<le> i \<Longrightarrow> \<not> bit (x :: u16) i" "n \<le> 8"
  shows "(crc_bit ^^ n) x = push_bit n x"
  using assms(2)
proof (induction n)
  case (Suc n)
  then have "\<not> bit (push_bit n x) 15" using assms(1)[of "15 - n"] by (simp add: bit_simps)
  with Suc show ?case by (simp add: crc_bit_def push_bit_push_bit)
qed simp

lemma nth_concat_pairs:
  "i < length xs \<Longrightarrow> concat (map (\<lambda>t. [f t, g t]) xs) ! (2 * i) = f (xs ! i) \<and>
     concat (map (\<lambda>t. [f t, g t]) xs) ! (2 * i + 1) = g (xs ! i)"
proof (induction xs arbitrary: i)
  case (Cons x xs)
  then show ?case by (cases i) auto
qed simp

lemma table_step:
  assumes "i < 128"
  shows "crc16ccitt_table ! (2 * i) = crc_bit (crc16ccitt_table ! i)"
    and "crc16ccitt_table ! (2 * i + 1) = crc_bit (crc16ccitt_table ! i) XOR 0x1021"
proof -
  have len: "length (take 128 crc16ccitt_table) = 128" by (simp add: crc16ccitt_table_def)
  have "crc16ccitt_table ! (2 * i) = crc_bit (take 128 crc16ccitt_table ! i) \<and>
      crc16ccitt_table ! (2 * i + 1) = crc_bit (take 128 crc16ccitt_table ! i) XOR 0x1021"
    using nth_concat_pairs[of i "take 128 crc16ccitt_table" crc_bit "\<lambda>t. crc_bit t XOR 0x1021"] assms len
    by (subst (1 3) table_doubling) simp
  then show "crc16ccitt_table ! (2 * i) = crc_bit (crc16ccitt_table ! i)"
    and "crc16ccitt_table ! (2 * i + 1) = crc_bit (crc16ccitt_table ! i) XOR 0x1021"
    using assms by simp_all
qed

lemma funpow_8: "(f ^^ 8) x = f (f (f (f (f (f (f (f x)))))))"
  by (simp add: numeral_eq_Suc)

lemma table_0: "crc16ccitt_table ! 0 = 0"
  by (simp add: crc16ccitt_table_def)

text \<open>Every table entry is the division of its index by the polynomial.\<close>

lemma table_serial: "i < 256 \<Longrightarrow> crc16ccitt_table ! i = (crc_bit ^^ 8) (push_bit 8 (of_nat i))"
proof (induction i rule: less_induct)
  case (less i)
  have one: "(crc_bit ^^ 8) (push_bit 8 1) = 0x1021" by (simp add: funpow_8 crc_bit_def)
  show ?case
  proof (cases "i = 0")
    case True
    have "(crc_bit ^^ 8) 0 = push_bit 8 0" by (rule crc_bits_low) simp_all
    then show ?thesis using True table_0 by simp
  next
    case False
    define j where "j = i div 2"
    have j: "j < i" "j < 128" using False less.prems by (auto simp: j_def)
    have IH: "crc16ccitt_table ! j = (crc_bit ^^ 8) (push_bit 8 (of_nat j))" using less.IH[OF j(1)] j(2) by simp
    have bits: "\<not> bit (of_nat j :: u16) 7"
      using j(2) by (simp add: bit_of_nat_iff bit_nat_iff) (simp add: bit_iff_odd)
    then have "crc_bit (push_bit 8 (of_nat j)) = push_bit 9 (of_nat j)"
      by (simp add: crc_bit_def bit_simps push_bit_push_bit)
    also have "\<dots> = push_bit 8 (of_nat (2 * j))" by (simp add: push_bit_eq_mult)
    finally have dbl: "crc_bit (crc16ccitt_table ! j) = (crc_bit ^^ 8) (push_bit 8 (of_nat (2 * j)))"
      unfolding IH by (metis funpow_swap1)
    show ?thesis
    proof (cases "even i")
      case True
      then have i: "i = 2 * j" by (simp add: j_def)
      then show ?thesis using table_step(1)[OF j(2)] dbl by simp
    next
      case False
      then have i: "i = 2 * j + 1" by (simp add: j_def)
      have "of_nat (2 * j) XOR (1 :: u16) = of_nat (2 * j) + 1"
        by (rule disjunctive_add_eq_xor[symmetric]) (simp add: and_one_eq mod_2_eq_odd)
      then have "push_bit 8 (of_nat i :: u16) = push_bit 8 (of_nat (2 * j)) XOR push_bit 8 1"
        by (metis push_bit_xor i of_nat_Suc Suc_eq_plus1 add.commute)
      then show ?thesis using table_step(2)[OF j(2)] dbl one by (simp add: crc_bits_xor i)
    qed
  qed
qed

lemma crc_byte_eq_serial: "crc_byte c d = crc_byte_serial c d"
proof -
  define m :: u16 where "m = 0xff"
  let ?x = "c XOR push_bit 8 (ucast d)"
  let ?i = "(drop_bit 8 c XOR ucast d) AND m"
  have lt: "unat ?i < 256"
  proof -
    have "?i \<le> m" by (rule word_and_le1)
    then show ?thesis by (simp add: word_le_nat_alt m_def)
  qed
  have mask: "bit m k \<longleftrightarrow> k < 8" for k
    using bit_mask_iff[of 8 k, where ?'a = "16 word"] by (auto simp: m_def mask_eq_exp_minus_1 bit_simps)
  have x: "?x = push_bit 8 ?i XOR (c AND m)"
    by (rule bit_word_eqI) (auto simp: bit_simps mask)
  have "(crc_bit ^^ 8) (c AND m) = push_bit 8 (c AND m)"
    by (rule crc_bits_low) (simp_all add: bit_and_iff mask)
  also have "\<dots> = push_bit 8 c"
    by (rule bit_word_eqI) (auto simp: bit_simps mask)
  finally have "(crc_bit ^^ 8) ?x = (crc_bit ^^ 8) (push_bit 8 ?i) XOR push_bit 8 c"
    by (subst x) (simp add: crc_bits_xor)
  moreover have "crc16ccitt_table ! unat ?i = (crc_bit ^^ 8) (push_bit 8 ?i)"
    using table_serial[OF lt] by simp
  ultimately show ?thesis by (simp add: crc_byte_def crc_byte_serial_def Let_def m_def)
qed

lemma xor_left_cancel: "(a :: 'a::len word) XOR b = a XOR c \<longleftrightarrow> b = c"
proof
  assume "a XOR b = a XOR c"
  then have "a XOR (a XOR b) = a XOR (a XOR c)" by simp
  then show "b = c" by (simp flip: xor.assoc)
qed simp

lemma xor_right_cancel: "(a :: 'a::len word) XOR b = c XOR b \<longleftrightarrow> a = c"
  using xor_left_cancel[of b a c] by (simp add: xor.commute)

lemma crc_byte_inject: "crc_byte c d = crc_byte c' d \<longleftrightarrow> c = c'"
  by (auto simp: crc_byte_eq_serial crc_byte_serial_def xor_right_cancel dest: crc_bits_inject)

lemma crc_foldl_inject: "foldl crc_byte c ds = foldl crc_byte c' ds \<longleftrightarrow> c = c'"
  by (induction ds arbitrary: c c') (simp_all add: crc_byte_inject)

text \<open>Two bytes move through the register as one 16-bit value.\<close>

lemma crc_two_bytes:
  "crc_byte (crc_byte c a) b = (crc_bit ^^ 16) (c XOR (push_bit 8 (ucast a) XOR ucast b))"
proof -
  have "(crc_bit ^^ 8) (ucast b) = push_bit 8 (ucast b)"
    by (rule crc_bits_low) (auto simp: bit_simps dest: bit_imp_le_length)
  then have "crc_byte (crc_byte c a) b = (crc_bit ^^ 8) ((crc_bit ^^ 8) (c XOR push_bit 8 (ucast a) XOR ucast b))"
    by (simp add: crc_byte_eq_serial crc_byte_serial_def crc_bits_xor xor.assoc)
  also have "\<dots> = (crc_bit ^^ 16) (c XOR (push_bit 8 (ucast a) XOR ucast b))"
    by (simp flip: funpow_add[unfolded comp_def, THEN fun_cong] add: xor.assoc)
  finally show ?thesis .
qed

lemma two_bytes_inject:
  fixes a b a' b' :: u8
  assumes "push_bit 8 (ucast a) XOR ucast b = push_bit 8 (ucast a') XOR (ucast b' :: u16)"
  shows "a = a' \<and> b = b'"
proof -
  have bits: "bit (push_bit 8 (ucast x) XOR ucast y :: u16) k = (if k < 8 then bit y k else k < 16 \<and> bit x (k - 8))"
    for x y :: u8 and k
    by (auto simp: bit_simps dest: bit_imp_le_length)
  have "bit b k = bit b' k" if "k < 8" for k
    using bits[of a b k] bits[of a' b' k] assms that by simp
  moreover have "bit a k = bit a' k" if "k < 8" for k
    using bits[of a b "k + 8"] bits[of a' b' "k + 8"] assms that by simp
  ultimately show ?thesis by (auto intro!: bit_word_eqI)
qed

lemma crc16_append: "crc16ccitt (xs @ ys) c = crc16ccitt ys (crc16ccitt xs c)"
  by (simp add: crc16ccitt_def)

subsection \<open>Properties\<close>

text \<open>
  the table-driven CRC of any byte string is the bit-serial CRC-16-CCITT: every entry of the
  256-word table in the source is the one the generator polynomial gives.
\<close>

theorem crc_table_is_polynomial_division:
  "crc16ccitt input startingCrc = foldl crc_byte_serial startingCrc input"
  by (induction input arbitrary: startingCrc) (simp_all add: crc16ccitt_def crc_byte_eq_serial)

lemma crc16_residue:
  "crc16 (input @ [hi, lo]) = 0 \<longleftrightarrow> hi = ucast (drop_bit 8 (crc16 input)) \<and> lo = ucast (crc16 input)"
proof -
  let ?c = "crc16 input" and ?hi = "ucast (drop_bit 8 (crc16 input)) :: u8" and ?lo = "ucast (crc16 input) :: u8"
  have c: "push_bit 8 (ucast ?hi) XOR ucast ?lo = ?c"
    by (rule bit_word_eqI) (auto simp: bit_simps)
  have z: "(crc_bit ^^ 16) 0 = 0"
    using crc_bits_xor[of 16 0 0] by simp
  have crc: "crc16 (input @ [hi, lo]) = (crc_bit ^^ 16) (?c XOR (push_bit 8 (ucast hi) XOR ucast lo))"
    by (simp add: crc16_def crc16_append) (simp add: crc16ccitt_def crc_two_bytes)
  have "crc16 (input @ [hi, lo]) = 0 \<longleftrightarrow> ?c XOR (push_bit 8 (ucast hi) XOR ucast lo) = ?c XOR ?c"
    unfolding crc using crc_bits_inject[of 16 _ 0] z by auto
  also have "\<dots> \<longleftrightarrow> push_bit 8 (ucast hi) XOR ucast lo = push_bit 8 (ucast ?hi) XOR (ucast ?lo :: u16)"
    using xor_left_cancel c by metis
  also have "\<dots> \<longleftrightarrow> hi = ?hi \<and> lo = ?lo" using two_bytes_inject by blast
  finally show ?thesis .
qed

text \<open>
  appending the checksum, high byte first, to any data makes the checksum of the whole zero,
  which is what the receivers test; and no other pair of trailing bytes does.
\<close>

theorem crc_residue_zero:
  "crc16 (input @ [hi, lo]) = 0 \<longleftrightarrow> hi = ucast (drop_bit 8 (crc16 input)) \<and> lo = ucast (crc16 input)"
  by (rule crc16_residue)

lemma crc16_burst:
  "crc16 (pre @ [a, b] @ post) = crc16 (pre @ [a', b'] @ post) \<longleftrightarrow> a = a' \<and> b = b'"
proof -
  let ?c = "crc16ccitt pre 0xffff"
  have "crc16 (pre @ [a, b] @ post) = crc16 (pre @ [a', b'] @ post) \<longleftrightarrow>
      crc_byte (crc_byte ?c a) b = crc_byte (crc_byte ?c a') b'"
    by (simp only: crc16_def crc16_append) (simp add: crc16ccitt_def crc_foldl_inject)
  also have "\<dots> \<longleftrightarrow> a = a' \<and> b = b'"
    by (auto simp: crc_two_bytes xor_left_cancel dest!: crc_bits_inject two_bytes_inject)
  finally show ?thesis .
qed

text \<open>
  two byte strings of the same length that differ only inside a window of two bytes never
  have the same checksum, whatever precedes and follows it: every burst error of up to 16 bits
  is detected.
\<close>

theorem crc_detects_bursts:
  "crc16 (pre @ [a, b] @ post) = crc16 (pre @ [a', b'] @ post) \<longleftrightarrow> a = a' \<and> b = b'"
  by (rule crc16_burst)

end
