(* ===== verification/Dle.thy ===== *)
theory Dle
  imports FsfwPrelude
begin

text \<open>
  The data link escape encoder of \<open>fsfw/globalfunctions/DleEncoder.cpp\<close>. The destination is the
  list of the bytes written so far, whose length is the write index; the source is the list of the
  bytes not yet read. A read behind the source stream is undefined behaviour (\<open>None\<close>). The lemmas
  give the exact condition under which encoding succeeds, that control characters never appear in
  the encoded body, and that decoding inverts encoding.
\<close>

definition DLE_STREAM_TOO_SHORT :: u16 where
  [retcode]: "DLE_STREAM_TOO_SHORT = MAKE_RETURN_CODE DLE_ENCODER 1"
definition DLE_DECODING_ERROR :: u16 where
  [retcode]: "DLE_DECODING_ERROR = MAKE_RETURN_CODE DLE_ENCODER 2"

definition STX_CHAR :: u8 where "STX_CHAR = 0x02"
definition ETX_CHAR :: u8 where "ETX_CHAR = 0x03"
definition DLE_CHAR :: u8 where "DLE_CHAR = 0x10"
definition CARRIAGE_RETURN :: u8 where "CARRIAGE_RETURN = 0x0D"

lemmas dle_chars = STX_CHAR_def ETX_CHAR_def DLE_CHAR_def CARRIAGE_RETURN_def

subsection \<open>Encoding\<close>

text \<open>The result of the loop: whether it returned early, the rest of the source, the output.\<close>

fun dle_encode_loop :: "bytes \<Rightarrow> bytes \<Rightarrow> nat \<Rightarrow> bool \<times> bytes \<times> bytes" where
  "dle_encode_loop [] out maxDestLen = (True, [], out)"
| "dle_encode_loop (nextByte # src) out maxDestLen =
     (if \<not> length out < maxDestLen then (True, nextByte # src, out)
      else if nextByte = STX_CHAR \<or> nextByte = ETX_CHAR \<or> nextByte = CARRIAGE_RETURN then
        (if maxDestLen \<le> length out + 1 then (False, nextByte # src, out)
         else dle_encode_loop src (out @ [DLE_CHAR, nextByte + 0x40]) maxDestLen)
      else if nextByte = DLE_CHAR then
        (if maxDestLen \<le> length out + 1 then (False, nextByte # src, out)
         else dle_encode_loop src (out @ [DLE_CHAR, DLE_CHAR]) maxDestLen)
      else dle_encode_loop src (out @ [nextByte]) maxDestLen)"

definition dle_encode :: "bytes \<Rightarrow> nat \<Rightarrow> bool \<Rightarrow> u16 \<times> bytes \<times> nat option" where
  "dle_encode src maxDestLen addStxEtx =
     (if maxDestLen < 2 then (DLE_STREAM_TOO_SHORT, [], None)
      else case dle_encode_loop src (if addStxEtx then [STX_CHAR] else []) maxDestLen of
          (False, _, out) \<Rightarrow> (DLE_STREAM_TOO_SHORT, out, None)
        | (True, rest, out) \<Rightarrow>
            if rest = [] \<and> length out < maxDestLen
            then (let out' = (if addStxEtx then out @ [ETX_CHAR] else out) in (RETURN_OK, out', Some (length out')))
            else (DLE_STREAM_TOO_SHORT, out, None))"

subsection \<open>Decoding\<close>

text \<open>
  \<open>idx\<close> is \<open>encodedIndex\<close>, the position of the head of the remaining source. The loop stops with
  \<open>Inl\<close> at an invalid escape sequence.
\<close>

fun dle_decode_loop :: "bytes \<Rightarrow> nat \<Rightarrow> bytes \<Rightarrow> nat \<Rightarrow> (bytes + bytes \<times> nat \<times> bytes) option" where
  "dle_decode_loop [] idx out maxDest = Some (Inr ([], idx, out))"
| "dle_decode_loop (b # src) idx out maxDest =
     (if length out < maxDest \<and> b \<noteq> ETX_CHAR \<and> b \<noteq> STX_CHAR then
        (if b = DLE_CHAR then
           (case src of
              [] \<Rightarrow> None
            | nextByte # src' \<Rightarrow>
                if nextByte = DLE_CHAR then dle_decode_loop src' (idx + 2) (out @ [nextByte]) maxDest
                else if nextByte = 0x42 \<or> nextByte = 0x43 \<or> nextByte = 0x4D
                then dle_decode_loop src' (idx + 2) (out @ [nextByte - 0x40]) maxDest
                else Some (Inl out))
         else dle_decode_loop src (idx + 1) (out @ [b]) maxDest)
      else Some (Inr (b # src, idx, out)))"

text \<open>The results: return value, \<open>readLen\<close>, the decoded bytes, \<open>decodedLen\<close>.\<close>

definition dle_decode :: "bytes \<Rightarrow> nat \<Rightarrow> (u16 \<times> nat option \<times> bytes \<times> nat option) option" where
  "dle_decode src maxDest =
     (case src of
        [] \<Rightarrow> None
      | b # rest \<Rightarrow>
          if b \<noteq> STX_CHAR then Some (DLE_DECODING_ERROR, None, [], None)
          else case dle_decode_loop rest 1 [] maxDest of
              None \<Rightarrow> None
            | Some (Inl out) \<Rightarrow> Some (DLE_DECODING_ERROR, None, out, None)
            | Some (Inr ([], idx, out)) \<Rightarrow> None
            | Some (Inr (b' # rest', idx, out)) \<Rightarrow>
                if b' \<noteq> ETX_CHAR then Some (DLE_DECODING_ERROR, Some (idx + 1), out, None)
                else Some (RETURN_OK, Some (idx + 1), out, Some (length out)))"

subsection \<open>The encoding of a byte\<close>

definition dle_escape :: "u8 \<Rightarrow> bytes" where
  "dle_escape b =
     (if b = STX_CHAR \<or> b = ETX_CHAR \<or> b = CARRIAGE_RETURN then [DLE_CHAR, b + 0x40]
      else if b = DLE_CHAR then [DLE_CHAR, DLE_CHAR] else [b])"

abbreviation dle_body :: "bytes \<Rightarrow> bytes" where
  "dle_body src \<equiv> concat (map dle_escape src)"

lemma dle_escape_nonempty [simp]: "dle_escape b \<noteq> []"
  by (simp add: dle_escape_def)

lemma dle_encode_loop_step:
  "dle_encode_loop (b # src) out maxDestLen =
     (if \<not> length out < maxDestLen then (True, b # src, out)
      else if length (dle_escape b) = 2 \<and> maxDestLen \<le> length out + 1 then (False, b # src, out)
      else dle_encode_loop src (out @ dle_escape b) maxDestLen)"
  by (auto simp: dle_escape_def)

lemma length_dle_escape: "length (dle_escape b) = 1 \<or> length (dle_escape b) = 2"
  by (simp add: dle_escape_def)

lemma dle_encode_loop_ok:
  "length (out @ dle_body src) < maxDestLen \<Longrightarrow> dle_encode_loop src out maxDestLen = (True, [], out @ dle_body src)"
proof (induction src arbitrary: out)
  case (Cons b src)
  then show ?case
    using Cons.IH[of "out @ dle_escape b"] length_dle_escape[of b]
    by (auto simp: dle_encode_loop_step simp del: dle_encode_loop.simps)
qed simp

lemma dle_encode_loop_short:
  "maxDestLen \<le> length (out @ dle_body src) \<Longrightarrow>
     case dle_encode_loop src out maxDestLen of
       (ok, rest, out') \<Rightarrow> ok \<longrightarrow> rest \<noteq> [] \<or> maxDestLen \<le> length out'"
proof (induction src arbitrary: out)
  case (Cons b src)
  then show ?case
    using Cons.IH[of "out @ dle_escape b"]
    by (auto simp: dle_encode_loop_step simp del: dle_encode_loop.simps split: prod.splits)
qed simp

lemma dle_encode_loop_bound:
  "length out \<le> maxDestLen \<Longrightarrow> length (snd (snd (dle_encode_loop src out maxDestLen))) \<le> maxDestLen"
  by (induction src out maxDestLen rule: dle_encode_loop.induct) auto

lemma dle_decode_escape:
  "length out < maxDest \<Longrightarrow>
     dle_decode_loop (dle_escape b @ rest) idx out maxDest =
       dle_decode_loop rest (idx + length (dle_escape b)) (out @ [b]) maxDest"
  by (auto simp: dle_escape_def dle_chars)

lemma dle_decode_body:
  "length out + length src \<le> maxDest \<Longrightarrow>
     dle_decode_loop (dle_body src @ ETX_CHAR # rest) idx out maxDest =
       Some (Inr (ETX_CHAR # rest, idx + length (dle_body src), out @ src))"
proof (induction src arbitrary: idx out)
  case Nil
  then show ?case by simp
next
  case (Cons b src)
  have "dle_decode_loop (dle_escape b @ (dle_body src @ ETX_CHAR # rest)) idx out maxDest =
      dle_decode_loop (dle_body src @ ETX_CHAR # rest) (idx + length (dle_escape b)) (out @ [b]) maxDest"
    using Cons.prems by (intro dle_decode_escape) simp
  then show ?case using Cons.IH[of "out @ [b]" "idx + length (dle_escape b)"] Cons.prems
    by (simp add: add.assoc)
qed

lemma dle_body_no_control:
  "b \<in> set (dle_body src) \<Longrightarrow> b \<noteq> STX_CHAR \<and> b \<noteq> ETX_CHAR \<and> b \<noteq> CARRIAGE_RETURN"
  by (auto simp: dle_escape_def dle_chars split: if_splits)

subsection \<open>Properties\<close>

text \<open>
  framed encoding writes STX, the escaped bytes and ETX, and succeeds exactly when these fit
  the destination; it never writes behind the destination's end.
\<close>

theorem dle_encode_exact:
  "(fst (dle_encode src maxDestLen True) = RETURN_OK \<longleftrightarrow> length (dle_body src) + 2 \<le> maxDestLen) \<and>
   (if length (dle_body src) + 2 \<le> maxDestLen
    then dle_encode src maxDestLen True =
      (RETURN_OK, STX_CHAR # dle_body src @ [ETX_CHAR], Some (length (dle_body src) + 2))
    else length (fst (snd (dle_encode src maxDestLen True))) \<le> maxDestLen)"
proof (cases "length (dle_body src) + 2 \<le> maxDestLen")
  case True
  then have "dle_encode_loop src [STX_CHAR] maxDestLen = (True, [], STX_CHAR # dle_body src)"
    using dle_encode_loop_ok[of "[STX_CHAR]" src maxDestLen] by simp
  then show ?thesis using True by (simp add: dle_encode_def)
next
  case False
  obtain ok rest out where loop: "dle_encode_loop src [STX_CHAR] maxDestLen = (ok, rest, out)"
    by (metis prod.exhaust)
  have "ok \<longrightarrow> rest \<noteq> [] \<or> maxDestLen \<le> length out"
    using dle_encode_loop_short[of maxDestLen "[STX_CHAR]" src] False loop by simp
  moreover have "2 \<le> maxDestLen \<Longrightarrow> length out \<le> maxDestLen"
    using dle_encode_loop_bound[of "[STX_CHAR]" maxDestLen src] loop by simp
  moreover have "DLE_STREAM_TOO_SHORT \<noteq> RETURN_OK" by (simp add: retcode)
  ultimately show ?thesis using False
    by (cases "maxDestLen < 2"; cases ok) (auto simp: dle_encode_def loop)
qed

text \<open>
  C40. decoding a framed stream returns the encoded data, consumes exactly the frame and stays
  inside the source, whatever follows the frame; the frame's body holds no STX, ETX or carriage
  return, so a receiver can cut frames at these characters.
\<close>

theorem dle_round_trip:
  assumes "dle_encode src maxDestLen True = (RETURN_OK, enc, Some n)" and "length src \<le> maxDest"
  shows "dle_decode (enc @ rest) maxDest = Some (RETURN_OK, Some n, src, Some (length src)) \<and>
    (\<forall>b \<in> set (butlast (tl enc)). b \<noteq> STX_CHAR \<and> b \<noteq> ETX_CHAR \<and> b \<noteq> CARRIAGE_RETURN)"
proof -
  have enc: "enc = STX_CHAR # dle_body src @ [ETX_CHAR]" "n = length (dle_body src) + 2"
    using dle_encode_exact[of src maxDestLen] assms(1) by (auto split: if_splits)
  have "dle_decode (enc @ rest) maxDest = Some (RETURN_OK, Some n, src, Some (length src))"
    using dle_decode_body[of "[]" src maxDest rest 1] assms(2) by (simp add: dle_decode_def enc)
  then show ?thesis using dle_body_no_control by (auto simp: enc)
qed

theorem dle_round_trip_witness:
  "dle_decode ([0x02, 0x41, 0x10, 0x42, 0x10, 0x10, 0x03] @ [0x02]) 3 =
     Some (RETURN_OK, Some 7, [0x41, 0x02, 0x10], Some 3)"
proof -
  have "dle_encode [0x41, 0x02, 0x10] 7 True = (RETURN_OK, [0x02, 0x41, 0x10, 0x42, 0x10, 0x10, 0x03], Some 7)"
    by (simp add: dle_encode_def dle_chars)
  then have "dle_decode ([0x02, 0x41, 0x10, 0x42, 0x10, 0x10, 0x03] @ [0x02]) 3 =
      Some (RETURN_OK, Some 7, [0x41, 0x02, 0x10], Some (length [0x41, 0x02, 0x10 :: u8]))"
    by (rule dle_round_trip[THEN conjunct1]) simp
  then show ?thesis by (simp add: numeral_3_eq_3)
qed

text \<open>
  a stream that starts with STX but holds neither ETX, STX nor DLE afterwards is read behind
  its end when the destination has room for it: the test for ETX after the loop does not compare
  the index with the stream's length.
\<close>

theorem dle_decode_reads_past_end:
  assumes "\<forall>b \<in> set body. b \<noteq> ETX_CHAR \<and> b \<noteq> STX_CHAR \<and> b \<noteq> DLE_CHAR" and "length body \<le> maxDest"
  shows "dle_decode (STX_CHAR # body) maxDest = None"
proof -
  have "dle_decode_loop body idx out maxDest = Some (Inr ([], idx + length body, out @ body))"
    if "length out + length body \<le> maxDest" for idx out
    using assms(1) that by (induction body arbitrary: idx out) auto
  from this[of "[]" 1] show ?thesis using assms(2) by (simp add: dle_decode_def)
qed

theorem dle_decode_reads_past_end_witness: "dle_decode (STX_CHAR # [0x41, 0x42]) 10 = None"
  by (rule dle_decode_reads_past_end) (simp_all add: dle_chars)

end
