(* ===== verification/SpacePackets.thy ===== *)
theory SpacePackets
  imports Crc
begin

text \<open>
  CCSDS space packets, \<open>fsfw/tmtcpacket/SpacePacketBase.cpp\<close>. A packet object is a pointer to memory;
  here it is the list of the bytes from that address on. The getters and setters do not check it (the
  class comments say so): the lemmas state how many bytes each needs. They show that every setter
  changes its own field only and that the initialiser builds a header the getters read back.
\<close>

type_synonym packet = bytes

subsection \<open>SpacePacketBase\<close>

definition CCSDS_HEADER_SIZE :: nat where "CCSDS_HEADER_SIZE = 6"
definition CRC_SIZE :: nat where "CRC_SIZE = 2"
definition MINIMUM_SIZE :: nat where "MINIMUM_SIZE = CCSDS_HEADER_SIZE + CRC_SIZE"
definition LIMIT_SEQUENCE_COUNT :: u16 where "LIMIT_SEQUENCE_COUNT = 16384"

definition getPacketVersionNumber :: "packet \<Rightarrow> u8" where
  [layout]: "getPacketVersionNumber p = drop_bit 5 (p ! 0 AND 0b11100000)"

definition isTelecommand :: "packet \<Rightarrow> bool" where
  [layout]: "isTelecommand p \<longleftrightarrow> drop_bit 4 (p ! 0 AND 0b00010000) \<noteq> 0"

definition hasSecondaryHeader :: "packet \<Rightarrow> bool" where
  [layout]: "hasSecondaryHeader p \<longleftrightarrow> drop_bit 3 (p ! 0 AND 0b00001000) \<noteq> 0"

definition getPacketId :: "packet \<Rightarrow> u16" where
  [layout]: "getPacketId p = push_bit 8 (ucast (p ! 0)) + ucast (p ! 1)"

definition getAPID :: "packet \<Rightarrow> u16" where
  [layout]: "getAPID p = push_bit 8 (ucast (p ! 0 AND 0b00000111)) + ucast (p ! 1)"

definition setAPID :: "packet \<Rightarrow> u16 \<Rightarrow> packet" where
  [layout]: "setAPID p new_apid =
     p[0 := (p ! 0 AND 0b11111000) OR ucast (drop_bit 8 (new_apid AND 0x0700)),
       1 := ucast (new_apid AND 0x00FF)]"

definition getPacketSequenceControl :: "packet \<Rightarrow> u16" where
  [layout]: "getPacketSequenceControl p = push_bit 8 (ucast (p ! 2)) + ucast (p ! 3)"

definition getSequenceFlags :: "packet \<Rightarrow> u8" where
  [layout]: "getSequenceFlags p = drop_bit 6 (p ! 2 AND 0b11000000)"

definition getPacketSequenceCount :: "packet \<Rightarrow> u16" where
  [layout]: "getPacketSequenceCount p = push_bit 8 (ucast (p ! 2 AND 0b00111111)) + ucast (p ! 3)"

definition setPacketSequenceCount :: "packet \<Rightarrow> u16 \<Rightarrow> packet" where
  [layout]: "setPacketSequenceCount p new_count =
     p[2 := (p ! 2 AND 0b11000000) OR ucast (drop_bit 8 ((new_count mod LIMIT_SEQUENCE_COUNT) AND 0x3F00)),
       3 := ucast ((new_count mod LIMIT_SEQUENCE_COUNT) AND 0x00FF)]"

definition getPacketDataLength :: "packet \<Rightarrow> u16" where
  [layout]: "getPacketDataLength p = push_bit 8 (ucast (p ! 4)) + ucast (p ! 5)"

definition setPacketDataLength :: "packet \<Rightarrow> u16 \<Rightarrow> packet" where
  [layout]: "setPacketDataLength p new_length =
     p[4 := ucast (drop_bit 8 (new_length AND 0xFF00)), 5 := ucast (new_length AND 0x00FF)]"

definition getFullSize :: "packet \<Rightarrow> nat" where
  "getFullSize p = unat (getPacketDataLength p) + CCSDS_HEADER_SIZE + 1"

definition getApidAndSequenceCount :: "packet \<Rightarrow> u32" where
  "getApidAndSequenceCount p = push_bit 16 (ucast (getAPID p)) + ucast (getPacketSequenceCount p)"

definition initSpacePacketHeader :: "packet \<Rightarrow> bool \<Rightarrow> bool \<Rightarrow> u16 \<Rightarrow> u16 \<Rightarrow> packet" where
  "initSpacePacketHeader p isTc hasSec apid sequenceCount =
     (let p1 = p[0 := 0, 1 := 0, 2 := 0, 3 := 0, 4 := 0, 5 := 0];
          p2 = p1[0 := push_bit 4 (if isTc then 1 else 0)];
          p3 = p2[0 := (p2 ! 0) OR push_bit 3 (if hasSec then 1 else 0)];
          p4 = setAPID p3 apid;
          p5 = p4[2 := 0b11000000]
      in setPacketSequenceCount p5 sequenceCount)"

lemma length_setters [simp]:
  "length (setAPID p a) = length p" "length (setPacketSequenceCount p c) = length p"
  "length (setPacketDataLength p n) = length p" "length (initSpacePacketHeader p t s a c) = length p"
  by (simp_all add: setAPID_def setPacketSequenceCount_def setPacketDataLength_def initSpacePacketHeader_def Let_def)

text \<open>What each setter writes, as bits.\<close>

lemma mod_16384: "(w :: u16) mod LIMIT_SEQUENCE_COUNT = take_bit 14 w"
  by (simp add: LIMIT_SEQUENCE_COUNT_def take_bit_eq_mod)

text \<open>A primary header is six bytes followed by the packet data field.\<close>

lemma header_cases:
  assumes "6 \<le> length p"
  obtains b0 b1 b2 b3 b4 b5 r where "p = b0 # b1 # b2 # b3 # b4 # b5 # r"
proof -
  from assms obtain b0 b1 b2 b3 b4 b5 r where "p = b0 # b1 # b2 # b3 # b4 # b5 # r"
    by (metis Suc_le_length_iff numeral_eq_Suc pred_numeral_simps(2,3) BitM.simps(1-3) arith_simps(26))
  then show thesis by (rule that)
qed

lemma isTelecommand_bit: "isTelecommand p \<longleftrightarrow> bit (p ! 0) 4"
proof -
  have "bit (drop_bit 4 (p ! 0 AND 0b00010000)) 0 = bit (p ! 0) 4" by (simp add: bit_simps)
  moreover have "\<not> bit (p ! 0) 4 \<Longrightarrow> drop_bit 4 (p ! 0 AND 0b00010000) = 0"
    by (rule word8_eqI) (simp_all add: bit_simps)
  ultimately show ?thesis by (metis isTelecommand_def bit_0_eq bot_apply bot_bool_def)
qed

lemma hasSecondaryHeader_bit: "hasSecondaryHeader p \<longleftrightarrow> bit (p ! 0) 3"
proof -
  have "bit (drop_bit 3 (p ! 0 AND 0b00001000)) 0 = bit (p ! 0) 3" by (simp add: bit_simps)
  moreover have "\<not> bit (p ! 0) 3 \<Longrightarrow> drop_bit 3 (p ! 0 AND 0b00001000) = 0"
    by (rule word8_eqI) (simp_all add: bit_simps)
  ultimately show ?thesis by (metis hasSecondaryHeader_def bit_0_eq bot_apply bot_bool_def)
qed

text \<open>A setter is read back by its getter, and leaves the other fields alone.\<close>

lemma getAPID_setAPID [simp]: "6 \<le> length p \<Longrightarrow> getAPID (setAPID p a) = take_bit 11 a"
  by (erule header_cases, rule word16_eqI) (simp_all add: layout hi_lo_plus bit_simps)

lemma getPacketSequenceCount_set [simp]:
  "6 \<le> length p \<Longrightarrow> getPacketSequenceCount (setPacketSequenceCount p c) = c mod LIMIT_SEQUENCE_COUNT"
  by (erule header_cases, rule word16_eqI) (simp_all add: layout mod_16384 hi_lo_plus bit_simps)

lemma getPacketDataLength_set [simp]:
  "6 \<le> length p \<Longrightarrow> getPacketDataLength (setPacketDataLength p n) = n"
  by (erule header_cases, rule word16_eqI) (simp_all add: layout hi_lo_plus bit_simps)

lemma setAPID_other:
  assumes "6 \<le> length p"
  shows "isTelecommand (setAPID p a) = isTelecommand p" "hasSecondaryHeader (setAPID p a) = hasSecondaryHeader p"
    "getPacketVersionNumber (setAPID p a) = getPacketVersionNumber p"
    "getSequenceFlags (setAPID p a) = getSequenceFlags p"
    "getPacketSequenceCount (setAPID p a) = getPacketSequenceCount p"
    "getPacketDataLength (setAPID p a) = getPacketDataLength p"
    "drop 6 (setAPID p a) = drop 6 p"
proof -
  obtain b0 b1 b2 b3 b4 b5 r where p: "p = b0 # b1 # b2 # b3 # b4 # b5 # r"
    using assms by (rule header_cases)
  have 0: "bit (setAPID p a ! 0) n = bit b0 n" if "n = 3 \<or> n = 4 \<or> n = 5 \<or> n = 6 \<or> n = 7" for n
    using that by (auto simp: p setAPID_def bit_simps)
  show "isTelecommand (setAPID p a) = isTelecommand p" "hasSecondaryHeader (setAPID p a) = hasSecondaryHeader p"
    using 0[of 4] 0[of 3] by (simp_all add: isTelecommand_bit hasSecondaryHeader_bit p)
  show "getPacketVersionNumber (setAPID p a) = getPacketVersionNumber p"
    unfolding getPacketVersionNumber_def using 0[of 5] 0[of 6] 0[of 7] by (intro word8_eqI) (simp_all add: bit_simps p)
qed (use assms in \<open>auto elim!: header_cases simp: setAPID_def layout\<close>)

lemma setPacketSequenceCount_other:
  assumes "6 \<le> length p"
  shows "getPacketId (setPacketSequenceCount p c) = getPacketId p"
    "getAPID (setPacketSequenceCount p c) = getAPID p"
    "isTelecommand (setPacketSequenceCount p c) = isTelecommand p"
    "hasSecondaryHeader (setPacketSequenceCount p c) = hasSecondaryHeader p"
    "getPacketVersionNumber (setPacketSequenceCount p c) = getPacketVersionNumber p"
    "getSequenceFlags (setPacketSequenceCount p c) = getSequenceFlags p"
    "getPacketDataLength (setPacketSequenceCount p c) = getPacketDataLength p"
    "drop 6 (setPacketSequenceCount p c) = drop 6 p"
proof -
  obtain b0 b1 b2 b3 b4 b5 r where p: "p = b0 # b1 # b2 # b3 # b4 # b5 # r"
    using assms by (rule header_cases)
  show "getSequenceFlags (setPacketSequenceCount p c) = getSequenceFlags p"
    by (rule word8_eqI) (simp_all add: p setPacketSequenceCount_def getSequenceFlags_def bit_simps)
qed (use assms in \<open>auto elim!: header_cases simp: setPacketSequenceCount_def getPacketId_def getAPID_def
       isTelecommand_def hasSecondaryHeader_def getPacketVersionNumber_def getPacketDataLength_def\<close>)

lemma setPacketDataLength_other:
  assumes "6 \<le> length p"
  shows "take 4 (setPacketDataLength p n) = take 4 p" "drop 6 (setPacketDataLength p n) = drop 6 p"
  using assms by (auto elim!: header_cases simp: setPacketDataLength_def)

lemma initSpacePacketHeader_fields:
  assumes "6 \<le> length p"
  shows "getPacketVersionNumber (initSpacePacketHeader p t h a c) = 0"
    "isTelecommand (initSpacePacketHeader p t h a c) = t"
    "hasSecondaryHeader (initSpacePacketHeader p t h a c) = h"
    "getAPID (initSpacePacketHeader p t h a c) = take_bit 11 a"
    "getSequenceFlags (initSpacePacketHeader p t h a c) = 3"
    "getPacketSequenceCount (initSpacePacketHeader p t h a c) = c mod LIMIT_SEQUENCE_COUNT"
    "getPacketDataLength (initSpacePacketHeader p t h a c) = 0"
    "drop 6 (initSpacePacketHeader p t h a c) = drop 6 p"
proof -
  obtain b0 b1 b2 b3 b4 b5 r where p: "p = b0 # b1 # b2 # b3 # b4 # b5 # r"
    using assms by (rule header_cases)
  let ?h = "push_bit 4 (if t then 1 else 0) OR push_bit 3 (if h then 1 else 0) :: u8"
  let ?q = "setAPID [?h, 0, 0, 0, 0, 0] a"
  have q: "initSpacePacketHeader p t h a c = setPacketSequenceCount (?q[2 := 0b11000000]) c @ r"
    by (simp add: p initSpacePacketHeader_def setAPID_def setPacketSequenceCount_def Let_def)
  show "drop 6 (initSpacePacketHeader p t h a c) = drop 6 p" unfolding q by (simp add: p)
  have b: "bit (initSpacePacketHeader p t h a c ! 0) n = bit ?h n" if "n = 3 \<or> n = 4 \<or> n = 5 \<or> n = 6 \<or> n = 7" for n
    using that by (auto simp: q setAPID_def setPacketSequenceCount_def bit_simps)
  show "isTelecommand (initSpacePacketHeader p t h a c) = t"
    using b[of 4] by (simp add: isTelecommand_bit bit_simps)
  show "hasSecondaryHeader (initSpacePacketHeader p t h a c) = h"
    using b[of 3] by (simp add: hasSecondaryHeader_bit bit_simps)
  show "getPacketVersionNumber (initSpacePacketHeader p t h a c) = 0"
    unfolding getPacketVersionNumber_def using b[of 5] b[of 6] b[of 7]
    by (intro word8_eqI) (simp_all add: bit_simps)
  show "getAPID (initSpacePacketHeader p t h a c) = take_bit 11 a"
    by (rule word16_eqI) (simp_all add: q layout hi_lo_plus bit_simps)
  show "getSequenceFlags (initSpacePacketHeader p t h a c) = 3"
    by (rule word8_eqI) (simp_all add: q layout bit_simps)
  show "getPacketSequenceCount (initSpacePacketHeader p t h a c) = c mod LIMIT_SEQUENCE_COUNT"
    by (rule word16_eqI) (simp_all add: q layout mod_16384 hi_lo_plus bit_simps)
  show "getPacketDataLength (initSpacePacketHeader p t h a c) = 0"
    by (simp add: q layout)
qed

end
