(* ===== verification/PusPackets.thy ===== *)
theory PusPackets
  imports SpacePackets
begin

text \<open>
  PUS telecommand and telemetry packets, \<open>fsfw/tmtcpacket/pus/TcPacketBase.cpp\<close> and
  \<open>TmPacketBase.cpp\<close>, and the packet with local data, \<open>fsfw/tmtcpacket/SpacePacket.cpp\<close>.
  The structs \<open>PUSTcDataFieldHeader\<close> (4 bytes) and \<open>PUSTmDataFieldHeader\<close> (3 bytes and the time
  field) lie behind the six bytes of the primary header. The lemmas give the header fields after
  initialisation, the place of the error control field, and the CRC of a closed packet.
\<close>

subsection \<open>TcPacketBase\<close>

definition PUS_TC_HEADER_SIZE :: nat where "PUS_TC_HEADER_SIZE = 4"
definition TC_PACKET_MIN_SIZE :: nat where "TC_PACKET_MIN_SIZE = CCSDS_HEADER_SIZE + PUS_TC_HEADER_SIZE + 2"
definition TC_APP_DATA :: nat where "TC_APP_DATA = CCSDS_HEADER_SIZE + PUS_TC_HEADER_SIZE"

text \<open>\<open>enum AckField\<close>.\<close>

definition ACK_NONE :: u8 where "ACK_NONE = 0b0000"
definition ACK_ACCEPTANCE :: u8 where "ACK_ACCEPTANCE = 0b0001"
definition ACK_START :: u8 where "ACK_START = 0b0010"
definition ACK_STEP :: u8 where "ACK_STEP = 0b0100"
definition ACK_COMPLETION :: u8 where "ACK_COMPLETION = 0b1000"
definition ACK_ALL :: u8 where "ACK_ALL = ACK_ACCEPTANCE OR ACK_START OR ACK_STEP OR ACK_COMPLETION"

definition tc_getService :: "packet \<Rightarrow> u8" where
  [layout]: "tc_getService p = p ! 7"

definition tc_getSubService :: "packet \<Rightarrow> u8" where
  [layout]: "tc_getSubService p = p ! 8"

definition getAcknowledgeFlags :: "packet \<Rightarrow> u8" where
  [layout]: "getAcknowledgeFlags p = p ! 6 AND 0b00001111"

definition getSecondaryHeaderFlag :: "packet \<Rightarrow> u8" where
  [layout]: "getSecondaryHeaderFlag p = drop_bit 7 (p ! 6 AND 0b10000000)"

definition getPusVersionNumber :: "packet \<Rightarrow> u8" where
  [layout]: "getPusVersionNumber p = drop_bit 4 (p ! 6 AND 0b01110000)"

definition getApplicationDataSize :: "packet \<Rightarrow> u16" where
  "getApplicationDataSize p = getPacketDataLength p - 4 - 2 + 1"

definition getApplicationData :: "packet \<Rightarrow> bytes" where
  "getApplicationData p = drop TC_APP_DATA p"

text \<open>The index \<open>size - 2\<close> is an \<open>int\<close>: for a \<open>size\<close> that wrapped to 0 the two bytes before the application data are read.\<close>

definition tc_getErrorControl :: "packet \<Rightarrow> u16" where
  "tc_getErrorControl p =
     (let size = unat (getApplicationDataSize p + 2) in
      push_bit 8 (ucast (p ! (TC_APP_DATA + size - 2))) + ucast (p ! (TC_APP_DATA + size - 1)))"

definition tc_setErrorControl :: "packet \<Rightarrow> packet" where
  "tc_setErrorControl p =
     (let full_size = getFullSize p;
          crc = crc16 (take (full_size - CRC_SIZE) p);
          size = unat (getApplicationDataSize p)
      in p[TC_APP_DATA + size := ucast (drop_bit 8 (crc AND 0xFF00)), TC_APP_DATA + size + 1 := ucast (crc AND 0x00FF)])"

definition initializeTcPacket :: "packet \<Rightarrow> u16 \<Rightarrow> u16 \<Rightarrow> u8 \<Rightarrow> u8 \<Rightarrow> u8 \<Rightarrow> packet" where
  "initializeTcPacket p apid sequenceCount ack service subservice =
     (let p1 = initSpacePacketHeader p True True apid sequenceCount;
          p2 = p1[6 := 0, 7 := 0, 8 := 0, 9 := 0];
          p3 = setPacketDataLength p2 (4 + 2 - 1);
          p4 = p3[6 := 0b00010000];
          p5 = p4[6 := p4 ! 6 OR (ack AND 0x0F)]
      in p5[7 := service, 8 := subservice])"

definition calculateFullPacketLength :: "nat \<Rightarrow> nat" where
  "calculateFullPacketLength appDataLen = CCSDS_HEADER_SIZE + PUS_TC_HEADER_SIZE + appDataLen + CRC_SIZE"

subsection \<open>TmPacketBase\<close>

definition MISSION_TIMESTAMP_SIZE :: nat where "MISSION_TIMESTAMP_SIZE = 6"
definition PUS_TM_HEADER_SIZE :: nat where "PUS_TM_HEADER_SIZE = 3 + MISSION_TIMESTAMP_SIZE"
definition TM_PACKET_MIN_SIZE :: nat where "TM_PACKET_MIN_SIZE = CCSDS_HEADER_SIZE + PUS_TM_HEADER_SIZE + 2"
definition TM_TIME :: nat where "TM_TIME = CCSDS_HEADER_SIZE + 3"
definition TM_SOURCE_DATA :: nat where "TM_SOURCE_DATA = CCSDS_HEADER_SIZE + PUS_TM_HEADER_SIZE"

lemmas pus_sizes = CCSDS_HEADER_SIZE_def CRC_SIZE_def PUS_TC_HEADER_SIZE_def TC_PACKET_MIN_SIZE_def TC_APP_DATA_def
  MISSION_TIMESTAMP_SIZE_def PUS_TM_HEADER_SIZE_def TM_PACKET_MIN_SIZE_def TM_TIME_def TM_SOURCE_DATA_def

definition tm_getService :: "packet \<Rightarrow> u8" where
  [layout]: "tm_getService p = p ! 7"

definition tm_getSubService :: "packet \<Rightarrow> u8" where
  [layout]: "tm_getSubService p = p ! 8"

definition getSourceData :: "packet \<Rightarrow> bytes" where
  "getSourceData p = drop TM_SOURCE_DATA p"

definition getSourceDataSize :: "packet \<Rightarrow> u16" where
  "getSourceDataSize p = getPacketDataLength p - 9 - 2 + 1"

text \<open>\<open>size\<close> is 32 bits wide here, so a 16-bit size near its maximum does not wrap.\<close>

definition tm_getErrorControl :: "packet \<Rightarrow> u16" where
  "tm_getErrorControl p =
     (let size = unat (getSourceDataSize p) + 2 in
      push_bit 8 (ucast (p ! (TM_SOURCE_DATA + size - 2))) + ucast (p ! (TM_SOURCE_DATA + size - 1)))"

definition tm_setErrorControl :: "packet \<Rightarrow> packet" where
  "tm_setErrorControl p =
     (let full_size = getFullSize p;
          crc = crc16 (take (full_size - CRC_SIZE) p);
          size = unat (getSourceDataSize p)
      in p[TM_SOURCE_DATA + size := ucast (drop_bit 8 (crc AND 0xFF00)), TM_SOURCE_DATA + size + 1 := ucast (crc AND 0x00FF)])"

definition setSourceDataSize :: "packet \<Rightarrow> u16 \<Rightarrow> packet" where
  "setSourceDataSize p sz = setPacketDataLength p (sz + 9 + 2 - 1)"

definition getPacketTimeRaw :: "packet \<Rightarrow> bytes" where
  "getPacketTimeRaw p = take MISSION_TIMESTAMP_SIZE (drop TM_TIME p)"

text \<open>
  The time stamper is found through the object manager; \<open>None\<close> when it is missing. Its argument is
  the memory from the time field on and it returns that memory as it leaves it.
\<close>

definition initializeTmPacket :: "(bytes \<Rightarrow> bytes) option \<Rightarrow> packet \<Rightarrow> u16 \<Rightarrow> u8 \<Rightarrow> u8 \<Rightarrow> packet" where
  "initializeTmPacket timeStamper p apid service subservice =
     (let p1 = initSpacePacketHeader p False True apid 0;
          p2 = take 6 p1 @ replicate PUS_TM_HEADER_SIZE 0 @ drop TM_SOURCE_DATA p1;
          p3 = p2[6 := 0b00010000, 7 := service, 8 := subservice]
      in case timeStamper of None \<Rightarrow> p3
         | Some addTimeStamp \<Rightarrow> take TM_TIME p3 @ addTimeStamp (drop TM_TIME p3))"

subsection \<open>SpacePacket\<close>

text \<open>
  \<open>localData\<close> holds the header and \<open>PACKET_MAX_SIZE\<close> bytes, uninitialised before the header is
  written. \<open>addWholeData\<close> compares with the size of the pointer \<open>data\<close> (8 bytes), not of the buffer.
\<close>

definition PACKET_MAX_SIZE :: nat where "PACKET_MAX_SIZE = 1024"

definition newSpacePacket :: "bytes \<Rightarrow> u16 \<Rightarrow> bool \<Rightarrow> u16 \<Rightarrow> u16 \<Rightarrow> packet" where
  "newSpacePacket localData packetDataLength isTc apid sequenceCount =
     (let p1 = initSpacePacketHeader localData isTc False apid sequenceCount;
          p2 = setPacketSequenceCount p1 sequenceCount
      in if unat packetDataLength \<le> PACKET_MAX_SIZE then setPacketDataLength p2 packetDataLength
         else setPacketDataLength p2 (of_nat PACKET_MAX_SIZE))"

definition addWholeData :: "packet \<Rightarrow> bytes \<Rightarrow> packet \<times> bool" where
  "addWholeData localData p_Data =
     (if length p_Data \<le> 8 then (p_Data @ drop (length p_Data) localData, True) else (localData, False))"

subsection \<open>Header fields after initialisation\<close>

lemma pus_header_cases:
  assumes "10 \<le> length p"
  obtains h b6 b7 b8 b9 r where "p = h @ b6 # b7 # b8 # b9 # r" "length h = 6"
proof -
  have "4 \<le> length (drop 6 p)" using assms by simp
  then obtain b6 b7 b8 b9 r where "drop 6 p = b6 # b7 # b8 # b9 # r"
    by (metis Suc_le_length_iff numeral_eq_Suc pred_numeral_simps(2,3) BitM.simps(1-3) arith_simps(26))
  moreover have "p = take 6 p @ drop 6 p" "length (take 6 p) = 6" using assms by simp_all
  ultimately show thesis by (metis that)
qed

text \<open>The primary header getters look at the first six bytes only.\<close>

lemma primary_append:
  assumes "length h = 6"
  shows "getPacketVersionNumber (h @ r) = getPacketVersionNumber h" "isTelecommand (h @ r) = isTelecommand h"
    "hasSecondaryHeader (h @ r) = hasSecondaryHeader h" "getAPID (h @ r) = getAPID h"
    "getSequenceFlags (h @ r) = getSequenceFlags h" "getPacketSequenceCount (h @ r) = getPacketSequenceCount h"
    "getPacketDataLength (h @ r) = getPacketDataLength h" "getFullSize (h @ r) = getFullSize h"
    "setPacketDataLength (h @ r) n = setPacketDataLength h n @ r"
    "initSpacePacketHeader (h @ r) t s a c = initSpacePacketHeader h t s a c @ r"
  using assms
  by (simp_all add: layout getFullSize_def nth_append list_update_append initSpacePacketHeader_def Let_def)

lemma setPacketDataLength_other_fields:
  assumes "6 \<le> length p"
  shows "getPacketVersionNumber (setPacketDataLength p n) = getPacketVersionNumber p"
    "isTelecommand (setPacketDataLength p n) = isTelecommand p"
    "hasSecondaryHeader (setPacketDataLength p n) = hasSecondaryHeader p"
    "getAPID (setPacketDataLength p n) = getAPID p"
    "getSequenceFlags (setPacketDataLength p n) = getSequenceFlags p"
    "getPacketSequenceCount (setPacketDataLength p n) = getPacketSequenceCount p"
  using assms by (auto elim!: header_cases simp: layout)

lemma initializeTcPacket_eq:
  assumes "length h = 6"
  shows "initializeTcPacket (h @ b6 # b7 # b8 # b9 # r) apid seq ack sv sub =
     setPacketDataLength (initSpacePacketHeader h True True apid seq) 5 @ (0b00010000 OR (ack AND 0x0F)) # sv # sub # 0 # r"
  using assms by (simp add: initializeTcPacket_def Let_def primary_append list_update_append nth_append)

lemma initializeTcPacket_fields:
  fixes apid seq ack sv sub
  assumes "10 \<le> length p"
  defines "q \<equiv> initializeTcPacket p apid seq ack sv sub"
  shows "length q = length p" "isTelecommand q" "hasSecondaryHeader q" "getAPID q = take_bit 11 apid"
    "getPacketSequenceCount q = seq mod LIMIT_SEQUENCE_COUNT" "getSequenceFlags q = 3" "getPacketDataLength q = 5"
    "getPacketVersionNumber q = 0"
    "tc_getService q = sv" "tc_getSubService q = sub" "getAcknowledgeFlags q = take_bit 4 ack"
    "getSecondaryHeaderFlag q = 0" "getPusVersionNumber q = 1" "drop 10 q = drop 10 p"
proof -
  obtain h b6 b7 b8 b9 r where p: "p = h @ b6 # b7 # b8 # b9 # r" and h: "length h = 6"
    using assms(1) by (rule pus_header_cases)
  have q: "q = setPacketDataLength (initSpacePacketHeader h True True apid seq) 5 @ (0b00010000 OR (ack AND 0x0F)) # sv # sub # 0 # r"
    using h by (simp add: q_def p initializeTcPacket_eq)
  show "length q = length p" "isTelecommand q" "hasSecondaryHeader q" "getAPID q = take_bit 11 apid"
    "getPacketSequenceCount q = seq mod LIMIT_SEQUENCE_COUNT" "getSequenceFlags q = 3" "getPacketDataLength q = 5"
    "getPacketVersionNumber q = 0"
    using h by (simp_all add: q p primary_append setPacketDataLength_other_fields initSpacePacketHeader_fields)
  show "tc_getService q = sv" "tc_getSubService q = sub" "drop 10 q = drop 10 p"
    using h by (simp_all add: q p tc_getService_def tc_getSubService_def nth_append)
  show "getAcknowledgeFlags q = take_bit 4 ack" "getSecondaryHeaderFlag q = 0" "getPusVersionNumber q = 1"
    using h by (auto intro!: word8_eqI simp: q layout nth_append bit_simps)
qed

lemma initializeTmPacket_fields:
  fixes timeStamper apid sv sub
  assumes "15 \<le> length p" and stamp: "\<forall>f. timeStamper = Some f \<longrightarrow> length (f (replicate 6 0 @ drop 15 p)) = length p - 9"
  defines "q \<equiv> initializeTmPacket timeStamper p apid sv sub"
  shows "length q = length p" "\<not> isTelecommand q" "hasSecondaryHeader q" "getAPID q = take_bit 11 apid"
    "getPacketSequenceCount q = 0" "getSequenceFlags q = 3" "getPacketDataLength q = 0"
    "tm_getService q = sv" "tm_getSubService q = sub"
    "drop 9 q = (case timeStamper of None \<Rightarrow> replicate 6 0 @ drop 15 p | Some f \<Rightarrow> f (replicate 6 0 @ drop 15 p))"
proof -
  let ?h = "initSpacePacketHeader (take 6 p) False True apid 0"
  let ?t = "case timeStamper of None \<Rightarrow> replicate 6 0 @ drop 15 p | Some f \<Rightarrow> f (replicate 6 0 @ drop 15 p)"
  have p: "initSpacePacketHeader p False True apid 0 = ?h @ drop 6 p"
    using primary_append(10)[of "take 6 p" "drop 6 p"] assms(1) by simp
  have q: "q = ?h @ 0b00010000 # sv # sub # ?t"
    using assms(1) unfolding q_def initializeTmPacket_def p
    by (auto simp: Let_def pus_sizes numeral_eq_Suc list_update_append split: option.splits)
  have len: "length ?t = length p - 9" using assms(1) stamp by (auto split: option.splits)
  have 6: "length ?h = 6" using assms(1) by simp
  show "length q = length p" using assms(1) 6 len unfolding q by simp
  show "\<not> isTelecommand q" "hasSecondaryHeader q" "getAPID q = take_bit 11 apid"
    "getPacketSequenceCount q = 0" "getSequenceFlags q = 3" "getPacketDataLength q = 0"
    using assms(1) unfolding q by (simp_all add: primary_append[OF 6] initSpacePacketHeader_fields)
  show "tm_getService q = sv" "tm_getSubService q = sub" "drop 9 q = ?t"
    using 6 unfolding q by (simp_all add: tm_getService_def tm_getSubService_def nth_append)
qed

subsection \<open>The error control field\<close>

lemma unat_minus_u16: "(b :: u16) \<le> a \<Longrightarrow> unat (a - b) = unat a - unat b"
  by (simp add: unat_sub_if_size word_le_nat_alt)

lemma crc_byte_pair: "(push_bit 8 (ucast (ucast (drop_bit 8 (c AND 0xFF00)) :: u8)) + ucast (ucast (c AND 0x00FF) :: u8) :: u16) = c"
  by (rule word16_eqI) (simp_all add: hi_lo_plus bit_simps)

text \<open>Writing the CRC of the bytes in front at the last two places of a packet.\<close>

lemma crc_closes:
  assumes "n + 2 \<le> length p" and c: "c = crc16 (take n p)"
    and q: "q = p[n := ucast (drop_bit 8 (c AND 0xFF00)), n + 1 := ucast (c AND 0x00FF)]"
  shows "take n q = take n p" "drop (n + 2) q = drop (n + 2) p" "length q = length p"
    "crc16 (take (n + 2) q) = 0" "push_bit 8 (ucast (q ! n)) + ucast (q ! (n + 1)) = c"
proof -
  show tn: "take n q = take n p" "drop (n + 2) q = drop (n + 2) p" "length q = length p" by (simp_all add: q)
  have nth: "q ! n = ucast (drop_bit 8 (c AND 0xFF00))" "q ! (n + 1) = ucast (c AND 0x00FF)"
    using assms(1) by (simp_all add: q)
  have hi: "ucast (drop_bit 8 (c AND 0xFF00)) = (ucast (drop_bit 8 c) :: u8)"
    by (rule word8_eqI) (simp_all add: bit_simps)
  have lo: "ucast (c AND 0x00FF) = (ucast c :: u8)" by (rule word8_eqI) (simp_all add: bit_simps)
  have "take (n + 2) q = take n p @ [q ! n, q ! (n + 1)]"
    using assms(1) tn by (simp add: take_Suc_conv_app_nth)
  then show "crc16 (take (n + 2) q) = 0" using crc16_residue[of "take n p" "q ! n" "q ! (n + 1)"] c
    by (simp only: nth hi[unfolded c] lo[unfolded c] simp_thms)
  show "push_bit 8 (ucast (q ! n)) + ucast (q ! (n + 1)) = c" unfolding nth by (rule crc_byte_pair)
qed

lemma tc_setErrorControl_closes:
  assumes "5 \<le> getPacketDataLength p" "getFullSize p \<le> length p" "6 \<le> length p"
  defines "q \<equiv> tc_setErrorControl p" and "n \<equiv> getFullSize p - 2"
  shows "take n q = take n p" "drop (getFullSize p) q = drop (getFullSize p) p" "length q = length p"
    "crc16 (take (getFullSize p) q) = 0" "getFullSize q = getFullSize p" "tc_getErrorControl q = crc16 (take n p)"
proof -
  let ?L = "unat (getPacketDataLength p)"
  have L: "5 \<le> ?L" using assms(1) by (simp add: word_le_nat_alt)
  have n: "n = ?L + 5" "n + 2 = getFullSize p" using L by (simp_all add: n_def getFullSize_def pus_sizes)
  have app: "getApplicationDataSize p = getPacketDataLength p - 5" by (simp add: getApplicationDataSize_def)
  have sz: "unat (getApplicationDataSize p) = ?L - 5" unfolding app using assms(1) by (simp add: unat_minus_u16)
  have q: "q = p[n := ucast (drop_bit 8 (crc16 (take n p) AND 0xFF00)), n + 1 := ucast (crc16 (take n p) AND 0x00FF)]"
    using L by (simp add: q_def tc_setErrorControl_def sz Let_def n(1) getFullSize_def pus_sizes add.commute)
  have len: "n + 2 \<le> length p" using assms(2) n(2) by simp
  note c = crc_closes[OF len refl q]
  show "take n q = take n p" "drop (getFullSize p) q = drop (getFullSize p) p" "length q = length p"
    "crc16 (take (getFullSize p) q) = 0"
    using c(1-4) unfolding n(2) by simp_all
  have "6 \<le> n" using n(1) L by simp
  then have dl: "getPacketDataLength q = getPacketDataLength p"
    by (simp add: getPacketDataLength_def q)
  then show "getFullSize q = getFullSize p" by (simp add: getFullSize_def)
  have "unat (getApplicationDataSize q + 2) = ?L - 3"
    unfolding getApplicationDataSize_def dl
    using unat_minus_u16[of 3 "getPacketDataLength p"] L by (simp add: word_le_nat_alt)
  then show "tc_getErrorControl q = crc16 (take n p)"
    using c(5) L unfolding tc_getErrorControl_def by (simp add: Let_def pus_sizes n(1) add.commute)
qed

lemma tm_setErrorControl_closes:
  assumes "10 \<le> getPacketDataLength p" "getFullSize p \<le> length p"
  defines "q \<equiv> tm_setErrorControl p" and "n \<equiv> getFullSize p - 2"
  shows "take n q = take n p" "drop (getFullSize p) q = drop (getFullSize p) p" "length q = length p"
    "crc16 (take (getFullSize p) q) = 0" "getFullSize q = getFullSize p" "tm_getErrorControl q = crc16 (take n p)"
proof -
  let ?L = "unat (getPacketDataLength p)"
  have L: "10 \<le> ?L" using assms(1) by (simp add: word_le_nat_alt)
  have n: "n = ?L + 5" "n + 2 = getFullSize p" using L by (simp_all add: n_def getFullSize_def pus_sizes)
  have sz: "unat (getSourceDataSize p) = ?L - 10"
    using assms(1) by (simp add: getSourceDataSize_def unat_minus_u16)
  have q: "q = p[n := ucast (drop_bit 8 (crc16 (take n p) AND 0xFF00)), n + 1 := ucast (crc16 (take n p) AND 0x00FF)]"
    using L by (simp add: q_def tm_setErrorControl_def sz Let_def n(1) getFullSize_def pus_sizes add.commute)
  have len: "n + 2 \<le> length p" using assms(2) n(2) by simp
  note c = crc_closes[OF len refl q]
  show "take n q = take n p" "drop (getFullSize p) q = drop (getFullSize p) p" "length q = length p"
    "crc16 (take (getFullSize p) q) = 0"
    using c(1-4) unfolding n(2) by simp_all
  have "6 \<le> n" using n(1) L by simp
  then have dl: "getPacketDataLength q = getPacketDataLength p"
    by (simp add: getPacketDataLength_def q)
  then show "getFullSize q = getFullSize p" by (simp add: getFullSize_def)
  have "unat (getSourceDataSize q) = ?L - 10"
    using sz by (simp add: getSourceDataSize_def dl)
  then show "tm_getErrorControl q = crc16 (take n p)"
    using c(5) L unfolding tm_getErrorControl_def by (simp add: Let_def pus_sizes n(1) add.commute)
qed

subsection \<open>Properties of the packets\<close>

text \<open>
  A telecommand built by \<open>initializeTcPacket\<close> carries the given APID (11 bits), sequence count
  (modulo 16384), acknowledge flags (4 bits), service and subservice, is marked as a standalone
  telecommand packet with secondary header, version 1 PUS header, and leaves the application data
  behind the header untouched.
\<close>

theorem tc_packet_header:
  assumes "TC_APP_DATA \<le> length p"
  shows "let q = initializeTcPacket p apid seq ack sv sub in
     isTelecommand q \<and> hasSecondaryHeader q \<and> getSequenceFlags q = 3 \<and> getPacketVersionNumber q = 0
     \<and> getPusVersionNumber q = 1 \<and> getAPID q = take_bit 11 apid
     \<and> getPacketSequenceCount q = seq mod LIMIT_SEQUENCE_COUNT
     \<and> getAcknowledgeFlags q = take_bit 4 ack \<and> tc_getService q = sv \<and> tc_getSubService q = sub
     \<and> getApplicationDataSize q = 0 \<and> getApplicationData q = getApplicationData p"
  using assms initializeTcPacket_fields[of p apid seq ack sv sub]
  by (simp add: pus_sizes getApplicationData_def getApplicationDataSize_def)

lemma tc_packet_header_witness:
  "getAPID (initializeTcPacket (replicate 12 0xAA) 0x1FFF 20000 0xFF 17 1) = take_bit 11 0x1FFF"
proof -
  have "TC_APP_DATA \<le> length (replicate 12 0xAA :: packet)" by (simp add: pus_sizes)
  from tc_packet_header[OF this, of "0x1FFF" 20000 "0xFF" 17 1] show ?thesis by (simp add: Let_def)
qed

text \<open>
  \<open>setErrorControl\<close> closes a telecommand packet: for every packet whose length field covers the
  secondary header and the CRC, and whose memory holds the full packet, the CRC check over the full
  packet succeeds afterwards, \<open>getErrorControl\<close> reads the CRC of the bytes in front of it, and nothing
  but the two CRC bytes has changed.
\<close>

theorem tc_error_control:
  assumes "5 \<le> getPacketDataLength p" "getFullSize p \<le> length p" "CCSDS_HEADER_SIZE \<le> length p"
  shows "let q = tc_setErrorControl p; n = getFullSize p in
     crc16 (take n q) = 0 \<and> tc_getErrorControl q = crc16 (take (n - CRC_SIZE) p) \<and> length q = length p
     \<and> take (n - CRC_SIZE) q = take (n - CRC_SIZE) p \<and> drop n q = drop n p"
  using tc_setErrorControl_closes[of p] assms by (simp add: Let_def pus_sizes)

lemma tc_error_control_witness:
  "crc16 (take 12 (tc_setErrorControl [0x18, 1, 0xC0, 0, 0, 5, 0x10, 17, 1, 0, 0xAA, 0xBB, 0xCC])) = 0"
proof -
  let ?p = "[0x18, 1, 0xC0, 0, 0, 5, 0x10, 17, 1, 0, 0xAA, 0xBB, 0xCC] :: packet"
  have l: "getPacketDataLength ?p = 5" by (simp add: getPacketDataLength_def)
  then have f: "getFullSize ?p = 12" by (simp add: getFullSize_def pus_sizes)
  show ?thesis using tc_error_control[of ?p] by (simp add: l f pus_sizes Let_def)
qed

end
