(* ===== verification/CcsdsTime.thy ===== *)
theory CcsdsTime
  imports PusPackets "HOL-Library.Signed_Division"
begin

text \<open>
  CCSDS time codes, \<open>fsfw/timemanager/CCSDSTime.cpp\<close>, and the two time stampers,
  \<open>fsfw/timemanager/TimeStamper.cpp\<close> and \<open>mission/utility/CUCTimeStamper.cpp\<close>. The code structs hold
  bytes only and are byte lists here. \<open>time_t\<close> is 64 bits wide and signed: no conversion below
  can overflow it, so its values are integers; everything stored in 32, 16 or 8 bits is a word.
  A parser gets the memory from its pointer on; it returns that memory when it writes to it.
  ASCII codes are read by \<open>sscanf\<close>; their parser is an argument.
\<close>

record timeval =
  tv_sec :: int
  tv_usec :: int

record TimeOfDay =
  year :: u32
  month :: u32
  day :: u32
  hour :: u32
  minute :: u32
  second :: u32
  usecond :: u32

definition UNSUPPORTED_TIME_FORMAT :: u16 where [retcode]: "UNSUPPORTED_TIME_FORMAT = MAKE_RETURN_CODE CCSDS_TIME_HELPER_CLASS 0"
definition NOT_ENOUGH_INFORMATION_FOR_TARGET_FORMAT :: u16 where
  [retcode]: "NOT_ENOUGH_INFORMATION_FOR_TARGET_FORMAT = MAKE_RETURN_CODE CCSDS_TIME_HELPER_CLASS 1"
definition LENGTH_MISMATCH :: u16 where [retcode]: "LENGTH_MISMATCH = MAKE_RETURN_CODE CCSDS_TIME_HELPER_CLASS 2"
definition INVALID_TIME_FORMAT :: u16 where [retcode]: "INVALID_TIME_FORMAT = MAKE_RETURN_CODE CCSDS_TIME_HELPER_CLASS 3"
definition INVALID_DAY_OF_YEAR :: u16 where [retcode]: "INVALID_DAY_OF_YEAR = MAKE_RETURN_CODE CCSDS_TIME_HELPER_CLASS 4"
definition TIME_DOES_NOT_FIT_FORMAT :: u16 where [retcode]: "TIME_DOES_NOT_FIT_FORMAT = MAKE_RETURN_CODE CCSDS_TIME_HELPER_CLASS 5"

text \<open>\<open>enum TimeCodeIdentification\<close>.\<close>

definition CCS :: u8 where "CCS = 0b101"
definition CUC_LEVEL1 :: u8 where "CUC_LEVEL1 = 0b001"
definition CUC_LEVEL2 :: u8 where "CUC_LEVEL2 = 0b010"
definition CDS :: u8 where "CDS = 0b100"
definition P_FIELD_CUC_6B_CCSDS :: u8 where "P_FIELD_CUC_6B_CCSDS = push_bit 4 CUC_LEVEL1 + push_bit 2 3 + 2"

definition SECONDS_PER_DAY :: nat where "SECONDS_PER_DAY = 24 * 60 * 60"
definition DAYS_CCSDS_TO_UNIX_EPOCH :: nat where "DAYS_CCSDS_TO_UNIX_EPOCH = 4383"

subsection \<open>The calendar\<close>

definition isLeapYear :: "u32 \<Rightarrow> bool" where
  "isLeapYear y =
     (if y mod 400 = 0 then True else if y mod 100 = 0 then False else if y mod 4 = 0 then True else False)"

definition checkTimeOfDay :: "TimeOfDay \<Rightarrow> u16" where
  "checkTimeOfDay t =
     (if month t > 12 \<or> month t = 0 then INVALID_TIME_FORMAT
      else if day t = 0 then INVALID_TIME_FORMAT
      else if (if month t = 2 then (if isLeapYear (year t) then day t > 29 else day t > 28)
               else if month t = 4 \<or> month t = 6 \<or> month t = 9 \<or> month t = 11 then day t > 30
               else day t > 31)
      then INVALID_TIME_FORMAT
      else if hour t > 23 then INVALID_TIME_FORMAT
      else if minute t > 59 then INVALID_TIME_FORMAT
      else if second t > 59 then INVALID_TIME_FORMAT
      else if usecond t > 999999 then INVALID_TIME_FORMAT
      else RETURN_OK)"

text \<open>
  The \<open>while\<close> loop over the months from March on. The day is only decremented when it is larger
  than the month, so it does not wrap and is a natural number here.
\<close>

function days_loop :: "nat \<Rightarrow> nat \<Rightarrow> u16 \<times> nat \<times> nat option" where
  "days_loop m d =
     (if m \<le> 12 then
        if d \<le> 31 then (RETURN_OK, m, Some d)
        else if m + 1 = 8 then days_loop (m + 1) (d - 31)
        else if d - 31 \<le> 30 then (RETURN_OK, m + 1, Some (d - 31))
        else days_loop (m + 2) (d - 31 - 30)
      else (INVALID_DAY_OF_YEAR, m, None))"
  by auto
termination by (relation "measure (\<lambda>(m, d). 13 - m)") auto

text \<open>The result, the value written to \<open>*month\<close> and the one written to \<open>*day\<close>.\<close>

definition convertDaysOfYear :: "u16 \<Rightarrow> u16 \<Rightarrow> u16 \<times> nat option \<times> nat option" where
  "convertDaysOfYear dayofYear yr =
     (let d = unat dayofYear; leap = isLeapYear (ucast yr);
          feb = (if leap then 29 else 28)
      in if d > (if leap then 366 else 365) then (INVALID_DAY_OF_YEAR, None, None)
         else if d \<le> 31 then (RETURN_OK, Some 1, Some d)
         else if d - 31 \<le> feb then (RETURN_OK, Some 2, Some (d - 31))
         else (case days_loop 3 (d - 31 - feb) of (r, m, d') \<Rightarrow> (r, Some m, d')))"

subsection \<open>CCS: calendar segmented code\<close>

definition convertToCcsds_seconds :: "TimeOfDay \<Rightarrow> u16 \<times> bytes" where
  "convertToCcsds_seconds from =
     (let result = checkTimeOfDay from in
      if result \<noteq> RETURN_OK then (result, [])
      else (RETURN_OK, [push_bit 4 CCS, ucast (drop_bit 8 (year from)), ucast (year from AND 0xff), ucast (month from),
                        ucast (day from), ucast (hour from), ucast (minute from), ucast (second from)]))"

definition convertToCcsds_mseconds :: "TimeOfDay \<Rightarrow> u16 \<times> bytes" where
  "convertToCcsds_mseconds from =
     (let result = checkTimeOfDay from in
      if result \<noteq> RETURN_OK then (result, [])
      else (RETURN_OK, [push_bit 4 CCS + 2, ucast (drop_bit 8 (year from)), ucast (year from AND 0xff), ucast (month from),
                        ucast (day from), ucast (hour from), ucast (minute from), ucast (second from),
                        ucast (usecond from div 10000), ucast ((usecond from mod 10000) div 100)]))"

definition checkCcs :: "bytes \<Rightarrow> u8 \<Rightarrow> u16" where
  "checkCcs time len =
     (let additionalBytes = time ! 0 AND 0b111 in
      if additionalBytes = 0b111 \<or> unat len < unat additionalBytes + 8 then INVALID_TIME_FORMAT
      else if (if time ! 0 AND 8 \<noteq> 0 then (push_bit 8 (ucast (time ! 3)) + ucast (time ! 4) :: u16) > 366
               else time ! 3 > 12 \<or> time ! 4 > 31) then INVALID_TIME_FORMAT
      else if time ! 5 > 23 then INVALID_TIME_FORMAT
      else if time ! 6 > 59 then INVALID_TIME_FORMAT
      else if time ! 7 > 59 then INVALID_TIME_FORMAT
      else if list_ex (\<lambda>b. b > 99) (take (unat additionalBytes) (drop 8 time)) then INVALID_TIME_FORMAT
      else RETURN_OK)"

text \<open>
  \<open>convertFromCCS\<close> into a \<open>TimeOfDay_t\<close>: result, \<open>*to\<close>, \<open>*foundLength\<close> and the input, in which the
  day of year variation writes month and day. \<open>maxLength\<close> is cut to 8 bits in the call of \<open>checkCcs\<close>.
\<close>

definition write_opt :: "bytes \<Rightarrow> nat \<Rightarrow> nat option \<Rightarrow> bytes" where
  "write_opt bs i v = (case v of None \<Rightarrow> bs | Some x \<Rightarrow> bs[i := of_nat x])"

definition ccs_subseconds :: "TimeOfDay \<Rightarrow> bytes \<Rightarrow> u32 \<Rightarrow> u8 \<Rightarrow> u16 \<times> TimeOfDay \<times> u32" where
  "ccs_subseconds to from foundLength subsecondsLength =
     (let to0 = to\<lparr>usecond := 0\<rparr> in
      if subsecondsLength > 0 \<and> from ! 8 \<ge> 100 then (INVALID_TIME_FORMAT, to0, foundLength + 1)
      else
        let to1 = (if subsecondsLength > 0 then to0\<lparr>usecond := ucast (from ! 8) * 10000\<rparr> else to0);
            fl1 = (if subsecondsLength > 0 then foundLength + 1 else foundLength)
        in if subsecondsLength > 1 \<and> from ! 9 \<ge> 100 then (INVALID_TIME_FORMAT, to1, fl1 + 1)
           else if subsecondsLength > 1
           then (RETURN_OK, to1\<lparr>usecond := usecond to1 + ucast (from ! 9) * 100\<rparr>, fl1 + 1)
           else (RETURN_OK, to1, fl1))"

definition convertFromCCS :: "TimeOfDay \<Rightarrow> bytes \<Rightarrow> u32 \<Rightarrow> u32 \<Rightarrow> u16 \<times> TimeOfDay \<times> u32 \<times> bytes" where
  "convertFromCCS to from foundLength maxLength =
     (let subsecondsLength = from ! 0 AND 0b111;
          totalLength = ucast subsecondsLength + 8
      in if maxLength < totalLength then (LENGTH_MISMATCH, to, foundLength, from)
         else
           let result = checkCcs from (ucast maxLength) in
           if result \<noteq> RETURN_OK then (result, to, totalLength, from)
           else
             let yr = push_bit 8 (ucast (from ! 1)) + ucast (from ! 2);
                 to1 = to\<lparr>year := yr, hour := ucast (from ! 5), minute := ucast (from ! 6), second := ucast (from ! 7)\<rparr>;
                 doy = from ! 0 AND 8 \<noteq> 0;
                 (r, m, d) = (if doy then convertDaysOfYear (push_bit 8 (ucast (from ! 3)) + ucast (from ! 4)) (ucast yr)
                              else (RETURN_OK, None, None));
                 from1 = write_opt (write_opt from 3 m) 4 d
             in if r \<noteq> RETURN_OK then (r, to1, totalLength, from1)
                else case ccs_subseconds (to1\<lparr>month := ucast (from1 ! 3), day := ucast (from1 ! 4)\<rparr>) from1
                            totalLength subsecondsLength of
                       (r', to2, fl) \<Rightarrow> (r', to2, fl, from1))"

subsection \<open>CDS: day segmented code\<close>

definition convertToCcsds_CDS :: "timeval \<Rightarrow> u16 \<times> bytes" where
  "convertToCcsds_CDS from =
     (let days = word_of_int (tv_sec from sdiv int SECONDS_PER_DAY + int DAYS_CCSDS_TO_UNIX_EPOCH) :: u32 in
      if days > push_bit 16 1 then (TIME_DOES_NOT_FIT_FORMAT, [push_bit 4 CDS + 0])
      else
        let msDay = word_of_int ((tv_sec from smod int SECONDS_PER_DAY) * 1000 + tv_usec from sdiv 1000) :: u32 in
        (RETURN_OK, [push_bit 4 CDS + 0, ucast (drop_bit 8 (days AND 0xFF00)), ucast (days AND 0xFF),
                     ucast (drop_bit 24 (msDay AND 0xFF000000)), ucast (drop_bit 16 (msDay AND 0xFF0000)),
                     ucast (drop_bit 8 (msDay AND 0xFF00)), ucast (msDay AND 0xFF)]))"

text \<open>Big-endian 32-bit values, as the parsers add them up.\<close>

definition be32 :: "u8 \<Rightarrow> u8 \<Rightarrow> u8 \<Rightarrow> u8 \<Rightarrow> u32" where
  "be32 a b c d = push_bit 24 (ucast a) + push_bit 16 (ucast b) + push_bit 8 (ucast c) + ucast d"

definition set_found :: "u32 option \<Rightarrow> u32 \<Rightarrow> u32 option" where
  "set_found fl n = (case fl of None \<Rightarrow> None | Some _ \<Rightarrow> Some n)"

definition cds_fine :: "timeval \<Rightarrow> u8 \<Rightarrow> bytes \<Rightarrow> u16 \<times> timeval" where
  "cds_fine to pField from =
     (if pField AND 0b11 = 0b01 then
        let usecs = ucast (push_bit 16 (ucast (from ! 0)) + ucast (from ! 1) :: u32) :: u16 in
        if usecs > 999 then (INVALID_TIME_FORMAT, to)
        else (RETURN_OK, to\<lparr>tv_usec := tv_usec to + uint usecs\<rparr>)
      else if pField AND 0b11 = 0b10 then
        let picosecs = be32 (from ! 0) (from ! 1) (from ! 2) (from ! 3) in
        if picosecs > 999999 then (INVALID_TIME_FORMAT, to)
        else (RETURN_OK, to\<lparr>tv_usec := tv_usec to + uint (picosecs div 1000)\<rparr>)
      else (RETURN_OK, to))"

definition convertFromCDS :: "timeval \<Rightarrow> bytes \<Rightarrow> u32 option \<Rightarrow> u32 \<Rightarrow> u16 \<times> timeval \<times> u32 option" where
  "convertFromCDS to from foundLength maxLength =
     (let pField = from ! 0; from1 = drop 1 from in
      if pField AND 0b1000 \<noteq> 0 then (NOT_ENOUGH_INFORMATION_FOR_TARGET_FORMAT, to, foundLength)
      else
        let extendedDays = pField AND 0b100 \<noteq> 0;
            expectedLength = 7 + (if extendedDays then 1 else 0)
                               + (if pField AND 0b11 = 0b01 then 2 else if pField AND 0b11 = 0b10 then 4 else 0);
            fl = set_found foundLength expectedLength
        in if expectedLength > maxLength then (LENGTH_MISMATCH, to, fl)
           else
             let days = (if extendedDays then be32 0 (from1 ! 0) (from1 ! 1) (from1 ! 2)
                         else be32 0 0 (from1 ! 0) (from1 ! 1));
                 from2 = (if extendedDays then drop 3 from1 else drop 2 from1)
             in if days \<le> of_nat DAYS_CCSDS_TO_UNIX_EPOCH then (INVALID_TIME_FORMAT, to, fl)
                else
                  let secs = (days - of_nat DAYS_CCSDS_TO_UNIX_EPOCH) * of_nat SECONDS_PER_DAY;
                      msDay = be32 (from2 ! 0) (from2 ! 1) (from2 ! 2) (from2 ! 3);
                      to1 = to\<lparr>tv_sec := uint secs + uint (msDay div 1000), tv_usec := uint ((msDay mod 1000) * 1000)\<rparr>
                  in case cds_fine to1 pField (drop 4 from2) of (r, to2) \<Rightarrow> (r, to2, fl))"

subsection \<open>CUC: unsegmented code\<close>

text \<open>
  The loops that add up the coarse and the fine octets. A shift by 32 or more of a 32-bit \<open>int\<close> is
  undefined: the value \<open>None\<close>.
\<close>

primrec cuc_octets :: "nat \<Rightarrow> nat \<Rightarrow> nat \<Rightarrow> bytes \<Rightarrow> u32 \<Rightarrow> u32 option" where
  "cuc_octets 0 n count from acc = Some acc"
| "cuc_octets (Suc k) n count from acc =
     (let s = (n * 8 - 8) * (1 + count) in
      if s < 32 then cuc_octets k n (count + 1) (drop 1 from) (acc + push_bit s (ucast (from ! 0))) else None)"

definition subsecondsToMicroseconds :: "u16 \<Rightarrow> u32" where
  "subsecondsToMicroseconds subseconds = ucast ((ucast subseconds * 1000000 :: u64) div push_bit 16 1)"

definition convertFromCUC :: "timeval \<Rightarrow> u8 \<Rightarrow> bytes \<Rightarrow> u32 option \<Rightarrow> u32 \<Rightarrow> (u16 \<times> timeval \<times> u32 option) option" where
  "convertFromCUC to pField from foundLength maxLength =
     (let nCoarse = unat (drop_bit 2 (pField AND 0b1100)) + 1;
          nFine = unat (pField AND 0b11);
          totalLength = of_nat (nCoarse + nFine) :: u32;
          fl = set_found foundLength totalLength
      in if totalLength > maxLength then Some (LENGTH_MISMATCH, to, fl)
         else case cuc_octets nCoarse nCoarse 0 from 0 of None \<Rightarrow> None | Some secs \<Rightarrow>
              (case cuc_octets nFine nFine 0 (drop nCoarse from) 0 of None \<Rightarrow> None | Some subSeconds \<Rightarrow>
                 let sec = (if pField AND 0b10000 \<noteq> 0
                            then uint secs - int DAYS_CCSDS_TO_UNIX_EPOCH * int SECONDS_PER_DAY else uint secs)
                 in Some (RETURN_OK, to\<lparr>tv_sec := sec, tv_usec := uint (subsecondsToMicroseconds (ucast subSeconds))\<rparr>, fl)))"

text \<open>The variant that reads the p-field from the stream.\<close>

definition convertFromCUC_stream :: "timeval \<Rightarrow> bytes \<Rightarrow> u32 option \<Rightarrow> u32 \<Rightarrow> (u16 \<times> timeval \<times> u32 option) option" where
  "convertFromCUC_stream to from foundLength maxLength =
     (if maxLength < 1 then Some (INVALID_TIME_FORMAT, to, foundLength)
      else case convertFromCUC to (from ! 0) (drop 1 from) foundLength (maxLength - 1) of
             None \<Rightarrow> None
           | Some (result, to1, fl) \<Rightarrow>
               if result = RETURN_OK then Some (result, to1, map_option (\<lambda>n. n + 1) fl)
               else Some (result, to1, fl))"

subsection \<open>Dispatch on the p-field\<close>

text \<open>\<open>Clock::convertTimeOfDayToTimeval\<close> rests on \<open>mktime\<close> of the C library: an argument.\<close>

definition convertFromCCS_timeval ::
  "(TimeOfDay \<Rightarrow> u16 \<times> timeval) \<Rightarrow> timeval \<Rightarrow> TimeOfDay \<Rightarrow> bytes \<Rightarrow> u32 \<Rightarrow> u32 \<Rightarrow> u16 \<times> timeval \<times> u32 \<times> bytes" where
  "convertFromCCS_timeval convertTimeOfDayToTimeval to tempTime from foundLength maxLength =
     (case convertFromCCS tempTime from foundLength maxLength of (result, t, fl, from1) \<Rightarrow>
        if result \<noteq> RETURN_OK then (result, to, fl, from1)
        else case convertTimeOfDayToTimeval t of (r, tv) \<Rightarrow> (r, tv, fl, from1))"

definition convertFromCcsds_timeval ::
  "(TimeOfDay \<Rightarrow> u16 \<times> timeval) \<Rightarrow> timeval \<Rightarrow> TimeOfDay \<Rightarrow> bytes \<Rightarrow> u32 \<Rightarrow> u32 \<Rightarrow> u16 \<times> timeval \<times> u32 \<times> bytes" where
  "convertFromCcsds_timeval conv to tempTime from foundLength maxLength =
     (let codeIdentification = drop_bit 4 (from ! 0) in
      if codeIdentification = CDS then
        (case convertFromCDS to from (Some foundLength) maxLength of
           (r, tv, fl) \<Rightarrow> (r, tv, (case fl of Some n \<Rightarrow> n | None \<Rightarrow> foundLength), from))
      else if codeIdentification = CCS then convertFromCCS_timeval conv to tempTime from foundLength maxLength
      else (UNSUPPORTED_TIME_FORMAT, to, foundLength, from))"

text \<open>The variant into \<open>TimeOfDay_t\<close>; \<open>convertTimevalToTimeOfDay\<close> is not implemented in the code.\<close>

definition convertTimevalToTimeOfDay :: "TimeOfDay \<Rightarrow> timeval \<Rightarrow> u16 \<times> TimeOfDay" where
  "convertTimevalToTimeOfDay to from = (UNSUPPORTED_TIME_FORMAT, to)"

definition convertFromCDS_tod :: "TimeOfDay \<Rightarrow> timeval \<Rightarrow> bytes \<Rightarrow> u8 \<Rightarrow> u16 \<times> TimeOfDay" where
  "convertFromCDS_tod to time from len =
     (case convertFromCDS time from None (ucast len) of (result, tv, _) \<Rightarrow>
        if result \<noteq> RETURN_OK then (result, to) else convertTimevalToTimeOfDay to tv)"

definition convertFromCcsds_tod ::
  "(TimeOfDay \<Rightarrow> bytes \<Rightarrow> u8 \<Rightarrow> u16 \<times> TimeOfDay) \<Rightarrow> TimeOfDay \<Rightarrow> timeval \<Rightarrow> bytes \<Rightarrow> u32 \<Rightarrow> u16 \<times> TimeOfDay \<times> bytes" where
  "convertFromCcsds_tod convertFromASCII to time from len =
     (if len > 0xFF then (LENGTH_MISMATCH, to, from)
      else case convertFromASCII to from (ucast len) of (result, to1) \<Rightarrow>
        if result = RETURN_OK then (RETURN_OK, to1, from)
        else
          let codeIdentification = drop_bit 4 (from ! 0) in
          if codeIdentification = CUC_LEVEL1 then (UNSUPPORTED_TIME_FORMAT, to1, from)
          else if codeIdentification = CDS then
            (case convertFromCDS_tod to1 time from (ucast len) of (r, t) \<Rightarrow> (r, t, from))
          else if codeIdentification = CCS then
            (case convertFromCCS to1 from 0 len of (r, t, _, from1) \<Rightarrow> (r, t, from1))
          else (UNSUPPORTED_TIME_FORMAT, to1, from))"

subsection \<open>Time stampers\<close>

text \<open>
  \<open>now\<close> is the clock's value. The buffer is the memory that may be written; \<open>None\<close> is a write behind
  it.
\<close>

definition TimeStamper_addTimeStamp :: "timeval \<Rightarrow> bytes \<Rightarrow> nat \<Rightarrow> (u16 \<times> bytes) option" where
  "TimeStamper_addTimeStamp now buffer maxSize =
     (if maxSize < MISSION_TIMESTAMP_SIZE then Some (RETURN_FAILED, buffer)
      else case convertToCcsds_CDS now of (result, cds) \<Rightarrow>
        if result \<noteq> RETURN_OK then Some (result, buffer)
        else map_option (\<lambda>b. (result, b)) (mem_copy buffer 0 cds 7))"

definition MicrosecondsToSubseconds :: "u32 \<Rightarrow> u16" where
  "MicrosecondsToSubseconds microseconds = ucast (microseconds * push_bit 16 1 div 1000000)"

record CUC =
  pField :: u8
  seconds :: u32
  useconds :: u16

definition convertToCUC :: "timeval \<Rightarrow> CUC" where
  "convertToCUC from =
     \<lparr>pField = P_FIELD_CUC_6B_CCSDS,
      seconds = word_of_int (tv_sec from) + of_nat (DAYS_CCSDS_TO_UNIX_EPOCH * SECONDS_PER_DAY),
      useconds = MicrosecondsToSubseconds (word_of_int (tv_usec from))\<rparr>"

definition CUCTimeStamper_addTimeStamp :: "timeval \<Rightarrow> bytes \<Rightarrow> nat \<Rightarrow> (u16 \<times> bytes) option" where
  "CUCTimeStamper_addTimeStamp now buffer maxSize =
     (if maxSize < MISSION_TIMESTAMP_SIZE then Some (RETURN_FAILED, buffer)
      else
        let cuc = convertToCUC now in
        case mem_copy buffer 0 (be_bytes 4 (seconds cuc)) 4 of None \<Rightarrow> None
        | Some b1 \<Rightarrow> map_option (\<lambda>b. (RETURN_OK, b)) (mem_copy b1 4 (be_bytes 2 (useconds cuc)) 2))"

subsection \<open>The calendar functions are right\<close>

definition month_length :: "bool \<Rightarrow> nat \<Rightarrow> nat" where
  "month_length leap m =
     (if m = 2 then (if leap then 29 else 28) else if m \<in> {4, 6, 9, 11} then 30 else 31)"

definition days_before :: "bool \<Rightarrow> nat \<Rightarrow> nat" where
  "days_before leap m = sum_list (map (month_length leap) [1..<m])"

declare days_loop.simps [simp del]

lemma days_before_simps:
  "days_before l 1 = 0" "days_before l (Suc 0) = 0" "days_before l 2 = 31" "days_before l 3 = (if l then 60 else 59)"
  "days_before l 4 = (if l then 91 else 90)" "days_before l 5 = (if l then 121 else 120)"
  "days_before l 6 = (if l then 152 else 151)" "days_before l 7 = (if l then 182 else 181)"
  "days_before l 8 = (if l then 213 else 212)" "days_before l 9 = (if l then 244 else 243)"
  "days_before l 10 = (if l then 274 else 273)" "days_before l 11 = (if l then 305 else 304)"
  "days_before l 12 = (if l then 335 else 334)"
  by (simp_all add: days_before_def month_length_def upt_rec)

lemma days_loop_correct:
  assumes "1 \<le> d" "d \<le> 306"
  shows "\<exists>m x. days_loop 3 d = (RETURN_OK, m, Some x) \<and> 3 \<le> m \<and> m \<le> 12 \<and> 1 \<le> x \<and> x \<le> month_length leap m
    \<and> days_before leap m + x = days_before leap 3 + d"
proof -
  consider (m3) "0 < d" "d \<le> 31"
    | (m4) "31 < d" "d \<le> 61"
    | (m5) "61 < d" "d \<le> 92"
    | (m6) "92 < d" "d \<le> 122"
    | (m7) "122 < d" "d \<le> 153"
    | (m8) "153 < d" "d \<le> 184"
    | (m9) "184 < d" "d \<le> 214"
    | (m10) "214 < d" "d \<le> 245"
    | (m11) "245 < d" "d \<le> 275"
    | (m12) "275 < d" "d \<le> 306"
    using assms by linarith
  then show ?thesis
  proof cases
    case m3
    define e where "e = d - 0"
    with m3 have e: "d = 0 + e" "0 < e" "e \<le> 31" by simp_all
    then have "days_loop 3 d = (RETURN_OK, 3, Some e)" by (simp add: days_loop.simps)
    with e show ?thesis by (simp add: days_before_simps month_length_def)
  next
    case m4
    define e where "e = d - 31"
    with m4 have e: "d = 31 + e" "0 < e" "e \<le> 30" by simp_all
    then have "days_loop 3 d = (RETURN_OK, 4, Some e)" by (simp add: days_loop.simps)
    with e show ?thesis by (simp add: days_before_simps month_length_def)
  next
    case m5
    define e where "e = d - 61"
    with m5 have e: "d = 61 + e" "0 < e" "e \<le> 31" by simp_all
    then have "days_loop 3 d = (RETURN_OK, 5, Some e)" by (simp add: days_loop.simps)
    with e show ?thesis by (simp add: days_before_simps month_length_def)
  next
    case m6
    define e where "e = d - 92"
    with m6 have e: "d = 92 + e" "0 < e" "e \<le> 30" by simp_all
    then have "days_loop 3 d = (RETURN_OK, 6, Some e)" by (simp add: days_loop.simps)
    with e show ?thesis by (simp add: days_before_simps month_length_def)
  next
    case m7
    define e where "e = d - 122"
    with m7 have e: "d = 122 + e" "0 < e" "e \<le> 31" by simp_all
    then have "days_loop 3 d = (RETURN_OK, 7, Some e)" by (simp add: days_loop.simps)
    with e show ?thesis by (simp add: days_before_simps month_length_def)
  next
    case m8
    define e where "e = d - 153"
    with m8 have e: "d = 153 + e" "0 < e" "e \<le> 31" by simp_all
    then have "days_loop 3 d = (RETURN_OK, 8, Some e)" by (simp add: days_loop.simps)
    with e show ?thesis by (simp add: days_before_simps month_length_def)
  next
    case m9
    define e where "e = d - 184"
    with m9 have e: "d = 184 + e" "0 < e" "e \<le> 30" by simp_all
    then have "days_loop 3 d = (RETURN_OK, 9, Some e)" by (simp add: days_loop.simps)
    with e show ?thesis by (simp add: days_before_simps month_length_def)
  next
    case m10
    define e where "e = d - 214"
    with m10 have e: "d = 214 + e" "0 < e" "e \<le> 31" by simp_all
    then have "days_loop 3 d = (RETURN_OK, 10, Some e)" by (simp add: days_loop.simps)
    with e show ?thesis by (simp add: days_before_simps month_length_def)
  next
    case m11
    define e where "e = d - 245"
    with m11 have e: "d = 245 + e" "0 < e" "e \<le> 30" by simp_all
    then have "days_loop 3 d = (RETURN_OK, 11, Some e)" by (simp add: days_loop.simps)
    with e show ?thesis by (simp add: days_before_simps month_length_def)
  next
    case m12
    define e where "e = d - 275"
    with m12 have e: "d = 275 + e" "0 < e" "e \<le> 31" by simp_all
    then have "days_loop 3 d = (RETURN_OK, 12, Some e)" by (simp add: days_loop.simps)
    with e show ?thesis by (simp add: days_before_simps month_length_def)
  qed
qed

lemma days_of_year_correct:
  fixes yr :: u16
  assumes "1 \<le> dayofYear"
  defines "leap \<equiv> isLeapYear (ucast yr)"
  shows "if unat dayofYear \<le> (if leap then 366 else 365)
    then \<exists>m x. convertDaysOfYear dayofYear yr = (RETURN_OK, Some m, Some x) \<and> 1 \<le> m \<and> m \<le> 12 \<and> 1 \<le> x
       \<and> x \<le> month_length leap m \<and> days_before leap m + x = unat dayofYear
    else convertDaysOfYear dayofYear yr = (INVALID_DAY_OF_YEAR, None, None)"
proof (cases "unat dayofYear \<le> (if leap then 366 else 365)")
  case False
  then show ?thesis by (auto simp: convertDaysOfYear_def Let_def leap_def)
next
  case True
  let ?d = "unat dayofYear" and ?f = "if leap then 29 else 28 :: nat"
  have d: "1 \<le> ?d" using assms(1) by (simp add: word_le_nat_alt)
  consider "?d \<le> 31" | "31 < ?d" "?d - 31 \<le> ?f" | "31 < ?d" "?f < ?d - 31" by linarith
  then have "\<exists>m x. convertDaysOfYear dayofYear yr = (RETURN_OK, Some m, Some x) \<and> 1 \<le> m \<and> m \<le> 12 \<and> 1 \<le> x
       \<and> x \<le> month_length leap m \<and> days_before leap m + x = ?d"
  proof cases
    case 1
    then have "convertDaysOfYear dayofYear yr = (RETURN_OK, Some 1, Some ?d)"
      using True by (simp add: convertDaysOfYear_def Let_def flip: leap_def)
    with 1 d show ?thesis by (auto simp: days_before_simps month_length_def)
  next
    case 2
    then have "convertDaysOfYear dayofYear yr = (RETURN_OK, Some 2, Some (?d - 31))"
      using True by (simp add: convertDaysOfYear_def Let_def flip: leap_def)
    with 2 show ?thesis by (auto simp: days_before_simps month_length_def)
  next
    case 3
    let ?e = "?d - 31 - ?f"
    have "1 \<le> ?e" "?e \<le> 306" using 3 True by (auto split: if_splits)
    from days_loop_correct[OF this, of leap] obtain m x where
      l: "days_loop 3 ?e = (RETURN_OK, m, Some x)" and mx: "3 \<le> m" "m \<le> 12" "1 \<le> x" "x \<le> month_length leap m"
        "days_before leap m + x = days_before leap 3 + ?e" by blast
    have "convertDaysOfYear dayofYear yr = (RETURN_OK, Some m, Some x)"
      using 3 True l by (simp add: convertDaysOfYear_def Let_def flip: leap_def)
    moreover have "days_before leap m + x = ?d" using mx(5) 3 by (auto simp: days_before_simps)
    ultimately show ?thesis using mx by auto
  qed
  with True show ?thesis by simp
qed

text \<open>
  \<open>convertDaysOfYear\<close> is the calendar: for every day of the year that exists it returns the month
  and the day in it, that is, the month's days before and that day add up to the given one and the day
  lies within the month; a day behind the end of the year is refused, and nothing is written then.
\<close>

theorem days_of_year_calendar:
  fixes yr :: u16
  assumes "1 \<le> dayofYear"
  defines "leap \<equiv> isLeapYear (ucast yr)"
  shows "if unat dayofYear \<le> (if leap then 366 else 365)
    then \<exists>m x. convertDaysOfYear dayofYear yr = (RETURN_OK, Some m, Some x) \<and> 1 \<le> m \<and> m \<le> 12 \<and> 1 \<le> x
       \<and> x \<le> month_length leap m \<and> days_before leap m + x = unat dayofYear
    else convertDaysOfYear dayofYear yr = (INVALID_DAY_OF_YEAR, None, None)"
  unfolding leap_def using assms(1) by (rule days_of_year_correct)

lemma days_of_year_calendar_witness: "convertDaysOfYear 60 2021 = (RETURN_OK, Some 3, Some 1)"
proof -
  have l: "\<not> isLeapYear (ucast (2021 :: u16))" by (simp add: isLeapYear_def)
  obtain m x where c: "convertDaysOfYear 60 2021 = (RETURN_OK, Some m, Some x)" "m \<le> 12" "1 \<le> x" "1 \<le> m"
      "x \<le> month_length False m" "days_before False m + x = 60"
    using days_of_year_calendar[of 60 2021] l by auto
  have "m \<in> {1, 2, 3, 4, 5, 6, 7, 8, 9, 10, 11, 12}" using c(2,4) by (simp, presburger)
  then have "m = 3 \<and> x = 1" using c(3,5,6)
    by (auto simp: days_before_simps month_length_def simp del: One_nat_def)
  with c(1) show ?thesis by simp
qed

subsection \<open>CCS round trip\<close>

lemma u32_via_u8:
  assumes "(w :: u32) \<le> 255"
  shows "unat (ucast w :: u8) = unat w" "ucast (ucast w :: u8) = w"
proof -
  have "unat w < 256" using assms by (simp add: word_le_nat_alt)
  then show u: "unat (ucast w :: u8) = unat w" by (simp add: unsigned_ucast_eq take_bit_nat_eq_self)
  show "ucast (ucast w :: u8) = w" by (rule iffD2[OF word_unat_eq_iff]) (simp add: unat_ucast_up u)
qed

lemma year_via_bytes:
  assumes "(y :: u32) < 65536"
  shows "push_bit 8 (ucast (ucast (drop_bit 8 y) :: u8)) + ucast (ucast (y AND 0xff) :: u8) = y"
proof -
  have "take_bit 16 y = y" using assms
    by (intro iffD2[OF word_unat_eq_iff]) (simp add: unsigned_take_bit_eq take_bit_nat_eq_self word_less_nat_alt)
  then have hi: "n < 16" if "bit y n" for n using that by (metis bit_take_bit_iff)
  have "bit (push_bit 8 (ucast (ucast (drop_bit 8 y) :: u8)) OR ucast (ucast (y AND 0xff) :: u8) :: u32) n = bit y n"
    if "n < 32" for n
  proof (cases "n < 8")
    case True
    then have "n \<in> {0, 1, 2, 3, 4, 5, 6, 7}" by auto
    then show ?thesis by (auto simp: bit_simps)
  next
    case False
    have "n - 8 < 8 \<longleftrightarrow> n < 16" "8 + (n - 8) = n" using False by auto
    then show ?thesis using False that hi[of n] by (auto simp: bit_simps bit_imp_le_length)
  qed
  then show ?thesis unfolding hi_lo_plus by (intro bit_word_eqI) simp
qed

lemma checkTimeOfDay_bounds:
  assumes "checkTimeOfDay t = RETURN_OK"
  shows "1 \<le> month t" "month t \<le> 12" "1 \<le> day t" "day t \<le> 31" "hour t \<le> 23" "minute t \<le> 59"
    "second t \<le> 59" "usecond t \<le> 999999"
proof -
  have ne: "INVALID_TIME_FORMAT \<noteq> RETURN_OK" by (simp add: retcode)
  have nz: "\<And>w :: u32. w \<noteq> 0 \<longleftrightarrow> 1 \<le> w" by (metis word_gt_0 word_less_1 not_le)
  show "1 \<le> month t" "month t \<le> 12" "1 \<le> day t" "hour t \<le> 23" "minute t \<le> 59"
    "second t \<le> 59" "usecond t \<le> 999999"
    using assms ne by (simp_all add: checkTimeOfDay_def not_less nz split: if_splits)
  have "day t \<le> 29 \<or> day t \<le> 28 \<or> day t \<le> 30 \<or> day t \<le> 31"
    using assms ne by (auto simp: checkTimeOfDay_def not_less split: if_splits)
  then show "day t \<le> 31" by (auto simp: word_le_nat_alt)
qed

lemma split_10000: "(u :: nat) div 10000 * 10000 + u mod 10000 div 100 * 100 = u div 100 * 100"
proof -
  have "u div 10000 = u div 100 div 100" "u mod 10000 div 100 = u div 100 mod 100"
    using div_mult2_eq[of u 100 100] mod_mult2_eq[of u 100 100] by simp_all
  then show ?thesis using div_mult_mod_eq[of "u div 100" 100] by linarith
qed

text \<open>
  A time of day that \<open>checkTimeOfDay\<close> accepts, with a year of 16 bits, survives the CCS code with
  two subsecond octets: parsing the ten bytes gives it back to 100 microseconds, and leaves the bytes
  alone. The length reported is 12, not 10: the subsecond octets are counted twice.
\<close>

theorem ccs_round_trip:
  assumes ok: "checkTimeOfDay t = RETURN_OK" and yr: "year t < 65536"
  shows "\<exists>code. convertToCcsds_mseconds t = (RETURN_OK, code) \<and> length code = 10
     \<and> convertFromCCS to code fl 10 = (RETURN_OK, t\<lparr>usecond := usecond t div 100 * 100\<rparr>, 12, code)"
proof -
  note b = checkTimeOfDay_bounds[OF ok]
  have le255: "w \<le> 255" if "w \<le> 59" for w :: u32 using that by (simp add: word_le_nat_alt)
  have us: "unat (usecond t) \<le> 999999" using b(8) by (simp add: word_le_nat_alt)
  let ?hi = "usecond t div 10000" and ?lo = "usecond t mod 10000 div 100"
  have hi: "?hi \<le> 99" using us by (simp add: word_le_nat_alt unat_div)
  have lo: "?lo \<le> 99" by (simp add: word_le_nat_alt unat_div unat_mod)
  have small: "month t \<le> 255" "day t \<le> 255" "hour t \<le> 255" "minute t \<le> 255" "second t \<le> 255" "?hi \<le> 255" "?lo \<le> 255"
    using b hi lo by (simp_all add: word_le_nat_alt)
  note u = small[THEN u32_via_u8(1)] and uu = small[THEN u32_via_u8(2)]
  let ?code = "[push_bit 4 CCS + 2, ucast (drop_bit 8 (year t)), ucast (year t AND 0xff), ucast (month t),
                 ucast (day t), ucast (hour t), ucast (minute t), ucast (second t), ucast ?hi, ucast ?lo] :: bytes"
  have to_code: "convertToCcsds_mseconds t = (RETURN_OK, ?code)"
    using ok by (simp add: convertToCcsds_mseconds_def)
  have p: "push_bit 4 CCS + 2 = (82 :: u8)" by (simp add: CCS_def push_bit_eq_mult)
  have check: "checkCcs ?code 10 = RETURN_OK"
    using b hi lo by (simp add: checkCcs_def p Let_def word_less_nat_alt word_le_nat_alt u not_less)
  have usec: "?hi * 10000 + ?lo * 100 = usecond t div 100 * 100"
  proof (rule iffD2[OF word_unat_eq_iff])
    have h: "unat ?hi * 10000 < 4294967296" "unat ?lo * 100 < 4294967296"
      using hi lo by (simp_all add: word_le_nat_alt)
    have "unat (?hi * 10000 + ?lo * 100) = unat (usecond t) div 10000 * 10000 + unat (usecond t) mod 10000 div 100 * 100"
      using us by (simp add: unat_word_ariths unat_div unat_mod)
    also have "\<dots> = unat (usecond t) div 100 * 100"
      by (rule split_10000)
    also have "\<dots> = unat (usecond t div 100 * 100)"
      using us by (simp add: unat_word_ariths unat_div)
    finally show "unat (?hi * 10000 + ?lo * 100) = unat (usecond t div 100 * 100)" .
  qed
  have "convertFromCCS to ?code fl 10 = (RETURN_OK, t\<lparr>usecond := usecond t div 100 * 100\<rparr>, 12, ?code)"
    using check usec hi lo year_via_bytes[OF yr]
    by (simp add: convertFromCCS_def p Let_def write_opt_def ccs_subseconds_def u uu word_less_nat_alt word_le_nat_alt)
  with to_code show ?thesis by simp
qed

lemma ccs_round_trip_witness:
  "\<exists>code. convertToCcsds_mseconds \<lparr>year = 2021, month = 5, day = 31, hour = 23, minute = 59, second = 58, usecond = 123456\<rparr>
     = (RETURN_OK, code)
   \<and> convertFromCCS \<lparr>year = 0, month = 0, day = 0, hour = 0, minute = 0, second = 0, usecond = 0\<rparr> code 0 10
     = (RETURN_OK, \<lparr>year = 2021, month = 5, day = 31, hour = 23, minute = 59, second = 58, usecond = 123400\<rparr>, 12, code)"
proof -
  let ?t = "\<lparr>year = 2021, month = 5, day = 31, hour = 23, minute = 59, second = 58, usecond = 123456\<rparr>"
  have "checkTimeOfDay ?t = RETURN_OK" "year ?t < 65536" by (simp_all add: checkTimeOfDay_def)
  from ccs_round_trip[OF this] show ?thesis by fastforce
qed

text \<open>
  Parsing a day of year code a second time never gives the date again: the first parse writes month
  and day into the input but leaves the variation flag, so that afterwards the two octets read as day
  256 month + day of the year. From February on that is refused as an invalid time.
\<close>

theorem ccs_day_of_year_destroys_input:
  assumes doy: "from ! 0 AND 8 \<noteq> 0" and len: "8 \<le> length from"
    and first: "convertFromCCS to from fl maxLength = (RETURN_OK, t, fl', from')"
    and feb: "from ! 3 \<noteq> 0 \<or> 31 < from ! 4"
  shows "from' ! 0 = from ! 0 \<and> fst (convertFromCCS to2 from' fl2 maxLength) = INVALID_TIME_FORMAT"
proof -
  let ?d = "push_bit 8 (ucast (from ! 3)) + ucast (from ! 4) :: u16"
  let ?yr = "ucast (push_bit 8 (ucast (from ! 1)) + ucast (from ! 2) :: u32) :: u16"
  have ne: "LENGTH_MISMATCH \<noteq> RETURN_OK" "INVALID_TIME_FORMAT \<noteq> RETURN_OK" by (simp_all add: retcode)
  have len_ok: "\<not> maxLength < ucast (from ! 0 AND 0b111) + 8" and check: "checkCcs from (ucast maxLength) = RETURN_OK"
    using first ne by (auto simp: convertFromCCS_def Let_def split: if_splits)
  obtain r m d where c: "convertDaysOfYear ?d ?yr = (r, m, d)" by (cases "convertDaysOfYear ?d ?yr") auto
  have r: "r = RETURN_OK" and from': "from' = write_opt (write_opt from 3 m) 4 d"
    using first doy len_ok check ne(1) c
    by (auto simp: convertFromCCS_def Let_def split: if_splits prod.splits)
  have d366: "unat ?d \<le> 366"
    using check doy ne by (auto simp: checkCcs_def Let_def word_less_nat_alt split: if_splits)
  have d32: "32 \<le> unat ?d"
    using feb unfolding unat_hi_lo by (auto simp: word_less_nat_alt unat_eq_zero[symmetric] simp del: unat_eq_0)
  then have "1 \<le> ?d" by (simp add: word_le_nat_alt)
  note cal = days_of_year_correct[OF this, of ?yr]
  have "INVALID_DAY_OF_YEAR \<noteq> RETURN_OK" by (simp add: retcode)
  with cal c r obtain m' x where mx: "m = Some m'" "d = Some x" "1 \<le> m'" "m' \<le> 12" "1 \<le> x"
      "x \<le> month_length (isLeapYear (ucast ?yr)) m'" "days_before (isLeapYear (ucast ?yr)) m' + x = unat ?d"
    by (auto split: if_splits)
  have x31: "x \<le> 31" using mx(6) by (auto simp: month_length_def split: if_splits)
  have m2: "2 \<le> m'" using mx(3,7) d32 x31 by (cases "m' = 1") (auto simp: days_before_simps)
  have f: "from' ! 0 = from ! 0" "from' ! 3 = of_nat m'" "from' ! 4 = of_nat x"
    using len by (simp_all add: from' mx write_opt_def)
  have "unat (of_nat m' :: u8) = m'" "unat (of_nat x :: u8) = x"
    using mx(4) x31 by (simp_all add: unsigned_of_nat take_bit_nat_eq_self)
  then have "366 < unat (push_bit 8 (ucast (from' ! 3)) + ucast (from' ! 4) :: u16)"
    unfolding unat_hi_lo f using m2 by simp
  then have "checkCcs from' (ucast maxLength) = INVALID_TIME_FORMAT"
    using doy by (simp add: checkCcs_def Let_def f(1) word_less_nat_alt)
  then show ?thesis using len_ok ne by (simp add: convertFromCCS_def Let_def f(1))
qed

lemma ccs_day_of_year_destroys_input_witness:
  "let none = \<lparr>year = 0, month = 0, day = 0, hour = 0, minute = 0, second = 0, usecond = 0\<rparr> in
   fst (convertFromCCS none [0x58, 0x07, 0xE5, 0, 60, 1, 2, 3] 0 8) = RETURN_OK
   \<and> fst (convertFromCCS none (snd (snd (snd (convertFromCCS none [0x58, 0x07, 0xE5, 0, 60, 1, 2, 3] 0 8)))) 0 8)
     = INVALID_TIME_FORMAT"
proof -
  let ?none = "\<lparr>year = 0, month = 0, day = 0, hour = 0, minute = 0, second = 0, usecond = 0\<rparr>"
  let ?c = "[0x58, 0x07, 0xE5, 0, 60, 1, 2, 3] :: bytes"
  have "(push_bit 8 (ucast (?c ! 1)) + ucast (?c ! 2) :: u32) = 2021" by (simp add: push_bit_eq_mult)
  moreover have "unat (push_bit 8 (ucast (?c ! 3)) + ucast (?c ! 4) :: u16) = 60" by (simp add: unat_hi_lo)
  ultimately have ok: "fst (convertFromCCS ?none ?c 0 8) = RETURN_OK"
    by (simp add: convertFromCCS_def checkCcs_def convertDaysOfYear_def isLeapYear_def ccs_subseconds_def
        write_opt_def Let_def days_loop.simps)
  obtain t fl' c' where c: "convertFromCCS ?none ?c 0 8 = (RETURN_OK, t, fl', c')"
    using ok by (cases "convertFromCCS ?none ?c 0 8") auto
  have "fst (convertFromCCS ?none c' 0 8) = INVALID_TIME_FORMAT"
    using ccs_day_of_year_destroys_input[OF _ _ c, of ?none 0] by simp
  with ok c show ?thesis by (simp add: Let_def)
qed

subsection \<open>CDS round trip\<close>

lemma hi_byte: "ucast (drop_bit 8 (w AND 0xFF00)) = (ucast (drop_bit 8 (w :: u32)) :: u8)"
  "ucast (drop_bit 16 (w AND 0xFF0000)) = (ucast (drop_bit 16 w) :: u8)"
  "ucast (drop_bit 24 (w AND 0xFF000000)) = (ucast (drop_bit 24 w) :: u8)"
  "ucast (w AND 0xFF) = (ucast w :: u8)"
  by (rule word8_eqI; simp add: bit_simps)+

lemma unat_byte_of: "unat (ucast (drop_bit k (w :: u32)) :: u8) = unat w div 2 ^ k mod 256"
proof -
  have "unat (ucast (drop_bit k w) :: u8) = take_bit 8 (drop_bit k (unat w))"
    by (simp add: unsigned_ucast_eq unat_drop_bit_eq)
  then show ?thesis by (simp only: drop_bit_eq_div take_bit_eq_mod) simp
qed

lemma unat_bytes:
  "unat (ucast (w :: u32) :: u8) = unat w mod 256" "unat (ucast (drop_bit 8 w) :: u8) = unat w div 256 mod 256"
  "unat (ucast (drop_bit 16 w) :: u8) = unat w div 65536 mod 256"
  "unat (ucast (drop_bit 24 w) :: u8) = unat w div 16777216 mod 256"
  using unat_byte_of[of 0 w] by simp (unfold unat_byte_of, simp_all)

lemma nat_bytes:
  fixes u :: nat
  shows "u < 65536 \<Longrightarrow> u div 256 mod 256 * 256 + u mod 256 = u"
    "u < 4294967296 \<Longrightarrow>
      u div 16777216 mod 256 * 16777216 + u div 65536 mod 256 * 65536 + u div 256 mod 256 * 256 + u mod 256 = u"
proof -
  have d: "u div 65536 = u div 256 div 256" "u div 16777216 = u div 256 div 256 div 256"
    using div_mult2_eq[of u 256 256] div_mult2_eq[of u 65536 256] by simp_all
  have e: "u div 256 * 256 + u mod 256 = u" "u div 256 div 256 * 256 + u div 256 mod 256 = u div 256"
    "u div 256 div 256 div 256 * 256 + u div 256 div 256 mod 256 = u div 256 div 256"
    by (rule div_mult_mod_eq)+
  { assume "u < 65536"
    then have "u div 256 < 256" by (simp add: less_mult_imp_div_less)
    then show "u div 256 mod 256 * 256 + u mod 256 = u" using e(1) by simp }
  assume "u < 4294967296"
  then have "u div 256 div 256 div 256 < 256" by (simp add: less_mult_imp_div_less)
  then show "u div 16777216 mod 256 * 16777216 + u div 65536 mod 256 * 65536 + u div 256 mod 256 * 256 + u mod 256 = u"
    unfolding d using e by (simp only: mod_less)
qed

lemma unat_be32: "unat (be32 a b c d) = unat a * 16777216 + unat b * 65536 + unat c * 256 + unat d"
proof -
  have "unat a * 16777216 + unat b * 65536 + unat c * 256 + unat d < 4294967296"
    using unat_u8_less[of a] unat_u8_less[of b] unat_u8_less[of c] unat_u8_less[of d] by linarith
  then show ?thesis
    by (simp add: be32_def unat_word_ariths push_bit_eq_mult unat_ucast_up)
qed

lemma be32_bytes:
  "be32 (ucast (drop_bit 24 (w AND 0xFF000000))) (ucast (drop_bit 16 (w AND 0xFF0000)))
     (ucast (drop_bit 8 (w AND 0xFF00))) (ucast (w AND 0xFF)) = w"
  unfolding word_unat_eq_iff unat_be32 hi_byte unat_bytes(2-4) unfolding unat_bytes(1) by (rule nat_bytes) simp

lemma be32_half:
  assumes "unat w < 65536"
  shows "be32 0 0 (ucast (drop_bit 8 (w AND 0xFF00))) (ucast (w AND 0xFF)) = w"
  unfolding word_unat_eq_iff unat_be32 hi_byte unat_bytes(2-4) unfolding unat_bytes(1) using nat_bytes(1)[OF assms] by simp

lemma cds_code:
  assumes sec: "0 \<le> tv_sec tv" "tv_sec tv div 86400 \<le> 61152" and us: "0 \<le> tv_usec tv" "tv_usec tv < 1000000"
    and that: "D = (word_of_int (tv_sec tv div 86400 + 4383) :: u32)"
      "M = (word_of_int (tv_sec tv mod 86400 * 1000 + tv_usec tv div 1000) :: u32)"
  shows "convertToCcsds_CDS tv = (RETURN_OK,
     [0x40, ucast (drop_bit 8 (D AND 0xFF00)), ucast (D AND 0xFF), ucast (drop_bit 24 (M AND 0xFF000000)),
      ucast (drop_bit 16 (M AND 0xFF0000)), ucast (drop_bit 8 (M AND 0xFF00)), ucast (M AND 0xFF)])"
proof -
  have sd: "a sdiv b = a div b" "a smod b = a mod b" if "0 \<le> a" "0 < b" for a b :: int
    using that by (simp_all add: signed_divide_int_def signed_modulo_int_def sgn_if minus_div_mult_eq_mod)
  have D: "uint D \<le> 65535"
    unfolding that(1) using sec pos_imp_zdiv_nonneg_iff[of 86400 "tv_sec tv"]
    by (simp only: uint_word_of_int take_bit_eq_mod) simp
  then have "\<not> D > push_bit 16 1" by (simp add: word_less_def)
  then show ?thesis
    using sec(1) us(1) that
    by (simp add: convertToCcsds_CDS_def Let_def SECONDS_PER_DAY_def DAYS_CCSDS_TO_UNIX_EPOCH_def sd CDS_def push_bit_eq_mult)
qed

lemma convertFromCDS_short:
  assumes "7 \<le> maxLength" "\<not> be32 0 0 a b \<le> of_nat DAYS_CCSDS_TO_UNIX_EPOCH"
  shows "convertFromCDS to [0x40, a, b, c, d, e, f] fl maxLength = (RETURN_OK, to\<lparr>
     tv_sec := uint ((be32 0 0 a b - of_nat DAYS_CCSDS_TO_UNIX_EPOCH) * of_nat SECONDS_PER_DAY) + uint (be32 c d e f div 1000),
     tv_usec := uint (be32 c d e f mod 1000 * 1000)\<rparr>, set_found fl 7)"
proof -
  have "\<not> maxLength < 7" using assms(1) by simp
  then show ?thesis using assms(2) by (simp add: convertFromCDS_def Let_def cds_fine_def)
qed

lemma mod_once: "m \<le> d \<Longrightarrow> d < 2 * m \<Longrightarrow> d mod m = d - (m :: int)"
  using minus_mod_self2[of d m] mod_pos_pos_trivial[of "d - m" m] by simp

lemma cds_round_trip_eq:
  assumes sec: "86400 \<le> tv_sec tv" "tv_sec tv div 86400 \<le> 61152" and us: "0 \<le> tv_usec tv" "tv_usec tv < 1000000"
    and len: "7 \<le> maxLength"
  shows "\<exists>code. convertToCcsds_CDS tv = (RETURN_OK, code) \<and> length code = 7
     \<and> convertFromCDS to code fl maxLength = (RETURN_OK, to\<lparr>
         tv_sec := tv_sec tv div 86400 * 86400 mod 4294967296 + tv_sec tv mod 86400,
         tv_usec := tv_usec tv div 1000 * 1000\<rparr>, set_found fl 7)"
proof -
  let ?S = "tv_sec tv" and ?U = "tv_usec tv"
  define D :: u32 where "D = word_of_int (?S div 86400 + 4383)"
  define M :: u32 where "M = word_of_int (?S mod 86400 * 1000 + ?U div 1000)"
  let ?code = "[0x40, ucast (drop_bit 8 (D AND 0xFF00)), ucast (D AND 0xFF), ucast (drop_bit 24 (M AND 0xFF000000)),
      ucast (drop_bit 16 (M AND 0xFF0000)), ucast (drop_bit 8 (M AND 0xFF00)), ucast (M AND 0xFF)] :: bytes"
  have c: "convertToCcsds_CDS tv = (RETURN_OK, ?code)"
    using sec us by (intro cds_code) (simp_all add: D_def M_def)
  have q: "1 \<le> ?S div 86400" using sec(1) by (simp add: zdiv_mono1[of 86400 ?S 86400, simplified])
  have D: "uint D = ?S div 86400 + 4383"
    unfolding D_def using sec(2) q by (simp only: uint_word_of_int take_bit_eq_mod) simp
  have "0 \<le> ?S mod 86400" "?S mod 86400 < 86400" by simp_all
  moreover have "0 \<le> ?U div 1000" "?U div 1000 < 1000" using us by (simp_all add: pos_imp_zdiv_nonneg_iff)
  ultimately have m: "0 \<le> ?S mod 86400 * 1000 + ?U div 1000" "?S mod 86400 * 1000 + ?U div 1000 < 86400000"
    by linarith+
  then have M: "uint M = ?S mod 86400 * 1000 + ?U div 1000"
    unfolding M_def by (simp only: uint_word_of_int take_bit_eq_mod) simp
  have nD: "unat D < 65536" using D sec(2) q by (simp add: unat_eq_nat_uint)
  have dlt: "\<not> D \<le> of_nat DAYS_CCSDS_TO_UNIX_EPOCH"
    using D q by (simp add: word_le_def DAYS_CCSDS_TO_UNIX_EPOCH_def)
  have secs: "uint ((D - of_nat DAYS_CCSDS_TO_UNIX_EPOCH) * of_nat SECONDS_PER_DAY) = ?S div 86400 * 86400 mod 4294967296"
  proof -
    have "uint (D - 4383) = ?S div 86400"
      using D q sec(2) by (simp add: uint_sub_if_size word_le_def)
    then have "uint ((D - 4383) * 86400) = ?S div 86400 * 86400 mod 4294967296"
      by (simp only: uint_word_ariths(3)) simp
    then show ?thesis by (simp only: DAYS_CCSDS_TO_UNIX_EPOCH_def SECONDS_PER_DAY_def of_nat_numeral) simp
  qed
  have ms: "uint (M div 1000) = ?S mod 86400" "uint (M mod 1000 * 1000) = ?U div 1000 * 1000"
  proof -
    have "0 \<le> ?U div 1000" "?U div 1000 < 1000" using us by (simp_all add: pos_imp_zdiv_nonneg_iff)
    then have r: "(?S mod 86400 * 1000 + ?U div 1000) div 1000 = ?S mod 86400"
      "(?S mod 86400 * 1000 + ?U div 1000) mod 1000 = ?U div 1000" by auto
    show "uint (M div 1000) = ?S mod 86400" unfolding uint_div M using r(1) by simp
    have "uint (M mod 1000) = ?U div 1000" unfolding uint_mod M using r(2) by simp
    then show "uint (M mod 1000 * 1000) = ?U div 1000 * 1000"
      using \<open>0 \<le> ?U div 1000\<close> \<open>?U div 1000 < 1000\<close> by (simp add: uint_word_ariths(3))
  qed
  have "convertFromCDS to ?code fl maxLength = (RETURN_OK, to\<lparr>
         tv_sec := ?S div 86400 * 86400 mod 4294967296 + ?S mod 86400,
         tv_usec := ?U div 1000 * 1000\<rparr>, set_found fl 7)"
    using convertFromCDS_short[OF len, where a = "ucast (drop_bit 8 (D AND 0xFF00))" and b = "ucast (D AND 0xFF)"
      and c = "ucast (drop_bit 24 (M AND 0xFF000000))" and d = "ucast (drop_bit 16 (M AND 0xFF0000))"
      and e = "ucast (drop_bit 8 (M AND 0xFF00))" and f = "ucast (M AND 0xFF)" and to = to and fl = fl]
    unfolding be32_half[OF nD] be32_bytes using dlt by (simp only: secs ms simp_thms)
  with c show ?thesis by simp
qed

text \<open>
  A time from the second day of 1970 to the end of the 16-bit day count (5 June 2137) is accepted by
  the CDS short code, and parsing the seven octets gives it back to the millisecond as long as the
  seconds at the start of the day fit in 32 bits (until 7 February 2106); after that the parsed time is
  2 to the 32 seconds too early.
\<close>

theorem cds_round_trip:
  assumes sec: "86400 \<le> tv_sec tv" "tv_sec tv div 86400 \<le> 61152" and us: "0 \<le> tv_usec tv" "tv_usec tv < 1000000"
    and len: "7 \<le> maxLength"
  shows "\<exists>code. convertToCcsds_CDS tv = (RETURN_OK, code) \<and> length code = 7
     \<and> convertFromCDS to code fl maxLength = (RETURN_OK, to\<lparr>
         tv_sec := (if tv_sec tv div 86400 * 86400 < 4294967296 then tv_sec tv else tv_sec tv - 4294967296),
         tv_usec := tv_usec tv div 1000 * 1000\<rparr>, set_found fl 7)"
proof -
  let ?d = "tv_sec tv div 86400 * 86400"
  have "0 \<le> ?d" "?d < 2 * 4294967296" "?d + tv_sec tv mod 86400 = tv_sec tv"
    using sec by (simp_all add: pos_imp_zdiv_nonneg_iff)
  moreover have "?d mod 4294967296 = (if ?d < 4294967296 then ?d else ?d - 4294967296)"
    using calculation mod_once[of 4294967296 ?d] mod_pos_pos_trivial[of ?d 4294967296] by simp
  ultimately show ?thesis using cds_round_trip_eq[OF assms, of to fl] by auto
qed

lemma cds_round_trip_witness:
  "\<exists>code. convertToCcsds_CDS \<lparr>tv_sec = 1622505599, tv_usec = 999999\<rparr> = (RETURN_OK, code)
     \<and> convertFromCDS \<lparr>tv_sec = 0, tv_usec = 0\<rparr> code None 7
       = (RETURN_OK, \<lparr>tv_sec = 1622505599, tv_usec = 999000\<rparr>, None)"
  using cds_round_trip[of "\<lparr>tv_sec = 1622505599, tv_usec = 999999\<rparr>" 7 "\<lparr>tv_sec = 0, tv_usec = 0\<rparr>" None]
  by (auto simp: set_found_def)

text \<open>
  A CUC code is only readable when it has at most two coarse and at most two fractional octets: for
  every other p-field, the mission's own \<open>P_FIELD_CUC_6B_CCSDS\<close> with four coarse octets among them, the
  shift amount of the second or third octet is not below the width of the type.
\<close>

theorem cuc_octet_limit:
  assumes "of_nat (unat (drop_bit 2 (pf AND 0b1100)) + 1 + unat (pf AND 0b11)) \<le> maxLength"
  shows "convertFromCUC to pf from fl maxLength \<noteq> None
     \<longleftrightarrow> drop_bit 2 (pf AND 0b1100) \<le> 1 \<and> pf AND 0b11 \<le> 2"
proof -
  let ?c = "drop_bit 2 (pf AND 0b1100)" and ?f = "pf AND 0b11"
  have oct: "cuc_octets k k 0 bs 0 \<noteq> None \<longleftrightarrow> k \<le> 2" if "k \<le> 4" for k bs
  proof -
    have "k \<in> {0, 1, 2, 3, 4}" using that by auto
    then show ?thesis by (auto simp: numeral_eq_Suc Let_def)
  qed
  have c4: "unat ?c \<le> 3" "unat ?f \<le> 3"
  proof -
    have "?c = take_bit 2 (drop_bit 2 pf)" "?f = take_bit 2 pf"
      by (rule word8_eqI; simp add: bit_simps)+
    then have "unat ?c = unat (drop_bit 2 pf) mod 4" "unat ?f = unat pf mod 4"
      by (simp_all only: take_bit_eq_mod) (simp_all add: unat_mod)
    then show "unat ?c \<le> 3" "unat ?f \<le> 3" by simp_all
  qed
  have "convertFromCUC to pf from fl maxLength \<noteq> None \<longleftrightarrow> unat ?c + 1 \<le> 2 \<and> unat ?f \<le> 2"
    using assms oct[of "unat ?c + 1" "from"] oct[of "unat ?f" "drop (unat ?c + 1) from"] c4
    unfolding convertFromCUC_def Let_def by (auto split: option.splits)
  then show ?thesis by (simp add: word_le_nat_alt)
qed

lemma cuc_octet_limit_witness: "convertFromCUC \<lparr>tv_sec = 0, tv_usec = 0\<rparr> P_FIELD_CUC_6B_CCSDS [0, 0, 0, 1, 0, 0] None 6 = None"
proof -
  have "P_FIELD_CUC_6B_CCSDS = 0x1E" by (simp add: P_FIELD_CUC_6B_CCSDS_def CUC_LEVEL1_def push_bit_eq_mult)
  moreover have a: "of_nat (unat (drop_bit 2 ((0x1E :: u8) AND 0b1100)) + 1 + unat ((0x1E :: u8) AND 0b11)) \<le> (6 :: u32)"
    and b: "\<not> drop_bit 2 ((0x1E :: u8) AND 0b1100) \<le> 1"
    by (simp_all add: word_le_nat_alt)
  have "convertFromCUC \<lparr>tv_sec = 0, tv_usec = 0\<rparr> 0x1E [0, 0, 0, 1, 0, 0] None 6 = None"
    using cuc_octet_limit[OF a] b by blast
  ultimately show ?thesis by (simp only:)
qed

subsection \<open>The time stampers\<close>

lemma unat_subseconds: "unat (MicrosecondsToSubseconds us) = unat us * 65536 mod 4294967296 div 1000000"
proof -
  have "unat (us * push_bit 16 1 div 1000000) = unat us * 65536 mod 4294967296 div 1000000"
    by (simp add: push_bit_eq_mult unat_div unat_word_ariths)
  moreover have "unat us * 65536 mod 4294967296 div 1000000 < 65536"
    by (simp add: less_mult_imp_div_less)
  ultimately show ?thesis
    unfolding MicrosecondsToSubseconds_def by (simp add: unsigned_ucast_eq take_bit_nat_eq_self)
qed

text \<open>
  The fraction in the mission's time stamp: the 32-bit product wraps, so the two octets never exceed
  4294 of 65536, whatever the microseconds; they are the microseconds in units of 2 to the -16 seconds
  exactly when there are fewer than 65536 of them.
\<close>

theorem cuc_subseconds_wrap:
  assumes "us < 1000000"
  shows "MicrosecondsToSubseconds us \<le> 4294
    \<and> (unat (MicrosecondsToSubseconds us) = unat us * 65536 div 1000000 \<longleftrightarrow> us < 65536)"
proof (rule conjI)
  let ?u = "unat us"
  have u: "?u < 1000000" using assms by (simp add: word_less_nat_alt)
  have "?u * 65536 mod 4294967296 < 4294967296" by simp
  then have "?u * 65536 mod 4294967296 div 1000000 < 4295" by (simp add: less_mult_imp_div_less)
  then show "MicrosecondsToSubseconds us \<le> 4294" by (simp add: word_le_nat_alt unat_subseconds)
  show "unat (MicrosecondsToSubseconds us) = ?u * 65536 div 1000000 \<longleftrightarrow> us < 65536"
  proof (cases "?u < 65536")
    case True
    then show ?thesis by (simp add: unat_subseconds word_less_nat_alt)
  next
    case False
    let ?p = "?u * 65536"
    have "4294967296 \<le> ?p" using False by simp
    then have "1 \<le> ?p div 4294967296" using div_le_mono[of 4294967296 ?p 4294967296] by simp
    then have "?p mod 4294967296 + 4294967296 \<le> ?p"
      using div_mult_mod_eq[of ?p 4294967296] by linarith
    then have "?p mod 4294967296 + 4294 * 1000000 \<le> ?p" by linarith
    from div_le_mono[OF this, of 1000000]
    have "?p mod 4294967296 div 1000000 + 4294 \<le> ?p div 1000000" by simp
    with False show ?thesis by (simp add: unat_subseconds word_less_nat_alt)
  qed
qed

lemma cuc_subseconds_wrap_witness:
  "MicrosecondsToSubseconds 500000 \<le> 4294 \<and> unat (MicrosecondsToSubseconds 500000) \<noteq> 500000 * 65536 div 1000000"
proof -
  have "(500000 :: u32) < 1000000" "\<not> (500000 :: u32) < 65536" by (simp_all add: word_less_nat_alt)
  then show ?thesis using cuc_subseconds_wrap[of 500000] by auto
qed

text \<open>The CDS stamper writes seven octets after a check for six.\<close>

lemma TimeStamper_overruns:
  assumes "0 \<le> tv_sec now" "tv_sec now div 86400 \<le> 61152" "0 \<le> tv_usec now" "tv_usec now < 1000000"
    and "length buffer = MISSION_TIMESTAMP_SIZE"
  shows "TimeStamper_addTimeStamp now buffer MISSION_TIMESTAMP_SIZE = None"
  using cds_code[OF assms(1-4) refl refl] assms(5)
  by (simp add: TimeStamper_addTimeStamp_def MISSION_TIMESTAMP_SIZE_def mem_copy_def)

text \<open>The CUC stamper fills exactly the six octets, with the big-endian seconds and fraction.\<close>

lemma CUCTimeStamper_fills:
  assumes "MISSION_TIMESTAMP_SIZE \<le> length buffer"
  shows "CUCTimeStamper_addTimeStamp now buffer MISSION_TIMESTAMP_SIZE
     = Some (RETURN_OK, be_bytes 4 (seconds (convertToCUC now)) @ be_bytes 2 (useconds (convertToCUC now)) @ drop 6 buffer)"
  using assms by (simp add: CUCTimeStamper_addTimeStamp_def MISSION_TIMESTAMP_SIZE_def mem_copy_def Let_def)

end
