(* ===== verification/LocalPool.thy ===== *)
theory LocalPool
  imports FsfwPrelude
begin

text \<open>
  The packet store, \<open>fsfw/storagemanager/LocalPool.tpp\<close> (\<open>PoolManager\<close> adds a lock around the same
  operations). A pool manager owns \<open>NUMBER_OF_POOLS\<close> memory blocks, each cut into equal elements, and
  a list of the sizes in use. Sizes and indices are natural numbers, with the conversions to 16 and 32
  bits of the code written out; a pointer into a block is the block's number and an offset. The abstract
  store is a partial map from addresses to byte strings: the locale \<open>packet_store\<close> states what the
  operations do to it, and the interpretation at the end shows it of the pool.
\<close>

subsection \<open>State\<close>

record store_address =
  pool_index :: nat
  packet_index :: nat

text \<open>The raw value of the union \<open>store_address_t\<close> on a little-endian machine.\<close>

definition store_address_raw :: "store_address \<Rightarrow> u32" where
  "store_address_raw a = of_nat (pool_index a) + push_bit 16 (of_nat (packet_index a))"

definition store_address_of_raw :: "u32 \<Rightarrow> store_address" where
  "store_address_of_raw w =
     \<lparr>pool_index = unat (take_bit 16 w), packet_index = unat (drop_bit 16 w)\<rparr>"

definition STORAGE_FREE :: u32 where "STORAGE_FREE = 0xFFFFFFFF"
definition INVALID_ADDRESS :: store_address where "INVALID_ADDRESS = store_address_of_raw 0xFFFFFFFF"

definition DATA_TOO_LARGE :: u16 where [retcode]: "DATA_TOO_LARGE = MAKE_RETURN_CODE STORAGE_MANAGER_IF 1"
definition DATA_STORAGE_FULL :: u16 where [retcode]: "DATA_STORAGE_FULL = MAKE_RETURN_CODE STORAGE_MANAGER_IF 2"
definition ILLEGAL_STORAGE_ID :: u16 where [retcode]: "ILLEGAL_STORAGE_ID = MAKE_RETURN_CODE STORAGE_MANAGER_IF 3"
definition DATA_DOES_NOT_EXIST :: u16 where [retcode]: "DATA_DOES_NOT_EXIST = MAKE_RETURN_CODE STORAGE_MANAGER_IF 4"
definition ILLEGAL_ADDRESS :: u16 where [retcode]: "ILLEGAL_ADDRESS = MAKE_RETURN_CODE STORAGE_MANAGER_IF 5"
definition POOL_TOO_LARGE :: u16 where [retcode]: "POOL_TOO_LARGE = MAKE_RETURN_CODE STORAGE_MANAGER_IF 6"

text \<open>\<open>storeFullReports\<close> counts the calls of \<open>internalErrorReporter->storeFull()\<close>, \<open>reporter\<close> says whether it is set.\<close>

record local_pool =
  element_sizes :: "nat list"
  n_elements :: "nat list"
  pool_store :: "bytes list"
  size_list :: "u32 list list"
  spillsToHigherPools :: bool
  reporter :: bool
  storeFullReports :: nat

abbreviation NUMBER_OF_POOLS :: "local_pool \<Rightarrow> nat" where
  "NUMBER_OF_POOLS lp \<equiv> length (element_sizes lp)"

definition newLocalPool :: "nat list \<Rightarrow> nat list \<Rightarrow> bool \<Rightarrow> local_pool" where
  "newLocalPool sizes counts spills =
     \<lparr>element_sizes = sizes, n_elements = counts,
      pool_store = map2 (\<lambda>e n. replicate (n * e) 0) sizes counts,
      size_list = map (\<lambda>n. replicate n STORAGE_FREE) counts,
      spillsToHigherPools = spills, reporter = False, storeFullReports = 0\<rparr>"

subsection \<open>Operations\<close>

definition findEmpty :: "local_pool \<Rightarrow> nat \<Rightarrow> nat option" where
  "findEmpty lp pi =
     (let n = n_elements lp ! pi; i = scan_index (\<lambda>s. s = STORAGE_FREE) (size_list lp ! pi) 0 n
      in if i < n then Some i else None)"

definition getPageSize :: "local_pool \<Rightarrow> nat \<Rightarrow> nat" where
  "getPageSize lp pi = (if pi < NUMBER_OF_POOLS lp then element_sizes lp ! pi else 0)"

definition getPoolIndex :: "local_pool \<Rightarrow> nat \<Rightarrow> nat \<Rightarrow> nat option" where
  "getPoolIndex lp packet_size startAtIndex =
     (let i = scan_index (\<lambda>e. e \<ge> packet_size) (element_sizes lp) startAtIndex (NUMBER_OF_POOLS lp)
      in if i < NUMBER_OF_POOLS lp then Some i else None)"

definition getRawPosition :: "local_pool \<Rightarrow> store_address \<Rightarrow> nat" where
  "getRawPosition lp a = packet_index a * element_sizes lp ! pool_index a"

text \<open>The loop of \<open>reserveSpace\<close> over the higher pools.\<close>

lemma getPoolIndex_bounds: "getPoolIndex lp sz k = Some i \<Longrightarrow> k \<le> i \<and> i < NUMBER_OF_POOLS lp"
  using scan_index_ge[of k] by (auto simp: getPoolIndex_def Let_def split: if_splits)

function spill_loop :: "local_pool \<Rightarrow> nat \<Rightarrow> u16 \<Rightarrow> store_address \<Rightarrow> u16 \<times> store_address" where
  "spill_loop lp sz status a =
     (if status \<noteq> RETURN_OK \<and> spillsToHigherPools lp then
        (case getPoolIndex lp sz (pool_index a + 1) of
           None \<Rightarrow> (DATA_TOO_LARGE, a)
         | Some i \<Rightarrow>
             (case findEmpty lp i of
                None \<Rightarrow> spill_loop lp sz DATA_STORAGE_FULL (a\<lparr>pool_index := i\<rparr>)
              | Some e \<Rightarrow> (RETURN_OK, a\<lparr>pool_index := i, packet_index := e\<rparr>)))
      else (status, a))"
  by pat_completeness auto
termination
  by (relation "measure (\<lambda>(lp, sz, status, a). NUMBER_OF_POOLS lp - pool_index a)")
     (auto dest!: getPoolIndex_bounds)

declare spill_loop.simps [simp del]

definition reserveSpace :: "local_pool \<Rightarrow> nat \<Rightarrow> store_address \<Rightarrow> bool \<Rightarrow> u16 \<times> store_address \<times> local_pool" where
  "reserveSpace lp sz address ignoreFault =
     (case getPoolIndex lp sz 0 of
        None \<Rightarrow> (DATA_TOO_LARGE, address, lp)
      | Some i \<Rightarrow>
          let a1 = address\<lparr>pool_index := i\<rparr>;
              (status, a2) = (case findEmpty lp i of
                  Some e \<Rightarrow> spill_loop lp sz RETURN_OK (a1\<lparr>packet_index := e\<rparr>)
                | None \<Rightarrow> spill_loop lp sz DATA_STORAGE_FULL a1)
          in if status = RETURN_OK
             then (status, a2, lp\<lparr>size_list := (size_list lp)[pool_index a2 :=
                       (size_list lp ! pool_index a2)[packet_index a2 := of_nat sz]]\<rparr>)
             else (status, a2, if \<not> ignoreFault \<and> reporter lp
                               then lp\<lparr>storeFullReports := storeFullReports lp + 1\<rparr> else lp))"

text \<open>\<open>write\<close>: the copy into the block is undefined outside of it.\<close>

definition pool_write :: "local_pool \<Rightarrow> store_address \<Rightarrow> bytes \<Rightarrow> local_pool option" where
  "pool_write lp a data =
     map_option (\<lambda>blk. lp\<lparr>pool_store := (pool_store lp)[pool_index a := blk],
                          size_list := (size_list lp)[pool_index a :=
                             (size_list lp ! pool_index a)[packet_index a := of_nat (length data)]]\<rparr>)
       (mem_copy (pool_store lp ! pool_index a) (getRawPosition lp a) data (length data))"

text \<open>\<open>reserveSpace\<close> takes the size as 32 bits.\<close>

definition addData :: "local_pool \<Rightarrow> store_address \<Rightarrow> bytes \<Rightarrow> bool \<Rightarrow> (u16 \<times> store_address \<times> local_pool) option" where
  "addData lp storageId data ignoreFault =
     (case reserveSpace lp (length data mod 2 ^ 32) storageId ignoreFault of
        (status, a, lp1) \<Rightarrow>
          if status = RETURN_OK then map_option (\<lambda>lp2. (status, a, lp2)) (pool_write lp1 a data)
          else Some (status, a, lp1))"

definition getFreeElement ::
  "local_pool \<Rightarrow> store_address \<Rightarrow> nat \<Rightarrow> bool \<Rightarrow> u16 \<times> store_address \<times> (nat \<times> nat) option \<times> local_pool" where
  "getFreeElement lp storageId sz ignoreFault =
     (case reserveSpace lp (sz mod 2 ^ 32) storageId ignoreFault of
        (status, a, lp1) \<Rightarrow>
          if status = RETURN_OK then (status, a, Some (pool_index a, getRawPosition lp1 a), lp1)
          else (status, a, None, lp1))"

text \<open>\<open>modifyData\<close>, which all variants of \<open>getData\<close> use: the result, and pointer and size if they are set.\<close>

definition modifyData :: "local_pool \<Rightarrow> store_address \<Rightarrow> u16 \<times> ((nat \<times> nat) \<times> nat) option" where
  "modifyData lp packet_id =
     (if pool_index packet_id \<ge> NUMBER_OF_POOLS lp then (ILLEGAL_STORAGE_ID, None)
      else if packet_index packet_id \<ge> n_elements lp ! pool_index packet_id then (ILLEGAL_STORAGE_ID, None)
      else
        let s = size_list lp ! pool_index packet_id ! packet_index packet_id in
        if s \<noteq> STORAGE_FREE
        then (RETURN_OK, Some ((pool_index packet_id, getRawPosition lp packet_id), unat s))
        else (DATA_DOES_NOT_EXIST, None))"

text \<open>\<open>getData\<close> for a caller that reads the bytes; \<open>None\<close> when the pointer would leave the block.\<close>

definition getData :: "local_pool \<Rightarrow> store_address \<Rightarrow> u16 \<times> bytes option" where
  "getData lp packet_id =
     (case modifyData lp packet_id of
        (status, Some ((n, pos), s)) \<Rightarrow> (status, mem_read (pool_store lp ! n) pos s)
      | (status, None) \<Rightarrow> (status, None))"

text \<open>\<open>deleteData\<close>: the position is cut to 16 bits before the element is wiped.\<close>

definition deleteData :: "local_pool \<Rightarrow> store_address \<Rightarrow> (u16 \<times> local_pool) option" where
  "deleteData lp packet_id =
     (let page_size = getPageSize lp (pool_index packet_id) in
      if page_size \<noteq> 0 \<and> packet_index packet_id < n_elements lp ! pool_index packet_id then
        let packet_position = getRawPosition lp packet_id mod 65536 in
        map_option (\<lambda>blk. (RETURN_OK, lp\<lparr>pool_store := (pool_store lp)[pool_index packet_id := blk],
            size_list := (size_list lp)[pool_index packet_id :=
               (size_list lp ! pool_index packet_id)[packet_index packet_id := STORAGE_FREE]]\<rparr>))
          (mem_copy (pool_store lp ! pool_index packet_id) packet_position (replicate page_size 0) page_size)
      else Some (ILLEGAL_STORAGE_ID, lp))"

text \<open>\<open>deleteData(ptr, ...)\<close> with a pointer into block \<open>n\<close>: the element the pointer lies in is deleted.\<close>

definition deleteData_ptr :: "local_pool \<Rightarrow> nat \<times> nat \<Rightarrow> (u16 \<times> local_pool) option" where
  "deleteData_ptr lp ptr =
     (case ptr of (n, deltaAddress) \<Rightarrow>
        if n < NUMBER_OF_POOLS lp \<and> deltaAddress < n_elements lp ! n * element_sizes lp ! n
        then deleteData lp \<lparr>pool_index = n, packet_index = deltaAddress div element_sizes lp ! n mod 65536\<rparr>
        else Some (ILLEGAL_ADDRESS, lp))"

definition clearStore :: "local_pool \<Rightarrow> local_pool" where
  "clearStore lp = lp\<lparr>size_list := map (\<lambda>n. replicate n STORAGE_FREE) (n_elements lp)\<rparr>"

text \<open>\<open>initialize\<close>, after the system object's part; \<open>found\<close>: the error reporter was found.\<close>

definition INTERNAL_ERR_REPORTER_UNINIT :: u16 where
  [retcode]: "INTERNAL_ERR_REPORTER_UNINIT = MAKE_RETURN_CODE OBJECT_MANAGER_IF 4"

definition pool_initialize :: "local_pool \<Rightarrow> bool \<Rightarrow> u16 \<times> local_pool" where
  "pool_initialize lp found =
     (if \<not> found then (INTERNAL_ERR_REPORTER_UNINIT, lp\<lparr>reporter := False\<rparr>)
      else if list_ex (\<lambda>e. e \<ge> unat STORAGE_FREE) (element_sizes lp) then (POOL_TOO_LARGE, lp\<lparr>reporter := True\<rparr>)
      else (RETURN_OK, lp\<lparr>reporter := True\<rparr>))"

subsection \<open>Invariant and abstraction\<close>

definition pool_inv :: "local_pool \<Rightarrow> bool" where
  "pool_inv lp \<longleftrightarrow>
     length (n_elements lp) = NUMBER_OF_POOLS lp \<and> length (pool_store lp) = NUMBER_OF_POOLS lp
     \<and> length (size_list lp) = NUMBER_OF_POOLS lp
     \<and> (\<forall>i < NUMBER_OF_POOLS lp. element_sizes lp ! i < 65536 \<and> n_elements lp ! i < 65536
          \<and> length (pool_store lp ! i) = n_elements lp ! i * element_sizes lp ! i
          \<and> length (size_list lp ! i) = n_elements lp ! i
          \<and> (\<forall>k < n_elements lp ! i. size_list lp ! i ! k = STORAGE_FREE
                \<or> unat (size_list lp ! i ! k) \<le> element_sizes lp ! i))"

definition valid_address :: "local_pool \<Rightarrow> store_address \<Rightarrow> bool" where
  "valid_address lp a \<longleftrightarrow> pool_index a < NUMBER_OF_POOLS lp \<and> packet_index a < n_elements lp ! pool_index a"

definition slot_size :: "local_pool \<Rightarrow> store_address \<Rightarrow> u32" where
  "slot_size lp a = size_list lp ! pool_index a ! packet_index a"

text \<open>What the store holds under an address.\<close>

definition pool_abs :: "local_pool \<Rightarrow> store_address \<rightharpoonup> bytes" where
  "pool_abs lp a =
     (if valid_address lp a \<and> slot_size lp a \<noteq> STORAGE_FREE
      then mem_read (pool_store lp ! pool_index a) (getRawPosition lp a) (unat (slot_size lp a)) else None)"

lemma pool_inv_new:
  assumes "length sizes = length counts" "\<forall>e \<in> set sizes. e < 65536" "\<forall>n \<in> set counts. n < 65536"
  shows "pool_inv (newLocalPool sizes counts spills)" "pool_abs (newLocalPool sizes counts spills) = Map.empty"
  using assms by (auto simp: pool_inv_def newLocalPool_def pool_abs_def valid_address_def slot_size_def fun_eq_iff)

lemma slot_fits:
  assumes "pool_inv lp" "valid_address lp a"
  shows "getRawPosition lp a + element_sizes lp ! pool_index a \<le> length (pool_store lp ! pool_index a)"
    "slot_size lp a \<noteq> STORAGE_FREE \<Longrightarrow> unat (slot_size lp a) \<le> element_sizes lp ! pool_index a"
    "getRawPosition lp a < 2 ^ 32"
proof -
  have e: "element_sizes lp ! pool_index a < 65536" "n_elements lp ! pool_index a < 65536"
    "length (pool_store lp ! pool_index a) = n_elements lp ! pool_index a * element_sizes lp ! pool_index a"
    and k: "packet_index a < n_elements lp ! pool_index a"
    using assms by (auto simp: pool_inv_def valid_address_def)
  have "(packet_index a + 1) * element_sizes lp ! pool_index a \<le> n_elements lp ! pool_index a * element_sizes lp ! pool_index a"
    using k by (intro mult_right_mono) auto
  then show "getRawPosition lp a + element_sizes lp ! pool_index a \<le> length (pool_store lp ! pool_index a)"
    by (simp add: getRawPosition_def e(3))
  show "slot_size lp a \<noteq> STORAGE_FREE \<Longrightarrow> unat (slot_size lp a) \<le> element_sizes lp ! pool_index a"
    using assms by (auto simp: pool_inv_def valid_address_def slot_size_def)
  have "packet_index a * element_sizes lp ! pool_index a \<le> 65535 * 65535"
    using e k by (intro mult_mono) auto
  then show "getRawPosition lp a < 2 ^ 32" by (simp add: getRawPosition_def)
qed

text \<open>Elements of one block do not overlap.\<close>

lemma slots_disjoint:
  assumes "packet_index a \<noteq> packet_index b" "pool_index a = pool_index b"
  shows "getRawPosition lp a + element_sizes lp ! pool_index a \<le> getRawPosition lp b
     \<or> getRawPosition lp b + element_sizes lp ! pool_index b \<le> getRawPosition lp a"
proof -
  let ?e = "element_sizes lp ! pool_index b"
  consider "packet_index a + 1 \<le> packet_index b" | "packet_index b + 1 \<le> packet_index a" using assms(1) by linarith
  then show ?thesis
  proof cases
    case 1
    then have "(packet_index a + 1) * ?e \<le> packet_index b * ?e" by (intro mult_right_mono) auto
    then show ?thesis using assms(2) by (simp add: getRawPosition_def)
  next
    case 2
    then have "(packet_index b + 1) * ?e \<le> packet_index a * ?e" by (intro mult_right_mono) auto
    then show ?thesis using assms(2) by (simp add: getRawPosition_def)
  qed
qed

lemma modifyData_cases:
  "modifyData lp a = (if \<not> valid_address lp a then (ILLEGAL_STORAGE_ID, None)
     else if slot_size lp a = STORAGE_FREE then (DATA_DOES_NOT_EXIST, None)
     else (RETURN_OK, Some ((pool_index a, getRawPosition lp a), unat (slot_size lp a))))"
  by (auto simp: modifyData_def valid_address_def slot_size_def Let_def)

lemma store_codes [simp]:
  "ILLEGAL_STORAGE_ID \<noteq> RETURN_OK" "DATA_DOES_NOT_EXIST \<noteq> RETURN_OK" "DATA_TOO_LARGE \<noteq> RETURN_OK"
  "DATA_STORAGE_FULL \<noteq> RETURN_OK" "ILLEGAL_ADDRESS \<noteq> RETURN_OK"
  by (simp_all add: retcode)

lemmas store_codes_sym [simp] = store_codes[THEN not_sym]

lemma getData_abs:
  assumes "pool_inv lp"
  shows "getData lp a = (case pool_abs lp a of Some data \<Rightarrow> (RETURN_OK, Some data)
     | None \<Rightarrow> (if valid_address lp a then DATA_DOES_NOT_EXIST else ILLEGAL_STORAGE_ID, None))"
proof (cases "valid_address lp a \<and> slot_size lp a \<noteq> STORAGE_FREE")
  case True
  then have "getRawPosition lp a + unat (slot_size lp a) \<le> length (pool_store lp ! pool_index a)"
    using slot_fits[OF assms, of a] by linarith
  then show ?thesis using True by (simp add: getData_def modifyData_cases pool_abs_def mem_read_def)
next
  case False
  then show ?thesis by (auto simp: getData_def modifyData_cases pool_abs_def)
qed

subsection \<open>Reserving an element\<close>

lemma findEmpty_Some: "findEmpty lp i = Some e \<Longrightarrow> e < n_elements lp ! i \<and> size_list lp ! i ! e = STORAGE_FREE"
  using scan_index_found[of 0 "n_elements lp ! i" "\<lambda>s. s = STORAGE_FREE" "size_list lp ! i"]
  by (auto simp: findEmpty_def Let_def split: if_splits)

lemma findEmpty_None: "findEmpty lp i = None \<longleftrightarrow> (\<forall>k < n_elements lp ! i. size_list lp ! i ! k \<noteq> STORAGE_FREE)"
  using scan_index_less_iff[of "\<lambda>s. s = STORAGE_FREE" "size_list lp ! i" "n_elements lp ! i"]
  by (auto simp: findEmpty_def Let_def)

lemma getPoolIndex_Some:
  assumes "getPoolIndex lp sz k = Some i"
  shows "k \<le> i" "i < NUMBER_OF_POOLS lp" "sz \<le> element_sizes lp ! i" "\<And>j. k \<le> j \<Longrightarrow> j < i \<Longrightarrow> element_sizes lp ! j < sz"
proof -
  let ?n = "NUMBER_OF_POOLS lp" and ?s = "scan_index (\<lambda>e. e \<ge> sz) (element_sizes lp) k (NUMBER_OF_POOLS lp)"
  have i: "i = ?s" "?s < ?n" using assms by (auto simp: getPoolIndex_def Let_def split: if_splits)
  show "k \<le> i" unfolding i(1) by (rule scan_index_ge)
  then have k: "k \<le> ?n" using i by simp
  show "i < ?n" using i by simp
  show "sz \<le> element_sizes lp ! i" using scan_index_found[OF k, of "\<lambda>e. e \<ge> sz" "element_sizes lp"] i by simp
  show "element_sizes lp ! j < sz" if "k \<le> j" "j < i" for j
    using scan_index_before[OF that(1), of "\<lambda>e. e \<ge> sz" "element_sizes lp" ?n] that i k by simp
qed

lemma getPoolIndex_None:
  assumes "getPoolIndex lp sz k = None" "k \<le> j" "j < NUMBER_OF_POOLS lp"
  shows "element_sizes lp ! j < sz"
proof -
  have "scan_index (\<lambda>e. e \<ge> sz) (element_sizes lp) k (NUMBER_OF_POOLS lp) = NUMBER_OF_POOLS lp"
    using assms scan_index_le[of k "NUMBER_OF_POOLS lp" "\<lambda>e. e \<ge> sz" "element_sizes lp"]
    by (auto simp: getPoolIndex_def Let_def split: if_splits)
  then show ?thesis
    using scan_index_none[of k "NUMBER_OF_POOLS lp" "\<lambda>e. e \<ge> sz" "element_sizes lp"] assms by (auto simp: not_le)
qed

text \<open>A free element of fitting size.\<close>

definition free_slot :: "local_pool \<Rightarrow> nat \<Rightarrow> store_address \<Rightarrow> bool" where
  "free_slot lp sz a \<longleftrightarrow>
     valid_address lp a \<and> slot_size lp a = STORAGE_FREE \<and> sz \<le> element_sizes lp ! pool_index a"

definition pool_full :: "local_pool \<Rightarrow> nat \<Rightarrow> bool" where
  "pool_full lp i \<longleftrightarrow> findEmpty lp i = None"

lemma free_slot_found:
  assumes "getPoolIndex lp sz k = Some i" "findEmpty lp i = Some e"
  shows "free_slot lp sz (a\<lparr>pool_index := i, packet_index := e\<rparr>)"
  using getPoolIndex_Some[OF assms(1)] findEmpty_Some[OF assms(2)]
  by (simp add: free_slot_def valid_address_def slot_size_def)

lemma spill_loop_spec:
  assumes "status = RETURN_OK \<Longrightarrow> free_slot lp sz a"
    and "status \<noteq> RETURN_OK \<Longrightarrow> \<forall>j \<le> pool_index a. j < NUMBER_OF_POOLS lp \<longrightarrow> sz \<le> element_sizes lp ! j \<longrightarrow> pool_full lp j"
    and "spill_loop lp sz status a = (st, a')"
  shows "(st = RETURN_OK \<longrightarrow> free_slot lp sz a')
    \<and> (st \<noteq> RETURN_OK \<longrightarrow> spillsToHigherPools lp \<longrightarrow>
        (\<forall>j < NUMBER_OF_POOLS lp. sz \<le> element_sizes lp ! j \<longrightarrow> pool_full lp j))"
  using assms
proof (induction lp sz status a rule: spill_loop.induct)
  case (1 lp sz status a)
  show ?case
  proof (cases "status \<noteq> RETURN_OK \<and> spillsToHigherPools lp")
    case False
    then have "st = status" "a' = a" using "1.prems"(3) by (auto simp: spill_loop.simps[of lp sz status a])
    with False "1.prems"(1) show ?thesis by auto
  next
    case True
    note full = "1.prems"(2)[OF conjunct1[OF True]]
    show ?thesis
    proof (cases "getPoolIndex lp sz (pool_index a + 1)")
      case None
      then have "st = DATA_TOO_LARGE" using True "1.prems"(3) by (simp add: spill_loop.simps[of lp sz status a])
      moreover have "pool_full lp j" if "j < NUMBER_OF_POOLS lp" "sz \<le> element_sizes lp ! j" for j
        using full getPoolIndex_None[OF None, of j] that by (cases "j \<le> pool_index a") force+
      ultimately show ?thesis by simp
    next
      case (Some i)
      show ?thesis
      proof (cases "findEmpty lp i")
        case e: (Some e)
        then have "st = RETURN_OK" "a' = a\<lparr>pool_index := i, packet_index := e\<rparr>"
          using True Some "1.prems"(3) by (auto simp: spill_loop.simps[of lp sz status a])
        then show ?thesis using free_slot_found[OF Some e] by simp
      next
        case None
        have "spill_loop lp sz DATA_STORAGE_FULL (a\<lparr>pool_index := i\<rparr>) = (st, a')"
          using True Some None "1.prems"(3) by (simp add: spill_loop.simps[of lp sz status a])
        moreover have "\<forall>j \<le> i. j < NUMBER_OF_POOLS lp \<longrightarrow> sz \<le> element_sizes lp ! j \<longrightarrow> pool_full lp j"
        proof (intro allI impI)
          fix j assume j: "j \<le> i" "j < NUMBER_OF_POOLS lp" "sz \<le> element_sizes lp ! j"
          consider "j \<le> pool_index a" | "j = i" | "pool_index a + 1 \<le> j" "j < i" using j(1) by linarith
          then show "pool_full lp j"
            using full j getPoolIndex_Some(4)[OF Some, of j] None by cases (auto simp: pool_full_def)
        qed
        ultimately show ?thesis
          using "1.IH"[OF True Some None] by simp
      qed
    qed
  qed
qed

lemma reserveSpace_spec:
  assumes "reserveSpace lp sz a ig = (st, a', lp')"
  shows "st = RETURN_OK \<Longrightarrow> free_slot lp sz a' \<and> lp' = lp\<lparr>size_list := (size_list lp)[pool_index a' :=
                       (size_list lp ! pool_index a')[packet_index a' := of_nat sz]]\<rparr>"
    and "st \<noteq> RETURN_OK \<Longrightarrow> lp' = lp\<lparr>storeFullReports := storeFullReports lp'\<rparr>"
    and "st \<noteq> RETURN_OK \<Longrightarrow> spillsToHigherPools lp \<Longrightarrow> \<forall>j < NUMBER_OF_POOLS lp. sz \<le> element_sizes lp ! j \<longrightarrow> pool_full lp j"
    and "st \<noteq> RETURN_OK \<Longrightarrow> \<forall>j < NUMBER_OF_POOLS lp. (\<forall>k < j. element_sizes lp ! k < sz) \<longrightarrow> sz \<le> element_sizes lp ! j \<longrightarrow> pool_full lp j"
proof -
  have "(st = RETURN_OK \<longrightarrow> free_slot lp sz a' \<and> lp' = lp\<lparr>size_list := (size_list lp)[pool_index a' :=
                       (size_list lp ! pool_index a')[packet_index a' := of_nat sz]]\<rparr>)
    \<and> (st \<noteq> RETURN_OK \<longrightarrow> lp' = lp\<lparr>storeFullReports := storeFullReports lp'\<rparr>)
    \<and> (st \<noteq> RETURN_OK \<longrightarrow> spillsToHigherPools lp \<longrightarrow> (\<forall>j < NUMBER_OF_POOLS lp. sz \<le> element_sizes lp ! j \<longrightarrow> pool_full lp j))
    \<and> (st \<noteq> RETURN_OK \<longrightarrow> (\<forall>j < NUMBER_OF_POOLS lp. (\<forall>k < j. element_sizes lp ! k < sz) \<longrightarrow> sz \<le> element_sizes lp ! j \<longrightarrow> pool_full lp j))"
  proof (cases "getPoolIndex lp sz 0")
    case None
    then show ?thesis using assms getPoolIndex_None[OF None] by (fastforce simp: reserveSpace_def)
  next
    case (Some i)
    note g = getPoolIndex_Some[OF Some]
    let ?a1 = "a\<lparr>pool_index := i\<rparr>"
    obtain s0 a0 where s0: "(s0, a0) = (case findEmpty lp i of Some e \<Rightarrow> (RETURN_OK, ?a1\<lparr>packet_index := e\<rparr>) | None \<Rightarrow> (DATA_STORAGE_FULL, ?a1))"
      by (cases "findEmpty lp i") auto
    obtain st1 a1 where l: "spill_loop lp sz s0 a0 = (st1, a1)" by (cases "spill_loop lp sz s0 a0") auto
    have r: "st = st1" "a' = a1"
      "lp' = (if st1 = RETURN_OK then lp\<lparr>size_list := (size_list lp)[pool_index a1 :=
                       (size_list lp ! pool_index a1)[packet_index a1 := of_nat sz]]\<rparr>
              else if \<not> ig \<and> reporter lp then lp\<lparr>storeFullReports := storeFullReports lp + 1\<rparr> else lp)"
      using assms Some s0 l by (auto simp: reserveSpace_def Let_def split: option.splits if_splits)
    have a0: "pool_index a0 = i" using s0 by (auto split: option.splits)
    have free: "s0 = RETURN_OK \<Longrightarrow> free_slot lp sz a0"
      using s0 free_slot_found[OF Some, of _ a] by (auto split: option.splits)
    have full_i: "s0 \<noteq> RETURN_OK \<Longrightarrow> pool_full lp i" using s0 by (auto simp: pool_full_def split: option.splits)
    have small: "j < i \<Longrightarrow> element_sizes lp ! j < sz" for j using g(4)[of j] by simp
    then have full: "s0 \<noteq> RETURN_OK \<Longrightarrow> \<forall>j \<le> pool_index a0. j < NUMBER_OF_POOLS lp \<longrightarrow> sz \<le> element_sizes lp ! j \<longrightarrow> pool_full lp j"
      using full_i by (force simp: a0 le_less)
    have ok0: "s0 = RETURN_OK \<Longrightarrow> st1 = RETURN_OK" using l by (simp add: spill_loop.simps)
    have "j = i" if "\<forall>k < j. element_sizes lp ! k < sz" "sz \<le> element_sizes lp ! j" for j
      using that g(3) small[of j] by (cases j i rule: linorder_cases) auto
    then show ?thesis
      using spill_loop_spec[OF free full l] r full_i ok0 by auto
  qed
  then show "st = RETURN_OK \<Longrightarrow> free_slot lp sz a' \<and> lp' = lp\<lparr>size_list := (size_list lp)[pool_index a' :=
                       (size_list lp ! pool_index a')[packet_index a' := of_nat sz]]\<rparr>"
    "st \<noteq> RETURN_OK \<Longrightarrow> lp' = lp\<lparr>storeFullReports := storeFullReports lp'\<rparr>"
    "st \<noteq> RETURN_OK \<Longrightarrow> spillsToHigherPools lp \<Longrightarrow> \<forall>j < NUMBER_OF_POOLS lp. sz \<le> element_sizes lp ! j \<longrightarrow> pool_full lp j"
    "st \<noteq> RETURN_OK \<Longrightarrow> \<forall>j < NUMBER_OF_POOLS lp. (\<forall>k < j. element_sizes lp ! k < sz) \<longrightarrow> sz \<le> element_sizes lp ! j \<longrightarrow> pool_full lp j"
    by blast+
qed

subsection \<open>Effect of the operations on the abstract store\<close>

lemma set_size_inv:
  assumes "pool_inv lp" "valid_address lp a" "sz = STORAGE_FREE \<or> unat sz \<le> element_sizes lp ! pool_index a"
  shows "pool_inv (lp\<lparr>size_list := (size_list lp)[pool_index a := (size_list lp ! pool_index a)[packet_index a := sz]]\<rparr>)"
  using assms by (auto simp: pool_inv_def valid_address_def nth_list_update)

text \<open>Writing a block of bytes into the element of \<open>a\<close> and setting its size.\<close>

lemma slot_update:
  assumes inv: "pool_inv lp" and a: "valid_address lp a"
    and n: "n \<le> element_sizes lp ! pool_index a" "n \<le> length data"
    and blk: "mem_copy (pool_store lp ! pool_index a) (getRawPosition lp a) data n = Some blk"
    and sz: "sz = STORAGE_FREE \<or> unat sz = n"
    and lp': "lp' = lp\<lparr>pool_store := (pool_store lp)[pool_index a := blk],
               size_list := (size_list lp)[pool_index a := (size_list lp ! pool_index a)[packet_index a := sz]]\<rparr>"
  shows "pool_inv lp'" "pool_abs lp' = (pool_abs lp)(a := if sz = STORAGE_FREE then None else Some (take n data))"
proof -
  have len: "length blk = length (pool_store lp ! pool_index a)" using blk by (rule length_mem_copy)
  show "pool_inv lp'"
    using inv a n sz len by (auto simp: lp' pool_inv_def valid_address_def nth_list_update)
  have i: "pool_index a < length (pool_store lp)" "pool_index a < length (size_list lp)"
    "packet_index a < length (size_list lp ! pool_index a)"
    using inv a by (auto simp: pool_inv_def valid_address_def)
  have v: "valid_address lp' b \<longleftrightarrow> valid_address lp b" for b by (simp add: valid_address_def lp')
  have pos: "getRawPosition lp' b = getRawPosition lp b" for b by (simp add: getRawPosition_def lp')
  have "pool_abs lp' b = (if b = a then if sz = STORAGE_FREE then None else Some (take n data) else pool_abs lp b)" for b
  proof (cases "b = a")
    case True
    have s: "slot_size lp' a = sz" using i by (simp add: slot_size_def lp')
    show ?thesis using True a sz mem_read_copy[OF blk] i by (auto simp: pool_abs_def v pos s) (auto simp: lp')
  next
    case False
    then have ne: "pool_index b \<noteq> pool_index a \<or> packet_index b \<noteq> packet_index a" by (cases a, cases b) auto
    then have s: "slot_size lp' b = slot_size lp b" using i by (auto simp: slot_size_def lp' nth_list_update)
    have "mem_read (pool_store lp' ! pool_index b) (getRawPosition lp b) (unat (slot_size lp b))
        = mem_read (pool_store lp ! pool_index b) (getRawPosition lp b) (unat (slot_size lp b))"
      if b: "valid_address lp b" "slot_size lp b \<noteq> STORAGE_FREE"
    proof (cases "pool_index b = pool_index a")
      case True
      have "unat (slot_size lp b) \<le> element_sizes lp ! pool_index b" using slot_fits(2)[OF inv b] .
      moreover have "packet_index b \<noteq> packet_index a" using ne True by simp
      ultimately have "getRawPosition lp b + unat (slot_size lp b) \<le> getRawPosition lp a
         \<or> getRawPosition lp a + n \<le> getRawPosition lp b"
        using slots_disjoint[of b a lp] True n by auto
      then show ?thesis using mem_read_copy_disjoint[OF blk] True i by (simp add: lp')
    next
      case False
      then show ?thesis by (simp add: lp')
    qed
    then show ?thesis using False by (auto simp: pool_abs_def v pos s)
  qed
  then show "pool_abs lp' = (pool_abs lp)(a := if sz = STORAGE_FREE then None else Some (take n data))"
    by (auto simp: fun_eq_iff)
qed

lemma free_slot_abs: "free_slot lp sz a \<Longrightarrow> pool_abs lp a = None"
  by (simp add: free_slot_def pool_abs_def)

lemma small_not_free: "n < 65536 \<Longrightarrow> of_nat n \<noteq> STORAGE_FREE" "n < 65536 \<Longrightarrow> unat (of_nat n :: u32) = n"
proof -
  assume n: "n < 65536"
  then show u: "unat (of_nat n :: u32) = n" by (simp add: unsigned_of_nat take_bit_nat_eq_self)
  show "of_nat n \<noteq> STORAGE_FREE"
  proof
    assume "of_nat n = STORAGE_FREE"
    then have "unat (of_nat n :: u32) = unat STORAGE_FREE" by simp
    with u n show False by (simp add: STORAGE_FREE_def)
  qed
qed

lemma free_slot_small: "pool_inv lp \<Longrightarrow> free_slot lp sz a \<Longrightarrow> sz < 65536"
  unfolding free_slot_def valid_address_def pool_inv_def by (meson le_less_trans)

lemma addData_spec:
  assumes inv: "pool_inv lp" and len: "length data < 2 ^ 32"
  shows "\<exists>st a' lp'. addData lp a data ig = Some (st, a', lp') \<and> pool_inv lp'
     \<and> (if st = RETURN_OK then pool_abs lp a' = None \<and> pool_abs lp' = (pool_abs lp)(a' \<mapsto> data)
        else pool_abs lp' = pool_abs lp)"
proof -
  obtain st a' lp1 where r: "reserveSpace lp (length data) a ig = (st, a', lp1)"
    by (cases "reserveSpace lp (length data) a ig") auto
  have m: "length data mod 2 ^ 32 = length data" using len by simp
  have e: "addData lp a data ig = (if st = RETURN_OK then map_option (\<lambda>lp2. (st, a', lp2)) (pool_write lp1 a' data)
      else Some (st, a', lp1))"
    unfolding addData_def m r by simp
  show ?thesis
  proof (cases "st = RETURN_OK")
    case False
    then have l1: "lp1 = lp\<lparr>storeFullReports := storeFullReports lp1\<rparr>" using reserveSpace_spec(2)[OF r] by simp
    have "pool_inv lp1" using inv by (subst l1) (simp add: pool_inv_def)
    moreover have "pool_abs lp1 = pool_abs lp"
      by (subst l1) (simp add: fun_eq_iff pool_abs_def valid_address_def slot_size_def getRawPosition_def)
    ultimately show ?thesis using False e by auto
  next
    case True
    let ?sl = "(size_list lp)[pool_index a' := (size_list lp ! pool_index a')[packet_index a' := of_nat (length data)]]"
    have free: "free_slot lp (length data) a'" and l1: "lp1 = lp\<lparr>size_list := ?sl\<rparr>"
      using reserveSpace_spec(1)[OF r True] by auto
    have v: "valid_address lp a'" "length data \<le> element_sizes lp ! pool_index a'"
      using free by (auto simp: free_slot_def)
    have small: "length data < 65536" using free_slot_small[OF inv free] .
    obtain blk where blk: "mem_copy (pool_store lp ! pool_index a') (getRawPosition lp a') data (length data) = Some blk"
      using slot_fits(1)[OF inv v(1)] v(2) by (simp add: mem_copy_def)
    have pi: "pool_index a' < length (size_list lp)" using inv v(1) by (auto simp: pool_inv_def valid_address_def)
    let ?lp2 = "lp\<lparr>pool_store := (pool_store lp)[pool_index a' := blk], size_list := ?sl\<rparr>"
    have "pool_write lp1 a' data = Some ?lp2"
      using blk pi by (simp add: pool_write_def l1 getRawPosition_def)
    then have "addData lp a data ig = Some (RETURN_OK, a', ?lp2)" by (simp add: e True)
    moreover note slot_update[OF inv v(1) v(2) order_refl blk _ refl, of "of_nat (length data)"]
    ultimately show ?thesis using small_not_free[OF small] free_slot_abs[OF free] by simp
  qed
qed

lemma deleteData_spec:
  assumes inv: "pool_inv lp" and page': "valid_address lp a \<Longrightarrow> element_sizes lp ! pool_index a \<noteq> 0"
    and small': "valid_address lp a \<Longrightarrow> n_elements lp ! pool_index a * element_sizes lp ! pool_index a \<le> 65536"
  shows "\<exists>st lp'. deleteData lp a = Some (st, lp') \<and> pool_inv lp'
     \<and> (if valid_address lp a then st = RETURN_OK \<and> pool_abs lp' = (pool_abs lp)(a := None)
        else st = ILLEGAL_STORAGE_ID \<and> lp' = lp)"
proof (cases "valid_address lp a")
  case False
  then show ?thesis using inv by (auto simp: deleteData_def getPageSize_def valid_address_def Let_def)
next
  case True
  note page = page'[OF True] and small = small'[OF True]
  let ?e = "element_sizes lp ! pool_index a"
  have "getRawPosition lp a + ?e \<le> n_elements lp ! pool_index a * ?e"
    using slot_fits(1)[OF inv True] inv True by (simp add: pool_inv_def valid_address_def)
  then have pos: "getRawPosition lp a mod 65536 = getRawPosition lp a" using small page by simp
  obtain blk where blk: "mem_copy (pool_store lp ! pool_index a) (getRawPosition lp a) (replicate ?e 0) ?e = Some blk"
    using slot_fits(1)[OF inv True] by (simp add: mem_copy_def)
  let ?lp' = "lp\<lparr>pool_store := (pool_store lp)[pool_index a := blk],
               size_list := (size_list lp)[pool_index a := (size_list lp ! pool_index a)[packet_index a := STORAGE_FREE]]\<rparr>"
  have "deleteData lp a = Some (RETURN_OK, ?lp')"
    using True page blk pos by (simp add: deleteData_def getPageSize_def valid_address_def Let_def)
  then show ?thesis
    using slot_update[OF inv True _ _ blk _ refl, of STORAGE_FREE] True by simp
qed

lemma clearStore_spec:
  assumes "pool_inv lp" shows "pool_inv (clearStore lp)" "pool_abs (clearStore lp) = Map.empty"
  using assms by (auto simp: clearStore_def pool_inv_def pool_abs_def valid_address_def slot_size_def fun_eq_iff)

subsection \<open>The interface\<close>

text \<open>What the users of a store rely on.\<close>

locale packet_store =
  fixes inv :: "'s \<Rightarrow> bool" and abs :: "'s \<Rightarrow> 'a \<Rightarrow> bytes option"
    and add :: "'s \<Rightarrow> bytes \<Rightarrow> ('a \<times> 's) option" and get :: "'s \<Rightarrow> 'a \<Rightarrow> bytes option"
    and del :: "'s \<Rightarrow> 'a \<Rightarrow> 's"
  assumes add: "inv s \<Longrightarrow> add s d = Some (a, s') \<Longrightarrow> inv s' \<and> abs s a = None \<and> abs s' = (abs s)(a \<mapsto> d)"
    and get: "inv s \<Longrightarrow> get s a = abs s a"
    and del: "inv s \<Longrightarrow> inv (del s a) \<and> abs (del s a) = (abs s)(a := None)"
begin

lemma get_add: "inv s \<Longrightarrow> add s d = Some (a, s') \<Longrightarrow> get s' b = (if b = a then Some d else get s b)"
  using add[of s d a s'] get[of s b] get[of s' b] by auto

lemma get_del: "inv s \<Longrightarrow> get (del s a) b = (if b = a then None else get s b)"
  using del[of s a] get[of s b] get[of "del s a" b] by auto

lemma del_add: "inv s \<Longrightarrow> add s d = Some (a, s') \<Longrightarrow> abs (del s' a) = abs s"
  using add[of s d a s'] del[of s' a] by (auto simp: fun_eq_iff)

text \<open>A sequence of packets put into the store: the addresses differ and every packet is still there.\<close>

primrec add_all :: "'s \<Rightarrow> bytes list \<Rightarrow> ('a list \<times> 's) option" where
  "add_all s [] = Some ([], s)"
| "add_all s (d # ds) =
     (case add s d of None \<Rightarrow> None
      | Some (a, s1) \<Rightarrow> map_option (\<lambda>(as, s2). (a # as, s2)) (add_all s1 ds))"

lemma add_all_get:
  "inv s \<Longrightarrow> add_all s ds = Some (as, s') \<Longrightarrow>
    inv s' \<and> distinct as \<and> map (get s') as = map Some ds \<and> (\<forall>b. get s b \<noteq> None \<longrightarrow> b \<notin> set as \<and> get s' b = get s b)"
proof (induction ds arbitrary: s as)
  case (Cons d ds)
  then obtain a s1 as1 where a: "add s d = Some (a, s1)" "add_all s1 ds = Some (as1, s')" "as = a # as1"
    by (auto split: option.splits prod.splits)
  have inv1: "inv s1" and fresh: "get s a = None" using add[OF Cons.prems(1) a(1)] get[OF Cons.prems(1)] by auto
  note ih = Cons.IH[OF inv1 a(2)]
  have "get s1 b \<noteq> None \<longleftrightarrow> b = a \<or> get s b \<noteq> None" for b using get_add[OF Cons.prems(1) a(1), of b] by simp
  then show ?case using ih get_add[OF Cons.prems(1) a(1)] fresh by (auto simp: a(3))
qed simp

end

text \<open>The pool, for a configuration whose blocks are at most 64 KiB and whose elements are not empty.\<close>

definition pool_ok :: "local_pool \<Rightarrow> bool" where
  "pool_ok lp \<longleftrightarrow> pool_inv lp \<and> (\<forall>i < NUMBER_OF_POOLS lp. element_sizes lp ! i \<noteq> 0
     \<and> n_elements lp ! i * element_sizes lp ! i \<le> 65536)"

definition pool_add :: "local_pool \<Rightarrow> bytes \<Rightarrow> (store_address \<times> local_pool) option" where
  "pool_add lp data =
     (case addData lp INVALID_ADDRESS data False of
        Some (st, a, lp') \<Rightarrow> if st = RETURN_OK then Some (a, lp') else None
      | None \<Rightarrow> None)"

definition pool_del :: "local_pool \<Rightarrow> store_address \<Rightarrow> local_pool" where
  "pool_del lp a = (case deleteData lp a of Some (st, lp') \<Rightarrow> lp' | None \<Rightarrow> lp)"

lemma reserveSpace_config:
  "reserveSpace lp sz a ig = (st, a', lp') \<Longrightarrow> element_sizes lp' = element_sizes lp \<and> n_elements lp' = n_elements lp"
  by (auto simp: reserveSpace_def Let_def split: option.splits prod.splits if_splits)

lemma addData_config:
  "addData lp a d ig = Some (st, a', lp') \<Longrightarrow> element_sizes lp' = element_sizes lp \<and> n_elements lp' = n_elements lp"
  by (auto simp: addData_def pool_write_def dest!: reserveSpace_config split: prod.splits if_splits)

lemma deleteData_config:
  "deleteData lp a = Some (st, lp') \<Longrightarrow> element_sizes lp' = element_sizes lp \<and> n_elements lp' = n_elements lp"
  by (auto simp: deleteData_def Let_def split: if_splits)

interpretation pool: packet_store pool_ok pool_abs "\<lambda>lp d. if length d < 2 ^ 32 then pool_add lp d else None"
    "\<lambda>lp a. snd (getData lp a)" pool_del
proof unfold_locales
  fix s d a s' assume ok: "pool_ok s" and a: "(if length d < 2 ^ 32 then pool_add s d else None) = Some (a, s')"
  then have len: "length d < 2 ^ 32" and add: "addData s INVALID_ADDRESS d False = Some (RETURN_OK, a, s')"
    by (auto simp: pool_add_def split: if_splits option.splits)
  show "pool_ok s' \<and> pool_abs s a = None \<and> pool_abs s' = (pool_abs s)(a \<mapsto> d)"
    using addData_spec[of s d INVALID_ADDRESS False] addData_config[OF add] ok len add by (auto simp: pool_ok_def)
next
  fix s a assume "pool_ok s"
  then show "snd (getData s a) = pool_abs s a" by (simp add: pool_ok_def getData_abs split: option.splits)
next
  fix s a assume ok: "pool_ok s"
  obtain st lp' where d: "deleteData s a = Some (st, lp')" "pool_inv lp'"
    "if valid_address s a then st = RETURN_OK \<and> pool_abs lp' = (pool_abs s)(a := None) else st = ILLEGAL_STORAGE_ID \<and> lp' = s"
    using deleteData_spec[of s a] ok by (auto simp: pool_ok_def valid_address_def)
  have "\<not> valid_address s a \<Longrightarrow> pool_abs s a = None" by (simp add: pool_abs_def)
  then show "pool_ok (pool_del s a) \<and> pool_abs (pool_del s a) = (pool_abs s)(a := None)"
    using ok d deleteData_config[OF d(1)] by (auto simp: pool_del_def pool_ok_def split: if_splits)
qed

subsection \<open>Properties\<close>

lemma getData_config:
  assumes "pool_inv lp" "pool_inv lp'" "element_sizes lp' = element_sizes lp" "n_elements lp' = n_elements lp"
    and "pool_abs lp' b = pool_abs lp b"
  shows "getData lp' b = getData lp b"
proof -
  have "valid_address lp' b = valid_address lp b" using assms by (simp add: valid_address_def)
  then show ?thesis using assms by (simp add: getData_abs)
qed

text \<open>
  C36. Adding data to a pool never writes outside its memory and keeps the pool's invariant. On success
  the address was free before, reading it gives exactly the data, and every other address reads as
  before; on failure every address reads as before.
\<close>

theorem pool_add_get:
  assumes inv: "pool_inv lp" and len: "length data < 2 ^ 32"
  shows "\<exists>st a lp'. addData lp a0 data ig = Some (st, a, lp') \<and> pool_inv lp'
     \<and> (if st = RETURN_OK
         then fst (getData lp a) \<noteq> RETURN_OK
              \<and> (\<forall>b. getData lp' b = (if b = a then (RETURN_OK, Some data) else getData lp b))
         else \<forall>b. getData lp' b = getData lp b)"
proof -
  obtain st a lp' where r: "addData lp a0 data ig = Some (st, a, lp')" "pool_inv lp'"
      "if st = RETURN_OK then pool_abs lp a = None \<and> pool_abs lp' = (pool_abs lp)(a \<mapsto> data) else pool_abs lp' = pool_abs lp"
    using addData_spec[OF assms] by blast
  have same: "getData lp' b = getData lp b" if "pool_abs lp' b = pool_abs lp b" for b
    using getData_config[OF inv r(2) _ _ that] addData_config[OF r(1)] by simp
  show ?thesis
  proof (cases "st = RETURN_OK")
    case True
    then have "fst (getData lp a) \<noteq> RETURN_OK" "getData lp' a = (RETURN_OK, Some data)"
      using r by (auto simp: getData_abs[OF inv] getData_abs[OF r(2)])
    with True r same show ?thesis by (intro exI[of _ st] exI[of _ a] exI[of _ lp']) auto
  next
    case False
    with r same show ?thesis by (intro exI[of _ st] exI[of _ a] exI[of _ lp']) auto
  qed
qed

lemma pool_add_get_witness:
  "\<exists>st a lp'. addData (newLocalPool [4, 8] [1, 1] False) INVALID_ADDRESS [1, 2, 3] False = Some (st, a, lp') \<and> pool_inv lp'"
  using pool_add_get[OF pool_inv_new(1)[of "[4, 8]" "[1, 1]" False], of "[1, 2, 3]" INVALID_ADDRESS False] by auto

text \<open>
  C37. In a pool whose blocks have at most 64 KiB, deleting a valid address frees it and leaves the
  data at every other address as it was; an invalid address is refused without any change.
\<close>

theorem pool_delete_isolated:
  assumes ok: "pool_ok lp"
  shows "\<exists>st lp'. deleteData lp a = Some (st, lp') \<and> pool_ok lp'
     \<and> (if valid_address lp a
         then st = RETURN_OK \<and> fst (getData lp' a) = DATA_DOES_NOT_EXIST \<and> (\<forall>b. b \<noteq> a \<longrightarrow> getData lp' b = getData lp b)
         else st = ILLEGAL_STORAGE_ID \<and> lp' = lp)"
proof -
  have inv: "pool_inv lp" using ok by (simp add: pool_ok_def)
  obtain st lp' where d: "deleteData lp a = Some (st, lp')" "pool_inv lp'"
    "if valid_address lp a then st = RETURN_OK \<and> pool_abs lp' = (pool_abs lp)(a := None) else st = ILLEGAL_STORAGE_ID \<and> lp' = lp"
    using deleteData_spec[OF inv, of a] ok by (auto simp: pool_ok_def valid_address_def)
  note c = deleteData_config[OF d(1)]
  have v: "valid_address lp' a = valid_address lp a" using c by (simp add: valid_address_def)
  have "getData lp' b = getData lp b" if "pool_abs lp' b = pool_abs lp b" for b
    using getData_config[OF inv d(2) _ _ that] c by simp
  moreover have "pool_ok lp'" using ok d(2) c by (auto simp: pool_ok_def)
  ultimately show ?thesis using d getData_abs[OF d(2), of a] v
    by (intro exI[of _ st] exI[of _ lp']) (auto split: if_splits)
qed

lemma pool_delete_isolated_witness:
  "\<exists>lp'. deleteData (newLocalPool [4] [2] False) \<lparr>pool_index = 0, packet_index = 1\<rparr> = Some (RETURN_OK, lp') \<and> pool_ok lp'"
proof -
  have "pool_ok (newLocalPool [4] [2] False)"
    using pool_inv_new(1)[of "[4]" "[2]" False] by (simp add: pool_ok_def newLocalPool_def)
  from pool_delete_isolated[OF this, of "\<lparr>pool_index = 0, packet_index = 1\<rparr>"]
  show ?thesis by (auto simp: valid_address_def newLocalPool_def)
qed

text \<open>
  In a larger block the 16-bit position wraps: deleting an element that starts 65536 bytes behind
  another one in use wipes that one. Its data reads as zeros afterwards, with result \<open>RETURN_OK\<close>.
\<close>

theorem pool_delete_wipes_other:
  assumes inv: "pool_inv lp" and a: "valid_address lp a" and b: "valid_address lp b" "slot_size lp b \<noteq> STORAGE_FREE"
    and same: "pool_index b = pool_index a" and wrap: "getRawPosition lp a = getRawPosition lp b + 65536"
    and low: "getRawPosition lp b < 65536" and page: "element_sizes lp ! pool_index a \<noteq> 0"
  shows "\<exists>lp'. deleteData lp a = Some (RETURN_OK, lp')
     \<and> getData lp' b = (RETURN_OK, Some (replicate (unat (slot_size lp b)) 0))"
proof -
  let ?e = "element_sizes lp ! pool_index a"
  have pos: "getRawPosition lp a mod 65536 = getRawPosition lp b" using wrap low by simp
  obtain blk where blk: "mem_copy (pool_store lp ! pool_index a) (getRawPosition lp b) (replicate ?e 0) ?e = Some blk"
    using slot_fits(1)[OF inv b(1)] same by (simp add: mem_copy_def)
  let ?sl = "(size_list lp)[pool_index a := (size_list lp ! pool_index a)[packet_index a := STORAGE_FREE]]"
  let ?lp' = "lp\<lparr>pool_store := (pool_store lp)[pool_index a := blk], size_list := ?sl\<rparr>"
  have d: "deleteData lp a = Some (RETURN_OK, ?lp')"
    using a page blk pos by (simp add: deleteData_def getPageSize_def valid_address_def Let_def)
  have i: "pool_index a < length (pool_store lp)" "pool_index a < length (size_list lp)"
    using inv a by (auto simp: pool_inv_def valid_address_def)
  have ne: "packet_index b \<noteq> packet_index a" using wrap same by (auto simp: getRawPosition_def)
  have s: "slot_size ?lp' b = slot_size lp b" using i same ne by (simp add: slot_size_def)
  have le: "unat (slot_size lp b) \<le> ?e" using slot_fits(2)[OF inv b] same by simp
  have "take ?e (drop (getRawPosition lp b) blk) = replicate ?e 0"
    using mem_read_copy[OF blk] by (auto simp: mem_read_def split: if_splits)
  then have "take (unat (slot_size lp b)) (take ?e (drop (getRawPosition lp b) blk)) = replicate (unat (slot_size lp b)) 0"
    using le by (metis take_replicate min.absorb1)
  then have "take (unat (slot_size lp b)) (drop (getRawPosition lp b) blk) = replicate (unat (slot_size lp b)) 0"
    using le by (simp add: min.absorb1)
  moreover have "getRawPosition lp b + unat (slot_size lp b) \<le> length blk"
    using slot_fits(1)[OF inv b(1)] le same length_mem_copy[OF blk] by simp
  ultimately have "mem_read (pool_store ?lp' ! pool_index b) (getRawPosition ?lp' b) (unat (slot_size lp b))
      = Some (replicate (unat (slot_size lp b)) 0)"
    using i same by (simp add: mem_read_def getRawPosition_def)
  moreover have "valid_address ?lp' b" using b(1) by (simp add: valid_address_def)
  ultimately have "getData ?lp' b = (RETURN_OK, Some (replicate (unat (slot_size lp b)) 0))"
    using b(2) by (simp add: getData_def modifyData_cases s)
  with d show ?thesis by blast
qed

definition wrapping_pool :: local_pool where
  "wrapping_pool = (newLocalPool [32768] [3] False)
     \<lparr>pool_store := [[1, 2, 3, 4] @ replicate 98300 0], size_list := [[4, STORAGE_FREE, 4]]\<rparr>"

lemma pool_delete_wipes_other_witness:
  "snd (getData wrapping_pool \<lparr>pool_index = 0, packet_index = 0\<rparr>) = Some [1, 2, 3, 4]
   \<and> (\<exists>lp'. deleteData wrapping_pool \<lparr>pool_index = 0, packet_index = 2\<rparr> = Some (RETURN_OK, lp')
        \<and> snd (getData lp' \<lparr>pool_index = 0, packet_index = 0\<rparr>) = Some [0, 0, 0, 0])"
proof -
  have inv: "pool_inv wrapping_pool"
    by (auto simp: pool_inv_def wrapping_pool_def newLocalPool_def STORAGE_FREE_def less_Suc_eq numeral_3_eq_3)
  have s: "slot_size wrapping_pool \<lparr>pool_index = 0, packet_index = 0\<rparr> = 4" "valid_address wrapping_pool \<lparr>pool_index = 0, packet_index = 0\<rparr>"
    "valid_address wrapping_pool \<lparr>pool_index = 0, packet_index = 2\<rparr>"
    by (simp_all add: slot_size_def valid_address_def wrapping_pool_def newLocalPool_def)
  have g: "snd (getData wrapping_pool \<lparr>pool_index = 0, packet_index = 0\<rparr>) = Some [1, 2, 3, 4]"
    using s by (simp add: getData_def modifyData_cases STORAGE_FREE_def mem_read_def getRawPosition_def)
      (simp add: wrapping_pool_def newLocalPool_def)
  have e: "element_sizes wrapping_pool = [32768]" by (simp add: wrapping_pool_def newLocalPool_def)
  have "\<exists>lp'. deleteData wrapping_pool \<lparr>pool_index = 0, packet_index = 2\<rparr> = Some (RETURN_OK, lp')
        \<and> getData lp' \<lparr>pool_index = 0, packet_index = 0\<rparr> = (RETURN_OK, Some (replicate (unat (slot_size wrapping_pool \<lparr>pool_index = 0, packet_index = 0\<rparr>)) 0))"
    by (rule pool_delete_wipes_other[OF inv]) (simp_all add: s e getRawPosition_def STORAGE_FREE_def)
  moreover have "unat (4 :: u32) = Suc (Suc (Suc (Suc 0)))" by simp
  then have "replicate (unat (4 :: u32)) 0 = [0, 0, 0, 0 :: u8]" by (simp only: replicate.simps)
  ultimately show ?thesis using g s(1) by auto
qed

text \<open>
  With spilling to higher pools, reserving fails exactly when no pool with large enough elements has
  a free one; without, exactly when the first pool with large enough elements is full or there is none.
\<close>

theorem reserve_fails_iff_full:
  "fst (reserveSpace lp sz a ig) \<noteq> RETURN_OK \<longleftrightarrow>
     (if spillsToHigherPools lp
      then \<forall>j < NUMBER_OF_POOLS lp. sz \<le> element_sizes lp ! j \<longrightarrow> findEmpty lp j = None
      else \<forall>j < NUMBER_OF_POOLS lp. (\<forall>k < j. element_sizes lp ! k < sz) \<longrightarrow> sz \<le> element_sizes lp ! j \<longrightarrow> findEmpty lp j = None)"
    (is "?fail \<longleftrightarrow> ?full")
proof
  obtain st a' lp' where r: "reserveSpace lp sz a ig = (st, a', lp')" by (cases "reserveSpace lp sz a ig") auto
  show "?fail \<Longrightarrow> ?full" using reserveSpace_spec(3,4)[OF r] r by (auto simp: pool_full_def)
next
  obtain st a' lp' where r: "reserveSpace lp sz a ig = (st, a', lp')" by (cases "reserveSpace lp sz a ig") auto
  assume full: ?full
  show ?fail
  proof (cases "getPoolIndex lp sz 0")
    case None
    then show ?thesis by (simp add: reserveSpace_def)
  next
    case (Some i)
    note g = getPoolIndex_Some[OF Some]
    have i: "findEmpty lp i = None" using full g by (auto split: if_splits)
    have "st \<noteq> RETURN_OK"
    proof
      assume ok: "st = RETURN_OK"
      then have free: "free_slot lp sz a'" using reserveSpace_spec(1)[OF r] by simp
      show False
      proof (cases "spillsToHigherPools lp")
        case True
        then have "findEmpty lp (pool_index a') = None" using full free by (auto simp: free_slot_def valid_address_def)
        then show False using free by (auto simp: findEmpty_None free_slot_def valid_address_def slot_size_def)
      next
        case False
        then show False using r ok Some i by (simp add: reserveSpace_def Let_def spill_loop.simps)
      qed
    qed
    with r show ?thesis by simp
  qed
qed

theorem reserve_fails_iff_full_witness:
  "fst (reserveSpace (newLocalPool [4, 8] [1, 0] True) 5 INVALID_ADDRESS False) \<noteq> RETURN_OK"
proof -
  have "findEmpty (newLocalPool [4, 8] [1, 0] True) 1 = None"
    unfolding findEmpty_None by (simp add: newLocalPool_def)
  moreover have "NUMBER_OF_POOLS (newLocalPool [4, 8] [1, 0] True) = 2" "element_sizes (newLocalPool [4, 8] [1, 0] True) = [4, 8]"
    "spillsToHigherPools (newLocalPool [4, 8] [1, 0] True)" by (simp_all add: newLocalPool_def)
  ultimately show ?thesis
    unfolding reserve_fails_iff_full by (auto simp: less_Suc_eq numeral_2_eq_2)
qed

end
