(* ===== verification/PacketStored.thy ===== *)
theory PacketStored
  imports PusPackets LocalPool
begin

text \<open>
  Packets that live in a packet store, \<open>fsfw/tmtcpacket/pus/TcPacketStored.cpp\<close> and
  \<open>TmPacketStored.cpp\<close>. A packet object has a store address and a data pointer; the store is a
  \<open>LocalPool\<close> and the packet is built in place, in the element that \<open>getFreeElement\<close> reserved. The static
  \<open>store\<close> pointer is set (\<open>checkAndSetStore\<close> succeeds); \<open>lostTm\<close> counts the reports to the internal
  error reporter. \<open>None\<close> is a write through a null pointer.
\<close>

record stored_packet =
  storeAddress :: store_address
  packet_ptr :: "(nat \<times> nat) option"

subsection \<open>Memory of a pool\<close>

definition pool_mem :: "local_pool \<Rightarrow> nat \<times> nat \<Rightarrow> bytes" where
  "pool_mem lp ptr = drop (snd ptr) (pool_store lp ! fst ptr)"

definition pool_put :: "local_pool \<Rightarrow> nat \<times> nat \<Rightarrow> bytes \<Rightarrow> local_pool" where
  "pool_put lp ptr p =
     lp\<lparr>pool_store := (pool_store lp)[fst ptr := take (snd ptr) (pool_store lp ! fst ptr) @ p]\<rparr>"

subsection \<open>Operations common to both classes\<close>

definition setStoreAddress :: "local_pool \<Rightarrow> store_address \<Rightarrow> stored_packet" where
  "setStoreAddress lp setAddress =
     (case modifyData lp setAddress of
        (status, Some (ptr, s)) \<Rightarrow> \<lparr>storeAddress = setAddress, packet_ptr = Some ptr\<rparr>
      | (status, None) \<Rightarrow> \<lparr>storeAddress = INVALID_ADDRESS, packet_ptr = None\<rparr>)"

definition deletePacket :: "local_pool \<Rightarrow> stored_packet \<Rightarrow> (u16 \<times> local_pool \<times> stored_packet) option" where
  "deletePacket lp sp =
     map_option (\<lambda>(result, lp'). (result, lp', \<lparr>storeAddress = INVALID_ADDRESS, packet_ptr = None\<rparr>))
       (deleteData lp (storeAddress sp))"

definition isSizeCorrect :: "local_pool \<Rightarrow> stored_packet \<Rightarrow> bool" where
  "isSizeCorrect lp sp =
     (case (modifyData lp (storeAddress sp), packet_ptr sp) of
        ((status, Some (ptr, temp_size)), Some p) \<Rightarrow> getFullSize (pool_mem lp p) = temp_size
      | _ \<Rightarrow> False)"

subsection \<open>Building a telecommand in the store\<close>

definition newTcPacketStored ::
  "local_pool \<Rightarrow> u16 \<Rightarrow> u8 \<Rightarrow> u8 \<Rightarrow> u8 \<Rightarrow> bytes \<Rightarrow> u8 \<Rightarrow> stored_packet \<times> local_pool" where
  "newTcPacketStored lp apid service subservice sequenceCount data ack =
     (case getFreeElement lp INVALID_ADDRESS (TC_PACKET_MIN_SIZE + length data) False of
        (returnValue, a, ptr, lp1) \<Rightarrow>
          (case ptr of
             None \<Rightarrow> (\<lparr>storeAddress = a, packet_ptr = None\<rparr>, lp1)
           | Some pData \<Rightarrow>
               let p0 = pool_mem lp1 pData;
                   p1 = initializeTcPacket p0 apid (ucast sequenceCount) ack service subservice;
                   p2 = put_bytes p1 TC_APP_DATA data;
                   p3 = setPacketDataLength p2 (of_nat (length data) + 4 + 2 - 1);
                   p4 = tc_setErrorControl p3
               in (\<lparr>storeAddress = a, packet_ptr = Some pData\<rparr>, pool_put lp1 pData p4)))"

text \<open>The constructor that copies a given packet; it compares the packet's own size with \<open>size\<close>.\<close>

definition newTcPacketStored_copy ::
  "local_pool \<Rightarrow> bytes \<Rightarrow> (store_address \<times> bytes option \<times> local_pool) option" where
  "newTcPacketStored_copy lp data =
     (if getFullSize data \<noteq> length data then Some (INVALID_ADDRESS, Some data, lp)
      else map_option (\<lambda>(status, a, lp'). (a, if status \<noteq> RETURN_OK then None else Some data, lp'))
             (addData lp INVALID_ADDRESS data False))"

subsection \<open>Building a telemetry packet in the store\<close>

definition newTmPacketStored ::
  "(bytes \<Rightarrow> bytes) option \<Rightarrow> local_pool \<Rightarrow> nat \<Rightarrow> u16 \<Rightarrow> u8 \<Rightarrow> u8 \<Rightarrow> bytes \<Rightarrow> bytes \<Rightarrow> stored_packet \<times> local_pool \<times> nat" where
  "newTmPacketStored timeStamper lp lostTm apid service subservice data headerData =
     (case getFreeElement lp INVALID_ADDRESS (TM_PACKET_MIN_SIZE + length data + length headerData) False of
        (returnValue, a, ptr, lp1) \<Rightarrow>
          (case ptr of
             None \<Rightarrow> (\<lparr>storeAddress = a, packet_ptr = None\<rparr>, lp1, lostTm + 1)
           | Some pData \<Rightarrow>
               let p0 = pool_mem lp1 pData;
                   p1 = initializeTmPacket timeStamper p0 apid service subservice;
                   p2 = put_bytes p1 TM_SOURCE_DATA headerData;
                   p3 = put_bytes p2 (TM_SOURCE_DATA + length headerData) data;
                   p4 = setPacketDataLength p3 (of_nat (length data + length headerData) + 9 + 2 - 1)
               in (\<lparr>storeAddress = a, packet_ptr = Some pData\<rparr>, pool_put lp1 pData p4, lostTm)))"

text \<open>
  The constructor with serialisable content and header, given by what their \<open>serialize\<close> puts into the
  source data. It reports a failed reservation but goes on with the null pointer.
\<close>

definition newTmPacketStored_serialize ::
  "(bytes \<Rightarrow> bytes) option \<Rightarrow> local_pool \<Rightarrow> nat \<Rightarrow> u16 \<Rightarrow> u8 \<Rightarrow> u8 \<Rightarrow> bytes option \<Rightarrow> bytes option
     \<Rightarrow> (stored_packet \<times> local_pool \<times> nat) option" where
  "newTmPacketStored_serialize timeStamper lp lostTm apid service subservice content header =
     (let bytes_of = (\<lambda>c. case c of None \<Rightarrow> [] | Some b \<Rightarrow> b);
          sourceDataSize = length (bytes_of content) + length (bytes_of header)
      in case getFreeElement lp INVALID_ADDRESS (TM_PACKET_MIN_SIZE + sourceDataSize) False of
        (returnValue, a, ptr, lp1) \<Rightarrow>
          (case ptr of
             None \<Rightarrow> None
           | Some pData \<Rightarrow>
               let p0 = pool_mem lp1 pData;
                   p1 = initializeTmPacket timeStamper p0 apid service subservice;
                   p2 = put_bytes p1 TM_SOURCE_DATA (bytes_of header @ bytes_of content);
                   p3 = setPacketDataLength p2 (of_nat sourceDataSize + 9 + 2 - 1)
               in Some (\<lparr>storeAddress = a, packet_ptr = Some pData\<rparr>, pool_put lp1 pData p3, lostTm)))"

text \<open>\<open>sendPacket\<close>; \<open>send\<close> is the message queue's answer to the message with the store address.\<close>

definition sendPacket ::
  "(store_address \<Rightarrow> u16) \<Rightarrow> local_pool \<Rightarrow> nat \<Rightarrow> stored_packet \<Rightarrow> bool \<Rightarrow> (u16 \<times> local_pool \<times> nat \<times> stored_packet) option" where
  "sendPacket send lp lostTm sp doErrorReporting =
     (if packet_ptr sp = None then Some (RETURN_FAILED, lp, lostTm, sp)
      else
        let result = send (storeAddress sp) in
        if result \<noteq> RETURN_OK then
          map_option (\<lambda>(_, lp', sp'). (result, lp', if doErrorReporting then lostTm + 1 else lostTm, sp'))
            (deletePacket lp sp)
        else Some (RETURN_OK, lp, lostTm, sp))"

subsection \<open>The packet in the store\<close>

lemma tc_fields_cong:
  assumes "\<And>i. i < 9 \<Longrightarrow> p ! i = q ! i"
  shows "isTelecommand p = isTelecommand q" "hasSecondaryHeader p = hasSecondaryHeader q" "getAPID p = getAPID q"
    "getPacketSequenceCount p = getPacketSequenceCount q" "getSequenceFlags p = getSequenceFlags q"
    "getPacketDataLength p = getPacketDataLength q" "getPacketVersionNumber p = getPacketVersionNumber q"
    "tc_getService p = tc_getService q" "tc_getSubService p = tc_getSubService q"
    "getAcknowledgeFlags p = getAcknowledgeFlags q" "getPusVersionNumber p = getPusVersionNumber q"
    "getFullSize p = getFullSize q" "getSecondaryHeaderFlag p = getSecondaryHeaderFlag q"
  using assms by (simp_all add: layout getFullSize_def)

lemma setPacketDataLength_nth: "6 \<le> i \<Longrightarrow> setPacketDataLength p n ! i = p ! i"
  by (simp add: setPacketDataLength_def)

lemma tc_build_in_place:
  fixes apid seq ack sv sub
  assumes len: "12 + n \<le> length p0" and n: "length data = n" "n < 65524"
  defines "p1 \<equiv> initializeTcPacket p0 apid seq ack sv sub"
  defines "p3 \<equiv> setPacketDataLength (put_bytes p1 TC_APP_DATA data) (of_nat n + 4 + 2 - 1)"
  defines "q \<equiv> tc_setErrorControl p3"
  shows "length q = length p0" "drop (12 + n) q = drop (12 + n) p0" "crc16 (take (12 + n) q) = 0"
    "getFullSize q = 12 + n" "take n (drop 10 q) = data"
    "isTelecommand q" "getAPID q = take_bit 11 apid" "getPacketSequenceCount q = seq mod LIMIT_SEQUENCE_COUNT"
    "tc_getService q = sv" "tc_getSubService q = sub" "getAcknowledgeFlags q = take_bit 4 ack" "getPusVersionNumber q = 1"
    "hasSecondaryHeader q" "getPacketVersionNumber q = 0" "getSecondaryHeaderFlag q = 0"
proof -
  have l10: "10 \<le> length p0" using len by simp
  note f1 = initializeTcPacket_fields[OF l10, of apid seq ack sv sub, folded p1_def]
  let ?p2 = "put_bytes p1 TC_APP_DATA data"
  have l1: "length p1 = length p0" using f1(1) .
  have l2: "length ?p2 = length p0" using len n l1 by (simp add: put_bytes_def pus_sizes)
  have i2: "?p2 ! i = p1 ! i" if "i < 10" for i
    using that l1 l10 by (simp add: put_bytes_def pus_sizes nth_append)
  note f2 = tc_fields_cong[of ?p2 p1, OF i2, simplified]
  have app2: "take n (drop 10 ?p2) = data" using l1 l10 n by (simp add: put_bytes_def pus_sizes)
  have rest2: "drop (12 + n) ?p2 = drop (12 + n) p0"
  proof -
    have "drop (12 + n) ?p2 = drop 2 (drop (10 + n) ?p2)" by (simp add: add.commute)
    also have "drop (10 + n) ?p2 = drop (10 + n) p1" using l1 l10 n by (simp add: put_bytes_def pus_sizes)
    also have "drop 2 (drop (10 + n) p1) = drop (2 + n) (drop 10 p1)" by (simp add: add.commute add.left_commute)
    finally show ?thesis using f1(14) by (simp add: add.commute add.left_commute)
  qed
  have l6: "6 \<le> length ?p2" using l2 l10 by simp
  have l3: "length p3 = length p0" using l2 by (simp add: p3_def)
  have dl: "getPacketDataLength p3 = of_nat n + 4 + 2 - 1" using l6 by (simp add: p3_def)
  have dl': "(of_nat n + 4 + 2 - 1 :: u16) = of_nat (n + 5)" by simp
  have udl: "unat (getPacketDataLength p3) = n + 5"
    unfolding dl dl' using n(2) by (simp only: unsigned_of_nat) (simp add: take_bit_nat_eq_self)
  then have full: "getFullSize p3 = 12 + n" by (simp add: getFullSize_def pus_sizes)
  have ge5: "5 \<le> getPacketDataLength p3" using udl by (simp add: word_le_nat_alt)
  have fl: "getFullSize p3 \<le> length p3" "6 \<le> length p3" using full len l3 l10 by simp_all
  note c = tc_setErrorControl_closes[OF ge5 fl, folded q_def, unfolded full]
  have h3: "p3 ! i = ?p2 ! i" if "6 \<le> i" for i using that by (simp add: p3_def setPacketDataLength_nth)
  have rest3: "drop 6 p3 = drop 6 ?p2" unfolding p3_def using setPacketDataLength_other(2)[OF l6] .
  have i4: "q ! i = p3 ! i" if "i < 9" for i
  proof -
    have "q ! i = take (12 + n - 2) q ! i" using that by simp
    also have "\<dots> = p3 ! i" unfolding c(1) using that by simp
    finally show ?thesis .
  qed
  note f4 = tc_fields_cong[of q p3, OF i4, simplified]
  have hdr3: "isTelecommand p3 = isTelecommand ?p2" "hasSecondaryHeader p3 = hasSecondaryHeader ?p2"
    "getAPID p3 = getAPID ?p2" "getPacketSequenceCount p3 = getPacketSequenceCount ?p2"
    "getPacketVersionNumber p3 = getPacketVersionNumber ?p2"
    using setPacketDataLength_other_fields[OF l6] by (simp_all add: p3_def)
  have sec3: "tc_getService p3 = tc_getService ?p2" "tc_getSubService p3 = tc_getSubService ?p2"
    "getAcknowledgeFlags p3 = getAcknowledgeFlags ?p2" "getPusVersionNumber p3 = getPusVersionNumber ?p2"
    "getSecondaryHeaderFlag p3 = getSecondaryHeaderFlag ?p2"
    by (simp_all add: tc_getService_def tc_getSubService_def getAcknowledgeFlags_def getPusVersionNumber_def
        getSecondaryHeaderFlag_def h3)
  show "length q = length p0" using c(3) l3 by simp
  have r3: "drop (12 + n) p3 = drop (12 + n) p0"
  proof -
    have "drop (12 + n) p3 = drop (6 + n) (drop 6 p3)" by (simp add: add.commute add.left_commute)
    also have "\<dots> = drop (12 + n) ?p2" unfolding rest3 by (simp add: add.commute add.left_commute)
    finally show ?thesis using rest2 by simp
  qed
  then show "drop (12 + n) q = drop (12 + n) p0" using c(2) by simp
  show "crc16 (take (12 + n) q) = 0" using c(4) .
  show "getFullSize q = 12 + n" using c(5) .
  have "take n (drop 10 q) = drop 10 (take (10 + n) q)" by (simp add: take_drop add.commute)
  also have "\<dots> = drop 10 (take (10 + n) p3)" using c(1) by simp
  also have "\<dots> = take n (drop 10 p3)" by (simp add: take_drop add.commute)
  also have "drop 10 p3 = drop 4 (drop 6 p3)" by simp
  also have "\<dots> = drop 10 ?p2" unfolding rest3 by simp
  finally show "take n (drop 10 q) = data" using app2 by simp
  show "isTelecommand q" "getAPID q = take_bit 11 apid" "getPacketSequenceCount q = seq mod LIMIT_SEQUENCE_COUNT"
    "tc_getService q = sv" "tc_getSubService q = sub" "getAcknowledgeFlags q = take_bit 4 ack" "getPusVersionNumber q = 1"
    "hasSecondaryHeader q" "getPacketVersionNumber q = 0" "getSecondaryHeaderFlag q = 0"
    using f1 f2 f4 hdr3 sec3 by simp_all
qed

text \<open>A packet of \<open>n\<close> bytes put into the element reserved for it.\<close>

lemma put_in_reserved:
  assumes inv: "pool_inv lp" and r: "getFreeElement lp a0 n ig = (st, a, Some ptr, lp1)" and n: "n < 2 ^ 32"
    and len: "length p = length (pool_mem lp1 ptr)" and rest: "drop n p = drop n (pool_mem lp1 ptr)"
  shows "pool_inv (pool_put lp1 ptr p)" "pool_abs (pool_put lp1 ptr p) = (pool_abs lp)(a \<mapsto> take n p)"
    "pool_abs lp a = None" "modifyData (pool_put lp1 ptr p) a = (RETURN_OK, Some (ptr, n))"
    "pool_mem (pool_put lp1 ptr p) ptr = p"
proof -
  have m: "n mod 2 ^ 32 = n" using n by simp
  obtain r': "reserveSpace lp n a0 ig = (RETURN_OK, a, lp1)" and ptr0: "ptr = (pool_index a, getRawPosition lp1 a)"
    using r unfolding getFreeElement_def m by (auto split: prod.splits if_splits)
  let ?sl = "(size_list lp)[pool_index a := (size_list lp ! pool_index a)[packet_index a := of_nat n]]"
  have free: "free_slot lp n a" and l1: "lp1 = lp\<lparr>size_list := ?sl\<rparr>"
    using reserveSpace_spec(1)[OF r'] by auto
  have ptr: "ptr = (pool_index a, getRawPosition lp a)" using ptr0 by (simp add: l1 getRawPosition_def)
  have v: "valid_address lp a" "n \<le> element_sizes lp ! pool_index a" using free by (auto simp: free_slot_def)
  have small: "n < 65536" using free_slot_small[OF inv free] .
  let ?blk = "pool_store lp ! pool_index a" and ?pos = "getRawPosition lp a"
  have fit: "?pos + n \<le> length ?blk" using slot_fits(1)[OF inv v(1)] v(2) by simp
  have mem: "pool_mem lp1 ptr = drop ?pos ?blk" by (simp add: pool_mem_def ptr l1)
  have np: "n \<le> length p" using len fit by (simp add: mem)
  have "take ?pos ?blk @ p = take ?pos ?blk @ take n p @ drop n p" by simp
  also have "drop n p = drop (?pos + n) ?blk" unfolding rest mem by (simp add: add.commute)
  finally have blk: "mem_copy ?blk ?pos p n = Some (take ?pos ?blk @ p)"
    using fit np by (simp add: mem_copy_def)
  have put: "pool_put lp1 ptr p = lp\<lparr>pool_store := (pool_store lp)[pool_index a := take ?pos ?blk @ p], size_list := ?sl\<rparr>"
    by (simp add: pool_put_def ptr l1)
  note u = slot_update[OF inv v(1) v(2) np blk _ put] small_not_free[OF small]
  then show "pool_inv (pool_put lp1 ptr p)" "pool_abs (pool_put lp1 ptr p) = (pool_abs lp)(a \<mapsto> take n p)" by simp_all
  show "pool_abs lp a = None" using free_slot_abs[OF free] .
  have i: "pool_index a < length (size_list lp)" "packet_index a < length (size_list lp ! pool_index a)"
    using inv v(1) by (auto simp: pool_inv_def valid_address_def)
  have "pool_index a < length (pool_store lp)" using inv v(1) by (auto simp: pool_inv_def valid_address_def)
  then show "pool_mem (pool_put lp1 ptr p) ptr = p"
    using fit unfolding pool_mem_def put by (simp add: ptr)
  have "slot_size (pool_put lp1 ptr p) a = of_nat n" "valid_address (pool_put lp1 ptr p) a"
    "getRawPosition (pool_put lp1 ptr p) a = ?pos"
    using i v(1) by (simp_all add: put slot_size_def valid_address_def getRawPosition_def)
  then show "modifyData (pool_put lp1 ptr p) a = (RETURN_OK, Some (ptr, n))"
    using small_not_free[OF small] by (simp add: modifyData_cases ptr)
qed

lemma getFreeElement_len:
  assumes inv: "pool_inv lp" and r: "getFreeElement lp a0 n ig = (st, a, Some ptr, lp1)" and n: "n < 2 ^ 32"
  shows "n \<le> length (pool_mem lp1 ptr)" "n < 65536"
proof -
  have m: "n mod 2 ^ 32 = n" using n by simp
  obtain r': "reserveSpace lp n a0 ig = (RETURN_OK, a, lp1)" and ptr0: "ptr = (pool_index a, getRawPosition lp1 a)"
    using r unfolding getFreeElement_def m by (auto split: prod.splits if_splits)
  have free: "free_slot lp n a" and l1: "pool_store lp1 = pool_store lp" "element_sizes lp1 = element_sizes lp"
    using reserveSpace_spec(1)[OF r'] by auto
  then have "valid_address lp a" "n \<le> element_sizes lp ! pool_index a" by (auto simp: free_slot_def)
  then show "n \<le> length (pool_mem lp1 ptr)"
    using slot_fits(1)[OF inv, of a] by (simp add: pool_mem_def ptr0 l1 getRawPosition_def)
  show "n < 65536" using free_slot_small[OF inv free] .
qed

lemma tc_built_in_store:
  assumes inv: "pool_inv lp" and len: "length data < 2 ^ 31"
    and new: "newTcPacketStored lp apid service subservice seq data ack = (sp, lp')" and ok: "packet_ptr sp \<noteq> None"
  shows "\<exists>q. getData lp' (storeAddress sp) = (RETURN_OK, Some q) \<and> pool_inv lp'
     \<and> length q = 12 + length data \<and> getFullSize q = length q \<and> crc16 q = 0
     \<and> isTelecommand q \<and> getAPID q = take_bit 11 apid \<and> getPacketSequenceCount q = ucast seq
     \<and> tc_getService q = service \<and> tc_getSubService q = subservice \<and> getAcknowledgeFlags q = take_bit 4 ack
     \<and> hasSecondaryHeader q \<and> getPacketVersionNumber q = 0 \<and> getSecondaryHeaderFlag q = 0 \<and> getPusVersionNumber q = 1
     \<and> take (length data) (getApplicationData q) = data \<and> isSizeCorrect lp' sp
     \<and> sp = setStoreAddress lp' (storeAddress sp)
     \<and> (\<forall>b. b \<noteq> storeAddress sp \<longrightarrow> pool_abs lp' b = pool_abs lp b)"
proof -
  let ?n = "length data"
  have sz: "TC_PACKET_MIN_SIZE + ?n = 12 + ?n" by (simp add: pus_sizes)
  obtain st a ptr lp1 where r: "getFreeElement lp INVALID_ADDRESS (12 + ?n) False = (st, a, ptr, lp1)"
    by (cases "getFreeElement lp INVALID_ADDRESS (12 + ?n) False") auto
  then obtain pd where pd: "ptr = Some pd" using new ok by (auto simp: newTcPacketStored_def sz split: option.splits)
  have n32: "12 + ?n < 2 ^ 32" using len by simp
  note l = getFreeElement_len[OF inv r[unfolded pd] n32]
  have n: "?n < 65524" using l(2) by simp
  let ?p1 = "initializeTcPacket (pool_mem lp1 pd) apid (ucast seq) ack service subservice"
  define q where "q = tc_setErrorControl (setPacketDataLength (put_bytes ?p1 TC_APP_DATA data) (of_nat ?n + 4 + 2 - 1))"
  note b = tc_build_in_place[OF l(1) refl n, of apid "ucast seq" ack service subservice, folded q_def]
  have sp: "sp = \<lparr>storeAddress = a, packet_ptr = Some pd\<rparr>" and lp': "lp' = pool_put lp1 pd q"
    using new by (simp_all add: newTcPacketStored_def sz r pd Let_def q_def)
  note p = put_in_reserved[OF inv r[unfolded pd] n32 b(1,2), folded lp']
  let ?r = "take (12 + ?n) q"
  have g: "getData lp' a = (RETURN_OK, Some ?r)" using p(2) by (simp add: getData_abs[OF p(1)])
  have lr: "length ?r = 12 + ?n" using l(1) b(1) by simp
  have ri: "?r ! i = q ! i" if "i < 9" for i using that by simp
  note f = tc_fields_cong[of ?r q, OF ri, simplified]
  have "getFullSize (pool_mem lp' pd) = 12 + ?n" using p(5) b(4) by simp
  then have size: "isSizeCorrect lp' sp" using p(4) by (simp add: isSizeCorrect_def sp)
  have sq: "ucast seq mod LIMIT_SEQUENCE_COUNT = (ucast seq :: u16)"
    by (rule iffD2[OF word_unat_eq_iff]) (simp add: LIMIT_SEQUENCE_COUNT_def unat_mod order.strict_trans[OF unat_u8_less])
  have app: "take ?n (getApplicationData ?r) = data"
    using b(5) lr by (simp add: getApplicationData_def pus_sizes drop_take min_def)
  have other: "\<forall>c. c \<noteq> storeAddress sp \<longrightarrow> pool_abs lp' c = pool_abs lp c" using p(2) by (simp add: sp)
  have a: "storeAddress sp = a" by (simp add: sp)
  have props: "getFullSize ?r = length ?r" "crc16 ?r = 0" "isTelecommand ?r" "getAPID ?r = take_bit 11 apid"
    "getPacketSequenceCount ?r = ucast seq" "tc_getService ?r = service" "tc_getSubService ?r = subservice"
    "getAcknowledgeFlags ?r = take_bit 4 ack" "hasSecondaryHeader ?r" "getPacketVersionNumber ?r = 0"
    "getSecondaryHeaderFlag ?r = 0" "getPusVersionNumber ?r = 1"
    using f b(3,4,6-15) lr sq by (simp_all only:)
  have addr: "sp = setStoreAddress lp' a" using p(4) by (simp add: sp setStoreAddress_def)
  show ?thesis unfolding a
    using props size app g p(1) lr addr other[unfolded a] by blast
qed

text \<open>
  A telecommand built in the store: when the constructor got an element, reading the store at the
  packet's address gives a packet of the full size with the given APID, service, subservice, sequence
  count, acknowledge flags and application data, whose CRC check succeeds and whose size field agrees with
  the store's; the rest of the store reads as before.
\<close>

theorem tc_stored_packet:
  assumes inv: "pool_inv lp" and len: "length data < 2 ^ 31"
    and new: "newTcPacketStored lp apid service subservice seq data ack = (sp, lp')" and ok: "packet_ptr sp \<noteq> None"
  shows "\<exists>q. getData lp' (storeAddress sp) = (RETURN_OK, Some q) \<and> pool_inv lp'
     \<and> length q = 12 + length data \<and> getFullSize q = length q \<and> crc16 q = 0
     \<and> isTelecommand q \<and> getAPID q = take_bit 11 apid \<and> getPacketSequenceCount q = ucast seq
     \<and> tc_getService q = service \<and> tc_getSubService q = subservice \<and> getAcknowledgeFlags q = take_bit 4 ack
     \<and> take (length data) (getApplicationData q) = data \<and> isSizeCorrect lp' sp
     \<and> (\<forall>b. b \<noteq> storeAddress sp \<longrightarrow> pool_abs lp' b = pool_abs lp b)"
  using tc_built_in_store[OF assms] by blast

lemma tc_stored_packet_witness:
  "\<exists>sp lp' q. newTcPacketStored (newLocalPool [8, 16] [4, 2] False) 0x73 17 1 5 [1, 2, 3] 0xF = (sp, lp')
     \<and> getData lp' (storeAddress sp) = (RETURN_OK, Some q) \<and> tc_getService q = 17 \<and> crc16 q = 0"
proof -
  let ?lp = "newLocalPool [8, 16] [4, 2] False"
  have inv: "pool_inv ?lp" by (rule pool_inv_new) simp_all
  have p: "getPoolIndex ?lp 15 0 = Some 1"
    by (simp add: getPoolIndex_def newLocalPool_def scan_index_rules)
  have e: "findEmpty ?lp (Suc 0) = Some 0"
    by (simp add: findEmpty_def newLocalPool_def scan_index_rules numeral_2_eq_2)
  have "packet_ptr (fst (newTcPacketStored ?lp 0x73 17 1 5 [1, 2, 3] 0xF)) \<noteq> None"
    by (simp add: newTcPacketStored_def pus_sizes getFreeElement_def reserveSpace_def p e spill_loop.simps Let_def)
  moreover obtain sp lp' where n: "newTcPacketStored ?lp 0x73 17 1 5 [1, 2, 3] 0xF = (sp, lp')"
    by (cases "newTcPacketStored ?lp 0x73 17 1 5 [1, 2, 3] 0xF") auto
  ultimately show ?thesis using tc_stored_packet[OF inv _ n] by auto
qed

text \<open>A failed reservation can leave the packet with an address that is not \<open>INVALID_ADDRESS\<close>.\<close>

lemma failed_packet_address:
  "let r = newTcPacketStored (newLocalPool [16] [0] False) 0x73 17 1 5 [] 0 in
   packet_ptr (fst r) = None \<and> storeAddress (fst r) = \<lparr>pool_index = 0, packet_index = 0xFFFF\<rparr>"
proof -
  let ?lp = "newLocalPool [16] [0] False"
  have p: "getPoolIndex ?lp 12 0 = Some 0" by (simp add: getPoolIndex_def newLocalPool_def scan_index_rules)
  have e: "findEmpty ?lp 0 = None" by (simp add: findEmpty_None newLocalPool_def)
  have "\<not> spillsToHigherPools ?lp" by (simp add: newLocalPool_def)
  moreover have "INVALID_ADDRESS\<lparr>pool_index := 0\<rparr> = \<lparr>pool_index = 0, packet_index = 0xFFFF\<rparr>"
    by (simp add: INVALID_ADDRESS_def store_address_of_raw_def)
  ultimately show ?thesis
    by (simp add: newTcPacketStored_def pus_sizes getFreeElement_def reserveSpace_def p e spill_loop.simps Let_def)
qed

subsection \<open>Telemetry in the store\<close>

lemma tm_fields_cong:
  assumes "\<And>i. i < 9 \<Longrightarrow> p ! i = q ! i"
  shows "tm_getService p = tm_getService q" "tm_getSubService p = tm_getSubService q"
  using assms by (simp_all add: layout)

text \<open>The stamper writes its six bytes and nothing behind them.\<close>

definition stamps :: "(bytes \<Rightarrow> bytes) option \<Rightarrow> bool" where
  "stamps timeStamper \<longleftrightarrow> (\<forall>f x. timeStamper = Some f \<longrightarrow> length (f x) = length x \<and> drop 6 (f x) = drop 6 x)"

lemma tm_build_in_place:
  fixes apid sv sub
  assumes len: "17 + n \<le> length p0" and n: "length data + length headerData = n" "n < 65519"
    and stamps: "stamps timeStamper"
  defines "p1 \<equiv> initializeTmPacket timeStamper p0 apid sv sub"
  defines "q \<equiv> setPacketDataLength (put_bytes (put_bytes p1 TM_SOURCE_DATA headerData) (TM_SOURCE_DATA + length headerData) data)
     (of_nat n + 9 + 2 - 1)"
  shows "length q = length p0" "drop (17 + n) q = drop (17 + n) p0" "getFullSize q = 17 + n"
    "take n (drop 15 q) = headerData @ data" "\<not> isTelecommand q" "hasSecondaryHeader q" "getAPID q = take_bit 11 apid"
    "tm_getService q = sv" "tm_getSubService q = sub"
proof -
  have stamp: "\<And>f x. timeStamper = Some f \<Longrightarrow> length (f x) = length x \<and> drop 6 (f x) = drop 6 x"
    using stamps by (simp add: stamps_def)
  have l15: "15 \<le> length p0" using len by simp
  have st: "\<forall>f. timeStamper = Some f \<longrightarrow> length (f (replicate 6 0 @ drop 15 p0)) = length p0 - 9"
    using stamp l15 by simp
  note f1 = initializeTmPacket_fields[of p0 timeStamper apid sv sub, OF l15 st, folded p1_def]
  have l1: "length p1 = length p0" using f1(1) by simp
  have d1: "drop 15 p1 = drop 15 p0"
  proof -
    have "drop 15 p1 = drop 6 (drop 9 p1)" by simp
    also have "\<dots> = drop 15 p0"
      using f1(10) stamp by (cases timeStamper) simp_all
    finally show ?thesis .
  qed
  let ?h = "length headerData" and ?d = "length data"
  let ?p2 = "put_bytes (put_bytes p1 TM_SOURCE_DATA headerData) (TM_SOURCE_DATA + ?h) data"
  have p2: "?p2 = take 15 p1 @ headerData @ data @ drop (15 + n) p1"
    using l1 l15 len n(1) by (simp add: put_bytes_def pus_sizes add.commute add.left_commute)
  have l2: "length ?p2 = length p0" using l1 len n(1) unfolding p2 by simp
  have l6: "6 \<le> length ?p2" using l2 l15 by simp
  have i2: "?p2 ! i = p1 ! i" if "i < 9" for i using that l1 l15 unfolding p2 by (simp add: nth_append)
  note f2 = tc_fields_cong[of ?p2 p1, OF i2, simplified] tm_fields_cong[of ?p2 p1, OF i2, simplified]
  have i3: "q ! i = ?p2 ! i" if "6 \<le> i" for i using that by (simp add: q_def setPacketDataLength_nth)
  have rest: "drop 6 q = drop 6 ?p2" unfolding q_def using setPacketDataLength_other(2)[OF l6] .
  show "length q = length p0" using l2 by (simp add: q_def)
  have "drop 15 q = drop 9 (drop 6 q)" by simp
  also have "\<dots> = headerData @ data @ drop (15 + n) p1" unfolding rest using l1 l15 unfolding p2 by simp
  finally have d15: "drop 15 q = headerData @ data @ drop (15 + n) p1" .
  then show "take n (drop 15 q) = headerData @ data" using n(1) by simp
  have "drop (17 + n) q = drop 2 (drop n (drop 15 q))" by (simp add: add.commute)
  also have "\<dots> = drop 2 (drop (15 + n) p1)" unfolding d15 using n(1) by simp
  also have "\<dots> = drop (2 + n) (drop 15 p1)" by (simp add: add.commute add.left_commute)
  finally show "drop (17 + n) q = drop (17 + n) p0" unfolding d1 by (simp add: add.commute add.left_commute)
  have dl: "getPacketDataLength q = of_nat n + 9 + 2 - 1" using l6 by (simp add: q_def)
  have dl': "(of_nat n + 9 + 2 - 1 :: u16) = of_nat (n + 10)" by simp
  have "unat (getPacketDataLength q) = n + 10"
    unfolding dl dl' using n(2) by (simp only: unsigned_of_nat) (simp add: take_bit_nat_eq_self)
  then show "getFullSize q = 17 + n" by (simp add: getFullSize_def pus_sizes)
  have hdr: "isTelecommand q = isTelecommand ?p2" "hasSecondaryHeader q = hasSecondaryHeader ?p2" "getAPID q = getAPID ?p2"
    using setPacketDataLength_other_fields[OF l6] by (simp_all add: q_def)
  show "\<not> isTelecommand q" "hasSecondaryHeader q" "getAPID q = take_bit 11 apid"
    using hdr f1 f2 by simp_all
  show "tm_getService q = sv" "tm_getSubService q = sub"
    using f1 f2 by (simp_all add: tm_getService_def tm_getSubService_def i3)
qed

definition tm_packet_of :: "bytes \<Rightarrow> u16 \<Rightarrow> u8 \<Rightarrow> u8 \<Rightarrow> bytes \<Rightarrow> bool" where
  "tm_packet_of q apid service subservice content \<longleftrightarrow> length q = 17 + length content \<and> getFullSize q = length q
     \<and> take (length content) (drop 15 q) = content \<and> \<not> isTelecommand q \<and> hasSecondaryHeader q
     \<and> getAPID q = take_bit 11 apid \<and> tm_getService q = service \<and> tm_getSubService q = subservice"

lemma tm_built_in_place:
  assumes inv: "pool_inv lp" and n: "length data + length headerData = n" "17 + n < 2 ^ 32" and st: "stamps timeStamper"
    and r: "getFreeElement lp INVALID_ADDRESS (17 + n) False = (s, a, Some pd, lp1)"
    and lp': "lp' = pool_put lp1 pd (setPacketDataLength (put_bytes (put_bytes (initializeTmPacket timeStamper (pool_mem lp1 pd) apid sv sub)
        TM_SOURCE_DATA headerData) (TM_SOURCE_DATA + length headerData) data) (of_nat n + 9 + 2 - 1))"
  shows "\<exists>q. pool_inv lp' \<and> pool_abs lp' = (pool_abs lp)(a \<mapsto> q) \<and> pool_abs lp a = None \<and> tm_packet_of q apid sv sub (headerData @ data)"
proof -
  note l = getFreeElement_len[OF inv r n(2)]
  have small: "n < 65519" using l(2) by simp
  define q where "q = setPacketDataLength (put_bytes (put_bytes (initializeTmPacket timeStamper (pool_mem lp1 pd) apid sv sub)
        TM_SOURCE_DATA headerData) (TM_SOURCE_DATA + length headerData) data) (of_nat n + 9 + 2 - 1)"
  note b = tm_build_in_place[OF l(1) n(1) small st, of apid sv sub, folded q_def]
  note p = put_in_reserved[OF inv r n(2) b(1,2), folded lp'[folded q_def]]
  let ?r = "take (17 + n) q"
  have ri: "?r ! i = q ! i" if "i < 9" for i using that by simp
  note f = tc_fields_cong[of ?r q, OF ri, simplified] tm_fields_cong[of ?r q, OF ri, simplified]
  have lr: "length ?r = 17 + n" using l(1) b(1) by simp
  have "length (headerData @ data) = n" using n(1) by simp
  moreover have "take n (drop 15 ?r) = headerData @ data" using b(4) by (simp add: drop_take min_def)
  ultimately have "tm_packet_of ?r apid sv sub (headerData @ data)"
    unfolding tm_packet_of_def using lr f b(3,5-9) by (simp only:) simp
  then show ?thesis using p(1-3) by blast
qed

lemma getFreeElement_config:
  "getFreeElement lp a0 n ig = (st, a, ptr, lp1) \<Longrightarrow> element_sizes lp1 = element_sizes lp \<and> n_elements lp1 = n_elements lp"
  by (auto simp: getFreeElement_def dest: reserveSpace_config split: prod.splits if_splits)

lemma getFreeElement_full:
  assumes "getFreeElement lp a0 n ig = (st, a, None, lp1)"
  shows "pool_abs lp1 = pool_abs lp" "pool_ok lp1 = pool_ok lp"
proof -
  obtain st' a' where r: "reserveSpace lp (n mod 2 ^ 32) a0 ig = (st', a', lp1)" "st' \<noteq> RETURN_OK"
    using assms by (auto simp: getFreeElement_def split: prod.splits if_splits)
  obtain k where k: "lp1 = lp\<lparr>storeFullReports := k\<rparr>" using reserveSpace_spec(2)[OF r] by blast
  show "pool_abs lp1 = pool_abs lp"
    by (simp add: k pool_abs_def fun_eq_iff valid_address_def slot_size_def getRawPosition_def)
  show "pool_ok lp1 = pool_ok lp" by (simp add: k pool_ok_def pool_inv_def)
qed

lemma tm_built_ok:
  assumes ok: "pool_ok lp" and n: "17 + length data + length headerData < 2 ^ 32" and st: "stamps timeStamper"
    and new: "newTmPacketStored timeStamper lp lost apid sv sub data headerData = (sp, lp', lost')"
  shows "pool_ok lp'"
    and "packet_ptr sp = None \<Longrightarrow> pool_abs lp' = pool_abs lp"
    and "packet_ptr sp \<noteq> None \<Longrightarrow> pool_abs lp (storeAddress sp) = None
      \<and> (\<exists>q. pool_abs lp' = (pool_abs lp)(storeAddress sp \<mapsto> q) \<and> tm_packet_of q apid sv sub (headerData @ data))"
proof -
  let ?n = "length data + length headerData"
  obtain s a ptr lp1 where r: "getFreeElement lp INVALID_ADDRESS (17 + ?n) False = (s, a, ptr, lp1)"
    by (cases "getFreeElement lp INVALID_ADDRESS (17 + ?n) False") auto
  have inv: "pool_inv lp" using ok by (simp add: pool_ok_def)
  have sz: "TM_PACKET_MIN_SIZE + length data + length headerData = 17 + ?n" by (simp add: pus_sizes)
  have all: "pool_ok lp' \<and> (packet_ptr sp = None \<longrightarrow> pool_abs lp' = pool_abs lp)
     \<and> (packet_ptr sp \<noteq> None \<longrightarrow> pool_abs lp (storeAddress sp) = None
      \<and> (\<exists>q. pool_abs lp' = (pool_abs lp)(storeAddress sp \<mapsto> q) \<and> tm_packet_of q apid sv sub (headerData @ data)))"
  proof (cases ptr)
    case None
    then show ?thesis using new r ok getFreeElement_full[of lp INVALID_ADDRESS "17 + ?n" False s a lp1]
      by (auto simp: newTmPacketStored_def sz)
  next
    case (Some pd)
    have sp: "sp = \<lparr>storeAddress = a, packet_ptr = Some pd\<rparr>"
      and lp': "lp' = pool_put lp1 pd (setPacketDataLength (put_bytes (put_bytes (initializeTmPacket timeStamper (pool_mem lp1 pd) apid sv sub)
        TM_SOURCE_DATA headerData) (TM_SOURCE_DATA + length headerData) data) (of_nat ?n + 9 + 2 - 1))"
      using new by (simp_all add: newTmPacketStored_def sz r Some Let_def)
    have n32: "17 + ?n < 2 ^ 32" using n by simp
    obtain q where q: "pool_inv lp'" "pool_abs lp' = (pool_abs lp)(a \<mapsto> q)" "pool_abs lp a = None" "tm_packet_of q apid sv sub (headerData @ data)"
      using tm_built_in_place[OF inv refl n32 st r[unfolded Some] lp'] by blast
    have "pool_ok lp'" using q(1) ok getFreeElement_config[OF r] unfolding lp' by (simp add: pool_ok_def pool_put_def split: prod.splits)
    then show ?thesis using q by (auto simp: sp)
  qed
  then show "pool_ok lp'" "packet_ptr sp = None \<Longrightarrow> pool_abs lp' = pool_abs lp"
    "packet_ptr sp \<noteq> None \<Longrightarrow> pool_abs lp (storeAddress sp) = None
      \<and> (\<exists>q. pool_abs lp' = (pool_abs lp)(storeAddress sp \<mapsto> q) \<and> tm_packet_of q apid sv sub (headerData @ data))" by blast+
qed

end
