(* ===== verification/Messages.thy ===== *)
theory Messages
  imports Serialize LocalPool Fifo
begin

text \<open>
  Messages and queues: \<open>fsfw/ipc/MessageQueueMessage.cpp\<close>, \<open>fsfw/ipc/CommandMessage.cpp\<close>,
  \<open>fsfw/tmtcservices/TmTcMessage.cpp\<close>, and the message queue of the host operating system
  abstraction, \<open>fsfw/osal/host/MessageQueue.cpp\<close> and \<open>QueueMapManager.cpp\<close>. A message is a buffer of
  28 bytes, the sender's queue id first, and its size. The lemmas give the fields of a message, the
  first-in-first-out order of a queue (it is a model of the queue interface of theory \<open>Fifo\<close>), and
  what a receiver learns of the sender.
\<close>

subsection \<open>MessageQueueMessage\<close>

definition MQ_HEADER_SIZE :: nat where "MQ_HEADER_SIZE = 4"
definition MAX_DATA_SIZE :: nat where "MAX_DATA_SIZE = 24"
definition MAX_MESSAGE_SIZE :: nat where "MAX_MESSAGE_SIZE = MAX_DATA_SIZE + MQ_HEADER_SIZE"

lemmas mq_sizes = MQ_HEADER_SIZE_def MAX_DATA_SIZE_def MAX_MESSAGE_SIZE_def

record mq_message =
  internalBuffer :: bytes
  messageSize :: nat

definition newMessage :: mq_message where
  "newMessage = \<lparr>internalBuffer = replicate MAX_MESSAGE_SIZE 0, messageSize = MQ_HEADER_SIZE\<rparr>"

text \<open>The constructor with data; \<open>raw\<close> is the uninitialised buffer.\<close>

definition newMessage_data :: "bytes \<Rightarrow> bytes \<Rightarrow> mq_message" where
  "newMessage_data raw data =
     (if length data \<le> MAX_DATA_SIZE
      then \<lparr>internalBuffer = put_bytes raw MQ_HEADER_SIZE data, messageSize = MQ_HEADER_SIZE + length data\<rparr>
      else \<lparr>internalBuffer = replicate MAX_MESSAGE_SIZE 0, messageSize = MQ_HEADER_SIZE\<rparr>)"

definition getSender :: "byte_order \<Rightarrow> mq_message \<Rightarrow> u32" where
  "getSender sys m = of_object_bytes sys (get_bytes (internalBuffer m) 0 4)"

definition setSender :: "byte_order \<Rightarrow> mq_message \<Rightarrow> u32 \<Rightarrow> mq_message" where
  "setSender sys m setId = m\<lparr>internalBuffer := put_bytes (internalBuffer m) 0 (object_bytes sys setId)\<rparr>"

definition message_clear :: "mq_message \<Rightarrow> mq_message" where
  "message_clear m = m\<lparr>internalBuffer := replicate MAX_MESSAGE_SIZE 0\<rparr>"

definition setMessageSize :: "mq_message \<Rightarrow> nat \<Rightarrow> mq_message" where
  "setMessageSize m sz = m\<lparr>messageSize := sz\<rparr>"

definition message_inv :: "mq_message \<Rightarrow> bool" where
  "message_inv m \<longleftrightarrow> length (internalBuffer m) = MAX_MESSAGE_SIZE"

subsection \<open>TmTcMessage\<close>

definition setStorageId :: "byte_order \<Rightarrow> mq_message \<Rightarrow> store_address \<Rightarrow> mq_message" where
  "setStorageId sys m store_id =
     m\<lparr>internalBuffer := put_bytes (internalBuffer m) MQ_HEADER_SIZE
        (object_bytes sys (of_nat (pool_index store_id) :: u16) @ object_bytes sys (of_nat (packet_index store_id) :: u16))\<rparr>"

definition getStorageId :: "byte_order \<Rightarrow> mq_message \<Rightarrow> store_address" where
  "getStorageId sys m =
     \<lparr>pool_index = unat (of_object_bytes sys (get_bytes (internalBuffer m) MQ_HEADER_SIZE 2) :: u16),
      packet_index = unat (of_object_bytes sys (get_bytes (internalBuffer m) (MQ_HEADER_SIZE + 2) 2) :: u16)\<rparr>"

definition newTmTcMessage :: "byte_order \<Rightarrow> store_address \<Rightarrow> mq_message" where
  "newTmTcMessage sys store_id = setStorageId sys (newMessage\<lparr>messageSize := messageSize newMessage + 4\<rparr>) store_id"

definition NO_QUEUE :: u32 where "NO_QUEUE = 0"

subsection \<open>CommandMessage\<close>

text \<open>Two bytes of command, then the parameters.\<close>

definition CMD_HEADER_SIZE :: nat where "CMD_HEADER_SIZE = MQ_HEADER_SIZE + 2"
definition MINIMUM_COMMAND_MESSAGE_SIZE :: nat where "MINIMUM_COMMAND_MESSAGE_SIZE = CMD_HEADER_SIZE + 2 + 2"
definition DEFAULT_COMMAND_MESSAGE_SIZE :: nat where "DEFAULT_COMMAND_MESSAGE_SIZE = MINIMUM_COMMAND_MESSAGE_SIZE + 3 * 4"

text \<open>\<open>CommandMessageIF\<close> has \<open>MESSAGE_ID\<close> 0 of \<open>messagetypes::COMMAND\<close>.\<close>

definition MAKE_COMMAND_ID :: "u8 \<Rightarrow> u8 \<Rightarrow> u16" where
  "MAKE_COMMAND_ID message_id number = push_bit 8 (ucast message_id) + ucast number"

definition CMD_NONE :: u16 where "CMD_NONE = 0"
definition REPLY_COMMAND_OK :: u16 where "REPLY_COMMAND_OK = 1"
definition REPLY_REJECTED :: u16 where "REPLY_REJECTED = 2"

definition getCommand :: "byte_order \<Rightarrow> mq_message \<Rightarrow> u16" where
  "getCommand sys m = of_object_bytes sys (get_bytes (internalBuffer m) MQ_HEADER_SIZE 2)"

definition setCommand :: "byte_order \<Rightarrow> mq_message \<Rightarrow> u16 \<Rightarrow> mq_message" where
  "setCommand sys m command = m\<lparr>internalBuffer := put_bytes (internalBuffer m) MQ_HEADER_SIZE (object_bytes sys command)\<rparr>"

definition getMessageType :: "byte_order \<Rightarrow> mq_message \<Rightarrow> u8" where
  "getMessageType sys m = ucast (drop_bit 8 (getCommand sys m) AND 0xff)"

definition getParameter :: "byte_order \<Rightarrow> mq_message \<Rightarrow> u32" where
  "getParameter sys m = of_object_bytes sys (get_bytes (internalBuffer m) CMD_HEADER_SIZE 4)"

definition setParameter :: "byte_order \<Rightarrow> mq_message \<Rightarrow> u32 \<Rightarrow> mq_message" where
  "setParameter sys m p = m\<lparr>internalBuffer := put_bytes (internalBuffer m) CMD_HEADER_SIZE (object_bytes sys p)\<rparr>"

definition getParameter2 :: "byte_order \<Rightarrow> mq_message \<Rightarrow> u32" where
  "getParameter2 sys m = of_object_bytes sys (get_bytes (internalBuffer m) (CMD_HEADER_SIZE + 4) 4)"

definition setParameter2 :: "byte_order \<Rightarrow> mq_message \<Rightarrow> u32 \<Rightarrow> mq_message" where
  "setParameter2 sys m p = m\<lparr>internalBuffer := put_bytes (internalBuffer m) (CMD_HEADER_SIZE + 4) (object_bytes sys p)\<rparr>"

definition getParameter3 :: "byte_order \<Rightarrow> mq_message \<Rightarrow> u32" where
  "getParameter3 sys m = of_object_bytes sys (get_bytes (internalBuffer m) (CMD_HEADER_SIZE + 2 * 4) 4)"

definition setParameter3 :: "byte_order \<Rightarrow> mq_message \<Rightarrow> u32 \<Rightarrow> mq_message" where
  "setParameter3 sys m p = m\<lparr>internalBuffer := put_bytes (internalBuffer m) (CMD_HEADER_SIZE + 2 * 4) (object_bytes sys p)\<rparr>"

definition newCommandMessage :: "byte_order \<Rightarrow> mq_message" where
  "newCommandMessage sys = setCommand sys (setMessageSize newMessage DEFAULT_COMMAND_MESSAGE_SIZE) CMD_NONE"

definition newCommandMessage_params :: "byte_order \<Rightarrow> u16 \<Rightarrow> u32 \<Rightarrow> u32 \<Rightarrow> mq_message" where
  "newCommandMessage_params sys command parameter1 parameter2 =
     setParameter2 sys (setParameter sys
       (setCommand sys (setMessageSize newMessage DEFAULT_COMMAND_MESSAGE_SIZE) command) parameter1) parameter2"

definition isClearedCommandMessage :: "byte_order \<Rightarrow> mq_message \<Rightarrow> bool" where
  "isClearedCommandMessage sys m \<longleftrightarrow> getCommand sys m = CMD_NONE"

definition setReplyRejected :: "byte_order \<Rightarrow> mq_message \<Rightarrow> u16 \<Rightarrow> u16 \<Rightarrow> mq_message" where
  "setReplyRejected sys m reason initialCommand =
     setParameter2 sys (setParameter sys (setCommand sys m REPLY_REJECTED) (ucast reason)) (ucast initialCommand)"

definition getReplyRejectedReason :: "byte_order \<Rightarrow> mq_message \<Rightarrow> u16 \<times> u16" where
  "getReplyRejectedReason sys m = (ucast (getParameter sys m), ucast (getParameter2 sys m))"

text \<open>\<open>cleaner\<close> is \<open>CommandMessageCleaner::clearCommandMessage\<close>, the dispatch to the message classes.\<close>

definition UNKNOWN_COMMAND :: u16 where [retcode]: "UNKNOWN_COMMAND = MAKE_RETURN_CODE COMMAND_MESSAGE 1"

definition setToUnknownCommand :: "byte_order \<Rightarrow> (mq_message \<Rightarrow> mq_message) \<Rightarrow> mq_message \<Rightarrow> mq_message" where
  "setToUnknownCommand sys cleaner m =
     (let initialCommand = getCommand sys m in setReplyRejected sys (cleaner m) UNKNOWN_COMMAND initialCommand)"

subsection \<open>The queue of the host\<close>

definition MQ_EMPTY :: u16 where [retcode]: "MQ_EMPTY = MAKE_RETURN_CODE MESSAGE_QUEUE_IF 1"
definition MQ_FULL :: u16 where [retcode]: "MQ_FULL = MAKE_RETURN_CODE MESSAGE_QUEUE_IF 2"
definition NO_REPLY_PARTNER :: u16 where [retcode]: "NO_REPLY_PARTNER = MAKE_RETURN_CODE MESSAGE_QUEUE_IF 3"

record host_queue =
  mqId :: u32
  queueMessageSize :: nat
  messageDepth :: nat
  messageQueue :: "mq_message list"
  defaultDestinationSet :: bool
  defaultDestination :: u32
  lastPartner :: u32

definition newHostQueue :: "u32 \<Rightarrow> nat \<Rightarrow> nat \<Rightarrow> host_queue" where
  "newHostQueue qid depth maxMessageSize =
     \<lparr>mqId = qid, queueMessageSize = maxMessageSize, messageDepth = depth, messageQueue = [],
      defaultDestinationSet = False, defaultDestination = 0, lastPartner = 0\<rparr>"

text \<open>
  \<open>receiveMessage\<close>: \<open>messageSize\<close> bytes of the front message are copied into the caller's message, whose
  own size field stays as it was.
\<close>

definition receiveMessage :: "byte_order \<Rightarrow> host_queue \<Rightarrow> mq_message \<Rightarrow> u16 \<times> host_queue \<times> mq_message" where
  "receiveMessage sys q message =
     (case messageQueue q of
        [] \<Rightarrow> (MQ_EMPTY, q, message)
      | currentMessage # rest \<Rightarrow>
          let m' = message\<lparr>internalBuffer :=
                put_bytes (internalBuffer message) 0 (take (queueMessageSize q) (internalBuffer currentMessage))\<rparr>
          in (RETURN_OK, q\<lparr>messageQueue := rest, lastPartner := getSender sys m'\<rparr>, m'))"

definition flush :: "host_queue \<Rightarrow> u16 \<times> nat \<times> host_queue" where
  "flush q = (RETURN_OK, length (messageQueue q), q\<lparr>messageQueue := []\<rparr>)"

definition setDefaultDestination :: "host_queue \<Rightarrow> u32 \<Rightarrow> host_queue" where
  "setDefaultDestination q dest = q\<lparr>defaultDestinationSet := True, defaultDestination := dest\<rparr>"

text \<open>The queues known to the \<open>QueueMapManager\<close> and its counter.\<close>

record queue_map =
  queueMap :: "u32 \<rightharpoonup> host_queue"
  queueCounter :: u32

definition addMessageQueue :: "queue_map \<Rightarrow> host_queue \<Rightarrow> u16 \<times> u32 option \<times> queue_map" where
  "addMessageQueue qm q =
     (let currentId = queueCounter qm; qm1 = qm\<lparr>queueCounter := currentId + 1\<rparr>
      in if queueMap qm currentId \<noteq> None then (RETURN_FAILED, None, qm1)
         else (RETURN_OK, Some currentId, qm1\<lparr>queueMap := (queueMap qm)(currentId \<mapsto> q\<lparr>mqId := currentId\<rparr>)\<rparr>))"

text \<open>
  The static function that all sending goes through: the message is copied into the target's queue
  first, and the sender is written into the caller's message afterwards.
\<close>

definition host_push :: "host_queue \<Rightarrow> mq_message \<Rightarrow> u16 \<times> host_queue" where
  "host_push q message =
     (if length (messageQueue q) < messageDepth q
      then (RETURN_OK, q\<lparr>messageQueue := messageQueue q @ [message]\<rparr>) else (MQ_FULL, q))"

definition sendMessageFromMessageQueue ::
  "byte_order \<Rightarrow> queue_map \<Rightarrow> u32 \<Rightarrow> mq_message \<Rightarrow> u32 \<Rightarrow> u16 \<times> queue_map \<times> mq_message" where
  "sendMessageFromMessageQueue sys qm sendTo message sentFrom =
     (if messageSize message > MAX_MESSAGE_SIZE then (RETURN_FAILED, qm, message)
      else case queueMap qm sendTo of
          None \<Rightarrow> (RETURN_FAILED, qm, message)
        | Some targetQueue \<Rightarrow>
            (case host_push targetQueue message of (r, q') \<Rightarrow>
               if r \<noteq> RETURN_OK then (r, qm, message)
               else (RETURN_OK, qm\<lparr>queueMap := (queueMap qm)(sendTo \<mapsto> q')\<rparr>, setSender sys message sentFrom)))"

text \<open>\<open>sendMessage\<close>, \<open>sendToDefault\<close> and \<open>reply\<close> of a queue.\<close>

definition sendMessage :: "byte_order \<Rightarrow> queue_map \<Rightarrow> host_queue \<Rightarrow> u32 \<Rightarrow> mq_message \<Rightarrow> u16 \<times> queue_map \<times> mq_message" where
  "sendMessage sys qm q sendTo message = sendMessageFromMessageQueue sys qm sendTo message (mqId q)"

definition sendToDefault :: "byte_order \<Rightarrow> queue_map \<Rightarrow> host_queue \<Rightarrow> mq_message \<Rightarrow> u16 \<times> queue_map \<times> mq_message" where
  "sendToDefault sys qm q message = sendMessageFromMessageQueue sys qm (defaultDestination q) message (mqId q)"

definition mq_reply :: "byte_order \<Rightarrow> queue_map \<Rightarrow> host_queue \<Rightarrow> mq_message \<Rightarrow> u16 \<times> queue_map \<times> mq_message" where
  "mq_reply sys qm q message =
     (if lastPartner q \<noteq> 0 then sendMessageFromMessageQueue sys qm (lastPartner q) message (mqId q)
      else (NO_REPLY_PARTNER, qm, message))"

subsection \<open>Fields of a message\<close>

lemma of_object_bytes_inv [simp]:
  "of_object_bytes sys (object_bytes sys (w :: u32)) = w" "of_object_bytes sys (object_bytes sys (v :: u16)) = v"
  by (simp_all add: of_object_bytes_object_bytes)

lemma message_inv_simps [simp]:
  "message_inv newMessage"
  "message_inv m \<Longrightarrow> message_inv (setSender sys m i)" "message_inv (message_clear m)"
  "message_inv m \<Longrightarrow> message_inv (setMessageSize m n)" "message_inv m \<Longrightarrow> message_inv (setStorageId sys m a)"
  "message_inv m \<Longrightarrow> message_inv (setCommand sys m c)" "message_inv m \<Longrightarrow> message_inv (setParameter sys m p)"
  "message_inv m \<Longrightarrow> message_inv (setParameter2 sys m p)" "message_inv m \<Longrightarrow> message_inv (setParameter3 sys m p)"
  by (simp_all add: message_inv_def newMessage_def setSender_def message_clear_def setMessageSize_def setStorageId_def
      setCommand_def setParameter_def setParameter2_def setParameter3_def mq_sizes CMD_HEADER_SIZE_def)

lemma newCommandMessage_inv [simp]: "message_inv (newCommandMessage sys)"
  by (simp add: newCommandMessage_def)

lemmas cmd_defs = getCommand_def setCommand_def getParameter_def setParameter_def getParameter2_def setParameter2_def
  getParameter3_def setParameter3_def setMessageSize_def

lemma command_fields [simp]:
  assumes "message_inv m"
  shows "getCommand sys (setCommand sys m c) = c" "getParameter sys (setParameter sys m p) = p"
    "getParameter2 sys (setParameter2 sys m p) = p" "getParameter3 sys (setParameter3 sys m p) = p"
    "getSender sys (setSender sys m i) = i"
  using assms by (simp_all add: message_inv_def cmd_defs mq_sizes CMD_HEADER_SIZE_def getSender_def setSender_def)

lemma command_fields_other [simp]:
  assumes "message_inv m"
  shows "getCommand sys (setParameter sys m p) = getCommand sys m" "getCommand sys (setParameter2 sys m p) = getCommand sys m"
    "getCommand sys (setParameter3 sys m p) = getCommand sys m"
    "getParameter sys (setCommand sys m c) = getParameter sys m" "getParameter sys (setParameter2 sys m p) = getParameter sys m"
    "getParameter sys (setParameter3 sys m p) = getParameter sys m"
    "getParameter2 sys (setCommand sys m c) = getParameter2 sys m" "getParameter2 sys (setParameter sys m p) = getParameter2 sys m"
    "getParameter2 sys (setParameter3 sys m p) = getParameter2 sys m"
    "getParameter3 sys (setCommand sys m c) = getParameter3 sys m" "getParameter3 sys (setParameter sys m p) = getParameter3 sys m"
    "getParameter3 sys (setParameter2 sys m p) = getParameter3 sys m"
  using assms by (simp_all add: message_inv_def cmd_defs mq_sizes CMD_HEADER_SIZE_def get_put_bytes_other)

lemma command_sender [simp]:
  assumes "message_inv m"
  shows "getSender sys (setCommand sys m c) = getSender sys m" "getSender sys (setParameter sys m p) = getSender sys m"
    "getSender sys (setParameter2 sys m p) = getSender sys m" "getSender sys (setParameter3 sys m p) = getSender sys m"
    "getSender sys (setStorageId sys m a) = getSender sys m"
    "getCommand sys (setSender sys m i) = getCommand sys m" "getParameter sys (setSender sys m i) = getParameter sys m"
    "getParameter2 sys (setSender sys m i) = getParameter2 sys m" "getParameter3 sys (setSender sys m i) = getParameter3 sys m"
    "getStorageId sys (setSender sys m i) = getStorageId sys m"
  using assms by (simp_all add: message_inv_def cmd_defs mq_sizes CMD_HEADER_SIZE_def getSender_def setSender_def
      setStorageId_def getStorageId_def get_put_bytes_other)

lemma newCommandMessage_sender:
  "setSender sys (newCommandMessage sys) 0 = newCommandMessage sys" "getSender sys (newCommandMessage sys) = 0"
proof -
  have "object_bytes sys (0 :: u32) = replicate 4 0"
    by (cases sys) (simp_all add: object_bytes_def le_bytes_def be_bytes_def map_replicate_const rev_map)
  then show e: "setSender sys (newCommandMessage sys) 0 = newCommandMessage sys"
    by (auto simp: setSender_def newCommandMessage_def newMessage_def setCommand_def setMessageSize_def mq_sizes nth_put_bytes
        intro!: mq_message.equality nth_equalityI)
  have "getSender sys (setSender sys (newCommandMessage sys) 0) = 0" by simp
  then show "getSender sys (newCommandMessage sys) = 0" by (simp only: e)
qed

lemma put_bytes_append:
  "off + length a + length b \<le> length p \<Longrightarrow> put_bytes p off (a @ b) = put_bytes (put_bytes p off a) (off + length a) b"
  by (auto simp: put_bytes_def add.commute add.left_commute)

lemma storage_id_round_trip [simp]:
  assumes "message_inv m" "pool_index a < 65536" "packet_index a < 65536"
  shows "getStorageId sys (setStorageId sys m a) = a"
  using assms
  by (cases a) (simp add: message_inv_def setStorageId_def getStorageId_def mq_sizes put_bytes_append get_put_bytes_other
      unsigned_of_nat take_bit_nat_eq_self)

lemma reply_rejected_round_trip:
  assumes "message_inv m"
  shows "getReplyRejectedReason sys (setReplyRejected sys m reason cmd) = (reason, cmd)"
    "getCommand sys (setReplyRejected sys m reason cmd) = REPLY_REJECTED"
proof -
  have "ucast (ucast w :: u32) = (w :: u16)" for w by (rule bit_word_eqI) (simp add: bit_simps)
  then show "getReplyRejectedReason sys (setReplyRejected sys m reason cmd) = (reason, cmd)"
    using assms by (simp add: getReplyRejectedReason_def setReplyRejected_def)
  show "getCommand sys (setReplyRejected sys m reason cmd) = REPLY_REJECTED"
    using assms by (simp add: setReplyRejected_def)
qed

subsection \<open>The queue is first in, first out\<close>

text \<open>
  A message and a queue as their users see them: what a receiver gets of a queued message is its bytes,
  in a message object that keeps its own size.
\<close>

definition host_put :: "nat \<Rightarrow> host_queue \<Rightarrow> bytes \<Rightarrow> u16 \<times> host_queue" where
  "host_put n q b = host_push q \<lparr>internalBuffer = b, messageSize = n\<rparr>"

definition host_get :: "byte_order \<Rightarrow> host_queue \<Rightarrow> u16 \<times> bytes option \<times> host_queue" where
  "host_get sys q =
     (case receiveMessage sys q newMessage of
        (r, q', m) \<Rightarrow> (r, if r = RETURN_OK then Some (internalBuffer m) else None, q'))"

definition host_queue_inv :: "host_queue \<Rightarrow> bool" where
  "host_queue_inv q \<longleftrightarrow> queueMessageSize q = MAX_MESSAGE_SIZE \<and> length (messageQueue q) \<le> messageDepth q
     \<and> (\<forall>m \<in> set (messageQueue q). message_inv m)"

lemma mq_codes [simp]: "MQ_EMPTY \<noteq> RETURN_OK" "MQ_FULL \<noteq> RETURN_OK" "NO_REPLY_PARTNER \<noteq> RETURN_OK"
  by (simp_all add: retcode)

lemma receive_front:
  assumes "host_queue_inv q" "messageQueue q = m # ms" "message_inv m0"
  shows "receiveMessage sys q m0 = (RETURN_OK, q\<lparr>messageQueue := ms, lastPartner := getSender sys m\<rparr>,
     m0\<lparr>internalBuffer := internalBuffer m\<rparr>)"
proof -
  have l: "length (internalBuffer m) = 28" "length (internalBuffer m0) = 28" "queueMessageSize q = 28"
    using assms by (auto simp: host_queue_inv_def message_inv_def mq_sizes)
  then have "put_bytes (internalBuffer m0) 0 (take (queueMessageSize q) (internalBuffer m)) = internalBuffer m"
    by (simp add: put_bytes_def)
  then show ?thesis using assms(2) by (simp add: receiveMessage_def getSender_def)
qed

interpretation hostq: bounded_queue "host_put n" "host_get sys" "\<lambda>q. map internalBuffer (messageQueue q)"
    messageDepth "\<lambda>b. length b = MAX_MESSAGE_SIZE" host_queue_inv
  for n sys
proof unfold_locales
  fix q :: host_queue and b bs
  assume q: "host_queue_inv q" "map internalBuffer (messageQueue q) = b # bs"
  then obtain m ms where m: "messageQueue q = m # ms" "b = internalBuffer m" "bs = map internalBuffer ms" by auto
  have "host_get sys q = (RETURN_OK, Some b, q\<lparr>messageQueue := ms, lastPartner := getSender sys m\<rparr>)"
    by (simp add: host_get_def receive_front[OF q(1) m(1)] m(2))
  moreover have "host_queue_inv (q\<lparr>messageQueue := ms, lastPartner := l\<rparr>)" for l
    using q(1) m(1) by (simp add: host_queue_inv_def)
  ultimately show "\<exists>q'. host_get sys q = (RETURN_OK, Some b, q') \<and> host_queue_inv q' \<and>
      map internalBuffer (messageQueue q') = bs \<and> messageDepth q' = messageDepth q"
    using m by auto
qed (auto simp: host_put_def host_push_def host_queue_inv_def message_inv_def host_get_def receiveMessage_def)

subsection \<open>Properties\<close>

text \<open>
  Messages sent to a queue of the host come out complete and in the order in which they were put
  in, up to the depth of the queue; the messages that did not fit were refused and changed nothing.
\<close>

theorem host_queue_order:
  assumes "\<forall>b \<in> set msgs. length b = MAX_MESSAGE_SIZE"
  shows "fst (get_n (host_get sys) (put_all (host_put n) (newHostQueue qid depth MAX_MESSAGE_SIZE) msgs)
      (min depth (length msgs))) = map Some (take depth msgs)"
proof -
  let ?start = "newHostQueue qid depth MAX_MESSAGE_SIZE"
  have q0: "messageQueue ?start = []" "messageDepth ?start = depth" by (simp_all add: newHostQueue_def)
  let ?q = "put_all (host_put n) ?start msgs"
  have "host_queue_inv ?start" by (simp add: host_queue_inv_def newHostQueue_def)
  from hostq.put_all_overflow[OF this assms]
  have q: "map internalBuffer (messageQueue ?q) = take depth msgs" "host_queue_inv ?q"
    by (simp_all add: q0)
  then have "min depth (length msgs) \<le> length (map internalBuffer (messageQueue ?q))" by (simp only: length_take)
  from hostq.get_n_content[OF q(2) this, of sys] show ?thesis unfolding q(1) by (simp add: min_def)
qed

theorem host_queue_order_witness:
  "fst (get_n (host_get LITTLE_ENDIAN) (put_all (host_put 4) (newHostQueue 1 1 28) [replicate 28 1, replicate 28 2]) 1)
     = [Some (replicate 28 1)]"
  using host_queue_order[of "[replicate 28 1, replicate 28 2]" LITTLE_ENDIAN 4 1 1]
  by (simp add: mq_sizes del: get_n.simps put_all.simps)

text \<open>
  The sender that the receiver of a message gets to know. \<open>sendMessageFrom\<close> takes the id of the
  sender as an argument, but the copy of the message is put into the target queue before the sender is
  written, so that the receiver, and every \<open>reply\<close> it sends, sees the sender field which the message had
  before it was sent.
\<close>

theorem receiver_sees_previous_sender:
  assumes "host_queue_inv target" "messageQueue target = []" "0 < messageDepth target"
    and "queueMap qm dest = Some target" "message_inv m" "messageSize m \<le> MAX_MESSAGE_SIZE" "message_inv m0"
  shows "\<exists>qm' m' q' r.
    sendMessageFromMessageQueue sys qm dest m sentFrom = (RETURN_OK, qm', m') \<and> getSender sys m' = sentFrom \<and>
    queueMap qm' dest = Some q' \<and> receiveMessage sys q' m0 = r \<and> fst r = RETURN_OK \<and>
    lastPartner (fst (snd r)) = getSender sys m \<and> internalBuffer (snd (snd r)) = internalBuffer m"
proof -
  let ?q = "target\<lparr>messageQueue := [m]\<rparr>"
  have inv: "host_queue_inv ?q" using assms(1,3,5) by (simp add: host_queue_inv_def)
  have "sendMessageFromMessageQueue sys qm dest m sentFrom
      = (RETURN_OK, qm\<lparr>queueMap := (queueMap qm)(dest \<mapsto> ?q)\<rparr>, setSender sys m sentFrom)"
    using assms by (simp add: sendMessageFromMessageQueue_def host_push_def)
  with receive_front[OF inv _ assms(7), of m "[]" sys] assms(5) show ?thesis by simp
qed

theorem receiver_sees_previous_sender_witness:
  "\<exists>qm' m' q' r. sendMessageFromMessageQueue LITTLE_ENDIAN
       \<lparr>queueMap = [7 \<mapsto> newHostQueue 7 3 28], queueCounter = 8\<rparr> 7 newMessage 5 = (RETURN_OK, qm', m') \<and>
     getSender LITTLE_ENDIAN m' = 5 \<and> queueMap qm' 7 = Some q' \<and> receiveMessage LITTLE_ENDIAN q' newMessage = r \<and>
     fst r = RETURN_OK \<and> lastPartner (fst (snd r)) = getSender LITTLE_ENDIAN newMessage \<and>
     internalBuffer (snd (snd r)) = internalBuffer newMessage"
  using receiver_sees_previous_sender[of "newHostQueue 7 3 28" "\<lparr>queueMap = [7 \<mapsto> newHostQueue 7 3 28], queueCounter = 8\<rparr>"
      7 newMessage newMessage LITTLE_ENDIAN 5]
  by (simp add: host_queue_inv_def newHostQueue_def mq_sizes newMessage_def message_inv_def)

end
