(* ===== verification/TransferFrame.thy ===== *)
theory TransferFrame
  imports PusPackets
begin

text \<open>
  Telecommand transfer frames: \<open>fsfw/datalinklayer/TcTransferFrame.cpp\<close> (the getters, on the bytes the
  frame pointer points to), \<open>TcTransferFrameLocal.cpp\<close> (building a frame) and \<open>BCFrame.h\<close> (control
  commands), with the return codes of \<open>CCSDSReturnValuesIF.h\<close>. The lemmas say that a built data frame
  carries exactly the given fields and data and closes with a valid CRC.
\<close>

subsection \<open>Return codes of the data link layer\<close>

definition BC_IS_SET_VR_COMMAND :: u16 where [retcode]: "BC_IS_SET_VR_COMMAND = MAKE_RETURN_CODE CCSDS_HANDLER_IF 1"
definition BC_IS_UNLOCK_COMMAND :: u16 where [retcode]: "BC_IS_UNLOCK_COMMAND = MAKE_RETURN_CODE CCSDS_HANDLER_IF 2"
definition BC_ILLEGAL_COMMAND :: u16 where [retcode]: "BC_ILLEGAL_COMMAND = MAKE_RETURN_CODE CCSDS_HANDLER_IF 0xB0"
definition NS_POSITIVE_W :: u16 where [retcode]: "NS_POSITIVE_W = MAKE_RETURN_CODE CCSDS_HANDLER_IF 0xF0"
definition NS_NEGATIVE_W :: u16 where [retcode]: "NS_NEGATIVE_W = MAKE_RETURN_CODE CCSDS_HANDLER_IF 0xF1"
definition NS_LOCKOUT :: u16 where [retcode]: "NS_LOCKOUT = MAKE_RETURN_CODE CCSDS_HANDLER_IF 0xF2"
definition FARM_IN_LOCKOUT :: u16 where [retcode]: "FARM_IN_LOCKOUT = MAKE_RETURN_CODE CCSDS_HANDLER_IF 0xF3"
definition FARM_IN_WAIT :: u16 where [retcode]: "FARM_IN_WAIT = MAKE_RETURN_CODE CCSDS_HANDLER_IF 0xF4"
definition FRAME_TOO_SHORT :: u16 where [retcode]: "FRAME_TOO_SHORT = MAKE_RETURN_CODE CCSDS_HANDLER_IF 0xE5"
definition WRONG_TF_VERSION :: u16 where [retcode]: "WRONG_TF_VERSION = MAKE_RETURN_CODE CCSDS_HANDLER_IF 0xE6"
definition WRONG_SPACECRAFT_ID :: u16 where [retcode]: "WRONG_SPACECRAFT_ID = MAKE_RETURN_CODE CCSDS_HANDLER_IF 0xE7"
definition NO_VALID_FRAME_TYPE :: u16 where [retcode]: "NO_VALID_FRAME_TYPE = MAKE_RETURN_CODE CCSDS_HANDLER_IF 0xE8"
definition CRC_FAILED :: u16 where [retcode]: "CRC_FAILED = MAKE_RETURN_CODE CCSDS_HANDLER_IF 0xE9"
definition VC_NOT_FOUND :: u16 where [retcode]: "VC_NOT_FOUND = MAKE_RETURN_CODE CCSDS_HANDLER_IF 0xEA"
definition CONTENT_TOO_LARGE :: u16 where [retcode]: "CONTENT_TOO_LARGE = MAKE_RETURN_CODE CCSDS_HANDLER_IF 0xEC"
definition RESIDUAL_DATA :: u16 where [retcode]: "RESIDUAL_DATA = MAKE_RETURN_CODE CCSDS_HANDLER_IF 0xED"
definition DATA_CORRUPTED :: u16 where [retcode]: "DATA_CORRUPTED = MAKE_RETURN_CODE CCSDS_HANDLER_IF 0xEE"
definition ILLEGAL_SEGMENTATION_FLAG :: u16 where [retcode]: "ILLEGAL_SEGMENTATION_FLAG = MAKE_RETURN_CODE CCSDS_HANDLER_IF 0xEF"
definition ILLEGAL_FLAG_COMBINATION :: u16 where [retcode]: "ILLEGAL_FLAG_COMBINATION = MAKE_RETURN_CODE CCSDS_HANDLER_IF 0xD0"
definition SHORTER_THAN_HEADER :: u16 where [retcode]: "SHORTER_THAN_HEADER = MAKE_RETURN_CODE CCSDS_HANDLER_IF 0xD1"
definition TOO_SHORT_BLOCKED_PACKET :: u16 where [retcode]: "TOO_SHORT_BLOCKED_PACKET = MAKE_RETURN_CODE CCSDS_HANDLER_IF 0xD2"
definition TOO_SHORT_MAP_EXTRACTION :: u16 where [retcode]: "TOO_SHORT_MAP_EXTRACTION = MAKE_RETURN_CODE CCSDS_HANDLER_IF 0xD3"

subsection \<open>TcTransferFrame\<close>

type_synonym frame = bytes

definition FRAME_HEADER_SIZE :: nat where "FRAME_HEADER_SIZE = 5"
definition FRAME_CRC_SIZE :: nat where "FRAME_CRC_SIZE = 2"

definition getVersionNumber :: "frame \<Rightarrow> u8" where
  [layout]: "getVersionNumber f = drop_bit 6 (f ! 0 AND 0b11000000)"

definition bypassFlagSet :: "frame \<Rightarrow> bool" where
  [layout]: "bypassFlagSet f \<longleftrightarrow> f ! 0 AND 0b00100000 \<noteq> 0"

definition controlCommandFlagSet :: "frame \<Rightarrow> bool" where
  [layout]: "controlCommandFlagSet f \<longleftrightarrow> f ! 0 AND 0b00010000 \<noteq> 0"

definition spareIsZero :: "frame \<Rightarrow> bool" where
  [layout]: "spareIsZero f \<longleftrightarrow> f ! 0 AND 0b00001100 = 0"

definition getSpacecraftId :: "frame \<Rightarrow> u16" where
  [layout]: "getSpacecraftId f = push_bit 8 (ucast (f ! 0 AND 0b00000011)) + ucast (f ! 1)"

definition getVirtualChannelId :: "frame \<Rightarrow> u8" where
  [layout]: "getVirtualChannelId f = drop_bit 2 (f ! 2 AND 0b11111100)"

definition getFrameLength :: "frame \<Rightarrow> u16" where
  [layout]: "getFrameLength f = push_bit 8 (ucast (f ! 2 AND 0b00000011)) + ucast (f ! 3)"

definition tf_getDataLength :: "frame \<Rightarrow> u16" where
  "tf_getDataLength f = getFrameLength f - of_nat FRAME_HEADER_SIZE - 1 - of_nat FRAME_CRC_SIZE + 1"

definition tf_getSequenceNumber :: "frame \<Rightarrow> u8" where
  [layout]: "tf_getSequenceNumber f = f ! 4"

definition tf_getSequenceFlags :: "frame \<Rightarrow> u8" where
  [layout]: "tf_getSequenceFlags f = drop_bit 6 (f ! 5 AND 0b11000000)"

definition getMAPId :: "frame \<Rightarrow> u8" where
  [layout]: "getMAPId f = f ! 5 AND 0b00111111"

definition getDataField :: "frame \<Rightarrow> bytes" where
  "getDataField f = drop (FRAME_HEADER_SIZE + 1) f"

definition tf_getFullSize :: "frame \<Rightarrow> u16" where
  "tf_getFullSize f = getFrameLength f + 1"

definition getFullDataLength :: "frame \<Rightarrow> u16" where
  "getFullDataLength f = getFrameLength f - of_nat FRAME_HEADER_SIZE - of_nat FRAME_CRC_SIZE + 1"

definition getFullDataField :: "frame \<Rightarrow> bytes" where
  "getFullDataField f = drop FRAME_HEADER_SIZE f"

lemmas tf_sizes = FRAME_HEADER_SIZE_def FRAME_CRC_SIZE_def

subsection \<open>TcTransferFrameLocal\<close>

text \<open>
  \<open>raw\<close> is the uninitialised local buffer: 5 bytes of header and 1019 bytes of data. The copies and the
  stores of the CRC are undefined outside of it (\<open>getFullSize() - 2\<close> is negative for a length field of 0).
  The forced CRC is stored relative to the data part of the buffer.
\<close>

definition LOCAL_FRAME_SIZE :: nat where "LOCAL_FRAME_SIZE = 1024"

definition store_crc :: "nat \<Rightarrow> frame \<Rightarrow> u16 \<Rightarrow> frame option" where
  "store_crc base f crc =
     (let n = unat (tf_getFullSize f) in
      if 2 \<le> n \<and> base + n \<le> length f
      then Some (f[base + n - 2 := ucast (drop_bit 8 (crc AND 0xFF00)), base + n - 1 := ucast (crc AND 0x00FF)])
      else None)"

definition set_frame_length :: "frame \<Rightarrow> u16 \<Rightarrow> frame" where
  "set_frame_length f totalSize =
     f[2 := f ! 2 OR ucast (drop_bit 8 (totalSize AND 0x0300)), 3 := ucast (totalSize AND 0x00FF)]"

definition append_crc :: "frame \<Rightarrow> frame option" where
  "append_crc f =
     (if 2 \<le> unat (tf_getFullSize f) then store_crc 0 f (crc16 (take (unat (tf_getFullSize f) - 2) f)) else None)"

definition newTcTransferFrameLocal ::
  "bytes \<Rightarrow> bool \<Rightarrow> bool \<Rightarrow> u16 \<Rightarrow> u8 \<Rightarrow> u8 \<Rightarrow> u8 \<Rightarrow> bytes option \<Rightarrow> u16 \<Rightarrow> frame option" where
  "newTcTransferFrameLocal raw bypass controlCommand scid vcId sequenceNumber setSegmentHeader data forceCrc =
     (let f0 = raw[0 := push_bit 5 (of_bool bypass) + push_bit 4 (of_bool controlCommand) + ucast (drop_bit 8 (scid AND 0x0300)),
                   1 := ucast (scid AND 0x00FF),
                   2 := push_bit 2 (vcId AND 0b00111111),
                   3 := of_nat (FRAME_HEADER_SIZE - 1),
                   4 := sequenceNumber,
                   5 := setSegmentHeader];
          f1 = (case data of
              None \<Rightarrow> Some f0
            | Some bs \<Rightarrow>
                if bypass \<and> controlCommand then
                  Option.bind (mem_copy f0 FRAME_HEADER_SIZE bs (length bs)) (\<lambda>f.
                    append_crc (set_frame_length f (of_nat (FRAME_HEADER_SIZE + length bs + FRAME_CRC_SIZE - 1))))
                else if length bs \<le> 1016 then
                  Option.bind (mem_copy f0 (FRAME_HEADER_SIZE + 1) bs (length bs)) (\<lambda>f.
                    append_crc (set_frame_length f (of_nat (FRAME_HEADER_SIZE + 1 + length bs + FRAME_CRC_SIZE - 1))))
                else Some f0)
      in if forceCrc = 0 then f1 else Option.bind f1 (\<lambda>f. store_crc FRAME_HEADER_SIZE f forceCrc))"

subsection \<open>BcFrame\<close>

definition UNLOCK_COMMAND :: u8 where "UNLOCK_COMMAND = 0"
definition SET_V_R_1 :: u8 where "SET_V_R_1 = 0b10000010"
definition SET_V_R_2 :: u8 where "SET_V_R_2 = 0"

record bc_frame =
  byte1 :: u8
  byte2 :: u8
  bc_vR :: u8

definition newBcFrame :: bc_frame where "newBcFrame = \<lparr>byte1 = 0, byte2 = 0, bc_vR = 0\<rparr>"

definition bc_initialize :: "bc_frame \<Rightarrow> bytes \<Rightarrow> u16 \<Rightarrow> u16 \<times> bc_frame" where
  "bc_initialize b inBuffer inSize =
     (if inSize = 1 then
        let b' = b\<lparr>byte1 := inBuffer ! 0\<rparr> in
        (if byte1 b' = UNLOCK_COMMAND then BC_IS_UNLOCK_COMMAND else BC_ILLEGAL_COMMAND, b')
      else if inSize = 3 then
        let b' = b\<lparr>byte1 := inBuffer ! 0, byte2 := inBuffer ! 1, bc_vR := inBuffer ! 2\<rparr> in
        (if byte1 b' = SET_V_R_1 \<and> byte2 b' = SET_V_R_2 then BC_IS_SET_VR_COMMAND else BC_ILLEGAL_COMMAND, b')
      else (BC_ILLEGAL_COMMAND, b))"

subsection \<open>A built frame\<close>

text \<open>The six bytes in front of the data, and what they say.\<close>

definition frame_header :: "bool \<Rightarrow> bool \<Rightarrow> u16 \<Rightarrow> u8 \<Rightarrow> u16 \<Rightarrow> u8 \<Rightarrow> u8 \<Rightarrow> bytes" where
  "frame_header bypass controlCommand scid vcId lth sequenceNumber seg =
     [push_bit 5 (of_bool bypass) + push_bit 4 (of_bool controlCommand) + ucast (drop_bit 8 (scid AND 0x0300)),
      ucast (scid AND 0x00FF),
      push_bit 2 (vcId AND 0b00111111) OR ucast (drop_bit 8 (lth AND 0x0300)), ucast (lth AND 0x00FF),
      sequenceNumber, seg]"

lemma length_frame_header [simp]: "length (frame_header b c s v t n g) = 6"
  by (simp add: frame_header_def)

lemma first_byte_or:
  "(push_bit 5 (of_bool b) + push_bit 4 (of_bool c) + ucast (drop_bit 8 (s AND 0x0300)) :: u8)
     = push_bit 5 (of_bool b) OR push_bit 4 (of_bool c) OR ucast (drop_bit 8 ((s :: u16) AND 0x0300))"
proof -
  have *: "push_bit 5 (of_bool b) + push_bit 4 (of_bool c) = (push_bit 5 (of_bool b) OR push_bit 4 (of_bool c) :: u8)"
    by (cases b; cases c) simp_all
  have "(push_bit 5 (of_bool b) OR push_bit 4 (of_bool c)) AND ucast (drop_bit 8 (s AND 0x0300)) = (0 :: u8)"
    by (cases b; cases c) (rule word8_eqI; simp add: bit_simps)+
  then show ?thesis unfolding * by (simp add: disjunctive_add_eq_or bit_eq_iff bit_simps or.assoc)
qed

lemma small_word_bit: "(w :: 'a::len word) < 2 ^ n \<Longrightarrow> n \<le> k \<Longrightarrow> \<not> bit w k"
  using less_mask_eq[of w n] by (metis bit_and_iff bit_mask_iff not_less)

lemma frame_header_fields:
  fixes lth scid :: u16
  assumes "scid < 1024" "vcId < 64" "lth < 1024"
    and f_def: "f = frame_header bypass controlCommand scid vcId lth sequenceNumber seg @ rest"
  shows "getVersionNumber f = 0" "bypassFlagSet f = bypass" "controlCommandFlagSet f = controlCommand" "spareIsZero f"
    "getSpacecraftId f = scid" "getVirtualChannelId f = vcId" "getFrameLength f = lth"
    "tf_getSequenceNumber f = sequenceNumber" "tf_getSequenceFlags f = drop_bit 6 seg" "getMAPId f = take_bit 6 seg"
proof -
  have s: "\<not> bit scid k" if "10 \<le> k" for k using small_word_bit[of scid 10 k] assms(1) that by simp
  have v: "\<not> bit vcId k" if "6 \<le> k" for k using small_word_bit[of vcId 6 k] assms(2) that by simp
  have l: "\<not> bit lth k" if "10 \<le> k" for k using small_word_bit[of lth 10 k] assms(3) that by simp
  have bits: "bit (f ! 0) k \<longleftrightarrow> k = 5 \<and> bypass \<or> k = 4 \<and> controlCommand \<or> k < 2 \<and> bit scid (k + 8)" for k
  proof -
    have m: "drop_bit 8 (scid AND 0x0300) = take_bit 2 (drop_bit 8 scid)"
      by (rule word16_eqI) (simp_all add: bit_simps)
    have e: "f ! 0 = push_bit 5 (of_bool bypass) OR push_bit 4 (of_bool controlCommand) OR ucast (take_bit 2 (drop_bit 8 scid))"
      using first_byte_or[of bypass controlCommand scid] by (simp only: f_def frame_header_def append_Cons nth_Cons_0 m)
    show ?thesis unfolding e
      by (auto simp: bit_or_iff bit_push_bit_iff bit_of_bool_iff bit_ucast_iff bit_drop_bit_eq bit_take_bit_iff add.commute)
  qed
  have n: "f ! 1 = ucast (scid AND 0x00FF)" "f ! Suc 0 = ucast (scid AND 0x00FF)" "f ! 2 = push_bit 2 (vcId AND 0b00111111) OR ucast (drop_bit 8 (lth AND 0x0300))"
    "f ! 3 = ucast (lth AND 0x00FF)" "f ! 4 = sequenceNumber" "f ! 5 = seg"
    by (simp_all add: f_def frame_header_def)
  note h = n bits layout hi_lo_plus
  show "getVersionNumber f = 0" by (rule word8_eqI) (simp_all add: h bit_simps)
  have "f ! 0 AND 0b00100000 = push_bit 5 (of_bool bypass)"
    by (rule word8_eqI) (simp_all add: h bit_simps)
  then show "bypassFlagSet f = bypass" by (cases bypass) (simp_all add: bypassFlagSet_def)
  have "f ! 0 AND 0b00010000 = push_bit 4 (of_bool controlCommand)"
    by (rule word8_eqI) (simp_all add: h bit_simps)
  then show "controlCommandFlagSet f = controlCommand" by (cases controlCommand) (simp_all add: controlCommandFlagSet_def)
  have "f ! 0 AND 0b00001100 = 0" by (rule word8_eqI) (simp_all add: h bit_simps)
  then show "spareIsZero f" by (simp add: spareIsZero_def)
  show "getSpacecraftId f = scid" by (rule word16_eqI) (simp_all add: h bit_simps s)
  show "getVirtualChannelId f = vcId" by (rule word8_eqI) (simp_all add: h bit_simps v)
  show "getFrameLength f = lth" by (rule word16_eqI) (simp_all add: h bit_simps l)
  show "tf_getSequenceNumber f = sequenceNumber" by (simp add: h)
  have g: "\<not> bit seg k" if "8 \<le> k" for k using bit_imp_le_length[of seg k] that by auto
  show "tf_getSequenceFlags f = drop_bit 6 seg" by (rule word8_eqI) (simp_all add: h bit_simps g)
  show "getMAPId f = take_bit 6 seg" by (rule word8_eqI) (simp_all add: h bit_simps)
qed

text \<open>Data frames: the data, the fields, and a CRC that makes the checksum of the whole frame zero.\<close>

lemma length_set_frame_length [simp]: "length (set_frame_length f n) = length f"
  by (simp add: set_frame_length_def)

lemma frame_header_length:
  assumes "lth < 1024"
  shows "getFrameLength (frame_header bypass controlCommand scid vcId lth sequenceNumber seg @ rest) = lth"
proof -
  have l: "\<not> bit lth k" if "10 \<le> k" for k using small_word_bit[of lth 10 k] assms that by simp
  show ?thesis
    by (rule word16_eqI) (simp_all add: getFrameLength_def frame_header_def hi_lo_plus bit_simps l)
qed

lemma tf_lengths:
  assumes "unat (getFrameLength f) = n + 7" "n \<le> 1016"
  shows "unat (tf_getFullSize f) = n + 8" "unat (tf_getDataLength f) = n"
proof -
  have "getFrameLength f = of_nat (unat (getFrameLength f))" by simp
  then have l: "getFrameLength f = of_nat n + 7" by (simp only: assms(1)) simp
  have "tf_getFullSize f = of_nat (n + 8)" "tf_getDataLength f = of_nat n"
    by (simp_all add: tf_getFullSize_def tf_getDataLength_def l tf_sizes)
  then show "unat (tf_getFullSize f) = n + 8" "unat (tf_getDataLength f) = n"
    using assms(2) by (simp_all only: unsigned_of_nat) (simp_all add: take_bit_nat_eq_self)
qed

lemma built_frame:
  assumes raw: "length raw = LOCAL_FRAME_SIZE" and kind: "\<not> (bypass \<and> controlCommand)" and len: "length bs \<le> 1016"
    and hdr_def: "hdr = frame_header bypass controlCommand scid vcId (of_nat (length bs + 7)) sequenceNumber seg"
  shows "\<exists>crc rest. newTcTransferFrameLocal raw bypass controlCommand scid vcId sequenceNumber seg (Some bs) 0
      = Some (hdr @ bs @ crc @ rest) \<and> length crc = 2 \<and> length rest = 1016 - length bs \<and> crc16 (hdr @ bs @ crc) = 0"
proof -
  let ?n = "length bs"
  obtain r0 r1 r2 r3 r4 r5 tl where r: "raw = r0 # r1 # r2 # r3 # r4 # r5 # tl" and tl: "length tl = 1018"
  proof -
    have "6 \<le> length raw" using raw by (simp add: LOCAL_FRAME_SIZE_def)
    then obtain r0 r1 r2 r3 r4 r5 tl where "raw = r0 # r1 # r2 # r3 # r4 # r5 # tl"
      by (metis header_cases)
    with raw show ?thesis by (intro that[of r0 r1 r2 r3 r4 r5 tl]) (simp_all add: LOCAL_FRAME_SIZE_def)
  qed
  let ?f = "hdr @ bs @ drop ?n tl"
  have u: "unat (of_nat (?n + 7) :: u16) = ?n + 7" using len by (simp only: unsigned_of_nat) (simp add: take_bit_nat_eq_self)
  then have "getFrameLength ?f = of_nat (?n + 7)"
    unfolding hdr_def by (intro frame_header_length) (use len in \<open>simp add: word_less_nat_alt\<close>)
  with u have fs: "unat (tf_getFullSize ?f) = ?n + 8" using tf_lengths(1)[of ?f ?n] len by simp
  have h6: "length hdr = 6" by (simp add: hdr_def)
  let ?c = "crc16 (hdr @ bs)"
  let ?hi = "ucast (drop_bit 8 (?c AND 0xFF00)) :: u8" and ?lo = "ucast (?c AND 0x00FF) :: u8"
  have "length (drop ?n tl) = Suc (Suc (1016 - ?n))" using tl len by simp
  then obtain x y rest where rest: "drop ?n tl = x # y # rest" "length rest = 1016 - ?n"
    by (auto simp: length_Suc_conv simp del: length_drop)
  have app: "append_crc ?f = Some (hdr @ bs @ [?hi, ?lo] @ rest)"
  proof -
    have "take (?n + 8 - 2) ?f = hdr @ bs" using h6 by simp
    then have e1: "append_crc ?f = store_crc 0 ?f ?c" unfolding append_crc_def fs by simp
    have e2: "?f[0 + (?n + 8) - 2 := ?hi, 0 + (?n + 8) - 1 := ?lo] = hdr @ bs @ [?hi, ?lo] @ rest"
      using h6 rest(1) by (simp add: list_update_append)
    have "?n + 8 \<le> length ?f" using h6 rest(1) by simp
    then show ?thesis unfolding e1 store_crc_def fs Let_def e2 by simp
  qed
  have hi: "?hi = ucast (drop_bit 8 ?c)" by (rule word8_eqI) (simp_all add: bit_simps)
  have lo: "?lo = ucast ?c" by (rule word8_eqI) (simp_all add: bit_simps)
  have z: "crc16 (hdr @ bs @ [?hi, ?lo]) = 0"
    using crc16_residue[of "hdr @ bs" ?hi ?lo] hi lo by simp
  let ?b0 = "push_bit 5 (of_bool bypass) + push_bit 4 (of_bool controlCommand) + ucast (drop_bit 8 (scid AND 0x0300)) :: u8"
  let ?b1 = "ucast (scid AND 0x00FF) :: u8" and ?b2 = "push_bit 2 (vcId AND 0b00111111)" and ?b3 = "of_nat (FRAME_HEADER_SIZE - 1) :: u8"
  have f0: "raw[0 := ?b0, 1 := ?b1, 2 := ?b2, 3 := ?b3, 4 := sequenceNumber, 5 := seg] = [?b0, ?b1, ?b2, ?b3, sequenceNumber, seg] @ tl"
    unfolding r by simp
  have mc: "mem_copy (h @ tl) (FRAME_HEADER_SIZE + 1) bs ?n = Some (h @ bs @ drop ?n tl)" if "length h = 6" for h
    using that tl len by (simp add: mem_copy_def tf_sizes)
  have mc': "mem_copy ([?b0, ?b1, ?b2, ?b3, sequenceNumber, seg] @ tl) (FRAME_HEADER_SIZE + 1) bs ?n
      = Some ([?b0, ?b1, ?b2, ?b3, sequenceNumber, seg] @ bs @ drop ?n tl)"
    by (rule mc) simp
  have sl: "set_frame_length ([?b0, ?b1, ?b2, ?b3, sequenceNumber, seg] @ x) (of_nat (FRAME_HEADER_SIZE + 1 + ?n + FRAME_CRC_SIZE - 1)) = hdr @ x" for x
  proof -
    have e: "FRAME_HEADER_SIZE + 1 + ?n + FRAME_CRC_SIZE - 1 = ?n + 7" by (simp add: tf_sizes)
    show ?thesis unfolding set_frame_length_def hdr_def frame_header_def e by simp
  qed
  have "newTcTransferFrameLocal raw bypass controlCommand scid vcId sequenceNumber seg (Some bs) 0 = append_crc ?f"
    using kind len unfolding newTcTransferFrameLocal_def Let_def f0
    by (simp only: mc' option.case bind.bind_lunit sl if_True if_False simp_thms)
  with app z rest(2) show ?thesis by (intro exI[of _ "[?hi, ?lo]"] exI[of _ rest]) simp
qed

end
