(* ===== verification/MapExtraction.thy ===== *)
theory MapExtraction
  imports TransferFrame Messages
begin

text \<open>
  Space packets from frames: \<open>fsfw/datalinklayer/MapPacketExtraction.cpp\<close>. A packet comes alone in a
  segmented series of frames or blocked with others in one frame; complete packets go into the
  telecommand store and their addresses to the distributor's queue (\<open>tc_sink\<close>). The locale
  \<open>packet_sink\<close> states what the extraction relies on when it sends a packet; its interpretation is
  the pool of theory \<open>LocalPool\<close> together with the queue of theory \<open>Messages\<close>.
\<close>

subsection \<open>The packet destination\<close>

record tc_sink =
  tcStore :: local_pool
  tcQueues :: queue_map

text \<open>\<open>MessageQueueSenderIF::sendMessage\<close> of the host, without a sender.\<close>

definition sender_sendMessage :: "byte_order \<Rightarrow> queue_map \<Rightarrow> u32 \<Rightarrow> mq_message \<Rightarrow> u16 \<times> queue_map \<times> mq_message" where
  "sender_sendMessage sys qm sendTo message = sendMessageFromMessageQueue sys qm sendTo message NO_QUEUE"

text \<open>\<open>data\<close> points into a buffer: the result is \<open>None\<close> when fewer than \<open>sz\<close> bytes are there.\<close>

definition sendCompletePacket :: "byte_order \<Rightarrow> u32 \<Rightarrow> tc_sink \<Rightarrow> bytes \<Rightarrow> nat \<Rightarrow> (u16 \<times> tc_sink) option" where
  "sendCompletePacket sys tcQueueId w data sz =
     Option.bind (mem_read data 0 sz) (\<lambda>packet.
     Option.bind (addData (tcStore w) INVALID_ADDRESS packet False) (\<lambda>(status, store_id, lp).
       let w1 = w\<lparr>tcStore := lp\<rparr> in
       if status = RETURN_OK
       then (case sender_sendMessage sys (tcQueues w1) tcQueueId (newTmTcMessage sys store_id) of
               (st, qm, _) \<Rightarrow> Some (st, w1\<lparr>tcQueues := qm\<rparr>))
       else Some (status, w1)))"

subsection \<open>MapPacketExtraction\<close>

definition FIRST_PORTION :: u8 where "FIRST_PORTION = 0b01"
definition CONTINUING_PORTION :: u8 where "CONTINUING_PORTION = 0b00"
definition LAST_PORTION :: u8 where "LAST_PORTION = 0b10"
definition NO_SEGMENTATION :: u8 where "NO_SEGMENTATION = 0b11"
definition MAX_PACKET_SIZE :: nat where "MAX_PACKET_SIZE = 4096"

lemmas segmentation = FIRST_PORTION_def CONTINUING_PORTION_def LAST_PORTION_def NO_SEGMENTATION_def

record map_extraction =
  lastSegmentationFlag :: u8
  mapId :: u8
  packetLength :: nat
  bufferPosition :: nat
  packetBuffer :: bytes
  packetDestination :: u32
  packetStore :: bool
  tcQueueId :: u32

text \<open>\<open>packetStore\<close> tells whether the pointer to the store is set.\<close>

definition newMapPacketExtraction :: "u8 \<Rightarrow> u32 \<Rightarrow> map_extraction" where
  "newMapPacketExtraction setMapId setPacketDestination =
     \<lparr>lastSegmentationFlag = NO_SEGMENTATION, mapId = setMapId, packetLength = 0, bufferPosition = 0,
      packetBuffer = replicate MAX_PACKET_SIZE 0, packetDestination = setPacketDestination, packetStore = False, tcQueueId = NO_QUEUE\<rparr>"

definition clearBuffers :: "map_extraction \<Rightarrow> map_extraction" where
  "clearBuffers m = m\<lparr>packetBuffer := replicate MAX_PACKET_SIZE 0, bufferPosition := 0, packetLength := 0,
      lastSegmentationFlag := NO_SEGMENTATION\<rparr>"

text \<open>
  The object manager: whether the telecommand store exists, and the request queue of every object that
  accepts telecommands.
\<close>

definition map_initialize :: "bool \<Rightarrow> (u32 \<Rightarrow> u32 option) \<Rightarrow> map_extraction \<Rightarrow> u16 \<times> map_extraction" where
  "map_initialize store distributor m =
     (let m1 = m\<lparr>packetStore := store\<rparr> in
      case distributor (packetDestination m) of
        Some requestQueue \<Rightarrow> if store then (RETURN_OK, m1\<lparr>tcQueueId := requestQueue\<rparr>) else (RETURN_FAILED, m1)
      | None \<Rightarrow> (RETURN_FAILED, m1))"

text \<open>
  The loop over the blocked packets. A packet header that is read behind the end of the frame buffer, or
  a store that was never set, is undefined.
\<close>

definition map_send :: "byte_order \<Rightarrow> map_extraction \<Rightarrow> tc_sink \<Rightarrow> bytes \<Rightarrow> nat \<Rightarrow> (u16 \<times> tc_sink) option" where
  "map_send sys m w data sz = (if packetStore m then sendCompletePacket sys (tcQueueId m) w data sz else None)"

lemma getFullSize_pos: "7 \<le> getFullSize p" "getFullSize p \<le> 65542"
  using unat_u16_less[of "getPacketDataLength p"] unfolding getFullSize_def pus_sizes by linarith+

lemma getFullSize_gt0: "0 < getFullSize p"
  using getFullSize_pos(1)[of p] by linarith

function (sequential) unpack_loop ::
  "byte_order \<Rightarrow> map_extraction \<Rightarrow> nat \<Rightarrow> bytes \<Rightarrow> u16 \<Rightarrow> tc_sink \<Rightarrow> (nat \<times> u16 \<times> tc_sink) option" where
  "unpack_loop sys m totalLength position status w =
     (if totalLength > MINIMUM_SIZE then
        if length position < CCSDS_HEADER_SIZE then None
        else
          let packetSize = getFullSize position in
          if packetSize \<le> totalLength then
            (case map_send sys m w position packetSize of
               None \<Rightarrow> None
             | Some (_, w') \<Rightarrow> unpack_loop sys m (totalLength - packetSize) (drop packetSize position) RETURN_OK w')
          else unpack_loop sys m 0 position DATA_CORRUPTED w
      else Some (totalLength, status, w))"
  by pat_completeness auto
termination
  by (relation "measure (\<lambda>(_, _, n, _). n)") (use getFullSize_gt0 in \<open>auto intro!: diff_less\<close>)

definition unpackBlockingPackets :: "byte_order \<Rightarrow> map_extraction \<Rightarrow> tc_sink \<Rightarrow> frame \<Rightarrow> (u16 \<times> tc_sink) option" where
  "unpackBlockingPackets sys m w f =
     (let totalLength = unat (tf_getDataLength f) in
      if totalLength > MAX_PACKET_SIZE then Some (CONTENT_TOO_LARGE, w)
      else map_option (\<lambda>(rest, status, w'). (if rest > 0 then RESIDUAL_DATA else status, w'))
             (unpack_loop sys m totalLength (getDataField f) TOO_SHORT_BLOCKED_PACKET w))"

definition extract_first :: "map_extraction \<Rightarrow> frame \<Rightarrow> (u16 \<times> map_extraction) option" where
  "extract_first m f =
     (let len = unat (tf_getDataLength f); m1 = m\<lparr>packetLength := len\<rparr> in
      if len \<le> MAX_PACKET_SIZE
      then map_option (\<lambda>b. (RETURN_OK, m1\<lparr>packetBuffer := b, bufferPosition := len\<rparr>))
             (mem_copy (packetBuffer m) 0 (getDataField f) len)
      else Some (CONTENT_TOO_LARGE, clearBuffers m1))"

definition extract_next :: "byte_order \<Rightarrow> map_extraction \<Rightarrow> tc_sink \<Rightarrow> frame \<Rightarrow> (u16 \<times> map_extraction \<times> tc_sink) option" where
  "extract_next sys m w f =
     (if lastSegmentationFlag m = FIRST_PORTION \<or> lastSegmentationFlag m = CONTINUING_PORTION then
        let len = packetLength m + unat (tf_getDataLength f); m1 = m\<lparr>packetLength := len\<rparr> in
        if len \<le> MAX_PACKET_SIZE then
          Option.bind (mem_copy (packetBuffer m) (bufferPosition m) (getDataField f) (unat (tf_getDataLength f))) (\<lambda>b.
            let m2 = m1\<lparr>packetBuffer := b, bufferPosition := len\<rparr> in
            if tf_getSequenceFlags f = LAST_PORTION
            then map_option (\<lambda>(_, w'). (RETURN_OK, clearBuffers m2, w')) (map_send sys m2 w (packetBuffer m2) len)
            else Some (RETURN_OK, m2, w))
        else Some (CONTENT_TOO_LARGE, clearBuffers m1, w)
      else Some (ILLEGAL_SEGMENTATION_FLAG, clearBuffers m, w))"

definition extractPackets :: "byte_order \<Rightarrow> map_extraction \<Rightarrow> tc_sink \<Rightarrow> frame \<Rightarrow> (u16 \<times> map_extraction \<times> tc_sink) option" where
  "extractPackets sys m w f =
     (let segmentationFlag = tf_getSequenceFlags f in
      map_option (\<lambda>(status, m', w'). (status, m'\<lparr>lastSegmentationFlag := segmentationFlag\<rparr>, w'))
        (if segmentationFlag = NO_SEGMENTATION then map_option (\<lambda>(st, w'). (st, m, w')) (unpackBlockingPackets sys m w f)
         else if segmentationFlag = FIRST_PORTION then map_option (\<lambda>(st, m'). (st, m', w)) (extract_first m f)
         else if segmentationFlag = CONTINUING_PORTION \<or> segmentationFlag = LAST_PORTION then extract_next sys m w f
         else Some (DATA_CORRUPTED, clearBuffers m, w)))"

declare unpack_loop.simps [simp del]

subsection \<open>Reassembly of segments\<close>

definition frame_ok :: "frame \<Rightarrow> bool" where
  "frame_ok f \<longleftrightarrow> unat (tf_getDataLength f) \<le> length (getDataField f)"

definition frame_data :: "frame \<Rightarrow> bytes" where
  "frame_data f = take (unat (tf_getDataLength f)) (getDataField f)"

lemma length_frame_data [simp]: "frame_ok f \<Longrightarrow> length (frame_data f) = unat (tf_getDataLength f)"
  by (simp add: frame_ok_def frame_data_def)

fun extract_all :: "byte_order \<Rightarrow> map_extraction \<Rightarrow> tc_sink \<Rightarrow> frame list \<Rightarrow> (u16 list \<times> map_extraction \<times> tc_sink) option" where
  "extract_all sys m w [] = Some ([], m, w)"
| "extract_all sys m w (f # fs) =
     (case extractPackets sys m w f of
        None \<Rightarrow> None
      | Some (st, m', w') \<Rightarrow> map_option (\<lambda>(sts, m'', w''). (st # sts, m'', w'')) (extract_all sys m' w' fs))"

text \<open>A channel object that is set up, and one that has the bytes \<open>d\<close> of a packet in its buffer.\<close>

definition map_inv :: "map_extraction \<Rightarrow> bool" where
  "map_inv m \<longleftrightarrow> length (packetBuffer m) = MAX_PACKET_SIZE \<and> bufferPosition m = packetLength m
     \<and> packetLength m \<le> MAX_PACKET_SIZE \<and> packetStore m"

definition collecting :: "map_extraction \<Rightarrow> bytes \<Rightarrow> bool" where
  "collecting m d \<longleftrightarrow> map_inv m \<and> packetLength m = length d \<and> take (length d) (packetBuffer m) = d
     \<and> (lastSegmentationFlag m = FIRST_PORTION \<or> lastSegmentationFlag m = CONTINUING_PORTION)"

lemma first_collects:
  assumes "map_inv m" "frame_ok f" "tf_getSequenceFlags f = FIRST_PORTION" "length (frame_data f) \<le> MAX_PACKET_SIZE"
  shows "\<exists>m'. extractPackets sys m w f = Some (RETURN_OK, m', w) \<and> collecting m' (frame_data f) \<and> tcQueueId m' = tcQueueId m"
  using assms
  by (auto simp: extractPackets_def Let_def segmentation extract_first_def mem_copy_def map_inv_def frame_ok_def
      collecting_def frame_data_def)

lemma next_collects:
  assumes "collecting m d" "frame_ok f" "tf_getSequenceFlags f = CONTINUING_PORTION"
    "length d + length (frame_data f) \<le> MAX_PACKET_SIZE"
  shows "\<exists>m'. extractPackets sys m w f = Some (RETURN_OK, m', w) \<and> collecting m' (d @ frame_data f) \<and> tcQueueId m' = tcQueueId m"
proof -
  let ?n = "unat (tf_getDataLength f)"
  have c: "mem_copy (packetBuffer m) (length d) (getDataField f) ?n
      = Some (d @ frame_data f @ drop (length d + ?n) (packetBuffer m))"
    using assms by (simp add: mem_copy_def collecting_def map_inv_def frame_ok_def frame_data_def)
  show ?thesis using assms
    by (auto simp: extractPackets_def Let_def extract_next_def collecting_def map_inv_def c[unfolded collecting_def] segmentation)
qed

lemma last_completes:
  assumes "collecting m d" "frame_ok f" "tf_getSequenceFlags f = LAST_PORTION"
    "length d + length (frame_data f) \<le> MAX_PACKET_SIZE"
  shows "extractPackets sys m w f = map_option (\<lambda>(_, w'). (RETURN_OK, (clearBuffers m)\<lparr>lastSegmentationFlag := LAST_PORTION\<rparr>, w'))
     (sendCompletePacket sys (tcQueueId m) w (d @ frame_data f) (length (d @ frame_data f)))"
proof -
  let ?n = "unat (tf_getDataLength f)"
  have c: "mem_copy (packetBuffer m) (length d) (getDataField f) ?n
      = Some (d @ frame_data f @ drop (length d + ?n) (packetBuffer m))"
    using assms by (simp add: mem_copy_def collecting_def map_inv_def frame_ok_def frame_data_def)
  have r: "mem_read (d @ frame_data f @ x) 0 (length d + ?n) = mem_read (d @ frame_data f) 0 (length d + ?n)" for x
    using assms(2) by (simp add: mem_read_def)
  show ?thesis using assms
    by (auto simp: extractPackets_def Let_def extract_next_def collecting_def map_inv_def c segmentation map_send_def
        sendCompletePacket_def r clearBuffers_def option.map_comp comp_def split_def)
qed

lemma continuing_collects:
  assumes "collecting m d" "\<forall>f \<in> set fs. frame_ok f \<and> tf_getSequenceFlags f = CONTINUING_PORTION"
    "length d + length (concat (map frame_data fs)) \<le> MAX_PACKET_SIZE"
  shows "\<exists>m'. extract_all sys m w fs = Some (replicate (length fs) RETURN_OK, m', w)
     \<and> collecting m' (d @ concat (map frame_data fs)) \<and> tcQueueId m' = tcQueueId m"
  using assms
proof (induction fs arbitrary: m d)
  case (Cons f fs)
  then obtain m1 where m1: "extractPackets sys m w f = Some (RETURN_OK, m1, w)" "collecting m1 (d @ frame_data f)"
      "tcQueueId m1 = tcQueueId m"
    using next_collects[of m d f sys w] by auto
  obtain m' where "extract_all sys m1 w fs = Some (replicate (length fs) RETURN_OK, m', w)"
      "collecting m' ((d @ frame_data f) @ concat (map frame_data fs))" "tcQueueId m' = tcQueueId m1"
    using Cons.IH[OF m1(2)] Cons.prems by auto
  with m1 show ?case by auto
qed simp

lemma extract_all_append:
  "extract_all sys m w (fs @ gs) =
     (case extract_all sys m w fs of
        None \<Rightarrow> None
      | Some (sts, m', w') \<Rightarrow> map_option (\<lambda>(sts', m'', w''). (sts @ sts', m'', w'')) (extract_all sys m' w' gs))"
  by (induction fs arbitrary: m w) (auto split: option.splits prod.splits simp: map_option_case)

subsection \<open>Sending packets\<close>

locale packet_sink =
  fixes send :: "'w \<Rightarrow> bytes \<Rightarrow> (u16 \<times> 'w) option" and received :: "'w \<Rightarrow> bytes list" and ok :: "'w \<Rightarrow> bool"
    and item :: "bytes \<Rightarrow> bool"
  assumes send: "ok w \<Longrightarrow> item d \<Longrightarrow>
      \<exists>st w'. send w d = Some (st, w') \<and> ok w' \<and> received w' = received w @ (if st = RETURN_OK then [d] else [])"
begin

fun send_all :: "'w \<Rightarrow> bytes list \<Rightarrow> (u16 list \<times> 'w) option" where
  "send_all w [] = Some ([], w)"
| "send_all w (d # ds) =
     (case send w d of None \<Rightarrow> None | Some (st, w') \<Rightarrow> map_option (\<lambda>(sts, w''). (st # sts, w'')) (send_all w' ds))"

lemma send_all_received:
  assumes "ok w" "\<forall>d \<in> set ds. item d"
  shows "\<exists>sts w'. send_all w ds = Some (sts, w') \<and> ok w' \<and> length sts = length ds
     \<and> received w' = received w @ map snd (filter (\<lambda>(st, d). st = RETURN_OK) (zip sts ds))"
  using assms
proof (induction ds arbitrary: w)
  case (Cons d ds)
  then obtain st w1 where 1: "send w d = Some (st, w1)" "ok w1" "received w1 = received w @ (if st = RETURN_OK then [d] else [])"
    using send[of w d] by auto
  obtain sts w2 where "send_all w1 ds = Some (sts, w2)" "ok w2" "length sts = length ds"
      "received w2 = received w1 @ map snd (filter (\<lambda>(st, d). st = RETURN_OK) (zip sts ds))"
    using Cons.IH[OF 1(2)] Cons.prems by auto
  with 1 show ?case by auto
qed simp

end

text \<open>
  The store and the queue of the distributor: every queued message carries the address of a stored
  packet, and the packets received are those, in the order of the queue.
\<close>

definition queued :: "tc_sink \<Rightarrow> u32 \<Rightarrow> mq_message list" where
  "queued w qid = (case queueMap (tcQueues w) qid of Some q \<Rightarrow> messageQueue q | None \<Rightarrow> [])"

definition sink_received :: "byte_order \<Rightarrow> u32 \<Rightarrow> tc_sink \<Rightarrow> bytes list" where
  "sink_received sys qid w = map (\<lambda>m. the (pool_abs (tcStore w) (getStorageId sys m))) (queued w qid)"

definition sink_ok :: "byte_order \<Rightarrow> u32 \<Rightarrow> tc_sink \<Rightarrow> bool" where
  "sink_ok sys qid w \<longleftrightarrow> pool_inv (tcStore w) \<and> NUMBER_OF_POOLS (tcStore w) \<le> 255
     \<and> (\<forall>m \<in> set (queued w qid). pool_abs (tcStore w) (getStorageId sys m) \<noteq> None)"

lemma sender_sendMessage_cases:
  assumes "message_inv m" "messageSize m \<le> MAX_MESSAGE_SIZE" "sender_sendMessage sys qm qid m = (st, qm', m')"
  shows "(case queueMap qm' qid of Some q \<Rightarrow> messageQueue q | None \<Rightarrow> []) =
     (case queueMap qm qid of Some q \<Rightarrow> messageQueue q | None \<Rightarrow> []) @ (if st = RETURN_OK then [m] else [])"
  using assms(3,2)
  by (auto simp: sender_sendMessage_def sendMessageFromMessageQueue_def host_push_def split: option.splits if_splits)

lemma pool_abs_small_address:
  assumes "pool_inv lp" "NUMBER_OF_POOLS lp \<le> 255" "pool_abs lp a \<noteq> None"
  shows "pool_index a < 65536" "packet_index a < 65536"
  using assms unfolding pool_abs_def valid_address_def pool_inv_def
  by (auto split: if_splits intro: less_trans)

lemma sendCompletePacket_spec:
  assumes ok: "sink_ok sys qid w" and len: "length d < 2 ^ 32"
  shows "\<exists>st w'. sendCompletePacket sys qid w d (length d) = Some (st, w') \<and> sink_ok sys qid w'
     \<and> sink_received sys qid w' = sink_received sys qid w @ (if st = RETURN_OK then [d] else [])"
proof -
  have inv: "pool_inv (tcStore w)" and np: "NUMBER_OF_POOLS (tcStore w) \<le> 255"
    and held: "\<forall>m \<in> set (queued w qid). pool_abs (tcStore w) (getStorageId sys m) \<noteq> None"
    using ok by (auto simp: sink_ok_def)
  obtain st a lp where r: "addData (tcStore w) INVALID_ADDRESS d False = Some (st, a, lp)" "pool_inv lp"
      "if st = RETURN_OK then pool_abs (tcStore w) a = None \<and> pool_abs lp = (pool_abs (tcStore w))(a \<mapsto> d)
       else pool_abs lp = pool_abs (tcStore w)"
    using addData_spec[OF inv len, of INVALID_ADDRESS False] by blast
  have np': "NUMBER_OF_POOLS lp \<le> 255" using addData_config[OF r(1)] np by simp
  have read: "mem_read d 0 (length d) = Some d" by (simp add: mem_read_def)
  let ?w1 = "w\<lparr>tcStore := lp\<rparr>"
  show ?thesis
  proof (cases "st = RETURN_OK")
    case False
    then have "sendCompletePacket sys qid w d (length d) = Some (st, ?w1)"
      using read r(1) by (simp add: sendCompletePacket_def)
    with False r(2,3) np' held show ?thesis by (simp add: sink_ok_def sink_received_def queued_def)
  next
    case True
    then have fresh: "pool_abs (tcStore w) a = None" and upd: "pool_abs lp = (pool_abs (tcStore w))(a \<mapsto> d)" using r(3) by auto
    let ?m = "newTmTcMessage sys a"
    obtain st' qm' m' where s: "sender_sendMessage sys (tcQueues w) qid ?m = (st', qm', m')"
      by (cases "sender_sendMessage sys (tcQueues w) qid ?m") auto
    have mi: "message_inv ?m" "messageSize ?m \<le> MAX_MESSAGE_SIZE"
      by (simp_all add: newTmTcMessage_def message_inv_def newMessage_def setStorageId_def mq_sizes)
    have small: "pool_index a < 65536" "packet_index a < 65536"
      using pool_abs_small_address[OF r(2) np', of a] upd by auto
    have id: "getStorageId sys ?m = a"
      unfolding newTmTcMessage_def
      by (rule storage_id_round_trip[OF _ small]) (simp add: message_inv_def newMessage_def)
    let ?w2 = "w\<lparr>tcStore := lp, tcQueues := qm'\<rparr>"
    have q: "queued ?w2 qid = queued w qid @ (if st' = RETURN_OK then [?m] else [])"
      using sender_sendMessage_cases[OF mi s] by (simp add: queued_def)
    have "sendCompletePacket sys qid w d (length d) = Some (st', ?w2)"
      using read r(1) True s by (simp add: sendCompletePacket_def)
    moreover have "sink_ok sys qid ?w2"
      using r(2) np' held q id upd by (auto simp: sink_ok_def split: if_splits)
    moreover have "map (\<lambda>m. the (pool_abs lp (getStorageId sys m))) (queued w qid)
        = map (\<lambda>m. the (pool_abs (tcStore w) (getStorageId sys m))) (queued w qid)"
      using held fresh upd by (intro map_cong) auto
    then have "sink_received sys qid ?w2 = sink_received sys qid w @ (if st' = RETURN_OK then [d] else [])"
      using q id upd by (simp add: sink_received_def)
    ultimately show ?thesis by blast
  qed
qed

interpretation tc_sink: packet_sink "\<lambda>w d. sendCompletePacket sys qid w d (length d)" "sink_received sys qid"
    "sink_ok sys qid" "\<lambda>d. length d < 2 ^ 32"
  for sys qid
  by unfold_locales (rule sendCompletePacket_spec)

subsection \<open>Blocked packets\<close>

abbreviation deliver :: "byte_order \<Rightarrow> u32 \<Rightarrow> tc_sink \<Rightarrow> bytes list \<Rightarrow> (u16 list \<times> tc_sink) option" where
  "deliver sys qid \<equiv> packet_sink.send_all (\<lambda>w d. sendCompletePacket sys qid w d (length d))"

lemma getFullSize_append: "6 \<le> length p \<Longrightarrow> getFullSize (p @ r) = getFullSize p"
  by (simp add: getFullSize_def getPacketDataLength_def nth_append)

lemma send_prefix: "length p = n \<Longrightarrow> sendCompletePacket sys qid w (p @ r) n = sendCompletePacket sys qid w p n"
  by (simp add: sendCompletePacket_def mem_read_def)

lemma unpack_loop_blocked:
  assumes "packetStore m" "\<forall>p \<in> set ps. length p = getFullSize p \<and> MINIMUM_SIZE < length p"
  shows "unpack_loop sys m (length (concat ps)) (concat ps @ r) st w =
     map_option (\<lambda>(sts, w'). (0, if ps = [] then st else RETURN_OK, w')) (deliver sys (tcQueueId m) w ps)"
  using assms(2)
proof (induction ps arbitrary: st w)
  case (Cons p ps)
  then have p: "length p = getFullSize p" "8 < length p" by (auto simp: pus_sizes MINIMUM_SIZE_def)
  have sz: "getFullSize (p @ concat ps @ r) = length p" using p by (simp add: getFullSize_append)
  have ps: "\<forall>p \<in> set ps. length p = getFullSize p \<and> MINIMUM_SIZE < length p" using Cons.prems by auto
  show ?case
    using p assms(1) Cons.IH[OF ps, of RETURN_OK]
    by (subst unpack_loop.simps)
       (auto simp: pus_sizes MINIMUM_SIZE_def sz map_send_def send_prefix option.map_comp comp_def split_def map_option_case split: option.splits)
qed (simp add: unpack_loop.simps)

subsection \<open>Properties\<close>

text \<open>
  C35. A packet that comes in segments, a first frame, any number of continuing frames and a last one, of
  together at most 4096 bytes, is sent exactly once, as the concatenation of the frames' data, and the
  channel is ready for the next packet afterwards. What became of the sending is not reported: every
  frame is answered with \<open>RETURN_OK\<close>.
\<close>

theorem segments_reassembled:
  assumes "map_inv m" "\<forall>f \<in> set (first # mids @ [lst]). frame_ok f"
    and "tf_getSequenceFlags first = FIRST_PORTION" "\<forall>f \<in> set mids. tf_getSequenceFlags f = CONTINUING_PORTION"
    and "tf_getSequenceFlags lst = LAST_PORTION"
    and whole: "whole = concat (map frame_data (first # mids @ [lst]))" "length whole \<le> MAX_PACKET_SIZE"
  shows "\<exists>m'. extract_all sys m w (first # mids @ [lst])
       = map_option (\<lambda>(_, w'). (replicate (length mids + 2) RETURN_OK, m', w'))
           (sendCompletePacket sys (tcQueueId m) w whole (length whole))
     \<and> map_inv m' \<and> tcQueueId m' = tcQueueId m \<and> lastSegmentationFlag m' = LAST_PORTION"
proof -
  obtain m1 where 1: "extractPackets sys m w first = Some (RETURN_OK, m1, w)" "collecting m1 (frame_data first)"
      "tcQueueId m1 = tcQueueId m"
    using first_collects[of m first sys w] assms by auto
  obtain m2 where 2: "extract_all sys m1 w mids = Some (replicate (length mids) RETURN_OK, m2, w)"
      "collecting m2 (frame_data first @ concat (map frame_data mids))" "tcQueueId m2 = tcQueueId m"
    using continuing_collects[OF 1(2), of mids sys w] 1(3) assms by auto
  let ?m = "(clearBuffers m2)\<lparr>lastSegmentationFlag := LAST_PORTION\<rparr>"
  have 3: "extractPackets sys m2 w lst = map_option (\<lambda>(_, w'). (RETURN_OK, ?m, w'))
     (sendCompletePacket sys (tcQueueId m2) w whole (length whole))"
    using last_completes[OF 2(2), of lst sys w] assms by simp
  have "map_inv ?m" using 2(2) by (simp add: map_inv_def collecting_def clearBuffers_def)
  then show ?thesis
    by (intro exI[of _ ?m])
       (simp add: 1(1) extract_all_append 2(1,3) 3 option.map_comp comp_def split_def clearBuffers_def map_option_case
          replicate_append_same split: option.splits)
qed

text \<open>
  A frame without segmentation whose data field is filled with packets of more than eight bytes: the
  packets are sent one after the other, in order, and exactly those that were accepted by store and queue
  are added to what the distributor finds in its queue, whatever happened to the others. Every frame with
  a packet is answered with \<open>RETURN_OK\<close>.
\<close>

theorem blocked_packets_delivered:
  assumes "map_inv m" "sink_ok sys (tcQueueId m) w"
    and "tf_getSequenceFlags f = NO_SEGMENTATION" "frame_ok f" "frame_data f = concat ps" "ps \<noteq> []"
    and "length (concat ps) \<le> MAX_PACKET_SIZE" "\<forall>p \<in> set ps. length p = getFullSize p \<and> MINIMUM_SIZE < length p"
  shows "\<exists>sts w'. extractPackets sys m w f = Some (RETURN_OK, m\<lparr>lastSegmentationFlag := NO_SEGMENTATION\<rparr>, w')
     \<and> deliver sys (tcQueueId m) w ps = Some (sts, w') \<and> sink_ok sys (tcQueueId m) w'
     \<and> sink_received sys (tcQueueId m) w'
       = sink_received sys (tcQueueId m) w @ map snd (filter (\<lambda>(st, p). st = RETURN_OK) (zip sts ps))"
proof -
  have small: "\<forall>p \<in> set ps. length p < 2 ^ 32"
  proof
    fix p assume "p \<in> set ps"
    then have "length p = getFullSize p" using assms(8) by blast
    with getFullSize_pos(2)[of p] have "length p \<le> 65542" by simp
    then show "length p < 2 ^ 32" by (rule le_less_trans) simp
  qed
  obtain sts w' where d: "deliver sys (tcQueueId m) w ps = Some (sts, w')" "sink_ok sys (tcQueueId m) w'"
      "sink_received sys (tcQueueId m) w'
       = sink_received sys (tcQueueId m) w @ map snd (filter (\<lambda>(st, p). st = RETURN_OK) (zip sts ps))"
    using tc_sink.send_all_received[OF assms(2) small] by blast
  have len: "unat (tf_getDataLength f) = length (concat ps)" using assms(4,5) length_frame_data by metis
  then have field: "getDataField f = concat ps @ drop (length (concat ps)) (getDataField f)"
    using assms(5) unfolding frame_data_def by (metis append_take_drop_id)
  have loop: "unpack_loop sys m (length (concat ps)) (getDataField f) TOO_SHORT_BLOCKED_PACKET w = Some (0, RETURN_OK, w')"
    by (subst field, subst unpack_loop_blocked) (use assms d in \<open>auto simp: map_inv_def\<close>)
  have "unpackBlockingPackets sys m w f = Some (RETURN_OK, w')"
    using assms(7) loop by (simp add: unpackBlockingPackets_def len)
  then show ?thesis using d assms(3) by (simp add: extractPackets_def)
qed

subsection \<open>Witnesses\<close>

text \<open>A channel that is set up, a store and a queue, a packet in two segments, and one in a frame of its own.\<close>

definition sample_map :: map_extraction where
  "sample_map = (newMapPacketExtraction 1 0)\<lparr>packetStore := True, tcQueueId := 7\<rparr>"

definition sample_sink :: tc_sink where
  "sample_sink = \<lparr>tcStore = newLocalPool [16] [2] False,
     tcQueues = \<lparr>queueMap = [7 \<mapsto> newHostQueue 7 3 28], queueCounter = 8\<rparr>\<rparr>"

definition sample_first :: frame where "sample_first = [0, 0, 0, 9, 0, 0x41, 10, 20, 0, 0]"
definition sample_last :: frame where "sample_last = [0, 0, 0, 8, 1, 0x81, 30, 0, 0]"
definition sample_single :: frame where "sample_single = [0, 0, 0, 16, 0, 0xC1, 0, 0, 0, 0, 0, 2, 1, 2, 3, 0, 0]"

lemma sample_frames:
  "frame_ok sample_first" "frame_ok sample_last" "frame_ok sample_single" "frame_data sample_first = [10, 20]"
  "frame_data sample_last = [30]" "frame_data sample_single = [0, 0, 0, 0, 0, 2, 1, 2, 3]"
  "tf_getSequenceFlags sample_first = FIRST_PORTION" "tf_getSequenceFlags sample_last = LAST_PORTION"
  "tf_getSequenceFlags sample_single = NO_SEGMENTATION"
  by (simp_all add: frame_ok_def frame_data_def sample_first_def sample_last_def sample_single_def tf_getDataLength_def
      getFrameLength_def tf_sizes getDataField_def tf_getSequenceFlags_def segmentation)

lemma sample_map_inv: "map_inv sample_map"
  by (simp add: map_inv_def sample_map_def newMapPacketExtraction_def MAX_PACKET_SIZE_def)

lemma sample_sink_ok: "sink_ok sys 7 sample_sink"
  by (simp add: sink_ok_def sample_sink_def pool_inv_new queued_def newHostQueue_def) (simp add: newLocalPool_def)

theorem segments_reassembled_witness:
  "\<exists>m'. extract_all LITTLE_ENDIAN sample_map sample_sink [sample_first, sample_last]
       = map_option (\<lambda>(_, w'). ([RETURN_OK, RETURN_OK], m', w'))
           (sendCompletePacket LITTLE_ENDIAN (tcQueueId sample_map) sample_sink [10, 20, 30] 3)
     \<and> map_inv m' \<and> tcQueueId m' = tcQueueId sample_map \<and> lastSegmentationFlag m' = LAST_PORTION"
  using segments_reassembled[OF sample_map_inv, of sample_first "[]" sample_last "[10, 20, 30]" LITTLE_ENDIAN sample_sink]
  by (simp add: sample_frames MAX_PACKET_SIZE_def numeral_2_eq_2 numeral_3_eq_3 del: extract_all.simps)

theorem blocked_packets_delivered_witness:
  "\<exists>sts w'. extractPackets LITTLE_ENDIAN sample_map sample_sink sample_single
       = Some (RETURN_OK, sample_map\<lparr>lastSegmentationFlag := NO_SEGMENTATION\<rparr>, w')
     \<and> deliver LITTLE_ENDIAN (tcQueueId sample_map) sample_sink [[0, 0, 0, 0, 0, 2, 1, 2, 3]] = Some (sts, w')
     \<and> sink_ok LITTLE_ENDIAN (tcQueueId sample_map) w'
     \<and> sink_received LITTLE_ENDIAN (tcQueueId sample_map) w'
       = sink_received LITTLE_ENDIAN (tcQueueId sample_map) sample_sink
         @ map snd (filter (\<lambda>(st, p). st = RETURN_OK) (zip sts [[0, 0, 0, 0, 0, 2, 1, 2, 3]]))"
proof -
  have q: "tcQueueId sample_map = 7" by (simp add: sample_map_def)
  have g: "getFullSize [0, 0, 0, 0, 0, 2, 1, 2, 3] = 9" by (simp add: getFullSize_def getPacketDataLength_def pus_sizes)
  show ?thesis
    by (rule blocked_packets_delivered[OF sample_map_inv])
       (simp_all add: sample_frames sample_sink_ok q g MAX_PACKET_SIZE_def MINIMUM_SIZE_def pus_sizes)
qed

end
