(* ===== verification/Farm.thy ===== *)
theory Farm
  imports MapExtraction "HOL-Library.AList"
begin

text \<open>
  Frame acceptance and reporting: \<open>fsfw/datalinklayer/Clcw.cpp\<close> (the control word sent to ground), the
  three FARM-1 states \<open>Farm1StateOpen.cpp\<close>, \<open>Farm1StateWait.cpp\<close>, \<open>Farm1StateLockout.cpp\<close>, and
  \<open>VirtualChannelReception.cpp\<close>, whose \<open>currentState\<close> pointer selects one of them. \<open>farm_step\<close> is the
  step relation of the state machine; the lemmas classify a sequence number against the sliding window
  and relate the flags of the control word to the state in every reachable situation.
\<close>

subsection \<open>Clcw\<close>

text \<open>The register of four bytes; \<open>raw\<close> overlays them in the byte order of the processor.\<close>

record clcw =
  status :: u8
  virtualChannelIdSpare :: u8
  flags :: u8
  vRValue :: u8

definition getAsWhole :: "byte_order \<Rightarrow> clcw \<Rightarrow> u32" where
  "getAsWhole sys c = of_object_bytes sys [status c, virtualChannelIdSpare c, flags c, vRValue c]"

definition setWhole :: "byte_order \<Rightarrow> u32 \<Rightarrow> clcw" where
  "setWhole sys rawClcw =
     (let b = object_bytes sys rawClcw in
      \<lparr>status = b ! 0, virtualChannelIdSpare = b ! 1, flags = b ! 2, vRValue = b ! 3\<rparr>)"

definition newClcw :: clcw where
  "newClcw = \<lparr>status = 1, virtualChannelIdSpare = 0, flags = 0, vRValue = 0\<rparr>"

definition setVirtualChannel :: "clcw \<Rightarrow> u8 \<Rightarrow> clcw" where
  "setVirtualChannel c setChannel = c\<lparr>virtualChannelIdSpare := push_bit 2 (setChannel AND 0x3F)\<rparr>"

definition LOCKOUT_FLAG_POSITION :: nat where "LOCKOUT_FLAG_POSITION = 5"
definition WAIT_FLAG_POSITION :: nat where "WAIT_FLAG_POSITION = 4"
definition RETRANSMIT_FLAG_POSITION :: nat where "RETRANSMIT_FLAG_POSITION = 3"
definition NO_RF_AVIALABLE_POSITION :: nat where "NO_RF_AVIALABLE_POSITION = 7"
definition NO_BIT_LOCK_POSITION :: nat where "NO_BIT_LOCK_POSITION = 6"

lemmas flag_positions = LOCKOUT_FLAG_POSITION_def WAIT_FLAG_POSITION_def RETRANSMIT_FLAG_POSITION_def
  NO_RF_AVIALABLE_POSITION_def NO_BIT_LOCK_POSITION_def

definition put_flag :: "nat \<Rightarrow> u8 \<Rightarrow> bool \<Rightarrow> u8" where
  "put_flag pos fl b = (fl AND (0xFF XOR push_bit pos 1)) OR push_bit pos (of_bool b)"

definition setLockoutFlag :: "clcw \<Rightarrow> bool \<Rightarrow> clcw" where
  "setLockoutFlag c lockout = c\<lparr>flags := put_flag LOCKOUT_FLAG_POSITION (flags c) lockout\<rparr>"

definition setWaitFlag :: "clcw \<Rightarrow> bool \<Rightarrow> clcw" where
  "setWaitFlag c waitFlag = c\<lparr>flags := put_flag WAIT_FLAG_POSITION (flags c) waitFlag\<rparr>"

definition setRetransmitFlag :: "clcw \<Rightarrow> bool \<Rightarrow> clcw" where
  "setRetransmitFlag c retransmitFlag = c\<lparr>flags := put_flag RETRANSMIT_FLAG_POSITION (flags c) retransmitFlag\<rparr>"

definition setFarmBCount :: "clcw \<Rightarrow> u8 \<Rightarrow> clcw" where
  "setFarmBCount c cnt = c\<lparr>flags := (flags c AND 0b11111001) OR push_bit 1 (cnt AND 0x03)\<rparr>"

definition setReceiverFrameSequenceNumber :: "clcw \<Rightarrow> u8 \<Rightarrow> clcw" where
  "setReceiverFrameSequenceNumber c vR = c\<lparr>vRValue := vR\<rparr>"

definition setRFAvailable :: "clcw \<Rightarrow> bool \<Rightarrow> clcw" where
  "setRFAvailable c rfAvailable = c\<lparr>flags := put_flag NO_RF_AVIALABLE_POSITION (flags c) (\<not> rfAvailable)\<rparr>"

definition setBitLock :: "clcw \<Rightarrow> bool \<Rightarrow> clcw" where
  "setBitLock c bitLock = c\<lparr>flags := put_flag NO_BIT_LOCK_POSITION (flags c) (\<not> bitLock)\<rparr>"

text \<open>Reading the flags back, as ground does.\<close>

definition lockoutFlag :: "clcw \<Rightarrow> bool" where "lockoutFlag c \<longleftrightarrow> bit (flags c) 5"
definition waitFlag :: "clcw \<Rightarrow> bool" where "waitFlag c \<longleftrightarrow> bit (flags c) 4"
definition retransmitFlag :: "clcw \<Rightarrow> bool" where "retransmitFlag c \<longleftrightarrow> bit (flags c) 3"
definition farmBCount :: "clcw \<Rightarrow> u8" where "farmBCount c = take_bit 2 (drop_bit 1 (flags c))"

lemma bit_put_flag: "pos < 8 \<Longrightarrow> bit (put_flag pos fl b) k \<longleftrightarrow> (if k = pos then b else bit fl k)"
proof -
  assume p: "pos < 8"
  have "(0xFF :: u8) = - 1" by simp
  then have "put_flag pos fl b = (fl AND NOT (push_bit pos 1)) OR push_bit pos (of_bool b)"
    unfolding put_flag_def by (simp only: bit.xor_one_left)
  then show ?thesis using p bit_imp_le_length[of fl k]
    by (auto simp: bit_or_iff bit_and_iff bit_not_iff bit_push_bit_iff bit_of_bool_iff bit_1_iff possible_bit_def simp del: push_bit_of_1)
qed

lemma flag_simps [simp]:
  "lockoutFlag (setLockoutFlag c b) = b" "waitFlag (setLockoutFlag c b) = waitFlag c"
  "retransmitFlag (setLockoutFlag c b) = retransmitFlag c"
  "lockoutFlag (setWaitFlag c b) = lockoutFlag c" "waitFlag (setWaitFlag c b) = b"
  "retransmitFlag (setWaitFlag c b) = retransmitFlag c"
  "lockoutFlag (setRetransmitFlag c b) = lockoutFlag c" "waitFlag (setRetransmitFlag c b) = waitFlag c"
  "retransmitFlag (setRetransmitFlag c b) = b"
  by (simp_all add: lockoutFlag_def waitFlag_def retransmitFlag_def setLockoutFlag_def setWaitFlag_def
      setRetransmitFlag_def flag_positions bit_put_flag)

lemma flag_simps_counters [simp]:
  "lockoutFlag (setFarmBCount c n) = lockoutFlag c" "waitFlag (setFarmBCount c n) = waitFlag c"
  "retransmitFlag (setFarmBCount c n) = retransmitFlag c"
  "lockoutFlag (setReceiverFrameSequenceNumber c v) = lockoutFlag c" "waitFlag (setReceiverFrameSequenceNumber c v) = waitFlag c"
  "retransmitFlag (setReceiverFrameSequenceNumber c v) = retransmitFlag c"
  "vRValue (setReceiverFrameSequenceNumber c v) = v" "vRValue (setFarmBCount c n) = vRValue c"
  by (simp_all add: lockoutFlag_def waitFlag_def retransmitFlag_def setFarmBCount_def farmBCount_def
      setReceiverFrameSequenceNumber_def bit_simps)

lemma farmBCount_set [simp]: "farmBCount (setFarmBCount c n) = take_bit 2 n"
proof -
  have e: "n * 2 = push_bit 1 n" by (simp add: push_bit_eq_mult)
  have "bit (n * 2) (Suc k) \<longleftrightarrow> k < 7 \<and> bit n k" for k unfolding e by (auto simp: bit_push_bit_iff simp del: push_bit_Suc)
  then show ?thesis
    by (intro word8_eqI) (simp_all add: farmBCount_def setFarmBCount_def bit_simps)
qed

lemma setWhole_getAsWhole [simp]: "setWhole sys (getAsWhole sys c) = c"
proof -
  have "object_bytes sys (getAsWhole sys c) = [status c, virtualChannelIdSpare c, flags c, vRValue c]"
    unfolding getAsWhole_def by (rule object_bytes_of_object_bytes) simp
  then show ?thesis by (simp add: setWhole_def)
qed

subsection \<open>VirtualChannelReception\<close>

datatype farm_state = Open | Wait | Lockout

text \<open>The map of the channels is kept as \<open>std::map\<close> keeps it, in the order of the keys.\<close>

record virtual_channel =
  channelId :: u8
  slidingWindowWidth :: u8
  positiveWindow :: u8
  negativeWindow :: u8
  currentState :: farm_state
  internalClcw :: clcw
  vR :: u8
  farmBCounter :: u8
  mapChannels :: "(u8 \<times> map_extraction) list"

definition newVirtualChannelReception :: "u8 \<Rightarrow> u8 \<Rightarrow> virtual_channel" where
  "newVirtualChannelReception setChannelId setSlidingWindowWidth =
     \<lparr>channelId = setChannelId, slidingWindowWidth = setSlidingWindowWidth,
      positiveWindow = setSlidingWindowWidth div 2, negativeWindow = setSlidingWindowWidth div 2,
      currentState = Open, internalClcw = setVirtualChannel newClcw setChannelId, vR = 0, farmBCounter = 0,
      mapChannels = []\<rparr>"

text \<open>\<open>int8_t diff = getSequenceNumber() - vR\<close>.\<close>

definition seq_diff :: "virtual_channel \<Rightarrow> frame \<Rightarrow> int" where
  "seq_diff vc f = sint (tf_getSequenceNumber f - vR vc)"

definition upd_clcw :: "(clcw \<Rightarrow> clcw) \<Rightarrow> virtual_channel \<Rightarrow> virtual_channel" where
  "upd_clcw g vc = vc\<lparr>internalClcw := g (internalClcw vc)\<rparr>"

definition Open_handleADFrame :: "virtual_channel \<Rightarrow> frame \<Rightarrow> u16 \<times> virtual_channel" where
  "Open_handleADFrame vc f =
     (let diff = seq_diff vc f in
      if diff = 0 then (RETURN_OK, upd_clcw (\<lambda>c. setRetransmitFlag c False) (vc\<lparr>vR := vR vc + 1\<rparr>))
      else if diff < int (unat (positiveWindow vc)) \<and> diff > 0
      then (NS_POSITIVE_W, upd_clcw (\<lambda>c. setRetransmitFlag c True) vc)
      else if diff < 0 \<and> diff \<ge> - int (unat (negativeWindow vc)) then (NS_NEGATIVE_W, vc)
      else (NS_LOCKOUT, (upd_clcw (\<lambda>c. setLockoutFlag c True) vc)\<lparr>currentState := Lockout\<rparr>))"

definition Open_handleBCUnlockCommand :: "virtual_channel \<Rightarrow> u16 \<times> virtual_channel" where
  "Open_handleBCUnlockCommand vc =
     (BC_IS_UNLOCK_COMMAND, upd_clcw (\<lambda>c. setRetransmitFlag c False) (vc\<lparr>farmBCounter := farmBCounter vc + 1\<rparr>))"

definition Open_handleBCSetVrCommand :: "virtual_channel \<Rightarrow> u8 \<Rightarrow> u16 \<times> virtual_channel" where
  "Open_handleBCSetVrCommand vc vr =
     (BC_IS_SET_VR_COMMAND, (upd_clcw (\<lambda>c. setRetransmitFlag c False) (vc\<lparr>farmBCounter := farmBCounter vc + 1\<rparr>))\<lparr>vR := vr\<rparr>)"

definition Wait_handleADFrame :: "virtual_channel \<Rightarrow> frame \<Rightarrow> u16 \<times> virtual_channel" where
  "Wait_handleADFrame vc f =
     (let diff = seq_diff vc f in
      (FARM_IN_WAIT,
       if diff < - int (unat (negativeWindow vc)) \<or> diff \<ge> int (unat (positiveWindow vc))
       then (upd_clcw (\<lambda>c. setLockoutFlag c True) vc)\<lparr>currentState := Lockout\<rparr> else vc))"

definition Wait_handleBCUnlockCommand :: "virtual_channel \<Rightarrow> u16 \<times> virtual_channel" where
  "Wait_handleBCUnlockCommand vc =
     (BC_IS_UNLOCK_COMMAND,
      (upd_clcw (\<lambda>c. setWaitFlag (setRetransmitFlag c False) False)
        (vc\<lparr>farmBCounter := farmBCounter vc + 1\<rparr>))\<lparr>currentState := Open\<rparr>)"

definition Wait_handleBCSetVrCommand :: "virtual_channel \<Rightarrow> u8 \<Rightarrow> u16 \<times> virtual_channel" where
  "Wait_handleBCSetVrCommand vc vr =
     (BC_IS_SET_VR_COMMAND,
      (upd_clcw (\<lambda>c. setRetransmitFlag (setWaitFlag c False) False)
        (vc\<lparr>farmBCounter := farmBCounter vc + 1\<rparr>))\<lparr>vR := vr, currentState := Open\<rparr>)"

definition Lockout_handleADFrame :: "virtual_channel \<Rightarrow> frame \<Rightarrow> u16 \<times> virtual_channel" where
  "Lockout_handleADFrame vc f = (FARM_IN_LOCKOUT, vc)"

definition Lockout_handleBCUnlockCommand :: "virtual_channel \<Rightarrow> u16 \<times> virtual_channel" where
  "Lockout_handleBCUnlockCommand vc =
     (BC_IS_UNLOCK_COMMAND,
      (upd_clcw (\<lambda>c. setWaitFlag (setLockoutFlag (setRetransmitFlag c False) False) False)
        (vc\<lparr>farmBCounter := farmBCounter vc + 1\<rparr>))\<lparr>currentState := Open\<rparr>)"

definition Lockout_handleBCSetVrCommand :: "virtual_channel \<Rightarrow> u8 \<Rightarrow> u16 \<times> virtual_channel" where
  "Lockout_handleBCSetVrCommand vc vr = (BC_IS_SET_VR_COMMAND, vc\<lparr>farmBCounter := farmBCounter vc + 1\<rparr>)"

text \<open>The calls through \<open>currentState\<close>.\<close>

definition handleADFrame :: "virtual_channel \<Rightarrow> frame \<Rightarrow> u16 \<times> virtual_channel" where
  "handleADFrame vc f =
     (case currentState vc of Open \<Rightarrow> Open_handleADFrame vc f | Wait \<Rightarrow> Wait_handleADFrame vc f
      | Lockout \<Rightarrow> Lockout_handleADFrame vc f)"

definition handleBCUnlockCommand :: "virtual_channel \<Rightarrow> u16 \<times> virtual_channel" where
  "handleBCUnlockCommand vc =
     (case currentState vc of Open \<Rightarrow> Open_handleBCUnlockCommand vc | Wait \<Rightarrow> Wait_handleBCUnlockCommand vc
      | Lockout \<Rightarrow> Lockout_handleBCUnlockCommand vc)"

definition handleBCSetVrCommand :: "virtual_channel \<Rightarrow> u8 \<Rightarrow> u16 \<times> virtual_channel" where
  "handleBCSetVrCommand vc vr =
     (case currentState vc of Open \<Rightarrow> Open_handleBCSetVrCommand vc vr | Wait \<Rightarrow> Wait_handleBCSetVrCommand vc vr
      | Lockout \<Rightarrow> Lockout_handleBCSetVrCommand vc vr)"

definition handleBDFrame :: "virtual_channel \<Rightarrow> u16 \<times> virtual_channel" where
  "handleBDFrame vc = (RETURN_OK, vc\<lparr>farmBCounter := farmBCounter vc + 1\<rparr>)"

definition handleBCFrame :: "virtual_channel \<Rightarrow> frame \<Rightarrow> u16 \<times> virtual_channel" where
  "handleBCFrame vc f =
     (case bc_initialize newBcFrame (getFullDataField f) (getFullDataLength f) of
        (returnValue, content) \<Rightarrow>
          if returnValue = BC_IS_UNLOCK_COMMAND then handleBCUnlockCommand vc
          else if returnValue = BC_IS_SET_VR_COMMAND then handleBCSetVrCommand vc (bc_vR content)
          else (returnValue, vc))"

definition doFARM :: "virtual_channel \<Rightarrow> frame \<Rightarrow> u16 \<times> virtual_channel" where
  "doFARM vc f =
     (let typeValue = push_bit 1 (of_bool (bypassFlagSet f)) + of_bool (controlCommandFlagSet f) :: u8 in
      if typeValue = 0b00 then handleADFrame vc f
      else if typeValue = 0b10 then handleBDFrame vc
      else if typeValue = 0b11 then handleBCFrame vc f
      else (ILLEGAL_FLAG_COMBINATION, vc))"

definition setToWaitState :: "virtual_channel \<Rightarrow> virtual_channel" where
  "setToWaitState vc = (upd_clcw (\<lambda>c. setWaitFlag c True) vc)\<lparr>currentState := Wait\<rparr>"

definition addMapChannel :: "virtual_channel \<Rightarrow> u8 \<Rightarrow> map_extraction \<Rightarrow> u16 \<times> virtual_channel" where
  "addMapChannel vc k object =
     (if k \<in> fst ` set (mapChannels vc) then (RETURN_FAILED, vc)
      else (RETURN_OK, vc\<lparr>mapChannels := insort_key fst (k, object) (mapChannels vc)\<rparr>))"

definition mapDemultiplexing ::
  "byte_order \<Rightarrow> virtual_channel \<Rightarrow> tc_sink \<Rightarrow> frame \<Rightarrow> (u16 \<times> virtual_channel \<times> tc_sink) option" where
  "mapDemultiplexing sys vc w f =
     (case map_of (mapChannels vc) (getMAPId f) of
        None \<Rightarrow> Some (VC_NOT_FOUND, vc, w)
      | Some m \<Rightarrow> map_option (\<lambda>(r, m', w'). (r, vc\<lparr>mapChannels := AList.update (getMAPId f) m' (mapChannels vc)\<rparr>, w'))
                    (extractPackets sys m w f))"

definition frameAcceptanceAndReportingMechanism ::
  "byte_order \<Rightarrow> virtual_channel \<Rightarrow> tc_sink \<Rightarrow> frame \<Rightarrow> (u16 \<times> virtual_channel \<times> clcw \<times> tc_sink) option" where
  "frameAcceptanceAndReportingMechanism sys vc w f =
     (case doFARM vc f of
        (result, vc1) \<Rightarrow>
          let vc2 = upd_clcw (\<lambda>c. setFarmBCount (setReceiverFrameSequenceNumber c (vR vc1)) (farmBCounter vc1)) vc1;
              clcw = setWhole sys (getAsWhole sys (internalClcw vc2))
          in if result = RETURN_OK
             then map_option (\<lambda>(r, vc3, w'). (r, vc3, clcw, w')) (mapDemultiplexing sys vc2 w f)
             else if result = BC_IS_SET_VR_COMMAND \<or> result = BC_IS_UNLOCK_COMMAND then Some (RETURN_OK, vc2, clcw, w)
             else Some (result, vc2, clcw, w))"

text \<open>\<open>initialize\<close>: the result of the last channel that was initialised.\<close>

fun init_channels :: "('c \<Rightarrow> u16 \<times> 'c) \<Rightarrow> u16 \<Rightarrow> ('k \<times> 'c) list \<Rightarrow> u16 \<times> ('k \<times> 'c) list" where
  "init_channels ini r [] = (r, [])"
| "init_channels ini r ((k, c) # cs) =
     (case ini c of (r', c') \<Rightarrow>
        if r' \<noteq> RETURN_OK then (r', (k, c') # cs)
        else (case init_channels ini r' cs of (r'', cs') \<Rightarrow> (r'', (k, c') # cs')))"

definition vc_initialize :: "bool \<Rightarrow> (u32 \<Rightarrow> u32 option) \<Rightarrow> virtual_channel \<Rightarrow> u16 \<times> virtual_channel" where
  "vc_initialize store distributor vc =
     (if slidingWindowWidth vc > 254 \<or> slidingWindowWidth vc mod 2 \<noteq> 0 then (RETURN_FAILED, vc)
      else (case init_channels (map_initialize store distributor) RETURN_FAILED (mapChannels vc) of
              (r, ms) \<Rightarrow> (r, vc\<lparr>mapChannels := ms\<rparr>)))"

subsection \<open>The sliding window\<close>

lemma sint8: "sint (w :: u8) = (if unat w < 128 then int (unat w) else int (unat w) - 256)"
proof -
  define n where "n = unat w"
  have u: "uint w = int n" and n: "n < 256" by (simp_all add: n_def)
  have "sint w = (int n + 128) mod 256 - 128"
    by (simp add: sint_uint signed_take_bit_eq_take_bit_shift take_bit_eq_mod u)
  also have "(int n + 128) mod 256 = (if n < 128 then int n + 128 else int n - 128)"
  proof (cases "n < 128")
    case False
    have "(int n + 128) mod 256 = (int n - 128 + 256) mod 256" by (simp add: add.commute)
    also have "\<dots> = (int n - 128) mod 256" by (rule mod_add_self2)
    also have "\<dots> = int n - 128" using n False by (intro mod_pos_pos_trivial) auto
    finally show ?thesis using False by simp
  qed (simp add: mod_pos_pos_trivial)
  finally have "sint w = (if n < 128 then int n else int n - 256)" by simp
  then show ?thesis by (simp only: n_def)
qed

text \<open>How far a frame is ahead of the next expected one, around the circle of 256 numbers.\<close>

definition ahead :: "virtual_channel \<Rightarrow> frame \<Rightarrow> nat" where
  "ahead vc f = unat (tf_getSequenceNumber f - vR vc)"

lemma seq_diff_ahead: "seq_diff vc f = (if ahead vc f < 128 then int (ahead vc f) else int (ahead vc f) - 256)"
  by (simp add: seq_diff_def ahead_def sint8)

lemma ahead_less: "ahead vc f < 256"
  by (simp add: ahead_def)

definition window_ok :: "virtual_channel \<Rightarrow> bool" where
  "window_ok vc \<longleftrightarrow> unat (positiveWindow vc) \<le> 127 \<and> unat (negativeWindow vc) \<le> 127"

lemma open_window:
  assumes "window_ok vc"
  shows "Open_handleADFrame vc f =
    (if ahead vc f = 0 then (RETURN_OK, upd_clcw (\<lambda>c. setRetransmitFlag c False) (vc\<lparr>vR := vR vc + 1\<rparr>))
     else if ahead vc f < unat (positiveWindow vc) then (NS_POSITIVE_W, upd_clcw (\<lambda>c. setRetransmitFlag c True) vc)
     else if 256 - unat (negativeWindow vc) \<le> ahead vc f then (NS_NEGATIVE_W, vc)
     else (NS_LOCKOUT, (upd_clcw (\<lambda>c. setLockoutFlag c True) vc)\<lparr>currentState := Lockout\<rparr>))"
proof -
  define P N a where "P = unat (positiveWindow vc)" and "N = unat (negativeWindow vc)" and "a = ahead vc f"
  have b: "P \<le> 127" "N \<le> 127" "a < 256" using assms ahead_less by (simp_all add: P_def N_def a_def window_ok_def)
  show ?thesis
    unfolding Open_handleADFrame_def Let_def seq_diff_ahead P_def[symmetric] N_def[symmetric] a_def[symmetric]
    using b by auto
qed

lemma wait_window:
  assumes "window_ok vc"
  shows "Wait_handleADFrame vc f =
    (FARM_IN_WAIT,
     if ahead vc f < unat (positiveWindow vc) \<or> 256 - unat (negativeWindow vc) \<le> ahead vc f then vc
     else (upd_clcw (\<lambda>c. setLockoutFlag c True) vc)\<lparr>currentState := Lockout\<rparr>)"
proof -
  define P N a where "P = unat (positiveWindow vc)" and "N = unat (negativeWindow vc)" and "a = ahead vc f"
  have b: "P \<le> 127" "N \<le> 127" "a < 256" using assms ahead_less by (simp_all add: P_def N_def a_def window_ok_def)
  show ?thesis
    unfolding Wait_handleADFrame_def Let_def seq_diff_ahead P_def[symmetric] N_def[symmetric] a_def[symmetric]
    using b by auto
qed

subsection \<open>The flags in every reachable state\<close>

lemma upd_clcw_simps [simp]:
  "internalClcw (upd_clcw g vc) = g (internalClcw vc)" "currentState (upd_clcw g vc) = currentState vc"
  "vR (upd_clcw g vc) = vR vc" "farmBCounter (upd_clcw g vc) = farmBCounter vc" "mapChannels (upd_clcw g vc) = mapChannels vc"
  "positiveWindow (upd_clcw g vc) = positiveWindow vc" "negativeWindow (upd_clcw g vc) = negativeWindow vc"
  by (simp_all add: upd_clcw_def)

text \<open>
  The steps of a channel: a frame is handled, or the reception is told to wait, in whatever state. Each step
  carries a label that is false for one of them only: the wait in lockout, which makes the lockout flag
  stick (\<open>wait_in_lockout_sticks\<close> below). A state is reached \<open>calm\<close> if no such step was taken on the way.
\<close>

inductive farm_step :: "virtual_channel \<Rightarrow> bool \<Rightarrow> virtual_channel \<Rightarrow> bool" where
  handle: "frameAcceptanceAndReportingMechanism sys vc w f = Some (r, vc', c, w') \<Longrightarrow> farm_step vc True vc'"
| wait: "farm_step vc (currentState vc \<noteq> Lockout) (setToWaitState vc)"

inductive farm_reachable :: "u8 \<Rightarrow> u8 \<Rightarrow> bool \<Rightarrow> virtual_channel \<Rightarrow> bool" for chan width where
  start: "farm_reachable chan width True (newVirtualChannelReception chan width)"
| add: "farm_reachable chan width calm vc \<Longrightarrow> farm_reachable chan width calm (snd (addMapChannel vc k m))"
| init: "farm_reachable chan width calm vc \<Longrightarrow> farm_reachable chan width calm (snd (vc_initialize store dist vc))"
| step: "farm_reachable chan width calm vc \<Longrightarrow> farm_step vc b vc' \<Longrightarrow> farm_reachable chan width (calm \<and> b) vc'"

inductive_cases farm_stepE: "farm_step vc b vc'"

definition flags_inv :: "bool \<Rightarrow> virtual_channel \<Rightarrow> bool" where
  "flags_inv calm vc \<longleftrightarrow> (currentState vc = Lockout \<longrightarrow> lockoutFlag (internalClcw vc))
     \<and> (calm \<and> lockoutFlag (internalClcw vc) \<longrightarrow> currentState vc = Lockout)
     \<and> (currentState vc = Open \<longrightarrow> \<not> waitFlag (internalClcw vc)) \<and> (currentState vc = Wait \<longrightarrow> waitFlag (internalClcw vc))"

lemmas farm_handlers = Open_handleADFrame_def Wait_handleADFrame_def Lockout_handleADFrame_def
  Open_handleBCUnlockCommand_def Wait_handleBCUnlockCommand_def Lockout_handleBCUnlockCommand_def
  Open_handleBCSetVrCommand_def Wait_handleBCSetVrCommand_def Lockout_handleBCSetVrCommand_def

lemma handlers_flags_inv:
  assumes "flags_inv calm vc"
  shows "flags_inv calm (snd (handleADFrame vc f))" "flags_inv calm (snd (handleBCUnlockCommand vc))"
    "flags_inv calm (snd (handleBCSetVrCommand vc v))" "flags_inv calm (snd (handleBDFrame vc))"
  using assms
  by (cases "currentState vc";
      simp add: flags_inv_def handleADFrame_def handleBCUnlockCommand_def handleBCSetVrCommand_def handleBDFrame_def
        farm_handlers Let_def)+

lemma doFARM_flags_inv: "flags_inv calm vc \<Longrightarrow> flags_inv calm (snd (doFARM vc f))"
  by (simp add: doFARM_def Let_def handleBCFrame_def handlers_flags_inv split: prod.splits)

lemma flags_inv_cong:
  "internalClcw vc' = internalClcw vc \<Longrightarrow> currentState vc' = currentState vc \<Longrightarrow> flags_inv calm vc' = flags_inv calm vc"
  by (simp add: flags_inv_def)

lemma mapDemultiplexing_keeps:
  "mapDemultiplexing sys vc w f = Some (r, vc', w') \<Longrightarrow>
     internalClcw vc' = internalClcw vc \<and> currentState vc' = currentState vc \<and> vR vc' = vR vc \<and> farmBCounter vc' = farmBCounter vc"
  by (auto simp: mapDemultiplexing_def split: option.splits)

text \<open>What handling a frame leaves behind: the state after \<open>doFARM\<close>, reported in the control word.\<close>

lemma frameAcceptance_result:
  assumes "frameAcceptanceAndReportingMechanism sys vc w f = Some (r, vc', c, w')"
  shows "internalClcw vc' = c" "currentState vc' = currentState (snd (doFARM vc f))" "vR vc' = vR (snd (doFARM vc f))"
    "farmBCounter vc' = farmBCounter (snd (doFARM vc f))"
    "c = setFarmBCount (setReceiverFrameSequenceNumber (internalClcw (snd (doFARM vc f))) (vR vc')) (farmBCounter vc')"
  using assms
  by (auto simp: frameAcceptanceAndReportingMechanism_def Let_def split: prod.splits if_splits dest!: mapDemultiplexing_keeps)

lemma farm_step_flags_inv:
  assumes "farm_step vc b vc'" "flags_inv calm vc"
  shows "flags_inv (calm \<and> b) vc'"
  using assms(1)
proof (cases rule: farm_step.cases)
  case (handle sys w f r c w')
  note res = frameAcceptance_result[OF handle(2)]
  show ?thesis using doFARM_flags_inv[OF assms(2), of f] handle(1) by (simp add: flags_inv_def res(1,2)) (simp add: res(5))
next
  case wait
  with assms(2) show ?thesis by (auto simp: flags_inv_def setToWaitState_def)
qed

lemma reachable_flags_inv: "farm_reachable chan width calm vc \<Longrightarrow> flags_inv calm vc"
proof (induction rule: farm_reachable.induct)
  case start
  then show ?case
    by (simp add: flags_inv_def newVirtualChannelReception_def newClcw_def setVirtualChannel_def lockoutFlag_def waitFlag_def)
next
  case (add calm vc k m)
  then show ?case by (simp add: addMapChannel_def flags_inv_def)
next
  case (init calm vc store dist)
  then show ?case by (simp add: vc_initialize_def flags_inv_def split: prod.splits)
next
  case (step calm vc b vc')
  then show ?case using farm_step_flags_inv by blast
qed

subsection \<open>Frames are accepted in sequence\<close>

definition is_AD :: "frame \<Rightarrow> bool" where
  "is_AD f \<longleftrightarrow> \<not> bypassFlagSet f \<and> \<not> controlCommandFlagSet f"

definition is_BC :: "frame \<Rightarrow> bool" where
  "is_BC f \<longleftrightarrow> bypassFlagSet f \<and> controlCommandFlagSet f"

lemma doFARM_cases:
  "doFARM vc f = (if is_AD f then handleADFrame vc f else if is_BC f then handleBCFrame vc f
     else if bypassFlagSet f then handleBDFrame vc else (ILLEGAL_FLAG_COMBINATION, vc))"
  by (cases "bypassFlagSet f"; cases "controlCommandFlagSet f") (simp_all add: doFARM_def is_AD_def is_BC_def)

text \<open>The sequence numbers of the sequence-controlled frames a channel lets through.\<close>

fun accepted :: "virtual_channel \<Rightarrow> frame list \<Rightarrow> u8 list" where
  "accepted vc [] = []"
| "accepted vc (f # fs) =
     (case doFARM vc f of
        (r, vc') \<Rightarrow> if is_AD f \<and> r = RETURN_OK then tf_getSequenceNumber f # accepted vc' fs else accepted vc' fs)"

lemma farm_codes [simp]:
  "NS_POSITIVE_W \<noteq> RETURN_OK" "NS_NEGATIVE_W \<noteq> RETURN_OK" "NS_LOCKOUT \<noteq> RETURN_OK" "FARM_IN_WAIT \<noteq> RETURN_OK"
  "FARM_IN_LOCKOUT \<noteq> RETURN_OK" "BC_IS_UNLOCK_COMMAND \<noteq> RETURN_OK" "BC_IS_SET_VR_COMMAND \<noteq> RETURN_OK"
  "BC_ILLEGAL_COMMAND \<noteq> RETURN_OK" "ILLEGAL_FLAG_COMBINATION \<noteq> RETURN_OK" "BC_ILLEGAL_COMMAND \<noteq> BC_IS_UNLOCK_COMMAND"
  "BC_ILLEGAL_COMMAND \<noteq> BC_IS_SET_VR_COMMAND" "BC_IS_SET_VR_COMMAND \<noteq> BC_IS_UNLOCK_COMMAND"
  by (simp_all add: retcode)

lemma sint_0_iff: "sint (w :: u8) = 0 \<longleftrightarrow> w = 0"
proof -
  define n where "n = unat w"
  have "sint w = (if n < 128 then int n else int n - 256)" "n < 256" by (simp_all only: sint8 n_def unat_u8_less)
  then have "sint w = 0 \<longleftrightarrow> n = 0" by auto
  also have "\<dots> \<longleftrightarrow> w = 0" by (simp add: n_def unsigned_eq_0_iff)
  finally show ?thesis .
qed

lemma handleADFrame_accepts:
  "handleADFrame vc f = (r, vc') \<Longrightarrow>
     if r = RETURN_OK then tf_getSequenceNumber f = vR vc \<and> vR vc' = vR vc + 1 else vR vc' = vR vc"
  by (auto simp: handleADFrame_def farm_handlers Let_def seq_diff_def sint_0_iff split: farm_state.splits if_splits)

lemma accepted_in_order:
  assumes "\<forall>f \<in> set fs. \<not> is_BC f"
  shows "accepted vc fs = map (\<lambda>i. vR vc + of_nat i) [0..<length (accepted vc fs)]"
  using assms
proof (induction fs arbitrary: vc)
  case (Cons f fs)
  obtain r vc' where d: "doFARM vc f = (r, vc')" by (cases "doFARM vc f") auto
  have ih: "accepted vc' fs = map (\<lambda>i. vR vc' + of_nat i) [0..<length (accepted vc' fs)]"
    using Cons by simp
  show ?case
  proof (cases "is_AD f \<and> r = RETURN_OK")
    case True
    then have "tf_getSequenceNumber f = vR vc" "vR vc' = vR vc + 1"
      using handleADFrame_accepts[of vc f r vc'] d by (simp_all add: doFARM_cases)
    moreover have "map (\<lambda>i. vR vc + of_nat i) [0..<Suc n] = vR vc # map (\<lambda>i. vR vc + 1 + of_nat i) [0..<n]" for n
      by (simp add: upt_conv_Cons map_Suc_upt[symmetric] add.assoc del: upt_Suc)
    ultimately show ?thesis using True d ih by (simp del: upt_Suc)
  next
    case False
    have "vR vc' = vR vc"
      using False Cons.prems d handleADFrame_accepts[of vc f r vc']
      by (auto simp: doFARM_cases handleBDFrame_def split: if_splits)
    then show ?thesis using False d ih by (cases "is_AD f") simp_all
  qed
qed simp

subsection \<open>Properties\<close>

text \<open>
  C22. The window test of the open state, which the code makes on a signed difference of eight bits, is the
  one of the standard, on the circle of 256 numbers: the expected frame is accepted and \<open>V(R)\<close> advances, a
  frame ahead by less than the positive window asks for retransmission, one behind by at most the negative
  window is a duplicate, and every other one locks the channel. So it is for every legal window width.
\<close>

theorem farm_window:
  assumes "slidingWindowWidth vc \<le> 254" "positiveWindow vc = slidingWindowWidth vc div 2"
    "negativeWindow vc = slidingWindowWidth vc div 2" "currentState vc = Open"
  shows "handleADFrame vc f =
    (let a = unat (tf_getSequenceNumber f - vR vc); w = unat (slidingWindowWidth vc) div 2 in
     if a = 0 then (RETURN_OK, upd_clcw (\<lambda>c. setRetransmitFlag c False) (vc\<lparr>vR := vR vc + 1\<rparr>))
     else if a < w then (NS_POSITIVE_W, upd_clcw (\<lambda>c. setRetransmitFlag c True) vc)
     else if 256 - w \<le> a then (NS_NEGATIVE_W, vc)
     else (NS_LOCKOUT, (upd_clcw (\<lambda>c. setLockoutFlag c True) vc)\<lparr>currentState := Lockout\<rparr>))"
proof -
  have w: "unat (positiveWindow vc) = unat (slidingWindowWidth vc) div 2" "unat (negativeWindow vc) = unat (slidingWindowWidth vc) div 2"
    using assms(2,3) by (simp_all add: unat_div)
  moreover have "unat (slidingWindowWidth vc) \<le> 254" using assms(1) by (simp add: word_le_nat_alt)
  ultimately have "window_ok vc" by (simp add: window_ok_def)
  then show ?thesis using assms(4) w by (simp add: handleADFrame_def open_window ahead_def Let_def)
qed

theorem farm_window_witness:
  "fst (handleADFrame (newVirtualChannelReception 0 10) [0, 0, 0, 0, 3]) = NS_POSITIVE_W"
  using farm_window[of "newVirtualChannelReception 0 10" "[0, 0, 0, 0, 3]"]
  by (simp add: newVirtualChannelReception_def tf_getSequenceNumber_def Let_def)

text \<open>
  C21. In every state that a channel reaches from its construction, by adding and initialising map channels,
  handling frames and being told to wait, the control word that handling a frame returns has the lockout
  flag set in lockout, the wait flag set when waiting and not set when open, and carries \<open>V(R)\<close> and the low
  bits of the FARM-B counter. A set lockout flag means lockout as long as \<open>setToWaitState\<close>, which does not
  look at the state, has never been called in lockout; after such a call the flag stays set in the other
  states.
\<close>

theorem clcw_reports_state:
  assumes "farm_reachable chan width calm vc" "frameAcceptanceAndReportingMechanism sys vc w f = Some (r, vc', c, w')"
  shows "(currentState vc' = Lockout \<longrightarrow> lockoutFlag c) \<and> (calm \<longrightarrow> lockoutFlag c \<longrightarrow> currentState vc' = Lockout)
     \<and> (currentState vc' = Open \<longrightarrow> \<not> waitFlag c) \<and> (currentState vc' = Wait \<longrightarrow> waitFlag c)
     \<and> vRValue c = vR vc' \<and> farmBCount c = take_bit 2 (farmBCounter vc')"
  using reachable_flags_inv[OF farm_reachable.step[OF assms(1) farm_step.handle[OF assms(2)]]]
    frameAcceptance_result(1,5)[OF assms(2)]
  by (auto simp: flags_inv_def)

text \<open>
  Whatever frames arrive, in whatever state: as long as no control command is among them, the sequence
  numbers of the frames accepted in sequence are \<open>V(R)\<close>, \<open>V(R) + 1\<close>, and so on, modulo 256, without gap or
  repetition.
\<close>

theorem farm_accepts_in_sequence:
  assumes "\<forall>f \<in> set fs. \<not> (bypassFlagSet f \<and> controlCommandFlagSet f)"
  shows "accepted vc fs = map (\<lambda>i. vR vc + of_nat i) [0..<length (accepted vc fs)]"
  by (rule accepted_in_order) (use assms in \<open>simp add: is_BC_def\<close>)

theorem farm_accepts_in_sequence_witness:
  "accepted (newVirtualChannelReception 0 10) [[0, 0, 0, 0, 0], [0, 0, 0, 0, 5], [0, 0, 0, 0, 1]]
     = map (\<lambda>i. vR (newVirtualChannelReception 0 10) + of_nat i)
         [0..<length (accepted (newVirtualChannelReception 0 10) [[0, 0, 0, 0, 0], [0, 0, 0, 0, 5], [0, 0, 0, 0, 1]])]"
  by (rule farm_accepts_in_sequence) (simp add: bypassFlagSet_def)

text \<open>
  \<open>setToWaitState\<close> does not look at the state. Called in lockout, it leaves the lockout flag set while
  the state becomes \<open>Wait\<close>; the next unlock command opens the channel without clearing that flag, and the
  control word then reports a lockout of a channel that accepts frames.
\<close>

theorem wait_in_lockout_sticks:
  assumes "lockoutFlag (internalClcw vc)" "bypassFlagSet f" "controlCommandFlagSet f"
    and "getFullDataLength f = 1" "getFullDataField f ! 0 = UNLOCK_COMMAND"
  shows "\<exists>vc' c. frameAcceptanceAndReportingMechanism sys (setToWaitState vc) w f = Some (RETURN_OK, vc', c, w)
     \<and> currentState vc' = Open \<and> lockoutFlag c"
proof -
  have b: "handleBCFrame (setToWaitState vc) f = handleBCUnlockCommand (setToWaitState vc)"
    using assms(4,5) by (simp add: handleBCFrame_def bc_initialize_def Let_def)
  have s: "currentState (setToWaitState vc) = Wait" by (simp add: setToWaitState_def)
  have d: "doFARM (setToWaitState vc) f = Wait_handleBCUnlockCommand (setToWaitState vc)"
    using assms(2,3) by (simp add: doFARM_cases is_AD_def is_BC_def b handleBCUnlockCommand_def s)
  have l: "lockoutFlag (internalClcw (setToWaitState vc))" using assms(1) by (simp add: setToWaitState_def)
  show ?thesis
    unfolding frameAcceptanceAndReportingMechanism_def d Wait_handleBCUnlockCommand_def
    using l by (simp add: Let_def)
qed

theorem clcw_reports_state_witness:
  "\<exists>vc' c. frameAcceptanceAndReportingMechanism LITTLE_ENDIAN (newVirtualChannelReception 1 10) sample_sink [0, 0, 0, 0, 3]
       = Some (NS_POSITIVE_W, vc', c, sample_sink)
     \<and> (lockoutFlag c \<longrightarrow> currentState vc' = Lockout) \<and> vRValue c = vR vc'"
proof -
  let ?vc = "newVirtualChannelReception 1 10" and ?f = "[0, 0, 0, 0, 3] :: u8 list"
  have w: "window_ok ?vc" by (simp add: window_ok_def newVirtualChannelReception_def)
  have a: "ahead ?vc ?f = 3" by (simp add: ahead_def newVirtualChannelReception_def tf_getSequenceNumber_def)
  have "doFARM ?vc ?f = (NS_POSITIVE_W, upd_clcw (\<lambda>c. setRetransmitFlag c True) ?vc)"
    using open_window[OF w, of ?f] a
    by (simp add: doFARM_cases is_AD_def bypassFlagSet_def controlCommandFlagSet_def handleADFrame_def
        newVirtualChannelReception_def)
  then obtain vc' c where r: "frameAcceptanceAndReportingMechanism LITTLE_ENDIAN ?vc sample_sink ?f = Some (NS_POSITIVE_W, vc', c, sample_sink)"
    by (simp add: frameAcceptanceAndReportingMechanism_def Let_def) (simp add: retcode)
  from clcw_reports_state[OF farm_reachable.start r] r show ?thesis by blast
qed

theorem wait_in_lockout_sticks_witness:
  "\<exists>vc' c. frameAcceptanceAndReportingMechanism LITTLE_ENDIAN
       (setToWaitState (upd_clcw (\<lambda>c. setLockoutFlag c True) ((newVirtualChannelReception 1 10)\<lparr>currentState := Lockout\<rparr>)))
       sample_sink [0x30, 0, 0, 7, 0, 0, 0, 0] = Some (RETURN_OK, vc', c, sample_sink)
     \<and> currentState vc' = Open \<and> lockoutFlag c"
  by (rule wait_in_lockout_sticks)
     (simp_all add: bypassFlagSet_def controlCommandFlagSet_def getFullDataLength_def getFrameLength_def tf_sizes
        getFullDataField_def UNLOCK_COMMAND_def)

end
