(* ===== verification/DataLink.thy ===== *)
theory DataLink
  imports Farm
begin

text \<open>
  The data link layer, \<open>fsfw/datalinklayer/DataLinkLayer.cpp\<close>: it takes a frame candidate from the
  receive buffer, validates it and hands it to the virtual channel it is addressed to. The lemmas connect
  it with the frames of theory \<open>TransferFrame\<close> and the channels of theory \<open>Farm\<close>.
\<close>

subsection \<open>State and operations\<close>

text \<open>
  \<open>frameBuffer\<close> is a pointer into the receive buffer, here its offset; the buffer itself (\<open>mem\<close>) is
  written by the receiver between the calls.
\<close>

record data_link_layer =
  spacecraftId :: u16
  frameBuffer :: nat
  dl_clcw :: clcw
  receivedDataLength :: u16
  currentFrame :: frame
  startSequenceLength :: u8
  virtualChannels :: "(u8 \<times> virtual_channel) list"

definition FRAME_VERSION_NUMBER_DEFAULT :: u8 where "FRAME_VERSION_NUMBER_DEFAULT = 0"
definition FRAME_PRIMARY_HEADER_LENGTH :: int where "FRAME_PRIMARY_HEADER_LENGTH = 5"
definition START_SEQUENCE_PATTERN :: u8 where "START_SEQUENCE_PATTERN = 0"

definition newDataLinkLayer :: "nat \<Rightarrow> clcw \<Rightarrow> u8 \<Rightarrow> u16 \<Rightarrow> data_link_layer" where
  "newDataLinkLayer set_frame_buffer setClcw set_start_sequence_length set_scid =
     \<lparr>spacecraftId = set_scid, frameBuffer = set_frame_buffer, dl_clcw = setClcw, receivedDataLength = 0,
      currentFrame = [], startSequenceLength = set_start_sequence_length, virtualChannels = []\<rparr>"

text \<open>The number of pattern bytes in front; \<open>None\<close> when the search leaves the buffer.\<close>

fun skip_pattern :: "bytes \<Rightarrow> nat option" where
  "skip_pattern [] = None"
| "skip_pattern (b # bs) = (if b = START_SEQUENCE_PATTERN then map_option Suc (skip_pattern bs) else Some 0)"

definition frameDelimitingAndFillRemoval :: "data_link_layer \<Rightarrow> bytes \<Rightarrow> (u16 \<times> data_link_layer) option" where
  "frameDelimitingAndFillRemoval dl mem =
     (if int (unat (receivedDataLength dl)) - int (unat (startSequenceLength dl)) < FRAME_PRIMARY_HEADER_LENGTH
      then Some (SHORTER_THAN_HEADER, dl)
      else map_option (\<lambda>n. (RETURN_OK, dl\<lparr>frameBuffer := frameBuffer dl + n, currentFrame := drop (frameBuffer dl + n) mem\<rparr>))
             (skip_pattern (drop (frameBuffer dl) mem)))"

definition frameCheckCRC :: "frame \<Rightarrow> u16 option" where
  "frameCheckCRC f =
     map_option (\<lambda>bs. if crc16 bs = 0 then RETURN_OK else CRC_FAILED) (mem_read f 0 (unat (tf_getFullSize f)))"

text \<open>\<open>None\<close> when the header or the frame as long as it says leaves the buffer.\<close>

definition frameValidationCheck :: "u16 \<Rightarrow> u16 \<Rightarrow> frame \<Rightarrow> u16 option" where
  "frameValidationCheck scid received f =
     (if length f < FRAME_HEADER_SIZE then None
      else if getVersionNumber f \<noteq> FRAME_VERSION_NUMBER_DEFAULT then Some WRONG_TF_VERSION
      else if getSpacecraftId f \<noteq> scid then Some WRONG_SPACECRAFT_ID
      else if \<not> bypassFlagSet f \<and> controlCommandFlagSet f then Some NO_VALID_FRAME_TYPE
      else if \<not> spareIsZero f then Some NO_VALID_FRAME_TYPE
      else if tf_getFullSize f > received then Some FRAME_TOO_SHORT
      else frameCheckCRC f)"

definition allFramesReception :: "data_link_layer \<Rightarrow> bytes \<Rightarrow> (u16 \<times> data_link_layer) option" where
  "allFramesReception dl mem =
     Option.bind (frameDelimitingAndFillRemoval dl mem) (\<lambda>(st, dl1).
       if st \<noteq> RETURN_OK then Some (st, dl1)
       else map_option (\<lambda>st'. (st', dl1))
              (frameValidationCheck (spacecraftId dl1) (receivedDataLength dl1) (currentFrame dl1)))"

definition virtualChannelDemultiplexing ::
  "byte_order \<Rightarrow> data_link_layer \<Rightarrow> tc_sink \<Rightarrow> (u16 \<times> data_link_layer \<times> tc_sink) option" where
  "virtualChannelDemultiplexing sys dl w =
     (let vcId = getVirtualChannelId (currentFrame dl) in
      case map_of (virtualChannels dl) vcId of
        None \<Rightarrow> Some (RETURN_OK, dl, w)
      | Some vc \<Rightarrow>
          map_option (\<lambda>(r, vc', c, w'). (r, dl\<lparr>dl_clcw := c, virtualChannels := AList.update vcId vc' (virtualChannels dl)\<rparr>, w'))
            (frameAcceptanceAndReportingMechanism sys vc w (currentFrame dl)))"

definition masterChannelDemultiplexing ::
  "byte_order \<Rightarrow> data_link_layer \<Rightarrow> tc_sink \<Rightarrow> (u16 \<times> data_link_layer \<times> tc_sink) option" where
  "masterChannelDemultiplexing sys dl w = virtualChannelDemultiplexing sys dl w"

definition processFrame ::
  "byte_order \<Rightarrow> data_link_layer \<Rightarrow> tc_sink \<Rightarrow> bytes \<Rightarrow> u16 \<Rightarrow> (u16 \<times> data_link_layer \<times> tc_sink) option" where
  "processFrame sys dl w mem len =
     Option.bind (allFramesReception (dl\<lparr>receivedDataLength := len\<rparr>) mem) (\<lambda>(st, dl1).
       if st \<noteq> RETURN_OK then Some (st, dl1, w) else masterChannelDemultiplexing sys dl1 w)"

definition addVirtualChannel :: "data_link_layer \<Rightarrow> u8 \<Rightarrow> virtual_channel \<Rightarrow> u16 \<times> data_link_layer" where
  "addVirtualChannel dl k object =
     (if k \<in> fst ` set (virtualChannels dl) then (RETURN_FAILED, dl)
      else (RETURN_OK, dl\<lparr>virtualChannels := insort_key fst (k, object) (virtualChannels dl)\<rparr>))"

definition dl_initialize :: "bool \<Rightarrow> (u32 \<Rightarrow> u32 option) \<Rightarrow> data_link_layer \<Rightarrow> u16 \<times> data_link_layer" where
  "dl_initialize store distributor dl =
     (case virtualChannels dl of
        [] \<Rightarrow> (RETURN_FAILED, dl)
      | (k, vc) # _ \<Rightarrow>
          let dl1 = dl\<lparr>dl_clcw := setVirtualChannel (dl_clcw dl) (channelId vc)\<rparr> in
          (case init_channels (vc_initialize store distributor) RETURN_FAILED (virtualChannels dl1) of
             (r, vcs) \<Rightarrow> (r, dl1\<lparr>virtualChannels := vcs\<rparr>)))"

subsection \<open>Properties\<close>

lemma skip_none: "xs ! 0 \<noteq> 0 \<Longrightarrow> xs \<noteq> [] \<Longrightarrow> skip_pattern xs = Some 0"
  by (cases xs) (simp_all add: START_SEQUENCE_PATTERN_def)

lemma skip_zeros: "b \<noteq> 0 \<Longrightarrow> skip_pattern (replicate k 0 @ b # bs) = Some k"
  by (induction k) (simp_all add: START_SEQUENCE_PATTERN_def)

lemma dl_codes [simp]: "SHORTER_THAN_HEADER \<noteq> RETURN_OK" "CRC_FAILED \<noteq> RETURN_OK" "WRONG_TF_VERSION \<noteq> RETURN_OK"
  "WRONG_SPACECRAFT_ID \<noteq> RETURN_OK" "NO_VALID_FRAME_TYPE \<noteq> RETURN_OK" "FRAME_TOO_SHORT \<noteq> RETURN_OK"
  by (simp_all add: retcode)

lemma built_frame_valid:
  assumes raw: "length raw = LOCAL_FRAME_SIZE" and len: "length bs \<le> 1016" and ids: "scid < 1024" "vcId < 64"
    and built: "newTcTransferFrameLocal raw bypass False scid vcId sequenceNumber seg (Some bs) 0 = Some fr"
    and received: "length bs + 8 \<le> unat received"
    and f_def: "f = fr @ tail"
  shows "frameValidationCheck scid received f = Some RETURN_OK" "getVirtualChannelId f = vcId"
    "tf_getSequenceNumber f = sequenceNumber" "getMAPId f = take_bit 6 seg" "tf_getSequenceFlags f = drop_bit 6 seg"
    "frame_ok f" "frame_data f = bs" "bypassFlagSet f = bypass" "\<not> controlCommandFlagSet f"
proof -
  let ?n = "length bs"
  define lth :: u16 where "lth = of_nat (?n + 7)"
  define hdr where "hdr = frame_header bypass False scid vcId lth sequenceNumber seg"
  obtain crc rest where c: "fr = hdr @ bs @ crc @ rest" "length crc = 2" "crc16 (hdr @ bs @ crc) = 0"
    using built_frame[OF raw _ len, of bypass False hdr scid vcId sequenceNumber seg] built
    by (auto simp: hdr_def lth_def)
  have u: "unat lth = ?n + 7" unfolding lth_def using len by (simp only: unsigned_of_nat) (simp add: take_bit_nat_eq_self)
  then have l: "lth < 1024" using len by (simp add: word_less_nat_alt)
  have f: "f = frame_header bypass False scid vcId lth sequenceNumber seg @ bs @ crc @ rest @ tail"
    by (simp add: f_def c(1) hdr_def)
  note fld = frame_header_fields[OF ids l f]
  show "getVirtualChannelId f = vcId" "tf_getSequenceNumber f = sequenceNumber" "getMAPId f = take_bit 6 seg"
    "tf_getSequenceFlags f = drop_bit 6 seg" "bypassFlagSet f = bypass" "\<not> controlCommandFlagSet f"
    using fld by simp_all
  have fl: "unat (getFrameLength f) = ?n + 7" using fld(7) u by simp
  note ls = tf_lengths[OF fl len]
  have h6: "length hdr = 6" by (simp add: hdr_def)
  have df: "getDataField f = bs @ crc @ rest @ tail" using f by (simp add: getDataField_def tf_sizes)
  show "frame_ok f" "frame_data f = bs" using ls(2) df by (simp_all add: frame_ok_def frame_data_def)
  have "mem_read f 0 (?n + 8) = Some (hdr @ bs @ crc)"
    using h6 c(2) by (simp add: mem_read_def f hdr_def)
  then have "frameCheckCRC f = Some RETURN_OK" using c(3) by (simp add: frameCheckCRC_def ls(1))
  moreover have "\<not> tf_getFullSize f > received" using received ls(1) by (simp add: word_less_nat_alt)
  moreover have "FRAME_HEADER_SIZE \<le> length f" by (simp add: f tf_sizes)
  ultimately show "frameValidationCheck scid received f = Some RETURN_OK"
    using fld by (simp add: frameValidationCheck_def FRAME_VERSION_NUMBER_DEFAULT_def)
qed

text \<open>
  The first byte of a built frame is the bypass flag and the two upper bits of the spacecraft id; a run of
  zero bytes at the start of a frame ends with the length field at the latest.
\<close>

lemma first_byte_zero:
  assumes "scid < 1024" "vcId < 64" "lth < 1024"
  shows "frame_header bypass False scid vcId lth n seg ! 0 = 0 \<longleftrightarrow> \<not> bypass \<and> scid < 256"
proof
  let ?f = "frame_header bypass False scid vcId lth n seg @ []"
  note fld = frame_header_fields[OF assms refl, of bypass False n seg "[]"]
  assume z: "frame_header bypass False scid vcId lth n seg ! 0 = 0"
  then have z': "?f ! 0 = 0" by simp
  have "\<not> bypassFlagSet ?f" unfolding bypassFlagSet_def z' by simp
  moreover have "getSpacecraftId ?f = ucast (?f ! 1)" unfolding getSpacecraftId_def z' by simp
  then have "unat (getSpacecraftId ?f) < 256" using unat_u8_less[of "?f ! 1"] by simp
  ultimately show "\<not> bypass \<and> scid < 256" using fld(2,5) by (simp add: word_less_nat_alt)
next
  assume a: "\<not> bypass \<and> scid < 256"
  then have b: "\<not> bit scid k" if "8 \<le> k" for k using small_word_bit[of scid 8 k] that by simp
  have "drop_bit 8 (scid AND 0x0300) = take_bit 2 (drop_bit 8 scid)" by (rule word16_eqI) (simp_all add: bit_simps)
  also have "\<dots> = 0" by (rule bit_eqI) (simp add: bit_simps b)
  finally show "frame_header bypass False scid vcId lth n seg ! 0 = 0" using a by (simp add: frame_header_def)
qed

lemma header_zero_run:
  assumes "scid < 1024" "vcId < 64" "lth < 1024" "0 < lth" "frame_header bypass False scid vcId lth n seg ! 0 = 0"
    and f: "f = frame_header bypass False scid vcId lth n seg @ rest"
  obtains k b r where "k \<in> {1, 2, 3}" "f = replicate k 0 @ b # r" "b \<noteq> 0"
proof -
  note fld = frame_header_fields[OF assms(1-3) f]
  obtain b0 b1 b2 b3 b4 b5 r where p: "f = b0 # b1 # b2 # b3 # b4 # b5 # r"
    by (rule header_cases[of f]) (simp add: f)
  have z: "b0 = 0" using assms(5) f p by (simp add: frame_header_def)
  have l: "b2 \<noteq> 0 \<or> b3 \<noteq> 0" using fld(7) assms(4) by (auto simp: p getFrameLength_def)
  show thesis
  proof (cases "b1 = 0")
    case False
    then show thesis using that[of 1 b1] z by (simp add: p)
  next
    case b1: True
    show thesis
    proof (cases "b2 = 0")
      case False
      then show thesis using that[of 2 b2] z b1 by (simp add: p numeral_eq_Suc)
    next
      case True
      then show thesis using that[of 3 b3] z b1 l by (simp add: p numeral_eq_Suc)
    qed
  qed
qed

text \<open>
  The pointer to the receive buffer is moved over leading bytes with the start pattern and never set
  back: after a candidate with \<open>k\<close> zero bytes in front, frames are read \<open>k\<close> bytes further on for good, and
  so is the frame itself when its first byte is zero, as it is for a sequence-controlled frame to a
  spacecraft id below 256.
\<close>

theorem frame_buffer_drifts:
  assumes "drop (frameBuffer dl) mem = replicate k 0 @ b # rest" "b \<noteq> 0"
    and "processFrame sys dl w mem len = Some (r, dl', w')" "unat (startSequenceLength dl) + 5 \<le> unat len"
  shows "frameBuffer dl' = frameBuffer dl + k \<and> currentFrame dl' = b # rest"
proof -
  let ?d = "dl\<lparr>receivedDataLength := len\<rparr>"
  have long: "\<not> int (unat len) - int (unat (startSequenceLength dl)) < FRAME_PRIMARY_HEADER_LENGTH"
    using assms(4) unfolding FRAME_PRIMARY_HEADER_LENGTH_def by linarith
  have dr: "drop (frameBuffer dl + k) mem = b # rest"
    using arg_cong[OF assms(1), of "drop k"] by (simp add: add.commute)
  have "frameDelimitingAndFillRemoval ?d mem
      = Some (RETURN_OK, ?d\<lparr>frameBuffer := frameBuffer dl + k, currentFrame := b # rest\<rparr>)"
    using long dr by (simp add: frameDelimitingAndFillRemoval_def assms(1) skip_zeros[OF assms(2)])
  then show ?thesis using assms(3)
    by (auto simp: processFrame_def allFramesReception_def masterChannelDemultiplexing_def virtualChannelDemultiplexing_def
        Let_def bind_eq_Some_conv split: if_splits option.splits)
qed

text \<open>
  C24. A data frame that was built by \<open>TcTransferFrameLocal\<close> and lies in the receive buffer carries the
  virtual channel, sequence number, segment header and data it was built with. If it has the bypass flag
  or a spacecraft id of 256 or more, it passes every check of a receiver with the same spacecraft id and
  reaches the demultiplexing. If not, that is for every sequence-controlled frame to a smaller spacecraft
  id, its first byte is zero, the removal of the start sequence takes one to three bytes of its header
  away, and whatever comes of the rest, the pointer to the buffer stays displaced by as much.
\<close>

theorem frame_round_trip:
  assumes "length raw = LOCAL_FRAME_SIZE" "length bs \<le> 1016" "scid < 1024" "vcId < 64"
    and built: "newTcTransferFrameLocal raw bypass False scid vcId sequenceNumber seg (Some bs) 0 = Some fr"
    and buf: "drop (frameBuffer dl) mem = fr @ tail" and scid: "spacecraftId dl = scid"
    and len: "length bs + 8 \<le> unat len" "unat (startSequenceLength dl) + 5 \<le> unat len"
  shows "getVirtualChannelId (fr @ tail) = vcId \<and> tf_getSequenceNumber (fr @ tail) = sequenceNumber
    \<and> getMAPId (fr @ tail) = take_bit 6 seg \<and> tf_getSequenceFlags (fr @ tail) = drop_bit 6 seg
    \<and> frame_data (fr @ tail) = bs
    \<and> (if bypass \<or> 256 \<le> scid
       then processFrame sys dl w mem len
          = masterChannelDemultiplexing sys (dl\<lparr>receivedDataLength := len, currentFrame := fr @ tail\<rparr>) w
       else \<exists>k \<in> {1, 2, 3}. \<forall>r dl' w'. processFrame sys dl w mem len = Some (r, dl', w')
          \<longrightarrow> frameBuffer dl' = frameBuffer dl + k \<and> currentFrame dl' = drop k (fr @ tail))"
proof -
  note v = built_frame_valid[OF assms(1-4) built len(1) refl, of tail]
  define lth :: u16 where "lth = of_nat (length bs + 7)"
  define hdr where "hdr = frame_header bypass False scid vcId lth sequenceNumber seg"
  obtain crc rest where c: "fr = hdr @ bs @ crc @ rest"
    using built_frame[OF assms(1) _ assms(2), of bypass False hdr scid vcId sequenceNumber seg] built
    by (auto simp: hdr_def lth_def)
  have "unat lth = length bs + 7" unfolding lth_def using assms(2) by (simp only: unsigned_of_nat) (simp add: take_bit_nat_eq_self)
  then have l: "lth < 1024" "0 < lth" using assms(2) by (simp_all add: word_less_nat_alt)
  have f: "fr @ tail = frame_header bypass False scid vcId lth sequenceNumber seg @ bs @ crc @ rest @ tail"
    by (simp add: c hdr_def)
  have z: "(fr @ tail) ! 0 = 0 \<longleftrightarrow> \<not> (bypass \<or> 256 \<le> scid)"
    using first_byte_zero[OF assms(3,4) l(1), of bypass sequenceNumber seg] by (auto simp: c hdr_def nth_append)
  show ?thesis
  proof (cases "bypass \<or> 256 \<le> scid")
    case True
    then have "skip_pattern (drop (frameBuffer dl) mem) = Some 0"
      unfolding buf using z by (intro skip_none) (simp_all add: c hdr_def frame_header_def)
    moreover have "\<not> int (unat len) - int (unat (startSequenceLength dl)) < FRAME_PRIMARY_HEADER_LENGTH"
      using len(2) unfolding FRAME_PRIMARY_HEADER_LENGTH_def by linarith
    ultimately have "frameDelimitingAndFillRemoval (dl\<lparr>receivedDataLength := len\<rparr>) mem
        = Some (RETURN_OK, dl\<lparr>receivedDataLength := len, currentFrame := fr @ tail\<rparr>)"
      using buf by (simp add: frameDelimitingAndFillRemoval_def)
    then have "allFramesReception (dl\<lparr>receivedDataLength := len\<rparr>) mem
        = Some (RETURN_OK, dl\<lparr>receivedDataLength := len, currentFrame := fr @ tail\<rparr>)"
      using v(1) scid by (simp add: allFramesReception_def)
    then show ?thesis using v True by (simp add: processFrame_def)
  next
    case False
    then have "frame_header bypass False scid vcId lth sequenceNumber seg ! 0 = 0" using z by (simp add: f nth_append)
    from header_zero_run[OF assms(3,4) l this f] obtain k b r where
      k: "k \<in> {1, 2, 3}" "fr @ tail = replicate k 0 @ b # r" "b \<noteq> 0" by metis
    have "frameBuffer dl' = frameBuffer dl + k \<and> currentFrame dl' = drop k (fr @ tail)"
      if "processFrame sys dl w mem len = Some (r', dl', w')" for r' dl' w'
      using frame_buffer_drifts[OF _ k(3) that len(2)] k(2) by (simp add: buf)
    then show ?thesis using v False k(1) by auto
  qed
qed

lemma same_header:
  assumes "length pre \<ge> 4"
  shows "getVersionNumber (pre @ x) = getVersionNumber (pre @ y)" "getSpacecraftId (pre @ x) = getSpacecraftId (pre @ y)"
    "bypassFlagSet (pre @ x) = bypassFlagSet (pre @ y)" "controlCommandFlagSet (pre @ x) = controlCommandFlagSet (pre @ y)"
    "spareIsZero (pre @ x) = spareIsZero (pre @ y)" "tf_getFullSize (pre @ x) = tf_getFullSize (pre @ y)"
proof -
  have "pre \<noteq> []" using assms by auto
  then show "getVersionNumber (pre @ x) = getVersionNumber (pre @ y)" "getSpacecraftId (pre @ x) = getSpacecraftId (pre @ y)"
    "bypassFlagSet (pre @ x) = bypassFlagSet (pre @ y)" "controlCommandFlagSet (pre @ x) = controlCommandFlagSet (pre @ y)"
    "spareIsZero (pre @ x) = spareIsZero (pre @ y)" "tf_getFullSize (pre @ x) = tf_getFullSize (pre @ y)"
    using assms by (simp_all add: layout tf_getFullSize_def nth_append)
qed

text \<open>
  C23. No burst error of up to 16 bits behind the length field gets through: if two neighbouring bytes of an
  accepted frame are changed, the sequence number, data or checksum, the frame is refused with
  \<open>CRC_FAILED\<close>, and so is never handed to a virtual channel.
\<close>

theorem corrupted_frame_refused:
  assumes ok: "frameValidationCheck scid received (pre @ [a, b] @ post) = Some RETURN_OK"
    and pos: "4 \<le> length pre" "length pre + 2 \<le> unat (tf_getFullSize (pre @ [a, b] @ post))"
    and changed: "a \<noteq> a' \<or> b \<noteq> b'"
  shows "frameValidationCheck scid received (pre @ [a', b'] @ post) = Some CRC_FAILED"
proof -
  let ?f = "pre @ [a, b] @ post" and ?g = "pre @ [a', b'] @ post"
  define n where "n = unat (tf_getFullSize ?f)"
  define k where "k = n - (length pre + 2)"
  note h = same_header[OF pos(1), of "[a', b'] @ post" "[a, b] @ post"]
  have n: "unat (tf_getFullSize ?g) = n" by (simp only: h(6) n_def)
  have nk: "n = length pre + 2 + k" using pos(2) by (simp add: k_def n_def)
  have rd: "mem_read (pre @ [x, y] @ post) 0 n = (if k \<le> length post then Some (pre @ [x, y] @ take k post) else None)" for x y
    by (simp add: mem_read_def nk)
  have crc: "frameCheckCRC ?f = Some RETURN_OK"
    using ok by (auto simp: frameValidationCheck_def split: if_splits)
  then have k: "k \<le> length post" "crc16 (pre @ [a, b] @ take k post) = 0"
    unfolding frameCheckCRC_def n_def[symmetric] rd by (auto split: if_splits)
  have "crc16 (pre @ [a', b'] @ take k post) \<noteq> 0"
    using crc16_burst[of pre a b "take k post" a' b'] k(2) changed by auto
  then have g: "frameCheckCRC ?g = Some CRC_FAILED" unfolding frameCheckCRC_def n rd using k(1) by simp
  show ?thesis using ok unfolding frameValidationCheck_def h g crc by (auto split: if_splits)
qed

subsection \<open>Witnesses\<close>

lemma sample_built:
  obtains fr crc rest where
    "newTcTransferFrameLocal (replicate LOCAL_FRAME_SIZE 0) True False 1 2 0 0xC0 (Some [7]) 0 = Some fr"
    "fr = frame_header True False 1 2 8 0 0xC0 @ [7] @ crc @ rest" "length crc = 2"
  using built_frame[of "replicate LOCAL_FRAME_SIZE 0" True False "[7]" "frame_header True False 1 2 8 0 0xC0" 1 2 0 "0xC0"]
  by auto

theorem frame_round_trip_witness:
  "\<exists>fr. newTcTransferFrameLocal (replicate LOCAL_FRAME_SIZE 0) True False 1 2 0 0xC0 (Some [7]) 0 = Some fr
     \<and> processFrame LITTLE_ENDIAN (newDataLinkLayer 0 newClcw 0 1) sample_sink (fr @ []) 9
       = masterChannelDemultiplexing LITTLE_ENDIAN
           ((newDataLinkLayer 0 newClcw 0 1)\<lparr>receivedDataLength := 9, currentFrame := fr @ []\<rparr>) sample_sink
     \<and> getVirtualChannelId (fr @ []) = 2 \<and> tf_getSequenceNumber (fr @ []) = 0 \<and> getMAPId (fr @ []) = take_bit 6 0xC0
     \<and> tf_getSequenceFlags (fr @ []) = drop_bit 6 0xC0 \<and> frame_data (fr @ []) = [7]"
proof -
  let ?dl = "newDataLinkLayer 0 newClcw 0 1"
  obtain fr crc rest where
    fr: "newTcTransferFrameLocal (replicate LOCAL_FRAME_SIZE 0) True False 1 2 0 0xC0 (Some [7]) 0 = Some fr"
    "fr = frame_header True False 1 2 8 0 0xC0 @ [7] @ crc @ rest" by (rule sample_built)
  have "length (replicate LOCAL_FRAME_SIZE (0 :: u8)) = LOCAL_FRAME_SIZE" "length [7 :: u8] \<le> 1016" "(1 :: u16) < 1024" "(2 :: u8) < 64"
    "drop (frameBuffer ?dl) (fr @ []) = fr @ []" "spacecraftId ?dl = 1" "length [7 :: u8] + 8 \<le> unat (9 :: u16)"
    "unat (startSequenceLength ?dl) + 5 \<le> unat (9 :: u16)"
    by (simp_all add: newDataLinkLayer_def)
  from frame_round_trip[OF this(1-4) fr(1) this(5-8), of LITTLE_ENDIAN sample_sink] fr(1) show ?thesis by simp
qed

theorem corrupted_frame_refused_witness:
  "\<exists>fr. newTcTransferFrameLocal (replicate LOCAL_FRAME_SIZE 0) True False 1 2 0 0xC0 (Some [7]) 0 = Some fr
     \<and> frameValidationCheck 1 9 (take 4 fr @ [1, 0xC0] @ drop 6 fr) = Some CRC_FAILED"
proof -
  obtain fr crc rest where
    fr: "newTcTransferFrameLocal (replicate LOCAL_FRAME_SIZE 0) True False 1 2 0 0xC0 (Some [7]) 0 = Some fr"
    "fr = frame_header True False 1 2 8 0 0xC0 @ [7] @ crc @ rest" by (rule sample_built)
  have parts: "fr = take 4 fr @ [0, 0xC0] @ drop 6 fr" by (simp add: fr(2) frame_header_def)
  have len: "length (take 4 fr) = 4" by (simp add: fr(2) frame_header_def)
  have "frameValidationCheck 1 9 (fr @ []) = Some RETURN_OK"
    by (rule built_frame_valid(1)[OF _ _ _ _ fr(1) _ refl]) simp_all
  then have ok: "frameValidationCheck 1 9 (take 4 fr @ [0, 0xC0] @ drop 6 fr) = Some RETURN_OK"
    by (simp only: parts[symmetric] append_Nil2)
  have "tf_getFullSize fr = 9"
    using frame_header_length[of 8 True False 1 2 0 "0xC0" "[7] @ crc @ rest"] by (simp add: fr(2) tf_getFullSize_def)
  then have "length (take 4 fr) + 2 \<le> unat (tf_getFullSize (take 4 fr @ [0, 0xC0] @ drop 6 fr))"
    unfolding parts[symmetric] len by simp
  from corrupted_frame_refused[OF ok _ this, of 1 "0xC0"] len fr(1) show ?thesis by simp
qed

theorem frame_buffer_drifts_witness:
  "\<exists>dl'. processFrame LITTLE_ENDIAN (newDataLinkLayer 0 newClcw 0 1) sample_sink [0, 0x40, 0, 0, 0, 0] 6
       = Some (WRONG_TF_VERSION, dl', sample_sink) \<and> frameBuffer dl' = 1 \<and> currentFrame dl' = [0x40, 0, 0, 0, 0]"
proof -
  let ?dl = "newDataLinkLayer 0 newClcw 0 1" and ?mem = "[0, 0x40, 0, 0, 0, 0] :: u8 list"
  obtain dl' where p: "processFrame LITTLE_ENDIAN ?dl sample_sink ?mem 6 = Some (WRONG_TF_VERSION, dl', sample_sink)"
    by (simp add: processFrame_def allFramesReception_def frameDelimitingAndFillRemoval_def newDataLinkLayer_def
        FRAME_PRIMARY_HEADER_LENGTH_def START_SEQUENCE_PATTERN_def frameValidationCheck_def getVersionNumber_def
        FRAME_VERSION_NUMBER_DEFAULT_def tf_sizes)
  have "frameBuffer dl' = frameBuffer ?dl + 1 \<and> currentFrame dl' = 0x40 # [0, 0, 0, 0]"
    by (rule frame_buffer_drifts[OF _ _ p]) (simp_all add: newDataLinkLayer_def)
  then have "frameBuffer dl' = 1 \<and> currentFrame dl' = [0x40, 0, 0, 0, 0]" by (simp add: newDataLinkLayer_def)
  with p show ?thesis by blast
qed

end
