(* ===== verification/Verification.thy ===== *)
theory Verification
  imports MapExtraction
begin

text \<open>
  Telecommand verification: \<open>fsfw/tmtcservices/PusVerificationReport.cpp\<close> (the message to the verification
  service and the two reports to ground) and \<open>VerificationReporter.cpp\<close>. The lemmas read the fields of a
  message back and give the bytes of the reports.
\<close>

subsection \<open>Codes\<close>

definition ACCEPTANCE_SUCCESS :: u8 where "ACCEPTANCE_SUCCESS = 1"
definition ACCEPTANCE_FAILURE :: u8 where "ACCEPTANCE_FAILURE = 2"
definition START_SUCCESS :: u8 where "START_SUCCESS = 3"
definition START_FAILURE :: u8 where "START_FAILURE = 4"
definition PROGRESS_SUCCESS :: u8 where "PROGRESS_SUCCESS = 5"
definition PROGRESS_FAILURE :: u8 where "PROGRESS_FAILURE = 6"
definition COMPLETION_SUCCESS :: u8 where "COMPLETION_SUCCESS = 7"
definition COMPLETION_FAILURE :: u8 where "COMPLETION_FAILURE = 8"

lemmas verify_codes = ACCEPTANCE_SUCCESS_def ACCEPTANCE_FAILURE_def START_SUCCESS_def START_FAILURE_def
  PROGRESS_SUCCESS_def PROGRESS_FAILURE_def COMPLETION_SUCCESS_def COMPLETION_FAILURE_def

subsection \<open>PusVerificationMessage\<close>

definition verification_content ::
  "byte_order \<Rightarrow> u8 \<Rightarrow> u8 \<Rightarrow> u16 \<Rightarrow> u16 \<Rightarrow> u16 \<Rightarrow> u8 \<Rightarrow> u32 \<Rightarrow> u32 \<Rightarrow> bytes" where
  "verification_content sys report_id ackFlags tcPacketId tcSequenceControl error_code step parameter1 parameter2 =
     [report_id, ackFlags] @ object_bytes sys tcPacketId @ object_bytes sys tcSequenceControl @ [step]
     @ object_bytes sys error_code @ object_bytes sys parameter1 @ object_bytes sys parameter2"

definition newPusVerificationMessage ::
  "byte_order \<Rightarrow> u8 \<Rightarrow> u8 \<Rightarrow> u16 \<Rightarrow> u16 \<Rightarrow> u16 \<Rightarrow> u8 \<Rightarrow> u32 \<Rightarrow> u32 \<Rightarrow> mq_message" where
  "newPusVerificationMessage sys report_id ackFlags tcPacketId tcSequenceControl error_code step parameter1 parameter2 =
     (let m = newMessage;
          content = verification_content sys report_id ackFlags tcPacketId tcSequenceControl error_code step parameter1 parameter2
      in \<lparr>internalBuffer = put_bytes (internalBuffer m) (messageSize m) content,
          messageSize = messageSize m + length content\<rparr>)"

definition getReportId :: "mq_message \<Rightarrow> u8" where
  "getReportId m = internalBuffer m ! MQ_HEADER_SIZE"

definition getAckFlags :: "mq_message \<Rightarrow> u8" where
  "getAckFlags m = internalBuffer m ! (MQ_HEADER_SIZE + 1)"

definition getTcPacketId :: "byte_order \<Rightarrow> mq_message \<Rightarrow> u16" where
  "getTcPacketId sys m = of_object_bytes sys (get_bytes (internalBuffer m) (MQ_HEADER_SIZE + 2) 2)"

definition getTcSequenceControl :: "byte_order \<Rightarrow> mq_message \<Rightarrow> u16" where
  "getTcSequenceControl sys m = of_object_bytes sys (get_bytes (internalBuffer m) (MQ_HEADER_SIZE + 4) 2)"

definition getStep :: "mq_message \<Rightarrow> u8" where
  "getStep m = internalBuffer m ! (MQ_HEADER_SIZE + 6)"

definition getErrorCode :: "byte_order \<Rightarrow> mq_message \<Rightarrow> u16" where
  "getErrorCode sys m = of_object_bytes sys (get_bytes (internalBuffer m) (MQ_HEADER_SIZE + 7) 2)"

definition verif_getParameter1 :: "byte_order \<Rightarrow> mq_message \<Rightarrow> u32" where
  "verif_getParameter1 sys m = of_object_bytes sys (get_bytes (internalBuffer m) (MQ_HEADER_SIZE + 9) 4)"

definition verif_getParameter2 :: "byte_order \<Rightarrow> mq_message \<Rightarrow> u32" where
  "verif_getParameter2 sys m = of_object_bytes sys (get_bytes (internalBuffer m) (MQ_HEADER_SIZE + 13) 4)"

lemmas verif_getters = getReportId_def getAckFlags_def getTcPacketId_def getTcSequenceControl_def getStep_def
  getErrorCode_def verif_getParameter1_def verif_getParameter2_def

lemma take_drop_mid: "length xs = k \<Longrightarrow> length ys = n \<Longrightarrow> get_bytes (xs @ ys @ zs) k n = ys"
  by (simp add: get_bytes_def)

lemma length_verification_content [simp]: "length (verification_content sys r a i c e s p q) = 17"
  by (simp add: verification_content_def)

lemma verification_message_layout:
  "internalBuffer (newPusVerificationMessage sys r a i c e s p q)
     = replicate 4 0 @ verification_content sys r a i c e s p q @ replicate 7 0"
  by (simp add: newPusVerificationMessage_def newMessage_def mq_sizes put_bytes_def Let_def del: replicate.simps)

lemma verification_message_fields:
  assumes m_def: "m = newPusVerificationMessage sys r a i c e s p q"
  shows "getReportId m = r" "getAckFlags m = a" "getTcPacketId sys m = i" "getTcSequenceControl sys m = c"
    "getStep m = s" "getErrorCode sys m = e" "verif_getParameter1 sys m = p" "verif_getParameter2 sys m = q"
    "message_inv m" "messageSize m = 21"
proof -
  define z where "z = replicate 4 (0 :: u8)"
  have z: "length z = 4" by (simp add: z_def)
  define t where "t = replicate 7 (0 :: u8)"
  have t: "length t = 7" by (simp add: t_def)
  have b: "internalBuffer m = z @ [r, a] @ object_bytes sys i @ object_bytes sys c @ [s]
     @ object_bytes sys e @ object_bytes sys p @ object_bytes sys q @ t"
    by (simp add: m_def verification_message_layout verification_content_def z_def t_def)
  show "getReportId m = r" "getAckFlags m = a" "getTcPacketId sys m = i" "getTcSequenceControl sys m = c"
    "getStep m = s" "getErrorCode sys m = e" "verif_getParameter1 sys m = p" "verif_getParameter2 sys m = q"
    "message_inv m"
    using z t by (simp_all add: verif_getters mq_sizes get_bytes_def b nth_append message_inv_def)
  show "messageSize m = 21" by (simp add: m_def newPusVerificationMessage_def newMessage_def mq_sizes Let_def)
qed

subsection \<open>The reports\<close>

text \<open>Each is serialised into its own buffer, of 7 and of 16 bytes.\<close>

definition report_start :: ostream where "report_start = \<lparr>obytes = [], osize = 0\<rparr>"

definition newPusSuccessReport :: "byte_order \<Rightarrow> u16 \<Rightarrow> u16 \<Rightarrow> u8 \<Rightarrow> bytes" where
  "newPusSuccessReport sys setPacketId setSequenceControl setStep =
     (let s1 = snd (SA_serialize_word sys setPacketId report_start 7 BIG);
          s2 = snd (SA_serialize_word sys setSequenceControl s1 7 BIG);
          s3 = (if setStep \<noteq> 0 then snd (SA_serialize_word sys setStep s2 7 BIG) else s2)
      in obytes s3)"

definition newPusFailureReport :: "byte_order \<Rightarrow> u16 \<Rightarrow> u16 \<Rightarrow> u16 \<Rightarrow> u8 \<Rightarrow> u32 \<Rightarrow> u32 \<Rightarrow> bytes" where
  "newPusFailureReport sys setPacketId setSequenceControl setErrorCode setStep parameter1 parameter2 =
     (let s1 = snd (SA_serialize_word sys setPacketId report_start 16 BIG);
          s2 = snd (SA_serialize_word sys setSequenceControl s1 16 BIG);
          s3 = (if setStep \<noteq> 0 then snd (SA_serialize_word sys setStep s2 16 BIG) else s2);
          s4 = snd (SA_serialize_word sys setErrorCode s3 16 BIG);
          s5 = snd (SA_serialize_word sys parameter1 s4 16 BIG)
      in obytes (snd (SA_serialize_word sys parameter2 s5 16 BIG)))"

lemma SA_serialize_word_room:
  assumes "8 dvd LENGTH('a)" "LENGTH('a) < 2 ^ 64" "fits (be_bytes (LENGTH('a) div 8) (w :: 'a::len word)) s m"
  shows "SA_serialize_word sys w s m BIG = (RETURN_OK, append_out s (be_bytes (LENGTH('a) div 8) w))"
  using codec.ser_fits[OF codec_word[OF assms(1,2), of sys], where x = w and e = BIG and s = s and m = m] assms(3) by (simp add: convert_word_big fits_def)

text \<open>The source data of the reports to ground: step and parameters behind packet id and sequence control.\<close>

lemma success_report_bytes:
  "newPusSuccessReport sys i c s = be_bytes 2 i @ be_bytes 2 c @ (if s \<noteq> 0 then [s] else [])"
proof -
  have "be_bytes 1 s = [s]" by (simp add: be_bytes_def le_bytes_def)
  then show ?thesis
    by (simp add: newPusSuccessReport_def SA_serialize_word_room fits_def report_start_def append_out_def Let_def)
qed

lemma failure_report_bytes:
  "newPusFailureReport sys i c e s p q
     = be_bytes 2 i @ be_bytes 2 c @ (if s \<noteq> 0 then [s] else []) @ be_bytes 2 e @ be_bytes 4 p @ be_bytes 4 q"
proof -
  have "be_bytes 1 s = [s]" by (simp add: be_bytes_def le_bytes_def)
  then show ?thesis
    by (simp add: newPusFailureReport_def SA_serialize_word_room fits_def report_start_def append_out_def Let_def)
qed

subsection \<open>VerificationReporter\<close>

text \<open>
  The state is \<open>acknowledgeQueue\<close>; \<open>receiver\<close> is the queue of the verification service when its object id
  is set and names an object that accepts verification messages. The status of the sending is only
  printed.
\<close>

definition reporter_initialize :: "u32 option \<Rightarrow> u32 \<Rightarrow> u32" where
  "reporter_initialize receiver acknowledgeQueue = (case receiver of None \<Rightarrow> acknowledgeQueue | Some q \<Rightarrow> q)"

definition reporter_send :: "byte_order \<Rightarrow> u32 option \<Rightarrow> u32 \<Rightarrow> queue_map \<Rightarrow> mq_message \<Rightarrow> u32 \<times> queue_map" where
  "reporter_send sys receiver acknowledgeQueue qm message =
     (let q = (if acknowledgeQueue = NO_QUEUE then reporter_initialize receiver acknowledgeQueue else acknowledgeQueue)
      in (case sender_sendMessage sys qm q message of (status, qm', _) \<Rightarrow> (q, qm')))"

definition sendSuccessReport ::
  "byte_order \<Rightarrow> u32 option \<Rightarrow> u32 \<Rightarrow> queue_map \<Rightarrow> u8 \<Rightarrow> u8 \<Rightarrow> u16 \<Rightarrow> u16 \<Rightarrow> u8 \<Rightarrow> u32 \<times> queue_map" where
  "sendSuccessReport sys receiver ackQueue qm report_id ackFlags tcPacketId tcSequenceControl step =
     reporter_send sys receiver ackQueue qm
       (newPusVerificationMessage sys report_id ackFlags tcPacketId tcSequenceControl 0 step 0 0)"

definition sendFailureReport ::
  "byte_order \<Rightarrow> u32 option \<Rightarrow> u32 \<Rightarrow> queue_map \<Rightarrow> u8 \<Rightarrow> u8 \<Rightarrow> u16 \<Rightarrow> u16 \<Rightarrow> u16 \<Rightarrow> u8 \<Rightarrow> u32 \<Rightarrow> u32 \<Rightarrow> u32 \<times> queue_map" where
  "sendFailureReport sys receiver ackQueue qm report_id ackFlags tcPacketId tcSequenceControl error_code step parameter1 parameter2 =
     reporter_send sys receiver ackQueue qm
       (newPusVerificationMessage sys report_id ackFlags tcPacketId tcSequenceControl error_code step parameter1 parameter2)"

text \<open>The calls with a packet take its acknowledge flags, packet id and sequence control.\<close>

definition sendSuccessReport_packet ::
  "byte_order \<Rightarrow> u32 option \<Rightarrow> u32 \<Rightarrow> queue_map \<Rightarrow> u8 \<Rightarrow> packet \<Rightarrow> u8 \<Rightarrow> u32 \<times> queue_map" where
  "sendSuccessReport_packet sys receiver ackQueue qm report_id p step =
     reporter_send sys receiver ackQueue qm
       (newPusVerificationMessage sys report_id (getAcknowledgeFlags p) (getPacketId p) (getPacketSequenceControl p) 0 step 0 0)"

definition sendFailureReport_packet ::
  "byte_order \<Rightarrow> u32 option \<Rightarrow> u32 \<Rightarrow> queue_map \<Rightarrow> u8 \<Rightarrow> packet \<Rightarrow> u16 \<Rightarrow> u8 \<Rightarrow> u32 \<Rightarrow> u32 \<Rightarrow> u32 \<times> queue_map" where
  "sendFailureReport_packet sys receiver ackQueue qm report_id p error_code step parameter1 parameter2 =
     reporter_send sys receiver ackQueue qm
       (newPusVerificationMessage sys report_id (getAcknowledgeFlags p) (getPacketId p) (getPacketSequenceControl p)
          error_code step parameter1 parameter2)"

end
