(* ===== verification/StoreQueues.thy ===== *)
theory StoreQueues
  imports Messages PacketStored
begin

text \<open>
  What the services rely on when they pass packets by address: reading, updating and deleting a packet of
  a store through its pointer, and the effect of sending to and receiving from the queues known to the
  \<open>QueueMapManager\<close> (\<open>fsfw/osal/host\<close>) on the contents of all queues.
\<close>

subsection \<open>Receiving\<close>

text \<open>\<open>receiveMessage\<close> of the queue with the id \<open>qid\<close>.\<close>

definition queue_receive :: "byte_order \<Rightarrow> queue_map \<Rightarrow> u32 \<Rightarrow> mq_message \<Rightarrow> (u16 \<times> queue_map \<times> mq_message) option" where
  "queue_receive sys qm qid message =
     map_option (\<lambda>q. case receiveMessage sys q message of
         (status, q', m) \<Rightarrow> (status, qm\<lparr>queueMap := (queueMap qm)(qid \<mapsto> q')\<rparr>, m)) (queueMap qm qid)"

text \<open>\<open>sendToDefault\<close> of the queue with the id \<open>qid\<close>, and its default destination.\<close>

definition queue_sendToDefault :: "byte_order \<Rightarrow> queue_map \<Rightarrow> u32 \<Rightarrow> mq_message \<Rightarrow> (u16 \<times> queue_map \<times> mq_message) option" where
  "queue_sendToDefault sys qm qid message = map_option (\<lambda>q. sendToDefault sys qm q message) (queueMap qm qid)"

definition queue_default :: "queue_map \<Rightarrow> u32 \<Rightarrow> u32" where
  "queue_default qm qid = (case queueMap qm qid of Some q \<Rightarrow> defaultDestination q | None \<Rightarrow> 0)"

definition queue_setDefault :: "queue_map \<Rightarrow> u32 \<Rightarrow> u32 \<Rightarrow> queue_map" where
  "queue_setDefault qm qid dest =
     qm\<lparr>queueMap := (queueMap qm)(qid := map_option (\<lambda>q. setDefaultDestination q dest) (queueMap qm qid))\<rparr>"

text \<open>A received message leaves the queue, so that a loop over a queue that nobody fills ends.\<close>

lemma queue_receive_shrinks:
  assumes "queue_receive sys qm qid m = Some (RETURN_OK, qm', m')"
  shows "(case queueMap qm' qid of Some q \<Rightarrow> length (messageQueue q) | None \<Rightarrow> 0)
     < (case queueMap qm qid of Some q \<Rightarrow> length (messageQueue q) | None \<Rightarrow> 0)"
proof (cases "queueMap qm qid")
  case (Some q)
  then show ?thesis using assms
    by (cases "messageQueue q") (auto simp: queue_receive_def receiveMessage_def Let_def mq_codes)
qed (use assms in \<open>simp add: queue_receive_def\<close>)

subsection \<open>Packets in a store\<close>

lemma pool_abs_modify:
  assumes "pool_inv lp" "pool_abs lp a = Some p"
  shows "\<exists>ptr. modifyData lp a = (RETURN_OK, Some (ptr, length p)) \<and> take (length p) (pool_mem lp ptr) = p
     \<and> length p \<le> length (pool_mem lp ptr)
     \<and> setStoreAddress lp a = \<lparr>storeAddress = a, packet_ptr = Some ptr\<rparr> \<and> ptr = (pool_index a, getRawPosition lp a)"
proof -
  have a: "valid_address lp a" "slot_size lp a \<noteq> STORAGE_FREE"
    and r: "mem_read (pool_store lp ! pool_index a) (getRawPosition lp a) (unat (slot_size lp a)) = Some p"
    using assms(2) by (auto simp: pool_abs_def split: if_splits)
  have l: "unat (slot_size lp a) = length p" using length_mem_read[OF r] by simp
  let ?ptr = "(pool_index a, getRawPosition lp a)"
  have m: "modifyData lp a = (RETURN_OK, Some (?ptr, length p))" using a l by (simp add: modifyData_cases)
  moreover have "take (length p) (pool_mem lp ?ptr) = p" "length p \<le> length (pool_mem lp ?ptr)"
    using r unfolding l by (auto simp: mem_read_def pool_mem_def split: if_splits)
  moreover have "setStoreAddress lp a = \<lparr>storeAddress = a, packet_ptr = Some ?ptr\<rparr>"
    using m by (simp add: setStoreAddress_def)
  ultimately show ?thesis by blast
qed

lemma modifyData_none:
  assumes "pool_inv lp" "pool_abs lp a = None"
  shows "\<exists>st. modifyData lp a = (st, None)"
  using assms slot_fits[OF assms(1), of a]
  by (auto simp: modifyData_cases pool_abs_def mem_read_def split: if_splits)

lemma pool_ok_delete:
  assumes "pool_ok lp" "pool_abs lp a \<noteq> None"
  shows "\<exists>lp'. deleteData lp a = Some (RETURN_OK, lp') \<and> pool_ok lp' \<and> pool_abs lp' = (pool_abs lp)(a := None)"
proof -
  have v: "valid_address lp a" using assms(2) by (auto simp: pool_abs_def split: if_splits)
  obtain st lp' where d: "deleteData lp a = Some (st, lp')" "pool_inv lp'" "st = RETURN_OK" "pool_abs lp' = (pool_abs lp)(a := None)"
    using deleteData_spec[of lp a] assms(1) v by (auto simp: pool_ok_def valid_address_def)
  then show ?thesis using assms(1) deleteData_config[OF d(1)] by (auto simp: pool_ok_def)
qed

lemma pool_ok_deletes:
  assumes "pool_ok lp"
  shows "\<exists>st lp'. deleteData lp a = Some (st, lp') \<and> pool_ok lp' \<and> pool_abs lp' = (pool_abs lp)(a := None)"
proof -
  obtain st lp' where d: "deleteData lp a = Some (st, lp')" "pool_inv lp'"
      "if valid_address lp a then st = RETURN_OK \<and> pool_abs lp' = (pool_abs lp)(a := None) else st = ILLEGAL_STORAGE_ID \<and> lp' = lp"
    using deleteData_spec[of lp a] assms by (auto simp: pool_ok_def valid_address_def)
  have "\<not> valid_address lp a \<Longrightarrow> pool_abs lp a = None" by (simp add: pool_abs_def)
  then show ?thesis using d assms deleteData_config[OF d(1)] by (auto simp: pool_ok_def split: if_splits)
qed

text \<open>A packet of the store changed in place.\<close>

lemma pool_put_abs:
  assumes inv: "pool_inv lp" and p: "pool_abs lp a = Some p" and ptr: "ptr = (pool_index a, getRawPosition lp a)"
    and q: "length q = length (pool_mem lp ptr)" "drop (length p) q = drop (length p) (pool_mem lp ptr)"
  shows "pool_inv (pool_put lp ptr q)" "pool_abs (pool_put lp ptr q) = (pool_abs lp)(a \<mapsto> take (length p) q)"
    "element_sizes (pool_put lp ptr q) = element_sizes lp" "n_elements (pool_put lp ptr q) = n_elements lp"
proof -
  let ?n = "length p" and ?blk = "pool_store lp ! pool_index a" and ?pos = "getRawPosition lp a"
  have a: "valid_address lp a" "slot_size lp a \<noteq> STORAGE_FREE"
    and r: "mem_read ?blk ?pos (unat (slot_size lp a)) = Some p"
    using p by (auto simp: pool_abs_def split: if_splits)
  have n: "unat (slot_size lp a) = ?n" using length_mem_read[OF r] by simp
  have fit: "?pos + ?n \<le> length ?blk" "?n \<le> element_sizes lp ! pool_index a"
    using r slot_fits(2)[OF inv a] unfolding n by (auto simp: mem_read_def split: if_splits)
  have mem: "pool_mem lp ptr = drop ?pos ?blk" by (simp add: pool_mem_def ptr)
  have len: "?n \<le> length q" using fit q(1) by (simp add: mem)
  have "take ?n q @ drop (?pos + ?n) ?blk = q"
    using q(2) append_take_drop_id[of ?n q] unfolding mem by (simp add: add.commute)
  then have blk: "mem_copy ?blk ?pos q ?n = Some (take ?pos ?blk @ q)"
    using fit len by (simp add: mem_copy_def)
  have "(size_list lp ! pool_index a)[packet_index a := slot_size lp a] = size_list lp ! pool_index a"
    by (simp add: slot_size_def)
  then have "(size_list lp)[pool_index a := (size_list lp ! pool_index a)[packet_index a := slot_size lp a]] = size_list lp"
    by simp
  then have put: "pool_put lp ptr q = lp\<lparr>pool_store := (pool_store lp)[pool_index a := take ?pos ?blk @ q],
      size_list := (size_list lp)[pool_index a := (size_list lp ! pool_index a)[packet_index a := slot_size lp a]]\<rparr>"
    by (simp add: pool_put_def ptr)
  from slot_update[OF inv a(1) fit(2) len blk _ put] n a(2)
  show "pool_inv (pool_put lp ptr q)" "pool_abs (pool_put lp ptr q) = (pool_abs lp)(a \<mapsto> take ?n q)" by simp_all
  show "element_sizes (pool_put lp ptr q) = element_sizes lp" "n_elements (pool_put lp ptr q) = n_elements lp"
    by (simp_all add: pool_put_def)
qed

subsection \<open>Contents of the queues\<close>

definition queue_content :: "queue_map \<Rightarrow> u32 \<Rightarrow> mq_message list" where
  "queue_content qm qid = (case queueMap qm qid of Some q \<Rightarrow> messageQueue q | None \<Rightarrow> [])"

definition has_room :: "queue_map \<Rightarrow> u32 \<Rightarrow> bool" where
  "has_room qm qid \<longleftrightarrow> (\<exists>q. queueMap qm qid = Some q \<and> length (messageQueue q) < messageDepth q)"

definition queues_ok :: "queue_map \<Rightarrow> bool" where
  "queues_ok qm \<longleftrightarrow> (\<forall>qid q. queueMap qm qid = Some q \<longrightarrow> host_queue_inv q)"

definition message_ok :: "mq_message \<Rightarrow> bool" where
  "message_ok m \<longleftrightarrow> message_inv m \<and> messageSize m \<le> MAX_MESSAGE_SIZE"

lemma getStorageId_internal: "internalBuffer m = internalBuffer m' \<Longrightarrow> getStorageId sys m = getStorageId sys m'"
  by (simp add: getStorageId_def)

lemma send_spec:
  assumes "queues_ok qm" "message_ok m" "sendMessageFromMessageQueue sys qm dest m src = (st, qm', m')"
  shows "queues_ok qm'" "message_ok m'" "getStorageId sys m' = getStorageId sys m"
    "queue_content qm' q = queue_content qm q @ (if q = dest \<and> st = RETURN_OK then [m] else [])"
    "queueMap qm' q = None \<longleftrightarrow> queueMap qm q = None"
    "has_room qm dest \<Longrightarrow> st = RETURN_OK" "q \<noteq> dest \<Longrightarrow> queueMap qm' q = queueMap qm q"
  using assms
  by (auto simp: sendMessageFromMessageQueue_def queues_ok_def message_ok_def host_push_def queue_content_def
      host_queue_inv_def has_room_def setSender_def[of sys m src] split: option.splits if_splits prod.splits)
     (auto simp: setSender_def message_inv_def getStorageId_def get_put_bytes_other mq_sizes)

lemma receive_spec:
  assumes "queues_ok qm" "message_ok m0" "queueMap qm qid \<noteq> None"
  shows "queue_content qm qid = [] \<Longrightarrow> queue_receive sys qm qid m0 = Some (MQ_EMPTY, qm, m0)"
    and "queue_content qm qid = m # ms \<Longrightarrow>
      \<exists>qm' m'. queue_receive sys qm qid m0 = Some (RETURN_OK, qm', m') \<and> queues_ok qm' \<and> message_ok m'
        \<and> getStorageId sys m' = getStorageId sys m \<and> queue_content qm' = (queue_content qm)(qid := ms)
        \<and> (\<forall>q. queueMap qm' q = None \<longleftrightarrow> queueMap qm q = None)"
proof -
  obtain q where q: "queueMap qm qid = Some q" using assms(3) by auto
  show "queue_receive sys qm qid m0 = Some (MQ_EMPTY, qm, m0)" if "queue_content qm qid = []"
    using that q by (auto simp: queue_content_def queue_receive_def receiveMessage_def map_upd_triv)
  assume c: "queue_content qm qid = m # ms"
  have inv: "host_queue_inv q" using assms(1) q by (simp add: queues_ok_def)
  have front: "messageQueue q = m # ms" using c q by (simp add: queue_content_def)
  let ?q' = "q\<lparr>messageQueue := ms, lastPartner := getSender sys m\<rparr>" and ?m' = "m0\<lparr>internalBuffer := internalBuffer m\<rparr>"
  let ?qm' = "qm\<lparr>queueMap := (queueMap qm)(qid \<mapsto> ?q')\<rparr>"
  have "message_inv m" using inv front by (simp add: host_queue_inv_def)
  then have "queue_receive sys qm qid m0 = Some (RETURN_OK, ?qm', ?m')" "message_ok ?m'"
    using q receive_front[OF inv front, of m0] assms(2) by (auto simp: queue_receive_def message_ok_def message_inv_def)
  moreover have "queues_ok ?qm'" using assms(1) inv front by (auto simp: queues_ok_def host_queue_inv_def)
  ultimately show "\<exists>qm' m'. queue_receive sys qm qid m0 = Some (RETURN_OK, qm', m') \<and> queues_ok qm' \<and> message_ok m'
        \<and> getStorageId sys m' = getStorageId sys m \<and> queue_content qm' = (queue_content qm)(qid := ms)
        \<and> (\<forall>q. queueMap qm' q = None \<longleftrightarrow> queueMap qm q = None)"
    using q by (intro exI[of _ ?qm'] exI[of _ ?m']) (auto simp: queue_content_def getStorageId_def fun_eq_iff)
qed

text \<open>Sending to the default destination.\<close>

lemma send_default_spec:
  assumes "queues_ok qm" "message_ok m" "queueMap qm qid = Some hq" "queue_sendToDefault sys qm qid m = Some (st, qm', m')"
  shows "queues_ok qm'" "message_ok m'" "getStorageId sys m' = getStorageId sys m"
    "queue_content qm' q = queue_content qm q @ (if q = defaultDestination hq \<and> st = RETURN_OK then [m] else [])"
    "queueMap qm' q = None \<longleftrightarrow> queueMap qm q = None" "has_room qm (defaultDestination hq) \<Longrightarrow> st = RETURN_OK"
    "q \<noteq> defaultDestination hq \<Longrightarrow> queueMap qm' q = queueMap qm q"
proof -
  have s: "sendMessageFromMessageQueue sys qm (defaultDestination hq) m (mqId hq) = (st, qm', m')"
    using assms(3,4) by (simp add: queue_sendToDefault_def sendToDefault_def)
  show "queues_ok qm'" "message_ok m'" "getStorageId sys m' = getStorageId sys m"
    "queue_content qm' q = queue_content qm q @ (if q = defaultDestination hq \<and> st = RETURN_OK then [m] else [])"
    "queueMap qm' q = None \<longleftrightarrow> queueMap qm q = None" "has_room qm (defaultDestination hq) \<Longrightarrow> st = RETURN_OK"
    "q \<noteq> defaultDestination hq \<Longrightarrow> queueMap qm' q = queueMap qm q"
    using send_spec[OF assms(1,2) s] by blast+
qed

lemma send_no_room:
  assumes "queueMap qm dest = Some hq" "\<not> has_room qm dest" "message_ok m"
  shows "sendMessageFromMessageQueue sys qm dest m src = (MQ_FULL, qm, m)"
  using assms by (simp add: sendMessageFromMessageQueue_def host_push_def has_room_def message_ok_def)

definition queue_room :: "queue_map \<Rightarrow> u32 \<Rightarrow> nat \<Rightarrow> bool" where
  "queue_room qm qid n \<longleftrightarrow> (\<exists>q. queueMap qm qid = Some q \<and> length (messageQueue q) + n \<le> messageDepth q)"

lemma queue_room_has: "queue_room qm qid (Suc n) \<Longrightarrow> has_room qm qid"
  by (auto simp: queue_room_def has_room_def)

lemma queue_room_send:
  assumes "queue_room qm dest (Suc n)" "sendMessageFromMessageQueue sys qm dest m src = (st, qm', m')"
  shows "queue_room qm' dest n"
  using assms by (auto simp: queue_room_def sendMessageFromMessageQueue_def host_push_def split: if_splits)

lemma send_default_dest:
  assumes "queueMap qm qid = Some hq" "queue_sendToDefault sys qm qid m = Some (st, qm', m')" "defaultDestination hq \<noteq> qid"
  shows "queueMap qm' qid = Some hq" "queue_room qm (defaultDestination hq) (Suc n) \<Longrightarrow> queue_room qm' (defaultDestination hq) n"
proof -
  have s: "sendMessageFromMessageQueue sys qm (defaultDestination hq) m (mqId hq) = (st, qm', m')"
    using assms(1,2) by (simp add: queue_sendToDefault_def sendToDefault_def)
  show "queueMap qm' qid = Some hq"
    using s assms(1,3) by (auto simp: sendMessageFromMessageQueue_def split: if_splits option.splits prod.splits)
  show "queue_room qm (defaultDestination hq) (Suc n) \<Longrightarrow> queue_room qm' (defaultDestination hq) n"
    using queue_room_send[OF _ s] by blast
qed

lemma receive_keeps:
  assumes "queue_receive sys qm qid m = Some (st, qm', m')"
  shows "q \<noteq> qid \<Longrightarrow> queueMap qm' q = queueMap qm q" "queue_default qm' qid = queue_default qm qid"
proof -
  obtain hq where hq: "queueMap qm qid = Some hq" using assms by (auto simp: queue_receive_def)
  show "q \<noteq> qid \<Longrightarrow> queueMap qm' q = queueMap qm q" using assms hq by (cases "receiveMessage sys hq m") (auto simp: queue_receive_def)
  show "queue_default qm' qid = queue_default qm qid"
    using assms hq by (cases "messageQueue hq") (auto simp: queue_receive_def queue_default_def receiveMessage_def Let_def)
qed

end
