(* ===== verification/TcDistribution.thy ===== *)
theory TcDistribution
  imports Verification StoreQueues
begin

text \<open>
  Telecommand distribution, \<open>fsfw/tcdistribution\<close>: the packet check (\<open>TcPacketCheck.cpp\<close>), the loop of
  \<open>TcDistributor.cpp\<close> over its request queue, and its two classes, the \<open>CCSDSDistributor\<close> (routes by
  APID) and the \<open>PUSDistributor\<close> (checks a packet, routes by service and reports the acceptance). The
  distributors work on the telecommand store and the message queues of \<open>tc_sink\<close>. The lemmas show what
  becomes of every packet, and the locale \<open>distribution\<close> that the loop ends with an empty queue.
\<close>

subsection \<open>TcPacketCheck\<close>

definition CCSDS_VERSION_NUMBER :: u8 where "CCSDS_VERSION_NUMBER = 0"
definition CCSDS_SECONDARY_HEADER_FLAG :: u8 where "CCSDS_SECONDARY_HEADER_FLAG = 0"
definition PUS_VERSION_NUMBER :: u8 where "PUS_VERSION_NUMBER = 1"

definition ILLEGAL_APID :: u16 where [retcode]: "ILLEGAL_APID = MAKE_RETURN_CODE TC_PACKET_CHECK 0"
definition INCOMPLETE_PACKET :: u16 where [retcode]: "INCOMPLETE_PACKET = MAKE_RETURN_CODE TC_PACKET_CHECK 1"
definition INCORRECT_CHECKSUM :: u16 where [retcode]: "INCORRECT_CHECKSUM = MAKE_RETURN_CODE TC_PACKET_CHECK 2"
definition INCORRECT_PRIMARY_HEADER :: u16 where
  [retcode]: "INCORRECT_PRIMARY_HEADER = MAKE_RETURN_CODE TC_PACKET_CHECK 5"
definition INCORRECT_SECONDARY_HEADER :: u16 where
  [retcode]: "INCORRECT_SECONDARY_HEADER = MAKE_RETURN_CODE TC_PACKET_CHECK 6"

text \<open>
  The packet is read through its pointer into the store: a null pointer, or a packet whose header declares
  more bytes than there are up to the end of the store's block, is undefined.
\<close>

definition checkPacket :: "u16 \<Rightarrow> local_pool \<Rightarrow> stored_packet \<Rightarrow> u16 option" where
  "checkPacket apid lp sp =
     Option.bind (packet_ptr sp) (\<lambda>ptr.
       let p = pool_mem lp ptr in
       if length p < CCSDS_HEADER_SIZE \<or> length p < getFullSize p then None
       else if crc16 (take (getFullSize p) p) \<noteq> 0 then Some INCORRECT_CHECKSUM
       else if \<not> hasSecondaryHeader p \<or> getPacketVersionNumber p \<noteq> CCSDS_VERSION_NUMBER \<or> \<not> isTelecommand p
       then Some INCORRECT_PRIMARY_HEADER
       else if getAPID p \<noteq> apid then Some ILLEGAL_APID
       else if \<not> isSizeCorrect lp sp then Some INCOMPLETE_PACKET
       else if getSecondaryHeaderFlag p \<noteq> CCSDS_SECONDARY_HEADER_FLAG \<or> getPusVersionNumber p \<noteq> PUS_VERSION_NUMBER
       then Some INCORRECT_SECONDARY_HEADER
       else Some RETURN_OK)"

subsection \<open>TcDistributor\<close>

definition PACKET_LOST :: u16 where [retcode]: "PACKET_LOST = MAKE_RETURN_CODE PACKET_DISTRIBUTION 1"
definition DESTINATION_NOT_FOUND :: u16 where
  [retcode]: "DESTINATION_NOT_FOUND = MAKE_RETURN_CODE PACKET_DISTRIBUTION 2"
definition SERVICE_ID_ALREADY_EXISTS :: u16 where
  [retcode]: "SERVICE_ID_ALREADY_EXISTS = MAKE_RETURN_CODE PACKET_DISTRIBUTION 3"

text \<open>\<open>tcQueue\<close> is the id of the distributor's own queue, \<open>destinations\<close> the member \<open>queueMap\<close>.\<close>

record tc_distributor =
  tcQueue :: u32
  currentMessage :: mq_message
  destinations :: "u32 \<rightharpoonup> u32"

definition DISTRIBUTER_MAX_PACKETS :: nat where "DISTRIBUTER_MAX_PACKETS = 128"

text \<open>The constructor: the queue factory registers a new queue and gives its id.\<close>

definition newTcDistributor :: "queue_map \<Rightarrow> (tc_distributor \<times> queue_map) option" where
  "newTcDistributor qm =
     (case addMessageQueue qm (newHostQueue 0 DISTRIBUTER_MAX_PACKETS MAX_MESSAGE_SIZE) of
        (st, Some qid, qm') \<Rightarrow> Some (\<lparr>tcQueue = qid, currentMessage = newMessage\<lparr>messageSize := MQ_HEADER_SIZE + 4\<rparr>,
            destinations = Map.empty\<rparr>, qm')
      | (st, None, qm') \<Rightarrow> None)"

text \<open>
  \<open>handlePacket\<close> with the two virtual methods: \<open>select\<close> gives the destination's queue, \<open>callback\<close> gets the
  status of the sending.
\<close>

definition handlePacket ::
  "byte_order \<Rightarrow> ('a tc_distributor_scheme \<Rightarrow> tc_sink \<Rightarrow> (u32 option \<times> 'a tc_distributor_scheme) option)
    \<Rightarrow> (u16 \<Rightarrow> 'a tc_distributor_scheme \<Rightarrow> tc_sink \<Rightarrow> (u16 \<times> 'a tc_distributor_scheme \<times> tc_sink) option)
    \<Rightarrow> 'a tc_distributor_scheme \<Rightarrow> tc_sink \<Rightarrow> (u16 \<times> 'a tc_distributor_scheme \<times> tc_sink) option" where
  "handlePacket sys select callback d w =
     Option.bind (select d w) (\<lambda>(queueMapIt, d1).
       case queueMapIt of
         None \<Rightarrow> callback RETURN_FAILED d1 w
       | Some dest \<Rightarrow>
           (case sendMessageFromMessageQueue sys (tcQueues w) dest (currentMessage d1) (tcQueue d1) of
              (returnValue, qm, m) \<Rightarrow> callback returnValue (d1\<lparr>currentMessage := m\<rparr>) (w\<lparr>tcQueues := qm\<rparr>)))"

text \<open>The loop of \<open>performOperation\<close>; it goes on as long as there are messages, whatever \<open>handlePacket\<close> returns.\<close>

partial_function (option) distribute_loop ::
  "byte_order \<Rightarrow> ('a tc_distributor_scheme \<Rightarrow> tc_sink \<Rightarrow> (u16 \<times> 'a tc_distributor_scheme \<times> tc_sink) option)
    \<Rightarrow> 'a tc_distributor_scheme \<Rightarrow> tc_sink \<Rightarrow> (u16 \<times> 'a tc_distributor_scheme \<times> tc_sink) option" where
  "distribute_loop sys handle d w =
     Option.bind (queue_receive sys (tcQueues w) (tcQueue d) (currentMessage d)) (\<lambda>(status, qm, m).
       if status = RETURN_OK
       then Option.bind (handle (d\<lparr>currentMessage := m\<rparr>) (w\<lparr>tcQueues := qm\<rparr>)) (\<lambda>(_, d', w').
              distribute_loop sys handle d' w')
       else Some (status, d\<lparr>currentMessage := m\<rparr>, w\<lparr>tcQueues := qm\<rparr>))"

definition performOperation ::
  "byte_order \<Rightarrow> ('a tc_distributor_scheme \<Rightarrow> tc_sink \<Rightarrow> (u16 \<times> 'a tc_distributor_scheme \<times> tc_sink) option)
    \<Rightarrow> 'a tc_distributor_scheme \<Rightarrow> tc_sink \<Rightarrow> (u16 \<times> 'a tc_distributor_scheme \<times> tc_sink) option" where
  "performOperation sys handle d w =
     map_option (\<lambda>(status, d', w'). (if status = MQ_EMPTY then RETURN_OK else status, d', w')) (distribute_loop sys handle d w)"

subsection \<open>CCSDSDistributor\<close>

record ccsds_distributor = tc_distributor +
  defaultApid :: u16

definition ccsds_registerApplication ::
  "'a ccsds_distributor_scheme \<Rightarrow> u16 \<Rightarrow> u32 \<Rightarrow> u16 \<times> 'a ccsds_distributor_scheme" where
  "ccsds_registerApplication d apid qid =
     (if destinations d (ucast apid) \<noteq> None then (RETURN_FAILED, d)
      else (RETURN_OK, d\<lparr>destinations := (destinations d)(ucast apid \<mapsto> qid)\<rparr>))"

text \<open>
  \<open>getAPID\<close> reads two bytes behind the pointer that \<open>getData\<close> gives; the code goes on with a null pointer when
  there is no data.
\<close>

definition ccsds_selectDestination ::
  "byte_order \<Rightarrow> 'a ccsds_distributor_scheme \<Rightarrow> tc_sink \<Rightarrow> (u32 option \<times> 'a ccsds_distributor_scheme) option" where
  "ccsds_selectDestination sys d w =
     (case modifyData (tcStore w) (getStorageId sys (currentMessage d)) of
        (_, None) \<Rightarrow> None
      | (_, Some (ptr, _)) \<Rightarrow>
          let p = pool_mem (tcStore w) ptr in
          if length p < 2 then None
          else case destinations d (ucast (getAPID p)) of
                 Some q \<Rightarrow> Some (Some q, d)
               | None \<Rightarrow> Some (destinations d (ucast (defaultApid d)), d))"

definition ccsds_callbackAfterSending ::
  "byte_order \<Rightarrow> u16 \<Rightarrow> 'a ccsds_distributor_scheme \<Rightarrow> tc_sink \<Rightarrow> (u16 \<times> 'a ccsds_distributor_scheme \<times> tc_sink) option" where
  "ccsds_callbackAfterSending sys queueStatus d w =
     (if queueStatus \<noteq> RETURN_OK
      then map_option (\<lambda>(_, lp). (RETURN_OK, d, w\<lparr>tcStore := lp\<rparr>))
             (deleteData (tcStore w) (getStorageId sys (currentMessage d)))
      else Some (RETURN_OK, d, w))"

definition ccsds_handle ::
  "byte_order \<Rightarrow> 'a ccsds_distributor_scheme \<Rightarrow> tc_sink \<Rightarrow> (u16 \<times> 'a ccsds_distributor_scheme \<times> tc_sink) option" where
  "ccsds_handle sys = handlePacket sys (ccsds_selectDestination sys) (ccsds_callbackAfterSending sys)"

subsection \<open>PUSDistributor\<close>

text \<open>\<open>checkerApid\<close> is the \<open>checker\<close>'s, \<open>verifyQueue\<close> the \<open>acknowledgeQueue\<close> of \<open>verifyChannel\<close>.\<close>

record pus_distributor = tc_distributor +
  checkerApid :: u16
  verifyQueue :: u32
  currentPacket :: "stored_packet option"
  tcStatus :: u16

definition newPUSDistributor :: "tc_distributor \<Rightarrow> u16 \<Rightarrow> pus_distributor" where
  "newPUSDistributor d setApid =
     tc_distributor.extend d \<lparr>checkerApid = setApid, verifyQueue = NO_QUEUE, currentPacket = None, tcStatus = RETURN_FAILED\<rparr>"

definition registerService :: "'a pus_distributor_scheme \<Rightarrow> u16 \<Rightarrow> u32 \<Rightarrow> u16 \<times> 'a pus_distributor_scheme" where
  "registerService d serviceId qid =
     (if destinations d (ucast serviceId) \<noteq> None then (SERVICE_ID_ALREADY_EXISTS, d)
      else (RETURN_OK, d\<lparr>destinations := (destinations d)(ucast serviceId \<mapsto> qid)\<rparr>))"

text \<open>\<open>ccsds\<close> is the packet source, when its object id names a \<open>CCSDSDistributorIF\<close>.\<close>

definition pus_initialize ::
  "'a pus_distributor_scheme \<Rightarrow> 'b ccsds_distributor_scheme option
     \<Rightarrow> u16 \<times> 'a pus_distributor_scheme \<times> 'b ccsds_distributor_scheme option" where
  "pus_initialize d ccsds =
     (let d1 = d\<lparr>currentPacket := Some \<lparr>storeAddress = INVALID_ADDRESS, packet_ptr = None\<rparr>\<rparr> in
      case ccsds of
        None \<Rightarrow> (RETURN_FAILED, d1, None)
      | Some c \<Rightarrow> (case ccsds_registerApplication c (checkerApid d1) (tcQueue d1) of (st, c') \<Rightarrow> (st, d1, Some c')))"

text \<open>The service type is the eighth byte of the packet.\<close>

definition pus_selectDestination ::
  "byte_order \<Rightarrow> 'a pus_distributor_scheme \<Rightarrow> tc_sink \<Rightarrow> (u32 option \<times> 'a pus_distributor_scheme) option" where
  "pus_selectDestination sys d w =
     (if currentPacket d = None then Some (None, d)
      else
        let sp = setStoreAddress (tcStore w) (getStorageId sys (currentMessage d));
            d1 = d\<lparr>currentPacket := Some sp\<rparr> in
        map_option (\<lambda>(st1, it).
            let st2 = (if it = None then DESTINATION_NOT_FOUND else st1)
            in (if st2 \<noteq> RETURN_OK then None else it, d1\<lparr>tcStatus := st2\<rparr>))
          (case packet_ptr sp of
             None \<Rightarrow> Some (PACKET_LOST, None)
           | Some ptr \<Rightarrow>
               Option.bind (checkPacket (checkerApid d1) (tcStore w) sp) (\<lambda>st.
                 let p = pool_mem (tcStore w) ptr in
                 if length p < 8 then None else Some (st, destinations d1 (ucast (tc_getService p))))))"

text \<open>The reports read the packet up to its seventh byte, and the packet is deleted after the report.\<close>

definition pus_callbackAfterSending ::
  "byte_order \<Rightarrow> u32 option \<Rightarrow> u16 \<Rightarrow> 'a pus_distributor_scheme \<Rightarrow> tc_sink \<Rightarrow> (u16 \<times> 'a pus_distributor_scheme \<times> tc_sink) option" where
  "pus_callbackAfterSending sys receiver queueStatus d w =
     (let d1 = (if queueStatus \<noteq> RETURN_OK then d\<lparr>tcStatus := queueStatus\<rparr> else d) in
      Option.bind (currentPacket d1) (\<lambda>sp.
      Option.bind (packet_ptr sp) (\<lambda>ptr.
        let p = pool_mem (tcStore w) ptr in
        if length p < 7 then None
        else if tcStatus d1 \<noteq> RETURN_OK then
          (case sendFailureReport_packet sys receiver (verifyQueue d1) (tcQueues w) ACCEPTANCE_FAILURE p (tcStatus d1) 0 0 0 of
             (vq, qm) \<Rightarrow>
               map_option (\<lambda>(_, lp, sp'). (RETURN_FAILED, d1\<lparr>verifyQueue := vq, currentPacket := Some sp'\<rparr>,
                   w\<lparr>tcStore := lp, tcQueues := qm\<rparr>))
                 (deletePacket (tcStore w) sp))
        else
          (case sendSuccessReport_packet sys receiver (verifyQueue d1) (tcQueues w) ACCEPTANCE_SUCCESS p 0 of
             (vq, qm) \<Rightarrow> Some (RETURN_OK, d1\<lparr>verifyQueue := vq\<rparr>, w\<lparr>tcQueues := qm\<rparr>)))))"

definition pus_handle ::
  "byte_order \<Rightarrow> u32 option \<Rightarrow> 'a pus_distributor_scheme \<Rightarrow> tc_sink \<Rightarrow> (u16 \<times> 'a pus_distributor_scheme \<times> tc_sink) option" where
  "pus_handle sys receiver = handlePacket sys (pus_selectDestination sys) (pus_callbackAfterSending sys receiver)"

subsection \<open>The loop empties the queue\<close>

text \<open>
  A distributor at work: the store and all queues are sound, its own queue exists and is not among its
  destinations, and the pending messages name different packets of the store that satisfy \<open>item\<close>.
\<close>

definition pending :: "byte_order \<Rightarrow> 'a tc_distributor_scheme \<Rightarrow> tc_sink \<Rightarrow> store_address list" where
  "pending sys d w = map (getStorageId sys) (queue_content (tcQueues w) (tcQueue d))"

definition distributor_ok ::
  "byte_order \<Rightarrow> (bytes \<Rightarrow> bool) \<Rightarrow> 'a tc_distributor_scheme \<Rightarrow> tc_sink \<Rightarrow> bool" where
  "distributor_ok sys item d w \<longleftrightarrow>
     pool_ok (tcStore w) \<and> queues_ok (tcQueues w) \<and> queueMap (tcQueues w) (tcQueue d) \<noteq> None
     \<and> tcQueue d \<notin> ran (destinations d) \<and> message_ok (currentMessage d) \<and> distinct (pending sys d w)
     \<and> (\<forall>a \<in> set (pending sys d w). \<exists>p. pool_abs (tcStore w) a = Some p \<and> item p)"

text \<open>
  What a step may do with the packet at \<open>a\<close>: it is gone from the store, or it is there unchanged and one of
  the destinations has a message with its address. No other packet is touched, and nothing is taken from a
  queue.
\<close>

definition settled :: "byte_order \<Rightarrow> 'a tc_distributor_scheme \<Rightarrow> tc_sink \<Rightarrow> tc_sink \<Rightarrow> store_address \<Rightarrow> bool" where
  "settled sys d w w' a \<longleftrightarrow> pool_abs (tcStore w') a = None
     \<or> pool_abs (tcStore w') a = pool_abs (tcStore w) a
        \<and> (\<exists>q \<in> ran (destinations d). a \<in> set (map (getStorageId sys) (queue_content (tcQueues w') q)))"

definition keeps :: "'a tc_distributor_scheme \<Rightarrow> tc_sink \<Rightarrow> 'a tc_distributor_scheme \<Rightarrow> tc_sink \<Rightarrow> store_address set \<Rightarrow> bool" where
  "keeps d w d' w' as \<longleftrightarrow> pool_ok (tcStore w') \<and> queues_ok (tcQueues w') \<and> message_ok (currentMessage d')
     \<and> tcQueue d' = tcQueue d \<and> destinations d' = destinations d
     \<and> (\<forall>q. queueMap (tcQueues w') q = None \<longleftrightarrow> queueMap (tcQueues w) q = None)
     \<and> (\<forall>b. b \<notin> as \<longrightarrow> pool_abs (tcStore w') b = pool_abs (tcStore w) b)
     \<and> (\<forall>q. q \<noteq> tcQueue d \<longrightarrow> (\<exists>s. queue_content (tcQueues w') q = queue_content (tcQueues w) q @ s))"

lemma keeps_trans:
  assumes "keeps d w d1 w1 A" "keeps d1 w1 d2 w2 B" shows "keeps d w d2 w2 (A \<union> B)"
proof -
  have "\<exists>s. queue_content (tcQueues w2) q = queue_content (tcQueues w) q @ s" if "q \<noteq> tcQueue d" for q
    using assms that by (metis (no_types, lifting) append.assoc keeps_def)
  then show ?thesis using assms by (simp add: keeps_def)
qed

lemma settled_later:
  assumes "settled sys d w w1 a" "keeps d1 w1 d2 w2 B" "a \<notin> B" "tcQueue d1 \<notin> ran (destinations d)"
  shows "settled sys d w w2 a"
proof -
  have "q \<noteq> tcQueue d1" if "q \<in> ran (destinations d)" for q using that assms(4) by auto
  then have "a \<in> set (map (getStorageId sys) (queue_content (tcQueues w2) q))"
    if "q \<in> ran (destinations d)" "a \<in> set (map (getStorageId sys) (queue_content (tcQueues w1) q))" for q
    using that assms(2) unfolding keeps_def by (metis Un_iff map_append set_append)
  then show ?thesis using assms(1-3) unfolding settled_def keeps_def by metis
qed

locale distribution =
  fixes sys :: byte_order and item :: "bytes \<Rightarrow> bool"
    and handle :: "'a tc_distributor_scheme \<Rightarrow> tc_sink \<Rightarrow> (u16 \<times> 'a tc_distributor_scheme \<times> tc_sink) option"
    and extra :: "'a tc_distributor_scheme \<Rightarrow> bool"
  assumes step: "distributor_ok sys item d w \<Longrightarrow> extra d \<Longrightarrow> pool_abs (tcStore w) (getStorageId sys (currentMessage d)) = Some p
      \<Longrightarrow> item p \<Longrightarrow> getStorageId sys (currentMessage d) \<notin> set (pending sys d w)
      \<Longrightarrow> \<exists>st d' w'. handle d w = Some (st, d', w') \<and> keeps d w d' w' {getStorageId sys (currentMessage d)}
            \<and> queue_content (tcQueues w') (tcQueue d) = queue_content (tcQueues w) (tcQueue d)
            \<and> settled sys d w w' (getStorageId sys (currentMessage d)) \<and> extra d'"
    and extra_message: "extra (d\<lparr>currentMessage := m\<rparr>) = extra d"
begin

lemma loop_settles:
  assumes "distributor_ok sys item d w" "extra d" "pending sys d w = as"
  shows "\<exists>d' w'. distribute_loop sys handle d w = Some (MQ_EMPTY, d', w') \<and> keeps d w d' w' (set as)
     \<and> pending sys d' w' = [] \<and> (\<forall>a \<in> set as. settled sys d w w' a) \<and> extra d'"
  using assms
proof (induction as arbitrary: d w)
  case Nil
  let ?qm = "tcQueues w" and ?q = "tcQueue d"
  have c: "queue_content ?qm ?q = []" using Nil.prems(3) by (simp add: pending_def)
  have ok: "queues_ok ?qm" "message_ok (currentMessage d)" "queueMap ?qm ?q \<noteq> None"
    using Nil.prems(1) by (simp_all add: distributor_ok_def)
  note r = receive_spec(1)[OF ok c, of sys]
  have "distribute_loop sys handle d w = Some (MQ_EMPTY, d, w)"
    by (subst distribute_loop.simps) (simp add: r)
  moreover have "keeps d w d w {}" using Nil.prems(1) by (simp add: keeps_def distributor_ok_def)
  ultimately show ?case using Nil.prems by auto
next
  case (Cons a as)
  let ?qm = "tcQueues w" and ?q = "tcQueue d"
  obtain m ms where c: "queue_content ?qm ?q = m # ms" "getStorageId sys m = a" "map (getStorageId sys) ms = as"
    using Cons.prems(3) by (auto simp: pending_def)
  have ok: "queues_ok ?qm" "message_ok (currentMessage d)" "queueMap ?qm ?q \<noteq> None"
    using Cons.prems(1) by (simp_all add: distributor_ok_def)
  obtain qm' m' where r: "queue_receive sys ?qm ?q (currentMessage d) = Some (RETURN_OK, qm', m')"
      "queues_ok qm'" "message_ok m'" "getStorageId sys m' = a" "queue_content qm' = (queue_content ?qm)(?q := ms)"
      "\<forall>q. queueMap qm' q = None \<longleftrightarrow> queueMap ?qm q = None"
    using receive_spec(2)[OF ok c(1)] c(2) by blast
  let ?d = "d\<lparr>currentMessage := m'\<rparr>" and ?w = "w\<lparr>tcQueues := qm'\<rparr>"
  have p: "pending sys ?d ?w = as" using r(5) c(3) by (simp add: pending_def)
  obtain pk where pk: "pool_abs (tcStore w) a = Some pk" "item pk"
    using Cons.prems(1,3) by (auto simp: distributor_ok_def)
  have aas: "a \<notin> set as" using Cons.prems(1,3) by (simp add: distributor_ok_def)
  have ok': "distributor_ok sys item ?d ?w"
    using Cons.prems(1,3) r(2,3,6) p by (simp add: distributor_ok_def)
  have first: "keeps d w ?d ?w {}" using Cons.prems(1) r by (simp add: keeps_def distributor_ok_def)
  obtain st d1 w1 where h: "handle ?d ?w = Some (st, d1, w1)" "keeps ?d ?w d1 w1 {a}"
      "queue_content (tcQueues w1) ?q = queue_content qm' ?q" "settled sys ?d ?w w1 a" "extra d1"
    using step[OF ok', of pk] pk Cons.prems(2) r(4) aas p extra_message by auto
  have k1: "keeps d w d1 w1 {a}" using keeps_trans[OF first h(2)] by simp
  have p1: "pending sys d1 w1 = as" using h(2,3) p by (simp add: pending_def keeps_def)
  have ok1: "distributor_ok sys item d1 w1"
    using ok' h(2) p p1 aas by (auto simp: distributor_ok_def keeps_def)
  obtain d2 w2 where t: "distribute_loop sys handle d1 w1 = Some (MQ_EMPTY, d2, w2)" "keeps d1 w1 d2 w2 (set as)"
      "pending sys d2 w2 = []" "\<forall>b \<in> set as. settled sys d1 w1 w2 b" "extra d2"
    using Cons.IH[OF ok1 h(5) p1] by blast
  have loop: "distribute_loop sys handle d w = Some (MQ_EMPTY, d2, w2)"
    by (subst distribute_loop.simps) (simp add: r(1) h(1) t(1))
  have keep: "keeps d w d2 w2 (set (a # as))" using keeps_trans[OF k1 t(2)] by simp
  have own: "tcQueue d1 \<notin> ran (destinations d)" using Cons.prems(1) k1 by (simp add: distributor_ok_def keeps_def)
  have "settled sys d w w1 a" using h(4) by (simp add: settled_def)
  then have sa: "settled sys d w w2 a" using settled_later[OF _ t(2) aas own] by blast
  have "settled sys d w w2 b" if b: "b \<in> set as" for b
  proof -
    have "b \<noteq> a" using b aas by auto
    then have "pool_abs (tcStore w1) b = pool_abs (tcStore w) b" using k1 by (simp add: keeps_def)
    moreover have "destinations d1 = destinations d" using k1 by (simp add: keeps_def)
    ultimately show ?thesis using t(4) b by (auto simp: settled_def)
  qed
  then show ?case using loop keep t(3,5) sa by auto
qed

lemma performOperation_settles:
  assumes "distributor_ok sys item d w" "extra d"
  shows "\<exists>d' w'. performOperation sys handle d w = Some (RETURN_OK, d', w') \<and> keeps d w d' w' (set (pending sys d w))
     \<and> pending sys d' w' = [] \<and> (\<forall>a \<in> set (pending sys d w). settled sys d w w' a) \<and> extra d'"
  using loop_settles[OF assms refl] by (auto simp: performOperation_def)

end

subsection \<open>The CCSDS distributor\<close>

lemma ccsds_select:
  assumes "pool_inv (tcStore w)" "pool_abs (tcStore w) (getStorageId sys (currentMessage d)) = Some p" "2 \<le> length p"
  shows "ccsds_selectDestination sys d w =
     Some (case destinations d (ucast (getAPID p)) of Some q \<Rightarrow> Some q | None \<Rightarrow> destinations d (ucast (defaultApid d)), d)"
proof -
  obtain ptr where m: "modifyData (tcStore w) (getStorageId sys (currentMessage d)) = (RETURN_OK, Some (ptr, length p))"
      "take (length p) (pool_mem (tcStore w) ptr) = p" "length p \<le> length (pool_mem (tcStore w) ptr)"
    using pool_abs_modify[OF assms(1,2)] by blast
  have "pool_mem (tcStore w) ptr ! i = p ! i" if "i < 2" for i
    using that assms(3) m(2) by (metis nth_take order.strict_trans2)
  then have "getAPID (pool_mem (tcStore w) ptr) = getAPID p" by (simp add: getAPID_def)
  then show ?thesis using m assms(3) by (simp add: ccsds_selectDestination_def split: option.split)
qed

lemma ccsds_select_destination:
  assumes "ccsds_selectDestination sys d w = Some (Some q, d1)" shows "q \<in> ran (destinations d)" "d1 = d"
  using assms by (auto simp: ccsds_selectDestination_def Let_def ran_def split: prod.splits option.splits if_splits)

lemma ccsds_handle_outcome:
  assumes ok: "distributor_ok sys (\<lambda>p. 2 \<le> length p) d w"
    and p: "pool_abs (tcStore w) (getStorageId sys (currentMessage d)) = Some p" "2 \<le> length p"
    and dest: "dest = (case destinations d (ucast (getAPID p)) of Some q \<Rightarrow> Some q | None \<Rightarrow> destinations d (ucast (defaultApid d)))"
    and a: "a = getStorageId sys (currentMessage d)"
  shows "\<exists>d' w' st. ccsds_handle sys d w = Some (RETURN_OK, d', w') \<and> keeps d w d' w' {a}
     \<and> queue_content (tcQueues w') (tcQueue d) = queue_content (tcQueues w) (tcQueue d)
     \<and> pool_abs (tcStore w') = (if st = RETURN_OK then pool_abs (tcStore w) else (pool_abs (tcStore w))(a := None))
     \<and> queue_content (tcQueues w') = (\<lambda>q. queue_content (tcQueues w) q @ (if dest = Some q \<and> st = RETURN_OK then [currentMessage d] else []))
     \<and> (dest = None \<longrightarrow> st \<noteq> RETURN_OK) \<and> (\<forall>q. dest = Some q \<longrightarrow> has_room (tcQueues w) q \<longrightarrow> st = RETURN_OK)
     \<and> (\<forall>q. dest \<noteq> Some q \<longrightarrow> queueMap (tcQueues w') q = queueMap (tcQueues w) q)"
proof -
  have inv: "pool_inv (tcStore w)" and qs: "queues_ok (tcQueues w)" "message_ok (currentMessage d)"
    and own: "tcQueue d \<notin> ran (destinations d)" and pok: "pool_ok (tcStore w)"
    using ok by (simp_all add: distributor_ok_def pool_ok_def)
  note sel = ccsds_select[OF inv p, folded dest]
  obtain lp where del: "deleteData (tcStore w) a = Some (RETURN_OK, lp)" "pool_ok lp" "pool_abs lp = (pool_abs (tcStore w))(a := None)"
    using pool_ok_delete[OF pok, of a] p by (auto simp: a)
  show ?thesis
  proof (cases dest)
    case None
    then have "ccsds_handle sys d w = Some (RETURN_OK, d, w\<lparr>tcStore := lp\<rparr>)"
      using sel del by (simp add: ccsds_handle_def handlePacket_def ccsds_callbackAfterSending_def a)
    moreover have "keeps d w d (w\<lparr>tcStore := lp\<rparr>) {a}" using qs del by (simp add: keeps_def)
    ultimately show ?thesis using None del by (intro exI[of _ d] exI[of _ "w\<lparr>tcStore := lp\<rparr>"] exI[of _ RETURN_FAILED]) simp
  next
    case (Some q)
    then have q: "q \<noteq> tcQueue d" using ccsds_select_destination(1)[of sys d w q d] sel own by auto
    obtain st qm m where s: "sendMessageFromMessageQueue sys (tcQueues w) q (currentMessage d) (tcQueue d) = (st, qm, m)"
      by (cases "sendMessageFromMessageQueue sys (tcQueues w) q (currentMessage d) (tcQueue d)") auto
    note sp = send_spec[OF qs s]
    let ?d = "d\<lparr>currentMessage := m\<rparr>" and ?w = "w\<lparr>tcQueues := qm\<rparr>"
    let ?w' = "if st = RETURN_OK then ?w else ?w\<lparr>tcStore := lp\<rparr>"
    have "ccsds_handle sys d w = Some (RETURN_OK, ?d, ?w')"
      using sel Some s sp(3) del by (simp add: ccsds_handle_def handlePacket_def ccsds_callbackAfterSending_def a)
    moreover have "keeps d w ?d ?w' {a}" using sp qs del pok by (simp add: keeps_def)
    moreover have "queue_content qm = (\<lambda>q'. queue_content (tcQueues w) q' @ (if dest = Some q' \<and> st = RETURN_OK then [currentMessage d] else []))"
      using sp(4) Some by (auto simp: fun_eq_iff)
    ultimately show ?thesis using Some q sp(4,6,7) del by (intro exI[of _ ?d] exI[of _ ?w'] exI[of _ st]) auto
  qed
qed

interpretation ccsds: distribution sys "\<lambda>p. 2 \<le> length p" "ccsds_handle sys" "\<lambda>d. True" for sys
proof unfold_locales
  fix d :: "'a ccsds_distributor_scheme" and w p
  assume h: "distributor_ok sys (\<lambda>p. 2 \<le> length p) d w" "pool_abs (tcStore w) (getStorageId sys (currentMessage d)) = Some p" "2 \<le> length p"
  define a where "a = getStorageId sys (currentMessage d)"
  define dest where "dest = (case destinations d (ucast (getAPID p)) of Some q \<Rightarrow> Some q | None \<Rightarrow> destinations d (ucast (defaultApid d)))"
  obtain d' w' st where o: "ccsds_handle sys d w = Some (RETURN_OK, d', w')" "keeps d w d' w' {a}"
     "queue_content (tcQueues w') (tcQueue d) = queue_content (tcQueues w) (tcQueue d)"
     "pool_abs (tcStore w') = (if st = RETURN_OK then pool_abs (tcStore w) else (pool_abs (tcStore w))(a := None))"
     "queue_content (tcQueues w') = (\<lambda>q. queue_content (tcQueues w) q @ (if dest = Some q \<and> st = RETURN_OK then [currentMessage d] else []))"
     "dest = None \<longrightarrow> st \<noteq> RETURN_OK"
    using ccsds_handle_outcome[OF h dest_def a_def] by blast
  have "q \<in> ran (destinations d)" if "dest = Some q" for q
    using that by (auto simp: dest_def ran_def split: option.splits)
  then have "settled sys d w w' a" using o(4-6) by (cases dest) (auto simp: settled_def a_def)
  then show "\<exists>st d' w'. ccsds_handle sys d w = Some (st, d', w') \<and> keeps d w d' w' {getStorageId sys (currentMessage d)}
     \<and> queue_content (tcQueues w') (tcQueue d) = queue_content (tcQueues w) (tcQueue d)
     \<and> settled sys d w w' (getStorageId sys (currentMessage d)) \<and> True"
    using o(1-3) by (auto simp: a_def)
qed simp_all

subsection \<open>The packet check\<close>

text \<open>The verdict on the bytes of a packet, and the packets that pass.\<close>

definition tc_acceptable :: "u16 \<Rightarrow> bytes \<Rightarrow> bool" where
  "tc_acceptable apid p \<longleftrightarrow> getFullSize p = length p \<and> crc16 p = 0 \<and> isTelecommand p \<and> hasSecondaryHeader p
     \<and> getPacketVersionNumber p = 0 \<and> getAPID p = apid \<and> getSecondaryHeaderFlag p = 0 \<and> getPusVersionNumber p = 1"

definition check_verdict :: "u16 \<Rightarrow> bytes \<Rightarrow> u16" where
  "check_verdict apid p =
     (if crc16 (take (getFullSize p) p) \<noteq> 0 then INCORRECT_CHECKSUM
      else if \<not> hasSecondaryHeader p \<or> getPacketVersionNumber p \<noteq> 0 \<or> \<not> isTelecommand p then INCORRECT_PRIMARY_HEADER
      else if getAPID p \<noteq> apid then ILLEGAL_APID
      else if getFullSize p \<noteq> length p then INCOMPLETE_PACKET
      else if getSecondaryHeaderFlag p \<noteq> 0 \<or> getPusVersionNumber p \<noteq> 1 then INCORRECT_SECONDARY_HEADER
      else RETURN_OK)"

lemma tc_check_codes [simp]:
  "INCORRECT_CHECKSUM \<noteq> RETURN_OK" "INCORRECT_PRIMARY_HEADER \<noteq> RETURN_OK" "ILLEGAL_APID \<noteq> RETURN_OK"
  "INCOMPLETE_PACKET \<noteq> RETURN_OK" "INCORRECT_SECONDARY_HEADER \<noteq> RETURN_OK" "DESTINATION_NOT_FOUND \<noteq> RETURN_OK"
  by (simp_all add: retcode)

lemma check_verdict_ok: "check_verdict apid p = RETURN_OK \<longleftrightarrow> tc_acceptable apid p"
  by (auto simp: check_verdict_def tc_acceptable_def)

definition tc_readable :: "bytes \<Rightarrow> bool" where
  "tc_readable p \<longleftrightarrow> 8 \<le> length p \<and> getFullSize p \<le> length p"

lemma memory_fields:
  assumes "take (length p) q = p" "8 \<le> length p"
  shows "getFullSize q = getFullSize p" "hasSecondaryHeader q = hasSecondaryHeader p" "isTelecommand q = isTelecommand p"
    "getPacketVersionNumber q = getPacketVersionNumber p" "getAPID q = getAPID p"
    "getSecondaryHeaderFlag q = getSecondaryHeaderFlag p" "getPusVersionNumber q = getPusVersionNumber p"
    "tc_getService q = tc_getService p" "getAcknowledgeFlags q = getAcknowledgeFlags p" "getPacketId q = getPacketId p"
    "getPacketSequenceControl q = getPacketSequenceControl p"
proof -
  have "q ! i = p ! i" if "i < 8" for i using that assms by (metis nth_take order.strict_trans2)
  then show "getFullSize q = getFullSize p" "hasSecondaryHeader q = hasSecondaryHeader p" "isTelecommand q = isTelecommand p"
    "getPacketVersionNumber q = getPacketVersionNumber p" "getAPID q = getAPID p"
    "getSecondaryHeaderFlag q = getSecondaryHeaderFlag p" "getPusVersionNumber q = getPusVersionNumber p"
    "tc_getService q = tc_getService p" "getAcknowledgeFlags q = getAcknowledgeFlags p" "getPacketId q = getPacketId p"
    "getPacketSequenceControl q = getPacketSequenceControl p"
    by (simp_all add: layout getFullSize_def)
qed

lemma checkPacket_verdict:
  assumes inv: "pool_inv lp" and p: "pool_abs lp a = Some p" "tc_readable p"
  shows "checkPacket apid lp (setStoreAddress lp a) = Some (check_verdict apid p)"
proof -
  obtain ptr where m: "modifyData lp a = (RETURN_OK, Some (ptr, length p))" "take (length p) (pool_mem lp ptr) = p"
      "length p \<le> length (pool_mem lp ptr)" "setStoreAddress lp a = \<lparr>storeAddress = a, packet_ptr = Some ptr\<rparr>"
    using pool_abs_modify[OF inv p(1)] by blast
  have l: "8 \<le> length p" "getFullSize p \<le> length p" using p(2) by (simp_all add: tc_readable_def)
  note f = memory_fields[OF m(2) l(1)]
  have t: "take (getFullSize p) (pool_mem lp ptr) = take (getFullSize p) p"
    using l(2) m(2) by (metis min.absorb1 take_take)
  have "\<not> length (pool_mem lp ptr) < 6" "\<not> length (pool_mem lp ptr) < getFullSize p" using l m(3) by linarith+
  then show ?thesis
    by (simp add: checkPacket_def m(4) f t check_verdict_def isSizeCorrect_def m(1) pus_sizes CCSDS_VERSION_NUMBER_def
        CCSDS_SECONDARY_HEADER_FLAG_def PUS_VERSION_NUMBER_def)
qed

subsection \<open>The PUS distributor\<close>

text \<open>A report: the queue it goes to and the message.\<close>

definition report_queue :: "u32 option \<Rightarrow> u32 \<Rightarrow> u32" where
  "report_queue receiver ack = (if ack = NO_QUEUE then reporter_initialize receiver ack else ack)"

definition acceptance_report :: "byte_order \<Rightarrow> bytes \<Rightarrow> u16 \<Rightarrow> mq_message" where
  "acceptance_report sys p code = newPusVerificationMessage sys (if code = RETURN_OK then ACCEPTANCE_SUCCESS else ACCEPTANCE_FAILURE)
     (getAcknowledgeFlags p) (getPacketId p) (getPacketSequenceControl p) code 0 0 0"

lemma message_ok_verification: "message_ok (newPusVerificationMessage sys r a i c e s p q)"
  using verification_message_fields[OF refl, of sys r a i c e s p q] by (simp add: message_ok_def mq_sizes)

lemma reporter_send_spec:
  assumes "queues_ok qm" "message_ok m" "reporter_send sys receiver ack qm m = (vq, qm')"
  shows "vq = report_queue receiver ack" "queues_ok qm'" "queueMap qm' q = None \<longleftrightarrow> queueMap qm q = None"
    "\<exists>sent. queue_content qm' = (\<lambda>q. queue_content qm q @ (if q = vq \<and> sent then [m] else []))
        \<and> (has_room qm vq \<longrightarrow> sent)"
proof -
  obtain st qm2 m2 where s: "sendMessageFromMessageQueue sys qm (report_queue receiver ack) m NO_QUEUE = (st, qm2, m2)"
    by (cases "sendMessageFromMessageQueue sys qm (report_queue receiver ack) m NO_QUEUE") auto
  have e: "vq = report_queue receiver ack" "qm' = qm2"
    using assms(3) s by (auto simp: reporter_send_def report_queue_def sender_sendMessage_def Let_def split: if_splits)
  note sp = send_spec[OF assms(1,2) s]
  show "vq = report_queue receiver ack" "queues_ok qm'" "queueMap qm' q = None \<longleftrightarrow> queueMap qm q = None"
    using e sp by simp_all
  show "\<exists>sent. queue_content qm' = (\<lambda>q. queue_content qm q @ (if q = vq \<and> sent then [m] else []))
        \<and> (has_room qm vq \<longrightarrow> sent)"
    using sp(4,6) e by (intro exI[of _ "st = RETURN_OK"]) (auto simp: fun_eq_iff)
qed

lemma pus_select:
  assumes inv: "pool_inv (tcStore w)" and p: "pool_abs (tcStore w) (getStorageId sys (currentMessage d)) = Some p" "tc_readable p"
    and cp: "currentPacket d \<noteq> None"
    and it: "it = destinations d (ucast (tc_getService p))"
    and st: "st = (if it = None then DESTINATION_NOT_FOUND else check_verdict (checkerApid d) p)"
  shows "pus_selectDestination sys d w = Some (if st = RETURN_OK then it else None,
     d\<lparr>currentPacket := Some (setStoreAddress (tcStore w) (getStorageId sys (currentMessage d))), tcStatus := st\<rparr>)"
proof -
  let ?a = "getStorageId sys (currentMessage d)"
  obtain ptr where m: "take (length p) (pool_mem (tcStore w) ptr) = p" "length p \<le> length (pool_mem (tcStore w) ptr)"
      "setStoreAddress (tcStore w) ?a = \<lparr>storeAddress = ?a, packet_ptr = Some ptr\<rparr>"
    using pool_abs_modify[OF inv p(1)] by blast
  have l: "8 \<le> length p" using p(2) by (simp add: tc_readable_def)
  have l8: "\<not> length (pool_mem (tcStore w) ptr) < 8" using l m(2) by linarith
  note c = checkPacket_verdict[OF inv p, of "checkerApid d", unfolded m(3)]
  obtain sp where sp: "currentPacket d = Some sp" using cp by blast
  show ?thesis using c l8 memory_fields(8)[OF m(1) l] by (simp add: pus_selectDestination_def sp m(3) it[symmetric] st Let_def)
qed

lemma pus_callback:
  assumes pok: "pool_ok (tcStore w)" and qs: "queues_ok (tcQueues w)" and p: "pool_abs (tcStore w) a = Some p" "tc_readable p"
    and cp: "currentPacket d = Some (setStoreAddress (tcStore w) a)"
    and code: "code = (if queueStatus \<noteq> RETURN_OK then queueStatus else tcStatus d)"
  shows "\<exists>d' w' sent. pus_callbackAfterSending sys receiver queueStatus d w
        = Some (if code = RETURN_OK then RETURN_OK else RETURN_FAILED, d', w')
     \<and> d' = d\<lparr>tcStatus := code, verifyQueue := report_queue receiver (verifyQueue d), currentPacket := currentPacket d'\<rparr>
     \<and> currentPacket d' \<noteq> None \<and> pool_ok (tcStore w') \<and> queues_ok (tcQueues w')
     \<and> pool_abs (tcStore w') = (if code = RETURN_OK then pool_abs (tcStore w) else (pool_abs (tcStore w))(a := None))
     \<and> (\<forall>q. queueMap (tcQueues w') q = None \<longleftrightarrow> queueMap (tcQueues w) q = None)
     \<and> queue_content (tcQueues w') = (\<lambda>q. queue_content (tcQueues w) q
          @ (if q = report_queue receiver (verifyQueue d) \<and> sent then [acceptance_report sys p code] else []))
     \<and> (has_room (tcQueues w) (report_queue receiver (verifyQueue d)) \<longrightarrow> sent)"
proof -
  have inv: "pool_inv (tcStore w)" using pok by (simp add: pool_ok_def)
  obtain ptr where m: "take (length p) (pool_mem (tcStore w) ptr) = p" "length p \<le> length (pool_mem (tcStore w) ptr)"
      "setStoreAddress (tcStore w) a = \<lparr>storeAddress = a, packet_ptr = Some ptr\<rparr>"
    using pool_abs_modify[OF inv p(1)] by blast
  have l: "8 \<le> length p" using p(2) by (simp add: tc_readable_def)
  have l7: "\<not> length (pool_mem (tcStore w) ptr) < 7" using l m(2) by linarith
  note f = memory_fields(9-11)[OF m(1) l]
  obtain lp where del: "deleteData (tcStore w) a = Some (RETURN_OK, lp)" "pool_ok lp" "pool_abs lp = (pool_abs (tcStore w))(a := None)"
    using pool_ok_delete[OF pok] p(1) by blast
  obtain vq qm where s: "reporter_send sys receiver (verifyQueue d) (tcQueues w) (acceptance_report sys p code) = (vq, qm)"
    by (cases "reporter_send sys receiver (verifyQueue d) (tcQueues w) (acceptance_report sys p code)") auto
  have mok: "message_ok (acceptance_report sys p code)" by (simp add: acceptance_report_def message_ok_verification)
  note sp = reporter_send_spec[OF qs mok s]
  obtain sent where sent: "queue_content qm = (\<lambda>q. queue_content (tcQueues w) q @ (if q = vq \<and> sent then [acceptance_report sys p code] else []))"
      "has_room (tcQueues w) vq \<longrightarrow> sent"
    using sp(4) by blast
  let ?e = "\<lparr>storeAddress = INVALID_ADDRESS, packet_ptr = None\<rparr>"
  let ?d = "d\<lparr>tcStatus := code, verifyQueue := vq\<rparr>"
  let ?d' = "if code = RETURN_OK then ?d else ?d\<lparr>currentPacket := Some ?e\<rparr>"
  let ?w' = "if code = RETURN_OK then w\<lparr>tcQueues := qm\<rparr> else w\<lparr>tcStore := lp, tcQueues := qm\<rparr>"
  have "pus_callbackAfterSending sys receiver queueStatus d w
        = Some (if code = RETURN_OK then RETURN_OK else RETURN_FAILED, ?d', ?w')"
    using s l7 f del(1) cp
    by (auto simp: pus_callbackAfterSending_def m(3) code sendFailureReport_packet_def sendSuccessReport_packet_def
        acceptance_report_def deletePacket_def RETURN_OK_def[symmetric] Let_def split: if_splits)
  then show ?thesis using sent sp del pok cp
    by (intro exI[of _ ?d'] exI[of _ ?w'] exI[of _ sent]) (auto simp: Let_def)
qed

lemma report_queue_idem [simp]: "report_queue receiver (report_queue receiver v) = report_queue receiver v"
  by (auto simp: report_queue_def reporter_initialize_def split: option.splits)

lemma pus_handle_outcome:
  assumes ok: "distributor_ok sys tc_readable d w" and cp: "currentPacket d \<noteq> None"
    and p: "pool_abs (tcStore w) a = Some p" "tc_readable p" and a: "a = getStorageId sys (currentMessage d)"
    and it: "it = destinations d (ucast (tc_getService p))"
    and vq: "vq = report_queue receiver (verifyQueue d)"
  shows "\<exists>d' w' code sent. pus_handle sys receiver d w = Some (if code = RETURN_OK then RETURN_OK else RETURN_FAILED, d', w')
     \<and> (\<not> (tc_acceptable (checkerApid d) p \<and> it \<noteq> None) \<longrightarrow> code = RETURN_FAILED)
     \<and> keeps d w d' w' {a} \<and> currentPacket d' \<noteq> None \<and> report_queue receiver (verifyQueue d') = vq
     \<and> checkerApid d' = checkerApid d
     \<and> pool_abs (tcStore w') = (if code = RETURN_OK then pool_abs (tcStore w) else (pool_abs (tcStore w))(a := None))
     \<and> queue_content (tcQueues w') = (\<lambda>q. queue_content (tcQueues w) q @ (if it = Some q \<and> code = RETURN_OK then [currentMessage d] else [])
          @ (if q = vq \<and> sent then [acceptance_report sys p code] else []))
     \<and> (it \<noteq> Some vq \<longrightarrow> has_room (tcQueues w) vq \<longrightarrow> sent)
     \<and> (\<forall>q. tc_acceptable (checkerApid d) p \<longrightarrow> it = Some q \<longrightarrow> has_room (tcQueues w) q \<longrightarrow> code = RETURN_OK)"
proof -
  have inv: "pool_inv (tcStore w)" and qs: "queues_ok (tcQueues w)" "message_ok (currentMessage d)" and pok: "pool_ok (tcStore w)"
    using ok by (simp_all add: distributor_ok_def pool_ok_def)
  let ?acc = "tc_acceptable (checkerApid d) p \<and> it \<noteq> None"
  define st where "st = (if it = None then DESTINATION_NOT_FOUND else check_verdict (checkerApid d) p)"
  have st_ok: "st = RETURN_OK \<longleftrightarrow> ?acc" by (simp add: st_def check_verdict_ok)
  let ?d1 = "d\<lparr>currentPacket := Some (setStoreAddress (tcStore w) a), tcStatus := st\<rparr>"
  have sel: "pus_selectDestination sys d w = Some (if st = RETURN_OK then it else None, ?d1)"
    using pus_select[OF inv p(1)[unfolded a] p(2) cp it st_def] by (simp add: a)
  show ?thesis
  proof (cases ?acc)
    case False
    then have "pus_handle sys receiver d w = pus_callbackAfterSending sys receiver RETURN_FAILED ?d1 w"
      using sel st_ok by (simp add: pus_handle_def handlePacket_def)
    moreover obtain d' w' sent where c: "pus_callbackAfterSending sys receiver RETURN_FAILED ?d1 w = Some (RETURN_FAILED, d', w')"
        "d' = ?d1\<lparr>tcStatus := RETURN_FAILED, verifyQueue := vq, currentPacket := currentPacket d'\<rparr>"
        "currentPacket d' \<noteq> None" "pool_ok (tcStore w')" "queues_ok (tcQueues w')"
        "pool_abs (tcStore w') = (pool_abs (tcStore w))(a := None)"
        "\<forall>q. queueMap (tcQueues w') q = None \<longleftrightarrow> queueMap (tcQueues w) q = None"
        "queue_content (tcQueues w') = (\<lambda>q. queue_content (tcQueues w) q
          @ (if q = vq \<and> sent then [acceptance_report sys p RETURN_FAILED] else []))"
        "has_room (tcQueues w) vq \<longrightarrow> sent"
      using pus_callback[OF pok qs(1) p, of ?d1 RETURN_FAILED RETURN_FAILED sys receiver] by (auto simp: vq)
    moreover have d': "tcQueue d' = tcQueue d" "destinations d' = destinations d" "checkerApid d' = checkerApid d"
      "verifyQueue d' = vq" "currentMessage d' = currentMessage d" by (subst c(2), simp)+
    ultimately show ?thesis using False qs vq
      by (intro exI[of _ d'] exI[of _ w'] exI[of _ RETURN_FAILED] exI[of _ sent]) (auto simp: keeps_def)
  next
    case True
    then obtain q where q: "it = Some q" by auto
    obtain rs qm m where s: "sendMessageFromMessageQueue sys (tcQueues w) q (currentMessage d) (tcQueue d) = (rs, qm, m)"
      by (cases "sendMessageFromMessageQueue sys (tcQueues w) q (currentMessage d) (tcQueue d)") auto
    note sp = send_spec[OF qs s]
    let ?d2 = "?d1\<lparr>currentMessage := m\<rparr>" and ?w2 = "w\<lparr>tcQueues := qm\<rparr>"
    have "pus_handle sys receiver d w = pus_callbackAfterSending sys receiver rs ?d2 ?w2"
      using sel st_ok True q s by (simp add: pus_handle_def handlePacket_def)
    moreover have pre: "pool_ok (tcStore ?w2)" "queues_ok (tcQueues ?w2)" "pool_abs (tcStore ?w2) a = Some p"
        "currentPacket ?d2 = Some (setStoreAddress (tcStore ?w2) a)" "rs = (if rs \<noteq> RETURN_OK then rs else tcStatus ?d2)"
        "report_queue receiver (verifyQueue ?d2) = vq"
      using pok sp(1) p st_ok True vq by simp_all
    obtain d' w' sent where c: "pus_callbackAfterSending sys receiver rs ?d2 ?w2
          = Some (if rs = RETURN_OK then RETURN_OK else RETURN_FAILED, d', w')"
        "d' = ?d2\<lparr>tcStatus := rs, verifyQueue := vq, currentPacket := currentPacket d'\<rparr>"
        "currentPacket d' \<noteq> None" "pool_ok (tcStore w')" "queues_ok (tcQueues w')"
        "pool_abs (tcStore w') = (if rs = RETURN_OK then pool_abs (tcStore ?w2) else (pool_abs (tcStore ?w2))(a := None))"
        "\<forall>q. queueMap (tcQueues w') q = None \<longleftrightarrow> queueMap (tcQueues ?w2) q = None"
        "queue_content (tcQueues w') = (\<lambda>q. queue_content (tcQueues ?w2) q @ (if q = vq \<and> sent then [acceptance_report sys p rs] else []))"
        "has_room (tcQueues ?w2) vq \<longrightarrow> sent"
      using pus_callback[OF pre(1-3) p(2) pre(4,5), of sys receiver, unfolded pre(6)] by blast
    moreover have d': "tcQueue d' = tcQueue d" "destinations d' = destinations d" "checkerApid d' = checkerApid d"
      "verifyQueue d' = vq" "currentMessage d' = m" by (subst c(2), simp)+
    moreover have "has_room qm vq = has_room (tcQueues w) vq" if "it \<noteq> Some vq"
      using sp(7)[of vq] that q by (auto simp: has_room_def)
    moreover have "queue_content qm = (\<lambda>q'. queue_content (tcQueues w) q' @ (if it = Some q' \<and> rs = RETURN_OK then [currentMessage d] else []))"
      using sp(4) q by (auto simp: fun_eq_iff)
    ultimately show ?thesis using True sp(1-6) vq q
      by (intro exI[of _ d'] exI[of _ w'] exI[of _ rs] exI[of _ sent]) (auto simp: keeps_def)
  qed
qed

interpretation pus: distribution sys tc_readable "pus_handle sys receiver"
    "\<lambda>d. currentPacket d \<noteq> None \<and> report_queue receiver (verifyQueue d) \<noteq> tcQueue d" for sys receiver
proof unfold_locales
  fix d :: "'a pus_distributor_scheme" and w p
  assume h: "distributor_ok sys tc_readable d w" "currentPacket d \<noteq> None \<and> report_queue receiver (verifyQueue d) \<noteq> tcQueue d"
    "pool_abs (tcStore w) (getStorageId sys (currentMessage d)) = Some p" "tc_readable p"
  define a where "a = getStorageId sys (currentMessage d)"
  define it where "it = destinations d (ucast (tc_getService p))"
  define vq where "vq = report_queue receiver (verifyQueue d)"
  obtain d' w' code sent where o:
     "pus_handle sys receiver d w = Some (if code = RETURN_OK then RETURN_OK else RETURN_FAILED, d', w')"
     "\<not> (tc_acceptable (checkerApid d) p \<and> it \<noteq> None) \<longrightarrow> code = RETURN_FAILED"
     "keeps d w d' w' {a}" "currentPacket d' \<noteq> None" "report_queue receiver (verifyQueue d') = vq"
     "pool_abs (tcStore w') = (if code = RETURN_OK then pool_abs (tcStore w) else (pool_abs (tcStore w))(a := None))"
     "queue_content (tcQueues w') = (\<lambda>q. queue_content (tcQueues w) q @ (if it = Some q \<and> code = RETURN_OK then [currentMessage d] else [])
          @ (if q = vq \<and> sent then [acceptance_report sys p code] else []))"
    using pus_handle_outcome[OF h(1) conjunct1[OF h(2)] h(3)[folded a_def] h(4) a_def it_def vq_def] by blast
  have dest: "q \<in> ran (destinations d)" if "it = Some q" for q using that by (auto simp: it_def ran_def)
  have own: "it \<noteq> Some (tcQueue d)" using dest h(1) by (auto simp: distributor_ok_def)
  have "settled sys d w w' a"
    using o(2,6,7) dest by (cases it) (auto simp: settled_def a_def)
  then show "\<exists>st d' w'. pus_handle sys receiver d w = Some (st, d', w') \<and> keeps d w d' w' {getStorageId sys (currentMessage d)}
     \<and> queue_content (tcQueues w') (tcQueue d) = queue_content (tcQueues w) (tcQueue d)
     \<and> settled sys d w w' (getStorageId sys (currentMessage d))
     \<and> currentPacket d' \<noteq> None \<and> report_queue receiver (verifyQueue d') \<noteq> tcQueue d'"
    using o h(2) own by (auto simp: a_def vq_def keeps_def)
qed simp_all

subsection \<open>From the data link to the service\<close>

text \<open>A distributor with one message in its queue.\<close>

lemma perform_single:
  assumes ok: "queues_ok (tcQueues w)" "message_ok (currentMessage d)" "queue_content (tcQueues w) (tcQueue d) = [m]"
    and step: "\<And>qm m'. queues_ok qm \<Longrightarrow> message_ok m' \<Longrightarrow> getStorageId sys m' = getStorageId sys m
        \<Longrightarrow> queue_content qm = (queue_content (tcQueues w))(tcQueue d := [])
        \<Longrightarrow> \<forall>q. queueMap qm q = None \<longleftrightarrow> queueMap (tcQueues w) q = None
        \<Longrightarrow> \<forall>q. q \<noteq> tcQueue d \<longrightarrow> queueMap qm q = queueMap (tcQueues w) q
        \<Longrightarrow> \<exists>st d' w'. handle (d\<lparr>currentMessage := m'\<rparr>) (w\<lparr>tcQueues := qm\<rparr>) = Some (st, d', w') \<and> tcQueue d' = tcQueue d
              \<and> queues_ok (tcQueues w') \<and> message_ok (currentMessage d') \<and> queueMap (tcQueues w') (tcQueue d) \<noteq> None
              \<and> queue_content (tcQueues w') (tcQueue d) = [] \<and> P d' w'"
  shows "\<exists>d' w'. performOperation sys handle d w = Some (RETURN_OK, d', w') \<and> P d' w'"
proof -
  obtain hq where hq: "queueMap (tcQueues w) (tcQueue d) = Some hq"
    using ok(3) by (cases "queueMap (tcQueues w) (tcQueue d)") (auto simp: queue_content_def)
  have front: "messageQueue hq = [m]" using ok(3) hq by (simp add: queue_content_def)
  have inv: "host_queue_inv hq" using ok(1) hq by (simp add: queues_ok_def)
  have mi: "message_inv m" using inv front by (simp add: host_queue_inv_def)
  let ?q' = "hq\<lparr>messageQueue := [], lastPartner := getSender sys m\<rparr>"
  let ?qm = "(tcQueues w)\<lparr>queueMap := (queueMap (tcQueues w))(tcQueue d \<mapsto> ?q')\<rparr>"
  let ?m' = "(currentMessage d)\<lparr>internalBuffer := internalBuffer m\<rparr>"
  have r: "queue_receive sys (tcQueues w) (tcQueue d) (currentMessage d) = Some (RETURN_OK, ?qm, ?m')"
    using hq receive_front[OF inv front, of "currentMessage d"] ok(2) by (simp add: queue_receive_def message_ok_def)
  have 1: "queues_ok ?qm" using ok(1) inv by (auto simp: queues_ok_def host_queue_inv_def)
  have 2: "message_ok ?m'" using ok(2) mi by (simp add: message_ok_def message_inv_def)
  have 3: "getStorageId sys ?m' = getStorageId sys m" by (simp add: getStorageId_def)
  have 4: "queue_content ?qm = (queue_content (tcQueues w))(tcQueue d := [])" by (simp add: queue_content_def fun_eq_iff)
  have 5: "\<forall>q. queueMap ?qm q = None \<longleftrightarrow> queueMap (tcQueues w) q = None" "\<forall>q. q \<noteq> tcQueue d \<longrightarrow> queueMap ?qm q = queueMap (tcQueues w) q"
    using hq by simp_all
  obtain st d1 w1 where h: "handle (d\<lparr>currentMessage := ?m'\<rparr>) (w\<lparr>tcQueues := ?qm\<rparr>) = Some (st, d1, w1)"
      "tcQueue d1 = tcQueue d" "queues_ok (tcQueues w1)" "message_ok (currentMessage d1)" "queueMap (tcQueues w1) (tcQueue d) \<noteq> None"
      "queue_content (tcQueues w1) (tcQueue d) = []" "P d1 w1"
    using step[OF 1 2 3 4 5] by blast
  have e: "queue_receive sys (tcQueues w1) (tcQueue d1) (currentMessage d1) = Some (MQ_EMPTY, tcQueues w1, currentMessage d1)"
    using receive_spec(1)[of "tcQueues w1" "currentMessage d1" "tcQueue d1" sys] h by auto
  have "distribute_loop sys handle d1 w1 = Some (MQ_EMPTY, d1, w1)"
    by (subst distribute_loop.simps) (simp add: e)
  then have "distribute_loop sys handle d w = Some (MQ_EMPTY, d1, w1)"
    by (subst distribute_loop.simps) (simp add: r h(1))
  then show ?thesis using h(7) by (auto simp: performOperation_def)
qed

lemma sendCompletePacket_ok:
  assumes ok: "pool_ok (tcStore w)" "NUMBER_OF_POOLS (tcStore w) \<le> 255" "queues_ok (tcQueues w)" "length p < 2 ^ 32"
    and sent: "sendCompletePacket sys qid w p (length p) = Some (RETURN_OK, w')"
  shows "\<exists>m. pool_ok (tcStore w') \<and> pool_abs (tcStore w') (getStorageId sys m) = Some p \<and> queues_ok (tcQueues w')
     \<and> queue_content (tcQueues w') = (\<lambda>q. queue_content (tcQueues w) q @ (if q = qid then [m] else []))
     \<and> (\<forall>q. q \<noteq> qid \<longrightarrow> queueMap (tcQueues w') q = queueMap (tcQueues w) q)"
proof -
  have inv: "pool_inv (tcStore w)" using ok(1) by (simp add: pool_ok_def)
  obtain st a lp where r: "addData (tcStore w) INVALID_ADDRESS p False = Some (st, a, lp)" "pool_inv lp"
      "if st = RETURN_OK then pool_abs (tcStore w) a = None \<and> pool_abs lp = (pool_abs (tcStore w))(a \<mapsto> p)
       else pool_abs lp = pool_abs (tcStore w)"
    using addData_spec[OF inv ok(4), of INVALID_ADDRESS False] by blast
  have pok: "pool_ok lp" using ok(1) r(2) addData_config[OF r(1)] by (simp add: pool_ok_def)
  have np: "NUMBER_OF_POOLS lp \<le> 255" using addData_config[OF r(1)] ok(2) by simp
  let ?m = "newTmTcMessage sys a"
  obtain st' qm' m' where s: "sendMessageFromMessageQueue sys (tcQueues w) qid ?m NO_QUEUE = (st', qm', m')"
    by (cases "sendMessageFromMessageQueue sys (tcQueues w) qid ?m NO_QUEUE") auto
  have st: "st = RETURN_OK" "st' = RETURN_OK" and w': "w' = w\<lparr>tcStore := lp, tcQueues := qm'\<rparr>"
    using sent r(1) s by (auto simp: sendCompletePacket_def sender_sendMessage_def mem_read_def Let_def split: if_splits)
  have mok: "message_ok ?m"
    by (simp add: message_ok_def newTmTcMessage_def message_inv_def newMessage_def setStorageId_def mq_sizes)
  have small: "pool_index a < 65536" "packet_index a < 65536"
    using pool_abs_small_address[OF r(2) np, of a] r(3) st by auto
  have id: "getStorageId sys ?m = a"
    unfolding newTmTcMessage_def by (rule storage_id_round_trip[OF _ small]) (simp add: message_inv_def newMessage_def)
  note sp = send_spec[OF ok(3) mok s]
  have "queueMap qm' q = queueMap (tcQueues w) q" if "q \<noteq> qid" for q
    using s that by (auto simp: sendMessageFromMessageQueue_def split: if_splits option.splits prod.splits)
  then show ?thesis using r(3) st pok sp id by (intro exI[of _ ?m]) (auto simp: w' fun_eq_iff)
qed

lemma getFullSize_bound: "getFullSize p = length p \<Longrightarrow> length p < 2 ^ 32"
  using getFullSize_pos(2)[of p] by simp

lemma has_room_cong: "queueMap qm q = queueMap qm' q \<Longrightarrow> has_room qm q = has_room qm' q"
  by (simp add: has_room_def)

text \<open>The two hops: the CCSDS distributor hands the message on, the PUS distributor accepts the packet.\<close>

lemma ccsds_hop:
  assumes w: "pool_ok (tcStore w)" "queues_ok (tcQueues w)" "message_ok (currentMessage c)"
    and m: "queue_content (tcQueues w) (tcQueue c) = [m]" "pool_abs (tcStore w) (getStorageId sys m) = Some p" "2 \<le> length p"
    and dest: "destinations c (ucast (getAPID p)) = Some q" "has_room (tcQueues w) q" "tcQueue c \<notin> ran (destinations c)"
  shows "\<exists>c' w'. performOperation sys (ccsds_handle sys) c w = Some (RETURN_OK, c', w')
     \<and> pool_ok (tcStore w') \<and> queues_ok (tcQueues w') \<and> pool_abs (tcStore w') = pool_abs (tcStore w)
     \<and> (\<exists>m'. getStorageId sys m' = getStorageId sys m
           \<and> queue_content (tcQueues w') = (\<lambda>q'. if q' = tcQueue c then [] else queue_content (tcQueues w) q' @ (if q' = q then [m'] else [])))
     \<and> (\<forall>q'. q' \<noteq> tcQueue c \<longrightarrow> q' \<noteq> q \<longrightarrow> queueMap (tcQueues w') q' = queueMap (tcQueues w) q')"
proof (rule perform_single[OF w(2,3) m(1)])
  fix qm m'
  assume qm: "queues_ok qm" "message_ok m'" "getStorageId sys m' = getStorageId sys m"
    "queue_content qm = (queue_content (tcQueues w))(tcQueue c := [])"
    "\<forall>q. queueMap qm q = None \<longleftrightarrow> queueMap (tcQueues w) q = None"
    "\<forall>q. q \<noteq> tcQueue c \<longrightarrow> queueMap qm q = queueMap (tcQueues w) q"
  let ?c = "c\<lparr>currentMessage := m'\<rparr>" and ?w = "w\<lparr>tcQueues := qm\<rparr>"
  have q: "q \<noteq> tcQueue c" using dest(1,3) by (auto simp: ran_def)
  have "queueMap (tcQueues w) (tcQueue c) \<noteq> None"
    using m(1) by (cases "queueMap (tcQueues w) (tcQueue c)") (auto simp: queue_content_def)
  then have ok: "distributor_ok sys (\<lambda>p. 2 \<le> length p) ?c ?w"
    using w(1) qm dest(3) by (simp add: distributor_ok_def pending_def)
  have pk: "pool_abs (tcStore ?w) (getStorageId sys (currentMessage ?c)) = Some p" using m(2) qm(3) by simp
  have room: "has_room (tcQueues ?w) q" using has_room_cong[of qm q "tcQueues w"] qm(6) q dest(2) by simp
  have sel: "Some q = (case destinations ?c (ucast (getAPID p)) of Some q \<Rightarrow> Some q | None \<Rightarrow> destinations ?c (ucast (defaultApid ?c)))"
    using dest(1) by simp
  obtain c' w' st where o: "ccsds_handle sys ?c ?w = Some (RETURN_OK, c', w')" "keeps ?c ?w c' w' {getStorageId sys (currentMessage ?c)}"
     "pool_abs (tcStore w') = (if st = RETURN_OK then pool_abs (tcStore ?w) else (pool_abs (tcStore ?w))(getStorageId sys (currentMessage ?c) := None))"
     "queue_content (tcQueues w') = (\<lambda>q'. queue_content (tcQueues ?w) q' @ (if Some q = Some q' \<and> st = RETURN_OK then [currentMessage ?c] else []))"
     "\<forall>q'. Some q = Some q' \<longrightarrow> has_room (tcQueues ?w) q' \<longrightarrow> st = RETURN_OK"
     "\<forall>q'. Some q \<noteq> Some q' \<longrightarrow> queueMap (tcQueues w') q' = queueMap (tcQueues ?w) q'"
    using ccsds_handle_outcome[OF ok pk m(3) sel refl] by blast
  have st: "st = RETURN_OK" using o(5) room by blast
  have own: "queueMap (tcQueues w') (tcQueue c) \<noteq> None"
    using o(2) qm(5) \<open>queueMap (tcQueues w) (tcQueue c) \<noteq> None\<close> by (simp add: keeps_def)
  have content: "queue_content (tcQueues w')
      = (\<lambda>q'. if q' = tcQueue c then [] else queue_content (tcQueues w) q' @ (if q' = q then [m'] else []))"
    using o(4) st qm(4) q by (auto simp: fun_eq_iff)
  have "\<exists>m'. getStorageId sys m' = getStorageId sys m \<and> queue_content (tcQueues w')
      = (\<lambda>q'. if q' = tcQueue c then [] else queue_content (tcQueues w) q' @ (if q' = q then [m'] else []))"
    using content qm(3) by blast
  moreover have "\<forall>q'. q' \<noteq> tcQueue c \<longrightarrow> q' \<noteq> q \<longrightarrow> queueMap (tcQueues w') q' = queueMap (tcQueues w) q'"
    using o(6) qm(6) by auto
  ultimately show "\<exists>st d' w'. ccsds_handle sys ?c ?w = Some (st, d', w') \<and> tcQueue d' = tcQueue c
       \<and> queues_ok (tcQueues w') \<and> message_ok (currentMessage d') \<and> queueMap (tcQueues w') (tcQueue c) \<noteq> None
       \<and> queue_content (tcQueues w') (tcQueue c) = []
       \<and> pool_ok (tcStore w') \<and> queues_ok (tcQueues w') \<and> pool_abs (tcStore w') = pool_abs (tcStore w)
       \<and> (\<exists>m'. getStorageId sys m' = getStorageId sys m
           \<and> queue_content (tcQueues w') = (\<lambda>q'. if q' = tcQueue c then [] else queue_content (tcQueues w) q' @ (if q' = q then [m'] else [])))
       \<and> (\<forall>q'. q' \<noteq> tcQueue c \<longrightarrow> q' \<noteq> q \<longrightarrow> queueMap (tcQueues w') q' = queueMap (tcQueues w) q')"
    using o(1-3) st own content by (intro exI[of _ RETURN_OK] exI[of _ c'] exI[of _ w']) (simp add: keeps_def)
qed

lemma pus_hop:
  assumes w: "pool_ok (tcStore w)" "queues_ok (tcQueues w)" "message_ok (currentMessage d)"
    and m: "queue_content (tcQueues w) (tcQueue d) = [m]" "pool_abs (tcStore w) (getStorageId sys m) = Some p"
    and p: "tc_acceptable (checkerApid d) p" "8 \<le> length p" "currentPacket d \<noteq> None"
    and dest: "destinations d (ucast (tc_getService p)) = Some q" "has_room (tcQueues w) q" "tcQueue d \<notin> ran (destinations d)"
    and vq: "vq = report_queue receiver (verifyQueue d)" "has_room (tcQueues w) vq" "vq \<noteq> q" "vq \<noteq> tcQueue d"
  shows "\<exists>d' w'. performOperation sys (pus_handle sys receiver) d w = Some (RETURN_OK, d', w')
     \<and> pool_abs (tcStore w') = pool_abs (tcStore w)
     \<and> (\<exists>m'. getStorageId sys m' = getStorageId sys m \<and> queue_content (tcQueues w') q = queue_content (tcQueues w) q @ [m'])
     \<and> queue_content (tcQueues w') vq = queue_content (tcQueues w) vq @ [acceptance_report sys p RETURN_OK]"
proof (rule perform_single[OF w(2,3) m(1)])
  fix qm m'
  assume qm: "queues_ok qm" "message_ok m'" "getStorageId sys m' = getStorageId sys m"
    "queue_content qm = (queue_content (tcQueues w))(tcQueue d := [])"
    "\<forall>q. queueMap qm q = None \<longleftrightarrow> queueMap (tcQueues w) q = None"
    "\<forall>q. q \<noteq> tcQueue d \<longrightarrow> queueMap qm q = queueMap (tcQueues w) q"
  let ?d = "d\<lparr>currentMessage := m'\<rparr>" and ?w = "w\<lparr>tcQueues := qm\<rparr>"
  have q: "q \<noteq> tcQueue d" using dest(1,3) by (auto simp: ran_def)
  have "queueMap (tcQueues w) (tcQueue d) \<noteq> None"
    using m(1) by (cases "queueMap (tcQueues w) (tcQueue d)") (auto simp: queue_content_def)
  then have ok: "distributor_ok sys tc_readable ?d ?w"
    using w(1) qm dest(3) by (simp add: distributor_ok_def pending_def)
  have pk: "pool_abs (tcStore ?w) (getStorageId sys (currentMessage ?d)) = Some p" using m(2) qm(3) by simp
  have read: "tc_readable p" using p(1,2) by (simp add: tc_readable_def tc_acceptable_def)
  have room: "has_room (tcQueues ?w) q" "has_room (tcQueues ?w) vq"
    using has_room_cong[of qm q "tcQueues w"] has_room_cong[of qm vq "tcQueues w"] qm(6) q dest(2) vq by simp_all
  have it: "Some q = destinations ?d (ucast (tc_getService p))" and v: "vq = report_queue receiver (verifyQueue ?d)"
    and cp: "currentPacket ?d \<noteq> None" and acc: "tc_acceptable (checkerApid ?d) p"
    using dest(1) vq(1) p(1,3) by simp_all
  obtain d' w' code sent where o:
     "pus_handle sys receiver ?d ?w = Some (if code = RETURN_OK then RETURN_OK else RETURN_FAILED, d', w')"
     "keeps ?d ?w d' w' {getStorageId sys (currentMessage ?d)}"
     "pool_abs (tcStore w') = (if code = RETURN_OK then pool_abs (tcStore ?w)
        else (pool_abs (tcStore ?w))(getStorageId sys (currentMessage ?d) := None))"
     "queue_content (tcQueues w') = (\<lambda>q'. queue_content (tcQueues ?w) q' @ (if Some q = Some q' \<and> code = RETURN_OK then [currentMessage ?d] else [])
          @ (if q' = vq \<and> sent then [acceptance_report sys p code] else []))"
     "Some q \<noteq> Some vq \<longrightarrow> has_room (tcQueues ?w) vq \<longrightarrow> sent"
     "\<forall>q'. tc_acceptable (checkerApid ?d) p \<longrightarrow> Some q = Some q' \<longrightarrow> has_room (tcQueues ?w) q' \<longrightarrow> code = RETURN_OK"
    using pus_handle_outcome[OF ok cp pk read refl it v] by blast
  have code: "code = RETURN_OK" and sent: "sent" using o(5,6) acc room vq(3) by blast+
  have own: "queueMap (tcQueues w') (tcQueue d) \<noteq> None"
    using o(2) qm(5) \<open>queueMap (tcQueues w) (tcQueue d) \<noteq> None\<close> by (simp add: keeps_def)
  have content: "queue_content (tcQueues w') (tcQueue d) = []" "queue_content (tcQueues w') q = queue_content (tcQueues w) q @ [m']"
    "queue_content (tcQueues w') vq = queue_content (tcQueues w) vq @ [acceptance_report sys p RETURN_OK]"
    using o(4) code sent qm(4) q vq(3,4) by simp_all
  show "\<exists>st d' w'. pus_handle sys receiver ?d ?w = Some (st, d', w') \<and> tcQueue d' = tcQueue d
       \<and> queues_ok (tcQueues w') \<and> message_ok (currentMessage d') \<and> queueMap (tcQueues w') (tcQueue d) \<noteq> None
       \<and> queue_content (tcQueues w') (tcQueue d) = [] \<and> pool_abs (tcStore w') = pool_abs (tcStore w)
       \<and> (\<exists>m'. getStorageId sys m' = getStorageId sys m \<and> queue_content (tcQueues w') q = queue_content (tcQueues w) q @ [m'])
       \<and> queue_content (tcQueues w') vq = queue_content (tcQueues w) vq @ [acceptance_report sys p RETURN_OK]"
    using o(1-3) code own content qm(3) by (intro exI[of _ RETURN_OK] exI[of _ d'] exI[of _ w']) (auto simp: keeps_def)
qed

subsection \<open>Properties\<close>

text \<open>
  C27. The packet check accepts a stored packet of at least eight bytes exactly if its length agrees with
  its header, its CRC is right, and it is a version 0 telecommand with secondary header, of the checker's
  APID and PUS version 1. But the CRC is computed over the length that the header declares, before that
  length is compared with the stored one: exactly the packets whose declared length passes the end of the
  store's block are read beyond it.
\<close>

theorem packet_check_exact:
  assumes inv: "pool_inv lp" and p: "pool_abs lp a = Some p" "8 \<le> length p"
  shows "(checkPacket apid lp (setStoreAddress lp a) = Some RETURN_OK \<longleftrightarrow> tc_acceptable apid p)
     \<and> (checkPacket apid lp (setStoreAddress lp a) = None
          \<longleftrightarrow> length (pool_store lp ! pool_index a) - getRawPosition lp a < getFullSize p)"
proof -
  obtain ptr where m: "modifyData lp a = (RETURN_OK, Some (ptr, length p))" "take (length p) (pool_mem lp ptr) = p"
      "length p \<le> length (pool_mem lp ptr)" "setStoreAddress lp a = \<lparr>storeAddress = a, packet_ptr = Some ptr\<rparr>"
      "ptr = (pool_index a, getRawPosition lp a)"
    using pool_abs_modify[OF inv p(1)] by blast
  note f = memory_fields[OF m(2) p(2)]
  have len: "length (pool_mem lp ptr) = length (pool_store lp ! pool_index a) - getRawPosition lp a"
    by (simp add: m(5) pool_mem_def)
  have six: "\<not> length (pool_mem lp ptr) < CCSDS_HEADER_SIZE" using m(3) p(2) by (simp add: pus_sizes)
  have none: "checkPacket apid lp (setStoreAddress lp a) = None \<longleftrightarrow> length (pool_mem lp ptr) < getFullSize p"
    using six by (simp add: checkPacket_def m(4) f Let_def)
  have ok: "checkPacket apid lp (setStoreAddress lp a) = Some RETURN_OK \<longleftrightarrow> tc_acceptable apid p"
  proof (cases "getFullSize p = length p")
    case True
    then have "tc_readable p" using p(2) by (simp add: tc_readable_def)
    from checkPacket_verdict[OF inv p(1) this] show ?thesis by (simp add: check_verdict_ok)
  next
    case False
    then have "\<not> isSizeCorrect lp (setStoreAddress lp a)" by (simp add: m(4) isSizeCorrect_def m(1) f)
    then have "checkPacket apid lp (setStoreAddress lp a) \<noteq> Some RETURN_OK"
      by (simp add: checkPacket_def m(4) Let_def)
    then show ?thesis using False by (simp add: tc_acceptable_def)
  qed
  show ?thesis using ok none len by simp
qed

text \<open>
  Every telecommand that the framework builds in a store passes the framework's own check for its
  APID (of which the packet has eleven bits), and is refused with \<open>ILLEGAL_APID\<close> by every other.
\<close>

theorem built_packet_accepted:
  assumes inv: "pool_inv lp" and len: "length data < 2 ^ 31"
    and new: "newTcPacketStored lp apid service subservice seq data ack = (sp, lp')" and ok: "packet_ptr sp \<noteq> None"
  shows "checkPacket (take_bit 11 apid) lp' sp = Some RETURN_OK
     \<and> (\<forall>other. other \<noteq> take_bit 11 apid \<longrightarrow> checkPacket other lp' sp = Some ILLEGAL_APID)"
proof -
  obtain q where g: "getData lp' (storeAddress sp) = (RETURN_OK, Some q)" and inv': "pool_inv lp'"
    and q: "length q = 12 + length data" "getFullSize q = length q" "crc16 q = 0" "isTelecommand q" "getAPID q = take_bit 11 apid"
      "hasSecondaryHeader q" "getPacketVersionNumber q = 0" "getSecondaryHeaderFlag q = 0" "getPusVersionNumber q = 1"
    and sp: "sp = setStoreAddress lp' (storeAddress sp)"
    using tc_built_in_store[OF assms] by blast
  have "pool_abs lp' (storeAddress sp) = Some q" using g by (simp add: getData_abs[OF inv'] split: option.splits if_splits)
  moreover have "tc_readable q" using q(1,2) by (simp add: tc_readable_def)
  ultimately have "checkPacket other lp' sp = Some (check_verdict other q)" for other
    using checkPacket_verdict[OF inv'] sp by metis
  then show ?thesis using q by (auto simp: check_verdict_def)
qed

text \<open>
  A round of the CCSDS distributor returns with an empty queue; afterwards every packet that was
  pending is either gone from the store or there unchanged with its address in the queue of one of the
  registered applications, and no other packet was touched.
\<close>

theorem ccsds_distribution_settles:
  assumes "distributor_ok sys (\<lambda>p. 2 \<le> length p) d w"
  shows "\<exists>d' w'. performOperation sys (ccsds_handle sys) d w = Some (RETURN_OK, d', w') \<and> pending sys d' w' = []
     \<and> (\<forall>a \<in> set (pending sys d w). settled sys d w w' a)
     \<and> (\<forall>a. a \<notin> set (pending sys d w) \<longrightarrow> pool_abs (tcStore w') a = pool_abs (tcStore w) a)"
  using ccsds.performOperation_settles[OF assms TrueI] by (auto simp: keeps_def)

text \<open>
  C26. A round of the PUS distributor returns with an empty queue, provided that it does not report to
  itself and no pending packet declares more bytes than are stored; afterwards every packet that was pending
  is either gone from the store or there unchanged with its address in the queue of a registered service.
\<close>

theorem pus_distribution_settles:
  assumes "distributor_ok sys tc_readable d w"
    and "currentPacket d \<noteq> None" "report_queue receiver (verifyQueue d) \<noteq> tcQueue d"
  shows "\<exists>d' w'. performOperation sys (pus_handle sys receiver) d w = Some (RETURN_OK, d', w') \<and> pending sys d' w' = []
     \<and> (\<forall>a \<in> set (pending sys d w). settled sys d w w' a)
     \<and> (\<forall>a. a \<notin> set (pending sys d w) \<longrightarrow> pool_abs (tcStore w') a = pool_abs (tcStore w) a)"
  using pus.performOperation_settles[OF assms(1) conjI[OF assms(2,3)]] by (auto simp: keeps_def)

text \<open>
  The reason of a refusal never reaches ground: whatever code the packet check gave, the packet is
  deleted and the acceptance failure report carries \<open>RETURN_FAILED\<close>, because the status of the sending that
  did not take place overwrites the status of the check.
\<close>

theorem acceptance_code_masked:
  assumes ok: "distributor_ok sys tc_readable d w" and cp: "currentPacket d \<noteq> None"
    and p: "pool_abs (tcStore w) a = Some p" "tc_readable p" and a: "a = getStorageId sys (currentMessage d)"
    and refused: "checkPacket (checkerApid d) (tcStore w) (setStoreAddress (tcStore w) a) = Some code" "code \<noteq> RETURN_OK"
    and vq: "vq = report_queue receiver (verifyQueue d)" "has_room (tcQueues w) vq" "destinations d (ucast (tc_getService p)) \<noteq> Some vq"
  shows "\<exists>d' w' m. pus_handle sys receiver d w = Some (RETURN_FAILED, d', w') \<and> pool_abs (tcStore w') a = None
     \<and> queue_content (tcQueues w') vq = queue_content (tcQueues w) vq @ [m]
     \<and> getReportId m = ACCEPTANCE_FAILURE \<and> getErrorCode sys m = RETURN_FAILED
     \<and> getTcPacketId sys m = getPacketId p \<and> getTcSequenceControl sys m = getPacketSequenceControl p"
proof -
  have "pool_inv (tcStore w)" using ok by (simp add: distributor_ok_def pool_ok_def)
  from checkPacket_verdict[OF this p] refused have no: "\<not> tc_acceptable (checkerApid d) p" by (auto simp: check_verdict_ok)
  obtain d' w' code' sent where o:
     "pus_handle sys receiver d w = Some (if code' = RETURN_OK then RETURN_OK else RETURN_FAILED, d', w')"
     "code' = RETURN_FAILED"
     "pool_abs (tcStore w') = (if code' = RETURN_OK then pool_abs (tcStore w) else (pool_abs (tcStore w))(a := None))"
     "queue_content (tcQueues w') = (\<lambda>q. queue_content (tcQueues w) q
          @ (if destinations d (ucast (tc_getService p)) = Some q \<and> code' = RETURN_OK then [currentMessage d] else [])
          @ (if q = vq \<and> sent then [acceptance_report sys p code'] else []))"
     sent
    using pus_handle_outcome[OF ok cp p a refl vq(1)] vq(2,3) no by auto
  note fields = verification_message_fields[OF refl, of sys ACCEPTANCE_FAILURE "getAcknowledgeFlags p" "getPacketId p"
     "getPacketSequenceControl p" RETURN_FAILED 0 0 0]
  show ?thesis
    using o fields by (intro exI[of _ d'] exI[of _ w'] exI[of _ "acceptance_report sys p code'"])
      (simp add: acceptance_report_def)
qed

text \<open>
  C25. A telecommand on its way: a well-formed packet that the data link layer sent to the CCSDS
  distributor is in the queue of its service after one round of the CCSDS distributor and one of the PUS
  distributor, unchanged in the store, and its acceptance is reported to the verification service, when
  the two distributors have nothing else to do and the queues on the way have room.
\<close>

theorem telecommand_reaches_service:
  assumes w: "pool_ok (tcStore w)" "NUMBER_OF_POOLS (tcStore w) \<le> 255" "queues_ok (tcQueues w)"
    and c: "message_ok (currentMessage c)" "queue_content (tcQueues w) (tcQueue c) = []"
      "destinations c (ucast (checkerApid d)) = Some (tcQueue d)" "tcQueue c \<notin> ran (destinations c)"
    and d: "message_ok (currentMessage d)" "queue_content (tcQueues w) (tcQueue d) = []" "currentPacket d \<noteq> None"
      "destinations d (ucast (tc_getService p)) = Some srv" "tcQueue d \<notin> ran (destinations d)"
    and vq: "vq = report_queue receiver (verifyQueue d)" "distinct [tcQueue c, tcQueue d, srv, vq]"
    and room: "\<forall>q \<in> {tcQueue d, srv, vq}. has_room (tcQueues w) q"
    and p: "tc_acceptable (checkerApid d) p" "8 \<le> length p"
    and sent: "sendCompletePacket sys (tcQueue c) w p (length p) = Some (RETURN_OK, w1)"
  shows "\<exists>c' w2 d' w3 m. performOperation sys (ccsds_handle sys) c w1 = Some (RETURN_OK, c', w2)
     \<and> performOperation sys (pus_handle sys receiver) d w2 = Some (RETURN_OK, d', w3)
     \<and> queue_content (tcQueues w3) srv = queue_content (tcQueues w) srv @ [m]
     \<and> pool_abs (tcStore w3) (getStorageId sys m) = Some p
     \<and> queue_content (tcQueues w3) vq = queue_content (tcQueues w) vq @ [acceptance_report sys p RETURN_OK]"
proof -
  have apid: "getAPID p = checkerApid d" using p(1) by (simp add: tc_acceptable_def)
  have "length p < 2 ^ 32" using p(1) by (intro getFullSize_bound) (simp add: tc_acceptable_def)
  from sendCompletePacket_ok[OF w this sent] obtain m1 where 1: "pool_ok (tcStore w1)" "pool_abs (tcStore w1) (getStorageId sys m1) = Some p"
      "queues_ok (tcQueues w1)" "queue_content (tcQueues w1) = (\<lambda>q. queue_content (tcQueues w) q @ (if q = tcQueue c then [m1] else []))"
      "\<forall>q. q \<noteq> tcQueue c \<longrightarrow> queueMap (tcQueues w1) q = queueMap (tcQueues w) q"
    by blast
  have room1: "has_room (tcQueues w1) q" if "q \<in> {tcQueue d, srv, vq}" for q
    using that room 1(5) vq(2) has_room_cong[of "tcQueues w1" q "tcQueues w"] by auto
  have c1: "queue_content (tcQueues w1) (tcQueue c) = [m1]" using 1(4) c(2) by simp
  have two: "2 \<le> length p" using p(2) by simp
  obtain c' w2 m2 where 2: "performOperation sys (ccsds_handle sys) c w1 = Some (RETURN_OK, c', w2)"
      "pool_ok (tcStore w2)" "queues_ok (tcQueues w2)" "pool_abs (tcStore w2) = pool_abs (tcStore w1)"
      "getStorageId sys m2 = getStorageId sys m1"
      "queue_content (tcQueues w2) = (\<lambda>q. if q = tcQueue c then [] else queue_content (tcQueues w1) q @ (if q = tcQueue d then [m2] else []))"
      "\<forall>q. q \<noteq> tcQueue c \<longrightarrow> q \<noteq> tcQueue d \<longrightarrow> queueMap (tcQueues w2) q = queueMap (tcQueues w1) q"
    using ccsds_hop[OF 1(1,3) c(1) c1 1(2) two c(3)[folded apid] room1[of "tcQueue d"] c(4)] by auto
  have room2: "has_room (tcQueues w2) q" if "q \<in> {srv, vq}" for q
    using that room1[of q] 2(7) vq(2) has_room_cong[of "tcQueues w2" q "tcQueues w1"] by auto
  have d2: "queue_content (tcQueues w2) (tcQueue d) = [m2]" using 2(6) 1(4) d(2) vq(2) by auto
  have a2: "pool_abs (tcStore w2) (getStorageId sys m2) = Some p" using 2(4,5) 1(2) by simp
  have v: "vq \<noteq> srv" "vq \<noteq> tcQueue d" using vq(2) by auto
  obtain d' w3 m3 where 3: "performOperation sys (pus_handle sys receiver) d w2 = Some (RETURN_OK, d', w3)"
      "pool_abs (tcStore w3) = pool_abs (tcStore w2)" "getStorageId sys m3 = getStorageId sys m2"
      "queue_content (tcQueues w3) srv = queue_content (tcQueues w2) srv @ [m3]"
      "queue_content (tcQueues w3) vq = queue_content (tcQueues w2) vq @ [acceptance_report sys p RETURN_OK]"
    using pus_hop[OF 2(2,3) d(1) d2 a2 p d(3,4) room2[of srv] d(5) vq(1) room2[of vq] v] by auto
  have "queue_content (tcQueues w2) q = queue_content (tcQueues w) q" if "q \<in> {srv, vq}" for q
    using that 2(6) 1(4) vq(2) by auto
  then show ?thesis using 2(1) 3 a2 by auto
qed

subsection \<open>Witnesses\<close>

text \<open>
  A telecommand for service 17 of the APID 0x73 (and one that the check refuses, with a wrong CRC), in a store
  or not; queues for the two distributors, the service and the verification service.
\<close>

definition sample_tc :: bytes where "sample_tc = [24, 115, 192, 0, 0, 5, 31, 17, 1, 0, 25, 86]"
definition broken_tc :: bytes where "broken_tc = [24, 115, 192, 0, 0, 5, 31, 17, 1, 0, 25, 87]"

definition tc_store :: "bytes \<Rightarrow> local_pool" where
  "tc_store p = \<lparr>element_sizes = [16], n_elements = [2], pool_store = [p @ replicate 20 0],
     size_list = [[12, STORAGE_FREE]], spillsToHigherPools = False, reporter = False, storeFullReports = 0\<rparr>"

definition tc_address :: store_address where "tc_address = \<lparr>pool_index = 0, packet_index = 0\<rparr>"

definition tc_message :: mq_message where "tc_message = newTmTcMessage LITTLE_ENDIAN tc_address"

definition tc_world :: "local_pool \<Rightarrow> u32 \<Rightarrow> tc_sink" where
  "tc_world lp busy = \<lparr>tcStore = lp, tcQueues = \<lparr>queueMap = (\<lambda>q. if q \<in> {1, 2, 3, 4}
       then Some ((newHostQueue q 3 28)\<lparr>messageQueue := (if q = busy then [tc_message] else [])\<rparr>) else None), queueCounter = 5\<rparr>\<rparr>"

definition sample_ccsds :: ccsds_distributor where
  "sample_ccsds = \<lparr>tcQueue = 1, currentMessage = newMessage, destinations = [0x73 \<mapsto> 2], defaultApid = 0x73\<rparr>"

definition sample_pus :: pus_distributor where
  "sample_pus = \<lparr>tcQueue = 2, currentMessage = newMessage, destinations = [17 \<mapsto> 3], checkerApid = 0x73, verifyQueue = 0,
     currentPacket = Some \<lparr>storeAddress = INVALID_ADDRESS, packet_ptr = None\<rparr>, tcStatus = RETURN_FAILED\<rparr>"

lemma sample_crc: "crc16 sample_tc = 0" "crc16 broken_tc \<noteq> 0"
  by (simp_all add: crc16_def crc16ccitt_def crc_byte_def crc16ccitt_table_def sample_tc_def broken_tc_def)

lemma sample_acceptable: "tc_acceptable 0x73 sample_tc"
  unfolding tc_acceptable_def
  by (simp add: sample_crc) (simp add: layout sample_tc_def getFullSize_def pus_sizes)

lemma sample_sizes: "length sample_tc = 12" "length broken_tc = 12" "getFullSize sample_tc = 12" "getFullSize broken_tc = 12"
  "tc_getService sample_tc = 17" "tc_getService broken_tc = 17" "getAPID sample_tc = 0x73"
  by (simp_all add: layout sample_tc_def broken_tc_def getFullSize_def pus_sizes)

lemma tc_store_ok:
  assumes "length p = 12" shows "pool_ok (tc_store p)" "pool_abs (tc_store p) tc_address = Some p"
proof -
  show "pool_ok (tc_store p)"
    using assms by (auto simp: pool_ok_def pool_inv_def tc_store_def less_2_cases_iff)
  show "pool_abs (tc_store p) tc_address = Some p"
    using assms by (simp add: pool_abs_def valid_address_def slot_size_def tc_address_def tc_store_def getRawPosition_def
        mem_read_def STORAGE_FREE_def)
qed

lemma tc_message_ok: "message_ok tc_message" "getStorageId LITTLE_ENDIAN tc_message = tc_address" "message_ok newMessage"
proof -
  show "message_ok tc_message" "message_ok newMessage"
    by (simp_all add: message_ok_def tc_message_def newTmTcMessage_def message_inv_def newMessage_def setStorageId_def mq_sizes)
  show "getStorageId LITTLE_ENDIAN tc_message = tc_address" unfolding tc_message_def newTmTcMessage_def
    by (rule storage_id_round_trip) (simp_all add: message_inv_def newMessage_def tc_address_def)
qed

lemma tc_world_simps: "tcStore (tc_world lp b) = lp"
  "queue_content (tcQueues (tc_world lp b)) q = (if q \<in> {1, 2, 3, 4} \<and> q = b then [tc_message] else [])"
  "queues_ok (tcQueues (tc_world lp b))" "q \<in> {1, 2, 3, 4} \<Longrightarrow> has_room (tcQueues (tc_world lp b)) q"
  "q \<in> {1, 2, 3, 4} \<Longrightarrow> queueMap (tcQueues (tc_world lp b)) q \<noteq> None"
  using tc_message_ok
  by (auto simp: tc_world_def queue_content_def queues_ok_def host_queue_inv_def newHostQueue_def has_room_def mq_sizes
      message_ok_def)

lemma packet_check_exact_witness:
  "(checkPacket 0x73 (tc_store sample_tc) (setStoreAddress (tc_store sample_tc) tc_address) = Some RETURN_OK \<longleftrightarrow> tc_acceptable 0x73 sample_tc)
   \<and> (checkPacket 0x73 (tc_store sample_tc) (setStoreAddress (tc_store sample_tc) tc_address) = None
        \<longleftrightarrow> length (pool_store (tc_store sample_tc) ! pool_index tc_address) - getRawPosition (tc_store sample_tc) tc_address
              < getFullSize sample_tc)"
  by (rule packet_check_exact) (use tc_store_ok[of sample_tc] in \<open>auto simp: sample_sizes pool_ok_def\<close>)

lemma built_packet_accepted_witness:
  "\<exists>sp lp'. newTcPacketStored (newLocalPool [16] [2] False) 0x73 17 1 5 [1, 2, 3] 0xF = (sp, lp')
     \<and> checkPacket (take_bit 11 0x73) lp' sp = Some RETURN_OK
     \<and> (\<forall>other. other \<noteq> take_bit 11 0x73 \<longrightarrow> checkPacket other lp' sp = Some ILLEGAL_APID)"
proof -
  let ?lp = "newLocalPool [16] [2] False"
  have inv: "pool_inv ?lp" by (rule pool_inv_new) simp_all
  have p: "getPoolIndex ?lp 15 0 = Some 0"
    by (simp add: getPoolIndex_def newLocalPool_def scan_index_rules)
  have e: "findEmpty ?lp 0 = Some 0"
    by (simp add: findEmpty_def newLocalPool_def scan_index_rules numeral_2_eq_2)
  have ptr: "packet_ptr (fst (newTcPacketStored ?lp 0x73 17 1 5 [1, 2, 3] 0xF)) \<noteq> None"
    by (simp add: newTcPacketStored_def pus_sizes getFreeElement_def reserveSpace_def p e spill_loop.simps Let_def)
  obtain sp lp' where n: "newTcPacketStored ?lp 0x73 17 1 5 [1, 2, 3] 0xF = (sp, lp')"
    by (cases "newTcPacketStored ?lp 0x73 17 1 5 [1, 2, 3] 0xF") auto
  have len: "length [1, 2, 3 :: u8] < 2 ^ 31" by simp
  have ok: "packet_ptr sp \<noteq> None" using ptr n by simp
  show ?thesis using built_packet_accepted[OF inv len n ok] n by blast
qed

lemma ccsds_distribution_settles_witness:
  "\<exists>d' w'. performOperation LITTLE_ENDIAN (ccsds_handle LITTLE_ENDIAN) sample_ccsds (tc_world (tc_store sample_tc) 1)
       = Some (RETURN_OK, d', w') \<and> pending LITTLE_ENDIAN d' w' = []
     \<and> settled LITTLE_ENDIAN sample_ccsds (tc_world (tc_store sample_tc) 1) w' tc_address"
proof -
  have p: "pending LITTLE_ENDIAN sample_ccsds (tc_world (tc_store sample_tc) 1) = [tc_address]"
    by (simp add: pending_def sample_ccsds_def tc_world_simps tc_message_ok)
  have "distributor_ok LITTLE_ENDIAN (\<lambda>p. 2 \<le> length p) sample_ccsds (tc_world (tc_store sample_tc) 1)"
    using tc_store_ok[of sample_tc] tc_world_simps(5)[of 1 "tc_store sample_tc" 1]
    by (simp add: distributor_ok_def p tc_world_simps(1-4) sample_sizes tc_message_ok) (simp add: sample_ccsds_def tc_message_ok)
  from ccsds_distribution_settles[OF this] show ?thesis by (auto simp: p)
qed

lemma pus_distribution_settles_witness:
  "\<exists>d' w'. performOperation LITTLE_ENDIAN (pus_handle LITTLE_ENDIAN (Some 4)) sample_pus (tc_world (tc_store sample_tc) 2)
       = Some (RETURN_OK, d', w') \<and> pending LITTLE_ENDIAN d' w' = []
     \<and> settled LITTLE_ENDIAN sample_pus (tc_world (tc_store sample_tc) 2) w' tc_address"
proof -
  have p: "pending LITTLE_ENDIAN sample_pus (tc_world (tc_store sample_tc) 2) = [tc_address]"
    by (simp add: pending_def sample_pus_def tc_world_simps tc_message_ok)
  have ok: "distributor_ok LITTLE_ENDIAN tc_readable sample_pus (tc_world (tc_store sample_tc) 2)"
    using tc_store_ok[of sample_tc] tc_world_simps(5)[of 2 "tc_store sample_tc" 2]
    by (simp add: distributor_ok_def p tc_world_simps(1-4) sample_sizes tc_message_ok tc_readable_def) (simp add: sample_pus_def tc_message_ok)
  have x: "currentPacket sample_pus \<noteq> None" "report_queue (Some 4) (verifyQueue sample_pus) \<noteq> tcQueue sample_pus"
    by (simp_all add: sample_pus_def report_queue_def NO_QUEUE_def reporter_initialize_def)
  from pus_distribution_settles[OF ok x] show ?thesis by (auto simp: p)
qed

lemma acceptance_code_masked_witness:
  "\<exists>d' w' m. pus_handle LITTLE_ENDIAN (Some 4) (sample_pus\<lparr>currentMessage := tc_message\<rparr>) (tc_world (tc_store broken_tc) 0)
       = Some (RETURN_FAILED, d', w') \<and> pool_abs (tcStore w') tc_address = None
     \<and> queue_content (tcQueues w') 4 = [m] \<and> getErrorCode LITTLE_ENDIAN m = RETURN_FAILED"
proof -
  let ?d = "sample_pus\<lparr>currentMessage := tc_message\<rparr>" and ?w = "tc_world (tc_store broken_tc) 0"
  have p: "pending LITTLE_ENDIAN ?d ?w = []" by (simp add: pending_def sample_pus_def tc_world_simps)
  have inv: "pool_inv (tcStore ?w)" using tc_store_ok(1)[of broken_tc] by (simp add: tc_world_simps sample_sizes pool_ok_def)
  have ok: "distributor_ok LITTLE_ENDIAN tc_readable ?d ?w"
    using tc_store_ok[of broken_tc] tc_world_simps(5)[of 2 "tc_store broken_tc" 0]
    by (simp add: distributor_ok_def p tc_world_simps(1-4) sample_sizes tc_message_ok) (simp add: sample_pus_def)
  have pk: "pool_abs (tcStore ?w) tc_address = Some broken_tc" "tc_readable broken_tc"
    using tc_store_ok(2)[of broken_tc] by (simp_all add: tc_world_simps sample_sizes tc_readable_def)
  have "checkPacket (checkerApid ?d) (tcStore ?w) (setStoreAddress (tcStore ?w) tc_address) = Some INCORRECT_CHECKSUM"
    using checkPacket_verdict[OF inv pk] sample_crc(2) by (simp add: check_verdict_def sample_sizes)
  note refused = this tc_check_codes(1)
  have x: "currentPacket ?d \<noteq> None" "4 = report_queue (Some 4) (verifyQueue ?d)" "has_room (tcQueues ?w) 4"
    "destinations ?d (ucast (tc_getService broken_tc)) \<noteq> Some 4" "tc_address = getStorageId LITTLE_ENDIAN (currentMessage ?d)"
    by (simp_all add: sample_pus_def report_queue_def NO_QUEUE_def reporter_initialize_def tc_world_simps tc_message_ok sample_sizes)
  have "queue_content (tcQueues ?w) 4 = []" by (simp add: tc_world_simps)
  then show ?thesis using acceptance_code_masked[OF ok x(1) pk x(5) refused x(2-4)] by auto
qed

lemma telecommand_reaches_service_witness:
  "\<exists>w1 c' w2 d' w3 m. sendCompletePacket LITTLE_ENDIAN 1 (tc_world (newLocalPool [16] [2] False) 0) sample_tc 12 = Some (RETURN_OK, w1)
     \<and> performOperation LITTLE_ENDIAN (ccsds_handle LITTLE_ENDIAN) sample_ccsds w1 = Some (RETURN_OK, c', w2)
     \<and> performOperation LITTLE_ENDIAN (pus_handle LITTLE_ENDIAN (Some 4)) sample_pus w2 = Some (RETURN_OK, d', w3)
     \<and> queue_content (tcQueues w3) 3 = [m] \<and> pool_abs (tcStore w3) (getStorageId LITTLE_ENDIAN m) = Some sample_tc
     \<and> queue_content (tcQueues w3) 4 = [acceptance_report LITTLE_ENDIAN sample_tc RETURN_OK]"
proof -
  let ?lp = "newLocalPool [16] [2] False"
  let ?w = "tc_world ?lp 0"
  have pok: "pool_ok ?lp" using pool_inv_new(1)[of "[16]" "[2]" False] by (simp add: pool_ok_def newLocalPool_def)
  then have inv: "pool_inv ?lp" by (simp add: pool_ok_def)
  have np: "NUMBER_OF_POOLS ?lp \<le> 255" by (simp add: newLocalPool_def)
  have g: "getPoolIndex ?lp 12 0 = Some 0" by (simp add: getPoolIndex_def newLocalPool_def scan_index_rules)
  have e: "findEmpty ?lp 0 = Some 0" by (simp add: findEmpty_def newLocalPool_def scan_index_rules numeral_2_eq_2)
  have "fst (reserveSpace ?lp 12 INVALID_ADDRESS False) = RETURN_OK"
    by (simp add: reserveSpace_def g e spill_loop.simps Let_def)
  moreover have m12: "length sample_tc mod 2 ^ 32 = 12" by (simp add: sample_sizes)
  ultimately obtain a lp where add: "addData ?lp INVALID_ADDRESS sample_tc False = Some (RETURN_OK, a, lp)"
    using addData_spec[OF inv, of sample_tc INVALID_ADDRESS False] unfolding addData_def m12 sample_sizes
    by (cases "reserveSpace ?lp 12 INVALID_ADDRESS False") auto
  have mok: "message_ok (newTmTcMessage LITTLE_ENDIAN a)"
    by (simp add: message_ok_def newTmTcMessage_def message_inv_def newMessage_def setStorageId_def mq_sizes)
  obtain st qm m' where s: "sendMessageFromMessageQueue LITTLE_ENDIAN (tcQueues ?w) 1 (newTmTcMessage LITTLE_ENDIAN a) NO_QUEUE = (st, qm, m')"
    by (cases "sendMessageFromMessageQueue LITTLE_ENDIAN (tcQueues ?w) 1 (newTmTcMessage LITTLE_ENDIAN a) NO_QUEUE") auto
  have st: "st = RETURN_OK" using send_spec(6)[OF tc_world_simps(3) mok s] tc_world_simps(4)[of 1] by simp
  let ?w1 = "?w\<lparr>tcStore := lp, tcQueues := qm\<rparr>"
  have sent: "sendCompletePacket LITTLE_ENDIAN (tcQueue sample_ccsds) ?w sample_tc (length sample_tc) = Some (RETURN_OK, ?w1)"
    using add s st
    by (simp add: sendCompletePacket_def sender_sendMessage_def mem_read_def sample_ccsds_def tc_world_simps(1))
  have vq: "4 = report_queue (Some 4) (verifyQueue sample_pus)" "distinct [tcQueue sample_ccsds, tcQueue sample_pus, 3, 4]"
    by (simp_all add: sample_pus_def sample_ccsds_def report_queue_def NO_QUEUE_def reporter_initialize_def)
  have room: "\<forall>q \<in> {tcQueue sample_pus, 3, 4}. has_room (tcQueues ?w) q" by (simp add: sample_pus_def tc_world_simps)
  have c: "message_ok (currentMessage sample_ccsds)" "queue_content (tcQueues ?w) (tcQueue sample_ccsds) = []"
      "destinations sample_ccsds (ucast (checkerApid sample_pus)) = Some (tcQueue sample_pus)"
      "tcQueue sample_ccsds \<notin> ran (destinations sample_ccsds)"
    by (simp_all add: sample_ccsds_def sample_pus_def tc_message_ok tc_world_simps)
  have d: "message_ok (currentMessage sample_pus)" "queue_content (tcQueues ?w) (tcQueue sample_pus) = []" "currentPacket sample_pus \<noteq> None"
      "destinations sample_pus (ucast (tc_getService sample_tc)) = Some 3" "tcQueue sample_pus \<notin> ran (destinations sample_pus)"
    by (simp_all add: sample_pus_def tc_message_ok tc_world_simps sample_sizes)
  have p: "tc_acceptable (checkerApid sample_pus) sample_tc" "8 \<le> length sample_tc"
    using sample_acceptable by (simp_all add: sample_pus_def sample_sizes)
  have w: "pool_ok (tcStore ?w)" "NUMBER_OF_POOLS (tcStore ?w) \<le> 255" "queues_ok (tcQueues ?w)"
    using pok np by (simp_all add: tc_world_simps)
  have empty: "queue_content (tcQueues ?w) 3 = []" "queue_content (tcQueues ?w) 4 = []" by (simp_all add: tc_world_simps)
  have one: "tcQueue sample_ccsds = 1" by (simp add: sample_ccsds_def)
  from telecommand_reaches_service[OF w c d vq room p sent] sent show ?thesis
    unfolding empty one sample_sizes append_Nil by blast
qed

end
