(* ===== verification/Telemetry.thy ===== *)
theory Telemetry
  imports MapExtraction StoreQueues Fifo
begin

text \<open>
  The way of the telemetry: sending a packet of the telemetry store (\<open>TmPacketStored::sendPacket\<close>), the
  funnel that numbers and closes the packets (\<open>mission/utility/TmFunnel.cpp\<close>), and the bridge to the ground
  link with its store-and-forward FIFO (\<open>fsfw/tmtcservices/TmTcBridge.cpp\<close>). The driver of the link, the
  virtual \<open>sendTm\<close>, is a parameter with a state of its own.
\<close>

subsection \<open>The state around the services\<close>

text \<open>Both stores and the queues, the lost packets reported and the events triggered.\<close>

record tmtc_world =
  tcSide :: tc_sink
  tmStore :: local_pool
  lostTm :: nat
  triggered :: "(u32 \<times> u32 \<times> u32) list"

abbreviation queues :: "tmtc_world \<Rightarrow> queue_map" where "queues w \<equiv> tcQueues (tcSide w)"

definition set_queues :: "queue_map \<Rightarrow> tmtc_world \<Rightarrow> tmtc_world" where
  "set_queues qm w = w\<lparr>tcSide := (tcSide w)\<lparr>tcQueues := qm\<rparr>\<rparr>"

lemma set_queues_simps [simp]:
  "queues (set_queues qm w) = qm" "tmStore (set_queues qm w) = tmStore w" "tcStore (tcSide (set_queues qm w)) = tcStore (tcSide w)"
  "lostTm (set_queues qm w) = lostTm w" "triggered (set_queues qm w) = triggered w"
  by (simp_all add: set_queues_def)

text \<open>\<open>TmPacketStored::sendPacket\<close> with its message.\<close>

definition tm_sendPacket :: "byte_order \<Rightarrow> u32 \<Rightarrow> u32 \<Rightarrow> tmtc_world \<Rightarrow> stored_packet \<Rightarrow> (u16 \<times> tmtc_world) option" where
  "tm_sendPacket sys destination sentFrom w sp =
     (if packet_ptr sp = None then Some (RETURN_FAILED, w)
      else
        (case sendMessageFromMessageQueue sys (queues w) destination (newTmTcMessage sys (storeAddress sp)) sentFrom of
           (result, qm, _) \<Rightarrow>
             map_option (\<lambda>(st, lp, lost, _). (st, (set_queues qm w)\<lparr>tmStore := lp, lostTm := lost\<rparr>))
               (sendPacket (\<lambda>_. result) (tmStore w) (lostTm w) sp True)))"

subsection \<open>TmFunnel\<close>

record tm_funnel =
  funnelQueue :: u32
  storageQueue :: u32
  storageDestination :: bool
  sourceSequenceCount :: u16

text \<open>The header's sequence count and the error control field must lie in the store's block.\<close>

definition tm_closable :: "packet \<Rightarrow> bool" where
  "tm_closable p \<longleftrightarrow> CCSDS_HEADER_SIZE \<le> length p \<and> getFullSize p \<le> length p
     \<and> TM_SOURCE_DATA + unat (getSourceDataSize p) + 2 \<le> length p"

definition funnel_handlePacket ::
  "byte_order \<Rightarrow> tm_funnel \<Rightarrow> tmtc_world \<Rightarrow> mq_message \<Rightarrow> (u16 \<times> tm_funnel \<times> tmtc_world \<times> mq_message) option" where
  "funnel_handlePacket sys f w m =
     (let a = getStorageId sys m in
      case modifyData (tmStore w) a of
        (result, None) \<Rightarrow> Some (result, f, w, m)
      | (_, Some (ptr, _)) \<Rightarrow>
          let p = pool_mem (tmStore w) ptr in
          if \<not> tm_closable p then None
          else
            let p1 = setPacketSequenceCount p (sourceSequenceCount f);
                f1 = f\<lparr>sourceSequenceCount := (sourceSequenceCount f + 1) mod LIMIT_SEQUENCE_COUNT\<rparr>;
                w1 = w\<lparr>tmStore := pool_put (tmStore w) ptr (tm_setErrorControl p1)\<rparr>;
                give_up = (\<lambda>result w' m'. map_option (\<lambda>(_, lp). (result, f1, w'\<lparr>tmStore := lp\<rparr>, m')) (deleteData (tmStore w') (getStorageId sys m')))
            in Option.bind (queue_sendToDefault sys (queues w1) (funnelQueue f) m) (\<lambda>(result, qm, m1).
                 let w2 = set_queues qm w1 in
                 if result \<noteq> RETURN_OK then give_up result w2 m1
                 else if storageDestination f then
                   Option.bind (queue_sendToDefault sys (queues w2) (storageQueue f) m1) (\<lambda>(result2, qm2, m2).
                     let w3 = set_queues qm2 w2 in
                     if result2 \<noteq> RETURN_OK then give_up result2 w3 m2 else Some (result2, f1, w3, m2))
                 else Some (result, f1, w2, m1)))"

partial_function (option) funnel_loop ::
  "byte_order \<Rightarrow> tm_funnel \<Rightarrow> tmtc_world \<Rightarrow> mq_message \<Rightarrow> (u16 \<times> tm_funnel \<times> tmtc_world) option" where
  "funnel_loop sys f w m =
     Option.bind (queue_receive sys (queues w) (funnelQueue f) m) (\<lambda>(status, qm, m1).
       if status \<noteq> RETURN_OK then Some (status, f, set_queues qm w)
       else Option.bind (funnel_handlePacket sys f (set_queues qm w) m1) (\<lambda>(status2, f2, w2, m2).
              if status2 \<noteq> RETURN_OK then Some (status2, f2, w2) else funnel_loop sys f2 w2 m2))"

definition funnel_performOperation :: "byte_order \<Rightarrow> tm_funnel \<Rightarrow> tmtc_world \<Rightarrow> (u16 \<times> tm_funnel \<times> tmtc_world) option" where
  "funnel_performOperation sys f w =
     map_option (\<lambda>(status, f', w'). (if status = MQ_EMPTY then RETURN_OK else status, f', w'))
       (funnel_loop sys f w (newMessage\<lparr>messageSize := MQ_HEADER_SIZE + 4\<rparr>))"


text \<open>The object manager: is there a telemetry store, and the reception queues of the two destinations.\<close>

definition funnel_initialize :: "bool \<Rightarrow> u32 option \<Rightarrow> u32 option \<Rightarrow> tm_funnel \<Rightarrow> queue_map \<Rightarrow> u16 \<times> queue_map" where
  "funnel_initialize tmPool tmTarget storageTarget f qm =
     (if \<not> tmPool then (CHILD_INIT_FAILED, qm)
      else case tmTarget of
        None \<Rightarrow> (CHILD_INIT_FAILED, qm)
      | Some q \<Rightarrow>
          let qm1 = queue_setDefault qm (funnelQueue f) q in
          if \<not> storageDestination f then (RETURN_OK, qm1)
          else case storageTarget of
                 None \<Rightarrow> (RETURN_OK, qm1)
               | Some sq \<Rightarrow> (RETURN_OK, queue_setDefault qm1 (storageQueue f) sq))"

subsection \<open>TmTcBridge\<close>

definition TMTC_RECEPTION_QUEUE_DEPTH :: nat where "TMTC_RECEPTION_QUEUE_DEPTH = 20"
definition LIMIT_STORED_DATA_SENT_PER_CYCLE :: u8 where "LIMIT_STORED_DATA_SENT_PER_CYCLE = 15"
definition LIMIT_DOWNLINK_PACKETS_STORED :: u8 where "LIMIT_DOWNLINK_PACKETS_STORED = 20"
definition DEFAULT_STORED_DATA_SENT_PER_CYCLE :: u8 where "DEFAULT_STORED_DATA_SENT_PER_CYCLE = 5"
definition DEFAULT_DOWNLINK_PACKETS_STORED :: u8 where "DEFAULT_DOWNLINK_PACKETS_STORED = 10"

text \<open>\<open>link\<close> is the state of the child class that implements \<open>sendTm\<close>.\<close>

record 'l tmtc_bridge =
  tmTcReceptionQueue :: u32
  communicationLinkUp :: bool
  tmStored :: bool
  overwriteOld :: bool
  packetSentCounter :: u8
  tmFifo :: "store_address fifo"
  sentPacketsPerCycle :: u8
  maxNumberOfPacketsStored :: u8
  link :: 'l

definition setNumberOfSentPacketsPerCycle :: "'l tmtc_bridge \<Rightarrow> u8 \<Rightarrow> u16 \<times> 'l tmtc_bridge" where
  "setNumberOfSentPacketsPerCycle b n =
     (if n \<le> LIMIT_STORED_DATA_SENT_PER_CYCLE then (RETURN_OK, b\<lparr>sentPacketsPerCycle := n\<rparr>) else (RETURN_FAILED, b))"

definition setMaxNumberOfPacketsStored :: "'l tmtc_bridge \<Rightarrow> u8 \<Rightarrow> u16 \<times> 'l tmtc_bridge" where
  "setMaxNumberOfPacketsStored b n =
     (if n \<le> LIMIT_DOWNLINK_PACKETS_STORED then (RETURN_OK, b\<lparr>maxNumberOfPacketsStored := n\<rparr>) else (RETURN_FAILED, b))"

definition setFifoToOverwriteOldData :: "'l tmtc_bridge \<Rightarrow> bool \<Rightarrow> 'l tmtc_bridge" where
  "setFifoToOverwriteOldData b v = b\<lparr>overwriteOld := v\<rparr>"

definition registerCommConnect :: "'l tmtc_bridge \<Rightarrow> 'l tmtc_bridge" where
  "registerCommConnect b = (if \<not> communicationLinkUp b then b\<lparr>communicationLinkUp := True\<rparr> else b)"

definition registerCommDisconnect :: "'l tmtc_bridge \<Rightarrow> 'l tmtc_bridge" where
  "registerCommDisconnect b = (if communicationLinkUp b then b\<lparr>communicationLinkUp := False\<rparr> else b)"

text \<open>\<open>fresh\<close> is the memory of the new FIFO; the two stores and the distributor's queue come from the object manager.\<close>

definition bridge_initialize ::
  "bool \<Rightarrow> bool \<Rightarrow> u32 option \<Rightarrow> store_address list \<Rightarrow> 'l tmtc_bridge \<Rightarrow> queue_map \<Rightarrow> u16 \<times> 'l tmtc_bridge \<times> queue_map" where
  "bridge_initialize tcFound tmFound tcDistributor fresh b qm =
     (if \<not> tcFound then (CHILD_INIT_FAILED, b, qm)
      else if \<not> tmFound then (CHILD_INIT_FAILED, b, qm)
      else case tcDistributor of
        None \<Rightarrow> (CHILD_INIT_FAILED, b, qm)
      | Some q \<Rightarrow> (RETURN_OK, b\<lparr>tmFifo := FIFOBase_new fresh (unat (maxNumberOfPacketsStored b))\<rparr>,
                   queue_setDefault qm (tmTcReceptionQueue b) q))"

text \<open>\<open>storeDownlinkData\<close>: the address variable is 0 when nothing is retrieved.\<close>

definition storeDownlinkData ::
  "byte_order \<Rightarrow> 'l tmtc_bridge \<Rightarrow> local_pool \<Rightarrow> mq_message \<Rightarrow> (u16 \<times> 'l tmtc_bridge \<times> local_pool) option" where
  "storeDownlinkData sys b lp m =
     (let insert_new = (\<lambda>fifo lp'. case FIFO_insert fifo (getStorageId sys m) of
            (_, fifo') \<Rightarrow> Some (RETURN_OK, b\<lparr>tmFifo := fifo', tmStored := True\<rparr>, lp')) in
      if FIFO_full (tmFifo b) then
        (if overwriteOld b then
           (case FIFO_retrieve (tmFifo b) True of
              (_, v, fifo1) \<Rightarrow>
                Option.bind (deleteData lp (case v of Some a \<Rightarrow> a | None \<Rightarrow> store_address_of_raw 0)) (\<lambda>(_, lp'). insert_new fifo1 lp'))
         else Some (RETURN_FAILED, b, lp))
      else insert_new (tmFifo b) lp)"

text \<open>A message that is received is stored, or its packet is sent.\<close>

definition bridge_message ::
  "byte_order \<Rightarrow> ('l \<Rightarrow> bytes \<Rightarrow> u16 \<times> 'l) \<Rightarrow> 'l tmtc_bridge \<Rightarrow> local_pool \<Rightarrow> mq_message \<Rightarrow> u16
     \<Rightarrow> (u16 \<times> 'l tmtc_bridge \<times> local_pool) option" where
  "bridge_message sys sendTm b lp m status =
     (if \<not> communicationLinkUp b \<or> packetSentCounter b \<ge> sentPacketsPerCycle b then
        map_option (\<lambda>(_, b', lp'). (status, b', lp')) (storeDownlinkData sys b lp m)
      else
        (case getData lp (getStorageId sys m) of
           (result, None) \<Rightarrow> if result = RETURN_OK then None else Some (result, b, lp)
         | (_, Some data) \<Rightarrow>
             (case sendTm (link b) data of
                (result, l) \<Rightarrow>
                  if result \<noteq> RETURN_OK then Some (result, b\<lparr>link := l\<rparr>, lp)
                  else map_option (\<lambda>(_, lp'). (status, b\<lparr>link := l, packetSentCounter := packetSentCounter b + 1\<rparr>, lp'))
                         (deleteData lp (getStorageId sys m)))))"

function (sequential) handleTmQueue_loop ::
  "byte_order \<Rightarrow> ('l \<Rightarrow> bytes \<Rightarrow> u16 \<times> 'l) \<Rightarrow> u32 \<Rightarrow> 'l tmtc_bridge \<Rightarrow> local_pool \<Rightarrow> queue_map \<Rightarrow> mq_message \<Rightarrow> u16
     \<Rightarrow> (u16 \<times> 'l tmtc_bridge \<times> local_pool \<times> queue_map) option" where
  "handleTmQueue_loop sys sendTm qid b lp qm m status =
     (case queue_receive sys qm qid m of
        None \<Rightarrow> None
      | Some (result, qm', m') \<Rightarrow>
          if result \<noteq> RETURN_OK then Some (status, b, lp, qm')
          else (case bridge_message sys sendTm b lp m' status of
                  None \<Rightarrow> None
                | Some (status', b', lp') \<Rightarrow> handleTmQueue_loop sys sendTm qid b' lp' qm' m' status'))"
  by pat_completeness auto
termination
  by (relation "measure (\<lambda>(sys, sendTm, qid, b, lp, qm, m, status). case queueMap qm qid of Some q \<Rightarrow> length (messageQueue q) | None \<Rightarrow> 0)")
     (auto dest: queue_receive_shrinks)

declare handleTmQueue_loop.simps [simp del]

definition handleTmQueue ::
  "byte_order \<Rightarrow> ('l \<Rightarrow> bytes \<Rightarrow> u16 \<times> 'l) \<Rightarrow> 'l tmtc_bridge \<Rightarrow> local_pool \<Rightarrow> queue_map \<Rightarrow> (u16 \<times> 'l tmtc_bridge \<times> local_pool \<times> queue_map) option" where
  "handleTmQueue sys sendTm b lp qm =
     handleTmQueue_loop sys sendTm (tmTcReceptionQueue b) b lp qm (newMessage\<lparr>messageSize := MQ_HEADER_SIZE + 4\<rparr>) RETURN_OK"

text \<open>
  \<open>handleStoredTm\<close>: when the store has no data for an address the driver is called with a null pointer and
  size 0.
\<close>

lemma retrieve_shrinks: "\<not> FIFO_empty f \<Longrightarrow> FIFO_retrieve f True = (r, v, f') \<Longrightarrow> currentSize f' < currentSize f"
  by (auto simp: FIFO_retrieve_def FIFO_empty_def)

function (sequential) handleStoredTm ::
  "('l \<Rightarrow> bytes \<Rightarrow> u16 \<times> 'l) \<Rightarrow> 'l tmtc_bridge \<Rightarrow> local_pool \<Rightarrow> u16 \<Rightarrow> (u16 \<times> 'l tmtc_bridge \<times> local_pool) option" where
  "handleStoredTm sendTm b lp status =
     (if \<not> FIFO_empty (tmFifo b) \<and> packetSentCounter b < sentPacketsPerCycle b then
        (case FIFO_retrieve (tmFifo b) True of
           (_, v, fifo) \<Rightarrow>
             let storeId = (case v of Some a \<Rightarrow> a | None \<Rightarrow> store_address_of_raw 0);
                 (result, d) = getData lp storeId in
             if result = RETURN_OK \<and> d = None then None
             else
               let (sent, l) = sendTm (link b) (case d of Some data \<Rightarrow> data | None \<Rightarrow> []);
                   status' = (if sent \<noteq> RETURN_OK then sent else if result \<noteq> RETURN_OK then result else status);
                   b' = b\<lparr>tmFifo := fifo, link := l, packetSentCounter := packetSentCounter b + 1,
                          tmStored := (if FIFO_empty fifo then False else tmStored b)\<rparr>
               in (case deleteData lp storeId of
                     None \<Rightarrow> None
                   | Some (_, lp') \<Rightarrow> handleStoredTm sendTm b' lp' status'))
      else Some (status, b, lp))"
  by pat_completeness auto
termination
  by (relation "measure (\<lambda>(sendTm, b, lp, status). currentSize (tmFifo b))") (auto dest: retrieve_shrinks[OF _ sym])

declare handleStoredTm.simps [simp del]

definition handleTm ::
  "byte_order \<Rightarrow> ('l \<Rightarrow> bytes \<Rightarrow> u16 \<times> 'l) \<Rightarrow> 'l tmtc_bridge \<Rightarrow> local_pool \<Rightarrow> queue_map \<Rightarrow> (u16 \<times> 'l tmtc_bridge \<times> local_pool \<times> queue_map) option" where
  "handleTm sys sendTm b lp qm =
     Option.bind (handleTmQueue sys sendTm b lp qm) (\<lambda>(status, b1, lp1, qm1).
       map_option (\<lambda>(status', b', lp'). (status', b'\<lparr>packetSentCounter := 0\<rparr>, lp', qm1))
         (if tmStored b1 \<and> communicationLinkUp b1 \<and> packetSentCounter b1 < sentPacketsPerCycle b1
          then map_option (\<lambda>(result, b', lp'). (if result \<noteq> RETURN_OK then result else status, b', lp')) (handleStoredTm sendTm b1 lp1 RETURN_OK)
          else Some (status, b1, lp1)))"

text \<open>\<open>performOperation\<close> with the default \<open>handleTc\<close>, which does nothing.\<close>

definition bridge_performOperation ::
  "byte_order \<Rightarrow> ('l \<Rightarrow> bytes \<Rightarrow> u16 \<times> 'l) \<Rightarrow> 'l tmtc_bridge \<Rightarrow> local_pool \<Rightarrow> queue_map \<Rightarrow> (u16 \<times> 'l tmtc_bridge \<times> local_pool \<times> queue_map) option" where
  "bridge_performOperation = handleTm"

subsection \<open>Sending a packet of the store\<close>

lemma message_ok_tmtc: "message_ok (newTmTcMessage sys a)"
  by (simp add: message_ok_def newTmTcMessage_def message_inv_def newMessage_def setStorageId_def mq_sizes)

lemma tm_send_spec:
  assumes "pool_ok (tmStore w)" "queues_ok (queues w)"
  shows "\<exists>st w'. tm_sendPacket sys dest src w sp = Some (st, w') \<and> pool_ok (tmStore w') \<and> queues_ok (queues w')
     \<and> tcStore (tcSide w') = tcStore (tcSide w) \<and> triggered w' = triggered w
     \<and> (\<forall>q. q \<noteq> dest \<longrightarrow> queueMap (queues w') q = queueMap (queues w) q)
     \<and> (\<forall>q. queueMap (queues w') q = None \<longleftrightarrow> queueMap (queues w) q = None)
     \<and> (st = RETURN_OK \<longrightarrow> tmStore w' = tmStore w
          \<and> queue_content (queues w') dest = queue_content (queues w) dest @ [newTmTcMessage sys (storeAddress sp)])
     \<and> (packet_ptr sp \<noteq> None \<longrightarrow> has_room (queues w) dest \<longrightarrow> st = RETURN_OK)"
proof (cases "packet_ptr sp = None")
  case True
  then show ?thesis using assms by (simp add: tm_sendPacket_def)
next
  case False
  then have some: "\<not> packet_ptr sp = None" .
  let ?m = "newTmTcMessage sys (storeAddress sp)"
  obtain r qm m where s: "sendMessageFromMessageQueue sys (queues w) dest ?m src = (r, qm, m)"
    by (cases "sendMessageFromMessageQueue sys (queues w) dest ?m src") auto
  note sp = send_spec[OF assms(2) message_ok_tmtc s]
  obtain st lp where d: "deleteData (tmStore w) (storeAddress sp) = Some (st, lp)" "pool_ok lp"
    using pool_ok_deletes[OF assms(1)] by blast
  show ?thesis
  proof (cases "r = RETURN_OK")
    case True
    then have "tm_sendPacket sys dest src w sp = Some (RETURN_OK, set_queues qm w)"
      using s some by (simp only: tm_sendPacket_def sendPacket_def if_False Let_def prod.case) (simp add: set_queues_def)
    then show ?thesis using True sp assms(1) by simp
  next
    case bad: False
    then have "tm_sendPacket sys dest src w sp = Some (r, (set_queues qm w)\<lparr>tmStore := lp, lostTm := lostTm w + 1\<rparr>)"
      using s d some by (simp only: tm_sendPacket_def sendPacket_def deletePacket_def if_False Let_def prod.case) simp
    then show ?thesis using bad sp d(2) by (auto simp: set_queues_def)
  qed
qed

subsection \<open>The funnel closes the packets\<close>

text \<open>A complete telemetry packet: as long as its header says, and long enough for its header.\<close>

definition tm_complete :: "bytes \<Rightarrow> bool" where
  "tm_complete p \<longleftrightarrow> getFullSize p = length p \<and> 17 \<le> length p"

lemma tm_close_in_place:
  fixes c
  assumes p: "tm_complete p" and mem: "take (length p) mem = p" "length p \<le> length mem"
  defines "q \<equiv> tm_setErrorControl (setPacketSequenceCount mem c)"
  shows "tm_closable mem" "length q = length mem" "drop (length p) q = drop (length p) mem"
    "crc16 (take (length p) q) = 0" "getPacketSequenceCount q = c mod LIMIT_SEQUENCE_COUNT"
    "getSequenceFlags q = getSequenceFlags p"
    "\<And>i. i + 2 < length p \<Longrightarrow> i \<noteq> 2 \<Longrightarrow> i \<noteq> 3 \<Longrightarrow> q ! i = p ! i"
proof -
  let ?n = "length p" and ?m = "setPacketSequenceCount mem c"
  have n: "17 \<le> ?n" "getFullSize p = ?n" using p by (auto simp: tm_complete_def)
  have i: "mem ! i = p ! i" if "i < ?n" for i using that mem by (metis nth_take)
  have dl: "getPacketDataLength mem = getPacketDataLength p" using i n(1) by (simp add: getPacketDataLength_def)
  then have full: "getFullSize mem = ?n" using n(2) by (simp add: getFullSize_def)
  have l6: "6 \<le> length mem" using n mem by simp
  note o = setPacketSequenceCount_other[OF l6, of c]
  have full': "getFullSize ?m = ?n" using full o(7) by (simp add: getFullSize_def)
  have d: "unat (getPacketDataLength mem) = ?n - 7" using full by (simp add: getFullSize_def pus_sizes)
  then have ge: "10 \<le> getPacketDataLength mem" using n(1) by (simp add: word_le_nat_alt)
  have "getSourceDataSize mem = getPacketDataLength mem - 10" by (simp add: getSourceDataSize_def)
  then have "unat (getSourceDataSize mem) = ?n - 17" using unat_minus_u16[OF ge] d by simp
  then show "tm_closable mem" using full mem n(1) by (simp add: tm_closable_def pus_sizes)
  have ge': "10 \<le> getPacketDataLength ?m" "getFullSize ?m \<le> length ?m" using ge o(7) full' mem by simp_all
  note cl = tm_setErrorControl_closes[OF ge', folded q_def, unfolded full']
  show "length q = length mem" "crc16 (take ?n q) = 0" using cl by simp_all
  have "drop ?n ?m = drop (?n - 6) (drop 6 ?m)" using n(1) by simp
  then show "drop ?n q = drop ?n mem" using cl(2) n(1) unfolding o(8) by simp
  have pre: "q ! k = ?m ! k" if "k + 2 < ?n" for k
  proof -
    have "q ! k = take (?n - 2) q ! k" using that by simp
    also have "\<dots> = ?m ! k" unfolding cl(1) using that by simp
    finally show ?thesis .
  qed
  have "getPacketSequenceCount q = getPacketSequenceCount ?m" using pre n(1) by (simp add: getPacketSequenceCount_def)
  then show "getPacketSequenceCount q = c mod LIMIT_SEQUENCE_COUNT" using l6 by simp
  have "getSequenceFlags q = getSequenceFlags ?m" using pre n(1) by (simp add: getSequenceFlags_def)
  moreover have "getSequenceFlags mem = getSequenceFlags p" using i n(1) by (simp add: getSequenceFlags_def)
  ultimately show "getSequenceFlags q = getSequenceFlags p" using o(6) by simp
  show "q ! k = p ! k" if "k + 2 < ?n" "k \<noteq> 2" "k \<noteq> 3" for k
    using pre[OF that(1)] i[of k] that by (simp add: setPacketSequenceCount_def)
qed

lemma funnel_in_place:
  assumes inv: "pool_inv lp" and p: "pool_abs lp a = Some p" "tm_complete p"
  shows "\<exists>ptr lp' q. modifyData lp a = (RETURN_OK, Some (ptr, length p)) \<and> tm_closable (pool_mem lp ptr)
     \<and> pool_put lp ptr (tm_setErrorControl (setPacketSequenceCount (pool_mem lp ptr) c)) = lp'
     \<and> pool_inv lp' \<and> element_sizes lp' = element_sizes lp \<and> n_elements lp' = n_elements lp \<and> pool_abs lp' = (pool_abs lp)(a \<mapsto> q)
     \<and> length q = length p \<and> crc16 q = 0 \<and> getPacketSequenceCount q = c mod LIMIT_SEQUENCE_COUNT
     \<and> getSequenceFlags q = getSequenceFlags p
     \<and> (\<forall>i. i + 2 < length p \<longrightarrow> i \<noteq> 2 \<longrightarrow> i \<noteq> 3 \<longrightarrow> q ! i = p ! i)"
proof -
  obtain ptr where m: "modifyData lp a = (RETURN_OK, Some (ptr, length p))" "take (length p) (pool_mem lp ptr) = p"
      "length p \<le> length (pool_mem lp ptr)" "ptr = (pool_index a, getRawPosition lp a)"
    using pool_abs_modify[OF inv p(1)] by blast
  let ?n = "length p" and ?q = "tm_setErrorControl (setPacketSequenceCount (pool_mem lp ptr) c)"
  note t1 = tm_close_in_place(1)[OF p(2) m(2,3)]
  note t = tm_close_in_place(2-7)[OF p(2) m(2,3), where c = c]
  note u = pool_put_abs[OF inv p(1) m(4) t(1,2)]
  have n: "17 \<le> ?n" using p(2) by (simp add: tm_complete_def)
  have "getPacketSequenceCount (take ?n ?q) = getPacketSequenceCount ?q" "getSequenceFlags (take ?n ?q) = getSequenceFlags ?q"
    using n by (simp_all add: getPacketSequenceCount_def getSequenceFlags_def)
  then show ?thesis using m(1) t1 t u m(3)
    by (intro exI[of _ ptr] exI[of _ "pool_put lp ptr ?q"] exI[of _ "take ?n ?q"]) auto
qed

text \<open>
  What the funnel made of a packet \<open>p\<close>: \<open>q\<close> has the sequence count and a valid CRC, and is \<open>p\<close>
  otherwise. The count takes the lower six bits of byte 2 and the whole of byte 3; the upper two bits of
  byte 2 are the sequence flags, which stay, and so does every other byte before the checksum.
\<close>

definition numbered :: "u16 \<Rightarrow> bytes \<Rightarrow> bytes \<Rightarrow> bool" where
  "numbered c p q \<longleftrightarrow> length q = length p \<and> crc16 q = 0 \<and> getPacketSequenceCount q = c mod LIMIT_SEQUENCE_COUNT
     \<and> getSequenceFlags q = getSequenceFlags p
     \<and> (\<forall>i. i + 2 < length p \<longrightarrow> i \<noteq> 2 \<longrightarrow> i \<noteq> 3 \<longrightarrow> q ! i = p ! i)"

lemma funnel_handle_sent:
  assumes inv: "pool_inv (tmStore w)" and p: "pool_abs (tmStore w) a = Some p" "tm_complete p" "a = getStorageId sys m"
    and qs: "queues_ok (queues w)" "message_ok m" "queueMap (queues w) (funnelQueue f) = Some hq" "\<not> storageDestination f"
    and dest: "defaultDestination hq = dl" "dl \<noteq> funnelQueue f" "queue_room (queues w) dl (Suc n)"
  shows "\<exists>w' m' q. funnel_handlePacket sys f w m = Some (RETURN_OK,
        f\<lparr>sourceSequenceCount := (sourceSequenceCount f + 1) mod LIMIT_SEQUENCE_COUNT\<rparr>, w', m')
     \<and> pool_inv (tmStore w') \<and> pool_abs (tmStore w') = (pool_abs (tmStore w))(a \<mapsto> q) \<and> numbered (sourceSequenceCount f) p q
     \<and> queues_ok (queues w') \<and> message_ok m' \<and> queueMap (queues w') (funnelQueue f) = Some hq \<and> queue_room (queues w') dl n
     \<and> queue_content (queues w') = (queue_content (queues w))(dl := queue_content (queues w) dl @ [m])"
proof -
  obtain ptr lp' q where i: "modifyData (tmStore w) a = (RETURN_OK, Some (ptr, length p))" "tm_closable (pool_mem (tmStore w) ptr)"
     "pool_put (tmStore w) ptr (tm_setErrorControl (setPacketSequenceCount (pool_mem (tmStore w) ptr) (sourceSequenceCount f))) = lp'"
     "pool_inv lp'" "pool_abs lp' = (pool_abs (tmStore w))(a \<mapsto> q)" "numbered (sourceSequenceCount f) p q"
    using funnel_in_place[OF inv p(1,2), of "sourceSequenceCount f"] unfolding numbered_def by blast
  obtain st qm m' where s: "queue_sendToDefault sys (queues w) (funnelQueue f) m = Some (st, qm, m')"
    using qs(3) by (cases "queue_sendToDefault sys (queues w) (funnelQueue f) m") (auto simp: queue_sendToDefault_def)
  note sp = send_default_spec[OF qs(1-3) s, unfolded dest(1)]
  have ne: "defaultDestination hq \<noteq> funnelQueue f" using dest by simp
  have st: "st = RETURN_OK" using sp(6) queue_room_has[OF dest(3)] .
  let ?w' = "set_queues qm (w\<lparr>tmStore := lp'\<rparr>)"
  have "funnel_handlePacket sys f w m = Some (RETURN_OK,
        f\<lparr>sourceSequenceCount := (sourceSequenceCount f + 1) mod LIMIT_SEQUENCE_COUNT\<rparr>, ?w', m')"
    using i(1-3) s st qs(4) by (simp add: funnel_handlePacket_def p(3)[symmetric] Let_def)
  moreover have "queue_content qm = (queue_content (queues w))(dl := queue_content (queues w) dl @ [m])"
    using sp(4) st by (auto simp: fun_eq_iff)
  ultimately show ?thesis
    using i sp(1,2) send_default_dest[OF qs(3) s ne] dest by (intro exI[of _ ?w'] exI[of _ m'] exI[of _ q]) simp
qed

lemma next_count: "((c + 1) mod LIMIT_SEQUENCE_COUNT + of_nat k) mod LIMIT_SEQUENCE_COUNT = (c + of_nat (Suc k)) mod LIMIT_SEQUENCE_COUNT"
proof -
  have m: "x mod 65536 mod 16384 = x mod 16384" for x :: nat by (rule mod_mod_cancel) simp
  have "unat (((c + 1) mod LIMIT_SEQUENCE_COUNT + of_nat k) mod LIMIT_SEQUENCE_COUNT) = (unat c + 1 + k) mod 16384"
    by (simp add: unat_mod unat_word_ariths LIMIT_SEQUENCE_COUNT_def m unsigned_of_nat take_bit_eq_mod mod_simps)
  moreover have "unat ((c + of_nat (Suc k)) mod LIMIT_SEQUENCE_COUNT) = (unat c + 1 + k) mod 16384"
    by (simp add: unat_mod unat_word_ariths LIMIT_SEQUENCE_COUNT_def m unsigned_of_nat take_bit_eq_mod mod_simps)
  ultimately show ?thesis by (simp only: word_unat_eq_iff)
qed

lemma funnel_loop_numbers:
  assumes "map (getStorageId sys) (queue_content (queues w) (funnelQueue f)) = as" "distinct as"
    and "pool_inv (tmStore w)" "\<forall>a \<in> set as. \<exists>p. pool_abs (tmStore w) a = Some p \<and> tm_complete p"
    and "queues_ok (queues w)" "message_ok m" "queueMap (queues w) (funnelQueue f) = Some hq" "\<not> storageDestination f"
    and "queue_default (queues w) (funnelQueue f) = dl" "dl \<noteq> funnelQueue f" "queue_room (queues w) dl (length as)"
  shows "\<exists>f' w' ms. funnel_loop sys f w m = Some (MQ_EMPTY, f', w') \<and> queue_content (queues w') (funnelQueue f) = []
     \<and> queue_content (queues w') dl = queue_content (queues w) dl @ ms \<and> map (getStorageId sys) ms = as
     \<and> (\<forall>a. a \<notin> set as \<longrightarrow> pool_abs (tmStore w') a = pool_abs (tmStore w) a)
     \<and> (\<forall>k < length as. \<exists>p q. pool_abs (tmStore w) (as ! k) = Some p \<and> pool_abs (tmStore w') (as ! k) = Some q
           \<and> numbered (sourceSequenceCount f + of_nat k) p q)"
  using assms
proof (induction as arbitrary: f w m hq)
  case Nil
  have c: "queue_content (queues w) (funnelQueue f) = []" using Nil.prems(1) by simp
  have "queue_receive sys (queues w) (funnelQueue f) m = Some (MQ_EMPTY, queues w, m)"
    using receive_spec(1)[OF Nil.prems(5,6) _ c] Nil.prems(7) by simp
  then have "funnel_loop sys f w m = Some (MQ_EMPTY, f, set_queues (queues w) w)"
    by (subst funnel_loop.simps) simp
  then show ?case using c by (intro exI[of _ f] exI[of _ "set_queues (queues w) w"] exI[of _ "[]"]) simp
next
  case (Cons a as)
  let ?fq = "funnelQueue f"
  obtain m0 ms0 where c: "queue_content (queues w) ?fq = m0 # ms0" "getStorageId sys m0 = a" "map (getStorageId sys) ms0 = as"
    using Cons.prems(1) by auto
  have ne: "queueMap (queues w) ?fq \<noteq> None" using Cons.prems(7) by simp
  obtain qm m1 where r: "queue_receive sys (queues w) ?fq m = Some (RETURN_OK, qm, m1)" "queues_ok qm" "message_ok m1"
      "getStorageId sys m1 = a" "queue_content qm = (queue_content (queues w))(?fq := ms0)"
      "\<forall>q. queueMap qm q = None \<longleftrightarrow> queueMap (queues w) q = None"
    using receive_spec(2)[OF Cons.prems(5,6) ne c(1), of sys] c(2) by blast
  note k = receive_keeps[OF r(1)]
  obtain hq1 where hq1: "queueMap qm ?fq = Some hq1" using r(6) ne by (metis not_None_eq)
  have d1: "queue_default qm ?fq = dl" using k(2) Cons.prems(9) by simp
  have dl: "defaultDestination hq1 = dl" using d1 hq1 by (simp add: queue_default_def)
  have room: "queue_room qm dl (Suc (length as))"
    using Cons.prems(10,11) k(1)[of dl] by (simp add: queue_room_def)
  let ?w1 = "set_queues qm w"
  obtain p where p: "pool_abs (tmStore w) a = Some p" "tm_complete p" using Cons.prems(4) by auto
  obtain w2 m2 q where h: "funnel_handlePacket sys f ?w1 m1 = Some (RETURN_OK,
        f\<lparr>sourceSequenceCount := (sourceSequenceCount f + 1) mod LIMIT_SEQUENCE_COUNT\<rparr>, w2, m2)"
      "pool_inv (tmStore w2)" "pool_abs (tmStore w2) = (pool_abs (tmStore w))(a \<mapsto> q)" "numbered (sourceSequenceCount f) p q"
      "queues_ok (queues w2)" "message_ok m2" "queueMap (queues w2) ?fq = Some hq1" "queue_room (queues w2) dl (length as)"
      "queue_content (queues w2) = (queue_content qm)(dl := queue_content qm dl @ [m1])"
    using funnel_handle_sent[of ?w1 a p sys m1 f hq1 dl "length as", unfolded set_queues_simps, OF Cons.prems(3) p r(4)[symmetric]
        r(2,3) hq1 Cons.prems(8) dl Cons.prems(10) room] by blast
  let ?f2 = "f\<lparr>sourceSequenceCount := (sourceSequenceCount f + 1) mod LIMIT_SEQUENCE_COUNT\<rparr>"
  have c2: "map (getStorageId sys) (queue_content (queues w2) (funnelQueue ?f2)) = as"
    using h(9) r(5) c(3) Cons.prems(10) by simp
  have held: "\<forall>b \<in> set as. \<exists>p. pool_abs (tmStore w2) b = Some p \<and> tm_complete p"
    using Cons.prems(2,4) h(3) by auto
  have d2: "queue_default (queues w2) (funnelQueue ?f2) = dl" using h(7) dl by (simp add: queue_default_def)
  obtain f3 w3 ms where t: "funnel_loop sys ?f2 w2 m2 = Some (MQ_EMPTY, f3, w3)" "queue_content (queues w3) ?fq = []"
      "queue_content (queues w3) dl = queue_content (queues w2) dl @ ms" "map (getStorageId sys) ms = as"
      "\<forall>b. b \<notin> set as \<longrightarrow> pool_abs (tmStore w3) b = pool_abs (tmStore w2) b"
      "\<forall>k < length as. \<exists>p q. pool_abs (tmStore w2) (as ! k) = Some p \<and> pool_abs (tmStore w3) (as ! k) = Some q
           \<and> numbered (sourceSequenceCount ?f2 + of_nat k) p q"
    using Cons.IH[OF c2 _ h(2) held h(5,6), of hq1] Cons.prems(2,8,10) h(7,8) d2 by auto
  have loop: "funnel_loop sys f w m = Some (MQ_EMPTY, f3, w3)"
    by (subst funnel_loop.simps) (simp add: r(1) h(1) t(1))
  have "\<exists>p q. pool_abs (tmStore w) ((a # as) ! k) = Some p \<and> pool_abs (tmStore w3) ((a # as) ! k) = Some q
      \<and> numbered (sourceSequenceCount f + of_nat k) p q" if k: "k < length (a # as)" for k
  proof (cases k)
    case 0
    have "pool_abs (tmStore w3) a = Some q" using t(5) Cons.prems(2) h(3) by simp
    then show ?thesis using 0 p h(4) by simp
  next
    case (Suc j)
    then have j: "j < length as" using k by simp
    then have "as ! j \<noteq> a" using Cons.prems(2) nth_mem by fastforce
    then obtain p' q' where pq: "pool_abs (tmStore w) (as ! j) = Some p'" "pool_abs (tmStore w3) (as ! j) = Some q'"
        "numbered (sourceSequenceCount ?f2 + of_nat j) p' q'"
      using t(6) j h(3) by auto
    then have "numbered (sourceSequenceCount f + of_nat (Suc j)) p' q'"
      using next_count[of "sourceSequenceCount f" j] by (simp add: numbered_def)
    then show ?thesis using pq Suc by simp
  qed
  then have all: "\<forall>k < length (a # as). \<exists>p q. pool_abs (tmStore w) ((a # as) ! k) = Some p \<and> pool_abs (tmStore w3) ((a # as) ! k) = Some q
      \<and> numbered (sourceSequenceCount f + of_nat k) p q" by blast
  have "queue_content (queues w3) dl = queue_content (queues w) dl @ m1 # ms"
    using t(3) h(9) r(5) Cons.prems(10) by simp
  moreover have "map (getStorageId sys) (m1 # ms) = a # as" using r(4) t(4) by simp
  moreover have "\<forall>b. b \<notin> set (a # as) \<longrightarrow> pool_abs (tmStore w3) b = pool_abs (tmStore w) b" using t(5) h(3) by simp
  ultimately show ?case using loop t(2) all
    by (intro exI[of _ f3] exI[of _ w3] exI[of _ "m1 # ms"] conjI)
qed

subsection \<open>Store and forward\<close>

text \<open>The FIFO of a bridge that was initialised with room for at least one packet.\<close>

definition bridge_ok :: "'l tmtc_bridge \<Rightarrow> bool" where
  "bridge_ok b \<longleftrightarrow> fifo_inv (tmFifo b) \<and> 0 < maxCapacity (tmFifo b)"

text \<open>Which of the addresses \<open>xs\<close> a FIFO of \<open>n\<close> places keeps, and which are thrown away and deleted.\<close>

definition kept :: "bool \<Rightarrow> nat \<Rightarrow> 'a list \<Rightarrow> 'a list" where
  "kept overwrite n xs = (if overwrite then drop (length xs - n) xs else take n xs)"

definition dropped :: "bool \<Rightarrow> nat \<Rightarrow> 'a list \<Rightarrow> 'a list" where
  "dropped overwrite n xs = (if overwrite then take (length xs - n) xs else [])"

lemma storeDownlinkData_spec:
  fixes sys m
  assumes ok: "bridge_ok b" "pool_ok lp"
  defines "n \<equiv> maxCapacity (tmFifo b)" and "xs \<equiv> fifo_abs (tmFifo b) @ [getStorageId sys m]"
  shows "\<exists>st b' lp'. storeDownlinkData sys b lp m = Some (st, b', lp') \<and> bridge_ok b' \<and> pool_ok lp'
     \<and> fifo_abs (tmFifo b') = kept (overwriteOld b) n xs \<and> maxCapacity (tmFifo b') = n
     \<and> pool_abs lp' = (\<lambda>a. if a \<in> set (dropped (overwriteOld b) n xs) then None else pool_abs lp a)
     \<and> b' = b\<lparr>tmFifo := tmFifo b', tmStored := tmStored b'\<rparr>"
proof (cases "FIFO_full (tmFifo b)")
  case False
  have inv: "fifo_inv (tmFifo b)" using ok(1) by (simp add: bridge_ok_def)
  have room: "length (fifo_abs (tmFifo b)) < n" using False inv by (simp add: FIFO_full_def n_def fifo_inv_def)
  obtain f where f: "FIFO_insert (tmFifo b) (getStorageId sys m) = (RETURN_OK, f)" "fifo_inv f" "fifo_abs f = xs" "maxCapacity f = n"
    using FIFO_insert_ok[OF inv, of "getStorageId sys m"] room by (auto simp: n_def xs_def)
  have "kept v n xs = xs" "dropped v n xs = []" for v using room by (auto simp: kept_def dropped_def xs_def)
  then show ?thesis using False f ok by (simp add: storeDownlinkData_def bridge_ok_def n_def)
next
  case True
  have inv: "fifo_inv (tmFifo b)" and pos: "0 < n" using ok(1) by (simp_all add: bridge_ok_def n_def)
  have len: "length (fifo_abs (tmFifo b)) = n" using True by (simp add: FIFO_full_def n_def)
  then obtain y ys where y: "fifo_abs (tmFifo b) = y # ys" using pos by (cases "fifo_abs (tmFifo b)") auto
  show ?thesis
  proof (cases "overwriteOld b")
    case False
    then have "kept (overwriteOld b) n xs = fifo_abs (tmFifo b)" "dropped (overwriteOld b) n xs = []"
      using len by (simp_all add: kept_def dropped_def xs_def)
    then show ?thesis using True False ok by (simp add: storeDownlinkData_def n_def)
  next
    case over: True
    obtain f1 where f1: "FIFO_retrieve (tmFifo b) True = (RETURN_OK, Some y, f1)" "fifo_inv f1" "fifo_abs f1 = ys" "maxCapacity f1 = n"
      using FIFO_retrieve_ok[OF inv y] by (auto simp: n_def)
    have "length (fifo_abs f1) < maxCapacity f1" using f1 y len by simp
    then obtain f where f: "FIFO_insert f1 (getStorageId sys m) = (RETURN_OK, f)" "fifo_inv f"
        "fifo_abs f = ys @ [getStorageId sys m]" "maxCapacity f = n"
      using FIFO_insert_ok[OF f1(2), of "getStorageId sys m"] f1 by auto
    obtain st lp' where d: "deleteData lp y = Some (st, lp')" "pool_ok lp'" "pool_abs lp' = (pool_abs lp)(y := None)"
      using pool_ok_deletes[OF ok(2)] by blast
    have "kept True n xs = ys @ [getStorageId sys m]" "dropped True n xs = [y]"
      using len y by (simp_all add: kept_def dropped_def xs_def)
    then show ?thesis using True over f1 f d pos
      by (auto simp: storeDownlinkData_def bridge_ok_def fun_eq_iff)
  qed
qed

lemma kept_append: "kept v n (kept v n xs @ ys) = kept v n (xs @ ys)"
  by (cases "length xs \<le> n") (auto simp: kept_def min_def add.commute)

lemma kept_dropped: "set (dropped v n (xs @ [y])) \<union> set (dropped v n (kept v n (xs @ [y]) @ ys)) = set (dropped v n (xs @ y # ys))"
proof -
  have "dropped v n (zs @ ys) = dropped v n zs @ dropped v n (kept v n zs @ ys)" for zs
    by (cases "length zs \<le> n")
       (auto simp: kept_def dropped_def min_def take_drop[symmetric] not_le le_diff_conv2 simp flip: take_add)
  from this[of "xs @ [y]"] show ?thesis by simp
qed

lemma handleTmQueue_down:
  assumes "bridge_ok b" "pool_ok lp" "\<not> communicationLinkUp b" "queues_ok qm" "message_ok m" "queueMap qm qid \<noteq> None"
    and "map (getStorageId sys) (queue_content qm qid) = as"
    and "n = maxCapacity (tmFifo b)" "xs = fifo_abs (tmFifo b) @ as"
  shows "\<exists>b' lp' qm'. handleTmQueue_loop sys sendTm qid b lp qm m status = Some (status, b', lp', qm')
     \<and> bridge_ok b' \<and> pool_ok lp' \<and> queue_content qm' qid = [] \<and> \<not> communicationLinkUp b'
     \<and> fifo_abs (tmFifo b') = kept (overwriteOld b) n xs \<and> maxCapacity (tmFifo b') = n \<and> link b' = link b
     \<and> pool_abs lp' = (\<lambda>a. if a \<in> set (dropped (overwriteOld b) n xs) then None else pool_abs lp a)"
  using assms
proof (induction as arbitrary: b lp qm m n xs)
  case Nil
  have c: "queue_content qm qid = []" using Nil.prems(7) by simp
  have r: "queue_receive sys qm qid m = Some (MQ_EMPTY, qm, m)" using receive_spec(1)[OF Nil.prems(4-6) c] .
  have len: "length (fifo_abs (tmFifo b)) \<le> n" using Nil.prems(1) by (simp add: bridge_ok_def fifo_inv_def Nil.prems(8))
  have "handleTmQueue_loop sys sendTm qid b lp qm m status = Some (status, b, lp, qm)"
    by (subst handleTmQueue_loop.simps) (simp add: r)
  moreover have "kept v n xs = fifo_abs (tmFifo b)" "dropped v n xs = []" for v
    using len by (auto simp: kept_def dropped_def Nil.prems(9))
  ultimately show ?case using Nil.prems c by simp
next
  case (Cons a as)
  obtain m0 ms0 where c: "queue_content qm qid = m0 # ms0" "getStorageId sys m0 = a" "map (getStorageId sys) ms0 = as"
    using Cons.prems(7) by auto
  obtain qm1 m1 where r: "queue_receive sys qm qid m = Some (RETURN_OK, qm1, m1)" "queues_ok qm1" "message_ok m1"
      "getStorageId sys m1 = a" "queue_content qm1 = (queue_content qm)(qid := ms0)"
      "\<forall>q. queueMap qm1 q = None \<longleftrightarrow> queueMap qm q = None"
    using receive_spec(2)[OF Cons.prems(4-6) c(1), of sys] c(2) by blast
  let ?ys = "fifo_abs (tmFifo b) @ [a]" and ?o = "overwriteOld b"
  obtain st b1 lp1 where d: "storeDownlinkData sys b lp m1 = Some (st, b1, lp1)" "bridge_ok b1" "pool_ok lp1"
      "fifo_abs (tmFifo b1) = kept ?o n ?ys" "maxCapacity (tmFifo b1) = n"
      "pool_abs lp1 = (\<lambda>x. if x \<in> set (dropped ?o n ?ys) then None else pool_abs lp x)"
      "b1 = b\<lparr>tmFifo := tmFifo b1, tmStored := tmStored b1\<rparr>"
    using storeDownlinkData_spec[OF Cons.prems(1,2), of sys m1] r(4) Cons.prems(8) by auto
  have same: "overwriteOld b1 = ?o" "communicationLinkUp b1 = communicationLinkUp b" "link b1 = link b" by (subst d(7), simp)+
  have msg: "bridge_message sys sendTm b lp m1 status = Some (status, b1, lp1)"
    using Cons.prems(3) d(1) by (simp add: bridge_message_def)
  have c1: "map (getStorageId sys) (queue_content qm1 qid) = as" using r(5) c(3) by simp
  have ne: "queueMap qm1 qid \<noteq> None" using r(6) Cons.prems(6) by simp
  have down: "\<not> communicationLinkUp b1" using same Cons.prems(3) by simp
  obtain b2 lp2 qm2 where t: "handleTmQueue_loop sys sendTm qid b1 lp1 qm1 m1 status = Some (status, b2, lp2, qm2)"
     "bridge_ok b2" "pool_ok lp2" "queue_content qm2 qid = []" "\<not> communicationLinkUp b2"
     "fifo_abs (tmFifo b2) = kept ?o n (fifo_abs (tmFifo b1) @ as)" "maxCapacity (tmFifo b2) = n" "link b2 = link b"
     "pool_abs lp2 = (\<lambda>x. if x \<in> set (dropped ?o n (fifo_abs (tmFifo b1) @ as)) then None else pool_abs lp1 x)"
    using Cons.IH[OF d(2,3) down r(2,3) ne c1 refl refl, unfolded d(5) same(1,3)] by blast
  have "handleTmQueue_loop sys sendTm qid b lp qm m status = Some (status, b2, lp2, qm2)"
    by (subst handleTmQueue_loop.simps) (simp add: r(1) msg t(1))
  moreover have xs: "xs = ?ys @ as" by (simp add: Cons.prems(9))
  then have "fifo_abs (tmFifo b2) = kept ?o n xs" using t(6) d(4) kept_append[of ?o n ?ys as] by simp
  moreover have "pool_abs lp2 = (\<lambda>x. if x \<in> set (dropped ?o n xs) then None else pool_abs lp x)"
    using t(9) d(4,6) kept_dropped[of ?o n "fifo_abs (tmFifo b)" a as] by (auto simp: fun_eq_iff Cons.prems(9))
  ultimately show ?case using t by blast
qed

text \<open>Sending the stored packets: \<open>send_through\<close> hands a list of packets to the driver.\<close>

primrec send_through :: "('l \<Rightarrow> bytes \<Rightarrow> u16 \<times> 'l) \<Rightarrow> 'l \<Rightarrow> bytes list \<Rightarrow> 'l" where
  "send_through sendTm l [] = l"
| "send_through sendTm l (d # ds) = send_through sendTm (snd (sendTm l d)) ds"

lemma handleStoredTm_forwards:
  assumes "bridge_ok b" "pool_ok lp" "distinct (fifo_abs (tmFifo b))"
    and "\<forall>a \<in> set (fifo_abs (tmFifo b)). pool_abs lp a \<noteq> None"
    and "k = min (unat (sentPacketsPerCycle b) - unat (packetSentCounter b)) (length (fifo_abs (tmFifo b)))"
  shows "\<exists>st b' lp'. handleStoredTm sendTm b lp status = Some (st, b', lp') \<and> bridge_ok b' \<and> pool_ok lp'
     \<and> fifo_abs (tmFifo b') = drop k (fifo_abs (tmFifo b))
     \<and> link b' = send_through sendTm (link b) (map (\<lambda>a. the (pool_abs lp a)) (take k (fifo_abs (tmFifo b))))
     \<and> pool_abs lp' = (\<lambda>a. if a \<in> set (take k (fifo_abs (tmFifo b))) then None else pool_abs lp a)"
  using assms
proof (induction k arbitrary: b lp status)
  case 0
  have "FIFO_empty (tmFifo b) \<longleftrightarrow> length (fifo_abs (tmFifo b)) = 0" by (simp add: FIFO_empty_def)
  then have "\<not> (\<not> FIFO_empty (tmFifo b) \<and> packetSentCounter b < sentPacketsPerCycle b)"
    using "0.prems"(5) by (auto simp: word_less_nat_alt min_def split: if_splits)
  then show ?case using "0.prems" by (subst handleStoredTm.simps) auto
next
  case (Suc k)
  have inv: "fifo_inv (tmFifo b)" using Suc.prems(1) by (simp add: bridge_ok_def)
  have "length (fifo_abs (tmFifo b)) \<noteq> 0" using Suc.prems(5) by linarith
  then obtain y ys where y: "fifo_abs (tmFifo b) = y # ys" by (cases "fifo_abs (tmFifo b)") auto
  have ne: "\<not> FIFO_empty (tmFifo b)" using y by (metis FIFO_empty_def length_fifo_abs length_0_conv list.distinct(1))
  have less: "unat (packetSentCounter b) < unat (sentPacketsPerCycle b)" using Suc.prems(5) by auto
  obtain f1 where f1: "FIFO_retrieve (tmFifo b) True = (RETURN_OK, Some y, f1)" "fifo_inv f1" "fifo_abs f1 = ys"
      "maxCapacity f1 = maxCapacity (tmFifo b)"
    using FIFO_retrieve_ok[OF inv y] by auto
  obtain d where d: "pool_abs lp y = Some d" using Suc.prems(4) y by auto
  have g: "getData lp y = (RETURN_OK, Some d)" using d Suc.prems(2) by (simp add: pool_ok_def getData_abs)
  obtain sent l where s: "sendTm (link b) d = (sent, l)" by (cases "sendTm (link b) d") auto
  obtain st1 lp1 where del: "deleteData lp y = Some (st1, lp1)" "pool_ok lp1" "pool_abs lp1 = (pool_abs lp)(y := None)"
    using pool_ok_deletes[OF Suc.prems(2)] by blast
  let ?b1 = "b\<lparr>tmFifo := f1, link := l, packetSentCounter := packetSentCounter b + 1,
                tmStored := (if FIFO_empty f1 then False else tmStored b)\<rparr>"
  have step: "handleStoredTm sendTm b lp status
      = handleStoredTm sendTm ?b1 lp1 (if sent \<noteq> RETURN_OK then sent else status)"
    using ne less by (subst handleStoredTm.simps) (simp add: word_less_nat_alt f1(1) g s del(1))
  have "Suc (unat (packetSentCounter b)) < 256" using less unat_u8_less[of "sentPacketsPerCycle b"] by linarith
  then have "unat (packetSentCounter b + 1) = unat (packetSentCounter b) + 1" by (simp add: unat_word_ariths)
  then have k: "k = min (unat (sentPacketsPerCycle ?b1) - unat (packetSentCounter ?b1)) (length (fifo_abs (tmFifo ?b1)))"
    using Suc.prems(5) f1(3) y by (auto simp: min_def split: if_splits)
  have ok1: "bridge_ok ?b1" using f1 Suc.prems(1) by (simp add: bridge_ok_def)
  have dist: "distinct (fifo_abs (tmFifo ?b1))" "y \<notin> set ys" using Suc.prems(3) y f1(3) by simp_all
  have held: "\<forall>a \<in> set (fifo_abs (tmFifo ?b1)). pool_abs lp1 a \<noteq> None"
    using Suc.prems(4) y f1(3) dist(2) del(3) by auto
  obtain st b' lp' where t: "handleStoredTm sendTm ?b1 lp1 (if sent \<noteq> RETURN_OK then sent else status) = Some (st, b', lp')"
     "bridge_ok b'" "pool_ok lp'" "fifo_abs (tmFifo b') = drop k ys"
     "link b' = send_through sendTm l (map (\<lambda>a. the (pool_abs lp1 a)) (take k ys))"
     "pool_abs lp' = (\<lambda>a. if a \<in> set (take k ys) then None else pool_abs lp1 a)"
  proof -
    have e: "fifo_abs (tmFifo ?b1) = ys" "link ?b1 = l" using f1(3) by simp_all
    from Suc.IH[OF ok1 del(2) dist(1) held k, unfolded e] show ?thesis using that by blast
  qed
  have same: "map (\<lambda>a. the (pool_abs lp1 a)) (take k ys) = map (\<lambda>a. the (pool_abs lp a)) (take k ys)"
    using dist(2) del(3) by (auto dest: in_set_takeD)
  have "link b' = send_through sendTm (link b) (map (\<lambda>a. the (pool_abs lp a)) (take (Suc k) (y # ys)))"
    using t(5) d s unfolding same by simp
  moreover have "pool_abs lp' = (\<lambda>a. if a \<in> set (take (Suc k) (y # ys)) then None else pool_abs lp a)"
    using t(6) del(3) by (auto simp: fun_eq_iff)
  ultimately show ?case using step t(1-4) unfolding y by simp
qed

subsection \<open>Properties\<close>

text \<open>
  C33. A round of the funnel: the packets whose addresses are in the funnel's queue leave for the downlink
  in order; they get consecutive sequence counts (modulo 16384) from the funnel's counter on and a valid
  CRC, and are not changed otherwise. No other packet of the store is touched.
\<close>

theorem funnel_numbers_packets:
  assumes "map (getStorageId sys) (queue_content (queues w) (funnelQueue f)) = as" "distinct as"
    and "pool_inv (tmStore w)" "\<forall>a \<in> set as. \<exists>p. pool_abs (tmStore w) a = Some p \<and> tm_complete p"
    and "queues_ok (queues w)" "queueMap (queues w) (funnelQueue f) \<noteq> None" "\<not> storageDestination f"
    and "queue_default (queues w) (funnelQueue f) = dl" "dl \<noteq> funnelQueue f" "queue_room (queues w) dl (length as)"
  shows "\<exists>f' w' ms. funnel_performOperation sys f w = Some (RETURN_OK, f', w') \<and> queue_content (queues w') (funnelQueue f) = []
     \<and> queue_content (queues w') dl = queue_content (queues w) dl @ ms \<and> map (getStorageId sys) ms = as
     \<and> (\<forall>a. a \<notin> set as \<longrightarrow> pool_abs (tmStore w') a = pool_abs (tmStore w) a)
     \<and> (\<forall>k < length as. \<exists>p q. pool_abs (tmStore w) (as ! k) = Some p \<and> pool_abs (tmStore w') (as ! k) = Some q
           \<and> numbered (sourceSequenceCount f + of_nat k) p q)"
proof -
  let ?m = "newMessage\<lparr>messageSize := MQ_HEADER_SIZE + 4\<rparr>"
  have m: "message_ok ?m" by (simp add: message_ok_def message_inv_def newMessage_def mq_sizes)
  obtain hq where hq: "queueMap (queues w) (funnelQueue f) = Some hq" using assms(6) by blast
  from funnel_loop_numbers[OF assms(1-5) m hq assms(7-10)] show ?thesis
    unfolding funnel_performOperation_def by fastforce
qed

text \<open>
  When a storage destination is configured and its queue is full, the funnel deletes a packet whose
  address it has already put into the downlink queue: the downlink handler is left with an address behind
  which there is nothing.
\<close>

theorem funnel_storage_full_dangling:
  assumes inv: "pool_ok (tmStore w)" and p: "pool_abs (tmStore w) a = Some p" "tm_complete p" "a = getStorageId sys m"
    and qs: "queues_ok (queues w)" "message_ok m" "storageDestination f"
    and dest: "queueMap (queues w) (funnelQueue f) = Some hq" "defaultDestination hq = dl" "has_room (queues w) dl"
    and store: "queueMap (queues w) (storageQueue f) = Some hs" "defaultDestination hs = sd" "queueMap (queues w) sd \<noteq> None"
      "\<not> has_room (queues w) sd" "distinct [funnelQueue f, storageQueue f, dl, sd]"
  shows "\<exists>f' w' m'. funnel_handlePacket sys f w m = Some (MQ_FULL, f', w', m') \<and> pool_abs (tmStore w') a = None
     \<and> queue_content (queues w') dl = queue_content (queues w) dl @ [m]"
proof -
  have pinv: "pool_inv (tmStore w)" using inv by (simp add: pool_ok_def)
  obtain ptr lp' q where i: "modifyData (tmStore w) a = (RETURN_OK, Some (ptr, length p))" "tm_closable (pool_mem (tmStore w) ptr)"
     "pool_put (tmStore w) ptr (tm_setErrorControl (setPacketSequenceCount (pool_mem (tmStore w) ptr) (sourceSequenceCount f))) = lp'"
     "pool_inv lp'" "element_sizes lp' = element_sizes (tmStore w)" "n_elements lp' = n_elements (tmStore w)"
    using funnel_in_place[OF pinv p(1,2), of "sourceSequenceCount f"] by blast
  have pok: "pool_ok lp'" using i(4-6) inv by (simp add: pool_ok_def)
  obtain st qm m1 where s: "queue_sendToDefault sys (queues w) (funnelQueue f) m = Some (st, qm, m1)"
    using dest(1) by (cases "queue_sendToDefault sys (queues w) (funnelQueue f) m") (auto simp: queue_sendToDefault_def)
  note sp = send_default_spec[OF qs(1,2) dest(1) s, unfolded dest(2)]
  have st: "st = RETURN_OK" using sp(6) dest(3) by simp
  have hs: "queueMap qm (storageQueue f) = Some hs" using sp(7)[of "storageQueue f"] store by auto
  obtain hd where hd: "queueMap (queues w) sd = Some hd" using store(3) by blast
  have sd: "queueMap qm sd = Some hd" "\<not> has_room qm sd"
    using sp(7)[of sd] store hd by (auto simp: has_room_def)
  have s2: "queue_sendToDefault sys qm (storageQueue f) m1 = Some (MQ_FULL, qm, m1)"
    using hs send_no_room[OF sd sp(2)] by (simp add: queue_sendToDefault_def sendToDefault_def store(2))
  obtain st3 lp3 where del: "deleteData lp' a = Some (st3, lp3)" "pool_abs lp3 = (pool_abs lp')(a := None)"
    using pool_ok_deletes[OF pok] by blast
  have "funnel_handlePacket sys f w m = Some (MQ_FULL, f\<lparr>sourceSequenceCount := (sourceSequenceCount f + 1) mod LIMIT_SEQUENCE_COUNT\<rparr>,
      (set_queues qm (set_queues qm (w\<lparr>tmStore := lp'\<rparr>)))\<lparr>tmStore := lp3\<rparr>, m1)"
    using i(1-3) s st s2 qs(3) del(1) sp(3) p(3) by (simp add: funnel_handlePacket_def Let_def)
  then show ?thesis using del(2) sp(4)[of dl] st by (simp add: set_queues_def)
qed

text \<open>
  C34. While the link to ground is down, a bridge keeps the addresses of the telemetry it receives, behind
  those it already has: the newest ones that fit when it overwrites old data, and the packets behind the
  dropped addresses are deleted from the store; otherwise the oldest ones, and the packets of the others
  stay in the store for good.
\<close>

theorem bridge_keeps_telemetry:
  assumes "bridge_ok b" "pool_ok lp" "\<not> communicationLinkUp b" "queues_ok qm" "queueMap qm (tmTcReceptionQueue b) \<noteq> None"
    and xs: "xs = fifo_abs (tmFifo b) @ map (getStorageId sys) (queue_content qm (tmTcReceptionQueue b))"
  shows "\<exists>b' lp' qm'. bridge_performOperation sys sendTm b lp qm = Some (RETURN_OK, b', lp', qm')
     \<and> queue_content qm' (tmTcReceptionQueue b) = [] \<and> link b' = link b
     \<and> fifo_abs (tmFifo b') = kept (overwriteOld b) (maxCapacity (tmFifo b)) xs
     \<and> pool_abs lp' = (\<lambda>a. if a \<in> set (dropped (overwriteOld b) (maxCapacity (tmFifo b)) xs) then None else pool_abs lp a)"
proof -
  let ?m = "newMessage\<lparr>messageSize := MQ_HEADER_SIZE + 4\<rparr>"
  have m: "message_ok ?m" by (simp add: message_ok_def message_inv_def newMessage_def mq_sizes)
  obtain b' lp' qm' where h: "handleTmQueue_loop sys sendTm (tmTcReceptionQueue b) b lp qm ?m RETURN_OK = Some (RETURN_OK, b', lp', qm')"
     "\<not> communicationLinkUp b'" "queue_content qm' (tmTcReceptionQueue b) = []" "link b' = link b"
     "fifo_abs (tmFifo b') = kept (overwriteOld b) (maxCapacity (tmFifo b)) xs"
     "pool_abs lp' = (\<lambda>a. if a \<in> set (dropped (overwriteOld b) (maxCapacity (tmFifo b)) xs) then None else pool_abs lp a)"
    using handleTmQueue_down[OF assms(1-4) m assms(5) refl refl refl] unfolding xs by blast
  then show ?thesis
    by (intro exI[of _ "b'\<lparr>packetSentCounter := 0\<rparr>"] exI[of _ lp'] exI[of _ qm'])
       (simp add: bridge_performOperation_def handleTm_def handleTmQueue_def)
qed

text \<open>
  With the link up and nothing new to send, a bridge forwards its stored telemetry oldest first, at
  most \<open>sentPacketsPerCycle\<close> packets in a cycle, and deletes every packet that it handed to the driver,
  whether or not the driver could send it.
\<close>

theorem bridge_forwards_stored:
  assumes "bridge_ok b" "pool_ok lp" "communicationLinkUp b" "tmStored b" "packetSentCounter b = 0" "0 < sentPacketsPerCycle b"
    and "queues_ok qm" "queueMap qm (tmTcReceptionQueue b) \<noteq> None" "queue_content qm (tmTcReceptionQueue b) = []"
    and "distinct (fifo_abs (tmFifo b))" "\<forall>a \<in> set (fifo_abs (tmFifo b)). pool_abs lp a \<noteq> None"
    and k: "k = min (unat (sentPacketsPerCycle b)) (length (fifo_abs (tmFifo b)))"
  shows "\<exists>st b' lp'. bridge_performOperation sys sendTm b lp qm = Some (st, b', lp', qm)
     \<and> fifo_abs (tmFifo b') = drop k (fifo_abs (tmFifo b)) \<and> packetSentCounter b' = 0
     \<and> link b' = send_through sendTm (link b) (map (\<lambda>a. the (pool_abs lp a)) (take k (fifo_abs (tmFifo b))))
     \<and> pool_abs lp' = (\<lambda>a. if a \<in> set (take k (fifo_abs (tmFifo b))) then None else pool_abs lp a)"
proof -
  let ?m = "newMessage\<lparr>messageSize := MQ_HEADER_SIZE + 4\<rparr>"
  have m: "message_ok ?m" by (simp add: message_ok_def message_inv_def newMessage_def mq_sizes)
  have "queue_receive sys qm (tmTcReceptionQueue b) ?m = Some (MQ_EMPTY, qm, ?m)"
    using receive_spec(1)[OF assms(7) m assms(8,9)] .
  then have q: "handleTmQueue sys sendTm b lp qm = Some (RETURN_OK, b, lp, qm)"
    by (simp add: handleTmQueue_def handleTmQueue_loop.simps[of sys sendTm "tmTcReceptionQueue b" b])
  have k': "k = min (unat (sentPacketsPerCycle b) - unat (packetSentCounter b)) (length (fifo_abs (tmFifo b)))"
    using k assms(5) by simp
  obtain st b' lp' where f: "handleStoredTm sendTm b lp RETURN_OK = Some (st, b', lp')"
     "fifo_abs (tmFifo b') = drop k (fifo_abs (tmFifo b))"
     "link b' = send_through sendTm (link b) (map (\<lambda>a. the (pool_abs lp a)) (take k (fifo_abs (tmFifo b))))"
     "pool_abs lp' = (\<lambda>a. if a \<in> set (take k (fifo_abs (tmFifo b))) then None else pool_abs lp a)"
    using handleStoredTm_forwards[OF assms(1,2,10,11) k', of sendTm RETURN_OK] by blast
  show ?thesis using q f assms(3-6)
    by (intro exI[of _ st] exI[of _ "b'\<lparr>packetSentCounter := 0\<rparr>"] exI[of _ lp'])
       (simp add: bridge_performOperation_def handleTm_def)
qed

subsection \<open>Witnesses\<close>

text \<open>
  A telemetry packet in the first of two elements, the queues of a funnel (1), of the downlink (2), of the
  storage (3) and one without any place (4), and a bridge with a FIFO for two addresses.
\<close>

definition sample_tm :: bytes where "sample_tm = [8, 115, 192, 0, 0, 10, 16, 17, 2, 0, 0, 0, 0, 0, 0, 0, 0]"
definition tm_address :: store_address where "tm_address = \<lparr>pool_index = 0, packet_index = 0\<rparr>"
definition tm_message :: mq_message where "tm_message = newTmTcMessage LITTLE_ENDIAN tm_address"

definition sample_tm_store :: local_pool where
  "sample_tm_store = \<lparr>element_sizes = [20], n_elements = [2], pool_store = [sample_tm @ replicate 23 0],
     size_list = [[17, STORAGE_FREE]], spillsToHigherPools = False, reporter = False, storeFullReports = 0\<rparr>"

definition tm_queue :: "nat \<Rightarrow> u32 \<Rightarrow> mq_message list \<Rightarrow> host_queue" where
  "tm_queue depth dest ms = (newHostQueue 0 depth 28)\<lparr>messageQueue := ms, defaultDestination := dest\<rparr>"

definition tm_queues :: "mq_message list \<Rightarrow> queue_map" where
  "tm_queues ms = \<lparr>queueMap = [1 \<mapsto> tm_queue 3 2 ms, 2 \<mapsto> tm_queue 3 0 [], 3 \<mapsto> tm_queue 3 4 [], 4 \<mapsto> tm_queue 0 0 []], queueCounter = 5\<rparr>"

definition tm_world :: "mq_message list \<Rightarrow> tmtc_world" where
  "tm_world ms = \<lparr>tcSide = \<lparr>tcStore = newLocalPool [] [] False, tcQueues = tm_queues ms\<rparr>, tmStore = sample_tm_store, lostTm = 0, triggered = []\<rparr>"

definition sample_funnel :: tm_funnel where
  "sample_funnel = \<lparr>funnelQueue = 1, storageQueue = 3, storageDestination = False, sourceSequenceCount = 16383\<rparr>"

definition sample_bridge :: "bytes list tmtc_bridge" where
  "sample_bridge = \<lparr>tmTcReceptionQueue = 1, communicationLinkUp = False, tmStored = False, overwriteOld = True, packetSentCounter = 0,
     tmFifo = FIFOBase_new [tm_address, tm_address] 2, sentPacketsPerCycle = 5, maxNumberOfPacketsStored = 2, link = []\<rparr>"

lemma sample_tm_complete: "tm_complete sample_tm" "length sample_tm = 17"
  by (simp_all add: tm_complete_def sample_tm_def getFullSize_def getPacketDataLength_def pus_sizes)

lemma sample_tm_store_ok: "pool_ok sample_tm_store" "pool_abs sample_tm_store tm_address = Some sample_tm" "pool_inv sample_tm_store"
proof -
  show ok: "pool_ok sample_tm_store"
    using sample_tm_complete by (auto simp: pool_ok_def pool_inv_def sample_tm_store_def less_2_cases_iff)
  then show "pool_inv sample_tm_store" by (simp add: pool_ok_def)
  show "pool_abs sample_tm_store tm_address = Some sample_tm"
    using sample_tm_complete by (simp add: pool_abs_def valid_address_def slot_size_def tm_address_def sample_tm_store_def
        getRawPosition_def mem_read_def STORAGE_FREE_def)
qed

lemma tm_message_ok: "message_ok tm_message" "getStorageId LITTLE_ENDIAN tm_message = tm_address"
proof -
  show "message_ok tm_message"
    by (simp add: message_ok_def tm_message_def newTmTcMessage_def message_inv_def newMessage_def setStorageId_def mq_sizes)
  show "getStorageId LITTLE_ENDIAN tm_message = tm_address" unfolding tm_message_def newTmTcMessage_def
    by (rule storage_id_round_trip) (simp_all add: message_inv_def newMessage_def tm_address_def)
qed

lemma tm_queue_simps: "messageQueue (tm_queue n d ms) = ms" "defaultDestination (tm_queue n d ms) = d" "messageDepth (tm_queue n d ms) = n"
  "host_queue_inv (tm_queue n d ms) \<longleftrightarrow> length ms \<le> n \<and> (\<forall>m \<in> set ms. message_inv m)"
  by (auto simp: tm_queue_def newHostQueue_def host_queue_inv_def mq_sizes)

lemma tm_world_simps: "queues (tm_world ms) = tm_queues ms" "tmStore (tm_world ms) = sample_tm_store"
  "queue_content (tm_queues ms) 1 = ms" "queue_content (tm_queues ms) 2 = []"
  "length ms \<le> 3 \<Longrightarrow> \<forall>m \<in> set ms. message_ok m \<Longrightarrow> queues_ok (tm_queues ms)"
  by (auto simp: tm_world_def tm_queues_def queue_content_def queues_ok_def tm_queue_simps message_ok_def)

lemma funnel_numbers_packets_witness:
  "\<exists>f' w' ms q. funnel_performOperation LITTLE_ENDIAN sample_funnel (tm_world [tm_message]) = Some (RETURN_OK, f', w')
     \<and> queue_content (queues w') 2 = ms \<and> map (getStorageId LITTLE_ENDIAN) ms = [tm_address]
     \<and> pool_abs (tmStore w') tm_address = Some q \<and> numbered 16383 sample_tm q"
proof -
  let ?w = "tm_world [tm_message]" and ?f = sample_funnel
  have f: "funnelQueue ?f = 1" "\<not> storageDestination ?f" "sourceSequenceCount ?f = 16383" by (simp_all add: sample_funnel_def)
  have q: "queue_default (queues ?w) (funnelQueue ?f) = 2" "2 \<noteq> funnelQueue ?f" "queue_room (queues ?w) 2 (length [tm_address])"
    "queueMap (queues ?w) (funnelQueue ?f) \<noteq> None"
    by (simp_all add: f queue_default_def queue_room_def tm_world_simps) (simp_all add: tm_queues_def tm_queue_simps)
  have a: "map (getStorageId LITTLE_ENDIAN) (queue_content (queues ?w) (funnelQueue ?f)) = [tm_address]" "distinct [tm_address]"
    by (simp_all add: f tm_world_simps tm_message_ok)
  have st: "pool_inv (tmStore ?w)" "\<forall>a \<in> set [tm_address]. \<exists>p. pool_abs (tmStore ?w) a = Some p \<and> tm_complete p"
    "queues_ok (queues ?w)"
    using sample_tm_store_ok sample_tm_complete tm_message_ok by (simp_all add: tm_world_simps)
  have p: "pool_abs (tmStore ?w) tm_address = Some sample_tm" using sample_tm_store_ok by (simp add: tm_world_simps)
  from funnel_numbers_packets[OF a st q(4) f(2) q(1-3)] p show ?thesis
    by (auto simp: tm_world_simps f)
qed

lemma funnel_storage_full_dangling_witness:
  "\<exists>f' w' m'. funnel_handlePacket LITTLE_ENDIAN (sample_funnel\<lparr>storageDestination := True\<rparr>) (tm_world []) tm_message = Some (MQ_FULL, f', w', m')
     \<and> pool_abs (tmStore w') tm_address = None \<and> queue_content (queues w') 2 = [tm_message]"
proof -
  let ?w = "tm_world []" and ?f = "sample_funnel\<lparr>storageDestination := True\<rparr>"
  have f: "storageDestination ?f" by simp
  have d: "queueMap (queues ?w) (funnelQueue ?f) = Some (tm_queue 3 2 [])" "defaultDestination (tm_queue 3 2 []) = 2" "has_room (queues ?w) 2"
    by (simp_all add: sample_funnel_def has_room_def tm_world_simps tm_queue_simps) (simp_all add: tm_queues_def tm_queue_simps)
  have s: "queueMap (queues ?w) (storageQueue ?f) = Some (tm_queue 3 4 [])" "defaultDestination (tm_queue 3 4 []) = 4"
    "queueMap (queues ?w) 4 \<noteq> None" "\<not> has_room (queues ?w) 4" "distinct [funnelQueue ?f, storageQueue ?f, 2, 4]"
    by (simp_all add: sample_funnel_def has_room_def tm_world_simps tm_queue_simps) (simp_all add: tm_queues_def tm_queue_simps)
  have st: "pool_ok (tmStore ?w)" "pool_abs (tmStore ?w) tm_address = Some sample_tm" "tm_address = getStorageId LITTLE_ENDIAN tm_message"
    "queues_ok (queues ?w)"
    using sample_tm_store_ok by (simp_all add: tm_world_simps tm_message_ok)
  from funnel_storage_full_dangling[OF st(1,2) sample_tm_complete(1) st(3,4) tm_message_ok(1) f d s] show ?thesis
    by (auto simp: tm_world_simps)
qed

lemma sample_bridge_ok: "bridge_ok sample_bridge" "fifo_abs (tmFifo sample_bridge) = []" "maxCapacity (tmFifo sample_bridge) = 2"
  "tmTcReceptionQueue sample_bridge = 1" "overwriteOld sample_bridge" "\<not> communicationLinkUp sample_bridge"
  by (simp_all add: sample_bridge_def bridge_ok_def fifo_inv_new)

lemma bridge_keeps_telemetry_witness:
  "\<exists>b' lp' qm'. bridge_performOperation LITTLE_ENDIAN (\<lambda>l d. (RETURN_OK, l @ [d])) sample_bridge sample_tm_store (tm_queues [tm_message, tm_message, tm_message])
       = Some (RETURN_OK, b', lp', qm') \<and> link b' = link sample_bridge
     \<and> fifo_abs (tmFifo b') = [tm_address, tm_address] \<and> pool_abs lp' tm_address = None"
proof -
  let ?ms = "[tm_message, tm_message, tm_message]"
  have q: "queues_ok (tm_queues ?ms)" "queueMap (tm_queues ?ms) (tmTcReceptionQueue sample_bridge) \<noteq> None"
    using tm_message_ok by (simp_all add: tm_world_simps sample_bridge_ok) (simp add: tm_queues_def)
  from bridge_keeps_telemetry[OF sample_bridge_ok(1) sample_tm_store_ok(1) sample_bridge_ok(6) q refl, of LITTLE_ENDIAN "\<lambda>l d. (RETURN_OK, l @ [d])"]
  show ?thesis by (auto simp: sample_bridge_ok tm_world_simps tm_message_ok kept_def dropped_def)
qed

definition loaded_bridge :: "bytes list tmtc_bridge" where
  "loaded_bridge = sample_bridge\<lparr>communicationLinkUp := True, tmStored := True,
     tmFifo := snd (FIFO_insert (FIFOBase_new [tm_address, tm_address] 2) tm_address)\<rparr>"

lemma loaded_bridge_ok: "bridge_ok loaded_bridge" "fifo_abs (tmFifo loaded_bridge) = [tm_address]"
proof -
  let ?f = "FIFOBase_new [tm_address, tm_address] 2"
  have inv: "fifo_inv ?f" by (rule fifo_inv_new) simp
  obtain f where f: "FIFO_insert ?f tm_address = (RETURN_OK, f)" "fifo_inv f" "fifo_abs f = [tm_address]" "maxCapacity f = 2"
    using FIFO_insert_ok[OF inv, of tm_address] by auto
  then show "bridge_ok loaded_bridge" "fifo_abs (tmFifo loaded_bridge) = [tm_address]"
    by (simp_all add: loaded_bridge_def bridge_ok_def)
qed

lemma bridge_forwards_stored_witness:
  "\<exists>st b' lp'. bridge_performOperation LITTLE_ENDIAN (\<lambda>l d. (RETURN_OK, l @ [d])) loaded_bridge sample_tm_store (tm_queues [])
       = Some (st, b', lp', tm_queues []) \<and> fifo_abs (tmFifo b') = [] \<and> link b' = [sample_tm] \<and> pool_abs lp' tm_address = None"
proof -
  have b: "communicationLinkUp loaded_bridge" "tmStored loaded_bridge" "packetSentCounter loaded_bridge = 0"
    "0 < sentPacketsPerCycle loaded_bridge" "tmTcReceptionQueue loaded_bridge = 1" "sentPacketsPerCycle loaded_bridge = 5"
    "link loaded_bridge = []"
    by (simp_all add: loaded_bridge_def sample_bridge_def)
  have q: "queues_ok (tm_queues [])" "queueMap (tm_queues []) (tmTcReceptionQueue loaded_bridge) \<noteq> None"
    "queue_content (tm_queues []) (tmTcReceptionQueue loaded_bridge) = []"
    by (simp_all add: tm_world_simps b) (simp add: tm_queues_def)
  have a: "distinct (fifo_abs (tmFifo loaded_bridge))" "\<forall>a \<in> set (fifo_abs (tmFifo loaded_bridge)). pool_abs sample_tm_store a \<noteq> None"
    by (simp_all only: loaded_bridge_ok) (simp_all add: sample_tm_store_ok)
  have k: "1 = min (unat (sentPacketsPerCycle loaded_bridge)) (length (fifo_abs (tmFifo loaded_bridge)))"
    unfolding loaded_bridge_ok b by simp
  from bridge_forwards_stored[OF loaded_bridge_ok(1) sample_tm_store_ok(1) b(1-4) q a k, of LITTLE_ENDIAN "\<lambda>l d. (RETURN_OK, l @ [d])"]
  show ?thesis unfolding loaded_bridge_ok b by (auto simp: sample_tm_store_ok)
qed

end
