(* ===== verification/PusServices.thy ===== *)
theory PusServices
  imports TcDistribution Telemetry
begin

text \<open>
  Services: the request queue of \<open>fsfw/tmtcservices/PusServiceBase.cpp\<close> (every request is handled, reported
  and deleted), the test service \<open>fsfw/pus/Service17Test.cpp\<close> on top of it, and the verification service
  \<open>fsfw/pus/Service1TelecommandVerification.cpp\<close>, which turns verification messages into telemetry. The
  virtual \<open>handleRequest\<close> of a service is a parameter of the base; the locale \<open>request_handler\<close> states what the
  base relies on, and its interpretation is the test service.
\<close>

subsection \<open>PusServiceBase\<close>

text \<open>\<open>psQueue\<close> is the id of \<open>requestQueue\<close>, \<open>psVerify\<close> the \<open>acknowledgeQueue\<close> of \<open>verifyReporter\<close>.\<close>

record pus_service =
  psApid :: u16
  psServiceId :: u8
  psQueue :: u32
  psVerify :: u32
  psPacket :: stored_packet
  errorParameter1 :: u32
  errorParameter2 :: u32

definition PUS_SERVICE_MAX_RECEPTION :: nat where "PUS_SERVICE_MAX_RECEPTION = 10"

definition newPusServiceBase :: "queue_map \<Rightarrow> u16 \<Rightarrow> u8 \<Rightarrow> (pus_service \<times> queue_map) option" where
  "newPusServiceBase qm setApid setServiceId =
     (case addMessageQueue qm (newHostQueue 0 PUS_SERVICE_MAX_RECEPTION MAX_MESSAGE_SIZE) of
        (st, Some qid, qm') \<Rightarrow>
          Some (\<lparr>psApid = setApid, psServiceId = setServiceId, psQueue = qid, psVerify = NO_QUEUE,
                 psPacket = \<lparr>storeAddress = INVALID_ADDRESS, packet_ptr = None\<rparr>, errorParameter1 = 0, errorParameter2 = 0\<rparr>, qm')
      | (st, None, qm') \<Rightarrow> None)"

text \<open>Completion is reported with the packet's header, then the packet is deleted and the error parameters are reset.\<close>

definition ps_finish ::
  "byte_order \<Rightarrow> u32 option \<Rightarrow> u16 \<Rightarrow> 'a pus_service_scheme \<Rightarrow> tmtc_world \<Rightarrow> ('a pus_service_scheme \<times> tmtc_world) option" where
  "ps_finish sys receiver result s w =
     Option.bind (packet_ptr (psPacket s)) (\<lambda>ptr.
       let p = pool_mem (tcStore (tcSide w)) ptr in
       if length p < 7 then None
       else
         (case (if result = RETURN_OK then sendSuccessReport_packet sys receiver (psVerify s) (queues w) COMPLETION_SUCCESS p 0
                else sendFailureReport_packet sys receiver (psVerify s) (queues w) COMPLETION_FAILURE p result 0
                       (errorParameter1 s) (errorParameter2 s)) of
            (vq, qm) \<Rightarrow>
              map_option (\<lambda>(_, lp, sp). (s\<lparr>psVerify := vq, psPacket := sp, errorParameter1 := 0, errorParameter2 := 0\<rparr>,
                                         w\<lparr>tcSide := \<lparr>tcStore = lp, tcQueues = qm\<rparr>\<rparr>))
                (deletePacket (tcStore (tcSide w)) (psPacket s))))"

text \<open>One request: the packet of the message is handled by \<open>handleRequest\<close>, with its subservice.\<close>

definition ps_request ::
  "byte_order \<Rightarrow> u32 option \<Rightarrow> (u8 \<Rightarrow> 'a pus_service_scheme \<Rightarrow> tmtc_world \<Rightarrow> (u16 \<times> 'a pus_service_scheme \<times> tmtc_world) option)
    \<Rightarrow> mq_message \<Rightarrow> 'a pus_service_scheme \<Rightarrow> tmtc_world \<Rightarrow> ('a pus_service_scheme \<times> tmtc_world) option" where
  "ps_request sys receiver handleRequest m s w =
     (let sp = setStoreAddress (tcStore (tcSide w)) (getStorageId sys m); s1 = s\<lparr>psPacket := sp\<rparr> in
      Option.bind (packet_ptr sp) (\<lambda>ptr.
        let p = pool_mem (tcStore (tcSide w)) ptr in
        if length p < 9 then None
        else Option.bind (handleRequest (tc_getSubService p) s1 w) (\<lambda>(result, s2, w2). ps_finish sys receiver result s2 w2)))"

text \<open>\<open>handleRequestQueue\<close>: at most \<open>PUS_SERVICE_MAX_RECEPTION\<close> receptions; only an empty queue ends it earlier.\<close>

fun handleRequestQueue_loop ::
  "byte_order \<Rightarrow> u32 option \<Rightarrow> (u8 \<Rightarrow> 'a pus_service_scheme \<Rightarrow> tmtc_world \<Rightarrow> (u16 \<times> 'a pus_service_scheme \<times> tmtc_world) option)
    \<Rightarrow> nat \<Rightarrow> mq_message \<Rightarrow> 'a pus_service_scheme \<Rightarrow> tmtc_world \<Rightarrow> ('a pus_service_scheme \<times> tmtc_world) option" where
  "handleRequestQueue_loop sys receiver handleRequest 0 message s w = Some (s, w)"
| "handleRequestQueue_loop sys receiver handleRequest (Suc n) message s w =
     (case queue_receive sys (queues w) (psQueue s) message of
        None \<Rightarrow> None
      | Some (status, qm, m) \<Rightarrow>
          let w1 = set_queues qm w in
          if status = RETURN_OK then
            (case ps_request sys receiver handleRequest m s w1 of
               None \<Rightarrow> None
             | Some (s2, w2) \<Rightarrow> handleRequestQueue_loop sys receiver handleRequest n m s2 w2)
          else if status = MQ_EMPTY then Some (s, w1)
          else handleRequestQueue_loop sys receiver handleRequest n m s w1)"

definition handleRequestQueue ::
  "byte_order \<Rightarrow> u32 option \<Rightarrow> (u8 \<Rightarrow> 'a pus_service_scheme \<Rightarrow> tmtc_world \<Rightarrow> (u16 \<times> 'a pus_service_scheme \<times> tmtc_world) option)
    \<Rightarrow> 'a pus_service_scheme \<Rightarrow> tmtc_world \<Rightarrow> ('a pus_service_scheme \<times> tmtc_world) option" where
  "handleRequestQueue sys receiver handleRequest s w =
     handleRequestQueue_loop sys receiver handleRequest PUS_SERVICE_MAX_RECEPTION (newMessage\<lparr>messageSize := MQ_HEADER_SIZE + 4\<rparr>) s w"

definition ps_performOperation ::
  "byte_order \<Rightarrow> u32 option \<Rightarrow> (u8 \<Rightarrow> 'a pus_service_scheme \<Rightarrow> tmtc_world \<Rightarrow> (u16 \<times> 'a pus_service_scheme \<times> tmtc_world) option)
    \<Rightarrow> ('a pus_service_scheme \<Rightarrow> tmtc_world \<Rightarrow> (u16 \<times> 'a pus_service_scheme \<times> tmtc_world) option)
    \<Rightarrow> 'a pus_service_scheme \<Rightarrow> tmtc_world \<Rightarrow> (u16 \<times> 'a pus_service_scheme \<times> tmtc_world) option" where
  "ps_performOperation sys receiver handleRequest performService s w =
     Option.bind (handleRequestQueue sys receiver handleRequest s w) (\<lambda>(s1, w1).
       map_option (\<lambda>(result, s2, w2). (if result \<noteq> RETURN_OK then RETURN_FAILED else RETURN_OK, s2, w2)) (performService s1 w1))"

text \<open>\<open>destService\<close> and \<open>distributor\<close> come from the object manager; the answer of \<open>registerService\<close> is ignored.\<close>

definition ps_initialize ::
  "'a pus_service_scheme \<Rightarrow> u32 option \<Rightarrow> 'b pus_distributor_scheme option \<Rightarrow> queue_map
     \<Rightarrow> u16 \<times> 'b pus_distributor_scheme option \<times> queue_map" where
  "ps_initialize s destService distributor qm =
     (case (destService, distributor) of
        (Some q, Some d) \<Rightarrow> (RETURN_OK, Some (snd (registerService d (ucast (psServiceId s)) (psQueue s))), queue_setDefault qm (psQueue s) q)
      | _ \<Rightarrow> (RETURN_FAILED, distributor, qm))"

subsection \<open>Service17Test\<close>

record service17 = pus_service +
  packetSubCounter :: u16
  objectId17 :: u32

definition CONNECTION_TEST :: u8 where "CONNECTION_TEST = 1"
definition CONNECTION_TEST_REPORT :: u8 where "CONNECTION_TEST_REPORT = 2"
definition EVENT_TRIGGER_TEST :: u8 where "EVENT_TRIGGER_TEST = 128"
definition INVALID_SUBSERVICE :: u16 where [retcode]: "INVALID_SUBSERVICE = MAKE_RETURN_CODE ACCEPTS_TELECOMMANDS_IF 2"

text \<open>The event \<open>TEST\<close> of the test service.\<close>

definition TEST_EVENT :: u32 where "TEST_EVENT = MAKE_EVENT 97 0 SEVERITY_INFO"

text \<open>The connection report: a packet without source data for the default destination of the request queue.\<close>

definition connection_report ::
  "byte_order \<Rightarrow> (bytes \<Rightarrow> bytes) option \<Rightarrow> 'a service17_scheme \<Rightarrow> tmtc_world \<Rightarrow> ('a service17_scheme \<times> tmtc_world) option" where
  "connection_report sys timeStamper s w =
     (case newTmPacketStored timeStamper (tmStore w) (lostTm w) (psApid s) (psServiceId s) CONNECTION_TEST_REPORT [] [] of
        (sp, lp, lost) \<Rightarrow>
          map_option (\<lambda>(_, w'). (s\<lparr>packetSubCounter := packetSubCounter s + 1\<rparr>, w'))
            (tm_sendPacket sys (queue_default (queues w) (psQueue s)) (psQueue s) (w\<lparr>tmStore := lp, lostTm := lost\<rparr>) sp))"

definition handleRequest17 ::
  "byte_order \<Rightarrow> (bytes \<Rightarrow> bytes) option \<Rightarrow> u8 \<Rightarrow> 'a service17_scheme \<Rightarrow> tmtc_world \<Rightarrow> (u16 \<times> 'a service17_scheme \<times> tmtc_world) option" where
  "handleRequest17 sys timeStamper subservice s w =
     (if subservice = CONNECTION_TEST then
        map_option (\<lambda>(s', w'). (RETURN_OK, s', w')) (connection_report sys timeStamper s w)
      else if subservice = EVENT_TRIGGER_TEST then
        map_option (\<lambda>(s', w'). (RETURN_OK, s', w'\<lparr>triggered := triggered w' @ [(TEST_EVENT, 1234, 5678)]\<rparr>))
          (connection_report sys timeStamper s w)
      else Some (INVALID_SUBSERVICE, s, w))"

definition performService17 :: "'a service17_scheme \<Rightarrow> tmtc_world \<Rightarrow> (u16 \<times> 'a service17_scheme \<times> tmtc_world) option" where
  "performService17 s w = Some (RETURN_OK, s, w)"

subsection \<open>Service1TelecommandVerification\<close>

record service1 =
  s1Apid :: u16
  s1ServiceId :: u8
  s1Queue :: u32
  s1Counter :: u16

text \<open>\<open>FailureReport\<close> and \<open>SuccessReport\<close>: each field is serialized only if the one before it was.\<close>

fun ser_chain :: "(ostream \<Rightarrow> u16 \<times> ostream) list \<Rightarrow> ostream \<Rightarrow> u16 \<times> ostream" where
  "ser_chain [] st = (RETURN_OK, st)"
| "ser_chain (f # fs) st = (case f st of (result, st') \<Rightarrow> if result \<noteq> RETURN_OK then (result, st') else ser_chain fs st')"

definition FailureReport_serialize ::
  "byte_order \<Rightarrow> u8 \<Rightarrow> u16 \<Rightarrow> u16 \<Rightarrow> u8 \<Rightarrow> u16 \<Rightarrow> u32 \<Rightarrow> u32 \<Rightarrow> ostream \<Rightarrow> u64 \<Rightarrow> endianness \<Rightarrow> u16 \<times> ostream" where
  "FailureReport_serialize sys failureSubtype packetId sequenceControl stepNumber errorCode p1 p2 st maxSize e =
     ser_chain ([\<lambda>st. SA_serialize_word sys packetId st maxSize e, \<lambda>st. SA_serialize_word sys sequenceControl st maxSize e]
       @ (if failureSubtype = PROGRESS_FAILURE then [\<lambda>st. SA_serialize_word sys stepNumber st maxSize e] else [])
       @ [\<lambda>st. SA_serialize_word sys errorCode st maxSize e, \<lambda>st. SA_serialize_word sys p1 st maxSize e,
          \<lambda>st. SA_serialize_word sys p2 st maxSize e]) st"

definition FailureReport_size :: "u8 \<Rightarrow> nat" where
  "FailureReport_size failureSubtype = 2 + 2 + (if failureSubtype = PROGRESS_FAILURE then 1 else 0) + 2 + 4 + 4"

definition SuccessReport_serialize ::
  "byte_order \<Rightarrow> u8 \<Rightarrow> u16 \<Rightarrow> u16 \<Rightarrow> u8 \<Rightarrow> ostream \<Rightarrow> u64 \<Rightarrow> endianness \<Rightarrow> u16 \<times> ostream" where
  "SuccessReport_serialize sys subtype packetId sequenceControl stepNumber st maxSize e =
     ser_chain ([\<lambda>st. SA_serialize_word sys packetId st maxSize e, \<lambda>st. SA_serialize_word sys sequenceControl st maxSize e]
       @ (if subtype = PROGRESS_SUCCESS then [\<lambda>st. SA_serialize_word sys stepNumber st maxSize e] else [])) st"

definition SuccessReport_size :: "u8 \<Rightarrow> nat" where
  "SuccessReport_size subtype = 2 + 2 + (if subtype = PROGRESS_SUCCESS then 1 else 0)"

text \<open>The report's bytes in the packet, at most as many as the packet reserves.\<close>

definition report_content :: "(ostream \<Rightarrow> u64 \<Rightarrow> endianness \<Rightarrow> u16 \<times> ostream) \<Rightarrow> nat \<Rightarrow> bytes" where
  "report_content ser n = obytes (snd (ser report_start (of_nat n) BIG))"

definition s1_send ::
  "byte_order \<Rightarrow> (bytes \<Rightarrow> bytes) option \<Rightarrow> u8 \<Rightarrow> bytes \<Rightarrow> service1 \<Rightarrow> tmtc_world \<Rightarrow> (u16 \<times> service1 \<times> tmtc_world) option" where
  "s1_send sys timeStamper subservice content s w =
     Option.bind (newTmPacketStored_serialize timeStamper (tmStore w) (lostTm w) (s1Apid s) (s1ServiceId s) subservice (Some content) None)
       (\<lambda>(sp, lp, lost).
          map_option (\<lambda>(st, w'). (st, s\<lparr>s1Counter := s1Counter s + 1\<rparr>, w'))
            (tm_sendPacket sys (queue_default (queues w) (s1Queue s)) (s1Queue s) (w\<lparr>tmStore := lp, lostTm := lost\<rparr>) sp))"

definition generateFailureReport ::
  "byte_order \<Rightarrow> (bytes \<Rightarrow> bytes) option \<Rightarrow> mq_message \<Rightarrow> service1 \<Rightarrow> tmtc_world \<Rightarrow> (u16 \<times> service1 \<times> tmtc_world) option" where
  "generateFailureReport sys timeStamper m =
     s1_send sys timeStamper (getReportId m)
       (report_content (FailureReport_serialize sys (getReportId m) (getTcPacketId sys m) (getTcSequenceControl sys m) (getStep m)
           (getErrorCode sys m) (verif_getParameter1 sys m) (verif_getParameter2 sys m)) (FailureReport_size (getReportId m)))"

definition generateSuccessReport ::
  "byte_order \<Rightarrow> (bytes \<Rightarrow> bytes) option \<Rightarrow> mq_message \<Rightarrow> service1 \<Rightarrow> tmtc_world \<Rightarrow> (u16 \<times> service1 \<times> tmtc_world) option" where
  "generateSuccessReport sys timeStamper m =
     s1_send sys timeStamper (getReportId m)
       (report_content (SuccessReport_serialize sys (getReportId m) (getTcPacketId sys m) (getTcSequenceControl sys m) (getStep m))
          (SuccessReport_size (getReportId m)))"

definition sendVerificationReport ::
  "byte_order \<Rightarrow> (bytes \<Rightarrow> bytes) option \<Rightarrow> mq_message \<Rightarrow> service1 \<Rightarrow> tmtc_world \<Rightarrow> (u16 \<times> service1 \<times> tmtc_world) option" where
  "sendVerificationReport sys timeStamper m =
     (if getReportId m mod 2 = 0 then generateFailureReport sys timeStamper m else generateSuccessReport sys timeStamper m)"

partial_function (option) s1_loop ::
  "byte_order \<Rightarrow> (bytes \<Rightarrow> bytes) option \<Rightarrow> mq_message \<Rightarrow> service1 \<Rightarrow> tmtc_world \<Rightarrow> (u16 \<times> service1 \<times> tmtc_world) option" where
  "s1_loop sys timeStamper message s w =
     Option.bind (queue_receive sys (queues w) (s1Queue s) message) (\<lambda>(status, qm, m).
       if status \<noteq> RETURN_OK then Some (if status = MQ_EMPTY then RETURN_OK else status, s, set_queues qm w)
       else Option.bind (sendVerificationReport sys timeStamper m s (set_queues qm w)) (\<lambda>(result, s2, w2).
              if result \<noteq> RETURN_OK then Some (result, s2, w2) else s1_loop sys timeStamper m s2 w2))"

definition s1_performOperation ::
  "byte_order \<Rightarrow> (bytes \<Rightarrow> bytes) option \<Rightarrow> service1 \<Rightarrow> tmtc_world \<Rightarrow> (u16 \<times> service1 \<times> tmtc_world) option" where
  "s1_performOperation sys timeStamper s w = s1_loop sys timeStamper newMessage s w"

definition s1_initialize :: "u32 option \<Rightarrow> service1 \<Rightarrow> queue_map \<Rightarrow> u16 \<times> queue_map" where
  "s1_initialize funnel s qm =
     (case funnel of None \<Rightarrow> (CHILD_INIT_FAILED, qm) | Some q \<Rightarrow> (RETURN_OK, queue_setDefault qm (s1Queue s) q))"

subsection \<open>Requests are settled\<close>

definition completion_report :: "byte_order \<Rightarrow> bytes \<Rightarrow> u16 \<Rightarrow> u32 \<Rightarrow> u32 \<Rightarrow> mq_message" where
  "completion_report sys p result e1 e2 =
     (if result = RETURN_OK
      then newPusVerificationMessage sys COMPLETION_SUCCESS (getAcknowledgeFlags p) (getPacketId p) (getPacketSequenceControl p) 0 0 0 0
      else newPusVerificationMessage sys COMPLETION_FAILURE (getAcknowledgeFlags p) (getPacketId p) (getPacketSequenceControl p) result 0 e1 e2)"

lemma message_ok_completion: "message_ok (completion_report sys p result e1 e2)"
  by (simp add: completion_report_def message_ok_verification)

lemma reporter_send_frame:
  assumes "reporter_send sys receiver ack qm m = (vq, qm')"
  shows "q \<noteq> vq \<Longrightarrow> queueMap qm' q = queueMap qm q" "queue_default qm' q = queue_default qm q"
    "queue_room qm vq (Suc n) \<Longrightarrow> queue_room qm' vq n"
proof -
  obtain st m2 where s: "sendMessageFromMessageQueue sys qm vq m NO_QUEUE = (st, qm', m2)"
    using assms by (cases "sendMessageFromMessageQueue sys qm vq m NO_QUEUE")
       (auto simp: reporter_send_def sender_sendMessage_def Let_def split: prod.splits)
  show "q \<noteq> vq \<Longrightarrow> queueMap qm' q = queueMap qm q" "queue_default qm' q = queue_default qm q"
    using s by (auto simp: sendMessageFromMessageQueue_def host_push_def queue_default_def Let_def split: option.splits if_splits prod.splits)
  show "queue_room qm vq (Suc n) \<Longrightarrow> queue_room qm' vq n" using queue_room_send[OF _ s] .
qed

lemma ps_finish_spec:
  assumes pok: "pool_ok (tcStore (tcSide w))" and qs: "queues_ok (queues w)" and p: "pool_abs (tcStore (tcSide w)) a = Some p" "8 \<le> length p"
    and sp: "psPacket s = setStoreAddress (tcStore (tcSide w)) a" and vq: "vq = report_queue receiver (psVerify s)"
  shows "\<exists>w'. ps_finish sys receiver result s w = Some (s\<lparr>psVerify := vq,
        psPacket := \<lparr>storeAddress = INVALID_ADDRESS, packet_ptr = None\<rparr>, errorParameter1 := 0, errorParameter2 := 0\<rparr>, w')
     \<and> tmStore w' = tmStore w \<and> pool_ok (tcStore (tcSide w')) \<and> queues_ok (queues w')
     \<and> pool_abs (tcStore (tcSide w')) = (pool_abs (tcStore (tcSide w)))(a := None)
     \<and> (\<forall>q. q \<noteq> vq \<longrightarrow> queueMap (queues w') q = queueMap (queues w) q)
     \<and> (\<forall>q. queue_default (queues w') q = queue_default (queues w) q)
     \<and> (\<forall>n. queue_room (queues w) vq (Suc n) \<longrightarrow> queue_room (queues w') vq n
          \<and> queue_content (queues w') vq = queue_content (queues w) vq
              @ [completion_report sys p result (errorParameter1 s) (errorParameter2 s)])"
proof -
  have inv: "pool_inv (tcStore (tcSide w))" using pok by (simp add: pool_ok_def)
  obtain ptr where m: "take (length p) (pool_mem (tcStore (tcSide w)) ptr) = p" "length p \<le> length (pool_mem (tcStore (tcSide w)) ptr)"
      "setStoreAddress (tcStore (tcSide w)) a = \<lparr>storeAddress = a, packet_ptr = Some ptr\<rparr>"
    using pool_abs_modify[OF inv p(1)] by blast
  have l7: "\<not> length (pool_mem (tcStore (tcSide w)) ptr) < 7" using p(2) m(2) by linarith
  note f = memory_fields(9-11)[OF m(1) p(2)]
  obtain lp where del: "deleteData (tcStore (tcSide w)) a = Some (RETURN_OK, lp)" "pool_ok lp"
      "pool_abs lp = (pool_abs (tcStore (tcSide w)))(a := None)"
    using pool_ok_delete[OF pok] p(1) by blast
  let ?m = "completion_report sys p result (errorParameter1 s) (errorParameter2 s)"
  obtain vq' qm where s: "reporter_send sys receiver (psVerify s) (queues w) ?m = (vq', qm)"
    by (cases "reporter_send sys receiver (psVerify s) (queues w) ?m") auto
  note r = reporter_send_spec[OF qs message_ok_completion s]
  have v: "vq' = vq" using r(1) vq by simp
  note fr = reporter_send_frame[OF s, unfolded v]
  obtain sent where sent: "queue_content qm = (\<lambda>q. queue_content (queues w) q @ (if q = vq \<and> sent then [?m] else []))" "has_room (queues w) vq \<longrightarrow> sent"
    using r(4) unfolding v by blast
  let ?w = "w\<lparr>tcSide := \<lparr>tcStore = lp, tcQueues = qm\<rparr>\<rparr>"
  have e: "(if result = RETURN_OK then sendSuccessReport_packet sys receiver (psVerify s) (queues w) COMPLETION_SUCCESS (pool_mem (tcStore (tcSide w)) ptr) 0
                else sendFailureReport_packet sys receiver (psVerify s) (queues w) COMPLETION_FAILURE (pool_mem (tcStore (tcSide w)) ptr) result 0
                       (errorParameter1 s) (errorParameter2 s)) = (vq, qm)"
    using s by (cases "result = RETURN_OK") (simp_all add: sendSuccessReport_packet_def sendFailureReport_packet_def completion_report_def f v)
  have "ps_finish sys receiver result s w = Some (s\<lparr>psVerify := vq,
        psPacket := \<lparr>storeAddress = INVALID_ADDRESS, packet_ptr = None\<rparr>, errorParameter1 := 0, errorParameter2 := 0\<rparr>, ?w)"
    using l7 del(1) by (simp add: ps_finish_def sp m(3) Let_def e deletePacket_def)
  moreover have "queue_room (queues w) vq (Suc n) \<Longrightarrow> queue_room qm vq n \<and> queue_content qm vq = queue_content (queues w) vq @ [?m]" for n
    using fr(3) sent queue_room_has by simp
  ultimately show ?thesis using r(2) fr(1,2) del(2,3) by (intro exI[of _ ?w]) simp
qed

text \<open>
  What the base class relies on: a handler that is \<open>ready\<close> returns a status for the subservice, leaves the
  telecommand store, its own queue, the queue of the reports and the packet in work alone, and is ready again,
  also after the base class has reported and deleted the packet.
\<close>

locale request_handler =
  fixes handle :: "u8 \<Rightarrow> 'a pus_service_scheme \<Rightarrow> tmtc_world \<Rightarrow> (u16 \<times> 'a pus_service_scheme \<times> tmtc_world) option"
    and ready :: "'a pus_service_scheme \<Rightarrow> tmtc_world \<Rightarrow> bool" and verdict :: "u8 \<Rightarrow> u16" and qid vq :: u32
  assumes handles: "ready s w \<Longrightarrow> queues_ok (queues w) \<Longrightarrow> \<exists>s' w'. handle sub s w = Some (verdict sub, s', w') \<and> ready s' w'
      \<and> psPacket s' = psPacket s \<and> psVerify s' = psVerify s \<and> psQueue s' = psQueue s
      \<and> errorParameter1 s' = errorParameter1 s \<and> errorParameter2 s' = errorParameter2 s
      \<and> tcStore (tcSide w') = tcStore (tcSide w) \<and> queues_ok (queues w') \<and> (\<forall>q \<in> {qid, vq}. queueMap (queues w') q = queueMap (queues w) q)"
    and frame: "ready s w \<Longrightarrow> tmStore w' = tmStore w \<Longrightarrow> queue_default (queues w') qid = queue_default (queues w) qid
      \<Longrightarrow> ready (s\<lparr>psVerify := v, psPacket := sp, errorParameter1 := x, errorParameter2 := y\<rparr>) w'"
begin

definition at_work :: "u32 option \<Rightarrow> 'a pus_service_scheme \<Rightarrow> tmtc_world \<Rightarrow> bool" where
  "at_work receiver s w \<longleftrightarrow> ready s w \<and> psQueue s = qid \<and> report_queue receiver (psVerify s) = vq
     \<and> errorParameter1 s = 0 \<and> errorParameter2 s = 0 \<and> pool_ok (tcStore (tcSide w)) \<and> queues_ok (queues w)
     \<and> queueMap (queues w) qid \<noteq> None"

lemma request_settled:
  assumes ok: "at_work receiver s w" and ne: "qid \<noteq> vq" and room: "queue_room (queues w) vq (Suc n)"
    and p: "pool_abs (tcStore (tcSide w)) (getStorageId sys m) = Some p" "9 \<le> length p"
  shows "\<exists>s' w'. ps_request sys receiver handle m s w = Some (s', w') \<and> at_work receiver s' w'
     \<and> pool_abs (tcStore (tcSide w')) = (pool_abs (tcStore (tcSide w)))(getStorageId sys m := None)
     \<and> queueMap (queues w') qid = queueMap (queues w) qid \<and> queue_room (queues w') vq n
     \<and> queue_content (queues w') vq = queue_content (queues w) vq @ [completion_report sys p (verdict (tc_getSubService p)) 0 0]"
proof -
  let ?a = "getStorageId sys m" and ?lp = "tcStore (tcSide w)"
  have rdy: "ready s w" and qid: "psQueue s = qid" and v: "report_queue receiver (psVerify s) = vq"
    and e: "errorParameter1 s = 0" "errorParameter2 s = 0" and pok: "pool_ok ?lp" and qs: "queues_ok (queues w)"
    and own: "queueMap (queues w) qid \<noteq> None"
    using ok by (simp_all add: at_work_def)
  have inv: "pool_inv ?lp" using pok by (simp add: pool_ok_def)
  obtain ptr where m: "take (length p) (pool_mem ?lp ptr) = p" "length p \<le> length (pool_mem ?lp ptr)"
      "setStoreAddress ?lp ?a = \<lparr>storeAddress = ?a, packet_ptr = Some ptr\<rparr>"
    using pool_abs_modify[OF inv p(1)] by blast
  have l9: "\<not> length (pool_mem ?lp ptr) < 9" using p(2) m(2) by linarith
  have "pool_mem ?lp ptr ! 8 = take (length p) (pool_mem ?lp ptr) ! 8" using p(2) by simp
  then have "pool_mem ?lp ptr ! 8 = p ! 8" unfolding m(1) .
  then have sub: "tc_getSubService (pool_mem ?lp ptr) = tc_getSubService p" by (simp add: layout)
  let ?s1 = "s\<lparr>psPacket := setStoreAddress ?lp ?a\<rparr>"
  have "?s1 = s\<lparr>psVerify := psVerify s, psPacket := setStoreAddress ?lp ?a, errorParameter1 := errorParameter1 s, errorParameter2 := errorParameter2 s\<rparr>"
    by simp
  then have rdy1: "ready ?s1 w" using frame[OF rdy refl refl] by metis
  obtain s2 w2 where h: "handle (tc_getSubService p) ?s1 w = Some (verdict (tc_getSubService p), s2, w2)" "ready s2 w2"
      "psPacket s2 = psPacket ?s1" "psVerify s2 = psVerify ?s1" "psQueue s2 = psQueue ?s1"
      "errorParameter1 s2 = errorParameter1 ?s1" "errorParameter2 s2 = errorParameter2 ?s1"
      "tcStore (tcSide w2) = ?lp" "queues_ok (queues w2)" "\<forall>q \<in> {qid, vq}. queueMap (queues w2) q = queueMap (queues w) q"
    using handles[OF rdy1 qs, of "tc_getSubService p"] by blast
  have sp2: "psPacket s2 = setStoreAddress (tcStore (tcSide w2)) ?a" using h(3,8) by simp
  have v2: "vq = report_queue receiver (psVerify s2)" using h(4) v by simp
  have l8: "8 \<le> length p" using p(2) by linarith
  obtain w3 where f: "ps_finish sys receiver (verdict (tc_getSubService p)) s2 w2 = Some (s2\<lparr>psVerify := vq,
        psPacket := \<lparr>storeAddress = INVALID_ADDRESS, packet_ptr = None\<rparr>, errorParameter1 := 0, errorParameter2 := 0\<rparr>, w3)"
     "tmStore w3 = tmStore w2" "pool_ok (tcStore (tcSide w3))" "queues_ok (queues w3)"
     "pool_abs (tcStore (tcSide w3)) = (pool_abs ?lp)(?a := None)"
     "\<forall>q. q \<noteq> vq \<longrightarrow> queueMap (queues w3) q = queueMap (queues w2) q" "\<forall>q. queue_default (queues w3) q = queue_default (queues w2) q"
     "queue_room (queues w2) vq (Suc n) \<longrightarrow> queue_room (queues w3) vq n
          \<and> queue_content (queues w3) vq = queue_content (queues w2) vq
              @ [completion_report sys p (verdict (tc_getSubService p)) (errorParameter1 s2) (errorParameter2 s2)]"
    using ps_finish_spec[of w2 ?a p s2, unfolded h(8), OF pok h(9) p(1) l8 sp2[unfolded h(8)] v2, of sys "verdict (tc_getSubService p)"] by blast
  let ?s3 = "s2\<lparr>psVerify := vq, psPacket := \<lparr>storeAddress = INVALID_ADDRESS, packet_ptr = None\<rparr>, errorParameter1 := 0, errorParameter2 := 0\<rparr>"
  have call: "ps_request sys receiver handle m s w = Some (?s3, w3)"
    using l9 h(1) f(1) by (simp add: ps_request_def m(3) sub Let_def)
  have rdy3: "ready ?s3 w3" using frame[OF h(2) f(2)] f(7) by blast
  have vv: "report_queue receiver vq = vq" using v by (metis report_queue_idem)
  have q3: "queueMap (queues w3) qid = queueMap (queues w) qid" using f(6) h(10) ne by simp
  have ok3: "at_work receiver ?s3 w3" using rdy3 h(5) qid vv f(3,4) q3 own by (simp add: at_work_def)
  have r2: "queue_room (queues w2) vq (Suc n)" "queue_content (queues w2) vq = queue_content (queues w) vq"
    using room h(10) by (simp_all add: queue_room_def queue_content_def)
  show ?thesis using call ok3 f(5,8) q3 r2 h(6,7) e by simp
qed

lemma requests_settled:
  assumes "at_work receiver s w" "qid \<noteq> vq" "queue_room (queues w) vq (length as)" "message_ok m"
    and "distinct (map (getStorageId sys) (queue_content (queues w) qid))"
    and "\<forall>a \<in> set (map (getStorageId sys) (queue_content (queues w) qid)). \<exists>p. pool_abs (tcStore (tcSide w)) a = Some p \<and> 9 \<le> length p"
    and "as = take n (map (getStorageId sys) (queue_content (queues w) qid))"
  shows "\<exists>s' w'. handleRequestQueue_loop sys receiver handle n m s w = Some (s', w') \<and> at_work receiver s' w'
     \<and> queue_content (queues w') qid = drop n (queue_content (queues w) qid)
     \<and> pool_abs (tcStore (tcSide w')) = (\<lambda>a. if a \<in> set as then None else pool_abs (tcStore (tcSide w)) a)
     \<and> queue_content (queues w') vq = queue_content (queues w) vq
         @ map (\<lambda>a. let p = the (pool_abs (tcStore (tcSide w)) a) in completion_report sys p (verdict (tc_getSubService p)) 0 0) as"
  using assms
proof (induction n arbitrary: s w m as)
  case 0
  then show ?case by simp
next
  case (Suc n)
  have qid: "psQueue s = qid" and qs: "queues_ok (queues w)" and own: "queueMap (queues w) qid \<noteq> None"
    using Suc.prems(1) by (simp_all add: at_work_def)
  show ?case
  proof (cases "queue_content (queues w) qid")
    case Nil
    have "queue_receive sys (queues w) qid m = Some (MQ_EMPTY, queues w, m)"
      using receive_spec(1)[OF qs Suc.prems(4) own Nil] .
    moreover have "set_queues (queues w) w = w" by (simp add: set_queues_def)
    ultimately have "handleRequestQueue_loop sys receiver handle (Suc n) m s w = Some (s, w)"
      by (simp add: qid)
    then show ?thesis using Suc.prems(1,7) Nil by simp
  next
    case (Cons m0 ms)
    let ?a = "getStorageId sys m0" and ?as = "take n (map (getStorageId sys) ms)"
    obtain qm m1 where r: "queue_receive sys (queues w) qid m = Some (RETURN_OK, qm, m1)" "queues_ok qm" "message_ok m1"
        "getStorageId sys m1 = ?a" "queue_content qm = (queue_content (queues w))(qid := ms)"
        "\<forall>q. queueMap qm q = None \<longleftrightarrow> queueMap (queues w) q = None"
      using receive_spec(2)[OF qs Suc.prems(4) own Cons, of sys] by blast
    note k = receive_keeps[OF r(1)]
    let ?w1 = "set_queues qm w"
    obtain p where p: "pool_abs (tcStore (tcSide w)) ?a = Some p" "9 \<le> length p" using Suc.prems(6) Cons by auto
    have e: "s = s\<lparr>psVerify := psVerify s, psPacket := psPacket s, errorParameter1 := errorParameter1 s, errorParameter2 := errorParameter2 s\<rparr>"
      by simp
    have "ready s w" using Suc.prems(1) by (simp add: at_work_def)
    then have "ready s ?w1" using frame[of s w ?w1] k(2) e by (metis set_queues_simps(1,2))
    then have ok1: "at_work receiver s ?w1" using Suc.prems(1) r(2,6) by (simp add: at_work_def)
    have as: "as = ?a # ?as" using Suc.prems(7) Cons by simp
    have room1: "queue_room (queues ?w1) vq (Suc (length ?as))" using Suc.prems(2,3) k(1)[of vq] by (simp add: queue_room_def as)
    have p1: "pool_abs (tcStore (tcSide ?w1)) (getStorageId sys m1) = Some p" using p(1) r(4) by simp
    obtain s2 w2 where h: "ps_request sys receiver handle m1 s ?w1 = Some (s2, w2)" "at_work receiver s2 w2"
       "pool_abs (tcStore (tcSide w2)) = (pool_abs (tcStore (tcSide w)))(?a := None)"
       "queueMap (queues w2) qid = queueMap qm qid" "queue_room (queues w2) vq (length ?as)"
       "queue_content (queues w2) vq = queue_content qm vq @ [completion_report sys p (verdict (tc_getSubService p)) 0 0]"
      using request_settled[OF ok1 Suc.prems(2) room1 p1 p(2)] unfolding r(4) set_queues_simps by blast
    have c2: "queue_content (queues w2) qid = ms" using h(4) r(5) by (simp add: queue_content_def fun_eq_iff)
    have dist: "distinct (map (getStorageId sys) ms)" "?a \<notin> set (map (getStorageId sys) ms)" using Suc.prems(5) Cons by simp_all
    have held: "\<forall>a \<in> set (map (getStorageId sys) ms). \<exists>p. pool_abs (tcStore (tcSide w2)) a = Some p \<and> 9 \<le> length p"
      using Suc.prems(6) Cons dist(2) by (auto simp: h(3) image_iff)
    obtain s3 w3 where t: "handleRequestQueue_loop sys receiver handle n m1 s2 w2 = Some (s3, w3)" "at_work receiver s3 w3"
       "queue_content (queues w3) qid = drop n ms"
       "pool_abs (tcStore (tcSide w3)) = (\<lambda>a. if a \<in> set ?as then None else pool_abs (tcStore (tcSide w2)) a)"
       "queue_content (queues w3) vq = queue_content (queues w2) vq
         @ map (\<lambda>a. let p = the (pool_abs (tcStore (tcSide w2)) a) in completion_report sys p (verdict (tc_getSubService p)) 0 0) ?as"
      using Suc.IH[OF h(2) Suc.prems(2) h(5) r(3), unfolded c2, OF dist(1) held refl] by blast
    have loop: "handleRequestQueue_loop sys receiver handle (Suc n) m s w = Some (s3, w3)"
      using r(1) h(1) t(1) by (simp add: qid)
    have abs: "pool_abs (tcStore (tcSide w3)) = (\<lambda>a. if a \<in> set as then None else pool_abs (tcStore (tcSide w)) a)"
      using t(4) h(3) unfolding as by (auto simp: fun_eq_iff)
    have "?a \<notin> set ?as" using dist(2) set_take_subset by fastforce
    then have same: "map (\<lambda>a. let p = the (pool_abs (tcStore (tcSide w2)) a) in completion_report sys p (verdict (tc_getSubService p)) 0 0) ?as
        = map (\<lambda>a. let p = the (pool_abs (tcStore (tcSide w)) a) in completion_report sys p (verdict (tc_getSubService p)) 0 0) ?as"
      by (intro map_cong) (auto simp: h(3))
    have "queue_content (queues w3) vq = queue_content (queues w) vq
         @ map (\<lambda>a. let p = the (pool_abs (tcStore (tcSide w)) a) in completion_report sys p (verdict (tc_getSubService p)) 0 0) as"
      unfolding t(5) same h(6) as using r(5) Suc.prems(2) p(1) by simp
    then show ?thesis using loop t(2,3) abs Cons by simp
  qed
qed

end

subsection \<open>The test service\<close>

definition ready17 :: "(bytes \<Rightarrow> bytes) option \<Rightarrow> u32 \<Rightarrow> u32 \<Rightarrow> 'a service17_scheme \<Rightarrow> tmtc_world \<Rightarrow> bool" where
  "ready17 timeStamper qid vq s w \<longleftrightarrow> stamps timeStamper \<and> psQueue s = qid \<and> pool_ok (tmStore w) \<and> queue_default (queues w) qid \<notin> {qid, vq}"

definition verdict17 :: "u8 \<Rightarrow> u16" where
  "verdict17 sub = (if sub = CONNECTION_TEST \<or> sub = EVENT_TRIGGER_TEST then RETURN_OK else INVALID_SUBSERVICE)"

lemma connection_report_spec:
  assumes "pool_ok (tmStore w)" "stamps timeStamper" "queues_ok (queues w)" and dest: "dest = queue_default (queues w) (psQueue s)"
  shows "\<exists>w'. connection_report sys timeStamper s w = Some (s\<lparr>packetSubCounter := packetSubCounter s + 1\<rparr>, w')
     \<and> pool_ok (tmStore w') \<and> queues_ok (queues w') \<and> tcStore (tcSide w') = tcStore (tcSide w) \<and> triggered w' = triggered w
     \<and> (\<forall>q. q \<noteq> dest \<longrightarrow> queueMap (queues w') q = queueMap (queues w) q)
     \<and> (fst (reserveSpace (tmStore w) 17 INVALID_ADDRESS False) = RETURN_OK \<longrightarrow> has_room (queues w) dest \<longrightarrow>
          (\<exists>a q. pool_abs (tmStore w) a = None \<and> pool_abs (tmStore w') = (pool_abs (tmStore w))(a \<mapsto> q)
            \<and> tm_packet_of q (psApid s) (psServiceId s) CONNECTION_TEST_REPORT []
            \<and> queue_content (queues w') dest = queue_content (queues w) dest @ [newTmTcMessage sys a]))"
proof -
  obtain sp lp lost where n: "newTmPacketStored timeStamper (tmStore w) (lostTm w) (psApid s) (psServiceId s) CONNECTION_TEST_REPORT [] [] = (sp, lp, lost)"
    by (cases "newTmPacketStored timeStamper (tmStore w) (lostTm w) (psApid s) (psServiceId s) CONNECTION_TEST_REPORT [] []") auto
  have sz: "17 + length ([] :: bytes) + length ([] :: bytes) < 2 ^ 32" by simp
  note b = tm_built_ok[OF assms(1) sz assms(2) n, simplified append_Nil]
  let ?w1 = "w\<lparr>tmStore := lp, lostTm := lost\<rparr>"
  have ok1: "pool_ok (tmStore ?w1)" "queues_ok (queues ?w1)" using b(1) assms(3) by simp_all
  obtain st w' where s: "tm_sendPacket sys dest (psQueue s) ?w1 sp = Some (st, w')" "pool_ok (tmStore w')" "queues_ok (queues w')"
     "tcStore (tcSide w') = tcStore (tcSide ?w1)" "triggered w' = triggered ?w1"
     "\<forall>q. q \<noteq> dest \<longrightarrow> queueMap (queues w') q = queueMap (queues ?w1) q"
     "st = RETURN_OK \<longrightarrow> tmStore w' = tmStore ?w1
          \<and> queue_content (queues w') dest = queue_content (queues ?w1) dest @ [newTmTcMessage sys (storeAddress sp)]"
     "packet_ptr sp \<noteq> None \<longrightarrow> has_room (queues ?w1) dest \<longrightarrow> st = RETURN_OK"
    using tm_send_spec[OF ok1, of sys dest "psQueue s" sp] by blast
  have call: "connection_report sys timeStamper s w = Some (s\<lparr>packetSubCounter := packetSubCounter s + 1\<rparr>, w')"
    using n s(1) by (simp add: connection_report_def dest[symmetric])
  have "\<exists>a q. pool_abs (tmStore w) a = None \<and> pool_abs (tmStore w') = (pool_abs (tmStore w))(a \<mapsto> q)
            \<and> tm_packet_of q (psApid s) (psServiceId s) CONNECTION_TEST_REPORT []
            \<and> queue_content (queues w') dest = queue_content (queues w) dest @ [newTmTcMessage sys a]"
    if "fst (reserveSpace (tmStore w) 17 INVALID_ADDRESS False) = RETURN_OK" "has_room (queues w) dest"
  proof -
    have ptr: "packet_ptr sp \<noteq> None" using that(1) n
      by (auto simp: newTmPacketStored_def getFreeElement_def pus_sizes Let_def split: prod.splits option.splits if_splits)
    then show ?thesis using b(3) s(7,8) that(2) by auto
  qed
  then show ?thesis using call s(2-6) by (intro exI[of _ w']) simp
qed

lemma handles17:
  fixes s :: "'a service17_scheme"
  assumes rdy: "ready17 timeStamper qid vq s w" and qs: "queues_ok (queues w)"
  shows "\<exists>s' w'. handleRequest17 sys timeStamper sub s w = Some (verdict17 sub, s', w') \<and> ready17 timeStamper qid vq s' w'
      \<and> psPacket s' = psPacket s \<and> psVerify s' = psVerify s \<and> psQueue s' = psQueue s
      \<and> errorParameter1 s' = errorParameter1 s \<and> errorParameter2 s' = errorParameter2 s
      \<and> tcStore (tcSide w') = tcStore (tcSide w) \<and> queues_ok (queues w') \<and> (\<forall>q \<in> {qid, vq}. queueMap (queues w') q = queueMap (queues w) q)"
proof (cases "sub = CONNECTION_TEST \<or> sub = EVENT_TRIGGER_TEST")
  case False
  then show ?thesis using assms by (simp add: handleRequest17_def verdict17_def)
next
  case True
  have r: "pool_ok (tmStore w)" "stamps timeStamper" "psQueue s = qid" "queue_default (queues w) qid \<notin> {qid, vq}"
    using rdy by (simp_all add: ready17_def)
  obtain w' where c: "connection_report sys timeStamper s w = Some (s\<lparr>packetSubCounter := packetSubCounter s + 1\<rparr>, w')"
     "pool_ok (tmStore w')" "queues_ok (queues w')" "tcStore (tcSide w') = tcStore (tcSide w)"
     "\<forall>q. q \<noteq> queue_default (queues w) qid \<longrightarrow> queueMap (queues w') q = queueMap (queues w) q"
    using connection_report_spec[OF r(1,2) qs refl, where s = s and sys = sys, unfolded r(3)] by blast
  let ?s' = "s\<lparr>packetSubCounter := packetSubCounter s + 1\<rparr>"
  let ?w' = "if sub = CONNECTION_TEST then w' else w'\<lparr>triggered := triggered w' @ [(TEST_EVENT, 1234, 5678)]\<rparr>"
  have "handleRequest17 sys timeStamper sub s w = Some (verdict17 sub, ?s', ?w')"
    using True c(1) by (auto simp: handleRequest17_def verdict17_def)
  moreover have keep: "\<forall>q \<in> {qid, vq}. queueMap (queues w') q = queueMap (queues w) q" using c(5) r(4) by auto
  then have "queue_default (queues w') qid = queue_default (queues w) qid" by (simp add: queue_default_def)
  ultimately show ?thesis using r c(2-4) keep by (intro exI[of _ ?s'] exI[of _ ?w']) (simp add: ready17_def)
qed

interpretation test: request_handler "handleRequest17 sys timeStamper" "ready17 timeStamper qid vq" verdict17 qid vq
  for sys timeStamper qid vq
proof unfold_locales
  fix s :: "'a service17_scheme" and w sub
  assume "ready17 timeStamper qid vq s w" "queues_ok (queues w)"
  then show "\<exists>s' w'. handleRequest17 sys timeStamper sub s w = Some (verdict17 sub, s', w') \<and> ready17 timeStamper qid vq s' w'
      \<and> psPacket s' = psPacket s \<and> psVerify s' = psVerify s \<and> psQueue s' = psQueue s
      \<and> errorParameter1 s' = errorParameter1 s \<and> errorParameter2 s' = errorParameter2 s
      \<and> tcStore (tcSide w') = tcStore (tcSide w) \<and> queues_ok (queues w') \<and> (\<forall>q \<in> {qid, vq}. queueMap (queues w') q = queueMap (queues w) q)"
    by (rule handles17)
qed (simp add: ready17_def)

subsection \<open>Verification reports\<close>

text \<open>The source data of the report for a verification message: the step only in progress reports.\<close>

definition verification_bytes :: "byte_order \<Rightarrow> mq_message \<Rightarrow> bytes" where
  "verification_bytes sys m =
     be_bytes 2 (getTcPacketId sys m) @ be_bytes 2 (getTcSequenceControl sys m)
     @ (if getReportId m = PROGRESS_SUCCESS \<or> getReportId m = PROGRESS_FAILURE then [getStep m] else [])
     @ (if getReportId m mod 2 = 0
        then be_bytes 2 (getErrorCode sys m) @ be_bytes 4 (verif_getParameter1 sys m) @ be_bytes 4 (verif_getParameter2 sys m) else [])"

lemma be_bytes_1: "be_bytes 1 (s :: u8) = [s]"
  by (simp add: be_bytes_def le_bytes_def)

lemma failure_content:
  "report_content (FailureReport_serialize sys r i c st e p q) (FailureReport_size r)
     = be_bytes 2 i @ be_bytes 2 c @ (if r = PROGRESS_FAILURE then [st] else []) @ be_bytes 2 e @ be_bytes 4 p @ be_bytes 4 q"
  by (simp add: report_content_def FailureReport_serialize_def FailureReport_size_def SA_serialize_word_room fits_def report_start_def
      append_out_def be_bytes_1[unfolded One_nat_def])

lemma success_content:
  "report_content (SuccessReport_serialize sys r i c st) (SuccessReport_size r)
     = be_bytes 2 i @ be_bytes 2 c @ (if r = PROGRESS_SUCCESS then [st] else [])"
  by (simp add: report_content_def SuccessReport_serialize_def SuccessReport_size_def SA_serialize_word_room fits_def report_start_def
      append_out_def be_bytes_1[unfolded One_nat_def])

lemma sendVerificationReport_bytes:
  "sendVerificationReport sys timeStamper m = s1_send sys timeStamper (getReportId m) (verification_bytes sys m)"
proof -
  have "PROGRESS_SUCCESS mod 2 \<noteq> 0" "PROGRESS_FAILURE mod 2 = 0" by (simp_all add: verify_codes)
  then show ?thesis
    by (auto simp: sendVerificationReport_def generateFailureReport_def generateSuccessReport_def failure_content success_content
        verification_bytes_def)
qed

lemma s1_send_spec:
  assumes pok: "pool_ok (tmStore w)" and st: "stamps timeStamper" and qs: "queues_ok (queues w)" and len: "length content < 1000"
    and room: "fst (reserveSpace (tmStore w) (17 + length content) INVALID_ADDRESS False) = RETURN_OK"
    and dest: "dest = queue_default (queues w) (s1Queue s)" "has_room (queues w) dest"
  shows "\<exists>w' a q. s1_send sys timeStamper sub content s w = Some (RETURN_OK, s\<lparr>s1Counter := s1Counter s + 1\<rparr>, w')
     \<and> pool_ok (tmStore w') \<and> queues_ok (queues w') \<and> tcStore (tcSide w') = tcStore (tcSide w)
     \<and> (\<forall>q. q \<noteq> dest \<longrightarrow> queueMap (queues w') q = queueMap (queues w) q)
     \<and> pool_abs (tmStore w) a = None \<and> pool_abs (tmStore w') = (pool_abs (tmStore w))(a \<mapsto> q)
     \<and> tm_packet_of q (s1Apid s) (s1ServiceId s) sub content
     \<and> queue_content (queues w') dest = queue_content (queues w) dest @ [newTmTcMessage sys a]"
proof -
  let ?n = "length content"
  have n32: "17 + length content + length ([] :: bytes) < 2 ^ 32" using len by simp
  obtain rs a ptr lp1 where r: "getFreeElement (tmStore w) INVALID_ADDRESS (17 + ?n) False = (rs, a, ptr, lp1)"
    by (cases "getFreeElement (tmStore w) INVALID_ADDRESS (17 + ?n) False") auto
  have m: "(17 + ?n) mod 2 ^ 32 = 17 + ?n" using len by simp
  obtain pd where pd: "ptr = Some pd" using r room unfolding getFreeElement_def m by (auto split: prod.splits if_splits)
  obtain sp lp lost where n: "newTmPacketStored timeStamper (tmStore w) (lostTm w) (s1Apid s) (s1ServiceId s) sub content [] = (sp, lp, lost)"
    by (cases "newTmPacketStored timeStamper (tmStore w) (lostTm w) (s1Apid s) (s1ServiceId s) sub content []") auto
  have ptr: "packet_ptr sp \<noteq> None" using n r pd by (auto simp: newTmPacketStored_def pus_sizes Let_def)
  have put: "put_bytes p k [] = p" for p :: bytes and k by (simp add: put_bytes_def)
  have n': "newTmPacketStored_serialize timeStamper (tmStore w) (lostTm w) (s1Apid s) (s1ServiceId s) sub (Some content) None = Some (sp, lp, lost)"
    using n r pd by (simp add: newTmPacketStored_def newTmPacketStored_serialize_def pus_sizes put Let_def)
  note b = tm_built_ok[OF pok n32 st n, simplified append_Nil]
  obtain q where q: "pool_abs (tmStore w) (storeAddress sp) = None" "pool_abs lp = (pool_abs (tmStore w))(storeAddress sp \<mapsto> q)"
      "tm_packet_of q (s1Apid s) (s1ServiceId s) sub content"
    using b(3)[OF ptr] by blast
  let ?w1 = "w\<lparr>tmStore := lp, lostTm := lost\<rparr>"
  have ok1: "pool_ok (tmStore ?w1)" "queues_ok (queues ?w1)" using b(1) qs by simp_all
  obtain st' w' where s: "tm_sendPacket sys dest (s1Queue s) ?w1 sp = Some (st', w')" "pool_ok (tmStore w')" "queues_ok (queues w')"
     "tcStore (tcSide w') = tcStore (tcSide ?w1)"
     "\<forall>q. q \<noteq> dest \<longrightarrow> queueMap (queues w') q = queueMap (queues ?w1) q"
     "st' = RETURN_OK \<longrightarrow> tmStore w' = tmStore ?w1
          \<and> queue_content (queues w') dest = queue_content (queues ?w1) dest @ [newTmTcMessage sys (storeAddress sp)]"
     "packet_ptr sp \<noteq> None \<longrightarrow> has_room (queues ?w1) dest \<longrightarrow> st' = RETURN_OK"
    using tm_send_spec[OF ok1, of sys dest "s1Queue s" sp] by blast
  have ok: "st' = RETURN_OK" using s(7) ptr dest(2) by simp
  have "s1_send sys timeStamper sub content s w = Some (RETURN_OK, s\<lparr>s1Counter := s1Counter s + 1\<rparr>, w')"
    using n' s(1) ok by (simp add: s1_send_def dest(1))
  then show ?thesis using s(2-6) ok q by (intro exI[of _ w'] exI[of _ "storeAddress sp"] exI[of _ q]) simp
qed

lemma length_verification_bytes: "length (verification_bytes sys m) < 1000"
  by (simp add: verification_bytes_def)

subsection \<open>Properties\<close>

text \<open>
  C28. A cycle of the test service: the first ten requests in its queue are taken, in order; each is
  answered with a completion report that carries the request's packet id and sequence control, success for
  the connection and the event test and \<open>INVALID_SUBSERVICE\<close> otherwise, and is deleted from the telecommand
  store. The other requests stay in the queue, and the other packets in the store.
\<close>

theorem service17_settles_requests:
  assumes "stamps timeStamper" "pool_ok (tmStore w)" "pool_ok (tcStore (tcSide w))" "queues_ok (queues w)"
    and "queueMap (queues w) (psQueue s) \<noteq> None" "distinct [psQueue s, vq, queue_default (queues w) (psQueue s)]"
    and "vq = report_queue receiver (psVerify s)" "queue_room (queues w) vq (min 10 (length ids))" "errorParameter1 s = 0" "errorParameter2 s = 0"
    and ids: "ids = map (getStorageId sys) (queue_content (queues w) (psQueue s))" "distinct ids"
      "\<forall>a \<in> set ids. \<exists>p. pool_abs (tcStore (tcSide w)) a = Some p \<and> 9 \<le> length p"
  shows "\<exists>s' w'. handleRequestQueue sys receiver (handleRequest17 sys timeStamper) s w = Some (s', w')
     \<and> queue_content (queues w') (psQueue s) = drop 10 (queue_content (queues w) (psQueue s))
     \<and> pool_abs (tcStore (tcSide w')) = (\<lambda>a. if a \<in> set (take 10 ids) then None else pool_abs (tcStore (tcSide w)) a)
     \<and> queue_content (queues w') vq = queue_content (queues w) vq
         @ map (\<lambda>a. let p = the (pool_abs (tcStore (tcSide w)) a) in completion_report sys p (verdict17 (tc_getSubService p)) 0 0) (take 10 ids)"
proof -
  let ?m = "newMessage\<lparr>messageSize := MQ_HEADER_SIZE + 4\<rparr>"
  have m: "message_ok ?m" by (simp add: message_ok_def message_inv_def newMessage_def mq_sizes)
  have r: "ready17 timeStamper (psQueue s) vq s w" using assms(1,2,6) by (auto simp: ready17_def)
  have ne: "psQueue s \<noteq> vq" using assms(6) by simp
  have ok: "test.at_work timeStamper (psQueue s) vq receiver s w"
    using r assms(3-5,7,9,10) by (simp add: test.at_work_def)
  have room: "queue_room (queues w) vq (length (take 10 (map (getStorageId sys) (queue_content (queues w) (psQueue s)))))"
    using assms(8) by (simp add: ids(1) min.commute)
  from test.requests_settled[OF ok ne room m ids(2,3)[unfolded ids(1)] refl] show ?thesis
    unfolding handleRequestQueue_def PUS_SERVICE_MAX_RECEPTION_def ids(1) by blast
qed

text \<open>
  A ping: with room in the telemetry store and in the queue of the destination, the test service answers
  the connection test and the event test with a telemetry packet of its service, subservice 2, without
  source data, whose address is sent to the destination; the event is triggered by the event test only.
\<close>

theorem service17_answers_ping:
  assumes "stamps timeStamper" "pool_ok (tmStore w)" "queues_ok (queues w)" "sub = CONNECTION_TEST \<or> sub = EVENT_TRIGGER_TEST"
    and "fst (reserveSpace (tmStore w) 17 INVALID_ADDRESS False) = RETURN_OK"
    and "dest = queue_default (queues w) (psQueue s)" "has_room (queues w) dest"
  shows "\<exists>s' w' a q. handleRequest17 sys timeStamper sub s w = Some (RETURN_OK, s', w')
     \<and> pool_abs (tmStore w) a = None \<and> pool_abs (tmStore w') = (pool_abs (tmStore w))(a \<mapsto> q)
     \<and> tm_packet_of q (psApid s) (psServiceId s) CONNECTION_TEST_REPORT []
     \<and> queue_content (queues w') dest = queue_content (queues w) dest @ [newTmTcMessage sys a]
     \<and> triggered w' = triggered w @ (if sub = EVENT_TRIGGER_TEST then [(TEST_EVENT, 1234, 5678)] else [])"
proof -
  have ne: "CONNECTION_TEST \<noteq> EVENT_TRIGGER_TEST" by (simp add: CONNECTION_TEST_def EVENT_TRIGGER_TEST_def)
  obtain w' a q where c: "connection_report sys timeStamper s w = Some (s\<lparr>packetSubCounter := packetSubCounter s + 1\<rparr>, w')"
     "triggered w' = triggered w" "pool_abs (tmStore w) a = None" "pool_abs (tmStore w') = (pool_abs (tmStore w))(a \<mapsto> q)"
     "tm_packet_of q (psApid s) (psServiceId s) CONNECTION_TEST_REPORT []"
     "queue_content (queues w') dest = queue_content (queues w) dest @ [newTmTcMessage sys a]"
    using connection_report_spec[OF assms(2,1,3,6), of sys] assms(5,7) by blast
  show ?thesis
  proof (cases "sub = EVENT_TRIGGER_TEST")
    case True
    then show ?thesis using c ne
      by (intro exI[of _ "s\<lparr>packetSubCounter := packetSubCounter s + 1\<rparr>"] exI[of _ "w'\<lparr>triggered := triggered w' @ [(TEST_EVENT, 1234, 5678)]\<rparr>"]
          exI[of _ a] exI[of _ q]) (simp add: handleRequest17_def)
  next
    case False
    then show ?thesis using c assms(4)
      by (intro exI[of _ "s\<lparr>packetSubCounter := packetSubCounter s + 1\<rparr>"] exI[of _ w'] exI[of _ a] exI[of _ q]) (simp add: handleRequest17_def)
  qed
qed

text \<open>
  A verification message becomes a telemetry packet of the verification service whose subservice is the
  report id and whose source data are the telecommand's packet id and sequence control, the step in
  progress reports, and the error code with its parameters in failure reports.
\<close>

theorem verification_reported:
  assumes "stamps timeStamper" "pool_ok (tmStore w)" "queues_ok (queues w)"
    and "fst (reserveSpace (tmStore w) (17 + length (verification_bytes sys m)) INVALID_ADDRESS False) = RETURN_OK"
    and "dest = queue_default (queues w) (s1Queue s)" "has_room (queues w) dest"
  shows "\<exists>s' w' a q. sendVerificationReport sys timeStamper m s w = Some (RETURN_OK, s', w')
     \<and> pool_abs (tmStore w) a = None \<and> pool_abs (tmStore w') = (pool_abs (tmStore w))(a \<mapsto> q)
     \<and> tm_packet_of q (s1Apid s) (s1ServiceId s) (getReportId m) (verification_bytes sys m)
     \<and> queue_content (queues w') dest = queue_content (queues w) dest @ [newTmTcMessage sys a]"
  unfolding sendVerificationReport_bytes
  using s1_send_spec[OF assms(2,1,3) length_verification_bytes assms(4-6), where sub = "getReportId m"] by blast

subsection \<open>Witnesses\<close>

text \<open>
  The telecommand of the distribution's witnesses in the queue (3) of a test service with the verification
  service's queue (4) and a destination (2), and an empty telemetry store.
\<close>

definition services_queue :: "u32 \<Rightarrow> host_queue" where
  "services_queue q = (newHostQueue q 3 28)\<lparr>messageQueue := (if q = 3 then [tc_message] else []), defaultDestination := 2\<rparr>"

definition services_world :: tmtc_world where
  "services_world = \<lparr>tcSide = \<lparr>tcStore = tc_store sample_tc,
       tcQueues = \<lparr>queueMap = [2 \<mapsto> services_queue 2, 3 \<mapsto> services_queue 3, 4 \<mapsto> services_queue 4], queueCounter = 5\<rparr>\<rparr>,
     tmStore = newLocalPool [36] [2] False, lostTm = 0, triggered = []\<rparr>"

definition sample_service17 :: service17 where
  "sample_service17 = \<lparr>psApid = 0x73, psServiceId = 17, psQueue = 3, psVerify = 4,
     psPacket = \<lparr>storeAddress = INVALID_ADDRESS, packet_ptr = None\<rparr>, errorParameter1 = 0, errorParameter2 = 0, packetSubCounter = 0, objectId17 = 0\<rparr>"

definition sample_service1 :: service1 where
  "sample_service1 = \<lparr>s1Apid = 0x73, s1ServiceId = 1, s1Queue = 4, s1Counter = 0\<rparr>"

lemma services_world_simps: "tcStore (tcSide services_world) = tc_store sample_tc" "tmStore services_world = newLocalPool [36] [2] False"
  "queue_content (queues services_world) 2 = []" "queue_content (queues services_world) 3 = [tc_message]"
  "queue_content (queues services_world) 4 = []" "triggered services_world = []"
  "queue_default (queues services_world) 3 = 2" "queue_default (queues services_world) 4 = 2"
  "has_room (queues services_world) 2" "queue_room (queues services_world) 4 1" "queueMap (queues services_world) 3 \<noteq> None"
  "queues_ok (queues services_world)" "pool_ok (tmStore services_world)"
  using tc_message_ok pool_inv_new(1)[of "[36]" "[2]" False]
  by (auto simp: services_world_def services_queue_def queue_content_def queue_default_def has_room_def queue_room_def newHostQueue_def
      queues_ok_def host_queue_inv_def mq_sizes message_ok_def pool_ok_def newLocalPool_def)

lemma services_store_room: "n \<le> 36 \<Longrightarrow> fst (reserveSpace (newLocalPool [36] [2] False) n INVALID_ADDRESS False) = RETURN_OK"
proof -
  assume n: "n \<le> 36"
  have g: "getPoolIndex (newLocalPool [36] [2] False) n 0 = Some 0"
    using n by (simp add: getPoolIndex_def newLocalPool_def scan_index_rules)
  have e: "findEmpty (newLocalPool [36] [2] False) 0 = Some 0"
    by (simp add: findEmpty_def newLocalPool_def scan_index_rules numeral_2_eq_2)
  show ?thesis by (simp add: reserveSpace_def g e spill_loop.simps Let_def)
qed

lemma stamps_none: "stamps None"
  by (simp add: stamps_def)

lemma service17_settles_requests_witness:
  "\<exists>s' w'. handleRequestQueue LITTLE_ENDIAN (Some 4) (handleRequest17 LITTLE_ENDIAN None) sample_service17 services_world = Some (s', w')
     \<and> queue_content (queues w') 3 = [] \<and> pool_abs (tcStore (tcSide w')) tc_address = None
     \<and> queue_content (queues w') 4 = [completion_report LITTLE_ENDIAN sample_tc RETURN_OK 0 0]"
proof -
  let ?w = services_world and ?s = sample_service17
  have s: "psQueue ?s = 3" "psVerify ?s = 4" "errorParameter1 ?s = 0" "errorParameter2 ?s = 0" by (simp_all add: sample_service17_def)
  have store: "pool_ok (tcStore (tcSide ?w))" using tc_store_ok(1)[OF sample_sizes(1)] by (simp add: services_world_simps)
  have vq: "4 = report_queue (Some 4) (psVerify ?s)" by (simp add: s report_queue_def reporter_initialize_def)
  have d: "distinct [psQueue ?s, 4, queue_default (queues ?w) (psQueue ?s)]" "queueMap (queues ?w) (psQueue ?s) \<noteq> None"
    by (simp_all only: s services_world_simps) simp_all
  have ids: "[tc_address] = map (getStorageId LITTLE_ENDIAN) (queue_content (queues ?w) (psQueue ?s))" "distinct [tc_address]"
    by (simp_all add: s services_world_simps tc_message_ok)
  have held: "\<forall>a \<in> set [tc_address]. \<exists>p. pool_abs (tcStore (tcSide ?w)) a = Some p \<and> 9 \<le> length p"
    using tc_store_ok(2)[OF sample_sizes(1)] by (simp add: services_world_simps sample_sizes)
  have room: "queue_room (queues ?w) 4 (min 10 (length [tc_address]))" using services_world_simps(10) by simp
  have sub: "verdict17 (tc_getSubService sample_tc) = RETURN_OK"
    by (simp add: verdict17_def layout sample_tc_def CONNECTION_TEST_def)
  have p: "pool_abs (tcStore (tcSide ?w)) tc_address = Some sample_tc"
    using tc_store_ok(2)[OF sample_sizes(1)] by (simp add: services_world_simps)
  from service17_settles_requests[OF stamps_none services_world_simps(13) store services_world_simps(12) d(2,1) vq room s(3,4) ids held]
  show ?thesis by (auto simp: s services_world_simps(3-8) p sub Let_def)
qed

lemma service17_answers_ping_witness:
  "\<exists>s' w' a q. handleRequest17 LITTLE_ENDIAN None EVENT_TRIGGER_TEST sample_service17 services_world = Some (RETURN_OK, s', w')
     \<and> pool_abs (tmStore w') a = Some q \<and> tm_packet_of q 0x73 17 2 [] \<and> triggered w' = [(TEST_EVENT, 1234, 5678)]"
proof -
  let ?w = services_world and ?s = sample_service17
  have s: "psQueue ?s = 3" "psApid ?s = 0x73" "psServiceId ?s = 17" by (simp_all add: sample_service17_def)
  have room: "fst (reserveSpace (tmStore ?w) 17 INVALID_ADDRESS False) = RETURN_OK"
    by (simp add: services_world_simps services_store_room)
  have d: "2 = queue_default (queues ?w) (psQueue ?s)" by (simp add: s services_world_simps)
  from service17_answers_ping[OF stamps_none services_world_simps(13,12) disjI2[OF refl] room d services_world_simps(9), of LITTLE_ENDIAN]
  obtain s' w' a q where r: "handleRequest17 LITTLE_ENDIAN None EVENT_TRIGGER_TEST ?s ?w = Some (RETURN_OK, s', w')"
     "pool_abs (tmStore w') = (pool_abs (tmStore ?w))(a \<mapsto> q)" "tm_packet_of q (psApid ?s) (psServiceId ?s) CONNECTION_TEST_REPORT []"
     "triggered w' = triggered ?w @ [(TEST_EVENT, 1234, 5678)]" by auto
  then show ?thesis by (intro exI[of _ s'] exI[of _ w'] exI[of _ a] exI[of _ q]) (simp add: s services_world_simps CONNECTION_TEST_REPORT_def)
qed

lemma verification_reported_witness:
  "\<exists>s' w' a q. sendVerificationReport LITTLE_ENDIAN None (newPusVerificationMessage LITTLE_ENDIAN COMPLETION_FAILURE 0 0x1873 0xC000 INVALID_SUBSERVICE 0 7 9)
       sample_service1 services_world = Some (RETURN_OK, s', w')
     \<and> pool_abs (tmStore w') a = Some q
     \<and> tm_packet_of q 0x73 1 8 ([0x18, 0x73, 0xC0, 0] @ be_bytes 2 INVALID_SUBSERVICE @ [0, 0, 0, 7, 0, 0, 0, 9])"
proof -
  let ?m = "newPusVerificationMessage LITTLE_ENDIAN COMPLETION_FAILURE 0 0x1873 0xC000 INVALID_SUBSERVICE 0 7 9"
  let ?w = services_world and ?s = sample_service1
  note f = verification_message_fields[OF refl, of LITTLE_ENDIAN COMPLETION_FAILURE 0 "0x1873" "0xC000" INVALID_SUBSERVICE 0 7 9]
  have bytes: "be_bytes 2 (0x1873 :: u16) = [0x18, 0x73]" "be_bytes 2 (0xC000 :: u16) = [0xC0, 0]"
    "be_bytes 4 (7 :: u32) = [0, 0, 0, 7]" "be_bytes 4 (9 :: u32) = [0, 0, 0, 9]" by code_simp+
  have b: "verification_bytes LITTLE_ENDIAN ?m = [0x18, 0x73, 0xC0, 0] @ be_bytes 2 INVALID_SUBSERVICE @ [0, 0, 0, 7, 0, 0, 0, 9]"
    unfolding verification_bytes_def f bytes by (simp add: verify_codes)
  have s: "s1Queue ?s = 4" "s1Apid ?s = 0x73" "s1ServiceId ?s = 1" by (simp_all add: sample_service1_def)
  have "length (verification_bytes LITTLE_ENDIAN ?m) = 14" unfolding b by simp
  then have room: "fst (reserveSpace (tmStore ?w) (17 + length (verification_bytes LITTLE_ENDIAN ?m)) INVALID_ADDRESS False) = RETURN_OK"
    by (simp add: services_world_simps services_store_room)
  have d: "2 = queue_default (queues ?w) (s1Queue ?s)" by (simp add: s services_world_simps)
  from verification_reported[OF stamps_none services_world_simps(13,12) room d services_world_simps(9)]
  obtain s' w' a q where r: "sendVerificationReport LITTLE_ENDIAN None ?m ?s ?w = Some (RETURN_OK, s', w')"
     "pool_abs (tmStore w') = (pool_abs (tmStore ?w))(a \<mapsto> q)"
     "tm_packet_of q (s1Apid ?s) (s1ServiceId ?s) (getReportId ?m) (verification_bytes LITTLE_ENDIAN ?m)" by blast
  have "pool_abs (tmStore w') a = Some q" using r(2) by simp
  moreover have "tm_packet_of q 0x73 1 8 ([0x18, 0x73, 0xC0, 0] @ be_bytes 2 INVALID_SUBSERVICE @ [0, 0, 0, 7, 0, 0, 0, 9])"
    using r(3)[unfolded s f(1) b] unfolding COMPLETION_FAILURE_def .
  ultimately show ?thesis using r(1) by blast
qed

end
