(* ===== verification/CommandingService.thy ===== *)
theory CommandingService
  imports PusServices
begin

text \<open>
  \<open>fsfw/tmtcservices/CommandingServiceBase.cpp\<close>: the services whose telecommands are executed by other
  objects. Each object (its queue) has a slot in \<open>commandMap\<close> while it executes a command; further
  commands for it wait in the FIFO of the slot. The virtual methods of the child class are the record
  \<open>command_hooks\<close>; they work on \<open>'c\<close>, the state of the child and of the clock. An iterator of the map is
  the index of its slot.
\<close>

subsection \<open>State\<close>

definition COMMAND_INFO_FIFO_DEPTH :: nat where "COMMAND_INFO_FIFO_DEPTH = 3"
definition EXECUTION_COMPLETE :: u16 where [retcode]: "EXECUTION_COMPLETE = MAKE_RETURN_CODE COMMAND_SERVICE_BASE 1"
definition NO_STEP_MESSAGE :: u16 where [retcode]: "NO_STEP_MESSAGE = MAKE_RETURN_CODE COMMAND_SERVICE_BASE 2"
definition OBJECT_BUSY :: u16 where [retcode]: "OBJECT_BUSY = MAKE_RETURN_CODE COMMAND_SERVICE_BASE 3"
definition BUSY :: u16 where [retcode]: "BUSY = MAKE_RETURN_CODE COMMAND_SERVICE_BASE 4"
definition INVALID_TC :: u16 where [retcode]: "INVALID_TC = MAKE_RETURN_CODE COMMAND_SERVICE_BASE 5"
definition INVALID_OBJECT :: u16 where [retcode]: "INVALID_OBJECT = MAKE_RETURN_CODE COMMAND_SERVICE_BASE 6"
definition INVALID_REPLY :: u16 where [retcode]: "INVALID_REPLY = MAKE_RETURN_CODE COMMAND_SERVICE_BASE 7"
definition TIMEOUT :: u16 where [retcode]: "TIMEOUT = MAKE_RETURN_CODE ACCEPTS_TELECOMMANDS_IF 5"

record command_info =
  ciAckFlags :: u8
  ciTcPacketId :: u16
  ciTcSequenceControl :: u16
  uptimeOfStart :: u32
  ciStep :: u8
  ciSubservice :: u8
  ciState :: u32
  ciCommand :: u16
  ciObjectId :: u32
  ciFifo :: "store_address fifo"

text \<open>A new slot: \<open>raw\<close> is the memory of the local variable \<open>newInfo\<close>.\<close>

definition newCommandInfo :: "command_info \<Rightarrow> u32 \<Rightarrow> command_info" where
  "newCommandInfo raw objectId =
     raw\<lparr>ciObjectId := objectId, ciFifo := FIFOBase_new (fifo_values (ciFifo raw)) COMMAND_INFO_FIFO_DEPTH\<rparr>"

record 'c commanding_service =
  csApid :: u16
  csService :: u8
  timeoutSeconds :: u16
  tmPacketCounter :: u8
  commandQueue :: u32
  requestQueue :: u32
  csVerify :: u32
  commandMap :: "(u32, command_info) fixed_map"
  failureParameter1 :: u32
  failureParameter2 :: u32
  child :: 'c

text \<open>
  \<open>prepareCommand\<close> gets the subservice, the application data up to the end of the store's block and its
  size, the state and the object id of the slot; it gives its result, the command message, the new state
  and the two failure parameters. \<open>handleReply\<close> gives its result, the next command, the state, whether
  it is a step, and the failure parameters. \<open>clearCommand\<close> is what \<open>clearCommandMessage\<close> does to the rest
  of the system.
\<close>

record 'c command_hooks =
  isValidSubservice :: "u8 \<Rightarrow> u16"
  getMessageQueueAndObject :: "u8 \<Rightarrow> bytes \<Rightarrow> u16 \<Rightarrow> 'c \<Rightarrow> u16 \<times> u32 \<times> u32 \<times> 'c"
  prepareCommand :: "u8 \<Rightarrow> bytes \<Rightarrow> u16 \<Rightarrow> u32 \<Rightarrow> u32 \<Rightarrow> u32 \<times> u32 \<Rightarrow> 'c \<Rightarrow> u16 \<times> mq_message \<times> u32 \<times> (u32 \<times> u32) \<times> 'c"
  handleReply :: "mq_message \<Rightarrow> u16 \<Rightarrow> u32 \<Rightarrow> mq_message \<Rightarrow> u32 \<Rightarrow> u32 \<times> u32 \<Rightarrow> 'c
                    \<Rightarrow> u16 \<times> mq_message \<times> u32 \<times> bool \<times> (u32 \<times> u32) \<times> 'c"
  handleUnrequestedReply :: "mq_message \<Rightarrow> 'c \<Rightarrow> 'c"
  clearCommand :: "mq_message \<Rightarrow> 'c \<Rightarrow> 'c"
  doPeriodicOperation :: "'c \<Rightarrow> 'c"
  getUptime :: "'c \<Rightarrow> u32 \<times> 'c"

definition newCommandingService ::
  "queue_map \<Rightarrow> (u32 \<times> command_info) list \<Rightarrow> u16 \<Rightarrow> u8 \<Rightarrow> u16 \<Rightarrow> nat \<Rightarrow> 'c \<Rightarrow> ('c commanding_service \<times> queue_map) option" where
  "newCommandingService qm memory apid service commandTimeoutSeconds queueDepth c =
     (case addMessageQueue qm (newHostQueue 0 queueDepth MAX_MESSAGE_SIZE) of
        (_, Some cq, qm1) \<Rightarrow>
          (case addMessageQueue qm1 (newHostQueue 0 queueDepth MAX_MESSAGE_SIZE) of
             (_, Some rq, qm2) \<Rightarrow>
               Some (\<lparr>csApid = apid, csService = service, timeoutSeconds = commandTimeoutSeconds, tmPacketCounter = 0,
                      commandQueue = cq, requestQueue = rq, csVerify = NO_QUEUE, commandMap = FixedMap_new memory,
                      failureParameter1 = 0, failureParameter2 = 0, child = c\<rparr>, qm2)
           | _ \<Rightarrow> None)
      | _ \<Rightarrow> None)"

text \<open>\<open>forwarding\<close>, \<open>distributor\<close> and the two stores come from the object manager.\<close>

definition cs_initialize ::
  "'c commanding_service \<Rightarrow> u32 option \<Rightarrow> 'b pus_distributor_scheme option \<Rightarrow> bool \<Rightarrow> bool \<Rightarrow> queue_map
     \<Rightarrow> u16 \<times> 'b pus_distributor_scheme option \<times> queue_map" where
  "cs_initialize cs forwarding distributor ipcStore tcStoreFound qm =
     (case (forwarding, distributor) of
        (Some q, Some d) \<Rightarrow>
          (let d' = snd (registerService d (ucast (csService cs)) (requestQueue cs));
               qm' = queue_setDefault qm (requestQueue cs) q
           in if \<not> ipcStore \<or> \<not> tcStoreFound then (CHILD_INIT_FAILED, Some d', qm') else (RETURN_OK, Some d', qm'))
      | _ \<Rightarrow> (CHILD_INIT_FAILED, distributor, qm))"

text \<open>Access to a slot.\<close>

definition slot_info :: "'c commanding_service \<Rightarrow> nat \<Rightarrow> command_info" where
  "slot_info cs i = snd (fm_map (commandMap cs) ! i)"

definition slot_key :: "'c commanding_service \<Rightarrow> nat \<Rightarrow> u32" where
  "slot_key cs i = fst (fm_map (commandMap cs) ! i)"

definition slot_update :: "nat \<Rightarrow> (command_info \<Rightarrow> command_info) \<Rightarrow> 'c commanding_service \<Rightarrow> 'c commanding_service" where
  "slot_update i f cs = cs\<lparr>commandMap := (commandMap cs)\<lparr>fm_map := (fm_map (commandMap cs))[i := (slot_key cs i, f (slot_info cs i))]\<rparr>\<rparr>"

lemma slot_update_simps [simp]:
  "i < length (fm_map (commandMap cs)) \<Longrightarrow> slot_info (slot_update i f cs) i = f (slot_info cs i)"
  "slot_key (slot_update i f cs) j = slot_key cs j" "fm_size (commandMap (slot_update i f cs)) = fm_size (commandMap cs)"
  "length (fm_map (commandMap (slot_update i f cs))) = length (fm_map (commandMap cs))"
  "i \<noteq> j \<Longrightarrow> slot_info (slot_update i f cs) j = slot_info cs j"
  by (auto simp: slot_update_def slot_info_def slot_key_def nth_list_update) (metis fst_conv list_update_beyond not_le nth_list_update)

lemma slot_field_simps [simp]:
  "slot_key (cs\<lparr>csVerify := v\<rparr>) j = slot_key cs j" "slot_key (cs\<lparr>child := c\<rparr>) j = slot_key cs j"
  "slot_key (cs\<lparr>failureParameter1 := x\<rparr>) j = slot_key cs j" "slot_key (cs\<lparr>failureParameter2 := x\<rparr>) j = slot_key cs j"
  "slot_info (cs\<lparr>csVerify := v\<rparr>) j = slot_info cs j" "slot_info (cs\<lparr>child := c\<rparr>) j = slot_info cs j"
  "slot_info (cs\<lparr>failureParameter1 := x\<rparr>) j = slot_info cs j" "slot_info (cs\<lparr>failureParameter2 := x\<rparr>) j = slot_info cs j"
  "csVerify (slot_update i f cs) = csVerify cs" "child (slot_update i f cs) = child cs" "requestQueue (slot_update i f cs) = requestQueue cs"
  "commandQueue (slot_update i f cs) = commandQueue cs" "timeoutSeconds (slot_update i f cs) = timeoutSeconds cs"
  by (simp_all add: slot_key_def slot_info_def slot_update_def)

subsection \<open>Reports\<close>

text \<open>A report about the command of a slot, and about a packet that is deleted afterwards.\<close>

definition slot_report ::
  "byte_order \<Rightarrow> u32 option \<Rightarrow> u8 \<Rightarrow> command_info \<Rightarrow> u16 \<Rightarrow> u8 \<Rightarrow> u32 \<Rightarrow> u32 \<Rightarrow> 'c commanding_service \<Rightarrow> tmtc_world
     \<Rightarrow> 'c commanding_service \<times> tmtc_world" where
  "slot_report sys receiver reportId info code step p1 p2 cs w =
     (case sendFailureReport sys receiver (csVerify cs) (queues w) reportId (ciAckFlags info) (ciTcPacketId info)
             (ciTcSequenceControl info) code step p1 p2 of
        (vq, qm) \<Rightarrow> (cs\<lparr>csVerify := vq\<rparr>, set_queues qm w))"

definition slot_success ::
  "byte_order \<Rightarrow> u32 option \<Rightarrow> u8 \<Rightarrow> command_info \<Rightarrow> u8 \<Rightarrow> 'c commanding_service \<Rightarrow> tmtc_world
     \<Rightarrow> 'c commanding_service \<times> tmtc_world" where
  "slot_success sys receiver reportId info step cs w =
     (case sendSuccessReport sys receiver (csVerify cs) (queues w) reportId (ciAckFlags info) (ciTcPacketId info)
             (ciTcSequenceControl info) step of
        (vq, qm) \<Rightarrow> (cs\<lparr>csVerify := vq\<rparr>, set_queues qm w))"

definition rejectPacket ::
  "byte_order \<Rightarrow> u32 option \<Rightarrow> u8 \<Rightarrow> stored_packet \<Rightarrow> u16 \<Rightarrow> 'c commanding_service \<Rightarrow> tmtc_world
     \<Rightarrow> ('c commanding_service \<times> tmtc_world) option" where
  "rejectPacket sys receiver reportId sp error_code cs w =
     Option.bind (packet_ptr sp) (\<lambda>ptr.
       let p = pool_mem (tcStore (tcSide w)) ptr in
       if length p < 7 then None
       else (case sendFailureReport_packet sys receiver (csVerify cs) (queues w) reportId p error_code 0 0 0 of
               (vq, qm) \<Rightarrow> map_option (\<lambda>(_, lp, _). (cs\<lparr>csVerify := vq\<rparr>, w\<lparr>tcSide := \<lparr>tcStore = lp, tcQueues = qm\<rparr>\<rparr>))
                             (deletePacket (tcStore (tcSide w)) sp)))"

definition acceptPacket ::
  "byte_order \<Rightarrow> u32 option \<Rightarrow> u8 \<Rightarrow> stored_packet \<Rightarrow> 'c commanding_service \<Rightarrow> tmtc_world
     \<Rightarrow> ('c commanding_service \<times> tmtc_world) option" where
  "acceptPacket sys receiver reportId sp cs w =
     Option.bind (packet_ptr sp) (\<lambda>ptr.
       let p = pool_mem (tcStore (tcSide w)) ptr in
       if length p < 7 then None
       else (case sendSuccessReport_packet sys receiver (csVerify cs) (queues w) reportId p 0 of
               (vq, qm) \<Rightarrow> map_option (\<lambda>(_, lp, _). (cs\<lparr>csVerify := vq\<rparr>, w\<lparr>tcSide := \<lparr>tcStore = lp, tcQueues = qm\<rparr>\<rparr>))
                             (deletePacket (tcStore (tcSide w)) sp)))"

lemma packet_report_keeps:
  "rejectPacket sys receiver r sp e cs w = Some (cs', w') \<Longrightarrow> cs' = cs\<lparr>csVerify := csVerify cs'\<rparr>"
  "acceptPacket sys receiver r sp cs w = Some (cs', w') \<Longrightarrow> cs' = cs\<lparr>csVerify := csVerify cs'\<rparr>"
  by (auto simp: rejectPacket_def acceptPacket_def Let_def split: prod.splits if_splits bind_splits)

subsection \<open>Starting a command\<close>

text \<open>A command goes to the object of the slot unless it is empty.\<close>

definition send_command ::
  "byte_order \<Rightarrow> 'c commanding_service \<Rightarrow> u32 \<Rightarrow> mq_message \<Rightarrow> tmtc_world \<Rightarrow> u16 \<times> mq_message \<times> tmtc_world" where
  "send_command sys cs dest command w =
     (if getCommand sys command \<noteq> CMD_NONE then
        (case sendMessageFromMessageQueue sys (queues w) dest command (commandQueue cs) of
           (result, qm, command') \<Rightarrow> (result, command', set_queues qm w))
      else (RETURN_OK, command, w))"

text \<open>The slot of a command that has been accepted for execution.\<close>

definition started_info :: "byte_order \<Rightarrow> packet \<Rightarrow> mq_message \<Rightarrow> u32 \<Rightarrow> command_info \<Rightarrow> command_info" where
  "started_info sys p command uptime info =
     info\<lparr>uptimeOfStart := uptime, ciStep := 0, ciSubservice := tc_getSubService p, ciCommand := getCommand sys command,
          ciAckFlags := getAcknowledgeFlags p, ciTcPacketId := getPacketId p, ciTcSequenceControl := getPacketSequenceControl p\<rparr>"

text \<open>
  \<open>startExecution\<close> up to the calls of \<open>checkAndExecuteFifo\<close>: whether the command is being executed, or the
  slot is free for the next one.
\<close>

definition start_command ::
  "byte_order \<Rightarrow> u32 option \<Rightarrow> 'c command_hooks \<Rightarrow> nat \<Rightarrow> stored_packet \<Rightarrow> 'c commanding_service \<Rightarrow> tmtc_world
     \<Rightarrow> (bool \<times> 'c commanding_service \<times> tmtc_world) option" where
  "start_command sys receiver h i sp cs w =
     Option.bind (packet_ptr sp) (\<lambda>ptr.
       let p = pool_mem (tcStore (tcSide w)) ptr in
       if length p < TC_APP_DATA then None
       else
         let cs0 = slot_update i (\<lambda>info. info\<lparr>ciSubservice := tc_getSubService p\<rparr>) cs in
         (case prepareCommand h (tc_getSubService p) (getApplicationData p) (getApplicationDataSize p) (ciState (slot_info cs0 i))
                 (ciObjectId (slot_info cs0 i)) (failureParameter1 cs0, failureParameter2 cs0) (child cs0) of
            (result, command, state, (fp1, fp2), c) \<Rightarrow>
              let cs1 = (slot_update i (\<lambda>info. info\<lparr>ciState := state\<rparr>) cs0)\<lparr>failureParameter1 := fp1, failureParameter2 := fp2, child := c\<rparr> in
              if result = RETURN_OK then
                (case send_command sys cs1 (slot_key cs1 i) command w of
                   (sendResult, command', w1) \<Rightarrow>
                     if sendResult = RETURN_OK then
                       (case getUptime h (child cs1) of
                          (uptime, c') \<Rightarrow>
                            map_option (Pair True)
                              (acceptPacket sys receiver START_SUCCESS sp
                                 ((slot_update i (started_info sys p command' uptime) cs1)\<lparr>child := c'\<rparr>) w1))
                     else map_option (Pair False)
                            (rejectPacket sys receiver START_FAILURE sp sendResult (cs1\<lparr>child := clearCommand h command' (child cs1)\<rparr>) w1))
              else if result = EXECUTION_COMPLETE then
                (case send_command sys cs1 (slot_key cs1 i) command w of
                   (sendResult, command', w1) \<Rightarrow>
                     if sendResult = RETURN_OK then
                       (case sendSuccessReport_packet sys receiver (csVerify cs1) (queues w1) START_SUCCESS p 0 of
                          (vq, qm) \<Rightarrow> map_option (Pair False)
                             (acceptPacket sys receiver COMPLETION_SUCCESS sp (cs1\<lparr>csVerify := vq\<rparr>) (set_queues qm w1)))
                     else map_option (Pair False)
                            (rejectPacket sys receiver START_FAILURE sp sendResult (cs1\<lparr>child := clearCommand h command' (child cs1)\<rparr>) w1))
              else map_option (Pair False) (rejectPacket sys receiver START_FAILURE sp result cs1 w)))"

text \<open>The slots but one are unchanged, and the FIFO of that one.\<close>

definition same_slots :: "nat \<Rightarrow> 'c commanding_service \<Rightarrow> 'c commanding_service \<Rightarrow> bool" where
  "same_slots i cs cs' \<longleftrightarrow> ciFifo (slot_info cs' i) = ciFifo (slot_info cs i)
     \<and> length (fm_map (commandMap cs')) = length (fm_map (commandMap cs)) \<and> fm_size (commandMap cs') = fm_size (commandMap cs)
     \<and> (\<forall>j. slot_key cs' j = slot_key cs j) \<and> (\<forall>j. j \<noteq> i \<longrightarrow> slot_info cs' j = slot_info cs j)"

lemma same_slots_simps:
  "same_slots i cs (cs'\<lparr>csVerify := v\<rparr>) = same_slots i cs cs'" "same_slots i cs (cs'\<lparr>child := c\<rparr>) = same_slots i cs cs'"
  "same_slots i cs (cs'\<lparr>failureParameter1 := x\<rparr>) = same_slots i cs cs'" "same_slots i cs (cs'\<lparr>failureParameter2 := x\<rparr>) = same_slots i cs cs'"
  "same_slots i cs cs"
  by (simp_all add: same_slots_def slot_info_def slot_key_def)

lemma same_slots_update:
  "same_slots i cs cs' \<Longrightarrow> (\<And>x. ciFifo (f x) = ciFifo x) \<Longrightarrow> same_slots i cs (slot_update i f cs')"
  by (cases "i < length (fm_map (commandMap cs'))") (auto simp: same_slots_def, auto simp: slot_update_def slot_info_def list_update_beyond)

lemma same_slots_report:
  "rejectPacket sys receiver r sp e cs1 w = Some (cs', w') \<Longrightarrow> same_slots i cs cs1 \<Longrightarrow> same_slots i cs cs'"
  "acceptPacket sys receiver r sp cs1 w = Some (cs', w') \<Longrightarrow> same_slots i cs cs1 \<Longrightarrow> same_slots i cs cs'"
  by (drule packet_report_keeps, metis same_slots_simps(1))+

lemma start_command_keeps:
  assumes "start_command sys receiver h i sp cs w = Some (b, cs', w')" shows "same_slots i cs cs'"
  using assms
  by (auto simp: start_command_def Let_def same_slots_simps same_slots_update started_info_def
      split: prod.splits if_splits bind_splits elim!: same_slots_report)

text \<open>
  The mutual recursion ends because each round takes an address from the FIFO. \<open>checkAndExecuteFifo\<close> also
  gives the iterator, which moves back when the slot is erased; \<open>startExecution\<close> has a copy of it.
\<close>

function (sequential)
  startExecution :: "byte_order \<Rightarrow> u32 option \<Rightarrow> 'c command_hooks \<Rightarrow> stored_packet \<Rightarrow> nat \<Rightarrow> 'c commanding_service \<Rightarrow> tmtc_world
     \<Rightarrow> ('c commanding_service \<times> tmtc_world) option"
  and checkAndExecuteFifo :: "byte_order \<Rightarrow> u32 option \<Rightarrow> 'c command_hooks \<Rightarrow> nat \<Rightarrow> 'c commanding_service \<Rightarrow> tmtc_world
     \<Rightarrow> (int \<times> 'c commanding_service \<times> tmtc_world) option" where
  "startExecution sys receiver h sp i cs w =
     (case start_command sys receiver h i sp cs w of
        None \<Rightarrow> None
      | Some (running, cs1, w1) \<Rightarrow>
          if running then Some (cs1, w1) else map_option snd (checkAndExecuteFifo sys receiver h i cs1 w1))"
| "checkAndExecuteFifo sys receiver h i cs w =
     (if length (fm_map (commandMap cs)) \<le> i then None
      else (case FIFO_retrieve (ciFifo (slot_info cs i)) True of
         (result, v, fifo) \<Rightarrow>
           if result \<noteq> RETURN_OK then
             (case FixedMap_erase_iter (commandMap cs) i of (_, iter, m) \<Rightarrow> Some (iter, cs\<lparr>commandMap := m\<rparr>, w))
           else
             (case startExecution sys receiver h (setStoreAddress (tcStore (tcSide w)) (the v)) i
                     (slot_update i (\<lambda>info. info\<lparr>ciFifo := fifo\<rparr>) cs) w of
                None \<Rightarrow> None
              | Some (cs', w') \<Rightarrow> Some (int i, cs', w'))))"
  by pat_completeness auto

termination
proof (relation "measure (\<lambda>x. case x of
      Inl (sys, receiver, h, sp, i, cs, w) \<Rightarrow> 2 * currentSize (ciFifo (slot_info cs i)) + 1
    | Inr (sys, receiver, h, i, cs, w) \<Rightarrow> 2 * currentSize (ciFifo (slot_info cs i)))")
qed (auto simp: same_slots_def dest!: start_command_keeps simp: FIFO_retrieve_def FIFO_empty_def split: if_splits)

declare startExecution.simps [simp del] checkAndExecuteFifo.simps [simp del]

subsection \<open>Requests\<close>

definition cs_request ::
  "byte_order \<Rightarrow> u32 option \<Rightarrow> 'c command_hooks \<Rightarrow> command_info \<Rightarrow> store_address \<Rightarrow> 'c commanding_service \<Rightarrow> tmtc_world
     \<Rightarrow> ('c commanding_service \<times> tmtc_world) option" where
  "cs_request sys receiver h raw address cs w =
     (let sp = setStoreAddress (tcStore (tcSide w)) address in
      Option.bind (packet_ptr sp) (\<lambda>ptr.
        let p = pool_mem (tcStore (tcSide w)) ptr in
        if length p < TC_APP_DATA then None
        else if tc_getSubService p = 0 \<or> isValidSubservice h (tc_getSubService p) \<noteq> RETURN_OK
        then rejectPacket sys receiver START_FAILURE sp INVALID_SUBSERVICE cs w
        else
          (case getMessageQueueAndObject h (tc_getSubService p) (getApplicationData p) (getApplicationDataSize p) (child cs) of
             (result, queue, objectId, c) \<Rightarrow>
               let cs0 = cs\<lparr>child := c\<rparr> in
               if result \<noteq> RETURN_OK then rejectPacket sys receiver START_FAILURE sp result cs0 w
               else
                 let iter = FixedMap_find_iter (commandMap cs0) queue in
                 if iter \<noteq> fm_size (commandMap cs0) then
                   (case FIFO_insert (ciFifo (slot_info cs0 iter)) address of
                      (result, fifo) \<Rightarrow>
                        let cs1 = slot_update iter (\<lambda>info. info\<lparr>ciFifo := fifo\<rparr>) cs0 in
                        if result \<noteq> RETURN_OK then rejectPacket sys receiver START_FAILURE sp OBJECT_BUSY cs1 w
                        else Some (cs1, w))
                 else
                   (case FixedMap_insert (commandMap cs0) queue (newCommandInfo raw objectId) of
                      (result, it, m) \<Rightarrow>
                        let cs1 = cs0\<lparr>commandMap := m\<rparr> in
                        if result \<noteq> RETURN_OK then rejectPacket sys receiver START_FAILURE sp BUSY cs1 w
                        else startExecution sys receiver h sp (the it) cs1 w))))"

text \<open>\<open>handleRequestQueue\<close>; \<open>raw\<close> is the stack memory of \<open>newInfo\<close>.\<close>

partial_function (option) cs_request_loop ::
  "byte_order \<Rightarrow> u32 option \<Rightarrow> 'c command_hooks \<Rightarrow> command_info \<Rightarrow> mq_message \<Rightarrow> 'c commanding_service \<Rightarrow> tmtc_world
     \<Rightarrow> ('c commanding_service \<times> tmtc_world) option" where
  "cs_request_loop sys receiver h raw message cs w =
     Option.bind (queue_receive sys (queues w) (requestQueue cs) message) (\<lambda>(result, qm, m).
       if result \<noteq> RETURN_OK then Some (cs, set_queues qm w)
       else Option.bind (cs_request sys receiver h raw (getStorageId sys m) cs (set_queues qm w)) (\<lambda>(cs', w').
              cs_request_loop sys receiver h raw m cs' w'))"

definition cs_handleRequestQueue ::
  "byte_order \<Rightarrow> u32 option \<Rightarrow> 'c command_hooks \<Rightarrow> command_info \<Rightarrow> 'c commanding_service \<Rightarrow> tmtc_world
     \<Rightarrow> ('c commanding_service \<times> tmtc_world) option" where
  "cs_handleRequestQueue sys receiver h raw cs w =
     cs_request_loop sys receiver h raw (newMessage\<lparr>messageSize := MQ_HEADER_SIZE + 4\<rparr>) cs w"

subsection \<open>Replies\<close>

text \<open>
  A failure of a step or of the command is reported with the failure parameters, which are reset; then the
  slot is free for the next command.
\<close>

definition report_failure ::
  "byte_order \<Rightarrow> u32 option \<Rightarrow> 'c command_hooks \<Rightarrow> nat \<Rightarrow> bool \<Rightarrow> u16 \<Rightarrow> 'c commanding_service \<Rightarrow> tmtc_world
     \<Rightarrow> ('c commanding_service \<times> tmtc_world) option" where
  "report_failure sys receiver h iter isStep code cs w =
     (let cs1 = (if isStep then slot_update iter (\<lambda>info. info\<lparr>ciStep := ciStep info + 1\<rparr>) cs else cs);
          (cs2, w2) = slot_report sys receiver (if isStep then PROGRESS_FAILURE else COMPLETION_FAILURE) (slot_info cs1 iter) code
                        (if isStep then ciStep (slot_info cs1 iter) else 0) (failureParameter1 cs1) (failureParameter2 cs1) cs1 w
      in map_option snd (checkAndExecuteFifo sys receiver h iter (cs2\<lparr>failureParameter1 := 0, failureParameter2 := 0\<rparr>) w2))"

definition handleReplyHandlerResult ::
  "byte_order \<Rightarrow> u32 option \<Rightarrow> 'c command_hooks \<Rightarrow> u16 \<Rightarrow> nat \<Rightarrow> mq_message \<Rightarrow> mq_message \<Rightarrow> bool
     \<Rightarrow> 'c commanding_service \<Rightarrow> tmtc_world \<Rightarrow> ('c commanding_service \<times> tmtc_world) option" where
  "handleReplyHandlerResult sys receiver h result iter nextCommand reply isStep cs w =
     (let cs1 = slot_update iter (\<lambda>info. info\<lparr>ciCommand := getCommand sys nextCommand\<rparr>) cs in
      case send_command sys cs1 (getSender sys reply) nextCommand w of
        (sendResult, nextCommand', w1) \<Rightarrow>
          if sendResult = RETURN_OK then
            (if isStep \<and> result \<noteq> NO_STEP_MESSAGE then
               let cs2 = slot_update iter (\<lambda>info. info\<lparr>ciStep := ciStep info + 1\<rparr>) cs1
               in Some (slot_success sys receiver PROGRESS_SUCCESS (slot_info cs2 iter) (ciStep (slot_info cs2 iter)) cs2 w1)
             else
               (case slot_success sys receiver COMPLETION_SUCCESS (slot_info cs1 iter) 0 cs1 w1 of
                  (cs2, w2) \<Rightarrow> map_option snd (checkAndExecuteFifo sys receiver h iter cs2 w2)))
          else report_failure sys receiver h iter isStep sendResult (cs1\<lparr>child := clearCommand h nextCommand' (child cs1)\<rparr>) w1)"

definition handleCommandMessage ::
  "byte_order \<Rightarrow> u32 option \<Rightarrow> 'c command_hooks \<Rightarrow> mq_message \<Rightarrow> 'c commanding_service \<Rightarrow> tmtc_world
     \<Rightarrow> ('c commanding_service \<times> tmtc_world) option" where
  "handleCommandMessage sys receiver h reply cs w =
     (let iter = FixedMap_find_iter (commandMap cs) (getSender sys reply); info = slot_info cs iter in
      if getSender sys reply = NO_QUEUE \<or> iter = fm_size (commandMap cs)
      then Some (cs\<lparr>child := handleUnrequestedReply h reply (child cs)\<rparr>, w)
      else
        (case handleReply h reply (ciCommand info) (ciState info) (setCommand sys (newCommandMessage sys) CMD_NONE) (ciObjectId info)
                (failureParameter1 cs, failureParameter2 cs) (child cs) of
           (result0, nextCommand, state, isStep, (fp1, fp2), c) \<Rightarrow>
             let rejected = (getCommand sys reply = REPLY_REJECTED \<and> (result0 = RETURN_FAILED \<or> result0 = INVALID_REPLY));
                 result = (if rejected then fst (getReplyRejectedReason sys reply) else result0);
                 cs1 = (slot_update iter (\<lambda>info. info\<lparr>ciState := state\<rparr>) cs)
                         \<lparr>failureParameter1 := (if rejected then ucast (ciCommand info) else fp1), failureParameter2 := fp2, child := c\<rparr>
             in if result = EXECUTION_COMPLETE \<or> result = RETURN_OK \<or> result = NO_STEP_MESSAGE
                then handleReplyHandlerResult sys receiver h result iter nextCommand reply isStep cs1 w
                else if result = INVALID_REPLY then Some (cs1\<lparr>child := handleUnrequestedReply h reply (child cs1)\<rparr>, w)
                else report_failure sys receiver h iter isStep result cs1 w))"

partial_function (option) handleCommandQueue_loop ::
  "byte_order \<Rightarrow> u32 option \<Rightarrow> 'c command_hooks \<Rightarrow> mq_message \<Rightarrow> 'c commanding_service \<Rightarrow> tmtc_world
     \<Rightarrow> ('c commanding_service \<times> tmtc_world) option" where
  "handleCommandQueue_loop sys receiver h reply cs w =
     Option.bind (queue_receive sys (queues w) (commandQueue cs) reply) (\<lambda>(result, qm, m).
       if result \<noteq> RETURN_OK then Some (cs, set_queues qm w)
       else Option.bind (handleCommandMessage sys receiver h m cs (set_queues qm w)) (\<lambda>(cs', w').
              handleCommandQueue_loop sys receiver h m cs' w'))"

definition handleCommandQueue ::
  "byte_order \<Rightarrow> u32 option \<Rightarrow> 'c command_hooks \<Rightarrow> 'c commanding_service \<Rightarrow> tmtc_world
     \<Rightarrow> ('c commanding_service \<times> tmtc_world) option" where
  "handleCommandQueue sys receiver h cs w = handleCommandQueue_loop sys receiver h (newCommandMessage sys) cs w"

subsection \<open>Timeouts\<close>

definition timed_out :: "'c commanding_service \<Rightarrow> u32 \<Rightarrow> command_info \<Rightarrow> bool" where
  "timed_out cs uptime info \<longleftrightarrow> uptimeOfStart info + ucast (timeoutSeconds cs) * 1000 < uptime"

text \<open>The loop compares with the end of the map by equality; behind the array there is nothing to read.\<close>

partial_function (option) checkTimeout_loop ::
  "byte_order \<Rightarrow> u32 option \<Rightarrow> 'c command_hooks \<Rightarrow> u32 \<Rightarrow> nat \<Rightarrow> 'c commanding_service \<Rightarrow> tmtc_world
     \<Rightarrow> ('c commanding_service \<times> tmtc_world) option" where
  "checkTimeout_loop sys receiver h uptime i cs w =
     (if i = fm_size (commandMap cs) then Some (cs, w)
      else if length (fm_map (commandMap cs)) \<le> i then None
      else if timed_out cs uptime (slot_info cs i) then
        (case slot_report sys receiver COMPLETION_FAILURE (slot_info cs i) TIMEOUT 0 0 0 cs w of
           (cs1, w1) \<Rightarrow> Option.bind (checkAndExecuteFifo sys receiver h i cs1 w1) (\<lambda>(iter, cs2, w2).
              checkTimeout_loop sys receiver h uptime (nat (iter + 1)) cs2 w2))
      else checkTimeout_loop sys receiver h uptime (Suc i) cs w)"

definition checkTimeout ::
  "byte_order \<Rightarrow> u32 option \<Rightarrow> 'c command_hooks \<Rightarrow> 'c commanding_service \<Rightarrow> tmtc_world \<Rightarrow> ('c commanding_service \<times> tmtc_world) option" where
  "checkTimeout sys receiver h cs w =
     (case getUptime h (child cs) of (uptime, c) \<Rightarrow> checkTimeout_loop sys receiver h uptime 0 (cs\<lparr>child := c\<rparr>) w)"

definition cs_performOperation ::
  "byte_order \<Rightarrow> u32 option \<Rightarrow> 'c command_hooks \<Rightarrow> command_info \<Rightarrow> 'c commanding_service \<Rightarrow> tmtc_world
     \<Rightarrow> (u16 \<times> 'c commanding_service \<times> tmtc_world) option" where
  "cs_performOperation sys receiver h raw cs w =
     Option.bind (handleCommandQueue sys receiver h cs w) (\<lambda>(cs1, w1).
     Option.bind (cs_handleRequestQueue sys receiver h raw cs1 w1) (\<lambda>(cs2, w2).
     map_option (\<lambda>(cs3, w3). (RETURN_OK, cs3\<lparr>child := doPeriodicOperation h (child cs3)\<rparr>, w3)) (checkTimeout sys receiver h cs2 w2)))"

subsection \<open>Telemetry\<close>

definition cs_sendTm :: "byte_order \<Rightarrow> stored_packet \<times> local_pool \<times> nat \<Rightarrow> 'c commanding_service \<Rightarrow> tmtc_world
     \<Rightarrow> (u16 \<times> 'c commanding_service \<times> tmtc_world) option" where
  "cs_sendTm sys built cs w =
     (case built of (sp, lp, lost) \<Rightarrow>
        map_option (\<lambda>(result, w'). (result, if result = RETURN_OK then cs\<lparr>tmPacketCounter := tmPacketCounter cs + 1\<rparr> else cs, w'))
          (tm_sendPacket sys (queue_default (queues w) (requestQueue cs)) (requestQueue cs) (w\<lparr>tmStore := lp, lostTm := lost\<rparr>) sp))"

definition sendTmPacket ::
  "byte_order \<Rightarrow> (bytes \<Rightarrow> bytes) option \<Rightarrow> u8 \<Rightarrow> bytes \<Rightarrow> bytes \<Rightarrow> 'c commanding_service \<Rightarrow> tmtc_world
     \<Rightarrow> (u16 \<times> 'c commanding_service \<times> tmtc_world) option" where
  "sendTmPacket sys timeStamper subservice data headerData cs w =
     cs_sendTm sys (newTmPacketStored timeStamper (tmStore w) (lostTm w) (csApid cs) (csService cs) subservice data headerData) cs w"

definition sendTmPacket_object ::
  "byte_order \<Rightarrow> (bytes \<Rightarrow> bytes) option \<Rightarrow> u8 \<Rightarrow> u32 \<Rightarrow> bytes \<Rightarrow> 'c commanding_service \<Rightarrow> tmtc_world
     \<Rightarrow> (u16 \<times> 'c commanding_service \<times> tmtc_world) option" where
  "sendTmPacket_object sys timeStamper subservice objectId data cs w =
     sendTmPacket sys timeStamper subservice data (obytes (snd (SA_serialize_word sys objectId report_start 4 BIG))) cs w"

definition sendTmPacket_content ::
  "byte_order \<Rightarrow> (bytes \<Rightarrow> bytes) option \<Rightarrow> u8 \<Rightarrow> bytes option \<Rightarrow> bytes option \<Rightarrow> 'c commanding_service \<Rightarrow> tmtc_world
     \<Rightarrow> (u16 \<times> 'c commanding_service \<times> tmtc_world) option" where
  "sendTmPacket_content sys timeStamper subservice content header cs w =
     Option.bind (newTmPacketStored_serialize timeStamper (tmStore w) (lostTm w) (csApid cs) (csService cs) subservice content header)
       (\<lambda>built. cs_sendTm sys built cs w)"

end
