(* ===== verification/CommandingSlots.thy ===== *)
theory CommandingSlots
  imports CommandingService
begin

text \<open>
  What \<open>CommandingServiceBase\<close> does with the commands: every request is started, refused or queued behind the
  command of its object, with a report for each that leaves the store; a completed command makes room for
  the next one; timed out commands are reported and removed, and when the loop over the slots leaves the map.
\<close>

subsection \<open>Reports and packets\<close>

definition packet_success :: "byte_order \<Rightarrow> u8 \<Rightarrow> bytes \<Rightarrow> mq_message" where
  "packet_success sys r p = newPusVerificationMessage sys r (getAcknowledgeFlags p) (getPacketId p) (getPacketSequenceControl p) 0 0 0 0"

definition packet_failure :: "byte_order \<Rightarrow> u8 \<Rightarrow> bytes \<Rightarrow> u16 \<Rightarrow> mq_message" where
  "packet_failure sys r p code = newPusVerificationMessage sys r (getAcknowledgeFlags p) (getPacketId p) (getPacketSequenceControl p) code 0 0 0"

text \<open>
  From \<open>w\<close> to \<open>w'\<close> the packet at \<open>a\<close> was deleted, \<open>rs\<close> was reported to \<open>vq\<close>, and besides only the queue \<open>dest\<close>
  may have got messages.
\<close>

definition told :: "u32 \<Rightarrow> tmtc_world \<Rightarrow> tmtc_world \<Rightarrow> store_address \<Rightarrow> u32 \<Rightarrow> mq_message list \<Rightarrow> bool" where
  "told dest w w' a vq rs \<longleftrightarrow> tmStore w' = tmStore w \<and> pool_ok (tcStore (tcSide w')) \<and> queues_ok (queues w')
     \<and> pool_abs (tcStore (tcSide w')) = (pool_abs (tcStore (tcSide w)))(a := None)
     \<and> (\<forall>q. q \<noteq> vq \<longrightarrow> q \<noteq> dest \<longrightarrow> queueMap (queues w') q = queueMap (queues w) q)
     \<and> (\<forall>n. queue_room (queues w) vq (length rs + n) \<longrightarrow> queue_room (queues w') vq n
          \<and> queue_content (queues w') vq = queue_content (queues w) vq @ rs)"

lemma report_sent:
  assumes qs: "queues_ok qm" and m: "message_ok m" and s: "reporter_send sys receiver ack qm m = (v, qm')"
    and vq: "vq = report_queue receiver ack"
  shows "v = vq" "queues_ok qm'" "\<forall>q. q \<noteq> vq \<longrightarrow> queueMap qm' q = queueMap qm q"
    "\<forall>n. queue_room qm vq (Suc n) \<longrightarrow> queue_room qm' vq n \<and> queue_content qm' vq = queue_content qm vq @ [m]"
proof -
  note r = reporter_send_spec[OF qs m s]
  show v: "v = vq" "queues_ok qm'" using r(1,2) vq by simp_all
  note f = reporter_send_frame[OF s, unfolded v(1)]
  show "\<forall>q. q \<noteq> vq \<longrightarrow> queueMap qm' q = queueMap qm q" using f(1) by blast
  obtain sent where "queue_content qm' = (\<lambda>q. queue_content qm q @ (if q = vq \<and> sent then [m] else []))" "has_room qm vq \<longrightarrow> sent"
    using r(4) unfolding v(1) by blast
  then show "\<forall>n. queue_room qm vq (Suc n) \<longrightarrow> queue_room qm' vq n \<and> queue_content qm' vq = queue_content qm vq @ [m]"
    using f(3) queue_room_has by auto
qed

lemma message_ok_packet: "message_ok (packet_success sys r p)" "message_ok (packet_failure sys r p code)"
  by (simp_all add: packet_success_def packet_failure_def message_ok_verification)

text \<open>Packets are read through the store.\<close>

definition cs_readable :: "tmtc_world \<Rightarrow> store_address \<Rightarrow> bytes \<Rightarrow> bool" where
  "cs_readable w a p \<longleftrightarrow> pool_ok (tcStore (tcSide w)) \<and> queues_ok (queues w) \<and> pool_abs (tcStore (tcSide w)) a = Some p \<and> 10 \<le> length p"

lemma cs_readable_memory:
  assumes "cs_readable w a p"
  shows "\<exists>ptr. setStoreAddress (tcStore (tcSide w)) a = \<lparr>storeAddress = a, packet_ptr = Some ptr\<rparr>
     \<and> 10 \<le> length (pool_mem (tcStore (tcSide w)) ptr)
     \<and> getAcknowledgeFlags (pool_mem (tcStore (tcSide w)) ptr) = getAcknowledgeFlags p
     \<and> getPacketId (pool_mem (tcStore (tcSide w)) ptr) = getPacketId p
     \<and> getPacketSequenceControl (pool_mem (tcStore (tcSide w)) ptr) = getPacketSequenceControl p
     \<and> tc_getSubService (pool_mem (tcStore (tcSide w)) ptr) = tc_getSubService p"
proof -
  have a: "pool_inv (tcStore (tcSide w))" "pool_abs (tcStore (tcSide w)) a = Some p" "10 \<le> length p"
    using assms by (simp_all add: cs_readable_def pool_ok_def)
  obtain ptr where m: "take (length p) (pool_mem (tcStore (tcSide w)) ptr) = p" "length p \<le> length (pool_mem (tcStore (tcSide w)) ptr)"
      "setStoreAddress (tcStore (tcSide w)) a = \<lparr>storeAddress = a, packet_ptr = Some ptr\<rparr>"
    using pool_abs_modify[OF a(1,2)] by blast
  have l8: "8 \<le> length p" using a(3) by linarith
  have "pool_mem (tcStore (tcSide w)) ptr ! 8 = take (length p) (pool_mem (tcStore (tcSide w)) ptr) ! 8" using a(3) by simp
  then have "tc_getSubService (pool_mem (tcStore (tcSide w)) ptr) = tc_getSubService p"
    unfolding m(1) by (simp add: layout)
  moreover have "10 \<le> length (pool_mem (tcStore (tcSide w)) ptr)" using a(3) m(2) by linarith
  ultimately show ?thesis using m(3) memory_fields(9-11)[OF m(1) l8] by (intro exI[of _ ptr]) simp
qed

lemma packet_settled:
  assumes r: "cs_readable w a p" and vq: "vq = report_queue receiver (csVerify cs)" and sp: "sp = setStoreAddress (tcStore (tcSide w)) a"
  shows "\<exists>w'. rejectPacket sys receiver rid sp code cs w = Some (cs\<lparr>csVerify := vq\<rparr>, w') \<and> told dest w w' a vq [packet_failure sys rid p code]"
    and "\<exists>w'. acceptPacket sys receiver rid sp cs w = Some (cs\<lparr>csVerify := vq\<rparr>, w') \<and> told dest w w' a vq [packet_success sys rid p]"
proof -
  have pok: "pool_ok (tcStore (tcSide w))" and qs: "queues_ok (queues w)" and abs: "pool_abs (tcStore (tcSide w)) a = Some p"
    using r by (simp_all add: cs_readable_def)
  obtain ptr where m: "setStoreAddress (tcStore (tcSide w)) a = \<lparr>storeAddress = a, packet_ptr = Some ptr\<rparr>"
     "10 \<le> length (pool_mem (tcStore (tcSide w)) ptr)"
     "getAcknowledgeFlags (pool_mem (tcStore (tcSide w)) ptr) = getAcknowledgeFlags p"
     "getPacketId (pool_mem (tcStore (tcSide w)) ptr) = getPacketId p"
     "getPacketSequenceControl (pool_mem (tcStore (tcSide w)) ptr) = getPacketSequenceControl p"
    using cs_readable_memory[OF r] by blast
  have l7: "\<not> length (pool_mem (tcStore (tcSide w)) ptr) < 7" using m(2) by linarith
  obtain lp where del: "deleteData (tcStore (tcSide w)) a = Some (RETURN_OK, lp)" "pool_ok lp"
      "pool_abs lp = (pool_abs (tcStore (tcSide w)))(a := None)"
    using pool_ok_delete[OF pok] abs by blast
  have t: "told dest w (w\<lparr>tcSide := \<lparr>tcStore = lp, tcQueues = qm\<rparr>\<rparr>) a vq [M]"
    if "reporter_send sys receiver (csVerify cs) (queues w) M = (v, qm)" "message_ok M" for M v qm
    using report_sent[OF qs that(2,1) vq] del(2,3) by (simp add: told_def)
  show "\<exists>w'. rejectPacket sys receiver rid sp code cs w = Some (cs\<lparr>csVerify := vq\<rparr>, w') \<and> told dest w w' a vq [packet_failure sys rid p code]"
  proof -
    obtain v qm where s: "reporter_send sys receiver (csVerify cs) (queues w) (packet_failure sys rid p code) = (v, qm)"
      by (cases "reporter_send sys receiver (csVerify cs) (queues w) (packet_failure sys rid p code)") auto
    have "v = vq" using report_sent(1)[OF qs message_ok_packet(2) s vq] .
    then have "rejectPacket sys receiver rid sp code cs w = Some (cs\<lparr>csVerify := vq\<rparr>, w\<lparr>tcSide := \<lparr>tcStore = lp, tcQueues = qm\<rparr>\<rparr>)"
      using s l7 del(1) by (simp add: rejectPacket_def sp m sendFailureReport_packet_def packet_failure_def deletePacket_def Let_def)
    then show ?thesis using t[OF s message_ok_packet(2)] by blast
  qed
  show "\<exists>w'. acceptPacket sys receiver rid sp cs w = Some (cs\<lparr>csVerify := vq\<rparr>, w') \<and> told dest w w' a vq [packet_success sys rid p]"
  proof -
    obtain v qm where s: "reporter_send sys receiver (csVerify cs) (queues w) (packet_success sys rid p) = (v, qm)"
      by (cases "reporter_send sys receiver (csVerify cs) (queues w) (packet_success sys rid p)") auto
    have "v = vq" using report_sent(1)[OF qs message_ok_packet(1) s vq] .
    then have "acceptPacket sys receiver rid sp cs w = Some (cs\<lparr>csVerify := vq\<rparr>, w\<lparr>tcSide := \<lparr>tcStore = lp, tcQueues = qm\<rparr>\<rparr>)"
      using s l7 del(1) by (simp add: acceptPacket_def sp m sendSuccessReport_packet_def packet_success_def deletePacket_def Let_def)
    then show ?thesis using t[OF s message_ok_packet(1)] by blast
  qed
qed

subsection \<open>Starting\<close>

text \<open>The messages that the child class prepares are messages.\<close>

definition hooks_ok :: "'c command_hooks \<Rightarrow> bool" where
  "hooks_ok h \<longleftrightarrow> (\<forall>sub d n st ob fp c. message_ok (fst (snd (prepareCommand h sub d n st ob fp c))))
     \<and> (\<forall>m c st nx ob fp e. message_ok nx \<longrightarrow> message_ok (fst (snd (handleReply h m c st nx ob fp e))))"

definition start_reports :: "byte_order \<Rightarrow> bytes \<Rightarrow> bool \<Rightarrow> mq_message list \<Rightarrow> bool" where
  "start_reports sys p running rs \<longleftrightarrow>
     (if running then rs = [packet_success sys START_SUCCESS p]
      else (\<exists>code. code \<noteq> RETURN_OK \<and> rs = [packet_failure sys START_FAILURE p code])
        \<or> rs = [packet_success sys START_SUCCESS p, packet_success sys COMPLETION_SUCCESS p])"

lemma send_command_spec:
  assumes "queues_ok (queues w)" "message_ok command" "send_command sys cs dest command w = (r, command', w')"
  shows "queues_ok (queues w')" "tmStore w' = tmStore w" "tcStore (tcSide w') = tcStore (tcSide w)"
    "\<forall>q. q \<noteq> dest \<longrightarrow> queueMap (queues w') q = queueMap (queues w) q"
  using assms send_spec[OF assms(1,2)] by (auto simp: send_command_def split: if_splits prod.splits)

lemma told_after:
  assumes "told dest w1 w2 a vq rs" "tmStore w1 = tmStore w" "tcStore (tcSide w1) = tcStore (tcSide w)" "dest \<noteq> vq"
    "\<forall>q. q \<noteq> dest \<longrightarrow> queueMap (queues w1) q = queueMap (queues w) q"
  shows "told dest w w2 a vq rs"
proof -
  have "queueMap (queues w1) vq = queueMap (queues w) vq" using assms(4,5) by auto
  then show ?thesis using assms by (simp add: told_def queue_room_def queue_content_def)
qed

lemma start_command_spec:
  assumes r: "cs_readable w a p" and h: "hooks_ok h" and vq: "vq = report_queue receiver (csVerify cs)"
    and i: "i < length (fm_map (commandMap cs))" and ne: "slot_key cs i \<noteq> vq"
  shows "\<exists>b cs' w' rs. start_command sys receiver h i (setStoreAddress (tcStore (tcSide w)) a) cs w = Some (b, cs', w')
     \<and> told (slot_key cs i) w w' a vq rs \<and> start_reports sys p b rs \<and> report_queue receiver (csVerify cs') = vq
     \<and> same_slots i cs cs'"
proof -
  let ?sp = "setStoreAddress (tcStore (tcSide w)) a" and ?d = "slot_key cs i"
  have qs: "queues_ok (queues w)" using r by (simp add: cs_readable_def)
  obtain ptr where m: "?sp = \<lparr>storeAddress = a, packet_ptr = Some ptr\<rparr>"
     "10 \<le> length (pool_mem (tcStore (tcSide w)) ptr)"
     "getAcknowledgeFlags (pool_mem (tcStore (tcSide w)) ptr) = getAcknowledgeFlags p"
     "getPacketId (pool_mem (tcStore (tcSide w)) ptr) = getPacketId p"
     "getPacketSequenceControl (pool_mem (tcStore (tcSide w)) ptr) = getPacketSequenceControl p"
    using cs_readable_memory[OF r] by blast
  let ?p = "pool_mem (tcStore (tcSide w)) ptr"
  let ?cs0 = "slot_update i (\<lambda>info. info\<lparr>ciSubservice := tc_getSubService ?p\<rparr>) cs"
  obtain result command state fp1 fp2 c where pc: "prepareCommand h (tc_getSubService ?p) (getApplicationData ?p) (getApplicationDataSize ?p)
      (ciState (slot_info ?cs0 i)) (ciObjectId (slot_info ?cs0 i)) (failureParameter1 ?cs0, failureParameter2 ?cs0) (child ?cs0)
      = (result, command, state, (fp1, fp2), c)"
    by (cases "prepareCommand h (tc_getSubService ?p) (getApplicationData ?p) (getApplicationDataSize ?p)
      (ciState (slot_info ?cs0 i)) (ciObjectId (slot_info ?cs0 i)) (failureParameter1 ?cs0, failureParameter2 ?cs0) (child ?cs0)") auto
  have mok: "message_ok command" using h pc unfolding hooks_ok_def by (metis fst_conv snd_conv)
  let ?cs1 = "(slot_update i (\<lambda>info. info\<lparr>ciState := state\<rparr>) ?cs0)\<lparr>failureParameter1 := fp1, failureParameter2 := fp2, child := c\<rparr>"
  have k1: "slot_key ?cs1 i = ?d" and v1: "csVerify ?cs1 = csVerify cs" by simp_all
  obtain sr command' w1 where s: "send_command sys ?cs1 ?d command w = (sr, command', w1)"
    by (cases "send_command sys ?cs1 ?d command w") auto
  note ss = send_command_spec[OF qs mok s]
  have sp1: "?sp = setStoreAddress (tcStore (tcSide w1)) a" using ss(3) by simp
  have r1: "cs_readable w1 a p" using r ss by (simp add: cs_readable_def)
  have after: "told ?d w1 w2 a vq rs \<Longrightarrow> told ?d w w2 a vq rs" for w2 rs
    using told_after[OF _ ss(2,3) ne ss(4)] .
  have l: "\<not> length ?p < TC_APP_DATA" using m(2) by (simp add: pus_sizes)
  let ?refuse = "\<lambda>code cs2 w2. map_option (Pair False) (rejectPacket sys receiver START_FAILURE ?sp code cs2 w2)"
  have eq: "start_command sys receiver h i ?sp cs w =
    (if result = RETURN_OK then
       (if sr = RETURN_OK then
          (case getUptime h (child ?cs1) of (u, c') \<Rightarrow> map_option (Pair True)
             (acceptPacket sys receiver START_SUCCESS ?sp ((slot_update i (started_info sys ?p command' u) ?cs1)\<lparr>child := c'\<rparr>) w1))
        else ?refuse sr (?cs1\<lparr>child := clearCommand h command' (child ?cs1)\<rparr>) w1)
     else if result = EXECUTION_COMPLETE then
       (if sr = RETURN_OK then
          (case sendSuccessReport_packet sys receiver (csVerify ?cs1) (queues w1) START_SUCCESS ?p 0 of
             (v, qm) \<Rightarrow> map_option (Pair False) (acceptPacket sys receiver COMPLETION_SUCCESS ?sp (?cs1\<lparr>csVerify := v\<rparr>) (set_queues qm w1)))
        else ?refuse sr (?cs1\<lparr>child := clearCommand h command' (child ?cs1)\<rparr>) w1)
     else ?refuse result ?cs1 w)"
    unfolding start_command_def m(1) using l by (simp only: pc s k1 Let_def Option.bind.bind_lunit prod.case stored_packet.simps if_False)
  have finish: ?thesis if call: "start_command sys receiver h i ?sp cs w = Some (b, cs', w')" and t: "told ?d w w' a vq rs"
      and st: "start_reports sys p b rs" and v: "csVerify cs' = vq" for b cs' w' rs
  proof -
    have "report_queue receiver (csVerify cs') = vq" unfolding v vq by simp
    then show ?thesis using call t st start_command_keeps[OF call] by blast
  qed
  have refused: ?thesis if "start_command sys receiver h i ?sp cs w = ?refuse code cs2 w2" "code \<noteq> RETURN_OK" "csVerify cs2 = csVerify cs"
      "w2 = w \<or> w2 = w1" for code cs2 w2
  proof -
    have v2: "vq = report_queue receiver (csVerify cs2)" using vq that(3) by simp
    have r2: "cs_readable w2 a p" "?sp = setStoreAddress (tcStore (tcSide w2)) a" using r r1 sp1 that(4) by auto
    obtain w3 where s: "rejectPacket sys receiver START_FAILURE ?sp code cs2 w2 = Some (cs2\<lparr>csVerify := vq\<rparr>, w3)"
        "told ?d w2 w3 a vq [packet_failure sys START_FAILURE p code]"
      using packet_settled(1)[OF r2(1) v2 r2(2)] by blast
    have "told ?d w w3 a vq [packet_failure sys START_FAILURE p code]" using s(2) after that(4) by auto
    moreover have "start_reports sys p False [packet_failure sys START_FAILURE p code]" using that(2) by (auto simp: start_reports_def)
    ultimately show ?thesis using finish[of False "cs2\<lparr>csVerify := vq\<rparr>" w3] that(1) s(1) by simp
  qed
  consider (start) "result = RETURN_OK" "sr = RETURN_OK" | (complete) "result = EXECUTION_COMPLETE" "result \<noteq> RETURN_OK" "sr = RETURN_OK"
    | (send) "result = RETURN_OK \<or> result = EXECUTION_COMPLETE" "sr \<noteq> RETURN_OK" | (no) "result \<noteq> RETURN_OK" "result \<noteq> EXECUTION_COMPLETE"
    by blast
  then show ?thesis
  proof cases
    case start
    obtain u c' where u: "getUptime h (child ?cs1) = (u, c')" by (cases "getUptime h (child ?cs1)") auto
    let ?cs2 = "(slot_update i (started_info sys ?p command' u) ?cs1)\<lparr>child := c'\<rparr>"
    have v2: "vq = report_queue receiver (csVerify ?cs2)" using vq by simp
    obtain w3 where s3: "acceptPacket sys receiver START_SUCCESS ?sp ?cs2 w1 = Some (?cs2\<lparr>csVerify := vq\<rparr>, w3)"
        "told ?d w1 w3 a vq [packet_success sys START_SUCCESS p]"
      using packet_settled(2)[OF r1 v2 sp1] by blast
    have call: "start_command sys receiver h i ?sp cs w = Some (True, ?cs2\<lparr>csVerify := vq\<rparr>, w3)"
      unfolding eq u using start s3(1) by simp
    have st: "start_reports sys p True [packet_success sys START_SUCCESS p]" by (simp add: start_reports_def)
    show ?thesis by (rule finish[OF call after[OF s3(2)] st]) simp
  next
    case complete
    obtain v qm where s2: "reporter_send sys receiver (csVerify ?cs1) (queues w1) (packet_success sys START_SUCCESS p) = (v, qm)"
      by (cases "reporter_send sys receiver (csVerify ?cs1) (queues w1) (packet_success sys START_SUCCESS p)") auto
    have v1': "vq = report_queue receiver (csVerify ?cs1)" using vq by simp
    note rs = report_sent[OF ss(1) message_ok_packet(1) s2 v1']
    let ?w2 = "set_queues qm w1" and ?cs2 = "?cs1\<lparr>csVerify := vq\<rparr>"
    have e: "sendSuccessReport_packet sys receiver (csVerify ?cs1) (queues w1) START_SUCCESS ?p 0 = (vq, qm)"
      using s2 rs(1) by (simp add: sendSuccessReport_packet_def packet_success_def m)
    have r2: "cs_readable ?w2 a p" "?sp = setStoreAddress (tcStore (tcSide ?w2)) a" using r1 rs(2) sp1 by (simp_all add: cs_readable_def)
    have v2: "vq = report_queue receiver (csVerify ?cs2)" using vq by simp
    obtain w3 where s3: "acceptPacket sys receiver COMPLETION_SUCCESS ?sp ?cs2 ?w2 = Some (?cs2\<lparr>csVerify := vq\<rparr>, w3)"
        "told ?d ?w2 w3 a vq [packet_success sys COMPLETION_SUCCESS p]"
      using packet_settled(2)[OF r2(1) v2 r2(2)] by blast
    have "told ?d w1 w3 a vq [packet_success sys START_SUCCESS p, packet_success sys COMPLETION_SUCCESS p]"
    proof -
      have "queue_room (queues w3) vq n \<and> queue_content (queues w3) vq
          = queue_content (queues w1) vq @ [packet_success sys START_SUCCESS p, packet_success sys COMPLETION_SUCCESS p]"
        if "queue_room (queues w1) vq (Suc (Suc n))" for n
      proof -
        have q: "queue_room qm vq (Suc n)" "queue_content qm vq = queue_content (queues w1) vq @ [packet_success sys START_SUCCESS p]"
          using rs(4) that by blast+
        then show ?thesis using s3(2) by (simp add: told_def)
      qed
      then show ?thesis using s3(2) rs(3) by (simp add: told_def)
    qed
    note t = this
    have call: "start_command sys receiver h i ?sp cs w = Some (False, ?cs2\<lparr>csVerify := vq\<rparr>, w3)"
      unfolding eq e using complete s3(1) by simp
    have st: "start_reports sys p False [packet_success sys START_SUCCESS p, packet_success sys COMPLETION_SUCCESS p]"
      by (simp add: start_reports_def)
    show ?thesis by (rule finish[OF call after[OF t] st]) simp
  next
    case send
    then show ?thesis using refused[of sr "?cs1\<lparr>child := clearCommand h command' (child ?cs1)\<rparr>" w1] eq by auto
  next
    case no
    then show ?thesis using refused[of result ?cs1 w] eq by auto
  qed
qed

subsection \<open>The slots as a map\<close>

text \<open>The objects that execute a command, and the addresses that wait for each.\<close>

definition waiting :: "'c commanding_service \<Rightarrow> u32 \<rightharpoonup> store_address list" where
  "waiting cs q = map_option (\<lambda>info. fifo_abs (ciFifo info)) (fm_abs (commandMap cs) q)"

definition cs_ok :: "'c commanding_service \<Rightarrow> bool" where
  "cs_ok cs \<longleftrightarrow> fm_inv (commandMap cs) \<and> (\<forall>i < fm_size (commandMap cs). fifo_inv (ciFifo (slot_info cs i))
     \<and> maxCapacity (ciFifo (slot_info cs i)) = COMMAND_INFO_FIFO_DEPTH)"

lemma map_of_list_update:
  "distinct (map fst xs) \<Longrightarrow> i < length xs \<Longrightarrow> map_of (xs[i := (fst (xs ! i), v)]) = (map_of xs)(fst (xs ! i) \<mapsto> v)"
proof (induction xs arbitrary: i)
  case (Cons x xs)
  then show ?case
  proof (cases i)
    case (Suc j)
    then have "fst (xs ! j) \<noteq> fst x" using Cons.prems by (metis distinct.simps(2) length_Cons list.simps(9) nth_mem image_eqI set_map Suc_less_eq)
    then show ?thesis using Cons Suc by (cases x) (auto simp: fun_eq_iff)
  qed (cases x, auto simp: fun_eq_iff)
qed simp

lemma same_slots_waiting:
  assumes "same_slots i cs cs'" shows "waiting cs' = waiting cs" "cs_ok cs \<Longrightarrow> cs_ok cs'"
proof -
  let ?m = "commandMap cs" and ?m' = "commandMap cs'"
  have k: "map fst (fm_used ?m') = map fst (fm_used ?m)"
    using assms by (intro nth_equalityI) (auto simp: same_slots_def fm_used_def slot_key_def)
  have f: "ciFifo (slot_info cs' j) = ciFifo (slot_info cs j)" for j using assms by (cases "j = i") (auto simp: same_slots_def)
  have e: "map (\<lambda>(k, info). (k, fifo_abs (ciFifo info))) (fm_used ?m') = map (\<lambda>(k, info). (k, fifo_abs (ciFifo info))) (fm_used ?m)"
  proof (intro nth_equalityI)
    show l: "length (map (\<lambda>(k, info). (k, fifo_abs (ciFifo info))) (fm_used ?m')) = length (map (\<lambda>(k, info). (k, fifo_abs (ciFifo info))) (fm_used ?m))"
      using assms by (simp add: same_slots_def fm_used_def)
    fix j assume "j < length (map (\<lambda>(k, info). (k, fifo_abs (ciFifo info))) (fm_used ?m'))"
    then show "map (\<lambda>(k, info). (k, fifo_abs (ciFifo info))) (fm_used ?m') ! j = map (\<lambda>(k, info). (k, fifo_abs (ciFifo info))) (fm_used ?m) ! j"
      using assms f[of j] l by (simp add: same_slots_def fm_used_def slot_key_def slot_info_def case_prod_unfold)
  qed
  show "waiting cs' = waiting cs"
    using arg_cong[OF e, of map_of] by (simp add: waiting_def fun_eq_iff fm_abs_def map_of_map)
  show "cs_ok cs'" if "cs_ok cs"
    using that k assms f by (auto simp: cs_ok_def fm_inv_def same_slots_def)
qed

lemma slot_update_waiting:
  assumes ok: "cs_ok cs" and i: "i < fm_size (commandMap cs)" and f: "fifo_inv fifo" "maxCapacity fifo = COMMAND_INFO_FIFO_DEPTH"
  shows "cs_ok (slot_update i (\<lambda>info. info\<lparr>ciFifo := fifo\<rparr>) cs)"
    "waiting (slot_update i (\<lambda>info. info\<lparr>ciFifo := fifo\<rparr>) cs) = (waiting cs)(slot_key cs i \<mapsto> fifo_abs fifo)"
proof -
  let ?m = "commandMap cs" and ?cs = "slot_update i (\<lambda>info. info\<lparr>ciFifo := fifo\<rparr>) cs"
  have inv: "fm_inv ?m" and l: "fm_size ?m \<le> length (fm_map ?m)" using ok by (auto simp: cs_ok_def fm_inv_def)
  have il: "i < length (fm_map ?m)" using i l by simp
  have u: "fm_used (commandMap ?cs) = (fm_used ?m)[i := (fst (fm_used ?m ! i), (slot_info cs i)\<lparr>ciFifo := fifo\<rparr>)]"
    using i by (simp add: slot_update_def fm_used_def slot_key_def take_update_swap)
  have d: "distinct (map fst (fm_used ?m))" "i < length (fm_used ?m)" using inv i length_fm_used[OF inv] by (simp_all add: fm_inv_def)
  have k: "fst (fm_used ?m ! i) = slot_key cs i" using i by (simp add: fm_used_nth slot_key_def)
  have abs: "fm_abs (commandMap ?cs) = (fm_abs ?m)(slot_key cs i \<mapsto> (slot_info cs i)\<lparr>ciFifo := fifo\<rparr>)"
    unfolding fm_abs_def u k[symmetric] using map_of_list_update[OF d] by simp
  then show "waiting ?cs = (waiting cs)(slot_key cs i \<mapsto> fifo_abs fifo)" by (auto simp: waiting_def fun_eq_iff)
  have "map fst (fm_used (commandMap ?cs)) = map fst (fm_used ?m)" unfolding u
    using d(2) by (metis fst_conv list_update_id map_update nth_map)
  then have inv': "fm_inv (commandMap ?cs)" using inv by (simp add: fm_inv_def)
  have "fifo_inv (ciFifo (slot_info ?cs j)) \<and> maxCapacity (ciFifo (slot_info ?cs j)) = COMMAND_INFO_FIFO_DEPTH" if "j < fm_size ?m" for j
    using that ok f il by (cases "j = i") (auto simp: cs_ok_def)
  then show "cs_ok ?cs" using inv' by (simp add: cs_ok_def)
qed

lemma slot_waiting:
  assumes "cs_ok cs" "i < fm_size (commandMap cs)"
  shows "waiting cs (slot_key cs i) = Some (fifo_abs (ciFifo (slot_info cs i)))"
proof -
  have inv: "fm_inv (commandMap cs)" using assms by (simp add: cs_ok_def)
  have "fm_used (commandMap cs) ! i \<in> set (fm_used (commandMap cs))" using assms(2) length_fm_used[OF inv] by simp
  then have "(slot_key cs i, slot_info cs i) \<in> set (fm_used (commandMap cs))"
    using assms(2) by (simp add: fm_used_nth slot_key_def slot_info_def)
  then show ?thesis using inv by (simp add: waiting_def fm_abs_def fm_inv_def)
qed

lemma erase_slot:
  assumes ok: "cs_ok cs" and i: "i < fm_size (commandMap cs)"
  shows "\<exists>m. FixedMap_erase_iter (commandMap cs) i = (RETURN_OK, int i - 1, m) \<and> cs_ok (cs\<lparr>commandMap := m\<rparr>)
     \<and> fm_abs m = (fm_abs (commandMap cs))(slot_key cs i := None) \<and> fm_size m = fm_size (commandMap cs) - 1
     \<and> length (fm_map m) = length (fm_map (commandMap cs))
     \<and> fm_map m = (fm_map (commandMap cs))[i := fm_map (commandMap cs) ! (fm_size (commandMap cs) - 1)]"
proof -
  let ?m = "commandMap cs" and ?n = "fm_size (commandMap cs)"
  let ?m' = "\<lparr>fm_map = (fm_map ?m)[i := fm_map ?m ! (?n - 1)], fm_size = ?n - 1\<rparr>"
  have inv: "fm_inv ?m" and il: "i < length (fm_map ?m)" using ok i by (auto simp: cs_ok_def fm_inv_def)
  have key: "slot_key cs i \<in> dom (fm_abs ?m)" using slot_waiting[OF ok i] by (auto simp: waiting_def)
  let ?k = "FixedMap_findIndex ?m (slot_key cs i)"
  have k: "?k < ?n" using FixedMap_exists_iff[OF inv, of "slot_key cs i"] key by (simp add: FixedMap_exists_def split: if_splits)
  have "fst (fm_used ?m ! ?k) = fst (fm_used ?m ! i)"
    using FixedMap_findIndex_found[OF k] k i by (simp add: fm_used_nth slot_key_def)
  moreover have d: "distinct (map fst (fm_used ?m))" "length (fm_used ?m) = ?n" using inv length_fm_used[OF inv] by (simp_all add: fm_inv_def)
  ultimately have ki: "?k = i" using k i nth_eq_iff_index_eq[OF d(1), of ?k i] by simp
  have e: "FixedMap_erase_iter ?m i = (RETURN_OK, int i - 1, ?m')"
    using k by (simp add: FixedMap_erase_iter_def Let_def ki slot_key_def[symmetric])
  have "FixedMap_erase_key ?m (slot_key cs i) = (RETURN_OK, ?m')" using k by (simp add: FixedMap_erase_key_def Let_def ki)
  then have m': "fm_inv ?m'" "fm_abs ?m' = (fm_abs ?m)(slot_key cs i := None)" using FixedMap_erase_ok[OF inv key] by auto
  have "fifo_inv (ciFifo (slot_info (cs\<lparr>commandMap := ?m'\<rparr>) j)) \<and> maxCapacity (ciFifo (slot_info (cs\<lparr>commandMap := ?m'\<rparr>) j)) = COMMAND_INFO_FIFO_DEPTH"
    if "j < ?n - 1" for j
  proof -
    have "?n - 1 < ?n" "j < ?n" using that by simp_all
    then show ?thesis using ok il by (cases "j = i") (auto simp: cs_ok_def slot_info_def)
  qed
  then have "cs_ok (cs\<lparr>commandMap := ?m'\<rparr>)" using m'(1) by (simp add: cs_ok_def)
  then show ?thesis using e m' by simp
qed

text \<open>A slot whose FIFO is empty is given back.\<close>

lemma check_empty_fifo:
  assumes ok: "cs_ok cs" and i: "i < fm_size (commandMap cs)" and empty: "fifo_abs (ciFifo (slot_info cs i)) = []"
  shows "\<exists>m. checkAndExecuteFifo sys receiver h i cs w = Some (int i - 1, cs\<lparr>commandMap := m\<rparr>, w) \<and> cs_ok (cs\<lparr>commandMap := m\<rparr>)
     \<and> waiting (cs\<lparr>commandMap := m\<rparr>) = (waiting cs)(slot_key cs i := None) \<and> fm_size m = fm_size (commandMap cs) - 1
     \<and> fm_map m = (fm_map (commandMap cs))[i := fm_map (commandMap cs) ! (fm_size (commandMap cs) - 1)]"
proof -
  obtain m where m: "FixedMap_erase_iter (commandMap cs) i = (RETURN_OK, int i - 1, m)" "cs_ok (cs\<lparr>commandMap := m\<rparr>)"
     "fm_abs m = (fm_abs (commandMap cs))(slot_key cs i := None)" "fm_size m = fm_size (commandMap cs) - 1"
     "fm_map m = (fm_map (commandMap cs))[i := fm_map (commandMap cs) ! (fm_size (commandMap cs) - 1)]"
    using erase_slot[OF ok i] by blast
  have "i < length (fm_map (commandMap cs))" using ok i by (auto simp: cs_ok_def fm_inv_def)
  then have "checkAndExecuteFifo sys receiver h i cs w = Some (int i - 1, cs\<lparr>commandMap := m\<rparr>, w)"
    using FIFO_retrieve_empty[OF empty, of True] m(1) by (simp add: checkAndExecuteFifo.simps)
  moreover have "waiting (cs\<lparr>commandMap := m\<rparr>) = (waiting cs)(slot_key cs i := None)"
    using m(3) by (auto simp: waiting_def fun_eq_iff)
  ultimately show ?thesis using m by blast
qed

text \<open>A new slot.\<close>

lemma new_slot:
  assumes ok: "cs_ok cs" and new: "waiting cs q = None" and room: "fm_size (commandMap cs) < FixedMap_maxSize (commandMap cs)"
    and raw: "length (fifo_values (ciFifo raw)) = COMMAND_INFO_FIFO_DEPTH" and i: "i = fm_size (commandMap cs)"
  shows "\<exists>m. FixedMap_insert (commandMap cs) q (newCommandInfo raw ob) = (RETURN_OK, Some i, m) \<and> cs_ok (cs\<lparr>commandMap := m\<rparr>)
     \<and> waiting (cs\<lparr>commandMap := m\<rparr>) = (waiting cs)(q \<mapsto> []) \<and> slot_key (cs\<lparr>commandMap := m\<rparr>) i = q
     \<and> fifo_abs (ciFifo (slot_info (cs\<lparr>commandMap := m\<rparr>) i)) = [] \<and> i < fm_size m \<and> i < length (fm_map m)"
proof -
  let ?m = "commandMap cs" and ?v = "newCommandInfo raw ob"
  let ?m' = "\<lparr>fm_map = (fm_map ?m)[i := (q, ?v)], fm_size = i + 1\<rparr>"
  have inv: "fm_inv ?m" and dom: "q \<notin> dom (fm_abs ?m)" using ok new by (auto simp: cs_ok_def waiting_def)
  obtain m' where m': "FixedMap_insert ?m q ?v = (RETURN_OK, Some i, m')" "fm_inv m'" "fm_abs m' = (fm_abs ?m)(q \<mapsto> ?v)" "fm_size m' = Suc i"
    using FixedMap_insert_ok[OF inv dom room] i by blast
  have e: "m' = ?m'" using m'(1) by (auto simp: FixedMap_insert_def i split: if_splits)
  have il: "i < length (fm_map ?m)" using room i by (simp add: FixedMap_maxSize_def)
  have v: "fifo_inv (ciFifo ?v)" "maxCapacity (ciFifo ?v) = COMMAND_INFO_FIFO_DEPTH" "fifo_abs (ciFifo ?v) = []"
    using raw by (simp_all add: newCommandInfo_def fifo_inv_new)
  have "fifo_inv (ciFifo (slot_info (cs\<lparr>commandMap := m'\<rparr>) j)) \<and> maxCapacity (ciFifo (slot_info (cs\<lparr>commandMap := m'\<rparr>) j)) = COMMAND_INFO_FIFO_DEPTH"
    if "j < Suc i" for j
    using that ok il v i by (cases "j = i") (auto simp: cs_ok_def slot_info_def e)
  then have "cs_ok (cs\<lparr>commandMap := m'\<rparr>)" using m'(2,4) by (simp add: cs_ok_def)
  moreover have "waiting (cs\<lparr>commandMap := m'\<rparr>) = (waiting cs)(q \<mapsto> [])"
    using m'(3) v(3) by (auto simp: waiting_def fun_eq_iff)
  moreover have "slot_key (cs\<lparr>commandMap := m'\<rparr>) i = q" "slot_info (cs\<lparr>commandMap := m'\<rparr>) i = ?v"
    using il by (simp_all add: slot_key_def slot_info_def e)
  ultimately show ?thesis using m'(1,4) v(3) il by (intro exI[of _ m']) (simp add: e)
qed

text \<open>
  What can become of a request: it waits for its object, it was refused, its command is being executed, or it
  was executed at once.
\<close>

definition accounted ::
  "byte_order \<Rightarrow> bytes \<Rightarrow> store_address \<Rightarrow> u32 \<Rightarrow> 'c commanding_service \<Rightarrow> tmtc_world \<Rightarrow> 'c commanding_service \<Rightarrow> tmtc_world \<Rightarrow> bool" where
  "accounted sys p a vq cs w cs' w' \<longleftrightarrow>
     (let store = pool_abs (tcStore (tcSide w)); store' = pool_abs (tcStore (tcSide w'));
          old = queue_content (queues w) vq; new = queue_content (queues w') vq
      in store' = store \<and> new = old
           \<and> (\<exists>q xs. waiting cs q = Some xs \<and> length xs < COMMAND_INFO_FIFO_DEPTH \<and> waiting cs' = (waiting cs)(q \<mapsto> xs @ [a]))
       \<or> store' = store(a := None) \<and> waiting cs' = waiting cs
           \<and> (\<exists>code. code \<noteq> RETURN_OK \<and> new = old @ [packet_failure sys START_FAILURE p code])
       \<or> store' = store(a := None) \<and> new = old @ [packet_success sys START_SUCCESS p]
           \<and> (\<exists>q. waiting cs q = None \<and> waiting cs' = (waiting cs)(q \<mapsto> []))
       \<or> store' = store(a := None) \<and> waiting cs' = waiting cs
           \<and> new = old @ [packet_success sys START_SUCCESS p, packet_success sys COMPLETION_SUCCESS p])"

lemma told_room: "told dest w w' a vq rs \<Longrightarrow> queue_room (queues w) vq (length rs) \<Longrightarrow>
    pool_abs (tcStore (tcSide w')) = (pool_abs (tcStore (tcSide w)))(a := None)
    \<and> queue_content (queues w') vq = queue_content (queues w) vq @ rs"
  unfolding told_def by (metis add.right_neutral)

lemma queue_room_less: "queue_room qm q n \<Longrightarrow> k \<le> n \<Longrightarrow> queue_room qm q k"
  by (auto simp: queue_room_def)

text \<open>A command in a slot that nobody else waits for.\<close>

lemma start_alone:
  assumes r: "cs_readable w a p" and h: "hooks_ok h" and vq: "vq = report_queue receiver (csVerify cs)" and room: "queue_room (queues w) vq 2"
    and ok: "cs_ok cs" and i: "i < fm_size (commandMap cs)" "fifo_abs (ciFifo (slot_info cs i)) = []" and ne: "slot_key cs i \<noteq> vq"
  shows "\<exists>b cs' w' rs. startExecution sys receiver h (setStoreAddress (tcStore (tcSide w)) a) i cs w = Some (cs', w')
     \<and> told (slot_key cs i) w w' a vq rs \<and> start_reports sys p b rs \<and> length rs \<le> 2 \<and> cs_ok cs'
     \<and> report_queue receiver (csVerify cs') = vq
     \<and> waiting cs' = (if b then waiting cs else (waiting cs)(slot_key cs i := None))"
proof -
  have il: "i < length (fm_map (commandMap cs))" using ok i(1) by (auto simp: cs_ok_def fm_inv_def)
  obtain b cs1 w1 rs where s: "start_command sys receiver h i (setStoreAddress (tcStore (tcSide w)) a) cs w = Some (b, cs1, w1)"
     "told (slot_key cs i) w w1 a vq rs" "start_reports sys p b rs" "report_queue receiver (csVerify cs1) = vq" "same_slots i cs cs1"
    using start_command_spec[OF r h vq il ne] by blast
  note same = same_slots_waiting(1)[OF s(5)] same_slots_waiting(2)[OF s(5) ok]
  have l: "length rs \<le> 2" using s(3) by (auto simp: start_reports_def split: if_splits)
  show ?thesis
  proof (cases b)
    case True
    then have "startExecution sys receiver h (setStoreAddress (tcStore (tcSide w)) a) i cs w = Some (cs1, w1)"
      using s(1) by (simp add: startExecution.simps)
    then show ?thesis using True s l same by (intro exI[of _ True] exI[of _ cs1] exI[of _ w1] exI[of _ rs]) simp
  next
    case False
    have k: "slot_key cs1 i = slot_key cs i" "fm_size (commandMap cs1) = fm_size (commandMap cs)" "fifo_abs (ciFifo (slot_info cs1 i)) = []"
      using s(5) i(2) by (simp_all add: same_slots_def)
    have i1: "i < fm_size (commandMap cs1)" using k i by simp
    obtain m where m: "checkAndExecuteFifo sys receiver h i cs1 w1 = Some (int i - 1, cs1\<lparr>commandMap := m\<rparr>, w1)"
      "cs_ok (cs1\<lparr>commandMap := m\<rparr>)" "waiting (cs1\<lparr>commandMap := m\<rparr>) = (waiting cs1)(slot_key cs1 i := None)"
      using check_empty_fifo[OF same(2) i1 k(3)] by blast
    have "startExecution sys receiver h (setStoreAddress (tcStore (tcSide w)) a) i cs w = Some (cs1\<lparr>commandMap := m\<rparr>, w1)"
      using s(1) False m(1) by (simp add: startExecution.simps)
    then show ?thesis using False s(2-4) l m(2,3) same(1) k(1)
      by (intro exI[of _ False] exI[of _ "cs1\<lparr>commandMap := m\<rparr>"] exI[of _ w1] exI[of _ rs]) simp
  qed
qed

lemma find_slot:
  assumes "cs_ok cs"
  shows "FixedMap_find_iter (commandMap cs) q = fm_size (commandMap cs) \<longleftrightarrow> waiting cs q = None"
    and "waiting cs q \<noteq> None \<Longrightarrow> FixedMap_find_iter (commandMap cs) q < fm_size (commandMap cs)
      \<and> slot_key cs (FixedMap_find_iter (commandMap cs) q) = q"
proof -
  have inv: "fm_inv (commandMap cs)" using assms by (simp add: cs_ok_def)
  note ex = FixedMap_exists_iff[OF inv, of q]
  have w: "waiting cs q = None \<longleftrightarrow> q \<notin> dom (fm_abs (commandMap cs))" by (auto simp: waiting_def)
  show "FixedMap_find_iter (commandMap cs) q = fm_size (commandMap cs) \<longleftrightarrow> waiting cs q = None"
    using ex w by (auto simp: FixedMap_find_iter_def FixedMap_exists_def split: if_splits)
  show "FixedMap_find_iter (commandMap cs) q < fm_size (commandMap cs) \<and> slot_key cs (FixedMap_find_iter (commandMap cs) q) = q"
    if "waiting cs q \<noteq> None"
    using ex w that FixedMap_findIndex_found[of "commandMap cs" q]
    by (auto simp: FixedMap_find_iter_def FixedMap_exists_def slot_key_def split: if_splits)
qed

lemma request_accounted:
  assumes r: "cs_readable w a p" and h: "hooks_ok h" and vq: "vq = report_queue receiver (csVerify cs)" and room: "queue_room (queues w) vq 2"
    and ok: "cs_ok cs" and raw: "length (fifo_values (ciFifo raw)) = COMMAND_INFO_FIFO_DEPTH"
    and ne: "\<forall>sub d n c. fst (snd (getMessageQueueAndObject h sub d n c)) \<noteq> vq"
  shows "\<exists>cs' w'. cs_request sys receiver h raw a cs w = Some (cs', w') \<and> cs_ok cs' \<and> report_queue receiver (csVerify cs') = vq
     \<and> accounted sys p a vq cs w cs' w' \<and> (\<forall>b. b \<noteq> a \<longrightarrow> pool_abs (tcStore (tcSide w')) b = pool_abs (tcStore (tcSide w)) b)"
proof -
  let ?sp = "setStoreAddress (tcStore (tcSide w)) a"
  obtain ptr where m: "?sp = \<lparr>storeAddress = a, packet_ptr = Some ptr\<rparr>" "10 \<le> length (pool_mem (tcStore (tcSide w)) ptr)"
     "tc_getSubService (pool_mem (tcStore (tcSide w)) ptr) = tc_getSubService p"
    using cs_readable_memory[OF r] by blast
  let ?p = "pool_mem (tcStore (tcSide w)) ptr"
  have l: "\<not> length ?p < TC_APP_DATA" using m(2) by (simp add: pus_sizes)
  have room1: "queue_room (queues w) vq 1" using queue_room_less[OF room] by simp
  have refused: ?thesis
    if call: "cs_request sys receiver h raw a cs w = rejectPacket sys receiver START_FAILURE ?sp code cs1 w" and code: "code \<noteq> RETURN_OK"
      and v1: "csVerify cs1 = csVerify cs" and ok1: "cs_ok cs1" and wt: "waiting cs1 = waiting cs" for code cs1
  proof -
    have vq1: "vq = report_queue receiver (csVerify cs1)" using vq v1 by simp
    obtain w' where w': "rejectPacket sys receiver START_FAILURE ?sp code cs1 w = Some (cs1\<lparr>csVerify := vq\<rparr>, w')"
        "told 0 w w' a vq [packet_failure sys START_FAILURE p code]"
      using packet_settled(1)[OF r vq1 refl] by blast
    have s: "same_slots 0 cs1 (cs1\<lparr>csVerify := vq\<rparr>)" by (simp add: same_slots_simps)
    note t = told_room[OF w'(2)]
    have "accounted sys p a vq cs w (cs1\<lparr>csVerify := vq\<rparr>) w'"
      unfolding accounted_def Let_def using t room1 code same_slots_waiting(1)[OF s] wt by auto
    then show ?thesis using call w'(1) t room1 same_slots_waiting(2)[OF s ok1] vq
      by (intro exI[of _ "cs1\<lparr>csVerify := vq\<rparr>"] exI[of _ w']) simp
  qed
  have INV: "INVALID_SUBSERVICE \<noteq> RETURN_OK" "OBJECT_BUSY \<noteq> RETURN_OK" "BUSY \<noteq> RETURN_OK" by (simp_all add: retcode)
  show ?thesis
  proof (cases "tc_getSubService p = 0 \<or> isValidSubservice h (tc_getSubService p) \<noteq> RETURN_OK")
    case True
    then have "cs_request sys receiver h raw a cs w = rejectPacket sys receiver START_FAILURE ?sp INVALID_SUBSERVICE cs w"
      using l m(3) by (simp add: cs_request_def m(1) Let_def)
    then show ?thesis using refused INV(1) ok by blast
  next
    case valid: False
    let ?call = "getMessageQueueAndObject h (tc_getSubService p) (getApplicationData ?p) (getApplicationDataSize ?p) (child cs)"
    obtain result q ob c where g: "?call = (result, q, ob, c)" by (cases ?call) auto
    let ?cs0 = "cs\<lparr>child := c\<rparr>"
    have s0: "same_slots 0 cs ?cs0" by (simp add: same_slots_simps)
    note s0 = same_slots_waiting(1)[OF s0] same_slots_waiting(2)[OF s0 ok]
    have q: "q \<noteq> vq" using ne g by (metis fst_conv snd_conv)
    show ?thesis
    proof (cases "result = RETURN_OK")
      case False
      then have "cs_request sys receiver h raw a cs w = rejectPacket sys receiver START_FAILURE ?sp result ?cs0 w"
        using l m(3) valid g by (simp add: cs_request_def m(1) Let_def)
      then show ?thesis using refused[of result ?cs0] False s0 by simp
    next
      case got: True
      let ?i = "FixedMap_find_iter (commandMap ?cs0) q"
      show ?thesis
      proof (cases "waiting ?cs0 q")
        case (Some xs)
        then have i: "?i < fm_size (commandMap ?cs0)" "slot_key ?cs0 ?i = q" using find_slot(2)[OF s0(2), of q] by simp_all
        have xs: "xs = fifo_abs (ciFifo (slot_info ?cs0 ?i))" using slot_waiting[OF s0(2) i(1)] Some i(2) by simp
        have fi: "fifo_inv (ciFifo (slot_info ?cs0 ?i))" "maxCapacity (ciFifo (slot_info ?cs0 ?i)) = COMMAND_INFO_FIFO_DEPTH"
          using s0(2) i(1) by (simp_all add: cs_ok_def)
        have ni: "?i \<noteq> fm_size (commandMap cs)" using i(1) by simp
        show ?thesis
        proof (cases "length xs < COMMAND_INFO_FIFO_DEPTH")
          case True
          obtain f where f: "FIFO_insert (ciFifo (slot_info ?cs0 ?i)) a = (RETURN_OK, f)" "fifo_inv f" "fifo_abs f = xs @ [a]"
              "maxCapacity f = COMMAND_INFO_FIFO_DEPTH"
            using FIFO_insert_ok[OF fi(1), of a] True fi(2) xs by auto
          let ?cs1 = "slot_update ?i (\<lambda>info. info\<lparr>ciFifo := f\<rparr>) ?cs0"
          have call: "cs_request sys receiver h raw a cs w = Some (?cs1, w)"
            using l m(3) valid g got ni f(1) by (simp add: cs_request_def m(1) Let_def)
          note u = slot_update_waiting[OF s0(2) i(1) f(2,4)]
          have "waiting ?cs1 = (waiting cs)(q \<mapsto> xs @ [a])" unfolding u(2) i(2) f(3) s0(1) ..
          moreover have "waiting cs q = Some xs" using Some s0(1) by simp
          ultimately have "accounted sys p a vq cs w ?cs1 w" unfolding accounted_def Let_def using True by blast
          then show ?thesis using call u(1) vq by (intro exI[of _ ?cs1] exI[of _ w]) simp
        next
          case False
          have lx: "length (fifo_abs (ciFifo (slot_info ?cs0 ?i))) = maxCapacity (ciFifo (slot_info ?cs0 ?i))"
            using False fi unfolding xs by (simp add: fifo_inv_def)
          have f: "FIFO_insert (ciFifo (slot_info ?cs0 ?i)) a = (FIFO_FULL, ciFifo (slot_info ?cs0 ?i))"
            using FIFO_insert_full[OF fi(1) lx] .
          let ?cs1 = "slot_update ?i (\<lambda>info. info\<lparr>ciFifo := ciFifo (slot_info ?cs0 ?i)\<rparr>) ?cs0"
          have call: "cs_request sys receiver h raw a cs w = rejectPacket sys receiver START_FAILURE ?sp OBJECT_BUSY ?cs1 w"
            using l m(3) valid g got ni f by (simp add: cs_request_def m(1) Let_def)
          note u = slot_update_waiting[OF s0(2) i(1) fi]
          have "waiting ?cs1 = waiting cs" unfolding u(2) i(2) xs[symmetric] using Some s0(1) by (metis map_upd_triv)
          then show ?thesis using refused[OF call INV(2)] u(1) by simp
        qed
      next
        case None
        then have i: "?i = fm_size (commandMap cs)" using find_slot(1)[OF s0(2), of q] by simp
        show ?thesis
        proof (cases "fm_size (commandMap cs) < FixedMap_maxSize (commandMap cs)")
          case True
          let ?n = "fm_size (commandMap cs)"
          have room0: "fm_size (commandMap ?cs0) < FixedMap_maxSize (commandMap ?cs0)" and n0: "?n = fm_size (commandMap ?cs0)"
            using True by simp_all
          obtain mp where mp: "FixedMap_insert (commandMap ?cs0) q (newCommandInfo raw ob) = (RETURN_OK, Some ?n, mp)"
             "cs_ok (?cs0\<lparr>commandMap := mp\<rparr>)" "waiting (?cs0\<lparr>commandMap := mp\<rparr>) = (waiting ?cs0)(q \<mapsto> [])"
             "slot_key (?cs0\<lparr>commandMap := mp\<rparr>) ?n = q" "fifo_abs (ciFifo (slot_info (?cs0\<lparr>commandMap := mp\<rparr>) ?n)) = []" "?n < fm_size mp"
            using new_slot[OF s0(2) None room0 raw n0] by blast
          let ?cs1 = "?cs0\<lparr>commandMap := mp\<rparr>"
          have call: "cs_request sys receiver h raw a cs w = startExecution sys receiver h ?sp ?n ?cs1 w"
            using l m(3) valid g got i mp(1) by (simp add: cs_request_def m(1) Let_def)
          have vq1: "vq = report_queue receiver (csVerify ?cs1)" and n1: "?n < fm_size (commandMap ?cs1)" using vq mp(6) by simp_all
          have ne1: "slot_key ?cs1 ?n \<noteq> vq" unfolding mp(4) by (rule q)
          obtain b cs' w' rs where s: "startExecution sys receiver h ?sp ?n ?cs1 w = Some (cs', w')"
             "told (slot_key ?cs1 ?n) w w' a vq rs" "start_reports sys p b rs" "length rs \<le> 2" "cs_ok cs'"
             "report_queue receiver (csVerify cs') = vq" "waiting cs' = (if b then waiting ?cs1 else (waiting ?cs1)(slot_key ?cs1 ?n := None))"
            using start_alone[OF r h vq1 room mp(2) n1 mp(5) ne1] by blast
          note t = told_room[OF s(2) queue_room_less[OF room s(4)]]
          have none: "waiting cs q = None" using None s0(1) by simp
          have wt: "waiting cs' = (if b then (waiting cs)(q \<mapsto> []) else waiting cs)"
            unfolding s(7) mp(3,4) s0(1) using none by (auto simp: fun_eq_iff)
          have "accounted sys p a vq cs w cs' w'"
            unfolding accounted_def Let_def using t wt none s(3) by (cases b) (auto simp: start_reports_def)
          then show ?thesis using call s(1,5,6) t by (intro exI[of _ cs'] exI[of _ w']) simp
        next
          case False
          have inv: "fm_inv (commandMap ?cs0)" "q \<notin> dom (fm_abs (commandMap ?cs0))" using s0(2) None by (auto simp: cs_ok_def waiting_def)
          have "fm_size (commandMap ?cs0) \<le> FixedMap_maxSize (commandMap ?cs0)" using inv(1) by (simp add: fm_inv_def FixedMap_maxSize_def)
          then have full: "fm_size (commandMap ?cs0) = FixedMap_maxSize (commandMap ?cs0)" using False by simp
          have "cs_request sys receiver h raw a cs w = rejectPacket sys receiver START_FAILURE ?sp BUSY ?cs0 w"
            using l m(3) valid g got i FixedMap_insert_full[OF inv full, of "newCommandInfo raw ob"]
            by (simp add: cs_request_def m(1) Let_def)
          then show ?thesis using refused[of BUSY ?cs0] INV(3) s0 by simp
        qed
      qed
    qed
  qed
qed

subsection \<open>The queue of a slot\<close>

text \<open>
  What \<open>checkAndExecuteFifo\<close> does with the waiting addresses \<open>xs\<close>: the first \<open>k\<close> are taken, in order, and
  reported; the last of them is being executed, or all are done and the slot is given back.
\<close>

definition fifo_served ::
  "byte_order \<Rightarrow> (store_address \<Rightarrow> bytes) \<Rightarrow> u32 \<Rightarrow> u32 \<Rightarrow> store_address list \<Rightarrow> 'c commanding_service \<Rightarrow> tmtc_world
     \<Rightarrow> 'c commanding_service \<Rightarrow> tmtc_world \<Rightarrow> bool" where
  "fifo_served sys P vq q xs cs w cs' w' \<longleftrightarrow>
     (\<exists>k running rss. k \<le> length xs \<and> length rss = k
        \<and> waiting cs' = (waiting cs)(q := if running then Some (drop k xs) else None) \<and> (if running then 0 < k else k = length xs)
        \<and> pool_abs (tcStore (tcSide w')) = (\<lambda>a. if a \<in> set (take k xs) then None else pool_abs (tcStore (tcSide w)) a)
        \<and> queue_content (queues w') vq = queue_content (queues w) vq @ concat rss
        \<and> (\<forall>j < k. start_reports sys (P (xs ! j)) (running \<and> Suc j = k) (rss ! j)))"

lemma start_reports_length: "start_reports sys p b rs \<Longrightarrow> length rs \<le> 2"
  by (auto simp: start_reports_def split: if_splits)

lemma told_keeps_room:
  assumes "told dest w w' a vq rs" "queue_room (queues w) vq (2 + n)" "length rs \<le> 2"
  shows "queue_room (queues w') vq n"
  using assms queue_room_less[OF assms(2), of "length rs + n"] by (auto simp: told_def)

lemma fifo_chain:
  assumes "cs_ok cs" "i < fm_size (commandMap cs)" "fifo_abs (ciFifo (slot_info cs i)) = xs" "slot_key cs i = q" "q \<noteq> vq" "hooks_ok h"
    and "vq = report_queue receiver (csVerify cs)" "distinct xs" "\<forall>a \<in> set xs. cs_readable w a (P a)"
    and "queue_room (queues w) vq (2 * length xs)"
  shows "\<exists>it cs' w'. checkAndExecuteFifo sys receiver h i cs w = Some (it, cs', w') \<and> cs_ok cs'
     \<and> report_queue receiver (csVerify cs') = vq \<and> fifo_served sys P vq q xs cs w cs' w'"
  using assms
proof (induction xs arbitrary: cs w)
  case Nil
  obtain m where m: "checkAndExecuteFifo sys receiver h i cs w = Some (int i - 1, cs\<lparr>commandMap := m\<rparr>, w)" "cs_ok (cs\<lparr>commandMap := m\<rparr>)"
     "waiting (cs\<lparr>commandMap := m\<rparr>) = (waiting cs)(slot_key cs i := None)"
    using check_empty_fifo[OF Nil.prems(1-3)] by blast
  have "fifo_served sys P vq q [] cs w (cs\<lparr>commandMap := m\<rparr>) w"
    unfolding fifo_served_def using m(3) Nil.prems(4) by (intro exI[of _ 0] exI[of _ False] exI[of _ "[]"]) simp
  then show ?case using m(1,2) Nil.prems(7) by auto
next
  case (Cons x xs)
  have il: "i < length (fm_map (commandMap cs))" using Cons.prems(1,2) by (auto simp: cs_ok_def fm_inv_def)
  have fi: "fifo_inv (ciFifo (slot_info cs i))" "maxCapacity (ciFifo (slot_info cs i)) = COMMAND_INFO_FIFO_DEPTH"
    using Cons.prems(1,2) by (simp_all add: cs_ok_def)
  obtain f where f: "FIFO_retrieve (ciFifo (slot_info cs i)) True = (RETURN_OK, Some x, f)" "fifo_inv f" "fifo_abs f = xs"
      "maxCapacity f = COMMAND_INFO_FIFO_DEPTH"
    using FIFO_retrieve_ok[OF fi(1) Cons.prems(3)] fi(2) by auto
  let ?sp = "setStoreAddress (tcStore (tcSide w)) x"
  let ?cs1 = "slot_update i (\<lambda>info. info\<lparr>ciFifo := f\<rparr>) cs"
  note u = slot_update_waiting[OF Cons.prems(1,2) f(2,4), unfolded Cons.prems(4) f(3)]
  have i1: "i < fm_size (commandMap ?cs1)" "i < length (fm_map (commandMap ?cs1))" using Cons.prems(2) il by simp_all
  have k1: "slot_key ?cs1 i = q" "fifo_abs (ciFifo (slot_info ?cs1 i)) = xs" using Cons.prems(4) il f(3) by simp_all
  have vq1: "vq = report_queue receiver (csVerify ?cs1)" using Cons.prems(7) by simp
  have r: "cs_readable w x (P x)" using Cons.prems(9) by simp
  have ne1: "slot_key ?cs1 i \<noteq> vq" unfolding k1(1) by (rule Cons.prems(5))
  obtain b cs2 w2 rs where s: "start_command sys receiver h i ?sp ?cs1 w = Some (b, cs2, w2)" "told q w w2 x vq rs"
     "start_reports sys (P x) b rs" "report_queue receiver (csVerify cs2) = vq" "same_slots i ?cs1 cs2"
    using start_command_spec[OF r Cons.prems(6) vq1 i1(2) ne1] unfolding k1(1) by blast
  note same = same_slots_waiting(1)[OF s(5), unfolded u(2)] same_slots_waiting(2)[OF s(5) u(1)]
  have room: "queue_room (queues w) vq (2 + 2 * length xs)" using Cons.prems(10) by simp
  note t = told_room[OF s(2) queue_room_less[OF room]] start_reports_length[OF s(3)]
  have len: "length rs \<le> 2 + 2 * length xs" using t(2) by simp
  note t1 = t(1)[OF len]
  have call: "checkAndExecuteFifo sys receiver h i cs w = (case startExecution sys receiver h ?sp i ?cs1 w of None \<Rightarrow> None
      | Some (cs', w') \<Rightarrow> Some (int i, cs', w'))"
    using il f(1) by (simp add: checkAndExecuteFifo.simps)
  show ?case
  proof (cases b)
    case True
    have "fifo_served sys P vq q (x # xs) cs w cs2 w2"
      unfolding fifo_served_def using same(1) t1 s(3) True
      by (intro exI[of _ 1] exI[of _ True] exI[of _ "[rs]"]) (auto simp: fun_eq_iff)
    then show ?thesis using call s(1,4) True same(2) by (simp add: startExecution.simps)
  next
    case False
    have i2: "i < fm_size (commandMap cs2)" "fifo_abs (ciFifo (slot_info cs2 i)) = xs" "slot_key cs2 i = q"
      using s(5) i1(1) k1 by (simp_all add: same_slots_def)
    have held: "\<forall>a \<in> set xs. cs_readable w2 a (P a)"
      using Cons.prems(8,9) s(2) t1 by (auto simp: cs_readable_def told_def)
    have room2: "queue_room (queues w2) vq (2 * length xs)" using told_keeps_room[OF s(2) room t(2)] .
    have dist: "distinct xs" "x \<notin> set xs" using Cons.prems(8) by simp_all
    obtain it cs3 w3 where c: "checkAndExecuteFifo sys receiver h i cs2 w2 = Some (it, cs3, w3)" "cs_ok cs3"
       "report_queue receiver (csVerify cs3) = vq" "fifo_served sys P vq q xs cs2 w2 cs3 w3"
      using Cons.IH[OF same(2) i2 Cons.prems(5,6) s(4)[symmetric] dist(1) held room2] by blast
    obtain k running rss where k: "k \<le> length xs" "length rss = k"
        "waiting cs3 = (waiting cs2)(q := if running then Some (drop k xs) else None)" "if running then 0 < k else k = length xs"
        "pool_abs (tcStore (tcSide w3)) = (\<lambda>a. if a \<in> set (take k xs) then None else pool_abs (tcStore (tcSide w2)) a)"
        "queue_content (queues w3) vq = queue_content (queues w2) vq @ concat rss"
        "\<forall>j < k. start_reports sys (P (xs ! j)) (running \<and> Suc j = k) (rss ! j)"
      using c(4) unfolding fifo_served_def by blast
    have "start_reports sys (P ((x # xs) ! j)) (running \<and> Suc j = Suc k) ((rs # rss) ! j)" if "j < Suc k" for j
      using that k(4,7) s(3) False by (cases j) (auto split: if_splits)
    then have "fifo_served sys P vq q (x # xs) cs w cs3 w3"
      unfolding fifo_served_def using k t1 same(1)
      by (intro exI[of _ "Suc k"] exI[of _ running] exI[of _ "rs # rss"]) (auto simp: fun_eq_iff)
    then show ?thesis using call s(1) False c(1-3) by (simp add: startExecution.simps)
  qed
qed

subsection \<open>Replies\<close>

definition slot_message :: "byte_order \<Rightarrow> u8 \<Rightarrow> command_info \<Rightarrow> u16 \<Rightarrow> mq_message" where
  "slot_message sys r info code = newPusVerificationMessage sys r (ciAckFlags info) (ciTcPacketId info) (ciTcSequenceControl info) code 0 0 0"

lemma message_ok_slot: "message_ok (slot_message sys r info code)"
  by (simp add: slot_message_def message_ok_verification)

text \<open>A report about a slot changes the queue of the reports only.\<close>

lemma slot_reported:
  assumes qs: "queues_ok (queues w)" and vq: "vq = report_queue receiver (csVerify cs)"
  shows "\<exists>w'. slot_report sys receiver r info code 0 0 0 cs w = (cs\<lparr>csVerify := vq\<rparr>, w') \<and> w' = set_queues (queues w') w
       \<and> queues_ok (queues w') \<and> (\<forall>n. queue_room (queues w) vq (Suc n) \<longrightarrow> queue_room (queues w') vq n
          \<and> queue_content (queues w') vq = queue_content (queues w) vq @ [slot_message sys r info code])"
    and "\<exists>w'. slot_success sys receiver r info 0 cs w = (cs\<lparr>csVerify := vq\<rparr>, w') \<and> w' = set_queues (queues w') w
       \<and> queues_ok (queues w') \<and> (\<forall>n. queue_room (queues w) vq (Suc n) \<longrightarrow> queue_room (queues w') vq n
          \<and> queue_content (queues w') vq = queue_content (queues w) vq @ [slot_message sys r info 0])"
proof -
  have set: "set_queues (queues (set_queues qm w)) w = set_queues qm w" for qm by (simp add: set_queues_def)
  show "\<exists>w'. slot_report sys receiver r info code 0 0 0 cs w = (cs\<lparr>csVerify := vq\<rparr>, w') \<and> w' = set_queues (queues w') w
       \<and> queues_ok (queues w') \<and> (\<forall>n. queue_room (queues w) vq (Suc n) \<longrightarrow> queue_room (queues w') vq n
          \<and> queue_content (queues w') vq = queue_content (queues w) vq @ [slot_message sys r info code])"
  proof -
    obtain v qm where s: "reporter_send sys receiver (csVerify cs) (queues w) (slot_message sys r info code) = (v, qm)"
      by (cases "reporter_send sys receiver (csVerify cs) (queues w) (slot_message sys r info code)") auto
    note rs = report_sent[OF qs message_ok_slot s vq]
    have "slot_report sys receiver r info code 0 0 0 cs w = (cs\<lparr>csVerify := vq\<rparr>, set_queues qm w)"
      using s rs(1) by (simp add: slot_report_def sendFailureReport_def slot_message_def)
    then show ?thesis using rs(2,4) set by (intro exI[of _ "set_queues qm w"]) simp
  qed
  show "\<exists>w'. slot_success sys receiver r info 0 cs w = (cs\<lparr>csVerify := vq\<rparr>, w') \<and> w' = set_queues (queues w') w
       \<and> queues_ok (queues w') \<and> (\<forall>n. queue_room (queues w) vq (Suc n) \<longrightarrow> queue_room (queues w') vq n
          \<and> queue_content (queues w') vq = queue_content (queues w) vq @ [slot_message sys r info 0])"
  proof -
    obtain v qm where s: "reporter_send sys receiver (csVerify cs) (queues w) (slot_message sys r info 0) = (v, qm)"
      by (cases "reporter_send sys receiver (csVerify cs) (queues w) (slot_message sys r info 0)") auto
    note rs = report_sent[OF qs message_ok_slot s vq]
    have "slot_success sys receiver r info 0 cs w = (cs\<lparr>csVerify := vq\<rparr>, set_queues qm w)"
      using s rs(1) by (simp add: slot_success_def sendSuccessReport_def slot_message_def)
    then show ?thesis using rs(2,4) set by (intro exI[of _ "set_queues qm w"]) simp
  qed
qed

lemma cs_readable_queues: "queues_ok qm \<Longrightarrow> cs_readable w a p \<Longrightarrow> cs_readable (set_queues qm w) a p"
  by (simp add: cs_readable_def)

lemma slot_info_found:
  assumes "cs_ok cs" "fm_abs (commandMap cs) q = Some info"
  shows "FixedMap_find_iter (commandMap cs) q < fm_size (commandMap cs)" "slot_key cs (FixedMap_find_iter (commandMap cs) q) = q"
    "slot_info cs (FixedMap_find_iter (commandMap cs) q) = info"
proof -
  have inv: "fm_inv (commandMap cs)" using assms(1) by (simp add: cs_ok_def)
  have w: "waiting cs q \<noteq> None" using assms(2) by (simp add: waiting_def)
  show f: "FixedMap_find_iter (commandMap cs) q < fm_size (commandMap cs)" "slot_key cs (FixedMap_find_iter (commandMap cs) q) = q"
    using find_slot(2)[OF assms(1) w] by simp_all
  have "FixedMap_value (commandMap cs) q = Some info" using FixedMap_value_abs[OF inv] assms(2) by simp
  then show "slot_info cs (FixedMap_find_iter (commandMap cs) q) = info"
    by (auto simp: FixedMap_value_def FixedMap_find_def FixedMap_find_iter_def slot_info_def Let_def split: if_splits)
qed

lemma completion_serves_fifo:
  assumes ok: "cs_ok cs" and info: "fm_abs (commandMap cs) q = Some info" and s: "getSender sys reply = q" "q \<noteq> NO_QUEUE" "q \<noteq> vq"
    and h: "hooks_ok h" and vq: "vq = report_queue receiver (csVerify cs)" and qs: "queues_ok (queues w)"
    and rep: "handleReply h reply (ciCommand info) (ciState info) (setCommand sys (newCommandMessage sys) CMD_NONE) (ciObjectId info)
          (failureParameter1 cs, failureParameter2 cs) (child cs) = (result, next, state, False, fp, c)"
      "result \<in> {RETURN_OK, EXECUTION_COMPLETE, NO_STEP_MESSAGE}" "getCommand sys next = CMD_NONE"
    and xs: "xs = fifo_abs (ciFifo info)" "distinct xs" "\<forall>a \<in> set xs. cs_readable w a (P a)"
    and room: "queue_room (queues w) vq (1 + 2 * length xs)"
  shows "\<exists>cs' w1 w'. handleCommandMessage sys receiver h reply cs w = Some (cs', w') \<and> cs_ok cs'
     \<and> tcStore (tcSide w1) = tcStore (tcSide w)
     \<and> queue_content (queues w1) vq = queue_content (queues w) vq @ [slot_message sys COMPLETION_SUCCESS info 0]
     \<and> fifo_served sys P vq q xs cs w1 cs' w'"
proof -
  let ?i = "FixedMap_find_iter (commandMap cs) q"
  note f = slot_info_found[OF ok info]
  have il: "?i < length (fm_map (commandMap cs))" using ok f(1) by (auto simp: cs_ok_def fm_inv_def)
  obtain fp1 fp2 where fp: "fp = (fp1, fp2)" by (cases fp)
  have nr: "result \<noteq> RETURN_FAILED" "result \<noteq> INVALID_REPLY" using rep(2) by (auto simp: retcode)
  let ?cs1 = "(slot_update ?i (\<lambda>info. info\<lparr>ciState := state\<rparr>) cs)\<lparr>failureParameter1 := fp1, failureParameter2 := fp2, child := c\<rparr>"
  let ?cs2 = "slot_update ?i (\<lambda>info. info\<lparr>ciCommand := getCommand sys next\<rparr>) ?cs1"
  have same: "same_slots ?i cs ?cs2" by (intro same_slots_update) (simp_all add: same_slots_simps same_slots_update)
  note sw = same_slots_waiting(1)[OF same] same_slots_waiting(2)[OF same ok]
  have vq2: "vq = report_queue receiver (csVerify ?cs2)" using vq by simp
  let ?info2 = "slot_info ?cs2 ?i"
  have info2: "slot_message sys r ?info2 e = slot_message sys r info e" for r e using il f(3) by (simp add: slot_message_def)
  obtain w1 where w1: "slot_success sys receiver COMPLETION_SUCCESS ?info2 0 ?cs2 w = (?cs2\<lparr>csVerify := vq\<rparr>, w1)" "w1 = set_queues (queues w1) w"
     "queues_ok (queues w1)" "queue_room (queues w1) vq (2 * length xs)"
     "queue_content (queues w1) vq = queue_content (queues w) vq @ [slot_message sys COMPLETION_SUCCESS info 0]"
    using slot_reported(2)[OF qs vq2, of sys COMPLETION_SUCCESS ?info2] room unfolding info2 by auto
  let ?cs3 = "?cs2\<lparr>csVerify := vq\<rparr>"
  have call: "handleCommandMessage sys receiver h reply cs w = map_option snd (checkAndExecuteFifo sys receiver h ?i ?cs3 w1)"
  proof -
    have ni: "?i \<noteq> fm_size (commandMap cs)" using f(1) by simp
    have res: "result = EXECUTION_COMPLETE \<or> result = RETURN_OK \<or> result = NO_STEP_MESSAGE" using rep(2) by auto
    have "handleCommandMessage sys receiver h reply cs w = handleReplyHandlerResult sys receiver h result ?i next reply False ?cs1 w"
      using rep(1) s(1,2) f(3) ni res nr by (simp add: handleCommandMessage_def Let_def fp)
    also have "\<dots> = map_option snd (checkAndExecuteFifo sys receiver h ?i ?cs3 w1)"
      using rep(3) w1(1) by (simp add: handleReplyHandlerResult_def send_command_def Let_def)
    finally show ?thesis .
  qed
  have same3: "same_slots ?i cs ?cs3" using same by (simp add: same_slots_simps)
  note sw3 = same_slots_waiting(1)[OF same3] same_slots_waiting(2)[OF same3 ok]
  have i3: "?i < fm_size (commandMap ?cs3)" "fifo_abs (ciFifo (slot_info ?cs3 ?i)) = xs" "slot_key ?cs3 ?i = q"
    using f xs(1) il by simp_all
  have vq3: "vq = report_queue receiver (csVerify ?cs3)" using vq by simp
  have held: "\<forall>a \<in> set xs. cs_readable w1 a (P a)" using xs(3) cs_readable_queues[OF w1(3)] w1(2) by metis
  obtain it cs' w' where c: "checkAndExecuteFifo sys receiver h ?i ?cs3 w1 = Some (it, cs', w')" "cs_ok cs'" "fifo_served sys P vq q xs ?cs3 w1 cs' w'"
    using fifo_chain[OF sw3(2) i3 s(3) h vq3 xs(2) held w1(4)] by blast
  have "fifo_served sys P vq q xs cs w1 cs' w'" using c(3) unfolding fifo_served_def sw3(1) .
  moreover have "tcStore (tcSide w1) = tcStore (tcSide w)" by (subst w1(2)) simp
  ultimately show ?thesis using call c(1,2) w1(5) by auto
qed

subsection \<open>Timeouts\<close>

lemma mset_erased:
  assumes "i < n" "n \<le> length xs"
  shows "mset (drop i (take (n - 1) (xs[i := xs ! (n - 1)]))) = mset (drop (Suc i) (take n xs))"
proof (cases "i = n - 1")
  case True
  then show ?thesis using assms by simp
next
  case False
  then have i: "i < n - 1" using assms by simp
  have t: "take n xs = take (n - 1) xs @ [xs ! (n - 1)]" using assms by (metis Suc_pred' i gr_implies_not0 not_gr_zero take_Suc_conv_app_nth less_le_trans diff_less zero_less_one)
  have "drop i (take (n - 1) (xs[i := xs ! (n - 1)])) = xs ! (n - 1) # drop (Suc i) (take (n - 1) xs)"
    using i assms by (simp add: take_update_swap Cons_nth_drop_Suc[symmetric] drop_update_swap)
  then show ?thesis unfolding t using i assms by simp
qed

abbreviation late :: "'c commanding_service \<Rightarrow> u32 \<Rightarrow> u32 \<times> command_info \<Rightarrow> bool" where
  "late cs uptime p \<equiv> timed_out cs uptime (snd p)"

lemma checkTimeout_loop_empty:
  assumes "cs_ok cs" "i \<le> fm_size (commandMap cs)" "\<forall>j < fm_size (commandMap cs). fifo_abs (ciFifo (slot_info cs j)) = []"
    and "queues_ok (queues w)" "vq = report_queue receiver (csVerify cs)"
    and "queue_room (queues w) vq (length (filter (late cs uptime) (drop i (fm_used (commandMap cs)))))"
  shows "\<exists>cs' w' rs. checkTimeout_loop sys receiver h uptime i cs w = Some (cs', w') \<and> cs_ok cs'
     \<and> take i (fm_used (commandMap cs')) = take i (fm_used (commandMap cs))
     \<and> mset (drop i (fm_used (commandMap cs'))) = filter_mset (\<lambda>p. \<not> late cs uptime p) (mset (drop i (fm_used (commandMap cs))))
     \<and> queue_content (queues w') vq = queue_content (queues w) vq @ rs
     \<and> mset rs = image_mset (\<lambda>p. slot_message sys COMPLETION_FAILURE (snd p) TIMEOUT)
          (filter_mset (late cs uptime) (mset (drop i (fm_used (commandMap cs)))))
     \<and> w' = set_queues (queues w') w"
  using assms
proof (induction "fm_size (commandMap cs) - i" arbitrary: i cs w rule: less_induct)
  case less
  let ?m = "commandMap cs" and ?n = "fm_size (commandMap cs)"
  have inv: "fm_inv ?m" and nl: "?n \<le> length (fm_map ?m)" using less.prems(1) by (auto simp: cs_ok_def fm_inv_def)
  have lu: "length (fm_used ?m) = ?n" using length_fm_used[OF inv] .
  show ?case
  proof (cases "i = ?n")
    case True
    have "set_queues (queues w) w = w" by (simp add: set_queues_def)
    then show ?thesis using True less.prems(1) lu by (subst checkTimeout_loop.simps) (simp add: exI[of _ "[]"])
  next
    case False
    then have i: "i < ?n" using less.prems(2) by simp
    then have il: "\<not> length (fm_map ?m) \<le> i" using nl by simp
    let ?x = "fm_map ?m ! i"
    have x: "drop i (fm_used ?m) = ?x # drop (Suc i) (fm_used ?m)"
      using i lu by (metis Cons_nth_drop_Suc fm_used_nth)
    have sx: "snd ?x = slot_info cs i" by (simp add: slot_info_def)
    show ?thesis
    proof (cases "timed_out cs uptime (slot_info cs i)")
      case no: False
      have step: "checkTimeout_loop sys receiver h uptime i cs w = checkTimeout_loop sys receiver h uptime (Suc i) cs w"
        using False il no by (subst checkTimeout_loop.simps) simp
      have d: "?n - Suc i < ?n - i" and si: "Suc i \<le> ?n" using i by simp_all
      have room: "queue_room (queues w) vq (length (filter (late cs uptime) (drop (Suc i) (fm_used ?m))))"
        using less.prems(6) no unfolding x by (simp add: sx)
      obtain cs' w' rs where t: "checkTimeout_loop sys receiver h uptime (Suc i) cs w = Some (cs', w')" "cs_ok cs'"
         "take (Suc i) (fm_used (commandMap cs')) = take (Suc i) (fm_used ?m)"
         "mset (drop (Suc i) (fm_used (commandMap cs'))) = filter_mset (\<lambda>p. \<not> late cs uptime p) (mset (drop (Suc i) (fm_used ?m)))"
         "queue_content (queues w') vq = queue_content (queues w) vq @ rs"
         "mset rs = image_mset (\<lambda>p. slot_message sys COMPLETION_FAILURE (snd p) TIMEOUT) (filter_mset (late cs uptime) (mset (drop (Suc i) (fm_used ?m))))"
         "w' = set_queues (queues w') w"
        using less.hyps[OF d less.prems(1) si less.prems(3-5) room] by blast
      have k: "take i (fm_used (commandMap cs')) = take i (fm_used ?m)" using arg_cong[OF t(3), of "take i"] by (simp add: min_def)
      have "i < length (fm_used (commandMap cs'))"
      proof -
        have "length (take (Suc i) (fm_used (commandMap cs'))) = Suc i" unfolding t(3) using i lu by simp
        then show ?thesis by simp
      qed
      then have "drop i (fm_used (commandMap cs')) = fm_used (commandMap cs') ! i # drop (Suc i) (fm_used (commandMap cs'))"
        by (simp add: Cons_nth_drop_Suc)
      moreover have "fm_used (commandMap cs') ! i = ?x"
        using t(3) i by (metis fm_used_nth lessI nth_take)
      ultimately have x': "drop i (fm_used (commandMap cs')) = ?x # drop (Suc i) (fm_used (commandMap cs'))" by simp
      have nx: "\<not> late cs uptime ?x" using no by (simp add: sx)
      have "mset (drop i (fm_used (commandMap cs'))) = filter_mset (\<lambda>p. \<not> late cs uptime p) (mset (drop i (fm_used ?m)))"
        unfolding x x' using t(4) nx by simp
      moreover have "mset rs = image_mset (\<lambda>p. slot_message sys COMPLETION_FAILURE (snd p) TIMEOUT)
          (filter_mset (late cs uptime) (mset (drop i (fm_used ?m))))"
        unfolding x using t(6) nx by simp
      ultimately show ?thesis using step t(1,2,5,7) k by (intro exI[of _ cs'] exI[of _ w'] exI[of _ rs]) simp
    next
      case late: True
      obtain w1 where w1: "slot_report sys receiver COMPLETION_FAILURE (slot_info cs i) TIMEOUT 0 0 0 cs w = (cs\<lparr>csVerify := vq\<rparr>, w1)"
         "w1 = set_queues (queues w1) w" "queues_ok (queues w1)"
         "\<forall>n. queue_room (queues w) vq (Suc n) \<longrightarrow> queue_room (queues w1) vq n
          \<and> queue_content (queues w1) vq = queue_content (queues w) vq @ [slot_message sys COMPLETION_FAILURE (slot_info cs i) TIMEOUT]"
        using slot_reported(1)[OF less.prems(4,5), where sys = sys and r = COMPLETION_FAILURE and info = "slot_info cs i" and code = TIMEOUT]
        by (elim exE conjE) (rule that, assumption+)
      let ?cs1 = "cs\<lparr>csVerify := vq\<rparr>"
      have ok1: "cs_ok ?cs1" "i < fm_size (commandMap ?cs1)" "fifo_abs (ciFifo (slot_info ?cs1 i)) = []"
        using less.prems(1,3) i by (simp_all add: cs_ok_def)
      obtain m where m0: "checkAndExecuteFifo sys receiver h i ?cs1 w1 = Some (int i - 1, ?cs1\<lparr>commandMap := m\<rparr>, w1)" "cs_ok (?cs1\<lparr>commandMap := m\<rparr>)"
         "fm_size m = fm_size (commandMap ?cs1) - 1"
         "fm_map m = (fm_map (commandMap ?cs1))[i := fm_map (commandMap ?cs1) ! (fm_size (commandMap ?cs1) - 1)]"
        using check_empty_fifo[OF ok1, of sys receiver h w1] by blast
      have "commandMap ?cs1 = ?m" by simp
      note m = m0[unfolded this]
      let ?cs2 = "?cs1\<lparr>commandMap := m\<rparr>"
      have step: "checkTimeout_loop sys receiver h uptime i cs w = checkTimeout_loop sys receiver h uptime i ?cs2 w1"
        using False il late w1(1) m(1) by (subst checkTimeout_loop.simps) simp
      have "i \<le> ?n - 1" using i by simp
      then have tk: "take i (fm_used m) = take i (fm_used ?m)" using i by (simp add: fm_used_def m(3,4) min_def not_le)
      have dr: "mset (drop i (fm_used m)) = mset (drop (Suc i) (fm_used ?m))"
        unfolding fm_used_def m(3,4) using mset_erased[OF i nl] .
      have lt: "timed_out ?cs2 uptime = timed_out cs uptime" by (simp add: timed_out_def fun_eq_iff)
      have "length (filter (late cs uptime) (drop i (fm_used m))) = length (filter (late cs uptime) (drop (Suc i) (fm_used ?m)))"
        using arg_cong[OF dr, of "\<lambda>M. size (filter_mset (late cs uptime) M)"] by (metis mset_filter size_mset)
      moreover have r: "queue_room (queues w) vq (Suc (length (filter (late cs uptime) (drop (Suc i) (fm_used ?m)))))"
        using less.prems(6) late unfolding x by (simp add: sx)
      ultimately have room: "queue_room (queues w1) vq (length (filter (late ?cs2 uptime) (drop i (fm_used (commandMap ?cs2)))))"
        using w1(4) lt by simp
      have d: "fm_size (commandMap ?cs2) - i < ?n - i" "i \<le> fm_size (commandMap ?cs2)" using i m(3) by simp_all
      have empty: "\<forall>j < fm_size (commandMap ?cs2). fifo_abs (ciFifo (slot_info ?cs2 j)) = []"
      proof (intro allI impI)
        fix j assume "j < fm_size (commandMap ?cs2)"
        then have "j < ?n" "?n - 1 < ?n" using m(3) i by simp_all
        then show "fifo_abs (ciFifo (slot_info ?cs2 j)) = []"
          using less.prems(3) il by (cases "j = i") (auto simp: slot_info_def m(4))
      qed
      have vq2: "vq = report_queue receiver (csVerify ?cs2)" using less.prems(5) by simp
      obtain cs' w' rs where t: "checkTimeout_loop sys receiver h uptime i ?cs2 w1 = Some (cs', w')" "cs_ok cs'"
         "take i (fm_used (commandMap cs')) = take i (fm_used m)"
         "mset (drop i (fm_used (commandMap cs'))) = filter_mset (\<lambda>p. \<not> late cs uptime p) (mset (drop i (fm_used m)))"
         "queue_content (queues w') vq = queue_content (queues w1) vq @ rs"
         "mset rs = image_mset (\<lambda>p. slot_message sys COMPLETION_FAILURE (snd p) TIMEOUT) (filter_mset (late cs uptime) (mset (drop i (fm_used m))))"
         "w' = set_queues (queues w') w1"
        using less.hyps[OF d(1) m(2) d(2) empty w1(3) vq2 room] unfolding lt by auto
      have "set_queues (queues w') w1 = set_queues (queues w') w" by (subst w1(2)) (simp add: set_queues_def)
      then have "w' = set_queues (queues w') w" using t(7) by simp
      then show ?thesis using step t(1-6) w1(4) r tk late unfolding dr x
        by (intro exI[of _ cs'] exI[of _ w'] exI[of _ "slot_message sys COMPLETION_FAILURE (slot_info cs i) TIMEOUT # rs"]) (simp add: sx)
    qed
  qed
qed

end
