(* ===== verification/CommandingResults.thy ===== *)
theory CommandingResults
  imports CommandingSlots
begin

text \<open>
  The properties of \<open>CommandingServiceBase\<close>: requests, completed commands, timeouts, and the loop over the
  slots that leaves the map.
\<close>

subsection \<open>The loop over the slots\<close>

lemma checkTimeout_skip:
  assumes "i \<le> k" "k \<le> fm_size (commandMap cs)" "fm_size (commandMap cs) \<le> length (fm_map (commandMap cs))"
    and "\<forall>j. i \<le> j \<and> j < k \<longrightarrow> \<not> timed_out cs uptime (slot_info cs j)"
  shows "checkTimeout_loop sys receiver h uptime i cs w = checkTimeout_loop sys receiver h uptime k cs w"
  using assms
proof (induction i rule: inc_induct)
  case (step i)
  then have "checkTimeout_loop sys receiver h uptime i cs w = checkTimeout_loop sys receiver h uptime (Suc i) cs w"
    by (subst checkTimeout_loop.simps) simp
  then show ?case using step by simp
qed simp

lemma checkTimeout_beyond:
  assumes "fm_size (commandMap cs) < i" "\<forall>j. i \<le> j \<and> j < length (fm_map (commandMap cs)) \<longrightarrow> \<not> timed_out cs uptime (slot_info cs j)"
  shows "checkTimeout_loop sys receiver h uptime i cs w = None"
  using assms
proof (induction "length (fm_map (commandMap cs)) - i" arbitrary: i)
  case 0
  then show ?case by (subst checkTimeout_loop.simps) simp
next
  case (Suc n)
  then have "checkTimeout_loop sys receiver h uptime i cs w = checkTimeout_loop sys receiver h uptime (Suc i) cs w"
    by (subst checkTimeout_loop.simps) simp
  then show ?case using Suc by simp
qed

text \<open>A command that the child refuses.\<close>

definition refuses :: "'c command_hooks \<Rightarrow> bool" where
  "refuses h \<longleftrightarrow> (\<forall>sub d n st ob fp c. fst (prepareCommand h sub d n st ob fp c) \<notin> {RETURN_OK, EXECUTION_COMPLETE})"

lemma start_refused:
  assumes "start_command sys receiver h i sp cs w = Some (b, cs', w')" "refuses h"
  shows "\<not> b" "timeoutSeconds cs' = timeoutSeconds cs"
proof -
  have r: "prepareCommand h sub d n st ob fp c = (result, x) \<Longrightarrow> result \<noteq> RETURN_OK \<and> result \<noteq> EXECUTION_COMPLETE"
    for sub d n st ob fp c result x
    using assms(2) unfolding refuses_def by (metis fst_conv insertCI)
  obtain x where x: "fst x \<noteq> RETURN_OK" "fst x \<noteq> EXECUTION_COMPLETE"
    "b = False \<and> (\<exists>cs1. timeoutSeconds cs1 = timeoutSeconds cs \<and> rejectPacket sys receiver START_FAILURE sp (fst x) cs1 w = Some (cs', w'))"
    using assms(1) r unfolding start_command_def by (force simp: Let_def split: prod.splits if_splits bind_splits)
  then show "\<not> b" by simp
  obtain cs1 where c: "timeoutSeconds cs1 = timeoutSeconds cs" "rejectPacket sys receiver START_FAILURE sp (fst x) cs1 w = Some (cs', w')"
    using x(3) by blast
  show "timeoutSeconds cs' = timeoutSeconds cs"
    using c(1) by (subst packet_report_keeps(1)[OF c(2)]) simp
qed

text \<open>
  A slot that is not yet the last one of the array: the copy of the iterator is moved back, the one of the
  loop goes on behind the last slot.
\<close>

lemma last_slot_refused:
  assumes ok: "cs_ok cs" and i: "Suc i = fm_size (commandMap cs)" "timed_out cs uptime (slot_info cs i)" "slot_key cs i \<noteq> vq"
    and x: "fifo_abs (ciFifo (slot_info cs i)) = [a]" "cs_readable w a p" and h: "hooks_ok h" "refuses h"
    and vq: "vq = report_queue receiver (csVerify cs)"
    and stale: "\<forall>j. i < j \<and> j < length (fm_map (commandMap cs)) \<longrightarrow> \<not> timed_out cs uptime (slot_info cs j)"
  shows "checkTimeout_loop sys receiver h uptime i cs w = None"
proof -
  let ?m = "commandMap cs"
  have il: "i < length (fm_map ?m)" and inv: "fifo_inv (ciFifo (slot_info cs i))" using ok i(1) by (auto simp: cs_ok_def fm_inv_def)
  have qs: "queues_ok (queues w)" using x(2) by (simp add: cs_readable_def)
  obtain w1 where w1: "slot_report sys receiver COMPLETION_FAILURE (slot_info cs i) TIMEOUT 0 0 0 cs w = (cs\<lparr>csVerify := vq\<rparr>, w1)"
     "w1 = set_queues (queues w1) w" "queues_ok (queues w1)"
    using slot_reported(1)[OF qs vq, where sys = sys and r = COMPLETION_FAILURE and info = "slot_info cs i" and code = TIMEOUT]
    by (elim exE conjE) (rule that, assumption+)
  let ?cs1 = "cs\<lparr>csVerify := vq\<rparr>"
  have r1: "cs_readable w1 a p" using cs_readable_queues[OF w1(3) x(2)] w1(2) by simp
  obtain f where f: "FIFO_retrieve (ciFifo (slot_info ?cs1 i)) True = (RETURN_OK, Some a, f)" "fifo_inv f" "fifo_abs f = []"
     "maxCapacity f = COMMAND_INFO_FIFO_DEPTH"
    using FIFO_retrieve_ok[OF inv x(1)] ok i(1) by (auto simp: cs_ok_def)
  let ?cs2 = "slot_update i (\<lambda>info. info\<lparr>ciFifo := f\<rparr>) ?cs1"
  have ok1: "cs_ok ?cs1" "i < fm_size (commandMap ?cs1)" using ok i(1) by (simp_all add: cs_ok_def)
  note ok2 = slot_update_waiting(1)[OF ok1 f(2,4)]
  have il2: "i < length (fm_map (commandMap ?cs2))" using il by simp
  have vq2: "vq = report_queue receiver (csVerify ?cs2)" "slot_key ?cs2 i \<noteq> vq" using vq i(3) by simp_all
  obtain b cs3 w3 where s: "start_command sys receiver h i (setStoreAddress (tcStore (tcSide w1)) a) ?cs2 w1 = Some (b, cs3, w3)" "same_slots i ?cs2 cs3"
    using start_command_spec[OF r1 h(1) vq2(1) il2 vq2(2)] by blast
  note ref = start_refused[OF s(1) h(2)]
  have i3: "i < fm_size (commandMap cs3)" "fifo_abs (ciFifo (slot_info cs3 i)) = []" "fm_size (commandMap cs3) = Suc i"
    using s(2) i(1) il f(3) by (simp_all add: same_slots_def)
  obtain m where m: "checkAndExecuteFifo sys receiver h i cs3 w3 = Some (int i - 1, cs3\<lparr>commandMap := m\<rparr>, w3)" "fm_size m = fm_size (commandMap cs3) - 1"
     "fm_map m = (fm_map (commandMap cs3))[i := fm_map (commandMap cs3) ! (fm_size (commandMap cs3) - 1)]"
    using check_empty_fifo[OF same_slots_waiting(2)[OF s(2) ok2] i3(1,2), of sys receiver h w3] by blast
  let ?cs4 = "cs3\<lparr>commandMap := m\<rparr>"
  have fifo: "checkAndExecuteFifo sys receiver h i ?cs1 w1 = Some (int i, ?cs4, w3)"
    using il f(1) s(1) ref(1) m(1) by (simp add: checkAndExecuteFifo.simps[of sys receiver h i ?cs1] startExecution.simps)
  have "timeoutSeconds ?cs4 = timeoutSeconds cs" using ref(2) by simp
  moreover have "slot_info ?cs4 j = slot_info cs j" if "i < j" for j
    using that s(2) i3(3) m(3) by (simp add: slot_info_def same_slots_def) (simp add: slot_update_def)
  moreover have "length (fm_map m) = length (fm_map (commandMap cs))" using s(2) m(3) by (simp add: same_slots_def)
  ultimately have beyond: "checkTimeout_loop sys receiver h uptime (Suc i) ?cs4 w3 = None"
    using stale m(2) i3(3) by (intro checkTimeout_beyond) (auto simp: timed_out_def)
  have "checkTimeout_loop sys receiver h uptime i cs w = checkTimeout_loop sys receiver h uptime (nat (int i + 1)) ?cs4 w3"
    using i(1,2) il w1(1) fifo by (subst checkTimeout_loop.simps) simp
  moreover have "nat (int i + 1) = Suc i" by simp
  ultimately show ?thesis using beyond by simp
qed

subsection \<open>Properties\<close>

text \<open>
  C29. No request of a commanding service is lost: whatever the child class decides, one request leaves the
  service in order and is either put at the end of the FIFO of its object (not more than three wait), or
  refused with one failure report and deleted, or started with a start report in a new slot and deleted, or
  executed at once with a start and a completion report and deleted; the other packets of the store are kept.
\<close>

theorem requests_accounted:
  assumes "cs_readable w a p" "hooks_ok h" "vq = report_queue receiver (csVerify cs)" "queue_room (queues w) vq 2"
    and "cs_ok cs" "length (fifo_values (ciFifo raw)) = COMMAND_INFO_FIFO_DEPTH"
    and "\<forall>sub d n c. fst (snd (getMessageQueueAndObject h sub d n c)) \<noteq> vq"
  shows "\<exists>cs' w'. cs_request sys receiver h raw a cs w = Some (cs', w') \<and> cs_ok cs' \<and> accounted sys p a vq cs w cs' w'
     \<and> (\<forall>b. b \<noteq> a \<longrightarrow> pool_abs (tcStore (tcSide w')) b = pool_abs (tcStore (tcSide w)) b)"
  using request_accounted[OF assms, of sys] by blast

text \<open>
  C30. The reply that completes a command is reported, and then the commands that wait for the object are
  taken from its FIFO in their order, each with its reports and deleted, up to the first one that keeps
  running; when none does, the slot is given back.
\<close>

theorem completed_command_serves_queue:
  assumes "cs_ok cs" "fm_abs (commandMap cs) q = Some info" "getSender sys reply = q" "q \<noteq> NO_QUEUE" "q \<noteq> vq"
    and "hooks_ok h" "vq = report_queue receiver (csVerify cs)" "queues_ok (queues w)"
    and "handleReply h reply (ciCommand info) (ciState info) (setCommand sys (newCommandMessage sys) CMD_NONE) (ciObjectId info)
          (failureParameter1 cs, failureParameter2 cs) (child cs) = (result, next, state, False, fp, c)"
      "result \<in> {RETURN_OK, EXECUTION_COMPLETE, NO_STEP_MESSAGE}" "getCommand sys next = CMD_NONE"
    and "xs = fifo_abs (ciFifo info)" "distinct xs" "\<forall>a \<in> set xs. cs_readable w a (P a)"
    and "queue_room (queues w) vq (1 + 2 * length xs)"
  shows "\<exists>cs' w1 w'. handleCommandMessage sys receiver h reply cs w = Some (cs', w') \<and> cs_ok cs'
     \<and> tcStore (tcSide w1) = tcStore (tcSide w)
     \<and> queue_content (queues w1) vq = queue_content (queues w) vq @ [slot_message sys COMPLETION_SUCCESS info 0]
     \<and> fifo_served sys P vq q xs cs w1 cs' w'"
  by (rule completion_serves_fifo[OF assms])

text \<open>
  C31. When no command waits in a FIFO, the timeout check ends, removes exactly the slots whose time is over
  (none is skipped, although slots are moved while the loop runs) and reports each of them once as failed
  with the code \<open>TIMEOUT\<close>.
\<close>

theorem timeouts_settled:
  assumes "cs_ok cs" "\<forall>j < fm_size (commandMap cs). fifo_abs (ciFifo (slot_info cs j)) = []" "queues_ok (queues w)"
    and "vq = report_queue receiver (csVerify cs)" "getUptime h (child cs) = (uptime, c)"
    and "queue_room (queues w) vq (length (filter (late cs uptime) (fm_used (commandMap cs))))"
  shows "\<exists>cs' w' rs. checkTimeout sys receiver h cs w = Some (cs', w') \<and> cs_ok cs'
     \<and> mset (fm_used (commandMap cs')) = filter_mset (\<lambda>p. \<not> late cs uptime p) (mset (fm_used (commandMap cs)))
     \<and> queue_content (queues w') vq = queue_content (queues w) vq @ rs
     \<and> mset rs = image_mset (\<lambda>p. slot_message sys COMPLETION_FAILURE (snd p) TIMEOUT)
          (filter_mset (late cs uptime) (mset (fm_used (commandMap cs))))"
proof -
  let ?cs = "cs\<lparr>child := c\<rparr>"
  have t: "timed_out ?cs = timed_out cs" by (simp add: timed_out_def fun_eq_iff)
  have "cs_ok ?cs" "\<forall>j < fm_size (commandMap ?cs). fifo_abs (ciFifo (slot_info ?cs j)) = []"
    using assms(1,2) by (simp_all add: cs_ok_def)
  then show ?thesis
    using checkTimeout_loop_empty[of ?cs 0 w vq receiver uptime sys h, unfolded t] assms(3-6) by (auto simp: checkTimeout_def)
qed

text \<open>
  C32. The loop of \<open>checkTimeout\<close> leaves the map: when the last slot has timed out, a command waits for its
  object and the child class refuses it, \<open>startExecution\<close> erases the slot through a copy of the iterator; the
  iterator of the loop is not moved back, steps over the end of the map, and reads behind the array.
\<close>

theorem timeout_leaves_map:
  assumes "cs_ok cs" "Suc i = fm_size (commandMap cs)" "getUptime h (child cs) = (uptime, c)"
    and "\<forall>j < length (fm_map (commandMap cs)). timed_out cs uptime (slot_info cs j) \<longleftrightarrow> j = i"
    and "fifo_abs (ciFifo (slot_info cs i)) = [a]" "cs_readable w a p" "hooks_ok h" "refuses h"
    and "slot_key cs i \<noteq> report_queue receiver (csVerify cs)"
  shows "checkTimeout sys receiver h cs w = None"
proof -
  let ?cs = "cs\<lparr>child := c\<rparr>"
  have l: "i < length (fm_map (commandMap cs))" "fm_size (commandMap ?cs) \<le> length (fm_map (commandMap ?cs))"
    using assms(1,2) by (auto simp: cs_ok_def fm_inv_def)
  have t: "timed_out ?cs = timed_out cs" by (simp add: timed_out_def fun_eq_iff)
  have "checkTimeout_loop sys receiver h uptime 0 ?cs w = checkTimeout_loop sys receiver h uptime i ?cs w"
    using assms(2,4) l by (intro checkTimeout_skip) (auto simp: t)
  also have "\<dots> = None"
    using assms(1,2,4-9) l by (intro last_slot_refused[where vq = "report_queue receiver (csVerify cs)" and a = a and p = p]) (auto simp: t cs_ok_def)
  finally show ?thesis using assms(3) by (simp add: checkTimeout_def)
qed

subsection \<open>Witnesses\<close>

text \<open>
  A service with one slot, for the object with queue 2, whose command started at 0 and has timed out at the
  uptime 100000; \<open>n\<close> commands wait. The child gives \<open>r\<close> for every command.
\<close>

definition sample_info :: "nat \<Rightarrow> command_info" where
  "sample_info n = \<lparr>ciAckFlags = 9, ciTcPacketId = 0x1873, ciTcSequenceControl = 0xC000, uptimeOfStart = 0, ciStep = 0, ciSubservice = 1,
     ciState = 0, ciCommand = 0, ciObjectId = 0x44,
     ciFifo = (FIFOBase_new (replicate 3 tc_address) 3)\<lparr>writeIndex := n, currentSize := n\<rparr>\<rparr>"

definition sample_commanding :: "nat \<Rightarrow> u32 commanding_service" where
  "sample_commanding n = \<lparr>csApid = 0x73, csService = 8, timeoutSeconds = 60, tmPacketCounter = 0, commandQueue = 5, requestQueue = 3, csVerify = 4,
     commandMap = \<lparr>fm_map = [(2, sample_info n)], fm_size = 1\<rparr>, failureParameter1 = 0, failureParameter2 = 0, child = 100000\<rparr>"

definition sample_hooks :: "u16 \<Rightarrow> u32 command_hooks" where
  "sample_hooks r = \<lparr>isValidSubservice = (\<lambda>_. RETURN_OK), getMessageQueueAndObject = (\<lambda>_ _ _ c. (RETURN_OK, 2, 0x44, c)),
     prepareCommand = (\<lambda>_ _ _ st _ fp c. (r, newCommandMessage LITTLE_ENDIAN, st, fp, c)),
     handleReply = (\<lambda>_ _ st nx _ fp c. (EXECUTION_COMPLETE, nx, st, False, fp, c)),
     handleUnrequestedReply = (\<lambda>_ c. c), clearCommand = (\<lambda>_ c. c), doPeriodicOperation = (\<lambda>c. c), getUptime = (\<lambda>c. (c, c))\<rparr>"

lemma sample_hooks_ok: "hooks_ok (sample_hooks r)"
  by (simp add: hooks_ok_def sample_hooks_def newCommandMessage_def setCommand_def setMessageSize_def newMessage_def message_ok_def
      message_inv_def mq_sizes DEFAULT_COMMAND_MESSAGE_SIZE_def MINIMUM_COMMAND_MESSAGE_SIZE_def CMD_HEADER_SIZE_def)

lemma sample_commanding_ok:
  assumes "n \<le> 1" shows "cs_ok (sample_commanding n)" "fifo_abs (ciFifo (slot_info (sample_commanding n) 0)) = replicate n tc_address"
    "slot_info (sample_commanding n) 0 = sample_info n" "slot_key (sample_commanding n) 0 = 2" "fm_size (commandMap (sample_commanding n)) = 1"
    "length (fm_map (commandMap (sample_commanding n))) = 1" "csVerify (sample_commanding n) = 4" "child (sample_commanding n) = 100000"
    "fm_used (commandMap (sample_commanding n)) = [(2, sample_info n)]" "timed_out (sample_commanding n) 100000 (sample_info n)"
    "fm_abs (commandMap (sample_commanding n)) 2 = Some (sample_info n)"
proof -
  have n: "n = 0 \<or> n = 1" using assms by auto
  show "cs_ok (sample_commanding n)" "fifo_abs (ciFifo (slot_info (sample_commanding n) 0)) = replicate n tc_address"
    using n by (auto simp: cs_ok_def sample_commanding_def sample_info_def fm_inv_def fm_used_def slot_info_def fifo_inv_def FIFOBase_new_def
        COMMAND_INFO_FIFO_DEPTH_def fifo_abs_def)
qed (simp_all add: sample_commanding_def slot_info_def slot_key_def fm_used_def fm_abs_def timed_out_def sample_info_def)

lemma services_readable: "cs_readable services_world tc_address sample_tc"
  using tc_store_ok[OF sample_sizes(1)] by (simp add: cs_readable_def services_world_simps sample_sizes)

lemma services_report_room: "n \<le> 3 \<Longrightarrow> queue_room (queues services_world) 4 n" "report_queue (Some 4) 4 = 4"
  by (simp_all add: queue_room_def services_world_def services_queue_def newHostQueue_def report_queue_def reporter_initialize_def)

lemma requests_accounted_witness:
  "\<exists>cs' w'. cs_request LITTLE_ENDIAN (Some 4) (sample_hooks INVALID_TC) (sample_info 0) tc_address (sample_commanding 1) services_world
      = Some (cs', w') \<and> accounted LITTLE_ENDIAN sample_tc tc_address 4 (sample_commanding 1) services_world cs' w'"
proof -
  have a: "4 = report_queue (Some 4) (csVerify (sample_commanding 1))" "cs_ok (sample_commanding 1)"
    using services_report_room(2) sample_commanding_ok[of 1] by simp_all
  have r: "length (fifo_values (ciFifo (sample_info 0))) = COMMAND_INFO_FIFO_DEPTH"
    by (simp add: sample_info_def FIFOBase_new_def COMMAND_INFO_FIFO_DEPTH_def)
  have h: "\<forall>sub d n c. fst (snd (getMessageQueueAndObject (sample_hooks INVALID_TC) sub d n c)) \<noteq> 4" by (simp add: sample_hooks_def)
  have room: "queue_room (queues services_world) 4 2" by (simp add: services_report_room)
  from requests_accounted[OF services_readable sample_hooks_ok a(1) room a(2) r h, of LITTLE_ENDIAN] show ?thesis by blast
qed

lemma completed_command_serves_queue_witness:
  "\<exists>cs' w1 w'. handleCommandMessage LITTLE_ENDIAN (Some 4) (sample_hooks RETURN_OK) (setSender LITTLE_ENDIAN newMessage 2)
        (sample_commanding 1) services_world = Some (cs', w')
     \<and> queue_content (queues w1) 4 = [slot_message LITTLE_ENDIAN COMPLETION_SUCCESS (sample_info 1) 0]
     \<and> fifo_served LITTLE_ENDIAN (\<lambda>_. sample_tc) 4 2 [tc_address] (sample_commanding 1) w1 cs' w'"
proof -
  let ?cs = "sample_commanding 1" and ?info = "sample_info 1" and ?reply = "setSender LITTLE_ENDIAN newMessage 2"
  let ?nx = "setCommand LITTLE_ENDIAN (newCommandMessage LITTLE_ENDIAN) CMD_NONE"
  note ok = sample_commanding_ok[of 1, OF order.refl]
  have inv: "message_inv newMessage" "message_inv (newCommandMessage LITTLE_ENDIAN)"
    by (simp_all add: newCommandMessage_def setCommand_def setMessageSize_def newMessage_def message_inv_def mq_sizes)
  have vq: "4 = report_queue (Some 4) (csVerify ?cs)" using ok services_report_room(2) by simp
  have s: "getSender LITTLE_ENDIAN ?reply = 2" "(2 :: u32) \<noteq> NO_QUEUE" "(2 :: u32) \<noteq> 4" "getCommand LITTLE_ENDIAN ?nx = CMD_NONE"
    using inv by (simp_all add: NO_QUEUE_def)
  have rep: "handleReply (sample_hooks RETURN_OK) ?reply (ciCommand ?info) (ciState ?info) ?nx (ciObjectId ?info)
      (failureParameter1 ?cs, failureParameter2 ?cs) (child ?cs)
      = (EXECUTION_COMPLETE, ?nx, ciState ?info, False, (failureParameter1 ?cs, failureParameter2 ?cs), child ?cs)"
    by (simp add: sample_hooks_def)
  have r: "EXECUTION_COMPLETE \<in> {RETURN_OK, EXECUTION_COMPLETE, NO_STEP_MESSAGE}" by simp
  have xs: "[tc_address] = fifo_abs (ciFifo ?info)" "distinct [tc_address]" "\<forall>a \<in> set [tc_address]. cs_readable services_world a sample_tc"
    using ok(2,3) services_readable by simp_all
  have room: "queue_room (queues services_world) 4 (1 + 2 * length [tc_address])" by (simp add: services_report_room)
  from completed_command_serves_queue[OF ok(1,11) s(1-3) sample_hooks_ok vq services_world_simps(12) rep r s(4) xs room] show ?thesis
    using services_world_simps(5) by auto
qed

lemma timeouts_settled_witness:
  "\<exists>cs' w'. checkTimeout LITTLE_ENDIAN (Some 4) (sample_hooks RETURN_OK) (sample_commanding 0) services_world = Some (cs', w')
     \<and> fm_used (commandMap cs') = [] \<and> queue_content (queues w') 4 = [slot_message LITTLE_ENDIAN COMPLETION_FAILURE (sample_info 0) TIMEOUT]"
proof -
  let ?cs = "sample_commanding 0"
  note ok = sample_commanding_ok[of 0, OF zero_le]
  have e: "\<forall>j < fm_size (commandMap ?cs). fifo_abs (ciFifo (slot_info ?cs j)) = []" using ok by simp
  have vq: "4 = report_queue (Some 4) (csVerify ?cs)" using ok services_report_room(2) by simp
  have u: "getUptime (sample_hooks RETURN_OK) (child ?cs) = (100000, 100000)" using ok by (simp add: sample_hooks_def)
  have room: "queue_room (queues services_world) 4 (length (filter (late ?cs 100000) (fm_used (commandMap ?cs))))"
    using ok by (simp add: services_report_room)
  from timeouts_settled[OF ok(1) e services_world_simps(12) vq u room, of LITTLE_ENDIAN] show ?thesis
    using ok services_world_simps(5) by (auto simp: ok)
qed

lemma timeout_leaves_map_witness:
  "checkTimeout LITTLE_ENDIAN (Some 4) (sample_hooks INVALID_TC) (sample_commanding 1) services_world = None"
proof -
  let ?cs = "sample_commanding 1"
  note ok = sample_commanding_ok[of 1, OF order.refl]
  have u: "getUptime (sample_hooks INVALID_TC) (child ?cs) = (100000, 100000)" using ok by (simp add: sample_hooks_def)
  have sz: "Suc 0 = fm_size (commandMap ?cs)" using ok by simp
  have t: "\<forall>j < length (fm_map (commandMap ?cs)). timed_out ?cs 100000 (slot_info ?cs j) \<longleftrightarrow> j = 0" using ok by simp
  have f: "fifo_abs (ciFifo (slot_info ?cs 0)) = [tc_address]" using ok(2) by simp
  have r: "refuses (sample_hooks INVALID_TC)" by (simp add: refuses_def sample_hooks_def retcode)
  have k: "slot_key ?cs 0 \<noteq> report_queue (Some 4) (csVerify ?cs)" using ok services_report_room(2) by simp
  show ?thesis by (rule timeout_leaves_map[OF ok(1) sz u t f services_readable sample_hooks_ok r k])
qed

end
