(* ===== verification/RingBuffer.thy ===== *)
theory RingBuffer
  imports Fifo
begin

text \<open>
  \<open>fsfw/container/RingBufferBase.h\<close>, \<open>SimpleRingBuffer.cpp\<close>: a ring buffer of bytes with one read pointer, and
  its contiguous writes, which may run over the end of the ring and are moved to its start afterwards.
  Blocks are copied within bounds or the result is \<open>None\<close>. What the ring holds is the list \<open>ring_abs\<close>.
\<close>

subsection \<open>Pointers\<close>

record ring_base =
  rbStart :: nat
  rbWrite :: nat
  rbRead :: "nat list"
  rbSize :: nat
  overwriteOld :: bool

definition newRingBufferBase :: "nat \<Rightarrow> nat \<Rightarrow> nat \<Rightarrow> bool \<Rightarrow> ring_base" where
  "newRingBufferBase n_read startAddress sz ow =
     \<lparr>rbStart = startAddress, rbWrite = startAddress, rbRead = replicate n_read startAddress, rbSize = sz, overwriteOld = ow\<rparr>"

definition getAvailableReadData :: "'a ring_base_scheme \<Rightarrow> nat \<Rightarrow> nat" where
  "getAvailableReadData r n = (rbWrite r + rbSize r - rbRead r ! n) mod rbSize r"

definition availableWriteSpace :: "'a ring_base_scheme \<Rightarrow> nat \<Rightarrow> nat" where
  "availableWriteSpace r n = (rbRead r ! n + rbSize r - rbWrite r - 1) mod rbSize r"

definition ring_isFull :: "'a ring_base_scheme \<Rightarrow> nat \<Rightarrow> bool" where
  "ring_isFull r n \<longleftrightarrow> availableWriteSpace r n = 0"

definition ring_isEmpty :: "'a ring_base_scheme \<Rightarrow> nat \<Rightarrow> bool" where
  "ring_isEmpty r n \<longleftrightarrow> getAvailableReadData r n = 0"

definition ring_getMaxSize :: "'a ring_base_scheme \<Rightarrow> nat" where
  "ring_getMaxSize r = rbSize r - 1"

definition ring_clear :: "'a ring_base_scheme \<Rightarrow> 'a ring_base_scheme" where
  "ring_clear r = r\<lparr>rbWrite := rbStart r, rbRead := map (\<lambda>_. rbStart r) (rbRead r)\<rparr>"

definition writeTillWrap :: "'a ring_base_scheme \<Rightarrow> nat" where
  "writeTillWrap r = rbStart r + rbSize r - rbWrite r"

definition readTillWrap :: "'a ring_base_scheme \<Rightarrow> nat \<Rightarrow> nat" where
  "readTillWrap r n = rbStart r + rbSize r - rbRead r ! n"

text \<open>The amounts are passed as 32-bit numbers.\<close>

definition incrementWrite :: "'a ring_base_scheme \<Rightarrow> nat \<Rightarrow> 'a ring_base_scheme" where
  "incrementWrite r amount = r\<lparr>rbWrite := (rbWrite r + amount mod 2 ^ 32 - rbStart r) mod rbSize r + rbStart r\<rparr>"

definition incrementRead :: "'a ring_base_scheme \<Rightarrow> nat \<Rightarrow> nat \<Rightarrow> 'a ring_base_scheme" where
  "incrementRead r amount n =
     r\<lparr>rbRead := (rbRead r)[n := (rbRead r ! n + amount mod 2 ^ 32 - rbStart r) mod rbSize r + rbStart r]\<rparr>"

definition base_readData :: "'a ring_base_scheme \<Rightarrow> nat \<Rightarrow> nat \<Rightarrow> u16 \<times> 'a ring_base_scheme" where
  "base_readData r amount n =
     (if getAvailableReadData r n \<ge> amount then (RETURN_OK, incrementRead r amount n) else (RETURN_FAILED, r))"

definition base_writeData :: "'a ring_base_scheme \<Rightarrow> nat \<Rightarrow> u16 \<times> 'a ring_base_scheme" where
  "base_writeData r amount =
     (if availableWriteSpace r 0 \<ge> amount \<or> overwriteOld r then (RETURN_OK, incrementWrite r amount) else (RETURN_FAILED, r))"

definition ring_setRead :: "'a ring_base_scheme \<Rightarrow> nat \<Rightarrow> nat \<Rightarrow> 'a ring_base_scheme" where
  "ring_setRead r pos n =
     (if rbStart r \<le> pos \<and> pos < rbStart r + rbSize r then r\<lparr>rbRead := (rbRead r)[n := pos]\<rparr> else r)"

definition ring_setWrite :: "'a ring_base_scheme \<Rightarrow> nat \<Rightarrow> 'a ring_base_scheme" where
  "ring_setWrite r pos = r\<lparr>rbWrite := pos\<rparr>"

subsection \<open>The buffer\<close>

record simple_ring = ring_base +
  rbBuffer :: bytes
  maxExcessBytes :: nat
  excessBytes :: nat

text \<open>\<open>raw\<close> is the memory of the buffer, allocated by the first constructor and given to the second.\<close>

definition newSimpleRingBuffer :: "bytes \<Rightarrow> nat \<Rightarrow> bool \<Rightarrow> nat \<Rightarrow> simple_ring" where
  "newSimpleRingBuffer raw sz ow maxExcess =
     ring_base.extend (newRingBufferBase 1 0 sz ow)
       \<lparr>rbBuffer = raw, maxExcessBytes = (if maxExcess > sz then sz else maxExcess), excessBytes = 0\<rparr>"

definition getFreeRing :: "simple_ring \<Rightarrow> nat \<Rightarrow> u16 \<times> nat option \<times> simple_ring" where
  "getFreeRing r amount =
     (if availableWriteSpace r 0 \<ge> amount \<or> overwriteOld r then
        (if writeTillWrap r < amount then
           (if amount - writeTillWrap r + excessBytes r > maxExcessBytes r then (RETURN_FAILED, None, r)
            else (RETURN_OK, Some (rbWrite r), r\<lparr>excessBytes := amount - writeTillWrap r\<rparr>))
         else (RETURN_OK, Some (rbWrite r), r))
      else (RETURN_FAILED, None, r))"

definition moveExcessBytesToStart :: "simple_ring \<Rightarrow> simple_ring option" where
  "moveExcessBytesToStart r =
     (if excessBytes r > 0
      then map_option (\<lambda>b. r\<lparr>rbBuffer := b, excessBytes := 0\<rparr>) (mem_copy (rbBuffer r) 0 (drop (rbSize r) (rbBuffer r)) (excessBytes r))
      else Some r)"

definition confirmBytesWritten :: "simple_ring \<Rightarrow> nat \<Rightarrow> simple_ring option" where
  "confirmBytesWritten r amount = map_option (\<lambda>r1. incrementWrite r1 amount) (moveExcessBytesToStart r)"

definition ring_writeData :: "simple_ring \<Rightarrow> bytes \<Rightarrow> nat \<Rightarrow> (u16 \<times> simple_ring) option" where
  "ring_writeData r data amount =
     (if availableWriteSpace r 0 \<ge> amount \<or> overwriteOld r then
        map_option (\<lambda>b. (RETURN_OK, incrementWrite (r\<lparr>rbBuffer := b\<rparr>) amount))
          (if writeTillWrap r \<ge> amount then mem_copy (rbBuffer r) (rbWrite r) data amount
           else Option.bind (mem_copy (rbBuffer r) (rbWrite r) data (writeTillWrap r))
                  (\<lambda>b. mem_copy b 0 (drop (writeTillWrap r) data) (amount - writeTillWrap r)))
      else Some (RETURN_FAILED, r))"

definition ring_deleteData :: "simple_ring \<Rightarrow> nat \<Rightarrow> bool \<Rightarrow> u16 \<times> nat option \<times> simple_ring" where
  "ring_deleteData r amount deleteRemaining =
     (let available = getAvailableReadData r 0 in
      if available < amount \<and> \<not> deleteRemaining then (RETURN_FAILED, None, r)
      else (let n = (if available < amount then available else amount) in (RETURN_OK, Some n, incrementRead r n 0)))"

text \<open>\<open>dest\<close> is the memory behind \<open>data\<close>; the third component is the true amount.\<close>

definition ring_readData :: "simple_ring \<Rightarrow> bytes \<Rightarrow> nat \<Rightarrow> bool \<Rightarrow> bool \<Rightarrow> (u16 \<times> bytes \<times> nat option \<times> simple_ring) option" where
  "ring_readData r dest amount incrementReadPtr readRemaining =
     (let available = getAvailableReadData r 0; tillWrap = readTillWrap r 0 in
      if available < amount \<and> \<not> readRemaining then Some (RETURN_FAILED, dest, None, r)
      else
        let n = (if available < amount then available else amount) in
        map_option (\<lambda>d. (RETURN_OK, d, Some n, if incrementReadPtr then snd (snd (ring_deleteData r n readRemaining)) else r))
          (if tillWrap \<ge> n then mem_copy dest 0 (drop (rbRead r ! 0) (rbBuffer r)) n
           else Option.bind (mem_copy dest 0 (drop (rbRead r ! 0) (rbBuffer r)) tillWrap)
                  (\<lambda>d. mem_copy d tillWrap (rbBuffer r) (n - tillWrap))))"

subsection \<open>Content\<close>

definition ring_inv :: "simple_ring \<Rightarrow> bool" where
  "ring_inv r \<longleftrightarrow> rbStart r = 0 \<and> length (rbRead r) = 1 \<and> rbRead r ! 0 < rbSize r \<and> rbWrite r < rbSize r \<and> rbSize r < 2 ^ 32
     \<and> rbSize r + maxExcessBytes r \<le> length (rbBuffer r) \<and> excessBytes r \<le> maxExcessBytes r"

definition ring_abs :: "simple_ring \<Rightarrow> bytes" where
  "ring_abs r = map (\<lambda>k. rbBuffer r ! ((rbRead r ! 0 + k) mod rbSize r)) [0..<getAvailableReadData r 0]"

lemma length_ring_abs [simp]: "length (ring_abs r) = getAvailableReadData r 0"
  by (simp add: ring_abs_def)

lemma mod_shift_inj: "(w + i) mod s = (w + j) mod s \<Longrightarrow> i < j + s \<Longrightarrow> j < i + s \<Longrightarrow> i = (j :: nat)"
proof (rule ccontr)
  assume e: "(w + i) mod s = (w + j) mod s" and ij: "i < j + s" "j < i + s" and ne: "i \<noteq> j"
  have no: "\<not> (w + a) mod s = (w + (a + d)) mod s" if "0 < d" "d < s" for a d :: nat
  proof
    assume "(w + a) mod s = (w + (a + d)) mod s"
    then have "s dvd (w + (a + d)) - (w + a)" by (metis mod_eq_dvd_iff_nat le_add1 add.assoc)
    then show False using that by (auto dest: dvd_imp_le)
  qed
  show False
  proof (cases "i < j")
    case True
    then have "0 < j - i" "j - i < s" "i + (j - i) = j" using ij by linarith+
    then show ?thesis using no[of "j - i" i] e by simp
  next
    case False
    then have "0 < i - j" "i - j < s" "j + (i - j) = i" using ij ne by linarith+
    then show ?thesis using no[of "i - j" j] e by simp
  qed
qed

text \<open>The free space and the content fill the ring but for one byte.\<close>

lemma ring_space:
  assumes "ring_inv r"
  shows "availableWriteSpace r 0 + getAvailableReadData r 0 = rbSize r - 1" "rbWrite r = (rbRead r ! 0 + getAvailableReadData r 0) mod rbSize r"
    "getAvailableReadData r 0 < rbSize r"
proof -
  let ?s = "rbSize r" and ?w = "rbWrite r" and ?r = "rbRead r ! 0"
  have b: "?r < ?s" "?w < ?s" using assms by (simp_all add: ring_inv_def)
  have a: "getAvailableReadData r 0 = (if ?r \<le> ?w then ?w - ?r else ?w + ?s - ?r)"
    using b by (simp add: getAvailableReadData_def mod_if)
  have f: "availableWriteSpace r 0 = (if ?w < ?r then ?r - ?w - 1 else ?r + ?s - ?w - 1)"
    using b by (auto simp: availableWriteSpace_def mod_if)
  show "availableWriteSpace r 0 + getAvailableReadData r 0 = ?s - 1" "getAvailableReadData r 0 < ?s"
    using a f b by auto
  show "?w = (?r + getAvailableReadData r 0) mod ?s" using a b by (auto simp: mod_if)
qed

subsection \<open>Writing and reading\<close>

lemma mem_copy_nth:
  "off + n \<le> length b \<Longrightarrow> n \<le> length data \<Longrightarrow>
     \<exists>b'. mem_copy b off data n = Some b' \<and> length b' = length b
        \<and> (\<forall>q < length b. b' ! q = (if off \<le> q \<and> q < off + n then data ! (q - off) else b ! q))"
  by (auto simp: mem_copy_def nth_append min_def)

lemma wrapped_copy:
  assumes "w < s" "s \<le> length b" "n \<le> s" "n \<le> length data"
  shows "\<exists>b'. (if s - w \<ge> n then mem_copy b w data n
       else Option.bind (mem_copy b w data (s - w)) (\<lambda>b1. mem_copy b1 0 (drop (s - w) data) (n - (s - w)))) = Some b'
     \<and> length b' = length b \<and> (\<forall>j < n. b' ! ((w + j) mod s) = data ! j)
     \<and> (\<forall>q < s. (\<forall>j < n. q \<noteq> (w + j) mod s) \<longrightarrow> b' ! q = b ! q)"
proof (cases "s - w \<ge> n")
  case True
  have "w + n \<le> length b" using True assms by linarith
  then obtain b' where b: "mem_copy b w data n = Some b'" "length b' = length b"
      "\<forall>q < length b. b' ! q = (if w \<le> q \<and> q < w + n then data ! (q - w) else b ! q)"
    using mem_copy_nth[of w n b data] assms(4) by blast
  have "b' ! ((w + j) mod s) = data ! j" if "j < n" for j
  proof -
    have "w + j < s" using that True assms(1) by linarith
    then show ?thesis using that b(3) assms(2) by simp
  qed
  moreover have "b' ! q = b ! q" if "q < s" "\<forall>j < n. q \<noteq> (w + j) mod s" for q
  proof -
    have "\<not> (w \<le> q \<and> q < w + n)"
    proof
      assume q: "w \<le> q \<and> q < w + n"
      then have "q - w < n" "(w + (q - w)) mod s = q" using that(1) by auto
      then show False using that(2) by metis
    qed
    then show ?thesis using b(3) that(1) assms(2) by auto
  qed
  ultimately show ?thesis using True b(1,2) by auto
next
  case False
  have r1: "w + (s - w) \<le> length b" "s - w \<le> length data" using False assms by linarith+
  obtain b1 where b1: "mem_copy b w data (s - w) = Some b1" "length b1 = length b"
      "\<forall>q < length b. b1 ! q = (if w \<le> q \<and> q < w + (s - w) then data ! (q - w) else b ! q)"
    using mem_copy_nth[OF r1] by blast
  have r2: "0 + (n - (s - w)) \<le> length b1" "n - (s - w) \<le> length (drop (s - w) data)" using assms b1(2) by simp_all
  obtain b' where b: "mem_copy b1 0 (drop (s - w) data) (n - (s - w)) = Some b'" "length b' = length b1"
      "\<forall>q < length b1. b' ! q = (if 0 \<le> q \<and> q < 0 + (n - (s - w)) then drop (s - w) data ! (q - 0) else b1 ! q)"
    using mem_copy_nth[OF r2] by blast
  have "b' ! ((w + j) mod s) = data ! j" if "j < n" for j
  proof (cases "w + j < s")
    case True
    then have "\<not> w + j < n - (s - w)" using assms(3) by linarith
    then show ?thesis using True b(3) b1(2,3) assms(2) by simp
  next
    case wrap: False
    then have m: "(w + j) mod s = w + j - s" using that assms(1,3) by (simp add: mod_if)
    have "w + j - s < n - (s - w)" "s - w + (w + j - s) = j" using wrap that assms(1) by linarith+
    then show ?thesis using b(3) b1(2) assms(2,3,4) that wrap m by simp
  qed
  moreover have "b' ! q = b ! q" if "q < s" "\<forall>j < n. q \<noteq> (w + j) mod s" for q
  proof -
    have "\<not> q < n - (s - w)"
    proof
      assume q: "q < n - (s - w)"
      then have "s - w + q < n" "(w + (s - w + q)) mod s = q" using that(1) assms(1) by auto
      then show False using that(2) by metis
    qed
    moreover have "\<not> w \<le> q"
    proof
      assume q: "w \<le> q"
      then have "q - w < n" "(w + (q - w)) mod s = q" using that(1) False by auto
      then show False using that(2) by metis
    qed
    ultimately show ?thesis using b(3) b1(2,3) that(1) assms(2) by simp
  qed
  ultimately show ?thesis using False b1(1,2) b(1,2) by auto
qed

text \<open>
  Writing at most the size of the ring: what it holds then are the old and the new bytes; when they do not
  fit the whole ring is lost and only what runs over it is left.
\<close>

lemma ring_content_written:
  assumes inv: "ring_inv r" and n: "n \<le> rbSize r" "n \<le> length data"
    and b: "\<forall>j < n. b ! ((rbWrite r + j) mod rbSize r) = data ! j"
      "\<forall>q < rbSize r. (\<forall>j < n. q \<noteq> (rbWrite r + j) mod rbSize r) \<longrightarrow> b ! q = rbBuffer r ! q" "length b = length (rbBuffer r)"
  shows "ring_inv (incrementWrite (r\<lparr>rbBuffer := b, excessBytes := e\<rparr>) n) \<longleftrightarrow> e \<le> maxExcessBytes r"
    "ring_abs (incrementWrite (r\<lparr>rbBuffer := b, excessBytes := e\<rparr>) n)
       = (if getAvailableReadData r 0 + n < rbSize r then ring_abs r @ take n data else drop (rbSize r) (ring_abs r @ take n data))"
proof -
  let ?s = "rbSize r" and ?a = "getAvailableReadData r 0" and ?r = "rbRead r ! 0" and ?w = "rbWrite r"
  let ?r' = "incrementWrite (r\<lparr>rbBuffer := b, excessBytes := e\<rparr>) n" and ?L = "ring_abs r @ take n data"
  have s: "?r < ?s" "?w < ?s" "rbStart r = 0" "?s < 2 ^ 32" "?a < ?s" "?w = (?r + ?a) mod ?s"
    using inv ring_space(2,3)[OF inv] by (simp_all add: ring_inv_def)
  have n32: "n mod 4294967296 = n" using n(1) s(4) by simp
  have f: "rbWrite ?r' = (?w + n) mod ?s" "rbRead ?r' = rbRead r" "rbSize ?r' = ?s" "rbBuffer ?r' = b" "excessBytes ?r' = e"
    "maxExcessBytes ?r' = maxExcessBytes r" "rbStart ?r' = 0"
    using s(3) n32 by (simp_all add: incrementWrite_def)
  show "ring_inv ?r' \<longleftrightarrow> e \<le> maxExcessBytes r" using inv s(1) b(3) by (auto simp: ring_inv_def f)
  have w': "(?w + n) mod ?s = (?r + (?a + n)) mod ?s" unfolding s(6) by (simp add: mod_add_left_eq add.assoc)
  have a': "getAvailableReadData ?r' 0 = (?a + n) mod ?s"
  proof -
    have "(?r + (?a + n)) mod ?s + ?s - ?r = (?r + (?a + n)) mod ?s + (?s - ?r)" using s(1) by simp
    then have "getAvailableReadData ?r' 0 = (?r + (?a + n) + (?s - ?r)) mod ?s"
      by (simp add: getAvailableReadData_def f w' mod_add_left_eq)
    also have "?r + (?a + n) + (?s - ?r) = ?a + n + ?s" using s(1) by simp
    finally show ?thesis by simp
  qed
  have new: "b ! ((?r + m) mod ?s) = ?L ! m" if m: "m < ?a + n" "?a + n \<le> m + ?s" for m
  proof (cases "m < ?a")
    case True
    have "(?r + m) mod ?s \<noteq> (?w + j) mod ?s" if "j < n" for j
    proof
      assume "(?r + m) mod ?s = (?w + j) mod ?s"
      then have "(?r + m) mod ?s = (?r + (?a + j)) mod ?s" unfolding s(6) by (simp add: mod_add_left_eq add.assoc)
      then have "m = ?a + j" by (rule mod_shift_inj) (use True m that in linarith)+
      then show False using True by simp
    qed
    moreover have "(?r + m) mod ?s < ?s" using s(1) by simp
    ultimately have "b ! ((?r + m) mod ?s) = rbBuffer r ! ((?r + m) mod ?s)" using b(2) by blast
    then show ?thesis using True by (simp add: nth_append) (simp add: ring_abs_def)
  next
    case False
    have "((?r + ?a) mod ?s + (m - ?a)) mod ?s = (?r + ?a + (m - ?a)) mod ?s" by (rule mod_add_left_eq)
    then have "(?w + (m - ?a)) mod ?s = (?r + m) mod ?s" using False s(6) by simp
    moreover have ma: "m - ?a < n" using False m(1) by linarith
    then have "b ! ((?w + (m - ?a)) mod ?s) = data ! (m - ?a)" using b(1) by blast
    ultimately show ?thesis using False ma by (simp add: nth_append)
  qed
  show "ring_abs ?r' = (if ?a + n < ?s then ?L else drop ?s ?L)"
  proof (cases "?a + n < ?s")
    case True
    then have "getAvailableReadData ?r' 0 = ?a + n" using a' by simp
    then show ?thesis using True new n(2) by (intro nth_equalityI) (simp_all add: f ring_abs_def[of ?r'])
  next
    case False
    then have "getAvailableReadData ?r' 0 = ?a + n - ?s" using a' n(1) s(5) by (simp add: mod_if)
    moreover have "b ! ((?r + k) mod ?s) = ?L ! (?s + k)" if "k < ?a + n - ?s" for k
    proof -
      have "?s + k < ?a + n" "?a + n \<le> ?s + k + ?s" using that s(5) n(1) by linarith+
      then show ?thesis using new[of "?s + k"] by (simp add: add.left_commute[of ?r])
    qed
    ultimately show ?thesis using False n(2) by (intro nth_equalityI) (simp_all add: f ring_abs_def[of ?r'] del: drop_append)
  qed
qed

lemma ring_write_fits:
  assumes inv: "ring_inv r" and n: "n \<le> rbSize r" "n \<le> length data"
    and acc: "n \<le> availableWriteSpace r 0 \<or> overwriteOld r"
  shows "\<exists>r'. ring_writeData r data n = Some (RETURN_OK, r') \<and> ring_inv r' \<and> overwriteOld r' = overwriteOld r \<and> rbSize r' = rbSize r
     \<and> ring_abs r' = (if getAvailableReadData r 0 + n < rbSize r then ring_abs r @ take n data else drop (rbSize r) (ring_abs r @ take n data))"
proof -
  have s: "rbWrite r < rbSize r" "rbSize r \<le> length (rbBuffer r)" "rbStart r = 0" using inv by (auto simp: ring_inv_def)
  obtain b where b: "(if rbSize r - rbWrite r \<ge> n then mem_copy (rbBuffer r) (rbWrite r) data n
       else Option.bind (mem_copy (rbBuffer r) (rbWrite r) data (rbSize r - rbWrite r))
              (\<lambda>b1. mem_copy b1 0 (drop (rbSize r - rbWrite r) data) (n - (rbSize r - rbWrite r)))) = Some b"
     "length b = length (rbBuffer r)" "\<forall>j < n. b ! ((rbWrite r + j) mod rbSize r) = data ! j"
     "\<forall>q < rbSize r. (\<forall>j < n. q \<noteq> (rbWrite r + j) mod rbSize r) \<longrightarrow> b ! q = rbBuffer r ! q"
    using wrapped_copy[OF s(1,2) n] by blast
  have "ring_writeData r data n = Some (RETURN_OK, incrementWrite (r\<lparr>rbBuffer := b\<rparr>) n)"
    using acc s(3) by (simp only: ring_writeData_def writeTillWrap_def b(1) add_0 option.map if_True)
  moreover have "r\<lparr>rbBuffer := b, excessBytes := excessBytes r\<rparr> = r\<lparr>rbBuffer := b\<rparr>" by simp
  moreover have "excessBytes r \<le> maxExcessBytes r" using inv by (simp add: ring_inv_def)
  ultimately show ?thesis
    using ring_content_written[OF inv n b(3,4,2), of "excessBytes r"]
    by (intro exI[of _ "incrementWrite (r\<lparr>rbBuffer := b\<rparr>) n"]) (simp add: incrementWrite_def)
qed

lemma ring_delete:
  assumes inv: "ring_inv r" and n: "n = min amount (getAvailableReadData r 0)" and ok: "amount \<le> getAvailableReadData r 0 \<or> rest"
  shows "\<exists>r'. ring_deleteData r amount rest = (RETURN_OK, Some n, r') \<and> ring_inv r' \<and> ring_abs r' = drop n (ring_abs r)
     \<and> rbSize r' = rbSize r \<and> overwriteOld r' = overwriteOld r"
proof -
  let ?s = "rbSize r" and ?a = "getAvailableReadData r 0" and ?r = "rbRead r ! 0" and ?r' = "incrementRead r n 0"
  have s: "?r < ?s" "rbStart r = 0" "?s < 2 ^ 32" "?a < ?s" "rbWrite r = (?r + ?a) mod ?s" "length (rbRead r) = 1"
    using inv ring_space(2,3)[OF inv] by (simp_all add: ring_inv_def)
  have n32: "n mod 4294967296 = n" "n \<le> ?a" using n s(3,4) by simp_all
  have f: "rbWrite ?r' = rbWrite r" "rbRead ?r' ! 0 = (?r + n) mod ?s" "rbSize ?r' = ?s" "rbBuffer ?r' = rbBuffer r"
    using s(2,6) n32 by (simp_all add: incrementRead_def)
  have inv': "ring_inv ?r'" using inv s(2,6) n32 by (auto simp: ring_inv_def incrementRead_def)
  have "getAvailableReadData ?r' 0 = ?a - n"
  proof -
    have "(rbRead ?r' ! 0 + getAvailableReadData ?r' 0) mod ?s = (?r + ?a) mod ?s" using ring_space(2)[OF inv'] f s(5) by simp
    then have "(?r + (n + getAvailableReadData ?r' 0)) mod ?s = (?r + ?a) mod ?s" unfolding f(2) by (simp add: mod_add_left_eq add.assoc)
    moreover have "getAvailableReadData ?r' 0 < ?s" using ring_space(3)[OF inv'] f by simp
    moreover have "n + getAvailableReadData ?r' 0 < ?a + ?s" using n32(2) calculation(2) by linarith
    moreover have "?a < n + getAvailableReadData ?r' 0 + ?s" using s(4) by linarith
    ultimately show ?thesis using mod_shift_inj[of ?r "n + getAvailableReadData ?r' 0" ?s ?a] by linarith
  qed
  then have "ring_abs ?r' = drop n (ring_abs r)"
    by (intro nth_equalityI) (simp_all add: ring_abs_def[of ?r'] ring_abs_def[of r] f mod_add_left_eq add.assoc less_diff_conv add.commute[of n])
  moreover have "ring_deleteData r amount rest = (RETURN_OK, Some n, ?r')"
    using n ok by (auto simp: ring_deleteData_def Let_def min_def)
  ultimately show ?thesis using inv' f(3) by (intro exI[of _ ?r']) (simp add: incrementRead_def)
qed

lemma ring_read:
  assumes inv: "ring_inv r" and n: "n = min amount (getAvailableReadData r 0)" and ok: "amount \<le> getAvailableReadData r 0 \<or> rest"
    and d: "n \<le> length dest"
  shows "ring_readData r dest amount inc rest
      = Some (RETURN_OK, take n (ring_abs r) @ drop n dest, Some n, if inc then snd (snd (ring_deleteData r n rest)) else r)"
proof -
  let ?s = "rbSize r" and ?a = "getAvailableReadData r 0" and ?r = "rbRead r ! 0" and ?b = "rbBuffer r"
  have s: "?r < ?s" "rbStart r = 0" "?a < ?s" "?s \<le> length ?b" using inv ring_space(3)[OF inv] by (auto simp: ring_inv_def)
  have na: "n \<le> ?a" using n by simp
  have blk: "(if ?s - ?r \<ge> n then mem_copy dest 0 (drop ?r ?b) n
     else Option.bind (mem_copy dest 0 (drop ?r ?b) (?s - ?r)) (\<lambda>d. mem_copy d (?s - ?r) ?b (n - (?s - ?r))))
     = Some (take n (ring_abs r) @ drop n dest)"
  proof (cases "?s - ?r \<ge> n")
    case True
    have "take n (drop ?r ?b) = take n (ring_abs r)"
      using True s na by (intro nth_equalityI) (auto simp: ring_abs_def)
    then show ?thesis using True d s by (simp add: mem_copy_def)
  next
    case False
    let ?k = "?s - ?r"
    have k: "?k \<le> length dest" "?k \<le> length ?b - ?r" "n - ?k \<le> length ?b" "?k < n" using False d s na by linarith+
    have e: "take ?k (drop ?r ?b) @ take (n - ?k) ?b = take n (ring_abs r)"
    proof (rule nth_equalityI)
      show "length (take ?k (drop ?r ?b) @ take (n - ?k) ?b) = length (take n (ring_abs r))" using k na s by simp
      fix i assume "i < length (take ?k (drop ?r ?b) @ take (n - ?k) ?b)"
      then have i: "i < n" using k na s by simp
      show "(take ?k (drop ?r ?b) @ take (n - ?k) ?b) ! i = take n (ring_abs r) ! i"
      proof (cases "i < ?k")
        case True
        then show ?thesis using i k s na by (simp add: nth_append ring_abs_def)
      next
        case False
        then have "?r + i = i - ?k + ?s" "i - ?k < ?s" using i s na by linarith+
        then have "(?r + i) mod ?s = i - ?k" by (metis mod_add_self2 mod_less)
        then show ?thesis using False i k s na by (simp add: nth_append ring_abs_def)
      qed
    qed
    have "mem_copy dest 0 (drop ?r ?b) ?k = Some (take ?k (drop ?r ?b) @ drop ?k dest)"
      using k by (simp add: mem_copy_def)
    moreover have "mem_copy (take ?k (drop ?r ?b) @ drop ?k dest) ?k ?b (n - ?k)
        = Some (take ?k (drop ?r ?b) @ take (n - ?k) ?b @ drop n dest)"
      using k d s by (simp add: mem_copy_def)
    ultimately show ?thesis using False e by (simp flip: append_assoc)
  qed
  have am: "(if ?a < amount then ?a else amount) = n" using n by auto
  have "\<not> (?a < amount \<and> \<not> rest)" using ok by auto
  then show ?thesis using blk s(2) by (simp only: ring_readData_def Let_def am readTillWrap_def if_False add_0 option.map)
qed

subsection \<open>Contiguous writes\<close>

text \<open>
  The bytes behind the end of the ring are moved to its start, so that the ring holds what \<open>writeData\<close> had
  written.
\<close>

lemma contiguous_write:
  assumes inv: "ring_inv r" and e0: "excessBytes r = 0" and n: "n = length data" "n \<le> rbSize r"
    and g: "getFreeRing r n = (RETURN_OK, ptr, r1)"
  shows "\<exists>b r2. ptr = Some (rbWrite r) \<and> mem_copy (rbBuffer r1) (rbWrite r) data n = Some b
     \<and> confirmBytesWritten (r1\<lparr>rbBuffer := b\<rparr>) n = Some r2 \<and> ring_inv r2 \<and> excessBytes r2 = 0
     \<and> ring_abs r2 = (if getAvailableReadData r 0 + n < rbSize r then ring_abs r @ data else drop (rbSize r) (ring_abs r @ data))"
proof -
  let ?s = "rbSize r" and ?w = "rbWrite r" and ?b = "rbBuffer r" and ?e = "n - (rbSize r - rbWrite r)"
  have s: "?w < ?s" "rbStart r = 0" "?s + maxExcessBytes r \<le> length ?b" using inv by (simp_all add: ring_inv_def)
  have r1: "ptr = Some ?w" "r1 = r\<lparr>excessBytes := ?e\<rparr>" "?e \<le> maxExcessBytes r"
    using g e0 s by (auto simp: getFreeRing_def writeTillWrap_def split: if_splits)
  have fit: "?w + n \<le> length ?b" using r1(3) s by linarith
  obtain b where b: "mem_copy ?b ?w data n = Some b" "length b = length ?b"
      "\<forall>q < length ?b. b ! q = (if ?w \<le> q \<and> q < ?w + n then data ! (q - ?w) else ?b ! q)"
    using mem_copy_nth[OF fit, of data] n(1) by auto
  have "0 + ?e \<le> length b" "?e \<le> length (drop ?s b)" using r1(3) s(3) b(2) unfolding length_drop by linarith+
  then obtain b2 where b2: "mem_copy b 0 (drop ?s b) ?e = Some b2" "length b2 = length b"
      "\<forall>q < length b. b2 ! q = (if 0 \<le> q \<and> q < 0 + ?e then drop ?s b ! (q - 0) else b ! q)"
    using mem_copy_nth[of 0 ?e b "drop ?s b"] by blast
  have conf: "confirmBytesWritten (r1\<lparr>rbBuffer := b\<rparr>) n = Some (incrementWrite (r\<lparr>rbBuffer := b2, excessBytes := 0\<rparr>) n)"
  proof (cases "?e = 0")
    case True
    then have "b2 = b" using b2(1) by (simp add: mem_copy_def)
    then show ?thesis using True unfolding r1(2) by (cases r) (simp add: confirmBytesWritten_def moveExcessBytesToStart_def)
  next
    case False
    then show ?thesis using b2(1) unfolding r1(2) by (cases r) (simp add: confirmBytesWritten_def moveExcessBytesToStart_def)
  qed
  have new: "b2 ! ((?w + j) mod ?s) = data ! j" if "j < n" for j
  proof (cases "?w + j < ?s")
    case True
    then have "\<not> ?w + j < ?e" using n(2) by linarith
    then show ?thesis using True that b(2,3) b2(3) s fit by simp
  next
    case False
    then have q: "?w + j = ?w + j - ?s + ?s" "?w + j - ?s < ?s" "?w + j - ?s < ?e" using that n(2) s by linarith+
    then have "(?w + j) mod ?s = ?w + j - ?s" by (metis mod_add_self2 mod_less)
    moreover have "b2 ! (?w + j - ?s) = b ! (?w + j)" using b2(3) b(2) q s False fit that by simp
    moreover have "b ! (?w + j) = data ! j" using b(3) fit that by simp
    ultimately show ?thesis by simp
  qed
  have old: "b2 ! q = ?b ! q" if "q < ?s" "\<forall>j < n. q \<noteq> (?w + j) mod ?s" for q
  proof -
    have "\<not> q < ?e"
    proof
      assume q: "q < ?e"
      then have "?s - ?w + q < n" "(?w + (?s - ?w + q)) mod ?s = q" using that(1) s(1) by auto
      then show False using that(2) by metis
    qed
    moreover have "\<not> (?w \<le> q \<and> q < ?w + n)"
    proof
      assume q: "?w \<le> q \<and> q < ?w + n"
      then have "q - ?w < n" "(?w + (q - ?w)) mod ?s = q" using that(1) by auto
      then show False using that(2) by metis
    qed
    ultimately show ?thesis using b(2,3) b2(3) that(1) s by auto
  qed
  have "n \<le> length data" "length b2 = length ?b" using n(1) b(2) b2(2) by simp_all
  moreover have "\<forall>j < n. b2 ! ((?w + j) mod ?s) = data ! j" "\<forall>q < ?s. (\<forall>j < n. q \<noteq> (?w + j) mod ?s) \<longrightarrow> b2 ! q = ?b ! q"
    using new old by blast+
  ultimately have w: "ring_inv (incrementWrite (r\<lparr>rbBuffer := b2, excessBytes := 0\<rparr>) n)"
    "ring_abs (incrementWrite (r\<lparr>rbBuffer := b2, excessBytes := 0\<rparr>) n)
       = (if getAvailableReadData r 0 + n < ?s then ring_abs r @ take n data else drop ?s (ring_abs r @ take n data))"
    using ring_content_written[OF inv n(2), of data b2 0] by simp_all
  have "excessBytes (incrementWrite (r\<lparr>rbBuffer := b2, excessBytes := 0\<rparr>) n) = 0" by (simp add: incrementWrite_def)
  moreover have "rbBuffer r1 = ?b" by (simp add: r1(2))
  ultimately show ?thesis using r1(1) b(1) conf w n(1) by (intro exI[of _ b] exI[of _ "incrementWrite (r\<lparr>rbBuffer := b2, excessBytes := 0\<rparr>) n"]) simp
qed

subsection \<open>The ring as a bounded queue\<close>

text \<open>What a client sees of an operation: the return code and the bytes read.\<close>

datatype ring_op = RingWrite bytes | RingRead nat bool | RingDelete nat bool | RingClear

fun ring_step :: "ring_op \<Rightarrow> simple_ring \<Rightarrow> ((u16 \<times> bytes) \<times> simple_ring) option" where
  "ring_step (RingWrite d) r = map_option (\<lambda>(st, r'). ((st, []), r')) (ring_writeData r d (length d))"
| "ring_step (RingRead n rest) r = map_option (\<lambda>(st, d, k, r'). ((st, case k of None \<Rightarrow> [] | Some m \<Rightarrow> take m d), r'))
     (ring_readData r (replicate n 0) n True rest)"
| "ring_step (RingDelete n rest) r = (case ring_deleteData r n rest of (st, _, r') \<Rightarrow> Some ((st, []), r'))"
| "ring_step RingClear r = Some ((RETURN_OK, []), ring_clear r)"

fun queue_step :: "nat \<Rightarrow> ring_op \<Rightarrow> bytes \<Rightarrow> (u16 \<times> bytes) \<times> bytes" where
  "queue_step cap (RingWrite d) q = (if length q + length d \<le> cap then ((RETURN_OK, []), q @ d) else ((RETURN_FAILED, []), q))"
| "queue_step cap (RingRead n rest) q = (if length q < n \<and> \<not> rest then ((RETURN_FAILED, []), q) else ((RETURN_OK, take n q), drop n q))"
| "queue_step cap (RingDelete n rest) q = (if length q < n \<and> \<not> rest then ((RETURN_FAILED, []), q) else ((RETURN_OK, []), drop n q))"
| "queue_step cap RingClear q = ((RETURN_OK, []), [])"

fun ring_run :: "ring_op list \<Rightarrow> simple_ring \<Rightarrow> ((u16 \<times> bytes) list \<times> simple_ring) option" where
  "ring_run [] r = Some ([], r)"
| "ring_run (x # xs) r = Option.bind (ring_step x r) (\<lambda>(out, r'). map_option (\<lambda>(outs, r''). (out # outs, r'')) (ring_run xs r'))"

fun queue_run :: "nat \<Rightarrow> ring_op list \<Rightarrow> bytes \<Rightarrow> (u16 \<times> bytes) list \<times> bytes" where
  "queue_run cap [] q = ([], q)"
| "queue_run cap (x # xs) q = (case queue_step cap x q of (out, q') \<Rightarrow> case queue_run cap xs q' of (outs, q'') \<Rightarrow> (out # outs, q''))"

definition bounded_ring :: "nat \<Rightarrow> simple_ring \<Rightarrow> bool" where
  "bounded_ring cap r \<longleftrightarrow> ring_inv r \<and> \<not> overwriteOld r \<and> rbSize r = Suc cap"

lemma ring_step_refines:
  assumes "bounded_ring cap r"
  shows "\<exists>r'. ring_step x r = Some (fst (queue_step cap x (ring_abs r)), r') \<and> bounded_ring cap r' \<and> ring_abs r' = snd (queue_step cap x (ring_abs r))"
proof -
  have inv: "ring_inv r" and ow: "\<not> overwriteOld r" and sz: "rbSize r = Suc cap" using assms by (simp_all add: bounded_ring_def)
  note sp = ring_space[OF inv, unfolded sz]
  show ?thesis
  proof (cases x)
    case (RingWrite d)
    show ?thesis
    proof (cases "length d \<le> availableWriteSpace r 0")
      case True
      then have l: "length d \<le> rbSize r" using sp(1) sz by linarith
      have "length (ring_abs r) + length d \<le> cap" using True sp(1) by simp
      then show ?thesis
        using ring_write_fits[OF inv l order.refl] True sz ow RingWrite by (auto simp: bounded_ring_def)
    next
      case False
      then have "\<not> length (ring_abs r) + length d \<le> cap" using sp(1) by simp
      then show ?thesis using False ow assms RingWrite by (simp add: ring_writeData_def)
    qed
  next
    case (RingRead n rest)
    let ?m = "min n (getAvailableReadData r 0)"
    show ?thesis
    proof (cases "n \<le> getAvailableReadData r 0 \<or> rest")
      case True
      obtain r' where d: "ring_deleteData r ?m rest = (RETURN_OK, Some ?m, r')" "ring_inv r'" "ring_abs r' = drop ?m (ring_abs r)"
          "rbSize r' = rbSize r" "overwriteOld r' = overwriteOld r"
        using ring_delete[OF inv, of ?m ?m rest] by auto
      have "drop ?m (ring_abs r) = drop n (ring_abs r)" "take ?m (ring_abs r) = take n (ring_abs r)" by (auto simp: min_def)
      then show ?thesis using ring_read[OF inv refl True, of "replicate n 0" True] d True RingRead sz ow
        by (auto simp: bounded_ring_def)
    next
      case False
      then show ?thesis using assms RingRead by (simp add: ring_readData_def)
    qed
  next
    case (RingDelete n rest)
    show ?thesis
    proof (cases "n \<le> getAvailableReadData r 0 \<or> rest")
      case True
      have "drop (min n (getAvailableReadData r 0)) (ring_abs r) = drop n (ring_abs r)" by (auto simp: min_def)
      then show ?thesis using ring_delete[OF inv refl True] True RingDelete sz ow by (auto simp: bounded_ring_def)
    next
      case False
      then show ?thesis using assms RingDelete by (simp add: ring_deleteData_def)
    qed
  next
    case RingClear
    then show ?thesis using inv ow sz by (auto simp: bounded_ring_def ring_inv_def ring_clear_def ring_abs_def getAvailableReadData_def)
  qed
qed

lemma ring_run_refines:
  "bounded_ring cap r \<Longrightarrow> \<exists>r'. ring_run ops r = Some (fst (queue_run cap ops (ring_abs r)), r') \<and> ring_abs r' = snd (queue_run cap ops (ring_abs r))"
proof (induction ops arbitrary: r)
  case (Cons x ops)
  obtain r1 where r1: "ring_step x r = Some (fst (queue_step cap x (ring_abs r)), r1)" "bounded_ring cap r1"
      "ring_abs r1 = snd (queue_step cap x (ring_abs r))"
    using ring_step_refines[OF Cons.prems, of x] by blast
  show ?case using Cons.IH[OF r1(2)] r1(1,3) by (auto split: prod.splits)
qed simp

lemma new_ring:
  assumes "0 < sz" "sz < 2 ^ 32" "sz + ex \<le> length raw"
  shows "ring_inv (newSimpleRingBuffer raw sz ow ex)" "ring_abs (newSimpleRingBuffer raw sz ow ex) = []"
    "rbSize (newSimpleRingBuffer raw sz ow ex) = sz" "overwriteOld (newSimpleRingBuffer raw sz ow ex) = ow"
    "excessBytes (newSimpleRingBuffer raw sz ow ex) = 0" "maxExcessBytes (newSimpleRingBuffer raw sz ow ex) = min ex sz"
  using assms by (auto simp: ring_inv_def newSimpleRingBuffer_def newRingBufferBase_def ring_abs_def getAvailableReadData_def
      ring_base.defs min_def)

subsection \<open>Properties\<close>

text \<open>
  C38. A ring buffer of \<open>Suc cap\<close> bytes that does not overwrite behaves, under any sequence of writes, reads,
  deletions and clears, as a queue that holds at most \<open>cap\<close> bytes: every operation gives the same code and
  the same bytes, and no copy leaves the buffer.
\<close>

theorem ring_refines_queue:
  assumes "Suc cap < 2 ^ 32" "Suc cap + ex \<le> length raw"
  shows "\<exists>r'. ring_run ops (newSimpleRingBuffer raw (Suc cap) False ex) = Some (fst (queue_run cap ops []), r')
     \<and> ring_abs r' = snd (queue_run cap ops [])"
proof -
  note new = new_ring[OF zero_less_Suc assms, where ow = False]
  have "bounded_ring cap (newSimpleRingBuffer raw (Suc cap) False ex)" using new by (simp add: bounded_ring_def)
  from ring_run_refines[OF this, of ops] show ?thesis unfolding new(2) .
qed

text \<open>
  A ring buffer that overwrites loses more than the oldest bytes: when a write of at most its size does
  not fit, the read position is not moved, so that only the bytes that run over the full ring can be read.
\<close>

theorem ring_overwrite_loses:
  assumes "ring_inv r" "overwriteOld r" "length data \<le> rbSize r" "rbSize r \<le> length (ring_abs r) + length data"
  shows "\<exists>r'. ring_writeData r data (length data) = Some (RETURN_OK, r') \<and> ring_abs r' = drop (rbSize r) (ring_abs r @ data)
     \<and> length (ring_abs r') < length data"
proof -
  have nfit: "\<not> getAvailableReadData r 0 + length data < rbSize r" using assms(4) by simp
  obtain r' where w: "ring_writeData r data (length data) = Some (RETURN_OK, r')" "ring_abs r' = drop (rbSize r) (ring_abs r @ take (length data) data)"
    using ring_write_fits[OF assms(1,3) order.refl disjI2[OF assms(2)]] unfolding if_not_P[OF nfit] by blast
  have a: "ring_abs r' = drop (rbSize r) (ring_abs r @ data)" using w(2) by simp
  have "length (ring_abs r') < length data" unfolding a using ring_space(3)[OF assms(1)] assms(4) by simp
  then show ?thesis using w(1) a by blast
qed

text \<open>
  A contiguous write, which gets a pointer for a block, fills it and confirms it, leaves the ring with
  the same content as \<open>writeData\<close>, also where the block runs over the end of the ring.
\<close>

theorem contiguous_write_equals:
  assumes "ring_inv r" "excessBytes r = 0" "length data \<le> rbSize r"
    and "getFreeRing r (length data) = (RETURN_OK, ptr, r1)"
  shows "\<exists>pos b r2 r3. ptr = Some pos \<and> mem_copy (rbBuffer r1) pos data (length data) = Some b
     \<and> confirmBytesWritten (r1\<lparr>rbBuffer := b\<rparr>) (length data) = Some r2 \<and> ring_writeData r data (length data) = Some (RETURN_OK, r3)
     \<and> ring_abs r2 = ring_abs r3 \<and> ring_inv r2 \<and> excessBytes r2 = 0"
proof -
  have acc: "length data \<le> availableWriteSpace r 0 \<or> overwriteOld r"
    using assms(4) by (auto simp: getFreeRing_def split: if_splits)
  show ?thesis
    using contiguous_write[OF assms(1,2) refl assms(3,4)] ring_write_fits[OF assms(1,3) order.refl acc] by auto
qed

subsection \<open>Witnesses\<close>

lemma ring_refines_queue_witness:
  "\<exists>r'. ring_run [RingWrite [1, 2], RingRead 1 False, RingWrite [3, 4], RingWrite [5], RingRead 7 True]
      (newSimpleRingBuffer (replicate 5 0) 4 False 1)
     = Some ([(RETURN_OK, []), (RETURN_OK, [1]), (RETURN_OK, []), (RETURN_FAILED, []), (RETURN_OK, [2, 3, 4])], r')"
  using ring_refines_queue[of 3 1 "replicate 5 0" "[RingWrite [1, 2], RingRead 1 False, RingWrite [3, 4], RingWrite [5], RingRead 7 True]"]
  by auto

lemma ring_overwrite_loses_witness:
  "\<exists>r'. ring_writeData (newSimpleRingBuffer (replicate 4 0) 4 True 0) [1, 2, 3, 4] (length [1, 2, 3, 4 :: u8]) = Some (RETURN_OK, r') \<and> ring_abs r' = []"
proof -
  let ?r = "newSimpleRingBuffer (replicate 4 0) 4 True 0"
  note new = new_ring[of 4 0 "replicate 4 0" True, simplified]
  from ring_overwrite_loses[of ?r "[1, 2, 3, 4]"] show ?thesis by (auto simp: new)
qed

lemma contiguous_write_equals_witness:
  "\<exists>r1 r2 b. getFreeRing (newSimpleRingBuffer (replicate 6 0) 4 False 2) (length [7, 8, 9 :: u8]) = (RETURN_OK, Some 0, r1)
     \<and> mem_copy (rbBuffer r1) 0 [7, 8, 9] (length [7, 8, 9 :: u8]) = Some b \<and> confirmBytesWritten (r1\<lparr>rbBuffer := b\<rparr>) (length [7, 8, 9 :: u8]) = Some r2 \<and> ring_inv r2"
proof -
  let ?r = "newSimpleRingBuffer (replicate 6 0) 4 False 2"
  note new = new_ring[of 4 2 "replicate 6 0" False, simplified]
  have g: "getFreeRing ?r (length [7, 8, 9 :: u8]) = (RETURN_OK, Some 0, ?r)"
    by (simp add: getFreeRing_def newSimpleRingBuffer_def newRingBufferBase_def ring_base.defs availableWriteSpace_def writeTillWrap_def)
  have l: "length [7, 8, 9 :: u8] \<le> rbSize ?r" by (simp add: new)
  from contiguous_write_equals[OF new(1,5) l g] show ?thesis using g by auto
qed

end
