(* ===== verification/HealthModes.thy ===== *)
theory HealthModes
  imports StoreQueues
begin

text \<open>
  Health and modes of the objects of the system: the health table (\<open>fsfw/health/HealthTable.cpp\<close>), the
  helpers through which an object keeps its health and its mode (\<open>HealthHelper.cpp\<close>,
  \<open>fsfw/modes/ModeHelper.cpp\<close>) and their messages. The members of both helpers are the record \<open>mode_owner\<close>,
  which the owner's record extends; the virtual methods of the owner are the record \<open>owner_ops\<close>.
\<close>

subsection \<open>The system around an object\<close>

text \<open>
  The queues, the IPC store, the health table, the events triggered (object, event, parameters) and the
  clock: its \<open>n\<close>-th reading of the uptime in milliseconds.
\<close>

record health_table =
  healthMap :: "(u32 \<times> u8) list"
  mapIterator :: "u32 option"

record system_world =
  swQueues :: queue_map
  ipcStore :: local_pool
  healthTable :: health_table
  events :: "(u32 \<times> u32 \<times> u32 \<times> u32) list"
  clock :: "nat \<Rightarrow> u32"
  clockReads :: nat

definition triggerEvent :: "u32 \<Rightarrow> u32 \<Rightarrow> u32 \<Rightarrow> u32 \<Rightarrow> system_world \<Rightarrow> system_world" where
  "triggerEvent object event p1 p2 w = w\<lparr>events := events w @ [(object, event, p1, p2)]\<rparr>"

definition getUptimeMs :: "system_world \<Rightarrow> u32 \<times> system_world" where
  "getUptimeMs w = (clock w (clockReads w), w\<lparr>clockReads := clockReads w + 1\<rparr>)"

text \<open>Sending: the sender is written into the caller's message, which is used again in loops.\<close>

definition sw_send_again :: "byte_order \<Rightarrow> u32 \<Rightarrow> mq_message \<Rightarrow> u32 \<Rightarrow> system_world \<Rightarrow> u16 \<times> mq_message \<times> system_world" where
  "sw_send_again sys dest m src w =
     (case sendMessageFromMessageQueue sys (swQueues w) dest m src of (r, qm, m') \<Rightarrow> (r, m', w\<lparr>swQueues := qm\<rparr>))"

definition sw_send :: "byte_order \<Rightarrow> u32 \<Rightarrow> mq_message \<Rightarrow> u32 \<Rightarrow> system_world \<Rightarrow> u16 \<times> system_world" where
  "sw_send sys dest m src w = (case sw_send_again sys dest m src w of (r, _, w') \<Rightarrow> (r, w'))"

text \<open>\<open>reply\<close> of the queue with the id \<open>qid\<close>.\<close>

definition sw_reply :: "byte_order \<Rightarrow> u32 \<Rightarrow> mq_message \<Rightarrow> system_world \<Rightarrow> (u16 \<times> system_world) option" where
  "sw_reply sys qid m w =
     map_option (\<lambda>q. case mq_reply sys (swQueues w) q m of (r, qm, _) \<Rightarrow> (r, w\<lparr>swQueues := qm\<rparr>)) (queueMap (swQueues w) qid)"

text \<open>\<open>Countdown\<close>.\<close>

record countdown =
  cdStart :: u32
  cdTimeout :: u32

definition cd_setTimeout :: "u32 \<Rightarrow> system_world \<Rightarrow> countdown \<times> system_world" where
  "cd_setTimeout ms w = (case getUptimeMs w of (t, w') \<Rightarrow> (\<lparr>cdStart = t, cdTimeout = ms\<rparr>, w'))"

definition cd_hasTimedOut :: "countdown \<Rightarrow> system_world \<Rightarrow> bool \<times> system_world" where
  "cd_hasTimedOut c w = (case getUptimeMs w of (t, w') \<Rightarrow> (cdTimeout c \<le> t - cdStart c, w'))"

definition cd_isBusy :: "countdown \<Rightarrow> system_world \<Rightarrow> bool \<times> system_world" where
  "cd_isBusy c w = (case cd_hasTimedOut c w of (b, w') \<Rightarrow> (\<not> b, w'))"

definition cd_resetTimer :: "countdown \<Rightarrow> system_world \<Rightarrow> countdown \<times> system_world" where
  "cd_resetTimer c w = cd_setTimeout (cdTimeout c) w"

definition cd_timeOut :: "countdown \<Rightarrow> system_world \<Rightarrow> countdown \<times> system_world" where
  "cd_timeOut c w = (case getUptimeMs w of (t, w') \<Rightarrow> (c\<lparr>cdStart := t - cdTimeout c\<rparr>, w'))"

subsection \<open>Health\<close>

text \<open>\<open>HealthState\<close> is an enumeration over bytes.\<close>

definition HEALTHY :: u8 where "HEALTHY = 1"
definition FAULTY :: u8 where "FAULTY = 0"
definition EXTERNAL_CONTROL :: u8 where "EXTERNAL_CONTROL = 2"
definition NEEDS_RECOVERY :: u8 where "NEEDS_RECOVERY = 3"
definition PERMANENT_FAULTY :: u8 where "PERMANENT_FAULTY = 4"

lemmas health_states = HEALTHY_def FAULTY_def EXTERNAL_CONTROL_def NEEDS_RECOVERY_def PERMANENT_FAULTY_def

definition OBJECT_NOT_HEALTHY :: u16 where [retcode]: "OBJECT_NOT_HEALTHY = MAKE_RETURN_CODE HAS_HEALTH_IF 1"
definition INVALID_HEALTH_STATE :: u16 where [retcode]: "INVALID_HEALTH_STATE = MAKE_RETURN_CODE HAS_HEALTH_IF 2"
definition HEALTH_INFO_EVENT :: u32 where "HEALTH_INFO_EVENT = MAKE_EVENT 75 6 SEVERITY_INFO"
definition CHILD_CHANGED_HEALTH :: u32 where "CHILD_CHANGED_HEALTH = MAKE_EVENT 75 7 SEVERITY_INFO"
definition CHILD_PROBLEMS :: u32 where "CHILD_PROBLEMS = MAKE_EVENT 75 8 SEVERITY_LOW"
definition OVERWRITING_HEALTH :: u32 where "OVERWRITING_HEALTH = MAKE_EVENT 75 9 SEVERITY_LOW"
definition TRYING_RECOVERY :: u32 where "TRYING_RECOVERY = MAKE_EVENT 75 10 SEVERITY_MEDIUM"
definition RECOVERY_STEP :: u32 where "RECOVERY_STEP = MAKE_EVENT 75 11 SEVERITY_MEDIUM"
definition RECOVERY_DONE :: u32 where "RECOVERY_DONE = MAKE_EVENT 75 12 SEVERITY_MEDIUM"

definition newHealthTable :: health_table where
  "newHealthTable = \<lparr>healthMap = [], mapIterator = None\<rparr>"

definition ht_registerObject :: "health_table \<Rightarrow> u32 \<Rightarrow> u8 \<Rightarrow> u16 \<times> health_table" where
  "ht_registerObject t object initialState =
     (if map_of (healthMap t) object \<noteq> None then (RETURN_FAILED, t)
      else (RETURN_OK, t\<lparr>healthMap := insort_key fst (object, initialState) (healthMap t)\<rparr>))"

definition ht_setHealth :: "health_table \<Rightarrow> u32 \<Rightarrow> u8 \<Rightarrow> health_table" where
  "ht_setHealth t object newState =
     t\<lparr>healthMap := map (\<lambda>(k, s). (k, if k = object then newState else s)) (healthMap t)\<rparr>"

definition ht_getHealth :: "health_table \<Rightarrow> u32 \<Rightarrow> u8" where
  "ht_getHealth t object = (case map_of (healthMap t) object of Some s \<Rightarrow> s | None \<Rightarrow> HEALTHY)"

definition ht_hasHealth :: "health_table \<Rightarrow> u32 \<Rightarrow> bool" where
  "ht_hasHealth t object \<longleftrightarrow> map_of (healthMap t) object \<noteq> None"

text \<open>The parentheses of the code: one byte for all states together.\<close>

definition ht_getPrintSize :: "health_table \<Rightarrow> u64" where
  "ht_getPrintSize t = ucast (of_nat (length (healthMap t) * 4 + 1 + 2) :: u32)"

definition ht_print_entry :: "byte_order \<Rightarrow> u64 \<Rightarrow> u32 \<times> u8 \<Rightarrow> ostream \<Rightarrow> ostream" where
  "ht_print_entry sys maxSize h s =
     snd (SA_serialize_word sys (snd h) (snd (SA_serialize_word sys (fst h) s maxSize BIG)) maxSize BIG)"

definition ht_printAll :: "byte_order \<Rightarrow> health_table \<Rightarrow> u64 \<Rightarrow> bytes" where
  "ht_printAll sys t maxSize =
     obytes (fold (ht_print_entry sys maxSize) (healthMap t)
       (snd (SA_serialize_word sys (of_nat (length (healthMap t)) :: u16) \<lparr>obytes = [], osize = 0\<rparr> maxSize BIG)))"

text \<open>\<open>iterate\<close>: at the end of the map the iterator is dereferenced all the same.\<close>

definition ht_iterate :: "health_table \<Rightarrow> bool \<Rightarrow> (u16 \<times> (u32 \<times> u8) \<times> health_table) option" where
  "ht_iterate t reset =
     (case (if reset then (case healthMap t of [] \<Rightarrow> None | x # _ \<Rightarrow> Some (fst x)) else mapIterator t) of
        None \<Rightarrow> None
      | Some k \<Rightarrow> (case dropWhile (\<lambda>x. fst x \<noteq> k) (healthMap t) of
            [] \<Rightarrow> None
          | x # rest \<Rightarrow> Some (RETURN_OK, x, t\<lparr>mapIterator := (case rest of [] \<Rightarrow> None | y # _ \<Rightarrow> Some (fst y))\<rparr>)))"

text \<open>\<open>ManagesHealthIF\<close>.\<close>

definition state_isFaulty :: "u8 \<Rightarrow> bool" where
  "state_isFaulty h \<longleftrightarrow> h = FAULTY \<or> h = PERMANENT_FAULTY \<or> h = NEEDS_RECOVERY"

definition ht_isHealthy :: "health_table \<Rightarrow> u32 \<Rightarrow> bool" where
  "ht_isHealthy t object \<longleftrightarrow> ht_getHealth t object = HEALTHY"

definition ht_isFaulty :: "health_table \<Rightarrow> u32 \<Rightarrow> bool" where
  "ht_isFaulty t object \<longleftrightarrow> state_isFaulty (ht_getHealth t object)"

definition ht_isPermanentFaulty :: "health_table \<Rightarrow> u32 \<Rightarrow> bool" where
  "ht_isPermanentFaulty t object \<longleftrightarrow> ht_getHealth t object = PERMANENT_FAULTY"

definition ht_isCommandable :: "health_table \<Rightarrow> u32 \<Rightarrow> bool" where
  "ht_isCommandable t object \<longleftrightarrow> ht_getHealth t object \<noteq> EXTERNAL_CONTROL"

text \<open>\<open>HealthMessage\<close>, of message type 2.\<close>

definition HEALTH_SET :: u16 where "HEALTH_SET = MAKE_COMMAND_ID 2 1"
definition HEALTH_ANNOUNCE :: u16 where "HEALTH_ANNOUNCE = MAKE_COMMAND_ID 2 2"
definition HEALTH_ANNOUNCE_ALL :: u16 where "HEALTH_ANNOUNCE_ALL = MAKE_COMMAND_ID 2 3"
definition HEALTH_INFO :: u16 where "HEALTH_INFO = MAKE_COMMAND_ID 2 5"
definition REPLY_HEALTH_SET :: u16 where "REPLY_HEALTH_SET = MAKE_COMMAND_ID 2 6"

definition setHealthMessage :: "byte_order \<Rightarrow> mq_message \<Rightarrow> u16 \<Rightarrow> u8 \<Rightarrow> u8 \<Rightarrow> mq_message" where
  "setHealthMessage sys m command health oldHealth =
     setParameter2 sys (setParameter sys (setCommand sys m command) (ucast health)) (ucast oldHealth)"

definition setHealthMessage_command :: "byte_order \<Rightarrow> mq_message \<Rightarrow> u16 \<Rightarrow> mq_message" where
  "setHealthMessage_command sys m command = setCommand sys m command"

definition msg_getHealth :: "byte_order \<Rightarrow> mq_message \<Rightarrow> u8" where
  "msg_getHealth sys m = ucast (getParameter sys m)"

definition msg_getOldHealth :: "byte_order \<Rightarrow> mq_message \<Rightarrow> u8" where
  "msg_getOldHealth sys m = ucast (getParameter2 sys m)"

definition health_clear :: "byte_order \<Rightarrow> mq_message \<Rightarrow> mq_message" where
  "health_clear sys m = setCommand sys m CMD_NONE"

subsection \<open>Mode messages\<close>

definition CMD_MODE_COMMAND :: u16 where "CMD_MODE_COMMAND = MAKE_COMMAND_ID 1 0x01"
definition CMD_MODE_COMMAND_FORCED :: u16 where "CMD_MODE_COMMAND_FORCED = MAKE_COMMAND_ID 1 0xF1"
definition REPLY_MODE_REPLY :: u16 where "REPLY_MODE_REPLY = MAKE_COMMAND_ID 1 0x02"
definition REPLY_MODE_INFO :: u16 where "REPLY_MODE_INFO = MAKE_COMMAND_ID 1 0x03"
definition REPLY_CANT_REACH_MODE :: u16 where "REPLY_CANT_REACH_MODE = MAKE_COMMAND_ID 1 0x04"
definition REPLY_WRONG_MODE_REPLY :: u16 where "REPLY_WRONG_MODE_REPLY = MAKE_COMMAND_ID 1 0x05"
definition CMD_MODE_READ :: u16 where "CMD_MODE_READ = MAKE_COMMAND_ID 1 0x06"
definition CMD_MODE_ANNOUNCE :: u16 where "CMD_MODE_ANNOUNCE = MAKE_COMMAND_ID 1 0x07"
definition CMD_MODE_ANNOUNCE_RECURSIVELY :: u16 where "CMD_MODE_ANNOUNCE_RECURSIVELY = MAKE_COMMAND_ID 1 0x08"

definition msg_getMode :: "byte_order \<Rightarrow> mq_message \<Rightarrow> u32" where
  "msg_getMode sys m = getParameter sys m"

definition msg_getSubmode :: "byte_order \<Rightarrow> mq_message \<Rightarrow> u8" where
  "msg_getSubmode sys m = ucast (getParameter2 sys m)"

definition setModeMessage :: "byte_order \<Rightarrow> mq_message \<Rightarrow> u16 \<Rightarrow> u32 \<Rightarrow> u8 \<Rightarrow> mq_message" where
  "setModeMessage sys m command mode submode =
     setParameter2 sys (setParameter sys (setCommand sys m command) mode) (ucast submode)"

definition getCantReachModeReason :: "byte_order \<Rightarrow> mq_message \<Rightarrow> u16" where
  "getCantReachModeReason sys m = ucast (getParameter sys m)"

definition setCantReachMode :: "byte_order \<Rightarrow> mq_message \<Rightarrow> u16 \<Rightarrow> mq_message" where
  "setCantReachMode sys m reason =
     setParameter2 sys (setParameter sys (setCommand sys m REPLY_CANT_REACH_MODE) (ucast reason)) 0"

definition mode_clear :: "byte_order \<Rightarrow> mq_message \<Rightarrow> mq_message" where
  "mode_clear sys m = setCommand sys m CMD_NONE"

lemmas message_ids = CMD_NONE_def REPLY_COMMAND_OK_def REPLY_REJECTED_def HEALTH_SET_def HEALTH_ANNOUNCE_def HEALTH_ANNOUNCE_ALL_def
  HEALTH_INFO_def REPLY_HEALTH_SET_def CMD_MODE_COMMAND_def CMD_MODE_COMMAND_FORCED_def REPLY_MODE_REPLY_def REPLY_MODE_INFO_def
  REPLY_CANT_REACH_MODE_def REPLY_WRONG_MODE_REPLY_def CMD_MODE_READ_def CMD_MODE_ANNOUNCE_def CMD_MODE_ANNOUNCE_RECURSIVELY_def
  MAKE_COMMAND_ID_def

definition INVALID_MODE :: u16 where [retcode]: "INVALID_MODE = MAKE_RETURN_CODE HAS_MODES_IF 1"
definition TRANS_NOT_ALLOWED :: u16 where [retcode]: "TRANS_NOT_ALLOWED = MAKE_RETURN_CODE HAS_MODES_IF 2"
definition IN_TRANSITION :: u16 where [retcode]: "IN_TRANSITION = MAKE_RETURN_CODE HAS_MODES_IF 3"
definition INVALID_SUBMODE :: u16 where [retcode]: "INVALID_SUBMODE = MAKE_RETURN_CODE HAS_MODES_IF 4"
definition CHANGING_MODE :: u32 where "CHANGING_MODE = MAKE_EVENT 74 0 SEVERITY_INFO"
definition MODE_INFO :: u32 where "MODE_INFO = MAKE_EVENT 74 1 SEVERITY_INFO"
definition FALLBACK_FAILED :: u32 where "FALLBACK_FAILED = MAKE_EVENT 74 2 SEVERITY_HIGH"
definition MODE_TRANSITION_FAILED :: u32 where "MODE_TRANSITION_FAILED = MAKE_EVENT 74 3 SEVERITY_LOW"
definition CANT_KEEP_MODE :: u32 where "CANT_KEEP_MODE = MAKE_EVENT 74 4 SEVERITY_HIGH"
definition OBJECT_IN_INVALID_MODE :: u32 where "OBJECT_IN_INVALID_MODE = MAKE_EVENT 74 5 SEVERITY_LOW"
definition FORCING_MODE :: u32 where "FORCING_MODE = MAKE_EVENT 74 6 SEVERITY_MEDIUM"
definition MODE_CMD_REJECTED :: u32 where "MODE_CMD_REJECTED = MAKE_EVENT 74 7 SEVERITY_LOW"
definition MODE_ON :: u32 where "MODE_ON = 1"
definition MODE_OFF :: u32 where "MODE_OFF = 0"
definition SUBMODE_NONE :: u8 where "SUBMODE_NONE = 0"

subsection \<open>The helpers of an object\<close>

record mode_owner =
  ownerId :: u32
  ownQueue :: u32
  healthParent :: u32
  modeParent :: u32
  commandedMode :: u32
  commandedSubmode :: u8
  theOneWhoCommandedAMode :: u32
  modeForced :: bool
  modeCountdown :: countdown

text \<open>\<open>checkModeCommand\<close> gets the uninitialised timeout of the caller, which it may leave as it is.\<close>

record 's owner_ops =
  checkModeCommand :: "u32 \<Rightarrow> u8 \<Rightarrow> u32 \<Rightarrow> 's \<Rightarrow> system_world \<Rightarrow> u16 \<times> u32"
  startTransition :: "u32 \<Rightarrow> u8 \<Rightarrow> 's \<Rightarrow> system_world \<Rightarrow> ('s \<times> system_world) option"
  setToExternalControl :: "'s \<Rightarrow> system_world \<Rightarrow> 's \<times> system_world"
  announceMode :: "bool \<Rightarrow> 's \<Rightarrow> system_world \<Rightarrow> 's \<times> system_world"
  ownerMode :: "'s \<Rightarrow> u32 \<times> u8"
  ownerSetHealth :: "u8 \<Rightarrow> 's \<Rightarrow> system_world \<Rightarrow> u16 \<times> 's \<times> system_world"

subsubsection \<open>\<open>HealthHelper\<close>\<close>

definition hh_getHealth :: "'a mode_owner_scheme \<Rightarrow> system_world \<Rightarrow> u8" where
  "hh_getHealth s w = ht_getHealth (healthTable w) (ownerId s)"

definition hh_informParent :: "byte_order \<Rightarrow> u8 \<Rightarrow> u8 \<Rightarrow> 'a mode_owner_scheme \<Rightarrow> system_world \<Rightarrow> system_world" where
  "hh_informParent sys health oldHealth s w =
     (if healthParent s = NO_QUEUE then w
      else snd (sw_send sys (healthParent s) (setHealthMessage sys (newCommandMessage sys) HEALTH_INFO health oldHealth) (ownQueue s) w))"

definition hh_setHealth :: "byte_order \<Rightarrow> u8 \<Rightarrow> 'a mode_owner_scheme \<Rightarrow> system_world \<Rightarrow> system_world" where
  "hh_setHealth sys health s w =
     (let oldHealth = hh_getHealth s w;
          w1 = triggerEvent (ownerId s) HEALTH_INFO_EVENT (ucast health) (ucast oldHealth) w
      in if health \<noteq> oldHealth
         then hh_informParent sys health oldHealth s (w1\<lparr>healthTable := ht_setHealth (healthTable w1) (ownerId s) health\<rparr>)
         else w1)"

definition handleSetHealthCommand ::
  "byte_order \<Rightarrow> 'a mode_owner_scheme owner_ops \<Rightarrow> mq_message \<Rightarrow> 'a mode_owner_scheme \<Rightarrow> system_world
     \<Rightarrow> 'a mode_owner_scheme \<times> system_world" where
  "handleSetHealthCommand sys ops command s w =
     (case ownerSetHealth ops (msg_getHealth sys command) s w of
        (result, s1, w1) \<Rightarrow>
          if getSender sys command = NO_QUEUE then (s1, w1)
          else
            let reply = (if result = RETURN_OK then setHealthMessage_command sys (newCommandMessage sys) REPLY_HEALTH_SET
                         else setReplyRejected sys (newCommandMessage sys) result (getCommand sys command))
            in (s1, snd (sw_send sys (getSender sys command) reply (ownQueue s1) w1)))"

definition handleHealthCommand ::
  "byte_order \<Rightarrow> 'a mode_owner_scheme owner_ops \<Rightarrow> mq_message \<Rightarrow> 'a mode_owner_scheme \<Rightarrow> system_world
     \<Rightarrow> u16 \<times> 'a mode_owner_scheme \<times> system_world" where
  "handleHealthCommand sys ops message s w =
     (if getCommand sys message = HEALTH_SET then (RETURN_OK, handleSetHealthCommand sys ops message s w)
      else if getCommand sys message = HEALTH_ANNOUNCE
      then (RETURN_OK, s, triggerEvent (ownerId s) HEALTH_INFO_EVENT (ucast (hh_getHealth s w)) (ucast (hh_getHealth s w)) w)
      else (RETURN_FAILED, s, w))"

text \<open>\<open>table\<close> and \<open>proxy\<close>: the object manager knows the health table and the owner's event proxy.\<close>

definition hh_initialize ::
  "u32 \<Rightarrow> bool \<Rightarrow> bool \<Rightarrow> 'a mode_owner_scheme \<Rightarrow> system_world \<Rightarrow> u16 \<times> 'a mode_owner_scheme \<times> system_world" where
  "hh_initialize parentQueue table proxy s w =
     (let s1 = s\<lparr>healthParent := parentQueue\<rparr> in
      if \<not> table \<or> \<not> proxy then (CHILD_INIT_FAILED, s1, w)
      else (case ht_registerObject (healthTable w) (ownerId s) HEALTHY of (r, t) \<Rightarrow> (r, s1, w\<lparr>healthTable := t\<rparr>)))"

subsubsection \<open>\<open>ModeHelper\<close>\<close>

text \<open>\<open>check\<close>: the owner's \<open>checkModeCommand\<close>, which may have effects of its own.\<close>

definition checked_mode_command ::
  "byte_order \<Rightarrow> (u32 \<Rightarrow> u8 \<Rightarrow> u32 \<Rightarrow> 'a mode_owner_scheme \<Rightarrow> system_world \<Rightarrow> u16 \<times> u32 \<times> 'a mode_owner_scheme \<times> system_world)
     \<Rightarrow> 'a mode_owner_scheme owner_ops \<Rightarrow> u32 \<Rightarrow> mq_message \<Rightarrow> 'a mode_owner_scheme \<Rightarrow> system_world
     \<Rightarrow> (u16 \<times> 'a mode_owner_scheme \<times> system_world) option" where
  "checked_mode_command sys check ops raw command s w =
     (let c = getCommand sys command; sender = getSender sys command in
      if c = CMD_MODE_COMMAND_FORCED \<or> c = CMD_MODE_COMMAND then
        let s0 = (if c = CMD_MODE_COMMAND_FORCED then s\<lparr>modeForced := True\<rparr> else s);
            mode = msg_getMode sys command; submode = msg_getSubmode sys command
        in (case check mode submode raw s0 w of
              (result, timeout, s1, w1) \<Rightarrow>
                if result \<noteq> RETURN_OK
                then Some (RETURN_OK, s1, snd (sw_send sys sender (setCantReachMode sys (newCommandMessage sys) result) (ownQueue s1) w1))
                else
                  let s2 = s1\<lparr>theOneWhoCommandedAMode := sender, commandedMode := mode, commandedSubmode := submode\<rparr>
                  in (case (if modeParent s2 \<noteq> NO_QUEUE \<and> theOneWhoCommandedAMode s2 \<noteq> modeParent s2
                            then setToExternalControl ops s2 w1 else (s2, w1)) of
                        (s3, w3) \<Rightarrow>
                          (case cd_setTimeout timeout w3 of
                             (cd, w4) \<Rightarrow> map_option (Pair RETURN_OK) (startTransition ops mode submode (s3\<lparr>modeCountdown := cd\<rparr>) w4))))
      else if c = CMD_MODE_READ then
        (case ownerMode ops s of
           (mode, submode) \<Rightarrow> Some (RETURN_OK, s, snd (sw_send sys sender
              (setModeMessage sys (newCommandMessage sys) REPLY_MODE_REPLY mode submode) (ownQueue s) w)))
      else if c = CMD_MODE_ANNOUNCE then Some (RETURN_OK, announceMode ops False s w)
      else if c = CMD_MODE_ANNOUNCE_RECURSIVELY then Some (RETURN_OK, announceMode ops True s w)
      else Some (RETURN_FAILED, s, w))"

definition handleModeCommand ::
  "byte_order \<Rightarrow> 'a mode_owner_scheme owner_ops \<Rightarrow> u32 \<Rightarrow> mq_message \<Rightarrow> 'a mode_owner_scheme \<Rightarrow> system_world
     \<Rightarrow> (u16 \<times> 'a mode_owner_scheme \<times> system_world) option" where
  "handleModeCommand sys ops raw command s w =
     checked_mode_command sys (\<lambda>mode submode t s w. case checkModeCommand ops mode submode t s w of (result, timeout) \<Rightarrow> (result, timeout, s, w))
       ops raw command s w"

text \<open>The same for an owner that only looks at its state when it checks a command.\<close>

lemma handleModeCommand_cases:
  "handleModeCommand sys ops raw command s w =
     (let c = getCommand sys command; sender = getSender sys command in
      if c = CMD_MODE_COMMAND_FORCED \<or> c = CMD_MODE_COMMAND then
        let s1 = (if c = CMD_MODE_COMMAND_FORCED then s\<lparr>modeForced := True\<rparr> else s);
            mode = msg_getMode sys command; submode = msg_getSubmode sys command
        in (case checkModeCommand ops mode submode raw s1 w of
              (result, timeout) \<Rightarrow>
                if result \<noteq> RETURN_OK
                then Some (RETURN_OK, s1, snd (sw_send sys sender (setCantReachMode sys (newCommandMessage sys) result) (ownQueue s1) w))
                else
                  let s2 = s1\<lparr>theOneWhoCommandedAMode := sender, commandedMode := mode, commandedSubmode := submode\<rparr>
                  in (case (if modeParent s2 \<noteq> NO_QUEUE \<and> theOneWhoCommandedAMode s2 \<noteq> modeParent s2
                            then setToExternalControl ops s2 w else (s2, w)) of
                        (s3, w3) \<Rightarrow>
                          (case cd_setTimeout timeout w3 of
                             (cd, w4) \<Rightarrow> map_option (Pair RETURN_OK) (startTransition ops mode submode (s3\<lparr>modeCountdown := cd\<rparr>) w4))))
      else if c = CMD_MODE_READ then
        (case ownerMode ops s of
           (mode, submode) \<Rightarrow> Some (RETURN_OK, s, snd (sw_send sys sender
              (setModeMessage sys (newCommandMessage sys) REPLY_MODE_REPLY mode submode) (ownQueue s) w)))
      else if c = CMD_MODE_ANNOUNCE then Some (RETURN_OK, announceMode ops False s w)
      else if c = CMD_MODE_ANNOUNCE_RECURSIVELY then Some (RETURN_OK, announceMode ops True s w)
      else Some (RETURN_FAILED, s, w))"
  unfolding handleModeCommand_def checked_mode_command_def by (simp add: Let_def split_def)

definition sendModeReplyMessage :: "byte_order \<Rightarrow> u32 \<Rightarrow> u8 \<Rightarrow> 'a mode_owner_scheme \<Rightarrow> system_world \<Rightarrow> system_world" where
  "sendModeReplyMessage sys mode submode s w =
     (if theOneWhoCommandedAMode s \<noteq> NO_QUEUE then
        let c = (if mode \<noteq> commandedMode s \<or> submode \<noteq> commandedSubmode s then REPLY_WRONG_MODE_REPLY else REPLY_MODE_REPLY)
        in snd (sw_send sys (theOneWhoCommandedAMode s) (setModeMessage sys (newCommandMessage sys) c mode submode) (ownQueue s) w)
      else w)"

definition sendModeInfoMessage :: "byte_order \<Rightarrow> u32 \<Rightarrow> u8 \<Rightarrow> 'a mode_owner_scheme \<Rightarrow> system_world \<Rightarrow> system_world" where
  "sendModeInfoMessage sys mode submode s w =
     (if theOneWhoCommandedAMode s \<noteq> modeParent s \<and> modeParent s \<noteq> NO_QUEUE
      then snd (sw_send sys (modeParent s) (setModeMessage sys (newCommandMessage sys) REPLY_MODE_INFO mode submode) (ownQueue s) w)
      else w)"

definition mh_modeChanged :: "byte_order \<Rightarrow> u32 \<Rightarrow> u8 \<Rightarrow> 'a mode_owner_scheme \<Rightarrow> system_world \<Rightarrow> 'a mode_owner_scheme \<times> system_world" where
  "mh_modeChanged sys mode submode s w =
     (let s1 = s\<lparr>modeForced := False\<rparr>;
          w1 = sendModeReplyMessage sys mode submode s1 w;
          w2 = sendModeInfoMessage sys mode submode s1 w1
      in (s1\<lparr>theOneWhoCommandedAMode := NO_QUEUE\<rparr>, w2))"

definition mh_startTimer :: "u32 \<Rightarrow> 'a mode_owner_scheme \<Rightarrow> system_world \<Rightarrow> 'a mode_owner_scheme \<times> system_world" where
  "mh_startTimer timeoutMs s w = (case cd_setTimeout timeoutMs w of (cd, w') \<Rightarrow> (s\<lparr>modeCountdown := cd\<rparr>, w'))"

definition mh_isTimedOut :: "'a mode_owner_scheme \<Rightarrow> system_world \<Rightarrow> bool \<times> system_world" where
  "mh_isTimedOut s w = cd_hasTimedOut (modeCountdown s) w"

definition mh_initialize :: "u32 \<Rightarrow> 'a mode_owner_scheme \<Rightarrow> u16 \<times> 'a mode_owner_scheme" where
  "mh_initialize parentQueueId s = (RETURN_OK, s\<lparr>modeParent := parentQueueId\<rparr>)"

end
