(* ===== verification/SubsystemBase.thy ===== *)
theory SubsystemBase
  imports HealthModes
begin

text \<open>
  \<open>fsfw/subsystem/SubsystemBase.cpp\<close> and the entries of mode tables and sequences
  (\<open>subsystem/modes/ModeDefinitions.h\<close>): the children of a subsystem, the comparison of their modes with a
  table, the commanding of a table, and the handling of the command queue. A \<open>HybridIterator\<close> is the list
  of the entries that remain; it points behind the last entry when the list is empty.
\<close>

subsection \<open>Entries of tables and sequences\<close>

record mode_list_entry =
  value1 :: u32
  value2 :: u32
  value3 :: u8
  value4 :: u8

definition newModeListEntry :: mode_list_entry where
  "newModeListEntry = \<lparr>value1 = 0, value2 = 0, value3 = 0, value4 = 0\<rparr>"

definition mle_serialize :: "byte_order \<Rightarrow> mode_list_entry \<Rightarrow> ostream \<Rightarrow> u64 \<Rightarrow> endianness \<Rightarrow> u16 \<times> ostream" where
  "mle_serialize sys x s m e =
     (case SA_serialize_word sys (value1 x) s m e of (r1, s1) \<Rightarrow>
        if r1 \<noteq> RETURN_OK then (r1, s1)
        else (case SA_serialize_word sys (value2 x) s1 m e of (r2, s2) \<Rightarrow>
          if r2 \<noteq> RETURN_OK then (r2, s2)
          else (case SA_serialize_word sys (value3 x) s2 m e of (r3, s3) \<Rightarrow>
            if r3 \<noteq> RETURN_OK then (r3, s3) else SA_serialize_word sys (value4 x) s3 m e)))"

definition mle_getSerializedSize :: "mode_list_entry \<Rightarrow> nat" where
  "mle_getSerializedSize x = 4 + 4 + 1 + 1"

text \<open>\<open>old\<close> is the entry that is read into; the fields that could be read keep their new values.\<close>

definition mle_deSerialize :: "byte_order \<Rightarrow> mode_list_entry \<Rightarrow> bytes \<Rightarrow> endianness \<Rightarrow> u16 \<times> mode_list_entry \<times> bytes" where
  "mle_deSerialize sys old inp e =
     (case SA_deSerialize_word sys inp e of (r1, v1, i1) \<Rightarrow>
        if r1 \<noteq> RETURN_OK then (r1, old, i1)
        else let x1 = old\<lparr>value1 := the v1\<rparr> in
          (case SA_deSerialize_word sys i1 e of (r2, v2, i2) \<Rightarrow>
             if r2 \<noteq> RETURN_OK then (r2, x1, i2)
             else let x2 = x1\<lparr>value2 := the v2\<rparr> in
               (case SA_deSerialize_word sys i2 e of (r3, v3, i3) \<Rightarrow>
                  if r3 \<noteq> RETURN_OK then (r3, x2, i3)
                  else let x3 = x2\<lparr>value3 := the v3\<rparr> in
                    (case SA_deSerialize_word sys i3 e of (r4, v4, i4) \<Rightarrow>
                       (r4, case v4 of None \<Rightarrow> x3 | Some v \<Rightarrow> x3\<lparr>value4 := v\<rparr>, i4)))))"

text \<open>In sequences.\<close>

definition getTableId :: "mode_list_entry \<Rightarrow> u32" where "getTableId x = value1 x"
definition setTableId :: "mode_list_entry \<Rightarrow> u32 \<Rightarrow> mode_list_entry" where "setTableId x tableId = x\<lparr>value1 := tableId\<rparr>"
definition getWaitSeconds :: "mode_list_entry \<Rightarrow> u8" where "getWaitSeconds x = ucast (value2 x)"
definition setWaitSeconds :: "mode_list_entry \<Rightarrow> u8 \<Rightarrow> mode_list_entry" where "setWaitSeconds x s = x\<lparr>value2 := ucast s\<rparr>"
definition checkSuccess :: "mode_list_entry \<Rightarrow> bool" where "checkSuccess x \<longleftrightarrow> value3 x = 1"
definition setCheckSuccess :: "mode_list_entry \<Rightarrow> bool \<Rightarrow> mode_list_entry" where
  "setCheckSuccess x b = x\<lparr>value3 := (if b then 1 else 0)\<rparr>"

text \<open>In tables.\<close>

definition getObject :: "mode_list_entry \<Rightarrow> u32" where "getObject x = value1 x"
definition setObject :: "mode_list_entry \<Rightarrow> u32 \<Rightarrow> mode_list_entry" where "setObject x object = x\<lparr>value1 := object\<rparr>"
definition entry_getMode :: "mode_list_entry \<Rightarrow> u32" where "entry_getMode x = value2 x"
definition entry_setMode :: "mode_list_entry \<Rightarrow> u32 \<Rightarrow> mode_list_entry" where "entry_setMode x mode = x\<lparr>value2 := mode\<rparr>"
definition entry_getSubmode :: "mode_list_entry \<Rightarrow> u8" where "entry_getSubmode x = value3 x"
definition entry_setSubmode :: "mode_list_entry \<Rightarrow> u8 \<Rightarrow> mode_list_entry" where "entry_setSubmode x submode = x\<lparr>value3 := submode\<rparr>"
definition inheritSubmode :: "mode_list_entry \<Rightarrow> bool" where "inheritSubmode x \<longleftrightarrow> value4 x = 1"
definition setInheritSubmode :: "mode_list_entry \<Rightarrow> bool \<Rightarrow> mode_list_entry" where
  "setInheritSubmode x inherit = x\<lparr>value4 := (if inherit then 1 else 0)\<rparr>"

definition mle_equal :: "mode_list_entry \<Rightarrow> mode_list_entry \<Rightarrow> bool" where
  "mle_equal x y \<longleftrightarrow> value1 x = value1 y \<and> value2 x = value2 y \<and> value3 x = value3 y"

subsection \<open>State\<close>

definition CHILD_NOT_FOUND :: u16 where [retcode]: "CHILD_NOT_FOUND = MAKE_RETURN_CODE SUBSYSTEM_BASE 1"
definition CHILD_INFO_UPDATED :: u16 where [retcode]: "CHILD_INFO_UPDATED = MAKE_RETURN_CODE SUBSYSTEM_BASE 2"
definition CHILD_DOESNT_HAVE_MODES :: u16 where [retcode]: "CHILD_DOESNT_HAVE_MODES = MAKE_RETURN_CODE SUBSYSTEM_BASE 3"
definition COULD_NOT_INSERT_CHILD :: u16 where [retcode]: "COULD_NOT_INSERT_CHILD = MAKE_RETURN_CODE SUBSYSTEM_BASE 4"
definition TABLE_CONTAINS_INVALID_OBJECT_ID :: u16 where
  [retcode]: "TABLE_CONTAINS_INVALID_OBJECT_ID = MAKE_RETURN_CODE SUBSYSTEM_BASE 5"

record child_info =
  childQueue :: u32
  childMode :: u32
  childSubmode :: u8
  healthChanged :: bool

text \<open>The children are kept in the order of their object ids.\<close>

record subsystem_base = mode_owner +
  sbMode :: u32
  sbSubmode :: u8
  childrenChangedMode :: bool
  commandsOutstanding :: int
  parentId :: u32
  childrenMap :: "(u32 \<times> child_info) list"

definition newSubsystemBase :: "queue_map \<Rightarrow> u32 \<Rightarrow> u32 \<Rightarrow> u32 \<Rightarrow> nat \<Rightarrow> (subsystem_base \<times> queue_map) option" where
  "newSubsystemBase qm setObjectId parent initialMode commandQueueDepth =
     (case addMessageQueue qm (newHostQueue 0 commandQueueDepth MAX_MESSAGE_SIZE) of
        (_, Some qid, qm') \<Rightarrow>
          Some (\<lparr>ownerId = setObjectId, ownQueue = qid, healthParent = NO_QUEUE, modeParent = NO_QUEUE, commandedMode = MODE_OFF,
                 commandedSubmode = SUBMODE_NONE, theOneWhoCommandedAMode = NO_QUEUE, modeForced = False,
                 modeCountdown = \<lparr>cdStart = 0, cdTimeout = 0\<rparr>, sbMode = initialMode, sbSubmode = SUBMODE_NONE,
                 childrenChangedMode = False, commandsOutstanding = 0, parentId = parent, childrenMap = []\<rparr>, qm')
      | _ \<Rightarrow> None)"

subsection \<open>Children\<close>

text \<open>\<open>modes\<close> and \<open>health\<close>: the command queue of the object as the object manager knows it under the interface.\<close>

definition registerChild ::
  "u32 option \<Rightarrow> u32 option \<Rightarrow> u32 \<Rightarrow> 'a subsystem_base_scheme \<Rightarrow> u16 \<times> 'a subsystem_base_scheme" where
  "registerChild modes health objectId s =
     (case (case modes of
              Some q \<Rightarrow> Some (q, - 1)
            | None \<Rightarrow> map_option (\<lambda>q. (q, MODE_OFF)) health) of
        None \<Rightarrow> (CHILD_DOESNT_HAVE_MODES, s)
      | Some (q, mode) \<Rightarrow>
          if map_of (childrenMap s) objectId \<noteq> None then (COULD_NOT_INSERT_CHILD, s)
          else (RETURN_OK, s\<lparr>childrenMap := insort_key fst
                  (objectId, \<lparr>childQueue = q, childMode = mode, childSubmode = SUBMODE_NONE, healthChanged = False\<rparr>) (childrenMap s)\<rparr>))"

text \<open>The first child with the queue is changed.\<close>

fun change_child :: "u32 \<Rightarrow> (child_info \<Rightarrow> child_info) \<Rightarrow> (u32 \<times> child_info) list \<Rightarrow> (u32 \<times> child_info) list option" where
  "change_child queue f [] = None"
| "change_child queue f ((k, c) # cs) =
     (if childQueue c = queue then Some ((k, f c) # cs) else map_option (Cons (k, c)) (change_child queue f cs))"

definition updateChildMode :: "u32 \<Rightarrow> u32 \<Rightarrow> u8 \<Rightarrow> 'a subsystem_base_scheme \<Rightarrow> u16 \<times> 'a subsystem_base_scheme" where
  "updateChildMode queue mode submode s =
     (case change_child queue (\<lambda>c. c\<lparr>childMode := mode, childSubmode := submode\<rparr>) (childrenMap s) of
        None \<Rightarrow> (CHILD_NOT_FOUND, s)
      | Some cs \<Rightarrow> (RETURN_OK, s\<lparr>childrenMap := cs\<rparr>))"

definition updateChildChangedHealth :: "u32 \<Rightarrow> bool \<Rightarrow> 'a subsystem_base_scheme \<Rightarrow> u16 \<times> 'a subsystem_base_scheme" where
  "updateChildChangedHealth queue changed s =
     (case change_child queue (\<lambda>c. c\<lparr>healthChanged := changed\<rparr>) (childrenMap s) of
        None \<Rightarrow> (CHILD_NOT_FOUND, s)
      | Some cs \<Rightarrow> (RETURN_OK, s\<lparr>childrenMap := cs\<rparr>))"

subsection \<open>Tables\<close>

fun checkStateAgainstTable :: "'a subsystem_base_scheme \<Rightarrow> mode_list_entry list \<Rightarrow> u8 \<Rightarrow> u16" where
  "checkStateAgainstTable s [] targetSubmode = RETURN_OK"
| "checkStateAgainstTable s (x # xs) targetSubmode =
     (case map_of (childrenMap s) (getObject x) of
        None \<Rightarrow> RETURN_FAILED
      | Some c \<Rightarrow>
          if childMode c \<noteq> entry_getMode x then RETURN_FAILED
          else if childSubmode c \<noteq> (if inheritSubmode x then targetSubmode else entry_getSubmode x) then RETURN_FAILED
          else checkStateAgainstTable s xs targetSubmode)"

fun checkTable :: "'a subsystem_base_scheme \<Rightarrow> mode_list_entry list \<Rightarrow> u16" where
  "checkTable s [] = RETURN_OK"
| "checkTable s (x # xs) =
     (if map_of (childrenMap s) (getObject x) = None then TABLE_CONTAINS_INVALID_OBJECT_ID else checkTable s xs)"

text \<open>The command for an entry: the message id, the mode and the submode, or nothing.\<close>

definition entry_command :: "'a subsystem_base_scheme \<Rightarrow> system_world \<Rightarrow> u8 \<Rightarrow> mode_list_entry \<Rightarrow> (u16 \<times> u32 \<times> u8) option" where
  "entry_command s w targetSubmode x =
     (let submode = (if inheritSubmode x then targetSubmode else entry_getSubmode x); object = getObject x in
      if ht_hasHealth (healthTable w) object then
        (if ht_isFaulty (healthTable w) object then Some (CMD_MODE_COMMAND, MODE_OFF, SUBMODE_NONE)
         else if modeForced s then Some (CMD_MODE_COMMAND_FORCED, entry_getMode x, submode)
         else if ht_isCommandable (healthTable w) object then Some (CMD_MODE_COMMAND, entry_getMode x, submode)
         else None)
      else Some (CMD_MODE_COMMAND, entry_getMode x, submode))"

text \<open>One message is used for all entries.\<close>

fun execute_entries ::
  "byte_order \<Rightarrow> u8 \<Rightarrow> mode_list_entry list \<Rightarrow> mq_message \<Rightarrow> 'a subsystem_base_scheme \<Rightarrow> system_world
     \<Rightarrow> 'a subsystem_base_scheme \<times> system_world" where
  "execute_entries sys targetSubmode [] m s w = (s, w)"
| "execute_entries sys targetSubmode (x # xs) m s w =
     (case map_of (childrenMap s) (getObject x) of
        None \<Rightarrow> execute_entries sys targetSubmode xs m s w
      | Some c \<Rightarrow>
          (case entry_command s w targetSubmode x of
             None \<Rightarrow> execute_entries sys targetSubmode xs m s w
           | Some (cmd, mode, submode) \<Rightarrow>
               let m1 = setModeMessage sys m cmd mode submode in
               if childMode c = msg_getMode sys m1 \<and> childSubmode c = msg_getSubmode sys m1 \<and> \<not> modeForced s
               then execute_entries sys targetSubmode xs m1 s w
               else (case sw_send_again sys (childQueue c) m1 (ownQueue s) w of
                       (result, m2, w1) \<Rightarrow>
                         execute_entries sys targetSubmode xs m2
                           (if result = RETURN_OK then s\<lparr>commandsOutstanding := commandsOutstanding s + 1\<rparr> else s) w1)))"

definition executeTable ::
  "byte_order \<Rightarrow> mode_list_entry list \<Rightarrow> u8 \<Rightarrow> 'a subsystem_base_scheme \<Rightarrow> system_world \<Rightarrow> 'a subsystem_base_scheme \<times> system_world" where
  "executeTable sys table targetSubmode s w =
     execute_entries sys targetSubmode table (newCommandMessage sys) (s\<lparr>commandsOutstanding := 0\<rparr>) w"

subsection \<open>Modes\<close>

fun send_to_children ::
  "byte_order \<Rightarrow> u32 \<Rightarrow> (u32 \<times> child_info) list \<Rightarrow> mq_message \<Rightarrow> system_world \<Rightarrow> system_world" where
  "send_to_children sys src [] m w = w"
| "send_to_children sys src ((k, c) # cs) m w =
     (case sw_send_again sys (childQueue c) m src w of (_, m', w') \<Rightarrow> send_to_children sys src cs m' w')"

definition commandAllChildren :: "byte_order \<Rightarrow> mq_message \<Rightarrow> 'a subsystem_base_scheme \<Rightarrow> system_world \<Rightarrow> system_world" where
  "commandAllChildren sys m s w = send_to_children sys (ownQueue s) (childrenMap s) m w"

definition sb_announceMode :: "byte_order \<Rightarrow> bool \<Rightarrow> 'a subsystem_base_scheme \<Rightarrow> system_world \<Rightarrow> 'a subsystem_base_scheme \<times> system_world" where
  "sb_announceMode sys recursive s w =
     (let w1 = triggerEvent (ownerId s) MODE_INFO (sbMode s) (ucast (sbSubmode s)) w
      in (s, if recursive
             then commandAllChildren sys (setModeMessage sys (newCommandMessage sys) CMD_MODE_ANNOUNCE_RECURSIVELY 0 0) s w1 else w1))"

text \<open>The hook \<open>modeChanged\<close> of the base class is empty.\<close>

definition sb_setMode :: "byte_order \<Rightarrow> u32 \<Rightarrow> u8 \<Rightarrow> 'a subsystem_base_scheme \<Rightarrow> system_world \<Rightarrow> 'a subsystem_base_scheme \<times> system_world" where
  "sb_setMode sys newMode newSubmode s w =
     (case mh_modeChanged sys newMode newSubmode s w of
        (s1, w1) \<Rightarrow> sb_announceMode sys False (s1\<lparr>sbMode := newMode, sbSubmode := newSubmode\<rparr>) w1)"

definition sb_getMode :: "'a subsystem_base_scheme \<Rightarrow> u32 \<times> u8" where
  "sb_getMode s = (sbMode s, sbSubmode s)"

definition sb_setToExternalControl :: "byte_order \<Rightarrow> 'a subsystem_base_scheme \<Rightarrow> system_world \<Rightarrow> 'a subsystem_base_scheme \<times> system_world" where
  "sb_setToExternalControl sys s w = (s, hh_setHealth sys EXTERNAL_CONTROL s w)"

definition sb_setHealth :: "byte_order \<Rightarrow> u8 \<Rightarrow> 'a subsystem_base_scheme \<Rightarrow> system_world \<Rightarrow> u16 \<times> 'a subsystem_base_scheme \<times> system_world" where
  "sb_setHealth sys health s w =
     (if health = HEALTHY \<or> health = EXTERNAL_CONTROL then (RETURN_OK, s, hh_setHealth sys health s w)
      else (INVALID_HEALTH_STATE, s, w))"

subsection \<open>Messages\<close>

definition handleModeReply ::
  "byte_order \<Rightarrow> mq_message \<Rightarrow> 'a subsystem_base_scheme \<Rightarrow> system_world \<Rightarrow> u16 \<times> 'a subsystem_base_scheme \<times> system_world" where
  "handleModeReply sys message s w =
     (let c = getCommand sys message; sender = getSender sys message;
          updated = snd (updateChildMode sender (msg_getMode sys message) (msg_getSubmode sys message) s)
      in if c = REPLY_MODE_INFO then (RETURN_OK, updated\<lparr>childrenChangedMode := True\<rparr>, w)
         else if c = REPLY_MODE_REPLY \<or> c = REPLY_WRONG_MODE_REPLY
         then (RETURN_OK, updated\<lparr>childrenChangedMode := True, commandsOutstanding := commandsOutstanding updated - 1\<rparr>, w)
         else if c = REPLY_CANT_REACH_MODE
         then (RETURN_OK, s\<lparr>commandsOutstanding := commandsOutstanding s - 1\<rparr>,
               fold (\<lambda>(k, ch). if childQueue ch = sender then triggerEvent (ownerId s) MODE_CMD_REJECTED k (getParameter sys message) else id)
                 (childrenMap s) w)
         else (RETURN_FAILED, s, w))"

record 's subsystem_ops = "'s owner_ops" +
  commandMessageHandler :: "mq_message \<Rightarrow> 's \<Rightarrow> system_world \<Rightarrow> (u16 \<times> 's \<times> system_world) option"
  childOperation :: "'s \<Rightarrow> system_world \<Rightarrow> ('s \<times> system_world) option"

text \<open>One message of the command queue; \<open>raw\<close> is the uninitialised timeout of the mode helper.\<close>

definition sb_dispatch ::
  "byte_order \<Rightarrow> 'a subsystem_base_scheme subsystem_ops \<Rightarrow> u32 \<Rightarrow> mq_message \<Rightarrow> 'a subsystem_base_scheme \<Rightarrow> system_world
     \<Rightarrow> ('a subsystem_base_scheme \<times> system_world) option" where
  "sb_dispatch sys ops raw message s w =
     (case handleHealthCommand sys (owner_ops.truncate ops) message s w of
        (r1, s1, w1) \<Rightarrow>
          if r1 = RETURN_OK then Some (s1, w1)
          else Option.bind (handleModeCommand sys (owner_ops.truncate ops) raw message s1 w1) (\<lambda>(r2, s2, w2).
            if r2 = RETURN_OK then Some (s2, w2)
            else (case handleModeReply sys message s2 w2 of
                    (r3, s3, w3) \<Rightarrow>
                      if r3 = RETURN_OK then Some (s3, w3)
                      else Option.bind (commandMessageHandler ops message s3 w3) (\<lambda>(r4, s4, w4).
                        if r4 \<noteq> RETURN_OK
                        then map_option (\<lambda>(_, w5). (s4, w5))
                          (sw_reply sys (ownQueue s4) (setReplyRejected sys (newCommandMessage sys) UNKNOWN_COMMAND (getCommand sys message)) w4)
                        else Some (s4, w4)))))"

partial_function (option) checkCommandQueue ::
  "byte_order \<Rightarrow> 'a subsystem_base_scheme subsystem_ops \<Rightarrow> u32 \<Rightarrow> mq_message \<Rightarrow> 'a subsystem_base_scheme \<Rightarrow> system_world
     \<Rightarrow> ('a subsystem_base_scheme \<times> system_world) option" where
  "checkCommandQueue sys ops raw message s w =
     Option.bind (queue_receive sys (swQueues w) (ownQueue s) message) (\<lambda>(result, qm, m).
       if result \<noteq> RETURN_OK then Some (s, w\<lparr>swQueues := qm\<rparr>)
       else Option.bind (sb_dispatch sys ops raw m s (w\<lparr>swQueues := qm\<rparr>)) (\<lambda>(s', w').
              checkCommandQueue sys ops raw m s' w'))"

definition sb_performOperation ::
  "byte_order \<Rightarrow> 'a subsystem_base_scheme subsystem_ops \<Rightarrow> u32 \<Rightarrow> 'a subsystem_base_scheme \<Rightarrow> system_world
     \<Rightarrow> (u16 \<times> 'a subsystem_base_scheme \<times> system_world) option" where
  "sb_performOperation sys ops raw s w =
     Option.bind (checkCommandQueue sys ops raw (newCommandMessage sys) (s\<lparr>childrenChangedMode := False\<rparr>) w) (\<lambda>(s1, w1).
       map_option (Pair RETURN_OK) (childOperation ops s1 w1))"

text \<open>\<open>parent\<close>: the parent as the object manager knows it; it registers the child.\<close>

definition sb_initialize ::
  "'b subsystem_base_scheme option \<Rightarrow> bool \<Rightarrow> bool \<Rightarrow> 'a subsystem_base_scheme \<Rightarrow> system_world
     \<Rightarrow> u16 \<times> 'b subsystem_base_scheme option \<times> 'a subsystem_base_scheme \<times> system_world" where
  "sb_initialize parent table proxy s w =
     (if parentId s \<noteq> 0 \<and> parent = None then (RETURN_FAILED, parent, s, w)
      else
        let parentQueue = (if parentId s \<noteq> 0 then ownQueue (the parent) else 0);
            parent' = (if parentId s \<noteq> 0
                       then Some (snd (registerChild (Some (ownQueue s)) (Some (ownQueue s)) (ownerId s) (the parent))) else parent)
        in (case hh_initialize parentQueue table proxy s w of
              (r1, s1, w1) \<Rightarrow>
                if r1 \<noteq> RETURN_OK then (r1, parent', s1, w1)
                else (case mh_initialize parentQueue s1 of (r2, s2) \<Rightarrow> (r2, parent', s2, w1))))"

end
