(* ===== verification/Subsystem.thy ===== *)
theory Subsystem
  imports SubsystemBase
begin

text \<open>
  \<open>fsfw/subsystem/Subsystem.cpp\<close>, built without the mode store (\<open>USE_MODESTORE\<close> is not defined): a mode of
  a subsystem is a sequence of mode tables; the first entry of a sequence names the target table, the others
  are commanded one after the other. A pointer that the code dereferences without a test makes the
  operation \<open>None\<close> when it is null.
\<close>

subsection \<open>State\<close>

definition SEQUENCE_ALREADY_EXISTS :: u16 where [retcode]: "SEQUENCE_ALREADY_EXISTS = MAKE_RETURN_CODE SUBSYSTEM 0x01"
definition TABLE_ALREADY_EXISTS :: u16 where [retcode]: "TABLE_ALREADY_EXISTS = MAKE_RETURN_CODE SUBSYSTEM 0x02"
definition TABLE_DOES_NOT_EXIST :: u16 where [retcode]: "TABLE_DOES_NOT_EXIST = MAKE_RETURN_CODE SUBSYSTEM 0x03"
definition TABLE_OR_SEQUENCE_LENGTH_INVALID :: u16 where [retcode]: "TABLE_OR_SEQUENCE_LENGTH_INVALID = MAKE_RETURN_CODE SUBSYSTEM 0x04"
definition SEQUENCE_DOES_NOT_EXIST :: u16 where [retcode]: "SEQUENCE_DOES_NOT_EXIST = MAKE_RETURN_CODE SUBSYSTEM 0x05"
definition FALLBACK_SEQUENCE_DOES_NOT_EXIST :: u16 where [retcode]: "FALLBACK_SEQUENCE_DOES_NOT_EXIST = MAKE_RETURN_CODE SUBSYSTEM 0x07"
definition NO_TARGET_TABLE :: u16 where [retcode]: "NO_TARGET_TABLE = MAKE_RETURN_CODE SUBSYSTEM 0x08"
definition SEQUENCE_OR_TABLE_TOO_LONG :: u16 where [retcode]: "SEQUENCE_OR_TABLE_TOO_LONG = MAKE_RETURN_CODE SUBSYSTEM 0x09"
definition IS_FALLBACK_SEQUENCE :: u16 where [retcode]: "IS_FALLBACK_SEQUENCE = MAKE_RETURN_CODE SUBSYSTEM 0x0B"
definition ACCESS_DENIED :: u16 where [retcode]: "ACCESS_DENIED = MAKE_RETURN_CODE SUBSYSTEM 0x0C"
definition TABLE_IN_USE :: u16 where [retcode]: "TABLE_IN_USE = MAKE_RETURN_CODE SUBSYSTEM 0x0E"
definition TARGET_TABLE_NOT_REACHED :: u16 where [retcode]: "TARGET_TABLE_NOT_REACHED = MAKE_RETURN_CODE SUBSYSTEM 0xA1"
definition TABLE_CHECK_FAILED :: u16 where [retcode]: "TABLE_CHECK_FAILED = MAKE_RETURN_CODE SUBSYSTEM 0xA2"
definition MAX_NUMBER_OF_TABLES_OR_SEQUENCES :: nat where "MAX_NUMBER_OF_TABLES_OR_SEQUENCES = 70"
definition MAX_LENGTH_OF_TABLE_OR_SEQUENCE :: nat where "MAX_LENGTH_OF_TABLE_OR_SEQUENCE = 20"

text \<open>A table or sequence is the array of the entries, or a list in the mode store, of which only the flag is left.\<close>

record entry_pointer =
  islinked :: bool
  entryArray :: "(mode_list_entry, 8) array_list"

record sequence_info =
  fallbackSequence :: u32
  seqEntries :: entry_pointer

record subsystem = subsystem_base +
  isInTransition :: bool
  childrenChangedHealth :: bool
  uptimeStartTable :: u32
  currentTargetTable :: "mode_list_entry list"
  targetMode :: u32
  targetSubmode :: u8
  initialMode :: u32
  currentSequenceIterator :: "mode_list_entry list"
  modeTables :: "(u32, entry_pointer) fixed_map"
  modeSequences :: "(u32, sequence_info) fixed_map"

definition newSubsystem ::
  "queue_map \<Rightarrow> u32 \<Rightarrow> u32 \<Rightarrow> (u32 \<times> sequence_info) list \<Rightarrow> (u32 \<times> entry_pointer) list \<Rightarrow> (subsystem \<times> queue_map) option" where
  "newSubsystem qm setObjectId parent sequenceMemory tableMemory =
     map_option (\<lambda>(b, qm'). (subsystem_base.extend b
         \<lparr>isInTransition = False, childrenChangedHealth = False, uptimeStartTable = 0, currentTargetTable = [], targetMode = 0,
          targetSubmode = SUBMODE_NONE, initialMode = 0, currentSequenceIterator = [], modeTables = FixedMap_new tableMemory,
          modeSequences = FixedMap_new sequenceMemory\<rparr>, qm'))
       (newSubsystemBase qm setObjectId parent 0 8)"

definition setInitialMode :: "u32 \<Rightarrow> subsystem \<Rightarrow> subsystem" where
  "setInitialMode mode s = s\<lparr>initialMode := mode\<rparr>"

subsection \<open>Tables and sequences\<close>

definition existsModeSequence :: "subsystem \<Rightarrow> u32 \<Rightarrow> bool" where
  "existsModeSequence s ident \<longleftrightarrow> FixedMap_exists (modeSequences s) ident = RETURN_OK"

definition existsModeTable :: "subsystem \<Rightarrow> u32 \<Rightarrow> bool" where
  "existsModeTable s ident \<longleftrightarrow> FixedMap_exists (modeTables s) ident = RETURN_OK"

text \<open>\<open>getSequence\<close> and \<open>getTable\<close> of an id that is not in the map read a slot that is not used.\<close>

definition getSequence :: "subsystem \<Rightarrow> u32 \<Rightarrow> mode_list_entry list option" where
  "getSequence s ident = map_option (\<lambda>info. al_abs (entryArray (seqEntries info))) (FixedMap_value (modeSequences s) ident)"

definition getTable :: "subsystem \<Rightarrow> u32 \<Rightarrow> mode_list_entry list option" where
  "getTable s ident = map_option (\<lambda>entry. al_abs (entryArray entry)) (FixedMap_value (modeTables s) ident)"

definition getCurrentTable :: "subsystem \<Rightarrow> mode_list_entry list option" where
  "getCurrentTable s = (case currentSequenceIterator s of [] \<Rightarrow> None | x # _ \<Rightarrow> getTable s (getTableId x))"

text \<open>The loops over the slots of \<open>modeSequences\<close>.\<close>

definition getFallbackSequence :: "subsystem \<Rightarrow> u32 \<Rightarrow> u32" where
  "getFallbackSequence s sequence =
     (case map_of (fm_used (modeSequences s)) sequence of Some info \<Rightarrow> fallbackSequence info | None \<Rightarrow> - 1)"

definition isFallbackSequence :: "subsystem \<Rightarrow> u32 \<Rightarrow> bool" where
  "isFallbackSequence s ident \<longleftrightarrow> list_ex (\<lambda>p. fallbackSequence (snd p) = ident) (fm_used (modeSequences s))"

definition isTableUsed :: "subsystem \<Rightarrow> u32 \<Rightarrow> bool" where
  "isTableUsed s ident \<longleftrightarrow> list_ex (\<lambda>p. list_ex (\<lambda>x. getTableId x = ident) (al_abs (entryArray (seqEntries (snd p))))) (fm_used (modeSequences s))"

fun check_entries :: "subsystem \<Rightarrow> mode_list_entry list \<Rightarrow> u16" where
  "check_entries s [] = RETURN_OK"
| "check_entries s (x # xs) =
     (case getTable s (getTableId x) of
        None \<Rightarrow> TABLE_DOES_NOT_EXIST
      | Some table \<Rightarrow> let result = checkTable s table in if result \<noteq> RETURN_OK then result else check_entries s xs)"

definition checkSequence_iter :: "subsystem \<Rightarrow> mode_list_entry list \<Rightarrow> u32 \<Rightarrow> u16" where
  "checkSequence_iter s iter fallback =
     (if \<not> existsModeSequence s fallback then FALLBACK_SEQUENCE_DOES_NOT_EXIST
      else if iter = [] then NO_TARGET_TABLE else check_entries s iter)"

definition checkSequence :: "subsystem \<Rightarrow> u32 \<Rightarrow> u16" where
  "checkSequence s sequence =
     (case getSequence s sequence of
        None \<Rightarrow> SEQUENCE_DOES_NOT_EXIST
      | Some iter \<Rightarrow> checkSequence_iter s iter (getFallbackSequence s sequence))"

definition addSequence :: "(mode_list_entry, 8) array_list \<Rightarrow> u32 \<Rightarrow> u32 \<Rightarrow> bool \<Rightarrow> bool \<Rightarrow> subsystem \<Rightarrow> u16 \<times> subsystem" where
  "addSequence sequence ident fallback inStore preInit s =
     (let checked = (if preInit then RETURN_OK else checkSequence_iter s (al_abs sequence) fallback) in
      if checked \<noteq> RETURN_OK then (checked, s)
      else (case FixedMap_insert (modeSequences s) ident
                   \<lparr>fallbackSequence = fallback, seqEntries = \<lparr>islinked = inStore, entryArray = sequence\<rparr>\<rparr> of
              (result, _, m) \<Rightarrow>
                if result \<noteq> RETURN_OK then (result, s\<lparr>modeSequences := m\<rparr>)
                else if inStore then (RETURN_FAILED, s\<lparr>modeSequences := snd (FixedMap_erase_key m ident)\<rparr>)
                else (result, s\<lparr>modeSequences := m\<rparr>)))"

definition addTable :: "(mode_list_entry, 8) array_list \<Rightarrow> u32 \<Rightarrow> bool \<Rightarrow> bool \<Rightarrow> subsystem \<Rightarrow> u16 \<times> subsystem" where
  "addTable table ident inStore preInit s =
     (let checked = (if preInit then RETURN_OK else checkTable s (al_abs table)) in
      if checked \<noteq> RETURN_OK then (checked, s)
      else (case FixedMap_insert (modeTables s) ident \<lparr>islinked = inStore, entryArray = table\<rparr> of
              (result, _, m) \<Rightarrow>
                if result \<noteq> RETURN_OK then (result, s\<lparr>modeTables := m\<rparr>)
                else if inStore then (RETURN_FAILED, s\<lparr>modeTables := snd (FixedMap_erase_key m ident)\<rparr>)
                else (result, s\<lparr>modeTables := m\<rparr>)))"

definition deleteSequence :: "u32 \<Rightarrow> subsystem \<Rightarrow> u16 \<times> subsystem" where
  "deleteSequence ident s =
     (if isFallbackSequence s ident then (IS_FALLBACK_SEQUENCE, s)
      else (case FixedMap_value (modeSequences s) ident of
              None \<Rightarrow> (KEY_DOES_NOT_EXIST, s)
            | Some info \<Rightarrow>
                if \<not> islinked (seqEntries info) then (ACCESS_DENIED, s)
                else (RETURN_OK, s\<lparr>modeSequences := snd (FixedMap_erase_key (modeSequences s) ident)\<rparr>)))"

text \<open>\<open>deleteTable\<close> erases from the map of the sequences.\<close>

definition deleteTable :: "u32 \<Rightarrow> subsystem \<Rightarrow> u16 \<times> subsystem" where
  "deleteTable ident s =
     (if isTableUsed s ident then (TABLE_IN_USE, s)
      else (case FixedMap_value (modeTables s) ident of
              None \<Rightarrow> (KEY_DOES_NOT_EXIST, s)
            | Some entry \<Rightarrow>
                if \<not> islinked entry then (ACCESS_DENIED, s)
                else (RETURN_OK, s\<lparr>modeSequences := snd (FixedMap_erase_key (modeSequences s) ident)\<rparr>)))"

fun check_sequences :: "subsystem \<Rightarrow> u32 list \<Rightarrow> u16" where
  "check_sequences s [] = RETURN_OK"
| "check_sequences s (ident # ids) =
     (let result = checkSequence s ident in if result \<noteq> RETURN_OK then result else check_sequences s ids)"

definition checkObjectConnections :: "subsystem \<Rightarrow> u16" where
  "checkObjectConnections s = check_sequences s (map fst (fm_used (modeSequences s)))"

subsection \<open>Transitions\<close>

definition sub_startTransition :: "byte_order \<Rightarrow> u32 \<Rightarrow> u8 \<Rightarrow> subsystem \<Rightarrow> system_world \<Rightarrow> (subsystem \<times> system_world) option" where
  "sub_startTransition sys sequence submode s w =
     (let w1 = triggerEvent (ownerId s) (if modeForced s then FORCING_MODE else CHANGING_MODE) sequence (ucast submode) w;
          s1 = s\<lparr>targetMode := sequence, targetSubmode := submode, isInTransition := True, commandsOutstanding := 0\<rparr>
      in case getSequence s1 sequence of
           Some (target # rest) \<Rightarrow>
             Option.bind (getTable s1 (getTableId target)) (\<lambda>table.
               let s2 = s1\<lparr>currentTargetTable := table, currentSequenceIterator := rest\<rparr> in
               if rest = [] then Some (s2, w1)
               else map_option (\<lambda>t. executeTable sys t (targetSubmode s2) s2 w1) (getCurrentTable s2))
         | _ \<Rightarrow> None)"

definition transitionFailed :: "byte_order \<Rightarrow> u16 \<Rightarrow> u32 \<Rightarrow> subsystem \<Rightarrow> system_world \<Rightarrow> (subsystem \<times> system_world) option" where
  "transitionFailed sys failureCode parameter s w =
     (let w1 = triggerEvent (ownerId s) MODE_TRANSITION_FAILED (ucast failureCode) parameter w in
      if sbMode s = targetMode s then
        let s1 = s\<lparr>modeForced := True\<rparr>; fallback = getFallbackSequence s1 (sbMode s1); result = checkSequence s1 fallback in
        if result \<noteq> RETURN_OK
        then Some (s1\<lparr>isInTransition := False\<rparr>, triggerEvent (ownerId s) FALLBACK_FAILED (ucast result) fallback w1)
        else sub_startTransition sys fallback (sbSubmode s1) (s1\<lparr>sbMode := fallback\<rparr>) w1
      else sub_startTransition sys (sbMode s) (sbSubmode s) s w1)"

definition cantKeepMode :: "byte_order \<Rightarrow> subsystem \<Rightarrow> system_world \<Rightarrow> (subsystem \<times> system_world) option" where
  "cantKeepMode sys s w =
     (let fallback = getFallbackSequence s (sbMode s); result = checkSequence s fallback in
      if result \<noteq> RETURN_OK then Some (s, triggerEvent (ownerId s) FALLBACK_FAILED (ucast result) fallback w)
      else sub_startTransition sys fallback SUBMODE_NONE (s\<lparr>modeForced := True, sbMode := fallback\<rparr>) w)"

text \<open>The next table of the sequence is commanded, if there is one.\<close>

definition next_table :: "byte_order \<Rightarrow> subsystem \<Rightarrow> system_world \<Rightarrow> (subsystem \<times> system_world) option" where
  "next_table sys s w =
     (let s1 = s\<lparr>uptimeStartTable := 0, currentSequenceIterator := tl (currentSequenceIterator s)\<rparr> in
      if currentSequenceIterator s1 = [] then Some (s1, w)
      else map_option (\<lambda>t. executeTable sys t (targetSubmode s1) s1 w) (getCurrentTable s1))"

text \<open>The waiting time of a table, before the next one is commanded.\<close>

definition wait_table :: "byte_order \<Rightarrow> mode_list_entry \<Rightarrow> subsystem \<Rightarrow> system_world \<Rightarrow> (subsystem \<times> system_world) option" where
  "wait_table sys x s w =
     (if getWaitSeconds x \<noteq> 0 then
        (case getUptimeMs w of (t, w1) \<Rightarrow>
           if uptimeStartTable s = 0 then Some (s\<lparr>uptimeStartTable := t\<rparr>, w1)
           else if t - uptimeStartTable s < ucast (getWaitSeconds x) * 1000 then Some (s, w1)
           else next_table sys s w1)
      else next_table sys s w)"

definition sub_performChildOperation :: "byte_order \<Rightarrow> subsystem \<Rightarrow> system_world \<Rightarrow> (subsystem \<times> system_world) option" where
  "sub_performChildOperation sys s w =
     (if isInTransition s then
        (if commandsOutstanding s \<le> 0 then
           (case currentSequenceIterator s of
              [] \<Rightarrow>
                if checkStateAgainstTable s (currentTargetTable s) (targetSubmode s) = RETURN_OK
                then (case sb_setMode sys (targetMode s) (targetSubmode s) s w of (s1, w1) \<Rightarrow> Some (s1\<lparr>isInTransition := False\<rparr>, w1))
                else (case getSequence s (targetMode s) of
                        Some (x # _) \<Rightarrow> transitionFailed sys TARGET_TABLE_NOT_REACHED (getTableId x) s w
                      | _ \<Rightarrow> None)
            | x # _ \<Rightarrow>
                if checkSuccess x then
                  Option.bind (getCurrentTable s) (\<lambda>t.
                    if checkStateAgainstTable s t (targetSubmode s) \<noteq> RETURN_OK
                    then transitionFailed sys TABLE_CHECK_FAILED (getTableId x) s w
                    else wait_table sys x s w)
                else wait_table sys x s w)
         else Some (s, w))
      else if childrenChangedHealth s then
        sub_startTransition sys (sbMode s) (sbSubmode s) (s\<lparr>childrenChangedHealth := False\<rparr>)
          (triggerEvent (ownerId s) CHILD_CHANGED_HEALTH 0 0 w)
      else if childrenChangedMode s then
        (if checkStateAgainstTable s (currentTargetTable s) (sbSubmode s) \<noteq> RETURN_OK
         then cantKeepMode sys s (triggerEvent (ownerId s) CANT_KEEP_MODE (sbMode s) (ucast (sbSubmode s)) w)
         else Some (s, w))
      else Some (s, w))"

text \<open>The timeout is not written.\<close>

definition sub_checkModeCommand :: "u32 \<Rightarrow> u8 \<Rightarrow> u32 \<Rightarrow> subsystem \<Rightarrow> system_world \<Rightarrow> u16 \<times> u32" where
  "sub_checkModeCommand mode submode raw s w =
     (if isInTransition s \<and> mode \<noteq> getFallbackSequence s (targetMode s) then IN_TRANSITION else checkSequence s mode, raw)"

subsection \<open>Commands\<close>

text \<open>\<open>ModeSequenceMessage\<close>, of message type 3.\<close>

definition ADD_SEQUENCE :: u16 where "ADD_SEQUENCE = MAKE_COMMAND_ID 3 0x01"
definition ADD_TABLE :: u16 where "ADD_TABLE = MAKE_COMMAND_ID 3 0x02"
definition DELETE_SEQUENCE :: u16 where "DELETE_SEQUENCE = MAKE_COMMAND_ID 3 0x03"
definition DELETE_TABLE :: u16 where "DELETE_TABLE = MAKE_COMMAND_ID 3 0x04"
definition READ_SEQUENCE :: u16 where "READ_SEQUENCE = MAKE_COMMAND_ID 3 0x05"
definition READ_TABLE :: u16 where "READ_TABLE = MAKE_COMMAND_ID 3 0x06"
definition LIST_SEQUENCES :: u16 where "LIST_SEQUENCES = MAKE_COMMAND_ID 3 0x07"
definition LIST_TABLES :: u16 where "LIST_TABLES = MAKE_COMMAND_ID 3 0x08"
definition SEQUENCE_LIST :: u16 where "SEQUENCE_LIST = MAKE_COMMAND_ID 3 0x09"
definition TABLE_LIST :: u16 where "TABLE_LIST = MAKE_COMMAND_ID 3 0x0A"
definition TABLE_MSG :: u16 where "TABLE_MSG = MAKE_COMMAND_ID 3 0x0B"
definition SEQUENCE_MSG :: u16 where "SEQUENCE_MSG = MAKE_COMMAND_ID 3 0x0C"
definition READ_FREE_SEQUENCE_SLOTS :: u16 where "READ_FREE_SEQUENCE_SLOTS = MAKE_COMMAND_ID 3 0x0D"
definition FREE_SEQUENCE_SLOTS :: u16 where "FREE_SEQUENCE_SLOTS = MAKE_COMMAND_ID 3 0x0E"
definition READ_FREE_TABLE_SLOTS :: u16 where "READ_FREE_TABLE_SLOTS = MAKE_COMMAND_ID 3 0x0F"
definition FREE_TABLE_SLOTS :: u16 where "FREE_TABLE_SLOTS = MAKE_COMMAND_ID 3 0x10"

lemmas sequence_ids = ADD_SEQUENCE_def ADD_TABLE_def DELETE_SEQUENCE_def DELETE_TABLE_def READ_SEQUENCE_def READ_TABLE_def
  LIST_SEQUENCES_def LIST_TABLES_def SEQUENCE_LIST_def TABLE_LIST_def TABLE_MSG_def SEQUENCE_MSG_def READ_FREE_SEQUENCE_SLOTS_def
  FREE_SEQUENCE_SLOTS_def READ_FREE_TABLE_SLOTS_def FREE_TABLE_SLOTS_def MAKE_COMMAND_ID_def

definition setModeSequenceMessage_full :: "byte_order \<Rightarrow> mq_message \<Rightarrow> u16 \<Rightarrow> u32 \<Rightarrow> store_address \<Rightarrow> mq_message" where
  "setModeSequenceMessage_full sys m command sequence address =
     setParameter2 sys (setParameter sys (setCommand sys m command) (store_address_raw address)) sequence"

definition setModeSequenceMessage :: "byte_order \<Rightarrow> mq_message \<Rightarrow> u16 \<Rightarrow> u32 \<Rightarrow> mq_message" where
  "setModeSequenceMessage sys m command sequence = setParameter2 sys (setCommand sys m command) sequence"

definition setModeSequenceMessage_address :: "byte_order \<Rightarrow> mq_message \<Rightarrow> u16 \<Rightarrow> store_address \<Rightarrow> mq_message" where
  "setModeSequenceMessage_address sys m command address = setParameter sys (setCommand sys m command) (store_address_raw address)"

definition msg_getStoreAddress :: "byte_order \<Rightarrow> mq_message \<Rightarrow> store_address" where
  "msg_getStoreAddress sys m = store_address_of_raw (getParameter sys m)"

definition getSequenceId :: "byte_order \<Rightarrow> mq_message \<Rightarrow> u32" where "getSequenceId sys m = getParameter2 sys m"
definition msg_getTableId :: "byte_order \<Rightarrow> mq_message \<Rightarrow> u32" where "msg_getTableId sys m = getParameter2 sys m"
definition getNumber :: "byte_order \<Rightarrow> mq_message \<Rightarrow> u32" where "getNumber sys m = getParameter2 sys m"

text \<open>\<open>clear\<close>, with the IPC store if the object manager knows it.\<close>

definition mode_sequence_clear :: "byte_order \<Rightarrow> mq_message \<Rightarrow> local_pool option \<Rightarrow> (mq_message \<times> local_pool option) option" where
  "mode_sequence_clear sys m store =
     (let m' = setParameter2 sys (setParameter sys (setCommand sys m CMD_NONE) 0) 0 in
      if getCommand sys m \<in> {ADD_SEQUENCE, ADD_TABLE, SEQUENCE_LIST, TABLE_LIST, TABLE_MSG, SEQUENCE_MSG}
      then (case store of
              None \<Rightarrow> Some (m', None)
            | Some lp \<Rightarrow> map_option (\<lambda>(_, lp'). (m', Some lp')) (deleteData lp (msg_getStoreAddress sys m)))
      else Some (m', store))"

definition sub_replyToCommand :: "byte_order \<Rightarrow> u16 \<Rightarrow> subsystem \<Rightarrow> system_world \<Rightarrow> system_world option" where
  "sub_replyToCommand sys status s w =
     map_option snd (sw_reply sys (ownQueue s)
       (if status = RETURN_OK then newCommandMessage_params sys REPLY_COMMAND_OK 0 0
        else newCommandMessage_params sys REPLY_REJECTED (ucast status) 0) w)"

text \<open>\<open>elements\<close>: the serialized size and the serializer of each. \<open>raw\<close> is the store address before it is assigned.\<close>

definition sendSerializablesAsCommandMessage ::
  "byte_order \<Rightarrow> store_address \<Rightarrow> u16 \<Rightarrow> (nat \<times> (ostream \<Rightarrow> u64 \<Rightarrow> u16 \<times> ostream)) list \<Rightarrow> subsystem \<Rightarrow> system_world
     \<Rightarrow> system_world option" where
  "sendSerializablesAsCommandMessage sys raw command elements s w =
     (let maxSize = sum_list (map fst elements) in
      case getFreeElement (ipcStore w) raw maxSize False of
        (result, address, None, lp) \<Rightarrow> sub_replyToCommand sys result s (w\<lparr>ipcStore := lp\<rparr>)
      | (result, address, Some ptr, lp) \<Rightarrow>
          let out = fold (\<lambda>el os. snd (snd el os (of_nat maxSize))) elements \<lparr>obytes = [], osize = 0\<rparr>;
              w1 = w\<lparr>ipcStore := pool_put lp ptr (put_bytes (pool_mem lp ptr) 0 (obytes out))\<rparr>
          in Option.bind (sw_reply sys (ownQueue s) (setModeSequenceMessage_address sys (newCommandMessage sys) command address) w1)
               (\<lambda>(r, w2). if r \<noteq> RETURN_OK then map_option (\<lambda>(_, lp'). w2\<lparr>ipcStore := lp'\<rparr>) (deleteData (ipcStore w2) address)
                          else Some w2))"

text \<open>The serializables of the answers: an id, a list of ids, an array of entries.\<close>

definition id_element :: "byte_order \<Rightarrow> u32 \<Rightarrow> nat \<times> (ostream \<Rightarrow> u64 \<Rightarrow> u16 \<times> ostream)" where
  "id_element sys v = (4, \<lambda>os m. SA_serialize_word sys v os m BIG)"

definition ids_element :: "byte_order \<Rightarrow> u32 list \<Rightarrow> nat \<times> (ostream \<Rightarrow> u64 \<Rightarrow> u16 \<times> ostream)" where
  "ids_element sys ids =
     (let l = foldl (\<lambda>l v. snd (ArrayList_insert l v))
                (ArrayList_new (replicate MAX_NUMBER_OF_TABLES_OR_SEQUENCES 0) (of_nat MAX_NUMBER_OF_TABLES_OR_SEQUENCES) 0 :: (u32, 8) array_list) ids
      in (SAL_getSerializedSize (\<lambda>_. 4) l, \<lambda>os m. SAL_serialize sys (SA_serialize_word sys) l os m BIG))"

definition entries_element :: "byte_order \<Rightarrow> (mode_list_entry, 8) array_list \<Rightarrow> nat \<times> (ostream \<Rightarrow> u64 \<Rightarrow> u16 \<times> ostream)" where
  "entries_element sys l = (SAL_getSerializedSize mle_getSerializedSize l, \<lambda>os m. SAL_serialize sys (mle_serialize sys) l os m BIG)"

text \<open>A linked table is written with its count, whose size calls itself without end.\<close>

definition send_entries ::
  "byte_order \<Rightarrow> store_address \<Rightarrow> u16 \<Rightarrow> u32 list \<Rightarrow> entry_pointer \<Rightarrow> subsystem \<Rightarrow> system_world \<Rightarrow> system_world option" where
  "send_entries sys raw command ids entry s w =
     (if islinked entry
      then Option.bind (SLL_getSerializedSize mle_getSerializedSize \<lparr>sll_elements = al_abs (entryArray entry), printCount = True\<rparr>)
             (\<lambda>n. sendSerializablesAsCommandMessage sys raw command (map (id_element sys) ids @
                [(n, \<lambda>os m. SLL_serialize sys (mle_serialize sys) \<lparr>sll_elements = al_abs (entryArray entry), printCount = True\<rparr> os m BIG)]) s w)
      else sendSerializablesAsCommandMessage sys raw command (map (id_element sys) ids @ [entries_element sys (entryArray entry)]) s w)"

definition newEntryList :: "(mode_list_entry, 8) array_list" where
  "newEntryList = ArrayList_new (replicate MAX_LENGTH_OF_TABLE_OR_SEQUENCE newModeListEntry) (of_nat MAX_LENGTH_OF_TABLE_OR_SEQUENCE) 0"

definition mle_deserializer :: "byte_order \<Rightarrow> mode_list_entry deserializer" where
  "mle_deserializer sys inp e = (case mle_deSerialize sys newModeListEntry inp e of (r, x, rest) \<Rightarrow> (r, Some x, rest))"

text \<open>Adding a sequence or a table from the store, which is made empty again.\<close>

definition add_from_store ::
  "byte_order \<Rightarrow> mq_message \<Rightarrow> (bytes \<Rightarrow> subsystem \<Rightarrow> u16 \<times> subsystem) \<Rightarrow> subsystem \<Rightarrow> system_world
     \<Rightarrow> (u16 \<times> subsystem \<times> system_world) option" where
  "add_from_store sys message add s w =
     (let address = msg_getStoreAddress sys message in
      case modifyData (ipcStore w) address of
        (result, None) \<Rightarrow> map_option (\<lambda>w'. (RETURN_OK, s, w')) (sub_replyToCommand sys result s w)
      | (result, Some _) \<Rightarrow>
          Option.bind (snd (getData (ipcStore w) address)) (\<lambda>data.
            case add data s of (result', s1) \<Rightarrow>
              Option.bind (deleteData (ipcStore w) address) (\<lambda>(_, lp).
                map_option (\<lambda>w'. (RETURN_OK, s1, w')) (sub_replyToCommand sys result' s1 (w\<lparr>ipcStore := lp\<rparr>)))))"

definition add_sequence_data :: "byte_order \<Rightarrow> u32 \<Rightarrow> bytes \<Rightarrow> subsystem \<Rightarrow> u16 \<times> subsystem" where
  "add_sequence_data sys ident data s =
     (case SA_deSerialize_word sys data BIG of
        (r1, fallback, rest) \<Rightarrow>
          if r1 \<noteq> RETURN_OK then (r1, s)
          else (case SAL_deSerialize sys (mle_deserializer sys) newEntryList rest BIG of
                  (r2, l, _) \<Rightarrow> if r2 \<noteq> RETURN_OK then (r2, s) else addSequence l ident (the fallback) True True s))"

definition add_table_data :: "byte_order \<Rightarrow> u32 \<Rightarrow> bytes \<Rightarrow> subsystem \<Rightarrow> u16 \<times> subsystem" where
  "add_table_data sys ident data s =
     (case SAL_deSerialize sys (mle_deserializer sys) newEntryList data BIG of
        (r, l, _) \<Rightarrow> if r \<noteq> RETURN_OK then (r, s) else addTable l ident True True s)"

definition sub_handleCommandMessage ::
  "byte_order \<Rightarrow> store_address \<Rightarrow> mq_message \<Rightarrow> subsystem \<Rightarrow> system_world \<Rightarrow> (u16 \<times> subsystem \<times> system_world) option" where
  "sub_handleCommandMessage sys raw message s w =
     (let c = getCommand sys message; ident = getSequenceId sys message; answered = map_option (\<lambda>w'. (RETURN_OK, s, w')) in
      if c = HEALTH_INFO then
        Some (RETURN_OK, if msg_getHealth sys message \<noteq> EXTERNAL_CONTROL then s\<lparr>childrenChangedHealth := True\<rparr> else s, w)
      else if c = ADD_SEQUENCE then add_from_store sys message (add_sequence_data sys ident) s w
      else if c = ADD_TABLE then add_from_store sys message (add_table_data sys ident) s w
      else if c = DELETE_SEQUENCE then
        (if isInTransition s then answered (sub_replyToCommand sys IN_TRANSITION s w)
         else (case deleteSequence ident s of (result, s1) \<Rightarrow> map_option (\<lambda>w'. (RETURN_OK, s1, w')) (sub_replyToCommand sys result s1 w)))
      else if c = DELETE_TABLE then
        (if isInTransition s then answered (sub_replyToCommand sys IN_TRANSITION s w)
         else (case deleteTable (msg_getTableId sys message) s of
                 (result, s1) \<Rightarrow> map_option (\<lambda>w'. (RETURN_OK, s1, w')) (sub_replyToCommand sys result s1 w)))
      else if c = LIST_SEQUENCES then
        answered (sendSerializablesAsCommandMessage sys raw SEQUENCE_LIST [ids_element sys (map fst (fm_used (modeSequences s)))] s w)
      else if c = LIST_TABLES then
        answered (sendSerializablesAsCommandMessage sys raw TABLE_LIST [ids_element sys (map fst (fm_used (modeTables s)))] s w)
      else if c = READ_SEQUENCE then
        (case FixedMap_value (modeSequences s) ident of
           None \<Rightarrow> Option.bind (sub_replyToCommand sys KEY_DOES_NOT_EXIST s w) (\<lambda>_. None)
         | Some info \<Rightarrow> answered (send_entries sys raw SEQUENCE_MSG [ident, getFallbackSequence s ident] (seqEntries info) s w))
      else if c = READ_TABLE then
        (case FixedMap_value (modeTables s) ident of
           None \<Rightarrow> Option.bind (sub_replyToCommand sys KEY_DOES_NOT_EXIST s w) (\<lambda>_. None)
         | Some entry \<Rightarrow> answered (send_entries sys raw TABLE_MSG [ident] entry s w))
      else if c = READ_FREE_SEQUENCE_SLOTS then
        answered (map_option snd (sw_reply sys (ownQueue s) (setModeSequenceMessage sys (newCommandMessage sys) FREE_SEQUENCE_SLOTS
           (of_nat (FixedMap_maxSize (modeSequences s) - fm_size (modeSequences s)))) w))
      else if c = READ_FREE_TABLE_SLOTS then
        answered (map_option snd (sw_reply sys (ownQueue s) (setModeSequenceMessage sys (newCommandMessage sys) FREE_TABLE_SLOTS
           (of_nat (FixedMap_maxSize (modeTables s) - fm_size (modeTables s)))) w))
      else Some (RETURN_FAILED, s, w))"

text \<open>\<open>store\<close>: the object manager knows the IPC store.\<close>

definition sub_initialize ::
  "'b subsystem_base_scheme option \<Rightarrow> bool \<Rightarrow> bool \<Rightarrow> bool \<Rightarrow> subsystem \<Rightarrow> system_world
     \<Rightarrow> u16 \<times> 'b subsystem_base_scheme option \<times> subsystem \<times> system_world" where
  "sub_initialize parent table proxy store s w =
     (case sb_initialize parent table proxy s w of
        (result, parent', s1, w1) \<Rightarrow>
          if result \<noteq> RETURN_OK then (result, parent', s1, w1)
          else if \<not> store then (RETURN_FAILED, parent', s1, w1)
          else if FixedMap_maxSize (modeSequences s1) > MAX_NUMBER_OF_TABLES_OR_SEQUENCES
                \<or> FixedMap_maxSize (modeTables s1) > MAX_NUMBER_OF_TABLES_OR_SEQUENCES
          then (TABLE_OR_SEQUENCE_LENGTH_INVALID, parent', s1, w1)
          else (RETURN_OK, parent', s1\<lparr>sbMode := initialMode s1\<rparr>, w1))"

text \<open>The operations of the subsystem as its helpers and its base class call them.\<close>

definition sub_ops :: "byte_order \<Rightarrow> store_address \<Rightarrow> subsystem subsystem_ops" where
  "sub_ops sys raw =
     \<lparr>checkModeCommand = sub_checkModeCommand, startTransition = sub_startTransition sys, setToExternalControl = sb_setToExternalControl sys,
      announceMode = sb_announceMode sys, ownerMode = sb_getMode, ownerSetHealth = sb_setHealth sys,
      commandMessageHandler = sub_handleCommandMessage sys raw, childOperation = sub_performChildOperation sys\<rparr>"

definition sub_performOperation ::
  "byte_order \<Rightarrow> store_address \<Rightarrow> u32 \<Rightarrow> subsystem \<Rightarrow> system_world \<Rightarrow> (u16 \<times> subsystem \<times> system_world) option" where
  "sub_performOperation sys rawAddress rawTimeout s w = sb_performOperation sys (sub_ops sys rawAddress) rawTimeout s w"

end
