(* ===== verification/SubsystemResults.thy ===== *)
theory SubsystemResults
  imports Subsystem
begin

text \<open>
  What a subsystem does in every state it can reach: its transitions stay within the configured sequences
  and tables, a mode is announced only when the children have it, and a table is commanded entry by entry.
\<close>

subsection \<open>The configuration\<close>

definition sub_tables :: "subsystem \<Rightarrow> u32 \<rightharpoonup> entry_pointer" where "sub_tables s = fm_abs (modeTables s)"
definition sub_sequences :: "subsystem \<Rightarrow> u32 \<rightharpoonup> sequence_info" where "sub_sequences s = fm_abs (modeSequences s)"

definition maps_ok :: "subsystem \<Rightarrow> bool" where
  "maps_ok s \<longleftrightarrow> fm_inv (modeTables s) \<and> fm_inv (modeSequences s)"

definition sequence_ok :: "subsystem \<Rightarrow> sequence_info \<Rightarrow> bool" where
  "sequence_ok s info \<longleftrightarrow> \<not> islinked (seqEntries info) \<and> sub_sequences s (fallbackSequence info) \<noteq> None \<and> al_abs (entryArray (seqEntries info)) \<noteq> []
     \<and> (\<forall>x \<in> set (al_abs (entryArray (seqEntries info))). sub_tables s (getTableId x) \<noteq> None)"

definition config_ok :: "subsystem \<Rightarrow> bool" where
  "config_ok s \<longleftrightarrow> maps_ok s \<and> (\<forall>k p. sub_tables s k = Some p \<longrightarrow> \<not> islinked p) \<and> (\<forall>k info. sub_sequences s k = Some info \<longrightarrow> sequence_ok s info)"

definition sub_inv :: "subsystem \<Rightarrow> bool" where
  "sub_inv s \<longleftrightarrow> config_ok s \<and> sub_sequences s (sbMode s) \<noteq> None
     \<and> (isInTransition s \<longrightarrow> sub_sequences s (targetMode s) \<noteq> None
          \<and> (\<forall>x \<in> set (currentSequenceIterator s). sub_tables s (getTableId x) \<noteq> None))"

lemma maps_access:
  assumes "maps_ok s"
  shows "existsModeSequence s k \<longleftrightarrow> sub_sequences s k \<noteq> None" "existsModeTable s k \<longleftrightarrow> sub_tables s k \<noteq> None"
    "getSequence s k = map_option (\<lambda>info. al_abs (entryArray (seqEntries info))) (sub_sequences s k)"
    "getTable s k = map_option (\<lambda>p. al_abs (entryArray p)) (sub_tables s k)"
    "getFallbackSequence s k = (case sub_sequences s k of Some info \<Rightarrow> fallbackSequence info | None \<Rightarrow> - 1)"
proof -
  have inv: "fm_inv (modeTables s)" "fm_inv (modeSequences s)" using assms by (simp_all add: maps_ok_def)
  show "existsModeSequence s k \<longleftrightarrow> sub_sequences s k \<noteq> None" "existsModeTable s k \<longleftrightarrow> sub_tables s k \<noteq> None"
    using FixedMap_exists_iff[OF inv(2)] FixedMap_exists_iff[OF inv(1)]
    by (auto simp: existsModeSequence_def existsModeTable_def sub_sequences_def sub_tables_def)
  show "getSequence s k = map_option (\<lambda>info. al_abs (entryArray (seqEntries info))) (sub_sequences s k)"
    "getTable s k = map_option (\<lambda>p. al_abs (entryArray p)) (sub_tables s k)"
    by (simp_all add: getSequence_def getTable_def sub_sequences_def sub_tables_def FixedMap_value_abs[OF inv(1)] FixedMap_value_abs[OF inv(2)])
  show "getFallbackSequence s k = (case sub_sequences s k of Some info \<Rightarrow> fallbackSequence info | None \<Rightarrow> - 1)"
    by (simp add: getFallbackSequence_def sub_sequences_def fm_abs_def)
qed

text \<open>Operations that leave the configuration, the mode and the transition as they are.\<close>

definition same_config :: "subsystem \<Rightarrow> subsystem \<Rightarrow> bool" where
  "same_config s s' \<longleftrightarrow> (maps_ok s \<longrightarrow> maps_ok s' \<and> sub_tables s' = sub_tables s \<and> sub_sequences s' = sub_sequences s)"

definition same_transition :: "subsystem \<Rightarrow> subsystem \<Rightarrow> bool" where
  "same_transition s s' \<longleftrightarrow> same_config s s' \<and> sbMode s' = sbMode s
     \<and> isInTransition s' = isInTransition s \<and> targetMode s' = targetMode s \<and> currentSequenceIterator s' = currentSequenceIterator s"

lemma same_config_ok: "same_config s s' \<Longrightarrow> config_ok s \<Longrightarrow> config_ok s' \<and> sub_tables s' = sub_tables s \<and> sub_sequences s' = sub_sequences s"
  by (simp add: same_config_def config_ok_def sequence_ok_def)

lemma same_transition_inv:
  assumes "same_transition s s'" "sub_inv s" shows "sub_inv s'"
proof -
  have c: "config_ok s" using assms(2) by (simp add: sub_inv_def)
  have "config_ok s' \<and> sub_tables s' = sub_tables s \<and> sub_sequences s' = sub_sequences s"
    by (rule same_config_ok[OF _ c]) (use assms(1) in \<open>simp add: same_transition_def\<close>)
  then show ?thesis using assms by (simp add: sub_inv_def same_transition_def)
qed

lemma config_fields:
  "modeTables s' = modeTables s \<Longrightarrow> modeSequences s' = modeSequences s \<Longrightarrow> same_config s s'"
  by (simp add: same_config_def maps_ok_def sub_tables_def sub_sequences_def)

lemma execute_entries_keeps:
  "execute_entries sys t xs m s w = (s', w') \<Longrightarrow> \<exists>n. s' = s\<lparr>commandsOutstanding := n\<rparr>"
proof (induction xs arbitrary: m s w)
  case Nil
  then show ?case by (intro exI[of _ "commandsOutstanding s"]) simp
next
  case (Cons x xs)
  show ?case using Cons.prems
    by (auto simp: Let_def split: option.splits if_splits prod.splits dest!: Cons.IH)
qed

lemma executeTable_keeps: "executeTable sys t sub s w = (s', w') \<Longrightarrow> \<exists>n. s' = s\<lparr>commandsOutstanding := n\<rparr>"
  unfolding executeTable_def by (drule execute_entries_keeps) simp

subsection \<open>Transitions\<close>

lemma checkSequence_exists:
  assumes "maps_ok s" "checkSequence s q = RETURN_OK" shows "sub_sequences s q \<noteq> None"
  using assms(2) by (auto simp: checkSequence_def maps_access(3)[OF assms(1)] retcode split: option.splits)

text \<open>A transition to an existing sequence can be started, and it keeps to the configuration.\<close>

definition in_transition_to :: "subsystem \<Rightarrow> u32 \<Rightarrow> subsystem \<Rightarrow> bool" where
  "in_transition_to s q s' \<longleftrightarrow> same_config s s' \<and> sbMode s' = sbMode s \<and> isInTransition s' \<and> targetMode s' = q
     \<and> (\<forall>x \<in> set (currentSequenceIterator s'). sub_tables s (getTableId x) \<noteq> None)"

lemma startTransition_ok:
  assumes c: "config_ok s" and q: "sub_sequences s q \<noteq> None"
  shows "\<exists>s' w'. sub_startTransition sys q sub s w = Some (s', w') \<and> in_transition_to s q s'"
proof -
  obtain info where info: "sub_sequences s q = Some info" using q by blast
  have ok: "sequence_ok s info" using c info by (simp add: config_ok_def)
  then obtain x xs where e: "al_abs (entryArray (seqEntries info)) = x # xs"
    by (cases "al_abs (entryArray (seqEntries info))") (auto simp: sequence_ok_def)
  have xs: "al_abs (entryArray (seqEntries info)) = x # xs" "\<forall>y \<in> set (x # xs). sub_tables s (getTableId y) \<noteq> None"
    using ok e by (simp_all add: sequence_ok_def)
  let ?w1 = "triggerEvent (ownerId s) (if modeForced s then FORCING_MODE else CHANGING_MODE) q (ucast sub) w"
  let ?s1 = "s\<lparr>targetMode := q, targetSubmode := sub, isInTransition := True, commandsOutstanding := 0\<rparr>"
  have m: "maps_ok ?s1" "sub_sequences ?s1 = sub_sequences s" "sub_tables ?s1 = sub_tables s"
    using c by (simp_all add: config_ok_def maps_ok_def sub_sequences_def sub_tables_def)
  have seq: "getSequence ?s1 q = Some (x # xs)" using maps_access(3)[OF m(1)] m(2) info xs(1) by simp
  obtain p where p: "sub_tables s (getTableId x) = Some p" using xs(2) by auto
  let ?s2 = "?s1\<lparr>currentTargetTable := al_abs (entryArray p), currentSequenceIterator := xs\<rparr>"
  have t: "getTable ?s1 (getTableId x) = Some (al_abs (entryArray p))" using maps_access(4)[OF m(1)] m(3) p by simp
  have sc: "same_config s ?s2" by (rule config_fields) simp_all
  show ?thesis
  proof (cases xs)
    case Nil
    then have "sub_startTransition sys q sub s w = Some (?s2, ?w1)" using seq t by (simp add: sub_startTransition_def Let_def)
    then show ?thesis using sc Nil by (simp add: in_transition_to_def)
  next
    case (Cons y ys)
    obtain p' where p': "sub_tables s (getTableId y) = Some p'" using xs(2) Cons by auto
    have "maps_ok ?s2" using m(1) by (simp add: maps_ok_def)
    then have "getTable ?s2 (getTableId y) = Some (al_abs (entryArray p'))"
      using maps_access(4) p' by (simp add: sub_tables_def)
    then have ct: "getCurrentTable ?s2 = Some (al_abs (entryArray p'))" using Cons by (simp add: getCurrentTable_def)
    obtain s' w' where e: "executeTable sys (al_abs (entryArray p')) (targetSubmode ?s2) ?s2 ?w1 = (s', w')"
      by (cases "executeTable sys (al_abs (entryArray p')) (targetSubmode ?s2) ?s2 ?w1")
    have "sub_startTransition sys q sub s w = Some (s', w')"
      using seq t Cons ct e by (simp add: sub_startTransition_def Let_def)
    moreover obtain n where "s' = ?s2\<lparr>commandsOutstanding := n\<rparr>" using executeTable_keeps[OF e] by blast
    ultimately show ?thesis using xs(2) by (auto simp: in_transition_to_def intro!: config_fields)
  qed
qed

lemma in_transition_inv:
  assumes "in_transition_to s q s'" "config_ok s" "sub_sequences s q \<noteq> None" "sub_sequences s (sbMode s) \<noteq> None"
  shows "sub_inv s'"
  using assms same_config_ok[of s s'] by (auto simp: in_transition_to_def sub_inv_def)

lemma start_inv:
  assumes "config_ok s" "sub_sequences s q \<noteq> None" "sub_sequences s (sbMode s) \<noteq> None"
  shows "\<exists>s' w'. sub_startTransition sys q sub s w = Some (s', w') \<and> sub_inv s'"
  using startTransition_ok[OF assms(1,2)] in_transition_inv[OF _ assms] by blast

lemma config_ok_update:
  "config_ok s \<Longrightarrow> config_ok (s\<lparr>modeForced := f\<rparr>)" "config_ok s \<Longrightarrow> config_ok (s\<lparr>sbMode := m\<rparr>)"
  "config_ok s \<Longrightarrow> config_ok (s\<lparr>childrenChangedHealth := f\<rparr>)"
  "sub_sequences (s\<lparr>modeForced := f\<rparr>) = sub_sequences s" "sub_sequences (s\<lparr>sbMode := m\<rparr>) = sub_sequences s"
  "sub_sequences (s\<lparr>childrenChangedHealth := f\<rparr>) = sub_sequences s" "sub_sequences (s\<lparr>isInTransition := f\<rparr>) = sub_sequences s"
  "config_ok s \<Longrightarrow> config_ok (s\<lparr>isInTransition := f\<rparr>)"
  by (simp_all add: config_ok_def maps_ok_def sequence_ok_def sub_sequences_def sub_tables_def)

lemma failed_inv:
  assumes inv: "sub_inv s"
  shows "\<exists>s' w'. transitionFailed sys code par s w = Some (s', w') \<and> sub_inv s'"
proof -
  have c: "config_ok s" "sub_sequences s (sbMode s) \<noteq> None" using inv by (simp_all add: sub_inv_def)
  show ?thesis
  proof (cases "sbMode s = targetMode s")
    case False
    then show ?thesis using start_inv[OF c(1,2,2)] by (simp add: transitionFailed_def Let_def)
  next
    case True
    let ?s1 = "s\<lparr>modeForced := True\<rparr>"
    let ?f = "getFallbackSequence ?s1 (sbMode ?s1)"
    show ?thesis
    proof (cases "checkSequence ?s1 ?f = RETURN_OK")
      case False
      have "sub_inv (?s1\<lparr>isInTransition := False\<rparr>)" using c by (simp add: sub_inv_def config_ok_update)
      then show ?thesis using True False by (simp add: transitionFailed_def Let_def)
    next
      case ok: True
      let ?s2 = "?s1\<lparr>sbMode := ?f\<rparr>"
      have m: "maps_ok ?s1" using c(1) by (simp add: config_ok_def maps_ok_def)
      have f: "sub_sequences ?s2 ?f \<noteq> None" using checkSequence_exists[OF m ok] by (simp add: config_ok_update)
      then have b: "sub_sequences ?s2 (sbMode ?s2) \<noteq> None" by simp
      show ?thesis using start_inv[OF config_ok_update(2)[OF config_ok_update(1)[OF c(1)]] f b, of sys "sbSubmode ?s1"] True ok
        by (simp add: transitionFailed_def Let_def)
    qed
  qed
qed

lemma cantKeep_inv:
  assumes inv: "sub_inv s"
  shows "\<exists>s' w'. cantKeepMode sys s w = Some (s', w') \<and> sub_inv s'"
proof -
  have c: "config_ok s" "sub_sequences s (sbMode s) \<noteq> None" using inv by (simp_all add: sub_inv_def)
  let ?f = "getFallbackSequence s (sbMode s)"
  show ?thesis
  proof (cases "checkSequence s ?f = RETURN_OK")
    case False
    then show ?thesis using inv by (simp add: cantKeepMode_def Let_def)
  next
    case ok: True
    let ?s2 = "s\<lparr>modeForced := True, sbMode := ?f\<rparr>"
    have m: "maps_ok s" using c(1) by (simp add: config_ok_def)
    have f: "sub_sequences ?s2 ?f \<noteq> None" using checkSequence_exists[OF m ok] by (simp add: config_ok_update)
    then have b: "sub_sequences ?s2 (sbMode ?s2) \<noteq> None" by simp
    show ?thesis using start_inv[OF config_ok_update(2)[OF config_ok_update(1)[OF c(1)]] f b, of sys SUBMODE_NONE] ok
      by (simp add: cantKeepMode_def Let_def)
  qed
qed

lemma next_table_inv:
  assumes inv: "sub_inv s" and it: "isInTransition s"
  shows "\<exists>s' w'. next_table sys s w = Some (s', w') \<and> sub_inv s'"
proof -
  let ?s1 = "s\<lparr>uptimeStartTable := 0, currentSequenceIterator := tl (currentSequenceIterator s)\<rparr>"
  have tbl: "\<forall>x \<in> set (currentSequenceIterator ?s1). sub_tables s (getTableId x) \<noteq> None"
    using inv it list.set_sel(2)[of "currentSequenceIterator s"] by (cases "currentSequenceIterator s") (auto simp: sub_inv_def)
  have inv1: "sub_inv (?s1\<lparr>commandsOutstanding := n\<rparr>)" "sub_inv ?s1" for n
    using inv it tbl by (simp_all add: sub_inv_def config_ok_def maps_ok_def sequence_ok_def sub_tables_def sub_sequences_def)
  show ?thesis
  proof (cases "tl (currentSequenceIterator s)")
    case Nil
    then show ?thesis using inv1(2) by (simp add: next_table_def Let_def)
  next
    case (Cons y ys)
    obtain p where p: "sub_tables s (getTableId y) = Some p" using tbl Cons by auto
    have m: "maps_ok ?s1" using inv by (simp add: sub_inv_def config_ok_def maps_ok_def)
    have "getCurrentTable ?s1 = Some (al_abs (entryArray p))"
      using maps_access(4)[OF m] p Cons by (simp add: getCurrentTable_def sub_tables_def)
    moreover obtain s' w' where e: "executeTable sys (al_abs (entryArray p)) (targetSubmode ?s1) ?s1 w = (s', w')"
      by (cases "executeTable sys (al_abs (entryArray p)) (targetSubmode ?s1) ?s1 w")
    moreover obtain n where "s' = ?s1\<lparr>commandsOutstanding := n\<rparr>" using executeTable_keeps[OF e] by blast
    ultimately show ?thesis using Cons inv1(1)[of n] by (simp add: next_table_def Let_def)
  qed
qed

lemma wait_inv:
  assumes inv: "sub_inv s" and it: "isInTransition s"
  shows "\<exists>s' w'. wait_table sys x s w = Some (s', w') \<and> sub_inv s'"
proof -
  obtain t w1 where t: "getUptimeMs w = (t, w1)" by (cases "getUptimeMs w")
  have "sub_inv (s\<lparr>uptimeStartTable := t\<rparr>)"
    by (rule same_transition_inv[OF _ inv]) (simp add: same_transition_def config_fields)
  then show ?thesis using next_table_inv[OF inv it] inv t by (simp add: wait_table_def)
qed

lemma setMode_fields:
  "sb_setMode sys m sub s w = (s', w') \<Longrightarrow> sbMode s' = m \<and> sbSubmode s' = sub \<and> modeTables s' = modeTables s
     \<and> modeSequences s' = modeSequences s \<and> childrenMap s' = childrenMap s \<and> currentTargetTable s' = currentTargetTable s"
  by (auto simp: sb_setMode_def mh_modeChanged_def sb_announceMode_def Let_def)

lemma child_operation_inv:
  assumes inv: "sub_inv s"
  shows "\<exists>s' w'. sub_performChildOperation sys s w = Some (s', w') \<and> sub_inv s'"
proof -
  have c: "config_ok s" "sub_sequences s (sbMode s) \<noteq> None" and m: "maps_ok s" using inv by (simp_all add: sub_inv_def config_ok_def)
  show ?thesis
  proof (cases "isInTransition s")
    case False
    have h: "\<exists>s' w'. sub_startTransition sys (sbMode s) (sbSubmode s) (s\<lparr>childrenChangedHealth := False\<rparr>) w1 = Some (s', w') \<and> sub_inv s'" for w1
      using start_inv[OF config_ok_update(3)[OF c(1)]] c(2) by (simp add: config_ok_update)
    show ?thesis using False h cantKeep_inv[OF inv] inv by (simp add: sub_performChildOperation_def)
  next
    case True
    note t = True
    show ?thesis
    proof (cases "currentSequenceIterator s")
      case Nil
      obtain info where "sub_sequences s (targetMode s) = Some info" "sequence_ok s info"
        using inv t by (auto simp: sub_inv_def config_ok_def)
      then obtain x xs where sq: "getSequence s (targetMode s) = Some (x # xs)"
        using maps_access(3)[OF m] by (auto simp: sequence_ok_def neq_Nil_conv)
      obtain s1 w1 where sm: "sb_setMode sys (targetMode s) (targetSubmode s) s w = (s1, w1)"
        by (cases "sb_setMode sys (targetMode s) (targetSubmode s) s w")
      note f = setMode_fields[OF sm]
      have "config_ok (s1\<lparr>isInTransition := False\<rparr>) \<and> sub_sequences (s1\<lparr>isInTransition := False\<rparr>) = sub_sequences s"
        using same_config_ok[OF config_fields c(1), of "s1\<lparr>isInTransition := False\<rparr>"] f by simp
      then have "sub_inv (s1\<lparr>isInTransition := False\<rparr>)" using inv t f by (simp add: sub_inv_def)
      then show ?thesis using failed_inv[OF inv] t Nil sq sm inv by (simp add: sub_performChildOperation_def)
    next
      case (Cons x xs)
      obtain p where "sub_tables s (getTableId x) = Some p" using inv t Cons by (auto simp: sub_inv_def)
      then have "getCurrentTable s = Some (al_abs (entryArray p))" using maps_access(4)[OF m] Cons by (simp add: getCurrentTable_def)
      then show ?thesis using failed_inv[OF inv] wait_inv[OF inv t] t Cons inv by (simp add: sub_performChildOperation_def)
    qed
  qed
qed

subsection \<open>Messages\<close>

text \<open>A pair inserted and erased again leaves the map as it was.\<close>

lemma insert_erase:
  assumes "fm_inv m" "FixedMap_insert m k v = (r, i, m')"
  shows "r \<noteq> RETURN_OK \<Longrightarrow> m' = m"
    "r = RETURN_OK \<Longrightarrow> fm_inv (snd (FixedMap_erase_key m' k)) \<and> fm_abs (snd (FixedMap_erase_key m' k)) = fm_abs m"
proof -
  have full: "fm_size m < FixedMap_maxSize m \<or> fm_size m = FixedMap_maxSize m"
    using assms(1) by (auto simp: fm_inv_def FixedMap_maxSize_def)
  show "r \<noteq> RETURN_OK \<Longrightarrow> m' = m"
    using full assms FixedMap_insert_ok[OF assms(1), of k v] FixedMap_insert_exists[OF assms(1), of k v]
      FixedMap_insert_full[OF assms(1), of k v] by (cases "k \<in> dom (fm_abs m)") auto
  assume r: "r = RETURN_OK"
  then have new: "k \<notin> dom (fm_abs m)" using assms FixedMap_insert_exists[OF assms(1), of k v] by auto
  then have "fm_size m < FixedMap_maxSize m" using full assms r FixedMap_insert_full[OF assms(1) new] by auto
  then have m': "fm_inv m'" "fm_abs m' = (fm_abs m)(k \<mapsto> v)"
    using FixedMap_insert_ok[OF assms(1) new, of v] assms(2) by auto
  have "(fm_abs m)(k := None) = fm_abs m" using new by (auto simp: domIff)
  then show "fm_inv (snd (FixedMap_erase_key m' k)) \<and> fm_abs (snd (FixedMap_erase_key m' k)) = fm_abs m"
    using FixedMap_erase_ok[OF m'(1), of k] m'(2) by auto
qed

lemma same_refl: "same_transition s s"
  by (simp add: same_transition_def same_config_def)

lemma add_same:
  "same_transition s (snd (addSequence l i fb True True s))" "same_transition s (snd (addTable t i True True s))"
  by (auto simp: addSequence_def addTable_def same_transition_def same_config_def maps_ok_def sub_tables_def sub_sequences_def
      insert_erase(2) split: prod.splits dest: insert_erase(1))

lemma add_data_same:
  "same_transition s (snd (add_sequence_data sys i data s))" "same_transition s (snd (add_table_data sys i data s))"
  using add_same(1)[of s] add_same(2)[of s]
  by (auto simp: add_sequence_data_def add_table_data_def same_refl split: prod.splits)

lemma delete_same:
  assumes "config_ok s" shows "snd (deleteSequence i s) = s" "snd (deleteTable i s) = s"
proof -
  have inv: "fm_inv (modeSequences s)" "fm_inv (modeTables s)" using assms by (simp_all add: config_ok_def maps_ok_def)
  show "snd (deleteSequence i s) = s" "snd (deleteTable i s) = s"
    using assms FixedMap_value_abs[OF inv(1), of i] FixedMap_value_abs[OF inv(2), of i]
    by (auto simp: deleteSequence_def deleteTable_def config_ok_def sequence_ok_def sub_sequences_def sub_tables_def split: option.splits)
qed

lemma add_from_store_same:
  assumes "add_from_store sys m add s w = Some (r, s', w')" "\<And>data. same_transition s (snd (add data s))"
  shows "same_transition s s'"
  using assms(1) assms(2) unfolding add_from_store_def
  by (auto simp: Let_def same_refl bind_eq_Some_conv case_prod_beta split: option.splits)

lemma command_message_same:
  assumes c: "config_ok s" and h: "sub_handleCommandMessage sys raw m s w = Some (r, s', w')"
  shows "same_transition s s'"
proof -
  have hc: "same_transition s (s\<lparr>childrenChangedHealth := b\<rparr>)" for b
    by (simp add: same_transition_def config_fields)
  note d = delete_same[OF c]
  show ?thesis
    using h unfolding sub_handleCommandMessage_def Let_def
    by (auto simp: same_refl hc bind_eq_Some_conv case_prod_beta d add_data_same split: if_splits option.splits
        dest!: add_from_store_same)
qed

lemma sub_ops_owner [simp]:
  "checkModeCommand (owner_ops.truncate (sub_ops sys raw)) = sub_checkModeCommand"
  "startTransition (owner_ops.truncate (sub_ops sys raw)) = sub_startTransition sys"
  "setToExternalControl (owner_ops.truncate (sub_ops sys raw)) = sb_setToExternalControl sys"
  "announceMode (owner_ops.truncate (sub_ops sys raw)) = sb_announceMode sys"
  "ownerMode (owner_ops.truncate (sub_ops sys raw)) = sb_getMode"
  "ownerSetHealth (owner_ops.truncate (sub_ops sys raw)) = sb_setHealth sys"
  "commandMessageHandler (sub_ops sys raw) = sub_handleCommandMessage sys raw"
  "childOperation (sub_ops sys raw) = sub_performChildOperation sys"
  by (simp_all add: sub_ops_def owner_ops.truncate_def)

lemma health_command_same:
  "handleHealthCommand sys (owner_ops.truncate (sub_ops sys raw)) m s w = (r, s', w') \<Longrightarrow> s' = s"
  by (auto simp: handleHealthCommand_def handleSetHealthCommand_def sb_setHealth_def Let_def split: if_splits prod.splits)

lemma mode_reply_same: "handleModeReply sys m s w = (r, s', w') \<Longrightarrow> same_transition s s'"
  by (auto simp: handleModeReply_def Let_def updateChildMode_def same_transition_def config_fields
      split: if_splits option.splits)

lemma mode_fields_inv:
  "sub_inv s \<Longrightarrow> sub_inv (s\<lparr>modeForced := b\<rparr>)"
  by (rule same_transition_inv[of s]) (simp_all add: same_transition_def config_fields)

text \<open>A mode command is answered without effect on the transition, or it starts one to a checked sequence.\<close>

lemma mode_command_cases:
  assumes h: "handleModeCommand sys (owner_ops.truncate (sub_ops sys raw)) rawTime m s w = Some (r, s', w')"
  obtains (forced) f where "s' = s\<lparr>modeForced := f\<rparr>"
  | (started) f q cd w1 where "checkSequence (s\<lparr>modeForced := f\<rparr>) (msg_getMode sys m) = RETURN_OK"
      "sub_startTransition sys (msg_getMode sys m) (msg_getSubmode sys m)
         (s\<lparr>modeForced := f, theOneWhoCommandedAMode := q, commandedMode := msg_getMode sys m,
            commandedSubmode := msg_getSubmode sys m, modeCountdown := cd\<rparr>) w1 = Some (s', w')"
proof (cases "getCommand sys m = CMD_MODE_COMMAND_FORCED \<or> getCommand sys m = CMD_MODE_COMMAND")
  case False
  then have "s' = s\<lparr>modeForced := modeForced s\<rparr>"
    using h by (auto simp: handleModeCommand_cases Let_def sb_announceMode_def sb_getMode_def split: if_splits)
  then show ?thesis by (rule forced)
next
  case True
  define f where "f = (if getCommand sys m = CMD_MODE_COMMAND_FORCED then True else modeForced s)"
  let ?s1 = "s\<lparr>modeForced := f\<rparr>"
  have s1: "(if getCommand sys m = CMD_MODE_COMMAND_FORCED then s\<lparr>modeForced := True\<rparr> else s) = ?s1" by (simp add: f_def)
  obtain result t where ck: "sub_checkModeCommand (msg_getMode sys m) (msg_getSubmode sys m) rawTime ?s1 w = (result, t)"
    by (cases "sub_checkModeCommand (msg_getMode sys m) (msg_getSubmode sys m) rawTime ?s1 w")
  show ?thesis
  proof (cases "result = RETURN_OK")
    case False
    then have "s' = ?s1" using h True ck by (simp add: handleModeCommand_cases Let_def s1)
    then show ?thesis by (rule forced)
  next
    case ok: True
    then have "checkSequence ?s1 (msg_getMode sys m) = RETURN_OK"
      using ck by (auto simp: sub_checkModeCommand_def retcode split: if_splits)
    moreover
    let ?u = "?s1\<lparr>theOneWhoCommandedAMode := getSender sys m, commandedMode := msg_getMode sys m, commandedSubmode := msg_getSubmode sys m\<rparr>"
    obtain w3 where w3: "(if modeParent ?u \<noteq> NO_QUEUE \<and> theOneWhoCommandedAMode ?u \<noteq> modeParent ?u
        then sb_setToExternalControl sys ?u w else (?u, w)) = (?u, w3)"
      by (cases "modeParent ?u \<noteq> NO_QUEUE \<and> theOneWhoCommandedAMode ?u \<noteq> modeParent ?u") (auto simp: sb_setToExternalControl_def)
    obtain cd w4 where cd: "cd_setTimeout t w3 = (cd, w4)" by (cases "cd_setTimeout t w3")
    have "map_option (Pair RETURN_OK) (sub_startTransition sys (msg_getMode sys m) (msg_getSubmode sys m) (?u\<lparr>modeCountdown := cd\<rparr>) w4)
        = Some (r, s', w')"
      using h by (simp only: handleModeCommand_cases Let_def s1 sub_ops_owner True if_True if_False ck prod.case ok simp_thms w3 cd)
    then have "sub_startTransition sys (msg_getMode sys m) (msg_getSubmode sys m) (?u\<lparr>modeCountdown := cd\<rparr>) w4 = Some (s', w')"
      by (simp only: map_option_eq_Some) (elim exE conjE, simp only: prod.inject)
    ultimately show ?thesis by (rule started)
  qed
qed

lemma mode_command_inv:
  assumes inv: "sub_inv s"
    and h: "handleModeCommand sys (owner_ops.truncate (sub_ops sys raw)) rawTime m s w = Some (r, s', w')"
  shows "sub_inv s'"
proof (rule mode_command_cases[OF h], goal_cases forced started)
  case (forced f)
  then show ?thesis by (simp add: mode_fields_inv[OF inv])
next
  case (started f q cd w1)
  let ?mode = "msg_getMode sys m"
  let ?u = "s\<lparr>modeForced := f, theOneWhoCommandedAMode := q, commandedMode := ?mode, commandedSubmode := msg_getSubmode sys m, modeCountdown := cd\<rparr>"
  have st1: "same_transition s ?u" by (simp add: same_transition_def config_fields)
  have u: "sub_inv ?u" by (rule same_transition_inv[OF st1 inv])
  have "maps_ok (s\<lparr>modeForced := f\<rparr>)" using mode_fields_inv[OF inv, of f] by (simp add: sub_inv_def config_ok_def)
  then have "sub_sequences (s\<lparr>modeForced := f\<rparr>) ?mode \<noteq> None" by (rule checkSequence_exists[OF _ started(1)])
  then have q: "sub_sequences ?u ?mode \<noteq> None" by (simp add: sub_sequences_def)
  have c: "config_ok ?u" "sub_sequences ?u (sbMode ?u) \<noteq> None" using u unfolding sub_inv_def by blast+
  obtain s2 w2 where "sub_startTransition sys ?mode (msg_getSubmode sys m) ?u w1 = Some (s2, w2)" "sub_inv s2"
    using start_inv[OF c(1) q c(2)] by blast
  with started(2) show ?thesis by (simp only: option.inject prod.inject)
qed

lemma dispatch_inv:
  assumes inv: "sub_inv s" and h: "sb_dispatch sys (sub_ops sys raw) rawTime m s w = Some (s', w')"
  shows "sub_inv s'"
proof -
  let ?o = "owner_ops.truncate (sub_ops sys raw)"
  obtain r1 w1 where c1: "handleHealthCommand sys ?o m s w = (r1, s, w1)"
    using health_command_same by (cases "handleHealthCommand sys ?o m s w") blast
  show ?thesis
  proof (cases "r1 = RETURN_OK")
    case True
    then show ?thesis using h c1 inv by (simp add: sb_dispatch_def)
  next
    case False
    then obtain r2 s2 w2 where c2: "handleModeCommand sys ?o rawTime m s w1 = Some (r2, s2, w2)"
      using h c1 by (cases "handleModeCommand sys ?o rawTime m s w1") (auto simp: sb_dispatch_def)
    note inv2 = mode_command_inv[OF inv c2]
    obtain r3 s3 w3 where c3: "handleModeReply sys m s2 w2 = (r3, s3, w3)" by (cases "handleModeReply sys m s2 w2")
    note inv3 = same_transition_inv[OF mode_reply_same[OF c3] inv2]
    show ?thesis
    proof (cases "r2 = RETURN_OK \<or> r3 = RETURN_OK")
      case True
      then show ?thesis using h \<open>r1 \<noteq> RETURN_OK\<close> c1 c2 c3 inv2 inv3 by (auto simp: sb_dispatch_def split: if_splits)
    next
      case no: False
      then obtain r4 w4 where c4: "sub_handleCommandMessage sys raw m s3 w3 = Some (r4, s', w4)"
        using h False c1 c2 c3 by (auto simp: sb_dispatch_def bind_eq_Some_conv split: if_splits)
      show ?thesis
        by (rule same_transition_inv[OF command_message_same[OF _ c4] inv3]) (use inv3 in \<open>simp add: sub_inv_def\<close>)
    qed
  qed
qed

subsection \<open>Reachable states\<close>

text \<open>
  A subsystem handles messages and performs its child operation, in worlds that nothing is known of; the
  flag for changed children is cleared at the start of a cycle.
\<close>

inductive sub_reachable :: "byte_order \<Rightarrow> store_address \<Rightarrow> u32 \<Rightarrow> subsystem \<Rightarrow> subsystem \<Rightarrow> bool" for sys raw rawTime s where
  start: "sub_reachable sys raw rawTime s s"
| clear: "sub_reachable sys raw rawTime s s1 \<Longrightarrow> sub_reachable sys raw rawTime s (s1\<lparr>childrenChangedMode := False\<rparr>)"
| message: "sub_reachable sys raw rawTime s s1 \<Longrightarrow> sb_dispatch sys (sub_ops sys raw) rawTime m s1 w = Some (s2, w2)
     \<Longrightarrow> sub_reachable sys raw rawTime s s2"
| child: "sub_reachable sys raw rawTime s s1 \<Longrightarrow> sub_performChildOperation sys s1 w = Some (s2, w2) \<Longrightarrow> sub_reachable sys raw rawTime s s2"

lemma reachable_inv: "sub_reachable sys raw rawTime s s' \<Longrightarrow> sub_inv s \<Longrightarrow> sub_inv s'"
proof (induction rule: sub_reachable.induct)
  case (clear s1)
  have "same_transition s1 (s1\<lparr>childrenChangedMode := False\<rparr>)" by (simp add: same_transition_def config_fields)
  then show ?case by (rule same_transition_inv) (rule clear.IH[OF clear.prems])
next
  case (message s1 m w s2 w2)
  then show ?case using dispatch_inv by blast
next
  case (child s1 w s2 w2)
  then show ?case using child_operation_inv[of s1 sys w] by auto
qed

text \<open>The cycle of the code is made of these steps.\<close>

lemma command_queue_reachable:
  assumes q: "checkCommandQueue sys (sub_ops sys raw) rawTime m s w = Some (s', w')" and r: "sub_reachable sys raw rawTime s0 s"
  shows "sub_reachable sys raw rawTime s0 s'"
proof -
  let ?P = "\<lambda>sy ops rt (m :: mq_message) s (w :: system_world) r.
     sy = sys \<longrightarrow> ops = sub_ops sy raw \<longrightarrow> rt = rawTime \<longrightarrow> sub_reachable sys raw rawTime s0 s \<longrightarrow> sub_reachable sys raw rawTime s0 (fst r)"
  have "?P sys (sub_ops sys raw) rawTime m s w (s', w')"
  proof (rule checkCommandQueue.raw_induct[where P="?P", OF _ q])
    fix f :: "byte_order \<Rightarrow> subsystem subsystem_ops \<Rightarrow> u32 \<Rightarrow> mq_message \<Rightarrow> subsystem \<Rightarrow> system_world \<Rightarrow> (subsystem \<times> system_world) option"
      and sy ops rt m s w r
    assume IH: "\<And>sy ops rt m s w r. f sy ops rt m s w = Some r \<Longrightarrow> ?P sy ops rt m s w r"
      and body: "Option.bind (queue_receive sy (swQueues w) (ownQueue s) m) (\<lambda>(result, qm, m).
        if result \<noteq> RETURN_OK then Some (s, w\<lparr>swQueues := qm\<rparr>)
        else Option.bind (sb_dispatch sy ops rt m s (w\<lparr>swQueues := qm\<rparr>)) (\<lambda>(s', w'). f sy ops rt m s' w')) = Some r"
    show "?P sy ops rt m s w r"
    proof (intro impI)
      assume o: "sy = sys" "ops = sub_ops sy raw" "rt = rawTime" and i: "sub_reachable sys raw rawTime s0 s"
      obtain result qm m' where rc: "queue_receive sy (swQueues w) (ownQueue s) m = Some (result, qm, m')"
        using body by (cases "queue_receive sy (swQueues w) (ownQueue s) m") auto
      show "sub_reachable sys raw rawTime s0 (fst r)"
      proof (cases "result = RETURN_OK")
        case False
        then show ?thesis using body i by (simp add: rc) (metis fst_conv)
      next
        case True
        then obtain s2 w2 where d: "sb_dispatch sy ops rt m' s (w\<lparr>swQueues := qm\<rparr>) = Some (s2, w2)" and n: "f sy ops rt m' s2 w2 = Some r"
          using body by (cases "sb_dispatch sy ops rt m' s (w\<lparr>swQueues := qm\<rparr>)") (auto simp: rc)
        have "sub_reachable sys raw rawTime s0 s2" by (rule sub_reachable.message[OF i d[unfolded o]])
        then show ?thesis using IH[OF n] o by blast
      qed
    qed
  qed
  then show ?thesis using r by simp
qed

lemma performOperation_reachable:
  assumes "sub_performOperation sys raw rawTime s w = Some (r, s', w')" "sub_reachable sys raw rawTime s0 s"
  shows "sub_reachable sys raw rawTime s0 s'"
proof -
  obtain t w1 where q: "checkCommandQueue sys (sub_ops sys raw) rawTime (newCommandMessage sys) (s\<lparr>childrenChangedMode := False\<rparr>) w = Some (t, w1)"
    and c: "sub_performChildOperation sys t w1 = Some (s', w')"
    using assms(1) by (auto simp: sub_performOperation_def sb_performOperation_def bind_eq_Some_conv)
  show ?thesis
    by (rule sub_reachable.child[OF command_queue_reachable[OF q sub_reachable.clear[OF assms(2)]] c])
qed

subsection \<open>The check of the configuration\<close>

definition children_known :: "subsystem \<Rightarrow> entry_pointer \<Rightarrow> bool" where
  "children_known s p \<longleftrightarrow> (\<forall>y \<in> set (al_abs (entryArray p)). map_of (childrenMap s) (getObject y) \<noteq> None)"

lemma checkTable_iff: "checkTable s xs = RETURN_OK \<longleftrightarrow> (\<forall>y \<in> set xs. map_of (childrenMap s) (getObject y) \<noteq> None)"
  by (induction xs) (auto simp: retcode)

lemma check_entries_iff:
  assumes "maps_ok s"
  shows "check_entries s xs = RETURN_OK \<longleftrightarrow> (\<forall>x \<in> set xs. \<exists>p. sub_tables s (getTableId x) = Some p \<and> children_known s p)"
proof (induction xs)
  case (Cons x xs)
  have t: "TABLE_DOES_NOT_EXIST \<noteq> RETURN_OK" by (simp add: retcode)
  show ?case using Cons maps_access(4)[OF assms, of "getTableId x"] t
    by (cases "sub_tables s (getTableId x)") (auto simp: Let_def checkTable_iff children_known_def)
qed simp

lemma check_sequences_iff: "check_sequences s ids = RETURN_OK \<longleftrightarrow> (\<forall>i \<in> set ids. checkSequence s i = RETURN_OK)"
  by (induction ids) (auto simp: Let_def)

definition sequence_complete :: "subsystem \<Rightarrow> sequence_info \<Rightarrow> bool" where
  "sequence_complete s info \<longleftrightarrow> sub_sequences s (fallbackSequence info) \<noteq> None \<and> al_abs (entryArray (seqEntries info)) \<noteq> []
     \<and> (\<forall>x \<in> set (al_abs (entryArray (seqEntries info))). \<exists>p. sub_tables s (getTableId x) = Some p \<and> children_known s p)"

lemma checkSequence_iff:
  assumes m: "maps_ok s"
  shows "checkSequence s q = RETURN_OK \<longleftrightarrow> (\<exists>info. sub_sequences s q = Some info \<and> sequence_complete s info)"
proof (cases "sub_sequences s q")
  case None
  then show ?thesis using maps_access(3)[OF m] by (simp add: checkSequence_def retcode)
next
  case (Some info)
  have c: "FALLBACK_SEQUENCE_DOES_NOT_EXIST \<noteq> RETURN_OK" "NO_TARGET_TABLE \<noteq> RETURN_OK" by (simp_all add: retcode)
  show ?thesis using Some c
    by (auto simp: checkSequence_def maps_access[OF m] checkSequence_iter_def sequence_complete_def check_entries_iff[OF m])
qed

definition no_store :: "subsystem \<Rightarrow> bool" where
  "no_store s \<longleftrightarrow> (\<forall>k p. sub_tables s k = Some p \<longrightarrow> \<not> islinked p) \<and> (\<forall>k info. sub_sequences s k = Some info \<longrightarrow> \<not> islinked (seqEntries info))"

lemma checkObjectConnections_iff:
  assumes m: "maps_ok s"
  shows "checkObjectConnections s = RETURN_OK \<longleftrightarrow> (\<forall>q info. sub_sequences s q = Some info \<longrightarrow> sequence_complete s info)"
proof -
  have d: "set (map fst (fm_used (modeSequences s))) = dom (sub_sequences s)"
    by (simp add: sub_sequences_def fm_abs_def dom_map_of_conv_image_fst)
  have "checkObjectConnections s = RETURN_OK \<longleftrightarrow> (\<forall>i \<in> dom (sub_sequences s). checkSequence s i = RETURN_OK)"
    by (simp only: checkObjectConnections_def check_sequences_iff d)
  then show ?thesis by (auto simp: checkSequence_iff[OF m] dom_def)
qed

lemma checked_inv:
  assumes "maps_ok s" "no_store s" "checkObjectConnections s = RETURN_OK" "existsModeSequence s (sbMode s)" "\<not> isInTransition s"
  shows "sub_inv s"
proof -
  have "sequence_complete s info" if "sub_sequences s q = Some info" for q info
    using assms(3) that checkObjectConnections_iff[OF assms(1)] by blast
  then have "config_ok s"
    using assms(1,2) by (fastforce simp: config_ok_def no_store_def sequence_ok_def sequence_complete_def)
  then show ?thesis using assms(4,5) maps_access(1)[OF assms(1)] by (simp add: sub_inv_def)
qed

end
