(* ===== verification/SubsystemMessages.thy ===== *)
theory SubsystemMessages
  imports SubsystemResults
begin

text \<open>
  Which messages a subsystem can handle. The answers that carry data are serialised into the IPC store; the
  lemmas of the first section show that they stay within the space reserved for them. From this it follows
  that every message is handled, whatever its command, except the two that read a sequence or a table that
  does not exist: the code reports the missing key and then follows the null pointer.
\<close>

subsection \<open>Serialised answers\<close>

text \<open>A stream that counts what it holds and stays within the size \<open>m\<close>, and operations that keep to this.\<close>

definition out_ok :: "u64 \<Rightarrow> ostream \<Rightarrow> bool" where
  "out_ok m s \<longleftrightarrow> length (obytes s) = unat (osize s) \<and> osize s \<le> m"

definition keeps_out :: "(ostream \<Rightarrow> u64 \<Rightarrow> u16 \<times> ostream) \<Rightarrow> bool" where
  "keeps_out el \<longleftrightarrow> (\<forall>s m. out_ok m s \<longrightarrow> out_ok m (snd (el s m)))"

lemma keeps_outD: "keeps_out el \<Longrightarrow> out_ok m s \<Longrightarrow> out_ok m (snd (el s m))"
  by (simp add: keeps_out_def)

lemma SA_serialize_out:
  assumes "length obj < 256"
  shows "keeps_out (\<lambda>s m. SA_serialize sys obj s m e)"
proof -
  have n: "unat (osize s + of_nat (length obj)) = unat (osize s) + length obj"
    if "osize s < osize s + of_nat (length obj)" for s
  proof -
    have n: "unat (of_nat (length obj) :: u64) = length obj" using assms by (simp add: unsigned_of_nat take_bit_nat_eq_self)
    have "unat (osize s) + unat (of_nat (length obj) :: u64) < 2 ^ LENGTH(64)"
    proof (rule ccontr)
      assume "\<not> ?thesis"
      then have "unat (osize s) + length obj - 2 ^ 64 = unat (osize s + of_nat (length obj))"
        using assms unsigned_less[of "osize s", where 'a = nat] by (simp add: unat_word_ariths n mod_if)
      then show False using that assms by (simp add: word_less_nat_alt)
    qed
    then show ?thesis by (simp add: unat_word_ariths n)
  qed
  show ?thesis
    unfolding keeps_out_def
  proof (intro allI impI)
    fix s m assume ok: "out_ok m s"
    show "out_ok m (snd (SA_serialize sys obj s m e))"
    proof (cases "osize s + of_nat (length obj) \<le> m \<and> osize s < osize s + of_nat (length obj)")
      case True
      then show ?thesis using ok n[of s] by (simp add: out_ok_def SA_serialize_def Let_def add.commute)
    next
      case False
      then show ?thesis using ok by (auto simp: SA_serialize_def Let_def add.commute)
    qed
  qed
qed

lemma SA_word_out: "LENGTH('a) < 2048 \<Longrightarrow> keeps_out (\<lambda>s m. SA_serialize_word sys (w :: 'a::len word) s m e)"
  unfolding SA_serialize_word_def by (rule SA_serialize_out) simp

lemma mle_out: "keeps_out (\<lambda>s m. mle_serialize sys x s m e)"
proof -
  note k = keeps_outD[OF SA_word_out]
  have v: "out_ok m (snd (SA_serialize_word sys (w :: u32) s m e))" "out_ok m (snd (SA_serialize_word sys (b :: u8) s m e))"
    if "out_ok m s" for w b s m
    using that by (auto intro: k)
  show ?thesis
    unfolding keeps_out_def mle_serialize_def using v
    by (auto split: prod.splits) (metis snd_conv)+
qed

lemma ser_loop_out: "(\<And>x. keeps_out (\<lambda>s m. ser x s m e)) \<Longrightarrow> out_ok m s \<Longrightarrow> out_ok m (snd (ser_loop ser r xs s m e))"
proof (induction xs arbitrary: r s)
  case (Cons x xs)
  have "out_ok m (snd (ser x s m e))" using keeps_outD[OF Cons.prems] .
  then show ?case using Cons.IH[OF Cons.prems(1)] Cons.prems(2) by (cases "ser x s m e") simp
qed simp

lemma SAL_out:
  assumes "\<And>x. keeps_out (\<lambda>s m. ser x s m e)"
  shows "keeps_out (\<lambda>s m. SAL_serialize sys ser (l :: ('a, 8) array_list) s m e)"
  unfolding keeps_out_def
proof (intro allI impI)
  fix s m assume s: "out_ok m s"
  have "out_ok m (snd (SA_serialize_word sys (al_size l) s m e))" by (rule keeps_outD[OF SA_word_out s]) simp
  then show "out_ok m (snd (SAL_serialize sys ser l s m e))"
    using ser_loop_out[of ser e, OF assms] by (simp add: SAL_serialize_def case_prod_beta)
qed

lemma SAL_size: "SAL_getSerializedSize f (l :: ('a, 8) array_list) = 1 + (\<Sum>x \<leftarrow> take (unat (al_size l)) (al_entries l). f x)"
proof -
  have "foldl (\<lambda>n x. n + f x) k xs = k + (\<Sum>x \<leftarrow> xs. f x)" for k :: nat and xs
    by (induction xs arbitrary: k) simp_all
  then show ?thesis by (simp add: SAL_getSerializedSize_def)
qed

text \<open>An element of an answer: it keeps to the stream and takes at most 2551 bytes.\<close>

definition element_ok :: "nat \<times> (ostream \<Rightarrow> u64 \<Rightarrow> u16 \<times> ostream) \<Rightarrow> bool" where
  "element_ok el \<longleftrightarrow> fst el \<le> 2551 \<and> keeps_out (snd el)"

lemma elements_ok: "element_ok (id_element sys v)" "element_ok (ids_element sys ids)" "element_ok (entries_element sys l)"
proof -
  have t: "length (take (unat (k :: u8)) xs) \<le> 255" for k and xs :: "'x list"
    using unat_u8_less[of k] unfolding length_take by linarith
  have s: "(\<Sum>x \<leftarrow> xs. c) = c * length xs" for c :: nat and xs :: "'x list" by (induction xs) simp_all
  show "element_ok (id_element sys v)" by (simp add: element_ok_def id_element_def SA_word_out)
  have ids: "SAL_getSerializedSize (\<lambda>_. 4) (l :: (u32, 8) array_list) \<le> 2551" for l
    using t[of "al_size l" "al_entries l"] by (simp add: SAL_size s)
  show "element_ok (ids_element sys ids)"
    unfolding element_ok_def ids_element_def Let_def fst_conv snd_conv by (intro conjI ids SAL_out SA_word_out) simp
  have "SAL_getSerializedSize mle_getSerializedSize l \<le> 2551"
    using t[of "al_size l" "al_entries l"] by (simp add: SAL_size s mle_getSerializedSize_def)
  then show "element_ok (entries_element sys l)"
    unfolding element_ok_def entries_element_def fst_conv snd_conv by (intro conjI SAL_out mle_out)
qed

lemma fold_out:
  assumes "\<forall>el \<in> set els. element_ok el" "out_ok m s"
  shows "out_ok m (fold (\<lambda>el os. snd (snd el os m)) els s)"
  using assms by (induction els arbitrary: s) (auto simp: element_ok_def keeps_outD)

lemma replies_defined:
  assumes "queueMap (swQueues w) q \<noteq> None"
  shows "\<exists>r w'. sw_reply sys q m w = Some (r, w') \<and> ipcStore w' = ipcStore w"
proof -
  obtain d where d: "queueMap (swQueues w) q = Some d" using assms by blast
  obtain r qm m' where "mq_reply sys (swQueues w) d m = (r, qm, m')" by (cases "mq_reply sys (swQueues w) d m")
  then show ?thesis by (simp add: sw_reply_def d)
qed

lemma command_answered:
  assumes "queueMap (swQueues w) (ownQueue s) \<noteq> None"
  shows "\<exists>w'. sub_replyToCommand sys status s w = Some w'"
  using replies_defined[OF assms, of sys "if status = RETURN_OK then newCommandMessage_params sys REPLY_COMMAND_OK 0 0
        else newCommandMessage_params sys REPLY_REJECTED (ucast status) 0"]
  by (auto simp: sub_replyToCommand_def)

lemma serialized_answer:
  assumes q: "queueMap (swQueues w) (ownQueue s) \<noteq> None" and p: "pool_ok (ipcStore w)"
    and els: "\<forall>el \<in> set els. element_ok el" "length els \<le> 3"
  shows "\<exists>w'. sendSerializablesAsCommandMessage sys raw c els s w = Some w'"
proof -
  let ?n = "sum_list (map fst els)"
  obtain st a ptr lp where f: "getFreeElement (ipcStore w) raw ?n False = (st, a, ptr, lp)"
    by (cases "getFreeElement (ipcStore w) raw ?n False")
  show ?thesis
  proof (cases ptr)
    case None
    then show ?thesis using f command_answered[of "w\<lparr>ipcStore := lp\<rparr>" s sys st] q
      by (simp add: sendSerializablesAsCommandMessage_def)
  next
    case (Some ptr')
    have "?n \<le> length els * 2551" using els(1) by (induction els) (auto simp: element_ok_def)
    then have n: "?n < 2 ^ 32" using els(2) by simp
    have inv: "pool_inv (ipcStore w)" using p by (simp add: pool_ok_def)
    define out where "out = fold (\<lambda>el os. snd (snd el os (of_nat ?n))) els \<lparr>obytes = [], osize = 0\<rparr>"
    have "out_ok (of_nat ?n) out" unfolding out_def by (rule fold_out[OF els(1)]) (simp add: out_ok_def)
    moreover have "unat (of_nat ?n :: u64) = ?n" using n by (simp add: unsigned_of_nat take_bit_nat_eq_self)
    ultimately have o: "length (obytes out) \<le> ?n" by (simp add: out_ok_def word_le_nat_alt)
    have len: "?n \<le> length (pool_mem lp ptr')" using getFreeElement_len[OF inv f[unfolded Some] n] by simp
    let ?q = "put_bytes (pool_mem lp ptr') 0 (obytes out)"
    have l: "length ?q = length (pool_mem lp ptr')" "drop ?n ?q = drop ?n (pool_mem lp ptr')"
      using o len by (simp_all add: put_bytes_def)
    have "pool_inv (pool_put lp ptr' ?q)" using put_in_reserved(1)[OF inv f[unfolded Some] n l] .
    then have ok: "pool_ok (pool_put lp ptr' ?q)"
      using p getFreeElement_config[OF f] by (simp add: pool_ok_def pool_put_def split: prod.splits)
    let ?w1 = "w\<lparr>ipcStore := pool_put lp ptr' ?q\<rparr>"
    obtain r w2 where r: "sw_reply sys (ownQueue s) (setModeSequenceMessage_address sys (newCommandMessage sys) c a) ?w1 = Some (r, w2)"
        "ipcStore w2 = pool_put lp ptr' ?q"
      using replies_defined[of ?w1 "ownQueue s" sys] q by fastforce
    obtain st' lp' where d: "deleteData (ipcStore w2) a = Some (st', lp')" using pool_ok_deletes[of "ipcStore w2" a] ok r(2) by auto
    show ?thesis using f Some r(1) d by (auto simp: sendSerializablesAsCommandMessage_def Let_def out_def[symmetric])
  qed
qed

subsection \<open>Every message\<close>

lemma command_ids: "HEALTH_SET \<notin> {READ_SEQUENCE, READ_TABLE}" "HEALTH_ANNOUNCE \<notin> {READ_SEQUENCE, READ_TABLE}"
  "CMD_MODE_COMMAND \<notin> {READ_SEQUENCE, READ_TABLE}" "CMD_MODE_COMMAND_FORCED \<notin> {READ_SEQUENCE, READ_TABLE}"
  "CMD_MODE_READ \<notin> {READ_SEQUENCE, READ_TABLE}" "CMD_MODE_ANNOUNCE \<notin> {READ_SEQUENCE, READ_TABLE}"
  "CMD_MODE_ANNOUNCE_RECURSIVELY \<notin> {READ_SEQUENCE, READ_TABLE}" "REPLY_MODE_INFO \<notin> {READ_SEQUENCE, READ_TABLE}"
  "REPLY_MODE_REPLY \<notin> {READ_SEQUENCE, READ_TABLE}" "REPLY_WRONG_MODE_REPLY \<notin> {READ_SEQUENCE, READ_TABLE}"
  "REPLY_CANT_REACH_MODE \<notin> {READ_SEQUENCE, READ_TABLE}" "HEALTH_INFO \<notin> {READ_SEQUENCE, READ_TABLE}"
  by (simp_all add: sequence_ids message_ids)

text \<open>A message of these two commands that asks for something that is not there.\<close>

definition reads_missing :: "byte_order \<Rightarrow> mq_message \<Rightarrow> subsystem \<Rightarrow> bool" where
  "reads_missing sys m s \<longleftrightarrow> getCommand sys m = READ_SEQUENCE \<and> \<not> existsModeSequence s (getSequenceId sys m)
     \<or> getCommand sys m = READ_TABLE \<and> \<not> existsModeTable s (msg_getTableId sys m)"

lemma add_from_store_defined:
  assumes q: "queueMap (swQueues w) (ownQueue s) \<noteq> None" and p: "pool_ok (ipcStore w)"
    and k: "\<And>data. ownQueue (snd (add data s)) = ownQueue s"
  shows "add_from_store sys m add s w \<noteq> None"
proof -
  let ?a = "msg_getStoreAddress sys m"
  obtain st lp where d: "deleteData (ipcStore w) ?a = Some (st, lp)" using pool_ok_deletes[OF p] by blast
  have inv: "pool_inv (ipcStore w)" using p by (simp add: pool_ok_def)
  have ans: "sub_replyToCommand sys r s' w' \<noteq> None" if "ownQueue s' = ownQueue s" "swQueues w' = swQueues w" for r s' w'
    using command_answered[of w' s' sys r] q that by auto
  show ?thesis
  proof (cases "modifyData (ipcStore w) ?a")
    case (Pair r pos)
    show ?thesis
    proof (cases pos)
      case None
      then show ?thesis using Pair ans[of s w r] by (simp add: add_from_store_def Let_def)
    next
      case (Some x)
      then obtain data where "snd (getData (ipcStore w) ?a) = Some data"
        using slot_fits[OF inv, of ?a] Pair by (auto simp: getData_def modifyData_cases mem_read_def split: if_splits)
      then show ?thesis using Some Pair d ans[of "snd (add data s)" "w\<lparr>ipcStore := lp\<rparr>" "fst (add data s)"] k[of data]
        by (simp add: add_from_store_def Let_def case_prod_beta)
    qed
  qed
qed

lemma edits_own_queue:
  "ownQueue (snd (add_sequence_data sys i data s)) = ownQueue s" "ownQueue (snd (add_table_data sys i data s)) = ownQueue s"
  by (auto simp: add_sequence_data_def add_table_data_def addSequence_def addTable_def split: prod.splits)

lemma command_message_defined:
  assumes c: "config_ok s" and q: "queueMap (swQueues w) (ownQueue s) \<noteq> None" and p: "pool_ok (ipcStore w)"
  shows "sub_handleCommandMessage sys raw m s w = None \<longleftrightarrow> reads_missing sys m s"
proof -
  have m: "maps_ok s" "fm_inv (modeSequences s)" "fm_inv (modeTables s)" using c by (simp_all add: config_ok_def maps_ok_def)
  note ex = maps_access(1,2)[OF m(1)] FixedMap_value_abs[OF m(2)] FixedMap_value_abs[OF m(3)] sub_sequences_def sub_tables_def
  have ans: "sub_replyToCommand sys r s w \<noteq> None" for r using command_answered[OF q] by auto
  have ser: "sendSerializablesAsCommandMessage sys raw k els s w \<noteq> None" if "\<forall>el \<in> set els. element_ok el" "length els \<le> 3" for k els
    using serialized_answer[OF q p that] by auto
  have rep: "sw_reply sys (ownQueue s) x w \<noteq> None" for x using replies_defined[OF q, of sys x] by auto
  have sq: "send_entries sys raw k [i, j] (seqEntries info) s w \<noteq> None" if "sub_sequences s i = Some info" for k i j info
    using c that ser[of "[id_element sys i, id_element sys j, entries_element sys (entryArray (seqEntries info))]" k]
    by (auto simp: send_entries_def config_ok_def sequence_ok_def elements_ok)
  have tb: "send_entries sys raw k [i] t s w \<noteq> None" if "sub_tables s i = Some t" for k i t
    using c that ser[of "[id_element sys i, entries_element sys (entryArray t)]" k]
    by (auto simp: send_entries_def config_ok_def elements_ok)
  let ?c = "getCommand sys m"
  have add: "add_from_store sys m (add_sequence_data sys i) s w \<noteq> None" "add_from_store sys m (add_table_data sys i) s w \<noteq> None" for i
    by (rule add_from_store_defined[OF q p], rule edits_own_queue)+
  show ?thesis
  proof (cases "?c \<in> {READ_SEQUENCE, READ_TABLE}")
    case False
    have "sub_handleCommandMessage sys raw m s w \<noteq> None"
      using False ans ser elements_ok rep add delete_same[OF c]
      by (simp add: sub_handleCommandMessage_def Let_def case_prod_beta del: not_None_eq)
    then show ?thesis using False by (simp add: reads_missing_def)
  next
    case True
    have ne: "READ_SEQUENCE \<noteq> READ_TABLE" "?c \<notin> {HEALTH_INFO, ADD_SEQUENCE, ADD_TABLE, DELETE_SEQUENCE, DELETE_TABLE, LIST_SEQUENCES, LIST_TABLES}"
      using True by (auto simp: sequence_ids message_ids)
    have same: "msg_getTableId sys m = getSequenceId sys m" by (simp add: msg_getTableId_def getSequenceId_def)
    show ?thesis
    proof (cases "?c = READ_SEQUENCE")
      case True
      then show ?thesis using ne ans sq ex by (auto simp: sub_handleCommandMessage_def Let_def reads_missing_def split: option.splits)
    next
      case False
      with True have "?c = READ_TABLE" by simp
      then show ?thesis using False ne ans tb ex same
        by (auto simp: sub_handleCommandMessage_def Let_def reads_missing_def split: option.splits)
    qed
  qed
qed

abbreviation mode_commands :: "u16 set" where
  "mode_commands \<equiv> {CMD_MODE_COMMAND, CMD_MODE_COMMAND_FORCED, CMD_MODE_READ, CMD_MODE_ANNOUNCE, CMD_MODE_ANNOUNCE_RECURSIVELY}"

lemma mode_command_defined:
  assumes inv: "sub_inv s" and c: "getCommand sys m \<in> mode_commands"
  shows "\<exists>s' w'. handleModeCommand sys (owner_ops.truncate (sub_ops sys raw)) rawTime m s w = Some (RETURN_OK, s', w')"
proof (cases "getCommand sys m = CMD_MODE_COMMAND_FORCED \<or> getCommand sys m = CMD_MODE_COMMAND")
  case False
  then show ?thesis using c
    by (cases "sb_getMode s") (auto simp: handleModeCommand_cases Let_def sb_announceMode_def split: prod.splits)
next
  case True
  define f where "f = (if getCommand sys m = CMD_MODE_COMMAND_FORCED then True else modeForced s)"
  let ?s1 = "s\<lparr>modeForced := f\<rparr>" and ?mode = "msg_getMode sys m" and ?sub = "msg_getSubmode sys m"
  have s1: "(if getCommand sys m = CMD_MODE_COMMAND_FORCED then s\<lparr>modeForced := True\<rparr> else s) = ?s1" by (simp add: f_def)
  obtain result t where ck: "sub_checkModeCommand ?mode ?sub rawTime ?s1 w = (result, t)"
    by (cases "sub_checkModeCommand ?mode ?sub rawTime ?s1 w")
  show ?thesis
  proof (cases "result = RETURN_OK")
    case False
    then show ?thesis using True ck by (simp add: handleModeCommand_cases Let_def s1)
  next
    case ok: True
    let ?u = "?s1\<lparr>theOneWhoCommandedAMode := getSender sys m, commandedMode := ?mode, commandedSubmode := ?sub\<rparr>"
    obtain w3 where w3: "(if modeParent ?u \<noteq> NO_QUEUE \<and> theOneWhoCommandedAMode ?u \<noteq> modeParent ?u
        then sb_setToExternalControl sys ?u w else (?u, w)) = (?u, w3)"
      by (cases "modeParent ?u \<noteq> NO_QUEUE \<and> theOneWhoCommandedAMode ?u \<noteq> modeParent ?u") (auto simp: sb_setToExternalControl_def)
    obtain cd w4 where cd: "cd_setTimeout t w3 = (cd, w4)" by (cases "cd_setTimeout t w3")
    let ?v = "?u\<lparr>modeCountdown := cd\<rparr>"
    have "same_transition s ?s1" "same_transition s ?v" by (simp_all add: same_transition_def config_fields)
    then have i1: "sub_inv ?s1" "sub_inv ?v" using same_transition_inv inv by blast+
    then have "maps_ok ?s1" by (simp add: sub_inv_def config_ok_def)
    moreover have "checkSequence ?s1 ?mode = RETURN_OK" using ck ok by (auto simp: sub_checkModeCommand_def retcode split: if_splits)
    ultimately have "sub_sequences ?s1 ?mode \<noteq> None" by (rule checkSequence_exists)
    then have q: "sub_sequences ?v ?mode \<noteq> None" by (simp add: sub_sequences_def)
    have "config_ok ?v" using i1(2) unfolding sub_inv_def by blast
    from startTransition_ok[OF this q] obtain s' w' where st: "sub_startTransition sys ?mode ?sub ?v w4 = Some (s', w')" by blast
    have "handleModeCommand sys (owner_ops.truncate (sub_ops sys raw)) rawTime m s w = map_option (Pair RETURN_OK) (sub_startTransition sys ?mode ?sub ?v w4)"
      by (simp only: handleModeCommand_cases Let_def s1 sub_ops_owner True if_True if_False ck prod.case ok simp_thms w3 cd)
    then show ?thesis by (simp only: st option.map) blast
  qed
qed

text \<open>A subsystem handles every message in a state of the invariant, unless it reads what is missing.\<close>

lemma dispatch_defined:
  assumes inv: "sub_inv s" and q: "queueMap (swQueues w) (ownQueue s) \<noteq> None" and p: "pool_ok (ipcStore w)"
  shows "sb_dispatch sys (sub_ops sys raw) rawTime m s w = None \<longleftrightarrow> reads_missing sys m s"
proof -
  let ?o = "owner_ops.truncate (sub_ops sys raw)" and ?c = "getCommand sys m"
  have skip: "\<not> reads_missing sys m s" if "?c \<notin> {READ_SEQUENCE, READ_TABLE}" using that by (auto simp: reads_missing_def)
  consider (health) "?c \<in> {HEALTH_SET, HEALTH_ANNOUNCE}" | (mode) "?c \<notin> {HEALTH_SET, HEALTH_ANNOUNCE}" "?c \<in> mode_commands"
    | (reply) "?c \<notin> {HEALTH_SET, HEALTH_ANNOUNCE}" "?c \<notin> mode_commands"
        "?c \<in> {REPLY_MODE_INFO, REPLY_MODE_REPLY, REPLY_WRONG_MODE_REPLY, REPLY_CANT_REACH_MODE}"
    | (command) "?c \<notin> {HEALTH_SET, HEALTH_ANNOUNCE}" "?c \<notin> mode_commands"
        "?c \<notin> {REPLY_MODE_INFO, REPLY_MODE_REPLY, REPLY_WRONG_MODE_REPLY, REPLY_CANT_REACH_MODE}" by blast
  then show ?thesis
  proof cases
    case health
    then have "sb_dispatch sys (sub_ops sys raw) rawTime m s w \<noteq> None"
      by (auto simp: sb_dispatch_def handleHealthCommand_def split: prod.splits)
    moreover have "?c \<notin> {READ_SEQUENCE, READ_TABLE}" using health command_ids by auto
    ultimately show ?thesis using skip by blast
  next
    case mode
    have h: "handleHealthCommand sys ?o m s w = (RETURN_FAILED, s, w)" using mode by (simp add: handleHealthCommand_def)
    obtain s' w' where "handleModeCommand sys ?o rawTime m s w = Some (RETURN_OK, s', w')" using mode_command_defined[OF inv mode(2)] by blast
    then have "sb_dispatch sys (sub_ops sys raw) rawTime m s w \<noteq> None" by (simp add: sb_dispatch_def h)
    moreover have "?c \<notin> {READ_SEQUENCE, READ_TABLE}" using mode command_ids by auto
    ultimately show ?thesis using skip by blast
  next
    case reply
    have h: "handleHealthCommand sys ?o m s w = (RETURN_FAILED, s, w)" using reply by (simp add: handleHealthCommand_def)
    have "handleModeCommand sys ?o rawTime m s w = Some (RETURN_FAILED, s, w)" using reply(2) by (simp add: handleModeCommand_cases Let_def)
    moreover have "fst (handleModeReply sys m s w) = RETURN_OK" using reply(3) by (auto simp: handleModeReply_def Let_def)
    then obtain s' w' where "handleModeReply sys m s w = (RETURN_OK, s', w')" by (cases "handleModeReply sys m s w") auto
    ultimately have "sb_dispatch sys (sub_ops sys raw) rawTime m s w \<noteq> None" by (simp add: sb_dispatch_def h)
    moreover have "?c \<notin> {READ_SEQUENCE, READ_TABLE}" using reply command_ids by auto
    ultimately show ?thesis using skip by blast
  next
    case command
    have h: "handleHealthCommand sys ?o m s w = (RETURN_FAILED, s, w)" "handleModeCommand sys ?o rawTime m s w = Some (RETURN_FAILED, s, w)"
      "handleModeReply sys m s w = (RETURN_FAILED, s, w)"
      using command by (simp_all add: handleHealthCommand_def handleModeCommand_cases handleModeReply_def Let_def)
    have c: "config_ok s" using inv by (simp add: sub_inv_def)
    note d = command_message_defined[OF c q p, of sys raw m]
    show ?thesis
    proof (cases "sub_handleCommandMessage sys raw m s w")
      case None
      then show ?thesis using d by (simp add: sb_dispatch_def h)
    next
      case (Some x)
      obtain r s4 w4 where x: "x = (r, s4, w4)" by (cases x)
      have "ownQueue s4 = ownQueue s \<and> queueMap (swQueues w4) (ownQueue s) \<noteq> None" if "r \<noteq> RETURN_OK"
        using Some that q unfolding x sub_handleCommandMessage_def
        by (auto simp: Let_def add_from_store_def bind_eq_Some_conv case_prod_beta split: if_splits option.splits)
      then have "sb_dispatch sys (sub_ops sys raw) rawTime m s w \<noteq> None"
        using replies_defined[of w4 "ownQueue s4" sys "setReplyRejected sys (newCommandMessage sys) UNKNOWN_COMMAND ?c"] Some
        by (auto simp: x sb_dispatch_def h)
      then show ?thesis using d Some by simp
    qed
  qed
qed

end
