(* ===== verification/SubsystemTables.thy ===== *)
theory SubsystemTables
  imports SubsystemMessages
begin

text \<open>
  The commands of a mode table and the end of a transition, with the properties of the subsystem.
\<close>

subsection \<open>Commanding a table\<close>

text \<open>
  What a table asks for: for every entry of a known child the queue, the command, the mode and the submode,
  without the commands to children that already are where they should be.
\<close>

definition table_commands ::
  "'a subsystem_base_scheme \<Rightarrow> system_world \<Rightarrow> u8 \<Rightarrow> mode_list_entry list \<Rightarrow> (u32 \<times> u16 \<times> u32 \<times> u8) list" where
  "table_commands s w sub table = concat (map (\<lambda>x.
     case (map_of (childrenMap s) (getObject x), entry_command s w sub x) of
       (Some c, Some (cmd, mode, submode)) \<Rightarrow>
         if childMode c = mode \<and> childSubmode c = submode \<and> \<not> modeForced s then [] else [(childQueue c, cmd, mode, submode)]
     | _ \<Rightarrow> []) table)"

lemma table_commands_Cons: "table_commands s w sub (x # xs) = table_commands s w sub [x] @ table_commands s w sub xs"
  by (simp add: table_commands_def)

lemma table_commands_Nil: "table_commands s w sub [] = []"
  by (simp add: table_commands_def)

lemma table_commands_one: "table_commands s w sub [x] =
     (case (map_of (childrenMap s) (getObject x), entry_command s w sub x) of
       (Some c, Some (cmd, mode, submode)) \<Rightarrow>
         if childMode c = mode \<and> childSubmode c = submode \<and> \<not> modeForced s then [] else [(childQueue c, cmd, mode, submode)]
     | _ \<Rightarrow> [])"
  by (simp add: table_commands_def)

text \<open>
  Sending them, with the number of the commands that were accepted by their queues. A queue gets a message
  before its sender is written; the first one carries none.
\<close>

fun send_commands ::
  "byte_order \<Rightarrow> u32 \<Rightarrow> u32 \<Rightarrow> (u32 \<times> u16 \<times> u32 \<times> u8) list \<Rightarrow> system_world \<Rightarrow> int \<times> system_world" where
  "send_commands sys src sender [] w = (0, w)"
| "send_commands sys src sender ((q, cmd, mode, submode) # cs) w =
     (case sw_send_again sys q (setModeMessage sys (setSender sys (newCommandMessage sys) sender) cmd mode submode) src w of
        (r, _, w1) \<Rightarrow>
          if r = RETURN_OK then (case send_commands sys src src cs w1 of (n, w2) \<Rightarrow> (n + 1, w2))
          else send_commands sys src sender cs w1)"

lemma mode_message_overwrites:
  assumes "message_inv m"
  shows "setModeMessage sys (setModeMessage sys m c1 a1 b1) c a b = setModeMessage sys m c a b"
    "setModeMessage sys (setSender sys (setModeMessage sys m c1 a1 b1) i) c a b = setModeMessage sys (setSender sys m i) c a b"
    "setSender sys (setSender sys m i) j = setSender sys m j"
  using assms
  by (auto simp: setModeMessage_def setSender_def setCommand_def setParameter_def setParameter2_def message_inv_def mq_sizes
      CMD_HEADER_SIZE_def nth_put_bytes intro!: mq_message.equality nth_equalityI)

lemma mode_message_fields [simp]:
  assumes "message_inv m"
  shows "msg_getMode sys (setModeMessage sys m c a b) = a" "msg_getSubmode sys (setModeMessage sys m c a b) = b"
    "message_inv (setModeMessage sys m c a b)" "getCommand sys (setModeMessage sys m c a b) = c"
proof -
  have "ucast (ucast b :: u32) = (b :: u8)" by (rule bit_word_eqI) (simp add: bit_simps)
  then show "msg_getMode sys (setModeMessage sys m c a b) = a" "msg_getSubmode sys (setModeMessage sys m c a b) = b"
    "message_inv (setModeMessage sys m c a b)" "getCommand sys (setModeMessage sys m c a b) = c"
    using assms by (simp_all add: msg_getMode_def msg_getSubmode_def setModeMessage_def)
qed

lemma send_again_cases:
  assumes "sw_send_again sys q m src w = (r, m', w')"
  shows "healthTable w' = healthTable w \<and> m' = (if r = RETURN_OK then setSender sys m src else m)"
  using assms by (auto simp: sw_send_again_def sendMessageFromMessageQueue_def retcode split: if_splits option.splits prod.splits)

text \<open>The message of the loop is as good as a new one with the sender that it has got.\<close>

definition reused_message :: "byte_order \<Rightarrow> u32 \<Rightarrow> mq_message \<Rightarrow> bool" where
  "reused_message sys sender m \<longleftrightarrow> message_inv m
     \<and> (\<forall>c a b. setModeMessage sys m c a b = setModeMessage sys (setSender sys (newCommandMessage sys) sender) c a b)"

lemma reused_set: "reused_message sys sender m \<Longrightarrow> reused_message sys sender (setModeMessage sys m c a b)"
  by (simp add: reused_message_def mode_message_overwrites)

lemma reused_sent:
  assumes "reused_message sys sender m" shows "reused_message sys i (setSender sys (setModeMessage sys m c a b) i)"
proof -
  have "setModeMessage sys (setSender sys (setModeMessage sys m c a b) i) c' a' b'
      = setModeMessage sys (setSender sys (newCommandMessage sys) i) c' a' b'" for c' a' b'
    using assms by (simp add: reused_message_def mode_message_overwrites)
  then show ?thesis using assms by (simp add: reused_message_def)
qed

lemma reused_new: "reused_message sys 0 (newCommandMessage sys)"
  by (simp add: reused_message_def newCommandMessage_sender)

lemma entry_command_world: "healthTable w' = healthTable w \<Longrightarrow> entry_command s w' sub x = entry_command s w sub x"
  by (simp only: entry_command_def)

lemma table_commands_world: "healthTable w' = healthTable w \<Longrightarrow> table_commands s w' sub xs = table_commands s w sub xs"
  by (simp add: table_commands_def entry_command_world[of w' w])

lemma entry_command_state: "entry_command (s\<lparr>commandsOutstanding := n\<rparr>) w sub x = entry_command s w sub x"
  by (simp add: entry_command_def Let_def)

lemma table_commands_state: "table_commands (s\<lparr>commandsOutstanding := n\<rparr>) w sub xs = table_commands s w sub xs"
  by (simp add: table_commands_def entry_command_state cong: option.case_cong)

lemma execute_entries_sends:
  assumes "reused_message sys sender m"
  shows "execute_entries sys sub xs m s w =
    (case send_commands sys (ownQueue s) sender (table_commands s w sub xs) w of
       (n, w') \<Rightarrow> (s\<lparr>commandsOutstanding := commandsOutstanding s + n\<rparr>, w'))"
  using assms
proof (induction xs arbitrary: sender m s w)
  case Nil
  then show ?case by (simp add: table_commands_Nil)
next
  case (Cons x xs)
  have inv: "message_inv m" using Cons.prems by (simp add: reused_message_def)
  note one = table_commands_Cons[of s w sub x xs] table_commands_one
  show ?case
  proof (cases "map_of (childrenMap s) (getObject x)")
    case None
    then show ?thesis using Cons.IH[OF Cons.prems] by (simp add: one)
  next
    case (Some c)
    note child = Some
    show ?thesis
    proof (cases "entry_command s w sub x")
      case None
      then show ?thesis using Cons.IH[OF Cons.prems] child by (simp add: one)
    next
      case (Some e)
      obtain cmd mode submode where e: "e = (cmd, mode, submode)" by (cases e)
      let ?m = "setModeMessage sys m cmd mode submode"
      show ?thesis
      proof (cases "childMode c = mode \<and> childSubmode c = submode \<and> \<not> modeForced s")
        case True
        then show ?thesis using Cons.IH[OF reused_set[OF Cons.prems]] child Some e inv by (simp add: one Let_def)
      next
        case False
        obtain r m2 w1 where snd: "sw_send_again sys (childQueue c) ?m (ownQueue s) w = (r, m2, w1)"
          by (cases "sw_send_again sys (childQueue c) ?m (ownQueue s) w")
        note sc = send_again_cases[OF snd]
        have cmds: "table_commands s w sub (x # xs) = (childQueue c, cmd, mode, submode) # table_commands s w1 sub xs"
          using child Some e False table_commands_world[of w1 w s sub xs] sc by (simp add: one)
        have m: "?m = setModeMessage sys (setSender sys (newCommandMessage sys) sender) cmd mode submode"
          using Cons.prems by (simp add: reused_message_def)
        have step: "execute_entries sys sub (x # xs) m s w = execute_entries sys sub xs m2
            (if r = RETURN_OK then s\<lparr>commandsOutstanding := commandsOutstanding s + 1\<rparr> else s) w1"
          using child Some e False snd inv by (simp add: Let_def) blast
        show ?thesis
        proof (cases "r = RETURN_OK")
          case True
          then have "reused_message sys (ownQueue s) m2" using sc reused_sent[OF Cons.prems] by simp
          from Cons.IH[OF this, of "s\<lparr>commandsOutstanding := commandsOutstanding s + 1\<rparr>" w1]
          show ?thesis unfolding step cmds using True snd[unfolded m]
            by (simp add: table_commands_state split: prod.splits)
        next
          case no: False
          then have "reused_message sys sender m2" using sc reused_set[OF Cons.prems] by simp
          from Cons.IH[OF this, of s w1] show ?thesis unfolding step cmds using no snd[unfolded m] by simp
        qed
      qed
    qed
  qed
qed

lemma table_command_origin:
  assumes "(q, cmd, mode, submode) \<in> set (table_commands s w sub table)"
  shows "\<exists>x \<in> set table. \<exists>c. map_of (childrenMap s) (getObject x) = Some c \<and> q = childQueue c
     \<and> entry_command s w sub x = Some (cmd, mode, submode)"
  using assms unfolding table_commands_def by (auto split: option.splits if_splits intro!: bexI dest: sym)

definition table_reached :: "'a subsystem_base_scheme \<Rightarrow> mode_list_entry list \<Rightarrow> u8 \<Rightarrow> bool" where
  "table_reached s table sub \<longleftrightarrow> (\<forall>x \<in> set table. \<exists>c. map_of (childrenMap s) (getObject x) = Some c \<and> childMode c = entry_getMode x
     \<and> childSubmode c = (if inheritSubmode x then sub else entry_getSubmode x))"

lemma checkState_iff: "checkStateAgainstTable s table sub = RETURN_OK \<longleftrightarrow> table_reached s table sub"
proof (induction table)
  case (Cons x xs)
  have f: "RETURN_FAILED \<noteq> RETURN_OK" by (simp add: retcode)
  show ?case using Cons f by (cases "map_of (childrenMap s) (getObject x)") (auto simp: table_reached_def)
qed (simp add: table_reached_def)

subsection \<open>Leaving a transition\<close>

lemma executeTable_stays: "executeTable sys t sub s w = (s', w') \<Longrightarrow> isInTransition s' = isInTransition (s :: subsystem)"
  by (drule executeTable_keeps) auto

lemma start_stays:
  assumes "sub_startTransition sys q sub s w = Some (s', w')" shows "isInTransition s'"
proof -
  let ?s1 = "s\<lparr>targetMode := q, targetSubmode := sub, isInTransition := True, commandsOutstanding := 0\<rparr>"
  obtain x xs t where x: "getSequence ?s1 q = Some (x # xs)" "getTable ?s1 (getTableId x) = Some t"
    using assms by (auto simp: sub_startTransition_def Let_def bind_eq_Some_conv split: option.splits list.splits)
  let ?s2 = "?s1\<lparr>currentTargetTable := t, currentSequenceIterator := xs\<rparr>"
  have "fst ` set_option (sub_startTransition sys q sub s w) \<subseteq> {u. isInTransition u}"
    using x by (auto simp: sub_startTransition_def Let_def dest!: executeTable_stays)
  then show ?thesis using assms by simp
qed

lemma next_table_stays: "next_table sys s w = Some (s', w') \<Longrightarrow> isInTransition s' = isInTransition s"
  by (auto simp: next_table_def Let_def dest!: executeTable_stays split: if_splits)

lemma wait_table_stays: "wait_table sys x s w = Some (s', w') \<Longrightarrow> isInTransition s' = isInTransition s"
  by (auto simp: wait_table_def dest!: next_table_stays split: if_splits prod.splits)

lemma failed_leaves:
  assumes "transitionFailed sys code p s w = Some (s', w')" "\<not> isInTransition s'"
  shows "sbMode s' = sbMode s \<and> sbMode s = targetMode s \<and> (\<exists>fb reason. reason \<noteq> RETURN_OK \<and>
    events w' = events w @ [(ownerId s, MODE_TRANSITION_FAILED, ucast code, p), (ownerId s, FALLBACK_FAILED, ucast reason, fb)])"
  using assms start_stays
  by (auto simp: transitionFailed_def Let_def triggerEvent_def split: if_splits)

subsection \<open>Properties\<close>

text \<open>A subsystem with one child, one table and one sequence, which is its own fallback, for the witnesses.\<close>

definition example_entry :: "u32 \<Rightarrow> u32 \<Rightarrow> mode_list_entry" where
  "example_entry k v = \<lparr>value1 = k, value2 = v, value3 = 0, value4 = 0\<rparr>"

definition example_list :: "mode_list_entry \<Rightarrow> (mode_list_entry, 8) array_list" where
  "example_list x = \<lparr>al_size = 1, al_entries = [x], al_maxSize = 1\<rparr>"

definition example_subsystem :: subsystem where
  "example_subsystem =
     \<lparr>ownerId = 9, ownQueue = 1, healthParent = 0, modeParent = 0, commandedMode = 0, commandedSubmode = 0,
      theOneWhoCommandedAMode = 0, modeForced = False, modeCountdown = \<lparr>cdStart = 0, cdTimeout = 0\<rparr>, sbMode = 1, sbSubmode = 0,
      childrenChangedMode = False, commandsOutstanding = 0, parentId = 0,
      childrenMap = [(5, \<lparr>childQueue = 2, childMode = 7, childSubmode = 0, healthChanged = False\<rparr>)],
      isInTransition = False, childrenChangedHealth = False, uptimeStartTable = 0, currentTargetTable = [example_entry 5 7],
      targetMode = 0, targetSubmode = 0, initialMode = 1, currentSequenceIterator = [],
      modeTables = \<lparr>fm_map = [(10, \<lparr>islinked = False, entryArray = example_list (example_entry 5 7)\<rparr>)], fm_size = 1\<rparr>,
      modeSequences = \<lparr>fm_map = [(1, \<lparr>fallbackSequence = 1,
        seqEntries = \<lparr>islinked = False, entryArray = example_list (example_entry 10 0)\<rparr>\<rparr>)], fm_size = 1\<rparr>\<rparr>"

definition example_world :: "u8 \<Rightarrow> system_world" where
  "example_world h = \<lparr>swQueues = \<lparr>queueMap = Map.empty, queueCounter = 1\<rparr>, ipcStore = newLocalPool [] [] False,
     healthTable = \<lparr>healthMap = [(5, h)], mapIterator = None\<rparr>, events = [], clock = (\<lambda>_. 0), clockReads = 0\<rparr>"

lemma example_maps [simp]:
  "fm_used (modeTables example_subsystem) = [(10, \<lparr>islinked = False, entryArray = example_list (example_entry 5 7)\<rparr>)]"
  "fm_used (modeSequences example_subsystem) = [(1, \<lparr>fallbackSequence = 1,
     seqEntries = \<lparr>islinked = False, entryArray = example_list (example_entry 10 0)\<rparr>\<rparr>)]"
  "maps_ok example_subsystem" "no_store example_subsystem"
  by (simp_all add: example_subsystem_def fm_used_def maps_ok_def fm_inv_def no_store_def sub_tables_def sub_sequences_def fm_abs_def)

text \<open>
  C13. A subsystem whose tables and sequences have passed the check of the start-up, and whose initial mode is one of
  its sequences, keeps to its configuration: in every state it reaches by messages and cycles the child operation is
  defined, and the mode, the target and the remaining tables of a transition are configured ones. With a command queue
  and an intact IPC store it also handles every message but those that read a sequence or table that does not exist,
  where the code follows a null pointer. That the initial mode exists is a hypothesis: the start-up does not check it.
\<close>

theorem subsystem_never_stuck:
  assumes "maps_ok s" "no_store s" "checkObjectConnections s = RETURN_OK" "existsModeSequence s (sbMode s)" "\<not> isInTransition s"
    and "sub_reachable sys raw rawTime s s1"
  shows "(\<exists>s2 w2. sub_performChildOperation sys s1 w = Some (s2, w2)) \<and> existsModeSequence s1 (sbMode s1)
    \<and> (isInTransition s1 \<longrightarrow> existsModeSequence s1 (targetMode s1)
         \<and> (\<forall>x \<in> set (currentSequenceIterator s1). existsModeTable s1 (getTableId x)))
    \<and> (queueMap (swQueues w) (ownQueue s1) \<noteq> None \<and> pool_ok (ipcStore w)
         \<longrightarrow> (sb_dispatch sys (sub_ops sys raw) rawTime m s1 w = None
               \<longleftrightarrow> getCommand sys m = READ_SEQUENCE \<and> \<not> existsModeSequence s1 (getSequenceId sys m)
                 \<or> getCommand sys m = READ_TABLE \<and> \<not> existsModeTable s1 (msg_getTableId sys m)))"
proof -
  have inv: "sub_inv s1" by (rule reachable_inv[OF assms(6) checked_inv[OF assms(1-5)]])
  then have "maps_ok s1" by (simp add: sub_inv_def config_ok_def)
  then have "(\<exists>s2 w2. sub_performChildOperation sys s1 w = Some (s2, w2)) \<and> existsModeSequence s1 (sbMode s1)
    \<and> (isInTransition s1 \<longrightarrow> existsModeSequence s1 (targetMode s1)
         \<and> (\<forall>x \<in> set (currentSequenceIterator s1). existsModeTable s1 (getTableId x)))"
    using inv child_operation_inv[OF inv, of sys w] maps_access(1,2)[of s1] by (auto simp: sub_inv_def)
  then show ?thesis using dispatch_defined[OF inv, of w sys raw rawTime m] unfolding reads_missing_def by simp
qed

text \<open>An initial mode that is no sequence: the first change of a child's health makes the subsystem follow a null pointer.\<close>

lemma unknown_initial_mode:
  assumes "maps_ok s" "\<not> existsModeSequence s (sbMode s)" "\<not> isInTransition s" "childrenChangedHealth s"
  shows "sub_performChildOperation sys s w = None"
proof -
  let ?s = "s\<lparr>childrenChangedHealth := False, targetMode := sbMode s, targetSubmode := sbSubmode s, isInTransition := True, commandsOutstanding := 0\<rparr>"
  have m: "maps_ok ?s" "sub_sequences ?s = sub_sequences s" using assms(1) by (simp_all add: maps_ok_def sub_sequences_def)
  have "sub_sequences s (sbMode s) = None" using maps_access(1)[OF assms(1)] assms(2) by simp
  then have "getSequence ?s (sbMode s) = None" using maps_access(3)[OF m(1)] m(2) by simp
  then show ?thesis using assms(3,4) by (simp add: sub_performChildOperation_def sub_startTransition_def Let_def)
qed

lemma subsystem_never_stuck_witness:
  "(\<exists>s2 w2. sub_performChildOperation LITTLE_ENDIAN example_subsystem (example_world 1) = Some (s2, w2))
     \<and> existsModeSequence example_subsystem 1"
proof -
  have m: "sbMode example_subsystem = 1" "\<not> isInTransition example_subsystem" by (simp_all add: example_subsystem_def)
  have k: "map_of (childrenMap example_subsystem) 5 \<noteq> None" by (simp add: example_subsystem_def)
  have "sub_sequences example_subsystem q = Some info \<longrightarrow> sequence_complete example_subsystem info" for q info
    using k by (auto simp: sub_sequences_def sub_tables_def fm_abs_def sequence_complete_def children_known_def example_list_def
        example_entry_def al_abs_def getTableId_def getObject_def)
  then have "checkObjectConnections example_subsystem = RETURN_OK" using checkObjectConnections_iff[OF example_maps(3)] by blast
  moreover have "existsModeSequence example_subsystem (sbMode example_subsystem)"
    using maps_access(1)[OF example_maps(3)] m by (simp add: sub_sequences_def fm_abs_def)
  ultimately show ?thesis
    using subsystem_never_stuck[OF example_maps(3,4) _ _ m(2) sub_reachable.start, of LITTLE_ENDIAN "example_world 1"] m(1) by simp
qed

text \<open>
  C14. A transition ends only in two ways: every child of the target table is in the mode and submode the table asks
  for, no command is outstanding and no table is left, and then the target becomes the mode; or the target was the
  mode already, its fallback cannot be used, the mode stays and this is reported by an event.
\<close>

theorem mode_change_confirmed:
  assumes "sub_performChildOperation sys s w = Some (s', w')" "isInTransition s" "\<not> isInTransition s'"
  shows "(commandsOutstanding s \<le> 0 \<and> currentSequenceIterator s = [] \<and> table_reached s (currentTargetTable s) (targetSubmode s)
        \<and> sbMode s' = targetMode s \<and> sbSubmode s' = targetSubmode s \<and> \<not> modeForced s')
    \<or> (sbMode s' = sbMode s \<and> sbMode s = targetMode s
        \<and> (\<exists>(code :: u16) p reason fallback. reason \<noteq> RETURN_OK \<and> events w' = events w @
             [(ownerId s, MODE_TRANSITION_FAILED, ucast code, p), (ownerId s, FALLBACK_FAILED, ucast (reason :: u16), fallback)]))"
proof (cases "currentSequenceIterator s")
  case Nil
  have co: "commandsOutstanding s \<le> 0" using assms by (auto simp: sub_performChildOperation_def split: if_splits)
  show ?thesis
  proof (cases "checkStateAgainstTable s (currentTargetTable s) (targetSubmode s) = RETURN_OK")
    case True
    obtain s1 w1 where sm: "sb_setMode sys (targetMode s) (targetSubmode s) s w = (s1, w1)"
      by (cases "sb_setMode sys (targetMode s) (targetSubmode s) s w")
    have f: "\<not> modeForced s1" using sm by (auto simp: sb_setMode_def mh_modeChanged_def sb_announceMode_def Let_def)
    have "s' = s1\<lparr>isInTransition := False\<rparr>" using assms(1,2) co Nil True sm by (simp add: sub_performChildOperation_def)
    then show ?thesis using setMode_fields[OF sm] f co Nil True checkState_iff[of s] by simp
  next
    case False
    obtain x where "transitionFailed sys TARGET_TABLE_NOT_REACHED (getTableId x) s w = Some (s', w')"
      using assms(1,2) co Nil False by (auto simp: sub_performChildOperation_def split: option.splits list.splits)
    from failed_leaves[OF this assms(3)] show ?thesis by blast
  qed
next
  case (Cons x xs)
  have "wait_table sys x s w \<noteq> Some (s', w')" using wait_table_stays assms(2,3) by blast
  then have "transitionFailed sys TABLE_CHECK_FAILED (getTableId x) s w = Some (s', w')"
    using assms Cons by (auto simp: sub_performChildOperation_def bind_eq_Some_conv split: if_splits)
  from failed_leaves[OF this assms(3)] show ?thesis by blast
qed

lemma mode_change_confirmed_witness:
  "\<exists>s' w'. sub_performChildOperation LITTLE_ENDIAN (example_subsystem\<lparr>isInTransition := True, targetMode := 1\<rparr>) (example_world 1)
     = Some (s', w') \<and> \<not> isInTransition s' \<and> sbMode s' = 1"
proof -
  let ?s = "example_subsystem\<lparr>isInTransition := True, targetMode := 1\<rparr>"
  have "checkStateAgainstTable ?s (currentTargetTable ?s) (targetSubmode ?s) = RETURN_OK"
    by (simp add: example_subsystem_def example_entry_def getObject_def entry_getMode_def entry_getSubmode_def inheritSubmode_def)
  then obtain s' w' where r: "sub_performChildOperation LITTLE_ENDIAN ?s (example_world 1) = Some (s', w')" and n: "\<not> isInTransition s'"
    by (cases "sb_setMode LITTLE_ENDIAN (targetMode ?s) (targetSubmode ?s) ?s (example_world 1)")
      (auto simp: sub_performChildOperation_def example_subsystem_def)
  have "sbMode s' = 1" using mode_change_confirmed[OF r _ n] by (auto simp: example_subsystem_def)
  then show ?thesis using r n by blast
qed

text \<open>
  C15. Commanding a table sends exactly the commands its entries ask for, in their order, each once, though one message object is
  used for all of them, and counts those that the queues of the children accepted.
\<close>

theorem table_commanded:
  "executeTable sys table sub s w =
     (case send_commands sys (ownQueue s) 0 (table_commands s w sub table) w of
        (n, w') \<Rightarrow> (s\<lparr>commandsOutstanding := n\<rparr>, w'))"
  using execute_entries_sends[OF reused_new, of sys sub table "s\<lparr>commandsOutstanding := 0\<rparr>" w]
  by (simp add: executeTable_def table_commands_state split: prod.splits)

text \<open>
  C16. The commands of a table respect the health of the children: a faulty child is only ever sent to off, and a child
  under external control is commanded only by force; any other command is the one of the table.
\<close>

theorem commands_respect_health:
  assumes "(q, cmd, mode, submode) \<in> set (table_commands s w sub table)"
  shows "\<exists>x \<in> set table. \<exists>c. map_of (childrenMap s) (getObject x) = Some c \<and> q = childQueue c
    \<and> (if ht_isFaulty (healthTable w) (getObject x)
        then ht_hasHealth (healthTable w) (getObject x) \<and> cmd = CMD_MODE_COMMAND \<and> mode = MODE_OFF \<and> submode = SUBMODE_NONE
        else mode = entry_getMode x \<and> submode = (if inheritSubmode x then sub else entry_getSubmode x)
          \<and> (ht_isCommandable (healthTable w) (getObject x) \<or> modeForced s \<and> cmd = CMD_MODE_COMMAND_FORCED))"
proof -
  obtain x c where x: "x \<in> set table" "map_of (childrenMap s) (getObject x) = Some c" "q = childQueue c"
    and e: "entry_command s w sub x = Some (cmd, mode, submode)" using table_command_origin[OF assms] by blast
  have h: "\<not> ht_hasHealth (healthTable w) (getObject x) \<Longrightarrow>
      \<not> ht_isFaulty (healthTable w) (getObject x) \<and> ht_isCommandable (healthTable w) (getObject x)"
    by (simp add: ht_hasHealth_def ht_isFaulty_def ht_isCommandable_def ht_getHealth_def state_isFaulty_def health_states)
  show ?thesis
    by (rule bexI[OF _ x(1)], rule exI[of _ c]) (use x(2,3) e h in \<open>auto simp: entry_command_def Let_def split: if_splits\<close>)
qed

lemma commands_respect_health_witness:
  "(2, CMD_MODE_COMMAND, MODE_OFF, SUBMODE_NONE) \<in> set (table_commands example_subsystem (example_world FAULTY) 0 [example_entry 5 7])
    \<and> ht_isFaulty (healthTable (example_world FAULTY)) 5"
proof -
  have f: "ht_isFaulty (healthTable (example_world FAULTY)) 5" "ht_hasHealth (healthTable (example_world FAULTY)) 5"
    by (simp_all add: example_world_def ht_isFaulty_def ht_getHealth_def state_isFaulty_def ht_hasHealth_def)
  have m: "(2, CMD_MODE_COMMAND, MODE_OFF, SUBMODE_NONE) \<in> set (table_commands example_subsystem (example_world FAULTY) 0 [example_entry 5 7])"
  proof -
    have "map_of (childrenMap example_subsystem) (getObject (example_entry 5 7))
        = Some \<lparr>childQueue = 2, childMode = 7, childSubmode = 0, healthChanged = False\<rparr>"
      by (simp add: example_subsystem_def example_entry_def getObject_def)
    moreover have "entry_command example_subsystem (example_world FAULTY) 0 (example_entry 5 7) = Some (CMD_MODE_COMMAND, MODE_OFF, SUBMODE_NONE)"
      using f by (simp add: entry_command_def Let_def example_entry_def getObject_def)
    ultimately show ?thesis by (simp add: table_commands_one MODE_OFF_def)
  qed
  show ?thesis using commands_respect_health[OF m] m f by (auto simp: example_entry_def getObject_def)
qed

text \<open>
  A forced mode command that is refused leaves the subsystem in force: the flag is set before the check and nothing takes
  it back, so that the next command, forced or not, is executed by force.
\<close>

theorem refused_force_stays:
  assumes "getCommand sys m = CMD_MODE_COMMAND_FORCED"
    and "fst (sub_checkModeCommand (msg_getMode sys m) (msg_getSubmode sys m) rawTime s w) \<noteq> RETURN_OK"
  shows "\<exists>w'. sb_dispatch sys (sub_ops sys raw) rawTime m s w = Some (s\<lparr>modeForced := True\<rparr>, w')"
proof -
  let ?o = "owner_ops.truncate (sub_ops sys raw)"
  have ids: "CMD_MODE_COMMAND_FORCED \<noteq> HEALTH_SET" "CMD_MODE_COMMAND_FORCED \<noteq> HEALTH_ANNOUNCE"
    by (simp_all add: message_ids)
  have h: "handleHealthCommand sys ?o m s w = (RETURN_FAILED, s, w)" using assms(1) ids by (simp add: handleHealthCommand_def)
  have "sub_checkModeCommand a b rawTime (s\<lparr>modeForced := True\<rparr>) w = sub_checkModeCommand a b rawTime s w" for a b
  proof -
    have "check_entries (s\<lparr>modeForced := True\<rparr>) xs = check_entries s xs" for xs
    proof (induction xs)
      case (Cons x xs)
      have "checkTable (s\<lparr>modeForced := True\<rparr>) t = checkTable s t" for t by (induction t) simp_all
      then show ?case using Cons by (simp add: getTable_def Let_def split: option.splits)
    qed simp
    then show ?thesis
      by (simp add: sub_checkModeCommand_def checkSequence_def getSequence_def checkSequence_iter_def existsModeSequence_def
          getFallbackSequence_def split: option.splits)
  qed
  note same = this
  obtain r t where ck: "sub_checkModeCommand (msg_getMode sys m) (msg_getSubmode sys m) rawTime s w = (r, t)" "r \<noteq> RETURN_OK"
    using assms(2) by (cases "sub_checkModeCommand (msg_getMode sys m) (msg_getSubmode sys m) rawTime s w") auto
  have "handleModeCommand sys ?o rawTime m s w = Some (RETURN_OK, s\<lparr>modeForced := True\<rparr>,
      snd (sw_send sys (getSender sys m) (setCantReachMode sys (newCommandMessage sys)
        (fst (sub_checkModeCommand (msg_getMode sys m) (msg_getSubmode sys m) rawTime s w))) (ownQueue s) w))"
    using assms(1) ck by (simp add: handleModeCommand_cases Let_def same)
  then show ?thesis using h by (simp add: sb_dispatch_def retcode)
qed

lemma refused_force_stays_witness:
  "\<exists>m w'. sb_dispatch LITTLE_ENDIAN (sub_ops LITTLE_ENDIAN (store_address_of_raw 0)) 0 m example_subsystem (example_world 1)
     = Some (example_subsystem\<lparr>modeForced := True\<rparr>, w')"
proof -
  let ?m = "setModeMessage LITTLE_ENDIAN (newCommandMessage LITTLE_ENDIAN) CMD_MODE_COMMAND_FORCED 3 0"
  have m: "getCommand LITTLE_ENDIAN ?m = CMD_MODE_COMMAND_FORCED" "msg_getMode LITTLE_ENDIAN ?m = 3" by simp_all
  have "\<not> isInTransition example_subsystem" by (simp add: example_subsystem_def)
  moreover have "checkSequence example_subsystem 3 \<noteq> RETURN_OK"
    using checkSequence_iff[OF example_maps(3), of 3] by (simp add: sub_sequences_def fm_abs_def)
  ultimately have "fst (sub_checkModeCommand 3 (msg_getSubmode LITTLE_ENDIAN ?m) 0 example_subsystem (example_world 1)) \<noteq> RETURN_OK"
    by (simp add: sub_checkModeCommand_def)
  then show ?thesis using refused_force_stays[OF m(1), of 0 example_subsystem "example_world 1" "store_address_of_raw 0"] m(2) by auto
qed

text \<open>
  C17. The check of the start-up succeeds exactly for complete configurations: every sequence has an existing fallback
  sequence and at least one table, every table it names exists, and the tables name children of the subsystem only.
\<close>

theorem configuration_checked:
  assumes "maps_ok s"
  shows "checkObjectConnections s = RETURN_OK \<longleftrightarrow> (\<forall>(q, info) \<in> set (fm_used (modeSequences s)).
      fallbackSequence info \<in> fst ` set (fm_used (modeSequences s)) \<and> al_abs (entryArray (seqEntries info)) \<noteq> []
    \<and> (\<forall>x \<in> set (al_abs (entryArray (seqEntries info))). \<exists>p. (getTableId x, p) \<in> set (fm_used (modeTables s))
         \<and> (\<forall>y \<in> set (al_abs (entryArray p)). getObject y \<in> fst ` set (childrenMap s))))"
proof -
  have d: "distinct (map fst (fm_used (modeSequences s)))" "distinct (map fst (fm_used (modeTables s)))"
    using assms by (simp_all add: maps_ok_def fm_inv_def)
  have k: "(map_of xs k \<noteq> None) = (k \<in> fst ` set xs)" for xs :: "('x \<times> 'y) list" and k
    by (simp add: map_of_eq_None_iff)
  show ?thesis
    by (auto simp: checkObjectConnections_iff[OF assms] sequence_complete_def children_known_def sub_sequences_def sub_tables_def
        fm_abs_def map_of_eq_Some_iff[OF d(1)] map_of_eq_Some_iff[OF d(2)] k simp del: not_None_eq) 
qed

lemma configuration_checked_witness:
  "checkObjectConnections example_subsystem = RETURN_OK \<and> fst ` set (fm_used (modeSequences example_subsystem)) = {1}"
proof -
  have "fst ` set (childrenMap example_subsystem) = {5}" by (simp add: example_subsystem_def)
  then show ?thesis
    using configuration_checked[OF example_maps(3)]
    by (simp add: example_list_def example_entry_def al_abs_def getTableId_def getObject_def)
qed

end
