(* ===== verification/Actions.thy ===== *)
theory Actions
  imports HealthModes
begin

text \<open>
  \<open>fsfw/action\<close>: the messages by which one object executes an action of another (\<open>ActionMessage.cpp\<close>), the
  helper of the object that executes (\<open>ActionHelper.cpp\<close>, \<open>SimpleActionHelper.cpp\<close>) and of the object that
  commands (\<open>CommandActionHelper.cpp\<close>). The state of an owner extends the record of its helper.
\<close>

subsection \<open>Messages\<close>

text \<open>Message type 4.\<close>

definition EXECUTE_ACTION :: u16 where "EXECUTE_ACTION = MAKE_COMMAND_ID 4 1"
definition STEP_SUCCESS :: u16 where "STEP_SUCCESS = MAKE_COMMAND_ID 4 2"
definition STEP_FAILED :: u16 where "STEP_FAILED = MAKE_COMMAND_ID 4 3"
definition DATA_REPLY :: u16 where "DATA_REPLY = MAKE_COMMAND_ID 4 4"
definition COMPLETION_SUCCESS :: u16 where "COMPLETION_SUCCESS = MAKE_COMMAND_ID 4 5"
definition COMPLETION_FAILED :: u16 where "COMPLETION_FAILED = MAKE_COMMAND_ID 4 6"

lemmas action_ids = EXECUTE_ACTION_def STEP_SUCCESS_def STEP_FAILED_def DATA_REPLY_def COMPLETION_SUCCESS_def
  COMPLETION_FAILED_def MAKE_COMMAND_ID_def

definition am_setCommand :: "byte_order \<Rightarrow> mq_message \<Rightarrow> u32 \<Rightarrow> store_address \<Rightarrow> mq_message" where
  "am_setCommand sys m fid parameters =
     setParameter2 sys (setParameter sys (setCommand sys m EXECUTE_ACTION) fid) (store_address_raw parameters)"

definition am_getActionId :: "byte_order \<Rightarrow> mq_message \<Rightarrow> u32" where
  "am_getActionId sys m = getParameter sys m"

definition am_getStoreId :: "byte_order \<Rightarrow> mq_message \<Rightarrow> store_address" where
  "am_getStoreId sys m = store_address_of_raw (getParameter2 sys m)"

definition setStepReply :: "byte_order \<Rightarrow> mq_message \<Rightarrow> u32 \<Rightarrow> u8 \<Rightarrow> u16 \<Rightarrow> mq_message" where
  "setStepReply sys m fid st result =
     setParameter2 sys (setParameter sys (setCommand sys m (if result = RETURN_OK then STEP_SUCCESS else STEP_FAILED)) fid)
       (push_bit 16 (ucast st) + ucast result)"

definition am_getStep :: "byte_order \<Rightarrow> mq_message \<Rightarrow> u8" where
  "am_getStep sys m = ucast (drop_bit 16 (getParameter2 sys m) AND 0xFF)"

definition am_getReturnCode :: "byte_order \<Rightarrow> mq_message \<Rightarrow> u16" where
  "am_getReturnCode sys m = ucast (getParameter2 sys m AND 0xFFFF)"

definition setDataReply :: "byte_order \<Rightarrow> mq_message \<Rightarrow> u32 \<Rightarrow> store_address \<Rightarrow> mq_message" where
  "setDataReply sys m actionId data =
     setParameter2 sys (setParameter sys (setCommand sys m DATA_REPLY) actionId) (store_address_raw data)"

definition setCompletionReply :: "byte_order \<Rightarrow> mq_message \<Rightarrow> u32 \<Rightarrow> u16 \<Rightarrow> mq_message" where
  "setCompletionReply sys m fid result =
     setParameter2 sys (setParameter sys (setCommand sys m (if result = RETURN_OK then COMPLETION_SUCCESS else COMPLETION_FAILED)) fid)
       (ucast result)"

text \<open>\<open>clear\<close> frees the data and leaves the message as it is; \<open>store\<close>: the IPC store, if the object manager knows it.\<close>

definition action_clear :: "byte_order \<Rightarrow> mq_message \<Rightarrow> local_pool option \<Rightarrow> local_pool option option" where
  "action_clear sys m store =
     (if getCommand sys m = EXECUTE_ACTION \<or> getCommand sys m = DATA_REPLY
      then (case store of
              None \<Rightarrow> Some None
            | Some lp \<Rightarrow> map_option (\<lambda>(_, lp'). Some lp') (deleteData lp (am_getStoreId sys m)))
      else Some store)"

definition IS_BUSY :: u16 where [retcode]: "IS_BUSY = MAKE_RETURN_CODE HAS_ACTIONS_IF 1"
definition INVALID_PARAMETERS :: u16 where [retcode]: "INVALID_PARAMETERS = MAKE_RETURN_CODE HAS_ACTIONS_IF 2"
definition EXECUTION_FINISHED :: u16 where [retcode]: "EXECUTION_FINISHED = MAKE_RETURN_CODE HAS_ACTIONS_IF 3"
definition INVALID_ACTION_ID :: u16 where [retcode]: "INVALID_ACTION_ID = MAKE_RETURN_CODE HAS_ACTIONS_IF 4"
definition OBJECT_HAS_NO_FUNCTIONS :: u16 where [retcode]: "OBJECT_HAS_NO_FUNCTIONS = MAKE_RETURN_CODE COMMANDS_ACTIONS_IF 1"
definition ALREADY_COMMANDING :: u16 where [retcode]: "ALREADY_COMMANDING = MAKE_RETURN_CODE COMMANDS_ACTIONS_IF 2"

text \<open>The IPC store of the world; \<open>None\<close> when a pointer would leave its block.\<close>

definition sw_getData :: "store_address \<Rightarrow> system_world \<Rightarrow> (u16 \<times> bytes) option" where
  "sw_getData a w =
     (case getData (ipcStore w) a of (r, d) \<Rightarrow> if r = RETURN_OK then map_option (Pair r) d else Some (r, []))"

definition sw_deleteData :: "store_address \<Rightarrow> system_world \<Rightarrow> system_world option" where
  "sw_deleteData a w = map_option (\<lambda>(_, lp). w\<lparr>ipcStore := lp\<rparr>) (deleteData (ipcStore w) a)"

text \<open>A serializable object: its size and its serializer. It is written into a free element.\<close>

type_synonym serializable = "nat \<times> (ostream \<Rightarrow> u64 \<Rightarrow> u16 \<times> ostream)"

definition sw_store_object :: "serializable \<Rightarrow> system_world \<Rightarrow> u16 \<times> u16 \<times> store_address \<times> system_world" where
  "sw_store_object el w =
     (case getFreeElement (ipcStore w) INVALID_ADDRESS (fst el) False of
        (r1, a, None, lp) \<Rightarrow> (r1, RETURN_FAILED, a, w\<lparr>ipcStore := lp\<rparr>)
      | (r1, a, Some ptr, lp) \<Rightarrow>
          (case snd el \<lparr>obytes = [], osize = 0\<rparr> (of_nat (fst el)) of
             (r2, out) \<Rightarrow> (r1, r2, a, w\<lparr>ipcStore := pool_put lp ptr (put_bytes (pool_mem lp ptr) 0 (obytes out))\<rparr>)))"

subsection \<open>\<open>ActionHelper\<close>\<close>

record action_helper =
  queueToUse :: u32

text \<open>The owner's \<open>executeAction\<close>: action, commander, data.\<close>

type_synonym 's execute_action = "u32 \<Rightarrow> u32 \<Rightarrow> bytes \<Rightarrow> 's \<Rightarrow> system_world \<Rightarrow> u16 \<times> 's \<times> system_world"

definition STEP_OFFSET :: u8 where "STEP_OFFSET = 1"

text \<open>\<open>handleActionMessage\<close> calls the virtual \<open>prepareExecution\<close>.\<close>

definition handleActionMessage ::
  "byte_order \<Rightarrow> (u32 \<Rightarrow> u32 \<Rightarrow> store_address \<Rightarrow> 's \<Rightarrow> system_world \<Rightarrow> ('s \<times> system_world) option) \<Rightarrow> mq_message
     \<Rightarrow> 's \<Rightarrow> system_world \<Rightarrow> (u16 \<times> 's \<times> system_world) option" where
  "handleActionMessage sys prepare command s w =
     (if getCommand sys command = EXECUTE_ACTION
      then map_option (Pair RETURN_OK)
        (prepare (getSender sys command) (am_getActionId sys command) (am_getStoreId sys command) s w)
      else Some (UNKNOWN_COMMAND, s, w))"

definition ah_initialize :: "bool \<Rightarrow> u32 option \<Rightarrow> 'a action_helper_scheme \<Rightarrow> u16 \<times> 'a action_helper_scheme" where
  "ah_initialize store queue s =
     (if \<not> store then (RETURN_FAILED, s)
      else (RETURN_OK, case queue of None \<Rightarrow> s | Some q \<Rightarrow> s\<lparr>queueToUse := q\<rparr>))"

definition ah_step :: "byte_order \<Rightarrow> u8 \<Rightarrow> u32 \<Rightarrow> u32 \<Rightarrow> u16 \<Rightarrow> 'a action_helper_scheme \<Rightarrow> system_world \<Rightarrow> system_world" where
  "ah_step sys st reportTo commandId result s w =
     snd (sw_send sys reportTo (setStepReply sys (newCommandMessage sys) commandId (st + STEP_OFFSET) result) (queueToUse s) w)"

definition ah_finish :: "byte_order \<Rightarrow> u32 \<Rightarrow> u32 \<Rightarrow> u16 \<Rightarrow> 'a action_helper_scheme \<Rightarrow> system_world \<Rightarrow> system_world" where
  "ah_finish sys reportTo commandId result s w =
     snd (sw_send sys reportTo (setCompletionReply sys (newCommandMessage sys) commandId result) (queueToUse s) w)"

definition ah_prepareExecution ::
  "byte_order \<Rightarrow> 'a action_helper_scheme execute_action \<Rightarrow> u32 \<Rightarrow> u32 \<Rightarrow> store_address \<Rightarrow> 'a action_helper_scheme \<Rightarrow> system_world
     \<Rightarrow> ('a action_helper_scheme \<times> system_world) option" where
  "ah_prepareExecution sys execute commandedBy actionId dataAddress s w =
     Option.bind (sw_getData dataAddress w) (\<lambda>(result, data).
       if result \<noteq> RETURN_OK
       then Some (s, snd (sw_send sys commandedBy (setStepReply sys (newCommandMessage sys) actionId 0 result) (queueToUse s) w))
       else (case execute actionId commandedBy data s w of
               (result2, s2, w2) \<Rightarrow>
                 map_option (\<lambda>w3.
                   let w4 = (if result2 = EXECUTION_FINISHED
                             then snd (sw_send sys commandedBy (setCompletionReply sys (newCommandMessage sys) actionId result2) (queueToUse s2) w3)
                             else w3)
                   in (s2, if result2 \<noteq> RETURN_OK
                           then snd (sw_send sys commandedBy (setStepReply sys (newCommandMessage sys) actionId 0 result2) (queueToUse s2) w4)
                           else w4))
                   (sw_deleteData dataAddress w2)))"

text \<open>The part of both \<open>reportData\<close> that sends the address; a hidden sender is no queue.\<close>

definition report_address ::
  "byte_order \<Rightarrow> u32 \<Rightarrow> u32 \<Rightarrow> store_address \<Rightarrow> bool \<Rightarrow> 'a action_helper_scheme \<Rightarrow> system_world \<Rightarrow> (u16 \<times> system_world) option" where
  "report_address sys reportTo replyId address hideSender s w =
     (case sw_send sys reportTo (setDataReply sys (newCommandMessage sys) replyId address) (if hideSender then NO_QUEUE else queueToUse s) w of
        (result, w1) \<Rightarrow>
          if result \<noteq> RETURN_OK then map_option (Pair result) (sw_deleteData address w1) else Some (result, w1))"

definition reportData ::
  "byte_order \<Rightarrow> u32 \<Rightarrow> u32 \<Rightarrow> serializable \<Rightarrow> bool \<Rightarrow> 'a action_helper_scheme \<Rightarrow> system_world \<Rightarrow> (u16 \<times> system_world) option" where
  "reportData sys reportTo replyId data hideSender s w =
     (if fst data = 0 then Some (RETURN_OK, w)
      else (case sw_store_object data w of
              (r1, r2, address, w1) \<Rightarrow>
                if r1 \<noteq> RETURN_OK then Some (r1, w1)
                else if r2 \<noteq> RETURN_OK then map_option (Pair r2) (sw_deleteData address w1)
                else report_address sys reportTo replyId address hideSender s w1))"

definition reportData_bytes ::
  "byte_order \<Rightarrow> u32 \<Rightarrow> u32 \<Rightarrow> bytes \<Rightarrow> bool \<Rightarrow> 'a action_helper_scheme \<Rightarrow> system_world \<Rightarrow> (u16 \<times> system_world) option" where
  "reportData_bytes sys reportTo replyId data hideSender s w =
     Option.bind (addData (ipcStore w) INVALID_ADDRESS data False) (\<lambda>(result, address, lp).
       if result \<noteq> RETURN_OK then Some (result, w\<lparr>ipcStore := lp\<rparr>)
       else report_address sys reportTo replyId address hideSender s (w\<lparr>ipcStore := lp\<rparr>))"

subsection \<open>\<open>SimpleActionHelper\<close>\<close>

record simple_action_helper = action_helper +
  isExecuting :: bool
  lastCommander :: u32
  lastAction :: u32
  stepCount :: u8

definition resetHelper :: "'a simple_action_helper_scheme \<Rightarrow> 'a simple_action_helper_scheme" where
  "resetHelper s = s\<lparr>stepCount := 0, isExecuting := False, lastAction := 0, lastCommander := 0\<rparr>"

text \<open>The step count is not advanced.\<close>

definition simple_step ::
  "byte_order \<Rightarrow> u16 \<Rightarrow> 'a simple_action_helper_scheme \<Rightarrow> system_world \<Rightarrow> 'a simple_action_helper_scheme \<times> system_world" where
  "simple_step sys result s w =
     (let w1 = ah_step sys (stepCount s - STEP_OFFSET) (lastCommander s) (lastAction s) result s w
      in (if result \<noteq> RETURN_OK then resetHelper s else s, w1))"

definition simple_finish ::
  "byte_order \<Rightarrow> u16 \<Rightarrow> 'a simple_action_helper_scheme \<Rightarrow> system_world \<Rightarrow> 'a simple_action_helper_scheme \<times> system_world" where
  "simple_finish sys result s w = (resetHelper s, ah_finish sys (lastCommander s) (lastAction s) result s w)"

definition simple_reportData ::
  "byte_order \<Rightarrow> serializable \<Rightarrow> 'a simple_action_helper_scheme \<Rightarrow> system_world \<Rightarrow> (u16 \<times> system_world) option" where
  "simple_reportData sys data s w = reportData sys (lastCommander s) (lastAction s) data False s w"

text \<open>A busy helper answers and goes on with the data it has deleted. One message is used for both answers.\<close>

definition simple_prepareExecution ::
  "byte_order \<Rightarrow> 'a simple_action_helper_scheme execute_action \<Rightarrow> u32 \<Rightarrow> u32 \<Rightarrow> store_address \<Rightarrow> 'a simple_action_helper_scheme
     \<Rightarrow> system_world \<Rightarrow> ('a simple_action_helper_scheme \<times> system_world) option" where
  "simple_prepareExecution sys execute commandedBy actionId dataAddress s w =
     Option.bind
       (if isExecuting s
        then map_option (\<lambda>w1. snd (sw_send_again sys commandedBy (setStepReply sys (newCommandMessage sys) actionId 0 IS_BUSY) (queueToUse s) w1))
               (sw_deleteData dataAddress w)
        else Some (newCommandMessage sys, w)) (\<lambda>(reply, w2).
     Option.bind (sw_getData dataAddress w2) (\<lambda>(result, data).
       if result \<noteq> RETURN_OK
       then Some (s, snd (sw_send sys commandedBy (setStepReply sys reply actionId 0 result) (queueToUse s) w2))
       else (case execute actionId commandedBy data (s\<lparr>lastCommander := commandedBy, lastAction := actionId\<rparr>) w2 of
               (result2, s3, w3) \<Rightarrow>
                 map_option (\<lambda>w4.
                   if result2 = RETURN_OK then (s3\<lparr>isExecuting := True, stepCount := stepCount s3 + 1\<rparr>, w4)
                   else if result2 = EXECUTION_FINISHED
                   then (s3, snd (sw_send sys commandedBy (setCompletionReply sys reply actionId RETURN_OK) (queueToUse s3) w4))
                   else (s3, snd (sw_send sys commandedBy (setStepReply sys reply actionId 0 result2) (queueToUse s3) w4)))
                   (sw_deleteData dataAddress w3))))"

subsection \<open>\<open>CommandActionHelper\<close>\<close>

record command_action_helper =
  cahQueue :: u32
  commandCount :: u8
  lastTarget :: u32

record 's commands_actions =
  completionSuccessfulReceived :: "u32 \<Rightarrow> 's \<Rightarrow> system_world \<Rightarrow> 's \<times> system_world"
  completionFailedReceived :: "u32 \<Rightarrow> u16 \<Rightarrow> 's \<Rightarrow> system_world \<Rightarrow> 's \<times> system_world"
  stepSuccessfulReceived :: "u32 \<Rightarrow> u8 \<Rightarrow> 's \<Rightarrow> system_world \<Rightarrow> 's \<times> system_world"
  stepFailedReceived :: "u32 \<Rightarrow> u8 \<Rightarrow> u16 \<Rightarrow> 's \<Rightarrow> system_world \<Rightarrow> 's \<times> system_world"
  dataReceived :: "u32 \<Rightarrow> bytes \<Rightarrow> 's \<Rightarrow> system_world \<Rightarrow> 's \<times> system_world"

text \<open>\<open>store\<close> and \<open>queue\<close>: the IPC store as the object manager knows it, the queue of the owner.\<close>

definition cah_initialize :: "bool \<Rightarrow> u32 option \<Rightarrow> 'a command_action_helper_scheme \<Rightarrow> u16 \<times> 'a command_action_helper_scheme" where
  "cah_initialize store queue s =
     (if \<not> store then (RETURN_FAILED, s)
      else (case queue of None \<Rightarrow> (RETURN_FAILED, s) | Some q \<Rightarrow> (RETURN_OK, s\<lparr>cahQueue := q\<rparr>)))"

definition cah_sendCommand ::
  "byte_order \<Rightarrow> u32 \<Rightarrow> u32 \<Rightarrow> store_address \<Rightarrow> 'a command_action_helper_scheme \<Rightarrow> system_world
     \<Rightarrow> (u16 \<times> 'a command_action_helper_scheme \<times> system_world) option" where
  "cah_sendCommand sys queueId actionId storeId s w =
     (case sw_send sys queueId (am_setCommand sys (newCommandMessage sys) actionId storeId) (cahQueue s) w of
        (result, w1) \<Rightarrow>
          map_option (\<lambda>w2. (result, s\<lparr>lastTarget := queueId, commandCount := commandCount s + 1\<rparr>, w2))
            (if result \<noteq> RETURN_OK then sw_deleteData storeId w1 else Some w1))"

text \<open>\<open>receiver\<close>: the command queue of the commanded object as the object manager knows it.\<close>

definition commandAction ::
  "byte_order \<Rightarrow> u32 option \<Rightarrow> u32 \<Rightarrow> serializable \<Rightarrow> 'a command_action_helper_scheme \<Rightarrow> system_world
     \<Rightarrow> (u16 \<times> 'a command_action_helper_scheme \<times> system_world) option" where
  "commandAction sys receiver actionId data s w =
     (case receiver of
        None \<Rightarrow> Some (OBJECT_HAS_NO_FUNCTIONS, s, w)
      | Some queueId \<Rightarrow>
          (case sw_store_object data w of
             (r1, r2, storeId, w1) \<Rightarrow>
               if r1 \<noteq> RETURN_OK then Some (r1, s, w1)
               else if r2 \<noteq> RETURN_OK then Some (r2, s, w1)
               else cah_sendCommand sys queueId actionId storeId s w1))"

definition commandAction_bytes ::
  "byte_order \<Rightarrow> u32 option \<Rightarrow> u32 \<Rightarrow> bytes \<Rightarrow> 'a command_action_helper_scheme \<Rightarrow> system_world
     \<Rightarrow> (u16 \<times> 'a command_action_helper_scheme \<times> system_world) option" where
  "commandAction_bytes sys receiver actionId data s w =
     (case receiver of
        None \<Rightarrow> Some (OBJECT_HAS_NO_FUNCTIONS, s, w)
      | Some queueId \<Rightarrow>
          Option.bind (addData (ipcStore w) INVALID_ADDRESS data False) (\<lambda>(result, storeId, lp).
            if result \<noteq> RETURN_OK then Some (result, s, w\<lparr>ipcStore := lp\<rparr>)
            else cah_sendCommand sys queueId actionId storeId s (w\<lparr>ipcStore := lp\<rparr>)))"

definition extractDataForOwner ::
  "'a command_action_helper_scheme commands_actions \<Rightarrow> u32 \<Rightarrow> store_address \<Rightarrow> 'a command_action_helper_scheme \<Rightarrow> system_world
     \<Rightarrow> ('a command_action_helper_scheme \<times> system_world) option" where
  "extractDataForOwner own actionId storeId s w =
     Option.bind (sw_getData storeId w) (\<lambda>(result, data).
       if result \<noteq> RETURN_OK then Some (s, w)
       else (case dataReceived own actionId data s w of (s1, w1) \<Rightarrow> map_option (Pair s1) (sw_deleteData storeId w1)))"

definition cah_handleReply ::
  "byte_order \<Rightarrow> 'a command_action_helper_scheme commands_actions \<Rightarrow> mq_message \<Rightarrow> 'a command_action_helper_scheme \<Rightarrow> system_world
     \<Rightarrow> (u16 \<times> 'a command_action_helper_scheme \<times> system_world) option" where
  "cah_handleReply sys own reply s w =
     (let c = getCommand sys reply; action = am_getActionId sys reply; counted = s\<lparr>commandCount := commandCount s - 1\<rparr> in
      if getSender sys reply \<noteq> lastTarget s then Some (RETURN_FAILED, s, w)
      else if c = COMPLETION_SUCCESS then Some (RETURN_OK, completionSuccessfulReceived own action counted w)
      else if c = COMPLETION_FAILED then Some (RETURN_OK, completionFailedReceived own action (am_getReturnCode sys reply) counted w)
      else if c = STEP_SUCCESS then Some (RETURN_OK, stepSuccessfulReceived own action (am_getStep sys reply) s w)
      else if c = STEP_FAILED
      then Some (RETURN_OK, stepFailedReceived own action (am_getStep sys reply) (am_getReturnCode sys reply) counted w)
      else if c = DATA_REPLY then map_option (Pair RETURN_OK) (extractDataForOwner own action (am_getStoreId sys reply) s w)
      else Some (RETURN_FAILED, s, w))"

subsection \<open>Messages and the store\<close>

lemma store_address_raw_round_trip [simp]:
  assumes "pool_index a < 65536" "packet_index a < 65536"
  shows "store_address_of_raw (store_address_raw a) = a"
proof -
  let ?n = "pool_index a + packet_index a * 65536"
  have raw: "store_address_raw a = of_nat ?n"
    by (simp add: store_address_raw_def push_bit_eq_mult)
  have n: "?n < 2 ^ 32" using assms by simp
  define W where "W = (of_nat ?n :: u32)"
  have "unat W = ?n" using n by (simp add: W_def unat_of_nat take_bit_eq_mod del: of_nat_add of_nat_mult)
  then have "unat (take_bit 16 W) = pool_index a" "unat (drop_bit 16 W) = packet_index a"
    using assms by (simp_all add: take_bit_eq_mod drop_bit_eq_div unat_mod_distrib unat_div_distrib)
  then show ?thesis unfolding raw store_address_of_raw_def W_def[symmetric] by simp
qed

lemma action_message_fields [simp]:
  assumes "message_inv m"
  shows "message_inv (am_setCommand sys m fid a)" "getCommand sys (am_setCommand sys m fid a) = EXECUTE_ACTION"
    "am_getActionId sys (am_setCommand sys m fid a) = fid"
    "getCommand sys (setStepReply sys m fid st r) = (if r = RETURN_OK then STEP_SUCCESS else STEP_FAILED)"
    "message_inv (setStepReply sys m fid st r)" "message_inv (setCompletionReply sys m fid r)" "message_inv (setDataReply sys m fid a)"
    "getCommand sys (setCompletionReply sys m fid r) = (if r = RETURN_OK then COMPLETION_SUCCESS else COMPLETION_FAILED)"
    "am_getActionId sys (setStepReply sys m fid st r) = fid" "am_getActionId sys (setCompletionReply sys m fid r) = fid"
  using assms by (simp_all add: am_setCommand_def am_getActionId_def setStepReply_def setCompletionReply_def setDataReply_def)

lemma step_reply_round_trip:
  assumes "message_inv m"
  shows "am_getStep sys (setStepReply sys m fid st r) = st" "am_getReturnCode sys (setStepReply sys m fid st r) = r"
proof -
  have disj: "push_bit 16 (ucast st) + ucast r = (push_bit 16 (ucast st) OR ucast r :: u32)"
    by (rule disjunctive_add) (auto simp: bit_simps dest: bit_imp_le_length)
  have m: "(0xFF :: u32) = mask 8" "(0xFFFF :: u32) = mask 16" by (simp_all add: mask_eq_exp_minus_1)
  have "ucast (drop_bit 16 (push_bit 16 (ucast st) OR ucast r :: u32) AND 0xFF) = st"
    unfolding m by (rule bit_word_eqI) (auto simp: bit_simps dest: bit_imp_le_length)
  moreover have "ucast ((push_bit 16 (ucast st) OR ucast r :: u32) AND 0xFFFF) = r"
    unfolding m by (rule bit_word_eqI) (auto simp: bit_simps)
  ultimately show "am_getStep sys (setStepReply sys m fid st r) = st" "am_getReturnCode sys (setStepReply sys m fid st r) = r"
    using assms by (simp_all add: am_getStep_def am_getReturnCode_def setStepReply_def disj)
qed

subsection \<open>Sending\<close>

definition command_sized :: "mq_message \<Rightarrow> bool" where
  "command_sized m \<longleftrightarrow> message_inv m \<and> messageSize m = DEFAULT_COMMAND_MESSAGE_SIZE"

lemma command_sized_simps [simp]:
  "command_sized (newCommandMessage sys)" "command_sized (newCommandMessage_params sys c p1 p2)"
  "command_sized m \<Longrightarrow> command_sized (setCommand sys m c)" "command_sized m \<Longrightarrow> command_sized (setParameter sys m p)"
  "command_sized m \<Longrightarrow> command_sized (setParameter2 sys m p)" "command_sized m \<Longrightarrow> command_sized (setSender sys m i)"
  by (auto simp: command_sized_def newCommandMessage_params_def)
    (simp_all add: newCommandMessage_def cmd_defs setSender_def)

lemma command_sized_actions [simp]:
  "command_sized m \<Longrightarrow> command_sized (setStepReply sys m fid st r)" "command_sized m \<Longrightarrow> command_sized (setCompletionReply sys m fid r)"
  "command_sized m \<Longrightarrow> command_sized (am_setCommand sys m fid a)"
  by (simp_all add: setStepReply_def setCompletionReply_def am_setCommand_def)

lemma command_sized_inv: "command_sized m \<Longrightarrow> message_inv m"
  by (simp add: command_sized_def)

text \<open>Messages added to a queue with room for them.\<close>

definition queue_added :: "queue_map \<Rightarrow> u32 \<Rightarrow> mq_message list \<Rightarrow> queue_map" where
  "queue_added qm q ms = (case queueMap qm q of
       None \<Rightarrow> qm | Some t \<Rightarrow> qm\<lparr>queueMap := (queueMap qm)(q \<mapsto> t\<lparr>messageQueue := messageQueue t @ ms\<rparr>)\<rparr>)"

definition room_for :: "queue_map \<Rightarrow> u32 \<Rightarrow> nat \<Rightarrow> bool" where
  "room_for qm q n \<longleftrightarrow> (\<exists>t. queueMap qm q = Some t \<and> length (messageQueue t) + n \<le> messageDepth t)"

lemma room_added: "room_for qm q (length ms + n) \<Longrightarrow> room_for (queue_added qm q ms) q n"
  by (auto simp: room_for_def queue_added_def)

lemma queue_added_append: "queue_added (queue_added qm q ms) q ms' = queue_added qm q (ms @ ms')"
  by (simp add: queue_added_def split: option.splits)

lemma queue_added_content: "room_for qm q 0 \<Longrightarrow> queue_content (queue_added qm q ms) q = queue_content qm q @ ms"
  by (auto simp: queue_content_def queue_added_def room_for_def)

lemma send_again_room:
  assumes "room_for (swQueues w) q 1" "command_sized m"
  shows "sw_send_again sys q m src w = (RETURN_OK, setSender sys m src, w\<lparr>swQueues := queue_added (swQueues w) q [m]\<rparr>)"
  using assms
  by (auto simp: sw_send_again_def sendMessageFromMessageQueue_def room_for_def host_push_def queue_added_def command_sized_def
      DEFAULT_COMMAND_MESSAGE_SIZE_def MINIMUM_COMMAND_MESSAGE_SIZE_def CMD_HEADER_SIZE_def mq_sizes)

lemma send_room:
  assumes "room_for (swQueues w) q 1" "command_sized m"
  shows "sw_send sys q m src w = (RETURN_OK, w\<lparr>swQueues := queue_added (swQueues w) q [m]\<rparr>)"
  using send_again_room[OF assms] by (simp add: sw_send_def)

lemma sw_getData_ok:
  assumes "pool_ok (ipcStore w)"
  shows "sw_getData a w = (case pool_abs (ipcStore w) a of Some d \<Rightarrow> Some (RETURN_OK, d)
     | None \<Rightarrow> Some (if valid_address (ipcStore w) a then DATA_DOES_NOT_EXIST else ILLEGAL_STORAGE_ID, []))"
  using assms getData_abs[of "ipcStore w" a] by (auto simp: sw_getData_def pool_ok_def retcode split: option.splits)

lemma sw_deleteData_ok:
  assumes "pool_ok (ipcStore w)" "pool_abs (ipcStore w) a \<noteq> None"
  shows "\<exists>lp. sw_deleteData a w = Some (w\<lparr>ipcStore := lp\<rparr>) \<and> pool_ok lp \<and> pool_abs lp = (pool_abs (ipcStore w))(a := None)
     \<and> valid_address lp a"
proof -
  obtain lp where d: "deleteData (ipcStore w) a = Some (RETURN_OK, lp)" "pool_ok lp" "pool_abs lp = (pool_abs (ipcStore w))(a := None)"
    using pool_ok_delete[OF assms] by blast
  have "valid_address (ipcStore w) a" using assms(2) by (auto simp: pool_abs_def split: if_splits)
  then have "valid_address lp a" using deleteData_config[OF d(1)] by (simp add: valid_address_def)
  then show ?thesis using d by (intro exI[of _ lp]) (simp add: sw_deleteData_def)
qed

subsection \<open>Properties\<close>

text \<open>A store with one packet and a queue, for the witnesses.\<close>

definition sample_address :: store_address where "sample_address = \<lparr>pool_index = 0, packet_index = 0\<rparr>"

definition action_store :: local_pool where
  "action_store = \<lparr>element_sizes = [4], n_elements = [2], pool_store = [[1, 2, 0, 0, 0, 0, 0, 0]], size_list = [[2, STORAGE_FREE]],
     spillsToHigherPools = False, reporter = False, storeFullReports = 0\<rparr>"

definition action_world :: system_world where
  "action_world = \<lparr>swQueues = \<lparr>queueMap = [3 \<mapsto> newHostQueue 3 5 28], queueCounter = 4\<rparr>, ipcStore = action_store,
     healthTable = newHealthTable, events = [], clock = (\<lambda>_. 0), clockReads = 0\<rparr>"

lemma action_world_ok [simp]:
  "pool_ok (ipcStore action_world)" "pool_abs (ipcStore action_world) sample_address = Some [1, 2]" "room_for (swQueues action_world) 3 2"
  by (auto simp: pool_ok_def pool_inv_def action_world_def action_store_def less_2_cases_iff pool_abs_def valid_address_def slot_size_def
      sample_address_def getRawPosition_def mem_read_def STORAGE_FREE_def room_for_def newHostQueue_def)

text \<open>
  C20. An action that says it is finished is reported to its commander as failed, twice: the code for the end of the execution
  goes into the completion reply, which makes it a completion failure, and a step failure follows.
\<close>

theorem finished_action_reported_failed:
  assumes "pool_ok (ipcStore w)" "pool_abs (ipcStore w) a = Some data" "room_for (swQueues w) q 2"
    and "execute action q data s w = (EXECUTION_FINISHED, s2, w)"
  shows "\<exists>w' completion st. ah_prepareExecution sys execute q action a s w = Some (s2, w')
     \<and> queue_content (swQueues w') q = queue_content (swQueues w) q @ [completion, st]
     \<and> getCommand sys completion = COMPLETION_FAILED \<and> am_getActionId sys completion = action
     \<and> getCommand sys st = STEP_FAILED \<and> am_getActionId sys st = action \<and> am_getReturnCode sys st = EXECUTION_FINISHED"
proof -
  have f: "EXECUTION_FINISHED \<noteq> RETURN_OK" by (simp add: retcode)
  obtain lp where d: "sw_deleteData a w = Some (w\<lparr>ipcStore := lp\<rparr>)" using sw_deleteData_ok[OF assms(1), of a] assms(2) by auto
  let ?m1 = "setCompletionReply sys (newCommandMessage sys) action EXECUTION_FINISHED"
  let ?m2 = "setStepReply sys (newCommandMessage sys) action 0 EXECUTION_FINISHED"
  let ?w1 = "w\<lparr>ipcStore := lp, swQueues := queue_added (swQueues w) q [?m1]\<rparr>"
  have r1: "room_for (swQueues w) q 1" "room_for (swQueues w) q 0" using assms(3) by (auto simp: room_for_def)
  have r2: "room_for (swQueues ?w1) q 1" using room_added[of "swQueues w" q "[?m1]" 1] assms(3) by (simp add: numeral_2_eq_2)
  have s1: "sw_send sys q ?m1 (queueToUse s2) (w\<lparr>ipcStore := lp\<rparr>) = (RETURN_OK, ?w1)"
    using send_room[of "w\<lparr>ipcStore := lp\<rparr>" q ?m1] r1 by simp
  have s2: "sw_send sys q ?m2 (queueToUse s2) ?w1 = (RETURN_OK, ?w1\<lparr>swQueues := queue_added (swQueues w) q [?m1, ?m2]\<rparr>)"
    using send_room[OF r2, of ?m2] by (simp add: queue_added_append)
  have "ah_prepareExecution sys execute q action a s w = Some (s2, ?w1\<lparr>swQueues := queue_added (swQueues w) q [?m1, ?m2]\<rparr>)"
    using sw_getData_ok[OF assms(1), of a] assms(2,4) d s1 s2 f by (simp add: ah_prepareExecution_def)
  moreover have "message_inv (newCommandMessage sys)" by (rule command_sized_inv) simp
  ultimately show ?thesis using f r1 step_reply_round_trip by (simp add: queue_added_content)
qed

lemma finished_action_reported_failed_witness:
  "\<exists>s2 w' completion st. ah_prepareExecution LITTLE_ENDIAN (\<lambda>_ _ _ s w. (EXECUTION_FINISHED, s, w)) 3 7 sample_address \<lparr>queueToUse = 1\<rparr> action_world
     = Some (s2, w') \<and> queue_content (swQueues w') 3 = queue_content (swQueues action_world) 3 @ [completion, st]
     \<and> getCommand LITTLE_ENDIAN completion = COMPLETION_FAILED"
  using finished_action_reported_failed[OF action_world_ok, where execute="\<lambda>_ _ _ s w. (EXECUTION_FINISHED, s, w)" and action=7
      and s="\<lparr>queueToUse = 1\<rparr>" and sys=LITTLE_ENDIAN] by blast

text \<open>
  A simple helper that is busy does not execute a second action and stays as it is, but it answers the command twice:
  first that it is busy, then that the data, which it has just deleted, does not exist.
\<close>

theorem busy_helper_answers_twice:
  assumes "pool_ok (ipcStore w)" "pool_abs (ipcStore w) a = Some data" "room_for (swQueues w) q 2" "isExecuting s"
  shows "\<exists>w' m1 m2. simple_prepareExecution sys execute q action a s w = Some (s, w')
     \<and> queue_content (swQueues w') q = queue_content (swQueues w) q @ [m1, m2]
     \<and> pool_abs (ipcStore w') = (pool_abs (ipcStore w))(a := None)
     \<and> getCommand sys m1 = STEP_FAILED \<and> am_getReturnCode sys m1 = IS_BUSY
     \<and> getCommand sys m2 = STEP_FAILED \<and> am_getReturnCode sys m2 = DATA_DOES_NOT_EXIST"
proof -
  have f: "IS_BUSY \<noteq> RETURN_OK" "DATA_DOES_NOT_EXIST \<noteq> RETURN_OK" by (simp_all add: retcode)
  obtain lp where d: "sw_deleteData a w = Some (w\<lparr>ipcStore := lp\<rparr>)" "pool_ok lp" "pool_abs lp = (pool_abs (ipcStore w))(a := None)"
      "valid_address lp a"
    using sw_deleteData_ok[OF assms(1), of a] assms(2) by auto
  let ?m1 = "setStepReply sys (newCommandMessage sys) action 0 IS_BUSY"
  let ?m2 = "setStepReply sys (setSender sys ?m1 (queueToUse s)) action 0 DATA_DOES_NOT_EXIST"
  let ?w1 = "w\<lparr>ipcStore := lp, swQueues := queue_added (swQueues w) q [?m1]\<rparr>"
  have r1: "room_for (swQueues w) q 1" "room_for (swQueues w) q 0" using assms(3) by (auto simp: room_for_def)
  have r2: "room_for (swQueues ?w1) q 1" using room_added[of "swQueues w" q "[?m1]" 1] assms(3) by (simp add: numeral_2_eq_2)
  have s1: "sw_send_again sys q ?m1 (queueToUse s) (w\<lparr>ipcStore := lp\<rparr>) = (RETURN_OK, setSender sys ?m1 (queueToUse s), ?w1)"
    using send_again_room[of "w\<lparr>ipcStore := lp\<rparr>" q ?m1] r1 by simp
  have g: "sw_getData a ?w1 = Some (DATA_DOES_NOT_EXIST, [])" using sw_getData_ok[of ?w1 a] d by simp
  have s2: "sw_send sys q ?m2 (queueToUse s) ?w1 = (RETURN_OK, ?w1\<lparr>swQueues := queue_added (swQueues w) q [?m1, ?m2]\<rparr>)"
    using send_room[OF r2, of ?m2] by (simp add: queue_added_append)
  have "simple_prepareExecution sys execute q action a s w = Some (s, ?w1\<lparr>swQueues := queue_added (swQueues w) q [?m1, ?m2]\<rparr>)"
    using assms(4) d s1 g s2 f by (simp add: simple_prepareExecution_def)
  moreover have "message_inv (newCommandMessage sys)" "message_inv (setSender sys ?m1 (queueToUse s))"
    by (rule command_sized_inv, simp)+
  ultimately show ?thesis using f r1 d(3) step_reply_round_trip by (simp add: queue_added_content)
qed

lemma busy_helper_answers_twice_witness:
  "\<exists>w' m1 m2. simple_prepareExecution LITTLE_ENDIAN (\<lambda>_ _ _ s w. (RETURN_OK, s, w)) 3 7 sample_address
       \<lparr>queueToUse = 1, isExecuting = True, lastCommander = 3, lastAction = 6, stepCount = 1\<rparr> action_world
     = Some (\<lparr>queueToUse = 1, isExecuting = True, lastCommander = 3, lastAction = 6, stepCount = 1\<rparr>, w')
     \<and> queue_content (swQueues w') 3 = queue_content (swQueues action_world) 3 @ [m1, m2]"
  using busy_helper_answers_twice[OF action_world_ok,
      where s="\<lparr>queueToUse = 1, isExecuting = True, lastCommander = 3, lastAction = 6, stepCount = 1\<rparr>"
        and execute="\<lambda>_ _ _ s w. (RETURN_OK, s, w)" and action=7 and sys=LITTLE_ENDIAN] by auto

text \<open>
  C18. An action commanded through the IPC store is executed with exactly the data it was commanded with, and the store is
  afterwards what it was before; but the executing object does not learn who commanded it.
\<close>

theorem action_delivered:
  assumes "pool_ok (ipcStore w)" "NUMBER_OF_POOLS (ipcStore w) < 65536" "length data < 2 ^ 32"
    and "queueMap (swQueues w) q = Some t" "host_queue_inv t" "messageQueue t = []" "0 < messageDepth t"
    and "commandAction_bytes sys (Some q) action data s w = Some (RETURN_OK, s', w1)"
  shows "\<exists>qm m. queue_receive sys (swQueues w1) q (newCommandMessage sys) = Some (RETURN_OK, qm, m)
     \<and> (\<forall>execute r r2 w2. execute action NO_QUEUE data r (w1\<lparr>swQueues := qm\<rparr>) = (RETURN_OK, r2, w2) \<and> ipcStore w2 = ipcStore w1 \<longrightarrow>
          (\<exists>w3. handleActionMessage sys (ah_prepareExecution sys execute) m r (w1\<lparr>swQueues := qm\<rparr>) = Some (RETURN_OK, r2, w3)
             \<and> pool_abs (ipcStore w3) = pool_abs (ipcStore w) \<and> swQueues w3 = swQueues w2))"
proof -
  obtain st a lp where add: "addData (ipcStore w) INVALID_ADDRESS data False = Some (st, a, lp)" and inv: "pool_inv lp"
    and ab: "st = RETURN_OK \<Longrightarrow> pool_abs (ipcStore w) a = None \<and> pool_abs lp = (pool_abs (ipcStore w))(a \<mapsto> data)"
    using addData_spec[of "ipcStore w" data INVALID_ADDRESS False] assms(1,3) by (auto simp: pool_ok_def split: if_splits)
  have st: "st = RETURN_OK" using assms(8) add by (auto simp: commandAction_bytes_def split: if_splits)
  note ab = ab[OF st]
  let ?m = "am_setCommand sys (newCommandMessage sys) action a"
  have room: "room_for (swQueues w) q 1" using assms(4,6,7) by (simp add: room_for_def)
  have w1: "w1 = w\<lparr>ipcStore := lp, swQueues := queue_added (swQueues w) q [?m]\<rparr>"
    using assms(8) add st send_room[of "w\<lparr>ipcStore := lp\<rparr>" q ?m] room by (simp add: commandAction_bytes_def cah_sendCommand_def)
  have okl: "pool_ok lp" using assms(1) inv addData_config[OF add] by (simp add: pool_ok_def)
  have "pool_abs lp a = Some data" using ab by simp
  then have "valid_address lp a" by (simp add: pool_abs_def split: if_splits)
  then have small: "pool_index a < 65536" "packet_index a < 65536"
    using assms(2) addData_config[OF add] inv by (auto simp: valid_address_def pool_inv_def intro: less_trans)
  let ?t = "t\<lparr>messageQueue := [?m]\<rparr>" and ?m' = "(newCommandMessage sys)\<lparr>internalBuffer := internalBuffer ?m\<rparr>"
  have q1: "queueMap (swQueues w1) q = Some ?t" using assms(4,6) by (simp add: w1 queue_added_def)
  have tinv: "host_queue_inv ?t" using assms(5,7) by (simp add: host_queue_inv_def Suc_le_eq)
  obtain qm where rc: "queue_receive sys (swQueues w1) q (newCommandMessage sys) = Some (RETURN_OK, qm, ?m')"
    using receive_front[OF tinv, of ?m "[]" "newCommandMessage sys" sys] q1 by (simp add: queue_receive_def)
  have "getCommand sys ?m' = getCommand sys ?m" "am_getActionId sys ?m' = am_getActionId sys ?m"
    "am_getStoreId sys ?m' = am_getStoreId sys ?m" "getSender sys ?m' = getSender sys ?m"
    by (simp_all add: getCommand_def am_getActionId_def am_getStoreId_def getParameter_def getParameter2_def getSender_def)
  then have f: "getCommand sys ?m' = EXECUTE_ACTION" "am_getActionId sys ?m' = action" "am_getStoreId sys ?m' = a" "getSender sys ?m' = NO_QUEUE"
    using small newCommandMessage_sender(2)[of sys] by (simp_all add: am_getActionId_def am_getStoreId_def am_setCommand_def NO_QUEUE_def)
  have g: "sw_getData a (w1\<lparr>swQueues := qm\<rparr>) = Some (RETURN_OK, data)"
    using sw_getData_ok[of "w1\<lparr>swQueues := qm\<rparr>" a] okl ab by (simp add: w1)
  have "\<exists>w3. handleActionMessage sys (ah_prepareExecution sys execute) ?m' r (w1\<lparr>swQueues := qm\<rparr>) = Some (RETURN_OK, r2, w3)
      \<and> pool_abs (ipcStore w3) = pool_abs (ipcStore w) \<and> swQueues w3 = swQueues w2"
    if e: "execute action NO_QUEUE data r (w1\<lparr>swQueues := qm\<rparr>) = (RETURN_OK, r2, w2)" "ipcStore w2 = ipcStore w1" for execute r r2 w2
  proof -
    obtain lp2 where d: "sw_deleteData a w2 = Some (w2\<lparr>ipcStore := lp2\<rparr>)" "pool_abs lp2 = (pool_abs lp)(a := None)"
      using sw_deleteData_ok[of w2 a] okl ab e(2) by (auto simp: w1)
    have fin: "RETURN_OK \<noteq> EXECUTION_FINISHED" by (simp add: retcode)
    have "pool_abs lp2 = pool_abs (ipcStore w)" using d(2) ab by auto
    then show ?thesis using f g e(1) d(1) fin by (simp add: handleActionMessage_def ah_prepareExecution_def)
  qed
  then show ?thesis using rc by blast
qed

lemma action_delivered_witness:
  "\<exists>s' w1 qm m. commandAction_bytes LITTLE_ENDIAN (Some 3) 7 [5, 6] \<lparr>cahQueue = 1, commandCount = 0, lastTarget = 0\<rparr> action_world
       = Some (RETURN_OK, s', w1)
     \<and> queue_receive LITTLE_ENDIAN (swQueues w1) 3 (newCommandMessage LITTLE_ENDIAN) = Some (RETURN_OK, qm, m)"
proof -
  let ?s = "\<lparr>cahQueue = 1, commandCount = 0, lastTarget = 0\<rparr>"
  have t: "queueMap (swQueues action_world) 3 = Some (newHostQueue 3 5 28)" by (simp add: action_world_def)
  have n: "NUMBER_OF_POOLS (ipcStore action_world) < 65536" by (simp add: action_world_def action_store_def)
  have i: "host_queue_inv (newHostQueue 3 5 28)" by (simp add: host_queue_inv_def newHostQueue_def mq_sizes)
  obtain lp a where "addData (ipcStore action_world) INVALID_ADDRESS [5, 6] False = Some (RETURN_OK, a, lp)"
    by (simp add: action_world_def action_store_def addData_def reserveSpace_def getPoolIndex_def scan_index.simps findEmpty_def
        spill_loop.simps pool_write_def mem_copy_def getRawPosition_def STORAGE_FREE_def Let_def)
  moreover have "room_for (swQueues action_world) 3 1" by (simp add: action_world_def room_for_def newHostQueue_def)
  ultimately obtain s' w1 where c: "commandAction_bytes LITTLE_ENDIAN (Some 3) 7 [5, 6] ?s action_world = Some (RETURN_OK, s', w1)"
    using send_room[of "action_world\<lparr>ipcStore := lp\<rparr>" 3 "am_setCommand LITTLE_ENDIAN (newCommandMessage LITTLE_ENDIAN) 7 a"]
    by (simp add: commandAction_bytes_def cah_sendCommand_def)
  show ?thesis
    using action_delivered[OF action_world_ok(1) n _ t i _ _ c] c by (auto simp: newHostQueue_def)
qed

end
