(* ===== verification/MessageTypes.thy ===== *)
theory MessageTypes
  imports Actions Subsystem
begin

text \<open>
  The remaining message classes of the framework (\<open>DeviceHandlerMessage.cpp\<close>, \<open>TmStoreMessage.cpp\<close>,
  \<open>MonitoringMessage.cpp\<close>, \<open>MemoryMessage.cpp\<close>, \<open>ParameterMessage.cpp\<close>) and the cleaner of messages
  (\<open>ipc/CommandMessageCleaner.cpp\<close>), which frees the data a message carries. The \<open>clear\<close> functions take the
  IPC store if the object manager knows it and are \<open>None\<close> where the store would leave its memory.
\<close>

subsection \<open>Messages that carry a store address\<close>

definition address_of_parameter2 :: "byte_order \<Rightarrow> mq_message \<Rightarrow> store_address" where
  "address_of_parameter2 sys m = store_address_of_raw (getParameter2 sys m)"

definition delete_carried :: "local_pool option \<Rightarrow> store_address \<Rightarrow> local_pool option option" where
  "delete_carried store a = (case store of None \<Rightarrow> Some None | Some lp \<Rightarrow> map_option (\<lambda>(_, lp'). Some lp') (deleteData lp a))"

definition emptied :: "byte_order \<Rightarrow> u16 \<Rightarrow> mq_message \<Rightarrow> mq_message" where
  "emptied sys c m = setParameter2 sys (setParameter sys (setCommand sys m c) 0) 0"

subsection \<open>Device handlers\<close>

definition CMD_RAW :: u16 where "CMD_RAW = MAKE_COMMAND_ID 6 1"
definition CMD_SWITCH_IOBOARD :: u16 where "CMD_SWITCH_IOBOARD = MAKE_COMMAND_ID 6 3"
definition CMD_WIRETAPPING :: u16 where "CMD_WIRETAPPING = MAKE_COMMAND_ID 6 4"
definition REPLY_DIRECT_COMMAND_SENT :: u16 where "REPLY_DIRECT_COMMAND_SENT = STEP_SUCCESS"
definition REPLY_RAW_COMMAND :: u16 where "REPLY_RAW_COMMAND = MAKE_COMMAND_ID 6 0x11"
definition REPLY_RAW_REPLY :: u16 where "REPLY_RAW_REPLY = MAKE_COMMAND_ID 6 0x12"
definition REPLY_DIRECT_COMMAND_DATA :: u16 where "REPLY_DIRECT_COMMAND_DATA = DATA_REPLY"

definition dhm_getStoreAddress :: "byte_order \<Rightarrow> mq_message \<Rightarrow> store_address" where
  "dhm_getStoreAddress sys m = address_of_parameter2 sys m"

definition getDeviceCommandId :: "byte_order \<Rightarrow> mq_message \<Rightarrow> u32" where "getDeviceCommandId sys m = getParameter sys m"
definition getIoBoardObjectId :: "byte_order \<Rightarrow> mq_message \<Rightarrow> u32" where "getIoBoardObjectId sys m = getParameter sys m"
definition getWiretappingMode :: "byte_order \<Rightarrow> mq_message \<Rightarrow> u8" where "getWiretappingMode sys m = ucast (getParameter sys m)"
definition getDeviceObjectId :: "byte_order \<Rightarrow> mq_message \<Rightarrow> u32" where "getDeviceObjectId sys m = getParameter sys m"

definition setDeviceHandlerRawCommandMessage :: "byte_order \<Rightarrow> mq_message \<Rightarrow> store_address \<Rightarrow> mq_message" where
  "setDeviceHandlerRawCommandMessage sys m a = setParameter2 sys (setCommand sys m CMD_RAW) (store_address_raw a)"

definition setDeviceHandlerWiretappingMessage :: "byte_order \<Rightarrow> mq_message \<Rightarrow> u8 \<Rightarrow> mq_message" where
  "setDeviceHandlerWiretappingMessage sys m mode = setParameter sys (setCommand sys m CMD_WIRETAPPING) (ucast mode)"

definition setDeviceHandlerSwitchIoBoardMessage :: "byte_order \<Rightarrow> mq_message \<Rightarrow> u32 \<Rightarrow> mq_message" where
  "setDeviceHandlerSwitchIoBoardMessage sys m board = setParameter sys (setCommand sys m CMD_SWITCH_IOBOARD) board"

definition setDeviceHandlerRawReplyMessage :: "byte_order \<Rightarrow> mq_message \<Rightarrow> u32 \<Rightarrow> store_address \<Rightarrow> bool \<Rightarrow> mq_message" where
  "setDeviceHandlerRawReplyMessage sys m device a isCommand =
     setParameter2 sys (setParameter sys (setCommand sys m (if isCommand then REPLY_RAW_COMMAND else REPLY_RAW_REPLY)) device)
       (store_address_raw a)"

definition setDeviceHandlerDirectCommandReply :: "byte_order \<Rightarrow> mq_message \<Rightarrow> u32 \<Rightarrow> store_address \<Rightarrow> mq_message" where
  "setDeviceHandlerDirectCommandReply sys m device a =
     setParameter2 sys (setParameter sys (setCommand sys m REPLY_DIRECT_COMMAND_DATA) device) (store_address_raw a)"

definition device_clear :: "byte_order \<Rightarrow> mq_message \<Rightarrow> local_pool option \<Rightarrow> (mq_message \<times> local_pool option) option" where
  "device_clear sys m store =
     (let c = getCommand sys m in
      if c \<in> {CMD_RAW, REPLY_RAW_COMMAND, REPLY_RAW_REPLY, REPLY_DIRECT_COMMAND_DATA}
      then map_option (Pair (emptied sys CMD_NONE m)) (delete_carried store (dhm_getStoreAddress sys m))
      else if c \<in> {CMD_SWITCH_IOBOARD, CMD_WIRETAPPING} then Some (emptied sys CMD_NONE m, store)
      else Some (m, store))"

subsection \<open>Telemetry stores\<close>

record apid_ssc =
  asApid :: u16
  asSsc :: u16

definition newApidSsc :: apid_ssc where "newApidSsc = \<lparr>asApid = 2048, asSsc = 0\<rparr>"

definition as_serialize :: "byte_order \<Rightarrow> apid_ssc \<Rightarrow> ostream \<Rightarrow> u64 \<Rightarrow> endianness \<Rightarrow> u16 \<times> ostream" where
  "as_serialize sys x s m e =
     (case SA_serialize_word sys (asApid x) s m e of (r1, s1) \<Rightarrow>
        if r1 \<noteq> RETURN_OK then (r1, s1) else SA_serialize_word sys (asSsc x) s1 m e)"

definition as_getSerializedSize :: "apid_ssc \<Rightarrow> nat" where "as_getSerializedSize x = 2 + 2"

definition as_deSerialize :: "byte_order \<Rightarrow> apid_ssc \<Rightarrow> bytes \<Rightarrow> endianness \<Rightarrow> u16 \<times> apid_ssc \<times> bytes" where
  "as_deSerialize sys old inp e =
     (case SA_deSerialize_word sys inp e of (r1, v1, i1) \<Rightarrow>
        if r1 \<noteq> RETURN_OK then (r1, old, i1)
        else (case SA_deSerialize_word sys i1 e of (r2, v2, i2) \<Rightarrow>
               (r2, case v2 of None \<Rightarrow> old\<lparr>asApid := the v1\<rparr> | Some v \<Rightarrow> old\<lparr>asApid := the v1, asSsc := v\<rparr>, i2)))"

definition ENABLE_STORING :: u16 where "ENABLE_STORING = MAKE_COMMAND_ID 5 1"
definition DELETE_STORE_CONTENT :: u16 where "DELETE_STORE_CONTENT = MAKE_COMMAND_ID 5 2"
definition DOWNLINK_STORE_CONTENT :: u16 where "DOWNLINK_STORE_CONTENT = MAKE_COMMAND_ID 5 3"
definition CHANGE_SELECTION_DEFINITION :: u16 where "CHANGE_SELECTION_DEFINITION = MAKE_COMMAND_ID 5 4"
definition REPORT_SELECTION_DEFINITION :: u16 where "REPORT_SELECTION_DEFINITION = MAKE_COMMAND_ID 5 5"
definition SELECTION_DEFINITION_REPORT :: u16 where "SELECTION_DEFINITION_REPORT = MAKE_COMMAND_ID 5 6"
definition REPORT_STORE_CATALOGUE :: u16 where "REPORT_STORE_CATALOGUE = MAKE_COMMAND_ID 5 7"
definition STORE_CATALOGUE_REPORT :: u16 where "STORE_CATALOGUE_REPORT = MAKE_COMMAND_ID 5 8"
definition DOWNLINK_STORE_CONTENT_TIME :: u16 where "DOWNLINK_STORE_CONTENT_TIME = MAKE_COMMAND_ID 5 9"
definition DELETE_STORE_CONTENT_TIME :: u16 where "DELETE_STORE_CONTENT_TIME = MAKE_COMMAND_ID 5 10"
definition DELETE_STORE_CONTENT_BLOCKS :: u16 where "DELETE_STORE_CONTENT_BLOCKS = MAKE_COMMAND_ID 5 11"
definition DOWNLINK_STORE_CONTENT_BLOCKS :: u16 where "DOWNLINK_STORE_CONTENT_BLOCKS = MAKE_COMMAND_ID 5 12"
definition REPORT_INDEX_REQUEST :: u16 where "REPORT_INDEX_REQUEST = MAKE_COMMAND_ID 5 13"
definition INDEX_REPORT :: u16 where "INDEX_REPORT = MAKE_COMMAND_ID 5 14"

text \<open>A packet id in one parameter.\<close>

definition pack_apid_ssc :: "apid_ssc \<Rightarrow> u32" where
  "pack_apid_ssc x = push_bit 16 (ucast (asApid x)) + ucast (asSsc x)"

definition unpack_apid_ssc :: "u32 \<Rightarrow> apid_ssc" where
  "unpack_apid_ssc v = \<lparr>asApid = ucast (drop_bit 16 v AND 0xFFFF), asSsc = ucast (v AND 0xFFFF)\<rparr>"

definition setEnableStoringMessage :: "byte_order \<Rightarrow> mq_message \<Rightarrow> bool \<Rightarrow> mq_message" where
  "setEnableStoringMessage sys m enabled = setParameter sys (setCommand sys m ENABLE_STORING) (if enabled then 1 else 0)"

definition setDeleteContentMessage :: "byte_order \<Rightarrow> mq_message \<Rightarrow> apid_ssc \<Rightarrow> mq_message" where
  "setDeleteContentMessage sys m upTo = setParameter sys (setCommand sys m DELETE_STORE_CONTENT) (pack_apid_ssc upTo)"

definition setDownlinkContentMessage :: "byte_order \<Rightarrow> mq_message \<Rightarrow> apid_ssc \<Rightarrow> apid_ssc \<Rightarrow> mq_message" where
  "setDownlinkContentMessage sys m fromPacket toPacket =
     setParameter2 sys (setParameter sys (setCommand sys m DOWNLINK_STORE_CONTENT) (pack_apid_ssc fromPacket)) (pack_apid_ssc toPacket)"

definition getPacketId1 :: "byte_order \<Rightarrow> mq_message \<Rightarrow> apid_ssc" where "getPacketId1 sys m = unpack_apid_ssc (getParameter sys m)"
definition getPacketId2 :: "byte_order \<Rightarrow> mq_message \<Rightarrow> apid_ssc" where "getPacketId2 sys m = unpack_apid_ssc (getParameter2 sys m)"
definition getEnableStoring :: "byte_order \<Rightarrow> mq_message \<Rightarrow> bool" where "getEnableStoring sys m \<longleftrightarrow> getParameter sys m \<noteq> 0"

definition setChangeSelectionDefinitionMessage :: "byte_order \<Rightarrow> mq_message \<Rightarrow> bool \<Rightarrow> store_address \<Rightarrow> mq_message" where
  "setChangeSelectionDefinitionMessage sys m addDefinition a =
     setParameter2 sys (setParameter sys (setCommand sys m CHANGE_SELECTION_DEFINITION) (if addDefinition then 1 else 0)) (store_address_raw a)"

definition tsm_getStoreId :: "byte_order \<Rightarrow> mq_message \<Rightarrow> store_address" where "tsm_getStoreId sys m = address_of_parameter2 sys m"
definition getAddToSelection :: "byte_order \<Rightarrow> mq_message \<Rightarrow> bool" where "getAddToSelection sys m \<longleftrightarrow> getParameter sys m \<noteq> 0"
definition setReportSelectionDefinitionMessage :: "byte_order \<Rightarrow> mq_message \<Rightarrow> mq_message" where
  "setReportSelectionDefinitionMessage sys m = setCommand sys m REPORT_SELECTION_DEFINITION"
definition setSelectionDefinitionReportMessage :: "byte_order \<Rightarrow> mq_message \<Rightarrow> store_address \<Rightarrow> mq_message" where
  "setSelectionDefinitionReportMessage sys m a = setParameter2 sys (setCommand sys m SELECTION_DEFINITION_REPORT) (store_address_raw a)"
definition setReportStoreCatalogueMessage :: "byte_order \<Rightarrow> mq_message \<Rightarrow> mq_message" where
  "setReportStoreCatalogueMessage sys m = setCommand sys m REPORT_STORE_CATALOGUE"
definition setStoreCatalogueReportMessage :: "byte_order \<Rightarrow> mq_message \<Rightarrow> u32 \<Rightarrow> store_address \<Rightarrow> mq_message" where
  "setStoreCatalogueReportMessage sys m object a =
     setParameter2 sys (setParameter sys (setCommand sys m STORE_CATALOGUE_REPORT) object) (store_address_raw a)"
definition tsm_getObjectId :: "byte_order \<Rightarrow> mq_message \<Rightarrow> u32" where "tsm_getObjectId sys m = getParameter sys m"
definition setDownlinkContentTimeMessage :: "byte_order \<Rightarrow> mq_message \<Rightarrow> store_address \<Rightarrow> mq_message" where
  "setDownlinkContentTimeMessage sys m a = setParameter2 sys (setCommand sys m DOWNLINK_STORE_CONTENT_TIME) (store_address_raw a)"
definition getAddressLow :: "byte_order \<Rightarrow> mq_message \<Rightarrow> u32" where "getAddressLow sys m = getParameter sys m"
definition getAddressHigh :: "byte_order \<Rightarrow> mq_message \<Rightarrow> u32" where "getAddressHigh sys m = getParameter2 sys m"
definition setDeleteContentTimeMessage :: "byte_order \<Rightarrow> mq_message \<Rightarrow> store_address \<Rightarrow> mq_message" where
  "setDeleteContentTimeMessage sys m a = setParameter2 sys (setCommand sys m DELETE_STORE_CONTENT_TIME) (store_address_raw a)"
definition setDeleteBlocksMessage :: "byte_order \<Rightarrow> mq_message \<Rightarrow> u32 \<Rightarrow> u32 \<Rightarrow> mq_message" where
  "setDeleteBlocksMessage sys m low high = setParameter2 sys (setParameter sys (setCommand sys m DELETE_STORE_CONTENT_BLOCKS) low) high"
definition setDownlinkBlocksMessage :: "byte_order \<Rightarrow> mq_message \<Rightarrow> u32 \<Rightarrow> u32 \<Rightarrow> mq_message" where
  "setDownlinkBlocksMessage sys m low high = setParameter2 sys (setParameter sys (setCommand sys m DOWNLINK_STORE_CONTENT_BLOCKS) low) high"
definition setIndexRequestMessage :: "byte_order \<Rightarrow> mq_message \<Rightarrow> mq_message" where
  "setIndexRequestMessage sys m = setCommand sys m REPORT_INDEX_REQUEST"
definition setIndexReportMessage :: "byte_order \<Rightarrow> mq_message \<Rightarrow> store_address \<Rightarrow> mq_message" where
  "setIndexReportMessage sys m a = setParameter2 sys (setCommand sys m INDEX_REPORT) (store_address_raw a)"

text \<open>The command becomes the return code \<open>UNKNOWN_COMMAND\<close>.\<close>

definition tm_store_clear :: "byte_order \<Rightarrow> mq_message \<Rightarrow> local_pool option \<Rightarrow> (mq_message \<times> local_pool option) option" where
  "tm_store_clear sys m store =
     (let c = getCommand sys m in
      if c \<in> {SELECTION_DEFINITION_REPORT, STORE_CATALOGUE_REPORT, CHANGE_SELECTION_DEFINITION, INDEX_REPORT,
              DELETE_STORE_CONTENT_TIME, DOWNLINK_STORE_CONTENT_TIME}
      then map_option (Pair (emptied sys UNKNOWN_COMMAND m)) (delete_carried store (tsm_getStoreId sys m))
      else if c \<in> {DELETE_STORE_CONTENT_BLOCKS, DOWNLINK_STORE_CONTENT_BLOCKS, REPORT_INDEX_REQUEST}
      then Some (emptied sys UNKNOWN_COMMAND m, store)
      else Some (m, store))"

subsection \<open>Monitoring\<close>

definition LIMIT_VIOLATION_REPORT :: u16 where "LIMIT_VIOLATION_REPORT = MAKE_COMMAND_ID 7 10"

definition setTypicalMessage :: "byte_order \<Rightarrow> mq_message \<Rightarrow> u16 \<Rightarrow> store_address \<Rightarrow> mq_message" where
  "setTypicalMessage sys m type a = setParameter2 sys (setCommand sys m type) (store_address_raw a)"

definition setLimitViolationReport :: "byte_order \<Rightarrow> mq_message \<Rightarrow> store_address \<Rightarrow> mq_message" where
  "setLimitViolationReport sys m a = setTypicalMessage sys m LIMIT_VIOLATION_REPORT a"

definition mon_getStoreId :: "byte_order \<Rightarrow> mq_message \<Rightarrow> store_address" where "mon_getStoreId sys m = address_of_parameter2 sys m"

text \<open>The command is erased before it is looked at.\<close>

definition monitoring_clear :: "byte_order \<Rightarrow> mq_message \<Rightarrow> local_pool option \<Rightarrow> (mq_message \<times> local_pool option) option" where
  "monitoring_clear sys m store =
     (let m' = setCommand sys m CMD_NONE in
      if getCommand sys m' = LIMIT_VIOLATION_REPORT then map_option (Pair m') (delete_carried store (mon_getStoreId sys m'))
      else Some (m', store))"

subsection \<open>Memory\<close>

definition CMD_MEMORY_LOAD :: u16 where "CMD_MEMORY_LOAD = MAKE_COMMAND_ID 8 0x01"
definition CMD_MEMORY_DUMP :: u16 where "CMD_MEMORY_DUMP = MAKE_COMMAND_ID 8 0x02"
definition CMD_MEMORY_CHECK :: u16 where "CMD_MEMORY_CHECK = MAKE_COMMAND_ID 8 0x03"
definition REPLY_MEMORY_DUMP :: u16 where "REPLY_MEMORY_DUMP = MAKE_COMMAND_ID 8 0x10"
definition REPLY_MEMORY_CHECK :: u16 where "REPLY_MEMORY_CHECK = MAKE_COMMAND_ID 8 0x30"
definition REPLY_MEMORY_FAILED :: u16 where "REPLY_MEMORY_FAILED = MAKE_COMMAND_ID 8 0xE0"
definition END_OF_MEMORY_COPY :: u16 where "END_OF_MEMORY_COPY = MAKE_COMMAND_ID 8 0xF0"

definition mem_getAddress :: "byte_order \<Rightarrow> mq_message \<Rightarrow> u32" where "mem_getAddress sys m = getParameter sys m"
definition mem_getStoreID :: "byte_order \<Rightarrow> mq_message \<Rightarrow> store_address" where "mem_getStoreID sys m = address_of_parameter2 sys m"
definition mem_getLength :: "byte_order \<Rightarrow> mq_message \<Rightarrow> u32" where "mem_getLength sys m = getParameter2 sys m"
definition mem_getErrorCode :: "byte_order \<Rightarrow> mq_message \<Rightarrow> u16" where "mem_getErrorCode sys m = ucast (getParameter sys m)"
definition mem_getCrc :: "byte_order \<Rightarrow> mq_message \<Rightarrow> u16" where "mem_getCrc sys m = ucast (getParameter sys m)"
definition getCrcReturnValue :: "byte_order \<Rightarrow> mq_message \<Rightarrow> u16" where
  "getCrcReturnValue sys m = ucast (drop_bit 16 (getParameter sys m))"
definition getInitialCommand :: "byte_order \<Rightarrow> mq_message \<Rightarrow> u16" where "getInitialCommand sys m = ucast (getParameter2 sys m)"

definition setMemoryDumpCommand :: "byte_order \<Rightarrow> mq_message \<Rightarrow> u32 \<Rightarrow> u32 \<Rightarrow> mq_message" where
  "setMemoryDumpCommand sys m address len = setParameter2 sys (setParameter sys (setCommand sys m CMD_MEMORY_DUMP) address) len"
definition setMemoryDumpReply :: "byte_order \<Rightarrow> mq_message \<Rightarrow> store_address \<Rightarrow> mq_message" where
  "setMemoryDumpReply sys m a = setParameter2 sys (setCommand sys m REPLY_MEMORY_DUMP) (store_address_raw a)"
definition setMemoryLoadCommand :: "byte_order \<Rightarrow> mq_message \<Rightarrow> u32 \<Rightarrow> store_address \<Rightarrow> mq_message" where
  "setMemoryLoadCommand sys m address a = setParameter2 sys (setParameter sys (setCommand sys m CMD_MEMORY_LOAD) address) (store_address_raw a)"
definition setMemoryCheckCommand :: "byte_order \<Rightarrow> mq_message \<Rightarrow> u32 \<Rightarrow> u32 \<Rightarrow> mq_message" where
  "setMemoryCheckCommand sys m address len = setParameter2 sys (setParameter sys (setCommand sys m CMD_MEMORY_CHECK) address) len"
definition setMemoryCheckReply :: "byte_order \<Rightarrow> mq_message \<Rightarrow> u16 \<Rightarrow> mq_message" where
  "setMemoryCheckReply sys m crc = setParameter sys (setCommand sys m REPLY_MEMORY_CHECK) (ucast crc)"
definition setMemoryReplyFailed :: "byte_order \<Rightarrow> mq_message \<Rightarrow> u16 \<Rightarrow> u16 \<Rightarrow> mq_message" where
  "setMemoryReplyFailed sys m errorCode initialCommand =
     setParameter2 sys (setParameter sys (setCommand sys m REPLY_MEMORY_FAILED) (ucast errorCode)) (ucast initialCommand)"
definition setMemoryCopyEnd :: "byte_order \<Rightarrow> mq_message \<Rightarrow> mq_message" where
  "setMemoryCopyEnd sys m = emptied sys END_OF_MEMORY_COPY m"

text \<open>The return value replaces the checksum.\<close>

definition setCrcReturnValue :: "byte_order \<Rightarrow> mq_message \<Rightarrow> u16 \<Rightarrow> mq_message" where
  "setCrcReturnValue sys m returnValue = setParameter sys m (push_bit 16 (ucast returnValue))"

definition memory_clear :: "byte_order \<Rightarrow> mq_message \<Rightarrow> local_pool option \<Rightarrow> (mq_message \<times> local_pool option) option" where
  "memory_clear sys m store =
     (let c = getCommand sys m in
      if c = CMD_MEMORY_LOAD \<or> c = REPLY_MEMORY_DUMP
      then map_option (Pair (emptied sys CMD_NONE m)) (delete_carried store (mem_getStoreID sys m))
      else if c \<in> {CMD_MEMORY_DUMP, CMD_MEMORY_CHECK, REPLY_MEMORY_CHECK, END_OF_MEMORY_COPY}
      then Some (emptied sys CMD_NONE m, store)
      else Some (m, store))"

subsection \<open>Parameters\<close>

definition CMD_PARAMETER_LOAD :: u16 where "CMD_PARAMETER_LOAD = MAKE_COMMAND_ID 9 0x01"
definition CMD_PARAMETER_DUMP :: u16 where "CMD_PARAMETER_DUMP = MAKE_COMMAND_ID 9 0x02"
definition REPLY_PARAMETER_DUMP :: u16 where "REPLY_PARAMETER_DUMP = MAKE_COMMAND_ID 9 0x03"

definition INVALID_MATRIX_ID :: u16 where [retcode]: "INVALID_MATRIX_ID = MAKE_RETURN_CODE HAS_PARAMETERS_IF 1"
definition INVALID_DOMAIN_ID :: u16 where [retcode]: "INVALID_DOMAIN_ID = MAKE_RETURN_CODE HAS_PARAMETERS_IF 2"
definition INVALID_VALUE :: u16 where [retcode]: "INVALID_VALUE = MAKE_RETURN_CODE HAS_PARAMETERS_IF 3"
definition READ_ONLY :: u16 where [retcode]: "READ_ONLY = MAKE_RETURN_CODE HAS_PARAMETERS_IF 5"

definition getDomain :: "u32 \<Rightarrow> u8" where "getDomain parameter = ucast (drop_bit 24 parameter)"
definition getMatrixId :: "u32 \<Rightarrow> u16" where "getMatrixId parameter = ucast (drop_bit 8 parameter)"
definition getIndex :: "u32 \<Rightarrow> u8" where "getIndex parameter = ucast parameter"
definition getFullParameterId :: "u8 \<Rightarrow> u16 \<Rightarrow> u8 \<Rightarrow> u32" where
  "getFullParameterId domainId parameterId index = push_bit 24 (ucast domainId) + push_bit 8 (ucast parameterId) + ucast index"

definition getParameterId :: "byte_order \<Rightarrow> mq_message \<Rightarrow> u32" where "getParameterId sys m = getParameter sys m"
definition par_getStoreId :: "byte_order \<Rightarrow> mq_message \<Rightarrow> store_address" where "par_getStoreId sys m = address_of_parameter2 sys m"
definition setParameterDumpCommand :: "byte_order \<Rightarrow> mq_message \<Rightarrow> u32 \<Rightarrow> mq_message" where
  "setParameterDumpCommand sys m p = setParameter sys (setCommand sys m CMD_PARAMETER_DUMP) p"
definition setParameterDumpReply :: "byte_order \<Rightarrow> mq_message \<Rightarrow> u32 \<Rightarrow> store_address \<Rightarrow> mq_message" where
  "setParameterDumpReply sys m p a = setParameter2 sys (setParameter sys (setCommand sys m REPLY_PARAMETER_DUMP) p) (store_address_raw a)"
definition setParameterLoadCommand :: "byte_order \<Rightarrow> mq_message \<Rightarrow> u32 \<Rightarrow> store_address \<Rightarrow> mq_message" where
  "setParameterLoadCommand sys m p a = setParameter2 sys (setParameter sys (setCommand sys m CMD_PARAMETER_LOAD) p) (store_address_raw a)"

definition parameter_clear :: "byte_order \<Rightarrow> mq_message \<Rightarrow> local_pool option \<Rightarrow> (mq_message \<times> local_pool option) option" where
  "parameter_clear sys m store =
     (let c = getCommand sys m in
      if c = CMD_PARAMETER_LOAD \<or> c = REPLY_PARAMETER_DUMP then map_option (Pair m) (delete_carried store (par_getStoreId sys m))
      else Some (m, store))"

subsection \<open>The cleaner\<close>

text \<open>The mission has no message types of its own.\<close>

definition clearMissionMessage :: "byte_order \<Rightarrow> mq_message \<Rightarrow> mq_message" where
  "clearMissionMessage sys m = setCommand sys m CMD_NONE"

definition clearCommandMessage :: "byte_order \<Rightarrow> mq_message \<Rightarrow> local_pool option \<Rightarrow> (mq_message \<times> local_pool option) option" where
  "clearCommandMessage sys m store =
     (let t = getMessageType sys m in
      if t = 1 then Some (mode_clear sys m, store)
      else if t = 2 then Some (health_clear sys m, store)
      else if t = 3 then mode_sequence_clear sys m store
      else if t = 4 then map_option (Pair m) (action_clear sys m store)
      else if t = 6 then device_clear sys m store
      else if t = 8 then memory_clear sys m store
      else if t = 7 then monitoring_clear sys m store
      else if t = 5 then tm_store_clear sys m store
      else if t = 9 then parameter_clear sys m store
      else Some (clearMissionMessage sys m, store))"

text \<open>\<open>setToUnknownCommand\<close> with the store of the world.\<close>

definition sw_setToUnknownCommand :: "byte_order \<Rightarrow> mq_message \<Rightarrow> system_world \<Rightarrow> (mq_message \<times> system_world) option" where
  "sw_setToUnknownCommand sys m w =
     map_option (\<lambda>(m', store). (setToUnknownCommand sys (\<lambda>_. m') m, w\<lparr>ipcStore := the store\<rparr>))
       (clearCommandMessage sys m (Some (ipcStore w)))"

subsection \<open>What the cleaner frees\<close>

text \<open>The commands whose data the cleaner deletes, whatever the message type.\<close>

definition carries_data :: "u16 \<Rightarrow> bool" where
  "carries_data c \<longleftrightarrow>
     c \<in> {ADD_SEQUENCE, ADD_TABLE, SEQUENCE_LIST, TABLE_LIST, TABLE_MSG, SEQUENCE_MSG} \<or>
     c \<in> {EXECUTE_ACTION, DATA_REPLY} \<or> c \<in> {CMD_RAW, REPLY_RAW_COMMAND, REPLY_RAW_REPLY} \<or>
     c \<in> {SELECTION_DEFINITION_REPORT, STORE_CATALOGUE_REPORT, CHANGE_SELECTION_DEFINITION, INDEX_REPORT,
              DELETE_STORE_CONTENT_TIME, DOWNLINK_STORE_CONTENT_TIME} \<or>
     c \<in> {CMD_MEMORY_LOAD, REPLY_MEMORY_DUMP} \<or> c \<in> {CMD_PARAMETER_LOAD, REPLY_PARAMETER_DUMP}"

definition message_type :: "u16 \<Rightarrow> u8" where
  "message_type c = ucast (drop_bit 8 c AND 0xff)"

lemma getMessageType_type: "getMessageType sys m = message_type (getCommand sys m)"
  by (simp add: getMessageType_def message_type_def)

lemmas carrier_ids = ADD_SEQUENCE_def ADD_TABLE_def SEQUENCE_LIST_def TABLE_LIST_def TABLE_MSG_def SEQUENCE_MSG_def
  EXECUTE_ACTION_def DATA_REPLY_def CMD_RAW_def REPLY_RAW_COMMAND_def REPLY_RAW_REPLY_def REPLY_DIRECT_COMMAND_DATA_def
  SELECTION_DEFINITION_REPORT_def STORE_CATALOGUE_REPORT_def CHANGE_SELECTION_DEFINITION_def INDEX_REPORT_def
  DELETE_STORE_CONTENT_TIME_def DOWNLINK_STORE_CONTENT_TIME_def CMD_MEMORY_LOAD_def REPLY_MEMORY_DUMP_def
  CMD_PARAMETER_LOAD_def REPLY_PARAMETER_DUMP_def LIMIT_VIOLATION_REPORT_def MAKE_COMMAND_ID_def

lemma carrier_types:
  "c \<in> {ADD_SEQUENCE, ADD_TABLE, SEQUENCE_LIST, TABLE_LIST, TABLE_MSG, SEQUENCE_MSG} \<Longrightarrow> message_type c = 3"
  "c \<in> {EXECUTE_ACTION, DATA_REPLY} \<Longrightarrow> message_type c = 4"
  "c \<in> {CMD_RAW, REPLY_RAW_COMMAND, REPLY_RAW_REPLY} \<Longrightarrow> message_type c = 6"
  "c \<in> {SELECTION_DEFINITION_REPORT, STORE_CATALOGUE_REPORT, CHANGE_SELECTION_DEFINITION, INDEX_REPORT,
        DELETE_STORE_CONTENT_TIME, DOWNLINK_STORE_CONTENT_TIME} \<Longrightarrow> message_type c = 5"
  "c \<in> {CMD_MEMORY_LOAD, REPLY_MEMORY_DUMP} \<Longrightarrow> message_type c = 8"
  "c \<in> {CMD_PARAMETER_LOAD, REPLY_PARAMETER_DUMP} \<Longrightarrow> message_type c = 9"
  by (auto simp: message_type_def carrier_ids)

text \<open>A direct command reply has the type of an action, so its case in the device handler's \<open>clear\<close> is never reached.\<close>

lemma direct_reply_type: "message_type c = 6 \<Longrightarrow> c \<noteq> REPLY_DIRECT_COMMAND_DATA"
  by (auto simp: message_type_def carrier_ids)

lemma limit_report_empty: "CMD_NONE \<noteq> LIMIT_VIOLATION_REPORT"
  by (simp add: CMD_NONE_def carrier_ids)

lemma deletes_carried:
  assumes "pool_ok lp"
  obtains lp' where "\<exists>st. deleteData lp a = Some (st, lp')" "delete_carried (Some lp) a = Some (Some lp')" "pool_ok lp'"
    "pool_abs lp' = (pool_abs lp)(a := None)"
  using pool_ok_deletes[OF assms, of a] by (auto simp: delete_carried_def)

text \<open>Sequences carry the address in the first parameter, everything else in the second.\<close>

definition carried_address :: "byte_order \<Rightarrow> mq_message \<Rightarrow> store_address" where
  "carried_address sys m =
     (if message_type (getCommand sys m) = 3 then msg_getStoreAddress sys m else address_of_parameter2 sys m)"

lemma clear_functions_free:
  "getCommand sys m \<in> {ADD_SEQUENCE, ADD_TABLE, SEQUENCE_LIST, TABLE_LIST, TABLE_MSG, SEQUENCE_MSG} \<Longrightarrow>
     \<exists>m'. mode_sequence_clear sys m store = map_option (Pair m') (delete_carried store (msg_getStoreAddress sys m))"
  "getCommand sys m \<in> {EXECUTE_ACTION, DATA_REPLY} \<Longrightarrow>
     action_clear sys m store = delete_carried store (address_of_parameter2 sys m)"
  "getCommand sys m \<in> {CMD_RAW, REPLY_RAW_COMMAND, REPLY_RAW_REPLY} \<Longrightarrow>
     \<exists>m'. device_clear sys m store = map_option (Pair m') (delete_carried store (address_of_parameter2 sys m))"
  "getCommand sys m \<in> {SELECTION_DEFINITION_REPORT, STORE_CATALOGUE_REPORT, CHANGE_SELECTION_DEFINITION, INDEX_REPORT,
        DELETE_STORE_CONTENT_TIME, DOWNLINK_STORE_CONTENT_TIME} \<Longrightarrow>
     \<exists>m'. tm_store_clear sys m store = map_option (Pair m') (delete_carried store (address_of_parameter2 sys m))"
  "getCommand sys m \<in> {CMD_MEMORY_LOAD, REPLY_MEMORY_DUMP} \<Longrightarrow>
     \<exists>m'. memory_clear sys m store = map_option (Pair m') (delete_carried store (address_of_parameter2 sys m))"
  "getCommand sys m \<in> {CMD_PARAMETER_LOAD, REPLY_PARAMETER_DUMP} \<Longrightarrow>
     \<exists>m'. parameter_clear sys m store = map_option (Pair m') (delete_carried store (address_of_parameter2 sys m))"
proof (goal_cases)
  case 1 then show ?case
    by (intro exI[of _ "setParameter2 sys (setParameter sys (setCommand sys m CMD_NONE) 0) 0"], cases store)
       (simp_all add: mode_sequence_clear_def delete_carried_def option.map_comp comp_def split_def)
next
  case 2 then show ?case by (auto simp: action_clear_def delete_carried_def address_of_parameter2_def am_getStoreId_def split: option.splits)
next
  case 3 then show ?case by (intro exI[of _ "emptied sys CMD_NONE m"]) (auto simp add: device_clear_def Let_def dhm_getStoreAddress_def)
next
  case 4 then show ?case by (intro exI[of _ "emptied sys UNKNOWN_COMMAND m"]) (auto simp add: tm_store_clear_def Let_def tsm_getStoreId_def)
next
  case 5 then show ?case by (intro exI[of _ "emptied sys CMD_NONE m"]) (auto simp add: memory_clear_def Let_def mem_getStoreID_def)
next
  case 6 then show ?case by (intro exI[of _ m]) (auto simp add: parameter_clear_def Let_def par_getStoreId_def)
qed

lemma clear_functions_keep:
  "getCommand sys m \<notin> {ADD_SEQUENCE, ADD_TABLE, SEQUENCE_LIST, TABLE_LIST, TABLE_MSG, SEQUENCE_MSG} \<Longrightarrow>
     \<exists>m'. mode_sequence_clear sys m store = Some (m', store)"
  "getCommand sys m \<notin> {EXECUTE_ACTION, DATA_REPLY} \<Longrightarrow> action_clear sys m store = Some store"
  "getCommand sys m \<notin> {CMD_RAW, REPLY_RAW_COMMAND, REPLY_RAW_REPLY} \<Longrightarrow> getCommand sys m \<noteq> REPLY_DIRECT_COMMAND_DATA \<Longrightarrow>
     \<exists>m'. device_clear sys m store = Some (m', store)"
  "getCommand sys m \<notin> {SELECTION_DEFINITION_REPORT, STORE_CATALOGUE_REPORT, CHANGE_SELECTION_DEFINITION, INDEX_REPORT,
        DELETE_STORE_CONTENT_TIME, DOWNLINK_STORE_CONTENT_TIME} \<Longrightarrow>
     \<exists>m'. tm_store_clear sys m store = Some (m', store)"
  "getCommand sys m \<notin> {CMD_MEMORY_LOAD, REPLY_MEMORY_DUMP} \<Longrightarrow> \<exists>m'. memory_clear sys m store = Some (m', store)"
  "getCommand sys m \<notin> {CMD_PARAMETER_LOAD, REPLY_PARAMETER_DUMP} \<Longrightarrow> \<exists>m'. parameter_clear sys m store = Some (m', store)"
  "message_inv m \<Longrightarrow> \<exists>m'. monitoring_clear sys m store = Some (m', store)"
proof (goal_cases)
  case 1 then show ?case by (simp add: mode_sequence_clear_def)
next
  case 2 then show ?case by (simp add: action_clear_def)
next
  case 3 then show ?case by (simp add: device_clear_def Let_def)
next
  case 4 then show ?case by (simp add: tm_store_clear_def Let_def)
next
  case 5 then show ?case by (simp add: memory_clear_def Let_def)
next
  case 6 then show ?case by (simp add: parameter_clear_def Let_def)
next
  case 7 then show ?case by (simp add: monitoring_clear_def Let_def limit_report_empty)
qed

lemma clear_carrier:
  assumes "carries_data (getCommand sys m)" "delete_carried (Some lp) (carried_address sys m) = Some (Some lp')"
  shows "\<exists>m'. clearCommandMessage sys m (Some lp) = Some (m', Some lp')"
proof -
  note t = carrier_types[of "getCommand sys m"] and f = clear_functions_free[of sys m "Some lp"]
  show ?thesis
    using assms(1)[unfolded carries_data_def]
  proof (elim disjE, goal_cases)
    case 1 show ?case using f(1)[OF 1] t(1)[OF 1] assms(2)
      by (auto simp: clearCommandMessage_def getMessageType_type Let_def carried_address_def)
  next
    case 2 show ?case using f(2)[OF 2] t(2)[OF 2] assms(2)
      by (auto simp: clearCommandMessage_def getMessageType_type Let_def carried_address_def)
  next
    case 3 show ?case using f(3)[OF 3] t(3)[OF 3] assms(2)
      by (auto simp: clearCommandMessage_def getMessageType_type Let_def carried_address_def)
  next
    case 4 show ?case using f(4)[OF 4] t(4)[OF 4] assms(2)
      by (auto simp: clearCommandMessage_def getMessageType_type Let_def carried_address_def)
  next
    case 5 show ?case using f(5)[OF 5] t(5)[OF 5] assms(2)
      by (auto simp: clearCommandMessage_def getMessageType_type Let_def carried_address_def)
  next
    case 6 show ?case using f(6)[OF 6] t(6)[OF 6] assms(2)
      by (auto simp: clearCommandMessage_def getMessageType_type Let_def carried_address_def)
  qed
qed

lemma clear_other:
  assumes "\<not> carries_data (getCommand sys m)" "message_inv m"
  shows "\<exists>m'. clearCommandMessage sys m store = Some (m', store)"
proof -
  have n: "getCommand sys m \<notin> {ADD_SEQUENCE, ADD_TABLE, SEQUENCE_LIST, TABLE_LIST, TABLE_MSG, SEQUENCE_MSG}"
    "getCommand sys m \<notin> {EXECUTE_ACTION, DATA_REPLY}" "getCommand sys m \<notin> {CMD_RAW, REPLY_RAW_COMMAND, REPLY_RAW_REPLY}"
    "getCommand sys m \<notin> {SELECTION_DEFINITION_REPORT, STORE_CATALOGUE_REPORT, CHANGE_SELECTION_DEFINITION, INDEX_REPORT,
        DELETE_STORE_CONTENT_TIME, DOWNLINK_STORE_CONTENT_TIME}"
    "getCommand sys m \<notin> {CMD_MEMORY_LOAD, REPLY_MEMORY_DUMP}" "getCommand sys m \<notin> {CMD_PARAMETER_LOAD, REPLY_PARAMETER_DUMP}"
    using assms(1) unfolding carries_data_def by blast+
  have d: "message_type (getCommand sys m) = 6 \<Longrightarrow> \<exists>m'. device_clear sys m store = Some (m', store)"
    using clear_functions_keep(3)[OF n(3) direct_reply_type] by blast
  show ?thesis
    unfolding clearCommandMessage_def getMessageType_type Let_def
    using clear_functions_keep(1)[OF n(1), of store] clear_functions_keep(2)[OF n(2), of store] d
      clear_functions_keep(4)[OF n(4), of store] clear_functions_keep(5)[OF n(5), of store]
      clear_functions_keep(6)[OF n(6), of store] clear_functions_keep(7)[OF assms(2), of sys store]
    by (simp split: if_split)
qed

text \<open>
  C19. The cleaner frees exactly the data a message carries: for the commands that carry a store address, of every message
  class, the data behind this address is deleted and nothing else; for every other message the store is as before. A limit
  violation report, whose address the cleaner should free, is not among them: its data stays in the store.
\<close>

theorem cleaner_frees_carried:
  assumes "pool_ok lp" "message_inv m"
  shows "\<not> carries_data LIMIT_VIOLATION_REPORT \<and> (\<exists>m' lp'. clearCommandMessage sys m (Some lp) = Some (m', Some lp') \<and> pool_ok lp' \<and> pool_abs lp' =
      (if carries_data (getCommand sys m) then (pool_abs lp)(carried_address sys m := None) else pool_abs lp))"
proof -
  have "\<not> carries_data LIMIT_VIOLATION_REPORT" by (simp add: carries_data_def carrier_ids)
  moreover
  obtain lp' where d: "delete_carried (Some lp) (carried_address sys m) = Some (Some lp')" "pool_ok lp'"
      "pool_abs lp' = (pool_abs lp)(carried_address sys m := None)"
    using deletes_carried[OF assms(1)] by metis
  have "\<exists>m' lp'. clearCommandMessage sys m (Some lp) = Some (m', Some lp') \<and> pool_ok lp' \<and> pool_abs lp' =
      (if carries_data (getCommand sys m) then (pool_abs lp)(carried_address sys m := None) else pool_abs lp)"
  proof (cases "carries_data (getCommand sys m)")
    case True then show ?thesis using clear_carrier[OF True d(1)] d(2,3) by auto
  next
    case False then show ?thesis using clear_other[OF False assms(2), of "Some lp"] assms(1) by auto
  qed
  ultimately show ?thesis by blast
qed

lemma cleaner_frees_carried_witness:
  "\<exists>m' lp'. clearCommandMessage LITTLE_ENDIAN (setMemoryLoadCommand LITTLE_ENDIAN (newCommandMessage LITTLE_ENDIAN) 7 sample_address) (Some action_store)
     = Some (m', Some lp') \<and> pool_abs lp' sample_address = None"
proof -
  let ?m = "setMemoryLoadCommand LITTLE_ENDIAN (newCommandMessage LITTLE_ENDIAN) 7 sample_address"
  have i: "message_inv ?m" by (simp add: setMemoryLoadCommand_def)
  have c: "getCommand LITTLE_ENDIAN ?m = CMD_MEMORY_LOAD" by (simp add: setMemoryLoadCommand_def)
  have a: "carried_address LITTLE_ENDIAN ?m = sample_address" "carries_data CMD_MEMORY_LOAD"
    using carrier_types(5)[of CMD_MEMORY_LOAD]
    by (simp_all add: carried_address_def c address_of_parameter2_def setMemoryLoadCommand_def carries_data_def sample_address_def)
  have p: "pool_ok action_store" using action_world_ok(1) by (simp add: action_world_def)
  show ?thesis using cleaner_frees_carried[OF p i, of LITTLE_ENDIAN] a c by auto
qed

end
