(* ===== verification/MemoryHelper.thy ===== *)
theory MemoryHelper
  imports MessageTypes
begin

text \<open>
  \<open>memory/MemoryHelper.cpp\<close>: loads, dumps and checks of the memory of an object. The owner's state extends the
  record of the helper; the memory behind the pointers it hands out is part of it. A pointer into the IPC
  store is the position of its block.
\<close>

subsection \<open>Codes and state\<close>

definition DO_IT_MYSELF :: u16 where [retcode]: "DO_IT_MYSELF = MAKE_RETURN_CODE HAS_MEMORY_IF 1"
definition POINTS_TO_VARIABLE :: u16 where [retcode]: "POINTS_TO_VARIABLE = MAKE_RETURN_CODE HAS_MEMORY_IF 2"
definition POINTS_TO_MEMORY :: u16 where [retcode]: "POINTS_TO_MEMORY = MAKE_RETURN_CODE HAS_MEMORY_IF 3"
definition ACTIVITY_COMPLETED :: u16 where [retcode]: "ACTIVITY_COMPLETED = MAKE_RETURN_CODE HAS_MEMORY_IF 4"
definition POINTS_TO_VECTOR_UINT8 :: u16 where [retcode]: "POINTS_TO_VECTOR_UINT8 = MAKE_RETURN_CODE HAS_MEMORY_IF 5"
definition POINTS_TO_VECTOR_UINT16 :: u16 where [retcode]: "POINTS_TO_VECTOR_UINT16 = MAKE_RETURN_CODE HAS_MEMORY_IF 6"
definition POINTS_TO_VECTOR_UINT32 :: u16 where [retcode]: "POINTS_TO_VECTOR_UINT32 = MAKE_RETURN_CODE HAS_MEMORY_IF 7"
definition POINTS_TO_VECTOR_FLOAT :: u16 where [retcode]: "POINTS_TO_VECTOR_FLOAT = MAKE_RETURN_CODE HAS_MEMORY_IF 8"
definition DUMP_NOT_SUPPORTED :: u16 where [retcode]: "DUMP_NOT_SUPPORTED = MAKE_RETURN_CODE HAS_MEMORY_IF 0xA0"
definition MEMORY_INVALID_SIZE :: u16 where [retcode]: "MEMORY_INVALID_SIZE = MAKE_RETURN_CODE HAS_MEMORY_IF 0xE0"
definition MEMORY_INVALID_ADDRESS :: u16 where [retcode]: "MEMORY_INVALID_ADDRESS = MAKE_RETURN_CODE HAS_MEMORY_IF 0xE1"
definition INVALID_CONTENT :: u16 where [retcode]: "INVALID_CONTENT = MAKE_RETURN_CODE HAS_MEMORY_IF 0xE2"
definition UNALIGNED_ACCESS :: u16 where [retcode]: "UNALIGNED_ACCESS = MAKE_RETURN_CODE HAS_MEMORY_IF 0xE3"
definition WRITE_PROTECTED :: u16 where [retcode]: "WRITE_PROTECTED = MAKE_RETURN_CODE HAS_MEMORY_IF 0xE4"
definition UNKNOWN_CMD :: u16 where [retcode]: "UNKNOWN_CMD = MAKE_RETURN_CODE MEMORY_HELPER 0xE0"
definition HELPER_INVALID_ADDRESS :: u16 where [retcode]: "HELPER_INVALID_ADDRESS = MAKE_RETURN_CODE MEMORY_HELPER 0xE1"
definition HELPER_INVALID_SIZE :: u16 where [retcode]: "HELPER_INVALID_SIZE = MAKE_RETURN_CODE MEMORY_HELPER 0xE2"
definition STATE_MISMATCH :: u16 where [retcode]: "STATE_MISMATCH = MAKE_RETURN_CODE MEMORY_HELPER 0xE3"

definition memAccessWasSuccessful :: "u16 \<Rightarrow> bool" where
  "memAccessWasSuccessful result \<longleftrightarrow>
     result \<in> {DO_IT_MYSELF, POINTS_TO_MEMORY, POINTS_TO_VARIABLE, RETURN_OK, ACTIVITY_COMPLETED}"

record memory_helper =
  memQueue :: u32
  ipcAddress :: store_address
  lastCommand :: u16
  memLastSender :: u32
  reservedSpaceInIPC :: "(nat \<times> nat) option"
  memBusy :: bool

definition newMemoryHelper :: "u32 \<Rightarrow> memory_helper" where
  "newMemoryHelper queue =
     \<lparr>memQueue = queue, ipcAddress = INVALID_ADDRESS, lastCommand = CMD_NONE, memLastSender = NO_QUEUE, reservedSpaceInIPC = None,
      memBusy = False\<rparr>"

text \<open>
  The owner: \<open>handleMemoryLoad\<close> may set a pointer to the target, \<open>pokeMemory\<close> writes there; \<open>handleMemoryDump\<close>
  may set a pointer, of which the bytes that can be read there are given, and may write the first bytes of the dump.
\<close>

record ('p, 's) memory_ops =
  ownerLoad :: "u32 \<Rightarrow> bytes \<Rightarrow> 's \<Rightarrow> system_world \<Rightarrow> u16 \<times> 'p option \<times> 's \<times> system_world"
  pokeMemory :: "'p \<Rightarrow> bytes \<Rightarrow> 's \<Rightarrow> 's"
  ownerDump :: "u32 \<Rightarrow> u32 \<Rightarrow> 's \<Rightarrow> system_world \<Rightarrow> u16 \<times> bytes option \<times> bytes \<times> 's \<times> system_world"

definition mem_initialize :: "u32 option \<Rightarrow> bool \<Rightarrow> 'a memory_helper_scheme \<Rightarrow> u16 \<times> 'a memory_helper_scheme" where
  "mem_initialize queue store s =
     (case queue of None \<Rightarrow> (RETURN_FAILED, s) | Some q \<Rightarrow> (if store then RETURN_OK else RETURN_FAILED, s\<lparr>memQueue := q\<rparr>))"

subsection \<open>Loads\<close>

definition mem_reply :: "byte_order \<Rightarrow> mq_message \<Rightarrow> 'a memory_helper_scheme \<Rightarrow> system_world \<Rightarrow> system_world" where
  "mem_reply sys reply s w = snd (sw_send sys (memLastSender s) reply (memQueue s) w)"

text \<open>\<open>copyHere\<close> is dereferenced without a test.\<close>

definition completeLoad ::
  "byte_order \<Rightarrow> ('p, 'a memory_helper_scheme) memory_ops \<Rightarrow> u16 \<Rightarrow> bytes \<Rightarrow> 'p option \<Rightarrow> 'a memory_helper_scheme \<Rightarrow> system_world
     \<Rightarrow> ('a memory_helper_scheme \<times> system_world) option" where
  "completeLoad sys ops errorCode dataToCopy copyHere s w =
     (let s1 = s\<lparr>memBusy := False\<rparr>;
          success = (\<lambda>s2. map_option (Pair s2)
            (sw_deleteData (ipcAddress s2) (mem_reply sys (newCommandMessage_params sys REPLY_COMMAND_OK 0 0) s2 w)))
      in if errorCode = DO_IT_MYSELF then Some (s\<lparr>memBusy := True\<rparr>, w)
         else if errorCode = POINTS_TO_MEMORY then Option.bind copyHere (\<lambda>p. success (pokeMemory ops p dataToCopy s1))
         else if errorCode = POINTS_TO_VARIABLE
         then Option.bind copyHere (\<lambda>p. success (pokeMemory ops p (convertBigEndian sys dataToCopy) s1))
         else if errorCode = ACTIVITY_COMPLETED \<or> errorCode = RETURN_OK then success s1
         else map_option (\<lambda>w1. (s1, mem_reply sys (setMemoryReplyFailed sys (newCommandMessage sys) errorCode CMD_MEMORY_LOAD) s1 w1))
                (sw_deleteData (ipcAddress s1) w))"

definition handleMemoryLoad ::
  "byte_order \<Rightarrow> ('p, 'a memory_helper_scheme) memory_ops \<Rightarrow> mq_message \<Rightarrow> 'a memory_helper_scheme \<Rightarrow> system_world
     \<Rightarrow> ('a memory_helper_scheme \<times> system_world) option" where
  "handleMemoryLoad sys ops message s w =
     (let s1 = s\<lparr>ipcAddress := mem_getStoreID sys message\<rparr> in
      Option.bind (sw_getData (ipcAddress s1) w) (\<lambda>(returnCode, data).
        if returnCode = RETURN_OK then
          (case ownerLoad ops (mem_getAddress sys message) data s1 w of
             (returnCode2, dataPointer, s2, w2) \<Rightarrow> completeLoad sys ops returnCode2 data dataPointer s2 w2)
        else Some (s1, mem_reply sys (setMemoryReplyFailed sys (newCommandMessage sys) returnCode CMD_MEMORY_LOAD) s1 w)))"

subsection \<open>Dumps and checks\<close>

text \<open>The reserved space and a copy into it; \<open>None\<close> if the copy leaves the block.\<close>

definition reserved_bytes :: "'a memory_helper_scheme \<Rightarrow> system_world \<Rightarrow> bytes" where
  "reserved_bytes s w = (case reservedSpaceInIPC s of None \<Rightarrow> [] | Some ptr \<Rightarrow> pool_mem (ipcStore w) ptr)"

definition write_reserved :: "bytes \<Rightarrow> 'a memory_helper_scheme \<Rightarrow> system_world \<Rightarrow> system_world option" where
  "write_reserved data s w =
     (if length data \<le> length (reserved_bytes s w)
      then Some (case reservedSpaceInIPC s of
              None \<Rightarrow> w
            | Some ptr \<Rightarrow> w\<lparr>ipcStore := pool_put (ipcStore w) ptr (put_bytes (pool_mem (ipcStore w) ptr) 0 data)\<rparr>)
      else None)"

text \<open>The reply to a dump or check that was successful.\<close>

definition dump_reply ::
  "byte_order \<Rightarrow> nat \<Rightarrow> mq_message \<Rightarrow> 'a memory_helper_scheme \<Rightarrow> system_world \<Rightarrow> (mq_message \<times> system_world) option" where
  "dump_reply sys sz reply s w =
     (if lastCommand s = CMD_MEMORY_DUMP then Some (setMemoryDumpReply sys reply (ipcAddress s), w)
      else if lastCommand s = CMD_MEMORY_CHECK then
        (if sz \<le> length (reserved_bytes s w)
         then map_option (Pair (setMemoryCheckReply sys reply (crc16 (take sz (reserved_bytes s w))))) (sw_deleteData (ipcAddress s) w)
         else None)
      else map_option (Pair (setParameter sys reply (ucast STATE_MISMATCH))) (sw_deleteData (ipcAddress s) w))"

definition completeDump ::
  "byte_order \<Rightarrow> u16 \<Rightarrow> bytes option \<Rightarrow> nat \<Rightarrow> 'a memory_helper_scheme \<Rightarrow> system_world
     \<Rightarrow> ('a memory_helper_scheme \<times> system_world) option" where
  "completeDump sys errorCode dataToCopy sz s w =
     (let s1 = s\<lparr>memBusy := False\<rparr>;
          reply = setMemoryReplyFailed sys (newCommandMessage sys) errorCode (lastCommand s);
          send = (\<lambda>(m, w1). case sw_send_again sys (memLastSender s1) m (memQueue s1) w1 of
                    (r, m', w2) \<Rightarrow>
                      if r \<noteq> RETURN_OK
                      then map_option (\<lambda>(_, store). (s1, w2\<lparr>ipcStore := the store\<rparr>)) (clearCommandMessage sys m' (Some (ipcStore w2)))
                      else Some (s1, w2))
      in if errorCode = DO_IT_MYSELF then Some (s\<lparr>memBusy := True\<rparr>, w)
         else if errorCode \<in> {RETURN_OK, POINTS_TO_MEMORY, POINTS_TO_VARIABLE}
         then Option.bind dataToCopy (\<lambda>data.
                if length data < sz then None
                else Option.bind (write_reserved (if errorCode = POINTS_TO_VARIABLE then convertBigEndian sys (take sz data) else take sz data) s1 w)
                  (\<lambda>w1. Option.bind (dump_reply sys sz reply s1 w1) send))
         else if errorCode = ACTIVITY_COMPLETED then Option.bind (dump_reply sys sz reply s1 w) send
         else if errorCode = DUMP_NOT_SUPPORTED
         then Option.bind (sw_deleteData (ipcAddress s1) w) (\<lambda>w1.
                send (if lastCommand s1 = CMD_MEMORY_CHECK
                      then setCrcReturnValue sys (setMemoryCheckReply sys reply 0) DUMP_NOT_SUPPORTED else reply, w1))
         else Option.bind (sw_deleteData (ipcAddress s1) w) (\<lambda>w1. send (reply, w1)))"

definition handleMemoryCheckOrDump ::
  "byte_order \<Rightarrow> ('p, 'a memory_helper_scheme) memory_ops \<Rightarrow> mq_message \<Rightarrow> 'a memory_helper_scheme \<Rightarrow> system_world
     \<Rightarrow> ('a memory_helper_scheme \<times> system_world) option" where
  "handleMemoryCheckOrDump sys ops message s w =
     (let sz = mem_getLength sys message in
      case getFreeElement (ipcStore w) (ipcAddress s) (unat sz) False of
        (returnCode, a, ptr, lp) \<Rightarrow>
          let s1 = s\<lparr>ipcAddress := a, reservedSpaceInIPC := ptr\<rparr>; w1 = w\<lparr>ipcStore := lp\<rparr> in
          if returnCode = RETURN_OK then
            (case ownerDump ops (mem_getAddress sys message) sz s1 w1 of
               (returnCode2, dataPointer, dumped, s2, w2) \<Rightarrow>
                 Option.bind (write_reserved dumped s2 w2) (completeDump sys returnCode2 dataPointer (unat sz) s2))
          else Some (s1, mem_reply sys (setMemoryReplyFailed sys (newCommandMessage sys) returnCode (lastCommand s1)) s1 w1))"

text \<open>A busy helper only prints a message.\<close>

definition handleMemoryCommand ::
  "byte_order \<Rightarrow> ('p, 'a memory_helper_scheme) memory_ops \<Rightarrow> mq_message \<Rightarrow> 'a memory_helper_scheme \<Rightarrow> system_world
     \<Rightarrow> (u16 \<times> 'a memory_helper_scheme \<times> system_world) option" where
  "handleMemoryCommand sys ops message s w =
     (let c = getCommand sys message; s1 = s\<lparr>memLastSender := getSender sys message, lastCommand := c\<rparr> in
      if c = CMD_MEMORY_DUMP then map_option (Pair RETURN_OK) (handleMemoryCheckOrDump sys ops message s1 w)
      else if c = CMD_MEMORY_LOAD then map_option (Pair RETURN_OK) (handleMemoryLoad sys ops message s1 w)
      else if c = CMD_MEMORY_CHECK then map_option (Pair RETURN_OK) (handleMemoryCheckOrDump sys ops message s1 w)
      else Some (UNKNOWN_CMD, s1\<lparr>lastCommand := CMD_NONE\<rparr>, w))"

subsection \<open>Copies of matrices\<close>

function swap_loop :: "byte_order \<Rightarrow> bytes \<Rightarrow> nat \<Rightarrow> nat \<Rightarrow> bytes" where
  "swap_loop sys inp totalSize datatypeSize =
     (if totalSize = 0 \<or> datatypeSize = 0 then []
      else convertBigEndian sys (take datatypeSize inp) @ swap_loop sys (drop datatypeSize inp) (totalSize - datatypeSize) datatypeSize)"
  by auto
termination by (relation "measure (\<lambda>(_, _, n, _). n)") auto

declare swap_loop.simps [simp del]

text \<open>\<open>outp\<close> and the result are the bytes behind \<open>out\<close>; a data type of size 0 is a division by zero.\<close>

definition swapMatrixCopy :: "byte_order \<Rightarrow> bytes \<Rightarrow> bytes \<Rightarrow> nat \<Rightarrow> nat \<Rightarrow> bytes option" where
  "swapMatrixCopy sys outp inp totalSize datatypeSize =
     (if datatypeSize = 0 then None
      else if totalSize mod datatypeSize \<noteq> 0 then Some outp
      else if length inp < totalSize \<or> length outp < totalSize then None
      else Some (put_bytes outp 0 (swap_loop sys inp totalSize datatypeSize)))"

subsection \<open>Properties\<close>

text \<open>An owner leaves the members of the helper and the rest of the system alone.\<close>

definition keeps_helper :: "('p, 'a memory_helper_scheme) memory_ops \<Rightarrow> bool" where
  "keeps_helper ops \<longleftrightarrow>
     (\<forall>a d s w. case ownerLoad ops a d s w of (_, _, s', w') \<Rightarrow> memory_helper.truncate s' = memory_helper.truncate s \<and> w' = w) \<and>
     (\<forall>p d s. memory_helper.truncate (pokeMemory ops p d s) = memory_helper.truncate s) \<and>
     (\<forall>a n s w. case ownerDump ops a n s w of (_, _, _, s', w') \<Rightarrow> memory_helper.truncate s' = memory_helper.truncate s \<and> w' = w)"

lemma keeps_helperD:
  assumes "keeps_helper ops"
  shows "ownerLoad ops a d s w = (r, p, s', w') \<Longrightarrow> memory_helper.truncate s' = memory_helper.truncate s \<and> w' = w"
    "ownerDump ops a n s w = (r, q, dumped, s', w') \<Longrightarrow> memory_helper.truncate s' = memory_helper.truncate s \<and> w' = w"
    "memory_helper.truncate (pokeMemory ops t d s) = memory_helper.truncate s"
proof -
  show "memory_helper.truncate s' = memory_helper.truncate s \<and> w' = w" if "ownerLoad ops a d s w = (r, p, s', w')"
    using assms[unfolded keeps_helper_def, THEN conjunct1, rule_format, where a = a and d = d and s = s and w = w] that by simp
  show "memory_helper.truncate s' = memory_helper.truncate s \<and> w' = w" if "ownerDump ops a n s w = (r, q, dumped, s', w')"
    using assms[unfolded keeps_helper_def, THEN conjunct2, THEN conjunct2, rule_format, where a = a and n = n and s = s and w = w] that by simp
  show "memory_helper.truncate (pokeMemory ops t d s) = memory_helper.truncate s" using assms by (simp add: keeps_helper_def)
qed

lemma same_helper:
  assumes "memory_helper.truncate s' = memory_helper.truncate s"
  shows "memQueue s' = memQueue s" "ipcAddress s' = ipcAddress s" "lastCommand s' = lastCommand s" "memLastSender s' = memLastSender s"
    "reservedSpaceInIPC s' = reservedSpaceInIPC s" "memBusy s' = memBusy s"
  using assms by (auto simp: memory_helper.truncate_def)

lemma command_sized_memory [simp]:
  "command_sized m \<Longrightarrow> command_sized (setMemoryReplyFailed sys m e c)" "command_sized m \<Longrightarrow> command_sized (setMemoryCheckReply sys m crc)"
  "command_sized m \<Longrightarrow> command_sized (setMemoryDumpReply sys m a)"
  by (simp_all add: setMemoryReplyFailed_def setMemoryCheckReply_def setMemoryDumpReply_def)

text \<open>The memory an owner has after a load: what its pointer leads to was written, in the byte order of the machine for a variable.\<close>

definition loaded_by ::
  "byte_order \<Rightarrow> ('p, 'a memory_helper_scheme) memory_ops \<Rightarrow> u16 \<Rightarrow> bytes \<Rightarrow> 'p option \<Rightarrow> 'a memory_helper_scheme \<Rightarrow> 'a memory_helper_scheme" where
  "loaded_by sys ops r data p s =
     (if r = POINTS_TO_MEMORY then pokeMemory ops (the p) data s
      else if r = POINTS_TO_VARIABLE then pokeMemory ops (the p) (convertBigEndian sys data) s else s)"

definition load_answer :: "byte_order \<Rightarrow> u16 \<Rightarrow> mq_message" where
  "load_answer sys r = (if memAccessWasSuccessful r then newCommandMessage_params sys REPLY_COMMAND_OK 0 0
     else setMemoryReplyFailed sys (newCommandMessage sys) r CMD_MEMORY_LOAD)"

lemma complete_load_settles:
  assumes ok: "pool_ok (ipcStore w)" "pool_abs (ipcStore w) (ipcAddress s) \<noteq> None" "room_for (swQueues w) (memLastSender s) 1"
    and r: "r \<noteq> DO_IT_MYSELF" "r \<in> {POINTS_TO_MEMORY, POINTS_TO_VARIABLE} \<Longrightarrow> p \<noteq> None" and k: "keeps_helper ops"
  shows "\<exists>lp. completeLoad sys ops r data p s w = Some (loaded_by sys ops r data p (s\<lparr>memBusy := False\<rparr>),
       w\<lparr>swQueues := queue_added (swQueues w) (memLastSender s) [load_answer sys r], ipcStore := lp\<rparr>)
     \<and> pool_ok lp \<and> pool_abs lp = (pool_abs (ipcStore w))(ipcAddress s := None)"
proof -
  let ?s1 = "s\<lparr>memBusy := False\<rparr>" and ?s2 = "loaded_by sys ops r data p (s\<lparr>memBusy := False\<rparr>)"
  let ?w1 = "w\<lparr>swQueues := queue_added (swQueues w) (memLastSender s) [load_answer sys r]\<rparr>"
  have t: "memory_helper.truncate ?s2 = memory_helper.truncate ?s1" using k by (simp add: loaded_by_def keeps_helper_def)
  note f = same_helper[OF t]
  have "pool_ok (ipcStore ?w1)" "pool_abs (ipcStore ?w1) (ipcAddress s) \<noteq> None" using ok(1,2) by simp_all
  from sw_deleteData_ok[OF this] obtain lp where d: "sw_deleteData (ipcAddress s) ?w1 = Some (?w1\<lparr>ipcStore := lp\<rparr>)" "pool_ok lp"
      "pool_abs lp = (pool_abs (ipcStore w))(ipcAddress s := None)" by auto
  have d': "sw_deleteData (ipcAddress s) w = Some (w\<lparr>ipcStore := lp\<rparr>)"
    using d(1) by (cases w) (auto simp: sw_deleteData_def)
  show ?thesis
  proof (cases "memAccessWasSuccessful r")
    case True
    have "mem_reply sys (newCommandMessage_params sys REPLY_COMMAND_OK 0 0) ?s2 w = ?w1"
      using ok(3) True f by (simp add: mem_reply_def send_room load_answer_def)
    moreover have "completeLoad sys ops r data p s w = map_option (Pair ?s2)
        (sw_deleteData (ipcAddress ?s2) (mem_reply sys (newCommandMessage_params sys REPLY_COMMAND_OK 0 0) ?s2 w))"
    proof -
      have ne: "POINTS_TO_VARIABLE \<noteq> POINTS_TO_MEMORY" by (simp add: retcode)
      consider "r = POINTS_TO_MEMORY" | "r = POINTS_TO_VARIABLE" | "r \<notin> {POINTS_TO_MEMORY, POINTS_TO_VARIABLE}" "r = ACTIVITY_COMPLETED \<or> r = RETURN_OK"
        using True r(1) unfolding memAccessWasSuccessful_def by blast
      then show ?thesis
      proof cases
        case 1 then show ?thesis using r by (auto simp: completeLoad_def loaded_by_def Let_def)
      next
        case 2 then show ?thesis using r ne by (auto simp: completeLoad_def loaded_by_def Let_def)
      next
        case 3 then show ?thesis using r(1) by (simp add: completeLoad_def loaded_by_def Let_def)
      qed
    qed
    ultimately have "completeLoad sys ops r data p s w = Some (?s2, ?w1\<lparr>ipcStore := lp\<rparr>)" using d(1) f(2) by simp
    then show ?thesis using d(2,3) by (intro exI[of _ lp]) simp
  next
    case False
    then have "completeLoad sys ops r data p s w = Some (?s1, mem_reply sys (setMemoryReplyFailed sys (newCommandMessage sys) r CMD_MEMORY_LOAD) ?s1
        (w\<lparr>ipcStore := lp\<rparr>))" "?s2 = ?s1"
      using d' r(1) by (simp_all add: completeLoad_def Let_def memAccessWasSuccessful_def loaded_by_def)
    moreover have "mem_reply sys (setMemoryReplyFailed sys (newCommandMessage sys) r CMD_MEMORY_LOAD) ?s1 (w\<lparr>ipcStore := lp\<rparr>) = ?w1\<lparr>ipcStore := lp\<rparr>"
      using ok(3) False by (simp add: mem_reply_def send_room load_answer_def)
    ultimately show ?thesis using d(2,3) by auto
  qed
qed

text \<open>
  C10. A load command whose data is in the store and which the owner does not take over is settled at once: what the owner
  points to has been written, its commander has exactly one answer, which says success exactly for the codes of a successful
  access, the data is freed, no other packet is touched, and the helper is free again.
\<close>

theorem memory_load_settles:
  assumes "pool_ok (ipcStore w)" "getCommand sys m = CMD_MEMORY_LOAD" "pool_abs (ipcStore w) (mem_getStoreID sys m) = Some data"
    and "room_for (swQueues w) (getSender sys m) 1" "keeps_helper ops"
    and "ownerLoad ops (mem_getAddress sys m) data
      (s\<lparr>memLastSender := getSender sys m, lastCommand := CMD_MEMORY_LOAD, ipcAddress := mem_getStoreID sys m\<rparr>) w = (r, p, s2, w2)"
    and "r \<noteq> DO_IT_MYSELF" "r \<in> {POINTS_TO_MEMORY, POINTS_TO_VARIABLE} \<Longrightarrow> p \<noteq> None"
  shows "\<exists>w'. handleMemoryCommand sys ops m s w = Some (RETURN_OK, loaded_by sys ops r data p (s2\<lparr>memBusy := False\<rparr>), w')
    \<and> swQueues w' = queue_added (swQueues w) (getSender sys m) [load_answer sys r]
    \<and> pool_ok (ipcStore w') \<and> pool_abs (ipcStore w') = (pool_abs (ipcStore w))(mem_getStoreID sys m := None)
    \<and> \<not> memBusy (loaded_by sys ops r data p (s2\<lparr>memBusy := False\<rparr>))"
proof -
  let ?s1 = "s\<lparr>memLastSender := getSender sys m, lastCommand := CMD_MEMORY_LOAD, ipcAddress := mem_getStoreID sys m\<rparr>"
  have t: "memory_helper.truncate s2 = memory_helper.truncate ?s1" "w2 = w"
    using keeps_helperD(1)[OF assms(5,6)] by simp_all
  note f = same_helper[OF t(1)]
  have a: "pool_abs (ipcStore w) (ipcAddress s2) \<noteq> None" "room_for (swQueues w) (memLastSender s2) 1" using assms(3,4) f by simp_all
  from complete_load_settles[OF assms(1) a assms(7,8,5), of sys data] obtain lp where
    c: "completeLoad sys ops r data p s2 w = Some (loaded_by sys ops r data p (s2\<lparr>memBusy := False\<rparr>),
          w\<lparr>swQueues := queue_added (swQueues w) (getSender sys m) [load_answer sys r], ipcStore := lp\<rparr>)"
       "pool_ok lp" "pool_abs lp = (pool_abs (ipcStore w))(mem_getStoreID sys m := None)" using f by auto
  have "CMD_MEMORY_LOAD \<noteq> CMD_MEMORY_DUMP" by (simp add: CMD_MEMORY_LOAD_def CMD_MEMORY_DUMP_def MAKE_COMMAND_ID_def)
  then have h: "handleMemoryCommand sys ops m s w = Some (RETURN_OK, loaded_by sys ops r data p (s2\<lparr>memBusy := False\<rparr>),
          w\<lparr>swQueues := queue_added (swQueues w) (getSender sys m) [load_answer sys r], ipcStore := lp\<rparr>)"
    using assms(2,3,6) c(1) t(2) sw_getData_ok[OF assms(1), of "mem_getStoreID sys m"]
    by (simp add: handleMemoryCommand_def handleMemoryLoad_def Let_def)
  have "memory_helper.truncate (loaded_by sys ops r data p (s2\<lparr>memBusy := False\<rparr>)) = memory_helper.truncate (s2\<lparr>memBusy := False\<rparr>)"
    using assms(5) by (simp add: loaded_by_def keeps_helper_def)
  from same_helper(6)[OF this] show ?thesis using h c(2,3) by simp
qed

text \<open>An owner with eight bytes of memory, of which it points to the first, for the witnesses.\<close>

record memory_sample = memory_helper +
  memoryCells :: bytes

definition sample_memory_ops :: "(nat, memory_sample) memory_ops" where
  "sample_memory_ops = \<lparr>ownerLoad = (\<lambda>a d s w. (POINTS_TO_MEMORY, Some 0, s, w)),
     pokeMemory = (\<lambda>p d s. s\<lparr>memoryCells := put_bytes (memoryCells s) p d\<rparr>),
     ownerDump = (\<lambda>a n s w. (POINTS_TO_MEMORY, Some (memoryCells s), [], s, w))\<rparr>"

definition sample_memory :: memory_sample where
  "sample_memory = memory_helper.extend (newMemoryHelper 1) \<lparr>memoryCells = [0, 1, 2, 3, 4, 5, 6, 7]\<rparr>"

lemma sample_memory_keeps: "keeps_helper sample_memory_ops"
  by (simp add: keeps_helper_def sample_memory_ops_def memory_helper.truncate_def)

lemma memory_load_settles_witness:
  "\<exists>s' w'. handleMemoryCommand LITTLE_ENDIAN sample_memory_ops
      (setSender LITTLE_ENDIAN (setMemoryLoadCommand LITTLE_ENDIAN (newCommandMessage LITTLE_ENDIAN) 0 sample_address) 3) sample_memory action_world
      = Some (RETURN_OK, s', w') \<and> pool_abs (ipcStore w') sample_address = None"
proof -
  let ?m = "setSender LITTLE_ENDIAN (setMemoryLoadCommand LITTLE_ENDIAN (newCommandMessage LITTLE_ENDIAN) 0 sample_address) 3"
  have m: "getCommand LITTLE_ENDIAN ?m = CMD_MEMORY_LOAD" "getSender LITTLE_ENDIAN ?m = 3" "mem_getStoreID LITTLE_ENDIAN ?m = sample_address"
    by (simp_all add: setMemoryLoadCommand_def mem_getStoreID_def address_of_parameter2_def sample_address_def)
  have room: "room_for (swQueues action_world) (getSender LITTLE_ENDIAN ?m) 1"
    using action_world_ok(3) by (auto simp: m room_for_def)
  have d: "pool_abs (ipcStore action_world) (mem_getStoreID LITTLE_ENDIAN ?m) = Some [1, 2]" by (simp add: m)
  have o: "ownerLoad sample_memory_ops a b s w = (POINTS_TO_MEMORY, Some 0, s, w)" for a b s w by (simp add: sample_memory_ops_def)
  have ne: "POINTS_TO_MEMORY \<noteq> DO_IT_MYSELF" by (simp add: retcode)
  have p: "Some (0 :: nat) \<noteq> None" by simp
  from memory_load_settles[where s = sample_memory, OF action_world_ok(1) m(1) d room sample_memory_keeps o ne p]
  show ?thesis by (auto simp: m)
qed

text \<open>A dump or check into an element of the store that is large enough.\<close>

lemma pool_put_same: "snd ptr \<le> length (pool_store lp ! fst ptr) \<Longrightarrow> fst ptr < length (pool_store lp) \<Longrightarrow> pool_mem (pool_put lp ptr q) ptr = q"
  by (simp add: pool_mem_def pool_put_def)

lemma take_put_start: "n \<le> length data \<Longrightarrow> length data \<le> length q \<Longrightarrow> take n (put_bytes q 0 data) = take n data"
  by (simp add: put_bytes_def)

lemma drop_put_start: "drop (length data) (put_bytes q 0 data) = drop (length data) q"
  by (simp add: put_bytes_def)

text \<open>
  A check or dump whose owner points to the memory is answered at once. The answer to a check carries the CRC of the
  bytes asked for, and the store is as it was; the answer to a dump carries the address of a packet that was not in use
  before and now holds exactly these bytes.
\<close>

theorem memory_read_answered:
  assumes "pool_ok (ipcStore w)" "c = getCommand sys m" "c \<in> {CMD_MEMORY_CHECK, CMD_MEMORY_DUMP}" "n = unat (mem_getLength sys m)"
    and "room_for (swQueues w) (getSender sys m) 1" "keeps_helper ops"
    and "getFreeElement (ipcStore w) (ipcAddress s) n False = (RETURN_OK, a, Some ptr, lp)"
    and "ownerDump ops (mem_getAddress sys m) (mem_getLength sys m)
      (s\<lparr>memLastSender := getSender sys m, lastCommand := c, ipcAddress := a, reservedSpaceInIPC := Some ptr\<rparr>)
      (w\<lparr>ipcStore := lp\<rparr>) = (POINTS_TO_MEMORY, Some d, [], s2, w2)" "n \<le> length d"
  shows "\<exists>s' w' reply. handleMemoryCommand sys ops m s w = Some (RETURN_OK, s', w') \<and> \<not> memBusy s'
    \<and> swQueues w' = queue_added (swQueues w) (getSender sys m) [reply] \<and> pool_ok (ipcStore w') \<and> pool_abs (ipcStore w) a = None
    \<and> (if c = CMD_MEMORY_CHECK
       then getCommand sys reply = REPLY_MEMORY_CHECK \<and> mem_getCrc sys reply = crc16 (take n d) \<and> pool_abs (ipcStore w') = pool_abs (ipcStore w)
       else getCommand sys reply = REPLY_MEMORY_DUMP \<and> getParameter2 sys reply = store_address_raw a
         \<and> pool_abs (ipcStore w') = (pool_abs (ipcStore w))(a \<mapsto> take n d))"
proof -
  let ?s1 = "s\<lparr>memLastSender := getSender sys m, lastCommand := c, ipcAddress := a, reservedSpaceInIPC := Some ptr\<rparr>"
  have t: "memory_helper.truncate s2 = memory_helper.truncate ?s1" "w2 = w\<lparr>ipcStore := lp\<rparr>"
    using keeps_helperD(2)[OF assms(6,8)] by simp_all
  note f = same_helper[OF t(1)]
  have inv: "pool_inv (ipcStore w)" using assms(1) by (simp add: pool_ok_def)
  have n32: "n < 2 ^ 32" unfolding assms(4) using unsigned_less[of "mem_getLength sys m", where 'a = nat] by simp
  have len: "n \<le> length (pool_mem lp ptr)" using getFreeElement_len[OF inv assms(7) n32] by simp
  let ?q = "put_bytes (pool_mem lp ptr) 0 (take n d)" and ?lp2 = "pool_put lp ptr (put_bytes (pool_mem lp ptr) 0 (take n d))"
  have n: "length (take n d) = n" using assms(9) by simp
  have q: "length ?q = length (pool_mem lp ptr)" "drop n ?q = drop n (pool_mem lp ptr)" "take n ?q = take n d"
    using len n drop_put_start[of "take n d" "pool_mem lp ptr"] take_put_start[of n "take n d" "pool_mem lp ptr"] by simp_all
  note p = put_in_reserved[OF inv assms(7) n32 q(1,2)]
  have ok2: "pool_ok ?lp2" using assms(1) p(1) getFreeElement_config[OF assms(7)] by (simp add: pool_ok_def pool_put_def split: prod.splits)
  let ?s3 = "s2\<lparr>memBusy := False\<rparr>" and ?w3 = "w\<lparr>ipcStore := ?lp2\<rparr>"
  have wr: "write_reserved (take n d) ?s3 w2 = Some ?w3" "reserved_bytes ?s3 ?w3 = ?q"
    using len assms(9) f(5) p(5) by (simp_all add: write_reserved_def reserved_bytes_def t(2) min_def)
  have empty: "write_reserved [] s2 w2 = Some w2"
  proof -
    have "pool_put lp ptr (pool_mem lp ptr) = lp"
      by (cases lp) (simp add: pool_put_def pool_mem_def)
    then show ?thesis using f(5) by (simp add: write_reserved_def t(2) put_bytes_def)
  qed
  let ?r0 = "setMemoryReplyFailed sys (newCommandMessage sys) POINTS_TO_MEMORY c"
  have ne: "POINTS_TO_MEMORY \<noteq> DO_IT_MYSELF" "POINTS_TO_MEMORY \<noteq> POINTS_TO_VARIABLE" by (simp_all add: retcode)
  have cmds: "CMD_MEMORY_CHECK \<noteq> CMD_MEMORY_DUMP" "CMD_MEMORY_CHECK \<noteq> CMD_MEMORY_LOAD"
    by (simp_all add: CMD_MEMORY_LOAD_def CMD_MEMORY_DUMP_def CMD_MEMORY_CHECK_def MAKE_COMMAND_ID_def)
  obtain reply lp3 where r: "dump_reply sys n ?r0 ?s3 ?w3 = Some (reply, w\<lparr>ipcStore := lp3\<rparr>)" "command_sized reply" "pool_ok lp3"
    "if c = CMD_MEMORY_CHECK
     then getCommand sys reply = REPLY_MEMORY_CHECK \<and> mem_getCrc sys reply = crc16 (take n d) \<and> pool_abs lp3 = pool_abs (ipcStore w)
     else getCommand sys reply = REPLY_MEMORY_DUMP \<and> getParameter2 sys reply = store_address_raw a
         \<and> pool_abs lp3 = (pool_abs (ipcStore w))(a \<mapsto> take n d)"
  proof (cases "c = CMD_MEMORY_CHECK")
    case True
    have "pool_ok (ipcStore ?w3)" "pool_abs (ipcStore ?w3) a \<noteq> None" using ok2 p(2) by simp_all
    from sw_deleteData_ok[OF this] obtain lp3 where d: "sw_deleteData a ?w3 = Some (?w3\<lparr>ipcStore := lp3\<rparr>)" "pool_ok lp3"
        "pool_abs lp3 = (pool_abs (ipcStore w))(a := None)" using p(2) by auto
    have same: "(pool_abs (ipcStore w))(a := None) = pool_abs (ipcStore w)" using p(3) by (simp add: fun_eq_iff)
    have "dump_reply sys n ?r0 ?s3 ?w3 = Some (setMemoryCheckReply sys ?r0 (crc16 (take n d)), w\<lparr>ipcStore := lp3\<rparr>)"
      using True f(2,3) cmds wr(2) q len d(1) by (simp add: dump_reply_def)
    then show thesis using that[of "setMemoryCheckReply sys ?r0 (crc16 (take n d))" lp3] True d(2,3) same
      by (simp add: setMemoryCheckReply_def mem_getCrc_def setMemoryReplyFailed_def)
  next
    case False
    then have c: "c = CMD_MEMORY_DUMP" using assms(3) by simp
    have "dump_reply sys n ?r0 ?s3 ?w3 = Some (setMemoryDumpReply sys ?r0 a, w\<lparr>ipcStore := ?lp2\<rparr>)"
      using c f(2,3) by (simp add: dump_reply_def)
    then show thesis using that[of "setMemoryDumpReply sys ?r0 a" ?lp2] False ok2 p(2) q(3)
      by (simp add: setMemoryDumpReply_def setMemoryReplyFailed_def)
  qed
  let ?w4 = "w\<lparr>ipcStore := lp3, swQueues := queue_added (swQueues w) (getSender sys m) [reply]\<rparr>"
  have send: "sw_send_again sys (memLastSender ?s3) reply (memQueue ?s3) (w\<lparr>ipcStore := lp3\<rparr>) = (RETURN_OK, setSender sys reply (memQueue ?s3), ?w4)"
    using send_again_room[of "w\<lparr>ipcStore := lp3\<rparr>" "memLastSender ?s3" reply sys "memQueue ?s3"] assms(5) r(2) f by simp
  have "completeDump sys POINTS_TO_MEMORY (Some d) n s2 w2 = Some (?s3, ?w4)"
    using ne assms(9) wr(1) r(1) send f(3) by (simp add: completeDump_def Let_def)
  moreover have "completeDump sys POINTS_TO_MEMORY (Some d) n s2 w2 = handleMemoryCheckOrDump sys ops m (s\<lparr>memLastSender := getSender sys m, lastCommand := c\<rparr>) w"
    using assms(7,8) empty by (simp add: handleMemoryCheckOrDump_def Let_def assms(4)[symmetric])
  ultimately have "handleMemoryCommand sys ops m s w = Some (RETURN_OK, ?s3, ?w4)"
    using assms(2,3) cmds by (auto simp: handleMemoryCommand_def Let_def)
  then show ?thesis using r(3,4) p(3) by (intro exI[of _ ?s3] exI[of _ ?w4] exI[of _ reply]) simp
qed

lemma memory_read_answered_witness:
  "\<exists>s' w' reply. handleMemoryCommand LITTLE_ENDIAN sample_memory_ops
      (setSender LITTLE_ENDIAN (setMemoryCheckCommand LITTLE_ENDIAN (newCommandMessage LITTLE_ENDIAN) 0 4) 3) sample_memory action_world
      = Some (RETURN_OK, s', w') \<and> queue_content (swQueues w') 3 = queue_content (swQueues action_world) 3 @ [reply]
    \<and> mem_getCrc LITTLE_ENDIAN reply = crc16 [0, 1, 2, 3]"
proof -
  let ?m = "setSender LITTLE_ENDIAN (setMemoryCheckCommand LITTLE_ENDIAN (newCommandMessage LITTLE_ENDIAN) 0 4) 3"
  let ?lp = "action_store\<lparr>size_list := [[2, 4]]\<rparr>"
  let ?a = "\<lparr>pool_index = 0, packet_index = 1\<rparr>"
  have m: "getCommand LITTLE_ENDIAN ?m = CMD_MEMORY_CHECK" "getSender LITTLE_ENDIAN ?m = 3" "mem_getLength LITTLE_ENDIAN ?m = 4"
    by (simp_all add: setMemoryCheckCommand_def mem_getLength_def)
  have room: "room_for (swQueues action_world) (getSender LITTLE_ENDIAN ?m) 1"
    using action_world_ok(3) by (auto simp: m room_for_def)
  have free: "getFreeElement (ipcStore action_world) (ipcAddress sample_memory) 4 False = (RETURN_OK, ?a, Some (0, 4), ?lp)"
    by (simp add: action_world_def action_store_def getFreeElement_def reserveSpace_def getPoolIndex_def scan_index.simps findEmpty_def
        spill_loop.simps getRawPosition_def STORAGE_FREE_def Let_def sample_memory_def newMemoryHelper_def INVALID_ADDRESS_def
        memory_helper.extend_def)
  have o: "ownerDump sample_memory_ops a n s w = (POINTS_TO_MEMORY, Some (memoryCells s), [], s, w)" for a n s w
    by (simp add: sample_memory_ops_def)
  have cells: "memoryCells sample_memory = [0, 1, 2, 3, 4, 5, 6, 7]" by (simp add: sample_memory_def memory_helper.extend_def)
  have c: "CMD_MEMORY_CHECK \<in> {CMD_MEMORY_CHECK, CMD_MEMORY_DUMP}" and n: "(4 :: nat) = unat (mem_getLength LITTLE_ENDIAN ?m)" by (simp_all add: m)
  from memory_read_answered[where s = sample_memory, OF action_world_ok(1) m(1)[symmetric] c n room sample_memory_keeps free o]
  show ?thesis using room by (auto simp: m cells queue_added_content room_for_def)
qed

end
