(* ===== verification/DeviceModes.thy ===== *)
theory DeviceModes
  imports HealthModes
begin

text \<open>
  The modes, events and return codes of device handlers (\<open>devicehandlers/DeviceHandlerIF.h\<close>). A mode with one
  of the two transition masks cannot be commanded.
\<close>

definition TRANSITION_MODE_CHILD_ACTION_MASK :: u32 where "TRANSITION_MODE_CHILD_ACTION_MASK = 0x20"
definition TRANSITION_MODE_BASE_ACTION_MASK :: u32 where "TRANSITION_MODE_BASE_ACTION_MASK = 0x10"
definition MODE_NORMAL :: u32 where "MODE_NORMAL = 2"
definition MODE_RAW :: u32 where "MODE_RAW = 3"
definition MODE_ERROR_ON :: u32 where "MODE_ERROR_ON = 4"
definition MODE_START_UP :: u32 where "MODE_START_UP = TRANSITION_MODE_CHILD_ACTION_MASK OR 5"
definition MODE_SHUT_DOWN :: u32 where "MODE_SHUT_DOWN = TRANSITION_MODE_CHILD_ACTION_MASK OR 6"
definition MODE_TO_ON :: u32 where "MODE_TO_ON = TRANSITION_MODE_CHILD_ACTION_MASK OR MODE_ON"
definition MODE_TO_RAW :: u32 where "MODE_TO_RAW = TRANSITION_MODE_CHILD_ACTION_MASK OR MODE_RAW"
definition MODE_TO_NORMAL :: u32 where "MODE_TO_NORMAL = TRANSITION_MODE_CHILD_ACTION_MASK OR MODE_NORMAL"
definition MODE_POWER_DOWN :: u32 where "MODE_POWER_DOWN = TRANSITION_MODE_BASE_ACTION_MASK OR 1"
definition MODE_POWER_ON :: u32 where "MODE_POWER_ON = TRANSITION_MODE_BASE_ACTION_MASK OR 2"
definition MODE_WAIT_OFF :: u32 where "MODE_WAIT_OFF = TRANSITION_MODE_BASE_ACTION_MASK OR 3"
definition MODE_WAIT_ON :: u32 where "MODE_WAIT_ON = TRANSITION_MODE_BASE_ACTION_MASK OR 4"
definition MODE_SWITCH_IS_OFF :: u32 where "MODE_SWITCH_IS_OFF = TRANSITION_MODE_BASE_ACTION_MASK OR 5"

lemmas device_modes = TRANSITION_MODE_CHILD_ACTION_MASK_def TRANSITION_MODE_BASE_ACTION_MASK_def MODE_NORMAL_def MODE_RAW_def
  MODE_ERROR_ON_def MODE_START_UP_def MODE_SHUT_DOWN_def MODE_TO_ON_def MODE_TO_RAW_def MODE_TO_NORMAL_def MODE_POWER_DOWN_def
  MODE_POWER_ON_def MODE_WAIT_OFF_def MODE_WAIT_ON_def MODE_SWITCH_IS_OFF_def MODE_ON_def MODE_OFF_def

definition DEVICE_BUILDING_COMMAND_FAILED :: u32 where "DEVICE_BUILDING_COMMAND_FAILED = MAKE_EVENT 28 0 SEVERITY_LOW"
definition DEVICE_SENDING_COMMAND_FAILED :: u32 where "DEVICE_SENDING_COMMAND_FAILED = MAKE_EVENT 28 1 SEVERITY_LOW"
definition DEVICE_REQUESTING_REPLY_FAILED :: u32 where "DEVICE_REQUESTING_REPLY_FAILED = MAKE_EVENT 28 2 SEVERITY_LOW"
definition DEVICE_READING_REPLY_FAILED :: u32 where "DEVICE_READING_REPLY_FAILED = MAKE_EVENT 28 3 SEVERITY_LOW"
definition DEVICE_INTERPRETING_REPLY_FAILED :: u32 where "DEVICE_INTERPRETING_REPLY_FAILED = MAKE_EVENT 28 4 SEVERITY_LOW"
definition DEVICE_MISSED_REPLY :: u32 where "DEVICE_MISSED_REPLY = MAKE_EVENT 28 5 SEVERITY_LOW"
definition DEVICE_UNKNOWN_REPLY :: u32 where "DEVICE_UNKNOWN_REPLY = MAKE_EVENT 28 6 SEVERITY_LOW"
definition DEVICE_UNREQUESTED_REPLY :: u32 where "DEVICE_UNREQUESTED_REPLY = MAKE_EVENT 28 7 SEVERITY_LOW"
definition INVALID_DEVICE_COMMAND :: u32 where "INVALID_DEVICE_COMMAND = MAKE_EVENT 28 8 SEVERITY_LOW"
definition MONITORING_LIMIT_EXCEEDED :: u32 where "MONITORING_LIMIT_EXCEEDED = MAKE_EVENT 28 9 SEVERITY_LOW"
definition MONITORING_AMBIGUOUS :: u32 where "MONITORING_AMBIGUOUS = MAKE_EVENT 28 10 SEVERITY_HIGH"

definition NO_COMMAND_DATA :: u16 where [retcode]: "NO_COMMAND_DATA = MAKE_RETURN_CODE DEVICE_HANDLER_IF 0xA0"
definition COMMAND_NOT_SUPPORTED :: u16 where [retcode]: "COMMAND_NOT_SUPPORTED = MAKE_RETURN_CODE DEVICE_HANDLER_IF 0xA1"
definition COMMAND_ALREADY_SENT :: u16 where [retcode]: "COMMAND_ALREADY_SENT = MAKE_RETURN_CODE DEVICE_HANDLER_IF 0xA2"
definition COMMAND_WAS_NOT_SENT :: u16 where [retcode]: "COMMAND_WAS_NOT_SENT = MAKE_RETURN_CODE DEVICE_HANDLER_IF 0xA3"
definition CANT_SWITCH_ADDRESS :: u16 where [retcode]: "CANT_SWITCH_ADDRESS = MAKE_RETURN_CODE DEVICE_HANDLER_IF 0xA4"
definition WRONG_MODE_FOR_COMMAND :: u16 where [retcode]: "WRONG_MODE_FOR_COMMAND = MAKE_RETURN_CODE DEVICE_HANDLER_IF 0xA5"
definition DEVICE_TIMEOUT :: u16 where [retcode]: "DEVICE_TIMEOUT = MAKE_RETURN_CODE DEVICE_HANDLER_IF 0xA6"
definition DEVICE_BUSY :: u16 where [retcode]: "DEVICE_BUSY = MAKE_RETURN_CODE DEVICE_HANDLER_IF 0xA7"
definition NO_REPLY_EXPECTED :: u16 where [retcode]: "NO_REPLY_EXPECTED = MAKE_RETURN_CODE DEVICE_HANDLER_IF 0xA8"
definition NON_OP_TEMPERATURE :: u16 where [retcode]: "NON_OP_TEMPERATURE = MAKE_RETURN_CODE DEVICE_HANDLER_IF 0xA9"
definition COMMAND_NOT_IMPLEMENTED :: u16 where [retcode]: "COMMAND_NOT_IMPLEMENTED = MAKE_RETURN_CODE DEVICE_HANDLER_IF 0xAA"
definition CHECKSUM_ERROR :: u16 where [retcode]: "CHECKSUM_ERROR = MAKE_RETURN_CODE DEVICE_HANDLER_IF 0xB0"
definition LENGTH_MISSMATCH :: u16 where [retcode]: "LENGTH_MISSMATCH = MAKE_RETURN_CODE DEVICE_HANDLER_IF 0xB1"
definition DEVICE_INVALID_DATA :: u16 where [retcode]: "DEVICE_INVALID_DATA = MAKE_RETURN_CODE DEVICE_HANDLER_IF 0xB2"
definition PROTOCOL_ERROR :: u16 where [retcode]: "PROTOCOL_ERROR = MAKE_RETURN_CODE DEVICE_HANDLER_IF 0xB3"
definition DEVICE_DID_NOT_EXECUTE :: u16 where [retcode]: "DEVICE_DID_NOT_EXECUTE = MAKE_RETURN_CODE DEVICE_HANDLER_IF 0xC0"
definition DEVICE_REPORTED_ERROR :: u16 where [retcode]: "DEVICE_REPORTED_ERROR = MAKE_RETURN_CODE DEVICE_HANDLER_IF 0xC1"
definition UNKNOW_DEVICE_REPLY :: u16 where [retcode]: "UNKNOW_DEVICE_REPLY = MAKE_RETURN_CODE DEVICE_HANDLER_IF 0xC2"
definition DEVICE_REPLY_INVALID :: u16 where [retcode]: "DEVICE_REPLY_INVALID = MAKE_RETURN_CODE DEVICE_HANDLER_IF 0xC3"
definition INVALID_COMMAND_PARAMETER :: u16 where [retcode]: "INVALID_COMMAND_PARAMETER = MAKE_RETURN_CODE DEVICE_HANDLER_IF 0xD0"
definition INVALID_NUMBER_OR_LENGTH_OF_PARAMETERS :: u16 where
  [retcode]: "INVALID_NUMBER_OR_LENGTH_OF_PARAMETERS = MAKE_RETURN_CODE DEVICE_HANDLER_IF 0xD1"

text \<open>What a child class does with its communication interface in a step of its task.\<close>

datatype communication_action = SEND_WRITE | GET_WRITE | SEND_READ | GET_READ | NOTHING

end
