(* ===== verification/Assembly.thy ===== *)
theory Assembly
  imports SubsystemBase DeviceModes
begin

text \<open>
  \<open>devicehandlers/AssemblyBase.cpp\<close>: an assembly of redundant devices, a subsystem whose child class commands the
  devices. The virtual methods of the child class are the record \<open>assembly_ops\<close>; an iterator into the map of
  the children is the key it points to.
\<close>

subsection \<open>State\<close>

definition NEED_SECOND_STEP :: u16 where [retcode]: "NEED_SECOND_STEP = MAKE_RETURN_CODE ASSEMBLY_BASE 0x01"
definition NEED_TO_RECONFIGURE :: u16 where [retcode]: "NEED_TO_RECONFIGURE = MAKE_RETURN_CODE ASSEMBLY_BASE 0x02"
definition MODE_FALLBACK :: u16 where [retcode]: "MODE_FALLBACK = MAKE_RETURN_CODE ASSEMBLY_BASE 0x03"
definition CHILD_NOT_COMMANDABLE :: u16 where [retcode]: "CHILD_NOT_COMMANDABLE = MAKE_RETURN_CODE ASSEMBLY_BASE 0x04"
definition NEED_TO_CHANGE_HEALTH :: u16 where [retcode]: "NEED_TO_CHANGE_HEALTH = MAKE_RETURN_CODE ASSEMBLY_BASE 0x05"
definition NOT_ENOUGH_CHILDREN_IN_CORRECT_STATE :: u16 where
  [retcode]: "NOT_ENOUGH_CHILDREN_IN_CORRECT_STATE = MAKE_RETURN_CODE ASSEMBLY_BASE 0xa1"
definition POWER_OFF_TIME_MS :: u32 where "POWER_OFF_TIME_MS = 1000"

datatype internal_state = STATE_NONE | STATE_OVERWRITE_HEALTH | STATE_NEED_SECOND_STEP | STATE_SINGLE_STEP | STATE_SECOND_STEP
datatype recovery_state = RECOVERY_IDLE | RECOVERY_STARTED | RECOVERY_ONGOING | RECOVERY_ONGOING_2 | RECOVERY_WAIT

record assembly = subsystem_base +
  internalState :: internal_state
  recoveryState :: recovery_state
  recoveringDevice :: "u32 option"
  asmTargetMode :: u32
  asmTargetSubmode :: u8
  recoveryOffTimer :: countdown

definition newAssembly :: "u32 \<Rightarrow> u32 \<Rightarrow> nat \<Rightarrow> system_world \<Rightarrow> (assembly \<times> system_world) option" where
  "newAssembly objectId parent commandQueueDepth w =
     map_option (\<lambda>(b, qm). case cd_setTimeout POWER_OFF_TIME_MS (w\<lparr>swQueues := qm\<rparr>) of
         (cd, w1) \<Rightarrow> (subsystem_base.extend b \<lparr>internalState = STATE_NONE, recoveryState = RECOVERY_IDLE, recoveringDevice = None,
            asmTargetMode = MODE_OFF, asmTargetSubmode = SUBMODE_NONE, recoveryOffTimer = cd\<rparr>, w1))
       (newSubsystemBase (swQueues w) objectId parent MODE_OFF commandQueueDepth)"

record 's assembly_ops =
  commandChildren :: "u32 \<Rightarrow> u8 \<Rightarrow> 's \<Rightarrow> system_world \<Rightarrow> u16 \<times> 's \<times> system_world"
  isModeCombinationValid :: "u32 \<Rightarrow> u8 \<Rightarrow> 's \<Rightarrow> system_world \<Rightarrow> u16"
  checkChildrenStateOn :: "u32 \<Rightarrow> u8 \<Rightarrow> 's \<Rightarrow> system_world \<Rightarrow> u16"

definition asm_isInTransition :: "'a assembly_scheme \<Rightarrow> bool" where
  "asm_isInTransition s \<longleftrightarrow> internalState s \<noteq> STATE_NONE \<or> recoveryState s \<noteq> RECOVERY_IDLE"

subsection \<open>The children\<close>

text \<open>The object is looked up without a test.\<close>

definition checkChildOff :: "'a assembly_scheme \<Rightarrow> system_world \<Rightarrow> u32 \<Rightarrow> u16 option" where
  "checkChildOff s w objectId =
     map_option (\<lambda>c.
       if ht_isCommandable (healthTable w) objectId then
         (if childSubmode c \<noteq> SUBMODE_NONE then RETURN_FAILED
          else if childMode c \<noteq> MODE_OFF \<and> childMode c \<noteq> MODE_ERROR_ON then RETURN_FAILED else RETURN_OK)
       else RETURN_OK) (map_of (childrenMap s) objectId)"

fun check_children_off :: "'a assembly_scheme \<Rightarrow> system_world \<Rightarrow> (u32 \<times> child_info) list \<Rightarrow> u16" where
  "check_children_off s w [] = RETURN_OK"
| "check_children_off s w ((k, c) # cs) =
     (if checkChildOff s w k \<noteq> Some RETURN_OK then NOT_ENOUGH_CHILDREN_IN_CORRECT_STATE else check_children_off s w cs)"

definition checkChildrenStateOff :: "'a assembly_scheme \<Rightarrow> system_world \<Rightarrow> u16" where
  "checkChildrenStateOff s w = check_children_off s w (childrenMap s)"

definition checkChildrenState :: "'a assembly_scheme assembly_ops \<Rightarrow> 'a assembly_scheme \<Rightarrow> system_world \<Rightarrow> u16" where
  "checkChildrenState ops s w =
     (if asmTargetMode s = MODE_OFF then checkChildrenStateOff s w
      else checkChildrenStateOn ops (asmTargetMode s) (asmTargetSubmode s) s w)"

definition sendHealthCommand ::
  "byte_order \<Rightarrow> u32 \<Rightarrow> u8 \<Rightarrow> 'a assembly_scheme \<Rightarrow> system_world \<Rightarrow> 'a assembly_scheme \<times> system_world" where
  "sendHealthCommand sys sendTo health s w =
     (case sw_send sys sendTo (setHealthMessage sys (newCommandMessage sys) HEALTH_SET health FAULTY) (ownQueue s) w of
        (r, w1) \<Rightarrow> (if r = RETURN_OK then s\<lparr>commandsOutstanding := commandsOutstanding s + 1\<rparr> else s, w1))"

text \<open>The object must be a registered child.\<close>

definition overwriteDeviceHealth ::
  "byte_order \<Rightarrow> u32 \<Rightarrow> u8 \<Rightarrow> 'a assembly_scheme \<Rightarrow> system_world \<Rightarrow> ('a assembly_scheme \<times> system_world) option" where
  "overwriteDeviceHealth sys objectId oldHealth s w =
     map_option (\<lambda>c. sendHealthCommand sys (childQueue c) EXTERNAL_CONTROL
          (s\<lparr>internalState := STATE_OVERWRITE_HEALTH, modeForced := True\<rparr>)
          (triggerEvent (ownerId s) OVERWRITING_HEALTH objectId (ucast oldHealth) w))
       (map_of (childrenMap s) objectId)"

subsection \<open>Transitions\<close>

definition doStartTransition ::
  "'a assembly_scheme assembly_ops \<Rightarrow> u32 \<Rightarrow> u8 \<Rightarrow> 'a assembly_scheme \<Rightarrow> system_world \<Rightarrow> 'a assembly_scheme \<times> system_world" where
  "doStartTransition ops mode submode s w =
     (case commandChildren ops mode submode (s\<lparr>asmTargetMode := mode, asmTargetSubmode := submode, internalState := STATE_SINGLE_STEP\<rparr>) w of
        (result, s1, w1) \<Rightarrow> (if result = NEED_SECOND_STEP then s1\<lparr>internalState := STATE_NEED_SECOND_STEP\<rparr> else s1, w1))"

definition asm_startTransition ::
  "'a assembly_scheme assembly_ops \<Rightarrow> u32 \<Rightarrow> u8 \<Rightarrow> 'a assembly_scheme \<Rightarrow> system_world \<Rightarrow> 'a assembly_scheme \<times> system_world" where
  "asm_startTransition ops mode submode s w =
     (case doStartTransition ops mode submode s w of
        (s1, w1) \<Rightarrow> (s1, triggerEvent (ownerId s1) (if modeForced s1 then FORCING_MODE else CHANGING_MODE) mode (ucast submode) w1))"

definition handleChildrenLostMode ::
  "'a assembly_scheme assembly_ops \<Rightarrow> 'a assembly_scheme \<Rightarrow> system_world \<Rightarrow> 'a assembly_scheme \<times> system_world" where
  "handleChildrenLostMode ops s w =
     asm_startTransition ops MODE_OFF SUBMODE_NONE s (triggerEvent (ownerId s) CANT_KEEP_MODE (sbMode s) (ucast (sbSubmode s)) w)"

text \<open>The flag of the first child whose health changed is taken back.\<close>

fun take_health_change :: "(u32 \<times> child_info) list \<Rightarrow> (u32 \<times> (u32 \<times> child_info) list) option" where
  "take_health_change [] = None"
| "take_health_change ((k, c) # cs) =
     (if healthChanged c then Some (k, (k, c\<lparr>healthChanged := False\<rparr>) # cs)
      else map_option (\<lambda>(d, cs'). (d, (k, c) # cs')) (take_health_change cs))"

definition handleChildrenChangedHealth ::
  "'a assembly_scheme assembly_ops \<Rightarrow> 'a assembly_scheme \<Rightarrow> system_world \<Rightarrow> bool \<times> 'a assembly_scheme \<times> system_world" where
  "handleChildrenChangedHealth ops s w =
     (case take_health_change (childrenMap s) of
        None \<Rightarrow> (False, s, w)
      | Some (device, cs) \<Rightarrow>
          let s1 = s\<lparr>childrenMap := cs\<rparr>;
              started = (if ht_getHealth (healthTable w) device = NEEDS_RECOVERY
                then doStartTransition ops (asmTargetMode s1) (asmTargetSubmode s1)
                       (s1\<lparr>recoveryState := RECOVERY_STARTED, recoveringDevice := Some device\<rparr>) (triggerEvent (ownerId s1) TRYING_RECOVERY 0 0 w)
                else doStartTransition ops (sbMode s1) (sbSubmode s1) s1 (triggerEvent (ownerId s1) CHILD_CHANGED_HEALTH 0 0 w))
          in case started of
               (s2, w2) \<Rightarrow> (True, s2, if modeForced s2
                  then triggerEvent (ownerId s2) FORCING_MODE (asmTargetMode s2) (ucast (asmTargetSubmode s2)) w2 else w2))"

definition handleChildrenChanged ::
  "'a assembly_scheme assembly_ops \<Rightarrow> 'a assembly_scheme \<Rightarrow> system_world \<Rightarrow> bool \<times> 'a assembly_scheme \<times> system_world" where
  "handleChildrenChanged ops s w =
     (if childrenChangedMode s
      then (True, if checkChildrenState ops s w \<noteq> RETURN_OK then handleChildrenLostMode ops s w else (s, w))
      else handleChildrenChangedHealth ops s w)"

definition handleModeReached :: "byte_order \<Rightarrow> 'a assembly_scheme \<Rightarrow> system_world \<Rightarrow> 'a assembly_scheme \<times> system_world" where
  "handleModeReached sys s w =
     sb_setMode sys (asmTargetMode s) (asmTargetSubmode s) (s\<lparr>internalState := STATE_NONE\<rparr>) w"

definition handleModeTransitionFailed ::
  "byte_order \<Rightarrow> 'a assembly_scheme assembly_ops \<Rightarrow> u16 \<Rightarrow> 'a assembly_scheme \<Rightarrow> system_world \<Rightarrow> 'a assembly_scheme \<times> system_world" where
  "handleModeTransitionFailed sys ops result s w =
     (if asmTargetMode s = MODE_OFF
      then sb_setMode sys (asmTargetMode s) (asmTargetSubmode s) (s\<lparr>internalState := STATE_NONE\<rparr>)
             (triggerEvent (ownerId s) CHILD_PROBLEMS (ucast result) 0 w)
      else (case handleChildrenChangedHealth ops s w of
              (handled, s1, w1) \<Rightarrow>
                if handled then (s1, w1)
                else asm_startTransition ops MODE_OFF SUBMODE_NONE s1 (triggerEvent (ownerId s1) MODE_TRANSITION_FAILED (ucast result) 0 w1)))"

text \<open>The recovery of a device; the iterator may be at the end of the map.\<close>

definition checkAndHandleRecovery ::
  "byte_order \<Rightarrow> 'a assembly_scheme assembly_ops \<Rightarrow> 'a assembly_scheme \<Rightarrow> system_world \<Rightarrow> (bool \<times> 'a assembly_scheme \<times> system_world) option" where
  "checkAndHandleRecovery sys ops s w =
     (let device = Option.bind (recoveringDevice s) (\<lambda>d. map_option (Pair d) (map_of (childrenMap s) d)) in
      case recoveryState s of
        RECOVERY_STARTED \<Rightarrow>
          (case cd_resetTimer (recoveryOffTimer s) w of
             (cd, w1) \<Rightarrow> Some (True, s\<lparr>recoveryState := RECOVERY_WAIT, recoveryOffTimer := cd\<rparr>, w1))
      | RECOVERY_WAIT \<Rightarrow>
          (case cd_isBusy (recoveryOffTimer s) w of
             (busy, w1) \<Rightarrow>
               if busy then Some (True, s, w1)
               else map_option (\<lambda>(d, c).
                      case sendHealthCommand sys (childQueue c) HEALTHY s (triggerEvent (ownerId s) RECOVERY_STEP 0 0 w1) of
                        (s2, w2) \<Rightarrow> (True, s2\<lparr>internalState := STATE_NONE, recoveryState := RECOVERY_ONGOING\<rparr>, w2)) device)
      | RECOVERY_ONGOING \<Rightarrow>
          map_option (\<lambda>(d, c).
            case doStartTransition ops (asmTargetMode s) (asmTargetSubmode s)
                   (s\<lparr>recoveryState := RECOVERY_ONGOING_2,
                      childrenMap := map (\<lambda>(k, x). (k, if k = d then x\<lparr>healthChanged := False\<rparr> else x)) (childrenMap s)\<rparr>)
                   (triggerEvent (ownerId s) RECOVERY_STEP 1 0 w) of
              (s1, w1) \<Rightarrow> (True, s1, w1)) device
      | RECOVERY_ONGOING_2 \<Rightarrow> Some (False, s\<lparr>recoveryState := RECOVERY_IDLE\<rparr>, triggerEvent (ownerId s) RECOVERY_DONE 0 0 w)
      | RECOVERY_IDLE \<Rightarrow> Some (False, s, w))"

definition handleChildrenTransition ::
  "byte_order \<Rightarrow> 'a assembly_scheme assembly_ops \<Rightarrow> 'a assembly_scheme \<Rightarrow> system_world \<Rightarrow> ('a assembly_scheme \<times> system_world) option" where
  "handleChildrenTransition sys ops s w =
     (if commandsOutstanding s > 0 then Some (s, w)
      else if internalState s = STATE_NEED_SECOND_STEP
      then Some (snd (commandChildren ops (asmTargetMode s) (asmTargetSubmode s) (s\<lparr>internalState := STATE_SECOND_STEP\<rparr>) w))
      else if internalState s = STATE_OVERWRITE_HEALTH
      then (case commandChildren ops (sbMode s) (sbSubmode s) (s\<lparr>internalState := STATE_SINGLE_STEP\<rparr>) w of
              (result, s1, w1) \<Rightarrow> Some (if result = NEED_SECOND_STEP then s1\<lparr>internalState := STATE_NEED_SECOND_STEP\<rparr> else s1, w1))
      else Option.bind (checkAndHandleRecovery sys ops s w) (\<lambda>(ongoing, s1, w1).
             if ongoing then Some (s1, w1)
             else let result = checkChildrenState ops s1 w1
                  in Some (if result = RETURN_OK then handleModeReached sys s1 w1 else handleModeTransitionFailed sys ops result s1 w1)))"

definition asm_performChildOperation ::
  "byte_order \<Rightarrow> 'a assembly_scheme assembly_ops \<Rightarrow> 'a assembly_scheme \<Rightarrow> system_world \<Rightarrow> ('a assembly_scheme \<times> system_world) option" where
  "asm_performChildOperation sys ops s w =
     (if asm_isInTransition s then handleChildrenTransition sys ops s w else Some (snd (handleChildrenChanged ops s w)))"

subsection \<open>Commands\<close>

text \<open>The timeout is not written.\<close>

definition asm_checkModeCommand ::
  "'a assembly_scheme assembly_ops \<Rightarrow> u32 \<Rightarrow> u8 \<Rightarrow> u32 \<Rightarrow> 'a assembly_scheme \<Rightarrow> system_world \<Rightarrow> u16 \<times> u32" where
  "asm_checkModeCommand ops mode submode raw s w =
     (if mode = MODE_OFF then (if submode \<noteq> SUBMODE_NONE then INVALID_SUBMODE else RETURN_OK)
      else if mode \<noteq> MODE_ON \<and> mode \<noteq> MODE_NORMAL then INVALID_MODE
      else if internalState s \<noteq> STATE_NONE then IN_TRANSITION
      else isModeCombinationValid ops mode submode s w, raw)"

definition handleHealthReply :: "byte_order \<Rightarrow> mq_message \<Rightarrow> 'a assembly_scheme \<Rightarrow> u16 \<times> 'a assembly_scheme" where
  "handleHealthReply sys message s =
     (if getCommand sys message = HEALTH_INFO
      then (RETURN_OK, if msg_getHealth sys message \<noteq> EXTERNAL_CONTROL
                       then snd (updateChildChangedHealth (getSender sys message) True s) else s)
      else if getCommand sys message = REPLY_HEALTH_SET \<or>
              getCommand sys message = REPLY_REJECTED \<and> getParameter2 sys message = ucast HEALTH_SET
      then (RETURN_OK, if asm_isInTransition s then s\<lparr>commandsOutstanding := commandsOutstanding s - 1\<rparr> else s)
      else (RETURN_FAILED, s))"

definition asm_handleCommandMessage ::
  "byte_order \<Rightarrow> mq_message \<Rightarrow> 'a assembly_scheme \<Rightarrow> system_world \<Rightarrow> (u16 \<times> 'a assembly_scheme \<times> system_world) option" where
  "asm_handleCommandMessage sys message s w = (case handleHealthReply sys message s of (r, s1) \<Rightarrow> Some (r, s1, w))"

text \<open>The assembly as a subsystem.\<close>

definition asm_ops :: "byte_order \<Rightarrow> 'a assembly_scheme assembly_ops \<Rightarrow> 'a assembly_scheme subsystem_ops" where
  "asm_ops sys ops =
     \<lparr>checkModeCommand = asm_checkModeCommand ops, startTransition = (\<lambda>m sm s w. Some (asm_startTransition ops m sm s w)),
      setToExternalControl = sb_setToExternalControl sys, announceMode = sb_announceMode sys, ownerMode = sb_getMode,
      ownerSetHealth = sb_setHealth sys, commandMessageHandler = asm_handleCommandMessage sys,
      childOperation = asm_performChildOperation sys ops\<rparr>"

subsection \<open>The recovering device\<close>

text \<open>The part of the state the iterator depends on, and what the child class must leave alone when it commands its children.\<close>

definition recovery_frame :: "'a assembly_scheme \<Rightarrow> recovery_state \<times> u32 option \<times> u32 list" where
  "recovery_frame s = (recoveryState s, recoveringDevice s, map fst (childrenMap s))"

definition keeps_assembly :: "'a assembly_scheme assembly_ops \<Rightarrow> bool" where
  "keeps_assembly ops \<longleftrightarrow> (\<forall>m sm s w. case commandChildren ops m sm s w of (r, s', w') \<Rightarrow>
     recovery_frame s' = recovery_frame s \<and> sb_getMode s' = sb_getMode s \<and>
     asmTargetMode s' = asmTargetMode s \<and> asmTargetSubmode s' = asmTargetSubmode s)"

lemma keeps_assemblyD:
  assumes "keeps_assembly ops" "commandChildren ops m sm s w = (r, s', w')"
  shows "recovery_frame s' = recovery_frame s" "sb_getMode s' = sb_getMode s" "asmTargetMode s' = asmTargetMode s"
    "asmTargetSubmode s' = asmTargetSubmode s"
  using assms(1)[unfolded keeps_assembly_def, rule_format, where m = m and sm = sm and s = s and w = w] assms(2) by simp_all

definition asm_inv :: "'a assembly_scheme \<Rightarrow> bool" where
  "asm_inv s \<longleftrightarrow> (recoveryState s \<noteq> RECOVERY_IDLE \<longrightarrow> (\<exists>d. recoveringDevice s = Some d \<and> d \<in> set (map fst (childrenMap s))))"

lemma asm_inv_frame: "recovery_frame s' = recovery_frame s \<Longrightarrow> asm_inv s' = asm_inv s"
  by (simp add: asm_inv_def recovery_frame_def)

lemma frame_simps [simp]:
  "recovery_frame (s\<lparr>internalState := i\<rparr>) = recovery_frame s" "recovery_frame (s\<lparr>asmTargetMode := m\<rparr>) = recovery_frame s"
  "recovery_frame (s\<lparr>asmTargetSubmode := sm\<rparr>) = recovery_frame s" "recovery_frame (s\<lparr>modeForced := b\<rparr>) = recovery_frame s"
  "recovery_frame (s\<lparr>commandsOutstanding := n\<rparr>) = recovery_frame s" "recovery_frame (s\<lparr>sbMode := m\<rparr>) = recovery_frame s"
  "recovery_frame (s\<lparr>sbSubmode := sm\<rparr>) = recovery_frame s" "recovery_frame (s\<lparr>theOneWhoCommandedAMode := q\<rparr>) = recovery_frame s"
  "recovery_frame (s\<lparr>commandedMode := m\<rparr>) = recovery_frame s" "recovery_frame (s\<lparr>commandedSubmode := sm\<rparr>) = recovery_frame s"
  "recovery_frame (s\<lparr>modeCountdown := c\<rparr>) = recovery_frame s" "recovery_frame (s\<lparr>childrenChangedMode := b\<rparr>) = recovery_frame s"
  "recovery_frame (s\<lparr>recoveryOffTimer := c\<rparr>) = recovery_frame s"
  by (simp_all add: recovery_frame_def)

lemma getMode_simps [simp]:
  "sb_getMode (s\<lparr>internalState := i\<rparr>) = sb_getMode s" "sb_getMode (s\<lparr>asmTargetMode := m\<rparr>) = sb_getMode s"
  "sb_getMode (s\<lparr>asmTargetSubmode := sm\<rparr>) = sb_getMode s" "sb_getMode (s\<lparr>commandsOutstanding := n\<rparr>) = sb_getMode s"
  "sb_getMode (s\<lparr>recoveryState := r\<rparr>) = sb_getMode s" "sb_getMode (s\<lparr>recoveringDevice := d\<rparr>) = sb_getMode s"
  "sb_getMode (s\<lparr>childrenMap := cs\<rparr>) = sb_getMode s" "sb_getMode (s\<lparr>recoveryOffTimer := c\<rparr>) = sb_getMode s"
  by (simp_all add: sb_getMode_def)

lemma sendHealthCommand_frame [simp]:
  "recovery_frame (fst (sendHealthCommand sys q h s w)) = recovery_frame s" "sb_getMode (fst (sendHealthCommand sys q h s w)) = sb_getMode s"
  by (simp_all add: sendHealthCommand_def split: prod.splits)

lemma doStartTransition_keeps:
  assumes "keeps_assembly ops" "doStartTransition ops m sm s w = (s', w')"
  shows "recovery_frame s' = recovery_frame s" "sb_getMode s' = sb_getMode s" "asmTargetMode s' = m" "asmTargetSubmode s' = sm"
  using assms(2) keeps_assemblyD[OF assms(1)]
  by (auto simp: doStartTransition_def split: prod.splits if_splits)

lemma asm_startTransition_keeps:
  assumes "keeps_assembly ops" "asm_startTransition ops m sm s w = (s', w')"
  shows "recovery_frame s' = recovery_frame s" "sb_getMode s' = sb_getMode s" "asmTargetMode s' = m" "asmTargetSubmode s' = sm"
  using assms(2) doStartTransition_keeps[OF assms(1)] by (auto simp: asm_startTransition_def split: prod.splits)

lemma sb_setMode_frame:
  "recovery_frame (fst (sb_setMode sys m sm s w)) = recovery_frame s" "sb_getMode (fst (sb_setMode sys m sm s w)) = (m, sm)"
  by (simp_all add: sb_setMode_def mh_modeChanged_def sb_announceMode_def sb_getMode_def Let_def)

lemma sw_send_events [simp]: "events (snd (sw_send sys q m src w)) = events w"
  by (simp add: sw_send_def sw_send_again_def split: prod.splits)

lemma sb_setMode_events: "set (events w) \<subseteq> set (events (snd (sb_setMode sys m sm s w)))"
proof -
  have "events (snd (mh_modeChanged sys m sm s w)) = events w"
    by (simp add: mh_modeChanged_def sendModeReplyMessage_def sendModeInfoMessage_def Let_def)
  then show ?thesis
    by (cases "mh_modeChanged sys m sm s w") (auto simp: sb_setMode_def sb_announceMode_def Let_def triggerEvent_def)
qed

lemma take_health_change_keys:
  "take_health_change cs = Some (d, cs') \<Longrightarrow> map fst cs' = map fst cs \<and> d \<in> set (map fst cs)"
  by (induction cs arbitrary: d cs') (auto split: if_splits)

lemma changed_health_inv:
  assumes "keeps_assembly ops" "asm_inv s" "handleChildrenChangedHealth ops s w = (b, s', w')"
  shows "asm_inv s'" "sb_getMode s' = sb_getMode s"
proof -
  show "asm_inv s'"
  proof (cases "take_health_change (childrenMap s)")
    case None then show ?thesis using assms by (simp add: handleChildrenChangedHealth_def)
  next
    case (Some p)
    obtain d cs where t: "take_health_change (childrenMap s) = Some (d, cs)" using Some by (cases p) simp
    note k = take_health_change_keys[OF t]
    let ?s1 = "s\<lparr>childrenMap := cs\<rparr>"
    have i1: "asm_inv ?s1" using assms(2) k by (simp add: asm_inv_def)
    have i2: "asm_inv (?s1\<lparr>recoveryState := RECOVERY_STARTED, recoveringDevice := Some d\<rparr>)" using k by (simp add: asm_inv_def)
    have r: "asm_inv s2" if "doStartTransition ops m sm s1 w1 = (s2, w2)" "asm_inv s1" for m sm s1 w1 s2 w2
      using doStartTransition_keeps(1)[OF assms(1) that(1)] asm_inv_frame[of s2 s1] that(2) by simp
    show ?thesis
      using assms(3) r i1 i2 by (auto simp: handleChildrenChangedHealth_def t Let_def split: prod.splits if_splits)
  qed
  show "sb_getMode s' = sb_getMode s"
    using assms(3) doStartTransition_keeps(2)[OF assms(1)]
    by (auto simp: handleChildrenChangedHealth_def Let_def split: option.splits prod.splits if_splits)
qed

lemma changed_inv:
  assumes "keeps_assembly ops" "asm_inv s" "handleChildrenChanged ops s w = (b, s', w')"
  shows "asm_inv s'" "sb_getMode s' = sb_getMode s"
  using assms(3) changed_health_inv[OF assms(1,2)] asm_startTransition_keeps(1,2)[OF assms(1)] asm_inv_frame[of s' s] assms(2)
  by (auto simp: handleChildrenChanged_def handleChildrenLostMode_def split: if_splits)

lemma recovery_returns:
  assumes "keeps_assembly ops" "asm_inv s"
  shows "\<exists>b s' w'. checkAndHandleRecovery sys ops s w = Some (b, s', w') \<and> asm_inv s' \<and> sb_getMode s' = sb_getMode s
    \<and> (\<not> b \<longrightarrow> s' = s\<lparr>recoveryState := RECOVERY_IDLE\<rparr> \<and> (w' = w \<or> w' = triggerEvent (ownerId s) RECOVERY_DONE 0 0 w))"
proof (cases "recoveryState s")
  case RECOVERY_IDLE
  then have "s\<lparr>recoveryState := RECOVERY_IDLE\<rparr> = s" by (cases s) simp
  then show ?thesis using assms(2) RECOVERY_IDLE by (intro exI[of _ False]) (simp add: checkAndHandleRecovery_def Let_def)
next
  case RECOVERY_STARTED
  obtain cd w1 where "cd_resetTimer (recoveryOffTimer s) w = (cd, w1)" by (cases "cd_resetTimer (recoveryOffTimer s) w")
  then show ?thesis using assms(2) RECOVERY_STARTED
    by (intro exI[of _ True]) (simp add: checkAndHandleRecovery_def Let_def asm_inv_def)
next
  case RECOVERY_ONGOING_2
  then show ?thesis by (intro exI[of _ False]) (simp add: checkAndHandleRecovery_def Let_def asm_inv_def)
next
  case RECOVERY_WAIT
  obtain d c where d: "recoveringDevice s = Some d" "map_of (childrenMap s) d = Some c"
    using assms(2) RECOVERY_WAIT by (auto simp: asm_inv_def map_of_eq_None_iff dest: weak_map_of_SomeI)
  obtain busy w1 where b: "cd_isBusy (recoveryOffTimer s) w = (busy, w1)" by (cases "cd_isBusy (recoveryOffTimer s) w")
  obtain s2 w2 where h: "sendHealthCommand sys (childQueue c) HEALTHY s (triggerEvent (ownerId s) RECOVERY_STEP 0 0 w1) = (s2, w2)"
    by (cases "sendHealthCommand sys (childQueue c) HEALTHY s (triggerEvent (ownerId s) RECOVERY_STEP 0 0 w1)")
  have f: "recovery_frame s2 = recovery_frame s" "sb_getMode s2 = sb_getMode s"
    using sendHealthCommand_frame[of sys "childQueue c" HEALTHY s "triggerEvent (ownerId s) RECOVERY_STEP 0 0 w1"] h by simp_all
  have "d \<in> set (map fst (childrenMap s))" using map_of_SomeD[OF d(2)] by force
  then have "asm_inv (s2\<lparr>internalState := STATE_NONE, recoveryState := RECOVERY_ONGOING\<rparr>)"
    using f(1) d(1) by (simp add: asm_inv_def recovery_frame_def del: set_map)
  then show ?thesis using RECOVERY_WAIT d b h f(2) assms(2)
    by (intro exI[of _ True]) (simp add: checkAndHandleRecovery_def Let_def)
next
  case RECOVERY_ONGOING
  obtain d c where d: "recoveringDevice s = Some d" "map_of (childrenMap s) d = Some c"
    using assms(2) RECOVERY_ONGOING by (auto simp: asm_inv_def map_of_eq_None_iff dest: weak_map_of_SomeI)
  let ?s1 = "s\<lparr>recoveryState := RECOVERY_ONGOING_2,
     childrenMap := map (\<lambda>(k, x). (k, if k = d then x\<lparr>healthChanged := False\<rparr> else x)) (childrenMap s)\<rparr>"
  obtain s2 w2 where h: "doStartTransition ops (asmTargetMode s) (asmTargetSubmode s) ?s1 (triggerEvent (ownerId s) RECOVERY_STEP 1 0 w) = (s2, w2)"
    by (cases "doStartTransition ops (asmTargetMode s) (asmTargetSubmode s) ?s1 (triggerEvent (ownerId s) RECOVERY_STEP 1 0 w)")
  have "map fst (map (\<lambda>(k, x). (k, if k = d then x\<lparr>healthChanged := False\<rparr> else x)) (childrenMap s)) = map fst (childrenMap s)"
    by (simp add: case_prod_beta comp_def)
  then have "asm_inv ?s1" using assms(2) RECOVERY_ONGOING by (simp add: asm_inv_def del: map_map list.map_comp)
  then have "asm_inv s2" "sb_getMode s2 = sb_getMode s"
    using doStartTransition_keeps[OF assms(1) h] asm_inv_frame by auto
  then show ?thesis using RECOVERY_ONGOING d h by (intro exI[of _ True]) (simp add: checkAndHandleRecovery_def Let_def)
qed

lemma transition_failed_inv:
  assumes "keeps_assembly ops" "asm_inv s" "handleModeTransitionFailed sys ops r s w = (s', w')"
  shows "asm_inv s'"
    and "sb_getMode s' \<noteq> sb_getMode s \<Longrightarrow> asmTargetMode s = MODE_OFF \<and> sb_getMode s' = (asmTargetMode s, asmTargetSubmode s)"
proof -
  obtain b s1 w1 where h: "handleChildrenChangedHealth ops s w = (b, s1, w1)" by (cases "handleChildrenChangedHealth ops s w")
  obtain s2 w2 where t: "asm_startTransition ops MODE_OFF SUBMODE_NONE s1
      (triggerEvent (ownerId s1) MODE_TRANSITION_FAILED (ucast r) 0 w1) = (s2, w2)"
    by (cases "asm_startTransition ops MODE_OFF SUBMODE_NONE s1 (triggerEvent (ownerId s1) MODE_TRANSITION_FAILED (ucast r) 0 w1)")
  note f = sb_setMode_frame[of sys "asmTargetMode s" "asmTargetSubmode s" "s\<lparr>internalState := STATE_NONE\<rparr>"
      "triggerEvent (ownerId s) CHILD_PROBLEMS (ucast r) 0 w"]
  note c = changed_health_inv[OF assms(1,2) h] asm_startTransition_keeps[OF assms(1) t]
  have *: "asm_inv s' \<and> (sb_getMode s' \<noteq> sb_getMode s \<longrightarrow>
      asmTargetMode s = MODE_OFF \<and> sb_getMode s' = (asmTargetMode s, asmTargetSubmode s))"
  proof (cases "asmTargetMode s = MODE_OFF")
    case True
    then have "s' = fst (sb_setMode sys (asmTargetMode s) (asmTargetSubmode s) (s\<lparr>internalState := STATE_NONE\<rparr>)
        (triggerEvent (ownerId s) CHILD_PROBLEMS (ucast r) 0 w))"
      using assms(3) by (simp add: handleModeTransitionFailed_def)
    then show ?thesis using f asm_inv_frame[of s' s] assms(2) True by simp
  next
    case False
    then show ?thesis using assms(3) c h t asm_inv_frame[of s2 s1] by (auto simp: handleModeTransitionFailed_def split: if_splits)
  qed
  then show "asm_inv s'" "sb_getMode s' \<noteq> sb_getMode s \<Longrightarrow> asmTargetMode s = MODE_OFF \<and> sb_getMode s' = (asmTargetMode s, asmTargetSubmode s)"
    by simp_all
qed

text \<open>A step of the children's transition, by the state it starts from.\<close>

lemma transition_cases:
  assumes "keeps_assembly ops" "asm_inv s"
  obtains (wait) "commandsOutstanding s > 0" "handleChildrenTransition sys ops s w = Some (s, w)"
  | (command) s1 w1 where "commandsOutstanding s \<le> 0" "handleChildrenTransition sys ops s w = Some (s1, w1)" "asm_inv s1"
      "sb_getMode s1 = sb_getMode s"
  | (check) s1 w1 where "commandsOutstanding s \<le> 0" "s1 = s\<lparr>recoveryState := RECOVERY_IDLE\<rparr>"
      "w1 = w \<or> w1 = triggerEvent (ownerId s) RECOVERY_DONE 0 0 w" "internalState s \<notin> {STATE_NEED_SECOND_STEP, STATE_OVERWRITE_HEALTH}"
      "handleChildrenTransition sys ops s w = Some (let result = checkChildrenState ops s1 w1
         in if result = RETURN_OK then handleModeReached sys s1 w1 else handleModeTransitionFailed sys ops result s1 w1)"
proof (cases "commandsOutstanding s > 0")
  case True then show thesis using wait by (simp add: handleChildrenTransition_def)
next
  case o: False
  show thesis
  proof (cases "internalState s \<in> {STATE_NEED_SECOND_STEP, STATE_OVERWRITE_HEALTH}")
    case True
    then consider "internalState s = STATE_NEED_SECOND_STEP" | "internalState s = STATE_OVERWRITE_HEALTH" by blast
    then show thesis
    proof cases
      case 1
      obtain r s1 w1 where c: "commandChildren ops (asmTargetMode s) (asmTargetSubmode s) (s\<lparr>internalState := STATE_SECOND_STEP\<rparr>) w = (r, s1, w1)"
        by (cases "commandChildren ops (asmTargetMode s) (asmTargetSubmode s) (s\<lparr>internalState := STATE_SECOND_STEP\<rparr>) w")
      show thesis using o 1 c keeps_assemblyD[OF assms(1) c] asm_inv_frame[of s1 s] assms(2)
        by (intro command[of s1 w1]) (simp_all add: handleChildrenTransition_def)
    next
      case 2
      obtain r s1 w1 where c: "commandChildren ops (sbMode s) (sbSubmode s) (s\<lparr>internalState := STATE_SINGLE_STEP\<rparr>) w = (r, s1, w1)"
        by (cases "commandChildren ops (sbMode s) (sbSubmode s) (s\<lparr>internalState := STATE_SINGLE_STEP\<rparr>) w")
      let ?s2 = "if r = NEED_SECOND_STEP then s1\<lparr>internalState := STATE_NEED_SECOND_STEP\<rparr> else s1"
      show thesis using o 2 c keeps_assemblyD[OF assms(1) c] asm_inv_frame[of ?s2 s] assms(2)
        by (intro command[of ?s2 w1]) (simp_all add: handleChildrenTransition_def)
    qed
  next
    case False
    obtain b s1 w1 where r: "checkAndHandleRecovery sys ops s w = Some (b, s1, w1)" "asm_inv s1" "sb_getMode s1 = sb_getMode s"
        "\<not> b \<longrightarrow> s1 = s\<lparr>recoveryState := RECOVERY_IDLE\<rparr> \<and> (w1 = w \<or> w1 = triggerEvent (ownerId s) RECOVERY_DONE 0 0 w)"
      using recovery_returns[OF assms, of sys w] by blast
    have h: "handleChildrenTransition sys ops s w = (if b then Some (s1, w1) else
        Some (let result = checkChildrenState ops s1 w1
         in if result = RETURN_OK then handleModeReached sys s1 w1 else handleModeTransitionFailed sys ops result s1 w1))"
      using o False r(1) by (simp add: handleChildrenTransition_def Let_def)
    show thesis
    proof (cases b)
      case True then show thesis using command[of s1 w1] o h r by simp
    next
      case b: False then show thesis using check[of s1 w1] o h r(4) False by simp
    qed
  qed
qed

lemma asm_child_operation_inv:
  assumes "keeps_assembly ops" "asm_inv s"
  shows "\<exists>s' w'. asm_performChildOperation sys ops s w = Some (s', w') \<and> asm_inv s'"
proof (cases "asm_isInTransition s")
  case False
  obtain b s1 w1 where c: "handleChildrenChanged ops s w = (b, s1, w1)" by (cases "handleChildrenChanged ops s w")
  show ?thesis using False c changed_inv(1)[OF assms c] by (simp add: asm_performChildOperation_def)
next
  case True
  show ?thesis
  proof (rule transition_cases[OF assms, of sys w], goal_cases)
    case 1 then show ?case using True assms(2) by (simp add: asm_performChildOperation_def)
  next
    case (2 s1 w1) then show ?case using True by (simp add: asm_performChildOperation_def)
  next
    case (3 s1 w1)
    have i1: "asm_inv s1" using 3(2) by (simp add: asm_inv_def)
    let ?r = "checkChildrenState ops s1 w1"
    have i2: "asm_inv (fst (handleModeReached sys s1 w1))"
      using asm_inv_frame[of "fst (handleModeReached sys s1 w1)" s1] i1 sb_setMode_frame(1)[of sys "asmTargetMode s1" "asmTargetSubmode s1" "s1\<lparr>internalState := STATE_NONE\<rparr>" w1]
      by (simp add: handleModeReached_def)
    obtain s2 w2 where f: "handleModeTransitionFailed sys ops ?r s1 w1 = (s2, w2)" by (cases "handleModeTransitionFailed sys ops ?r s1 w1")
    show ?case using True 3(5) i2 transition_failed_inv(1)[OF assms(1) i1 f] f
      by (cases "handleModeReached sys s1 w1") (simp add: asm_performChildOperation_def Let_def)
  qed
qed

subsection \<open>Reachable states\<close>

lemma change_child_keys: "change_child q f cs = Some cs' \<Longrightarrow> map fst cs' = map fst cs"
  by (induction q f cs arbitrary: cs' rule: change_child.induct) (auto split: if_splits)

lemma update_child_frame [simp]:
  "recovery_frame (snd (updateChildMode q m sm s)) = recovery_frame s"
  "recovery_frame (snd (updateChildChangedHealth q b s)) = recovery_frame s"
  by (auto simp: updateChildMode_def updateChildChangedHealth_def recovery_frame_def dest: change_child_keys split: option.splits)

lemma handleModeReply_frame: "handleModeReply sys m s w = (r, s', w') \<Longrightarrow> recovery_frame s' = recovery_frame s"
  by (auto simp: handleModeReply_def Let_def split: if_splits)

lemma handleHealthReply_frame: "recovery_frame (snd (handleHealthReply sys m s)) = recovery_frame s"
  by (simp add: handleHealthReply_def)

lemma handleHealthCommand_frame:
  "handleHealthCommand sys (owner_ops.truncate (asm_ops sys ops)) m s w = (r, s', w') \<Longrightarrow> s' = s"
  by (auto simp: handleHealthCommand_def handleSetHealthCommand_def asm_ops_def owner_ops.truncate_def sb_setHealth_def Let_def split: if_splits)

lemma handleModeCommand_frame:
  assumes "keeps_assembly ops" "handleModeCommand sys (owner_ops.truncate (asm_ops sys ops)) raw m s w = Some (r, s', w')"
  shows "recovery_frame s' = recovery_frame s"
proof -
  have t: "asm_startTransition ops a b x v = (y, v') \<Longrightarrow> recovery_frame y = recovery_frame x" for a b x v y v'
    using asm_startTransition_keeps(1)[OF assms(1)] by blast
  show ?thesis
    using assms(2) t
    by (auto simp: handleModeCommand_cases asm_ops_def owner_ops.truncate_def sb_setToExternalControl_def sb_announceMode_def Let_def
        split: prod.splits if_splits)
qed

lemma asm_dispatch_inv:
  assumes "keeps_assembly ops" "asm_inv s" "sb_dispatch sys (asm_ops sys ops) raw m s w = Some (s', w')"
  shows "asm_inv s'"
proof -
  let ?o = "owner_ops.truncate (asm_ops sys ops)"
  obtain r1 s1 w1 where h: "handleHealthCommand sys ?o m s w = (r1, s1, w1)" by (cases "handleHealthCommand sys ?o m s w")
  have s1: "s1 = s" using handleHealthCommand_frame[OF h] .
  have "recovery_frame s' = recovery_frame s"
  proof (cases "r1 = RETURN_OK")
    case True then show ?thesis using assms(3) h s1 by (simp add: sb_dispatch_def)
  next
    case r1: False
    obtain r2 s2 w2 where c: "handleModeCommand sys ?o raw m s1 w1 = Some (r2, s2, w2)"
      using assms(3) h r1 by (auto simp: sb_dispatch_def split: bind_splits)
    have f2: "recovery_frame s2 = recovery_frame s" using handleModeCommand_frame[OF assms(1) c] s1 by simp
    obtain r3 s3 w3 where p: "handleModeReply sys m s2 w2 = (r3, s3, w3)" by (cases "handleModeReply sys m s2 w2")
    have f3: "recovery_frame s3 = recovery_frame s" using handleModeReply_frame[OF p] f2 by simp
    have m: "commandMessageHandler (asm_ops sys ops) m s3 w3 = Some (fst (handleHealthReply sys m s3), snd (handleHealthReply sys m s3), w3)"
      by (simp add: asm_ops_def asm_handleCommandMessage_def split_def)
    show ?thesis using assms(3) h r1 c p m f2 f3 handleHealthReply_frame[of sys m s3]
      by (auto simp: sb_dispatch_def split: if_splits)
  qed
  then show ?thesis using asm_inv_frame[of s' s] assms(2) by simp
qed

text \<open>An assembly with its children after construction, any messages and any cycles.\<close>

inductive asm_reachable :: "byte_order \<Rightarrow> 'a assembly_scheme assembly_ops \<Rightarrow> u32 \<Rightarrow> 'a assembly_scheme \<Rightarrow> bool"
  for sys :: byte_order and ops :: "'a assembly_scheme assembly_ops" and raw :: u32 where
  start: "recoveryState s = RECOVERY_IDLE \<Longrightarrow> asm_reachable sys ops raw s"
| child: "asm_reachable sys ops raw s \<Longrightarrow> asm_reachable sys ops raw (snd (registerChild modes health objectId s))"
| message: "asm_reachable sys ops raw s \<Longrightarrow> sb_dispatch sys (asm_ops sys ops) raw m (s\<lparr>childrenChangedMode := b\<rparr>) w = Some (s', w')
    \<Longrightarrow> asm_reachable sys ops raw s'"
| cycle: "asm_reachable sys ops raw s \<Longrightarrow> asm_performChildOperation sys ops s w = Some (s', w') \<Longrightarrow> asm_reachable sys ops raw s'"

lemma asm_reachable_inv:
  assumes "asm_reachable sys ops raw s" "keeps_assembly ops"
  shows "asm_inv s"
  using assms
proof (induction rule: asm_reachable.induct)
  case (start s) then show ?case by (simp add: asm_inv_def)
next
  case (child s modes health objectId)
  then show ?case by (auto simp: asm_inv_def registerChild_def set_insort_key split: option.splits prod.splits)
next
  case (message s m b w s' w')
  have "asm_inv (s\<lparr>childrenChangedMode := b\<rparr>)" using message asm_inv_frame[of "s\<lparr>childrenChangedMode := b\<rparr>" s] by simp
  then show ?case using asm_dispatch_inv[OF message.prems _ message.hyps(2)] by simp
next
  case (cycle s w s' w')
  then show ?case using asm_child_operation_inv[OF cycle.prems, of s sys w] by auto
qed

subsection \<open>Properties\<close>

text \<open>
  C5. The iterator to the device in recovery is only followed while it points to a child: in every state an assembly can
  reach by registering children, by messages and by cycles, a cycle returns, and a recovery that is under way names a child.
\<close>

theorem assembly_never_stuck:
  assumes "asm_reachable sys ops raw s" "keeps_assembly ops"
  shows "(\<exists>s' w'. asm_performChildOperation sys ops s w = Some (s', w'))
    \<and> (recoveryState s \<noteq> RECOVERY_IDLE \<longrightarrow> (\<exists>d c. recoveringDevice s = Some d \<and> map_of (childrenMap s) d = Some c))"
  using asm_reachable_inv[OF assms] asm_child_operation_inv[OF assms(2), of s sys w]
  by (auto simp: asm_inv_def map_of_eq_None_iff simp flip: not_None_eq)

text \<open>
  C6. An assembly changes its mode only at the end of a transition, when no command is outstanding, to the mode this
  transition aims at; and then the state of the children has been checked against it and was right, unless the target is off,
  which is accepted with an event about the problem.
\<close>

theorem assembly_mode_checked:
  assumes "keeps_assembly ops" "asm_inv s" "asm_performChildOperation sys ops s w = Some (s', w')"
    and "(sbMode s', sbSubmode s') \<noteq> (sbMode s, sbSubmode s)"
  shows "(sbMode s', sbSubmode s') = (asmTargetMode s, asmTargetSubmode s) \<and> asm_isInTransition s \<and> commandsOutstanding s \<le> 0 \<and>
    (\<exists>w1. checkChildrenState ops (s\<lparr>recoveryState := RECOVERY_IDLE\<rparr>) w1 = RETURN_OK \<or>
       asmTargetMode s = MODE_OFF \<and> (ownerId s, CHILD_PROBLEMS, ucast (checkChildrenState ops (s\<lparr>recoveryState := RECOVERY_IDLE\<rparr>) w1), 0)
         \<in> set (events w'))"
proof -
  have m: "sb_getMode s' \<noteq> sb_getMode s" using assms(4) by (simp add: sb_getMode_def)
  have tr: "asm_isInTransition s"
  proof (rule ccontr)
    assume "\<not> asm_isInTransition s"
    moreover obtain b s1 w1 where c: "handleChildrenChanged ops s w = (b, s1, w1)" by (cases "handleChildrenChanged ops s w")
    ultimately show False using assms(3) changed_inv(2)[OF assms(1,2) c] m by (simp add: asm_performChildOperation_def)
  qed
  then have h: "handleChildrenTransition sys ops s w = Some (s', w')" using assms(3) by (simp add: asm_performChildOperation_def)
  show ?thesis
  proof (rule transition_cases[OF assms(1,2), of sys w], goal_cases)
    case 1 then show ?case using h m by simp
  next
    case (2 s1 w1) then show ?case using h m by simp
  next
    case (3 s1 w1)
    have same: "sb_getMode s1 = sb_getMode s" "asmTargetMode s1 = asmTargetMode s" "asmTargetSubmode s1 = asmTargetSubmode s" "ownerId s1 = ownerId s"
      using 3(2) by simp_all
    show ?case
    proof (cases "checkChildrenState ops s1 w1 = RETURN_OK")
      case True
      then have "s' = fst (handleModeReached sys s1 w1)" using h 3(5) by (simp add: Let_def)
      then have "sb_getMode s' = (asmTargetMode s, asmTargetSubmode s)"
        using sb_setMode_frame(2)[of sys "asmTargetMode s1" "asmTargetSubmode s1" "s1\<lparr>internalState := STATE_NONE\<rparr>" w1] same
        by (simp add: handleModeReached_def)
      then show ?thesis using True 3(1,2) tr by (auto simp: sb_getMode_def)
    next
      case False
      let ?r = "checkChildrenState ops s1 w1"
      have f: "handleModeTransitionFailed sys ops ?r s1 w1 = (s', w')" using h 3(5) False by (simp add: Let_def)
      have i1: "asm_inv s1" using 3(2) by (simp add: asm_inv_def)
      have off: "asmTargetMode s = MODE_OFF" "sb_getMode s' = (asmTargetMode s, asmTargetSubmode s)"
        using transition_failed_inv(2)[OF assms(1) i1 f] m same by simp_all
      have "w' = snd (sb_setMode sys (asmTargetMode s1) (asmTargetSubmode s1) (s1\<lparr>internalState := STATE_NONE\<rparr>)
          (triggerEvent (ownerId s1) CHILD_PROBLEMS (ucast ?r) 0 w1))"
        using f off(1) same by (simp add: handleModeTransitionFailed_def)
      moreover have "(ownerId s, CHILD_PROBLEMS, ucast ?r, 0) \<in> set (events (triggerEvent (ownerId s1) CHILD_PROBLEMS (ucast ?r) 0 w1))"
        using same(4) by (simp add: triggerEvent_def)
      ultimately have "(ownerId s, CHILD_PROBLEMS, ucast ?r, 0) \<in> set (events w')" using sb_setMode_events by blast
      then show ?thesis using off 3(1,2) tr by (auto simp: sb_getMode_def)
    qed
  qed
qed

text \<open>
  A child class as \<open>AssemblyBase.h\<close> describes it: commanding the children may send any number of commands and may overwrite
  the health of a child, which \<open>overwriteDeviceHealth\<close> notes in the internal state; it leaves the recovery and the target alone.
\<close>

definition obedient_assembly :: "'a assembly_scheme assembly_ops \<Rightarrow> bool" where
  "obedient_assembly ops \<longleftrightarrow> (\<forall>m sm s w. case commandChildren ops m sm s w of (r, s', w') \<Rightarrow>
     recoveryState s' = recoveryState s \<and> asmTargetMode s' = asmTargetMode s
     \<and> internalState s' \<in> {internalState s, STATE_OVERWRITE_HEALTH})"

lemma obedient_assemblyD:
  assumes "obedient_assembly ops" "commandChildren ops m sm s w = (r, s', w')"
  shows "recoveryState s' = recoveryState s" "asmTargetMode s' = asmTargetMode s"
    "internalState s' = internalState s \<or> internalState s' = STATE_OVERWRITE_HEALTH"
  using assms(1)[unfolded obedient_assembly_def, rule_format, where m = m and sm = sm and s = s and w = w] assms(2) by simp_all

text \<open>
  Between two cycles answers come in, which change the number of outstanding commands and the modes of the children, but no
  mode command, no recovery and no change of a health.
\<close>

definition undisturbed :: "'a assembly_scheme \<Rightarrow> 'a assembly_scheme \<Rightarrow> bool" where
  "undisturbed t s \<longleftrightarrow> internalState s = internalState t \<and> asmTargetMode s = asmTargetMode t \<and> recoveryState s = recoveryState t
     \<and> take_health_change (childrenMap s) = None"

text \<open>The cycles that are left: the steps of the commanding, and those of the way to off if the target is another mode.\<close>

definition cycles_left :: "'a assembly_scheme \<Rightarrow> nat" where
  "cycles_left s = (if asmTargetMode s = MODE_OFF then 0 else 3) +
     (case internalState s of STATE_NONE \<Rightarrow> 0 | STATE_SINGLE_STEP \<Rightarrow> 1 | STATE_SECOND_STEP \<Rightarrow> 1 | STATE_NEED_SECOND_STEP \<Rightarrow> 2
      | STATE_OVERWRITE_HEALTH \<Rightarrow> 3)"

lemma cycles_left_bounds: "cycles_left s \<le> 6" "internalState s \<noteq> STATE_NONE \<Longrightarrow> 0 < cycles_left s"
  by (auto simp: cycles_left_def split: internal_state.splits)

lemma sb_setMode_settled:
  "internalState (fst (sb_setMode sys m sm (s\<lparr>internalState := STATE_NONE\<rparr>) w)) = STATE_NONE"
  "recoveryState (fst (sb_setMode sys m sm (s\<lparr>internalState := STATE_NONE\<rparr>) w)) = recoveryState s"
  by (simp_all add: sb_setMode_def mh_modeChanged_def sb_announceMode_def Let_def)

text \<open>A cycle that does not wait for an answer ends the transition, overwrites a health, or comes closer to the end.\<close>

lemma settling_step:
  assumes ob: "obedient_assembly ops" and idle: "recoveryState s = RECOVERY_IDLE" "take_health_change (childrenMap s) = None"
    and tr: "internalState s \<noteq> STATE_NONE" "\<not> commandsOutstanding s > 0"
  shows "\<exists>s' w'. asm_performChildOperation sys ops s w = Some (s', w') \<and> recoveryState s' = RECOVERY_IDLE \<and>
    (internalState s' \<in> {STATE_NONE, STATE_OVERWRITE_HEALTH} \<or> cycles_left s' < cycles_left s)"
proof -
  have p: "asm_performChildOperation sys ops s w = handleChildrenTransition sys ops s w"
    using tr(1) by (simp add: asm_performChildOperation_def asm_isInTransition_def)
  consider "internalState s = STATE_NEED_SECOND_STEP" | "internalState s = STATE_OVERWRITE_HEALTH"
    | "internalState s \<in> {STATE_SINGLE_STEP, STATE_SECOND_STEP}" using tr(1) by (cases "internalState s") auto
  then show ?thesis
  proof cases
    case 1
    obtain r s1 w1 where c: "commandChildren ops (asmTargetMode s) (asmTargetSubmode s) (s\<lparr>internalState := STATE_SECOND_STEP\<rparr>) w = (r, s1, w1)"
      by (cases "commandChildren ops (asmTargetMode s) (asmTargetSubmode s) (s\<lparr>internalState := STATE_SECOND_STEP\<rparr>) w")
    show ?thesis using p 1 idle tr c obedient_assemblyD[OF ob c]
      by (intro exI[of _ s1] exI[of _ w1]) (auto simp: handleChildrenTransition_def cycles_left_def)
  next
    case 2
    obtain r s1 w1 where c: "commandChildren ops (sbMode s) (sbSubmode s) (s\<lparr>internalState := STATE_SINGLE_STEP\<rparr>) w = (r, s1, w1)"
      by (cases "commandChildren ops (sbMode s) (sbSubmode s) (s\<lparr>internalState := STATE_SINGLE_STEP\<rparr>) w")
    let ?s2 = "if r = NEED_SECOND_STEP then s1\<lparr>internalState := STATE_NEED_SECOND_STEP\<rparr> else s1"
    show ?thesis using p 2 idle tr c obedient_assemblyD[OF ob c]
      by (intro exI[of _ ?s2] exI[of _ w1]) (auto simp: handleChildrenTransition_def cycles_left_def)
  next
    case 3
    let ?r = "checkChildrenState ops s w"
    have h: "asm_performChildOperation sys ops s w = Some (if ?r = RETURN_OK then handleModeReached sys s w else handleModeTransitionFailed sys ops ?r s w)"
      using p 3 idle tr by (auto simp: handleChildrenTransition_def checkAndHandleRecovery_def Let_def)
    show ?thesis
    proof (cases "?r = RETURN_OK")
      case True
      then show ?thesis using h idle sb_setMode_settled[of sys "asmTargetMode s" "asmTargetSubmode s" s w]
        by (cases "handleModeReached sys s w") (simp add: handleModeReached_def)
    next
      case fail: False
      show ?thesis
      proof (cases "asmTargetMode s = MODE_OFF")
        case True
        let ?m = "sb_setMode sys (asmTargetMode s) (asmTargetSubmode s) (s\<lparr>internalState := STATE_NONE\<rparr>)
            (triggerEvent (ownerId s) CHILD_PROBLEMS (ucast ?r) 0 w)"
        have "asm_performChildOperation sys ops s w = Some (fst ?m, snd ?m)" using h fail True by (simp add: handleModeTransitionFailed_def)
        moreover have "internalState (fst ?m) = STATE_NONE" "recoveryState (fst ?m) = RECOVERY_IDLE"
          using idle by (simp_all add: sb_setMode_settled)
        ultimately show ?thesis by blast
      next
        case False
        let ?s0 = "s\<lparr>asmTargetMode := MODE_OFF, asmTargetSubmode := SUBMODE_NONE, internalState := STATE_SINGLE_STEP\<rparr>"
        let ?w0 = "triggerEvent (ownerId s) MODE_TRANSITION_FAILED (ucast ?r) 0 w"
        obtain r s1 w1 where c: "commandChildren ops MODE_OFF SUBMODE_NONE ?s0 ?w0 = (r, s1, w1)"
          by (cases "commandChildren ops MODE_OFF SUBMODE_NONE ?s0 ?w0")
        let ?s2 = "if r = NEED_SECOND_STEP then s1\<lparr>internalState := STATE_NEED_SECOND_STEP\<rparr> else s1"
        let ?w2 = "triggerEvent (ownerId ?s2) (if modeForced ?s2 then FORCING_MODE else CHANGING_MODE) MODE_OFF (ucast SUBMODE_NONE) w1"
        have "handleModeTransitionFailed sys ops ?r s w = (?s2, ?w2)"
          using False idle c by (simp add: handleModeTransitionFailed_def handleChildrenChangedHealth_def
              asm_startTransition_def doStartTransition_def)
        moreover have "recoveryState ?s2 = RECOVERY_IDLE" "internalState ?s2 = STATE_OVERWRITE_HEALTH \<or> cycles_left ?s2 < cycles_left s"
          using False 3 idle obedient_assemblyD[OF ob c] by (auto simp: cycles_left_def)
        ultimately show ?thesis using h fail by simp
      qed
    qed
  qed
qed

text \<open>What is left, with what the waits and the overwritten healths may have added, against the cycles that went by.\<close>

lemma assembly_potential:
  assumes ob: "obedient_assembly ops" and start: "recoveryState (tr 0) = RECOVERY_IDLE" "take_health_change (childrenMap (tr 0)) = None"
    and run: "\<forall>i < n. \<forall>t w'. asm_performChildOperation sys ops (tr i) (ws i) = Some (t, w') \<longrightarrow> undisturbed t (tr (Suc i))"
    and busy: "\<forall>i \<le> n. asm_isInTransition (tr i)"
    and slow: "\<And>i. slow i \<longleftrightarrow> commandsOutstanding (tr i) > 0 \<or> internalState (tr (Suc i)) = STATE_OVERWRITE_HEALTH"
  shows "j \<le> n \<Longrightarrow> recoveryState (tr j) = RECOVERY_IDLE \<and> take_health_change (childrenMap (tr j)) = None
    \<and> cycles_left (tr j) + j \<le> 6 + 7 * card {i. i < j \<and> slow i}"
proof (induction j)
  case 0
  show ?case using start cycles_left_bounds(1) by simp
next
  case (Suc j)
  then have ih: "recoveryState (tr j) = RECOVERY_IDLE" "take_health_change (childrenMap (tr j)) = None"
    "cycles_left (tr j) + j \<le> 6 + 7 * card {i. i < j \<and> slow i}" by simp_all
  have none: "internalState (tr i) \<noteq> STATE_NONE" if "i \<le> n" "recoveryState (tr i) = RECOVERY_IDLE" for i
    using busy that by (auto simp: asm_isInTransition_def)
  have set: "{i. i < Suc j \<and> slow i} = (if slow j then insert j {i. i < j \<and> slow i} else {i. i < j \<and> slow i})"
    by (auto simp: less_Suc_eq)
  have card: "card {i. i < Suc j \<and> slow i} = card {i. i < j \<and> slow i} + of_bool (slow j)" unfolding set by simp
  have "\<exists>t w'. asm_performChildOperation sys ops (tr j) (ws j) = Some (t, w') \<and> recoveryState t = RECOVERY_IDLE
     \<and> (\<not> slow j \<longrightarrow> cycles_left (tr (Suc j)) < cycles_left (tr j)) \<and> (slow j \<longrightarrow> cycles_left (tr (Suc j)) \<le> 6)"
  proof (cases "commandsOutstanding (tr j) > 0")
    case True
    then have "asm_performChildOperation sys ops (tr j) (ws j) = Some (tr j, ws j)"
      using busy Suc.prems by (simp add: asm_performChildOperation_def handleChildrenTransition_def)
    then show ?thesis using True ih(1) slow cycles_left_bounds(1) by blast
  next
    case False
    have nj: "internalState (tr j) \<noteq> STATE_NONE" using none[of j] Suc.prems ih(1) by simp
    obtain t w' where t: "asm_performChildOperation sys ops (tr j) (ws j) = Some (t, w')" "recoveryState t = RECOVERY_IDLE"
        "internalState t \<in> {STATE_NONE, STATE_OVERWRITE_HEALTH} \<or> cycles_left t < cycles_left (tr j)"
      using settling_step[OF ob ih(1,2) nj False] by blast
    have u: "undisturbed t (tr (Suc j))" using run Suc.prems t(1) by auto
    then have n: "internalState t \<noteq> STATE_NONE" using none[of "Suc j"] Suc.prems t(2) by (simp add: undisturbed_def)
    have same: "cycles_left (tr (Suc j)) = cycles_left t" using u by (simp add: undisturbed_def cycles_left_def)
    show ?thesis using t n u slow[of j] same cycles_left_bounds(1)[of t] by (auto simp: undisturbed_def)
  qed
  then obtain t w' where t: "asm_performChildOperation sys ops (tr j) (ws j) = Some (t, w')" "recoveryState t = RECOVERY_IDLE"
    "\<not> slow j \<longrightarrow> cycles_left (tr (Suc j)) < cycles_left (tr j)" "slow j \<longrightarrow> cycles_left (tr (Suc j)) \<le> 6" by blast
  have u: "undisturbed t (tr (Suc j))" using run Suc.prems t(1) by auto
  have j: "j \<le> 6 + 7 * card {i. i < j \<and> slow i}" using ih(3) by linarith
  show ?case using u t ih(3) j card by (cases "slow j") (auto simp: undisturbed_def)
qed

text \<open>
  C7. A transition of an assembly ends. Whatever commands its child class sends and whatever healths it overwrites: if no mode
  command, recovery or health change comes in, and at most \<open>k\<close> of the cycles wait for answers or overwrite a health, it is over
  after at most \<open>6 + 7 * k\<close> cycles, because a transition that fails is replaced by one to off, which is always accepted. The bound
  on the waiting cycles is needed: there is no timeout, and a child that never answers keeps the assembly in transition.
\<close>

theorem assembly_settles:
  assumes "obedient_assembly ops" "recoveryState (tr 0) = RECOVERY_IDLE" "take_health_change (childrenMap (tr 0)) = None"
    and "\<forall>i < n. \<forall>t w'. asm_performChildOperation sys ops (tr i) (ws i) = Some (t, w') \<longrightarrow> undisturbed t (tr (Suc i))"
    and "card {i. i < n \<and> (commandsOutstanding (tr i) > 0 \<or> internalState (tr (Suc i)) = STATE_OVERWRITE_HEALTH)} \<le> k" "6 + 7 * k \<le> n"
  shows "\<exists>i \<le> n. \<not> asm_isInTransition (tr i)"
proof (rule ccontr)
  assume "\<not> ?thesis"
  then have busy: "\<forall>i \<le> n. asm_isInTransition (tr i)" by blast
  note p = assembly_potential[OF assms(1-4) busy refl, of n]
  then have "cycles_left (tr n) + n \<le> 6 + 7 * k" using assms(5) by linarith
  moreover have "internalState (tr n) \<noteq> STATE_NONE" using busy p by (auto simp: asm_isInTransition_def)
  ultimately show False using assms(6) cycles_left_bounds(2)[of "tr n"] by simp
qed

text \<open>An assembly whose children are never in the right state, for the witnesses.\<close>

definition sample_assembly_ops :: "assembly assembly_ops" where
  "sample_assembly_ops = \<lparr>commandChildren = (\<lambda>m sm s w. (RETURN_OK, s\<lparr>commandsOutstanding := 0\<rparr>, w)),
     isModeCombinationValid = (\<lambda>m sm s w. RETURN_OK), checkChildrenStateOn = (\<lambda>m sm s w. RETURN_FAILED)\<rparr>"

definition sample_assembly :: assembly where
  "sample_assembly = \<lparr>ownerId = 1, ownQueue = 1, healthParent = NO_QUEUE, modeParent = NO_QUEUE, commandedMode = MODE_OFF,
     commandedSubmode = SUBMODE_NONE, theOneWhoCommandedAMode = NO_QUEUE, modeForced = False,
     modeCountdown = \<lparr>cdStart = 0, cdTimeout = 0\<rparr>, sbMode = MODE_ON, sbSubmode = SUBMODE_NONE,
     childrenChangedMode = False, commandsOutstanding = 0, parentId = 0,
     childrenMap = [(5, \<lparr>childQueue = 9, childMode = MODE_OFF, childSubmode = SUBMODE_NONE, healthChanged = False\<rparr>)],
     internalState = STATE_SINGLE_STEP, recoveryState = RECOVERY_IDLE, recoveringDevice = None, asmTargetMode = MODE_OFF,
     asmTargetSubmode = SUBMODE_NONE, recoveryOffTimer = \<lparr>cdStart = 0, cdTimeout = 1000\<rparr>\<rparr>"

lemma sample_assembly_keeps: "keeps_assembly sample_assembly_ops"
  by (simp add: keeps_assembly_def sample_assembly_ops_def)

lemma assembly_never_stuck_witness:
  "\<forall>w0. \<exists>s' w'. asm_performChildOperation LITTLE_ENDIAN sample_assembly_ops sample_assembly w0 = Some (s', w')"
proof
  fix w0
  have "recoveryState sample_assembly = RECOVERY_IDLE" by (simp add: sample_assembly_def)
  from assembly_never_stuck[OF asm_reachable.start[OF this] sample_assembly_keeps]
  show "\<exists>s' w'. asm_performChildOperation LITTLE_ENDIAN sample_assembly_ops sample_assembly w0 = Some (s', w')" by blast
qed

lemma assembly_mode_checked_witness:
  "\<forall>w0. \<exists>s' w'. asm_performChildOperation LITTLE_ENDIAN sample_assembly_ops sample_assembly w0 = Some (s', w')
     \<and> (sbMode s', sbSubmode s') = (MODE_OFF, SUBMODE_NONE)"
proof
  fix w0
  have i: "asm_inv sample_assembly" by (simp add: asm_inv_def sample_assembly_def)
  have ok: "checkChildrenState sample_assembly_ops sample_assembly w0 = RETURN_OK"
    by (simp add: checkChildrenState_def checkChildrenStateOff_def checkChildOff_def sample_assembly_def SUBMODE_NONE_def)
  obtain s' w' where r: "handleModeReached LITTLE_ENDIAN sample_assembly w0 = (s', w')" by (cases "handleModeReached LITTLE_ENDIAN sample_assembly w0")
  have p: "asm_performChildOperation LITTLE_ENDIAN sample_assembly_ops sample_assembly w0 = Some (s', w')"
    using ok r by (simp add: asm_performChildOperation_def handleChildrenTransition_def checkAndHandleRecovery_def asm_isInTransition_def
        sample_assembly_def Let_def)
  have "sb_getMode s' = (MODE_OFF, SUBMODE_NONE)"
    using r sb_setMode_frame(2)[of LITTLE_ENDIAN MODE_OFF SUBMODE_NONE "sample_assembly\<lparr>internalState := STATE_NONE\<rparr>" w0]
    by (simp add: handleModeReached_def sample_assembly_def)
  then have "(sbMode s', sbSubmode s') \<noteq> (sbMode sample_assembly, sbSubmode sample_assembly)"
    by (simp add: sb_getMode_def sample_assembly_def MODE_ON_def MODE_OFF_def)
  from assembly_mode_checked[OF sample_assembly_keeps i p this]
  show "\<exists>s' w'. asm_performChildOperation LITTLE_ENDIAN sample_assembly_ops sample_assembly w0 = Some (s', w')
     \<and> (sbMode s', sbSubmode s') = (MODE_OFF, SUBMODE_NONE)" using p by (simp add: sample_assembly_def)
qed

text \<open>
  A child class that sends a command whenever it commands its children, and a run of its assembly in which the first command is
  answered only one cycle later.
\<close>

definition sending_assembly_ops :: "assembly assembly_ops" where
  "sending_assembly_ops = \<lparr>commandChildren = (\<lambda>m sm s w. (RETURN_OK, s\<lparr>commandsOutstanding := 1\<rparr>, w)),
     isModeCombinationValid = (\<lambda>m sm s w. RETURN_OK), checkChildrenStateOn = (\<lambda>m sm s w. RETURN_FAILED)\<rparr>"

primrec sending_run :: "system_world \<Rightarrow> nat \<Rightarrow> assembly" where
  "sending_run w 0 = sample_assembly\<lparr>asmTargetMode := MODE_ON\<rparr>"
| "sending_run w (Suc i) = (case asm_performChildOperation LITTLE_ENDIAN sending_assembly_ops (sending_run w i) w of
     Some (t, _) \<Rightarrow> if i = 0 then t else t\<lparr>commandsOutstanding := 0\<rparr> | None \<Rightarrow> sample_assembly)"

definition sending_ok :: "assembly \<Rightarrow> bool" where
  "sending_ok s \<longleftrightarrow> recoveryState s = RECOVERY_IDLE \<and> take_health_change (childrenMap s) = None \<and> \<not> childrenChangedMode s
     \<and> internalState s \<in> {STATE_NONE, STATE_SINGLE_STEP}"

lemma sending_step:
  assumes "sending_ok s"
  shows "\<exists>t w'. asm_performChildOperation LITTLE_ENDIAN sending_assembly_ops s w = Some (t, w') \<and> sending_ok t"
proof (cases "internalState s = STATE_NONE \<or> commandsOutstanding s > 0")
  case True
  then show ?thesis using assms
    by (auto simp: sending_ok_def asm_performChildOperation_def asm_isInTransition_def handleChildrenTransition_def handleChildrenChanged_def
        handleChildrenChangedHealth_def)
next
  case False
  then have st: "internalState s = STATE_SINGLE_STEP" "commandsOutstanding s \<le> 0" using assms by (auto simp: sending_ok_def)
  show ?thesis using assms st
    by (auto simp: sending_ok_def asm_performChildOperation_def asm_isInTransition_def handleChildrenTransition_def checkAndHandleRecovery_def
        Let_def handleModeReached_def handleModeTransitionFailed_def handleChildrenChangedHealth_def asm_startTransition_def doStartTransition_def
        sending_assembly_ops_def sb_setMode_def mh_modeChanged_def sb_announceMode_def retcode split: if_splits)
qed

lemma sending_run_ok: "sending_ok (sending_run w i)"
proof (induction i)
  case 0
  show ?case by (simp add: sending_ok_def sample_assembly_def)
next
  case (Suc i)
  then obtain t w' where "asm_performChildOperation LITTLE_ENDIAN sending_assembly_ops (sending_run w i) w = Some (t, w')" "sending_ok t"
    using sending_step by blast
  then show ?case by (simp add: sending_ok_def)
qed

lemma assembly_settles_witness: "\<forall>w. \<exists>i \<le> 13. \<not> asm_isInTransition (sending_run w i)"
proof
  fix w :: system_world
  have ob: "obedient_assembly sending_assembly_ops" by (simp add: obedient_assembly_def sending_assembly_ops_def)
  have s0: "recoveryState (sending_run w 0) = RECOVERY_IDLE" "take_health_change (childrenMap (sending_run w 0)) = None"
    using sending_run_ok[of w 0] unfolding sending_ok_def by blast+
  have run: "\<forall>i < 13. \<forall>t w'. asm_performChildOperation LITTLE_ENDIAN sending_assembly_ops (sending_run w i) w = Some (t, w')
      \<longrightarrow> undisturbed t (sending_run w (Suc i))"
  proof (intro allI impI)
    fix i t w' assume "asm_performChildOperation LITTLE_ENDIAN sending_assembly_ops (sending_run w i) w = Some (t, w')"
    moreover have "take_health_change (childrenMap (sending_run w (Suc i))) = None"
      using sending_run_ok[of w "Suc i"] unfolding sending_ok_def by blast
    ultimately show "undisturbed t (sending_run w (Suc i))" by (simp add: undisturbed_def)
  qed
  have answered: "\<not> commandsOutstanding (sending_run w i) > 0" if "i \<noteq> 1" for i
  proof (cases i)
    case 0 then show ?thesis by (simp add: sample_assembly_def)
  next
    case (Suc j) then show ?thesis using that sending_step[OF sending_run_ok, of w j w] by auto
  qed
  have over: "internalState (sending_run w i) \<noteq> STATE_OVERWRITE_HEALTH" for i
    using sending_run_ok[of w i] by (auto simp: sending_ok_def)
  have "card {i. i < 13 \<and> (commandsOutstanding (sending_run w i) > 0 \<or> internalState (sending_run w (Suc i)) = STATE_OVERWRITE_HEALTH)} \<le> card {1 :: nat}"
    using answered over by (intro card_mono) (auto simp del: sending_run.simps)
  then have "card {i. i < 13 \<and> (commandsOutstanding (sending_run w i) > 0 \<or> internalState (sending_run w (Suc i)) = STATE_OVERWRITE_HEALTH)} \<le> 1" by simp
  from assembly_settles[OF ob s0 run this] show "\<exists>i \<le> 13. \<not> asm_isInTransition (sending_run w i)" by simp
qed

end
