(* ===== verification/Controllers.thy ===== *)
theory Controllers
  imports MessageTypes
begin

text \<open>
  \<open>controller/ControllerBase.cpp\<close> with the helper that switches housekeeping for it
  (\<open>datapool/HkSwitchHelper.cpp\<close>). The virtual methods of a controller are the record \<open>controller_ops\<close>.
\<close>

subsection \<open>\<open>HkSwitchHelper\<close>\<close>

definition SWITCHING_TM_FAILED :: u32 where "SWITCHING_TM_FAILED = MAKE_EVENT 73 1 SEVERITY_LOW"

text \<open>The event proxy is the object that forwards the events.\<close>

record hk_switch_helper = command_action_helper +
  actionQueue :: u32
  eventProxy :: u32

definition newHkSwitchHelper :: "u32 \<Rightarrow> nat \<Rightarrow> queue_map \<Rightarrow> (hk_switch_helper \<times> queue_map) option" where
  "newHkSwitchHelper proxy depth qm =
     (case addMessageQueue qm (newHostQueue 0 depth MAX_MESSAGE_SIZE) of
        (_, Some q, qm') \<Rightarrow> Some (\<lparr>cahQueue = 0, commandCount = 0, lastTarget = 0, actionQueue = q, eventProxy = proxy\<rparr>, qm')
      | _ \<Rightarrow> None)"

definition hk_initialize :: "bool \<Rightarrow> hk_switch_helper \<Rightarrow> u16 \<times> hk_switch_helper" where
  "hk_initialize store h = cah_initialize store (Some (actionQueue h)) h"

text \<open>\<open>forward\<close>: the proxy's \<open>forwardEvent\<close>; the owner's state extends the record of the helper.\<close>

type_synonym 's event_proxy = "u32 \<Rightarrow> u32 \<Rightarrow> u32 \<Rightarrow> 's \<Rightarrow> system_world \<Rightarrow> 's \<times> system_world"

definition hk_owner :: "'s event_proxy \<Rightarrow> 's commands_actions" where
  "hk_owner forward =
     \<lparr>completionSuccessfulReceived = (\<lambda>action h w. (h, w)),
      completionFailedReceived = (\<lambda>action code h w. forward SWITCHING_TM_FAILED (ucast code) action h w),
      stepSuccessfulReceived = (\<lambda>action step h w. (h, w)),
      stepFailedReceived = (\<lambda>action step code h w. forward SWITCHING_TM_FAILED (ucast code) action h w),
      dataReceived = (\<lambda>action data h w. (h, w))\<rparr>"

text \<open>The loop over the replies.\<close>

partial_function (option) hk_replies ::
  "byte_order \<Rightarrow> 'a hk_switch_helper_scheme event_proxy \<Rightarrow> mq_message \<Rightarrow> 'a hk_switch_helper_scheme \<Rightarrow> system_world
     \<Rightarrow> ('a hk_switch_helper_scheme \<times> system_world) option" where
  "hk_replies sys forward message h w =
     Option.bind (queue_receive sys (swQueues w) (actionQueue h) message) (\<lambda>(result, qm, m).
       let w1 = w\<lparr>swQueues := qm\<rparr> in
       if result \<noteq> RETURN_OK then Some (h, w1)
       else Option.bind (cah_handleReply sys (hk_owner forward) m h w1) (\<lambda>(r, h2, w2).
         if r = RETURN_OK then hk_replies sys forward m h2 w2
         else Option.bind (sw_setToUnknownCommand sys m w2) (\<lambda>(m3, w3).
                Option.bind (sw_reply sys (actionQueue h2) m3 w3) (\<lambda>(_, w4). hk_replies sys forward m3 h2 w4))))"

definition hk_performOperation ::
  "byte_order \<Rightarrow> 'a hk_switch_helper_scheme event_proxy \<Rightarrow> 'a hk_switch_helper_scheme \<Rightarrow> system_world
     \<Rightarrow> (u16 \<times> 'a hk_switch_helper_scheme \<times> system_world) option" where
  "hk_performOperation sys forward h w = map_option (Pair RETURN_OK) (hk_replies sys forward (newCommandMessage sys) h w)"

text \<open>The body of \<open>switchHK\<close> is commented out.\<close>

definition switchHK :: "bool \<Rightarrow> hk_switch_helper \<Rightarrow> u16 \<times> hk_switch_helper" where
  "switchHK enable h = (RETURN_OK, h)"

subsection \<open>\<open>ControllerBase\<close>\<close>

record controller = mode_owner +
  ctlMode :: u32
  ctlSubmode :: u8
  ctlParentId :: u32
  hkSwitcher :: hk_switch_helper

record 's controller_ops =
  ctlHandleCommand :: "mq_message \<Rightarrow> 's \<Rightarrow> system_world \<Rightarrow> (u16 \<times> 's \<times> system_world) option"
  performControlOperation :: "'s \<Rightarrow> system_world \<Rightarrow> ('s \<times> system_world) option"
  ctlCheckModeCommand :: "u32 \<Rightarrow> u8 \<Rightarrow> u32 \<Rightarrow> 's \<Rightarrow> system_world \<Rightarrow> u16 \<times> u32"
  ctlModeChanged :: "u32 \<Rightarrow> u8 \<Rightarrow> 's \<Rightarrow> system_world \<Rightarrow> 's \<times> system_world"
  changeHK :: "u32 \<Rightarrow> u8 \<Rightarrow> bool \<Rightarrow> 's \<Rightarrow> system_world \<Rightarrow> 's \<times> system_world"

definition ctl_announceMode :: "bool \<Rightarrow> 'a controller_scheme \<Rightarrow> system_world \<Rightarrow> 'a controller_scheme \<times> system_world" where
  "ctl_announceMode recursive s w = (s, triggerEvent (ownerId s) MODE_INFO (ctlMode s) (ucast (ctlSubmode s)) w)"

definition ctl_startTransition ::
  "byte_order \<Rightarrow> 'a controller_scheme controller_ops \<Rightarrow> u32 \<Rightarrow> u8 \<Rightarrow> 'a controller_scheme \<Rightarrow> system_world \<Rightarrow> 'a controller_scheme \<times> system_world" where
  "ctl_startTransition sys ops mode submode s w =
     (case changeHK ops (ctlMode s) (ctlSubmode s) False s w of (s1, w1) \<Rightarrow>
        (case mh_modeChanged sys mode submode (s1\<lparr>ctlMode := mode, ctlSubmode := submode\<rparr>)
                (triggerEvent (ownerId s1) CHANGING_MODE mode (ucast submode) w1) of (s2, w2) \<Rightarrow>
          (case ctlModeChanged ops mode submode s2 w2 of (s3, w3) \<Rightarrow>
            (case ctl_announceMode False s3 w3 of (s4, w4) \<Rightarrow> changeHK ops (ctlMode s4) (ctlSubmode s4) True s4 w4))))"

definition ctl_setToExternalControl :: "byte_order \<Rightarrow> 'a controller_scheme \<Rightarrow> system_world \<Rightarrow> 'a controller_scheme \<times> system_world" where
  "ctl_setToExternalControl sys s w = (s, hh_setHealth sys EXTERNAL_CONTROL s w)"

definition ctl_setHealth :: "byte_order \<Rightarrow> u8 \<Rightarrow> 'a controller_scheme \<Rightarrow> system_world \<Rightarrow> u16 \<times> 'a controller_scheme \<times> system_world" where
  "ctl_setHealth sys health s w =
     (if health = HEALTHY \<or> health = EXTERNAL_CONTROL then (RETURN_OK, s, hh_setHealth sys health s w)
      else (INVALID_HEALTH_STATE, s, w))"

definition ctl_getMode :: "'a controller_scheme \<Rightarrow> u32 \<times> u8" where
  "ctl_getMode s = (ctlMode s, ctlSubmode s)"

definition ctl_owner :: "byte_order \<Rightarrow> 'a controller_scheme controller_ops \<Rightarrow> 'a controller_scheme owner_ops" where
  "ctl_owner sys ops =
     \<lparr>checkModeCommand = ctlCheckModeCommand ops, startTransition = (\<lambda>m sm s w. Some (ctl_startTransition sys ops m sm s w)),
      setToExternalControl = ctl_setToExternalControl sys, announceMode = ctl_announceMode, ownerMode = ctl_getMode,
      ownerSetHealth = ctl_setHealth sys\<rparr>"

text \<open>One message of the queue, and the message object after it.\<close>

definition ctl_dispatch ::
  "byte_order \<Rightarrow> 'a controller_scheme controller_ops \<Rightarrow> u32 \<Rightarrow> mq_message \<Rightarrow> 'a controller_scheme \<Rightarrow> system_world
     \<Rightarrow> (mq_message \<times> 'a controller_scheme \<times> system_world) option" where
  "ctl_dispatch sys ops raw message s w =
     Option.bind (handleModeCommand sys (ctl_owner sys ops) raw message s w) (\<lambda>(r1, s1, w1).
       if r1 = RETURN_OK then Some (message, s1, w1)
       else (case handleHealthCommand sys (ctl_owner sys ops) message s1 w1 of
               (r2, s2, w2) \<Rightarrow>
                 if r2 = RETURN_OK then Some (message, s2, w2)
                 else Option.bind (ctlHandleCommand ops message s2 w2) (\<lambda>(r3, s3, w3).
                   if r3 = RETURN_OK then Some (message, s3, w3)
                   else Option.bind (sw_setToUnknownCommand sys message w3) (\<lambda>(m4, w4).
                     map_option (\<lambda>(_, w5). (m4, s3, w5)) (sw_reply sys (ownQueue s3) m4 w4)))))"

partial_function (option) ctl_handleQueue ::
  "byte_order \<Rightarrow> 'a controller_scheme controller_ops \<Rightarrow> u32 \<Rightarrow> mq_message \<Rightarrow> 'a controller_scheme \<Rightarrow> system_world
     \<Rightarrow> ('a controller_scheme \<times> system_world) option" where
  "ctl_handleQueue sys ops raw message s w =
     Option.bind (queue_receive sys (swQueues w) (ownQueue s) message) (\<lambda>(result, qm, m).
       if result \<noteq> RETURN_OK then Some (s, w\<lparr>swQueues := qm\<rparr>)
       else Option.bind (ctl_dispatch sys ops raw m s (w\<lparr>swQueues := qm\<rparr>)) (\<lambda>(m2, s2, w2).
              ctl_handleQueue sys ops raw m2 s2 w2))"

definition ctl_performOperation ::
  "byte_order \<Rightarrow> 'a controller_scheme controller_ops \<Rightarrow> u32 \<Rightarrow> 'a controller_scheme \<Rightarrow> system_world
     \<Rightarrow> (u16 \<times> 'a controller_scheme \<times> system_world) option" where
  "ctl_performOperation sys ops raw s w =
     Option.bind (ctl_handleQueue sys ops raw (newCommandMessage sys) s w) (\<lambda>(s1, w1).
       Option.bind (hk_performOperation sys (\<lambda>event p1 p2 h. Pair h \<circ> triggerEvent (eventProxy h) event p1 p2) (hkSwitcher s1) w1) (\<lambda>(_, h, w2).
         map_option (Pair RETURN_OK) (performControlOperation ops (s1\<lparr>hkSwitcher := h\<rparr>) w2)))"

text \<open>\<open>parent\<close>: the queue of the parent as the object manager knows it; the parent registers the controller, which is its business.\<close>

definition ctl_initialize ::
  "u32 option \<Rightarrow> bool \<Rightarrow> bool \<Rightarrow> bool \<Rightarrow> 'a controller_scheme \<Rightarrow> system_world \<Rightarrow> u16 \<times> 'a controller_scheme \<times> system_world" where
  "ctl_initialize parent table proxy store s w =
     (if ctlParentId s \<noteq> 0 \<and> parent = None then (RETURN_FAILED, s, w)
      else
        let parentQueue = (if ctlParentId s \<noteq> 0 then the parent else 0)
        in (case hh_initialize parentQueue table proxy s w of
              (r1, s1, w1) \<Rightarrow>
                if r1 \<noteq> RETURN_OK then (r1, s1, w1)
                else (case mh_initialize parentQueue s1 of
                        (r2, s2) \<Rightarrow>
                          if r2 \<noteq> RETURN_OK then (r2, s2, w1)
                          else (case hk_initialize store (hkSwitcher s2) of (r3, h) \<Rightarrow> (r3, s2\<lparr>hkSwitcher := h\<rparr>, w1)))))"

subsection \<open>Properties\<close>

text \<open>The hooks of a controller that only controls: none of them touches the members of the base classes or the system.\<close>

definition plain_hooks :: "'a controller_scheme controller_ops \<Rightarrow> bool" where
  "plain_hooks ops \<longleftrightarrow> (\<forall>m sm b s w. changeHK ops m sm b s w = (s, w)) \<and> (\<forall>m sm s w. ctlModeChanged ops m sm s w = (s, w))"

text \<open>
  A controller is in a commanded mode as soon as it has handled the command: an accepted mode command, from its parent or
  from anybody, sets mode and submode, is answered with a mode reply to its sender, is reported to a parent who did not send
  it, and leaves no commander and no force behind; the change and the new mode are announced as events.
\<close>

theorem controller_mode_commanded:
  assumes "getCommand sys m \<in> {CMD_MODE_COMMAND, CMD_MODE_COMMAND_FORCED}" "mode = msg_getMode sys m" "submode = msg_getSubmode sys m"
    and "fst (ctlCheckModeCommand ops mode submode raw (if getCommand sys m = CMD_MODE_COMMAND_FORCED then s\<lparr>modeForced := True\<rparr> else s) w) = RETURN_OK"
    and "plain_hooks ops" "sender = getSender sys m" "sender \<noteq> NO_QUEUE" "room_for (swQueues w) sender 1"
    and "modeParent s = sender \<or> modeParent s = NO_QUEUE"
  shows "\<exists>s' w'. ctl_dispatch sys ops raw m s w = Some (m, s', w')
    \<and> ctl_getMode s' = (mode, submode) \<and> \<not> modeForced s' \<and> theOneWhoCommandedAMode s' = NO_QUEUE
    \<and> swQueues w' = queue_added (swQueues w) sender [setModeMessage sys (newCommandMessage sys) REPLY_MODE_REPLY mode submode]
    \<and> events w' = events w @ [(ownerId s, CHANGING_MODE, mode, ucast submode), (ownerId s, MODE_INFO, mode, ucast submode)]"
proof -
  define s1 where "s1 = (if getCommand sys m = CMD_MODE_COMMAND_FORCED then s\<lparr>modeForced := True\<rparr> else s)"
  define s2 where "s2 = s1\<lparr>theOneWhoCommandedAMode := sender, commandedMode := mode, commandedSubmode := submode\<rparr>"
  have f: "ownerId s2 = ownerId s" "ownQueue s2 = ownQueue s" "modeParent s2 = modeParent s" "commandedMode s2 = mode"
    "commandedSubmode s2 = submode" "theOneWhoCommandedAMode s2 = sender" by (simp_all add: s2_def s1_def)
  obtain timeout where c: "ctlCheckModeCommand ops mode submode raw s1 w = (RETURN_OK, timeout)"
    using assms(4) by (cases "ctlCheckModeCommand ops mode submode raw s1 w") (simp add: s1_def)
  obtain cd w1 where t: "cd_setTimeout timeout w = (cd, w1)" "swQueues w1 = swQueues w" "events w1 = events w"
    by (simp add: cd_setTimeout_def getUptimeMs_def)
  let ?s3 = "s2\<lparr>modeCountdown := cd\<rparr>"
  have h: "handleModeCommand sys (ctl_owner sys ops) raw m s w = map_option (Pair RETURN_OK) (Some (ctl_startTransition sys ops mode submode ?s3 w1))"
  proof -
    have "\<not> (modeParent s2 \<noteq> NO_QUEUE \<and> theOneWhoCommandedAMode s2 \<noteq> modeParent s2)" using assms(9) f by auto
    then show ?thesis using assms(1-3,6) c t(1) by (auto simp: handleModeCommand_cases ctl_owner_def s2_def s1_def Let_def)
  qed
  let ?reply = "setModeMessage sys (newCommandMessage sys) REPLY_MODE_REPLY mode submode"
  let ?w2 = "triggerEvent (ownerId s) CHANGING_MODE mode (ucast submode) w1"
  let ?s4 = "?s3\<lparr>ctlMode := mode, ctlSubmode := submode\<rparr>"
  have sized: "command_sized ?reply" by (simp add: setModeMessage_def)
  have room: "room_for (swQueues ?w2) sender 1" using assms(8) t(2) by (simp add: triggerEvent_def)
  let ?w3 = "?w2\<lparr>swQueues := queue_added (swQueues ?w2) sender [?reply]\<rparr>"
  have mc: "mh_modeChanged sys mode submode ?s4 ?w2 = (?s4\<lparr>modeForced := False, theOneWhoCommandedAMode := NO_QUEUE\<rparr>, ?w3)"
    using f assms(7,9) send_room[OF room sized]
    by (auto simp: mh_modeChanged_def sendModeReplyMessage_def sendModeInfoMessage_def Let_def)
  let ?s5 = "?s4\<lparr>modeForced := False, theOneWhoCommandedAMode := NO_QUEUE\<rparr>"
  have tr: "ctl_startTransition sys ops mode submode ?s3 w1 = (?s5, triggerEvent (ownerId s) MODE_INFO mode (ucast submode) ?w3)"
    using assms(5) mc f(1) by (simp add: ctl_startTransition_def plain_hooks_def ctl_announceMode_def)
  show ?thesis
    using h tr t(2,3) by (simp add: ctl_dispatch_def ctl_getMode_def triggerEvent_def)
qed

definition sample_controller :: controller where
  "sample_controller = \<lparr>ownerId = 9, ownQueue = 4, healthParent = NO_QUEUE, modeParent = 3, commandedMode = 0, commandedSubmode = 0,
     theOneWhoCommandedAMode = NO_QUEUE, modeForced = False, modeCountdown = \<lparr>cdStart = 0, cdTimeout = 0\<rparr>, ctlMode = 0, ctlSubmode = 0, ctlParentId = 0,
     hkSwitcher = \<lparr>cahQueue = 0, commandCount = 0, lastTarget = 0, actionQueue = 5, eventProxy = 9\<rparr>\<rparr>"

definition sample_controller_ops :: "controller controller_ops" where
  "sample_controller_ops = \<lparr>ctlHandleCommand = (\<lambda>m s w. Some (RETURN_FAILED, s, w)), performControlOperation = (\<lambda>s w. Some (s, w)),
     ctlCheckModeCommand = (\<lambda>m sm t s w. (RETURN_OK, 0)), ctlModeChanged = (\<lambda>m sm s w. (s, w)), changeHK = (\<lambda>m sm b s w. (s, w))\<rparr>"

theorem controller_mode_commanded_witness:
  "\<exists>s' w'. ctl_dispatch LITTLE_ENDIAN sample_controller_ops 0
      (setSender LITTLE_ENDIAN (setModeMessage LITTLE_ENDIAN (newCommandMessage LITTLE_ENDIAN) CMD_MODE_COMMAND 2 1) 3) sample_controller action_world
    = Some (setSender LITTLE_ENDIAN (setModeMessage LITTLE_ENDIAN (newCommandMessage LITTLE_ENDIAN) CMD_MODE_COMMAND 2 1) 3, s', w')
    \<and> ctl_getMode s' = (2, 1)"
proof -
  let ?m = "setSender LITTLE_ENDIAN (setModeMessage LITTLE_ENDIAN (newCommandMessage LITTLE_ENDIAN) CMD_MODE_COMMAND 2 1) 3"
  have m: "getCommand LITTLE_ENDIAN ?m = CMD_MODE_COMMAND" "msg_getMode LITTLE_ENDIAN ?m = 2" "msg_getSubmode LITTLE_ENDIAN ?m = 1"
    "getSender LITTLE_ENDIAN ?m = 3"
    by (simp_all add: setModeMessage_def msg_getMode_def msg_getSubmode_def)
  have "room_for (swQueues action_world) 3 1" by (simp add: action_world_def room_for_def newHostQueue_def)
  with controller_mode_commanded[where m = ?m and sys = LITTLE_ENDIAN and s = sample_controller and ops = sample_controller_ops
      and w = action_world and raw = 0, OF _ refl refl _ _ refl] show ?thesis
    unfolding m by (fastforce simp: sample_controller_ops_def plain_hooks_def sample_controller_def NO_QUEUE_def)
qed

end
