(* ===== verification/Events.thy ===== *)
theory Events
  imports StoreQueues
begin

text \<open>
  Event management: \<open>events/Event.cpp\<close>, \<open>EventMessage.cpp\<close>, the matchers and match trees of the subscriptions
  (\<open>globalfunctions/matching\<close>, \<open>container/BinaryTree.h\<close>, \<open>eventmatching/EventMatchTree.cpp\<close>) and
  \<open>EventManager.cpp\<close>. A binary tree of nodes with parent pointers is a tree as data type; a node is the path to
  it, \<open>True\<close> for the left (AND) and \<open>False\<close> for the right (OR) branch. Whether the pools behind the placement
  factory have room is an argument; deleting from them succeeds.
\<close>

subsection \<open>Events and their messages\<close>

definition getEventId :: "u32 \<Rightarrow> u16" where "getEventId event = ucast (event AND 0xFFFF)"
definition event_getSeverity :: "u32 \<Rightarrow> u8" where "event_getSeverity event = ucast (drop_bit 16 event AND 0xFF)"
definition makeEvent :: "u16 \<Rightarrow> u8 \<Rightarrow> u32" where
  "makeEvent eventId eventSeverity = push_bit 16 (ucast eventSeverity) + (ucast eventId AND 0xFFFF)"

definition EVENT_MESSAGE :: u8 where "EVENT_MESSAGE = 0"
definition CONFIRMATION_REQUEST :: u8 where "CONFIRMATION_REQUEST = 1"
definition YOUR_FAULT :: u8 where "YOUR_FAULT = 2"
definition MY_FAULT :: u8 where "MY_FAULT = 3"
definition EVENT_MESSAGE_SIZE :: nat where "EVENT_MESSAGE_SIZE = MQ_HEADER_SIZE + 4 + 3 * 4"
definition INVALID_EVENT :: u32 where "INVALID_EVENT = 0"

text \<open>A word of the data of a message, and its change.\<close>

definition data_word :: "byte_order \<Rightarrow> nat \<Rightarrow> mq_message \<Rightarrow> u32" where
  "data_word sys off m = of_object_bytes sys (get_bytes (internalBuffer m) (MQ_HEADER_SIZE + off) 4)"

definition set_data_word :: "byte_order \<Rightarrow> nat \<Rightarrow> mq_message \<Rightarrow> u32 \<Rightarrow> mq_message" where
  "set_data_word sys off m v = m\<lparr>internalBuffer := put_bytes (internalBuffer m) (MQ_HEADER_SIZE + off) (object_bytes sys v)\<rparr>"

definition getEvent :: "byte_order \<Rightarrow> mq_message \<Rightarrow> u32" where "getEvent sys m = data_word sys 0 m AND 0xFFFFFF"
definition setEvent :: "byte_order \<Rightarrow> mq_message \<Rightarrow> u32 \<Rightarrow> mq_message" where
  "setEvent sys m event = set_data_word sys 0 m ((data_word sys 0 m AND 0xFF000000) + (event AND 0xFFFFFF))"
definition getMessageId :: "byte_order \<Rightarrow> mq_message \<Rightarrow> u8" where
  "getMessageId sys m = ucast (drop_bit 24 (data_word sys 0 m AND 0xFF000000))"
definition setMessageId :: "byte_order \<Rightarrow> mq_message \<Rightarrow> u8 \<Rightarrow> mq_message" where
  "setMessageId sys m i = set_data_word sys 0 m ((data_word sys 0 m AND 0x00FFFFFF) + push_bit 24 (ucast i))"
definition msg_getSeverity :: "byte_order \<Rightarrow> mq_message \<Rightarrow> u8" where "msg_getSeverity sys m = event_getSeverity (data_word sys 0 m)"
definition setSeverity :: "byte_order \<Rightarrow> mq_message \<Rightarrow> u8 \<Rightarrow> mq_message" where
  "setSeverity sys m severity = set_data_word sys 0 m ((data_word sys 0 m AND 0xFF00FFFF) + push_bit 16 (ucast severity))"
definition msg_getEventId :: "byte_order \<Rightarrow> mq_message \<Rightarrow> u16" where "msg_getEventId sys m = getEventId (data_word sys 0 m)"
definition setEventId :: "byte_order \<Rightarrow> mq_message \<Rightarrow> u16 \<Rightarrow> mq_message" where
  "setEventId sys m eventId = set_data_word sys 0 m ((data_word sys 0 m AND 0xFFFF0000) + ucast eventId)"
definition getReporter :: "byte_order \<Rightarrow> mq_message \<Rightarrow> u32" where "getReporter sys m = data_word sys 4 m"
definition setReporter :: "byte_order \<Rightarrow> mq_message \<Rightarrow> u32 \<Rightarrow> mq_message" where "setReporter sys m r = set_data_word sys 4 m r"
definition event_getParameter1 :: "byte_order \<Rightarrow> mq_message \<Rightarrow> u32" where "event_getParameter1 sys m = data_word sys 8 m"
definition event_setParameter1 :: "byte_order \<Rightarrow> mq_message \<Rightarrow> u32 \<Rightarrow> mq_message" where
  "event_setParameter1 sys m p = set_data_word sys 8 m p"
definition event_getParameter2 :: "byte_order \<Rightarrow> mq_message \<Rightarrow> u32" where "event_getParameter2 sys m = data_word sys 12 m"
definition event_setParameter2 :: "byte_order \<Rightarrow> mq_message \<Rightarrow> u32 \<Rightarrow> mq_message" where
  "event_setParameter2 sys m p = set_data_word sys 12 m p"
definition clearEventMessage :: "byte_order \<Rightarrow> mq_message \<Rightarrow> mq_message" where "clearEventMessage sys m = setEvent sys m INVALID_EVENT"
definition isClearedEventMessage :: "byte_order \<Rightarrow> mq_message \<Rightarrow> bool" where
  "isClearedEventMessage sys m \<longleftrightarrow> getEvent sys m = INVALID_EVENT"

definition newEventMessage_empty :: "byte_order \<Rightarrow> mq_message" where
  "newEventMessage_empty sys = clearEventMessage sys (newMessage\<lparr>messageSize := EVENT_MESSAGE_SIZE\<rparr>)"

definition newEventMessage :: "byte_order \<Rightarrow> u32 \<Rightarrow> u32 \<Rightarrow> u32 \<Rightarrow> u32 \<Rightarrow> mq_message" where
  "newEventMessage sys event reportedBy parameter1 parameter2 =
     event_setParameter2 sys (event_setParameter1 sys (setReporter sys (setEvent sys (setMessageId sys
       (newMessage\<lparr>messageSize := EVENT_MESSAGE_SIZE\<rparr>) EVENT_MESSAGE) event) reportedBy) parameter1) parameter2"

subsection \<open>Matchers\<close>

record 'a range_matcher =
  rmInverted :: bool
  lowerBound :: 'a
  upperBound :: 'a

definition newRangeMatcher :: "'a::len word \<Rightarrow> 'a word \<Rightarrow> bool \<Rightarrow> 'a word range_matcher" where
  "newRangeMatcher lower upper inverted = \<lparr>rmInverted = inverted, lowerBound = lower, upperBound = upper\<rparr>"

definition emptyRangeMatcher :: "'a::len word range_matcher" where
  "emptyRangeMatcher = \<lparr>rmInverted = True, lowerBound = 1, upperBound = 0\<rparr>"

definition rm_doMatch :: "'a::len word range_matcher \<Rightarrow> 'a word \<Rightarrow> bool" where
  "rm_doMatch r input \<longleftrightarrow> lowerBound r \<le> input \<and> input \<le> upperBound r"

definition rm_match :: "'a::len word range_matcher \<Rightarrow> 'a word \<Rightarrow> bool" where
  "rm_match r input \<longleftrightarrow> (if rmInverted r then \<not> rm_doMatch r input else rm_doMatch r input)"

definition rm_serialize :: "byte_order \<Rightarrow> 'a::len word range_matcher \<Rightarrow> ostream \<Rightarrow> u64 \<Rightarrow> endianness \<Rightarrow> u16 \<times> ostream" where
  "rm_serialize sys r s m e =
     (case SA_serialize_word sys (lowerBound r) s m e of (r1, s1) \<Rightarrow>
        if r1 \<noteq> RETURN_OK then (r1, s1)
        else (case SA_serialize_word sys (upperBound r) s1 m e of (r2, s2) \<Rightarrow>
          if r2 \<noteq> RETURN_OK then (r2, s2)
          else SA_serialize_word sys (if rmInverted r then 1 else 0 :: u8) s2 m e))"

definition rm_getSerializedSize :: "'a::len word range_matcher \<Rightarrow> nat" where
  "rm_getSerializedSize r = LENGTH('a) div 8 + LENGTH('a) div 8 + 1"

datatype event_matcher = EventIdRangeMatcher "u16 range_matcher" | ReporterRangeMatcher "u32 range_matcher"
  | SeverityRangeMatcher "u8 range_matcher"

fun evm_match :: "byte_order \<Rightarrow> mq_message \<Rightarrow> event_matcher \<Rightarrow> bool" where
  "evm_match sys m (EventIdRangeMatcher r) = rm_match r (msg_getEventId sys m)"
| "evm_match sys m (ReporterRangeMatcher r) = rm_match r (getReporter sys m)"
| "evm_match sys m (SeverityRangeMatcher r) = rm_match r (msg_getSeverity sys m)"

fun evm_serialize :: "byte_order \<Rightarrow> event_matcher \<Rightarrow> ostream \<Rightarrow> u64 \<Rightarrow> endianness \<Rightarrow> u16 \<times> ostream" where
  "evm_serialize sys (EventIdRangeMatcher r) s m e = rm_serialize sys r s m e"
| "evm_serialize sys (ReporterRangeMatcher r) s m e = rm_serialize sys r s m e"
| "evm_serialize sys (SeverityRangeMatcher r) s m e = rm_serialize sys r s m e"

subsection \<open>Binary trees\<close>

datatype 'a match_tree = End | Node 'a "'a match_tree" "'a match_tree"

fun left :: "'a match_tree \<Rightarrow> 'a match_tree" where "left End = End" | "left (Node x a b) = a"
fun right :: "'a match_tree \<Rightarrow> 'a match_tree" where "right End = End" | "right (Node x a b) = b"

fun countRight :: "'a match_tree \<Rightarrow> nat" where "countRight End = 0" | "countRight (Node x a b) = Suc (countRight b)"
fun countLeft :: "'a match_tree \<Rightarrow> nat" where "countLeft End = 0" | "countLeft (Node x a b) = Suc (countLeft a)"

fun subtree_at :: "'a match_tree \<Rightarrow> bool list \<Rightarrow> 'a match_tree" where
  "subtree_at t [] = t"
| "subtree_at t (d # p) = subtree_at (if d then left t else right t) p"

text \<open>The reference of the parent, or the root, is changed: \<open>insert\<close> and \<open>erase\<close>.\<close>

fun replace_at :: "'a match_tree \<Rightarrow> bool list \<Rightarrow> 'a match_tree \<Rightarrow> 'a match_tree" where
  "replace_at t [] n = n"
| "replace_at End (d # p) n = End"
| "replace_at (Node x a b) (d # p) n = (if d then Node x (replace_at a p n) b else Node x a (replace_at b p n))"

definition tree_insert :: "bool \<Rightarrow> 'a match_tree \<Rightarrow> bool list option \<Rightarrow> 'a match_tree \<Rightarrow> 'a match_tree" where
  "tree_insert insertLeft t parentNode newNode =
     (case parentNode of None \<Rightarrow> newNode | Some p \<Rightarrow> replace_at t (p @ [insertLeft]) newNode)"

definition tree_erase :: "'a match_tree \<Rightarrow> bool list \<Rightarrow> ('a match_tree \<times> 'a match_tree) \<times> 'a match_tree" where
  "tree_erase t node = ((left (subtree_at t node), right (subtree_at t node)), replace_at t node End)"

subsection \<open>Match trees\<close>

definition TOO_DETAILED_REQUEST :: u16 where [retcode]: "TOO_DETAILED_REQUEST = MAKE_RETURN_CODE MATCH_TREE_CLASS 1"
definition TOO_GENERAL_REQUEST :: u16 where [retcode]: "TOO_GENERAL_REQUEST = MAKE_RETURN_CODE MATCH_TREE_CLASS 2"
definition NO_MATCH :: u16 where [retcode]: "NO_MATCH = MAKE_RETURN_CODE MATCH_TREE_CLASS 3"
definition MATCH_TREE_FULL :: u16 where [retcode]: "MATCH_TREE_FULL = MAKE_RETURN_CODE MATCH_TREE_CLASS 4"
definition NEW_NODE_CREATED :: u16 where [retcode]: "NEW_NODE_CREATED = MAKE_RETURN_CODE MATCH_TREE_CLASS 5"

fun matchSubtree :: "('a \<Rightarrow> bool) \<Rightarrow> 'a match_tree \<Rightarrow> bool" where
  "matchSubtree f End = False"
| "matchSubtree f (Node x a b) =
     (if f x \<and> (a = End \<or> matchSubtree f a) then True else if b = End then False else matchSubtree f b)"

definition matchesTree :: "('a \<Rightarrow> bool) \<Rightarrow> 'a match_tree \<Rightarrow> bool" where
  "matchesTree f t = (if t = End then False else matchSubtree f t)"

text \<open>The elements of an OR branch, each with its AND branch as a tree of one level less; the count is one byte.\<close>

fun branch_serialize ::
  "byte_order \<Rightarrow> ('a \<Rightarrow> ostream \<Rightarrow> u16 \<times> ostream) \<Rightarrow> u64 \<Rightarrow> endianness \<Rightarrow> nat \<Rightarrow> 'a match_tree \<Rightarrow> ostream \<Rightarrow> u16 \<times> ostream" where
  "branch_serialize sys ser m e depth End s = (RETURN_OK, s)"
| "branch_serialize sys ser m e depth (Node x a b) s =
     (case ser x s of (r1, s1) \<Rightarrow>
        if r1 \<noteq> RETURN_OK then (r1, s1)
        else (case (if depth > 0
                    then (case SA_serialize_word sys (of_nat (countRight a) :: u8) s1 m e of (rc, sc) \<Rightarrow>
                            if rc \<noteq> RETURN_OK then (rc, sc) else branch_serialize sys ser m e (depth - 1) a sc)
                    else (r1, s1)) of (r2, s2) \<Rightarrow>
          if r2 \<noteq> RETURN_OK then (r2, s2) else branch_serialize sys ser m e depth b s2))"

definition tree_serialize ::
  "byte_order \<Rightarrow> ('a \<Rightarrow> ostream \<Rightarrow> u16 \<times> ostream) \<Rightarrow> u64 \<Rightarrow> endianness \<Rightarrow> nat \<Rightarrow> 'a match_tree \<Rightarrow> ostream \<Rightarrow> u16 \<times> ostream" where
  "tree_serialize sys ser m e depth t s =
     (case SA_serialize_word sys (of_nat (countRight t) :: u8) s m e of (rc, sc) \<Rightarrow>
        if rc \<noteq> RETURN_OK then (rc, sc) else branch_serialize sys ser m e depth t sc)"

fun branch_size :: "('a \<Rightarrow> nat) \<Rightarrow> nat \<Rightarrow> 'a match_tree \<Rightarrow> nat" where
  "branch_size sz depth End = 0"
| "branch_size sz depth (Node x a b) = sz x + (if depth > 0 then 1 + branch_size sz (depth - 1) a else 0) + branch_size sz depth b"

definition tree_getSerializedSize :: "('a \<Rightarrow> nat) \<Rightarrow> nat \<Rightarrow> 'a match_tree \<Rightarrow> nat" where
  "tree_getSerializedSize sz depth t = 1 + branch_size sz depth t"

definition isOnAndBranch :: "bool list \<Rightarrow> bool" where
  "isOnAndBranch position \<longleftrightarrow> position \<noteq> [] \<and> last position"

text \<open>Everything below the position is taken out and cleaned up.\<close>

definition removeElementAndAllChildren :: "'a match_tree \<Rightarrow> bool list \<Rightarrow> u16 \<times> 'a match_tree" where
  "removeElementAndAllChildren t position = (RETURN_OK, snd (tree_erase t position))"

function removeElementAndReconnectChildren :: "'a match_tree \<Rightarrow> bool list \<Rightarrow> u16 \<times> 'a match_tree" where
  "removeElementAndReconnectChildren t position =
     (case subtree_at t position of
        End \<Rightarrow> (RETURN_OK, t)
      | Node x a b \<Rightarrow>
          let t1 = (if a \<noteq> End then snd (removeElementAndAllChildren t (position @ [True])) else t) in
          if b \<noteq> End
          then (RETURN_OK, tree_insert (isOnAndBranch position) t1 (if position = [] then None else Some (butlast position)) b)
          else if isOnAndBranch position then removeElementAndReconnectChildren t1 (butlast position)
          else (RETURN_OK, snd (tree_erase t1 position)))"
  by auto
termination by (relation "measure (length \<circ> snd)") (auto simp: isOnAndBranch_def)

declare removeElementAndReconnectChildren.simps [simp del]

subsection \<open>Subscriptions\<close>

record event_match_tree =
  emtTree :: "event_matcher match_tree"
  invertedMatch :: bool

definition newEventMatchTree :: "bool \<Rightarrow> event_match_tree" where
  "newEventMatchTree inverted = \<lparr>emtTree = End, invertedMatch = inverted\<rparr>"

definition emt_match :: "byte_order \<Rightarrow> event_match_tree \<Rightarrow> mq_message \<Rightarrow> bool" where
  "emt_match sys t m \<longleftrightarrow> (if invertedMatch t then \<not> matchesTree (evm_match sys m) (emtTree t) else matchesTree (evm_match sys m) (emtTree t))"

text \<open>The position of a matcher in an OR branch.\<close>

fun find_matcher :: "'a \<Rightarrow> 'a match_tree \<Rightarrow> nat option" where
  "find_matcher x End = None"
| "find_matcher x (Node y a b) = (if x = y then Some 0 else map_option Suc (find_matcher x b))"

text \<open>\<open>findRangeMatcher\<close>: the node in the OR branch that starts at \<open>start\<close>.\<close>

definition findRangeMatcher :: "'a match_tree \<Rightarrow> bool list \<Rightarrow> 'a \<Rightarrow> bool list option" where
  "findRangeMatcher t start x = map_option (\<lambda>i. start @ replicate i False) (find_matcher x (subtree_at t start))"

text \<open>
  The iterator \<open>lastTest\<close> is the root or the parent of \<open>start\<close>, so that the new node becomes the first of the
  branch or the right child of its last node. \<open>room\<close>: the pools have room for the matcher and for the node.
\<close>

definition findOrInsertRangeMatcher :: "bool \<times> bool \<Rightarrow> 'a match_tree \<Rightarrow> bool list \<Rightarrow> 'a \<Rightarrow> u16 \<times> bool list \<times> 'a match_tree" where
  "findOrInsertRangeMatcher room t start x =
     (case findRangeMatcher t start x of
        Some p \<Rightarrow> (RETURN_OK, p, t)
      | None \<Rightarrow>
          if \<not> fst room then (MATCH_TREE_FULL, start, t)
          else if \<not> snd room then (MATCH_TREE_FULL, start, t)
          else let p = start @ replicate (countRight (subtree_at t start)) False
               in (RETURN_OK, p, tree_insert (isOnAndBranch p) t (if p = [] then None else Some (butlast p)) (Node x End End)))"

text \<open>The ranges asked for: an event of 0 stands for all events.\<close>

definition id_request :: "u16 \<Rightarrow> u16 \<Rightarrow> bool \<Rightarrow> event_matcher" where
  "id_request idFrom idTo idInverted =
     (let (to1, inverted1) = (if idFrom = 0 then (0, True) else (idTo, idInverted));
          to2 = (if to1 = 0 then idFrom else to1)
      in EventIdRangeMatcher (newRangeMatcher idFrom to2 inverted1))"

definition reporter_request :: "u32 \<Rightarrow> u32 \<Rightarrow> bool \<Rightarrow> event_matcher" where
  "reporter_request reporterFrom reporterTo reporterInverted =
     ReporterRangeMatcher (newRangeMatcher reporterFrom (if reporterTo = 0 then reporterFrom else reporterTo) reporterInverted)"

definition addMatch ::
  "bool \<times> bool \<Rightarrow> bool \<times> bool \<Rightarrow> u16 \<Rightarrow> u16 \<Rightarrow> bool \<Rightarrow> u32 \<Rightarrow> u32 \<Rightarrow> bool \<Rightarrow> event_match_tree \<Rightarrow> u16 \<times> event_match_tree" where
  "addMatch room1 room2 idFrom idTo idInverted reporterFrom reporterTo reporterInverted t =
     (case findOrInsertRangeMatcher room1 (emtTree t) [] (id_request idFrom idTo idInverted) of
        (r1, lastTest, t1) \<Rightarrow>
          if r1 \<noteq> RETURN_OK then (r1, t\<lparr>emtTree := t1\<rparr>)
          else if reporterFrom = 0 then (RETURN_OK, t\<lparr>emtTree := t1\<rparr>)
          else (case findOrInsertRangeMatcher room2 t1 (lastTest @ [True]) (reporter_request reporterFrom reporterTo reporterInverted) of
                  (r2, _, t2) \<Rightarrow> (r2, t\<lparr>emtTree := t2\<rparr>)))"

definition removeMatch ::
  "u16 \<Rightarrow> u16 \<Rightarrow> bool \<Rightarrow> u32 \<Rightarrow> u32 \<Rightarrow> bool \<Rightarrow> event_match_tree \<Rightarrow> u16 \<times> event_match_tree" where
  "removeMatch idFrom idTo idInverted reporterFrom reporterTo reporterInverted t =
     (case findRangeMatcher (emtTree t) [] (id_request idFrom idTo idInverted) of
        None \<Rightarrow> (NO_MATCH, t)
      | Some p \<Rightarrow>
          if reporterFrom = 0 then
            (if left (subtree_at (emtTree t) p) = End
             then (case removeElementAndReconnectChildren (emtTree t) p of (r, t1) \<Rightarrow> (r, t\<lparr>emtTree := t1\<rparr>))
             else (TOO_GENERAL_REQUEST, t))
          else (case findRangeMatcher (emtTree t) (p @ [True]) (reporter_request reporterFrom reporterTo reporterInverted) of
                  None \<Rightarrow> (NO_MATCH, t)
                | Some q \<Rightarrow> (case removeElementAndReconnectChildren (emtTree t) q of (r, t1) \<Rightarrow> (r, t\<lparr>emtTree := t1\<rparr>))))"

subsection \<open>The event manager\<close>

definition LISTENER_NOT_FOUND :: u16 where [retcode]: "LISTENER_NOT_FOUND = MAKE_RETURN_CODE EVENT_MANAGER_IF 1"
definition MAX_EVENTS_PER_CYCLE :: nat where "MAX_EVENTS_PER_CYCLE = 80"

text \<open>The listeners in the order of their queues.\<close>

record event_manager =
  eventReportQueue :: u32
  listenerList :: "(u32 \<times> event_match_tree) list"

definition newEventManager :: "queue_map \<Rightarrow> (event_manager \<times> queue_map) option" where
  "newEventManager qm =
     (case addMessageQueue qm (newHostQueue 0 MAX_EVENTS_PER_CYCLE EVENT_MESSAGE_SIZE) of
        (_, Some q, qm') \<Rightarrow> Some (\<lparr>eventReportQueue = q, listenerList = []\<rparr>, qm')
      | _ \<Rightarrow> None)"

definition registerListener :: "u32 \<Rightarrow> bool \<Rightarrow> event_manager \<Rightarrow> u16 \<times> event_manager" where
  "registerListener listener forwardAllButSelected e =
     (if map_of (listenerList e) listener \<noteq> None then (RETURN_FAILED, e)
      else (RETURN_OK, e\<lparr>listenerList := insort_key fst (listener, newEventMatchTree forwardAllButSelected) (listenerList e)\<rparr>))"

definition change_listener :: "u32 \<Rightarrow> event_match_tree \<Rightarrow> event_manager \<Rightarrow> event_manager" where
  "change_listener listener t e = e\<lparr>listenerList := map (\<lambda>(q, x). (q, if q = listener then t else x)) (listenerList e)\<rparr>"

definition subscribeToEventRange ::
  "bool \<times> bool \<Rightarrow> bool \<times> bool \<Rightarrow> u32 \<Rightarrow> u16 \<Rightarrow> u16 \<Rightarrow> bool \<Rightarrow> u32 \<Rightarrow> u32 \<Rightarrow> bool \<Rightarrow> event_manager \<Rightarrow> u16 \<times> event_manager" where
  "subscribeToEventRange room1 room2 listener idFrom idTo idInverted reporterFrom reporterTo reporterInverted e =
     (case map_of (listenerList e) listener of
        None \<Rightarrow> (LISTENER_NOT_FOUND, e)
      | Some t \<Rightarrow> (case addMatch room1 room2 idFrom idTo idInverted reporterFrom reporterTo reporterInverted t of
                     (r, t') \<Rightarrow> (r, change_listener listener t' e)))"

definition subscribeToEvent :: "bool \<times> bool \<Rightarrow> bool \<times> bool \<Rightarrow> u32 \<Rightarrow> u16 \<Rightarrow> event_manager \<Rightarrow> u16 \<times> event_manager" where
  "subscribeToEvent room1 room2 listener event e = subscribeToEventRange room1 room2 listener event 0 False 0 0 False e"

definition subscribeToAllEventsFrom :: "bool \<times> bool \<Rightarrow> bool \<times> bool \<Rightarrow> u32 \<Rightarrow> u32 \<Rightarrow> event_manager \<Rightarrow> u16 \<times> event_manager" where
  "subscribeToAllEventsFrom room1 room2 listener object e = subscribeToEventRange room1 room2 listener 0 0 True object 0 False e"

definition unsubscribeFromEventRange ::
  "u32 \<Rightarrow> u16 \<Rightarrow> u16 \<Rightarrow> bool \<Rightarrow> u32 \<Rightarrow> u32 \<Rightarrow> bool \<Rightarrow> event_manager \<Rightarrow> u16 \<times> event_manager" where
  "unsubscribeFromEventRange listener idFrom idTo idInverted reporterFrom reporterTo reporterInverted e =
     (case map_of (listenerList e) listener of
        None \<Rightarrow> (LISTENER_NOT_FOUND, e)
      | Some t \<Rightarrow> (case removeMatch idFrom idTo idInverted reporterFrom reporterTo reporterInverted t of
                     (r, t') \<Rightarrow> (r, change_listener listener t' e)))"

fun notify_loop :: "byte_order \<Rightarrow> (u32 \<times> event_match_tree) list \<Rightarrow> mq_message \<Rightarrow> queue_map \<Rightarrow> queue_map" where
  "notify_loop sys [] m qm = qm"
| "notify_loop sys ((q, t) # ls) m qm =
     (if emt_match sys t m
      then (case sendMessageFromMessageQueue sys qm q m (getSender sys m) of (_, qm', m') \<Rightarrow> notify_loop sys ls m' qm')
      else notify_loop sys ls m qm)"

definition notifyListeners :: "byte_order \<Rightarrow> event_manager \<Rightarrow> mq_message \<Rightarrow> queue_map \<Rightarrow> queue_map" where
  "notifyListeners sys e m qm = notify_loop sys (listenerList e) m qm"

text \<open>A new message object in every round; printing is left out.\<close>

partial_function (option) event_loop :: "byte_order \<Rightarrow> event_manager \<Rightarrow> queue_map \<Rightarrow> queue_map option" where
  "event_loop sys e qm =
     Option.bind (queue_receive sys qm (eventReportQueue e) (newEventMessage_empty sys)) (\<lambda>(result, qm1, m).
       if result = RETURN_OK then event_loop sys e (notifyListeners sys e m qm1) else Some qm1)"

definition em_performOperation :: "byte_order \<Rightarrow> event_manager \<Rightarrow> queue_map \<Rightarrow> (u16 \<times> queue_map) option" where
  "em_performOperation sys e qm = map_option (Pair RETURN_OK) (event_loop sys e qm)"

text \<open>\<open>EventManagerIF::triggerEvent\<close>: the queue of the manager is looked up until it is known.\<close>

definition em_triggerEvent ::
  "byte_order \<Rightarrow> u32 option \<Rightarrow> u32 \<Rightarrow> mq_message \<Rightarrow> u32 \<Rightarrow> queue_map \<Rightarrow> u32 \<times> queue_map" where
  "em_triggerEvent sys manager eventmanagerQueue m sentFrom qm =
     (let q = (if eventmanagerQueue = 0 then (case manager of Some q \<Rightarrow> q | None \<Rightarrow> 0) else eventmanagerQueue)
      in (q, fst (snd (sendMessageFromMessageQueue sys qm q m sentFrom))))"

subsection \<open>The OR branches\<close>

fun or_elems :: "'a match_tree \<Rightarrow> ('a \<times> 'a match_tree) list" where
  "or_elems End = []" | "or_elems (Node x a b) = (x, a) # or_elems b"

lemma or_elems_simps [simp]: "length (or_elems t) = countRight t" "or_elems t = [] \<longleftrightarrow> t = End"
  by (induction t) auto

lemma matchSubtree_iff: "matchSubtree f t \<longleftrightarrow> (\<exists>(x, a) \<in> set (or_elems t). f x \<and> (a = End \<or> matchSubtree f a))"
  by (induction t) auto

lemma matchesTree_iff: "matchesTree f t \<longleftrightarrow> (\<exists>(x, a) \<in> set (or_elems t). f x \<and> (a = End \<or> matchesTree f a))"
  unfolding matchesTree_def using matchSubtree_iff[of f t] by (cases t) auto

lemma subtree_append: "subtree_at t (p @ q) = subtree_at (subtree_at t p) q"
  by (induction t p rule: subtree_at.induct) simp_all

lemma subtree_or: "or_elems (subtree_at t (replicate i False)) = drop i (or_elems t)"
  by (induction i arbitrary: t) (auto, case_tac t, auto)

lemma subtree_node:
  assumes "i < countRight t"
  shows "\<exists>b. subtree_at t (replicate i False) = Node (fst (or_elems t ! i)) (snd (or_elems t ! i)) b"
proof -
  have "or_elems (subtree_at t (replicate i False)) = or_elems t ! i # drop (Suc i) (or_elems t)"
    using assms by (simp add: subtree_or Cons_nth_drop_Suc)
  then show ?thesis by (cases "subtree_at t (replicate i False)") (auto simp del: subtree_at.simps dest: sym)
qed

lemma replace_or: "i \<le> countRight t \<Longrightarrow> or_elems (replace_at t (replicate i False) n) = take i (or_elems t) @ or_elems n"
  by (induction i arbitrary: t) (auto, case_tac t, auto)

lemma replace_and:
  "i < countRight t \<Longrightarrow> or_elems (replace_at t (replicate i False @ True # q) n) =
     (or_elems t)[i := (fst (or_elems t ! i), replace_at (snd (or_elems t ! i)) q n)]"
proof (induction i arbitrary: t)
  case 0 then show ?case by (cases t) simp_all
next
  case (Suc i) then show ?case by (cases t) simp_all
qed

lemma replace_below: "replace_at (replace_at t (p @ q) n) p m = replace_at t p m"
  by (induction t p m rule: replace_at.induct) simp_all

lemma subtree_End [simp]: "subtree_at End p = End"
  by (induction p) simp_all

lemma subtree_replace_below:
  "subtree_at t p = Node x a b \<Longrightarrow> subtree_at (replace_at t (p @ True # q) n) p = Node x (replace_at a q n) b"
proof (induction t p rule: subtree_at.induct)
  case (1 t) then show ?case by simp
next
  case (2 t d p) then show ?case by (cases t) (auto split: if_splits)
qed

lemma insert_replace: "tree_insert (isOnAndBranch p) t (if p = [] then None else Some (butlast p)) n = replace_at t p n"
  by (cases p rule: rev_cases) (simp_all add: tree_insert_def isOnAndBranch_def)

subsection \<open>Removing a node\<close>

lemma remove_simple:
  assumes "subtree_at t p = Node x a b" "b \<noteq> End \<or> \<not> isOnAndBranch p"
  shows "removeElementAndReconnectChildren t p = (RETURN_OK, replace_at t p b)"
  using assms insert_replace[of p _ b] replace_below[of t p "[True]" End]
  by (subst removeElementAndReconnectChildren.simps)
    (auto simp: Let_def removeElementAndAllChildren_def tree_erase_def)

lemma remove_last:
  assumes "subtree_at t (p @ [True]) = Node x a End" "subtree_at t p = Node y a' b'" "\<not> isOnAndBranch p"
  shows "removeElementAndReconnectChildren t (p @ [True]) = (RETURN_OK, replace_at t p b')"
proof -
  define t1 where "t1 = (if a \<noteq> End then snd (removeElementAndAllChildren t ((p @ [True]) @ [True])) else t)"
  have "removeElementAndReconnectChildren t (p @ [True]) = removeElementAndReconnectChildren t1 p"
    using assms(1) by (subst removeElementAndReconnectChildren.simps) (simp add: Let_def isOnAndBranch_def t1_def)
  moreover have "\<exists>a''. subtree_at t1 p = Node y a'' b'"
    using assms(2) subtree_replace_below[OF assms(2), of "[True]" End]
    by (simp add: t1_def removeElementAndAllChildren_def tree_erase_def)
  moreover have "replace_at t1 p b' = replace_at t p b'"
    using replace_below[of t p "[True, True]" End b'] by (simp add: t1_def removeElementAndAllChildren_def tree_erase_def)
  ultimately show ?thesis using remove_simple[of t1 p y _ b'] assms(3) by auto
qed

subsection \<open>The table of subscriptions\<close>

text \<open>
  What a match tree means: a map from the event ids asked for to the reporters asked for, where no reporter stands for all.
\<close>

type_synonym subscriptions = "event_matcher \<rightharpoonup> event_matcher set"

definition table_match :: "(event_matcher \<Rightarrow> bool) \<Rightarrow> subscriptions \<Rightarrow> bool" where
  "table_match f M \<longleftrightarrow> (\<exists>x R. M x = Some R \<and> f x \<and> (R = {} \<or> (\<exists>y \<in> R. f y)))"

fun table_add :: "bool \<times> bool \<Rightarrow> bool \<times> bool \<Rightarrow> event_matcher \<Rightarrow> event_matcher option \<Rightarrow> subscriptions \<Rightarrow> u16 \<times> subscriptions" where
  "table_add room1 room2 x y M =
     (if M x = None \<and> \<not> (fst room1 \<and> snd room1) then (MATCH_TREE_FULL, M)
      else let M1 = (if M x = None then M(x \<mapsto> {}) else M); R = the (M1 x) in
        case y of
          None \<Rightarrow> (RETURN_OK, M1)
        | Some r \<Rightarrow> if r \<in> R then (RETURN_OK, M1)
                    else if fst room2 \<and> snd room2 then (RETURN_OK, M1(x \<mapsto> insert r R)) else (MATCH_TREE_FULL, M1))"

fun table_remove :: "event_matcher \<Rightarrow> event_matcher option \<Rightarrow> subscriptions \<Rightarrow> u16 \<times> subscriptions" where
  "table_remove x y M =
     (case (M x, y) of
        (None, _) \<Rightarrow> (NO_MATCH, M)
      | (Some R, None) \<Rightarrow> if R = {} then (RETURN_OK, M(x := None)) else (TOO_GENERAL_REQUEST, M)
      | (Some R, Some r) \<Rightarrow>
          if r \<notin> R then (NO_MATCH, M)
          else if R = {r} then (RETURN_OK, M(x := None)) else (RETURN_OK, M(x \<mapsto> R - {r})))"

definition tree_inv :: "event_matcher match_tree \<Rightarrow> bool" where
  "tree_inv t \<longleftrightarrow> distinct (map fst (or_elems t)) \<and>
     (\<forall>(x, a) \<in> set (or_elems t). distinct (map fst (or_elems a)) \<and> (\<forall>(y, c) \<in> set (or_elems a). c = End))"

definition reporters :: "event_matcher match_tree \<Rightarrow> event_matcher set" where
  "reporters a = fst ` set (or_elems a)"

definition tree_abs :: "event_matcher match_tree \<Rightarrow> subscriptions" where
  "tree_abs t = map_of (map (\<lambda>(x, a). (x, reporters a)) (or_elems t))"

lemma reporters_empty [simp]: "reporters a = {} \<longleftrightarrow> a = End"
  by (simp add: reporters_def)

lemma tree_abs_Some:
  assumes "tree_inv t"
  shows "tree_abs t x = Some R \<longleftrightarrow> (\<exists>a. (x, a) \<in> set (or_elems t) \<and> R = reporters a)"
proof -
  have "distinct (map fst (map (\<lambda>(x, a). (x, reporters a)) (or_elems t)))"
    using assms by (simp add: tree_inv_def comp_def case_prod_beta)
  then have "tree_abs t x = Some R \<longleftrightarrow> (x, R) \<in> (\<lambda>(x, a). (x, reporters a)) ` set (or_elems t)"
    by (simp add: tree_abs_def map_of_eq_Some_iff)
  then show ?thesis by (force simp: image_iff)
qed

lemma tree_abs_None: "tree_abs t x = None \<longleftrightarrow> x \<notin> fst ` set (or_elems t)"
  by (force simp: tree_abs_def map_of_eq_None_iff image_iff)

lemma match_table:
  assumes "tree_inv t"
  shows "matchesTree f t = table_match f (tree_abs t)"
proof -
  have below: "matchesTree f a \<longleftrightarrow> (\<exists>y \<in> reporters a. f y)" if "(x, a) \<in> set (or_elems t)" for x a
  proof -
    have "\<forall>(y, c) \<in> set (or_elems a). c = End" using that assms by (auto simp: tree_inv_def)
    then have "(\<exists>(y, c) \<in> set (or_elems a). f y \<and> (c = End \<or> matchesTree f c)) \<longleftrightarrow> (\<exists>z \<in> set (or_elems a). f (fst z))"
      by (intro bex_cong[OF refl]) auto
    then show ?thesis by (simp add: matchesTree_iff[of f a] reporters_def)
  qed
  have "matchesTree f t \<longleftrightarrow> (\<exists>(x, a) \<in> set (or_elems t). f x \<and> (a = End \<or> (\<exists>y \<in> reporters a. f y)))"
    unfolding matchesTree_iff[of f t] using below by (intro bex_cong[OF refl]) auto
  also have "\<dots> \<longleftrightarrow> table_match f (tree_abs t)"
  proof
    assume "\<exists>(x, a) \<in> set (or_elems t). f x \<and> (a = End \<or> (\<exists>y \<in> reporters a. f y))"
    then obtain x a where "(x, a) \<in> set (or_elems t)" "f x" "reporters a = {} \<or> (\<exists>y \<in> reporters a. f y)" by auto
    moreover from this have "tree_abs t x = Some (reporters a)" using tree_abs_Some[OF assms] by blast
    ultimately show "table_match f (tree_abs t)" unfolding table_match_def by blast
  next
    assume "table_match f (tree_abs t)"
    then obtain x R where "tree_abs t x = Some R" "f x" "R = {} \<or> (\<exists>y \<in> R. f y)" unfolding table_match_def by blast
    moreover from this obtain a where "(x, a) \<in> set (or_elems t)" "R = reporters a" using tree_abs_Some[OF assms] by blast
    ultimately show "\<exists>(x, a) \<in> set (or_elems t). f x \<and> (a = End \<or> (\<exists>y \<in> reporters a. f y))" by auto
  qed
  finally show ?thesis .
qed

lemma find_matcher_Some:
  "find_matcher x t = Some i \<Longrightarrow> i < countRight t \<and> fst (or_elems t ! i) = x"
  by (induction x t arbitrary: i rule: find_matcher.induct) (auto split: if_splits)

lemma find_matcher_None: "find_matcher x t = None \<longleftrightarrow> x \<notin> fst ` set (or_elems t)"
  by (induction x t rule: find_matcher.induct) auto

lemma findRange_root: "findRangeMatcher t [] x = map_option (\<lambda>i. replicate i False) (find_matcher x t)"
  by (simp add: findRangeMatcher_def)

lemma on_or [simp]: "\<not> isOnAndBranch (replicate i False)"
  by (cases i rule: nat.exhaust) (auto simp: isOnAndBranch_def simp flip: replicate_append_same)

text \<open>A request in the OR branch of the root: found, or appended.\<close>

lemma find_or_insert_root:
  assumes "tree_inv t"
  shows "(case findOrInsertRangeMatcher room t [] x of (r, p, t1) \<Rightarrow>
    if x \<notin> fst ` set (or_elems t) \<and> \<not> (fst room \<and> snd room) then r = MATCH_TREE_FULL \<and> t1 = t
    else r = RETURN_OK \<and> (\<exists>i < countRight t1. p = replicate i False \<and> fst (or_elems t1 ! i) = x)
      \<and> tree_inv t1 \<and> tree_abs t1 = (if tree_abs t x = None then (tree_abs t)(x \<mapsto> {}) else tree_abs t))"
proof (cases "find_matcher x t")
  case (Some i)
  then have "x \<in> fst ` set (or_elems t)" using find_matcher_None[of x t] by auto
  then show ?thesis using Some find_matcher_Some[OF Some] assms tree_abs_None[of t x]
    by (auto simp: findOrInsertRangeMatcher_def findRange_root)
next
  case None
  let ?n = "countRight t" and ?t1 = "replace_at t (replicate (countRight t) False) (Node x End End)"
  have new: "x \<notin> fst ` set (or_elems t)" using None find_matcher_None[of x t] by auto
  have e: "or_elems ?t1 = or_elems t @ [(x, End)]" by (simp add: replace_or)
  have "countRight ?t1 = Suc ?n" using arg_cong[OF e, of length] by simp
  moreover have "tree_inv ?t1" using assms new by (auto simp: tree_inv_def e)
  moreover have "tree_abs ?t1 = (tree_abs t)(x \<mapsto> {})"
  proof -
    have "map_of (map (\<lambda>(x, a). (x, reporters a)) (or_elems t)) x = None" using new tree_abs_None[of t x] by (simp add: tree_abs_def)
    then show ?thesis by (auto simp: tree_abs_def e reporters_def map_add_def split: option.splits)
  qed
  moreover have "tree_abs t x = None" using new tree_abs_None by simp
  moreover have "tree_insert (isOnAndBranch (replicate ?n False)) t (if replicate ?n False = [] then None else Some (butlast (replicate ?n False)))
     (Node x End End) = ?t1" by (rule insert_replace)
  moreover have "fst (or_elems ?t1 ! ?n) = x" by (simp add: e nth_append)
  ultimately show ?thesis using None new
    by (auto simp: findOrInsertRangeMatcher_def findRange_root Let_def exI[of _ ?n] simp del: replicate_empty)
qed

lemma tree_abs_eqI:
  assumes "tree_inv t'" "\<And>z R. (\<exists>a. (z, a) \<in> set (or_elems t') \<and> R = reporters a) \<longleftrightarrow> M z = Some R"
  shows "tree_abs t' = M"
proof
  fix z
  have "tree_abs t' z = Some R \<longleftrightarrow> M z = Some R" for R using tree_abs_Some[OF assms(1)] assms(2) by simp
  then show "tree_abs t' z = M z" by (cases "M z"; cases "tree_abs t' z") auto
qed

lemma update_abs:
  assumes "tree_inv t" "i < countRight t" "fst (or_elems t ! i) = x" "or_elems t' = (or_elems t)[i := (x, a')]"
    and "distinct (map fst (or_elems a'))" "\<forall>(y, c) \<in> set (or_elems a'). c = End"
  shows "tree_inv t' \<and> tree_abs t' = (tree_abs t)(x \<mapsto> reporters a')"
proof -
  have d: "distinct (map fst (or_elems t))" using assms(1) by (simp add: tree_inv_def)
  have m: "map fst (or_elems t') = map fst (or_elems t)"
    using assms(2,3) by (metis (no_types, lifting) assms(4) fst_conv list_update_id map_update nth_map or_elems_simps(1))
  have "set (or_elems t') \<subseteq> insert (x, a') (set (or_elems t))" by (simp add: assms(4) set_update_subset_insert)
  then have inv: "tree_inv t'" using assms(1,5,6) d m unfolding tree_inv_def by fastforce
  have s: "(z, c) \<in> set (or_elems t') \<longleftrightarrow> (if z = x then c = a' else (z, c) \<in> set (or_elems t))" for z c
  proof -
    have "(x, a') \<in> set (or_elems t')" using assms(2) by (simp add: assms(4) set_update_memI)
    then have "(x, c) \<in> set (or_elems t') \<longleftrightarrow> c = a'" using d m by (metis eq_key_imp_eq_value)
    moreover have "(z, c) \<in> set (or_elems t') \<longleftrightarrow> (z, c) \<in> set (or_elems t)" if "z \<noteq> x"
    proof
      assume "(z, c) \<in> set (or_elems t')"
      then show "(z, c) \<in> set (or_elems t)" using that set_update_subset_insert[of "or_elems t" i "(x, a')"] by (auto simp: assms(4))
    next
      assume "(z, c) \<in> set (or_elems t)"
      then obtain k where k: "k < countRight t" "or_elems t ! k = (z, c)" by (auto simp: in_set_conv_nth)
      then have "k \<noteq> i" using that assms(3) by auto
      then have "or_elems t' ! k = (z, c)" using k(2) by (simp add: assms(4))
      then show "(z, c) \<in> set (or_elems t')" using k(1) nth_mem[of k "or_elems t'"] by (simp add: assms(4) del: nth_mem)
    qed
    ultimately show ?thesis by auto
  qed
  have "tree_abs t' = (tree_abs t)(x \<mapsto> reporters a')"
    by (rule tree_abs_eqI[OF inv]) (use s tree_abs_Some[OF assms(1)] in auto)
  with inv show ?thesis by simp
qed

lemma remove_middle:
  "distinct (map fst (xs @ w # ys)) \<Longrightarrow> set (xs @ ys) = {z \<in> set (xs @ w # ys). fst z \<noteq> fst w} \<and> distinct (map fst (xs @ ys))"
  by (auto simp: rev_image_eqI)

lemma remove_nth_set:
  assumes "distinct (map fst L)" "i < length L"
  shows "set (take i L @ drop (Suc i) L) = {z \<in> set L. fst z \<noteq> fst (L ! i)} \<and> distinct (map fst (take i L @ drop (Suc i) L))"
  using remove_middle[of "take i L" "L ! i" "drop (Suc i) L"] assms(1) id_take_nth_drop[OF assms(2), symmetric] by simp

lemma drop_abs:
  assumes "tree_inv t" "i < countRight t" "fst (or_elems t ! i) = x" "or_elems t' = take i (or_elems t) @ drop (Suc i) (or_elems t)"
  shows "tree_inv t' \<and> tree_abs t' = (tree_abs t)(x := None)"
proof -
  have r: "set (or_elems t') = {z \<in> set (or_elems t). fst z \<noteq> x}" "distinct (map fst (or_elems t'))"
    using remove_nth_set[of "or_elems t" i] assms by (auto simp: tree_inv_def)
  then have inv: "tree_inv t'" using assms(1) by (auto simp: tree_inv_def)
  have "tree_abs t' = (tree_abs t)(x := None)"
    by (rule tree_abs_eqI[OF inv]) (use r tree_abs_Some[OF assms(1)] in auto)
  with inv show ?thesis by simp
qed

text \<open>The AND branch of a matcher.\<close>

lemma branch_at:
  assumes "tree_inv t" "i < countRight t"
  shows "subtree_at t (replicate i False @ [True]) = snd (or_elems t ! i)"
    "distinct (map fst (or_elems (snd (or_elems t ! i))))" "\<forall>(y, c) \<in> set (or_elems (snd (or_elems t ! i))). c = End"
    "tree_abs t (fst (or_elems t ! i)) = Some (reporters (snd (or_elems t ! i)))"
proof -
  have m: "(fst (or_elems t ! i), snd (or_elems t ! i)) \<in> set (or_elems t)" using assms(2) by simp
  then show "tree_abs t (fst (or_elems t ! i)) = Some (reporters (snd (or_elems t ! i)))"
    using tree_abs_Some[OF assms(1)] by blast
  have "\<forall>(x, a) \<in> set (or_elems t). distinct (map fst (or_elems a)) \<and> (\<forall>(y, c) \<in> set (or_elems a). c = End)"
    using assms(1) by (simp add: tree_inv_def)
  from bspec[OF this m] show "distinct (map fst (or_elems (snd (or_elems t ! i))))"
    "\<forall>(y, c) \<in> set (or_elems (snd (or_elems t ! i))). c = End" by (simp_all add: case_prod_beta)
  show "subtree_at t (replicate i False @ [True]) = snd (or_elems t ! i)"
    using subtree_node[OF assms(2)] by (auto simp: subtree_append)
qed

lemma find_or_insert_branch:
  assumes "tree_inv t" "i < countRight t" "x = fst (or_elems t ! i)" "R = the (tree_abs t x)"
  shows "(case findOrInsertRangeMatcher room t (replicate i False @ [True]) y of (r, p, t1) \<Rightarrow>
    if y \<notin> R \<and> \<not> (fst room \<and> snd room) then r = MATCH_TREE_FULL \<and> t1 = t
    else r = RETURN_OK \<and> tree_inv t1 \<and> tree_abs t1 = (tree_abs t)(x \<mapsto> insert y R))"
proof -
  let ?a = "snd (or_elems t ! i)" and ?p = "replicate i False @ [True]"
  note b = branch_at[OF assms(1,2)]
  have R: "R = reporters ?a" "tree_abs t x = Some R" using b(4) assms(3,4) by auto
  show ?thesis
  proof (cases "find_matcher y ?a")
    case (Some j)
    then have "y \<in> R" using R find_matcher_None[of y ?a] by (auto simp: reporters_def)
    then show ?thesis using Some b(1) R assms(1)
      by (auto simp: findOrInsertRangeMatcher_def findRangeMatcher_def insert_absorb fun_upd_idem)
  next
    case None
    let ?n = "countRight ?a" and ?t1 = "replace_at t (?p @ replicate (countRight ?a) False) (Node y End End)"
    let ?a' = "replace_at ?a (replicate ?n False) (Node y End End)"
    have new: "y \<notin> R" using None R find_matcher_None[of y ?a] by (simp add: reporters_def)
    have e: "or_elems ?a' = or_elems ?a @ [(y, End)]" by (simp add: replace_or)
    have "or_elems ?t1 = (or_elems t)[i := (x, ?a')]" using replace_and[OF assms(2)] assms(3) by simp
    moreover have "distinct (map fst (or_elems ?a'))" using b(2) new R by (auto simp: e reporters_def)
    moreover have "\<forall>(y, c) \<in> set (or_elems ?a'). c = End" using b(3) by (auto simp: e)
    ultimately have u: "tree_inv ?t1 \<and> tree_abs ?t1 = (tree_abs t)(x \<mapsto> reporters ?a')"
      using update_abs[OF assms(1,2)] assms(3) by simp
    have r: "reporters ?a' = insert y R" by (simp add: reporters_def e R)
    show ?thesis using None new u r b(1) insert_replace[of "?p @ replicate ?n False" t "Node y End End"]
      by (simp add: findOrInsertRangeMatcher_def findRangeMatcher_def Let_def)
  qed
qed

definition wanted_reporter :: "u32 \<Rightarrow> u32 \<Rightarrow> bool \<Rightarrow> event_matcher option" where
  "wanted_reporter reporterFrom reporterTo reporterInverted =
     (if reporterFrom = 0 then None else Some (reporter_request reporterFrom reporterTo reporterInverted))"

text \<open>A tree that means a table.\<close>

definition means :: "event_match_tree \<Rightarrow> subscriptions \<Rightarrow> bool" where
  "means t M \<longleftrightarrow> tree_inv (emtTree t) \<and> tree_abs (emtTree t) = M"

lemma addMatch_table:
  assumes "means t M"
  shows "(case addMatch room1 room2 idFrom idTo idInverted reporterFrom reporterTo reporterInverted t of (r, t') \<Rightarrow>
    case table_add room1 room2 (id_request idFrom idTo idInverted) (wanted_reporter reporterFrom reporterTo reporterInverted) M of
      (r', M') \<Rightarrow> r = r' \<and> means t' M' \<and> invertedMatch t' = invertedMatch t)"
proof -
  let ?x = "id_request idFrom idTo idInverted" and ?y = "reporter_request reporterFrom reporterTo reporterInverted"
  have inv: "tree_inv (emtTree t)" and M: "tree_abs (emtTree t) = M" using assms by (simp_all add: means_def)
  obtain r1 p t1 where f: "findOrInsertRangeMatcher room1 (emtTree t) [] ?x = (r1, p, t1)" by (cases "findOrInsertRangeMatcher room1 (emtTree t) [] ?x")
  note root = find_or_insert_root[OF inv, where room = room1 and x = ?x, unfolded f prod.case]
  show ?thesis
  proof (cases "?x \<notin> fst ` set (or_elems (emtTree t)) \<and> \<not> (fst room1 \<and> snd room1)")
    case True
    then show ?thesis using root f inv M tree_abs_None[of "emtTree t" ?x]
      by (auto simp: addMatch_def means_def retcode)
  next
    case False
    define M1 where "M1 = (if M ?x = None then M(?x \<mapsto> {}) else M)"
    from root[unfolded if_not_P[OF False] M, folded M1_def] obtain i where r: "r1 = RETURN_OK" "i < countRight t1"
      "p = replicate i False" "fst (or_elems t1 ! i) = ?x" "tree_inv t1" "tree_abs t1 = M1" by blast
    have t1: "\<not> (M ?x = None \<and> \<not> (fst room1 \<and> snd room1))" using False tree_abs_None[of "emtTree t" ?x] M by auto
    obtain r2 q t2 where g: "findOrInsertRangeMatcher room2 t1 (p @ [True]) ?y = (r2, q, t2)"
      by (cases "findOrInsertRangeMatcher room2 t1 (p @ [True]) ?y")
    note branch = find_or_insert_branch[OF r(5) r(2) r(4)[symmetric] refl, where room = room2 and y = ?y, folded r(3), unfolded g prod.case r(6)]
    have keep: "M1(?x \<mapsto> insert ?y (the (M1 ?x))) = M1" if "?y \<in> the (M1 ?x)"
    proof -
      have "M1 ?x = Some (the (M1 ?x))" by (auto simp: M1_def)
      then show ?thesis using that by (simp add: insert_absorb fun_upd_idem)
    qed
    show ?thesis
    proof (cases "reporterFrom = 0")
      case True
      then show ?thesis using f r(1,5,6) t1 by (cases "M ?x = None") (auto simp: addMatch_def means_def wanted_reporter_def M1_def Let_def)
    next
      case False
      have "addMatch room1 room2 idFrom idTo idInverted reporterFrom reporterTo reporterInverted t = (r2, t\<lparr>emtTree := t2\<rparr>)"
        using f g r(1) False by (simp add: addMatch_def)
      moreover have "table_add room1 room2 ?x (wanted_reporter reporterFrom reporterTo reporterInverted) M =
          (if ?y \<in> the (M1 ?x) then (RETURN_OK, M1)
           else if fst room2 \<and> snd room2 then (RETURN_OK, M1(?x \<mapsto> insert ?y (the (M1 ?x)))) else (MATCH_TREE_FULL, M1))"
        using False unfolding wanted_reporter_def table_add.simps M1_def[symmetric] Let_def if_not_P[OF t1] by simp
      ultimately show ?thesis using branch keep r(5,6) by (auto simp: means_def split: if_splits)
    qed
  qed
qed

text \<open>Taking a reporter out of the AND branch of a matcher, which goes with its last reporter.\<close>

lemma remove_reporter:
  assumes "tree_inv t" "i < countRight t" "x = fst (or_elems t ! i)" "find_matcher y (snd (or_elems t ! i)) = Some j" "R = the (tree_abs t x)"
  shows "\<exists>t'. removeElementAndReconnectChildren t (replicate i False @ [True] @ replicate j False) = (RETURN_OK, t') \<and> tree_inv t'
    \<and> tree_abs t' = (if R = {y} then (tree_abs t)(x := None) else (tree_abs t)(x \<mapsto> R - {y}))"
proof -
  let ?a = "snd (or_elems t ! i)" and ?p = "replicate i False"
  note b = branch_at[OF assms(1,2)] and y = find_matcher_Some[OF assms(4)]
  have R: "R = reporters ?a" using b(4) assms(3,5) by simp
  obtain br where at: "subtree_at t ?p = Node x ?a br" using subtree_node[OF assms(2)] assms(3) by auto
  obtain br2 where at2: "subtree_at ?a (replicate j False) = Node y (snd (or_elems ?a ! j)) br2"
    using subtree_node[of j ?a] y by auto
  have drop2: "or_elems br2 = drop (Suc j) (or_elems ?a)"
    using arg_cong[OF at2, of or_elems] y by (simp add: subtree_or flip: Cons_nth_drop_Suc)
  have dropr: "or_elems br = drop (Suc i) (or_elems t)"
    using arg_cong[OF at, of or_elems] assms(2) by (simp add: subtree_or flip: Cons_nth_drop_Suc)
  have sub: "subtree_at t (?p @ [True] @ replicate j False) = Node y (snd (or_elems ?a ! j)) br2"
    using at2 at by (simp add: subtree_append)
  show ?thesis
  proof (cases "j = 0 \<and> br2 = End")
    case True
    then have l: "or_elems ?a = [(y, snd (or_elems ?a ! 0))]" using y drop2 by (cases "or_elems ?a") auto
    then have "R = {y}" by (metis R reporters_def fst_conv image_empty image_insert list.set(1,2))
    moreover have "removeElementAndReconnectChildren t (?p @ [True]) = (RETURN_OK, replace_at t ?p br)"
      using remove_last[of t ?p y "snd (or_elems ?a ! 0)" x ?a br] sub True at by simp
    moreover have "or_elems (replace_at t ?p br) = take i (or_elems t) @ drop (Suc i) (or_elems t)"
      using replace_or[of i t br] assms(2) dropr by simp
    ultimately show ?thesis using drop_abs[OF assms(1,2)] assms(3) True by simp
  next
    case False
    let ?q = "?p @ [True] @ replicate j False" and ?a' = "replace_at ?a (replicate j False) br2"
    have "\<not> (br2 = End \<and> isOnAndBranch ?q)" using False by (cases j rule: nat.exhaust)
      (auto simp: isOnAndBranch_def simp flip: replicate_append_same)
    then have rem: "removeElementAndReconnectChildren t ?q = (RETURN_OK, replace_at t ?q br2)" using remove_simple[OF sub] by blast
    have e: "or_elems ?a' = take j (or_elems ?a) @ drop (Suc j) (or_elems ?a)" using replace_or[of j ?a br2] y drop2 by simp
    have s: "set (or_elems ?a') = {z \<in> set (or_elems ?a). fst z \<noteq> y}" "distinct (map fst (or_elems ?a'))"
      using remove_nth_set[OF b(2), of j] y by (simp_all add: e)
    have r: "reporters ?a' = R - {y}" using s(1) by (auto simp: reporters_def R)
    have ne: "R \<noteq> {y}"
    proof
      assume "R = {y}"
      then have "card (set (map fst (or_elems ?a))) = 1" by (simp add: R reporters_def)
      then have "countRight ?a = 1" using distinct_card[OF b(2)] by simp
      then show False using False y drop2 by auto
    qed
    have "or_elems (replace_at t ?q br2) = (or_elems t)[i := (x, ?a')]" using replace_and[OF assms(2)] assms(3) by simp
    then have "tree_inv (replace_at t ?q br2) \<and> tree_abs (replace_at t ?q br2) = (tree_abs t)(x \<mapsto> reporters ?a')"
      using update_abs[OF assms(1,2) assms(3)[symmetric]] s b(3) by auto
    then show ?thesis using rem r ne by simp
  qed
qed

lemma removeMatch_table:
  assumes "means t M"
  shows "(case removeMatch idFrom idTo idInverted reporterFrom reporterTo reporterInverted t of (r, t') \<Rightarrow>
    case table_remove (id_request idFrom idTo idInverted) (wanted_reporter reporterFrom reporterTo reporterInverted) M of
      (r', M') \<Rightarrow> r = r' \<and> means t' M' \<and> invertedMatch t' = invertedMatch t)"
proof -
  let ?x = "id_request idFrom idTo idInverted" and ?y = "reporter_request reporterFrom reporterTo reporterInverted"
  have inv: "tree_inv (emtTree t)" and M: "tree_abs (emtTree t) = M" using assms by (simp_all add: means_def)
  show ?thesis
  proof (cases "find_matcher ?x (emtTree t)")
    case None
    then have "M ?x = None" using find_matcher_None[of ?x "emtTree t"] tree_abs_None[of "emtTree t" ?x] M by simp
    then show ?thesis using None assms by (simp add: removeMatch_def findRange_root)
  next
    case (Some i)
    let ?a = "snd (or_elems (emtTree t) ! i)" and ?p = "replicate i False"
    have i: "i < countRight (emtTree t)" "fst (or_elems (emtTree t) ! i) = ?x" using find_matcher_Some[OF Some] by simp_all
    note b = branch_at[OF inv i(1), unfolded i(2) M]
    obtain br where at: "subtree_at (emtTree t) ?p = Node ?x ?a br" using subtree_node[OF i(1)] i(2) by auto
    have dropr: "or_elems br = drop (Suc i) (or_elems (emtTree t))"
      using arg_cong[OF at, of or_elems] i(1) by (simp add: subtree_or flip: Cons_nth_drop_Suc)
    show ?thesis
    proof (cases "reporterFrom = 0")
      case True
      have "removeElementAndReconnectChildren (emtTree t) ?p = (RETURN_OK, replace_at (emtTree t) ?p br)"
        using remove_simple[OF at] by simp
      moreover have "or_elems (replace_at (emtTree t) ?p br) = take i (or_elems (emtTree t)) @ drop (Suc i) (or_elems (emtTree t))"
        using replace_or[of i "emtTree t" br] i(1) dropr by simp
      note drop_abs[OF inv i this, unfolded M]
      ultimately show ?thesis using Some b(4) at True assms M
        by (auto simp: removeMatch_def findRange_root wanted_reporter_def means_def)
    next
      case False
      show ?thesis
      proof (cases "find_matcher ?y ?a")
        case None
        then have "?y \<notin> reporters ?a" using find_matcher_None[of ?y ?a] by (simp add: reporters_def)
        then show ?thesis using None Some b(1,4) False assms
          by (simp add: removeMatch_def findRange_root findRangeMatcher_def wanted_reporter_def)
      next
        case j: (Some j)
        then have "?y \<in> reporters ?a" using find_matcher_None[of ?y ?a] by (auto simp: reporters_def)
        then show ?thesis using j Some b(1,4) False remove_reporter[OF inv i(1) i(2)[symmetric] j refl] M
          by (auto simp: removeMatch_def findRange_root findRangeMatcher_def wanted_reporter_def means_def)
      qed
    qed
  qed
qed

subsection \<open>Properties\<close>

datatype subscription_step =
    Subscribe "bool \<times> bool" "bool \<times> bool" u16 u16 bool u32 u32 bool
  | Unsubscribe u16 u16 bool u32 u32 bool

fun do_subscriptions :: "subscription_step list \<Rightarrow> event_match_tree \<Rightarrow> u16 list \<times> event_match_tree" where
  "do_subscriptions [] t = ([], t)"
| "do_subscriptions (Subscribe room1 room2 i i' iv r r' rv # ss) t =
     (case addMatch room1 room2 i i' iv r r' rv t of (code, t1) \<Rightarrow> apfst ((#) code) (do_subscriptions ss t1))"
| "do_subscriptions (Unsubscribe i i' iv r r' rv # ss) t =
     (case removeMatch i i' iv r r' rv t of (code, t1) \<Rightarrow> apfst ((#) code) (do_subscriptions ss t1))"

fun table_subscriptions :: "subscription_step list \<Rightarrow> subscriptions \<Rightarrow> u16 list \<times> subscriptions" where
  "table_subscriptions [] M = ([], M)"
| "table_subscriptions (Subscribe room1 room2 i i' iv r r' rv # ss) M =
     (case table_add room1 room2 (id_request i i' iv) (wanted_reporter r r' rv) M of
        (code, M1) \<Rightarrow> apfst ((#) code) (table_subscriptions ss M1))"
| "table_subscriptions (Unsubscribe i i' iv r r' rv # ss) M =
     (case table_remove (id_request i i' iv) (wanted_reporter r r' rv) M of
        (code, M1) \<Rightarrow> apfst ((#) code) (table_subscriptions ss M1))"

lemma do_subscriptions_means:
  assumes "means t M"
  shows "(case do_subscriptions ss t of (rs, t') \<Rightarrow> case table_subscriptions ss M of (rs', M') \<Rightarrow>
    rs = rs' \<and> means t' M' \<and> invertedMatch t' = invertedMatch t)"
  using assms
proof (induction ss arbitrary: t M)
  case Nil then show ?case by simp
next
  case (Cons step ss)
  show ?case
  proof (cases step)
    case (Subscribe room1 room2 i i' iv r r' rv)
    then show ?thesis using addMatch_table[OF Cons.prems, of room1 room2 i i' iv r r' rv] Cons.IH
      by (fastforce split: prod.splits simp del: table_add.simps)
  next
    case (Unsubscribe i i' iv r r' rv)
    then show ?thesis using removeMatch_table[OF Cons.prems, of i i' iv r r' rv] Cons.IH
      by (fastforce split: prod.splits simp del: table_remove.simps)
  qed
qed

text \<open>
  C8. The match tree of a listener implements a table: whatever subscriptions and unsubscriptions a listener makes, each is
  answered as the table of event ids and reporters answers it, and an event is forwarded exactly if the table holds an event id
  range that covers it, with no reporter or with a reporter range that covers its reporter (or, for an inverted listener, if it
  does not).
\<close>

theorem subscriptions_refine:
  "(case do_subscriptions ss (newEventMatchTree inverted) of (rs, t) \<Rightarrow>
    case table_subscriptions ss (\<lambda>x. None) of (rs', M) \<Rightarrow>
      rs = rs' \<and> emt_match sys t m = (table_match (evm_match sys m) M \<noteq> inverted))"
proof -
  have "means (newEventMatchTree inverted) (\<lambda>x. None)"
    by (simp add: means_def newEventMatchTree_def tree_inv_def tree_abs_def)
  from do_subscriptions_means[OF this, of ss] show ?thesis
    by (auto simp: means_def emt_match_def newEventMatchTree_def match_table split: prod.splits)
qed

text \<open>What an event message says: its kind and sender, the event and its parameters.\<close>

definition event_of :: "byte_order \<Rightarrow> mq_message \<Rightarrow> u32 \<times> u8 \<times> u32 \<times> u32 \<times> u32 \<times> u32" where
  "event_of sys m = (getSender sys m, getMessageId sys m, getEvent sys m, getReporter sys m, event_getParameter1 sys m, event_getParameter2 sys m)"

lemma match_event_bytes:
  assumes "take EVENT_MESSAGE_SIZE (internalBuffer m) = take EVENT_MESSAGE_SIZE (internalBuffer m')"
  shows "event_of sys m = event_of sys m'" "emt_match sys t m = emt_match sys t m'"
proof -
  have g: "get_bytes (internalBuffer m) off 4 = get_bytes (internalBuffer m') off 4" if "off \<le> 16" for off
  proof -
    have "take 4 (drop off (take EVENT_MESSAGE_SIZE b)) = get_bytes b off 4" for b :: bytes
      using that by (simp add: get_bytes_def drop_take min_def EVENT_MESSAGE_SIZE_def mq_sizes)
    then show ?thesis using assms by metis
  qed
  then have w: "data_word sys off m = data_word sys off m'" if "off \<le> 12" for off using that by (simp add: data_word_def mq_sizes)
  then show "event_of sys m = event_of sys m'"
    using g by (simp add: event_of_def getSender_def getMessageId_def getEvent_def getReporter_def event_getParameter1_def event_getParameter2_def)
  have "evm_match sys m x = evm_match sys m' x" for x
    using w by (cases x) (simp_all add: msg_getEventId_def getReporter_def msg_getSeverity_def)
  then have "evm_match sys m = evm_match sys m'" by (rule ext)
  then show "emt_match sys t m = emt_match sys t m'" by (simp add: emt_match_def)
qed

text \<open>The event queue: its messages are longer than those it hands out.\<close>

definition event_queue_inv :: "host_queue \<Rightarrow> bool" where
  "event_queue_inv h \<longleftrightarrow> queueMessageSize h = EVENT_MESSAGE_SIZE \<and> (\<forall>m \<in> set (messageQueue h). message_inv m)"

lemma receive_event:
  assumes "event_queue_inv h" "messageQueue h = m # ms"
  shows "\<exists>m'. receiveMessage sys h (newEventMessage_empty sys) = (RETURN_OK, h\<lparr>messageQueue := ms, lastPartner := getSender sys m\<rparr>, m')
    \<and> message_inv m' \<and> messageSize m' \<le> MAX_MESSAGE_SIZE \<and> event_of sys m' = event_of sys m \<and> (\<forall>t. emt_match sys t m' = emt_match sys t m)"
proof -
  let ?e = "newEventMessage_empty sys"
  have e: "message_inv ?e" "messageSize ?e = EVENT_MESSAGE_SIZE"
    by (simp_all add: newEventMessage_empty_def clearEventMessage_def setEvent_def set_data_word_def message_inv_def newMessage_def mq_sizes)
  have m: "length (internalBuffer m) = 28" using assms by (simp add: event_queue_inv_def message_inv_def mq_sizes)
  let ?m' = "?e\<lparr>internalBuffer := put_bytes (internalBuffer ?e) 0 (take EVENT_MESSAGE_SIZE (internalBuffer m))\<rparr>"
  have t: "take EVENT_MESSAGE_SIZE (internalBuffer ?m') = take EVENT_MESSAGE_SIZE (internalBuffer m)"
    using m by (simp add: put_bytes_def EVENT_MESSAGE_SIZE_def mq_sizes)
  have s: "getSender sys ?m' = getSender sys m" using match_event_bytes(1)[OF t, of sys] by (simp add: event_of_def)
  have "receiveMessage sys h ?e = (RETURN_OK, h\<lparr>messageQueue := ms, lastPartner := getSender sys m\<rparr>, ?m')"
    using assms s by (simp add: receiveMessage_def event_queue_inv_def Let_def)
  moreover have "message_inv ?m'" "messageSize ?m' \<le> MAX_MESSAGE_SIZE"
    using e m by (simp_all add: message_inv_def EVENT_MESSAGE_SIZE_def mq_sizes)
  ultimately show ?thesis using match_event_bytes[OF t] by blast
qed

lemma same_sender: "message_inv m \<Longrightarrow> setSender sys m (getSender sys m) = m"
  by (cases sys) (auto simp: setSender_def getSender_def put_bytes_def get_bytes_def message_inv_def mq_sizes object_bytes_of_object_bytes)

lemma notify_loop_spec:
  assumes "distinct (map fst ls)" "message_inv m" "messageSize m \<le> MAX_MESSAGE_SIZE"
    and "\<forall>(q, t) \<in> set ls. emt_match sys t m \<longrightarrow> has_room qm q"
  shows "queueMap (notify_loop sys ls m qm) = (\<lambda>q. case map_of ls q of
      Some t \<Rightarrow> if emt_match sys t m then map_option (\<lambda>h. h\<lparr>messageQueue := messageQueue h @ [m]\<rparr>) (queueMap qm q) else queueMap qm q
    | None \<Rightarrow> queueMap qm q)"
  using assms
proof (induction ls arbitrary: qm)
  case Nil then show ?case by simp
next
  case (Cons l ls)
  obtain q t where l: "l = (q, t)" by (cases l)
  have new: "map_of ls q = None" using Cons.prems(1) l by (simp add: map_of_eq_None_iff)
  show ?case
  proof (cases "emt_match sys t m")
    case False
    then show ?thesis using Cons l new by (auto simp: fun_eq_iff)
  next
    case True
    then obtain h where h: "queueMap qm q = Some h" "length (messageQueue h) < messageDepth h"
      using Cons.prems(4) l by (auto simp: has_room_def)
    let ?qm = "qm\<lparr>queueMap := (queueMap qm)(q \<mapsto> h\<lparr>messageQueue := messageQueue h @ [m]\<rparr>)\<rparr>"
    have s: "sendMessageFromMessageQueue sys qm q m (getSender sys m) = (RETURN_OK, ?qm, m)"
      using h Cons.prems(2,3) by (simp add: sendMessageFromMessageQueue_def host_push_def same_sender)
    have "\<forall>(q', t') \<in> set ls. emt_match sys t' m \<longrightarrow> has_room ?qm q'"
    proof (clarify)
      fix q' t' assume "(q', t') \<in> set ls" "emt_match sys t' m"
      moreover from this have "q' \<noteq> q" using Cons.prems(1) l by force
      moreover from calculation have "has_room qm q'" using Cons.prems(4) by fastforce
      ultimately show "has_room ?qm q'" by (simp add: has_room_def)
    qed
    from Cons.IH[OF _ _ _ this] show ?thesis using Cons.prems(1-3) l s True h(1) new by (auto simp: fun_eq_iff split: option.splits)
  qed
qed

text \<open>One event: what the listeners get of it.\<close>

lemma notify_event:
  assumes "distinct (map fst (listenerList e))" "message_inv m" "messageSize m \<le> MAX_MESSAGE_SIZE"
    and "\<forall>(q, t) \<in> set (listenerList e). emt_match sys t m \<longrightarrow> has_room qm q" "qm' = notifyListeners sys e m qm"
  shows "(q, t) \<in> set (listenerList e) \<Longrightarrow> queue_content qm' q = queue_content qm q @ (if emt_match sys t m \<and> queueMap qm q \<noteq> None then [m] else [])"
    "(q, t) \<in> set (listenerList e) \<Longrightarrow> queue_room qm q ((if emt_match sys t m then 1 else 0) + n) \<Longrightarrow> queue_room qm' q n"
    "q \<notin> fst ` set (listenerList e) \<Longrightarrow> queueMap qm' q = queueMap qm q"
proof -
  note n = notify_loop_spec[OF assms(1-4), folded notifyListeners_def assms(5)]
  have k: "map_of (listenerList e) q = Some t" if "(q, t) \<in> set (listenerList e)" using assms(1) that by simp
  show "(q, t) \<in> set (listenerList e) \<Longrightarrow> queue_content qm' q = queue_content qm q @ (if emt_match sys t m \<and> queueMap qm q \<noteq> None then [m] else [])"
    using k by (auto simp: queue_content_def n split: option.splits)
  show "(q, t) \<in> set (listenerList e) \<Longrightarrow> queue_room qm q ((if emt_match sys t m then 1 else 0) + n) \<Longrightarrow> queue_room qm' q n"
    using k by (auto simp: queue_room_def n split: if_splits)
  show "q \<notin> fst ` set (listenerList e) \<Longrightarrow> queueMap qm' q = queueMap qm q"
    by (simp add: n map_of_eq_None_iff[THEN iffD2])
qed

lemma event_loop_delivers:
  assumes "queueMap qm (eventReportQueue e) = Some h" "event_queue_inv h" "messageQueue h = ms"
    and "distinct (map fst (listenerList e))" "eventReportQueue e \<notin> fst ` set (listenerList e)"
    and "\<forall>(q, t) \<in> set (listenerList e). queue_room qm q (length (filter (emt_match sys t) ms))"
  shows "\<exists>qm'. event_loop sys e qm = Some qm' \<and> queue_content qm' (eventReportQueue e) = []
    \<and> (\<forall>(q, t) \<in> set (listenerList e).
         map (event_of sys) (queue_content qm' q) = map (event_of sys) (queue_content qm q @ filter (emt_match sys t) ms))
    \<and> (\<forall>q. q \<notin> fst ` set (listenerList e) \<longrightarrow> q \<noteq> eventReportQueue e \<longrightarrow> queueMap qm' q = queueMap qm q)"
  using assms
proof (induction ms arbitrary: qm h)
  case Nil
  then have "queue_receive sys qm (eventReportQueue e) (newEventMessage_empty sys) = Some (MQ_EMPTY, qm, newEventMessage_empty sys)"
    by (simp add: queue_receive_def receiveMessage_def map_upd_triv)
  then have "event_loop sys e qm = Some qm" by (subst event_loop.simps) simp
  then show ?case using Nil by (auto simp: queue_content_def)
next
  case (Cons m ms)
  let ?r = "eventReportQueue e"
  let ?h = "h\<lparr>messageQueue := ms, lastPartner := getSender sys m\<rparr>"
  define qm1 where "qm1 = qm\<lparr>queueMap := (queueMap qm)(?r \<mapsto> ?h)\<rparr>"
  obtain m' where m': "receiveMessage sys h (newEventMessage_empty sys) = (RETURN_OK, ?h, m')" "message_inv m'"
    "messageSize m' \<le> MAX_MESSAGE_SIZE" "event_of sys m' = event_of sys m" "\<And>t. emt_match sys t m' = emt_match sys t m"
    using receive_event[OF Cons.prems(2,3)] by blast
  define qm2 where "qm2 = notifyListeners sys e m' qm1"
  have rest: "queueMap qm1 q = queueMap qm q" if "q \<noteq> ?r" for q using that by (simp add: qm1_def)
  have other: "q \<noteq> ?r" if "(q, t) \<in> set (listenerList e)" for q t using Cons.prems(5) that by force
  have room: "queue_room qm1 q (length (filter (emt_match sys t) (m # ms)))" if "(q, t) \<in> set (listenerList e)" for q t
    using Cons.prems(6) that rest[OF other[OF that]] by (auto simp: queue_room_def)
  have "\<forall>(q, t) \<in> set (listenerList e). emt_match sys t m' \<longrightarrow> has_room qm1 q"
    using room m'(5) queue_room_has by fastforce
  note n = notify_event[OF Cons.prems(4) m'(2,3) this qm2_def]
  have "event_loop sys e qm = event_loop sys e qm2"
    using Cons.prems(1) m'(1) by (subst event_loop.simps) (simp add: queue_receive_def qm1_def[symmetric] qm2_def)
  moreover have r2: "queueMap qm2 ?r = Some ?h" using n(3)[OF Cons.prems(5)] by (simp add: qm1_def)
  moreover have inv: "event_queue_inv ?h" using Cons.prems(2,3) by (simp add: event_queue_inv_def)
  moreover have "\<forall>(q, t) \<in> set (listenerList e). queue_room qm2 q (length (filter (emt_match sys t) ms))"
  proof clarify
    fix q t assume qt: "(q, t) \<in> set (listenerList e)"
    show "queue_room qm2 q (length (filter (emt_match sys t) ms))" using n(2)[OF qt] room[OF qt] m'(5) by (auto split: if_splits)
  qed
  ultimately obtain qm' where qm': "event_loop sys e qm = Some qm'" "queue_content qm' ?r = []"
    "\<And>q t. (q, t) \<in> set (listenerList e) \<Longrightarrow>
         map (event_of sys) (queue_content qm' q) = map (event_of sys) (queue_content qm2 q @ filter (emt_match sys t) ms)"
    "\<And>q. q \<notin> fst ` set (listenerList e) \<Longrightarrow> q \<noteq> ?r \<Longrightarrow> queueMap qm' q = queueMap qm2 q"
    using Cons.IH[of qm2 ?h] Cons.prems(4,5) by fastforce
  have "map (event_of sys) (queue_content qm' q) = map (event_of sys) (queue_content qm q @ filter (emt_match sys t) (m # ms))"
    if qt: "(q, t) \<in> set (listenerList e)" for q t
  proof -
    have "queueMap qm q \<noteq> None" "queue_content qm1 q = queue_content qm q"
      using room[OF qt] rest[OF other[OF qt]] by (auto simp: queue_room_def queue_content_def)
    then show ?thesis using qm'(3)[OF qt] n(1)[OF qt] m'(4,5) rest[OF other[OF qt]] by auto
  qed
  moreover have "queueMap qm' q = queueMap qm q" if "q \<notin> fst ` set (listenerList e)" "q \<noteq> ?r" for q
    using qm'(4) n(3) rest that by simp
  ultimately show ?case using qm'(1,2) by blast
qed

text \<open>
  C9. One cycle of the event manager empties its queue: every listener gets exactly the events its match tree selects, in the
  order in which they were reported, each with its reporter, parameters and sender, behind what its queue held before, and no
  other queue changes, provided that the listeners have room for their events.
\<close>

theorem events_delivered:
  assumes "queueMap qm (eventReportQueue e) = Some h" "event_queue_inv h"
    and "distinct (map fst (listenerList e))" "eventReportQueue e \<notin> fst ` set (listenerList e)"
    and "\<forall>(q, t) \<in> set (listenerList e). queue_room qm q (length (filter (emt_match sys t) (messageQueue h)))"
  shows "\<exists>qm'. em_performOperation sys e qm = Some (RETURN_OK, qm') \<and> queue_content qm' (eventReportQueue e) = []
    \<and> (\<forall>(q, t) \<in> set (listenerList e).
         map (event_of sys) (queue_content qm' q) = map (event_of sys) (queue_content qm q @ filter (emt_match sys t) (messageQueue h)))
    \<and> (\<forall>q. q \<notin> fst ` set (listenerList e) \<longrightarrow> q \<noteq> eventReportQueue e \<longrightarrow> queueMap qm' q = queueMap qm q)"
  using event_loop_delivers[OF assms(1,2) refl assms(3-5)] by (auto simp: em_performOperation_def)

theorem events_delivered_witness:
  "let m = newEventMessage LITTLE_ENDIAN 0x2000A 7 1 2;
       qm = \<lparr>queueMap = [1 \<mapsto> (newHostQueue 1 80 EVENT_MESSAGE_SIZE)\<lparr>messageQueue := [m]\<rparr>, 2 \<mapsto> newHostQueue 2 3 MAX_MESSAGE_SIZE,
                         3 \<mapsto> newHostQueue 3 0 MAX_MESSAGE_SIZE], queueCounter = 4\<rparr>;
       e = \<lparr>eventReportQueue = 1, listenerList = [(2, newEventMatchTree True), (3, newEventMatchTree False)]\<rparr>
   in \<exists>qm'. em_performOperation LITTLE_ENDIAN e qm = Some (RETURN_OK, qm') \<and> queue_content qm' 1 = []
        \<and> map (event_of LITTLE_ENDIAN) (queue_content qm' 2) = [event_of LITTLE_ENDIAN m] \<and> queue_content qm' 3 = []"
proof -
  let ?m = "newEventMessage LITTLE_ENDIAN 0x2000A 7 1 2"
  let ?h = "(newHostQueue 1 80 EVENT_MESSAGE_SIZE)\<lparr>messageQueue := [?m]\<rparr>"
  let ?qm = "\<lparr>queueMap = [1 \<mapsto> ?h, 2 \<mapsto> newHostQueue 2 3 MAX_MESSAGE_SIZE, 3 \<mapsto> newHostQueue 3 0 MAX_MESSAGE_SIZE], queueCounter = 4\<rparr>"
  let ?e = "\<lparr>eventReportQueue = 1, listenerList = [(2, newEventMatchTree True), (3, newEventMatchTree False)]\<rparr>"
  have t: "emt_match LITTLE_ENDIAN (newEventMatchTree True) m" "\<not> emt_match LITTLE_ENDIAN (newEventMatchTree False) m" for m
    by (simp_all add: emt_match_def newEventMatchTree_def matchesTree_def)
  have inv: "event_queue_inv ?h"
    by (simp add: event_queue_inv_def newHostQueue_def message_inv_def newEventMessage_def newMessage_def setMessageId_def
        setEvent_def setReporter_def event_setParameter1_def event_setParameter2_def set_data_word_def mq_sizes)
  show ?thesis
    using events_delivered[of ?qm ?e ?h LITTLE_ENDIAN] inv t
    by (auto simp: Let_def queue_room_def newHostQueue_def queue_content_def)
qed

end
