(* ===== verification/DeviceHandler.thy ===== *)
theory DeviceHandler
  imports Controllers DeviceModes
begin

text \<open>
  \<open>devicehandlers/DeviceHandlerBase.cpp\<close>: the handler of one device. It moves the device between modes, sends commands
  through a communication interface and follows the replies. The virtual methods of the child class and the objects around
  the handler (communication interface, power switcher, fault isolation, parameter helper) are the record \<open>device_ops\<close>; the
  members of a child extend the record \<open>device_handler\<close>. Virtual methods that only a few children replace are definitions.
  An iterator into a map is the key it points to, \<open>None\<close> its end; \<open>None\<close> as a result is a dereference that must not happen.
  The packet to send is the content that \<open>rawPacket\<close> points to.
\<close>

subsection \<open>Codes\<close>

definition INVALID_CHANNEL :: u16 where [retcode]: "INVALID_CHANNEL = MAKE_RETURN_CODE DEVICE_HANDLER_BASE 0xA0"
definition APERIODIC_REPLY :: u16 where [retcode]: "APERIODIC_REPLY = MAKE_RETURN_CODE DEVICE_HANDLER_BASE 0xB0"
definition IGNORE_REPLY_DATA :: u16 where [retcode]: "IGNORE_REPLY_DATA = MAKE_RETURN_CODE DEVICE_HANDLER_BASE 0xB1"
definition IGNORE_FULL_PACKET :: u16 where [retcode]: "IGNORE_FULL_PACKET = MAKE_RETURN_CODE DEVICE_HANDLER_BASE 0xB2"
definition NOTHING_TO_SEND :: u16 where [retcode]: "NOTHING_TO_SEND = MAKE_RETURN_CODE DEVICE_HANDLER_BASE 0xC0"
definition COMMAND_MAP_ERROR :: u16 where [retcode]: "COMMAND_MAP_ERROR = MAKE_RETURN_CODE DEVICE_HANDLER_BASE 0xC2"
definition NO_SWITCH :: u16 where [retcode]: "NO_SWITCH = MAKE_RETURN_CODE DEVICE_HANDLER_BASE 0xD0"
definition CHILD_TIMEOUT :: u16 where [retcode]: "CHILD_TIMEOUT = MAKE_RETURN_CODE DEVICE_HANDLER_BASE 0xE0"
definition SWITCH_FAILED :: u16 where [retcode]: "SWITCH_FAILED = MAKE_RETURN_CODE DEVICE_HANDLER_BASE 0xE1"
definition RAW_COMMAND_ID :: u32 where "RAW_COMMAND_ID = - 1"
definition NO_COMMAND_ID :: u32 where "NO_COMMAND_ID = - 2"
definition NO_COMMANDER :: u32 where "NO_COMMANDER = 0"

definition SWITCH_ON :: u16 where [retcode]: "SWITCH_ON = MAKE_RETURN_CODE POWER_SWITCH_IF 1"
definition SWITCH_OFF :: u16 where [retcode]: "SWITCH_OFF = MAKE_RETURN_CODE POWER_SWITCH_IF 0"
definition SWITCH_TIMEOUT :: u16 where [retcode]: "SWITCH_TIMEOUT = MAKE_RETURN_CODE POWER_SWITCH_IF 2"
definition FUSE_ON :: u16 where [retcode]: "FUSE_ON = MAKE_RETURN_CODE POWER_SWITCH_IF 3"
definition FUSE_OFF :: u16 where [retcode]: "FUSE_OFF = MAKE_RETURN_CODE POWER_SWITCH_IF 4"
definition SWITCH_WENT_OFF :: u32 where "SWITCH_WENT_OFF = MAKE_EVENT 43 0 SEVERITY_LOW"
definition GET_DATA_FAILED :: u32 where "GET_DATA_FAILED = MAKE_EVENT 26 0 SEVERITY_LOW"
definition STORE_DATA_FAILED :: u32 where "STORE_DATA_FAILED = MAKE_EVENT 26 1 SEVERITY_LOW"
definition NO_REPLY_RECEIVED :: u16 where [retcode]: "NO_REPLY_RECEIVED = MAKE_RETURN_CODE DEVICE_COMMUNICATION_IF 0xA1"

text \<open>Thermal states and requests are signed bytes.\<close>

definition TEMP_NOT_IN_OP_RANGE :: u32 where "TEMP_NOT_IN_OP_RANGE = MAKE_EVENT 59 5 SEVERITY_LOW"
definition STATE_REQUEST_IGNORE :: u8 where "STATE_REQUEST_IGNORE = 3"
definition STATE_REQUEST_OPERATIONAL :: u8 where "STATE_REQUEST_OPERATIONAL = 1"
definition STATE_REQUEST_NON_OPERATIONAL :: u8 where "STATE_REQUEST_NON_OPERATIONAL = 0"
definition isOperational :: "u8 \<Rightarrow> bool" where "isOperational state \<longleftrightarrow> state = 0 \<or> state = 10"
definition NO_PARAMETER :: u32 where "NO_PARAMETER = 0"

subsection \<open>State\<close>

datatype wiretapping_mode = WIRETAP_OFF | WIRETAP_RAW | WIRETAP_TM
datatype cookie_state = COOKIE_UNUSED | COOKIE_WRITE_READY | COOKIE_READ_SENT | COOKIE_WRITE_SENT

record device_command_info =
  dcExecuting :: bool
  expectedReplies :: u8
  sendReplyTo :: u32

record device_reply_info =
  maxDelayCycles :: u16
  delayCycles :: u16
  replyLen :: nat
  periodic :: bool
  replyCommand :: "u32 option"

text \<open>\<open>poolVariables\<close>: the variables of the data pool the handler uses, by their identifiers.\<close>

record device_handler = mode_owner +
  dhMode :: u32
  dhSubmode :: u8
  pstStep :: u8
  wiretappingMode :: wiretapping_mode
  defaultRawReceiver :: u32
  storedRawData :: store_address
  requestedRawTraffic :: u32
  deviceCommandMap :: "(u32 \<times> device_command_info) list"
  deviceReplyMap :: "(u32 \<times> device_reply_info) list"
  rawPacket :: bytes
  cookieState :: cookie_state
  pendingCommand :: "u32 option"
  deviceThermalStatePoolId :: u32
  deviceThermalRequestPoolId :: u32
  childTransitionFailure :: u16
  ignoreMissedRepliesCount :: u32
  switchOffWasReported :: bool
  timeoutStart :: u32
  childTransitionDelay :: u32
  transitionSourceMode :: u32
  transitionSourceSubMode :: u8
  dhHkSwitcher :: hk_switch_helper
  poolVariables :: "u32 \<rightharpoonup> u8"

type_synonym 's device_hook = "'s \<Rightarrow> system_world \<Rightarrow> 's \<times> system_world"

record 's device_ops =
  doStartUp :: "'s device_hook"
  doShutDown :: "'s device_hook"
  doTransition :: "u32 \<Rightarrow> u8 \<Rightarrow> 's device_hook"
  buildNormalDeviceCommand :: "'s \<Rightarrow> system_world \<Rightarrow> u16 \<times> u32 \<times> 's \<times> system_world"
  buildTransitionDeviceCommand :: "'s \<Rightarrow> system_world \<Rightarrow> u16 \<times> u32 \<times> 's \<times> system_world"
  buildChildRawCommand :: "'s \<Rightarrow> system_world \<Rightarrow> u16 \<times> 's \<times> system_world"
  buildCommandFromCommand :: "u32 \<Rightarrow> bytes \<Rightarrow> 's \<Rightarrow> system_world \<Rightarrow> u16 \<times> 's \<times> system_world"
  scanForReply :: "bytes \<Rightarrow> u32 \<Rightarrow> nat \<Rightarrow> 's \<Rightarrow> system_world \<Rightarrow> u16 \<times> u32 \<times> nat \<times> 's \<times> system_world"
  interpretDeviceReply :: "u32 \<Rightarrow> bytes \<Rightarrow> 's \<Rightarrow> system_world \<Rightarrow> u16 \<times> 's \<times> system_world"
  setNormalDatapoolEntriesInvalid :: "'s device_hook"
  dhModeChanged :: "'s device_hook"
  dhChangeHK :: "u32 \<Rightarrow> u8 \<Rightarrow> bool \<Rightarrow> 's device_hook"
  doOnActivity :: "'s device_hook"
  doOffActivity :: "'s device_hook"
  performOperationHook :: "'s device_hook"
  isModeCombinationValid :: "u32 \<Rightarrow> u8 \<Rightarrow> 's \<Rightarrow> u16"
  getTransitionDelayMs :: "u32 \<Rightarrow> u32 \<Rightarrow> 's \<Rightarrow> u32"
  getSwitches :: "'s \<Rightarrow> u16 \<times> u8 list"
  dontCheckQueue :: "'s \<Rightarrow> bool"
  letChildHandleMessage :: "mq_message \<Rightarrow> 's \<Rightarrow> system_world \<Rightarrow> u16 \<times> 's \<times> system_world"
  comSendMessage :: "bytes \<Rightarrow> 's \<Rightarrow> system_world \<Rightarrow> u16 \<times> 's \<times> system_world"
  comGetSendSuccess :: "'s \<Rightarrow> system_world \<Rightarrow> u16 \<times> 's \<times> system_world"
  comRequestReceiveMessage :: "nat \<Rightarrow> 's \<Rightarrow> system_world \<Rightarrow> u16 \<times> 's \<times> system_world"
  comReadReceivedMessage :: "'s \<Rightarrow> system_world \<Rightarrow> u16 \<times> bytes \<times> 's \<times> system_world"
  switchDelayMs :: "u32 option"
  sendSwitchCommand :: "u8 \<Rightarrow> u16 \<Rightarrow> 's device_hook"
  getSwitchState :: "u8 \<Rightarrow> 's \<Rightarrow> system_world \<Rightarrow> u16"
  fdirTriggerEvent :: "u32 \<Rightarrow> u32 \<Rightarrow> u32 \<Rightarrow> 's device_hook"
  checkForFailures :: "'s \<Rightarrow> system_world \<Rightarrow> ('s \<times> system_world) option"
  handleParameterMessage :: "mq_message \<Rightarrow> 's \<Rightarrow> system_world \<Rightarrow> u16 \<times> 's \<times> system_world"

text \<open>\<open>switchDelayMs\<close> is \<open>None\<close> for a handler without a power switcher.\<close>

subsection \<open>The defaults of the virtual methods\<close>

definition dh_isModeCombinationValid :: "u32 \<Rightarrow> u8 \<Rightarrow> u16" where
  "dh_isModeCombinationValid mode submode =
     (if mode = MODE_OFF \<or> mode = MODE_ON \<or> mode = MODE_NORMAL \<or> mode = MODE_RAW
      then (if submode = SUBMODE_NONE then RETURN_OK else INVALID_SUBMODE) else INVALID_MODE)"

definition dh_getSwitches :: "u16 \<times> u8 list" where "dh_getSwitches = (NO_SWITCH, [])"
definition dh_getTransitionDelayMs :: "u32 \<Rightarrow> u32 \<Rightarrow> u32" where "dh_getTransitionDelayMs modeFrom modeTo = 0"
definition dh_buildChildRawCommand :: u16 where "dh_buildChildRawCommand = NOTHING_TO_SEND"
definition dh_letChildHandleMessage :: u16 where "dh_letChildHandleMessage = RETURN_FAILED"

definition getComAction :: "'a device_handler_scheme \<Rightarrow> communication_action" where
  "getComAction s = (if pstStep s = 0 then SEND_WRITE else if pstStep s = 1 then GET_WRITE
     else if pstStep s = 2 then SEND_READ else if pstStep s = 3 then GET_READ else NOTHING)"

definition acceptExternalDeviceCommands :: "'a device_handler_scheme \<Rightarrow> u16" where
  "acceptExternalDeviceCommands s = (if dhMode s \<noteq> MODE_ON \<and> dhMode s \<noteq> MODE_NORMAL then WRONG_MODE_FOR_COMMAND else RETURN_OK)"

subsection \<open>The maps of commands and replies\<close>

definition change_command :: "u32 \<Rightarrow> (device_command_info \<Rightarrow> device_command_info) \<Rightarrow> 'a device_handler_scheme \<Rightarrow> 'a device_handler_scheme" where
  "change_command k f s = s\<lparr>deviceCommandMap := map (\<lambda>(i, x). (i, if i = k then f x else x)) (deviceCommandMap s)\<rparr>"

definition change_reply :: "u32 \<Rightarrow> (device_reply_info \<Rightarrow> device_reply_info) \<Rightarrow> 'a device_handler_scheme \<Rightarrow> 'a device_handler_scheme" where
  "change_reply k f s = s\<lparr>deviceReplyMap := map (\<lambda>(i, x). (i, if i = k then f x else x)) (deviceReplyMap s)\<rparr>"

definition insertInCommandMap :: "u32 \<Rightarrow> 'a device_handler_scheme \<Rightarrow> u16 \<times> 'a device_handler_scheme" where
  "insertInCommandMap deviceCommand s =
     (if map_of (deviceCommandMap s) deviceCommand \<noteq> None then (RETURN_FAILED, s)
      else (RETURN_OK, s\<lparr>deviceCommandMap := insort_key fst
              (deviceCommand, \<lparr>dcExecuting = False, expectedReplies = 0, sendReplyTo = NO_COMMANDER\<rparr>) (deviceCommandMap s)\<rparr>))"

definition insertInReplyMap :: "u32 \<Rightarrow> u16 \<Rightarrow> nat \<Rightarrow> bool \<Rightarrow> 'a device_handler_scheme \<Rightarrow> u16 \<times> 'a device_handler_scheme" where
  "insertInReplyMap replyId maxDelay len isPeriodic s =
     (if map_of (deviceReplyMap s) replyId \<noteq> None then (RETURN_FAILED, s)
      else (RETURN_OK, s\<lparr>deviceReplyMap := insort_key fst
              (replyId, \<lparr>maxDelayCycles = maxDelay, delayCycles = 0, replyLen = len, periodic = isPeriodic, replyCommand = None\<rparr>)
              (deviceReplyMap s)\<rparr>))"

definition insertInCommandAndReplyMap ::
  "u32 \<Rightarrow> u16 \<Rightarrow> nat \<Rightarrow> bool \<Rightarrow> bool \<Rightarrow> u32 \<Rightarrow> 'a device_handler_scheme \<Rightarrow> u16 \<times> 'a device_handler_scheme" where
  "insertInCommandAndReplyMap deviceCommand maxDelay len isPeriodic hasDifferentReplyId replyId s =
     insertInReplyMap (if hasDifferentReplyId then replyId else deviceCommand) maxDelay len isPeriodic (snd (insertInCommandMap deviceCommand s))"

definition enableReplyInReplyMap ::
  "u32 \<Rightarrow> u8 \<Rightarrow> bool \<Rightarrow> u32 \<Rightarrow> 'a device_handler_scheme \<Rightarrow> u16 \<times> 'a device_handler_scheme" where
  "enableReplyInReplyMap command expected useAlternativeId alternativeReply s =
     (let reply = (if useAlternativeId then alternativeReply else command) in
      if map_of (deviceReplyMap s) reply \<noteq> None
      then (RETURN_OK, change_command command (\<lambda>c. c\<lparr>expectedReplies := expected\<rparr>)
              (change_reply reply (\<lambda>i. i\<lparr>delayCycles := maxDelayCycles i, replyCommand := Some command\<rparr>) s))
      else (NO_REPLY_EXPECTED, s))"

definition updateReplyMapEntry ::
  "'a device_handler_scheme device_ops \<Rightarrow> u32 \<Rightarrow> u16 \<Rightarrow> u16 \<Rightarrow> bool \<Rightarrow> 'a device_handler_scheme \<Rightarrow> system_world
     \<Rightarrow> u16 \<times> 'a device_handler_scheme \<times> system_world" where
  "updateReplyMapEntry ops deviceReply delay maxDelay isPeriodic s w =
     (if map_of (deviceReplyMap s) deviceReply = None
      then (case fdirTriggerEvent ops INVALID_DEVICE_COMMAND deviceReply 0 s w of (s1, w1) \<Rightarrow> (RETURN_FAILED, s1, w1))
      else (RETURN_OK, change_reply deviceReply
              (\<lambda>i. (if maxDelay \<noteq> 0 then i\<lparr>maxDelayCycles := maxDelay\<rparr> else i)\<lparr>delayCycles := delay, periodic := isPeriodic\<rparr>) s, w))"

definition getReplyDelayCycles :: "u32 \<Rightarrow> 'a device_handler_scheme \<Rightarrow> u8" where
  "getReplyDelayCycles deviceCommand s =
     (case map_of (deviceReplyMap s) deviceCommand of None \<Rightarrow> 0 | Some i \<Rightarrow> ucast (delayCycles i))"

definition isAwaitingReply :: "'a device_handler_scheme \<Rightarrow> bool" where
  "isAwaitingReply s \<longleftrightarrow> list_ex (\<lambda>(k, i). delayCycles i \<noteq> 0) (deviceReplyMap s)"

definition commandIsExecuting :: "u32 \<Rightarrow> 'a device_handler_scheme \<Rightarrow> bool" where
  "commandIsExecuting commandId s = (case map_of (deviceCommandMap s) commandId of Some c \<Rightarrow> dcExecuting c | None \<Rightarrow> False)"

text \<open>The iterator of the pending command, dereferenced.\<close>

definition pending_entry :: "'a device_handler_scheme \<Rightarrow> (u32 \<times> device_command_info) option" where
  "pending_entry s = Option.bind (pendingCommand s) (\<lambda>k. map_option (Pair k) (map_of (deviceCommandMap s) k))"

subsection \<open>Modes\<close>

definition dh_isTransitionalMode :: "'a device_handler_scheme \<Rightarrow> bool" where
  "dh_isTransitionalMode s \<longleftrightarrow> dhMode s AND (TRANSITION_MODE_BASE_ACTION_MASK OR TRANSITION_MODE_CHILD_ACTION_MASK) \<noteq> 0"

definition getBaseMode :: "u32 \<Rightarrow> u32" where
  "getBaseMode transitionMode =
     (if transitionMode = MODE_START_UP then MODE_TO_ON else if transitionMode = MODE_SHUT_DOWN then MODE_POWER_DOWN
      else transitionMode AND NOT (TRANSITION_MODE_BASE_ACTION_MASK OR TRANSITION_MODE_CHILD_ACTION_MASK))"

text \<open>A variable of the data pool that is not there reads as 0 and is not written.\<close>

definition pool_read :: "u32 \<Rightarrow> 'a device_handler_scheme \<Rightarrow> u8" where
  "pool_read i s = (case poolVariables s i of Some v \<Rightarrow> v | None \<Rightarrow> 0)"

definition pool_commit :: "u32 \<Rightarrow> u8 \<Rightarrow> 'a device_handler_scheme \<Rightarrow> 'a device_handler_scheme" where
  "pool_commit i v s = (if poolVariables s i = None then s else s\<lparr>poolVariables := (poolVariables s)(i \<mapsto> v)\<rparr>)"

definition setThermalStateRequestPoolIds :: "u32 \<Rightarrow> u32 \<Rightarrow> 'a device_handler_scheme \<Rightarrow> 'a device_handler_scheme" where
  "setThermalStateRequestPoolIds thermalStatePoolId thermalRequestPoolId s =
     s\<lparr>deviceThermalRequestPoolId := thermalStatePoolId, deviceThermalRequestPoolId := thermalRequestPoolId\<rparr>"

definition dh_announceMode :: "'a device_handler_scheme device_ops \<Rightarrow> bool \<Rightarrow> 'a device_handler_scheme device_hook" where
  "dh_announceMode ops recursive s w = fdirTriggerEvent ops MODE_INFO (dhMode s) (ucast (dhSubmode s)) s w"

definition dh_setMode :: "byte_order \<Rightarrow> 'a device_handler_scheme device_ops \<Rightarrow> u32 \<Rightarrow> u8 \<Rightarrow> 'a device_handler_scheme device_hook" where
  "dh_setMode sys ops newMode newSubmode s w =
     (case dhChangeHK ops (dhMode s) (dhSubmode s) False s w of (s1, w1) \<Rightarrow>
      case dhModeChanged ops (s1\<lparr>dhSubmode := newSubmode, dhMode := newMode\<rparr>) w1 of (s2, w2) \<Rightarrow>
      case setNormalDatapoolEntriesInvalid ops s2 w2 of (s3, w3) \<Rightarrow>
      case (if dh_isTransitionalMode s3 then (s3, w3)
            else case mh_modeChanged sys newMode newSubmode s3 w3 of (s4, w4) \<Rightarrow> dh_announceMode ops False s4 w4) of (s5, w5) \<Rightarrow>
      case getUptimeMs w5 of (now, w6) \<Rightarrow>
        let s6 = s5\<lparr>timeoutStart := now\<rparr>;
            request = deviceThermalRequestPoolId s6;
            s7 = (if dhMode s6 = MODE_OFF
                  then pool_commit request (if pool_read request s6 \<noteq> STATE_REQUEST_IGNORE then STATE_REQUEST_NON_OPERATIONAL
                                            else pool_read request s6) s6
                  else s6)
        in dhChangeHK ops (dhMode s7) (dhSubmode s7) True s7 w6)"

definition dh_setMode_only :: "byte_order \<Rightarrow> 'a device_handler_scheme device_ops \<Rightarrow> u32 \<Rightarrow> 'a device_handler_scheme device_hook" where
  "dh_setMode_only sys ops newMode s w = dh_setMode sys ops newMode (dhSubmode s) s w"

definition dh_doTransition :: "byte_order \<Rightarrow> 'a device_handler_scheme device_ops \<Rightarrow> u32 \<Rightarrow> u8 \<Rightarrow> 'a device_handler_scheme device_hook" where
  "dh_doTransition sys ops modeFrom subModeFrom s w = dh_setMode_only sys ops (getBaseMode (dhMode s)) s w"

definition dh_setTransition :: "byte_order \<Rightarrow> 'a device_handler_scheme device_ops \<Rightarrow> u32 \<Rightarrow> u8 \<Rightarrow> 'a device_handler_scheme device_hook" where
  "dh_setTransition sys ops modeTo submodeTo s w =
     (case fdirTriggerEvent ops CHANGING_MODE modeTo (ucast submodeTo) s w of (s1, w1) \<Rightarrow>
        dh_setMode sys ops (modeTo OR TRANSITION_MODE_CHILD_ACTION_MASK) submodeTo
          (s1\<lparr>childTransitionDelay := getTransitionDelayMs ops (dhMode s1) modeTo s1, transitionSourceMode := dhMode s1,
              transitionSourceSubMode := dhSubmode s1, childTransitionFailure := CHILD_TIMEOUT\<rparr>) w1)"

definition callChildStatemachine :: "'a device_handler_scheme device_ops \<Rightarrow> 'a device_handler_scheme device_hook" where
  "callChildStatemachine ops s w =
     (if dhMode s = MODE_START_UP then doStartUp ops s w
      else if dhMode s = MODE_SHUT_DOWN then doShutDown ops s w
      else if dhMode s AND TRANSITION_MODE_CHILD_ACTION_MASK \<noteq> 0
      then doTransition ops (transitionSourceMode s) (transitionSourceSubMode s) s w
      else (s, w))"

subsection \<open>Switches\<close>

definition getStateOfSwitches :: "'a device_handler_scheme device_ops \<Rightarrow> 'a device_handler_scheme \<Rightarrow> system_world \<Rightarrow> u16" where
  "getStateOfSwitches ops s w =
     (if switchDelayMs ops = None then NO_SWITCH
      else case getSwitches ops s of (result, switches) \<Rightarrow>
        if result = RETURN_OK \<and> switches \<noteq> []
        then (if list_ex (\<lambda>x. getSwitchState ops x s w = SWITCH_OFF) (rev switches) then SWITCH_OFF else SWITCH_ON)
        else NO_SWITCH)"

definition commandSwitch :: "'a device_handler_scheme device_ops \<Rightarrow> u16 \<Rightarrow> 'a device_handler_scheme device_hook" where
  "commandSwitch ops onOff s w =
     (if switchDelayMs ops = None then (s, w)
      else case getSwitches ops s of (result, switches) \<Rightarrow>
        if result = RETURN_OK then fold (\<lambda>x (s, w). sendSwitchCommand ops x onOff s w) (rev switches) (s, w) else (s, w))"

definition checkSwitchState :: "'a device_handler_scheme device_ops \<Rightarrow> 'a device_handler_scheme device_hook" where
  "checkSwitchState ops s w =
     (if dhMode s = MODE_ON \<or> dhMode s = MODE_NORMAL
      then (if getStateOfSwitches ops s w = SWITCH_OFF \<and> \<not> switchOffWasReported s
            then (case fdirTriggerEvent ops SWITCH_WENT_OFF 0 0 s w of (s1, w1) \<Rightarrow> (s1\<lparr>switchOffWasReported := True\<rparr>, w1))
            else (s, w))
      else (s\<lparr>switchOffWasReported := False\<rparr>, w))"

subsection \<open>The state machine\<close>

definition child_transition_step :: "byte_order \<Rightarrow> 'a device_handler_scheme device_ops \<Rightarrow> 'a device_handler_scheme device_hook" where
  "child_transition_step sys ops s w =
     (case callChildStatemachine ops s w of (s1, w1) \<Rightarrow>
        if dhMode s1 \<noteq> dhMode s then (s1, w1)
        else case getUptimeMs w1 of (now, w2) \<Rightarrow>
          if now - timeoutStart s1 \<ge> childTransitionDelay s1
          then (case fdirTriggerEvent ops MODE_TRANSITION_FAILED (ucast (childTransitionFailure s1)) 0 s1 w2 of (s3, w3) \<Rightarrow>
                  dh_setMode sys ops (transitionSourceMode s3) (transitionSourceSubMode s3) s3 w3)
          else (s1, w2))"

definition wait_on_step :: "byte_order \<Rightarrow> 'a device_handler_scheme device_ops \<Rightarrow> 'a device_handler_scheme device_hook" where
  "wait_on_step sys ops s w =
     (case getUptimeMs w of (now, w1) \<Rightarrow>
        if (case switchDelayMs ops of Some delay \<Rightarrow> now - timeoutStart s \<ge> delay | None \<Rightarrow> False)
        then (case fdirTriggerEvent ops MODE_TRANSITION_FAILED (ucast SWITCH_TIMEOUT) 0 s w1 of (s2, w2) \<Rightarrow>
              case dh_setMode_only sys ops MODE_POWER_DOWN s2 w2 of (s3, w3) \<Rightarrow> callChildStatemachine ops s3 w3)
        else
          let switchState = getStateOfSwitches ops s w1 in
          if switchState = SWITCH_ON \<or> switchState = NO_SWITCH
          then (case dh_setMode_only sys ops MODE_START_UP (s\<lparr>childTransitionFailure := CHILD_TIMEOUT\<rparr>) w1 of
                  (s2, w2) \<Rightarrow> callChildStatemachine ops s2 w2)
          else (s, w1))"

definition wait_off_step :: "byte_order \<Rightarrow> 'a device_handler_scheme device_ops \<Rightarrow> 'a device_handler_scheme device_hook" where
  "wait_off_step sys ops s w =
     (case getUptimeMs w of (now, w1) \<Rightarrow>
        case switchDelayMs ops of
          None \<Rightarrow> dh_setMode_only sys ops MODE_OFF s w1
        | Some delay \<Rightarrow>
            if now - timeoutStart s \<ge> delay
            then (case fdirTriggerEvent ops MODE_TRANSITION_FAILED (ucast SWITCH_TIMEOUT) 0 s w1 of (s2, w2) \<Rightarrow>
                    dh_setMode_only sys ops MODE_ERROR_ON s2 w2)
            else
              let switchState = getStateOfSwitches ops s w1 in
              if switchState = SWITCH_OFF \<or> switchState = NO_SWITCH then dh_setMode_only sys ops MODE_SWITCH_IS_OFF s w1
              else (s, w1))"

definition doStateMachine :: "byte_order \<Rightarrow> 'a device_handler_scheme device_ops \<Rightarrow> 'a device_handler_scheme device_hook" where
  "doStateMachine sys ops s w =
     (let mode = dhMode s in
      if mode \<in> {MODE_START_UP, MODE_SHUT_DOWN, MODE_TO_NORMAL, MODE_TO_ON, MODE_TO_RAW} then child_transition_step sys ops s w
      else if mode = MODE_POWER_DOWN
      then (case commandSwitch ops SWITCH_OFF s w of (s1, w1) \<Rightarrow> dh_setMode_only sys ops MODE_WAIT_OFF s1 w1)
      else if mode = MODE_POWER_ON
      then (case commandSwitch ops SWITCH_ON s w of (s1, w1) \<Rightarrow> dh_setMode_only sys ops MODE_WAIT_ON s1 w1)
      else if mode = MODE_WAIT_ON then wait_on_step sys ops s w
      else if mode = MODE_WAIT_OFF then wait_off_step sys ops s w
      else if mode = MODE_OFF then doOffActivity ops s w
      else if mode = MODE_ON then doOnActivity ops s w
      else if mode = MODE_RAW \<or> mode = MODE_NORMAL \<or> mode = MODE_ERROR_ON then (s, w)
      else if mode = MODE_SWITCH_IS_OFF then dh_setMode sys ops MODE_OFF SUBMODE_NONE s w
      else (case fdirTriggerEvent ops OBJECT_IN_INVALID_MODE mode (ucast (dhSubmode s)) s w of
              (s1, w1) \<Rightarrow> dh_setMode sys ops MODE_POWER_DOWN 0 s1 w1))"

subsection \<open>Replies to the commander\<close>

text \<open>The action helper of the handler, which uses the command queue.\<close>

definition dh_step :: "byte_order \<Rightarrow> u8 \<Rightarrow> u32 \<Rightarrow> u32 \<Rightarrow> u16 \<Rightarrow> 'a device_handler_scheme \<Rightarrow> system_world \<Rightarrow> system_world" where
  "dh_step sys st reportTo commandId result s w = ah_step sys st reportTo commandId result \<lparr>queueToUse = ownQueue s\<rparr> w"

definition dh_finish :: "byte_order \<Rightarrow> u32 \<Rightarrow> u32 \<Rightarrow> u16 \<Rightarrow> 'a device_handler_scheme \<Rightarrow> system_world \<Rightarrow> system_world" where
  "dh_finish sys reportTo commandId result s w = ah_finish sys reportTo commandId result \<lparr>queueToUse = ownQueue s\<rparr> w"

definition dh_reportData ::
  "byte_order \<Rightarrow> u32 \<Rightarrow> u32 \<Rightarrow> serializable \<Rightarrow> bool \<Rightarrow> 'a device_handler_scheme \<Rightarrow> system_world \<Rightarrow> system_world option" where
  "dh_reportData sys reportTo replyId data hideSender s w =
     map_option snd (reportData sys reportTo replyId data hideSender \<lparr>queueToUse = ownQueue s\<rparr> w)"

definition replyReturnvalueToCommand ::
  "byte_order \<Rightarrow> u16 \<Rightarrow> u32 \<Rightarrow> 'a device_handler_scheme \<Rightarrow> system_world \<Rightarrow> system_world option" where
  "replyReturnvalueToCommand sys status parameter s w =
     map_option snd (sw_reply sys (ownQueue s)
       (if status = RETURN_OK then newCommandMessage_params sys REPLY_COMMAND_OK 0 parameter
        else newCommandMessage_params sys REPLY_REJECTED (ucast status) parameter) w)"

definition replyToCommand ::
  "byte_order \<Rightarrow> u16 \<Rightarrow> u32 \<Rightarrow> 'a device_handler_scheme \<Rightarrow> system_world \<Rightarrow> system_world option" where
  "replyToCommand sys status parameter s w =
     Option.bind (pending_entry s) (\<lambda>(command, info).
       if command = RAW_COMMAND_ID
       then Option.bind (replyReturnvalueToCommand sys (if status = NO_REPLY_EXPECTED then RETURN_OK else status) parameter s w)
              (sw_deleteData (storedRawData s))
       else if sendReplyTo info \<noteq> NO_COMMANDER
       then Some (if status = NO_REPLY_EXPECTED then dh_finish sys (sendReplyTo info) command RETURN_OK s w
                  else dh_step sys 1 (sendReplyTo info) command status s w)
       else Some w)"

definition replyToReply ::
  "byte_order \<Rightarrow> u32 \<Rightarrow> u16 \<Rightarrow> 'a device_handler_scheme \<Rightarrow> system_world \<Rightarrow> ('a device_handler_scheme \<times> system_world) option" where
  "replyToReply sys reply status s w =
     Option.bind (map_of (deviceReplyMap s) reply) (\<lambda>i.
       case replyCommand i of
         None \<Rightarrow> Some (s, w)
       | Some command \<Rightarrow>
           map_option (\<lambda>info.
             let expected = expectedReplies info - 1; s1 = change_command command (\<lambda>c. c\<lparr>expectedReplies := expected\<rparr>) s
             in if expected = 0
                then (change_command command (\<lambda>c. c\<lparr>dcExecuting := False\<rparr>) s1,
                      if sendReplyTo info \<noteq> NO_COMMANDER then dh_finish sys (sendReplyTo info) reply status s1 w else w)
                else (s1, w))
             (map_of (deviceCommandMap s) command))"

definition missedReply :: "'a device_handler_scheme device_ops \<Rightarrow> u32 \<Rightarrow> 'a device_handler_scheme device_hook" where
  "missedReply ops reply s w =
     (if ignoreMissedRepliesCount s > 0 then (s\<lparr>ignoreMissedRepliesCount := ignoreMissedRepliesCount s - 1\<rparr>, w)
      else fdirTriggerEvent ops DEVICE_MISSED_REPLY reply 0 s w)"

text \<open>One entry of the reply map, and the walk over the entries.\<close>

definition decrement_entry ::
  "byte_order \<Rightarrow> 'a device_handler_scheme device_ops \<Rightarrow> u32 \<Rightarrow> 'a device_handler_scheme \<Rightarrow> system_world
     \<Rightarrow> ('a device_handler_scheme \<times> system_world) option" where
  "decrement_entry sys ops reply s w =
     Option.bind (map_of (deviceReplyMap s) reply) (\<lambda>i.
       if delayCycles i = 0 then Some (s, w)
       else
         let s1 = change_reply reply (\<lambda>i. i\<lparr>delayCycles := delayCycles i - 1\<rparr>) s in
         if delayCycles i - 1 \<noteq> 0 then Some (s1, w)
         else
           let s2 = (if periodic i then change_reply reply (\<lambda>i. i\<lparr>delayCycles := maxDelayCycles i\<rparr>) s1 else s1)
           in map_option (\<lambda>(s3, w3). missedReply ops reply s3 w3) (replyToReply sys reply DEVICE_TIMEOUT s2 w))"

fun decrement_loop ::
  "byte_order \<Rightarrow> 'a device_handler_scheme device_ops \<Rightarrow> u32 list \<Rightarrow> 'a device_handler_scheme \<Rightarrow> system_world
     \<Rightarrow> ('a device_handler_scheme \<times> system_world) option" where
  "decrement_loop sys ops [] s w = Some (s, w)"
| "decrement_loop sys ops (k # ks) s w =
     Option.bind (decrement_entry sys ops k s w) (\<lambda>(s1, w1). decrement_loop sys ops ks s1 w1)"

definition decrementDeviceReplyMap ::
  "byte_order \<Rightarrow> 'a device_handler_scheme device_ops \<Rightarrow> 'a device_handler_scheme \<Rightarrow> system_world
     \<Rightarrow> ('a device_handler_scheme \<times> system_world) option" where
  "decrementDeviceReplyMap sys ops s w = decrement_loop sys ops (map fst (deviceReplyMap s)) s w"

subsection \<open>Raw data\<close>

text \<open>\<open>data\<close> and \<open>len\<close>: what the pointer points to, and the number of bytes taken from it.\<close>

definition replyRawData ::
  "byte_order \<Rightarrow> 'a device_handler_scheme device_ops \<Rightarrow> bytes \<Rightarrow> nat \<Rightarrow> u32 \<Rightarrow> bool \<Rightarrow> 'a device_handler_scheme \<Rightarrow> system_world
     \<Rightarrow> ('a device_handler_scheme \<times> system_world) option" where
  "replyRawData sys ops data len sendTo isCommand s w =
     (if len = 0 \<or> sendTo = NO_QUEUE then Some (s, w)
      else if length data < len then None
      else Option.bind (addData (ipcStore w) INVALID_ADDRESS (take len data) False) (\<lambda>(result, address, lp).
        let w1 = w\<lparr>ipcStore := lp\<rparr> in
        if result \<noteq> RETURN_OK then Some (fdirTriggerEvent ops STORE_DATA_FAILED (ucast result) 0 s w1)
        else (case sw_send sys sendTo (setDeviceHandlerRawReplyMessage sys (newCommandMessage sys) (ownerId s) address isCommand) (ownQueue s) w1 of
                (result2, w2) \<Rightarrow> map_option (Pair s) (if result2 \<noteq> RETURN_OK then sw_deleteData address w2 else Some w2))))"

definition replyRawReplyIfnotWiretapped ::
  "byte_order \<Rightarrow> 'a device_handler_scheme device_ops \<Rightarrow> bytes \<Rightarrow> nat \<Rightarrow> 'a device_handler_scheme \<Rightarrow> system_world
     \<Rightarrow> ('a device_handler_scheme \<times> system_world) option" where
  "replyRawReplyIfnotWiretapped sys ops data len s w =
     (if wiretappingMode s = WIRETAP_RAW \<and> defaultRawReceiver s = requestedRawTraffic s then Some (s, w)
      else replyRawData sys ops data len (defaultRawReceiver s) False s w)"

text \<open>The content of an element of the IPC store through its pointer.\<close>

definition getStorageData ::
  "'a device_handler_scheme device_ops \<Rightarrow> store_address \<Rightarrow> 'a device_handler_scheme \<Rightarrow> system_world
     \<Rightarrow> u16 \<times> bytes \<times> 'a device_handler_scheme \<times> system_world" where
  "getStorageData ops storageAddress s w =
     (case modifyData (ipcStore w) storageAddress of
        (result, Some (ptr, len)) \<Rightarrow> (RETURN_OK, take len (pool_mem (ipcStore w) ptr), s, w)
      | (result, None) \<Rightarrow>
          (case fdirTriggerEvent ops GET_DATA_FAILED (ucast result) (store_address_raw storageAddress) s w of
             (s1, w1) \<Rightarrow> (result, [], s1, w1)))"

definition buildRawDeviceCommand ::
  "byte_order \<Rightarrow> 'a device_handler_scheme device_ops \<Rightarrow> mq_message \<Rightarrow> 'a device_handler_scheme \<Rightarrow> system_world
     \<Rightarrow> ('a device_handler_scheme \<times> system_world) option" where
  "buildRawDeviceCommand sys ops command s w =
     (case getStorageData ops (dhm_getStoreAddress sys command) (s\<lparr>storedRawData := dhm_getStoreAddress sys command\<rparr>) w of
        (result, packet, s1, w1) \<Rightarrow>
          let s2 = s1\<lparr>rawPacket := packet\<rparr> in
          if result \<noteq> RETURN_OK
          then map_option (Pair (s2\<lparr>storedRawData := INVALID_ADDRESS\<rparr>))
                 (replyReturnvalueToCommand sys result RAW_COMMAND_ID s2 w1)
          else if map_of (deviceCommandMap s2) RAW_COMMAND_ID = None then None
          else Some (change_command RAW_COMMAND_ID (\<lambda>c. c\<lparr>dcExecuting := True\<rparr>)
                       (s2\<lparr>pendingCommand := Some RAW_COMMAND_ID, cookieState := COOKIE_WRITE_READY\<rparr>), w1))"

subsection \<open>Communication with the device\<close>

definition doSendWrite ::
  "byte_order \<Rightarrow> 'a device_handler_scheme device_ops \<Rightarrow> 'a device_handler_scheme \<Rightarrow> system_world
     \<Rightarrow> ('a device_handler_scheme \<times> system_world) option" where
  "doSendWrite sys ops s w =
     (if cookieState s \<noteq> COOKIE_WRITE_READY then Some (s, w)
      else case comSendMessage ops (rawPacket s) s w of (result, s1, w1) \<Rightarrow>
        if result = RETURN_OK then Some (s1\<lparr>cookieState := COOKIE_WRITE_SENT\<rparr>, w1)
        else Option.bind (pending_entry s1) (\<lambda>(command, info).
          case fdirTriggerEvent ops DEVICE_SENDING_COMMAND_FAILED (ucast result) command s1 w1 of (s2, w2) \<Rightarrow>
            Option.bind (replyToCommand sys result 0 s2 w2) (\<lambda>w3.
              map_option (\<lambda>(command, info). (change_command command (\<lambda>c. c\<lparr>dcExecuting := False\<rparr>) (s2\<lparr>cookieState := COOKIE_UNUSED\<rparr>), w3))
                (pending_entry s2))))"

definition doGetWrite ::
  "byte_order \<Rightarrow> 'a device_handler_scheme device_ops \<Rightarrow> 'a device_handler_scheme \<Rightarrow> system_world
     \<Rightarrow> ('a device_handler_scheme \<times> system_world) option" where
  "doGetWrite sys ops s w =
     (if cookieState s \<noteq> COOKIE_WRITE_SENT then Some (s, w)
      else case comGetSendSuccess ops (s\<lparr>cookieState := COOKIE_UNUSED\<rparr>) w of (result, s1, w1) \<Rightarrow>
        Option.bind
          (if result = RETURN_OK
           then Option.bind
                  (if wiretappingMode s1 = WIRETAP_RAW
                   then replyRawData sys ops (rawPacket s1) (length (rawPacket s1)) (requestedRawTraffic s1) True s1 w1 else Some (s1, w1))
                  (\<lambda>(s2, w2). map_option (\<lambda>(command, info).
                     case enableReplyInReplyMap command 1 False 0 s2 of (result2, s3) \<Rightarrow> (result2, s3, w2)) (pending_entry s2))
           else map_option (\<lambda>(command, info).
                  case fdirTriggerEvent ops DEVICE_SENDING_COMMAND_FAILED (ucast result) command s1 w1 of (s2, w2) \<Rightarrow> (result, s2, w2))
                  (pending_entry s1))
          (\<lambda>(result3, s4, w4).
             Option.bind (if result3 \<noteq> RETURN_OK
                          then map_option (\<lambda>(command, info). change_command command (\<lambda>c. c\<lparr>dcExecuting := False\<rparr>) s4) (pending_entry s4)
                          else Some s4)
               (\<lambda>s5. map_option (Pair s5) (replyToCommand sys result3 0 s5 w4))))"

definition doSendRead ::
  "'a device_handler_scheme device_ops \<Rightarrow> 'a device_handler_scheme \<Rightarrow> system_world
     \<Rightarrow> ('a device_handler_scheme \<times> system_world) option" where
  "doSendRead ops s w =
     Option.bind
       (case pendingCommand s of
          None \<Rightarrow> Some 0
        | Some k \<Rightarrow> map_option (\<lambda>_. case map_of (deviceReplyMap s) k of Some i \<Rightarrow> replyLen i | None \<Rightarrow> 0) (pending_entry s))
       (\<lambda>requestLen.
          case comRequestReceiveMessage ops requestLen s w of (result, s1, w1) \<Rightarrow>
            if result = RETURN_OK then Some (s1\<lparr>cookieState := COOKIE_READ_SENT\<rparr>, w1)
            else (case fdirTriggerEvent ops DEVICE_REQUESTING_REPLY_FAILED (ucast result) 0 s1 w1 of (s2, w2) \<Rightarrow>
                    Some (s2\<lparr>ignoreMissedRepliesCount := ignoreMissedRepliesCount s2 + 1, cookieState := COOKIE_UNUSED\<rparr>, w2)))"

definition handleReply ::
  "byte_order \<Rightarrow> 'a device_handler_scheme device_ops \<Rightarrow> bytes \<Rightarrow> u32 \<Rightarrow> nat \<Rightarrow> 'a device_handler_scheme \<Rightarrow> system_world
     \<Rightarrow> ('a device_handler_scheme \<times> system_world) option" where
  "handleReply sys ops receivedData foundId foundLen s w =
     (case map_of (deviceReplyMap s) foundId of
        None \<Rightarrow>
          map_option (\<lambda>(s1, w1). fdirTriggerEvent ops DEVICE_UNKNOWN_REPLY foundId 0 s1 w1)
            (replyRawReplyIfnotWiretapped sys ops receivedData foundLen s w)
      | Some i \<Rightarrow>
          if delayCycles i \<noteq> 0
          then (case interpretDeviceReply ops foundId receivedData
                       (change_reply foundId (\<lambda>i. i\<lparr>delayCycles := (if periodic i then maxDelayCycles i else 0)\<rparr>) s) w of
                  (result, s1, w1) \<Rightarrow>
                    Option.bind
                      (if result \<noteq> RETURN_OK
                       then map_option (\<lambda>(s2, w2). fdirTriggerEvent ops DEVICE_INTERPRETING_REPLY_FAILED (ucast result) foundId s2 w2)
                              (replyRawReplyIfnotWiretapped sys ops receivedData foundLen s1 w1)
                       else Some (s1, w1))
                      (\<lambda>(s3, w3). replyToReply sys foundId result s3 w3))
          else if dhMode s \<noteq> MODE_WAIT_OFF then Some (fdirTriggerEvent ops DEVICE_UNREQUESTED_REPLY foundId 0 s w)
          else Some (s, w))"

text \<open>The loop over the received bytes; the identifier and the length found stay those of the round before when a round sets none.\<close>

fun parse_loop ::
  "byte_order \<Rightarrow> 'a device_handler_scheme device_ops \<Rightarrow> nat \<Rightarrow> bytes \<Rightarrow> u32 \<Rightarrow> nat \<Rightarrow> 'a device_handler_scheme \<Rightarrow> system_world
     \<Rightarrow> ('a device_handler_scheme \<times> system_world) option" where
  "parse_loop sys ops 0 receivedData foundId foundLen s w = Some (s, w)"
| "parse_loop sys ops (Suc rounds) receivedData foundId foundLen s w =
     (case scanForReply ops receivedData foundId foundLen s w of (result, i, len, s1, w1) \<Rightarrow>
        if result = IGNORE_FULL_PACKET then Some (s1, w1)
        else Option.bind
          (if result = RETURN_OK then handleReply sys ops receivedData i len s1 w1
           else if result = APERIODIC_REPLY
           then (case interpretDeviceReply ops i receivedData s1 w1 of (result2, s2, w2) \<Rightarrow>
                   if result2 \<noteq> RETURN_OK
                   then map_option (\<lambda>(s3, w3). fdirTriggerEvent ops DEVICE_INTERPRETING_REPLY_FAILED (ucast result2) i s3 w3)
                          (replyRawReplyIfnotWiretapped sys ops receivedData len s2 w2)
                   else Some (s2, w2))
           else if result = IGNORE_REPLY_DATA then Some (s1, w1)
           else map_option (\<lambda>(s3, w3). fdirTriggerEvent ops DEVICE_READING_REPLY_FAILED (ucast result) (of_nat len) s3 w3)
                  (replyRawReplyIfnotWiretapped sys ops receivedData len s1 w1))
          (\<lambda>(s4, w4). if length receivedData > len then parse_loop sys ops rounds (drop len receivedData) i len s4 w4 else Some (s4, w4)))"

definition parseReply ::
  "byte_order \<Rightarrow> 'a device_handler_scheme device_ops \<Rightarrow> bytes \<Rightarrow> 'a device_handler_scheme \<Rightarrow> system_world
     \<Rightarrow> ('a device_handler_scheme \<times> system_world) option" where
  "parseReply sys ops receivedData s w = parse_loop sys ops (length receivedData) receivedData 0xFFFFFFFF 0 s w"

definition doGetRead ::
  "byte_order \<Rightarrow> 'a device_handler_scheme device_ops \<Rightarrow> 'a device_handler_scheme \<Rightarrow> system_world
     \<Rightarrow> ('a device_handler_scheme \<times> system_world) option" where
  "doGetRead sys ops s w =
     (if cookieState s \<noteq> COOKIE_READ_SENT then Some (s\<lparr>cookieState := COOKIE_UNUSED\<rparr>, w)
      else case comReadReceivedMessage ops (s\<lparr>cookieState := COOKIE_UNUSED\<rparr>) w of (result, receivedData, s1, w1) \<Rightarrow>
        if result \<noteq> RETURN_OK
        then (case fdirTriggerEvent ops DEVICE_REQUESTING_REPLY_FAILED (ucast result) 0 s1 w1 of
                (s2, w2) \<Rightarrow> Some (s2\<lparr>ignoreMissedRepliesCount := ignoreMissedRepliesCount s2 + 1\<rparr>, w2))
        else if receivedData = [] then Some (s1, w1)
        else Option.bind
          (if wiretappingMode s1 = WIRETAP_RAW
           then replyRawData sys ops receivedData (length receivedData) (requestedRawTraffic s1) False s1 w1 else Some (s1, w1))
          (\<lambda>(s2, w2).
             if dhMode s2 = MODE_RAW \<and> defaultRawReceiver s2 \<noteq> NO_QUEUE
             then replyRawReplyIfnotWiretapped sys ops receivedData (length receivedData) s2 w2
             else parseReply sys ops receivedData s2 w2))"

subsection \<open>Telemetry of the device\<close>

text \<open>\<open>DeviceTmReportingWrapper\<close>: object and reply in front of the data.\<close>

definition tm_wrapper :: "byte_order \<Rightarrow> endianness \<Rightarrow> u32 \<Rightarrow> u32 \<Rightarrow> serializable \<Rightarrow> serializable" where
  "tm_wrapper sys e object action data =
     (4 + 4 + fst data, \<lambda>s m.
        case SA_serialize_word sys object s m e of (r1, s1) \<Rightarrow>
          if r1 \<noteq> RETURN_OK then (r1, s1)
          else (case SA_serialize_word sys action s1 m e of (r2, s2) \<Rightarrow>
                  if r2 \<noteq> RETURN_OK then (r2, s2) else snd data s2 m))"

text \<open>\<open>commit\<close>: writing the data to the data pool, if it is a data set.\<close>

definition handleDeviceTM ::
  "byte_order \<Rightarrow> 'a device_handler_scheme device_ops \<Rightarrow> endianness \<Rightarrow> 'a device_handler_scheme device_hook \<Rightarrow> serializable \<Rightarrow> u32 \<Rightarrow> bool \<Rightarrow> bool
     \<Rightarrow> 'a device_handler_scheme \<Rightarrow> system_world \<Rightarrow> ('a device_handler_scheme \<times> system_world) option" where
  "handleDeviceTM sys ops e commit data replyId neverInDataPool forceDirectTm s w =
     (case map_of (deviceReplyMap s) replyId of
        None \<Rightarrow> Some (fdirTriggerEvent ops DEVICE_UNKNOWN_REPLY replyId 0 s w)
      | Some i \<Rightarrow>
          let wrapper = tm_wrapper sys e (ownerId s) replyId data in
          map_option (\<lambda>w3. if neverInDataPool then (s, w3) else commit s w3)
            (case replyCommand i of
               Some command \<Rightarrow>
                 Option.bind (map_of (deviceCommandMap s) command) (\<lambda>info.
                   let queueId = sendReplyTo info in
                   Option.bind (if queueId \<noteq> NO_COMMANDER then dh_reportData sys queueId replyId data False s w else Some w) (\<lambda>w1.
                     if wiretappingMode s = WIRETAP_TM \<and> requestedRawTraffic s \<noteq> queueId
                     then dh_reportData sys (requestedRawTraffic s) replyId wrapper False s w1
                     else if forceDirectTm \<and> defaultRawReceiver s \<noteq> queueId \<and> defaultRawReceiver s \<noteq> NO_QUEUE
                     then dh_reportData sys (defaultRawReceiver s) replyId wrapper True s w1
                     else Some w1))
             | None \<Rightarrow>
                 if wiretappingMode s = WIRETAP_TM then dh_reportData sys (requestedRawTraffic s) replyId wrapper False s w
                 else if forceDirectTm \<and> defaultRawReceiver s \<noteq> NO_QUEUE
                 then dh_reportData sys (defaultRawReceiver s) replyId wrapper True s w
                 else Some w))"

subsection \<open>Commands\<close>

definition dh_checkModeCommand ::
  "'a device_handler_scheme device_ops \<Rightarrow> u32 \<Rightarrow> u8 \<Rightarrow> u32 \<Rightarrow> 'a device_handler_scheme \<Rightarrow> system_world
     \<Rightarrow> u16 \<times> u32 \<times> 'a device_handler_scheme \<times> system_world" where
  "dh_checkModeCommand ops mode submode raw s w =
     (if dh_isTransitionalMode s then (IN_TRANSITION, raw, s, w)
      else if dhMode s = MODE_ERROR_ON \<and> mode \<noteq> MODE_OFF then (TRANS_NOT_ALLOWED, raw, s, w)
      else if mode = MODE_NORMAL \<and> dhMode s = MODE_OFF then (TRANS_NOT_ALLOWED, raw, s, w)
      else if mode = MODE_ON \<and> dhMode s = MODE_OFF \<and> deviceThermalStatePoolId s \<noteq> NO_PARAMETER
        \<and> pool_read (deviceThermalRequestPoolId s) s \<noteq> STATE_REQUEST_IGNORE \<and> \<not> isOperational (pool_read (deviceThermalStatePoolId s) s)
      then (case fdirTriggerEvent ops TEMP_NOT_IN_OP_RANGE (scast (pool_read (deviceThermalStatePoolId s) s)) 0 s w of
              (s1, w1) \<Rightarrow> (NON_OP_TEMPERATURE, raw, s1, w1))
      else (isModeCombinationValid ops mode submode s, raw, s, w))"

definition dh_startTransition ::
  "byte_order \<Rightarrow> 'a device_handler_scheme device_ops \<Rightarrow> u32 \<Rightarrow> u8 \<Rightarrow> 'a device_handler_scheme \<Rightarrow> system_world
     \<Rightarrow> ('a device_handler_scheme \<times> system_world) option" where
  "dh_startTransition sys ops mode submode s w =
     (if mode = MODE_ON then
        Some (if dhMode s = MODE_OFF
              then (case dh_setMode sys ops MODE_POWER_ON submode
                           (s\<lparr>transitionSourceMode := MODE_POWER_DOWN, transitionSourceSubMode := SUBMODE_NONE\<rparr>) w of (s1, w1) \<Rightarrow>
                    case fdirTriggerEvent ops CHANGING_MODE mode (ucast submode)
                           (s1\<lparr>childTransitionDelay := getTransitionDelayMs ops MODE_START_UP MODE_ON s1\<rparr>) w1 of (s2, w2) \<Rightarrow>
                      (if pool_read (deviceThermalRequestPoolId s2) s2 \<noteq> STATE_REQUEST_IGNORE
                       then pool_commit (deviceThermalRequestPoolId s2) STATE_REQUEST_OPERATIONAL s2 else s2, w2))
              else dh_setTransition sys ops MODE_ON submode s w)
      else if mode = MODE_OFF then
        Some (if dhMode s = MODE_OFF
              then (case fdirTriggerEvent ops CHANGING_MODE mode (ucast submode) s w of
                      (s1, w1) \<Rightarrow> dh_setMode sys ops MODE_POWER_DOWN submode s1 w1)
              else (case dh_setMode sys ops MODE_SHUT_DOWN submode
                           (s\<lparr>childTransitionDelay := getTransitionDelayMs ops (dhMode s) MODE_POWER_DOWN s,
                              transitionSourceMode := MODE_POWER_DOWN, transitionSourceSubMode := submode,
                              childTransitionFailure := CHILD_TIMEOUT\<rparr>) w of
                      (s1, w1) \<Rightarrow> fdirTriggerEvent ops CHANGING_MODE mode (ucast submode) s1 w1))
      else if mode = MODE_RAW then
        Some (if dhMode s \<noteq> MODE_OFF then dh_setTransition sys ops MODE_RAW submode s w else dh_setMode sys ops MODE_RAW submode s w)
      else if mode = MODE_NORMAL then
        (if dhMode s \<noteq> MODE_OFF then Some (dh_setTransition sys ops MODE_NORMAL submode s w)
         else map_option (Pair s) (replyReturnvalueToCommand sys TRANS_NOT_ALLOWED 0 s w))
      else Some (s, w))"

text \<open>The health helper, whose events go to the fault isolation of the handler.\<close>

definition dh_hh_setHealth :: "byte_order \<Rightarrow> 'a device_handler_scheme device_ops \<Rightarrow> u8 \<Rightarrow> 'a device_handler_scheme device_hook" where
  "dh_hh_setHealth sys ops health s w =
     (let oldHealth = hh_getHealth s w in
      case fdirTriggerEvent ops HEALTH_INFO_EVENT (ucast health) (ucast oldHealth) s w of (s1, w1) \<Rightarrow>
        (s1, if health \<noteq> oldHealth
             then hh_informParent sys health oldHealth s1 (w1\<lparr>healthTable := ht_setHealth (healthTable w1) (ownerId s1) health\<rparr>)
             else w1))"

definition dh_setHealth ::
  "byte_order \<Rightarrow> 'a device_handler_scheme device_ops \<Rightarrow> u8 \<Rightarrow> 'a device_handler_scheme \<Rightarrow> system_world
     \<Rightarrow> u16 \<times> 'a device_handler_scheme \<times> system_world" where
  "dh_setHealth sys ops health s w = (RETURN_OK, dh_hh_setHealth sys ops health s w)"

definition dh_setToExternalControl :: "byte_order \<Rightarrow> 'a device_handler_scheme device_ops \<Rightarrow> 'a device_handler_scheme device_hook" where
  "dh_setToExternalControl sys ops s w = dh_hh_setHealth sys ops EXTERNAL_CONTROL s w"

definition dh_getMode :: "'a device_handler_scheme \<Rightarrow> u32 \<times> u8" where
  "dh_getMode s = (dhMode s, dhSubmode s)"

definition dh_setParentQueue :: "u32 \<Rightarrow> 'a device_handler_scheme \<Rightarrow> 'a device_handler_scheme" where
  "dh_setParentQueue parentQueueId s = s\<lparr>modeParent := parentQueueId, healthParent := parentQueueId\<rparr>"

text \<open>The check of mode commands goes with \<open>checked_mode_command\<close>, because it may report the temperature.\<close>

definition dh_owner :: "byte_order \<Rightarrow> 'a device_handler_scheme device_ops \<Rightarrow> 'a device_handler_scheme owner_ops" where
  "dh_owner sys ops =
     \<lparr>checkModeCommand = (\<lambda>m sm raw s w. case dh_checkModeCommand ops m sm raw s w of (r, t, _) \<Rightarrow> (r, t)),
      startTransition = dh_startTransition sys ops, setToExternalControl = dh_setToExternalControl sys ops,
      announceMode = dh_announceMode ops, ownerMode = dh_getMode, ownerSetHealth = dh_setHealth sys ops\<rparr>"

definition dh_executeAction ::
  "'a device_handler_scheme device_ops \<Rightarrow> u32 \<Rightarrow> u32 \<Rightarrow> bytes \<Rightarrow> 'a device_handler_scheme \<Rightarrow> system_world
     \<Rightarrow> u16 \<times> 'a device_handler_scheme \<times> system_world" where
  "dh_executeAction ops actionId commandedBy data s w =
     (if acceptExternalDeviceCommands s \<noteq> RETURN_OK then (acceptExternalDeviceCommands s, s, w)
      else case map_of (deviceCommandMap s) actionId of
          None \<Rightarrow> (COMMAND_NOT_SUPPORTED, s, w)
        | Some info \<Rightarrow>
            if dcExecuting info then (COMMAND_ALREADY_SENT, s, w)
            else case buildCommandFromCommand ops actionId data s w of (result, s1, w1) \<Rightarrow>
              (result, if result = RETURN_OK
                       then change_command actionId (\<lambda>c. c\<lparr>sendReplyTo := commandedBy, dcExecuting := True\<rparr>)
                              (s1\<lparr>pendingCommand := Some actionId, cookieState := COOKIE_WRITE_READY\<rparr>)
                       else s1, w1))"

definition buildInternalCommand :: "'a device_handler_scheme device_ops \<Rightarrow> 'a device_handler_scheme device_hook" where
  "buildInternalCommand ops s w =
     (let failed = (\<lambda>result command s w. fdirTriggerEvent ops DEVICE_BUILDING_COMMAND_FAILED (ucast result) command s w);
          built = (\<lambda>result command s1 w1.
            if result = NOTHING_TO_SEND then (s1, w1)
            else if result \<noteq> RETURN_OK then failed result command s1 w1
            else case map_of (deviceCommandMap s1) command of
                None \<Rightarrow> failed COMMAND_NOT_SUPPORTED command s1 w1
              | Some info \<Rightarrow>
                  if dcExecuting info then (s1, w1)
                  else (change_command command (\<lambda>c. c\<lparr>sendReplyTo := NO_COMMANDER, dcExecuting := True\<rparr>)
                          (s1\<lparr>pendingCommand := Some command, cookieState := COOKIE_WRITE_READY\<rparr>), w1))
      in if dhMode s = MODE_NORMAL
         then (case buildNormalDeviceCommand ops s w of
                 (result, command, s1, w1) \<Rightarrow> built (if result = DEVICE_BUSY then NOTHING_TO_SEND else result) command s1 w1)
         else if dhMode s = MODE_RAW
         then (case buildChildRawCommand ops s w of (result, s1, w1) \<Rightarrow> built result RAW_COMMAND_ID s1 w1)
         else if dhMode s AND TRANSITION_MODE_CHILD_ACTION_MASK \<noteq> 0
         then (case buildTransitionDeviceCommand ops s w of (result, command, s1, w1) \<Rightarrow> built result command s1 w1)
         else (s, w))"

definition dh_handleHealthCommand ::
  "byte_order \<Rightarrow> 'a device_handler_scheme device_ops \<Rightarrow> mq_message \<Rightarrow> 'a device_handler_scheme \<Rightarrow> system_world
     \<Rightarrow> u16 \<times> 'a device_handler_scheme \<times> system_world" where
  "dh_handleHealthCommand sys ops message s w =
     (if getCommand sys message = HEALTH_SET then (RETURN_OK, handleSetHealthCommand sys (dh_owner sys ops) message s w)
      else if getCommand sys message = HEALTH_ANNOUNCE
      then (RETURN_OK, fdirTriggerEvent ops HEALTH_INFO_EVENT (ucast (hh_getHealth s w)) (ucast (hh_getHealth s w)) s w)
      else (RETURN_FAILED, s, w))"

text \<open>The last partner of the command queue.\<close>

definition dh_lastPartner :: "'a device_handler_scheme \<Rightarrow> system_world \<Rightarrow> u32 option" where
  "dh_lastPartner s w = map_option lastPartner (queueMap (swQueues w) (ownQueue s))"

definition handleDeviceHandlerMessage ::
  "byte_order \<Rightarrow> 'a device_handler_scheme device_ops \<Rightarrow> mq_message \<Rightarrow> 'a device_handler_scheme \<Rightarrow> system_world
     \<Rightarrow> (u16 \<times> 'a device_handler_scheme \<times> system_world) option" where
  "handleDeviceHandlerMessage sys ops message s w =
     (if getCommand sys message = CMD_WIRETAPPING then
        let wanted = getWiretappingMode sys message in
        if wanted = 1 \<or> wanted = 2
        then Option.bind (dh_lastPartner s w) (\<lambda>partner.
               let s1 = s\<lparr>wiretappingMode := (if wanted = 1 then WIRETAP_RAW else WIRETAP_TM), requestedRawTraffic := partner\<rparr>
               in map_option (\<lambda>w1. (RETURN_OK, s1, w1)) (replyReturnvalueToCommand sys RETURN_OK 0 s1 w))
        else map_option (\<lambda>w1. (RETURN_OK, s\<lparr>wiretappingMode := WIRETAP_OFF\<rparr>, w1))
               (replyReturnvalueToCommand sys (if wanted = 0 then RETURN_OK else INVALID_COMMAND_PARAMETER) 0 s w)
      else if getCommand sys message = CMD_RAW then
        map_option (Pair RETURN_OK)
          (if dhMode s \<noteq> MODE_RAW
           then Option.bind (device_clear sys message (Some (ipcStore w))) (\<lambda>(_, store).
                  map_option (Pair s) (replyReturnvalueToCommand sys WRONG_MODE_FOR_COMMAND 0 s
                    (case store of Some lp \<Rightarrow> w\<lparr>ipcStore := lp\<rparr> | None \<Rightarrow> w)))
           else buildRawDeviceCommand sys ops message s w)
      else Some (RETURN_FAILED, s, w))"

text \<open>The action helper works on the handler's state.\<close>

definition dh_handleActionMessage ::
  "byte_order \<Rightarrow> 'a device_handler_scheme device_ops \<Rightarrow> mq_message \<Rightarrow> 'a device_handler_scheme \<Rightarrow> system_world
     \<Rightarrow> (u16 \<times> 'a device_handler_scheme \<times> system_world) option" where
  "dh_handleActionMessage sys ops message s w =
     handleActionMessage sys (\<lambda>commandedBy actionId dataAddress s w.
       map_option (\<lambda>(h, w1). (action_helper.more h, w1))
         (ah_prepareExecution sys (\<lambda>a q d h w. case dh_executeAction ops a q d (action_helper.more h) w of
              (result, s1, w1) \<Rightarrow> (result, \<lparr>queueToUse = ownQueue s1, \<dots> = s1\<rparr>, w1))
            commandedBy actionId dataAddress \<lparr>queueToUse = ownQueue s, \<dots> = s\<rparr> w)) message s w"

definition dh_dispatch ::
  "byte_order \<Rightarrow> 'a device_handler_scheme device_ops \<Rightarrow> u32 \<Rightarrow> mq_message \<Rightarrow> 'a device_handler_scheme \<Rightarrow> system_world
     \<Rightarrow> ('a device_handler_scheme \<times> system_world) option" where
  "dh_dispatch sys ops raw command s w =
     (case dh_handleHealthCommand sys ops command s w of (r1, s1, w1) \<Rightarrow>
        if r1 = RETURN_OK then Some (s1, w1)
        else Option.bind (checked_mode_command sys (dh_checkModeCommand ops) (dh_owner sys ops) raw command s1 w1) (\<lambda>(r2, s2, w2).
          if r2 = RETURN_OK then Some (s2, w2)
          else Option.bind (dh_handleActionMessage sys ops command s2 w2) (\<lambda>(r3, s3, w3).
            if r3 = RETURN_OK then Some (s3, w3)
            else case handleParameterMessage ops command s3 w3 of (r4, s4, w4) \<Rightarrow>
              if r4 = RETURN_OK then Some (s4, w4)
              else Option.bind (handleDeviceHandlerMessage sys ops command s4 w4) (\<lambda>(r5, s5, w5).
                if r5 = RETURN_OK then Some (s5, w5)
                else case letChildHandleMessage ops command s5 w5 of (r6, s6, w6) \<Rightarrow>
                  if r6 = RETURN_OK then Some (s6, w6)
                  else map_option (Pair s6) (replyReturnvalueToCommand sys UNKNOWN_COMMAND 0 s6 w6)))))"

definition readCommandQueue ::
  "byte_order \<Rightarrow> 'a device_handler_scheme device_ops \<Rightarrow> u32 \<Rightarrow> 'a device_handler_scheme \<Rightarrow> system_world
     \<Rightarrow> ('a device_handler_scheme \<times> system_world) option" where
  "readCommandQueue sys ops raw s w =
     (if dontCheckQueue ops s then Some (s, w)
      else Option.bind (queue_receive sys (swQueues w) (ownQueue s) (newCommandMessage sys)) (\<lambda>(result, qm, m).
        if result \<noteq> RETURN_OK then Some (s, w\<lparr>swQueues := qm\<rparr>) else dh_dispatch sys ops raw m s (w\<lparr>swQueues := qm\<rparr>)))"

subsection \<open>The cycle\<close>

text \<open>The housekeeping switch helper, a member, forwards its events to the fault isolation of the handler.\<close>

definition dh_hkPerform ::
  "byte_order \<Rightarrow> 'a device_handler_scheme device_ops \<Rightarrow> 'a device_handler_scheme \<Rightarrow> system_world
     \<Rightarrow> ('a device_handler_scheme \<times> system_world) option" where
  "dh_hkPerform sys ops s w =
     map_option (\<lambda>(_, h, w1). ((hk_switch_helper.more h)\<lparr>dhHkSwitcher := hk_switch_helper.truncate h\<rparr>, w1))
       (hk_performOperation sys
          (\<lambda>event p1 p2 h w. case fdirTriggerEvent ops event p1 p2 (hk_switch_helper.more h) w of
             (s1, w1) \<Rightarrow> (hk_switch_helper.extend (hk_switch_helper.truncate h) s1, w1))
          (hk_switch_helper.extend (dhHkSwitcher s) s) w)"

definition dh_housekeeping ::
  "byte_order \<Rightarrow> 'a device_handler_scheme device_ops \<Rightarrow> u32 \<Rightarrow> 'a device_handler_scheme \<Rightarrow> system_world
     \<Rightarrow> ('a device_handler_scheme \<times> system_world) option" where
  "dh_housekeeping sys ops raw s w =
     Option.bind (readCommandQueue sys ops raw (s\<lparr>cookieState := COOKIE_UNUSED\<rparr>) w) (\<lambda>(s1, w1).
       case doStateMachine sys ops s1 w1 of (s2, w2) \<Rightarrow>
       case checkSwitchState ops s2 w2 of (s3, w3) \<Rightarrow>
         Option.bind (decrementDeviceReplyMap sys ops s3 w3) (\<lambda>(s4, w4).
         Option.bind (checkForFailures ops s4 w4) (\<lambda>(s5, w5).
           map_option (\<lambda>(s6, w6). performOperationHook ops s6 w6) (dh_hkPerform sys ops s5 w5))))"

definition dh_performOperation ::
  "byte_order \<Rightarrow> 'a device_handler_scheme device_ops \<Rightarrow> u32 \<Rightarrow> u8 \<Rightarrow> 'a device_handler_scheme \<Rightarrow> system_world
     \<Rightarrow> ('a device_handler_scheme \<times> system_world) option" where
  "dh_performOperation sys ops raw counter s w =
     (let s0 = s\<lparr>pstStep := counter\<rparr> in
      Option.bind (if getComAction s0 = SEND_WRITE then dh_housekeeping sys ops raw s0 w else Some (s0, w)) (\<lambda>(s1, w1).
        if dhMode s1 = MODE_OFF then Some (s1, w1)
        else case getComAction s1 of
            SEND_WRITE \<Rightarrow> (case (if cookieState s1 = COOKIE_UNUSED then buildInternalCommand ops s1 w1 else (s1, w1)) of
                             (s2, w2) \<Rightarrow> doSendWrite sys ops s2 w2)
          | GET_WRITE \<Rightarrow> doGetWrite sys ops s1 w1
          | SEND_READ \<Rightarrow> doSendRead ops s1 w1
          | GET_READ \<Rightarrow> map_option (\<lambda>(s2, w2). (s2\<lparr>cookieState := COOKIE_UNUSED\<rparr>, w2)) (doGetRead sys ops s1 w1)
          | NOTHING \<Rightarrow> Some (s1, w1)))"

subsection \<open>Start-up\<close>

text \<open>The housekeeping helper is a member and creates its queue first; \<open>proxy\<close> is the handler as event proxy.\<close>

definition newDeviceHandler :: "queue_map \<Rightarrow> u32 \<Rightarrow> nat \<Rightarrow> nat \<Rightarrow> u32 \<Rightarrow> (device_handler \<times> queue_map) option" where
  "newDeviceHandler qm setObjectId defaultDepth cmdQueueSize proxy =
     Option.bind (newHkSwitchHelper proxy defaultDepth qm) (\<lambda>(hk, qm1).
       case addMessageQueue qm1 (newHostQueue 0 cmdQueueSize MAX_MESSAGE_SIZE) of
         (_, Some qid, qm2) \<Rightarrow>
           Some (snd (insertInCommandMap RAW_COMMAND_ID
             \<lparr>ownerId = setObjectId, ownQueue = qid, healthParent = NO_QUEUE, modeParent = NO_QUEUE, commandedMode = MODE_OFF,
              commandedSubmode = SUBMODE_NONE, theOneWhoCommandedAMode = NO_QUEUE, modeForced = False,
              modeCountdown = \<lparr>cdStart = 0, cdTimeout = 0\<rparr>, dhMode = MODE_OFF, dhSubmode = SUBMODE_NONE, pstStep = 0,
              wiretappingMode = WIRETAP_OFF, defaultRawReceiver = NO_QUEUE, storedRawData = INVALID_ADDRESS, requestedRawTraffic = 0,
              deviceCommandMap = [], deviceReplyMap = [], rawPacket = [], cookieState = COOKIE_UNUSED, pendingCommand = None,
              deviceThermalStatePoolId = NO_PARAMETER, deviceThermalRequestPoolId = NO_PARAMETER,
              childTransitionFailure = RETURN_OK, ignoreMissedRepliesCount = 0, switchOffWasReported = False, timeoutStart = 0,
              childTransitionDelay = 5000, transitionSourceMode = MODE_POWER_DOWN, transitionSourceSubMode = SUBMODE_NONE,
              dhHkSwitcher = hk, poolVariables = (\<lambda>_. None)\<rparr>), qm2)
       | _ \<Rightarrow> None)"

text \<open>
  What the object manager and the other objects answer: the initialization of the interface, the IPC store, the queue of the
  receiver of raw data and the power switcher if they are configured (\<open>Some None\<close>: configured, but not found), the health
  table, the event proxy, fault isolation and parameter helper; \<open>fillMaps\<close> is \<open>fillCommandAndReplyMap\<close> of the child.
\<close>

definition dh_initialize ::
  "u16 \<Rightarrow> u16 option \<Rightarrow> bool \<Rightarrow> u32 option option \<Rightarrow> bool option \<Rightarrow> bool \<Rightarrow> bool \<Rightarrow> u16 \<Rightarrow> u16
     \<Rightarrow> 'a device_handler_scheme device_hook \<Rightarrow> 'a device_handler_scheme \<Rightarrow> system_world \<Rightarrow> u16 \<times> 'a device_handler_scheme \<times> system_world" where
  "dh_initialize system interface store rawReceiver switcher table proxy fdirResult parameterResult fillMaps s w =
     (if system \<noteq> RETURN_OK then (system, s, w)
      else if interface = None then (CHILD_INIT_FAILED, s, w)
      else if interface \<noteq> Some RETURN_OK then (the interface, s, w)
      else if \<not> store then (CHILD_INIT_FAILED, s, w)
      else if rawReceiver = Some None then (CHILD_INIT_FAILED, s, w)
      else
        let s1 = (case rawReceiver of Some (Some q) \<Rightarrow> s\<lparr>defaultRawReceiver := q\<rparr> | _ \<Rightarrow> s) in
        if switcher = Some False then (CHILD_INIT_FAILED, s1, w)
        else case hh_initialize (healthParent s1) table proxy s1 w of (r1, s2, w2) \<Rightarrow>
          if r1 \<noteq> RETURN_OK then (r1, s2, w2)
          else case mh_initialize (modeParent s2) s2 of (r2, s3) \<Rightarrow>
            if r2 \<noteq> RETURN_OK then (r2, s3, w2)
            else if fdirResult \<noteq> RETURN_OK then (fdirResult, s3, w2)
            else if parameterResult \<noteq> RETURN_OK then (parameterResult, s3, w2)
            else case hk_initialize store (dhHkSwitcher s3) of (r3, hk) \<Rightarrow>
              let s4 = s3\<lparr>dhHkSwitcher := hk\<rparr> in
              if r3 \<noteq> RETURN_OK then (r3, s4, w2)
              else case fillMaps s4 w2 of (s5, w5) \<Rightarrow>
                (RETURN_OK, pool_commit (deviceThermalRequestPoolId s5) STATE_REQUEST_NON_OPERATIONAL s5, w5))"

end
