(* ===== verification/DeviceModeResults.thy ===== *)
theory DeviceModeResults
  imports DeviceHandler
begin

text \<open>
  The state machine of a device handler comes to rest: in any mode, a number of steps after their deadlines that depends only on
  how often the child class sets the device back ends in a mode that can be commanded.
\<close>

subsection \<open>Progress\<close>

definition settled_mode :: "u32 \<Rightarrow> bool" where
  "settled_mode m \<longleftrightarrow> m \<in> {MODE_OFF, MODE_ON, MODE_RAW, MODE_NORMAL, MODE_ERROR_ON}"

definition mode_rank :: "u32 \<Rightarrow> nat" where
  "mode_rank m =
     (if settled_mode m then 0 else if m = MODE_SWITCH_IS_OFF then 1 else if m = MODE_WAIT_OFF then 2
      else if m = MODE_POWER_DOWN then 3 else if m \<in> {MODE_SHUT_DOWN, MODE_TO_NORMAL, MODE_TO_ON, MODE_TO_RAW} then 5
      else if m = MODE_START_UP then 6 else if m = MODE_WAIT_ON then 7 else if m = MODE_POWER_ON then 8 else 4)"

lemma mode_ranks [simp]:
  "mode_rank MODE_OFF = 0" "mode_rank MODE_ON = 0" "mode_rank MODE_RAW = 0" "mode_rank MODE_NORMAL = 0" "mode_rank MODE_ERROR_ON = 0"
  "mode_rank MODE_SWITCH_IS_OFF = 1" "mode_rank MODE_WAIT_OFF = 2" "mode_rank MODE_POWER_DOWN = 3" "mode_rank MODE_SHUT_DOWN = 5"
  "mode_rank MODE_TO_NORMAL = 5" "mode_rank MODE_TO_ON = 5" "mode_rank MODE_TO_RAW = 5" "mode_rank MODE_START_UP = 6"
  "mode_rank MODE_WAIT_ON = 7" "mode_rank MODE_POWER_ON = 8"
  by (simp_all add: mode_rank_def settled_mode_def device_modes MODE_OFF_def MODE_ON_def)

lemma mode_rank_0: "mode_rank m = 0 \<longleftrightarrow> settled_mode m"
  by (simp add: mode_rank_def)

definition dh_frame :: "'a device_handler_scheme \<Rightarrow> u32 \<times> u32 \<times> u32 \<times> u32" where
  "dh_frame s = (dhMode s, transitionSourceMode s, childTransitionDelay s, timeoutStart s)"

definition quiet_hook :: "'a device_handler_scheme device_hook \<Rightarrow> bool" where
  "quiet_hook f \<longleftrightarrow> (\<forall>s w. case f s w of (s', w') \<Rightarrow> dh_frame s' = dh_frame s \<and> clock w' = clock w)"

text \<open>
  The methods of the child that move the device may set any mode. What they cannot touch is the clock and the mode a transition
  falls back to, which is a private member of the base class. The other hooks set no mode.
\<close>

definition loyal_hook :: "'a device_handler_scheme device_hook \<Rightarrow> bool" where
  "loyal_hook f \<longleftrightarrow> (\<forall>s w. case f s w of (s', w') \<Rightarrow> clock w' = clock w \<and> transitionSourceMode s' = transitionSourceMode s)"

definition loyal_ops :: "'a device_handler_scheme device_ops \<Rightarrow> bool" where
  "loyal_ops ops \<longleftrightarrow> (\<forall>m sm b. quiet_hook (dhChangeHK ops m sm b)) \<and> quiet_hook (dhModeChanged ops)
     \<and> quiet_hook (setNormalDatapoolEntriesInvalid ops)
     \<and> (\<forall>x c. quiet_hook (sendSwitchCommand ops x c)) \<and> (\<forall>e a b. quiet_hook (fdirTriggerEvent ops e a b))
     \<and> loyal_hook (doStartUp ops) \<and> loyal_hook (doShutDown ops) \<and> (\<forall>m sm. loyal_hook (doTransition ops m sm))"

text \<open>
  The mode a transition falls back to: \<open>startTransition\<close> and \<open>setTransition\<close> store the mode the device was commanded in, or that
  the device is to be switched off.
\<close>

definition source_ok :: "'a device_handler_scheme \<Rightarrow> bool" where
  "source_ok s \<longleftrightarrow> transitionSourceMode s \<in> {MODE_OFF, MODE_ON, MODE_RAW, MODE_NORMAL, MODE_ERROR_ON, MODE_POWER_DOWN}"

lemma source_rank: "source_ok s \<Longrightarrow> mode_rank (transitionSourceMode s) \<le> 3"
  by (auto simp: source_ok_def)

abbreviation child_action_modes :: "u32 set" where
  "child_action_modes \<equiv> {MODE_START_UP, MODE_SHUT_DOWN, MODE_TO_NORMAL, MODE_TO_ON, MODE_TO_RAW}"

text \<open>The state in which a step calls the child: its own, or while waiting for the switch to be on, the one this wait ends in.\<close>

definition child_call :: "byte_order \<Rightarrow> 'a device_handler_scheme device_ops \<Rightarrow> 'a device_handler_scheme device_hook" where
  "child_call sys ops s w =
     (if dhMode s = MODE_WAIT_ON
      then (case getUptimeMs w of (now, w1) \<Rightarrow>
              if (case switchDelayMs ops of Some delay \<Rightarrow> now - timeoutStart s \<ge> delay | None \<Rightarrow> False)
                \<or> getStateOfSwitches ops s w1 \<notin> {SWITCH_ON, NO_SWITCH} then (s, w1)
              else dh_setMode_only sys ops MODE_START_UP (s\<lparr>childTransitionFailure := CHILD_TIMEOUT\<rparr>) w1)
      else (s, w))"

text \<open>The child sets the device back: it sets a mode, and not one that is nearer to the end. Every mode set restarts the timer.\<close>

definition set_back :: "byte_order \<Rightarrow> 'a device_handler_scheme device_ops \<Rightarrow> 'a device_handler_scheme \<Rightarrow> system_world \<Rightarrow> bool" where
  "set_back sys ops s w \<longleftrightarrow> (case child_call sys ops s w of (c, v) \<Rightarrow> dhMode c \<in> child_action_modes
     \<and> dh_frame (fst (callChildStatemachine ops c v)) \<noteq> dh_frame c
     \<and> mode_rank (dhMode s) \<le> mode_rank (dhMode (fst (callChildStatemachine ops c v))))"

lemma quietD: "quiet_hook f \<Longrightarrow> f s w = (s', w') \<Longrightarrow> dh_frame s' = dh_frame s \<and> clock w' = clock w"
  unfolding quiet_hook_def by (drule spec[where x = s], drule spec[where x = w]) simp

lemma loyalD: "loyal_hook f \<Longrightarrow> f s w = (s', w') \<Longrightarrow> clock w' = clock w \<and> transitionSourceMode s' = transitionSourceMode s"
  unfolding loyal_hook_def by (drule spec[where x = s], drule spec[where x = w]) simp

lemma frame_fields: "dh_frame s' = dh_frame s \<longleftrightarrow> dhMode s' = dhMode s \<and> transitionSourceMode s' = transitionSourceMode s
    \<and> childTransitionDelay s' = childTransitionDelay s \<and> timeoutStart s' = timeoutStart s"
  by (simp add: dh_frame_def)

text \<open>Setting a mode sets it and leaves the source of the transition.\<close>

lemma setMode_sets:
  assumes "loyal_ops ops" "dh_setMode sys ops m sm s w = (s', w')"
  shows "dhMode s' = m \<and> transitionSourceMode s' = transitionSourceMode s"
proof -
  obtain s1 w1 where h1: "dhChangeHK ops (dhMode s) (dhSubmode s) False s w = (s1, w1)" by (cases "dhChangeHK ops (dhMode s) (dhSubmode s) False s w")
  obtain s2 w2 where h2: "dhModeChanged ops (s1\<lparr>dhSubmode := sm, dhMode := m\<rparr>) w1 = (s2, w2)"
    by (cases "dhModeChanged ops (s1\<lparr>dhSubmode := sm, dhMode := m\<rparr>) w1")
  obtain s3 w3 where h3: "setNormalDatapoolEntriesInvalid ops s2 w2 = (s3, w3)" by (cases "setNormalDatapoolEntriesInvalid ops s2 w2")
  obtain s4 w4 where h4: "mh_modeChanged sys m sm s3 w3 = (s4, w4)" by (cases "mh_modeChanged sys m sm s3 w3")
  have f4: "dh_frame s4 = dh_frame s3" using h4 by (auto simp: mh_modeChanged_def Let_def dh_frame_def)
  obtain s5 w5 where h5: "(if dh_isTransitionalMode s3 then (s3, w3) else dh_announceMode ops False s4 w4) = (s5, w5)"
    by (cases "if dh_isTransitionalMode s3 then (s3, w3) else dh_announceMode ops False s4 w4")
  have f5: "dh_frame s5 = dh_frame s3"
  proof (cases "dh_isTransitionalMode s3")
    case True then show ?thesis using h5 by simp
  next
    case False
    then have "fdirTriggerEvent ops MODE_INFO (dhMode s4) (ucast (dhSubmode s4)) s4 w4 = (s5, w5)" using h5 by (simp add: dh_announceMode_def)
    then show ?thesis using assms(1) f4 quietD unfolding loyal_ops_def by metis
  qed
  have f: "dh_frame s1 = dh_frame s" "dh_frame s2 = dh_frame (s1\<lparr>dhSubmode := sm, dhMode := m\<rparr>)" "dh_frame s3 = dh_frame s2"
    using assms(1) h1 h2 h3 quietD unfolding loyal_ops_def by metis+
  obtain now w6 where u: "getUptimeMs w5 = (now, w6)" by (cases "getUptimeMs w5")
  let ?s6 = "s5\<lparr>timeoutStart := now\<rparr>"
  obtain s7 where s7: "s7 = (if dhMode ?s6 = MODE_OFF
      then pool_commit (deviceThermalRequestPoolId ?s6) (if pool_read (deviceThermalRequestPoolId ?s6) ?s6 \<noteq> STATE_REQUEST_IGNORE
             then STATE_REQUEST_NON_OPERATIONAL else pool_read (deviceThermalRequestPoolId ?s6) ?s6) ?s6 else ?s6)" by simp
  have f7: "dhMode s7 = m" "transitionSourceMode s7 = transitionSourceMode s"
    using f f5 unfolding s7 frame_fields by (simp_all add: pool_commit_def)
  have "dhChangeHK ops (dhMode s7) (dhSubmode s7) True s7 w6 = (s', w')"
    using assms(2) h1 h2 h3 h4 h5 u unfolding s7 by (simp add: dh_setMode_def Let_def split: if_splits)
  then have "dh_frame s' = dh_frame s7" using assms(1) quietD unfolding loyal_ops_def by metis
  then show ?thesis using f7 by (simp add: frame_fields)
qed

text \<open>All deadlines of the current mode are over.\<close>

definition late :: "'a device_handler_scheme device_ops \<Rightarrow> 'a device_handler_scheme \<Rightarrow> system_world \<Rightarrow> bool" where
  "late ops s w \<longleftrightarrow> (\<forall>n. childTransitionDelay s \<le> clock w n - timeoutStart s
     \<and> (\<forall>d. switchDelayMs ops = Some d \<longrightarrow> d \<le> clock w n - timeoutStart s))"

text \<open>What a step does that is no set-back: it comes nearer to the end, or waits while a deadline is not over.\<close>

definition advances :: "'a device_handler_scheme device_ops \<Rightarrow> 'a device_handler_scheme \<Rightarrow> system_world \<Rightarrow> 'a device_handler_scheme \<Rightarrow> bool" where
  "advances ops s w s' \<longleftrightarrow> mode_rank (dhMode s') < mode_rank (dhMode s) \<or> \<not> late ops s w \<and> mode_rank (dhMode s') = mode_rank (dhMode s)"

lemma child_modes:
  "m \<in> {MODE_TO_NORMAL, MODE_TO_ON, MODE_TO_RAW} \<Longrightarrow> m \<noteq> MODE_START_UP \<and> m \<noteq> MODE_SHUT_DOWN \<and> m AND TRANSITION_MODE_CHILD_ACTION_MASK \<noteq> 0"
  by (auto simp: device_modes MODE_ON_def)

lemma call_child_loyal:
  assumes "loyal_ops ops" "callChildStatemachine ops s w = (s', w')"
  shows "clock w' = clock w \<and> transitionSourceMode s' = transitionSourceMode s"
proof -
  have l: "loyal_hook (doStartUp ops)" "loyal_hook (doShutDown ops)"
    "loyal_hook (doTransition ops (transitionSourceMode s) (transitionSourceSubMode s))" using assms(1) by (simp_all add: loyal_ops_def)
  show ?thesis
  proof (cases "dhMode s = MODE_START_UP")
    case True
    then show ?thesis using assms(2) loyalD[OF l(1)] unfolding callChildStatemachine_def if_P[OF True] by blast
  next
    case up: False
    show ?thesis
    proof (cases "dhMode s = MODE_SHUT_DOWN")
      case True
      then show ?thesis using assms(2) loyalD[OF l(2)] unfolding callChildStatemachine_def if_not_P[OF up] if_P[OF True] by blast
    next
      case False
      then show ?thesis using assms(2) loyalD[OF l(3)] up
        by (cases "dhMode s AND TRANSITION_MODE_CHILD_ACTION_MASK = 0") (simp_all add: callChildStatemachine_def)
    qed
  qed
qed

lemma setMode_advances:
  assumes "loyal_ops ops" "dh_setMode sys ops m sm s1 w1 = (s', w')" "mode_rank m < mode_rank (dhMode s)" "dh_frame s1 = dh_frame s"
  shows "advances ops s w s' \<and> transitionSourceMode s' = transitionSourceMode s"
  using setMode_sets[OF assms(1,2)] assms(3,4) by (simp add: advances_def frame_fields)

lemma child_advances:
  assumes "loyal_ops ops" "dhMode s \<in> child_action_modes" "source_ok s" "child_transition_step sys ops s w = (s', w')"
  shows "(set_back sys ops s w \<or> advances ops s w s') \<and> transitionSourceMode s' = transitionSourceMode s"
proof -
  obtain s1 w1 where c: "callChildStatemachine ops s w = (s1, w1)" by (cases "callChildStatemachine ops s w")
  note r = call_child_loyal[OF assms(1) c]
  have ge: "5 \<le> mode_rank (dhMode s)" using assms(2) by auto
  have "dhMode s \<noteq> MODE_WAIT_ON" using assms(2) by (auto simp: device_modes MODE_ON_def)
  then have sb: "set_back sys ops s w \<longleftrightarrow> dh_frame s1 \<noteq> dh_frame s \<and> mode_rank (dhMode s) \<le> mode_rank (dhMode s1)"
    using assms(2) c by (simp add: set_back_def child_call_def)
  obtain now w2 where u: "getUptimeMs w1 = (now, w2)" "now = clock w (clockReads w1)" using r by (simp add: getUptimeMs_def)
  show ?thesis
  proof (cases "dhMode s1 = dhMode s")
    case False
    then have "s' = s1" using c assms(4) by (simp add: child_transition_step_def)
    then show ?thesis using r sb False by (auto simp: advances_def frame_fields not_le)
  next
    case True
    show ?thesis
    proof (cases "now - timeoutStart s1 \<ge> childTransitionDelay s1")
      case wait: False
      then have s': "s' = s1" using c assms(4) True u(1) by (simp add: child_transition_step_def)
      have "\<not> late ops s w" if "dh_frame s1 = dh_frame s" using wait that u(2) by (auto simp: late_def frame_fields)
      then show ?thesis using r sb True s' by (auto simp: advances_def)
    next
      case out: True
      obtain s3 w3 where e: "fdirTriggerEvent ops MODE_TRANSITION_FAILED (ucast (childTransitionFailure s1)) 0 s1 w2 = (s3, w3)"
        by (cases "fdirTriggerEvent ops MODE_TRANSITION_FAILED (ucast (childTransitionFailure s1)) 0 s1 w2")
      have m: "dh_setMode sys ops (transitionSourceMode s3) (transitionSourceSubMode s3) s3 w3 = (s', w')"
        using assms(4) c True u(1) out e by (simp add: child_transition_step_def)
      have f: "dh_frame s3 = dh_frame s1" using quietD e assms(1) unfolding loyal_ops_def by metis
      have "mode_rank (transitionSourceMode s3) < mode_rank (dhMode s)"
        using f r source_rank[OF assms(3)] ge by (simp add: frame_fields)
      then show ?thesis using setMode_sets[OF assms(1) m] f r by (simp add: advances_def frame_fields)
    qed
  qed
qed

lemma wait_on_advances:
  assumes "loyal_ops ops" "dhMode s = MODE_WAIT_ON" "wait_on_step sys ops s w = (s', w')"
  shows "(set_back sys ops s w \<or> advances ops s w s') \<and> transitionSourceMode s' = transitionSourceMode s"
proof -
  obtain now w1 where u: "getUptimeMs w = (now, w1)" "now = clock w (clockReads w)" by (simp add: getUptimeMs_def)
  show ?thesis
  proof (cases "case switchDelayMs ops of Some delay \<Rightarrow> now - timeoutStart s \<ge> delay | None \<Rightarrow> False")
    case out: True
    obtain s2 w2 where e: "fdirTriggerEvent ops MODE_TRANSITION_FAILED (ucast SWITCH_TIMEOUT) 0 s w1 = (s2, w2)"
      by (cases "fdirTriggerEvent ops MODE_TRANSITION_FAILED (ucast SWITCH_TIMEOUT) 0 s w1")
    obtain s3 w3 where m: "dh_setMode_only sys ops MODE_POWER_DOWN s2 w2 = (s3, w3)" by (cases "dh_setMode_only sys ops MODE_POWER_DOWN s2 w2")
    have f: "dh_frame s2 = dh_frame s" using quietD e assms(1) unfolding loyal_ops_def by metis
    note a = setMode_advances[OF assms(1) m[unfolded dh_setMode_only_def] _ f, of w]
    have "dhMode s3 = MODE_POWER_DOWN" using setMode_sets[OF assms(1) m[unfolded dh_setMode_only_def]] by simp
    moreover have "MODE_POWER_DOWN \<noteq> MODE_START_UP" "MODE_POWER_DOWN \<noteq> MODE_SHUT_DOWN" "MODE_POWER_DOWN AND TRANSITION_MODE_CHILD_ACTION_MASK = 0"
      by (simp_all add: device_modes)
    ultimately have "callChildStatemachine ops s3 w3 = (s3, w3)" by (simp add: callChildStatemachine_def)
    then have "s' = s3" using assms(3) u(1) out e m by (simp add: wait_on_step_def)
    then show ?thesis using a assms(2) by simp
  next
    case busy: False
    show ?thesis
    proof (cases "getStateOfSwitches ops s w1 \<in> {SWITCH_ON, NO_SWITCH}")
      case False
      then have "switchDelayMs ops \<noteq> None" by (auto simp: getStateOfSwitches_def split: if_splits)
      then have "\<not> late ops s w" using busy u(2) by (auto simp: late_def)
      moreover have "s' = s" using assms(3) u(1) busy False by (simp add: wait_on_step_def Let_def)
      ultimately show ?thesis by (simp add: advances_def)
    next
      case on: True
      obtain s2 w2 where m: "dh_setMode_only sys ops MODE_START_UP (s\<lparr>childTransitionFailure := CHILD_TIMEOUT\<rparr>) w1 = (s2, w2)"
        by (cases "dh_setMode_only sys ops MODE_START_UP (s\<lparr>childTransitionFailure := CHILD_TIMEOUT\<rparr>) w1")
      note st = setMode_sets[OF assms(1) m[unfolded dh_setMode_only_def]]
      have c: "callChildStatemachine ops s2 w2 = (s', w')"
        using assms(3) u(1) busy on m by (auto simp: wait_on_step_def Let_def)
      have cc: "child_call sys ops s w = (s2, w2)" using assms(2) u(1) busy on m by (auto simp: child_call_def)
      have sb: "set_back sys ops s w \<longleftrightarrow> dh_frame s' \<noteq> dh_frame s2 \<and> 7 \<le> mode_rank (dhMode s')"
        using c cc st assms(2) by (simp add: set_back_def)
      show ?thesis
      proof (cases "dh_frame s' = dh_frame s2")
        case True
        then show ?thesis using st assms(2) by (simp add: advances_def frame_fields)
      next
        case False
        then show ?thesis using sb st call_child_loyal[OF assms(1) c] assms(2) by (auto simp: advances_def)
      qed
    qed
  qed
qed

lemma wait_off_advances:
  assumes "loyal_ops ops" "dhMode s = MODE_WAIT_OFF" "wait_off_step sys ops s w = (s', w')"
  shows "advances ops s w s' \<and> transitionSourceMode s' = transitionSourceMode s"
proof -
  obtain now w1 where u: "getUptimeMs w = (now, w1)" "now = clock w (clockReads w)" by (simp add: getUptimeMs_def)
  show ?thesis
  proof (cases "switchDelayMs ops")
    case None
    then have "dh_setMode sys ops MODE_OFF (dhSubmode s) s w1 = (s', w')" using assms(3) u(1) by (simp add: wait_off_step_def dh_setMode_only_def)
    from setMode_advances[OF assms(1) this _ refl] assms(2) show ?thesis by simp
  next
    case (Some d)
    show ?thesis
    proof (cases "d \<le> now - timeoutStart s")
      case True
      obtain s2 w2 where e: "fdirTriggerEvent ops MODE_TRANSITION_FAILED (ucast SWITCH_TIMEOUT) 0 s w1 = (s2, w2)"
        by (cases "fdirTriggerEvent ops MODE_TRANSITION_FAILED (ucast SWITCH_TIMEOUT) 0 s w1")
      have f: "dh_frame s2 = dh_frame s" using quietD e assms(1) unfolding loyal_ops_def by metis
      have "dh_setMode sys ops MODE_ERROR_ON (dhSubmode s2) s2 w2 = (s', w')"
        using assms(3) u(1) Some True e by (simp add: wait_off_step_def dh_setMode_only_def)
      from setMode_advances[OF assms(1) this _ f] assms(2) show ?thesis by simp
    next
      case False
      show ?thesis
      proof (cases "getStateOfSwitches ops s w1 \<in> {SWITCH_OFF, NO_SWITCH}")
        case True
        then have "dh_setMode sys ops MODE_SWITCH_IS_OFF (dhSubmode s) s w1 = (s', w')"
          using assms(3) u(1) Some False by (simp add: wait_off_step_def dh_setMode_only_def Let_def)
        from setMode_advances[OF assms(1) this _ refl] assms(2) show ?thesis by simp
      next
        case on: False
        then have "s' = s" using assms(3) u(1) Some False by (simp add: wait_off_step_def Let_def)
        moreover have "\<not> late ops s w" using False Some u(2) by (auto simp: late_def)
        ultimately show ?thesis by (simp add: advances_def)
      qed
    qed
  qed
qed

lemma sendSwitches_quiet:
  assumes "loyal_ops ops" "fold (\<lambda>x (s, w). sendSwitchCommand ops x c s w) xs (s, w) = (s', w')"
  shows "dh_frame s' = dh_frame s"
  using assms(2)
proof (induction xs arbitrary: s w)
  case Nil then show ?case by simp
next
  case (Cons x xs)
  obtain s1 w1 where x: "sendSwitchCommand ops x c s w = (s1, w1)" by (cases "sendSwitchCommand ops x c s w")
  have "dh_frame s1 = dh_frame s" using quietD x assms(1) unfolding loyal_ops_def by metis
  then show ?case using Cons.IH[of s1 w1] Cons.prems x by simp
qed

lemma commandSwitch_quiet:
  assumes "loyal_ops ops" "commandSwitch ops c s w = (s', w')"
  shows "dh_frame s' = dh_frame s"
  using assms(2) sendSwitches_quiet[OF assms(1)] by (auto simp: commandSwitch_def split: if_splits prod.splits)

lemma machine_advances:
  assumes "loyal_ops ops" "\<not> settled_mode (dhMode s)" "source_ok s" "doStateMachine sys ops s w = (s', w')"
  shows "(set_back sys ops s w \<or> advances ops s w s') \<and> transitionSourceMode s' = transitionSourceMode s"
proof -
  note step = setMode_advances[OF assms(1)]
  have n: "dhMode s \<noteq> MODE_OFF" "dhMode s \<noteq> MODE_ON" "dhMode s \<noteq> MODE_RAW" "dhMode s \<noteq> MODE_NORMAL" "dhMode s \<noteq> MODE_ERROR_ON"
    using assms(2) by (auto simp: settled_mode_def)
  have d: "MODE_POWER_DOWN \<noteq> MODE_START_UP" "MODE_POWER_DOWN \<noteq> MODE_SHUT_DOWN" "MODE_POWER_DOWN \<noteq> MODE_TO_NORMAL" "MODE_POWER_DOWN \<noteq> MODE_TO_ON"
    "MODE_POWER_DOWN \<noteq> MODE_TO_RAW" "MODE_POWER_ON \<noteq> MODE_START_UP" "MODE_POWER_ON \<noteq> MODE_SHUT_DOWN" "MODE_POWER_ON \<noteq> MODE_TO_NORMAL"
    "MODE_POWER_ON \<noteq> MODE_TO_ON" "MODE_POWER_ON \<noteq> MODE_TO_RAW" "MODE_POWER_ON \<noteq> MODE_POWER_DOWN"
    by (simp_all add: device_modes MODE_ON_def)
  consider (child) "dhMode s \<in> child_action_modes" | (down) "dhMode s = MODE_POWER_DOWN"
    | (up) "dhMode s = MODE_POWER_ON" | (won) "dhMode s = MODE_WAIT_ON" | (woff) "dhMode s = MODE_WAIT_OFF" | (off) "dhMode s = MODE_SWITCH_IS_OFF"
    | (other) "dhMode s \<notin> child_action_modes \<union> {MODE_POWER_DOWN, MODE_POWER_ON, MODE_WAIT_ON, MODE_WAIT_OFF, MODE_SWITCH_IS_OFF}" by blast
  then show ?thesis
  proof cases
    case child
    then have "child_transition_step sys ops s w = (s', w')" using assms(4) by (simp add: doStateMachine_def Let_def)
    then show ?thesis by (rule child_advances[OF assms(1) child assms(3)])
  next
    case down
    obtain s1 w1 where c: "commandSwitch ops SWITCH_OFF s w = (s1, w1)" by (cases "commandSwitch ops SWITCH_OFF s w")
    then have "dh_setMode sys ops MODE_WAIT_OFF (dhSubmode s1) s1 w1 = (s', w')"
      using assms(4) down d by (simp add: doStateMachine_def dh_setMode_only_def)
    from step[OF this _ commandSwitch_quiet[OF assms(1) c]] down show ?thesis by simp
  next
    case up
    obtain s1 w1 where c: "commandSwitch ops SWITCH_ON s w = (s1, w1)" by (cases "commandSwitch ops SWITCH_ON s w")
    then have "dh_setMode sys ops MODE_WAIT_ON (dhSubmode s1) s1 w1 = (s', w')"
      using assms(4) up d by (simp add: doStateMachine_def dh_setMode_only_def)
    from step[OF this _ commandSwitch_quiet[OF assms(1) c]] up show ?thesis by simp
  next
    case won
    then have "wait_on_step sys ops s w = (s', w')" using assms(4) by (simp add: doStateMachine_def device_modes MODE_ON_def)
    then show ?thesis by (rule wait_on_advances[OF assms(1) won])
  next
    case woff
    then have "wait_off_step sys ops s w = (s', w')" using assms(4) by (simp add: doStateMachine_def device_modes MODE_ON_def)
    then show ?thesis using wait_off_advances[OF assms(1) woff] by blast
  next
    case off
    then have "dh_setMode sys ops MODE_OFF SUBMODE_NONE s w = (s', w')"
      using assms(4) by (simp add: doStateMachine_def device_modes MODE_ON_def MODE_OFF_def)
    from step[OF this _ refl] off show ?thesis by simp
  next
    case other
    obtain s1 w1 where e: "fdirTriggerEvent ops OBJECT_IN_INVALID_MODE (dhMode s) (ucast (dhSubmode s)) s w = (s1, w1)"
      by (cases "fdirTriggerEvent ops OBJECT_IN_INVALID_MODE (dhMode s) (ucast (dhSubmode s)) s w")
    have m: "dh_setMode sys ops MODE_POWER_DOWN 0 s1 w1 = (s', w')" using assms(4) other n e by (simp add: doStateMachine_def Let_def)
    have f: "dh_frame s1 = dh_frame s" using quietD e assms(1) unfolding loyal_ops_def by metis
    have "mode_rank (dhMode s) = 4" using other assms(2) by (simp add: mode_rank_def)
    then show ?thesis using step[OF m _ f] by simp
  qed
qed

subsection \<open>Properties\<close>

text \<open>What is left, with what the set-backs may have added, against the late steps that went by.\<close>

lemma settling_potential:
  assumes ops: "loyal_ops ops" and src: "source_ok (tr 0)"
    and run: "\<forall>i < n. dh_frame (tr (Suc i)) = dh_frame (fst (doStateMachine sys ops (tr i) (ws i)))"
    and busy: "\<forall>i < n. \<not> settled_mode (dhMode (tr i))"
  shows "j \<le> n \<Longrightarrow> source_ok (tr j)
    \<and> mode_rank (dhMode (tr j)) + card {i. i < j \<and> late ops (tr i) (ws i)} \<le> 8 + 9 * card {i. i < j \<and> set_back sys ops (tr i) (ws i)}"
proof (induction j)
  case 0
  show ?case using src by (simp add: mode_rank_def)
next
  case (Suc j)
  have more: "card {i. i < Suc j \<and> P i} = card {i. i < j \<and> P i} + of_bool (P j)" for P
  proof -
    have "{i. i < Suc j \<and> P i} = (if P j then insert j {i. i < j \<and> P i} else {i. i < j \<and> P i})" by (auto simp: less_Suc_eq)
    then show ?thesis by simp
  qed
  obtain s' w' where m: "doStateMachine sys ops (tr j) (ws j) = (s', w')" by (cases "doStateMachine sys ops (tr j) (ws j)")
  have "dh_frame (tr (Suc j)) = dh_frame s'" using run Suc.prems m by simp
  then have f: "dhMode (tr (Suc j)) = dhMode s'" "transitionSourceMode (tr (Suc j)) = transitionSourceMode s'" by (simp_all add: frame_fields)
  have ih: "source_ok (tr j)" "\<not> settled_mode (dhMode (tr j))" using Suc busy by simp_all
  note a = machine_advances[OF ops ih(2,1) m]
  have src: "source_ok (tr (Suc j))" using a f(2) ih(1) by (simp add: source_ok_def)
  have top: "mode_rank (dhMode (tr (Suc j))) \<le> 8" by (simp add: mode_rank_def)
  have pos: "0 < mode_rank (dhMode (tr j))" using mode_rank_0[of "dhMode (tr j)"] ih(2) by simp
  show ?case using a f(1) src top pos Suc.IH Suc.prems
    unfolding more by (cases "set_back sys ops (tr j) (ws j)"; cases "late ops (tr j) (ws j)") (auto simp: advances_def)
qed

text \<open>
  C1. A device handler comes to rest. Take any run of its state machine from any mode, even one that does not exist, in which no
  mode is commanded and the child class, whose methods may set any mode, sets the device back at most \<open>k\<close> times. If \<open>8 + 9 * k\<close>
  of the steps are past the deadlines, one of the modes was one that can be commanded: a child class that never finishes a
  transition, a switch that never answers and a power switcher that does not exist cannot hold it. Without the bound on the
  set-backs this fails, because every mode a child sets restarts the timer.
\<close>

theorem device_settles:
  assumes "loyal_ops ops" "source_ok (tr 0)"
    and "\<forall>i < n. dh_frame (tr (Suc i)) = dh_frame (fst (doStateMachine sys ops (tr i) (ws i)))"
    and "card {i. i < n \<and> set_back sys ops (tr i) (ws i)} \<le> k" "8 + 9 * k \<le> card {i. i < n \<and> late ops (tr i) (ws i)}"
  shows "\<exists>i \<le> n. dhMode (tr i) \<in> {MODE_OFF, MODE_ON, MODE_RAW, MODE_NORMAL, MODE_ERROR_ON}"
proof (rule ccontr)
  assume "\<not> ?thesis"
  then have busy: "\<forall>i \<le> n. \<not> settled_mode (dhMode (tr i))" by (simp add: settled_mode_def)
  then have "mode_rank (dhMode (tr n)) + card {i. i < n \<and> late ops (tr i) (ws i)} \<le> 8 + 9 * k"
    using settling_potential[OF assms(1-3), of n] assms(4) by (simp add: le_trans)
  moreover have "0 < mode_rank (dhMode (tr n))" using busy mode_rank_0[of "dhMode (tr n)"] by simp
  ultimately show False using assms(5) by linarith
qed

definition sample_device :: device_handler where
  "sample_device =
     \<lparr>ownerId = 9, ownQueue = 4, healthParent = NO_QUEUE, modeParent = NO_QUEUE, commandedMode = MODE_OFF,
      commandedSubmode = SUBMODE_NONE, theOneWhoCommandedAMode = NO_QUEUE, modeForced = False,
      modeCountdown = \<lparr>cdStart = 0, cdTimeout = 0\<rparr>, dhMode = MODE_SWITCH_IS_OFF, dhSubmode = SUBMODE_NONE, pstStep = 0,
      wiretappingMode = WIRETAP_OFF, defaultRawReceiver = NO_QUEUE, storedRawData = INVALID_ADDRESS, requestedRawTraffic = 0,
      deviceCommandMap = [(7, \<lparr>dcExecuting = True, expectedReplies = 0, sendReplyTo = 3\<rparr>),
                          (RAW_COMMAND_ID, \<lparr>dcExecuting = False, expectedReplies = 0, sendReplyTo = 0\<rparr>)],
      deviceReplyMap = [(7, \<lparr>maxDelayCycles = 5, delayCycles = 0, replyLen = 2, periodic = False, replyCommand = None\<rparr>)],
      rawPacket = [1], cookieState = COOKIE_WRITE_READY, pendingCommand = Some 7,
      deviceThermalStatePoolId = NO_PARAMETER, deviceThermalRequestPoolId = NO_PARAMETER,
      childTransitionFailure = RETURN_OK, ignoreMissedRepliesCount = 0, switchOffWasReported = False, timeoutStart = 0,
      childTransitionDelay = 0, transitionSourceMode = MODE_POWER_DOWN, transitionSourceSubMode = SUBMODE_NONE,
      dhHkSwitcher = \<lparr>cahQueue = 0, commandCount = 0, lastTarget = 0, actionQueue = 5, eventProxy = 9\<rparr>, poolVariables = (\<lambda>_. None)\<rparr>"

text \<open>A device that answers every command with two bytes, and a child class that never moves.\<close>

definition sample_device_ops :: "device_handler device_ops" where
  "sample_device_ops =
     \<lparr>doStartUp = Pair, doShutDown = Pair, doTransition = (\<lambda>m sm. Pair),
      buildNormalDeviceCommand = (\<lambda>s w. (NOTHING_TO_SEND, 0, s, w)), buildTransitionDeviceCommand = (\<lambda>s w. (NOTHING_TO_SEND, 0, s, w)),
      buildChildRawCommand = (\<lambda>s w. (NOTHING_TO_SEND, s, w)), buildCommandFromCommand = (\<lambda>a d s w. (RETURN_OK, s\<lparr>rawPacket := d\<rparr>, w)),
      scanForReply = (\<lambda>d i n s w. (RETURN_OK, 7, length d, s, w)), interpretDeviceReply = (\<lambda>i d s w. (RETURN_OK, s, w)),
      setNormalDatapoolEntriesInvalid = Pair, dhModeChanged = Pair, dhChangeHK = (\<lambda>m sm b. Pair), doOnActivity = Pair,
      doOffActivity = Pair, performOperationHook = Pair, isModeCombinationValid = (\<lambda>m sm s. dh_isModeCombinationValid m sm),
      getTransitionDelayMs = (\<lambda>a b s. 0), getSwitches = (\<lambda>s. dh_getSwitches), dontCheckQueue = (\<lambda>s. False),
      letChildHandleMessage = (\<lambda>m s w. (RETURN_FAILED, s, w)), comSendMessage = (\<lambda>d s w. (RETURN_OK, s, w)),
      comGetSendSuccess = (\<lambda>s w. (RETURN_OK, s, w)), comRequestReceiveMessage = (\<lambda>n s w. (RETURN_OK, s, w)),
      comReadReceivedMessage = (\<lambda>s w. (RETURN_OK, [1, 2], s, w)), switchDelayMs = None, sendSwitchCommand = (\<lambda>x c. Pair),
      getSwitchState = (\<lambda>x s w. SWITCH_ON), fdirTriggerEvent = (\<lambda>e a b s w. (s, triggerEvent (ownerId s) e a b w)),
      checkForFailures = (\<lambda>s w. Some (s, w)), handleParameterMessage = (\<lambda>m s w. (RETURN_FAILED, s, w))\<rparr>"

lemma late_without_deadline: "childTransitionDelay s = 0 \<Longrightarrow> late sample_device_ops s w"
  by (simp add: late_def sample_device_ops_def)

text \<open>A child class that shuts down, changes its mind once and starts up again, and then does not move any more.\<close>

definition undecided_ops :: "device_handler device_ops" where
  "undecided_ops = sample_device_ops\<lparr>doShutDown := (\<lambda>s w. (s\<lparr>dhMode := MODE_START_UP\<rparr>, w))\<rparr>"

primrec undecided_run :: "nat \<Rightarrow> device_handler" where
  "undecided_run 0 = sample_device\<lparr>dhMode := MODE_SHUT_DOWN\<rparr>"
| "undecided_run (Suc i) = fst (doStateMachine LITTLE_ENDIAN undecided_ops (undecided_run i) action_world)"

definition undecided_ok :: "device_handler \<Rightarrow> bool" where
  "undecided_ok t \<longleftrightarrow> childTransitionDelay t = 0 \<and> transitionSourceMode t = MODE_POWER_DOWN
     \<and> dhMode t \<in> {MODE_START_UP, MODE_POWER_DOWN, MODE_WAIT_OFF, MODE_OFF}"

lemma undecided_loyal: "loyal_ops undecided_ops"
  by (simp add: loyal_ops_def undecided_ops_def sample_device_ops_def quiet_hook_def loyal_hook_def triggerEvent_def dh_frame_def)

lemma undecided_simps [simp]: "switchDelayMs undecided_ops = None" "doStartUp undecided_ops = Pair" "doOffActivity undecided_ops = Pair"
  "fdirTriggerEvent undecided_ops e a b t w = (t, triggerEvent (ownerId t) e a b w)"
  "doShutDown undecided_ops t w = (t\<lparr>dhMode := MODE_START_UP\<rparr>, w)"
  by (simp_all add: undecided_ops_def sample_device_ops_def)

lemma undecided_setMode:
  "childTransitionDelay (fst (dh_setMode LITTLE_ENDIAN undecided_ops m sm t w)) = childTransitionDelay t"
  by (auto simp: dh_setMode_def undecided_ops_def sample_device_ops_def Let_def mh_modeChanged_def dh_announceMode_def pool_commit_def
      split: prod.splits)

lemma undecided_step:
  assumes "undecided_ok t"
  shows "undecided_ok (fst (doStateMachine LITTLE_ENDIAN undecided_ops t w))"
proof -
  have set: "undecided_ok (fst (dh_setMode LITTLE_ENDIAN undecided_ops m sm u v))"
    if "undecided_ok u" "m \<in> {MODE_START_UP, MODE_POWER_DOWN, MODE_WAIT_OFF, MODE_OFF}" for m sm u v
    using setMode_sets[OF undecided_loyal surjective_pairing] undecided_setMode[of m sm u v] that by (simp add: undecided_ok_def)
  have d: "0 \<le> x" "MODE_START_UP \<noteq> MODE_OFF" "MODE_WAIT_OFF \<noteq> MODE_OFF" "MODE_POWER_DOWN \<noteq> MODE_OFF" "MODE_WAIT_OFF \<noteq> MODE_POWER_DOWN"
    "MODE_OFF \<notin> child_action_modes" "MODE_WAIT_OFF \<notin> child_action_modes" "MODE_POWER_DOWN \<notin> child_action_modes" "MODE_OFF \<noteq> MODE_POWER_DOWN"
    "MODE_OFF \<noteq> MODE_POWER_ON" "MODE_OFF \<noteq> MODE_WAIT_ON" "MODE_OFF \<noteq> MODE_WAIT_OFF" "MODE_WAIT_OFF \<noteq> MODE_POWER_ON" "MODE_WAIT_OFF \<noteq> MODE_WAIT_ON"
    for x :: u32 by (simp_all add: device_modes MODE_ON_def MODE_OFF_def)
  consider "dhMode t = MODE_START_UP" | "dhMode t = MODE_POWER_DOWN" | "dhMode t = MODE_WAIT_OFF" | "dhMode t = MODE_OFF"
    using assms by (auto simp: undecided_ok_def)
  then show ?thesis
  proof cases
    case 1
    then show ?thesis using assms set[OF assms, of MODE_POWER_DOWN] by (simp add: doStateMachine_def Let_def child_transition_step_def
        callChildStatemachine_def getUptimeMs_def undecided_ok_def)
  next
    case 2
    then show ?thesis using d set[OF assms, of MODE_WAIT_OFF] by (simp add: doStateMachine_def Let_def commandSwitch_def dh_setMode_only_def)
  next
    case 3
    then show ?thesis using d set[OF assms, of MODE_OFF] by (simp add: doStateMachine_def Let_def wait_off_step_def dh_setMode_only_def getUptimeMs_def)
  next
    case 4
    then show ?thesis using d assms by (simp add: doStateMachine_def Let_def)
  qed
qed

lemma undecided_child: "undecided_ok t \<Longrightarrow> \<not> set_back LITTLE_ENDIAN undecided_ops t w"
  by (auto simp: undecided_ok_def set_back_def child_call_def callChildStatemachine_def device_modes MODE_ON_def MODE_OFF_def)

lemma undecided_run_ok: "undecided_ok (undecided_run (Suc i))"
proof (induction i)
  case 0
  have "MODE_SHUT_DOWN \<noteq> MODE_START_UP" by (simp add: device_modes)
  then show ?case by (simp add: doStateMachine_def Let_def child_transition_step_def callChildStatemachine_def undecided_ok_def sample_device_def)
next
  case (Suc i)
  then show ?case using undecided_step[OF Suc, of action_world] by simp
qed

theorem device_settles_witness:
  "\<exists>i \<le> 17. dhMode (undecided_run i) \<in> {MODE_OFF, MODE_ON, MODE_RAW, MODE_NORMAL, MODE_ERROR_ON}"
proof -
  have "childTransitionDelay (undecided_run i) = 0" for i
    using undecided_run_ok by (cases i) (auto simp: undecided_ok_def sample_device_def simp del: undecided_run.simps(2))
  then have late: "late undecided_ops (undecided_run i) action_world" for i by (simp add: late_def)
  have "\<not> set_back LITTLE_ENDIAN undecided_ops (undecided_run i) action_world" if "i \<noteq> 0" for i
    using undecided_run_ok undecided_child that by (cases i) (auto simp del: undecided_run.simps)
  then have "card {i. i < 17 \<and> set_back LITTLE_ENDIAN undecided_ops (undecided_run i) action_world} \<le> card {0 :: nat}"
    by (intro card_mono) (auto simp del: undecided_run.simps)
  then have few: "card {i. i < 17 \<and> set_back LITTLE_ENDIAN undecided_ops (undecided_run i) action_world} \<le> 1" by simp
  have src: "source_ok (undecided_run 0)" by (simp add: source_ok_def sample_device_def)
  have run: "\<forall>i < 17. dh_frame (undecided_run (Suc i)) = dh_frame (fst (doStateMachine LITTLE_ENDIAN undecided_ops (undecided_run i) action_world))"
    by simp
  show ?thesis by (rule device_settles[OF undecided_loyal src run few]) (simp add: late)
qed

end
