(* ===== verification/DeviceReplies.thy ===== *)
theory DeviceReplies
  imports DeviceModeResults
begin

text \<open>
  What becomes of the commands and replies of a device handler: a command that the device executes is reported and completed,
  a reply that does not come is answered with a timeout, and a periodic reply completes its command again and again.
\<close>

subsection \<open>The maps\<close>

lemma map_of_change: "map_of (map (\<lambda>(i, x). (i, if i = k then f x else x)) xs) j = (if j = k then map_option f (map_of xs j) else map_of xs j)"
  by (induction xs) auto

lemma change_simps [simp]:
  "map_of (deviceCommandMap (change_command k f s)) j = (if j = k then map_option f (map_of (deviceCommandMap s) j) else map_of (deviceCommandMap s) j)"
  "map_of (deviceReplyMap (change_reply k g s)) j = (if j = k then map_option g (map_of (deviceReplyMap s) j) else map_of (deviceReplyMap s) j)"
  "map fst (deviceReplyMap (change_reply k g s)) = map fst (deviceReplyMap s)"
  "deviceReplyMap (change_command k f s) = deviceReplyMap s" "deviceCommandMap (change_reply k g s) = deviceCommandMap s"
  "ownQueue (change_command k f s) = ownQueue s" "ownQueue (change_reply k g s) = ownQueue s"
  "ignoreMissedRepliesCount (change_command k f s) = ignoreMissedRepliesCount s"
  "ignoreMissedRepliesCount (change_reply k g s) = ignoreMissedRepliesCount s"
  "dhMode (change_command k f s) = dhMode s" "dhMode (change_reply k g s) = dhMode s"
  "cookieState (change_command k f s) = cookieState s" "cookieState (change_reply k g s) = cookieState s"
  "pendingCommand (change_command k f s) = pendingCommand s" "pendingCommand (change_reply k g s) = pendingCommand s"
  "wiretappingMode (change_command k f s) = wiretappingMode s" "wiretappingMode (change_reply k g s) = wiretappingMode s"
  "defaultRawReceiver (change_command k f s) = defaultRawReceiver s" "defaultRawReceiver (change_reply k g s) = defaultRawReceiver s"
  by (simp_all add: change_command_def change_reply_def map_of_change comp_def case_prod_beta)

text \<open>
  Fault isolation that leaves the commands and replies of the handler alone and sends nothing to the queue \<open>q\<close>; it may send to
  other queues and do with the rest what it likes.
\<close>

definition modest_events :: "'a device_handler_scheme device_ops \<Rightarrow> u32 \<Rightarrow> bool" where
  "modest_events ops q \<longleftrightarrow> (\<forall>e a b s w. case fdirTriggerEvent ops e a b s w of (s', w') \<Rightarrow>
     deviceCommandMap s' = deviceCommandMap s \<and> deviceReplyMap s' = deviceReplyMap s \<and> queueMap (swQueues w') q = queueMap (swQueues w) q)"

lemma modest_event:
  assumes "modest_events ops q" "fdirTriggerEvent ops e a b s w = (s', w')"
  shows "deviceCommandMap s' = deviceCommandMap s" "deviceReplyMap s' = deviceReplyMap s" "queueMap (swQueues w') q = queueMap (swQueues w) q"
  using assms(1)[unfolded modest_events_def, rule_format, where e = e and a = a and b = b and s = s and w = w] assms(2) by simp_all

lemma queue_added_at: "queueMap (queue_added qm q ms) q = map_option (\<lambda>t. t\<lparr>messageQueue := messageQueue t @ ms\<rparr>) (queueMap qm q)"
  by (simp add: queue_added_def split: option.splits)

definition completion :: "byte_order \<Rightarrow> u32 \<Rightarrow> u16 \<Rightarrow> mq_message" where
  "completion sys reply result = setCompletionReply sys (newCommandMessage sys) reply result"

lemma finish_sends:
  assumes "room_for (swQueues w) q 1"
  shows "swQueues (dh_finish sys q k r s w) = queue_added (swQueues w) q [completion sys k r]"
proof -
  have "command_sized (completion sys k r)" by (simp add: completion_def setCompletionReply_def)
  from send_room[OF assms this] show ?thesis by (simp add: dh_finish_def ah_finish_def completion_def)
qed

text \<open>A reply whose command waits for the number \<open>e\<close> of replies.\<close>

definition awaits :: "u32 \<Rightarrow> u32 \<Rightarrow> u8 \<Rightarrow> u32 \<Rightarrow> 'a device_handler_scheme \<Rightarrow> bool" where
  "awaits reply command e q s \<longleftrightarrow> (\<exists>i info. map_of (deviceReplyMap s) reply = Some i \<and> replyCommand i = Some command
     \<and> map_of (deviceCommandMap s) command = Some info \<and> expectedReplies info = e \<and> sendReplyTo info = q)"

lemma reply_counts:
  assumes "awaits reply command e q s" "q \<noteq> NO_COMMANDER"
  shows "\<exists>s' w'. replyToReply sys reply result s w = Some (s', w') \<and> awaits reply command (e - 1) q s' \<and> ownQueue s' = ownQueue s
    \<and> deviceReplyMap s' = deviceReplyMap s \<and> ignoreMissedRepliesCount s' = ignoreMissedRepliesCount s
    \<and> (if e = 1 then \<not> commandIsExecuting command s' else commandIsExecuting command s' = commandIsExecuting command s)
    \<and> (if e = 1 then room_for (swQueues w) q 1 \<longrightarrow> swQueues w' = queue_added (swQueues w) q [completion sys reply result] else w' = w)"
proof -
  obtain i info where a: "map_of (deviceReplyMap s) reply = Some i" "replyCommand i = Some command"
    "map_of (deviceCommandMap s) command = Some info" "expectedReplies info = e" "sendReplyTo info = q"
    using assms(1) by (auto simp: awaits_def)
  have one: "e - 1 = 0 \<longleftrightarrow> e = 1" by simp
  show ?thesis
  proof (cases "e = 1")
    case True
    then show ?thesis using a assms(2) by (auto simp: replyToReply_def Let_def awaits_def commandIsExecuting_def finish_sends)
  next
    case False
    then show ?thesis using a one by (auto simp: replyToReply_def Let_def awaits_def commandIsExecuting_def)
  qed
qed

subsection \<open>Replies that do not come\<close>

lemma decrement_append:
  "decrement_loop sys ops (xs @ ys) s w = Option.bind (decrement_loop sys ops xs s w) (\<lambda>(s1, w1). decrement_loop sys ops ys s1 w1)"
  by (induction xs arbitrary: s w) (auto split: option.splits simp: Option.bind_assoc case_prod_beta')

text \<open>A cycle without an expiry: every reply that is waited for is waited for one cycle less, and nothing is sent.\<close>

definition tick :: "device_reply_info \<Rightarrow> device_reply_info" where
  "tick i = i\<lparr>delayCycles := (if delayCycles i = 0 then 0 else delayCycles i - 1)\<rparr>"

definition ticked :: "u32 set \<Rightarrow> 'a device_handler_scheme \<Rightarrow> 'a device_handler_scheme \<Rightarrow> bool" where
  "ticked ks s s' \<longleftrightarrow> deviceCommandMap s' = deviceCommandMap s \<and> ignoreMissedRepliesCount s' = ignoreMissedRepliesCount s
     \<and> map fst (deviceReplyMap s') = map fst (deviceReplyMap s)
     \<and> (\<forall>k. map_of (deviceReplyMap s') k = (if k \<in> ks then map_option tick (map_of (deviceReplyMap s) k) else map_of (deviceReplyMap s) k))"

lemma decrement_ticks:
  assumes "distinct ks" "\<forall>k \<in> set ks. \<exists>i. map_of (deviceReplyMap s) k = Some i \<and> delayCycles i \<noteq> 1"
  shows "\<exists>s'. decrement_loop sys ops ks s w = Some (s', w) \<and> ticked (set ks) s s'"
  using assms
proof (induction ks arbitrary: s)
  case Nil
  then show ?case by (simp add: ticked_def)
next
  case (Cons k ks)
  obtain i where i: "map_of (deviceReplyMap s) k = Some i" "delayCycles i \<noteq> 1" using Cons.prems(2) by auto
  define s1 where "s1 = (if delayCycles i = 0 then s else change_reply k (\<lambda>i. i\<lparr>delayCycles := delayCycles i - 1\<rparr>) s)"
  have e: "decrement_entry sys ops k s w = Some (s1, w)" using i by (simp add: decrement_entry_def Let_def s1_def)
  have t1: "ticked {k} s s1" using i(1) by (auto simp: ticked_def s1_def tick_def)
  have "\<exists>i. map_of (deviceReplyMap s1) j = Some i \<and> delayCycles i \<noteq> 1" if "j \<in> set ks" for j
  proof -
    have "j \<noteq> k" using that Cons.prems(1) by auto
    then show ?thesis using t1 Cons.prems(2) that by (simp add: ticked_def)
  qed
  with Cons.IH[of s1] Cons.prems(1) obtain s2 where s2: "decrement_loop sys ops ks s1 w = Some (s2, w)" "ticked (set ks) s1 s2" by auto
  have "ticked (set (k # ks)) s s2" using t1 s2(2) Cons.prems(1) by (auto simp: ticked_def)
  then show ?case using e s2(1) by simp
qed

lemma replies_known: "k \<in> set (map fst (deviceReplyMap s)) \<Longrightarrow> \<exists>i. map_of (deviceReplyMap s) k = Some i"
  by (metis map_of_eq_None_iff not_None_eq set_map)

text \<open>One cycle with an awaited reply, of which no other expires: before its last cycle, and in it.\<close>

definition expires_alone :: "u32 \<Rightarrow> nat \<Rightarrow> 'a device_handler_scheme \<Rightarrow> bool" where
  "expires_alone reply n s \<longleftrightarrow> distinct (map fst (deviceReplyMap s))
     \<and> (\<exists>i. map_of (deviceReplyMap s) reply = Some i \<and> unat (delayCycles i) = n)
     \<and> (\<forall>k j. map_of (deviceReplyMap s) k = Some j \<longrightarrow> k \<noteq> reply \<longrightarrow> delayCycles j = 0 \<or> n < unat (delayCycles j))"

lemma tick_unat: "unat (delayCycles (tick i)) = unat (delayCycles i) - 1"
  by (auto simp: tick_def unat_minus_one)

lemma decrement_waits:
  assumes "expires_alone reply (Suc (Suc n)) s" "awaits reply command e q s"
  shows "\<exists>s'. decrementDeviceReplyMap sys ops s w = Some (s', w) \<and> expires_alone reply (Suc n) s' \<and> awaits reply command e q s'
    \<and> commandIsExecuting command s' = commandIsExecuting command s
    \<and> map_of (deviceReplyMap s') reply = map_option tick (map_of (deviceReplyMap s) reply)"
proof -
  have late: "delayCycles j \<noteq> 1" if "map_of (deviceReplyMap s) k = Some j" for k j
  proof (cases "k = reply")
    case True
    obtain i where i: "map_of (deviceReplyMap s) reply = Some i" "unat (delayCycles i) = Suc (Suc n)"
      using assms(1) unfolding expires_alone_def by blast
    then have "j = i" using that unfolding True by simp
    then show ?thesis using i(2) by auto
  next
    case False
    then have "delayCycles j = 0 \<or> Suc (Suc n) < unat (delayCycles j)" using assms(1) that unfolding expires_alone_def by blast
    then show ?thesis by auto
  qed
  have "\<exists>s'. decrement_loop sys ops (map fst (deviceReplyMap s)) s w = Some (s', w) \<and> ticked (set (map fst (deviceReplyMap s))) s s'"
    by (rule decrement_ticks) (use assms(1) replies_known[of _ s] late in \<open>auto simp: expires_alone_def\<close>)
  then obtain s' where s': "decrementDeviceReplyMap sys ops s w = Some (s', w)" "ticked (set (map fst (deviceReplyMap s))) s s'"
    unfolding decrementDeviceReplyMap_def by blast
  have m: "map_of (deviceReplyMap s') k = map_option tick (map_of (deviceReplyMap s) k)" for k
  proof (cases "k \<in> set (map fst (deviceReplyMap s))")
    case True then show ?thesis using s'(2) unfolding ticked_def by presburger
  next
    case False
    then have "map_of (deviceReplyMap s) k = None" by (simp add: map_of_eq_None_iff)
    then show ?thesis using s'(2) False unfolding ticked_def by simp
  qed
  have ex: "expires_alone reply (Suc n) s'"
    unfolding expires_alone_def
  proof (intro conjI allI impI)
    show "distinct (map fst (deviceReplyMap s'))" using assms(1) s'(2) by (simp add: expires_alone_def ticked_def)
    show "\<exists>i. map_of (deviceReplyMap s') reply = Some i \<and> unat (delayCycles i) = Suc n"
    proof -
      obtain i where "map_of (deviceReplyMap s) reply = Some i" "unat (delayCycles i) = Suc (Suc n)"
        using assms(1) unfolding expires_alone_def by blast
      then show ?thesis by (intro exI[of _ "tick i"]) (simp add: m tick_unat)
    qed
    fix k j assume k: "map_of (deviceReplyMap s') k = Some j" "k \<noteq> reply"
    then obtain i where i: "map_of (deviceReplyMap s) k = Some i" "j = tick i" by (auto simp: m)
    then have "delayCycles i = 0 \<or> Suc (Suc n) < unat (delayCycles i)" using assms(1) k(2) by (auto simp: expires_alone_def)
    then show "delayCycles j = 0 \<or> Suc n < unat (delayCycles j)" using tick_unat[of i] i(2) by (auto simp: tick_def)
  qed
  have "deviceCommandMap s' = deviceCommandMap s" "\<And>i. replyCommand (tick i) = replyCommand i"
    using s'(2) by (simp_all add: ticked_def tick_def)
  then have "awaits reply command e q s'" using assms(2) by (auto simp: awaits_def m)
  moreover have "commandIsExecuting command s' = commandIsExecuting command s" using s'(2) by (simp add: ticked_def commandIsExecuting_def)
  ultimately show ?thesis using s'(1) ex m by blast
qed

lemma missed_modest:
  assumes "modest_events ops q" "missedReply ops reply s w = (s', w')"
  shows "deviceCommandMap s' = deviceCommandMap s \<and> deviceReplyMap s' = deviceReplyMap s \<and> queueMap (swQueues w') q = queueMap (swQueues w) q"
  using assms(2) modest_event[OF assms(1)] by (auto simp: missedReply_def split: if_splits)

lemma decrement_expires:
  assumes "expires_alone reply 1 s" "map_of (deviceReplyMap s) reply = Some i" "awaits reply command e q s" "q \<noteq> NO_COMMANDER"
    and "room_for (swQueues w) q 1" "modest_events ops q"
  shows "\<exists>s' w'. decrementDeviceReplyMap sys ops s w = Some (s', w') \<and> awaits reply command (e - 1) q s'
    \<and> map_option delayCycles (map_of (deviceReplyMap s') reply) = Some (if periodic i then maxDelayCycles i else 0)
    \<and> (if e = 1 then \<not> commandIsExecuting command s' else commandIsExecuting command s' = commandIsExecuting command s)
    \<and> queueMap (swQueues w') q = queueMap (if e = 1 then queue_added (swQueues w) q [completion sys reply DEVICE_TIMEOUT] else swQueues w) q"
proof -
  have d: "delayCycles i = 1" using assms(1,2) by (simp add: expires_alone_def word_unat_eq_iff)
  have dist: "distinct (map fst (deviceReplyMap s))" using assms(1) by (simp add: expires_alone_def)
  have "reply \<in> set (map fst (deviceReplyMap s))" using assms(2) by (metis map_of_eq_None_iff option.distinct(1) set_map)
  then obtain xs ys where l: "map fst (deviceReplyMap s) = xs @ reply # ys" by (meson split_list)
  have n: "distinct xs" "distinct ys" "reply \<notin> set xs" "reply \<notin> set ys" "set xs \<inter> set ys = {}" using dist unfolding l by auto
  have late: "\<exists>j. map_of (deviceReplyMap s) k = Some j \<and> delayCycles j \<noteq> 1" if "k \<in> set xs \<union> set ys" for k
  proof -
    have "k \<in> set (map fst (deviceReplyMap s))" "k \<noteq> reply" using that n unfolding l by auto
    then show ?thesis using assms(1) replies_known[of k s] by (fastforce simp: expires_alone_def)
  qed
  obtain s1 where s1: "decrement_loop sys ops xs s w = Some (s1, w)" "ticked (set xs) s s1"
    using decrement_ticks[OF n(1), of s sys ops w] late by blast
  have r1: "map_of (deviceReplyMap s1) reply = Some i" using s1(2) n(3) assms(2) by (simp add: ticked_def)
  define s2 where "s2 = (if periodic i then change_reply reply (\<lambda>i. i\<lparr>delayCycles := maxDelayCycles i\<rparr>)
      (change_reply reply (\<lambda>i. i\<lparr>delayCycles := delayCycles i - 1\<rparr>) s1) else change_reply reply (\<lambda>i. i\<lparr>delayCycles := delayCycles i - 1\<rparr>) s1)"
  have m2: "map_of (deviceReplyMap s2) k = (if k = reply then Some (i\<lparr>delayCycles := (if periodic i then maxDelayCycles i else 0)\<rparr>)
      else map_of (deviceReplyMap s1) k)" for k using r1 d by (auto simp: s2_def)
  have c2: "deviceCommandMap s2 = deviceCommandMap s" using s1(2) by (simp add: s2_def ticked_def)
  have a2: "awaits reply command e q s2" using assms(2,3) by (auto simp: awaits_def m2 c2)
  from reply_counts[OF a2 assms(4), of sys DEVICE_TIMEOUT w]
  obtain s3 w3 where r: "replyToReply sys reply DEVICE_TIMEOUT s2 w = Some (s3, w3)" "awaits reply command (e - 1) q s3" "deviceReplyMap s3 = deviceReplyMap s2"
    "if e = 1 then \<not> commandIsExecuting command s3 else commandIsExecuting command s3 = commandIsExecuting command s2"
    "swQueues w3 = (if e = 1 then queue_added (swQueues w) q [completion sys reply DEVICE_TIMEOUT] else swQueues w)"
    using assms(5) by (cases "e = 1") auto
  obtain s4 w4 where m: "missedReply ops reply s3 w3 = (s4, w4)" by (cases "missedReply ops reply s3 w3")
  note mm = missed_modest[OF assms(6) m]
  have e: "decrement_entry sys ops reply s1 w = Some (s4, w4)" using r1 d r(1) m by (simp add: decrement_entry_def Let_def s2_def)
  have m4: "map_of (deviceReplyMap s4) k = (if k = reply then Some (i\<lparr>delayCycles := (if periodic i then maxDelayCycles i else 0)\<rparr>)
      else map_of (deviceReplyMap s1) k)" for k using mm r(3) m2 by simp
  have "\<exists>j. map_of (deviceReplyMap s4) k = Some j \<and> delayCycles j \<noteq> 1" if "k \<in> set ys" for k
    using late[of k] that n s1(2) unfolding m4 by (auto simp: ticked_def)
  then obtain s5 where s5: "decrement_loop sys ops ys s4 w4 = Some (s5, w4)" "ticked (set ys) s4 s5"
    using decrement_ticks[OF n(2), of s4 sys ops w4] by blast
  have run: "decrementDeviceReplyMap sys ops s w = Some (s5, w4)"
    by (simp add: decrementDeviceReplyMap_def l decrement_append s1(1) e s5(1))
  have m5: "map_of (deviceReplyMap s5) reply = map_of (deviceReplyMap s3) reply" "deviceCommandMap s5 = deviceCommandMap s3"
    using s5(2) n(4) mm by (simp_all add: ticked_def)
  have "awaits reply command (e - 1) q s5" using r(2) m5 by (simp add: awaits_def)
  moreover have "commandIsExecuting command s5 = commandIsExecuting command s3" "commandIsExecuting command s2 = commandIsExecuting command s"
    using m5(2) c2 by (simp_all add: commandIsExecuting_def)
  moreover have "map_option delayCycles (map_of (deviceReplyMap s5) reply) = Some (if periodic i then maxDelayCycles i else 0)"
    using m5(1) r(3) m2 by simp
  ultimately show ?thesis using run r(4,5) mm by auto
qed

text \<open>Cycles of a handler whose device is silent.\<close>

fun decrement_cycles ::
  "byte_order \<Rightarrow> 'a device_handler_scheme device_ops \<Rightarrow> nat \<Rightarrow> 'a device_handler_scheme \<Rightarrow> system_world
     \<Rightarrow> ('a device_handler_scheme \<times> system_world) option" where
  "decrement_cycles sys ops 0 s w = Some (s, w)"
| "decrement_cycles sys ops (Suc n) s w =
     Option.bind (decrementDeviceReplyMap sys ops s w) (\<lambda>(s1, w1). decrement_cycles sys ops n s1 w1)"

text \<open>
  C3. What a commander learns of a device that does not answer. Its reply is awaited for \<open>d\<close> cycles, and no other reply expires in
  them. In the first \<open>d - 1\<close> cycles nothing is sent at all. The last one counts the missing reply as one of those the command waits
  for. If it was the only one, the commander gets exactly one message, the timeout, and the command does not execute any more; if
  the command waits for more, or for none because it was completed before, the commander gets nothing and the command stays as it
  is. A periodic reply is awaited again, any other no longer.
\<close>

theorem silent_device_times_out:
  assumes "distinct (map fst (deviceReplyMap s))" "map_of (deviceReplyMap s) reply = Some i" "unat (delayCycles i) = Suc n"
    and "\<forall>k j. map_of (deviceReplyMap s) k = Some j \<longrightarrow> k \<noteq> reply \<longrightarrow> delayCycles j = 0 \<or> Suc n < unat (delayCycles j)"
    and "awaits reply command e q s" "q \<noteq> NO_COMMANDER" "room_for (swQueues w) q 1" "modest_events ops q"
  shows "\<exists>s1 s2 w2. decrement_cycles sys ops n s w = Some (s1, w) \<and> decrementDeviceReplyMap sys ops s1 w = Some (s2, w2)
    \<and> (if e = 1 then queueMap (swQueues w2) q = queueMap (queue_added (swQueues w) q [completion sys reply DEVICE_TIMEOUT]) q
          \<and> \<not> commandIsExecuting command s2
       else queueMap (swQueues w2) q = queueMap (swQueues w) q \<and> commandIsExecuting command s2 = commandIsExecuting command s)
    \<and> awaits reply command (e - 1) q s2
    \<and> map_option delayCycles (map_of (deviceReplyMap s2) reply) = Some (if periodic i then maxDelayCycles i else 0)"
proof -
  have "expires_alone reply (Suc n) s" using assms(1-4) by (simp add: expires_alone_def)
  then have "\<exists>s1 s2 w2. decrement_cycles sys ops n s w = Some (s1, w) \<and> decrementDeviceReplyMap sys ops s1 w = Some (s2, w2)
    \<and> awaits reply command (e - 1) q s2
    \<and> map_option delayCycles (map_of (deviceReplyMap s2) reply) = Some (if periodic i then maxDelayCycles i else 0)
    \<and> (if e = 1 then \<not> commandIsExecuting command s2 else commandIsExecuting command s2 = commandIsExecuting command s)
    \<and> queueMap (swQueues w2) q = queueMap (if e = 1 then queue_added (swQueues w) q [completion sys reply DEVICE_TIMEOUT] else swQueues w) q"
    using assms(2,5)
  proof (induction n arbitrary: s i)
    case 0
    from decrement_expires[OF _ 0(2,3) assms(6-8), of sys] 0(1) show ?case by auto
  next
    case (Suc n)
    from decrement_waits[OF Suc.prems(1,3), of sys ops w] obtain s' where
      s': "decrementDeviceReplyMap sys ops s w = Some (s', w)" "expires_alone reply (Suc n) s'" "awaits reply command e q s'"
        "commandIsExecuting command s' = commandIsExecuting command s" "map_of (deviceReplyMap s') reply = Some (tick i)"
      using Suc.prems(2) by auto
    from Suc.IH[OF s'(2,5,3)] obtain s1 s2 w2 where r: "decrement_cycles sys ops n s' w = Some (s1, w)"
      "decrementDeviceReplyMap sys ops s1 w = Some (s2, w2)" "awaits reply command (e - 1) q s2"
      "map_option delayCycles (map_of (deviceReplyMap s2) reply) = Some (if periodic (tick i) then maxDelayCycles (tick i) else 0)"
      "if e = 1 then \<not> commandIsExecuting command s2 else commandIsExecuting command s2 = commandIsExecuting command s'"
      "queueMap (swQueues w2) q = queueMap (if e = 1 then queue_added (swQueues w) q [completion sys reply DEVICE_TIMEOUT] else swQueues w) q"
      by blast
    have t: "periodic (tick i) = periodic i" "maxDelayCycles (tick i) = maxDelayCycles i" by (simp_all add: tick_def)
    show ?case using r(2-6) s'(4) unfolding t by (intro exI[of _ s1] exI[of _ s2] exI[of _ w2]) (simp add: s'(1) r(1))
  qed
  then show ?thesis by (cases "e = 1") auto
qed

subsection \<open>Replies that come again\<close>

fun replies :: "byte_order \<Rightarrow> u32 \<Rightarrow> nat \<Rightarrow> 'a device_handler_scheme \<Rightarrow> system_world \<Rightarrow> ('a device_handler_scheme \<times> system_world) option" where
  "replies sys reply 0 s w = Some (s, w)"
| "replies sys reply (Suc n) s w =
     Option.bind (replyToReply sys reply RETURN_OK s w) (\<lambda>(s1, w1). replies sys reply n s1 w1)"

lemma replies_silent:
  assumes "awaits reply command e q s" "q \<noteq> NO_COMMANDER" "n \<le> unat (e - 1)"
  shows "\<exists>s'. replies sys reply n s w = Some (s', w) \<and> awaits reply command (e - of_nat n) q s'"
  using assms(1,3)
proof (induction n arbitrary: s e)
  case 0 then show ?case by simp
next
  case (Suc n)
  have ne: "e \<noteq> 1" using Suc.prems(2) by auto
  from reply_counts[OF Suc.prems(1) assms(2), of sys RETURN_OK w] ne
  obtain s1 where s1: "replyToReply sys reply RETURN_OK s w = Some (s1, w)" "awaits reply command (e - 1) q s1" by auto
  have "e - 1 \<noteq> 0" using ne by simp
  then have "unat (e - 1 - 1) = unat (e - 1) - 1" by (rule unat_minus_one)
  then have "n \<le> unat (e - 1 - 1)" using Suc.prems(2) by arith
  from Suc.IH[OF s1(2) this] s1(1) show ?case by (simp add: algebra_simps)
qed

text \<open>
  C4. The commander of a periodic reply is told again and again that its command is finished. The first reply completes the
  command; but the count of expected replies is decremented behind its end, wraps around, and every 256 further replies report
  the same command as completed once more.
\<close>

theorem periodic_reply_completes_again:
  assumes "awaits reply command 1 q s" "q \<noteq> NO_COMMANDER" "room_for (swQueues w) q 2"
  shows "\<exists>s1 w1 s2 w2. replies sys reply 1 s w = Some (s1, w1)
    \<and> swQueues w1 = queue_added (swQueues w) q [completion sys reply RETURN_OK] \<and> \<not> commandIsExecuting command s1
    \<and> replies sys reply 256 s1 w1 = Some (s2, w2)
    \<and> swQueues w2 = queue_added (swQueues w) q [completion sys reply RETURN_OK, completion sys reply RETURN_OK]"
proof -
  have room: "room_for (swQueues w) q 1" using assms(3) by (auto simp: room_for_def)
  from reply_counts[OF assms(1,2), of sys RETURN_OK w] room
  obtain s1 w1 where f: "replyToReply sys reply RETURN_OK s w = Some (s1, w1)" "awaits reply command 0 q s1"
    "\<not> commandIsExecuting command s1" "swQueues w1 = queue_added (swQueues w) q [completion sys reply RETURN_OK]" by auto
  have enough: "255 \<le> unat ((0 :: u8) - 1)" by (simp add: unsigned_minus_1_eq_mask mask_eq_exp_minus_1)
  have "(0 :: u8) - of_nat 255 = 1" by simp
  with replies_silent[OF f(2) assms(2) enough, of sys w1]
  obtain s2 where s2: "replies sys reply 255 s1 w1 = Some (s2, w1)" "awaits reply command 1 q s2" by metis
  have "room_for (swQueues w1) q 1" using room_added[of "swQueues w" q "[completion sys reply RETURN_OK]" 1] assms(3) f(4) by (simp add: numeral_2_eq_2)
  with reply_counts[OF s2(2) assms(2), of sys RETURN_OK w1]
  obtain s3 w3 where l: "replyToReply sys reply RETURN_OK s2 w1 = Some (s3, w3)"
    "swQueues w3 = queue_added (swQueues w1) q [completion sys reply RETURN_OK]" by auto
  have split: "replies sys reply (m + n) t v = Option.bind (replies sys reply m t v) (\<lambda>(a, b). replies sys reply n a b)" for m n t v
    by (induction m arbitrary: t v) (auto split: option.splits simp: Option.bind_assoc case_prod_beta')
  have "replies sys reply 256 s1 w1 = Some (s3, w3)"
    using split[of 255 1 s1 w1] s2(1) l(1) by simp
  moreover have "replies sys reply 1 s w = Some (s1, w1)" using f(1) by simp
  ultimately show ?thesis using f(3,4) l(2) queue_added_append[of "swQueues w" q] by auto
qed

subsection \<open>A command that is executed\<close>

text \<open>
  A communication interface without errors that answers with the given data, and a child that finds the reply in it. What the child
  makes of the reply is the next definition: as \<open>DeviceHandlerBase.h\<close> says of \<open>interpretDeviceReply\<close>, it hands the data to
  \<open>handleDeviceTM\<close>, which sends it to the commander.
\<close>

definition answers_with :: "u32 \<Rightarrow> bytes \<Rightarrow> 'a device_handler_scheme device_ops \<Rightarrow> bool" where
  "answers_with command answer ops \<longleftrightarrow> (\<forall>s w.
     (\<forall>d. comSendMessage ops d s w = (RETURN_OK, s, w)) \<and> comGetSendSuccess ops s w = (RETURN_OK, s, w)
     \<and> (\<forall>n. comRequestReceiveMessage ops n s w = (RETURN_OK, s, w)) \<and> comReadReceivedMessage ops s w = (RETURN_OK, answer, s, w)
     \<and> (\<forall>i n. scanForReply ops answer i n s w = (RETURN_OK, command, length answer, s, w)))"

text \<open>
  While command \<open>k\<close> waits for its reply, with the IPC store \<open>store\<close> and room in the queue \<open>q\<close> of the commander, the child accepts
  the answer and reports the messages \<open>ms\<close> to \<open>q\<close>. It leaves the maps of commands and replies alone; it may send to other queues,
  trigger events, and write what it likes to the store and to its own data.
\<close>

definition reports :: "u32 \<Rightarrow> u32 \<Rightarrow> bytes \<Rightarrow> local_pool \<Rightarrow> mq_message list \<Rightarrow> 'a device_handler_scheme device_ops \<Rightarrow> bool" where
  "reports k q answer store ms ops \<longleftrightarrow>
     (\<forall>s w. awaits k k 1 q s \<longrightarrow> wiretappingMode s = WIRETAP_OFF \<longrightarrow> ipcStore w = store \<longrightarrow> room_for (swQueues w) q (length ms) \<longrightarrow>
       (case interpretDeviceReply ops k answer s w of (r, s', w') \<Rightarrow> r = RETURN_OK \<and> deviceCommandMap s' = deviceCommandMap s
          \<and> deviceReplyMap s' = deviceReplyMap s \<and> queueMap (swQueues w') q = queueMap (queue_added (swQueues w) q ms) q))"

lemma reportsD:
  assumes "reports k q answer (ipcStore w) ms ops" "awaits k k 1 q s" "wiretappingMode s = WIRETAP_OFF" "room_for (swQueues w) q (length ms)"
  obtains s' w' where "interpretDeviceReply ops k answer s w = (RETURN_OK, s', w')" "deviceCommandMap s' = deviceCommandMap s"
    "deviceReplyMap s' = deviceReplyMap s" "queueMap (swQueues w') q = queueMap (queue_added (swQueues w) q ms) q"
proof -
  have "case interpretDeviceReply ops k answer s w of (r, s', w') \<Rightarrow> r = RETURN_OK \<and> deviceCommandMap s' = deviceCommandMap s
      \<and> deviceReplyMap s' = deviceReplyMap s \<and> queueMap (swQueues w') q = queueMap (queue_added (swQueues w) q ms) q"
    by (rule assms(1)[unfolded reports_def, rule_format]) (use assms in simp_all)
  then show thesis using that by (cases "interpretDeviceReply ops k answer s w") auto
qed

text \<open>What \<open>handleDeviceTM\<close> sends: one message with the address under which the data lies in the store.\<close>

lemma device_tm_reports:
  assumes "awaits k k 1 q s" "wiretappingMode s = WIRETAP_OFF" "q \<noteq> NO_COMMANDER" "room_for (swQueues w) q 1"
    and "fst data \<noteq> 0" "sw_store_object data w = (RETURN_OK, RETURN_OK, a, w1)" "swQueues w1 = swQueues w"
  shows "\<exists>w'. handleDeviceTM sys ops e commit data k True False s w = Some (s, w')
    \<and> swQueues w' = queue_added (swQueues w) q [setDataReply sys (newCommandMessage sys) k a]"
proof -
  obtain i info where i: "map_of (deviceReplyMap s) k = Some i" "replyCommand i = Some k" "map_of (deviceCommandMap s) k = Some info"
    "sendReplyTo info = q" using assms(1) by (auto simp: awaits_def)
  have sized: "command_sized (setDataReply sys (newCommandMessage sys) k a)" by (simp add: setDataReply_def)
  have "room_for (swQueues w1) q 1" using assms(4,7) by simp
  from send_room[OF this sized] show ?thesis
    using i assms by (simp add: handleDeviceTM_def Let_def dh_reportData_def reportData_def report_address_def)
qed

definition step_reply :: "byte_order \<Rightarrow> u32 \<Rightarrow> mq_message" where
  "step_reply sys command = setStepReply sys (newCommandMessage sys) command 2 RETURN_OK"

lemma step_sends:
  assumes "room_for (swQueues w) q 1"
  shows "swQueues (dh_step sys 1 q k RETURN_OK s w) = queue_added (swQueues w) q [step_reply sys k]"
proof -
  have "command_sized (step_reply sys k)" by (simp add: step_reply_def setStepReply_def)
  from send_room[OF assms this] show ?thesis by (simp add: dh_step_def ah_step_def STEP_OFFSET_def step_reply_def)
qed

lemma step_store:
  assumes "room_for (swQueues w) q 1"
  shows "ipcStore (dh_step sys 1 q k RETURN_OK s w) = ipcStore w"
proof -
  have "command_sized (step_reply sys k)" by (simp add: step_reply_def setStepReply_def)
  from send_room[OF assms this] show ?thesis by (simp add: dh_step_def ah_step_def STEP_OFFSET_def step_reply_def)
qed

text \<open>The four steps of the device's slot in the schedule, for a command that is ready to be sent.\<close>

definition communicate ::
  "byte_order \<Rightarrow> 'a device_handler_scheme device_ops \<Rightarrow> u32 \<Rightarrow> 'a device_handler_scheme \<Rightarrow> system_world
     \<Rightarrow> ('a device_handler_scheme \<times> system_world) option" where
  "communicate sys ops raw s w =
     Option.bind (doSendWrite sys ops s w) (\<lambda>(s1, w1).
     Option.bind (dh_performOperation sys ops raw 1 s1 w1) (\<lambda>(s2, w2).
     Option.bind (dh_performOperation sys ops raw 2 s2 w2) (\<lambda>(s3, w3). dh_performOperation sys ops raw 3 s3 w3)))"

lemma perform_steps:
  assumes "dhMode s \<noteq> MODE_OFF"
  shows "dh_performOperation sys ops raw 1 s w = doGetWrite sys ops (s\<lparr>pstStep := 1\<rparr>) w"
    "dh_performOperation sys ops raw 2 s w = doSendRead ops (s\<lparr>pstStep := 2\<rparr>) w"
    "dh_performOperation sys ops raw 3 s w =
       map_option (\<lambda>(s2, w2). (s2\<lparr>cookieState := COOKIE_UNUSED\<rparr>, w2)) (doGetRead sys ops (s\<lparr>pstStep := 3\<rparr>) w)"
  using assms by (simp_all add: dh_performOperation_def Let_def getComAction_def)


text \<open>A command on its way: it executes for its commander and its reply can come.\<close>

definition on_its_way :: "u32 \<Rightarrow> u32 \<Rightarrow> 'a device_handler_scheme \<Rightarrow> bool" where
  "on_its_way k q s \<longleftrightarrow> dhMode s \<in> {MODE_ON, MODE_NORMAL} \<and> wiretappingMode s = WIRETAP_OFF \<and> pendingCommand s = Some k \<and> k \<noteq> RAW_COMMAND_ID
     \<and> (\<exists>info. map_of (deviceCommandMap s) k = Some info \<and> dcExecuting info \<and> sendReplyTo info = q)
     \<and> (\<exists>i. map_of (deviceReplyMap s) k = Some i \<and> maxDelayCycles i \<noteq> 0 \<and> \<not> periodic i)"

lemma not_off: "on_its_way k q s \<Longrightarrow> dhMode s \<noteq> MODE_OFF" "on_its_way k q s \<Longrightarrow> dhMode s \<noteq> MODE_RAW"
  by (auto simp: on_its_way_def MODE_ON_def MODE_OFF_def device_modes)

lemma way_send:
  assumes "on_its_way k q s" "cookieState s = COOKIE_WRITE_READY" "answers_with k answer ops"
  shows "doSendWrite sys ops s w = Some (s\<lparr>cookieState := COOKIE_WRITE_SENT\<rparr>, w)"
  using assms(2,3) by (simp add: doSendWrite_def answers_with_def)

lemma way_sent:
  assumes "on_its_way k q s" "cookieState s = COOKIE_WRITE_SENT" "answers_with k answer ops" "q \<noteq> NO_COMMANDER" "room_for (swQueues w) q 1"
  shows "\<exists>s' w'. dh_performOperation sys ops raw 1 s w = Some (s', w') \<and> on_its_way k q s' \<and> awaits k k 1 q s'
    \<and> (\<exists>i. map_of (deviceReplyMap s') k = Some i \<and> delayCycles i \<noteq> 0) \<and> swQueues w' = queue_added (swQueues w) q [step_reply sys k]
    \<and> ipcStore w' = ipcStore w"
proof -
  let ?s = "s\<lparr>pstStep := 1\<rparr>"
  obtain info i where i: "map_of (deviceCommandMap s) k = Some info" "dcExecuting info" "sendReplyTo info = q"
    "map_of (deviceReplyMap s) k = Some i" "maxDelayCycles i \<noteq> 0" "\<not> periodic i" using assms(1) by (auto simp: on_its_way_def)
  have w: "wiretappingMode s = WIRETAP_OFF" "pendingCommand s = Some k" "k \<noteq> RAW_COMMAND_ID" using assms(1) by (simp_all add: on_its_way_def)
  have g: "comGetSendSuccess ops t v = (RETURN_OK, t, v)" for t v using assms(3) by (simp add: answers_with_def)
  let ?s' = "change_command k (\<lambda>c. c\<lparr>expectedReplies := 1\<rparr>)
    (change_reply k (\<lambda>i. i\<lparr>delayCycles := maxDelayCycles i, replyCommand := Some k\<rparr>) (?s\<lparr>cookieState := COOKIE_UNUSED\<rparr>))"
  have "NO_REPLY_EXPECTED \<noteq> RETURN_OK" by (simp add: retcode MAKE_RETURN_CODE_def)
  then have "dh_performOperation sys ops raw 1 s w = Some (?s', dh_step sys 1 q k RETURN_OK ?s' w)"
    using perform_steps(1)[OF not_off(1)[OF assms(1)]] i w assms(2,4)
    by (simp add: doGetWrite_def g pending_entry_def enableReplyInReplyMap_def replyToCommand_def)
  moreover have "on_its_way k q ?s'" using assms(1) i by (auto simp: on_its_way_def)
  moreover have "awaits k k 1 q ?s'" using i by (auto simp: awaits_def)
  ultimately show ?thesis using i(4,5) step_sends[OF assms(5)] step_store[OF assms(5)] by auto
qed

lemma way_read:
  assumes "on_its_way k q s" "answers_with k answer ops"
  shows "dh_performOperation sys ops raw 2 s w = Some (s\<lparr>pstStep := 2, cookieState := COOKIE_READ_SENT\<rparr>, w)"
proof -
  obtain info i where i: "map_of (deviceCommandMap s) k = Some info" "map_of (deviceReplyMap s) k = Some i" "pendingCommand s = Some k"
    using assms(1) by (auto simp: on_its_way_def)
  show ?thesis using perform_steps(2)[OF not_off(1)[OF assms(1)]] i assms(2)
    by (simp add: doSendRead_def answers_with_def pending_entry_def)
qed

lemma way_answered:
  assumes "on_its_way k q s" "cookieState s = COOKIE_READ_SENT" "answers_with k answer ops" "answer \<noteq> []" "awaits k k 1 q s"
    and "map_of (deviceReplyMap s) k = Some i" "delayCycles i \<noteq> 0" "q \<noteq> NO_COMMANDER" "room_for (swQueues w) q (length ms + 1)"
    and "reports k q answer (ipcStore w) ms ops"
  shows "\<exists>s' w'. dh_performOperation sys ops raw 3 s w = Some (s', w') \<and> \<not> commandIsExecuting k s'
    \<and> getReplyDelayCycles k s' = 0 \<and> queueMap (swQueues w') q = queueMap (queue_added (swQueues w) q (ms @ [completion sys k RETURN_OK])) q"
proof -
  let ?s1 = "s\<lparr>pstStep := 3, cookieState := COOKIE_UNUSED\<rparr>"
  let ?s2 = "change_reply k (\<lambda>i. i\<lparr>delayCycles := (if periodic i then maxDelayCycles i else 0)\<rparr>) ?s1"
  have np: "\<not> periodic i" using assms(1,6) by (auto simp: on_its_way_def)
  have aw: "awaits k k 1 q ?s2" using assms(5,6) np by (auto simp: awaits_def)
  have off: "wiretappingMode ?s2 = WIRETAP_OFF" using assms(1) by (simp add: on_its_way_def)
  have room: "room_for (swQueues w) q (length ms)" using assms(9) by (auto simp: room_for_def)
  obtain t v where t: "interpretDeviceReply ops k answer ?s2 w = (RETURN_OK, t, v)" "deviceCommandMap t = deviceCommandMap ?s2"
    "deviceReplyMap t = deviceReplyMap ?s2" "queueMap (swQueues v) q = queueMap (queue_added (swQueues w) q ms) q"
    by (rule reportsD[OF assms(10) aw off room])
  have awt: "awaits k k 1 q t" using aw t(2,3) by (simp add: awaits_def)
  have "room_for (swQueues v) q 1" using room_added[OF assms(9)] t(4) by (simp add: room_for_def)
  with reply_counts[OF awt assms(8), of sys RETURN_OK v]
  obtain s3 w3 where r: "replyToReply sys k RETURN_OK t v = Some (s3, w3)" "deviceReplyMap s3 = deviceReplyMap ?s2"
    "\<not> commandIsExecuting k s3" "swQueues w3 = queue_added (swQueues v) q [completion sys k RETURN_OK]" using t(3) by auto
  have q: "queueMap (swQueues w3) q = queueMap (queue_added (swQueues w) q (ms @ [completion sys k RETURN_OK])) q"
    unfolding r(4) queue_added_at t(4) by (simp add: option.map_comp comp_def)
  have a: "comReadReceivedMessage ops t v = (RETURN_OK, answer, t, v)" "scanForReply ops answer x y t v = (RETURN_OK, k, length answer, t, v)"
    for t v x y using assms(3) by (simp_all add: answers_with_def)
  have h: "handleReply sys ops answer k (length answer) ?s1 w = Some (s3, w3)" using assms(6,7) t(1) r(1) by (simp add: handleReply_def)
  obtain m where m: "length answer = Suc m" using assms(4) by (cases answer) auto
  have "RETURN_OK \<noteq> IGNORE_FULL_PACKET" by (simp add: retcode MAKE_RETURN_CODE_def)
  then have "parse_loop sys ops (Suc m) answer i0 l0 ?s1 w = Some (s3, w3)" for i0 l0 using h by (simp add: a)
  then have "parseReply sys ops answer ?s1 w = Some (s3, w3)" using m by (simp add: parseReply_def del: parse_loop.simps)
  then have "doGetRead sys ops (s\<lparr>pstStep := 3\<rparr>) w = Some (s3, w3)"
    using assms(1,2,4) not_off(2)[OF assms(1)] by (simp add: doGetRead_def a on_its_way_def)
  then have "dh_performOperation sys ops raw 3 s w = Some (s3\<lparr>cookieState := COOKIE_UNUSED\<rparr>, w3)"
    by (simp add: perform_steps(3)[OF not_off(1)[OF assms(1)]])
  moreover have "getReplyDelayCycles k s3 = 0" using r(2) assms(6) np by (simp add: getReplyDelayCycles_def)
  ultimately show ?thesis using r(3) q by (auto simp: commandIsExecuting_def getReplyDelayCycles_def)
qed

text \<open>
  C2. A command for a device is executed end to end. The handler accepts an action it knows and that is not executing; if the
  interface transports it and the device answers in the same cycle, the commander gets the step, then what the child reports of the
  answer, for instance the data that \<open>handleDeviceTM\<close> sends, then the completion, and nothing else; and the command can be sent
  again.
\<close>

theorem device_command_answered:
  assumes "dhMode s \<in> {MODE_ON, MODE_NORMAL}" "wiretappingMode s = WIRETAP_OFF" "k \<noteq> RAW_COMMAND_ID"
    and "map_of (deviceCommandMap s) k = Some info" "\<not> dcExecuting info"
    and "map_of (deviceReplyMap s) k = Some i" "maxDelayCycles i \<noteq> 0" "\<not> periodic i"
    and "buildCommandFromCommand ops k data s w = (RETURN_OK, s\<lparr>rawPacket := packet\<rparr>, w)"
    and "answers_with k answer ops" "reports k q answer (ipcStore w) ms ops" "answer \<noteq> []" "q \<noteq> NO_COMMANDER"
    and "room_for (swQueues w) q (length ms + 2)"
  shows "\<exists>s1 s2 w2. dh_executeAction ops k q data s w = (RETURN_OK, s1, w) \<and> communicate sys ops raw s1 w = Some (s2, w2)
    \<and> queueMap (swQueues w2) q = queueMap (queue_added (swQueues w) q ([step_reply sys k] @ ms @ [completion sys k RETURN_OK])) q
    \<and> \<not> commandIsExecuting k s2 \<and> getReplyDelayCycles k s2 = 0"
proof -
  let ?s1 = "change_command k (\<lambda>c. c\<lparr>sendReplyTo := q, dcExecuting := True\<rparr>)
    (s\<lparr>rawPacket := packet, pendingCommand := Some k, cookieState := COOKIE_WRITE_READY\<rparr>)"
  have room: "room_for (swQueues w) q 1" using assms(14) by (auto simp: room_for_def)
  have x: "dh_executeAction ops k q data s w = (RETURN_OK, ?s1, w)"
    using assms(1,4,5,9) by (auto simp: dh_executeAction_def acceptExternalDeviceCommands_def RETURN_OK_def)
  have way: "on_its_way k q ?s1" using assms(1-8) by (auto simp: on_its_way_def)
  note c1 = way_send[OF way _ assms(10), of sys w, simplified]
  have way2: "on_its_way k q (?s1\<lparr>cookieState := COOKIE_WRITE_SENT\<rparr>)" using way by (simp add: on_its_way_def)
  from way_sent[OF way2 _ assms(10,13) room, of sys raw]
  obtain s3 w3 j where c3: "dh_performOperation sys ops raw 1 (?s1\<lparr>cookieState := COOKIE_WRITE_SENT\<rparr>) w = Some (s3, w3)"
    "on_its_way k q s3" "awaits k k 1 q s3" "map_of (deviceReplyMap s3) k = Some j" "delayCycles j \<noteq> 0"
    "swQueues w3 = queue_added (swQueues w) q [step_reply sys k]" "ipcStore w3 = ipcStore w" by auto
  let ?s4 = "s3\<lparr>pstStep := 2, cookieState := COOKIE_READ_SENT\<rparr>"
  have way4: "on_its_way k q ?s4" "awaits k k 1 q ?s4" using c3(2,3) by (simp_all add: on_its_way_def awaits_def)
  have room3: "room_for (swQueues w3) q (length ms + 1)"
    using room_added[of "swQueues w" q "[step_reply sys k]" "length ms + 1"] assms(14) c3(6) by simp
  have rep: "reports k q answer (ipcStore w3) ms ops" using assms(11) c3(7) by simp
  from way_answered[OF way4(1) _ assms(10,12) way4(2) _ c3(5) assms(13) room3 rep, of sys raw] c3(4)
  obtain s5 w5 where c5: "dh_performOperation sys ops raw 3 ?s4 w3 = Some (s5, w5)" "\<not> commandIsExecuting k s5" "getReplyDelayCycles k s5 = 0"
    "queueMap (swQueues w5) q = queueMap (queue_added (swQueues w3) q (ms @ [completion sys k RETURN_OK])) q" by auto
  have "communicate sys ops raw ?s1 w = Some (s5, w5)"
    by (simp add: communicate_def c1 c3(1) way_read[OF c3(2) assms(10)] c5(1))
  then show ?thesis using x c5 c3(6) by (auto simp: queue_added_append)
qed

subsection \<open>The device of the examples\<close>

definition waiting_device :: device_handler where
  "waiting_device = sample_device\<lparr>dhMode := MODE_ON,
     deviceCommandMap := [(7, \<lparr>dcExecuting = True, expectedReplies = 1, sendReplyTo = 3\<rparr>)],
     deviceReplyMap := [(7, \<lparr>maxDelayCycles = 5, delayCycles = 5, replyLen = 2, periodic = False, replyCommand = Some 7\<rparr>)]\<rparr>"

lemma waiting_device_awaits: "awaits 7 7 1 3 waiting_device"
  by (auto simp: waiting_device_def awaits_def split: if_splits)

lemma action_room: "room_for (swQueues action_world) 3 1"
  by (simp add: action_world_def room_for_def newHostQueue_def)

lemma sample_modest_events: "modest_events sample_device_ops 3"
  by (simp add: modest_events_def sample_device_ops_def triggerEvent_def)

theorem silent_device_times_out_witness:
  "\<exists>s1 s2 w2. decrement_cycles LITTLE_ENDIAN sample_device_ops 4 waiting_device action_world = Some (s1, action_world)
    \<and> decrementDeviceReplyMap LITTLE_ENDIAN sample_device_ops s1 action_world = Some (s2, w2)
    \<and> queueMap (swQueues w2) 3 = queueMap (queue_added (swQueues action_world) 3 [completion LITTLE_ENDIAN 7 DEVICE_TIMEOUT]) 3
    \<and> \<not> commandIsExecuting 7 s2"
proof -
  let ?i = "\<lparr>maxDelayCycles = 5, delayCycles = 5, replyLen = 2, periodic = False, replyCommand = Some 7\<rparr>"
  have m: "map_of (deviceReplyMap waiting_device) 7 = Some ?i" "distinct (map fst (deviceReplyMap waiting_device))"
    "\<forall>k j. map_of (deviceReplyMap waiting_device) k = Some j \<longrightarrow> k \<noteq> 7 \<longrightarrow> delayCycles j = 0 \<or> Suc 4 < unat (delayCycles j)"
    by (simp_all add: waiting_device_def)
  have n: "unat (delayCycles ?i) = Suc 4" "(3 :: u32) \<noteq> NO_COMMANDER" by (simp_all add: NO_COMMANDER_def)
  from silent_device_times_out[OF m(2,1) n(1) m(3) waiting_device_awaits n(2) action_room sample_modest_events, of LITTLE_ENDIAN]
  show ?thesis by auto
qed

theorem periodic_reply_completes_again_witness:
  "\<exists>s1 w1 s2 w2. replies LITTLE_ENDIAN 7 1 waiting_device action_world = Some (s1, w1) \<and> \<not> commandIsExecuting 7 s1
    \<and> replies LITTLE_ENDIAN 7 256 s1 w1 = Some (s2, w2)
    \<and> swQueues w2 = queue_added (swQueues action_world) 3 [completion LITTLE_ENDIAN 7 RETURN_OK, completion LITTLE_ENDIAN 7 RETURN_OK]"
proof -
  have "(3 :: u32) \<noteq> NO_COMMANDER" by (simp add: NO_COMMANDER_def)
  from periodic_reply_completes_again[OF waiting_device_awaits this action_world_ok(3), of LITTLE_ENDIAN] show ?thesis by blast
qed

text \<open>A child that reports the two bytes of the answer to the commander.\<close>

definition reporting_ops :: "device_handler device_ops" where
  "reporting_ops = sample_device_ops\<lparr>interpretDeviceReply := (\<lambda>i d s w.
     case handleDeviceTM LITTLE_ENDIAN sample_device_ops BIG Pair (2, \<lambda>out m. (RETURN_OK, out\<lparr>obytes := d, osize := 2\<rparr>)) i True False s w of
       Some (s', w') \<Rightarrow> (RETURN_OK, s', w') | None \<Rightarrow> (RETURN_FAILED, s, w))\<rparr>"

definition reported :: mq_message where
  "reported = setDataReply LITTLE_ENDIAN (newCommandMessage LITTLE_ENDIAN) 7 \<lparr>pool_index = 0, packet_index = 1\<rparr>"

lemma stored_in_action_store:
  assumes "ipcStore w = action_store"
  shows "\<exists>lp. sw_store_object (2, \<lambda>out m. (RETURN_OK, out\<lparr>obytes := [1, 2], osize := 2\<rparr>)) w
    = (RETURN_OK, RETURN_OK, \<lparr>pool_index = 0, packet_index = 1\<rparr>, w\<lparr>ipcStore := lp\<rparr>)"
proof -
  let ?lp = "action_store\<lparr>size_list := [[2, 2]]\<rparr>"
  have "getFreeElement action_store INVALID_ADDRESS 2 False = (RETURN_OK, \<lparr>pool_index = 0, packet_index = 1\<rparr>, Some (0, 4), ?lp)"
    by (simp add: getFreeElement_def reserveSpace_def getPoolIndex_def findEmpty_def action_store_def INVALID_ADDRESS_def getRawPosition_def
        STORAGE_FREE_def scan_index.simps spill_loop.simps)
  then show ?thesis using assms by (auto simp: sw_store_object_def)
qed

theorem device_command_answered_witness:
  "\<exists>s1 s2 w2. dh_executeAction reporting_ops 7 3 [5]
       (waiting_device\<lparr>deviceCommandMap := [(7, \<lparr>dcExecuting = False, expectedReplies = 0, sendReplyTo = 0\<rparr>)]\<rparr>) action_world = (RETURN_OK, s1, action_world)
    \<and> communicate LITTLE_ENDIAN reporting_ops 0 s1 action_world = Some (s2, w2)
    \<and> queueMap (swQueues w2) 3 = queueMap (queue_added (swQueues action_world) 3
         [step_reply LITTLE_ENDIAN 7, reported, completion LITTLE_ENDIAN 7 RETURN_OK]) 3
    \<and> \<not> commandIsExecuting 7 s2"
proof -
  let ?s = "waiting_device\<lparr>deviceCommandMap := [(7, \<lparr>dcExecuting = False, expectedReplies = 0, sendReplyTo = 0\<rparr>)]\<rparr>"
  have d: "dhMode ?s \<in> {MODE_ON, MODE_NORMAL}" "wiretappingMode ?s = WIRETAP_OFF" "(7 :: u32) \<noteq> RAW_COMMAND_ID"
    "map_of (deviceCommandMap ?s) 7 = Some \<lparr>dcExecuting = False, expectedReplies = 0, sendReplyTo = 0\<rparr>"
    "map_of (deviceReplyMap ?s) 7 = Some \<lparr>maxDelayCycles = 5, delayCycles = 5, replyLen = 2, periodic = False, replyCommand = Some 7\<rparr>"
    by (simp_all add: waiting_device_def sample_device_def RAW_COMMAND_ID_def)
  have b: "buildCommandFromCommand reporting_ops 7 [5] ?s action_world = (RETURN_OK, ?s\<lparr>rawPacket := [5]\<rparr>, action_world)"
    by (simp add: reporting_ops_def sample_device_ops_def)
  have a: "answers_with 7 [1, 2] reporting_ops" by (simp add: answers_with_def reporting_ops_def sample_device_ops_def)
  have n: "(3 :: u32) \<noteq> NO_COMMANDER" by (simp add: NO_COMMANDER_def)
  have st: "ipcStore action_world = action_store" by (simp add: action_world_def)
  have rep: "reports 7 3 [1, 2] (ipcStore action_world) [reported] reporting_ops"
    unfolding reports_def
  proof (intro allI impI)
    fix s :: device_handler and w :: system_world
    assume h: "awaits 7 7 1 3 s" "wiretappingMode s = WIRETAP_OFF" "ipcStore w = ipcStore action_world" "room_for (swQueues w) 3 (length [reported])"
    obtain lp where lp: "sw_store_object (2, \<lambda>out m. (RETURN_OK, out\<lparr>obytes := [1, 2], osize := 2\<rparr>)) w
        = (RETURN_OK, RETURN_OK, \<lparr>pool_index = 0, packet_index = 1\<rparr>, w\<lparr>ipcStore := lp\<rparr>)"
      using stored_in_action_store[of w] h(3) st by auto
    from device_tm_reports[OF h(1,2) n _ _ lp, of LITTLE_ENDIAN sample_device_ops BIG Pair] h(4)
    show "case interpretDeviceReply reporting_ops 7 [1, 2] s w of (r, s', w') \<Rightarrow> r = RETURN_OK \<and> deviceCommandMap s' = deviceCommandMap s
      \<and> deviceReplyMap s' = deviceReplyMap s \<and> queueMap (swQueues w') 3 = queueMap (queue_added (swQueues w) 3 [reported]) 3"
      by (auto simp: reporting_ops_def reported_def)
  qed
  have room: "room_for (swQueues action_world) 3 (length [reported] + 2)" by (simp add: action_world_def room_for_def newHostQueue_def)
  from device_command_answered[OF d(1-4) _ d(5) _ _ b a rep _ n room, of LITTLE_ENDIAN 0] show ?thesis by (simp, blast)
qed

end
