(* ===== verification/PollingTasks.thy ===== *)
theory PollingTasks
  imports FsfwPrelude "HOL-Library.Multiset"
begin

text \<open>
  Tasks: \<open>tasks/FixedSlotSequence.cpp\<close>, the polling sequence that tells when which object is called with which operation
  code, and the tasks of \<open>osal/linux\<close> that run through it or through a list of objects. A \<open>std::multiset\<close> of slots is the list
  of its elements in order, an iterator the index it points to; an executable object is its address, \<open>None\<close> the null pointer.
  The objects and the operating system (clock and sleep) act on a world of any type.
\<close>

subsection \<open>The polling sequence\<close>

record fixed_sequence_slot =
  handlerId :: u32
  executableObject :: "u32 option"
  pollingTimeMs :: u32
  opcode :: u8

definition newFixedSequenceSlot ::
  "(u32 \<Rightarrow> 'w \<Rightarrow> 'w) \<Rightarrow> u32 \<Rightarrow> u32 \<Rightarrow> u8 \<Rightarrow> u32 option \<Rightarrow> 'w \<Rightarrow> fixed_sequence_slot \<times> 'w" where
  "newFixedSequenceSlot setTaskIF handler setTime setSequenceId executable w =
     (\<lparr>handlerId = handler, executableObject = executable, pollingTimeMs = setTime, opcode = setSequenceId\<rparr>,
      case executable of None \<Rightarrow> w | Some x \<Rightarrow> setTaskIF x w)"

record fixed_slot_sequence =
  slotList :: "fixed_sequence_slot list"
  currentSlot :: nat
  customCheckFunction :: "(fixed_sequence_slot list \<Rightarrow> u16) option"
  lengthMs :: u32

definition newFixedSlotSequence :: "u32 \<Rightarrow> fixed_slot_sequence" where
  "newFixedSlotSequence setLengthMs = \<lparr>slotList = [], currentSlot = 0, customCheckFunction = None, lengthMs = setLengthMs\<rparr>"

text \<open>A new element goes behind those that are not greater.\<close>

fun slot_insert :: "fixed_sequence_slot \<Rightarrow> fixed_sequence_slot list \<Rightarrow> fixed_sequence_slot list" where
  "slot_insert x [] = [x]"
| "slot_insert x (y # ys) = (if pollingTimeMs x < pollingTimeMs y then x # y # ys else y # slot_insert x ys)"

definition pst_addSlot ::
  "(u32 \<Rightarrow> 'w \<Rightarrow> 'w) \<Rightarrow> u32 \<Rightarrow> u32 \<Rightarrow> u8 \<Rightarrow> u32 option \<Rightarrow> fixed_slot_sequence \<Rightarrow> 'w \<Rightarrow> fixed_slot_sequence \<times> 'w" where
  "pst_addSlot setTaskIF componentId slotTimeMs executionStep executable p w =
     (case newFixedSequenceSlot setTaskIF componentId slotTimeMs executionStep executable w of
        (slot, w1) \<Rightarrow> (p\<lparr>slotList := slot_insert slot (slotList p), currentSlot := 0\<rparr>, w1))"

definition executeAndAdvance :: "(u32 \<Rightarrow> u8 \<Rightarrow> 'w \<Rightarrow> 'w) \<Rightarrow> fixed_slot_sequence \<Rightarrow> 'w \<Rightarrow> (fixed_slot_sequence \<times> 'w) option" where
  "executeAndAdvance perform p w =
     (if length (slotList p) \<le> currentSlot p then None
      else case executableObject (slotList p ! currentSlot p) of
          None \<Rightarrow> None
        | Some x \<Rightarrow>
            let w1 = perform x (opcode (slotList p ! currentSlot p)) w; next = currentSlot p + 1
            in Some (p\<lparr>currentSlot := (if next = length (slotList p) then 0 else next)\<rparr>, w1))"

definition getIntervalToNextSlotMs :: "fixed_slot_sequence \<Rightarrow> u32 option" where
  "getIntervalToNextSlotMs p =
     (if length (slotList p) \<le> currentSlot p then None
      else
        let oldTime = pollingTimeMs (slotList p ! currentSlot p) in
        Some (case find (\<lambda>x. pollingTimeMs x \<noteq> oldTime) (drop (currentSlot p + 1) (slotList p)) of
                Some x \<Rightarrow> pollingTimeMs x - oldTime
              | None \<Rightarrow> lengthMs p - oldTime + pollingTimeMs (slotList p ! 0)))"

definition getIntervalToPreviousSlotMs :: "fixed_slot_sequence \<Rightarrow> u32 option" where
  "getIntervalToPreviousSlotMs p =
     (if length (slotList p) \<le> currentSlot p then None
      else
        let currentTime = pollingTimeMs (slotList p ! currentSlot p) in
        Some (if currentSlot p = 0 then lengthMs p - pollingTimeMs (last (slotList p)) + currentTime
              else currentTime - pollingTimeMs (slotList p ! (currentSlot p - 1))))"

definition slotFollowsImmediately :: "fixed_slot_sequence \<Rightarrow> bool option" where
  "slotFollowsImmediately p =
     (if length (slotList p) \<le> currentSlot p then None
      else Some (currentSlot p \<noteq> 0
        \<and> pollingTimeMs (slotList p ! (currentSlot p - 1)) = pollingTimeMs (slotList p ! currentSlot p)))"

definition getLengthMs :: "fixed_slot_sequence \<Rightarrow> u32" where
  "getLengthMs p = lengthMs p"

text \<open>The number of errors in the slots behind a slot at \<open>time\<close>. The result of the custom check is only printed.\<close>

fun check_slots :: "u32 \<Rightarrow> u32 \<Rightarrow> fixed_sequence_slot list \<Rightarrow> u32" where
  "check_slots time errorCount [] = errorCount"
| "check_slots time errorCount (x # xs) =
     check_slots (pollingTimeMs x)
       (if executableObject x = None then errorCount + 1 else if pollingTimeMs x < time then errorCount + 1 else errorCount) xs"

definition pst_checkSequence :: "fixed_slot_sequence \<Rightarrow> u16" where
  "pst_checkSequence p =
     (if slotList p = [] then RETURN_FAILED
      else if check_slots 0 0 (slotList p) > 0 then RETURN_FAILED else RETURN_OK)"

definition addCustomCheck :: "(fixed_sequence_slot list \<Rightarrow> u16) \<Rightarrow> fixed_slot_sequence \<Rightarrow> fixed_slot_sequence" where
  "addCustomCheck f p = p\<lparr>customCheckFunction := Some f\<rparr>"

text \<open>Each object is initialized once; a null pointer in a slot must not be followed.\<close>

fun initialize_slots ::
  "(u32 \<Rightarrow> 'w \<Rightarrow> u16 \<times> 'w) \<Rightarrow> u32 set \<Rightarrow> u32 \<Rightarrow> fixed_sequence_slot list \<Rightarrow> 'w \<Rightarrow> (u32 \<times> 'w) option" where
  "initialize_slots ini unique failures [] w = Some (failures, w)"
| "initialize_slots ini unique failures (x # xs) w =
     (case executableObject x of
        None \<Rightarrow> None
      | Some object \<Rightarrow>
          if object \<in> unique then initialize_slots ini unique failures xs w
          else (case ini object w of (result, w1) \<Rightarrow>
                  initialize_slots ini (insert object unique) (if result \<noteq> RETURN_OK then failures + 1 else failures) xs w1))"

definition intializeSequenceAfterTaskCreation :: "(u32 \<Rightarrow> 'w \<Rightarrow> u16 \<times> 'w) \<Rightarrow> fixed_slot_sequence \<Rightarrow> 'w \<Rightarrow> (u16 \<times> 'w) option" where
  "intializeSequenceAfterTaskCreation ini p w =
     map_option (\<lambda>(failures, w1). (if failures > 0 then RETURN_FAILED else RETURN_OK, w1)) (initialize_slots ini {} 0 (slotList p) w)"

subsection \<open>The tasks\<close>

text \<open>The operating system: the monotonic clock in milliseconds, and sleeping for a number of nanoseconds.\<close>

record 'w os_ops =
  monotonicTimeMs :: "'w \<Rightarrow> u64 \<times> 'w"
  sleepNs :: "u64 \<Rightarrow> 'w \<Rightarrow> 'w"

definition delayUntil :: "'w os_ops \<Rightarrow> u64 \<Rightarrow> u64 \<Rightarrow> 'w \<Rightarrow> bool \<times> u64 \<times> 'w" where
  "delayUntil os prevoiusWakeTime delayTime w =
     (case monotonicTimeMs os w of (currentTime, w1) \<Rightarrow>
        let nextTimeToWake = prevoiusWakeTime + delayTime;
            shouldDelay = (if currentTime < prevoiusWakeTime
                           then nextTimeToWake < prevoiusWakeTime \<and> nextTimeToWake > currentTime
                           else nextTimeToWake < prevoiusWakeTime \<or> nextTimeToWake > currentTime)
        in if shouldDelay then (True, nextTimeToWake, sleepNs os ((nextTimeToWake - currentTime) * 1000000) w1)
           else (False, currentTime, w1))"

record fixed_timeslot_task =
  pst :: fixed_slot_sequence
  lastWakeTime :: u64
  deadlineMissedCount :: u32

definition task_addSlot ::
  "(u32 \<Rightarrow> u32 option) \<Rightarrow> (u32 \<Rightarrow> 'w \<Rightarrow> 'w) \<Rightarrow> u32 \<Rightarrow> u32 \<Rightarrow> u8 \<Rightarrow> fixed_timeslot_task \<Rightarrow> 'w \<Rightarrow> u16 \<times> fixed_timeslot_task \<times> 'w" where
  "task_addSlot manager setTaskIF componentId slotTimeMs executionStep t w =
     (case manager componentId of
        Some x \<Rightarrow> (case pst_addSlot setTaskIF componentId slotTimeMs executionStep (Some x) (pst t) w of
                     (p, w1) \<Rightarrow> (RETURN_OK, t\<lparr>pst := p\<rparr>, w1))
      | None \<Rightarrow> (RETURN_FAILED, t, w))"

definition missedDeadlineCounter :: "fixed_timeslot_task \<Rightarrow> fixed_timeslot_task" where
  "missedDeadlineCounter t = t\<lparr>deadlineMissedCount := deadlineMissedCount t + 1\<rparr>"

text \<open>What the task does before its loop, and one round of the loop, which has no end.\<close>

definition task_start ::
  "'w os_ops \<Rightarrow> (u32 \<Rightarrow> 'w \<Rightarrow> u16 \<times> 'w) \<Rightarrow> fixed_timeslot_task \<Rightarrow> 'w \<Rightarrow> (fixed_timeslot_task \<times> 'w) option" where
  "task_start os ini t w =
     Option.bind (intializeSequenceAfterTaskCreation ini (pst t) w) (\<lambda>(_, w1).
       case monotonicTimeMs os w1 of (now, w2) \<Rightarrow>
         map_option (\<lambda>_. (t\<lparr>lastWakeTime := now\<rparr>, w2)) (getIntervalToNextSlotMs (pst t)))"

definition task_round ::
  "'w os_ops \<Rightarrow> (u32 \<Rightarrow> u8 \<Rightarrow> 'w \<Rightarrow> 'w) \<Rightarrow> fixed_timeslot_task \<Rightarrow> 'w \<Rightarrow> (fixed_timeslot_task \<times> 'w) option" where
  "task_round os perform t w =
     Option.bind (slotFollowsImmediately (pst t)) (\<lambda>follows.
     Option.bind
       (if follows then Some (t, w)
        else map_option (\<lambda>interval. case delayUntil os (lastWakeTime t) (ucast interval) w of
               (inTime, wake, w1) \<Rightarrow>
                 let t1 = t\<lparr>lastWakeTime := wake\<rparr> in (if inTime then t1 else missedDeadlineCounter t1, w1))
             (getIntervalToPreviousSlotMs (pst t)))
       (\<lambda>(t2, w2). map_option (\<lambda>(p, w3). (t2\<lparr>pst := p\<rparr>, w3)) (executeAndAdvance perform (pst t2) w2)))"

fun task_rounds ::
  "'w os_ops \<Rightarrow> (u32 \<Rightarrow> u8 \<Rightarrow> 'w \<Rightarrow> 'w) \<Rightarrow> nat \<Rightarrow> fixed_timeslot_task \<Rightarrow> 'w \<Rightarrow> (fixed_timeslot_task \<times> 'w) option" where
  "task_rounds os perform 0 t w = Some (t, w)"
| "task_rounds os perform (Suc n) t w =
     Option.bind (task_rounds os perform n t w) (\<lambda>(t1, w1). task_round os perform t1 w1)"

text \<open>The periodic task: its objects, its period and its next round; the deadline function is an action on the world.\<close>

record periodic_task =
  objectList :: "u32 list"
  periodMs :: u32
  periodicWakeTime :: u64

definition addComponent ::
  "(u32 \<Rightarrow> u32 option) \<Rightarrow> (u32 \<Rightarrow> 'w \<Rightarrow> 'w) \<Rightarrow> u32 \<Rightarrow> periodic_task \<Rightarrow> 'w \<Rightarrow> u16 \<times> periodic_task \<times> 'w" where
  "addComponent manager setTaskIF object t w =
     (case manager object of
        None \<Rightarrow> (RETURN_FAILED, t, w)
      | Some x \<Rightarrow> (RETURN_OK, t\<lparr>objectList := objectList t @ [x]\<rparr>, setTaskIF x w))"

definition periodic_start :: "'w os_ops \<Rightarrow> (u32 \<Rightarrow> 'w \<Rightarrow> u16 \<times> 'w) \<Rightarrow> periodic_task \<Rightarrow> 'w \<Rightarrow> periodic_task \<times> 'w" where
  "periodic_start os ini t w =
     (case monotonicTimeMs os (fold (\<lambda>x w. snd (ini x w)) (objectList t) w) of (now, w1) \<Rightarrow> (t\<lparr>periodicWakeTime := now\<rparr>, w1))"

definition periodic_round ::
  "'w os_ops \<Rightarrow> (u32 \<Rightarrow> u8 \<Rightarrow> 'w \<Rightarrow> 'w) \<Rightarrow> ('w \<Rightarrow> 'w) \<Rightarrow> periodic_task \<Rightarrow> 'w \<Rightarrow> periodic_task \<times> 'w" where
  "periodic_round os perform deadlineMissedFunc t w =
     (case delayUntil os (periodicWakeTime t) (ucast (periodMs t)) (fold (\<lambda>x. perform x 0) (objectList t) w) of
        (inTime, wake, w1) \<Rightarrow> (t\<lparr>periodicWakeTime := wake\<rparr>, if inTime then w1 else deadlineMissedFunc w1))"


subsection \<open>The order of the slots\<close>

lemma slot_insert_mset: "mset (slot_insert x xs) = add_mset x (mset xs)"
  by (induction xs) auto

lemma slot_insert_set: "set (slot_insert x xs) = insert x (set xs)"
  by (induction xs) auto

lemma slot_insert_sorted: "sorted (map pollingTimeMs xs) \<Longrightarrow> sorted (map pollingTimeMs (slot_insert x xs))"
  by (induction xs) (auto simp: slot_insert_set)

lemma slot_insert_stable:
  "sorted (map pollingTimeMs xs) \<Longrightarrow>
     filter (\<lambda>y. pollingTimeMs y = k) (slot_insert x xs) = filter (\<lambda>y. pollingTimeMs y = k) xs @ (if pollingTimeMs x = k then [x] else [])"
proof (induction xs)
  case (Cons a xs)
  then have "filter (\<lambda>y. pollingTimeMs y = pollingTimeMs x) xs = []" if "pollingTimeMs x < pollingTimeMs a"
    using that by (force simp: filter_empty_conv)
  then show ?case using Cons by auto
qed simp

lemma slot_insert_sort: "slot_insert x (sort_key pollingTimeMs xs) = sort_key pollingTimeMs (xs @ [x])"
proof (rule properties_for_sort_key[symmetric])
  show "mset (slot_insert x (sort_key pollingTimeMs xs)) = mset (xs @ [x])" by (simp add: slot_insert_mset)
  show "sorted (map pollingTimeMs (slot_insert x (sort_key pollingTimeMs xs)))" by (simp add: slot_insert_sorted)
  fix k
  show "filter (\<lambda>y. pollingTimeMs k = pollingTimeMs y) (slot_insert x (sort_key pollingTimeMs xs))
    = filter (\<lambda>y. pollingTimeMs k = pollingTimeMs y) (xs @ [x])"
    using slot_insert_stable[of "sort_key pollingTimeMs xs" "pollingTimeMs k" x] sort_key_stable[of pollingTimeMs "pollingTimeMs k" xs]
    by (simp add: eq_commute[of "pollingTimeMs k"])
qed

text \<open>Adding slots to a new sequence, each with the address of its object.\<close>

definition add_slots :: "(u32 \<Rightarrow> 'w \<Rightarrow> 'w) \<Rightarrow> fixed_sequence_slot list \<Rightarrow> fixed_slot_sequence \<Rightarrow> 'w \<Rightarrow> fixed_slot_sequence \<times> 'w" where
  "add_slots setTaskIF xs p w =
     fold (\<lambda>x (p, w). pst_addSlot setTaskIF (handlerId x) (pollingTimeMs x) (opcode x) (executableObject x) p w) xs (p, w)"

lemma addSlot_slots:
  "pst_addSlot f (handlerId x) (pollingTimeMs x) (opcode x) (executableObject x) p w
     = (p\<lparr>slotList := slot_insert x (slotList p), currentSlot := 0\<rparr>, case executableObject x of None \<Rightarrow> w | Some y \<Rightarrow> f y w)"
proof -
  have "\<lparr>handlerId = handlerId x, executableObject = executableObject x, pollingTimeMs = pollingTimeMs x, opcode = opcode x\<rparr> = x" by simp
  then show ?thesis by (simp only: pst_addSlot_def newFixedSequenceSlot_def prod.case)
qed

text \<open>
  Whatever the order in which the slots of a polling sequence are added, the sequence is executed in the order of their times,
  and slots of the same time in the order in which they were added; it starts with the first.
\<close>

theorem slots_sorted_stably:
  "slotList (fst (add_slots f xs (newFixedSlotSequence period) w)) = sort_key pollingTimeMs xs
    \<and> currentSlot (fst (add_slots f xs (newFixedSlotSequence period) w)) = 0"
proof (induction xs rule: rev_induct)
  case Nil show ?case by (simp add: add_slots_def newFixedSlotSequence_def)
next
  case (snoc x xs)
  obtain p v where p: "add_slots f xs (newFixedSlotSequence period) w = (p, v)" by fastforce
  then have "add_slots f (xs @ [x]) (newFixedSlotSequence period) w
      = pst_addSlot f (handlerId x) (pollingTimeMs x) (opcode x) (executableObject x) p v" by (simp add: add_slots_def)
  then show ?case using snoc.IH p by (simp add: addSlot_slots slot_insert_sort)
qed

subsection \<open>Checked sequences\<close>

lemma check_slots_counts: "unat c + length xs < 2 ^ 32 \<Longrightarrow> unat c \<le> unat (check_slots time c xs)"
proof (induction xs arbitrary: c time)
  case (Cons x xs)
  have step: "unat (c + 1) = unat c + 1" using Cons.prems by (simp add: unat_add_lem[THEN iffD1] unat_plus_if' )
  show ?case using Cons.IH[of c] Cons.IH[of "c + 1"] Cons.prems step by (auto intro: Suc_leD)
qed simp

lemma check_slots_ok:
  assumes "check_slots time 0 xs = 0" "length xs < 2 ^ 32"
  shows "(\<forall>x \<in> set xs. executableObject x \<noteq> None) \<and> sorted (time # map pollingTimeMs xs)"
  using assms
proof (induction xs arbitrary: time)
  case (Cons x xs)
  have "unat (1 :: u32) \<le> unat (check_slots (pollingTimeMs x) 1 xs)" using check_slots_counts[of 1 xs] Cons.prems(2) by simp
  then have "check_slots (pollingTimeMs x) 1 xs \<noteq> 0" by (cases "check_slots (pollingTimeMs x) 1 xs = 0") auto
  then have "executableObject x \<noteq> None" "\<not> pollingTimeMs x < time" "check_slots (pollingTimeMs x) 0 xs = 0"
    using Cons.prems(1) by (auto split: if_splits)
  moreover from Cons.IH[OF this(3)] Cons.prems(2)
  have "(\<forall>y \<in> set xs. executableObject y \<noteq> None) \<and> sorted (pollingTimeMs x # map pollingTimeMs xs)" by simp
  ultimately show ?case by auto
qed simp

definition runnable :: "fixed_slot_sequence \<Rightarrow> bool" where
  "runnable p \<longleftrightarrow> slotList p \<noteq> [] \<and> (\<forall>x \<in> set (slotList p). executableObject x \<noteq> None) \<and> sorted (map pollingTimeMs (slotList p))"

lemma checked_runnable: "pst_checkSequence p = RETURN_OK \<Longrightarrow> length (slotList p) < 2 ^ 32 \<Longrightarrow> runnable p"
  using check_slots_ok[of 0 "slotList p"]
  by (auto simp: pst_checkSequence_def runnable_def word_gt_0 RETURN_OK_FAILED split: if_splits)

lemma execute_next:
  assumes "runnable p" "currentSlot p < length (slotList p)"
  shows "\<exists>w'. executeAndAdvance perform p w = Some (p\<lparr>currentSlot := Suc (currentSlot p) mod length (slotList p)\<rparr>, w')"
proof -
  obtain x where "executableObject (slotList p ! currentSlot p) = Some x"
    using assms nth_mem[OF assms(2)] unfolding runnable_def by blast
  then show ?thesis using assms(2) by (auto simp: executeAndAdvance_def Let_def mod_less)
qed

text \<open>One round: it has a result, it goes on to the next slot, and it takes the interval if no deadline is missed.\<close>

lemma round_next:
  assumes "runnable (pst t)" "currentSlot (pst t) < length (slotList (pst t))"
  shows "\<exists>t' w'. task_round os perform t w = Some (t', w')
    \<and> pst t' = (pst t)\<lparr>currentSlot := Suc (currentSlot (pst t)) mod length (slotList (pst t))\<rparr>
    \<and> (if slotFollowsImmediately (pst t) = Some True then lastWakeTime t' = lastWakeTime t \<and> deadlineMissedCount t' = deadlineMissedCount t
       else deadlineMissedCount t' = deadlineMissedCount t + 1
         \<or> deadlineMissedCount t' = deadlineMissedCount t \<and> lastWakeTime t' = lastWakeTime t + ucast (the (getIntervalToPreviousSlotMs (pst t))))"
proof -
  obtain f where f: "slotFollowsImmediately (pst t) = Some f" using assms(2) by (simp add: slotFollowsImmediately_def)
  obtain i where i: "getIntervalToPreviousSlotMs (pst t) = Some i" using assms(2) by (simp add: getIntervalToPreviousSlotMs_def Let_def)
  obtain ok wake w1 where d: "delayUntil os (lastWakeTime t) (ucast i) w = (ok, wake, w1)" by (cases "delayUntil os (lastWakeTime t) (ucast i) w")
  have wake: "ok \<longrightarrow> wake = lastWakeTime t + ucast i" using d by (auto simp: delayUntil_def Let_def split: prod.splits if_splits)
  let ?t2 = "if f then t else (if ok then t\<lparr>lastWakeTime := wake\<rparr> else missedDeadlineCounter (t\<lparr>lastWakeTime := wake\<rparr>))"
  have p: "pst ?t2 = pst t" by (simp add: missedDeadlineCounter_def)
  obtain w' where w': "executeAndAdvance perform (pst t) (if f then w else w1)
      = Some ((pst t)\<lparr>currentSlot := Suc (currentSlot (pst t)) mod length (slotList (pst t))\<rparr>, w')"
    using execute_next[OF assms, where w = "if f then w else w1"] by blast
  have "task_round os perform t w = Some (?t2\<lparr>pst := (pst t)\<lparr>currentSlot := Suc (currentSlot (pst t)) mod length (slotList (pst t))\<rparr>\<rparr>, w')"
    using w' p by (cases f) (auto simp: task_round_def f i d Let_def)
  then show ?thesis using f i wake by (auto simp: missedDeadlineCounter_def)
qed


definition slot_time :: "fixed_slot_sequence \<Rightarrow> nat \<Rightarrow> u64" where
  "slot_time p k = of_nat (k div length (slotList p) + 1) * ucast (lengthMs p) - ucast (pollingTimeMs (last (slotList p)))
     + ucast (pollingTimeMs (slotList p ! (k mod length (slotList p))))"

lemma ucast_add_small: "unat a + unat b < 2 ^ 32 \<Longrightarrow> (ucast (a + b :: u32) :: u64) = ucast a + ucast b"
  by (rule word_unat_eq_iff[THEN iffD2]) (simp add: unat_ucast_up unat_word_ariths)

lemma ucast_sub_small: "b \<le> a \<Longrightarrow> (ucast (a - b :: u32) :: u64) = ucast a - ucast b"
  by (rule word_unat_eq_iff[THEN iffD2]) (simp add: unat_ucast_up unat_sub word_le_nat_alt)

lemma rounds_state:
  assumes "runnable (pst t)" "currentSlot (pst t) = 0"
  shows "\<exists>t' w'. task_rounds os perform k t w = Some (t', w')
    \<and> pst t' = (pst t)\<lparr>currentSlot := k mod length (slotList (pst t))\<rparr>"
proof (induction k)
  case 0 show ?case using assms(2) by (cases "pst t") simp
next
  case (Suc k)
  then obtain t1 w1 where 1: "task_rounds os perform k t w = Some (t1, w1)"
    "pst t1 = (pst t)\<lparr>currentSlot := k mod length (slotList (pst t))\<rparr>" by blast
  have "slotList (pst t) \<noteq> []" using assms(1) by (simp add: runnable_def)
  then have "runnable (pst t1)" "currentSlot (pst t1) < length (slotList (pst t1))" using assms(1) 1(2) by (auto simp: runnable_def)
  from round_next[OF this, of os perform w1] 1 show ?case by (auto simp: mod_Suc_eq)
qed

text \<open>
  C12. A polling sequence that passed its check is executed without end: every number of rounds of its task has a result,
  whatever the clock and the objects do, and the next slot is the one behind, cyclically.
\<close>

theorem checked_sequence_runs:
  assumes "pst_checkSequence (pst t) = RETURN_OK" "length (slotList (pst t)) < 2 ^ 32" "currentSlot (pst t) = 0"
  shows "\<exists>t' w'. task_rounds os perform k t w = Some (t', w') \<and> currentSlot (pst t') = k mod length (slotList (pst t))
    \<and> slotList (pst t') = slotList (pst t)"
  using rounds_state[OF checked_runnable[OF assms(1,2)] assms(3), of os perform k w] by auto



text \<open>
  What a round keeps and adds while no deadline is missed: before slot \<open>k\<close> the task woke at the time of the slot before it,
  or started.
\<close>

definition wake_before :: "fixed_timeslot_task \<Rightarrow> nat \<Rightarrow> u64" where
  "wake_before t k = lastWakeTime t + (if k = 0 then 0 else slot_time (pst t) (k - 1))"

lemma interval_ends:
  assumes "runnable p" "pollingTimeMs (last (slotList p)) \<le> lengthMs p" "currentSlot p = k mod length (slotList p)"
  shows "(if k = 0 then 0 else slot_time p (k - 1)) + (if slotFollowsImmediately p = Some True then 0 else ucast (the (getIntervalToPreviousSlotMs p))) = slot_time p k"
proof -
  let ?n = "length (slotList p)" and ?i = "k mod length (slotList p)"
  have ne: "slotList p \<noteq> []" and so: "sorted (map pollingTimeMs (slotList p))" using assms(1) by (simp_all add: runnable_def)
  have i: "?i < ?n" using ne by simp
  have le: "a \<le> b \<Longrightarrow> b < ?n \<Longrightarrow> pollingTimeMs (slotList p ! a) \<le> pollingTimeMs (slotList p ! b)" for a b
    using sorted_nth_mono[OF so, of a b] by simp
  have last: "last (slotList p) = slotList p ! (?n - 1)" using ne by (simp add: last_conv_nth)
  show ?thesis
  proof (cases "?i = 0")
    case True
    have first: "pollingTimeMs (slotList p ! 0) \<le> pollingTimeMs (last (slotList p))" using le[of 0 "?n - 1"] ne by (simp add: last)
    have s1: "unat (lengthMs p - pollingTimeMs (last (slotList p))) + unat (pollingTimeMs (slotList p ! 0)) < 2 ^ 32"
      using assms(2) first unat_u32_less[of "lengthMs p"] by (simp add: unat_sub word_le_nat_alt del: unat_u32_less)
    have iv: "ucast (the (getIntervalToPreviousSlotMs p)) = (ucast (lengthMs p) - ucast (pollingTimeMs (last (slotList p))) + ucast (pollingTimeMs (slotList p ! 0)) :: u64)"
      using assms(3) True ne ucast_add_small[OF s1] ucast_sub_small[OF assms(2)] by (simp add: getIntervalToPreviousSlotMs_def Let_def)
    have nf: "slotFollowsImmediately p \<noteq> Some True" using assms(3) True by (simp add: slotFollowsImmediately_def)
    show ?thesis
    proof (cases "k = 0")
      case True then show ?thesis using iv nf by (simp add: slot_time_def)
    next
      case False
      then obtain q where q: "k = q * ?n" "q \<noteq> 0" using True by (metis mod_eq_0_iff_dvd dvd_def mult.commute mult_0)
      have k1: "k - 1 = (q - 1) * ?n + (?n - 1)" 
      proof -
        obtain r where "q = Suc r" using q(2) by (cases q) auto
        moreover have "0 < ?n" using ne by simp
        ultimately show ?thesis using q(1) by (cases ?n) (simp_all add: algebra_simps del: length_greater_0_conv)
      qed
      have "(k - 1) div ?n = q - 1" "(k - 1) mod ?n = ?n - 1" using ne unfolding k1 by (simp_all add: div_mult_self1[of _ "q - 1"])
      moreover have "k div ?n = q" "k mod ?n = 0" using q(1) ne by simp_all
      ultimately show ?thesis using iv nf False q(2) by (cases q) (simp_all add: slot_time_def last algebra_simps)
    qed
  next
    case False
    have k0: "k \<noteq> 0" using False by (cases k) auto
    have "k - 1 = (k div ?n) * ?n + (?i - 1)" using False div_mult_mod_eq[of k ?n] by linarith
    moreover have "?i - 1 < ?n" using i by linarith
    ultimately have k: "k \<noteq> 0" "(k - 1) div ?n = k div ?n" "(k - 1) mod ?n = ?i - 1" 
      using k0 div_less[of "?i - 1" ?n] ne by simp_all
    let ?a = "pollingTimeMs (slotList p ! (?i - 1))" and ?b = "pollingTimeMs (slotList p ! ?i)"
    have ab: "?a \<le> ?b" using le[of "?i - 1" ?i] i by simp
    have "ucast (the (getIntervalToPreviousSlotMs p)) = (ucast ?b - ucast ?a :: u64)"
      using assms(3) False i ucast_sub_small[OF ab] by (simp add: getIntervalToPreviousSlotMs_def Let_def)
    moreover have "slotFollowsImmediately p = Some True \<longleftrightarrow> ?a = ?b" using assms(3) False i by (simp add: slotFollowsImmediately_def)
    ultimately show ?thesis using k by (simp add: slot_time_def)
  qed
qed

lemma rounds_time:
  assumes "runnable (pst t)" "currentSlot (pst t) = 0" "pollingTimeMs (last (slotList (pst t))) \<le> lengthMs (pst t)"
    and "task_rounds os perform k t w = Some (t', w')" "k < 2 ^ 32"
  shows "\<exists>m \<le> k. deadlineMissedCount t' = deadlineMissedCount t + of_nat m \<and> (m = 0 \<longrightarrow> lastWakeTime t' = wake_before t k)"
  using assms(4,5)
proof (induction k arbitrary: t' w')
  case 0 then show ?case by (simp add: wake_before_def)
next
  case (Suc k)
  obtain t1 w1 where 1: "task_rounds os perform k t w = Some (t1, w1)" "task_round os perform t1 w1 = Some (t', w')"
    using Suc.prems(1) by (auto simp: bind_eq_Some_conv)
  from Suc.IH[OF 1(1)] Suc.prems(2) obtain m where m: "m \<le> k" "deadlineMissedCount t1 = deadlineMissedCount t + of_nat m"
    "m = 0 \<longrightarrow> lastWakeTime t1 = wake_before t k" by auto
  have p: "pst t1 = (pst t)\<lparr>currentSlot := k mod length (slotList (pst t))\<rparr>" using rounds_state[OF assms(1,2), of os perform k w] 1(1) by auto
  have "slotList (pst t) \<noteq> []" using assms(1) by (simp add: runnable_def)
  with p have r: "runnable (pst t1)" "currentSlot (pst t1) < length (slotList (pst t1))" using assms(1) by (auto simp: runnable_def)
  have fin: "(if k = 0 then 0 else slot_time (pst t) (k - 1)) + (if slotFollowsImmediately (pst t1) = Some True then 0
      else ucast (the (getIntervalToPreviousSlotMs (pst t1)))) = slot_time (pst t) k"
  proof -
    have "pollingTimeMs (last (slotList (pst t1))) \<le> lengthMs (pst t1)" "currentSlot (pst t1) = k mod length (slotList (pst t1))"
      using assms(3) p by simp_all
    from interval_ends[OF r(1) this] have "(if k = 0 then 0 else slot_time (pst t1) (k - 1)) + (if slotFollowsImmediately (pst t1) = Some True then 0
      else ucast (the (getIntervalToPreviousSlotMs (pst t1)))) = slot_time (pst t1) k" .
    moreover have "slot_time (pst t1) j = slot_time (pst t) j" for j using p by (simp add: slot_time_def)
    ultimately show ?thesis by (simp only:)
  qed
  consider (same) "deadlineMissedCount t' = deadlineMissedCount t1" "lastWakeTime t1 = wake_before t k \<longrightarrow> lastWakeTime t' = wake_before t (Suc k)"
    | (missed) "deadlineMissedCount t' = deadlineMissedCount t1 + 1"
    using round_next[OF r, of os perform w1] 1(2) fin by (auto simp: wake_before_def add.assoc split: if_splits)
  then show ?case
  proof cases
    case same
    then show ?thesis using m by (intro exI[of _ m]) auto
  next
    case missed
    then show ?thesis using m by (intro exI[of _ "Suc m"]) (auto simp: algebra_simps)
  qed
qed

text \<open>
  C11. A polling sequence keeps its schedule. As long as no deadline is missed the task wakes for slot \<open>k\<close> exactly at the
  time of the slot in its period, where the period before the first would have had its last slot at the start: whatever the durations of
  the executions are, they do not shift the slots behind.
\<close>

theorem slots_on_time:
  assumes "pst_checkSequence (pst t) = RETURN_OK" "length (slotList (pst t)) < 2 ^ 32" "currentSlot (pst t) = 0"
    and "pollingTimeMs (last (slotList (pst t))) \<le> lengthMs (pst t)"
    and "task_rounds os perform (Suc k) t w = Some (t', w')" "Suc k < 2 ^ 32" "deadlineMissedCount t' = deadlineMissedCount t"
  shows "lastWakeTime t' = lastWakeTime t + slot_time (pst t) k"
proof -
  from rounds_time[OF checked_runnable[OF assms(1,2)] assms(3,4,5,6)]
  obtain m where m: "m \<le> Suc k" "deadlineMissedCount t' = deadlineMissedCount t + of_nat m"
    "m = 0 \<longrightarrow> lastWakeTime t' = wake_before t (Suc k)" by blast
  then have "(of_nat m :: u32) = 0" using assms(7) by simp
  then have "unat (of_nat m :: u32) = 0" by simp
  then have "m = 0" using m(1) assms(6) by (simp add: unsigned_of_nat take_bit_nat_eq_self)
  then show ?thesis using m(3) by (simp add: wake_before_def)
qed


text \<open>A clock that only sleeping moves, and a task with three slots, two of them at the same time.\<close>

definition sample_os :: "u64 os_ops" where
  "sample_os = \<lparr>monotonicTimeMs = (\<lambda>w. (w, w)), sleepNs = (\<lambda>n w. w + n div 1000000)\<rparr>"

definition sample_task :: fixed_timeslot_task where
  "sample_task = \<lparr>pst = \<lparr>slotList = [\<lparr>handlerId = 1, executableObject = Some 1, pollingTimeMs = 0, opcode = 0\<rparr>,
       \<lparr>handlerId = 1, executableObject = Some 1, pollingTimeMs = 100, opcode = 1\<rparr>,
       \<lparr>handlerId = 2, executableObject = Some 2, pollingTimeMs = 100, opcode = 0\<rparr>],
     currentSlot = 0, customCheckFunction = None, lengthMs = 400\<rparr>, lastWakeTime = 1000, deadlineMissedCount = 0\<rparr>"

lemma sample_task_checked:
  "pst_checkSequence (pst sample_task) = RETURN_OK" "length (slotList (pst sample_task)) < 2 ^ 32" "currentSlot (pst sample_task) = 0"
  by (simp_all add: sample_task_def pst_checkSequence_def)

theorem checked_sequence_runs_witness:
  "\<exists>t' w'. task_rounds sample_os (\<lambda>x c w. w) 1000 sample_task 1000 = Some (t', w') \<and> currentSlot (pst t') = 1"
  using checked_sequence_runs[OF sample_task_checked, where os = sample_os and perform = "\<lambda>x c w. w" and k = 1000 and w = 1000]
  by (auto simp: sample_task_def)

theorem slots_on_time_witness:
  "\<exists>t' w'. task_rounds sample_os (\<lambda>x c w. w) (Suc 3) sample_task 1000 = Some (t', w') \<and> lastWakeTime t' = 1700"
proof -
  have late: "pollingTimeMs (last (slotList (pst sample_task))) \<le> lengthMs (pst sample_task)" by (simp add: sample_task_def)
  have "case task_rounds sample_os (\<lambda>x c w. w) (Suc 3) sample_task 1000 of Some (t', w') \<Rightarrow> deadlineMissedCount t' = 0 | None \<Rightarrow> False"
    by code_simp
  then obtain t' w' where r: "task_rounds sample_os (\<lambda>x c w. w) (Suc 3) sample_task 1000 = Some (t', w')" "deadlineMissedCount t' = 0"
    by (auto simp del: task_rounds.simps split: option.splits)
  then have m: "deadlineMissedCount t' = deadlineMissedCount sample_task" by (simp add: sample_task_def)
  have "slot_time (pst sample_task) 3 = 700" by (simp add: slot_time_def sample_task_def)
  with slots_on_time[OF sample_task_checked late r(1) _ m] r(1) show ?thesis by (simp add: sample_task_def del: task_rounds.simps)
qed

end
