(* ===== verification/Spec2Isabelle.thy ===== *)
theory Spec2Isabelle
  imports Fifo Containers Serialize Crc Dle SpacePackets PusPackets CcsdsTime LocalPool PacketStored
    Messages TransferFrame MapExtraction Farm DataLink Verification TcDistribution Telemetry PusServices
    CommandingResults RingBuffer SubsystemTables MemoryHelper Assembly Controllers Events
    DeviceReplies PollingTasks
begin

text \<open>
  A verification development for the telecommand and telemetry interface of an on-board software built
  on the flight software framework \<open>fsfw\<close> (sources under \<open>src/fsfw\<close>, mission code under
  \<open>src/mission\<close>).

  The program. Telecommands arrive as transfer frames. The data link layer
  (\<open>datalinklayer/DataLinkLayer.cpp\<close>) validates a frame, the FARM-1 of its virtual channel
  (\<open>VirtualChannelReception.cpp\<close>, \<open>Farm1State*.cpp\<close>) accepts or refuses it and reports to ground in
  a control word (\<open>Clcw.cpp\<close>), and the map channel (\<open>MapPacketExtraction.cpp\<close>) extracts the space
  packets. A packet goes into a packet store (\<open>storagemanager/LocalPool.tpp\<close>) and its address as a
  message (\<open>ipc\<close>, \<open>tmtcservices/TmTcMessage.cpp\<close>) into the queue of the distributor
  (\<open>tcdistribution\<close>), which checks the packet, puts its address into the queue of its service and reports
  the acceptance. A service (\<open>tmtcservices/PusServiceBase.cpp\<close>, \<open>pus\<close>) handles its requests, reports their
  completion and deletes the packets; the verification service turns the reports into telemetry. Telemetry
  is numbered and closed by the funnel (\<open>mission/utility/TmFunnel.cpp\<close>) and sent to ground, or kept while the
  link is down, by a bridge (\<open>tmtcservices/TmTcBridge.cpp\<close>). The objects that the commands are for are controllers,
  subsystems, assemblies and device handlers: they keep a mode and a health, command their children, talk to their
  devices and report events, which the event manager gives to those who subscribed to them. Tasks call the objects, some
  through a polling sequence. Packets are read
  and written through \<open>tmtcpacket\<close>, time stamps come from \<open>timemanager\<close>, application data is
  serialized with \<open>serialize\<close>, and everything lives in the fixed-size containers of \<open>container\<close>.

  The theories, in dependency order.
  \<open>FsfwPrelude\<close>: return codes, class identifiers, machine words, bounds-checked memory.
  \<open>Fifo\<close>: \<open>FIFOBase.tpp\<close>; the locale \<open>bounded_queue\<close> is the contract of a bounded queue, interpreted
  by the FIFO and, in \<open>Messages\<close>, by the host's message queue.
  \<open>Containers\<close>: \<open>ArrayList.h\<close>, \<open>FixedMap.h\<close>, \<open>FixedOrderedMultimap.tpp\<close>; the locale \<open>map_store\<close>.
  \<open>RingBuffer\<close>: \<open>RingBufferBase.h\<close>, \<open>SimpleRingBuffer.cpp\<close> as a bounded queue of bytes.
  \<open>Serialize\<close>: \<open>EndianConverter.h\<close> and the serialization adapters; the locale \<open>codec\<close>.
  \<open>Crc\<close>, \<open>Dle\<close>: \<open>globalfunctions/CRC.cpp\<close>, \<open>DleEncoder.cpp\<close>.
  \<open>SpacePackets\<close>, \<open>PusPackets\<close>: \<open>SpacePacketBase.cpp\<close>, \<open>TcPacketBase.cpp\<close>, \<open>TmPacketBase.cpp\<close>.
  \<open>CcsdsTime\<close>: \<open>CCSDSTime.cpp\<close> and the time stampers.
  \<open>LocalPool\<close>: the packet store; the locale \<open>packet_store\<close>.
  \<open>PacketStored\<close>: \<open>TcPacketStored.cpp\<close>, \<open>TmPacketStored.cpp\<close>.
  \<open>Messages\<close>: \<open>MessageQueueMessage.cpp\<close>, \<open>CommandMessage.cpp\<close>, the host's \<open>MessageQueue.cpp\<close>.
  \<open>TransferFrame\<close>: \<open>TcTransferFrame.cpp\<close>, \<open>TcTransferFrameLocal.cpp\<close>, \<open>BCFrame.h\<close>.
  \<open>MapExtraction\<close>: \<open>MapPacketExtraction.cpp\<close>; the locale \<open>packet_sink\<close> is what it relies on when it
  sends a packet, interpreted by store and queue together.
  \<open>Farm\<close>: \<open>Clcw.cpp\<close>, the FARM-1 states, \<open>VirtualChannelReception.cpp\<close>, with the step relation
  \<open>farm_step\<close>, whose label tells whether the flags of the control word keep their meaning, and the reachable states of a channel.
  \<open>DataLink\<close>: \<open>DataLinkLayer.cpp\<close>.
  \<open>Verification\<close>: \<open>PusVerificationReport.cpp\<close>, \<open>VerificationReporter.cpp\<close>.
  \<open>StoreQueues\<close>: what a message, a queue operation and an update of a packet do to all queues and stores.
  \<open>TcDistribution\<close>: \<open>TcPacketCheck.cpp\<close>, \<open>TcDistributor.cpp\<close>, \<open>CCSDSDistributor.cpp\<close>, \<open>PUSDistributor.cpp\<close>;
  the locale \<open>distribution\<close> is the contract of a distributor's step, interpreted by both.
  \<open>Telemetry\<close>: \<open>TmPacketStored::sendPacket\<close>, \<open>TmFunnel.cpp\<close>, \<open>TmTcBridge.cpp\<close>.
  \<open>PusServices\<close>: \<open>PusServiceBase.cpp\<close>, \<open>Service17Test.cpp\<close>, \<open>Service1TelecommandVerification.cpp\<close>; the locale
  \<open>request_handler\<close> is what the base class relies on, interpreted by the test service.
  \<open>CommandingService\<close>, \<open>CommandingSlots\<close>, \<open>CommandingResults\<close>: \<open>CommandingServiceBase.cpp\<close>, the services whose
  commands other objects execute: the operations, what becomes of slots and packets, the properties.
  \<open>HealthModes\<close>: \<open>HealthTable.cpp\<close>, \<open>HealthHelper.cpp\<close>, \<open>ModeHelper.cpp\<close>, \<open>Countdown.cpp\<close> and the messages of health
  and mode, over the world of queues, IPC store, health table, events and clock that objects share.
  \<open>SubsystemBase\<close>, \<open>Subsystem\<close>: \<open>SubsystemBase.cpp\<close>, \<open>Subsystem.cpp\<close>, a composite object whose modes are
  sequences of mode tables for its children. \<open>SubsystemResults\<close>: the configuration invariant, the step relation
  \<open>sub_reachable\<close>, what the start-up check establishes; \<open>SubsystemMessages\<close>: which messages can be handled in
  every reachable state; \<open>SubsystemTables\<close>: the commands of a table, the end of a
  transition, the properties.
  \<open>Actions\<close>: \<open>ActionHelper.cpp\<close>, \<open>SimpleActionHelper.cpp\<close>, \<open>CommandActionHelper.cpp\<close>: actions, their data in the IPC store and
  their replies; sending to a queue with room.
  \<open>MessageTypes\<close>: the message classes of memory, device handlers, parameters, monitoring and the like, and
  \<open>CommandMessageCleaner.cpp\<close>. \<open>MemoryHelper\<close>: \<open>MemoryHelper.cpp\<close>, loads, dumps and checks of memory.
  \<open>Controllers\<close>: \<open>ControllerBase.cpp\<close>, \<open>HkSwitchHelper.cpp\<close>.
  \<open>DeviceModes\<close>, \<open>Assembly\<close>: the modes and codes of devices, \<open>AssemblyBase.cpp\<close> with the reachable states of an assembly.
  \<open>Events\<close>: event messages and matchers, \<open>MatchTree.h\<close>, \<open>EventMatchTree.cpp\<close>, \<open>EventManager.cpp\<close>.
  \<open>DeviceHandler\<close>: \<open>DeviceHandlerBase.cpp\<close>; the child class, the communication interface, the power switcher and the
  fault isolation are the record \<open>device_ops\<close>. \<open>DeviceModeResults\<close>: its state machine comes to rest; \<open>DeviceReplies\<close>: what
  becomes of commands and replies.
  \<open>PollingTasks\<close>: \<open>FixedSlotSequence.cpp\<close>, the fixed timeslot and the periodic task of \<open>osal/linux\<close>, round by round.

  Conventions. The state of a class is a record with the class's members; an operation takes it and
  returns it updated together with the return code. Integers are words of their width. A C++ pointer
  into memory is the list of the bytes from there on or an offset into a buffer; a function that can
  leave a buffer returns \<open>None\<close> in that case, so that the theorems about \<open>Some\<close> results include the
  absence of undefined behaviour. Objects owned by one caller are values; maps of objects
  (\<open>std::map\<close>) are lists of pairs in key order. What the code asks the object manager for is an
  argument.

  What is shown. Each theory gives its state an invariant or an abstraction, proves that every operation
  keeps or refines it on every branch, and ends with the properties, numbered C1 to C40 over the whole
  development. Beside correctness statements there are statements of what the code does where it goes
  wrong: the exact input on which a pointer leaves its buffer, a flag is not cleared, a result is lost.

  Termination and bounds. The loops over data are total functions: the termination proofs use the bytes,
  slots or messages that remain. The loops over a queue whose handler may send to any queue
  (\<open>distribute_loop\<close>, \<open>funnel_loop\<close>, \<open>s1_loop\<close>, \<open>cs_request_loop\<close>, \<open>handleCommandQueue_loop\<close>,
  \<open>checkCommandQueue\<close>) and the loop over
  the slots of a commanding service (\<open>checkTimeout_loop\<close>) are partial functions with the value \<open>None\<close> where they do not
  return; the properties of the distributors and of the funnel show that they return. The only bound on a number of
  rounds is the code's own: \<open>parse_loop\<close> looks for a reply at most as often as bytes were received. The endless loops of the
  tasks are given by their rounds.
  A transition of an assembly ends within \<open>6 + 7 * k\<close> cycles and one of a device within \<open>8 + 9 * k\<close> steps past the deadlines, where
  \<open>k\<close> bounds the cycles that wait for answers or overwrite a health, and the times a child class sets its device back.
  Buffers keep the sizes of the code: 4096 bytes for a reassembled packet,
  1024 for a built frame, 28 for a message.

  Not modelled. Console output and printing; mutexes and threads (each operation is one step); the operating
  system layers other than the host's queue and the loops of the Linux tasks; the ASCII time formats (\<open>sscanf\<close>);
  floating-point code (thermal control, fuses and power sensors, orbit propagation, limit monitors). Not yet modelled, and next in the plan in this
  order: the fault isolation behind \<open>fdirTriggerEvent\<close> (\<open>fdir\<close>, \<open>DeviceHandlerFailureIsolation.cpp\<close>), parameters, the data pool and
  housekeeping, the power switcher, the remaining PUS services. The mode store of the subsystem (\<open>USE_MODESTORE\<close>) is not built.
\<close>

end
